(* ===== verification/Prelude.thy ===== *)
theory Prelude
  imports Main "HOL-Library.Word" "HOL-Library.Multiset"
begin

text \<open>
  Vocabulary shared by every component.

  Go strings are byte strings, which is what HOL's \<open>string\<close> (a list of 8-bit characters) is.
  An \<open>error\<close> of the code is a value of \<open>go_error\<close>; a function that returns
  \<open>(T, error)\<close> returns \<open>go_error + 'a\<close>. A UUID column of the database is sixteen bytes;
  a nullable one (\<open>pgtype.UUID\<close> with \<open>Valid = false\<close>) is an \<open>option\<close>.
\<close>

named_theorems result_simps \<open>equations that take a \<open>go_error + 'a\<close> result apart\<close>

type_synonym uuid = "128 word"

section \<open>Errors\<close>

text \<open>
  The sentinel errors of \<^verbatim>\<open>internal/service/errors.go\<close>, the two the database driver answers
  with and the code tests for (\<open>pgx.ErrNoRows\<close> and a unique violation, SQLSTATE 23505), a
  context deadline, \<open>jobqueue.ErrPermanent\<close>, any other error, \<open>fmt.Errorf("...: %w", err)\<close> around one and
  \<open>fmt.Errorf("%w: %w", a, b)\<close> around two.
\<close>

datatype go_error =
    ErrNotFound
  | ErrConflict
  | ErrNamespaceExists
  | ErrSignupClosed
  | is_ValidationError: ValidationError string
  | NoRows
  | UniqueViolation
  | DeadlineExceeded
  | ErrPermanent
  | OtherError string
  | Wrapped string go_error
  | Joined go_error go_error

type_synonym 'a result = "go_error + 'a"

text \<open>\<open>errors.Is\<close> and \<open>errors.As\<close> look through every wrapping, depth first.\<close>

fun error_leaves :: "go_error \<Rightarrow> go_error list" where
  "error_leaves (Wrapped m e) = error_leaves e"
| "error_leaves (Joined a b) = error_leaves a @ error_leaves b"
| "error_leaves e = [e]"

definition errors_is :: "go_error \<Rightarrow> go_error \<Rightarrow> bool" where
  "errors_is e target \<longleftrightarrow> List.member (error_leaves e) target"

definition isUniqueViolation :: "go_error \<Rightarrow> bool" where
  "isUniqueViolation e \<longleftrightarrow> errors_is e UniqueViolation"

lemma errors_is_Wrapped [simp]: "errors_is (Wrapped m e) t = errors_is e t"
  by (simp add: errors_is_def)

lemma errors_is_Joined [simp]: "errors_is (Joined a b) t \<longleftrightarrow> errors_is a t \<or> errors_is b t"
  by (simp add: errors_is_def)

lemma errors_is_sentinel [simp]:
  "errors_is ErrNotFound t \<longleftrightarrow> t = ErrNotFound"
  "errors_is ErrConflict t \<longleftrightarrow> t = ErrConflict"
  "errors_is ErrSignupClosed t \<longleftrightarrow> t = ErrSignupClosed"
  "errors_is NoRows t \<longleftrightarrow> t = NoRows"
  "errors_is UniqueViolation t \<longleftrightarrow> t = UniqueViolation"
  "errors_is (OtherError m) t \<longleftrightarrow> t = OtherError m"
  "errors_is (ValidationError m) t \<longleftrightarrow> t = ValidationError m"
  "errors_is ErrPermanent t \<longleftrightarrow> t = ErrPermanent"
  "errors_is DeadlineExceeded t \<longleftrightarrow> t = DeadlineExceeded"
  by (auto simp: errors_is_def)

text \<open>A call to the database can also fail for a reason outside the tables: the request's deadline
  passed, or anything else the driver reports.\<close>

datatype infra_failure = Timeout | Failure string

type_synonym fault = "infra_failure option"

fun fault_error :: "infra_failure \<Rightarrow> go_error" where
  "fault_error Timeout = DeadlineExceeded"
| "fault_error (Failure m) = OtherError m"

lemma fault_error_infra [simp]:
  "\<not> errors_is (fault_error f) NoRows" "\<not> errors_is (fault_error f) UniqueViolation"
  by (cases f; simp add: errors_is_def)+

section \<open>Results\<close>

definition bind_result :: "'e + 'a \<Rightarrow> ('a \<Rightarrow> 'e + 'b) \<Rightarrow> 'e + 'b" where
  "bind_result r f = (case r of Inl e \<Rightarrow> Inl e | Inr x \<Rightarrow> f x)"

lemma bind_result_simps [simp]:
  "bind_result (Inl e) f = Inl e"
  "bind_result (Inr x) f = f x"
  by (simp_all add: bind_result_def)

lemma bind_result_Inr_iff [result_simps]:
  "bind_result r f = Inr y \<longleftrightarrow> (\<exists>x. r = Inr x \<and> f x = Inr y)"
  by (cases r) auto

lemma bind_result_Inl_iff [result_simps]:
  "bind_result r f = Inl e \<longleftrightarrow> r = Inl e \<or> (\<exists>x. r = Inr x \<and> f x = Inl e)"
  by (cases r) auto

section \<open>Reading Go maps\<close>

text \<open>
  A Go map that is only read is an association list with distinct keys; \<open>m[k]\<close> of a missing
  key (or of a nil map) is the zero value of the element type.
\<close>

definition map_bool :: "('k \<times> bool) list \<Rightarrow> 'k \<Rightarrow> bool" where
  "map_bool m k = (case map_of m k of None \<Rightarrow> False | Some b \<Rightarrow> b)"

lemma map_bool_Nil [simp]: "map_bool [] k = False"
  by (simp add: map_bool_def)

lemma map_bool_Cons [simp]:
  "map_bool ((a, b) # m) k = (if a = k then b else map_bool m k)"
  by (simp add: map_bool_def)

lemma map_bool_eq:
  "distinct (map fst m) \<Longrightarrow> map_bool m k \<longleftrightarrow> (k, True) \<in> set m"
  using map_of_eq_Some_iff [of m k True]
  by (cases "map_of m k") (auto simp: map_bool_def)

lemma find_SomeD: "find P xs = Some x \<Longrightarrow> x \<in> set xs \<and> P x"
  by (induction xs) (auto split: if_splits)

lemma find_NoneD: "find P xs = None \<Longrightarrow> x \<in> set xs \<Longrightarrow> \<not> P x"
  by (induction xs) (auto split: if_splits)

section \<open>Strings\<close>

text \<open>\<open>strings.Compare\<close> and the string operators of Go order strings byte by byte.\<close>

abbreviation byte_of :: "char \<Rightarrow> nat" where
  "byte_of c \<equiv> of_char c"

lemma byte_bound: "byte_of c < 256"
  by (cases c) simp

fun str_cmp :: "string \<Rightarrow> string \<Rightarrow> int" where
  "str_cmp [] [] = 0"
| "str_cmp [] (b # bs) = -1"
| "str_cmp (a # as) [] = 1"
| "str_cmp (a # as) (b # bs) =
     (if byte_of a < byte_of b then -1
      else if byte_of b < byte_of a then 1
      else str_cmp as bs)"

definition str_less :: "string \<Rightarrow> string \<Rightarrow> bool" where
  "str_less a b \<longleftrightarrow> str_cmp a b < 0"

definition is_digit :: "char \<Rightarrow> bool" where
  "is_digit c \<longleftrightarrow> 48 \<le> byte_of c \<and> byte_of c \<le> 57"

text \<open>\<open>strings.HasPrefix\<close>, \<open>strings.TrimPrefix\<close> and \<open>strings.Split\<close> on one byte.\<close>

fun has_prefix :: "string \<Rightarrow> string \<Rightarrow> bool" where
  "has_prefix xs [] = True"
| "has_prefix [] (p # ps) = False"
| "has_prefix (x # xs) (p # ps) = (x = p \<and> has_prefix xs ps)"

definition trim_prefix :: "string \<Rightarrow> string \<Rightarrow> string" where
  "trim_prefix s p = (if has_prefix s p then drop (length p) s else s)"

fun split_on :: "char \<Rightarrow> string \<Rightarrow> string list" where
  "split_on c [] = [[]]"
| "split_on c (x # xs) =
     (if x = c then [] # split_on c xs
      else case split_on c xs of [] \<Rightarrow> [[x]] | w # ws \<Rightarrow> (x # w) # ws)"

lemma split_on_nonempty [simp]: "split_on c s \<noteq> []"
  by (induction s) (auto split: list.splits)

lemma has_prefix_iff: "has_prefix s p \<longleftrightarrow> (\<exists>t. s = p @ t)"
  by (induction s p rule: has_prefix.induct) auto

lemma str_cmp_refl [simp]: "str_cmp a a = 0"
  by (induction a) auto

lemma str_cmp_eq_0: "str_cmp a b = 0 \<Longrightarrow> a = b"
  by (induction a b rule: str_cmp.induct) (auto split: if_splits simp: not_less)

lemma str_cmp_swap: "str_cmp a b < 0 \<longleftrightarrow> 0 < str_cmp b a"
  by (induction a b rule: str_cmp.induct) auto

lemma str_cmp_Cons_le:
  "str_cmp (a # as) (b # bs) \<le> 0 \<longleftrightarrow>
   byte_of a < byte_of b \<or> byte_of a = byte_of b \<and> str_cmp as bs \<le> 0"
  by auto

lemma str_cmp_trans: "str_cmp a b \<le> 0 \<Longrightarrow> str_cmp b c \<le> 0 \<Longrightarrow> str_cmp a c \<le> 0"
proof (induction a b arbitrary: c rule: str_cmp.induct)
  case (4 x xs y ys)
  then obtain z zs where c: "c = z # zs" by (cases c) auto
  have IH: "str_cmp xs ys \<le> 0 \<Longrightarrow> str_cmp ys zs \<le> 0 \<Longrightarrow> byte_of x = byte_of y \<Longrightarrow>
      str_cmp xs zs \<le> 0"
    using "4.IH" by simp
  from "4.prems" c IH show ?case
    unfolding c str_cmp_Cons_le by (metis order.strict_trans)
next
  case (2 y ys)
  then show ?case by (cases c) auto
qed auto

lemma str_cmp_range: "str_cmp a b \<in> {-1, 0, 1}"
  by (induction a b rule: str_cmp.induct) auto

end
