(* ===== verification/GoSort.thy ===== *)
theory GoSort
  imports Prelude
begin

text \<open>
  Three-way comparison functions and sorting. \<open>slices.SortFunc\<close> takes a comparison that
  answers a negative number, zero or a positive number, and \<open>sort.Slice\<close> a strict order; both
  promise an ordered permutation of the input for a comparison that is a total preorder, and
  nothing about the order of equal elements. The locales state that contract, the library's
  lemmas are proved inside them once, and every comparison of the code is an interpretation.
\<close>

section \<open>The contract\<close>

definition sorted_by :: "('a \<Rightarrow> 'a \<Rightarrow> int) \<Rightarrow> 'a list \<Rightarrow> bool" where
  "sorted_by c xs \<longleftrightarrow> sorted_wrt (\<lambda>a b. c a b \<le> 0) xs"

fun insort_by :: "('a \<Rightarrow> 'a \<Rightarrow> int) \<Rightarrow> 'a \<Rightarrow> 'a list \<Rightarrow> 'a list" where
  "insort_by c x [] = [x]"
| "insort_by c x (y # ys) = (if c x y \<le> 0 then x # y # ys else y # insort_by c x ys)"

definition sort_by :: "('a \<Rightarrow> 'a \<Rightarrow> int) \<Rightarrow> 'a list \<Rightarrow> 'a list" where
  "sort_by c xs = foldr (insort_by c) xs []"

lemma mset_insort_by [simp]: "mset (insort_by c x xs) = add_mset x (mset xs)"
  by (induction xs) auto

lemma set_insort_by [simp]: "set (insort_by c x xs) = insert x (set xs)"
  by (induction xs) auto

lemma sort_by_Nil [simp]: "sort_by c [] = []"
  by (simp add: sort_by_def)

lemma sort_by_Cons [simp]: "sort_by c (x # xs) = insort_by c x (sort_by c xs)"
  by (simp add: sort_by_def)

lemma mset_sort_by [simp]: "mset (sort_by c xs) = mset xs"
  by (induction xs) auto

lemma set_sort_by [simp]: "set (sort_by c xs) = set xs"
  by (induction xs) auto

lemma length_sort_by [simp]: "length (sort_by c xs) = length xs"
  by (metis mset_sort_by size_mset)

lemma distinct_sort_by [simp]: "distinct (sort_by c xs) = distinct xs"
  by (metis mset_sort_by mset_eq_imp_distinct_iff)

locale comparator =
  fixes cmp :: "'a \<Rightarrow> 'a \<Rightarrow> int"
  assumes cmp_refl: "cmp a a = 0"
    and cmp_swap: "cmp a b < 0 \<longleftrightarrow> 0 < cmp b a"
    and cmp_trans: "cmp a b \<le> 0 \<Longrightarrow> cmp b c \<le> 0 \<Longrightarrow> cmp a c \<le> 0"
begin

lemma cmp_total: "cmp a b \<le> 0 \<or> cmp b a \<le> 0"
  using cmp_swap [of b a] by linarith

lemma cmp_le_iff: "cmp a b \<le> 0 \<longleftrightarrow> 0 \<le> cmp b a"
  using cmp_swap [of b a] cmp_swap [of a b] by linarith

lemma cmp_eq_sym: "cmp a b = 0 \<longleftrightarrow> cmp b a = 0"
  using cmp_swap [of a b] cmp_swap [of b a] by linarith

lemma cmp_eq_trans: "cmp a b = 0 \<Longrightarrow> cmp b c = 0 \<Longrightarrow> cmp a c = 0"
  using cmp_trans [of a b c] cmp_trans [of c b a] cmp_eq_sym [of a b] cmp_eq_sym [of b c]
    cmp_le_iff [of c a] by simp

lemma cmp_less_le_trans: "cmp a b < 0 \<Longrightarrow> cmp b c \<le> 0 \<Longrightarrow> cmp a c < 0"
  using cmp_trans [of a b c] cmp_trans [of b c a] cmp_le_iff [of a b] cmp_le_iff [of b a]
    cmp_le_iff [of c a] by linarith

lemma cmp_le_less_trans: "cmp a b \<le> 0 \<Longrightarrow> cmp b c < 0 \<Longrightarrow> cmp a c < 0"
  using cmp_trans [of a b c] cmp_trans [of c a b] cmp_le_iff [of b c] cmp_le_iff [of c b]
    cmp_le_iff [of c a] by linarith

lemma cmp_less_trans: "cmp a b < 0 \<Longrightarrow> cmp b c < 0 \<Longrightarrow> cmp a c < 0"
  using cmp_less_le_trans [of a b c] by linarith

lemma sorted_insort_by: "sorted_by cmp xs \<Longrightarrow> sorted_by cmp (insort_by cmp x xs)"
proof (induction xs)
  case (Cons y ys)
  show ?case
  proof (cases "cmp x y \<le> 0")
    case True
    with Cons.prems show ?thesis
      by (auto simp: sorted_by_def intro: cmp_trans)
  next
    case False
    then have "cmp y x \<le> 0" using cmp_total by blast
    with False Cons show ?thesis by (auto simp: sorted_by_def)
  qed
qed (simp add: sorted_by_def)

lemma sorted_sort_by: "sorted_by cmp (sort_by cmp xs)"
  by (induction xs) (simp_all add: sorted_insort_by sorted_by_def [of _ "[]"])

end

text \<open>
  A comparison without ties between distinct elements determines the sorted list, so the code's
  unstable sort and the model's insertion sort agree.
\<close>

locale linear_comparator = comparator +
  assumes cmp_eq: "cmp a b = 0 \<Longrightarrow> a = b"
begin

lemma sorted_unique:
  "sorted_by cmp xs \<Longrightarrow> sorted_by cmp ys \<Longrightarrow> mset xs = mset ys \<Longrightarrow> xs = ys"
proof (induction xs arbitrary: ys)
  case (Cons x xs)
  then obtain y ys' where ys: "ys = y # ys'" by (cases ys) simp_all
  have "x = y"
  proof (rule ccontr)
    assume ne: "x \<noteq> y"
    from Cons.prems(3) ys ne have "y \<in> set xs" "x \<in> set ys'"
      by (metis insert_iff list.simps(15) set_mset_mset)+
    with Cons.prems(1,2) ys have "cmp x y \<le> 0" "cmp y x \<le> 0"
      by (auto simp: sorted_by_def)
    then have "cmp x y = 0" using cmp_le_iff [of y x] by simp
    with ne show False using cmp_eq by blast
  qed
  with Cons ys show ?case by (auto simp: sorted_by_def)
qed simp

lemma sort_by_unique:
  "sorted_by cmp ys \<Longrightarrow> mset ys = mset xs \<Longrightarrow> ys = sort_by cmp xs"
  by (rule sorted_unique) (simp_all add: sorted_sort_by)

lemma sort_by_perm: "mset xs = mset ys \<Longrightarrow> sort_by cmp xs = sort_by cmp ys"
  by (rule sorted_unique) (simp_all add: sorted_sort_by)

end

section \<open>Building comparisons\<close>

definition int_cmp :: "int \<Rightarrow> int \<Rightarrow> int" where
  "int_cmp a b = (if a < b then -1 else if b < a then 1 else 0)"

definition on_key :: "('b \<Rightarrow> 'b \<Rightarrow> int) \<Rightarrow> ('a \<Rightarrow> 'b) \<Rightarrow> 'a \<Rightarrow> 'a \<Rightarrow> int" where
  "on_key c f a b = c (f a) (f b)"

definition then_cmp :: "('a \<Rightarrow> 'a \<Rightarrow> int) \<Rightarrow> ('a \<Rightarrow> 'a \<Rightarrow> int) \<Rightarrow> 'a \<Rightarrow> 'a \<Rightarrow> int" where
  "then_cmp c d a b = (if c a b \<noteq> 0 then c a b else d a b)"

definition reverse_cmp :: "('a \<Rightarrow> 'a \<Rightarrow> int) \<Rightarrow> 'a \<Rightarrow> 'a \<Rightarrow> int" where
  "reverse_cmp c a b = - c a b"

lemma comparator_int_cmp: "comparator int_cmp"
  by unfold_locales (auto simp: int_cmp_def split: if_splits)

lemma linear_int_cmp: "linear_comparator int_cmp"
  by unfold_locales (auto simp: int_cmp_def split: if_splits)

lemma linear_str_cmp: "linear_comparator str_cmp"
  by unfold_locales (auto simp: str_cmp_swap str_cmp_eq_0 intro: str_cmp_trans)

lemma comparator_on_key: "comparator c \<Longrightarrow> comparator (on_key c f)"
  unfolding comparator_def on_key_def by blast

lemma comparator_then_cmp:
  assumes "comparator c" and "comparator d"
  shows "comparator (then_cmp c d)"
proof
  fix x y z
  note c = comparator.cmp_le_iff [OF assms(1)] comparator.cmp_less_le_trans [OF assms(1)]
    comparator.cmp_le_less_trans [OF assms(1)] comparator.cmp_eq_trans [OF assms(1)]
  show "then_cmp c d x x = 0"
    using assms by (simp add: then_cmp_def comparator.cmp_refl)
  show "then_cmp c d x y < 0 \<longleftrightarrow> 0 < then_cmp c d y x"
    using comparator.cmp_swap [OF assms(1)] comparator.cmp_swap [OF assms(2)]
      comparator.cmp_eq_sym [OF assms(1)]
    by (auto simp: then_cmp_def)
  assume xy: "then_cmp c d x y \<le> 0" and yz: "then_cmp c d y z \<le> 0"
  from xy have cxy: "c x y \<le> 0" by (auto simp: then_cmp_def split: if_splits)
  from yz have cyz: "c y z \<le> 0" by (auto simp: then_cmp_def split: if_splits)
  show "then_cmp c d x z \<le> 0"
  proof (cases "c x y = 0 \<and> c y z = 0")
    case True
    with xy yz have "d x z \<le> 0"
      using comparator.cmp_trans [OF assms(2), of x y z] by (simp add: then_cmp_def)
    moreover from True have "c x z = 0" using c(4) by blast
    ultimately show ?thesis by (simp add: then_cmp_def)
  next
    case False
    with cxy cyz have "c x z < 0" using c(2) [of x y z] c(3) [of x y z] by linarith
    then show ?thesis by (simp add: then_cmp_def)
  qed
qed

lemma comparator_reverse_cmp: "comparator c \<Longrightarrow> comparator (reverse_cmp c)"
proof
  fix x y z
  assume c: "comparator c"
  show "reverse_cmp c x x = 0" using c by (simp add: reverse_cmp_def comparator.cmp_refl)
  show "reverse_cmp c x y < 0 \<longleftrightarrow> 0 < reverse_cmp c y x"
    using comparator.cmp_swap [OF c, of y x] by (simp add: reverse_cmp_def)
  assume "reverse_cmp c x y \<le> 0" "reverse_cmp c y z \<le> 0"
  then show "reverse_cmp c x z \<le> 0"
    using comparator.cmp_trans [OF c, of z y x] comparator.cmp_le_iff [OF c]
    by (simp add: reverse_cmp_def)
qed

lemma linear_comparatorI:
  "comparator c \<Longrightarrow> (\<And>a b. c a b = 0 \<Longrightarrow> a = b) \<Longrightarrow> linear_comparator c"
  by (simp add: linear_comparator_def linear_comparator_axioms_def)

subsection \<open>Padded lexicographic comparison\<close>

text \<open>
  Compare two lists element by element, the shorter one continued with a padding element: the
  reference definition of the Debian version order's two nested loops.
\<close>

fun lex_pad :: "('a \<Rightarrow> 'a \<Rightarrow> int) \<Rightarrow> 'a \<Rightarrow> 'a list \<Rightarrow> 'a list \<Rightarrow> int" where
  "lex_pad c d [] [] = 0"
| "lex_pad c d (x # xs) [] = (if c x d \<noteq> 0 then c x d else lex_pad c d xs [])"
| "lex_pad c d [] (y # ys) = (if c d y \<noteq> 0 then c d y else lex_pad c d [] ys)"
| "lex_pad c d (x # xs) (y # ys) = (if c x y \<noteq> 0 then c x y else lex_pad c d xs ys)"

definition hd_or :: "'a \<Rightarrow> 'a list \<Rightarrow> 'a" where
  "hd_or d xs = (case xs of [] \<Rightarrow> d | x # _ \<Rightarrow> x)"

lemma hd_or_simps [simp]: "hd_or d [] = d" "hd_or d (x # xs) = x"
  by (simp_all add: hd_or_def)

lemma lex_pad_unfold:
  "c d d = 0 \<Longrightarrow>
   lex_pad c d xs ys =
     (if c (hd_or d xs) (hd_or d ys) \<noteq> 0 then c (hd_or d xs) (hd_or d ys)
      else lex_pad c d (tl xs) (tl ys))"
  by (cases xs; cases ys) auto

lemma comparator_lex_pad:
  assumes c: "comparator c"
  shows "comparator (lex_pad c d)"
proof
  note c_refl = comparator.cmp_refl [OF c]
  note unfold = lex_pad_unfold [where c = c and d = d, OF c_refl]
  fix xs ys zs
  show "lex_pad c d xs xs = 0" by (induction xs) (auto simp: c_refl)
  have eq0: "(c x y = 0) = (c y x = 0)" for x y
    by (rule comparator.cmp_eq_sym [OF c])
  show "lex_pad c d xs ys < 0 \<longleftrightarrow> 0 < lex_pad c d ys xs"
  proof (induction "length xs + length ys" arbitrary: xs ys rule: less_induct)
    case less
    let ?x = "hd_or d xs" and ?y = "hd_or d ys"
    show ?case
    proof (cases "xs = [] \<and> ys = []")
      case False
      then have "length (tl xs) + length (tl ys) < length xs + length ys"
        by (cases xs; cases ys) auto
      then have "lex_pad c d (tl xs) (tl ys) < 0 \<longleftrightarrow> 0 < lex_pad c d (tl ys) (tl xs)"
        by (rule less.hyps)
      then show ?thesis
        using unfold [of xs ys] unfold [of ys xs] comparator.cmp_swap [OF c, of ?x ?y]
          eq0 [of ?x ?y] by simp
    qed simp
  qed
  show "lex_pad c d xs ys \<le> 0 \<Longrightarrow> lex_pad c d ys zs \<le> 0 \<Longrightarrow> lex_pad c d xs zs \<le> 0"
  proof (induction "length xs + length ys + length zs" arbitrary: xs ys zs rule: less_induct)
    case less
    let ?x = "hd_or d xs" and ?y = "hd_or d ys" and ?z = "hd_or d zs"
    show ?case
    proof (cases "xs = [] \<and> ys = [] \<and> zs = []")
      case False
      then have shorter:
        "length (tl xs) + length (tl ys) + length (tl zs) < length xs + length ys + length zs"
        by (cases xs; cases ys; cases zs) auto
      from less.prems have xy: "c ?x ?y \<le> 0" and yz: "c ?y ?z \<le> 0"
        using unfold [of xs ys] unfold [of ys zs] by (auto split: if_splits)
      show ?thesis
      proof (cases "c ?x ?y = 0 \<and> c ?y ?z = 0")
        case True
        then have "c ?x ?z = 0" using comparator.cmp_eq_trans [OF c] by blast
        moreover from True less.prems have
          "lex_pad c d (tl xs) (tl ys) \<le> 0" "lex_pad c d (tl ys) (tl zs) \<le> 0"
          using unfold [of xs ys] unfold [of ys zs] by simp_all
        ultimately show ?thesis
          using less.hyps [OF shorter] unfold [of xs zs] by simp
      next
        case False
        with xy yz have "c ?x ?z < 0"
          using comparator.cmp_less_le_trans [OF c, of ?x ?y ?z]
            comparator.cmp_le_less_trans [OF c, of ?x ?y ?z] by linarith
        then show ?thesis using unfold [of xs zs] by simp
      qed
    qed (use less.prems in simp)
  qed
qed

interpretation str: linear_comparator str_cmp
  by (rule linear_str_cmp)

interpretation int: linear_comparator int_cmp
  by (rule linear_int_cmp)

end
