(* ===== verification/Authz.thy ===== *)
theory Authz
  imports GoSort
begin

text \<open>
  The capability model of \<^verbatim>\<open>internal/authz/capability.go\<close>: the role \<open>\<times>\<close> capability table, the
  questions asked of it (\<open>Allows\<close>, \<open>Dominates\<close>, \<open>RolesWith\<close>, \<open>Allow\<close>) and the parsing and
  rendering of capability lists. Roles and capabilities are Go strings, so every function is
  total on arbitrary strings: a value no constant names is an unknown role or capability.
\<close>

type_synonym capability = string
type_synonym role = string

section \<open>Constants and the table\<close>

definition CapReadPrivate :: capability where "CapReadPrivate = ''read_private''"
definition CapIngest :: capability where "CapIngest = ''ingest''"
definition CapTriggerScan :: capability where "CapTriggerScan = ''trigger_scan''"
definition CapPushInventory :: capability where "CapPushInventory = ''push_inventory''"
definition CapDeleteArtifact :: capability where "CapDeleteArtifact = ''delete_artifact''"
definition CapManageSource :: capability where "CapManageSource = ''manage_source''"
definition CapManageCluster :: capability where "CapManageCluster = ''manage_cluster''"
definition CapReadSecret :: capability where "CapReadSecret = ''read_secret''"
definition CapManageMember :: capability where "CapManageMember = ''manage_member''"
definition CapDeleteNamespace :: capability where "CapDeleteNamespace = ''delete_namespace''"

definition RoleOwner :: role where "RoleOwner = ''owner''"
definition RoleMaintainer :: role where "RoleMaintainer = ''maintainer''"
definition RoleSecurity :: role where "RoleSecurity = ''security''"
definition RoleDeveloper :: role where "RoleDeveloper = ''developer''"
definition RoleViewer :: role where "RoleViewer = ''viewer''"

definition globalRoleAdmin :: string where "globalRoleAdmin = ''admin''"
definition globalRoleViewer :: string where "globalRoleViewer = ''viewer''"

lemmas cap_defs = CapReadPrivate_def CapIngest_def CapTriggerScan_def CapPushInventory_def
  CapDeleteArtifact_def CapManageSource_def CapManageCluster_def CapReadSecret_def
  CapManageMember_def CapDeleteNamespace_def

lemmas role_defs = RoleOwner_def RoleMaintainer_def RoleSecurity_def RoleDeveloper_def
  RoleViewer_def globalRoleAdmin_def globalRoleViewer_def

definition allRoles :: "role list" where
  "allRoles = [RoleOwner, RoleMaintainer, RoleSecurity, RoleDeveloper, RoleViewer]"

definition allCapabilities :: "capability list" where
  "allCapabilities =
     [CapReadPrivate, CapIngest, CapTriggerScan, CapPushInventory, CapDeleteArtifact,
      CapManageSource, CapManageCluster, CapReadSecret, CapManageMember, CapDeleteNamespace]"

definition roleCaps :: "(role \<times> (capability \<times> bool) list) list" where
  "roleCaps =
     [(RoleOwner,
       [(CapReadPrivate, True), (CapIngest, True), (CapTriggerScan, True),
        (CapPushInventory, True), (CapDeleteArtifact, True), (CapManageSource, True),
        (CapManageCluster, True), (CapReadSecret, True), (CapManageMember, True),
        (CapDeleteNamespace, True)]),
      (RoleMaintainer,
       [(CapReadPrivate, True), (CapIngest, True), (CapTriggerScan, True),
        (CapPushInventory, True), (CapDeleteArtifact, True), (CapManageSource, True),
        (CapManageCluster, True), (CapReadSecret, True), (CapManageMember, False),
        (CapDeleteNamespace, False)]),
      (RoleSecurity,
       [(CapReadPrivate, True), (CapIngest, False), (CapTriggerScan, True),
        (CapPushInventory, False), (CapDeleteArtifact, False), (CapManageSource, False),
        (CapManageCluster, False), (CapReadSecret, False), (CapManageMember, False),
        (CapDeleteNamespace, False)]),
      (RoleDeveloper,
       [(CapReadPrivate, True), (CapIngest, True), (CapTriggerScan, True),
        (CapPushInventory, True), (CapDeleteArtifact, False), (CapManageSource, False),
        (CapManageCluster, False), (CapReadSecret, False), (CapManageMember, False),
        (CapDeleteNamespace, False)]),
      (RoleViewer,
       [(CapReadPrivate, True), (CapIngest, False), (CapTriggerScan, False),
        (CapPushInventory, False), (CapDeleteArtifact, False), (CapManageSource, False),
        (CapManageCluster, False), (CapReadSecret, False), (CapManageMember, False),
        (CapDeleteNamespace, False)])]"

text \<open>\<open>roleCaps[r]\<close>: the nil map for an unknown role.\<close>

definition caps_of :: "role \<Rightarrow> (capability \<times> bool) list" where
  "caps_of r = (case map_of roleCaps r of None \<Rightarrow> [] | Some m \<Rightarrow> m)"

section \<open>Operations\<close>

definition Allows :: "role \<Rightarrow> capability \<Rightarrow> bool" where
  "Allows r c = map_bool (caps_of r) c"

definition Role_Valid :: "role \<Rightarrow> bool" where
  "Role_Valid r = (map_of roleCaps r \<noteq> None)"

definition Capabilities :: "role \<Rightarrow> capability list" where
  "Capabilities r = filter (\<lambda>c. map_bool (caps_of r) c) allCapabilities"

text \<open>The loop returns false at the first capability the other role holds and this one does not;
  the order in which the map is iterated does not matter.\<close>

definition Dominates :: "role \<Rightarrow> role \<Rightarrow> bool" where
  "Dominates r other = list_all (\<lambda>(c, held). \<not> (held \<and> \<not> map_bool (caps_of r) c)) (caps_of other)"

definition knownCapabilities :: "(capability \<times> bool) list" where
  "knownCapabilities = map (\<lambda>c. (c, True)) allCapabilities"

definition Capability_Valid :: "capability \<Rightarrow> bool" where
  "Capability_Valid c = map_bool knownCapabilities c"

definition Mutating :: "capability \<Rightarrow> bool" where
  "Mutating c = (c \<noteq> CapReadPrivate)"

fun ParseCapabilities :: "string list \<Rightarrow> capability list result" where
  "ParseCapabilities [] = Inr []"
| "ParseCapabilities (n # ns) =
     (if \<not> Capability_Valid n then Inl (OtherError (''unknown capability '' @ n))
      else bind_result (ParseCapabilities ns) (\<lambda>out. Inr (n # out)))"

definition Strings :: "capability list \<Rightarrow> string list" where
  "Strings caps = map (\<lambda>c. c) caps"

definition Allow :: "string \<Rightarrow> role \<Rightarrow> bool \<Rightarrow> capability \<Rightarrow> bool" where
  "Allow globalRole member present c =
     (if globalRole = globalRoleAdmin then True
      else if \<not> present then False
      else if globalRole = globalRoleViewer then c = CapReadPrivate \<and> Allows member c
      else Allows member c)"

definition RolesWith :: "capability \<Rightarrow> string list" where
  "RolesWith c = filter (\<lambda>r. Allows r c) allRoles"

section \<open>The table's shape\<close>

lemma roleCaps_keys: "map fst roleCaps = allRoles"
  by (simp add: roleCaps_def allRoles_def)

lemma caps_of_unfold:
  "caps_of r = (if r \<in> set allRoles then the (map_of roleCaps r) else [])"
proof (cases "map_of roleCaps r")
  case None
  then have "r \<notin> fst ` set roleCaps" by (simp add: map_of_eq_None_iff)
  with None show ?thesis
    using roleCaps_keys by (simp add: caps_of_def flip: set_map)
next
  case (Some m)
  then have "r \<in> set (map fst roleCaps)" by (force dest: map_of_SomeD)
  with Some show ?thesis by (simp add: caps_of_def roleCaps_keys)
qed

lemma role_table [simp]:
  "caps_of RoleOwner = map (\<lambda>c. (c, True)) allCapabilities"
  "caps_of RoleMaintainer =
     map (\<lambda>c. (c, c \<noteq> CapManageMember \<and> c \<noteq> CapDeleteNamespace)) allCapabilities"
  "caps_of RoleSecurity =
     map (\<lambda>c. (c, c = CapReadPrivate \<or> c = CapTriggerScan)) allCapabilities"
  "caps_of RoleDeveloper =
     map (\<lambda>c. (c, c = CapReadPrivate \<or> c = CapIngest \<or> c = CapTriggerScan
                   \<or> c = CapPushInventory)) allCapabilities"
  "caps_of RoleViewer = map (\<lambda>c. (c, c = CapReadPrivate)) allCapabilities"
  by (simp_all add: caps_of_def roleCaps_def allCapabilities_def cap_defs role_defs)

lemma allRoles_cases [consumes 1, case_names owner maintainer security developer viewer]:
  assumes "r \<in> set allRoles"
  obtains "r = RoleOwner" | "r = RoleMaintainer" | "r = RoleSecurity" | "r = RoleDeveloper"
    | "r = RoleViewer"
  using assms by (auto simp: allRoles_def)

lemma map_bool_of_list: "map_bool (map (\<lambda>c. (c, f c)) cs) k \<longleftrightarrow> k \<in> set cs \<and> f k"
  by (induction cs) auto

lemma Allows_unknown_role: "r \<notin> set allRoles \<Longrightarrow> \<not> Allows r c"
  by (simp add: Allows_def caps_of_unfold)

lemma caps_of_complete: "r \<in> set allRoles \<Longrightarrow> map fst (caps_of r) = allCapabilities"
  by (cases r rule: allRoles_cases) (simp_all add: comp_def)

lemma distinct_allCapabilities: "distinct allCapabilities"
  by (simp add: allCapabilities_def cap_defs)

lemma Role_Valid_iff: "Role_Valid r \<longleftrightarrow> r \<in> set allRoles"
  using roleCaps_keys by (simp add: Role_Valid_def map_of_eq_None_iff flip: set_map)

lemma Allows_iff_Capabilities: "Allows r c \<longleftrightarrow> c \<in> set (Capabilities r)"
proof (cases "r \<in> set allRoles")
  case True
  then have "Allows r c \<Longrightarrow> c \<in> set allCapabilities"
    using caps_of_complete [of r]
    by (auto simp: Allows_def map_bool_def split: option.splits dest!: map_of_SomeD)
      (metis image_eqI fst_conv list.set_map)
  then show ?thesis by (auto simp: Capabilities_def Allows_def)
qed (simp add: Capabilities_def Allows_def caps_of_unfold)

lemma Allows_Valid: "Allows r c \<Longrightarrow> Capability_Valid c"
  by (simp add: Allows_iff_Capabilities Capability_Valid_def knownCapabilities_def
      map_bool_of_list Capabilities_def)

lemma RolesWith_iff: "r \<in> set (RolesWith c) \<longleftrightarrow> Allows r c"
  using Allows_unknown_role by (auto simp: RolesWith_def)

lemma distinct_caps_of: "distinct (map fst (caps_of s))"
proof (cases "s \<in> set allRoles")
  case True
  then show ?thesis by (simp only: caps_of_complete distinct_allCapabilities)
qed (simp add: caps_of_unfold)

lemma Dominates_iff: "Dominates r s \<longleftrightarrow> (\<forall>c. Allows s c \<longrightarrow> Allows r c)"
  using map_bool_eq [OF distinct_caps_of, of s]
  by (auto simp: Dominates_def Allows_def list_all_iff)

section \<open>Properties\<close>

text \<open>Role dominance is exactly containment of authority. For arbitrary role strings, known or
  not, \<open>Dominates r s\<close> holds if and only if every capability that \<open>Allow\<close> ever gives a member
  with role \<open>s\<close>, whatever the installation-wide role, it also gives a member with role \<open>r\<close>.\<close>

theorem Dominates_exact:
  "Dominates r s \<longleftrightarrow> {(g, c). Allow g s True c} \<subseteq> {(g, c). Allow g r True c}"
proof
  assume "Dominates r s"
  then show "{(g, c). Allow g s True c} \<subseteq> {(g, c). Allow g r True c}"
    by (auto simp: Dominates_iff Allow_def split: if_splits)
next
  assume sub: "{(g, c). Allow g s True c} \<subseteq> {(g, c). Allow g r True c}"
  have "Allow ''member'' x True c \<longleftrightarrow> Allows x c" for x c
    by (simp add: Allow_def role_defs)
  with sub show "Dominates r s" by (auto simp: Dominates_iff)
qed

lemma Dominates_unknown: "\<not> Role_Valid s \<Longrightarrow> Dominates r s"
  by (simp add: Dominates_iff Role_Valid_iff Allows_unknown_role)

lemma Dominates_by_unknown: "Role_Valid s \<Longrightarrow> \<not> Role_Valid r \<Longrightarrow> \<not> Dominates r s"
proof -
  assume s: "Role_Valid s" and r: "\<not> Role_Valid r"
  from s have "s \<in> set allRoles" by (simp add: Role_Valid_iff)
  then have "Allows s CapReadPrivate"
    by (cases s rule: allRoles_cases)
      (simp_all add: Allows_def map_bool_of_list allCapabilities_def, simp add: cap_defs)
  with r show ?thesis by (auto simp: Dominates_iff Role_Valid_iff Allows_unknown_role)
qed

text \<open>The rank of a known role in the order dominance turns out to be.\<close>

definition role_rank :: "role \<Rightarrow> nat" where
  "role_rank r =
     (if r = RoleOwner then 4 else if r = RoleMaintainer then 3
      else if r = RoleDeveloper then 2 else if r = RoleSecurity then 1 else 0)"

lemma Dominates_known_list:
  "list_all (\<lambda>r. list_all (\<lambda>s. Dominates r s = (role_rank s \<le> role_rank r)) allRoles) allRoles"
  by code_simp

lemma Dominates_known:
  "r \<in> set allRoles \<Longrightarrow> s \<in> set allRoles \<Longrightarrow> Dominates r s \<longleftrightarrow> role_rank s \<le> role_rank r"
  using Dominates_known_list by (simp only: list_all_iff)

lemma Dominates_owner [simp]: "Dominates RoleOwner r"
proof (cases "r \<in> set allRoles")
  case True
  then show ?thesis
    using Dominates_known [of RoleOwner r]
    by (cases r rule: allRoles_cases) (simp_all add: allRoles_def role_rank_def)
qed (simp add: Dominates_unknown Role_Valid_iff)

text \<open>The dominance relation on all role strings, in closed form: an unknown role is dominated by
  everything and dominates no known role, and the five known roles form a chain under dominance,
  owner above maintainer above developer above security above viewer. (The comment on
  \<open>Role.Dominates\<close> says they are not a chain, and that security and developer each hold something
  the other does not; the table gives developer everything security has.)\<close>

theorem Dominates_table:
  "{(r, s). Dominates r s} =
     {(r, s). \<not> Role_Valid s} \<union>
     {(r, s). Role_Valid r \<and> Role_Valid s \<and> role_rank s \<le> role_rank r}"
  (is "?L = ?R")
proof (rule set_eqI)
  fix p :: "role \<times> role"
  obtain r s where p: "p = (r, s)" by (cases p)
  show "p \<in> ?L \<longleftrightarrow> p \<in> ?R"
  proof (cases "Role_Valid r \<and> Role_Valid s")
    case True
    then show ?thesis using Dominates_known [of r s] by (simp add: p Role_Valid_iff)
  next
    case False
    then show ?thesis
      using Dominates_unknown [of s r] Dominates_by_unknown [of s r] by (auto simp: p)
  qed
qed

text \<open>The row filter the database is given agrees with the check the API makes: a member passes
  \<open>Allow\<close> for a capability exactly when an installation admin, or a member whose role is in
  \<open>RolesWith\<close> of that capability, with the one difference that an installation-wide viewer is
  capped at reading.\<close>

theorem Allow_RolesWith:
  "Allow g m present c \<longleftrightarrow>
     g = globalRoleAdmin \<or>
     present \<and> m \<in> set (RolesWith c) \<and> \<not> (g = globalRoleViewer \<and> c \<noteq> CapReadPrivate)"
  by (auto simp: Allow_def RolesWith_iff)

lemma ParseCapabilities_all_valid:
  "ParseCapabilities ns = Inr cs \<longleftrightarrow> cs = ns \<and> list_all Capability_Valid ns"
  by (induction ns arbitrary: cs) (auto simp: result_simps)

text \<open>Reading a stored capability list back is all or nothing and loses nothing: parsing succeeds
  exactly when every name is known, and then rendering the parsed list gives the input back.\<close>

theorem ParseCapabilities_roundtrip:
  "(case ParseCapabilities names of
      Inr caps \<Rightarrow> Strings caps = names \<and> set names \<subseteq> set allCapabilities
    | Inl e \<Rightarrow> (\<exists>n \<in> set names. n \<notin> set allCapabilities))"
proof (induction names)
  case (Cons n ns)
  have "Capability_Valid n \<longleftrightarrow> n \<in> set allCapabilities"
    by (simp add: Capability_Valid_def knownCapabilities_def map_bool_of_list)
  with Cons show ?case
    by (auto simp: Strings_def split: sum.splits)
qed (simp add: Strings_def)

end
