(* ===== verification/Principal.thy ===== *)
theory Principal
  imports Authz
begin

text \<open>
  The authenticated principal of a request and the checks the API layer makes of it: the key
  ceiling of \<^verbatim>\<open>internal/service/auth.go\<close>, \<open>can\<close>, \<open>mayGrant\<close> and the visibility filters of
  \<^verbatim>\<open>internal/api/authz.go\<close>, and the authentication and authorization middlewares of
  \<^verbatim>\<open>internal/api/middleware.go\<close>. A middleware is a function from the request's context to the
  error it writes, or \<open>None\<close> when it calls the next handler.
\<close>

section \<open>UUIDs as strings\<close>

definition hex_digit :: "nat \<Rightarrow> char" where
  "hex_digit n = (if n < 10 then char_of (48 + n) else char_of (87 + n))"

fun hex_fixed :: "nat \<Rightarrow> nat \<Rightarrow> string" where
  "hex_fixed 0 v = []"
| "hex_fixed (Suc n) v = hex_fixed n (v div 16) @ [hex_digit (v mod 16)]"

text \<open>\<open>fmt.Sprintf("%08x-%04x-%04x-%04x-%012x", ...)\<close> over the sixteen bytes; \<open>""\<close> for NULL.\<close>

definition uuid_str :: "uuid \<Rightarrow> string" where
  "uuid_str u =
     (let v = unat u in
      hex_fixed 8 (v div 2 ^ 96) @ ''-'' @
      hex_fixed 4 (v div 2 ^ 80 mod 2 ^ 16) @ ''-'' @
      hex_fixed 4 (v div 2 ^ 64 mod 2 ^ 16) @ ''-'' @
      hex_fixed 4 (v div 2 ^ 48 mod 2 ^ 16) @ ''-'' @
      hex_fixed 12 (v mod 2 ^ 48))"

definition uuidToStr :: "uuid option \<Rightarrow> string" where
  "uuidToStr u = (case u of None \<Rightarrow> [] | Some b \<Rightarrow> uuid_str b)"

lemma length_hex_fixed [simp]: "length (hex_fixed n v) = n"
  by (induction n arbitrary: v) auto

lemma hex_digit_inj: "a < 16 \<Longrightarrow> b < 16 \<Longrightarrow> hex_digit a = hex_digit b \<Longrightarrow> a = b"
proof -
  assume ab: "a < 16" "b < 16" and eq: "hex_digit a = hex_digit b"
  have code: "n < 16 \<Longrightarrow> byte_of (hex_digit n) = (if n < 10 then 48 + n else 87 + n)" for n
    by (simp add: hex_digit_def)
  from eq have "byte_of (hex_digit a) = byte_of (hex_digit b)" by simp
  with ab show "a = b" by (auto simp: code split: if_splits)
qed

lemma hex_fixed_inj:
  "v < 16 ^ n \<Longrightarrow> w < 16 ^ n \<Longrightarrow> hex_fixed n v = hex_fixed n w \<Longrightarrow> v = w"
proof (induction n arbitrary: v w)
  case (Suc n)
  from Suc.prems(3) have "hex_fixed n (v div 16) = hex_fixed n (w div 16)"
    and "hex_digit (v mod 16) = hex_digit (w mod 16)" by simp_all
  moreover from Suc.prems(1,2) have "v div 16 < 16 ^ n" "w div 16 < 16 ^ n"
    by (simp_all add: less_mult_imp_div_less mult.commute)
  ultimately have "v div 16 = w div 16" "v mod 16 = w mod 16"
    using Suc.IH hex_digit_inj [of "v mod 16" "w mod 16"] by simp_all
  then show ?case by (metis div_mult_mod_eq)
qed simp

lemma split_bits: "(v::nat) = (v div 2 ^ k) * 2 ^ k + v mod 2 ^ k"
  by (simp only: div_mult_mod_eq)

lemma uuid_str_inj: "uuid_str a = uuid_str b \<Longrightarrow> a = b"
proof -
  assume eq: "uuid_str a = uuid_str b"
  have bound: "unat x < 2 ^ 128" for x :: uuid
  proof -
    have "unat x < 2 ^ LENGTH(128)" by (rule unsigned_less)
    then show ?thesis by simp
  qed
  have top: "unat x div 2 ^ 96 < 16 ^ 8" for x :: uuid
    using bound [of x] by (simp add: less_mult_imp_div_less)
  have low: "v mod 2 ^ 48 < 16 ^ 12" "v mod 2 ^ 16 < 16 ^ 4" for v :: nat
    by simp_all
  from eq have parts:
    "hex_fixed 8 (unat a div 2 ^ 96) = hex_fixed 8 (unat b div 2 ^ 96)"
    "hex_fixed 4 (unat a div 2 ^ 80 mod 2 ^ 16) = hex_fixed 4 (unat b div 2 ^ 80 mod 2 ^ 16)"
    "hex_fixed 4 (unat a div 2 ^ 64 mod 2 ^ 16) = hex_fixed 4 (unat b div 2 ^ 64 mod 2 ^ 16)"
    "hex_fixed 4 (unat a div 2 ^ 48 mod 2 ^ 16) = hex_fixed 4 (unat b div 2 ^ 48 mod 2 ^ 16)"
    "hex_fixed 12 (unat a mod 2 ^ 48) = hex_fixed 12 (unat b mod 2 ^ 48)"
    unfolding uuid_str_def Let_def by simp_all
  note p = parts(1) [THEN hex_fixed_inj [OF top top]]
    parts(2) [THEN hex_fixed_inj [OF low(2) low(2)]]
    parts(3) [THEN hex_fixed_inj [OF low(2) low(2)]]
    parts(4) [THEN hex_fixed_inj [OF low(2) low(2)]]
    parts(5) [THEN hex_fixed_inj [OF low(1) low(1)]]
  have step: "v div 2 ^ k = (v div 2 ^ (k + 16)) * 2 ^ 16 + v div 2 ^ k mod 2 ^ 16" for v k :: nat
    using split_bits [of "v div 2 ^ k" 16] by (simp add: div_mult2_eq power_add)
  have "unat a div 2 ^ 80 = unat b div 2 ^ 80"
    using step [of "unat a" 80] step [of "unat b" 80] p(1,2) by simp
  then have "unat a div 2 ^ 64 = unat b div 2 ^ 64"
    using step [of "unat a" 64] step [of "unat b" 64] p(3) by simp
  then have "unat a div 2 ^ 48 = unat b div 2 ^ 48"
    using step [of "unat a" 48] step [of "unat b" 48] p(4) by simp
  then have "unat a = unat b"
    using split_bits [of "unat a" 48] split_bits [of "unat b" 48] p(5) by simp
  then show "a = b" by (simp add: word_unat_eq_iff)
qed

lemma uuid_str_nonempty [simp]: "uuid_str u \<noteq> []" "[] \<noteq> uuid_str u"
  by (simp_all add: uuid_str_def Let_def)

lemma uuidToStr_simps [simp]: "uuidToStr None = []" "uuidToStr (Some u) = uuid_str u"
  by (simp_all add: uuidToStr_def)

lemma uuidToStr_inj: "uuidToStr a = uuidToStr b \<longleftrightarrow> a = b"
  by (cases a; cases b) (auto dest: uuid_str_inj)

section \<open>The principal\<close>

record auth_user =
  au_id :: "uuid option"
  au_display :: string
  au_role :: string
  au_api_key_auth :: bool
  au_api_key_caps :: "capability list"
  au_grants :: "string \<rightharpoonup> role"

definition roleAdmin :: string where "roleAdmin = ''admin''"
definition roleMember :: string where "roleMember = ''member''"

definition KeyAllows :: "auth_user \<Rightarrow> capability \<Rightarrow> bool" where
  "KeyAllows u c =
     (if \<not> au_api_key_auth u then True else list_ex (\<lambda>held. held = c) (au_api_key_caps u))"

definition KeyAllowsAnyWrite :: "auth_user \<Rightarrow> bool" where
  "KeyAllowsAnyWrite u =
     (if \<not> au_api_key_auth u then True else list_ex Mutating (au_api_key_caps u))"

text \<open>The rows of \<open>ListNamespaceMembershipsForUser\<close>, folded into the grants map: a later row of
  the same namespace replaces an earlier one. A NULL user id has no grants.\<close>

fun grants_of_rows :: "(uuid option \<times> role) list \<Rightarrow> (string \<rightharpoonup> role) \<Rightarrow> (string \<rightharpoonup> role)" where
  "grants_of_rows [] out = out"
| "grants_of_rows ((ns, r) # rows) out = grants_of_rows rows (out(uuidToStr ns \<mapsto> r))"

definition LoadGrants ::
  "(uuid \<Rightarrow> (uuid option \<times> role) list result) \<Rightarrow> uuid option \<Rightarrow> (string \<rightharpoonup> role) result" where
  "LoadGrants list_memberships user =
     (case user of
        None \<Rightarrow> Inr Map.empty
      | Some uid \<Rightarrow>
          (case list_memberships uid of
             Inl e \<Rightarrow> Inl (Wrapped ''loading namespace grants'' e)
           | Inr rows \<Rightarrow> Inr (grants_of_rows rows Map.empty)))"

section \<open>Capability checks\<close>

definition can :: "auth_user \<Rightarrow> string \<Rightarrow> capability \<Rightarrow> bool" where
  "can u ns c =
     (if \<not> KeyAllows u c then False
      else
        let (role, present) =
              (if ns = [] then ([], False)
               else case au_grants u ns of None \<Rightarrow> ([], False) | Some r \<Rightarrow> (r, True))
        in Allow (au_role u) role present c)"

definition mayGrant :: "auth_user \<Rightarrow> string \<Rightarrow> role \<Rightarrow> bool" where
  "mayGrant u ns role =
     (if au_role u = roleAdmin then True
      else case au_grants u ns of
             None \<Rightarrow> False
           | Some callerRole \<Rightarrow> if ns = [] then False else Dominates callerRole role)"

definition canFromContext :: "auth_user option \<Rightarrow> string \<Rightarrow> capability \<Rightarrow> bool" where
  "canFromContext ctx ns c = (case ctx of None \<Rightarrow> False | Some u \<Rightarrow> can u ns c)"

record visibility_filter =
  vf_is_admin :: bool
  vf_user_id :: "uuid option"
  vf_owned_only :: bool

definition zero_filter :: visibility_filter where
  "zero_filter = \<lparr>vf_is_admin = False, vf_user_id = None, vf_owned_only = False\<rparr>"

definition visibilityFilterFromContext :: "auth_user option \<Rightarrow> visibility_filter" where
  "visibilityFilterFromContext ctx =
     (case ctx of
        None \<Rightarrow> zero_filter
      | Some u \<Rightarrow> zero_filter\<lparr>vf_is_admin := (au_role u = roleAdmin), vf_user_id := au_id u\<rparr>)"

definition ownedFilterFromContext :: "auth_user option \<Rightarrow> visibility_filter" where
  "ownedFilterFromContext ctx =
     (case ctx of
        None \<Rightarrow> zero_filter\<lparr>vf_owned_only := True\<rparr>
      | Some u \<Rightarrow> zero_filter\<lparr>vf_user_id := au_id u, vf_owned_only := True\<rparr>)"

section \<open>Middlewares\<close>

type_synonym http_error = "nat \<times> string"

datatype auth_method = AuthNone | AuthBearer | AuthCookie

text \<open>The three service calls authentication makes, as the request sees their answers.\<close>

record auth_calls =
  ac_validate_key :: "string \<Rightarrow> auth_user result"
  ac_validate_session :: "string \<Rightarrow> auth_user result"
  ac_load_grants :: "uuid option \<Rightarrow> (string \<rightharpoonup> role) result"

definition bearer_prefix :: string where "bearer_prefix = ''Bearer ''"

text \<open>\<open>header\<close> is the Authorization header (empty when absent) and \<open>cookie\<close> the session cookie.
  The result is the context the next handler sees. A failure to load grants leaves the nil map.\<close>

definition OptionalAuthenticate ::
  "auth_calls \<Rightarrow> string \<Rightarrow> string option \<Rightarrow> (auth_user \<times> auth_method) option" where
  "OptionalAuthenticate svc header cookie =
     (let attempt =
        (if has_prefix header bearer_prefix
         then Some (ac_validate_key svc (trim_prefix header bearer_prefix), AuthBearer)
         else case cookie of
                Some v \<Rightarrow> Some (ac_validate_session svc v, AuthCookie)
              | None \<Rightarrow> None)
      in case attempt of
           None \<Rightarrow> None
         | Some (Inl err, _) \<Rightarrow> None
         | Some (Inr user, method) \<Rightarrow>
             (let grants = (case ac_load_grants svc (au_id user) of
                              Inl e \<Rightarrow> Map.empty | Inr g \<Rightarrow> g)
              in Some (user\<lparr>au_grants := grants\<rparr>, method)))"

definition RequireMember :: "auth_user option \<Rightarrow> http_error option" where
  "RequireMember ctx =
     (case ctx of
        None \<Rightarrow> Some (401, ''not authenticated'')
      | Some u \<Rightarrow> if au_role u \<noteq> roleAdmin \<and> au_role u \<noteq> roleMember then Some (403, ''forbidden'')
                  else None)"

definition RequireAuthenticated :: "auth_user option \<Rightarrow> http_error option" where
  "RequireAuthenticated ctx =
     (case ctx of None \<Rightarrow> Some (401, ''not authenticated'') | Some u \<Rightarrow> None)"

definition RequireAdmin :: "auth_user option \<Rightarrow> http_error option" where
  "RequireAdmin ctx =
     (case ctx of
        None \<Rightarrow> Some (401, ''not authenticated'')
      | Some u \<Rightarrow> if au_role u \<noteq> roleAdmin then Some (403, ''admin only'') else None)"

definition RequireCapability ::
  "capability \<Rightarrow> uuid option result \<Rightarrow> auth_user option \<Rightarrow> http_error option" where
  "RequireCapability c resolved ctx =
     (case ctx of
        None \<Rightarrow> Some (401, ''not authenticated'')
      | Some u \<Rightarrow>
          (case resolved of
             Inl e \<Rightarrow> Some (404, ''not found'')
           | Inr ns \<Rightarrow> if \<not> can u (uuidToStr ns) c then Some (403, ''forbidden'') else None))"

definition isWriteAllowed :: "auth_user \<Rightarrow> bool" where
  "isWriteAllowed u = KeyAllowsAnyWrite u"

definition RequireWrite :: "auth_user option \<Rightarrow> http_error option" where
  "RequireWrite ctx =
     (case ctx of
        Some u \<Rightarrow> if \<not> isWriteAllowed u
                  then Some (403, ''read-only API key cannot perform write operations'') else None
      | None \<Rightarrow> None)"

definition mapServiceError :: "go_error \<Rightarrow> http_error" where
  "mapServiceError err =
     (case find is_ValidationError (error_leaves err) of
        Some (ValidationError m) \<Rightarrow> (400, m)
      | _ \<Rightarrow>
         if errors_is err ErrNotFound then (404, ''not found'')
         else if errors_is err ErrConflict \<or> errors_is err ErrNamespaceExists
         then (409, ''conflict'')
         else if errors_is err DeadlineExceeded
         then (504, ''the query did not complete within the request deadline'')
         else (500, ''internal error''))"

section \<open>Properties\<close>

lemma KeyAllows_iff: "KeyAllows u c \<longleftrightarrow> c \<in> (if au_api_key_auth u then set (au_api_key_caps u) else UNIV)"
  by (auto simp: KeyAllows_def list_ex_iff)

lemma can_session:
  "\<not> au_api_key_auth u \<Longrightarrow>
   can u ns c \<longleftrightarrow>
     au_role u = globalRoleAdmin \<or>
     ns \<noteq> [] \<and> (\<exists>r. au_grants u ns = Some r \<and> Allow (au_role u) r True c)"
  by (auto simp: can_def KeyAllows_def Allow_def split: option.splits)

lemma can_ceiling:
  "can u ns c \<longleftrightarrow>
     c \<in> (if au_api_key_auth u then set (au_api_key_caps u) else UNIV) \<and>
     can (u\<lparr>au_api_key_auth := False\<rparr>) ns c"
  by (simp add: can_def KeyAllows_iff)

text \<open>What an API key may do is the intersection of its declared ceiling and what its owner may
  do: a request that arrived on a key passes a capability check exactly when the capability is in
  the key's list and the same principal would pass it with a session. This includes installation
  admins, whose short circuit does not outrank a key they narrowed.\<close>

theorem can_key_intersection:
  "can u ns c \<longleftrightarrow>
     c \<in> (if au_api_key_auth u then set (au_api_key_caps u) else UNIV) \<and>
     can (u\<lparr>au_api_key_auth := False\<rparr>) ns c"
  by (rule can_ceiling)

text \<open>C1: \<open>mayGrant\<close> lets a member hand out exactly the roles that confer nothing the member does not hold.
  For a caller who is neither an installation admin, whom it never refuses, nor an installation viewer, it admits
  a role in a namespace if and only if the caller is a member there and, whoever is given the role (an
  installation admin apart, who needs none), can do nothing there with it that the caller could not do there in a
  session of their own. The caller's API key does not count for \<open>mayGrant\<close>; \<open>can\<close> asks for it.\<close>

theorem grant_no_escalation:
  assumes "au_role u \<noteq> globalRoleViewer"
  shows "mayGrant u ns r \<longleftrightarrow>
    au_role u = globalRoleAdmin \<or>
    ns \<noteq> [] \<and> au_grants u ns \<noteq> None \<and>
    (\<forall>v c. au_role v \<noteq> globalRoleAdmin \<and> can (v\<lparr>au_grants := (au_grants v)(ns \<mapsto> r)\<rparr>) ns c \<longrightarrow>
       can (u\<lparr>au_api_key_auth := False\<rparr>) ns c)"
proof (cases "au_role u = globalRoleAdmin \<or> ns = [] \<or> au_grants u ns = None")
  case True
  then show ?thesis by (auto simp: mayGrant_def roleAdmin_def globalRoleAdmin_def split: option.splits)
next
  case False
  then obtain q where q: "au_grants u ns = Some q" "ns \<noteq> []" "au_role u \<noteq> globalRoleAdmin" by auto
  then have caller: "can (u\<lparr>au_api_key_auth := False\<rparr>) ns c \<longleftrightarrow> Allows q c" for c
    using assms by (simp add: can_session Allow_def)
  have confers: "(\<exists>v. au_role v \<noteq> globalRoleAdmin \<and> can (v\<lparr>au_grants := (au_grants v)(ns \<mapsto> r)\<rparr>) ns c) \<longleftrightarrow> Allows r c" for c
  proof
    assume "Allows r c"
    then show "\<exists>v. au_role v \<noteq> globalRoleAdmin \<and> can (v\<lparr>au_grants := (au_grants v)(ns \<mapsto> r)\<rparr>) ns c"
      using q(2)
      by (intro exI [of _ "u\<lparr>au_role := ''member'', au_api_key_auth := False\<rparr>"]) (simp add: can_session Allow_def role_defs)
  qed (auto simp: can_def Allow_def split: if_splits)
  have "mayGrant u ns r \<longleftrightarrow> Dominates q r"
    using q by (simp add: mayGrant_def roleAdmin_def globalRoleAdmin_def)
  then show ?thesis using q confers caller by (auto simp: Dominates_iff)
qed

definition demo_user :: "string \<Rightarrow> (string \<rightharpoonup> role) \<Rightarrow> auth_user" where
  "demo_user role grants =
     \<lparr>au_id = Some 1, au_display = [], au_role = role, au_api_key_auth = False,
      au_api_key_caps = [], au_grants = grants\<rparr>"

theorem grant_no_escalation_witness:
  "\<not> mayGrant (demo_user ''member'' [uuid_str 7 \<mapsto> RoleMaintainer]) (uuid_str 7) RoleOwner"
proof -
  let ?u = "demo_user ''member'' [uuid_str 7 \<mapsto> RoleMaintainer]" and ?v = "demo_user ''member'' [uuid_str 7 \<mapsto> RoleOwner]"
  have "au_role ?u \<noteq> globalRoleViewer" "au_role ?u \<noteq> globalRoleAdmin" "au_role ?v \<noteq> globalRoleAdmin"
    by (simp_all add: demo_user_def globalRoleViewer_def globalRoleAdmin_def)
  moreover have "can (?v\<lparr>au_grants := (au_grants ?v)(uuid_str 7 \<mapsto> RoleOwner)\<rparr>) (uuid_str 7) CapManageMember"
    "\<not> can (?u\<lparr>au_api_key_auth := False\<rparr>) (uuid_str 7) CapManageMember"
    by (simp_all add: can_def demo_user_def KeyAllows_def Allow_def Allows_def map_bool_of_list allCapabilities_def
        globalRoleAdmin_def globalRoleViewer_def uuid_str_nonempty)
  ultimately show ?thesis using grant_no_escalation by blast
qed

text \<open>Authentication fails closed: a credential that is refused attaches nobody, a bearer token is
  never retried as a cookie, and a principal whose grants could not be loaded passes no capability
  check unless it is an installation admin.\<close>

lemma refused_key_is_anonymous:
  "has_prefix header bearer_prefix \<Longrightarrow>
   ac_validate_key svc (trim_prefix header bearer_prefix) = Inl e \<Longrightarrow>
   OptionalAuthenticate svc header cookie = None"
  by (simp add: OptionalAuthenticate_def)

lemma authenticated_grants:
  "OptionalAuthenticate svc header cookie = Some (u, m) \<Longrightarrow>
   au_grants u = case_sum (\<lambda>e. Map.empty) id (ac_load_grants svc (au_id u))"
  by (auto simp: OptionalAuthenticate_def Let_def split: if_splits option.splits sum.splits)

lemma failed_grants_deny:
  "OptionalAuthenticate svc header cookie = Some (u, m) \<Longrightarrow>
   ac_load_grants svc (au_id u) = Inl e \<Longrightarrow> au_role u \<noteq> globalRoleAdmin \<Longrightarrow> \<not> can u ns c"
  using authenticated_grants [of svc header cookie u m]
  by (auto simp: can_def Allow_def split: if_splits)

end
