(* ===== verification/NamespaceMembers.thy ===== *)
theory NamespaceMembers
  imports Principal
begin

text \<open>
  Namespaces and their members: the tables of migrations 00053 and 00065 with their constraints,
  the statements of \<^verbatim>\<open>internal/repository/namespace.sql.go\<close>, and the services of
  \<^verbatim>\<open>internal/service/namespace.go\<close> and \<^verbatim>\<open>namespace_member.go\<close> with the API handlers over them.
  A table is the list of its rows. Every repository call can also fail for a reason outside the
  tables (a lost connection, a deadline); such a failure is an argument \<open>flt\<close> of the operation, and
  since each call is one SQL statement a failed call leaves the tables unchanged.
\<close>

section \<open>Tables\<close>

record ns_row =
  ns_id :: uuid
  ns_name :: string
  ns_visibility :: string
  ns_created :: int
  ns_updated :: int

record member_row =
  mr_ns :: uuid
  mr_user :: uuid
  mr_role :: role
  mr_created :: int

record db =
  namespaces :: "ns_row list"
  members :: "member_row list"
  users :: "uuid list"

text \<open>The uniqueness constraints: one row per namespace id and name, one membership per namespace and
  user, and the partial index \<open>namespace_one_owner\<close>; and the CHECK on the role.\<close>

definition member_key :: "member_row \<Rightarrow> uuid \<times> uuid" where
  "member_key m = (mr_ns m, mr_user m)"

definition db_ok :: "db \<Rightarrow> bool" where
  "db_ok d \<longleftrightarrow>
     distinct (map member_key (members d)) \<and>
     (\<forall>a \<in> set (members d). \<forall>b \<in> set (members d).
        mr_ns a = mr_ns b \<and> mr_role a = RoleOwner \<and> mr_role b = RoleOwner \<longrightarrow> mr_user a = mr_user b) \<and>
     (\<forall>m \<in> set (members d). Role_Valid (mr_role m) \<and> mr_ns m \<in> ns_id ` set (namespaces d)) \<and>
     distinct (map ns_id (namespaces d)) \<and> distinct (map ns_name (namespaces d))"

section \<open>Statements\<close>

definition GetNamespaceMember :: "fault \<Rightarrow> db \<Rightarrow> uuid \<Rightarrow> uuid \<Rightarrow> member_row result" where
  "GetNamespaceMember flt d ns u =
     (case flt of
        Some e \<Rightarrow> Inl (fault_error e)
      | None \<Rightarrow>
          (case find (\<lambda>m. mr_ns m = ns \<and> mr_user m = u) (members d) of
             None \<Rightarrow> Inl NoRows
           | Some m \<Rightarrow> Inr m))"

definition set_role :: "uuid \<Rightarrow> uuid \<Rightarrow> role \<Rightarrow> member_row \<Rightarrow> member_row" where
  "set_role ns u r m = (if mr_ns m = ns \<and> mr_user m = u then m\<lparr>mr_role := r\<rparr> else m)"

text \<open>\<open>INSERT ... ON CONFLICT (namespace_id, user_id) DO UPDATE SET role\<close>: an existing row keeps its
  \<open>created_at\<close>. The role CHECK, the owner index and the two foreign keys can each refuse it.\<close>

definition AddNamespaceMember ::
  "fault \<Rightarrow> int \<Rightarrow> db \<Rightarrow> uuid \<Rightarrow> uuid \<Rightarrow> role \<Rightarrow> (member_row \<times> db) result" where
  "AddNamespaceMember flt now d ns u r =
     (case flt of
        Some e \<Rightarrow> Inl (fault_error e)
      | None \<Rightarrow>
         if \<not> Role_Valid r then Inl (OtherError ''check violation'')
         else if r = RoleOwner \<and>
                 list_ex (\<lambda>m. mr_ns m = ns \<and> mr_user m \<noteq> u \<and> mr_role m = RoleOwner) (members d)
         then Inl UniqueViolation
         else if \<not> list_ex (\<lambda>n. ns_id n = ns) (namespaces d) \<or> \<not> List.member (users d) u
         then Inl (OtherError ''foreign key violation'')
         else (case find (\<lambda>m. mr_ns m = ns \<and> mr_user m = u) (members d) of
                 Some m \<Rightarrow>
                   Inr (m\<lparr>mr_role := r\<rparr>,
                        d\<lparr>members := map (set_role ns u r) (members d)\<rparr>)
               | None \<Rightarrow>
                   (let m = \<lparr>mr_ns = ns, mr_user = u, mr_role = r, mr_created = now\<rparr>
                    in Inr (m, d\<lparr>members := members d @ [m]\<rparr>))))"

definition RemoveNamespaceMember :: "fault \<Rightarrow> db \<Rightarrow> uuid \<Rightarrow> uuid \<Rightarrow> (nat \<times> db) result" where
  "RemoveNamespaceMember flt d ns u =
     (case flt of
        Some e \<Rightarrow> Inl (fault_error e)
      | None \<Rightarrow>
          (let kept = filter (\<lambda>m. \<not> (mr_ns m = ns \<and> mr_user m = u)) (members d)
           in Inr (length (members d) - length kept, d\<lparr>members := kept\<rparr>)))"

text \<open>\<open>ORDER BY (role = 'owner') DESC, created_at ASC\<close>.\<close>

definition member_order :: "member_row \<Rightarrow> member_row \<Rightarrow> int" where
  "member_order =
     then_cmp (on_key int_cmp (\<lambda>m. if mr_role m = RoleOwner then 0 else 1))
              (on_key int_cmp mr_created)"

definition ListNamespaceMembers :: "fault \<Rightarrow> db \<Rightarrow> uuid \<Rightarrow> member_row list result" where
  "ListNamespaceMembers flt d ns =
     (case flt of
        Some e \<Rightarrow> Inl (fault_error e)
      | None \<Rightarrow> Inr (sort_by member_order (filter (\<lambda>m. mr_ns m = ns) (members d))))"

definition ListNamespaceMembershipsForUser ::
  "fault \<Rightarrow> db \<Rightarrow> uuid \<Rightarrow> member_row list result" where
  "ListNamespaceMembershipsForUser flt d u =
     (case flt of
        Some e \<Rightarrow> Inl (fault_error e)
      | None \<Rightarrow> Inr (sort_by (on_key int_cmp mr_created) (filter (\<lambda>m. mr_user m = u) (members d))))"

definition namespace_owner :: "db \<Rightarrow> uuid \<Rightarrow> uuid option" where
  "namespace_owner d ns = map_option mr_user (find (\<lambda>m. mr_ns m = ns \<and> mr_role m = RoleOwner) (members d))"

text \<open>Creating a namespace and its owner row is one statement; \<open>nid\<close> is \<open>gen_random_uuid()\<close>.\<close>

definition CreateNamespaceRow ::
  "fault \<Rightarrow> int \<Rightarrow> uuid \<Rightarrow> db \<Rightarrow> string \<Rightarrow> string \<Rightarrow> uuid option \<Rightarrow> (ns_row \<times> db) result" where
  "CreateNamespaceRow flt now nid d name vis owner =
     (case flt of
        Some e \<Rightarrow> Inl (fault_error e)
      | None \<Rightarrow>
         if vis \<noteq> ''public'' \<and> vis \<noteq> ''private'' then Inl (OtherError ''check violation'')
         else if list_ex (\<lambda>n. ns_name n = name \<or> ns_id n = nid) (namespaces d) then Inl UniqueViolation
         else (let row = \<lparr>ns_id = nid, ns_name = name, ns_visibility = vis,
                          ns_created = now, ns_updated = now\<rparr>;
                   d' = d\<lparr>namespaces := namespaces d @ [row]\<rparr>
               in case owner of
                    None \<Rightarrow> Inr (row, d')
                  | Some u \<Rightarrow>
                      if \<not> List.member (users d) u then Inl (OtherError ''foreign key violation'')
                      else Inr (row, d'\<lparr>members := members d @
                             [\<lparr>mr_ns = nid, mr_user = u, mr_role = RoleOwner, mr_created = now\<rparr>]\<rparr>)))"

definition GetNamespaceRow :: "fault \<Rightarrow> db \<Rightarrow> uuid \<Rightarrow> (ns_row \<times> uuid option) result" where
  "GetNamespaceRow flt d nid =
     (case flt of
        Some e \<Rightarrow> Inl (fault_error e)
      | None \<Rightarrow> (case find (\<lambda>n. ns_id n = nid) (namespaces d) of
                   None \<Rightarrow> Inl NoRows
                 | Some n \<Rightarrow> Inr (n, namespace_owner d nid)))"

definition UpdateNamespaceRow ::
  "fault \<Rightarrow> int \<Rightarrow> db \<Rightarrow> uuid \<Rightarrow> string \<Rightarrow> string \<Rightarrow> ((ns_row \<times> uuid option) \<times> db) result" where
  "UpdateNamespaceRow flt now d nid name vis =
     (case flt of
        Some e \<Rightarrow> Inl (fault_error e)
      | None \<Rightarrow>
         (case find (\<lambda>n. ns_id n = nid) (namespaces d) of
            None \<Rightarrow> Inl NoRows
          | Some n \<Rightarrow>
             if vis \<noteq> ''public'' \<and> vis \<noteq> ''private'' then Inl (OtherError ''check violation'')
             else if list_ex (\<lambda>k. ns_id k \<noteq> nid \<and> ns_name k = name) (namespaces d)
             then Inl UniqueViolation
             else (let upd = (\<lambda>k. k\<lparr>ns_name := name, ns_visibility := vis, ns_updated := now\<rparr>)
                   in Inr ((upd n, namespace_owner d nid),
                           d\<lparr>namespaces := map (\<lambda>k. if ns_id k = nid then upd k else k)
                                             (namespaces d)\<rparr>))))"

definition DeleteNamespaceRow :: "fault \<Rightarrow> db \<Rightarrow> uuid \<Rightarrow> (nat \<times> db) result" where
  "DeleteNamespaceRow flt d nid =
     (case flt of
        Some e \<Rightarrow> Inl (fault_error e)
      | None \<Rightarrow>
          (let kept = filter (\<lambda>n. ns_id n \<noteq> nid) (namespaces d)
           in Inr (length (namespaces d) - length kept,
                   d\<lparr>namespaces := kept, members := filter (\<lambda>m. mr_ns m \<noteq> nid) (members d)\<rparr>)))"

text \<open>The visibility functions of migration 00066, and the two selection paths of \<open>ListNamespaces\<close>.\<close>

definition is_member :: "db \<Rightarrow> uuid \<Rightarrow> uuid option \<Rightarrow> bool" where
  "is_member d ns viewer =
     (case viewer of None \<Rightarrow> False
      | Some v \<Rightarrow> list_ex (\<lambda>m. mr_ns m = ns \<and> mr_user m = v) (members d))"

definition visible_namespace_ids :: "db \<Rightarrow> uuid option \<Rightarrow> bool \<Rightarrow> uuid list" where
  "visible_namespace_ids d viewer is_admin =
     map ns_id (filter (\<lambda>n. is_admin \<or> ns_visibility n = ''public'' \<or> is_member d (ns_id n) viewer)
                  (namespaces d))"

definition owned_namespace_ids :: "db \<Rightarrow> uuid option \<Rightarrow> uuid list" where
  "owned_namespace_ids d viewer =
     (case viewer of None \<Rightarrow> []
      | Some v \<Rightarrow> map mr_ns (filter (\<lambda>m. mr_user m = v) (members d)))"

definition ListNamespaceRows :: "fault \<Rightarrow> db \<Rightarrow> visibility_filter \<Rightarrow> (ns_row \<times> uuid option) list result" where
  "ListNamespaceRows flt d f =
     (case flt of
        Some e \<Rightarrow> Inl (fault_error e)
      | None \<Rightarrow>
          (let ids = (if vf_owned_only f then owned_namespace_ids d (vf_user_id f)
                      else visible_namespace_ids d (vf_user_id f) (vf_is_admin f))
           in Inr (map (\<lambda>n. (n, namespace_owner d (ns_id n)))
                    (sort_by (on_key int_cmp ns_created)
                       (filter (\<lambda>n. List.member ids (ns_id n)) (namespaces d))))))"

section \<open>Services\<close>

record namespace =
  nsv_id :: string
  nsv_name :: string
  nsv_owner :: "string option"
  nsv_visibility :: string
  nsv_created :: int
  nsv_updated :: int

record namespace_member =
  nm_ns :: string
  nm_user :: string
  nm_role :: role
  nm_created :: int

record set_member_params =
  smp_ns :: string
  smp_user :: string
  smp_role :: role

text \<open>\<open>parse\<close> is \<open>parseUUID\<close>: the driver's UUID scanner, \<open>None\<close> for a string it refuses.\<close>

type_synonym uuid_parser = "string \<Rightarrow> uuid option"

definition namespaceFromRepo :: "ns_row \<Rightarrow> uuid option \<Rightarrow> namespace" where
  "namespaceFromRepo n owner =
     \<lparr>nsv_id = uuid_str (ns_id n), nsv_name = ns_name n, nsv_owner = map_option uuid_str owner,
      nsv_visibility = ns_visibility n, nsv_created = ns_created n, nsv_updated = ns_updated n\<rparr>"

definition namespaceMemberFromRepo :: "member_row \<Rightarrow> namespace_member" where
  "namespaceMemberFromRepo m =
     \<lparr>nm_ns = uuid_str (mr_ns m), nm_user = uuid_str (mr_user m), nm_role = mr_role m,
      nm_created = mr_created m\<rparr>"

definition Namespace_Create ::
  "fault \<Rightarrow> int \<Rightarrow> uuid \<Rightarrow> db \<Rightarrow> string \<Rightarrow> uuid option \<Rightarrow> string \<Rightarrow> namespace result \<times> db" where
  "Namespace_Create flt now nid d name owner vis0 =
     (let vis = (if vis0 = [] then ''private'' else vis0) in
      case CreateNamespaceRow flt now nid d name vis owner of
        Inl e \<Rightarrow> (if isUniqueViolation e then (Inl ErrConflict, d)
                  else (Inl (Wrapped ''creating namespace'' e), d))
      | Inr (row, d') \<Rightarrow> (Inr (namespaceFromRepo row owner), d'))"

definition Namespace_Get :: "uuid_parser \<Rightarrow> fault \<Rightarrow> db \<Rightarrow> string \<Rightarrow> namespace result" where
  "Namespace_Get parse flt d sid =
     (case parse sid of
        None \<Rightarrow> Inl ErrNotFound
      | Some nid \<Rightarrow> (case GetNamespaceRow flt d nid of
                      Inl e \<Rightarrow> Inl ErrNotFound
                    | Inr (n, owner) \<Rightarrow> Inr (namespaceFromRepo n owner)))"

definition Namespace_List :: "fault \<Rightarrow> db \<Rightarrow> visibility_filter \<Rightarrow> namespace list result" where
  "Namespace_List flt d f =
     (case ListNamespaceRows flt d f of
        Inl e \<Rightarrow> Inl (Wrapped ''listing namespaces'' e)
      | Inr rows \<Rightarrow> Inr (map (\<lambda>(n, owner). namespaceFromRepo n owner) rows))"

definition Namespace_Update ::
  "uuid_parser \<Rightarrow> fault \<Rightarrow> fault \<Rightarrow> int \<Rightarrow> db \<Rightarrow> string \<Rightarrow> string \<Rightarrow> string \<Rightarrow>
   namespace result \<times> db" where
  "Namespace_Update parse f1 f2 now d sid name0 vis0 =
     (case parse sid of
        None \<Rightarrow> (Inl ErrNotFound, d)
      | Some nid \<Rightarrow>
         (case GetNamespaceRow f1 d nid of
            Inl e \<Rightarrow> (Inl ErrNotFound, d)
          | Inr (existing, _) \<Rightarrow>
             (let vis = (if vis0 = [] then ns_visibility existing else vis0);
                  name = (if name0 = [] then ns_name existing else name0)
              in case UpdateNamespaceRow f2 now d nid name vis of
                   Inl e \<Rightarrow> (if isUniqueViolation e then (Inl ErrConflict, d)
                             else (Inl (Wrapped ''updating namespace'' e), d))
                 | Inr ((n, owner), d') \<Rightarrow> (Inr (namespaceFromRepo n owner), d'))))"

definition Namespace_Delete :: "uuid_parser \<Rightarrow> fault \<Rightarrow> db \<Rightarrow> string \<Rightarrow> unit result \<times> db" where
  "Namespace_Delete parse flt d sid =
     (case parse sid of
        None \<Rightarrow> (Inl ErrNotFound, d)
      | Some nid \<Rightarrow>
         (case DeleteNamespaceRow flt d nid of
            Inl e \<Rightarrow> (Inl (Wrapped ''deleting namespace'' e), d)
          | Inr (n, d') \<Rightarrow> (if n = 0 then (Inl ErrNotFound, d') else (Inr (), d'))))"

definition ListMembers :: "uuid_parser \<Rightarrow> fault \<Rightarrow> db \<Rightarrow> string \<Rightarrow> namespace_member list result" where
  "ListMembers parse flt d sid =
     (case parse sid of
        None \<Rightarrow> Inl ErrNotFound
      | Some nid \<Rightarrow> (case ListNamespaceMembers flt d nid of
                      Inl e \<Rightarrow> Inl (Wrapped ''listing namespace members'' e)
                    | Inr rows \<Rightarrow> Inr (map namespaceMemberFromRepo rows)))"

text \<open>\<open>SetMember\<close> and \<open>RemoveMember\<close> are each a read that decides and then a separate write. Each
  half is a definition of its own, so that other requests can be interleaved between them.\<close>

definition SetMember_check ::
  "uuid_parser \<Rightarrow> fault \<Rightarrow> db \<Rightarrow> set_member_params \<Rightarrow> (uuid \<times> uuid) result" where
  "SetMember_check parse flt d p =
     (case parse (smp_ns p) of
        None \<Rightarrow> Inl ErrNotFound
      | Some ns \<Rightarrow>
         (case parse (smp_user p) of
            None \<Rightarrow> Inl ErrNotFound
          | Some u \<Rightarrow>
             if \<not> Role_Valid (smp_role p)
             then Inl (ValidationError (''unknown role '' @ smp_role p))
             else (case GetNamespaceMember flt d ns u of
                     Inr existing \<Rightarrow>
                       if mr_role existing = RoleOwner \<and> smp_role p \<noteq> RoleOwner
                       then Inl ErrConflict else Inr (ns, u)
                   | Inl e \<Rightarrow>
                       if errors_is e NoRows then Inr (ns, u)
                       else Inl (Wrapped ''reading namespace member'' e))))"

definition SetMember_write ::
  "fault \<Rightarrow> int \<Rightarrow> db \<Rightarrow> uuid \<Rightarrow> uuid \<Rightarrow> role \<Rightarrow> namespace_member result \<times> db" where
  "SetMember_write flt now d ns u r =
     (case AddNamespaceMember flt now d ns u r of
        Inl e \<Rightarrow> (if isUniqueViolation e then (Inl ErrConflict, d)
                  else (Inl (Wrapped ''setting namespace member'' e), d))
      | Inr (row, d') \<Rightarrow> (Inr (namespaceMemberFromRepo row), d'))"

definition SetMember ::
  "uuid_parser \<Rightarrow> fault \<Rightarrow> fault \<Rightarrow> int \<Rightarrow> db \<Rightarrow> set_member_params \<Rightarrow>
   namespace_member result \<times> db" where
  "SetMember parse f1 f2 now d p =
     (case SetMember_check parse f1 d p of
        Inl e \<Rightarrow> (Inl e, d)
      | Inr (ns, u) \<Rightarrow> SetMember_write f2 now d ns u (smp_role p))"

definition RemoveMember_check ::
  "uuid_parser \<Rightarrow> fault \<Rightarrow> db \<Rightarrow> string \<Rightarrow> string \<Rightarrow> (uuid \<times> uuid) result" where
  "RemoveMember_check parse flt d sns suser =
     (case parse sns of
        None \<Rightarrow> Inl ErrNotFound
      | Some ns \<Rightarrow>
         (case parse suser of
            None \<Rightarrow> Inl ErrNotFound
          | Some u \<Rightarrow>
             (case GetNamespaceMember flt d ns u of
                Inl e \<Rightarrow> if errors_is e NoRows then Inl ErrNotFound
                         else Inl (Wrapped ''reading namespace member'' e)
              | Inr existing \<Rightarrow>
                  if mr_role existing = RoleOwner then Inl ErrConflict else Inr (ns, u))))"

definition RemoveMember_write :: "fault \<Rightarrow> db \<Rightarrow> uuid \<Rightarrow> uuid \<Rightarrow> unit result \<times> db" where
  "RemoveMember_write flt d ns u =
     (case RemoveNamespaceMember flt d ns u of
        Inl e \<Rightarrow> (Inl (Wrapped ''removing namespace member'' e), d)
      | Inr (n, d') \<Rightarrow> (if n = 0 then (Inl ErrNotFound, d') else (Inr (), d')))"

definition RemoveMember ::
  "uuid_parser \<Rightarrow> fault \<Rightarrow> fault \<Rightarrow> db \<Rightarrow> string \<Rightarrow> string \<Rightarrow> unit result \<times> db" where
  "RemoveMember parse f1 f2 d sns suser =
     (case RemoveMember_check parse f1 d sns suser of
        Inl e \<Rightarrow> (Inl e, d)
      | Inr (ns, u) \<Rightarrow> RemoveMember_write f2 d ns u)"

end
