(* ===== verification/MembershipRuns.thy ===== *)
theory MembershipRuns
  imports NamespaceMembers
begin

text \<open>
  Concurrent membership management. Each request's \<open>SetMember\<close> or \<open>RemoveMember\<close> is a guard read
  and a later write; between the two, any other request may run. A state holds the tables and the
  writes whose guard has passed; a step begins a request, finishes a pending write, or creates,
  updates or deletes a namespace. Requests that fail leave no pending write. \<open>s_issued\<close> and
  \<open>s_founders\<close> are bookkeeping the code does not have: the ids \<open>gen_random_uuid()\<close> has handed out
  (it never repeats one, nor hands out one that a request in flight already names), and the owner
  each namespace was created with.
\<close>

datatype pending_write = PSet uuid uuid role | PRemove uuid uuid

fun pending_ns :: "pending_write \<Rightarrow> uuid" where
  "pending_ns (PSet ns u r) = ns"
| "pending_ns (PRemove ns u) = ns"

record sys =
  s_db :: db
  s_pending :: "pending_write list"
  s_issued :: "uuid list"
  s_founders :: "(uuid \<times> uuid) list"

definition sys_init :: "uuid list \<Rightarrow> sys" where
  "sys_init us =
     \<lparr>s_db = \<lparr>namespaces = [], members = [], users = us\<rparr>, s_pending = [], s_issued = [],
      s_founders = []\<rparr>"

inductive sys_step :: "uuid_parser \<Rightarrow> sys \<Rightarrow> sys \<Rightarrow> bool" for parse where
  begin_set:
    "SetMember_check parse flt (s_db s) p = Inr (ns, u) \<Longrightarrow>
     sys_step parse s (s\<lparr>s_pending := PSet ns u (smp_role p) # s_pending s\<rparr>)"
| finish_set:
    "s_pending s = xs @ PSet ns u r # ys \<Longrightarrow>
     sys_step parse s (s\<lparr>s_db := snd (SetMember_write flt now (s_db s) ns u r), s_pending := xs @ ys\<rparr>)"
| begin_remove:
    "RemoveMember_check parse flt (s_db s) sns suser = Inr (ns, u) \<Longrightarrow>
     sys_step parse s (s\<lparr>s_pending := PRemove ns u # s_pending s\<rparr>)"
| finish_remove:
    "s_pending s = xs @ PRemove ns u # ys \<Longrightarrow>
     sys_step parse s (s\<lparr>s_db := snd (RemoveMember_write flt (s_db s) ns u), s_pending := xs @ ys\<rparr>)"
| create:
    "nid \<notin> set (s_issued s) \<Longrightarrow> nid \<notin> pending_ns ` set (s_pending s) \<Longrightarrow>
     Namespace_Create flt now nid (s_db s) name owner vis = (Inr n, d') \<Longrightarrow>
     sys_step parse s (s\<lparr>s_db := d', s_issued := nid # s_issued s,
       s_founders := (case owner of None \<Rightarrow> [] | Some u \<Rightarrow> [(nid, u)]) @ s_founders s\<rparr>)"
| update:
    "sys_step parse s (s\<lparr>s_db := snd (Namespace_Update parse f1 f2 now (s_db s) sid name vis)\<rparr>)"
| delete:
    "sys_step parse s (s\<lparr>s_db := snd (Namespace_Delete parse flt (s_db s) sid)\<rparr>)"

inductive sys_reachable :: "uuid_parser \<Rightarrow> uuid list \<Rightarrow> sys \<Rightarrow> bool" for parse us where
  start: "sys_reachable parse us (sys_init us)"
| step: "sys_reachable parse us s \<Longrightarrow> sys_step parse s t \<Longrightarrow> sys_reachable parse us t"

section \<open>What each statement keeps\<close>

abbreviation ns_ids :: "db \<Rightarrow> uuid set" where
  "ns_ids d \<equiv> ns_id ` set (namespaces d)"

definition has_owner :: "db \<Rightarrow> uuid \<Rightarrow> uuid \<Rightarrow> bool" where
  "has_owner d ns u \<longleftrightarrow>
     (\<exists>m \<in> set (members d). mr_ns m = ns \<and> mr_user m = u \<and> mr_role m = RoleOwner)"

lemma db_okD:
  assumes "db_ok d"
  shows "distinct (map member_key (members d))"
    and "\<And>a b. a \<in> set (members d) \<Longrightarrow> b \<in> set (members d) \<Longrightarrow> mr_ns a = mr_ns b \<Longrightarrow>
           mr_role a = RoleOwner \<Longrightarrow> mr_role b = RoleOwner \<Longrightarrow> mr_user a = mr_user b"
    and "\<And>m. m \<in> set (members d) \<Longrightarrow> Role_Valid (mr_role m)"
    and "\<And>m. m \<in> set (members d) \<Longrightarrow> mr_ns m \<in> ns_ids d"
    and "distinct (map ns_id (namespaces d))" and "distinct (map ns_name (namespaces d))"
  using assms unfolding db_ok_def by blast+

lemma db_okI:
  assumes "distinct (map member_key (members d))"
    and "\<And>a b. a \<in> set (members d) \<Longrightarrow> b \<in> set (members d) \<Longrightarrow> mr_ns a = mr_ns b \<Longrightarrow>
           mr_role a = RoleOwner \<Longrightarrow> mr_role b = RoleOwner \<Longrightarrow> mr_user a = mr_user b"
    and "\<And>m. m \<in> set (members d) \<Longrightarrow> Role_Valid (mr_role m)"
    and "\<And>m. m \<in> set (members d) \<Longrightarrow> mr_ns m \<in> ns_ids d"
    and "distinct (map ns_id (namespaces d))" and "distinct (map ns_name (namespaces d))"
  shows "db_ok d"
  using assms unfolding db_ok_def by blast

lemma member_key_unique:
  assumes "db_ok d" "a \<in> set (members d)" "b \<in> set (members d)"
    and "mr_ns a = mr_ns b" "mr_user a = mr_user b"
  shows "a = b"
proof -
  from db_okD(1) [OF assms(1)] have "inj_on member_key (set (members d))"
    by (simp add: distinct_map)
  moreover from assms(4,5) have "member_key a = member_key b" by (simp add: member_key_def)
  ultimately show ?thesis using assms(2,3) by (rule inj_onD)
qed

lemma find_member:
  assumes "db_ok d" "m \<in> set (members d)" "mr_ns m = ns" "mr_user m = u"
  shows "find (\<lambda>m. mr_ns m = ns \<and> mr_user m = u) (members d) = Some m"
proof (cases "find (\<lambda>m. mr_ns m = ns \<and> mr_user m = u) (members d)")
  case None
  with assms show ?thesis by (auto dest: find_NoneD)
next
  case (Some a)
  then have "a \<in> set (members d)" "mr_ns a = ns" "mr_user a = u"
    by (auto dest: find_SomeD)
  with Some assms member_key_unique [OF assms(1), of a m] show ?thesis by simp
qed

lemma namespace_owner_iff:
  assumes "db_ok d"
  shows "namespace_owner d ns = Some u \<longleftrightarrow> has_owner d ns u"
proof
  assume "namespace_owner d ns = Some u"
  then show "has_owner d ns u"
    by (auto simp: namespace_owner_def has_owner_def dest!: find_SomeD)
next
  assume "has_owner d ns u"
  then obtain m where m: "m \<in> set (members d)" "mr_ns m = ns" "mr_user m = u" "mr_role m = RoleOwner"
    by (auto simp: has_owner_def)
  show "namespace_owner d ns = Some u"
  proof (cases "find (\<lambda>m. mr_ns m = ns \<and> mr_role m = RoleOwner) (members d)")
    case None
    with m show ?thesis by (auto dest: find_NoneD)
  next
    case (Some a)
    then have "a \<in> set (members d)" "mr_ns a = ns" "mr_role a = RoleOwner"
      by (auto dest: find_SomeD)
    with Some m db_okD(2) [OF assms, of a m] show ?thesis by (simp add: namespace_owner_def)
  qed
qed

lemma set_role_simps [simp]:
  "mr_ns (set_role ns u r m) = mr_ns m" "mr_user (set_role ns u r m) = mr_user m"
  "member_key (set_role ns u r m) = member_key m"
  by (simp_all add: set_role_def member_key_def)

lemma AddNamespaceMember_cases:
  assumes "AddNamespaceMember flt now d ns u r = Inr (row, d')"
  obtains (update) m where "d' = d\<lparr>members := map (set_role ns u r) (members d)\<rparr>"
      "m \<in> set (members d)" "mr_ns m = ns" "mr_user m = u"
    | (insert) "d' = d\<lparr>members := members d @ [\<lparr>mr_ns = ns, mr_user = u, mr_role = r, mr_created = now\<rparr>]\<rparr>"
      "\<And>m. m \<in> set (members d) \<Longrightarrow> \<not> (mr_ns m = ns \<and> mr_user m = u)"
proof (cases "find (\<lambda>m. mr_ns m = ns \<and> mr_user m = u) (members d)")
  case None
  with assms show ?thesis
    using insert find_NoneD [OF None]
    by (auto simp: AddNamespaceMember_def Let_def split: option.splits if_splits)
next
  case (Some m)
  with assms show ?thesis
    using update [of m] find_SomeD [OF Some]
    by (simp add: AddNamespaceMember_def Let_def split: option.splits if_splits)
qed

lemma AddNamespaceMember_guards:
  assumes "AddNamespaceMember flt now d ns u r = Inr (row, d')"
  shows "Role_Valid r" and "ns \<in> ns_ids d"
    and "r = RoleOwner \<Longrightarrow> m \<in> set (members d) \<Longrightarrow> mr_ns m = ns \<Longrightarrow> mr_role m = RoleOwner \<Longrightarrow> mr_user m = u"
  using assms
  by (auto simp: AddNamespaceMember_def list_ex_iff split: option.splits if_splits)

lemma AddNamespaceMember_ok:
  assumes ok: "db_ok d" and add: "AddNamespaceMember flt now d ns u r = Inr (row, d')"
  shows "db_ok d'"
proof -
  note D = db_okD [OF ok] and G = AddNamespaceMember_guards [OF add]
  show ?thesis
    using add
  proof (cases rule: AddNamespaceMember_cases)
    case (update m)
    have keys: "map member_key (map (set_role ns u r) (members d)) = map member_key (members d)"
      by simp
    have role: "mr_role (set_role ns u r a) = (if mr_ns a = ns \<and> mr_user a = u then r else mr_role a)" for a
      by (simp add: set_role_def)
    have owners: "mr_user a = mr_user b"
      if "a \<in> set (members d)" "b \<in> set (members d)" "mr_ns a = mr_ns b"
        "mr_role (set_role ns u r a) = RoleOwner" "mr_role (set_role ns u r b) = RoleOwner" for a b
    proof -
      have other: "mr_user c = u" if "r = RoleOwner" "c \<in> set (members d)" "mr_ns c = ns"
        "mr_role (set_role ns u r c) = RoleOwner" for c
        using that G(3) [of c] by (auto simp: set_role_def split: if_splits)
      show ?thesis
      proof (cases "mr_ns a = ns \<and> r = RoleOwner")
        case True
        with other that show ?thesis by metis
      next
        case False
        with that have "mr_role a = RoleOwner" "mr_role b = RoleOwner"
          by (simp_all add: role split: if_splits)
        with that(1-3) show ?thesis by (rule D(2))
      qed
    qed
    show ?thesis
      unfolding update(1)
    proof (rule db_okI, goal_cases)
      case 1
      show ?case using D(1) by (simp add: keys del: map_map)
    next
      case (2 a b)
      then obtain a' b' where "a = set_role ns u r a'" "a' \<in> set (members d)"
        "b = set_role ns u r b'" "b' \<in> set (members d)" by auto
      with 2 show ?case using owners [of a' b'] by simp
    qed (use D(3-6) G(1) in \<open>auto simp: role\<close>)
  next
    case insert
    let ?new = "\<lparr>mr_ns = ns, mr_user = u, mr_role = r, mr_created = now\<rparr>"
    have new: "member_key ?new \<notin> member_key ` set (members d)"
      using insert(2) by (auto simp: member_key_def)
    have owners: "mr_user a = mr_user b"
      if "a \<in> insert ?new (set (members d))" "b \<in> insert ?new (set (members d))"
        "mr_ns a = mr_ns b" "mr_role a = RoleOwner" "mr_role b = RoleOwner" for a b
    proof -
      have old: "mr_user c = u" if "r = RoleOwner" "c \<in> insert ?new (set (members d))" "mr_ns c = ns"
        "mr_role c = RoleOwner" for c
        using that G(3) [of c] by (cases "c = ?new") simp_all
      show ?thesis
      proof (cases "a = ?new \<or> b = ?new")
        case True
        then have "r = RoleOwner" "mr_ns a = ns" "mr_ns b = ns" using that(3-5) by auto
        with old that show ?thesis by metis
      next
        case False
        with that show ?thesis by (intro D(2)) auto
      qed
    qed
    show ?thesis
      unfolding insert(1)
    proof (rule db_okI, goal_cases)
      case 1
      show ?case using D(1) new by simp
    next
      case (2 a b)
      then show ?case using owners [of a b] by simp
    qed (use D(3-6) G(1,2) in auto)
  qed
qed

lemma AddNamespaceMember_ids:
  "AddNamespaceMember flt now d ns u r = Inr (row, d') \<Longrightarrow> namespaces d' = namespaces d"
  by (erule AddNamespaceMember_cases) auto

lemma AddNamespaceMember_owner:
  assumes add: "AddNamespaceMember flt now d ns u r = Inr (row, d')"
    and "has_owner d ns' u'" and "(ns', u') = (ns, u) \<Longrightarrow> r = RoleOwner"
  shows "has_owner d' ns' u'"
  using add
proof (cases rule: AddNamespaceMember_cases)
  case update
  with assms(2,3) show ?thesis by (force simp: has_owner_def set_role_def)
next
  case insert
  with assms(2) show ?thesis by (auto simp: has_owner_def)
qed

lemma db_ok_filter_members:
  assumes "db_ok d" "distinct (map ns_id nss)" "distinct (map ns_name nss)"
    and "\<And>m. m \<in> set (members d) \<Longrightarrow> P m \<Longrightarrow> mr_ns m \<in> ns_id ` set nss"
  shows "db_ok (d\<lparr>namespaces := nss, members := filter P (members d)\<rparr>)"
proof (rule db_okI, goal_cases)
  case 1
  show ?case using db_okD(1) [OF assms(1)] by (simp add: distinct_map_filter)
next
  case (2 a b)
  then show ?case using db_okD(2) [OF assms(1), of a b] by simp
qed (use assms db_okD(3) [OF assms(1)] in auto)

lemma db_ok_same_members:
  assumes "db_ok d" "ns_ids d \<subseteq> ns_id ` set nss" "distinct (map ns_id nss)" "distinct (map ns_name nss)"
  shows "db_ok (d\<lparr>namespaces := nss\<rparr>)"
proof (rule db_okI, goal_cases)
  case (2 a b)
  then show ?case using db_okD(2) [OF assms(1), of a b] by simp
next
  case (4 m)
  then show ?case using db_okD(4) [OF assms(1)] assms(2) by auto
qed (use assms db_okD(1,3) [OF assms(1)] in auto)

lemma RemoveNamespaceMember_ok:
  assumes "db_ok d" "RemoveNamespaceMember flt d ns u = Inr (n, d')"
  shows "db_ok d'" and "namespaces d' = namespaces d"
    and "has_owner d ns' u' \<Longrightarrow> (ns', u') \<noteq> (ns, u) \<Longrightarrow> has_owner d' ns' u'"
proof -
  from assms(2) have d': "d' = d\<lparr>members := filter (\<lambda>m. \<not> (mr_ns m = ns \<and> mr_user m = u)) (members d)\<rparr>"
    by (auto simp: RemoveNamespaceMember_def Let_def split: option.splits)
  show "db_ok d'"
    using db_ok_filter_members [OF assms(1) db_okD(5,6) [OF assms(1)],
        where P = "\<lambda>m. \<not> (mr_ns m = ns \<and> mr_user m = u)"] db_okD(4) [OF assms(1)]
    by (simp add: d')
  show "namespaces d' = namespaces d" by (simp add: d')
  show "has_owner d' ns' u'" if "has_owner d ns' u'" "(ns', u') \<noteq> (ns, u)"
    using that by (auto simp: d' has_owner_def)
qed

lemma CreateNamespaceRow_cases:
  assumes "CreateNamespaceRow flt now nid d name vis owner = Inr (row, d')"
  shows "nid \<notin> ns_ids d" "name \<notin> ns_name ` set (namespaces d)" "ns_id row = nid" "ns_name row = name"
    and "d' = d\<lparr>namespaces := namespaces d @ [row],
              members := members d @ (case owner of None \<Rightarrow> []
                | Some u \<Rightarrow> [\<lparr>mr_ns = nid, mr_user = u, mr_role = RoleOwner, mr_created = now\<rparr>])\<rparr>"
  using assms
  by (auto simp: CreateNamespaceRow_def Let_def list_ex_iff split: option.splits if_splits)

lemma CreateNamespaceRow_ok:
  assumes ok: "db_ok d" and create: "CreateNamespaceRow flt now nid d name vis owner = Inr (row, d')"
  shows "db_ok d'" and "ns_ids d' = insert nid (ns_ids d)"
    and "has_owner d ns u \<Longrightarrow> has_owner d' ns u" and "owner = Some u \<Longrightarrow> has_owner d' nid u"
proof -
  note C = CreateNamespaceRow_cases [OF create] and D = db_okD [OF ok]
  show "ns_ids d' = insert nid (ns_ids d)" using C by auto
  show "has_owner d ns u \<Longrightarrow> has_owner d' ns u" using C(5) by (auto simp: has_owner_def)
  show "owner = Some u \<Longrightarrow> has_owner d' nid u" using C(5) by (auto simp: has_owner_def)
  have no_rows: "mr_ns m \<noteq> nid" if "m \<in> set (members d)" for m
    using D(4) [OF that] C(1) by auto
  show "db_ok d'"
  proof (cases owner)
    case None
    then show ?thesis
      using db_ok_same_members [OF ok, of "namespaces d @ [row]"] C D(5,6) by auto
  next
    case (Some v)
    let ?m = "\<lparr>mr_ns = nid, mr_user = v, mr_role = RoleOwner, mr_created = now\<rparr>"
    have d': "d' = d\<lparr>namespaces := namespaces d @ [row], members := members d @ [?m]\<rparr>"
      using C(5) Some by simp
    show ?thesis
      unfolding d'
    proof (rule db_okI, goal_cases)
      case 1
      have "member_key ?m \<notin> member_key ` set (members d)"
        using no_rows by (auto simp: member_key_def)
      with D(1) show ?case by simp
    next
      case (2 a b)
      then have ab: "a = ?m \<or> a \<in> set (members d)" "b = ?m \<or> b \<in> set (members d)" by auto
      show ?case
      proof (cases "mr_ns a = nid")
        case True
        then have "a = ?m" "b = ?m" using ab no_rows 2(3) by auto
        then show ?thesis by simp
      next
        case False
        then have "a \<in> set (members d)" "b \<in> set (members d)" using ab 2(3) by auto
        then show ?thesis using D(2) 2(3-5) by blast
      qed
    next
      case (3 m)
      then show ?case using D(3) by (auto simp: Role_Valid_iff allRoles_def)
    next
      case (4 m)
      then show ?case using D(4) [of m] C(3) by auto
    qed (use C D(5,6) in auto)
  qed
qed

lemma UpdateNamespaceRow_ok:
  assumes ok: "db_ok d" and upd: "UpdateNamespaceRow flt now d nid name vis = Inr (row, d')"
  shows "db_ok d'" and "ns_ids d' = ns_ids d" and "members d' = members d"
proof -
  let ?upd = "\<lambda>k. if ns_id k = nid then k\<lparr>ns_name := name, ns_visibility := vis, ns_updated := now\<rparr> else k"
  have d': "d' = d\<lparr>namespaces := map ?upd (namespaces d)\<rparr>"
    and other: "\<And>k. k \<in> set (namespaces d) \<Longrightarrow> ns_id k \<noteq> nid \<Longrightarrow> ns_name k \<noteq> name"
    using upd by (auto simp: UpdateNamespaceRow_def Let_def list_ex_iff split: option.splits if_splits)
  show "members d' = members d" by (simp add: d')
  have ids: "map ns_id (map ?upd (namespaces d)) = map ns_id (namespaces d)" by simp
  show "ns_ids d' = ns_ids d" using arg_cong [OF ids, of set] by (simp add: d' del: map_map)
  have inj: "inj_on ns_id (set (namespaces d))" "inj_on ns_name (set (namespaces d))"
    "distinct (namespaces d)"
    using db_okD(5,6) [OF ok] by (simp_all add: distinct_map)
  have "inj_on (ns_name \<circ> ?upd) (set (namespaces d))"
  proof (rule inj_onI)
    fix a b
    assume ab: "a \<in> set (namespaces d)" "b \<in> set (namespaces d)" and eq: "(ns_name \<circ> ?upd) a = (ns_name \<circ> ?upd) b"
    then have "ns_id a = nid \<longleftrightarrow> ns_id b = nid"
      using other by (auto split: if_splits)
    then have "ns_id a = ns_id b \<or> ns_name a = ns_name b" using eq by (auto split: if_splits)
    then show "a = b" using ab inj(1,2) by (auto dest: inj_onD)
  qed
  with inj(3) have names: "distinct (map ns_name (map ?upd (namespaces d)))"
    by (simp add: distinct_map comp_def)
  show "db_ok d'"
    unfolding d'
  proof (rule db_ok_same_members [OF ok])
    show "ns_ids d \<subseteq> ns_id ` set (map ?upd (namespaces d))"
      using arg_cong [OF ids, of set] by (simp del: map_map)
    show "distinct (map ns_id (map ?upd (namespaces d)))"
      unfolding ids by (rule db_okD(5) [OF ok])
    show "distinct (map ns_name (map ?upd (namespaces d)))" by (rule names)
  qed
qed

lemma DeleteNamespaceRow_ok:
  assumes ok: "db_ok d" and del: "DeleteNamespaceRow flt d nid = Inr (n, d')"
  shows "db_ok d'" and "ns_ids d' = ns_ids d - {nid}"
    and "has_owner d ns u \<Longrightarrow> ns \<noteq> nid \<Longrightarrow> has_owner d' ns u"
proof -
  have d': "d' = d\<lparr>namespaces := filter (\<lambda>n. ns_id n \<noteq> nid) (namespaces d),
                members := filter (\<lambda>m. mr_ns m \<noteq> nid) (members d)\<rparr>"
    using del by (auto simp: DeleteNamespaceRow_def Let_def split: option.splits)
  show "ns_ids d' = ns_ids d - {nid}" by (auto simp: d')
  show "has_owner d ns u \<Longrightarrow> ns \<noteq> nid \<Longrightarrow> has_owner d' ns u" by (auto simp: d' has_owner_def)
  show "db_ok d'"
    unfolding d'
    by (rule db_ok_filter_members [OF ok])
      (use db_okD(4-6) [OF ok] in \<open>auto simp: distinct_map_filter\<close>)
qed

section \<open>The invariant\<close>

fun threatens :: "pending_write \<Rightarrow> uuid \<Rightarrow> uuid \<Rightarrow> bool" where
  "threatens (PSet ns u r) ns' u' \<longleftrightarrow> ns = ns' \<and> u = u' \<and> r \<noteq> RoleOwner"
| "threatens (PRemove ns u) ns' u' \<longleftrightarrow> ns = ns' \<and> u = u'"

definition sys_inv :: "sys \<Rightarrow> bool" where
  "sys_inv s \<longleftrightarrow>
     db_ok (s_db s) \<and> ns_ids (s_db s) \<subseteq> set (s_issued s) \<and>
     fst ` set (s_founders s) \<subseteq> set (s_issued s) \<and>
     (\<forall>ns u. (ns, u) \<in> set (s_founders s) \<longrightarrow> ns \<in> ns_ids (s_db s) \<longrightarrow>
        has_owner (s_db s) ns u \<and> (\<forall>w \<in> set (s_pending s). \<not> threatens w ns u))"

lemma sys_invI:
  assumes "db_ok (s_db s)" "ns_ids (s_db s) \<subseteq> set (s_issued s)"
    "fst ` set (s_founders s) \<subseteq> set (s_issued s)"
    "\<And>ns u. (ns, u) \<in> set (s_founders s) \<Longrightarrow> ns \<in> ns_ids (s_db s) \<Longrightarrow> has_owner (s_db s) ns u"
    "\<And>ns u w. (ns, u) \<in> set (s_founders s) \<Longrightarrow> ns \<in> ns_ids (s_db s) \<Longrightarrow> w \<in> set (s_pending s) \<Longrightarrow>
       \<not> threatens w ns u"
  shows "sys_inv s"
  using assms by (auto simp: sys_inv_def)

lemma sys_invD:
  assumes "sys_inv s"
  shows "db_ok (s_db s)" "ns_ids (s_db s) \<subseteq> set (s_issued s)"
    "fst ` set (s_founders s) \<subseteq> set (s_issued s)"
    "\<And>ns u. (ns, u) \<in> set (s_founders s) \<Longrightarrow> ns \<in> ns_ids (s_db s) \<Longrightarrow> has_owner (s_db s) ns u"
    "\<And>ns u w. (ns, u) \<in> set (s_founders s) \<Longrightarrow> ns \<in> ns_ids (s_db s) \<Longrightarrow> w \<in> set (s_pending s) \<Longrightarrow>
       \<not> threatens w ns u"
  using assms unfolding sys_inv_def by blast+

lemma SetMember_write_cases:
  obtains "snd (SetMember_write flt now d ns u r) = d"
    | row d' where "snd (SetMember_write flt now d ns u r) = d'"
        "AddNamespaceMember flt now d ns u r = Inr (row, d')"
  by (cases "AddNamespaceMember flt now d ns u r") (auto simp: SetMember_write_def)

lemma RemoveMember_write_cases:
  obtains "snd (RemoveMember_write flt d ns u) = d"
    | n d' where "snd (RemoveMember_write flt d ns u) = d'"
        "RemoveNamespaceMember flt d ns u = Inr (n, d')"
  by (cases "RemoveNamespaceMember flt d ns u") (auto simp: RemoveMember_write_def)

lemma Namespace_Update_cases:
  obtains "snd (Namespace_Update parse f1 f2 now d sid name vis) = d"
    | nid nm v row d' where "snd (Namespace_Update parse f1 f2 now d sid name vis) = d'"
        "UpdateNamespaceRow f2 now d nid nm v = Inr (row, d')"
proof (cases "snd (Namespace_Update parse f1 f2 now d sid name vis) = d")
  case False
  then show ?thesis
    using that(2) by (auto simp: Namespace_Update_def Let_def split: option.splits sum.splits if_splits)
qed (use that in blast)

lemma Namespace_Delete_cases:
  obtains "snd (Namespace_Delete parse flt d sid) = d"
    | nid n d' where "snd (Namespace_Delete parse flt d sid) = d'"
        "DeleteNamespaceRow flt d nid = Inr (n, d')"
proof (cases "snd (Namespace_Delete parse flt d sid) = d")
  case False
  then show ?thesis
    using that(2) by (auto simp: Namespace_Delete_def split: option.splits sum.splits if_splits)
qed (use that in blast)

text \<open>The guards: a request that passes them does not threaten an owner that the tables show.\<close>

lemma SetMember_check_guard:
  assumes "db_ok d" "SetMember_check parse flt d p = Inr (ns, u)" "has_owner d ns u"
  shows "smp_role p = RoleOwner"
proof -
  from assms(3) obtain m where m: "m \<in> set (members d)" "mr_ns m = ns" "mr_user m = u" "mr_role m = RoleOwner"
    by (auto simp: has_owner_def)
  from find_member [OF assms(1) m(1-3)] assms(2) m(4) show ?thesis
    by (auto simp: SetMember_check_def GetNamespaceMember_def split: option.splits if_splits)
qed

lemma RemoveMember_check_guard:
  assumes "db_ok d" "RemoveMember_check parse flt d sns suser = Inr (ns, u)"
  shows "\<not> has_owner d ns u"
proof
  assume "has_owner d ns u"
  then obtain m where m: "m \<in> set (members d)" "mr_ns m = ns" "mr_user m = u" "mr_role m = RoleOwner"
    by (auto simp: has_owner_def)
  from find_member [OF assms(1) m(1-3)] assms(2) m(4) show False
    by (auto simp: RemoveMember_check_def GetNamespaceMember_def split: option.splits if_splits)
qed

lemma sys_inv_db:
  assumes inv: "sys_inv s" and ok: "db_ok d'" and ids: "ns_ids d' \<subseteq> ns_ids (s_db s)"
    and pend: "set ps \<subseteq> set (s_pending s)"
    and keep: "\<And>ns u. (ns, u) \<in> set (s_founders s) \<Longrightarrow> ns \<in> ns_ids d' \<Longrightarrow> has_owner (s_db s) ns u \<Longrightarrow>
                 has_owner d' ns u"
  shows "sys_inv (s\<lparr>s_db := d', s_pending := ps\<rparr>)"
proof (rule sys_invI, goal_cases)
  case (4 ns u)
  then show ?case using sys_invD(4) [OF inv, of ns u] ids keep by auto
next
  case (5 ns u w)
  then show ?case using sys_invD(5) [OF inv, of ns u w] ids pend by auto
qed (use sys_invD(2,3) [OF inv] ok ids in auto)

lemma sys_inv_step: "sys_step parse s t \<Longrightarrow> sys_inv s \<Longrightarrow> sys_inv t"
proof (induction rule: sys_step.induct)
  case (begin_set flt s p ns u)
  note inv = sys_invD [OF begin_set.prems]
  have "smp_role p = RoleOwner" if "(ns, u) \<in> set (s_founders s)" "ns \<in> ns_ids (s_db s)"
    using SetMember_check_guard [OF inv(1) begin_set.hyps inv(4) [OF that]] .
  then show ?case using inv by (intro sys_invI) auto
next
  case (finish_set s xs ns u r ys flt now)
  note inv = sys_invD [OF finish_set.prems]
  have pend: "set (xs @ ys) \<subseteq> set (s_pending s)" using finish_set.hyps by auto
  show ?case
  proof (cases rule: SetMember_write_cases [of flt now "s_db s" ns u r])
    case 1
    then show ?thesis using sys_inv_db [OF finish_set.prems inv(1) subset_refl pend] by simp
  next
    case (2 row d')
    have "r = RoleOwner" if "(ns, u) \<in> set (s_founders s)" "ns \<in> ns_ids (s_db s)"
      using inv(5) [OF that, of "PSet ns u r"] finish_set.hyps by simp
    then show ?thesis
      unfolding 2(1)
      using AddNamespaceMember_ok [OF inv(1) 2(2)] AddNamespaceMember_ids [OF 2(2)] pend
      by (intro sys_inv_db [OF finish_set.prems]) (auto intro: AddNamespaceMember_owner [OF 2(2)])
  qed
next
  case (begin_remove flt s sns suser ns u)
  note inv = sys_invD [OF begin_remove.prems]
  have "\<not> has_owner (s_db s) ns u" using RemoveMember_check_guard [OF inv(1) begin_remove.hyps] .
  then show ?case using inv by (intro sys_invI) auto
next
  case (finish_remove s xs ns u ys flt)
  note inv = sys_invD [OF finish_remove.prems]
  have pend: "set (xs @ ys) \<subseteq> set (s_pending s)" using finish_remove.hyps by auto
  show ?case
  proof (cases rule: RemoveMember_write_cases [of flt "s_db s" ns u])
    case 1
    then show ?thesis using sys_inv_db [OF finish_remove.prems inv(1) subset_refl pend] by simp
  next
    case (2 n d')
    note R = RemoveNamespaceMember_ok [OF inv(1) 2(2)]
    have "\<not> ((ns, u) \<in> set (s_founders s) \<and> ns \<in> ns_ids (s_db s))"
      using inv(5) [of ns u "PRemove ns u"] finish_remove.hyps by auto
    then show ?thesis
      unfolding 2(1)
      using R(1,2) pend by (intro sys_inv_db [OF finish_remove.prems]) (auto intro: R(3))
  qed
next
  case (create nid s flt now name owner vis n d')
  note inv = sys_invD [OF create.prems]
  from create.hyps(3) obtain row v where
    C: "CreateNamespaceRow flt now nid (s_db s) name v owner = Inr (row, d')"
    by (auto simp: Namespace_Create_def Let_def split: sum.splits if_splits)
  note K = CreateNamespaceRow_ok [OF inv(1) C]
  have untouched: "\<not> threatens w nid u" if "w \<in> set (s_pending s)" for w u
    using create.hyps(2) that by (cases w) (auto simp: image_iff)
  have old: "ns \<noteq> nid" if "(ns, u) \<in> set (s_founders s)" for ns u
    using that inv(3) create.hyps(1) by force
  show ?case
  proof (rule sys_invI, goal_cases)
    case (4 ns u)
    then show ?case using inv(4) [of ns u] K(2-4) old [of ns u] by (auto split: option.splits)
  next
    case (5 ns u w)
    then show ?case using inv(5) [of ns u w] K(2) untouched by (auto split: option.splits)
  qed (use inv(2,3) K(1,2) in \<open>auto split: option.splits\<close>)
next
  case (update s f1 f2 now sid name vis)
  note inv = sys_invD [OF update.prems]
  show ?case
  proof (cases rule: Namespace_Update_cases [of parse f1 f2 now "s_db s" sid name vis])
    case 1
    then show ?thesis using update.prems by simp
  next
    case (2 nid nm v row d')
    note U = UpdateNamespaceRow_ok [OF inv(1) 2(2)]
    show ?thesis
      unfolding 2(1)
      using sys_inv_db [OF update.prems U(1), of "s_pending s"] U(2,3) by (simp add: has_owner_def)
  qed
next
  case (delete s flt sid)
  note inv = sys_invD [OF delete.prems]
  show ?case
  proof (cases rule: Namespace_Delete_cases [of parse flt "s_db s" sid])
    case 1
    then show ?thesis using delete.prems by simp
  next
    case (2 nid n d')
    note D = DeleteNamespaceRow_ok [OF inv(1) 2(2)]
    show ?thesis
      unfolding 2(1)
      using sys_inv_db [OF delete.prems D(1), of "s_pending s"] D(2,3) by auto
  qed
qed

lemma sys_inv_reachable: "sys_reachable parse us s \<Longrightarrow> sys_inv s"
proof (induction rule: sys_reachable.induct)
  case start
  show ?case by (simp add: sys_inv_def sys_init_def db_ok_def)
next
  case (step s t)
  then show ?case by (blast intro: sys_inv_step)
qed

section \<open>Properties\<close>

text \<open>C2: A namespace keeps the owner it was created with. In every state reachable by any
  interleaving of membership changes, removals, namespace creations, updates and deletions, with
  any database failures in between, a namespace that was created with an owner and has not been
  deleted still has exactly that user as its owner: nobody demotes, removes or replaces them, and
  no second owner appears.\<close>

theorem founder_stays_owner:
  assumes "sys_reachable parse us s"
    and "(ns, u) \<in> set (s_founders s)" and "ns \<in> ns_ids (s_db s)"
  shows "namespace_owner (s_db s) ns = Some u"
  using sys_invD(1,4) [OF sys_inv_reachable [OF assms(1)]] assms(2,3)
  by (simp add: namespace_owner_iff)

definition demo_parse :: uuid_parser where
  "demo_parse sid = (if sid = ''ns'' then Some 7 else if sid = ''user'' then Some 1 else None)"

definition demo_db :: "member_row list \<Rightarrow> db" where
  "demo_db ms =
     \<lparr>namespaces = [\<lparr>ns_id = 7, ns_name = ''team'', ns_visibility = ''private'',
                      ns_created = 0, ns_updated = 0\<rparr>],
      members = ms, users = [1]\<rparr>"

definition demo_member :: "role \<Rightarrow> member_row" where
  "demo_member r = \<lparr>mr_ns = 7, mr_user = 1, mr_role = r, mr_created = 0\<rparr>"

definition demo_sys :: "member_row list \<Rightarrow> pending_write list \<Rightarrow> (uuid \<times> uuid) list \<Rightarrow> sys" where
  "demo_sys ms ps fs = \<lparr>s_db = demo_db ms, s_pending = ps, s_issued = [7], s_founders = fs\<rparr>"

definition demo_owner_rows :: "uuid option \<Rightarrow> member_row list" where
  "demo_owner_rows owner = (case owner of None \<Rightarrow> [] | Some u \<Rightarrow> [demo_member RoleOwner])"

lemma demo_create_row:
  "owner = None \<or> owner = Some 1 \<Longrightarrow>
   \<exists>n. Namespace_Create None 0 7 (s_db (sys_init [1])) ''team'' owner [] = (Inr n, demo_db (demo_owner_rows owner))"
  by (auto simp: sys_init_def Namespace_Create_def CreateNamespaceRow_def Let_def
      demo_db_def demo_member_def demo_owner_rows_def)

lemma demo_create:
  assumes "owner = None \<or> owner = Some 1"
  shows "sys_reachable demo_parse [1]
     (demo_sys (demo_owner_rows owner) [] (case owner of None \<Rightarrow> [] | Some u \<Rightarrow> [(7, u)]))"
proof -
  obtain n where "Namespace_Create None 0 7 (s_db (sys_init [1])) ''team'' owner [] =
      (Inr n, demo_db (demo_owner_rows owner))"
    using demo_create_row [OF assms] by blast
  from sys_step.create [OF _ _ this, of demo_parse]
  have "sys_step demo_parse (sys_init [1])
      (demo_sys (demo_owner_rows owner) [] (case owner of None \<Rightarrow> [] | Some u \<Rightarrow> [(7, u)]))"
    by (simp add: sys_init_def demo_sys_def)
  then show ?thesis by (rule sys_reachable.step [OF sys_reachable.start])
qed

theorem founder_stays_owner_witness:
  "namespace_owner (s_db (demo_sys [demo_member RoleOwner] [] [(7, 1)])) 7 = Some 1"
  by (rule founder_stays_owner [where parse = demo_parse and us = "[1]"])
    (use demo_create [of "Some 1"] in \<open>simp_all add: demo_owner_rows_def demo_sys_def demo_db_def\<close>)

text \<open>Without a founding owner the guard's read and the write can be torn apart.\<close>

lemma demo_begin_set:
  assumes "Role_Valid r"
  shows "sys_step demo_parse (demo_sys [] ps fs) (demo_sys [] (PSet 7 1 r # ps) fs)"
  using sys_step.begin_set [where parse = demo_parse and flt = None and s = "demo_sys [] ps fs"
      and p = "\<lparr>smp_ns = ''ns'', smp_user = ''user'', smp_role = r\<rparr>" and ns = 7 and u = 1] assms
  by (simp add: SetMember_check_def demo_parse_def GetNamespaceMember_def demo_sys_def demo_db_def)

lemma demo_write_owner:
  "snd (SetMember_write None 0 (demo_db []) 7 1 RoleOwner) = demo_db [demo_member RoleOwner]"
  by (simp add: SetMember_write_def AddNamespaceMember_def Let_def demo_db_def demo_member_def
      Role_Valid_iff allRoles_def)

lemma demo_write_viewer:
  "snd (SetMember_write None 0 (demo_db [demo_member RoleOwner]) 7 1 RoleViewer) =
   demo_db [demo_member RoleViewer]"
  by (simp add: SetMember_write_def AddNamespaceMember_def demo_db_def demo_member_def
      Role_Valid_iff allRoles_def set_role_def)

lemma demo_finish:
  assumes "snd (SetMember_write None 0 (demo_db ms) 7 1 r) = demo_db ms'"
  shows "sys_step demo_parse (demo_sys ms (PSet 7 1 r # ps) fs) (demo_sys ms' ps fs)"
proof -
  have "sys_step demo_parse (demo_sys ms (PSet 7 1 r # ps) fs)
      (demo_sys ms (PSet 7 1 r # ps) fs\<lparr>s_db := demo_db ms', s_pending := [] @ ps\<rparr>)"
    unfolding assms [symmetric]
    using sys_step.finish_set [of "demo_sys ms (PSet 7 1 r # ps) fs" "[]" 7 1 r ps demo_parse None 0]
    by (simp add: demo_sys_def)
  then show ?thesis by (simp add: demo_sys_def)
qed

text \<open>C34: The guard rail against demoting an owner has a race. There is a reachable state in which a
  namespace has an owner (it was created without one, and the owner was granted later) and one
  further step, the write of a request whose guard read the membership before the grant, leaves
  the namespace in place with no owner at all.\<close>

theorem owner_demoted_by_race:
  "\<exists>s t. sys_reachable demo_parse [1] s \<and> sys_step demo_parse s t \<and>
     namespace_owner (s_db s) 7 = Some 1 \<and> 7 \<in> ns_ids (s_db t) \<and> namespace_owner (s_db t) 7 = None"
proof (intro exI conjI)
  have valid: "Role_Valid RoleViewer" "Role_Valid RoleOwner"
    by (simp_all add: Role_Valid_iff allRoles_def)
  have "sys_reachable demo_parse [1] (demo_sys [] [] [])"
    using demo_create [of None] by (simp add: demo_owner_rows_def)
  then have "sys_reachable demo_parse [1] (demo_sys [] [PSet 7 1 RoleOwner, PSet 7 1 RoleViewer] [])"
    by (rule sys_reachable.step [OF sys_reachable.step [OF _ demo_begin_set [OF valid(1)]]
          demo_begin_set [OF valid(2)]])
  then show "sys_reachable demo_parse [1] (demo_sys [demo_member RoleOwner] [PSet 7 1 RoleViewer] [])"
    by (rule sys_reachable.step [OF _ demo_finish [OF demo_write_owner]])
  show "sys_step demo_parse (demo_sys [demo_member RoleOwner] [PSet 7 1 RoleViewer] [])
     (demo_sys [demo_member RoleViewer] [] [])"
    by (rule demo_finish [OF demo_write_viewer])
qed (simp_all add: demo_sys_def demo_db_def demo_member_def namespace_owner_def role_defs)

end
