(* ===== verification/GoStrings.thy ===== *)
theory GoStrings
  imports GoSort
begin

text \<open>
  The functions of Go's \<open>strings\<close> and \<open>strconv\<close> packages that the modelled code calls, on byte
  strings, with separators of one byte (the only ones used). \<open>to_lower\<close> maps the ASCII letters;
  \<open>strings.ToLower\<close> also maps letters outside ASCII, which none of the identifiers it is applied
  to (purl types, enum names, media types) may contain.
\<close>

section \<open>Searching and cutting\<close>

fun index_byte :: "char \<Rightarrow> string \<Rightarrow> nat option" where
  "index_byte c [] = None"
| "index_byte c (x # xs) = (if x = c then Some 0 else map_option Suc (index_byte c xs))"

definition last_index_byte :: "char \<Rightarrow> string \<Rightarrow> nat option" where
  "last_index_byte c s = map_option (\<lambda>i. length s - Suc i) (index_byte c (rev s))"

definition cut :: "char \<Rightarrow> string \<Rightarrow> string \<times> string \<times> bool" where
  "cut c s = (case index_byte c s of
                Some i \<Rightarrow> (take i s, drop (Suc i) s, True)
              | None \<Rightarrow> (s, [], False))"

text \<open>\<open>strings.SplitN(s, sep, n)\<close> for \<open>n > 0\<close>: at most \<open>n\<close> parts.\<close>

fun splitn :: "char \<Rightarrow> nat \<Rightarrow> string \<Rightarrow> string list" where
  "splitn c 0 s = []"
| "splitn c (Suc 0) s = [s]"
| "splitn c (Suc (Suc n)) s =
     (case index_byte c s of
        None \<Rightarrow> [s]
      | Some i \<Rightarrow> take i s # splitn c (Suc n) (drop (Suc i) s))"

fun join :: "string \<Rightarrow> string list \<Rightarrow> string" where
  "join sep [] = []"
| "join sep [x] = x"
| "join sep (x # y # ys) = x @ sep @ join sep (y # ys)"

definition has_suffix :: "string \<Rightarrow> string \<Rightarrow> bool" where
  "has_suffix s p \<longleftrightarrow> has_prefix (rev s) (rev p)"

definition lower_char :: "char \<Rightarrow> char" where
  "lower_char c = (if 65 \<le> byte_of c \<and> byte_of c \<le> 90 then char_of (byte_of c + 32) else c)"

definition to_lower :: "string \<Rightarrow> string" where
  "to_lower s = map lower_char s"

text \<open>\<open>strings.TrimSpace\<close> on ASCII: tab, newline, vertical tab, form feed, carriage return, space.\<close>

definition is_space :: "char \<Rightarrow> bool" where
  "is_space c \<longleftrightarrow> byte_of c = 32 \<or> 9 \<le> byte_of c \<and> byte_of c \<le> 13"

definition trim_space :: "string \<Rightarrow> string" where
  "trim_space s = rev (dropWhile is_space (rev (dropWhile is_space s)))"

lemma index_byte_Some: "index_byte c s = Some i \<Longrightarrow> i < length s \<and> s ! i = c \<and> c \<notin> set (take i s)"
  by (induction s arbitrary: i) (auto split: if_splits)

lemma index_byte_None: "index_byte c s = None \<longleftrightarrow> c \<notin> set s"
  by (induction s) auto

lemma index_byte_append: "c \<notin> set p \<Longrightarrow> index_byte c (p @ c # q) = Some (length p)"
  by (induction p) auto

lemma cut_found [simp]: "c \<notin> set p \<Longrightarrow> cut c (p @ c # q) = (p, q, True)"
  by (simp add: cut_def index_byte_append)

lemma cut_absent [simp]: "c \<notin> set s \<Longrightarrow> cut c s = (s, [], False)"
  using index_byte_None [of c s] by (simp add: cut_def)

lemma splitn_absent: "c \<notin> set s \<Longrightarrow> splitn c (Suc n) s = [s]"
  by (cases n) (simp_all add: index_byte_None [THEN iffD2])

lemma splitn_found:
  "c \<notin> set p \<Longrightarrow> splitn c (Suc (Suc n)) (p @ c # q) = p # splitn c (Suc n) q"
  by (simp add: index_byte_append)

section \<open>Numbers\<close>

text \<open>
  \<open>strconv.ParseUint(s, 10, 64)\<close> on the digits after an optional sign: \<open>None\<close> is a syntax error;
  a value out of range saturates at the character where it is noticed, before later characters are
  looked at.
\<close>

fun parse_uint :: "nat \<Rightarrow> string \<Rightarrow> nat option" where
  "parse_uint n [] = Some n"
| "parse_uint n (c # cs) =
     (if \<not> is_digit c then None
      else if n \<ge> 1844674407370955162 then Some 18446744073709551615
      else let n1 = n * 10 + (byte_of c - 48)
           in if n1 > 18446744073709551615 then Some 18446744073709551615 else parse_uint n1 cs)"

text \<open>The value of \<open>v, _ := strconv.Atoi(s)\<close> with a 64-bit \<open>int\<close>: 0 on a syntax error, the nearest
  bound when out of range.\<close>

definition atoi_sign :: "string \<Rightarrow> bool \<times> string" where
  "atoi_sign s = (case s of
       [] \<Rightarrow> (False, [])
     | c # cs \<Rightarrow> if c = CHR ''-'' then (True, cs) else if c = CHR ''+'' then (False, cs) else (False, s))"

definition atoi_value :: "string \<Rightarrow> int" where
  "atoi_value s =
     (let (neg, ds) = atoi_sign s in
      if ds = [] then 0
      else case parse_uint 0 ds of
             None \<Rightarrow> 0
           | Some un \<Rightarrow>
               if \<not> neg \<and> un \<ge> 9223372036854775808 then 9223372036854775807
               else if neg \<and> un > 9223372036854775808 then -9223372036854775808
               else if neg then - int un else int un)"

lemma atoi_value_range: "-(2 ^ 63) \<le> atoi_value s \<and> atoi_value s < 2 ^ 63"
  by (auto simp: atoi_value_def Let_def split: option.splits prod.splits)

lemma parse_uint_digits: "list_all is_digit s \<Longrightarrow> parse_uint n s \<noteq> None"
  by (induction s arbitrary: n) (auto simp: Let_def)

lemma is_digit_neq_sign: "is_digit c \<Longrightarrow> c \<noteq> CHR ''-'' \<and> c \<noteq> CHR ''+''"
  by (auto simp: is_digit_def)

lemma atoi_value_digits_nonneg:
  assumes "list_all is_digit s"
  shows "0 \<le> atoi_value s"
proof (cases s)
  case (Cons c cs)
  with assms have "atoi_sign s = (False, s)"
    using is_digit_neq_sign [of c] by (simp add: atoi_sign_def)
  then show ?thesis by (auto simp: atoi_value_def split: option.splits)
qed (simp add: atoi_value_def atoi_sign_def)

section \<open>Decimal\<close>

fun show_nat :: "nat \<Rightarrow> string" where
  "show_nat n = (if n < 10 then [char_of (48 + n)] else show_nat (n div 10) @ [char_of (48 + n mod 10)])"

declare show_nat.simps [simp del]

text \<open>\<open>strconv.FormatInt(n, 10)\<close>.\<close>

definition FormatInt :: "int \<Rightarrow> string" where
  "FormatInt n = (if n < 0 then ''-'' @ show_nat (nat (- n)) else show_nat (nat n))"

definition is_hex :: "char \<Rightarrow> bool" where
  "is_hex c \<longleftrightarrow> is_digit c \<or> 97 \<le> byte_of c \<and> byte_of c \<le> 102 \<or> 65 \<le> byte_of c \<and> byte_of c \<le> 70"

end
