(* ===== verification/VersionCompare.thy ===== *)
theory VersionCompare
  imports GoStrings
begin

text \<open>
  Version ordering, \<^verbatim>\<open>internal/service/version_compare.go\<close> and \<^verbatim>\<open>semver.go\<close>: the Debian version
  algorithm, the dispatch between it and semantic versions, the verdict on the direction of a
  change, and the sort modes of a version timeline. The semantic version library
  (Masterminds/semver) is not part of the repository: \<open>sv_parse\<close> is its \<open>NewVersion\<close> and
  \<open>sv_compare\<close> its \<open>Compare\<close>, and what the code relies on is named \<open>semver_lib_ok\<close>.
\<close>

section \<open>The Debian algorithm\<close>

definition debCharOrd :: "nat \<Rightarrow> int" where
  "debCharOrd c =
     (if c = 126 then -1
      else if c = 0 then 0
      else if 97 \<le> c \<and> c \<le> 122 \<or> 65 \<le> c \<and> c \<le> 90 then int c
      else int c + 256)"

definition debReadAlpha :: "string \<Rightarrow> string \<times> string" where
  "debReadAlpha s = (takeWhile (\<lambda>c. \<not> is_digit c) s, dropWhile (\<lambda>c. \<not> is_digit c) s)"

definition debReadDigit :: "string \<Rightarrow> int \<times> string" where
  "debReadDigit s = (atoi_value (takeWhile is_digit s), dropWhile is_digit s)"

text \<open>The inner loop runs \<open>k\<close> over the positions of the longer run; past its end a run reads as the
  zero byte.\<close>

definition byte_at :: "string \<Rightarrow> nat \<Rightarrow> nat" where
  "byte_at r k = (if k < length r then byte_of (r ! k) else 0)"

fun deb_alpha_loop :: "string \<Rightarrow> string \<Rightarrow> nat list \<Rightarrow> int" where
  "deb_alpha_loop ra rb [] = 0"
| "deb_alpha_loop ra rb (k # ks) =
     (let oa = debCharOrd (byte_at ra k); ob = debCharOrd (byte_at rb k)
      in if oa \<noteq> ob then (if oa < ob then -1 else 1) else deb_alpha_loop ra rb ks)"

text \<open>The outer loop: the strings are what is left of each input.\<close>

function debCmpStr :: "string \<Rightarrow> string \<Rightarrow> int" where
  "debCmpStr a b =
     (if a = [] \<and> b = [] then 0
      else
        let (ra, a2) = debReadAlpha a; (rb, b2) = debReadAlpha b;
            c = deb_alpha_loop ra rb [0..<max (length ra) (length rb)]
        in if c \<noteq> 0 then c
           else
             let (an, a3) = debReadDigit a2; (bn, b3) = debReadDigit b2
             in if an \<noteq> bn then (if an < bn then -1 else 1) else debCmpStr a3 b3)"
  by pat_completeness auto

text \<open>One round consumes something of any string that is not empty.\<close>

definition deb_rest :: "string \<Rightarrow> string" where
  "deb_rest s = dropWhile is_digit (dropWhile (\<lambda>c. \<not> is_digit c) s)"

lemma deb_rest_shorter: "s \<noteq> [] \<Longrightarrow> length (deb_rest s) < length s"
proof (cases s)
  case (Cons c cs)
  show ?thesis
  proof (cases "is_digit c")
    case True
    then have "deb_rest s = dropWhile is_digit cs" using Cons by (simp add: deb_rest_def)
    then show ?thesis using Cons length_dropWhile_le [of is_digit cs] by simp
  next
    case False
    then have "deb_rest s = deb_rest cs" using Cons by (simp add: deb_rest_def)
    moreover have "length (deb_rest cs) \<le> length cs"
      unfolding deb_rest_def by (meson le_trans length_dropWhile_le)
    ultimately show ?thesis using Cons by simp
  qed
qed simp

lemma deb_rest_le: "length (deb_rest s) \<le> length s"
  by (cases "s = []") (auto simp: deb_rest_def dest: deb_rest_shorter)

termination debCmpStr
proof (relation "measure (\<lambda>(a, b). length a + length b)", goal_cases)
  case (2 a b p ra a2 q rb b2 c r an a3 t bn b3)
  then have rests: "a3 = deb_rest a" "b3 = deb_rest b"
    by (auto simp: debReadAlpha_def debReadDigit_def deb_rest_def)
  from 2(1) have "length (deb_rest a) + length (deb_rest b) < length a + length b"
    using deb_rest_shorter [of a] deb_rest_shorter [of b] deb_rest_le [of a] deb_rest_le [of b]
    by (cases "a = []") (auto simp: deb_rest_def)
  with rests show ?case by simp
qed simp

declare debCmpStr.simps [simp del]

definition parseDebVer :: "string \<Rightarrow> int \<times> string \<times> string" where
  "parseDebVer v =
     (let (epoch, v) = (case index_byte CHR '':'' v of
                          Some ci \<Rightarrow> (atoi_value (take ci v), drop (Suc ci) v)
                        | None \<Rightarrow> (0, v))
      in case last_index_byte CHR ''-'' v of
           Some di \<Rightarrow> (epoch, take di v, drop (Suc di) v)
         | None \<Rightarrow> (epoch, v, []))"

definition debVersionCompare :: "string \<Rightarrow> string \<Rightarrow> int" where
  "debVersionCompare a b =
     (let (ea, va, ra) = parseDebVer a; (eb, vb, rb) = parseDebVer b in
      if ea \<noteq> eb then (if ea < eb then -1 else 1)
      else let c = debCmpStr va vb in if c \<noteq> 0 then c else debCmpStr ra rb)"

section \<open>Its reference definition\<close>

text \<open>A version segment string is a list of (non-digit run, number) pairs; two of them compare
  lexicographically, missing pairs reading as the empty run and zero, and runs compare
  lexicographically, missing characters reading as the zero byte.\<close>

function segments :: "string \<Rightarrow> (string \<times> int) list" where
  "segments s =
     (if s = [] then []
      else (fst (debReadAlpha s), fst (debReadDigit (snd (debReadAlpha s)))) # segments (deb_rest s))"
  by pat_completeness auto

termination segments
  by (relation "measure length") (simp_all add: deb_rest_shorter)

declare segments.simps [simp del]

definition char_cmp :: "nat \<Rightarrow> nat \<Rightarrow> int" where
  "char_cmp = on_key int_cmp debCharOrd"

definition run_cmp :: "string \<Rightarrow> string \<Rightarrow> int" where
  "run_cmp = on_key (lex_pad char_cmp 0) (map byte_of)"

definition seg_cmp :: "string \<times> int \<Rightarrow> string \<times> int \<Rightarrow> int" where
  "seg_cmp = then_cmp (on_key run_cmp fst) (on_key int_cmp snd)"

lemma comparator_seg_cmp: "comparator seg_cmp"
  unfolding seg_cmp_def run_cmp_def char_cmp_def
  by (intro comparator_then_cmp comparator_on_key comparator_lex_pad comparator_int_cmp)

lemma deb_alpha_loop_shift:
  "deb_alpha_loop (x # ra) (y # rb) (map Suc ks) = deb_alpha_loop ra rb ks"
  "deb_alpha_loop (x # ra) [] (map Suc ks) = deb_alpha_loop ra [] ks"
  "deb_alpha_loop [] (y # rb) (map Suc ks) = deb_alpha_loop [] rb ks"
  by (induction ks) (auto simp: byte_at_def Let_def)

lemma upt_max_Suc: "[0..<Suc n] = 0 # map Suc [0..<n]"
  by (simp add: map_Suc_upt upt_conv_Cons del: upt_Suc)

lemma deb_alpha_loop_run_cmp:
  "deb_alpha_loop ra rb [0..<max (length ra) (length rb)] = run_cmp ra rb"
proof (induction ra arbitrary: rb)
  case Nil
  show ?case
  proof (induction rb)
    case (Cons y rb)
    then show ?case
      by (simp add: upt_max_Suc deb_alpha_loop_shift byte_at_def run_cmp_def on_key_def char_cmp_def
          int_cmp_def Let_def del: upt_Suc)
  qed (simp add: run_cmp_def on_key_def)
next
  case (Cons x ra)
  show ?case
  proof (cases rb)
    case Nil
    then show ?thesis
      using Cons.IH [of "[]"]
      by (simp add: upt_max_Suc deb_alpha_loop_shift byte_at_def run_cmp_def on_key_def char_cmp_def
          int_cmp_def Let_def del: upt_Suc)
  next
    case (Cons y rb')
    then show ?thesis
      using Cons.IH [of rb']
      by (simp add: upt_max_Suc deb_alpha_loop_shift byte_at_def run_cmp_def on_key_def char_cmp_def
          int_cmp_def Let_def del: upt_Suc)
  qed
qed

lemma segments_step:
  "s \<noteq> [] \<Longrightarrow> segments s = (fst (debReadAlpha s), fst (debReadDigit (snd (debReadAlpha s)))) # segments (deb_rest s)"
  by (subst segments.simps) simp

lemma segments_Nil [simp]: "segments [] = []"
  by (subst segments.simps) simp

lemma segments_hd_tl:
  "hd_or ([], 0) (segments s) = (fst (debReadAlpha s), fst (debReadDigit (snd (debReadAlpha s))))"
  "tl (segments s) = segments (deb_rest s)"
  by (cases "s = []"; simp add: segments_step debReadAlpha_def debReadDigit_def atoi_value_def
      atoi_sign_def deb_rest_def)+

lemma debCmpStr_round:
  "debCmpStr a b =
     (if seg_cmp (hd_or ([], 0) (segments a)) (hd_or ([], 0) (segments b)) \<noteq> 0
      then seg_cmp (hd_or ([], 0) (segments a)) (hd_or ([], 0) (segments b))
      else debCmpStr (deb_rest a) (deb_rest b))"
proof (cases "a = [] \<and> b = []")
  case True
  have "seg_cmp x x = 0" for x by (rule comparator.cmp_refl [OF comparator_seg_cmp])
  with True show ?thesis by (simp add: debCmpStr.simps [of "[]" "[]"] deb_rest_def)
next
  case False
  show ?thesis
    unfolding debCmpStr.simps [of a b] if_not_P [OF False]
    by (simp add: segments_hd_tl deb_alpha_loop_run_cmp seg_cmp_def
        then_cmp_def on_key_def int_cmp_def debReadAlpha_def debReadDigit_def deb_rest_def Let_def)
qed

lemma debCmpStr_segments:
  "debCmpStr a b = lex_pad seg_cmp ([], 0) (segments a) (segments b)"
proof (induction "length a + length b" arbitrary: a b rule: less_induct)
  case less
  note unfold = lex_pad_unfold [where c = seg_cmp and d = "([], 0)",
      OF comparator.cmp_refl [OF comparator_seg_cmp], of "segments a" "segments b"]
  show ?case
  proof (cases "a = [] \<and> b = []")
    case False
    then have "length (deb_rest a) + length (deb_rest b) < length a + length b"
      using deb_rest_shorter [of a] deb_rest_shorter [of b] deb_rest_le [of a] deb_rest_le [of b]
      by linarith
    then have "debCmpStr (deb_rest a) (deb_rest b) =
        lex_pad seg_cmp ([], 0) (segments (deb_rest a)) (segments (deb_rest b))"
      by (rule less.hyps)
    then show ?thesis
      using debCmpStr_round [of a b] unfold by (simp add: segments_hd_tl(2))
  qed (simp add: debCmpStr.simps)
qed

text \<open>C29: The Debian comparison's two nested, index-driven loops compute the padded lexicographic order
  on segment lists: for all byte strings, \<open>debCmpStr\<close> equals the reference comparison.\<close>

theorem debCmpStr_reference:
  "debCmpStr a b = lex_pad seg_cmp ([], 0) (segments a) (segments b)"
  by (rule debCmpStr_segments)

lemma comparator_debCmpStr: "comparator debCmpStr"
proof -
  have eq: "debCmpStr = on_key (lex_pad seg_cmp ([], 0)) segments"
    by (intro ext) (simp add: debCmpStr_segments on_key_def)
  show ?thesis
    unfolding eq by (intro comparator_on_key comparator_lex_pad comparator_seg_cmp)
qed

lemma debVersionCompare_keys:
  "debVersionCompare =
     on_key (then_cmp (on_key int_cmp fst)
              (then_cmp (on_key debCmpStr (fst \<circ> snd)) (on_key debCmpStr (snd \<circ> snd)))) parseDebVer"
  by (intro ext) (simp add: debVersionCompare_def on_key_def then_cmp_def int_cmp_def Let_def split: prod.splits)

interpretation deb: comparator debVersionCompare
  unfolding debVersionCompare_keys
  by (intro comparator_then_cmp comparator_on_key comparator_int_cmp comparator_debCmpStr)

section \<open>Dispatch\<close>

record 'v semver_lib =
  sv_parse :: "string \<Rightarrow> 'v option"
  sv_compare :: "'v \<Rightarrow> 'v \<Rightarrow> int"

text \<open>The library documents \<open>Compare\<close> as semantic-version precedence, a total preorder.\<close>

definition semver_lib_ok :: "'v semver_lib \<Rightarrow> bool" where
  "semver_lib_ok lib \<longleftrightarrow> comparator (sv_compare lib)"

definition purlType :: "string \<Rightarrow> string" where
  "purlType purl =
     (let (s, _, ok) = cut CHR ''/'' purl in
      if \<not> ok then []
      else let (_, t, ok) = cut CHR '':'' s in if \<not> ok then [] else to_lower t)"

definition distroPurlTypes :: "(string \<times> bool) list" where
  "distroPurlTypes = [(''deb'', True), (''rpm'', True), (''apk'', True)]"

definition isSemver :: "'v semver_lib \<Rightarrow> string \<Rightarrow> bool" where
  "isSemver lib s = (sv_parse lib s \<noteq> None)"

definition compareSemver :: "'v semver_lib \<Rightarrow> string \<Rightarrow> string \<Rightarrow> int" where
  "compareSemver lib a b =
     (case (sv_parse lib a, sv_parse lib b) of
        (Some va, Some vb) \<Rightarrow> sv_compare lib va vb
      | (Some _, None) \<Rightarrow> 1
      | (None, Some _) \<Rightarrow> -1
      | (None, None) \<Rightarrow> if str_less a b then -1 else if str_less b a then 1 else 0)"

definition compareVersions :: "'v semver_lib \<Rightarrow> string \<Rightarrow> string \<Rightarrow> string \<Rightarrow> int" where
  "compareVersions lib purl a b =
     (if map_bool distroPurlTypes (purlType purl) then debVersionCompare a b
      else if isSemver lib a \<and> isSemver lib b then compareSemver lib a b
      else debVersionCompare a b)"

text \<open>\<open>^[0-9]+(\.[0-9]+)*$\<close>\<close>

definition numericVersion :: "string \<Rightarrow> bool" where
  "numericVersion s = list_all (\<lambda>w. w \<noteq> [] \<and> list_all is_digit w) (split_on CHR ''.'' s)"

definition versionsOrderable :: "'v semver_lib \<Rightarrow> string \<Rightarrow> string \<Rightarrow> string \<Rightarrow> bool" where
  "versionsOrderable lib purl a b =
     (if map_bool distroPurlTypes (purlType purl) then True
      else if isSemver lib a \<and> isSemver lib b then True
      else numericVersion a \<and> numericVersion b)"

section \<open>Direction of a change\<close>

definition dirAdded :: string where "dirAdded = ''added''"
definition dirRemoved :: string where "dirRemoved = ''removed''"
definition dirUpgraded :: string where "dirUpgraded = ''upgraded''"
definition dirDowngraded :: string where "dirDowngraded = ''downgraded''"
definition dirModified :: string where "dirModified = ''modified''"

lemmas dir_defs = dirAdded_def dirRemoved_def dirUpgraded_def dirDowngraded_def dirModified_def

record component_diff =
  cd_type :: string
  cd_direction :: string
  cd_name :: string
  cd_group :: "string option"
  cd_version :: "string option"
  cd_purl :: "string option"
  cd_previous :: "string option"
  cd_node_ref :: "string option"

record change_counts =
  n_added :: nat
  n_removed :: nat
  n_upgraded :: nat
  n_downgraded :: nat
  n_modified :: nat

definition no_changes :: change_counts where
  "no_changes = \<lparr>n_added = 0, n_removed = 0, n_upgraded = 0, n_downgraded = 0, n_modified = 0\<rparr>"

text \<open>\<open>ChangeCounts\<close> and \<open>ChangeSummary\<close> have the same fields, and \<open>addDirectionCount\<close> and
  \<open>addSummaryCount\<close> the same body.\<close>

definition addDirectionCount :: "change_counts \<Rightarrow> string \<Rightarrow> change_counts" where
  "addDirectionCount s dir =
     (if dir = dirAdded then s\<lparr>n_added := n_added s + 1\<rparr>
      else if dir = dirRemoved then s\<lparr>n_removed := n_removed s + 1\<rparr>
      else if dir = dirUpgraded then s\<lparr>n_upgraded := n_upgraded s + 1\<rparr>
      else if dir = dirDowngraded then s\<lparr>n_downgraded := n_downgraded s + 1\<rparr>
      else s\<lparr>n_modified := n_modified s + 1\<rparr>)"

definition addSummaryCount :: "change_counts \<Rightarrow> string \<Rightarrow> change_counts" where
  "addSummaryCount s dir =
     (if dir = dirAdded then s\<lparr>n_added := n_added s + 1\<rparr>
      else if dir = dirRemoved then s\<lparr>n_removed := n_removed s + 1\<rparr>
      else if dir = dirUpgraded then s\<lparr>n_upgraded := n_upgraded s + 1\<rparr>
      else if dir = dirDowngraded then s\<lparr>n_downgraded := n_downgraded s + 1\<rparr>
      else s\<lparr>n_modified := n_modified s + 1\<rparr>)"

definition counts_total :: "change_counts \<Rightarrow> nat" where
  "counts_total s = n_added s + n_removed s + n_upgraded s + n_downgraded s + n_modified s"

lemma counts_total_add [simp]:
  "counts_total (addDirectionCount s dir) = Suc (counts_total s)"
  "counts_total (addSummaryCount s dir) = Suc (counts_total s)"
  by (simp_all add: counts_total_def addDirectionCount_def addSummaryCount_def)

definition classifyDirection :: "'v semver_lib \<Rightarrow> component_diff \<Rightarrow> string" where
  "classifyDirection lib d =
     (if cd_type d \<noteq> dirModified then cd_type d
      else case (cd_previous d, cd_version d) of
        (Some prev, Some ver) \<Rightarrow>
          (let purl = (case cd_purl d of None \<Rightarrow> [] | Some p \<Rightarrow> p) in
           if \<not> versionsOrderable lib purl ver prev then dirModified
           else let c = compareVersions lib purl ver prev
                in if c > 0 then dirUpgraded else if c < 0 then dirDowngraded else dirModified)
      | _ \<Rightarrow> dirModified)"

definition versionsEqual :: "string option \<Rightarrow> string option \<Rightarrow> bool" where
  "versionsEqual a b =
     (case (a, b) of
        (None, None) \<Rightarrow> True
      | (Some x, Some y) \<Rightarrow> x = y
      | _ \<Rightarrow> False)"

definition sortedVersions :: "'v semver_lib \<Rightarrow> string list \<Rightarrow> string list" where
  "sortedVersions lib vs = sort_by (compareVersions lib []) vs"

section \<open>Sort modes\<close>

definition SortAuto :: string where "SortAuto = []"
definition SortSemver :: string where "SortSemver = ''semver''"
definition SortBuildTime :: string where "SortBuildTime = ''all''"

lemmas sort_mode_defs = SortAuto_def SortSemver_def SortBuildTime_def

definition ParseVersionSortMode :: "string \<Rightarrow> string" where
  "ParseVersionSortMode s =
     (if s = SortSemver then SortSemver
      else if s = SortBuildTime then SortBuildTime
      else if s = SortAuto then SortAuto else SortAuto)"

definition resolveSortMode :: "string \<Rightarrow> int \<Rightarrow> int \<Rightarrow> string" where
  "resolveSortMode mode semverCount versionCount =
     (if mode = SortAuto
      then (if semverCount > 0 \<and> semverCount * 2 \<ge> versionCount then SortSemver else SortBuildTime)
      else mode)"

section \<open>Properties\<close>

text \<open>Swapping the two sides of a change swaps its verdict: for any change, library and purl, if the
  old and the new version change places then upgraded and downgraded change places, and every other
  verdict stays.\<close>

theorem classifyDirection_swap:
  assumes "semver_lib_ok lib"
  shows "classifyDirection lib (d\<lparr>cd_version := cd_previous d, cd_previous := cd_version d\<rparr>) =
    (if classifyDirection lib d = dirUpgraded \<and> cd_type d = dirModified then dirDowngraded
     else if classifyDirection lib d = dirDowngraded \<and> cd_type d = dirModified then dirUpgraded
     else classifyDirection lib d)"
proof -
  have sv: "sv_compare lib v w < 0 \<longleftrightarrow> 0 < sv_compare lib w v" for v w
    using assms by (simp add: semver_lib_ok_def comparator.cmp_swap)
  have orderable: "versionsOrderable lib p a b = versionsOrderable lib p b a" for p a b
    by (auto simp: versionsOrderable_def)
  have swap: "compareVersions lib p a b < 0 \<longleftrightarrow> 0 < compareVersions lib p b a" for p a b
    using deb.cmp_swap [of a b]
    by (auto simp: compareVersions_def compareSemver_def isSemver_def sv split: option.splits)
  show ?thesis
  proof (cases "cd_type d = dirModified")
    case True
    show ?thesis
    proof (cases "cd_previous d"; cases "cd_version d")
      fix prev ver
      assume some: "cd_previous d = Some prev" "cd_version d = Some ver"
      let ?p = "case cd_purl d of None \<Rightarrow> [] | Some p \<Rightarrow> p"
      show ?thesis
        using True some orderable [of ?p ver prev] swap [of ?p ver prev] swap [of ?p prev ver]
        by (auto simp: classifyDirection_def Let_def dir_defs)
    qed (use True in \<open>simp_all add: classifyDirection_def dir_defs\<close>)
  qed (simp add: classifyDirection_def)
qed

text \<open>A library whose versions are the releases and release candidates the witnesses use.\<close>

definition demo_semver :: "int semver_lib" where
  "demo_semver =
     \<lparr>sv_parse = (\<lambda>s. if s = ''1.0.0-rc.1'' then Some 0 else if s = ''1.0.0'' then Some 1
                    else if s = ''1.1.0'' then Some 2 else None),
      sv_compare = int_cmp\<rparr>"

definition demo_diff :: "string \<Rightarrow> string \<Rightarrow> component_diff" where
  "demo_diff prev ver =
     \<lparr>cd_type = dirModified, cd_direction = [], cd_name = ''x'', cd_group = None,
      cd_version = Some ver, cd_purl = None, cd_previous = Some prev, cd_node_ref = None\<rparr>"

lemma demo_semver_ok: "semver_lib_ok demo_semver"
  by (simp add: semver_lib_ok_def demo_semver_def comparator_int_cmp)

theorem classifyDirection_swap_witness:
  "classifyDirection demo_semver (demo_diff ''1.1.0'' ''1.0.0'') = dirDowngraded"
proof -
  have up: "classifyDirection demo_semver (demo_diff ''1.0.0'' ''1.1.0'') = dirUpgraded"
    by (simp add: classifyDirection_def demo_diff_def versionsOrderable_def compareVersions_def
        compareSemver_def isSemver_def demo_semver_def int_cmp_def purlType_def cut_def
        distroPurlTypes_def)
  have "(demo_diff ''1.0.0'' ''1.1.0'')\<lparr>cd_version := cd_previous (demo_diff ''1.0.0'' ''1.1.0''),
      cd_previous := cd_version (demo_diff ''1.0.0'' ''1.1.0'')\<rparr> = demo_diff ''1.1.0'' ''1.0.0''"
    by (simp add: demo_diff_def)
  then show ?thesis
    using classifyDirection_swap [OF demo_semver_ok, of "demo_diff ''1.0.0'' ''1.1.0''"] up
    by (simp add: demo_diff_def)
qed

lemma deb_rev_examples:
  "debVersionCompare ''1.0.0'' ''1.0.0-1_2'' = -1"
  "debVersionCompare ''1.0.0-1_2'' ''1.0.0-rc.1'' = -1"
  "debVersionCompare ''1.0.0-rc.1'' ''1.0.0-1_2'' = 1"
  by (simp add: debVersionCompare_def parseDebVer_def last_index_byte_def
      debCmpStr_segments segments_step deb_rest_def debReadAlpha_def debReadDigit_def is_digit_def
      atoi_value_def atoi_sign_def seg_cmp_def run_cmp_def char_cmp_def then_cmp_def on_key_def
      int_cmp_def debCharOrd_def)+

text \<open>The version order used outside distro packages is not an order. Semantic versions compare by
  precedence and anything else by the Debian algorithm, so for any library that parses
  \<open>1.0.0-rc.1\<close> and \<open>1.0.0\<close> with the release above its candidate and rejects \<open>1.0.0-1_2\<close>, the three
  strings form a strict cycle; the list \<open>sortedVersions\<close> returns then depends on the order it was
  given, and is not sorted.\<close>

theorem compareVersions_cycle:
  assumes "sv_parse lib ''1.0.0-rc.1'' = Some rc" and "sv_parse lib ''1.0.0'' = Some rel"
    and "sv_compare lib rc rel < 0" and "sv_compare lib rel rc > 0"
    and "sv_parse lib ''1.0.0-1_2'' = None"
  shows "compareVersions lib [] ''1.0.0-rc.1'' ''1.0.0'' < 0 \<and>
    compareVersions lib [] ''1.0.0'' ''1.0.0-1_2'' < 0 \<and>
    compareVersions lib [] ''1.0.0-1_2'' ''1.0.0-rc.1'' < 0 \<and>
    \<not> sorted_by (compareVersions lib []) (sortedVersions lib [''1.0.0-rc.1'', ''1.0.0'', ''1.0.0-1_2''])"
proof -
  have no_purl: "\<not> map_bool distroPurlTypes (purlType [])"
    by (simp add: purlType_def cut_def distroPurlTypes_def)
  have ab: "compareVersions lib [] ''1.0.0-rc.1'' ''1.0.0'' = sv_compare lib rc rel"
    and bc: "compareVersions lib [] ''1.0.0'' ''1.0.0-1_2'' = -1"
    and ca: "compareVersions lib [] ''1.0.0-1_2'' ''1.0.0-rc.1'' = -1"
    using no_purl assms(1,2,5) deb_rev_examples
    by (simp_all add: compareVersions_def isSemver_def compareSemver_def)
  have ac: "compareVersions lib [] ''1.0.0-rc.1'' ''1.0.0-1_2'' = 1"
    using no_purl assms(1,5) deb_rev_examples by (simp add: compareVersions_def isSemver_def)
  show ?thesis
    using ab bc ca ac assms(3) by (simp add: sortedVersions_def sorted_by_def)
qed

theorem compareVersions_cycle_witness:
  "compareVersions demo_semver [] ''1.0.0-1_2'' ''1.0.0-rc.1'' < 0"
  using compareVersions_cycle [of demo_semver 0 1] by (simp add: demo_semver_def int_cmp_def)

end
