(* ===== verification/ComponentDiff.thy ===== *)
theory ComponentDiff
  imports VersionCompare "HOL-Library.AList"
begin

text \<open>
  Component identity and the diff of two SBOMs:
  \<^verbatim>\<open>internal/service/component_identity.go\<close>, with the result types of
  \<^verbatim>\<open>internal/service/changelog.go\<close>. A Go map is an association list with distinct keys; the order of
  the list is the order in which \<open>range\<close> happens to visit the map, which the language leaves open,
  so a statement about every list order is a statement about every iteration order.
\<close>

section \<open>Rows and entries\<close>

record package_row =
  pk_id :: uuid
  pk_bom_ref :: "string option"
  pk_type :: string
  pk_name :: string
  pk_group :: "string option"
  pk_version :: "string option"
  pk_purl :: "string option"

record component_identity =
  ci_version :: "string option"
  ci_purl :: "string option"
  ci_name :: string
  ci_group :: "string option"

record sbom_ref =
  sr_id :: string
  sr_subject_version :: "string option"
  sr_architecture :: "string option"
  sr_flavor :: "string option"
  sr_created_at :: int
  sr_build_date :: "int option"

record changelog_entry =
  ce_from :: sbom_ref
  ce_to :: sbom_ref
  ce_summary :: change_counts
  ce_changes :: "component_diff list"

type_synonym component_map = "(string \<times> component_identity) list"

section \<open>Version suffixes\<close>

text \<open>\<open>versionSuffixRe\<close> is \<^verbatim>\<open>-[0-9][0-9.]*$\<close> and \<open>distroVersionSuffixRe\<close> is
  \<^verbatim>\<open>-[0-9][A-Za-z0-9.-]*$\<close>. A match reaches the end of the string, so replacing every match by the
  empty string cuts the string at the leftmost position where the expression matches.\<close>

definition is_alnum :: "char \<Rightarrow> bool" where
  "is_alnum c \<longleftrightarrow> is_digit c \<or> 65 \<le> byte_of c \<and> byte_of c \<le> 90 \<or> 97 \<le> byte_of c \<and> byte_of c \<le> 122"

definition suffix_at :: "(char \<Rightarrow> bool) \<Rightarrow> string \<Rightarrow> bool" where
  "suffix_at P s = (case s of
      a # d # ds \<Rightarrow> a = CHR ''-'' \<and> is_digit d \<and> list_all P ds
    | _ \<Rightarrow> False)"

fun cut_suffix :: "(char \<Rightarrow> bool) \<Rightarrow> string \<Rightarrow> string" where
  "cut_suffix P [] = []"
| "cut_suffix P (c # cs) = (if suffix_at P (c # cs) then [] else c # cut_suffix P cs)"

definition versionSuffixRe :: "char \<Rightarrow> bool" where
  "versionSuffixRe c \<longleftrightarrow> is_digit c \<or> c = CHR ''.''"

definition distroVersionSuffixRe :: "char \<Rightarrow> bool" where
  "distroVersionSuffixRe c \<longleftrightarrow> is_alnum c \<or> c = CHR ''.'' \<or> c = CHR ''-''"

section \<open>Identity keys\<close>

definition identityQualifiers :: "(string \<times> bool) list" where
  "identityQualifiers =
     [(''distro'', True), (''arch'', True), (''epoch'', True), (''repository_url'', True)]"

definition stripPurlVersion :: "string \<Rightarrow> string" where
  "stripPurlVersion purl =
     (case index_byte (CHR ''@'') purl of Some idx \<Rightarrow> take idx purl | None \<Rightarrow> purl)"

definition kept_qualifier :: "string \<Rightarrow> string option" where
  "kept_qualifier kv =
     (case cut (CHR ''='') kv of (k, val, _) \<Rightarrow>
        if \<not> map_bool identityQualifiers k then None
        else if k = ''distro'' then Some (k @ ''='' @ cut_suffix distroVersionSuffixRe val)
        else Some kv)"

definition normalizeComponentPurl :: "string \<Rightarrow> string" where
  "normalizeComponentPurl purl =
     (case cut (CHR ''?'') purl of (p, qs, hasQ) \<Rightarrow>
        let path = stripPurlVersion p in
        if \<not> hasQ \<or> qs = [] then path
        else let kept = List.map_filter kept_qualifier (split_on (CHR ''&'') qs) in
             if kept = [] then path
             else path @ ''?'' @ join ''&'' (sort_by str_cmp kept))"

text \<open>The NUL byte that separates the parts of a tuple key.\<close>

definition nul :: char where "nul = char_of (0::nat)"

definition componentKey :: "string \<Rightarrow> string \<Rightarrow> string option \<Rightarrow> string option \<Rightarrow> string" where
  "componentKey typ name grp purl =
     (case purl of
        Some p \<Rightarrow> if p \<noteq> [] then normalizeComponentPurl p
                  else typ @ [nul] @ name @ [nul] @ (case grp of Some g \<Rightarrow> g | None \<Rightarrow> [])
      | None \<Rightarrow> typ @ [nul] @ name @ [nul] @ (case grp of Some g \<Rightarrow> g | None \<Rightarrow> []))"

definition row_identity :: "package_row \<Rightarrow> component_identity" where
  "row_identity row = \<lparr>ci_version = pk_version row, ci_purl = pk_purl row, ci_name = pk_name row,
     ci_group = pk_group row\<rparr>"

definition buildPackageMap :: "package_row list \<Rightarrow> component_map" where
  "buildPackageMap rows =
     fold (\<lambda>row m. AList.update (componentKey (pk_type row) (pk_name row) (pk_group row) (pk_purl row))
                     (row_identity row) m) rows []"

definition buildComponentMap :: "package_row list \<Rightarrow> component_map" where
  "buildComponentMap rows =
     fold (\<lambda>row m. AList.update (componentKey (pk_type row) (pk_name row) (pk_group row) (pk_purl row))
                     (row_identity row) m) rows []"

definition nameFromKey :: "string \<Rightarrow> string" where
  "nameFromKey key =
     (if has_prefix key ''pkg:'' then
        (let name = (case last_index_byte (CHR ''/'') key of Some i \<Rightarrow> drop (Suc i) key | None \<Rightarrow> key)
         in (case index_byte (CHR ''?'') name of Some i \<Rightarrow> take i name | None \<Rightarrow> name))
      else let parts = splitn nul 3 key in if length parts \<ge> 2 then parts ! 1 else key)"

definition groupFromKey :: "string \<Rightarrow> string option" where
  "groupFromKey key =
     (if has_prefix key ''pkg:'' then None
      else let parts = splitn nul 3 key in
           if length parts \<ge> 3 \<and> parts ! 2 \<noteq> [] then Some (parts ! 2) else None)"

definition displayName :: "component_identity \<Rightarrow> string \<Rightarrow> string" where
  "displayName c key = (if ci_name c \<noteq> [] then ci_name c else nameFromKey key)"

definition displayGroup :: "component_identity \<Rightarrow> string \<Rightarrow> string option" where
  "displayGroup c key = (if ci_name c \<noteq> [] then ci_group c else groupFromKey key)"

section \<open>The normalised name of a versioned package\<close>

definition purl_norm_key :: "string \<Rightarrow> string" where
  "purl_norm_key s =
     (case last_index_byte (CHR ''/'') s of
        None \<Rightarrow> []
      | Some idx \<Rightarrow>
          let name = drop (Suc idx) s;
              name = (case index_byte (CHR ''?'') name of Some q \<Rightarrow> take q name | None \<Rightarrow> name);
              normalized = cut_suffix versionSuffixRe name
          in if normalized = name then [] else take (Suc idx) s @ normalized)"

definition versionedNormKey :: "component_diff \<Rightarrow> string" where
  "versionedNormKey c =
     (case cd_purl c of
        Some p \<Rightarrow> purl_norm_key (stripPurlVersion p)
      | None \<Rightarrow> let normalized = cut_suffix versionSuffixRe (cd_name c) in
          if normalized = cd_name c then [] else normalized)"

definition normKeyFromComponentKey :: "string \<Rightarrow> string" where
  "normKeyFromComponentKey key =
     (if has_prefix key ''pkg:'' then purl_norm_key key
      else let parts = splitn nul 3 key in
           if length parts \<noteq> 3 then []
           else let normalized = cut_suffix versionSuffixRe (parts ! 1) in
                if normalized = parts ! 1 then [] else normalized)"

section \<open>The diff\<close>

definition new_change :: "component_map \<Rightarrow> string \<times> component_identity \<Rightarrow> component_diff list" where
  "new_change old kc = (case kc of (key, cur) \<Rightarrow>
     case map_of old key of
       None \<Rightarrow> [\<lparr>cd_type = dirAdded, cd_direction = [], cd_name = displayName cur key,
                cd_group = displayGroup cur key, cd_version = ci_version cur,
                cd_purl = ci_purl cur, cd_previous = None, cd_node_ref = None\<rparr>]
     | Some prev \<Rightarrow>
         if \<not> versionsEqual (ci_version prev) (ci_version cur) then
           [\<lparr>cd_type = dirModified, cd_direction = [], cd_name = displayName cur key,
             cd_group = displayGroup cur key, cd_version = ci_version cur,
             cd_purl = ci_purl cur, cd_previous = ci_version prev, cd_node_ref = None\<rparr>]
         else [])"

definition old_change :: "component_map \<Rightarrow> string \<times> component_identity \<Rightarrow> component_diff list" where
  "old_change new kp = (case kp of (key, prev) \<Rightarrow>
     if map_of new key = None then
       [\<lparr>cd_type = dirRemoved, cd_direction = [], cd_name = displayName prev key,
         cd_group = displayGroup prev key, cd_version = ci_version prev,
         cd_purl = ci_purl prev, cd_previous = None, cd_node_ref = None\<rparr>]
     else [])"

definition first_pass :: "component_map \<Rightarrow> component_map \<Rightarrow> component_diff list" where
  "first_pass old new = concat (map (new_change old) new) @ concat (map (old_change new) old)"

definition newNormCount :: "component_map \<Rightarrow> string \<Rightarrow> nat" where
  "newNormCount new nk =
     (if nk = [] then 0
      else length (filter (\<lambda>(key, _). normKeyFromComponentKey key = nk) new))"

type_synonym candidate = "nat \<times> component_diff"
type_synonym candidates = "(string \<times> candidate) list"

definition note_change ::
  "nat \<times> component_diff \<Rightarrow> candidates \<times> candidates \<Rightarrow> candidates \<times> candidates" where
  "note_change ic maps = (case ic of (i, c) \<Rightarrow> case maps of (removedByNorm, addedByNorm) \<Rightarrow>
     let nk = versionedNormKey c in
     if nk = [] then maps
     else if cd_type c = dirRemoved then
       (if map_of removedByNorm nk = None then (removedByNorm @ [(nk, i, c)], addedByNorm) else maps)
     else if cd_type c = dirAdded then
       (if map_of addedByNorm nk = None then (removedByNorm, addedByNorm @ [(nk, i, c)]) else maps)
     else maps)"

definition collapse ::
  "candidates \<Rightarrow> (string \<Rightarrow> nat) \<Rightarrow> string \<times> candidate \<Rightarrow> (component_diff \<times> nat \<times> nat) option" where
  "collapse removedByNorm cnt entry = (case entry of (nk, ai, a) \<Rightarrow>
     case map_of removedByNorm nk of
       None \<Rightarrow> None
     | Some (ri, r) \<Rightarrow>
         if cd_name a = cd_name r then None
         else if cnt nk > 1 then None
         else Some (\<lparr>cd_type = dirModified, cd_direction = [], cd_name = cd_name a,
                      cd_group = cd_group a, cd_version = cd_version a, cd_purl = cd_purl a,
                      cd_previous = cd_version r, cd_node_ref = None\<rparr>, ai, ri))"

text \<open>The argument \<open>ord\<close> is the order in which \<open>range addedByNorm\<close> visits the entries.\<close>

definition reconcileVersionedPackages ::
  "(candidates \<Rightarrow> candidates) \<Rightarrow> component_diff list \<Rightarrow> (string \<Rightarrow> nat) \<Rightarrow> component_diff list" where
  "reconcileVersionedPackages ord changes cnt =
     (case fold note_change (enumerate 0 changes) ([], []) of (removedByNorm, addedByNorm) \<Rightarrow>
        let pairs = List.map_filter (collapse removedByNorm cnt) (ord addedByNorm);
            toRemove = concat (map (\<lambda>(_, ai, ri). [ai, ri]) pairs);
            extra = map fst pairs
        in if extra = [] then changes
           else map snd (filter (\<lambda>(i, _). i \<notin> set toRemove) (enumerate 0 changes)) @ extra)"

definition typeOrder :: "string \<Rightarrow> int" where
  "typeOrder t = (if t = dirRemoved then 0 else if t = dirModified then 1
                  else if t = dirAdded then 2 else 0)"

definition change_cmp :: "component_diff \<Rightarrow> component_diff \<Rightarrow> int" where
  "change_cmp = then_cmp (on_key int_cmp (\<lambda>c. typeOrder (cd_type c))) (on_key str_cmp cd_name)"

definition with_direction :: "'v semver_lib \<Rightarrow> component_diff \<Rightarrow> component_diff" where
  "with_direction lib c = c\<lparr>cd_direction := classifyDirection lib c\<rparr>"

definition diffComponents ::
  "'v semver_lib \<Rightarrow> (candidates \<Rightarrow> candidates) \<Rightarrow> sbom_ref \<Rightarrow> sbom_ref \<Rightarrow>
   component_map \<Rightarrow> component_map \<Rightarrow> changelog_entry" where
  "diffComponents lib ord from_ref to_ref oldMap newMap =
     (let changes = reconcileVersionedPackages ord (first_pass oldMap newMap) (newNormCount newMap);
          changes = map (with_direction lib) changes
      in \<lparr>ce_from = from_ref, ce_to = to_ref,
          ce_summary = fold (\<lambda>c s. addSummaryCount s (cd_direction c)) changes no_changes,
          ce_changes = sort_by change_cmp changes\<rparr>)"

text \<open>An iteration order visits every entry once.\<close>

definition iteration_order :: "('a list \<Rightarrow> 'a list) \<Rightarrow> bool" where
  "iteration_order ord \<longleftrightarrow> (\<forall>xs. mset (ord xs) = mset xs)"

lemma iteration_order_set: "iteration_order ord \<Longrightarrow> set (ord xs) = set xs"
  unfolding iteration_order_def by (metis set_mset_mset)

lemma iteration_order_distinct:
  "iteration_order ord \<Longrightarrow> distinct (map f (ord xs)) = distinct (map f xs)"
  unfolding iteration_order_def by (metis mset_map mset_eq_imp_distinct_iff)


section \<open>Identity keys: lemmas\<close>

lemma cut_suffix_subset: "set (cut_suffix P s) \<subseteq> set s"
  by (induction s) auto

lemma suffix_at_extend:
  assumes "suffix_at P s" and "list_all P v"
  shows "suffix_at P (s @ v)"
  using assms by (auto simp: suffix_at_def split: list.splits)

lemma suffix_at_all:
  "suffix_at P s \<Longrightarrow> P (CHR ''-'') \<Longrightarrow> (\<And>c. is_digit c \<Longrightarrow> P c) \<Longrightarrow> list_all P s"
  by (auto simp: suffix_at_def split: list.splits)

lemma cut_suffix_split: "\<exists>t. s = cut_suffix P s @ t \<and> (t = [] \<or> suffix_at P t)"
proof (induction s)
  case (Cons c cs)
  then obtain t where "cs = cut_suffix P cs @ t" "t = [] \<or> suffix_at P t" by blast
  then show ?case
    by (cases "suffix_at P (c # cs)") (auto intro: exI [of _ t])
qed simp

text \<open>Nothing is left to cut when the expression's tail may itself contain dashes.\<close>

lemma cut_suffix_idem:
  assumes "P (CHR ''-'')" and "\<And>c. is_digit c \<Longrightarrow> P c"
  shows "cut_suffix P (cut_suffix P s) = cut_suffix P s"
proof (induction s)
  case (Cons c cs)
  show ?case
  proof (cases "suffix_at P (c # cs)")
    case False
    obtain t where t: "cs = cut_suffix P cs @ t" "t = [] \<or> suffix_at P t"
      using cut_suffix_split by blast
    have "\<not> suffix_at P (c # cut_suffix P cs)"
    proof
      assume "suffix_at P (c # cut_suffix P cs)"
      moreover have "list_all P t" using t(2) assms suffix_at_all [of P t] by auto
      ultimately have "suffix_at P ((c # cut_suffix P cs) @ t)" by (rule suffix_at_extend)
      with t(1) False show False by simp
    qed
    with False Cons.IH show ?thesis by simp
  qed simp
qed simp

lemma split_on_absent: "c \<notin> set s \<Longrightarrow> split_on c s = [s]"
  by (induction s) auto

lemma split_on_append: "c \<notin> set p \<Longrightarrow> split_on c (p @ c # q) = p # split_on c q"
  by (induction p) auto

lemma split_on_join:
  "kvs \<noteq> [] \<Longrightarrow> \<forall>kv\<in>set kvs. c \<notin> set kv \<Longrightarrow> split_on c (join [c] kvs) = kvs"
proof (induction kvs rule: induct_list012)
  case (3 x y zs)
  then show ?case using split_on_append [of c x "join [c] (y # zs)"] by simp
qed (simp_all add: split_on_absent)

lemma join_empty: "join [c] kvs = [] \<longleftrightarrow> kvs = [] \<or> kvs = [[]]"
  by (cases "([c], kvs)" rule: join.cases) auto

lemma kept_qualifier_Nil [simp]: "kept_qualifier [] = None"
  by (simp add: kept_qualifier_def cut_def identityQualifiers_def)

lemma kept_qualifier_idem: "kept_qualifier kv = Some x \<Longrightarrow> kept_qualifier x = Some x"
proof -
  assume kv: "kept_qualifier kv = Some x"
  obtain k val b where cut: "cut (CHR ''='') kv = (k, val, b)" by (metis prod_cases3)
  show ?thesis
  proof (cases "k = ''distro''")
    case True
    with kv cut have x: "x = ''distro'' @ ''='' @ cut_suffix distroVersionSuffixRe val"
      by (auto simp: kept_qualifier_def split: if_splits)
    then have "cut (CHR ''='') x = (''distro'', cut_suffix distroVersionSuffixRe val, True)"
      using cut_found [of "CHR ''=''" "''distro''"] by simp
    then show ?thesis
      using x cut_suffix_idem [of distroVersionSuffixRe val]
      by (simp add: kept_qualifier_def identityQualifiers_def distroVersionSuffixRe_def is_alnum_def)
  next
    case False
    with kv cut have "x = kv" by (auto simp: kept_qualifier_def split: if_splits)
    with kv show ?thesis by simp
  qed
qed

lemma cut_parts: "cut c s = (p, q, b) \<Longrightarrow> set p \<subseteq> set s \<and> set q \<subseteq> set s"
  by (auto simp: cut_def split: option.splits dest: in_set_takeD in_set_dropD)

lemma kept_qualifier_set: "kept_qualifier kv = Some x \<Longrightarrow> set x \<subseteq> set kv \<union> set ''distro=''"
proof -
  assume kv: "kept_qualifier kv = Some x"
  obtain k val b where cut: "cut (CHR ''='') kv = (k, val, b)" by (metis prod_cases3)
  show ?thesis
    using kv cut cut_parts [OF cut] cut_suffix_subset [of distroVersionSuffixRe val]
    by (auto simp: kept_qualifier_def split: if_splits)
qed

definition qualified_key :: "string \<Rightarrow> string list \<Rightarrow> string" where
  "qualified_key path kvs =
     (let kept = List.map_filter kept_qualifier kvs in
      if kept = [] then path else path @ ''?'' @ join ''&'' (sort_by str_cmp kept))"

lemma stripPurlVersion_version:
  "CHR ''@'' \<notin> set path \<Longrightarrow> stripPurlVersion (path @ CHR ''@'' # ver) = path"
  by (simp add: stripPurlVersion_def index_byte_append)

lemma stripPurlVersion_absent: "CHR ''@'' \<notin> set s \<Longrightarrow> stripPurlVersion s = s"
  by (simp add: stripPurlVersion_def index_byte_None [THEN iffD2])

lemma normalize_purl:
  assumes "CHR ''@'' \<notin> set path" and "CHR ''?'' \<notin> set path" and "CHR ''?'' \<notin> set ver"
    and "\<forall>kv\<in>set kvs. CHR ''&'' \<notin> set kv" and "v = [] \<or> v = CHR ''@'' # ver"
  shows "normalizeComponentPurl (path @ v @ CHR ''?'' # join ''&'' kvs) = qualified_key path kvs"
proof -
  have "CHR ''?'' \<notin> set (path @ v)" using assms by auto
  then have cut: "cut (CHR ''?'') (path @ v @ CHR ''?'' # join ''&'' kvs) =
      (path @ v, join ''&'' kvs, True)"
    using cut_found [of "CHR ''?''" "path @ v"] by simp
  have strip: "stripPurlVersion (path @ v) = path"
    using assms(1,5) stripPurlVersion_version stripPurlVersion_absent by auto
  show ?thesis
  proof (cases "join ''&'' kvs = []")
    case True
    then have "kvs = [] \<or> kvs = [[]]" using join_empty by blast
    then show ?thesis
      using cut strip True
      by (auto simp: normalizeComponentPurl_def qualified_key_def map_filter_simps)
  next
    case False
    then have "kvs \<noteq> []" by auto
    then show ?thesis
      using cut strip False split_on_join [OF _ assms(4)]
      by (simp add: normalizeComponentPurl_def qualified_key_def Let_def)
  qed
qed

lemma normalize_unqualified:
  "CHR ''?'' \<notin> set s \<Longrightarrow> normalizeComponentPurl s = stripPurlVersion s"
  by (simp add: normalizeComponentPurl_def Let_def)

lemma qualified_key_perm:
  assumes "mset (List.map_filter kept_qualifier kvs) = mset (List.map_filter kept_qualifier kvs')"
  shows "qualified_key path kvs = qualified_key path kvs'"
  using assms str.sort_by_perm [OF assms]
  by (auto simp: qualified_key_def Let_def)

text \<open>Two purls denote the same component exactly as ADR-0019 says: on the same path, any two
  versions (or none) and any two qualifier lists whose identity qualifiers, each distro reduced to its
  family, are the same up to order give the same key. Versions, qualifier order and every other
  qualifier are invisible to the diff.\<close>

theorem normalizeComponentPurl_identity:
  assumes "CHR ''@'' \<notin> set path" and "CHR ''?'' \<notin> set path"
    and "CHR ''?'' \<notin> set ver" and "CHR ''?'' \<notin> set ver'"
    and "\<forall>kv\<in>set kvs \<union> set kvs'. CHR ''&'' \<notin> set kv"
    and "mset (List.map_filter kept_qualifier kvs) = mset (List.map_filter kept_qualifier kvs')"
  shows "normalizeComponentPurl (path @ CHR ''@'' # ver @ CHR ''?'' # join ''&'' kvs) =
         normalizeComponentPurl (path @ CHR ''@'' # ver' @ CHR ''?'' # join ''&'' kvs') \<and>
         normalizeComponentPurl (path @ CHR ''@'' # ver @ CHR ''?'' # join ''&'' kvs) =
         normalizeComponentPurl (path @ CHR ''?'' # join ''&'' kvs')"
proof -
  have "\<forall>kv\<in>set kvs. CHR ''&'' \<notin> set kv" "\<forall>kv\<in>set kvs'. CHR ''&'' \<notin> set kv"
    using assms(5) by auto
  then have
    "normalizeComponentPurl (path @ (CHR ''@'' # ver) @ CHR ''?'' # join ''&'' kvs) = qualified_key path kvs"
    "normalizeComponentPurl (path @ (CHR ''@'' # ver') @ CHR ''?'' # join ''&'' kvs') = qualified_key path kvs'"
    "normalizeComponentPurl (path @ [] @ CHR ''?'' # join ''&'' kvs') = qualified_key path kvs'"
    using assms(1-4) normalize_purl by blast+
  then show ?thesis using qualified_key_perm [OF assms(6)] by simp
qed

theorem normalizeComponentPurl_identity_witness:
  "normalizeComponentPurl ''pkg:deb/debian/curl@7.88?arch=amd64&distro=debian-12'' =
   normalizeComponentPurl ''pkg:deb/debian/curl@8.1?distro=debian-13&vcs_url=x&arch=amd64''"
  using normalizeComponentPurl_identity [of "''pkg:deb/debian/curl''" "''7.88''" "''8.1''"
      "[''arch=amd64'', ''distro=debian-12'']" "[''distro=debian-13'', ''vcs_url=x'', ''arch=amd64'']"]
  by (simp add: map_filter_simps kept_qualifier_def cut_def identityQualifiers_def suffix_at_def
      is_digit_def distroVersionSuffixRe_def is_alnum_def)


section \<open>Reconciliation: lemmas\<close>

text \<open>What the first loop of \<open>reconcileVersionedPackages\<close> collects: entries of the change list, of the
  right type, one per normalised key.\<close>

definition candidates_ok :: "(nat \<times> component_diff) set \<Rightarrow> string \<Rightarrow> candidates \<Rightarrow> bool" where
  "candidates_ok A t m \<longleftrightarrow> distinct (map fst m) \<and>
     (\<forall>(nk, i, c) \<in> set m. (i, c) \<in> A \<and> cd_type c = t \<and> nk = versionedNormKey c \<and> nk \<noteq> [])"

lemma types_distinct [simp]:
  "dirAdded \<noteq> dirRemoved" "dirRemoved \<noteq> dirAdded" "dirAdded \<noteq> dirModified"
  "dirModified \<noteq> dirAdded" "dirRemoved \<noteq> dirModified" "dirModified \<noteq> dirRemoved"
  by (simp_all add: dir_defs)

lemma note_change_ok:
  assumes "candidates_ok A dirRemoved (fst maps)" and "candidates_ok A dirAdded (snd maps)"
    and "ic \<in> A"
  shows "candidates_ok A dirRemoved (fst (note_change ic maps)) \<and>
         candidates_ok A dirAdded (snd (note_change ic maps))"
proof -
  obtain i c where ic: "ic = (i, c)" by (cases ic)
  obtain r a where maps: "maps = (r, a)" by (cases maps)
  let ?nk = "versionedNormKey c"
  have extend: "candidates_ok A t (m @ [(?nk, i, c)])"
    if "candidates_ok A t m" "cd_type c = t" "?nk \<noteq> []" "map_of m ?nk = None" for t m
    using that assms(3) ic by (auto simp: candidates_ok_def map_of_eq_None_iff)
  show ?thesis
    using assms(1,2) extend [of dirRemoved r] extend [of dirAdded a]
    by (simp add: note_change_def ic maps Let_def)
qed

lemma fold_note_change_ok:
  assumes "candidates_ok A dirRemoved (fst maps)" and "candidates_ok A dirAdded (snd maps)"
    and "set ics \<subseteq> A"
  shows "candidates_ok A dirRemoved (fst (fold note_change ics maps)) \<and>
         candidates_ok A dirAdded (snd (fold note_change ics maps))"
  using assms
proof (induction ics arbitrary: maps)
  case (Cons ic ics)
  then show ?case using note_change_ok [of A maps ic] by simp
qed simp

lemma collected_ok:
  assumes "fold note_change (enumerate 0 changes) ([], []) = (removedByNorm, addedByNorm)"
  shows "candidates_ok (set (enumerate 0 changes)) dirRemoved removedByNorm"
    and "candidates_ok (set (enumerate 0 changes)) dirAdded addedByNorm"
  using fold_note_change_ok [of "set (enumerate 0 changes)" "([], [])" "enumerate 0 changes"] assms
  by (simp_all add: candidates_ok_def)

lemma in_enumerate: "(i, c) \<in> set (enumerate 0 xs) \<longleftrightarrow> i < length xs \<and> c = xs ! i"
  by (auto simp: in_set_enumerate_eq)

definition pair_type_ok :: "component_diff list \<Rightarrow> (component_diff \<times> nat \<times> nat) \<Rightarrow> bool" where
  "pair_type_ok changes p = (case p of (d, ai, ri) \<Rightarrow>
     cd_type d = dirModified \<and> ai < length changes \<and> cd_type (changes ! ai) = dirAdded \<and>
     ri < length changes \<and> cd_type (changes ! ri) = dirRemoved \<and>
     versionedNormKey (changes ! ai) = versionedNormKey (changes ! ri))"

text \<open>Each pair takes one added and one removed entry, and no entry is in two pairs.\<close>

lemma pairs_ok:
  assumes ord: "iteration_order ord"
    and fold: "fold note_change (enumerate 0 changes) ([], []) = (removedByNorm, addedByNorm)"
    and ps: "ps = List.map_filter (collapse removedByNorm cnt) (ord addedByNorm)"
  shows "list_all (pair_type_ok changes) ps"
    and "distinct (map (\<lambda>(_, ai, _). ai) ps)" and "distinct (map (\<lambda>(_, _, ri). ri) ps)"
proof -
  have R: "distinct (map fst removedByNorm)"
    "\<And>nk i c. (nk, i, c) \<in> set removedByNorm \<Longrightarrow>
       i < length changes \<and> c = changes ! i \<and> cd_type c = dirRemoved \<and> nk = versionedNormKey c"
    using collected_ok(1) [OF fold] by (fastforce simp: candidates_ok_def in_enumerate)+
  have A: "distinct (map fst addedByNorm)"
    "\<And>nk i c. (nk, i, c) \<in> set addedByNorm \<Longrightarrow>
       i < length changes \<and> c = changes ! i \<and> cd_type c = dirAdded \<and> nk = versionedNormKey c"
    using collected_ok(2) [OF fold] by (fastforce simp: candidates_ok_def in_enumerate)+
  have set_ord: "set (ord addedByNorm) = set addedByNorm" by (rule iteration_order_set [OF ord])
  have keys: "distinct (map fst (ord addedByNorm))"
    using iteration_order_distinct [OF ord] A(1) by blast
  have one: "pair_type_ok changes (d, ai, ri) \<and> versionedNormKey (changes ! ai) = nk"
    if "(nk, i, c) \<in> set addedByNorm" "collapse removedByNorm cnt (nk, i, c) = Some (d, ai, ri)"
    for nk i c d ai ri
    using that A(2) [OF that(1)]
    by (auto simp: collapse_def pair_type_ok_def split: option.splits if_splits
        dest!: map_of_SomeD R(2))
  have main: "list_all (pair_type_ok changes) (List.map_filter (collapse removedByNorm cnt) es) \<and>
      distinct (map (\<lambda>(_, ai, _). versionedNormKey (changes ! ai))
        (List.map_filter (collapse removedByNorm cnt) es)) \<and>
      (\<lambda>(_, ai, _). versionedNormKey (changes ! ai)) `
        set (List.map_filter (collapse removedByNorm cnt) es) \<subseteq> fst ` set es"
    if "set es \<subseteq> set addedByNorm" "distinct (map fst es)" for es
    using that
  proof (induction es)
    case Nil
    then show ?case by (simp add: map_filter_simps)
  next
    case (Cons e es)
    obtain nk i c where e: "e = (nk, i, c)" by (metis prod_cases3)
    show ?case
    proof (cases "collapse removedByNorm cnt e")
      case None
      with Cons show ?thesis by (auto simp: map_filter_simps)
    next
      case (Some p)
      let ?k = "\<lambda>(_, ai, _). versionedNormKey (changes ! ai)"
      let ?rest = "List.map_filter (collapse removedByNorm cnt) es"
      obtain d ai ri where p: "p = (d, ai, ri)" by (metis prod_cases3)
      have "pair_type_ok changes (d, ai, ri) \<and> versionedNormKey (changes ! ai) = nk"
        using one [of nk i c d ai ri] Cons.prems(1) e p Some by simp
      then have k: "pair_type_ok changes p" "?k p = nk" using p by simp_all
      have IH: "list_all (pair_type_ok changes) ?rest" "distinct (map ?k ?rest)"
        "?k ` set ?rest \<subseteq> fst ` set es"
        using Cons by simp_all
      have "nk \<notin> fst ` set es" using Cons.prems(2) e by simp
      then have "?k p \<notin> ?k ` set ?rest" using IH(3) k(2) by blast
      moreover have "insert (?k p) (?k ` set ?rest) \<subseteq> fst ` set (e # es)"
        using IH(3) k(2) e by auto
      ultimately show ?thesis
        using IH(1,2) k(1) Some by (simp add: map_filter_simps)
    qed
  qed
  have all: "list_all (pair_type_ok changes) ps"
    and dist: "distinct (map (\<lambda>(_, ai, _). versionedNormKey (changes ! ai)) ps)"
    using main [of "ord addedByNorm"] set_ord keys ps by simp_all
  show "list_all (pair_type_ok changes) ps" by (rule all)
  have "map (\<lambda>(_, ai, _). versionedNormKey (changes ! ai)) ps =
      map (\<lambda>ai. versionedNormKey (changes ! ai)) (map (\<lambda>(_, ai, _). ai) ps)"
    by (simp add: case_prod_beta comp_def)
  with dist show "distinct (map (\<lambda>(_, ai, _). ai) ps)" by (metis distinct_map)
  have "map (\<lambda>(_, ai, _). versionedNormKey (changes ! ai)) ps =
      map (\<lambda>ri. versionedNormKey (changes ! ri)) (map (\<lambda>(_, _, ri). ri) ps)"
    using all by (auto simp: pair_type_ok_def list_all_iff)
  with dist show "distinct (map (\<lambda>(_, _, ri). ri) ps)" by (metis distinct_map)
qed

definition of_type :: "string \<Rightarrow> component_diff list \<Rightarrow> nat" where
  "of_type t cs = length (filter (\<lambda>c. cd_type c = t) cs)"

lemma of_type_append [simp]: "of_type t (xs @ ys) = of_type t xs + of_type t ys"
  by (simp add: of_type_def)

lemma of_type_Cons [simp]: "of_type t (x # xs) = (if cd_type x = t then 1 else 0) + of_type t xs"
  by (simp add: of_type_def)

lemma of_type_Nil [simp]: "of_type t [] = 0"
  by (simp add: of_type_def)

lemma of_type_perm: "mset xs = mset ys \<Longrightarrow> of_type t xs = of_type t ys"
  unfolding of_type_def by (metis mset_filter size_mset)

text \<open>The lines of a diff that the two maps determine, and the line that stands for a pair.\<close>

definition added_line :: "string \<times> component_identity \<Rightarrow> component_diff" where
  "added_line kc = (case kc of (key, cur) \<Rightarrow>
     \<lparr>cd_type = dirAdded, cd_direction = [], cd_name = displayName cur key, cd_group = displayGroup cur key,
      cd_version = ci_version cur, cd_purl = ci_purl cur, cd_previous = None, cd_node_ref = None\<rparr>)"

definition removed_line :: "string \<times> component_identity \<Rightarrow> component_diff" where
  "removed_line kp = (added_line kp)\<lparr>cd_type := dirRemoved\<rparr>"

definition changed_line :: "component_map \<Rightarrow> string \<times> component_identity \<Rightarrow> component_diff" where
  "changed_line old kc =
     (added_line kc)\<lparr>cd_type := dirModified, cd_previous := ci_version (the (map_of old (fst kc)))\<rparr>"

definition replaced_line :: "component_diff \<times> component_diff \<Rightarrow> component_diff" where
  "replaced_line p = (case p of (a, r) \<Rightarrow>
     \<lparr>cd_type = dirModified, cd_direction = [], cd_name = cd_name a, cd_group = cd_group a, cd_version = cd_version a,
      cd_purl = cd_purl a, cd_previous = cd_version r, cd_node_ref = None\<rparr>)"

definition only_in :: "component_map \<Rightarrow> component_map \<Rightarrow> component_map" where
  "only_in m other = filter (\<lambda>kc. fst kc \<notin> fst ` set other) m"

definition differing :: "component_map \<Rightarrow> component_map \<Rightarrow> component_map" where
  "differing old new = filter (\<lambda>kc. \<exists>prev. map_of old (fst kc) = Some prev \<and>
     \<not> versionsEqual (ci_version prev) (ci_version (snd kc))) new"

text \<open>A pair: one package added and one removed under different names with one normalised name, which at most one
  component of the new SBOM has.\<close>

definition collapsible :: "(string \<Rightarrow> nat) \<Rightarrow> component_diff \<times> component_diff \<Rightarrow> bool" where
  "collapsible cnt p = (case p of (a, r) \<Rightarrow>
     cd_type a = dirAdded \<and> cd_type r = dirRemoved \<and> versionedNormKey a = versionedNormKey r \<and>
     versionedNormKey a \<noteq> [] \<and> cd_name a \<noteq> cd_name r \<and> cnt (versionedNormKey a) \<le> 1)"

lemma collapsed_lines:
  assumes fold: "fold note_change (enumerate 0 changes) ([], []) = (removedByNorm, addedByNorm)"
    and entry: "(nk, i, c) \<in> set addedByNorm" and d: "collapse removedByNorm cnt (nk, i, c) = Some (d, ai, ri)"
  shows "d = replaced_line (changes ! ai, changes ! ri) \<and> collapsible cnt (changes ! ai, changes ! ri)"
proof -
  have added: "i < length changes" "c = changes ! i" "cd_type c = dirAdded" "nk = versionedNormKey c" "nk \<noteq> []"
    using collected_ok(2) [OF fold] entry by (auto simp: candidates_ok_def in_enumerate)
  obtain r where r: "map_of removedByNorm nk = Some (ri, r)" "ai = i" "d = replaced_line (c, r)" "cd_name c \<noteq> cd_name r"
      "cnt nk \<le> 1"
    using d by (auto simp: collapse_def replaced_line_def split: option.splits if_splits)
  then have "(nk, ri, r) \<in> set removedByNorm" by (blast dest: map_of_SomeD)
  then have "r = changes ! ri" "cd_type r = dirRemoved" "nk = versionedNormKey r"
    using collected_ok(1) [OF fold] by (auto simp: candidates_ok_def in_enumerate)
  with added r show ?thesis by (simp add: collapsible_def)
qed

lemma mset_positions: "mset xs = image_mset ((!) xs) (mset_set {..<length xs})"
proof -
  have "mset xs = mset (map ((!) xs) [0..<length xs])" by (simp add: map_nth)
  then show ?thesis by (simp add: atLeast0LessThan del: map_nth)
qed

lemma survivors_mset:
  assumes "distinct js" and "set js \<subseteq> {..<length xs}"
  shows "mset (map snd (filter (\<lambda>(i, _). i \<notin> set js) (enumerate 0 xs))) + mset (map ((!) xs) js) = mset xs"
proof -
  have left: "mset (map snd (filter (\<lambda>(i, _). i \<notin> set js) (enumerate 0 xs))) =
      image_mset ((!) xs) (mset_set ({..<length xs} - set js))"
  proof -
    have "map snd (filter (\<lambda>(i, _). i \<notin> set js) (enumerate 0 xs)) = map ((!) xs) (filter (\<lambda>i. i \<notin> set js) [0..<length xs])"
    proof -
      have "enumerate 0 xs = map (\<lambda>i. (i, xs ! i)) [0..<length xs]"
        by (rule nth_equalityI) (simp_all add: nth_enumerate_eq)
      then show ?thesis unfolding filter_map map_map o_def by (simp only: filter_map map_map o_def snd_conv prod.case)
    qed
    moreover have "mset (filter (\<lambda>i. i \<notin> set js) [0..<length xs]) = mset_set ({..<length xs} - set js)"
    proof -
      have "{..<length xs} - set js = set (filter (\<lambda>i. i \<notin> set js) [0..<length xs])" by auto
      then show ?thesis by (simp only: mset_set_set distinct_filter distinct_upt)
    qed
    ultimately show ?thesis by simp
  qed
  have js: "mset (map ((!) xs) js) = image_mset ((!) xs) (mset_set (set js))"
    using assms(1) by (simp add: mset_set_set)
  have "mset_set ({..<length xs} - set js) + mset_set (set js) = mset_set {..<length xs}"
    using assms(2) by (subst mset_set_Union [symmetric]) (auto intro: arg_cong [where f = mset_set])
  then show ?thesis unfolding left js mset_positions [of xs] by (simp flip: image_mset_union)
qed

lemma reconcile_lines:
  assumes ord: "iteration_order ord"
  shows "\<exists>M pairs. mset changes = M + mset (map fst pairs) + mset (map snd pairs) \<and> list_all (collapsible cnt) pairs \<and>
    mset (reconcileVersionedPackages ord changes cnt) = M + mset (map replaced_line pairs)"
proof -
  obtain removedByNorm addedByNorm where
    fold: "fold note_change (enumerate 0 changes) ([], []) = (removedByNorm, addedByNorm)"
    by (metis prod.exhaust)
  define ps where "ps = List.map_filter (collapse removedByNorm cnt) (ord addedByNorm)"
  note ok = pairs_ok [OF ord fold ps_def]
  let ?ais = "map (\<lambda>(_, ai, _). ai) ps" and ?ris = "map (\<lambda>(_, _, ri). ri) ps"
  let ?pairs = "map (\<lambda>(_, ai, ri). (changes ! ai, changes ! ri)) ps"
  have lines: "d = replaced_line (changes ! ai, changes ! ri) \<and> collapsible cnt (changes ! ai, changes ! ri)"
    if "(d, ai, ri) \<in> set ps" for d ai ri
    using that collapsed_lines [OF fold] iteration_order_set [OF ord]
    by (force simp: ps_def map_filter_def)
  have "\<exists>M. mset changes = M + mset (map ((!) changes) (?ais @ ?ris)) \<and>
      mset (reconcileVersionedPackages ord changes cnt) = M + mset (map fst ps)"
  proof (cases "ps = []")
    case True
    then show ?thesis by (simp add: reconcileVersionedPackages_def fold ps_def [symmetric] Let_def)
  next
    case False
    have A: "j < length changes \<and> cd_type (changes ! j) = dirAdded" if "j \<in> set ?ais" for j
      using that ok(1) by (auto simp: list_all_iff pair_type_ok_def)
    have R: "j < length changes \<and> cd_type (changes ! j) = dirRemoved" if "j \<in> set ?ris" for j
      using that ok(1) by (auto simp: list_all_iff pair_type_ok_def)
    have disjoint: "set ?ais \<inter> set ?ris = {}" using A R by (force simp del: set_map)
    have "distinct (?ais @ ?ris)" using ok(2,3) disjoint by (simp only: distinct_append simp_thms)
    moreover have "set (?ais @ ?ris) \<subseteq> {..<length changes}" using A R by (auto simp del: set_map)
    ultimately have "mset (map snd (filter (\<lambda>(i, _). i \<notin> set (?ais @ ?ris)) (enumerate 0 changes))) +
        mset (map ((!) changes) (?ais @ ?ris)) = mset changes" by (rule survivors_mset)
    moreover have "set (concat (map (\<lambda>(_, ai, ri). [ai, ri]) ps)) = set (?ais @ ?ris)" by force
    ultimately show ?thesis
      using False by (simp add: reconcileVersionedPackages_def fold ps_def [symmetric] Let_def)
  qed
  then obtain M where M: "mset changes = M + mset (map ((!) changes) (?ais @ ?ris))"
    "mset (reconcileVersionedPackages ord changes cnt) = M + mset (map fst ps)" by blast
  have "map fst ?pairs = map ((!) changes) ?ais" "map snd ?pairs = map ((!) changes) ?ris"
    "map fst ps = map replaced_line ?pairs" "list_all (collapsible cnt) ?pairs"
    using lines by (auto simp: list_all_iff)
  then show ?thesis using M
    by (intro exI [of _ M] exI [of _ ?pairs]) (simp only: map_append mset_append add.assoc simp_thms)
qed

text \<open>What that means for the number of lines of each type.\<close>

lemma of_type_mset: "of_type ty cs = size (filter_mset (\<lambda>c. cd_type c = ty) (mset cs))"
  by (simp add: of_type_def flip: mset_filter)

lemma reconcile_balance:
  assumes ord: "iteration_order ord"
  shows "\<exists>k. of_type dirAdded (reconcileVersionedPackages ord changes cnt) + k = of_type dirAdded changes \<and>
    of_type dirRemoved (reconcileVersionedPackages ord changes cnt) + k = of_type dirRemoved changes"
proof -
  obtain M pairs where lines: "mset changes = M + mset (map fst pairs) + mset (map snd pairs)"
      "list_all (collapsible cnt) pairs" "mset (reconcileVersionedPackages ord changes cnt) = M + mset (map replaced_line pairs)"
    using reconcile_lines [OF ord] by metis
  have sizes: "size (filter_mset (\<lambda>c. cd_type c = dirAdded) (mset (map fst pairs))) = length pairs"
    "size (filter_mset (\<lambda>c. cd_type c = dirRemoved) (mset (map fst pairs))) = 0"
    "size (filter_mset (\<lambda>c. cd_type c = dirAdded) (mset (map snd pairs))) = 0"
    "size (filter_mset (\<lambda>c. cd_type c = dirRemoved) (mset (map snd pairs))) = length pairs"
    "size (filter_mset (\<lambda>c. cd_type c = dirAdded) (mset (map replaced_line pairs))) = 0"
    "size (filter_mset (\<lambda>c. cd_type c = dirRemoved) (mset (map replaced_line pairs))) = 0"
    using lines(2) by (induction pairs) (auto simp: collapsible_def replaced_line_def)
  show ?thesis
    unfolding of_type_mset lines(1,3) filter_union_mset size_union sizes by (intro exI [of _ "length pairs"]) simp
qed

section \<open>The diff: lemmas\<close>

lemma of_type_new: "of_type dirAdded (concat (map (new_change old) new)) =
    length (filter (\<lambda>k. map_of old k = None) (map fst new))"
  by (induction new) (auto simp: new_change_def split: option.splits)

lemma of_type_new_Removed: "of_type dirRemoved (concat (map (new_change old) new)) = 0"
  by (induction new) (auto simp: new_change_def split: option.splits)

lemma of_type_old: "of_type dirRemoved (concat (map (old_change new) old)) =
    length (filter (\<lambda>k. map_of new k = None) (map fst old))"
  by (induction old) (auto simp: old_change_def)

lemma of_type_old_Added: "of_type dirAdded (concat (map (old_change new) old)) = 0"
  by (induction old) (auto simp: old_change_def)

lemma missing_keys:
  assumes "distinct (map fst new)"
  shows "length (filter (\<lambda>k. map_of old k = None) (map fst new)) =
    card (fst ` set new - fst ` set old)"
proof -
  have "distinct (filter (\<lambda>k. map_of old k = None) (map fst new))"
    using assms by (rule distinct_filter)
  then have "length (filter (\<lambda>k. map_of old k = None) (map fst new)) =
      card (set (filter (\<lambda>k. map_of old k = None) (map fst new)))"
    by (simp only: distinct_card)
  also have "set (filter (\<lambda>k. map_of old k = None) (map fst new)) = fst ` set new - fst ` set old"
    by (auto simp: map_of_eq_None_iff)
  finally show ?thesis .
qed

lemma first_pass_lines:
  "mset (first_pass old new) = mset (map added_line (only_in new old)) + mset (map removed_line (only_in old new)) +
     mset (map (changed_line old) (differing old new))"
proof -
  have "mset (concat (map (new_change old) m)) =
      mset (map added_line (only_in m old)) + mset (map (changed_line old) (differing old m))" for m
  proof (induction m)
    case (Cons kc m)
    have "mset (new_change old kc) = mset (map added_line (only_in [kc] old)) +
        mset (map (changed_line old) (differing old [kc]))"
    proof (cases "map_of old (fst kc)")
      case None
      then have "fst kc \<notin> fst ` set old" by (simp add: map_of_eq_None_iff)
      with None show ?thesis by (cases kc) (simp add: new_change_def only_in_def differing_def added_line_def)
    next
      case (Some prev)
      then have "fst kc \<in> fst ` set old" by (metis domI dom_map_of_conv_image_fst)
      with Some show ?thesis
        by (cases kc) (simp add: new_change_def only_in_def differing_def added_line_def changed_line_def)
    qed
    moreover have "only_in (kc # m) old = only_in [kc] old @ only_in m old"
      "differing old (kc # m) = differing old [kc] @ differing old m"
      by (simp_all add: only_in_def differing_def)
    ultimately show ?case using Cons.IH by (simp del: mset_map)
  qed (simp add: only_in_def differing_def)
  moreover have "mset (concat (map (old_change new) m)) = mset (map removed_line (only_in m new))" for m
  proof (induction m)
    case (Cons kp m)
    then show ?case
      by (cases kp) (auto simp: old_change_def only_in_def removed_line_def added_line_def map_of_eq_None_iff)
  qed (simp add: only_in_def)
  ultimately show ?thesis by (simp add: first_pass_def ac_simps)
qed

lemma line_types [simp]:
  "cd_type (added_line kc) = dirAdded" "cd_type (removed_line kc) = dirRemoved"
  "cd_type (changed_line old kc) = dirModified" "cd_type (replaced_line p) = dirModified"
  by (simp_all add: added_line_def removed_line_def changed_line_def replaced_line_def split: prod.split)

text \<open>The lines of a diff: those the two maps determine, with some pairs of them replaced.\<close>

lemma reconciled_lines:
  assumes "iteration_order ord"
  shows "\<exists>A R pairs.
    A + mset (map fst pairs) = mset (map added_line (only_in new old)) \<and>
    R + mset (map snd pairs) = mset (map removed_line (only_in old new)) \<and> list_all (collapsible cnt) pairs \<and>
    mset (reconcileVersionedPackages ord (first_pass old new) cnt) =
      A + R + mset (map (changed_line old) (differing old new)) + mset (map replaced_line pairs)"
proof -
  obtain M pairs where M: "mset (first_pass old new) = M + mset (map fst pairs) + mset (map snd pairs)"
    and pairs: "list_all (collapsible cnt) pairs"
    and res: "mset (reconcileVersionedPackages ord (first_pass old new) cnt) = M + mset (map replaced_line pairs)"
    using reconcile_lines [OF assms] by metis
  let ?only = "\<lambda>ty. filter_mset (\<lambda>c. cd_type c = ty)"
  have keep: "?only ty (mset (map f xs)) = (if ty = ty' then mset (map f xs) else {#})"
    if "\<forall>x\<in>set xs. cd_type (f x) = ty'" for ty ty' :: string and f :: "'b \<Rightarrow> component_diff" and xs
    using that by (induction xs) auto
  have fp: "?only ty (mset (first_pass old new)) = ?only ty M + ?only ty (mset (map fst pairs)) + ?only ty (mset (map snd pairs))"
    for ty by (simp add: M)
  have taken: "\<forall>x\<in>set pairs. cd_type (fst x) = dirAdded" "\<forall>x\<in>set pairs. cd_type (snd x) = dirRemoved"
    using pairs by (auto simp: list_all_iff collapsible_def)
  note lines = first_pass_lines [of old new] keep [of _ added_line dirAdded] keep [of _ removed_line dirRemoved]
    keep [of _ "changed_line old" dirModified] keep [OF taken(1)] keep [OF taken(2)]
  have split: "M = ?only dirAdded M + ?only dirRemoved M + ?only dirModified M"
  proof -
    have "\<forall>c\<in>#mset (first_pass old new). cd_type c = dirAdded \<or> cd_type c = dirRemoved \<or> cd_type c = dirModified"
      unfolding first_pass_lines by auto
    then have "\<forall>c\<in>#M. cd_type c = dirAdded \<or> cd_type c = dirRemoved \<or> cd_type c = dirModified"
      using M by auto
    then show ?thesis by (induction M) auto
  qed
  have "?only dirAdded M + mset (map fst pairs) = mset (map added_line (only_in new old))"
    "?only dirRemoved M + mset (map snd pairs) = mset (map removed_line (only_in old new))"
    "?only dirModified M = mset (map (changed_line old) (differing old new))"
    subgoal using fp [of dirAdded] by (simp add: lines del: mset_map)
    subgoal using fp [of dirRemoved] by (simp add: lines del: mset_map)
    subgoal using fp [of dirModified] by (simp add: lines del: mset_map)
    done
  then show ?thesis using res split pairs by metis
qed

lemma first_pass_balance:
  assumes "distinct (map fst old)" and "distinct (map fst new)"
  shows "of_type dirAdded (first_pass old new) + length old =
    of_type dirRemoved (first_pass old new) + length new"
proof -
  let ?O = "fst ` set old" and ?N = "fst ` set new"
  have "length old = card ?O" "length new = card ?N"
    using assms distinct_card [of "map fst old"] distinct_card [of "map fst new"] by simp_all
  moreover have "card (?N - ?O) + card ?O = card (?O - ?N) + card ?N"
    by (metis List.finite_set Un_commute card_Un_disjoint finite_Diff finite_imageI Diff_disjoint
        Int_commute Un_Diff_cancel2)
  ultimately show ?thesis
    using missing_keys [OF assms(2), of old] missing_keys [OF assms(1), of new]
    by (simp add: first_pass_def of_type_new of_type_new_Removed of_type_old of_type_old_Added)
qed

definition sum_directions :: "component_diff list \<Rightarrow> change_counts" where
  "sum_directions cs = fold (\<lambda>c s. addSummaryCount s (cd_direction c)) cs no_changes"

definition of_direction :: "string \<Rightarrow> component_diff list \<Rightarrow> nat" where
  "of_direction d cs = length (filter (\<lambda>c. cd_direction c = d) cs)"

lemma directions_distinct [simp]:
  "dirUpgraded \<noteq> dirAdded" "dirUpgraded \<noteq> dirRemoved" "dirDowngraded \<noteq> dirAdded"
  "dirDowngraded \<noteq> dirRemoved" "dirDowngraded \<noteq> dirUpgraded"
  by (simp_all add: dir_defs)

lemma fold_summary:
  "n_added (fold (\<lambda>c s. addSummaryCount s (cd_direction c)) cs s) = n_added s + of_direction dirAdded cs"
  "n_removed (fold (\<lambda>c s. addSummaryCount s (cd_direction c)) cs s) = n_removed s + of_direction dirRemoved cs"
  "n_upgraded (fold (\<lambda>c s. addSummaryCount s (cd_direction c)) cs s) = n_upgraded s + of_direction dirUpgraded cs"
  "n_downgraded (fold (\<lambda>c s. addSummaryCount s (cd_direction c)) cs s) = n_downgraded s + of_direction dirDowngraded cs"
  "counts_total (fold (\<lambda>c s. addSummaryCount s (cd_direction c)) cs s) = counts_total s + length cs"
  by (induction cs arbitrary: s) (auto simp: addSummaryCount_def of_direction_def counts_total_def)

lemma direction_of_type:
  "t = dirAdded \<or> t = dirRemoved \<Longrightarrow> classifyDirection lib c = t \<longleftrightarrow> cd_type c = t"
  by (auto simp: classifyDirection_def Let_def split: option.splits)

lemma with_direction_simps [simp]:
  "cd_type (with_direction lib c) = cd_type c" "cd_name (with_direction lib c) = cd_name c"
  "cd_direction (with_direction lib c) = classifyDirection lib c"
  by (simp_all add: with_direction_def)

lemma of_type_with_direction [simp]: "of_type t (map (with_direction lib) cs) = of_type t cs"
  by (induction cs) auto

lemma of_direction_of_type:
  "t = dirAdded \<or> t = dirRemoved \<Longrightarrow>
   of_direction t (map (with_direction lib) cs) = of_type t cs"
  using direction_of_type [of t lib] by (simp add: of_direction_def of_type_def filter_map o_def)

lemma diffComponents_unfold:
  defines "cs old new ord \<equiv> reconcileVersionedPackages ord (first_pass old new) (newNormCount new)"
  shows "ce_summary (diffComponents lib ord f t old new) =
      sum_directions (map (with_direction lib) (cs old new ord))"
    and "mset (ce_changes (diffComponents lib ord f t old new)) =
      mset (map (with_direction lib) (cs old new ord))"
  by (simp_all add: diffComponents_def sum_directions_def Let_def cs_def)

text \<open>C28: The diff neither loses nor invents a component. Whatever the iteration order of the maps, its lines are
  exactly these, each once and with its direction: one for every component that only the new SBOM has, one for every
  component that only the old one has, one for every component both have with different versions, except that some
  pairs of an added and a removed package with one normalised name are replaced by one line that says which version
  gave way to which. The summary counts each line once under its direction, and the components added minus those
  removed are the difference in size between the two SBOMs.\<close>

theorem diffComponents_balance:
  assumes "iteration_order ord" and "distinct (map fst old)" and "distinct (map fst new)"
  shows "counts_total (ce_summary (diffComponents lib ord f t old new)) =
      length (ce_changes (diffComponents lib ord f t old new)) \<and>
    n_added (ce_summary (diffComponents lib ord f t old new)) =
      of_type dirAdded (ce_changes (diffComponents lib ord f t old new)) \<and>
    n_removed (ce_summary (diffComponents lib ord f t old new)) =
      of_type dirRemoved (ce_changes (diffComponents lib ord f t old new)) \<and>
    n_added (ce_summary (diffComponents lib ord f t old new)) + length old =
      n_removed (ce_summary (diffComponents lib ord f t old new)) + length new \<and>
    (\<exists>A R pairs.
       A + mset (map fst pairs) = mset (map added_line (only_in new old)) \<and>
       R + mset (map snd pairs) = mset (map removed_line (only_in old new)) \<and>
       list_all (collapsible (newNormCount new)) pairs \<and>
       mset (ce_changes (diffComponents lib ord f t old new)) = image_mset (with_direction lib)
         (A + R + mset (map (changed_line old) (differing old new)) + mset (map replaced_line pairs)))"
proof -
  let ?fp = "first_pass old new"
  let ?cs = "reconcileVersionedPackages ord ?fp (newNormCount new)"
  let ?e = "diffComponents lib ord f t old new"
  note e = diffComponents_unfold [of lib ord f t old new]
  obtain A R pairs where lines: "A + mset (map fst pairs) = mset (map added_line (only_in new old))"
    "R + mset (map snd pairs) = mset (map removed_line (only_in old new))"
    "list_all (collapsible (newNormCount new)) pairs"
    "mset ?cs = A + R + mset (map (changed_line old) (differing old new)) + mset (map replaced_line pairs)"
    using reconciled_lines [OF assms(1)] by metis
  have all: "mset (ce_changes ?e) = image_mset (with_direction lib)
      (A + R + mset (map (changed_line old) (differing old new)) + mset (map replaced_line pairs))"
    unfolding e(2) mset_map [of "with_direction lib"] lines(4) ..
  have len: "length (ce_changes ?e) = length ?cs"
    using e(2) by (metis length_map size_mset)
  have types: "of_type ty (ce_changes ?e) = of_type ty ?cs" for ty
    using of_type_perm [OF e(2)] by simp
  have sums: "counts_total (ce_summary ?e) = length ?cs"
    "n_added (ce_summary ?e) = of_type dirAdded ?cs"
    "n_removed (ce_summary ?e) = of_type dirRemoved ?cs"
    by (simp_all add: e(1) sum_directions_def fold_summary of_direction_of_type)
      (simp_all add: no_changes_def counts_total_def)
  have balance: "of_type dirAdded ?cs + length old = of_type dirRemoved ?cs + length new"
    using reconcile_balance [OF assms(1), of ?fp "newNormCount new"] first_pass_balance [OF assms(2,3)] by auto
  show ?thesis
    by (intro conjI exI [of _ A] exI [of _ R] exI [of _ pairs] lines(1-3) all) (simp_all add: len types sums balance)
qed

definition demo_identity :: "string \<Rightarrow> component_identity" where
  "demo_identity v = \<lparr>ci_version = Some v, ci_purl = None, ci_name = ''x'', ci_group = None\<rparr>"

definition demo_ref :: sbom_ref where
  "demo_ref = \<lparr>sr_id = ''a'', sr_subject_version = None, sr_architecture = None, sr_flavor = None,
     sr_created_at = 0, sr_build_date = None\<rparr>"

theorem diffComponents_balance_witness:
  "n_added (ce_summary (diffComponents demo_semver rev demo_ref demo_ref
      [(''a'', demo_identity ''1.0.0'')] [(''a'', demo_identity ''1.1.0''), (''b'', demo_identity ''1'')])) =
   n_removed (ce_summary (diffComponents demo_semver rev demo_ref demo_ref
      [(''a'', demo_identity ''1.0.0'')] [(''a'', demo_identity ''1.1.0''), (''b'', demo_identity ''1'')])) + 1"
  using diffComponents_balance [of rev "[(''a'', demo_identity ''1.0.0'')]"
      "[(''a'', demo_identity ''1.1.0''), (''b'', demo_identity ''1'')]" demo_semver demo_ref demo_ref]
  by (simp add: iteration_order_def)

lemma versionsEqual_refl [simp]: "versionsEqual v v"
  by (cases v) (simp_all add: versionsEqual_def)

lemma first_pass_same:
  assumes "distinct (map fst old)" and "set old = set new" and "distinct (map fst new)"
  shows "first_pass old new = []"
proof -
  have "map_of old = map_of new" using assms by (simp add: map_of_inject_set)
  then have "new_change old kc = []" if "kc \<in> set new" for kc
    using that assms(3) by (cases kc) (auto simp: new_change_def)
  moreover have "old_change new kp = []" if "kp \<in> set old" for kp
  proof -
    have "fst kp \<in> fst ` set new" using that assms(2) by simp
    then show ?thesis by (cases kp) (simp add: old_change_def map_of_eq_None_iff)
  qed
  ultimately show ?thesis by (simp add: first_pass_def)
qed

text \<open>An SBOM compared with itself shows no change: two maps with the same entries, in whatever
  order each is visited, give an empty diff with an all-zero summary.\<close>

theorem diffComponents_same:
  assumes "iteration_order ord" and "distinct (map fst old)" and "distinct (map fst new)"
    and "set old = set new"
  shows "ce_changes (diffComponents lib ord f t old new) = [] \<and>
    ce_summary (diffComponents lib ord f t old new) = no_changes"
proof -
  have "ord [] = []" using assms(1) by (metis iteration_order_def mset_zero_iff_right)
  then show ?thesis
    using first_pass_same [OF assms(2,4,3)]
    by (simp add: diffComponents_def reconcileVersionedPackages_def Let_def map_filter_simps)
qed

theorem diffComponents_same_witness:
  "ce_changes (diffComponents demo_semver rev demo_ref demo_ref
      [(''a'', demo_identity ''1''), (''b'', demo_identity ''2'')]
      [(''b'', demo_identity ''2''), (''a'', demo_identity ''1'')]) = []"
  using diffComponents_same [of rev "[(''a'', demo_identity ''1''), (''b'', demo_identity ''2'')]"
      "[(''b'', demo_identity ''2''), (''a'', demo_identity ''1'')]" demo_semver demo_ref demo_ref]
  by (auto simp: iteration_order_def)


section \<open>The survivor guard\<close>

text \<open>
  \<open>reconcileVersionedPackages\<close> computes the normalised name of a change from its purl
  (\<open>versionedNormKey\<close>), and the survivor guard computes it from the identity key
  (\<open>normKeyFromComponentKey\<close>); the guard works where the two agree.
\<close>

lemma last_index_append:
  "c \<notin> set q \<Longrightarrow> last_index_byte c (p @ c # q) = Some (length p)"
  by (simp add: last_index_byte_def index_byte_append)

lemma last_index_absent: "c \<notin> set s \<Longrightarrow> last_index_byte c s = None"
  by (simp add: last_index_byte_def index_byte_None [THEN iffD2])

definition before_query :: "string \<Rightarrow> string" where
  "before_query s = (case index_byte (CHR ''?'') s of Some q \<Rightarrow> take q s | None \<Rightarrow> s)"

lemma before_query_append:
  "CHR ''?'' \<notin> set p \<Longrightarrow> before_query (p @ CHR ''?'' # q) = p"
  "CHR ''?'' \<notin> set p \<Longrightarrow> before_query p = p"
  by (simp_all add: before_query_def index_byte_append index_byte_None [THEN iffD2])

text \<open>Qualifiers without a slash do not reach the computation.\<close>

lemma purl_norm_key_query:
  assumes "CHR ''?'' \<notin> set path" and "CHR ''/'' \<notin> set q"
  shows "purl_norm_key (path @ CHR ''?'' # q) = purl_norm_key path"
proof (cases "CHR ''/'' \<in> set path")
  case True
  then obtain pre name where path: "path = pre @ CHR ''/'' # name" and name: "CHR ''/'' \<notin> set name"
    using split_list_last by metis
  have "last_index_byte (CHR ''/'') (path @ CHR ''?'' # q) = Some (length pre)"
    using last_index_append [of "CHR ''/''" "name @ CHR ''?'' # q" pre] path name assms(2) by simp
  moreover have "last_index_byte (CHR ''/'') path = Some (length pre)"
    using last_index_append [OF name, of pre] path by simp
  moreover have "CHR ''?'' \<notin> set name" using assms(1) path by simp
  ultimately show ?thesis
    using before_query_append [where p = name] path
    by (simp add: purl_norm_key_def before_query_def [symmetric] Let_def)
next
  case False
  with assms have "CHR ''/'' \<notin> set (path @ CHR ''?'' # q)" by simp
  with False show ?thesis by (simp add: purl_norm_key_def last_index_absent del: set_append)
qed

lemma has_prefix_append: "has_prefix p q \<Longrightarrow> has_prefix (p @ r) q"
  by (auto simp: has_prefix_iff)

lemma set_map_filter: "set (List.map_filter f xs) = {y. \<exists>x\<in>set xs. f x = Some y}"
  by (induction xs) (auto simp: map_filter_simps split: option.splits)

lemma join_set: "set (join sep kvs) \<subseteq> set sep \<union> \<Union> (set ` set kvs)"
  by (induction sep kvs rule: join.induct) auto

lemma split_on_set: "w \<in> set (split_on c s) \<Longrightarrow> set w \<subseteq> set s"
proof (induction s arbitrary: w)
  case (Cons x xs)
  then show ?case
    by (cases "split_on c xs") (fastforce split: if_splits)+
qed simp

lemma normalize_shape:
  assumes "CHR ''@'' \<notin> set path" and "CHR ''?'' \<notin> set path" and "CHR ''/'' \<notin> set rest"
    and "rest = [] \<or> hd rest = CHR ''@'' \<or> hd rest = CHR ''?''"
  obtains "normalizeComponentPurl (path @ rest) = path"
  | q where "normalizeComponentPurl (path @ rest) = path @ CHR ''?'' # q" "CHR ''/'' \<notin> set q"
proof -
  obtain a qs b where cut: "cut (CHR ''?'') (path @ rest) = (a, qs, b)" by (metis prod_cases3)
  have path_qs: "stripPurlVersion a = path \<and> CHR ''/'' \<notin> set qs"
  proof (cases "CHR ''?'' \<in> set rest")
    case True
    then obtain v w where vw: "rest = v @ CHR ''?'' # w" "CHR ''?'' \<notin> set v"
      using split_list_first by metis
    then have "a = path @ v" "qs = w" using cut assms(2) cut_found [of "CHR ''?''" "path @ v" w] by simp_all
    moreover have "v = [] \<or> hd v = CHR ''@''" using assms(4) vw by (cases v) auto
    ultimately show ?thesis
      using assms(1,3) vw stripPurlVersion_version [of path] stripPurlVersion_absent [of path]
      by (cases v) auto
  next
    case False
    then have "a = path @ rest" "qs = []" using cut assms(2) by simp_all
    moreover have "rest = [] \<or> hd rest = CHR ''@''" using assms(4) False by (cases rest) auto
    ultimately show ?thesis
      using assms(1) stripPurlVersion_version [of path] stripPurlVersion_absent [of path]
      by (cases rest) auto
  qed
  let ?kept = "List.map_filter kept_qualifier (split_on (CHR ''&'') qs)"
  have "CHR ''/'' \<notin> set (join ''&'' (sort_by str_cmp ?kept))"
  proof -
    have "CHR ''/'' \<notin> set x" if "x \<in> set ?kept" for x
      using that path_qs kept_qualifier_set split_on_set
      by (fastforce simp: set_map_filter)
    then show ?thesis using join_set [of "''&''" "sort_by str_cmp ?kept"] by fastforce
  qed
  moreover have "normalizeComponentPurl (path @ rest) = path \<or>
      normalizeComponentPurl (path @ rest) = path @ CHR ''?'' # join ''&'' (sort_by str_cmp ?kept)"
    using cut path_qs by (simp add: normalizeComponentPurl_def Let_def)
  ultimately show thesis using that by blast
qed

text \<open>The two derivations of a versioned package's base name agree on every purl whose slashes all
  come before its version and qualifiers, so there the survivor guard counts exactly the components it
  is meant to count: the key that \<open>normKeyFromComponentKey\<close> derives from a component's identity is the
  one \<open>versionedNormKey\<close> derives from the change that reports it.\<close>

theorem norm_keys_agree:
  assumes "has_prefix path ''pkg:''" and "CHR ''@'' \<notin> set path" and "CHR ''?'' \<notin> set path"
    and "CHR ''/'' \<notin> set rest" and "rest = [] \<or> hd rest = CHR ''@'' \<or> hd rest = CHR ''?''"
    and "cd_purl change = Some (path @ rest)"
  shows "versionedNormKey change = normKeyFromComponentKey (componentKey typ name grp (cd_purl change))"
proof -
  have strip: "\<exists>q. CHR ''/'' \<notin> set q \<and>
      (stripPurlVersion (path @ rest) = path \<or> stripPurlVersion (path @ rest) = path @ CHR ''?'' # q)"
  proof (cases "CHR ''@'' \<in> set rest")
    case True
    then obtain v w where vw: "rest = v @ CHR ''@'' # w" "CHR ''@'' \<notin> set v"
      using split_list_first by metis
    then have "stripPurlVersion (path @ rest) = path @ v"
      using stripPurlVersion_version [of "path @ v" w] assms(2) by simp
    moreover have "v = [] \<or> (\<exists>q. v = CHR ''?'' # q)" using assms(5) vw by (cases v) auto
    ultimately show ?thesis using assms(4) vw by auto
  next
    case False
    then have "stripPurlVersion (path @ rest) = path @ rest"
      using assms(2) by (simp add: stripPurlVersion_absent)
    moreover have "rest = [] \<or> (\<exists>q. rest = CHR ''?'' # q)" using assms(5) False by (cases rest) auto
    ultimately show ?thesis using assms(4) by auto
  qed
  then have left: "versionedNormKey change = purl_norm_key path"
    using assms(6) purl_norm_key_query [OF assms(3)] by (auto simp: versionedNormKey_def)
  have "normKeyFromComponentKey (normalizeComponentPurl (path @ rest)) = purl_norm_key path"
    using assms(1) purl_norm_key_query [OF assms(3)] has_prefix_append [OF assms(1)]
    by (auto simp: normKeyFromComponentKey_def intro: normalize_shape [OF assms(2-5)])
  moreover have "path @ rest \<noteq> []" using assms(1) by (auto simp: has_prefix_iff)
  ultimately show ?thesis
    using left assms(6) by (simp add: componentKey_def)
qed

definition demo_change :: "string \<Rightarrow> component_diff" where
  "demo_change p = \<lparr>cd_type = dirAdded, cd_direction = [], cd_name = ''python-3.12'', cd_group = None,
     cd_version = None, cd_purl = Some p, cd_previous = None, cd_node_ref = None\<rparr>"

theorem norm_keys_agree_witness:
  "versionedNormKey (demo_change ''pkg:deb/debian/python-3.12@3.12.1?arch=amd64'') =
   normKeyFromComponentKey (componentKey ''library'' ''python-3.12'' None
     (Some ''pkg:deb/debian/python-3.12@3.12.1?arch=amd64''))"
  using norm_keys_agree [of "''pkg:deb/debian/python-3.12''" "''@3.12.1?arch=amd64''"
      "demo_change ''pkg:deb/debian/python-3.12@3.12.1?arch=amd64''"]
  by (simp add: demo_change_def)


section \<open>Where the reconciliation fails\<close>

definition versioned_package :: "string \<Rightarrow> string \<Rightarrow> string \<Rightarrow> string \<Rightarrow> string \<times> component_identity" where
  "versioned_package name ver quals purl_path =
     (normalizeComponentPurl (purl_path @ name @ ''@'' @ ver @ quals),
      \<lparr>ci_version = Some ver, ci_purl = Some (purl_path @ name @ ''@'' @ ver @ quals),
       ci_name = name, ci_group = None\<rparr>)"

abbreviation pkg10 :: "string \<Rightarrow> string \<times> component_identity" where
  "pkg10 q \<equiv> versioned_package ''py-10'' ''10.1'' q ''pkg:deb/''"

abbreviation pkg11 :: "string \<Rightarrow> string \<times> component_identity" where
  "pkg11 q \<equiv> versioned_package ''py-11'' ''11.1'' q ''pkg:deb/''"

abbreviation pkg12 :: "string \<Rightarrow> string \<times> component_identity" where
  "pkg12 q \<equiv> versioned_package ''py-12'' ''12.1'' q ''pkg:deb/''"

lemmas package_simps = versioned_package_def normalizeComponentPurl_def cut_def stripPurlVersion_def
  map_filter_simps kept_qualifier_def identityQualifiers_def

lemmas diff_simps = first_pass_def new_change_def old_change_def displayName_def displayGroup_def
  reconcileVersionedPackages_def note_change_def versionedNormKey_def purl_norm_key_def
  last_index_byte_def suffix_at_def is_digit_def versionSuffixRe_def collapse_def newNormCount_def
  normKeyFromComponentKey_def versionsEqual_def dir_defs
  with_direction_def classifyDirection_def versionsOrderable_def purlType_def distroPurlTypes_def

text \<open>The reported upgrade is not determined by the two SBOMs. When two versioned packages give way
  to one, which of them the new one is reported to replace is decided by the iteration order of a Go map:
  the same old map visited in two orders gives two different previous versions (and leaves a different
  package reported as removed).\<close>

theorem reconciliation_order_dependent:
  "map cd_previous (reconcileVersionedPackages id (first_pass [pkg10 [], pkg11 []] [pkg12 []])
       (newNormCount [pkg12 []])) = [None, Some ''10.1''] \<and>
   map cd_previous (reconcileVersionedPackages id (first_pass [pkg11 [], pkg10 []] [pkg12 []])
       (newNormCount [pkg12 []])) = [None, Some ''11.1'']"
  by (simp add: package_simps diff_simps Let_def)

abbreviation repo_q :: string where "repo_q \<equiv> ''?repository_url=http://x''"

text \<open>The survivor guard does not see packages whose purl names its repository. With
  \<open>repository_url\<close>, which the identity key keeps, the last slash of the key lies inside the qualifier, the
  guard counts no component, and a package that was only removed is reported as upgraded to one version
  although two survive; without the qualifier the same change is reported as it is.\<close>

theorem survivor_guard_blind:
  "map cd_type (reconcileVersionedPackages id (first_pass [pkg10 []] [pkg11 [], pkg12 []])
       (newNormCount [pkg11 [], pkg12 []])) = [dirAdded, dirAdded, dirRemoved] \<and>
   map cd_type (reconcileVersionedPackages id (first_pass [pkg10 repo_q] [pkg11 repo_q, pkg12 repo_q])
       (newNormCount [pkg11 repo_q, pkg12 repo_q])) = [dirAdded, dirModified]"
  by (simp add: package_simps diff_simps Let_def)

end
