(* ===== verification/DiffTree.thy ===== *)
theory DiffTree
  imports ComponentDiff NamespaceMembers
begin

text \<open>
  The diff tree of \<^verbatim>\<open>internal/service/difftree.go\<close> (roots, node references and the rollup of changes
  over transitive dependencies), and the two entry points of \<^verbatim>\<open>internal/service/changelog.go\<close> that
  diff two chosen SBOMs, with their access checks. A Go map from strings to slices is an association
  list from keys to lists; a missing key reads as the empty slice.
\<close>

section \<open>Multimaps\<close>

definition look :: "('k \<times> 'v list) list \<Rightarrow> 'k \<Rightarrow> 'v list" where
  "look m k = (case map_of m k of None \<Rightarrow> [] | Some vs \<Rightarrow> vs)"

definition push :: "'k \<Rightarrow> 'v \<Rightarrow> ('k \<times> 'v list) list \<Rightarrow> ('k \<times> 'v list) list" where
  "push k v m = AList.update k (look m k @ [v]) m"

definition incr :: "'k \<Rightarrow> ('k \<times> nat) list \<Rightarrow> ('k \<times> nat) list" where
  "incr k m = AList.update k (Suc (case map_of m k of None \<Rightarrow> 0 | Some n \<Rightarrow> n)) m"

lemma look_push [simp]: "look (push k v m) k' = (if k' = k then look m k @ [v] else look m k')"
  by (simp add: look_def push_def update_conv')

section \<open>Edges, roots and lookups\<close>

record dependency_row =
  dep_ref :: string
  dep_on :: string

record dependency_edge =
  de_from :: string
  de_to :: string

definition buildDepEdgeMaps ::
  "dependency_row list \<Rightarrow> (string \<times> nat) list \<times> (string \<times> string list) list" where
  "buildDepEdgeMaps deps =
     fold (\<lambda>d (inEdge, outEdges). (incr (dep_on d) inEdge, push (dep_ref d) (dep_on d) outEdges))
       deps ([], [])"

definition in_degree :: "(string \<times> nat) list \<Rightarrow> string \<Rightarrow> nat" where
  "in_degree inEdge r = (case map_of inEdge r of None \<Rightarrow> 0 | Some n \<Rightarrow> n)"

definition bom_ref_names :: "package_row list \<Rightarrow> (string \<times> string) list" where
  "bom_ref_names toPkgs =
     fold (\<lambda>p m. case pk_bom_ref p of None \<Rightarrow> m | Some r \<Rightarrow> AList.update r (pk_name p) m) toPkgs []"

definition name_of_ref :: "(string \<times> string) list \<Rightarrow> string \<Rightarrow> string" where
  "name_of_ref names r = (case map_of names r of None \<Rightarrow> [] | Some n \<Rightarrow> n)"

definition root_cmp :: "(string \<times> string) list \<Rightarrow> string \<Rightarrow> string \<Rightarrow> int" where
  "root_cmp names = then_cmp (on_key str_cmp (name_of_ref names)) str_cmp"

definition computeRootsAndDirect ::
  "(string \<times> string list) list \<Rightarrow> (string \<times> nat) list \<Rightarrow> string \<Rightarrow> package_row list \<Rightarrow>
   string list \<times> string list" where
  "computeRootsAndDirect outEdges inEdge metaBomRef toPkgs =
     (let (roots, directSet) =
        (if metaBomRef \<noteq> [] \<and> look outEdges metaBomRef \<noteq> []
         then (look outEdges metaBomRef, look outEdges metaBomRef)
         else (List.map_filter
                 (\<lambda>p. case pk_bom_ref p of
                        Some r \<Rightarrow> if r \<noteq> metaBomRef \<and> in_degree inEdge r = 0 then Some r else None
                      | None \<Rightarrow> None) toPkgs, []))
      in (sort_by (root_cmp (bom_ref_names toPkgs)) roots, directSet))"

definition name_group_key :: "string \<Rightarrow> string option \<Rightarrow> string" where
  "name_group_key name grp = name @ [nul] @ (case grp of None \<Rightarrow> [] | Some g \<Rightarrow> g)"

definition note_package ::
  "package_row \<Rightarrow>
   (string \<times> string) list \<times> (string \<times> string) list \<times> (string \<times> string) list \<Rightarrow>
   (string \<times> string) list \<times> (string \<times> string) list \<times> (string \<times> string) list" where
  "note_package p maps = (case maps of (byPurl, byNameGroup, refToID) \<Rightarrow>
     let i = uuid_str (pk_id p) in
     ((case pk_purl p of Some u \<Rightarrow> if u \<noteq> [] then AList.update u i byPurl else byPurl | None \<Rightarrow> byPurl),
      AList.update (name_group_key (pk_name p) (pk_group p)) i byNameGroup,
      (case pk_bom_ref p of Some r \<Rightarrow> AList.update r i refToID | None \<Rightarrow> refToID)))"

definition buildNodeLookups ::
  "package_row list \<Rightarrow>
   (string \<times> string) list \<times> (string \<times> string) list \<times> (string \<times> string) list" where
  "buildNodeLookups toPkgs = fold note_package toPkgs ([], [], [])"

definition annotateNodeRef ::
  "(string \<times> string) list \<Rightarrow> (string \<times> string) list \<Rightarrow> component_diff \<Rightarrow> component_diff" where
  "annotateNodeRef byPurl byNameGroup c =
     (let fallback = (case map_of byNameGroup (name_group_key (cd_name c) (cd_group c)) of
                        Some i \<Rightarrow> c\<lparr>cd_node_ref := Some i\<rparr>
                      | None \<Rightarrow> c)
      in case cd_purl c of
           Some u \<Rightarrow>
             if u \<noteq> [] then
               (case map_of byPurl u of Some i \<Rightarrow> c\<lparr>cd_node_ref := Some i\<rparr> | None \<Rightarrow> fallback)
             else fallback
         | None \<Rightarrow> fallback)"

definition annotateNodeRefs ::
  "component_diff list \<Rightarrow> (string \<times> string) list \<Rightarrow> (string \<times> string) list \<Rightarrow> component_diff list" where
  "annotateNodeRefs changes byPurl byNameGroup = map (annotateNodeRef byPurl byNameGroup) changes"

definition buildIDToChildren ::
  "(string \<times> string list) list \<Rightarrow> (string \<times> string) list \<Rightarrow> (string \<times> string list) list" where
  "buildIDToChildren outEdges bomRefToID =
     fold (\<lambda>(bomRef, children) m.
       case map_of bomRefToID bomRef of
         None \<Rightarrow> m
       | Some parentID \<Rightarrow>
           fold (\<lambda>childRef m. case map_of bomRefToID childRef of
                    Some childID \<Rightarrow> push parentID childID m
                  | None \<Rightarrow> m) children m)
       outEdges []"

definition buildChangesByNodeID :: "component_diff list \<Rightarrow> (string \<times> string list) list" where
  "buildChangesByNodeID changes =
     fold (\<lambda>c m. case cd_node_ref c of Some r \<Rightarrow> push r (cd_direction c) m | None \<Rightarrow> m) changes []"

section \<open>The rollup\<close>

definition add_counts :: "change_counts \<Rightarrow> change_counts \<Rightarrow> change_counts" where
  "add_counts a b = \<lparr>n_added = n_added a + n_added b, n_removed = n_removed a + n_removed b,
     n_upgraded = n_upgraded a + n_upgraded b, n_downgraded = n_downgraded a + n_downgraded b,
     n_modified = n_modified a + n_modified b\<rparr>"

text \<open>
  The loop over the children of a node, with the visited map as a set and the counts so far. The
  recursion into a child runs the same loop over the child's children; the fuel bounds its depth,
  which no run of the code has, and \<open>None\<close> means the fuel did not suffice.
\<close>

fun dfs_loop ::
  "(string \<Rightarrow> string list) \<Rightarrow> (string \<Rightarrow> string list) \<Rightarrow> nat \<Rightarrow> string list \<Rightarrow> string set \<Rightarrow>
   change_counts \<Rightarrow> (change_counts \<times> string set) option" where
  "dfs_loop children changes fuel [] visited counts = Some (counts, visited)"
| "dfs_loop children changes fuel (childID # rest) visited counts =
     (if childID \<in> visited then dfs_loop children changes fuel rest visited counts
      else case fuel of
        0 \<Rightarrow> None
      | Suc n \<Rightarrow>
          (case dfs_loop children changes n (children childID) (insert childID visited) no_changes of
             None \<Rightarrow> None
           | Some (sub, visited1) \<Rightarrow>
               dfs_loop children changes fuel rest visited1
                 (add_counts (fold (\<lambda>dir c. addDirectionCount c dir) (changes childID) counts) sub)))"

definition dfs_fuel :: "(string \<times> string list) list \<Rightarrow> nat" where
  "dfs_fuel idToChildren = length (concat (map snd idToChildren))"

definition dfsChangeCounts ::
  "string \<Rightarrow> (string \<times> string list) list \<Rightarrow> (string \<times> string list) list \<Rightarrow> change_counts option" where
  "dfsChangeCounts nodeID idToChildren changesByNodeID =
     map_option fst
       (dfs_loop (look idToChildren) (look changesByNodeID) (dfs_fuel idToChildren)
          (look idToChildren nodeID) {} no_changes)"

record component_summary =
  cs_id :: string
  cs_sbom :: string
  cs_bom_ref :: "string option"
  cs_type :: string
  cs_name :: string
  cs_group :: "string option"
  cs_version :: "string option"
  cs_purl :: "string option"
  cs_is_direct :: bool
  cs_descendant_changes :: "change_counts option"

definition toComponentSummary :: "uuid \<Rightarrow> package_row \<Rightarrow> component_summary" where
  "toComponentSummary sbomID p =
     \<lparr>cs_id = uuid_str (pk_id p), cs_sbom = uuid_str sbomID, cs_bom_ref = pk_bom_ref p,
      cs_type = pk_type p, cs_name = pk_name p, cs_group = pk_group p, cs_version = pk_version p,
      cs_purl = pk_purl p, cs_is_direct = False, cs_descendant_changes = None\<rparr>"

definition build_node ::
  "uuid \<Rightarrow> string list \<Rightarrow> (string \<times> string list) list \<Rightarrow> (string \<times> string list) list \<Rightarrow>
   package_row \<Rightarrow> component_summary option" where
  "build_node toID directSet idToChildren changesByNodeID p =
     (let node = toComponentSummary toID p;
          node = (case pk_bom_ref p of
                    Some r \<Rightarrow> node\<lparr>cs_is_direct := List.member directSet r\<rparr>
                  | None \<Rightarrow> node)
      in map_option
           (\<lambda>counts. if counts \<noteq> no_changes then node\<lparr>cs_descendant_changes := Some counts\<rparr> else node)
           (dfsChangeCounts (cs_id node) idToChildren changesByNodeID))"

definition buildNodes ::
  "package_row list \<Rightarrow> uuid \<Rightarrow> string list \<Rightarrow> (string \<times> string list) list \<Rightarrow>
   (string \<times> string list) list \<Rightarrow> component_summary list option" where
  "buildNodes toPkgs toID directSet idToChildren changesByNodeID =
     those (map (build_node toID directSet idToChildren changesByNodeID) toPkgs)"

section \<open>Diffing two SBOMs\<close>

record sbom_row =
  sb_id :: uuid
  sb_namespace :: "uuid option"
  sb_subject_version :: "string option"
  sb_created_at :: int
  sb_architecture :: "string option"
  sb_build_date :: "int option"
  sb_meta_ref :: "string option"

text \<open>The tables the diff reads. The component and dependency rows of an SBOM are listed in the order
  their queries return them; \<open>sb_architecture\<close>, \<open>sb_build_date\<close> and \<open>sb_meta_ref\<close> are the values the
  queries extract from the enrichments and the raw document.\<close>

record sbom_store =
  ss_db :: db
  ss_sboms :: "sbom_row list"
  ss_components :: "(uuid \<times> package_row) list"
  ss_dependencies :: "(uuid \<times> dependency_row) list"

record diff_tree =
  dt_from :: sbom_ref
  dt_to :: sbom_ref
  dt_summary :: change_counts
  dt_changes :: "component_diff list"
  dt_nodes :: "component_summary list"
  dt_edges :: "dependency_edge list"
  dt_roots :: "string list"

definition sbom_visible :: "db \<Rightarrow> uuid option \<Rightarrow> uuid option \<Rightarrow> bool \<Rightarrow> bool" where
  "sbom_visible d ns viewer is_admin \<longleftrightarrow>
     is_admin \<or>
     (case ns of None \<Rightarrow> True
      | Some n \<Rightarrow> list_ex (\<lambda>r. ns_id r = n \<and> (ns_visibility r = ''public'' \<or> is_member d n viewer))
                    (namespaces d))"

definition find_sbom :: "sbom_store \<Rightarrow> uuid \<Rightarrow> sbom_row option" where
  "find_sbom st i = find (\<lambda>r. sb_id r = i) (ss_sboms st)"

text \<open>The \<open>k\<close>-th database call of an operation fails when \<open>flt k\<close> says so.\<close>

definition db_call :: "(nat \<Rightarrow> fault) \<Rightarrow> nat \<Rightarrow> 'a result \<Rightarrow> 'a result" where
  "db_call flt k r = (case flt k of Some f \<Rightarrow> Inl (fault_error f) | None \<Rightarrow> r)"

definition IsSBOMVisible :: "sbom_store \<Rightarrow> uuid \<Rightarrow> visibility_filter \<Rightarrow> bool result" where
  "IsSBOMVisible st i vis =
     (case find_sbom st i of
        None \<Rightarrow> Inl NoRows
      | Some r \<Rightarrow> Inr (sbom_visible (ss_db st) (sb_namespace r) (vf_user_id vis) (vf_is_admin vis)))"

definition GetSBOM_row :: "sbom_store \<Rightarrow> uuid \<Rightarrow> sbom_row result" where
  "GetSBOM_row st i = (case find_sbom st i of None \<Rightarrow> Inl NoRows | Some r \<Rightarrow> Inr r)"

definition ListSBOMComponents :: "sbom_store \<Rightarrow> uuid \<Rightarrow> package_row list" where
  "ListSBOMComponents st i = map snd (filter (\<lambda>(s, _). s = i) (ss_components st))"

definition ListSBOMPackages :: "sbom_store \<Rightarrow> uuid \<Rightarrow> package_row list" where
  "ListSBOMPackages st i =
     map snd (filter (\<lambda>(s, p). s = i \<and> pk_type p \<noteq> ''file'') (ss_components st))"

definition ListDependenciesBySBOM :: "sbom_store \<Rightarrow> uuid \<Rightarrow> dependency_row list" where
  "ListDependenciesBySBOM st i = map snd (filter (\<lambda>(s, _). s = i) (ss_dependencies st))"

definition wrap :: "string \<Rightarrow> 'a result \<Rightarrow> 'a result" where
  "wrap m r = (case r of Inl e \<Rightarrow> Inl (Wrapped m e) | Inr x \<Rightarrow> Inr x)"

fun check_visible ::
  "(nat \<Rightarrow> fault) \<Rightarrow> sbom_store \<Rightarrow> visibility_filter \<Rightarrow> nat \<Rightarrow> uuid list \<Rightarrow> unit result" where
  "check_visible flt st vis k [] = Inr ()"
| "check_visible flt st vis k (i # is) =
     bind_result (wrap ''checking sbom visibility'' (db_call flt k (IsSBOMVisible st i vis)))
       (\<lambda>visible. if \<not> visible then Inl ErrNotFound else check_visible flt st vis (Suc k) is)"

definition plain_ref :: "sbom_row \<Rightarrow> sbom_ref" where
  "plain_ref r = \<lparr>sr_id = uuid_str (sb_id r), sr_subject_version = sb_subject_version r,
     sr_architecture = None, sr_flavor = None, sr_created_at = sb_created_at r, sr_build_date = None\<rparr>"

text \<open>The iteration orders of the Go maps a diff ranges over.\<close>

record map_orders =
  mo_components :: "component_map \<Rightarrow> component_map"
  mo_candidates :: "candidates \<Rightarrow> candidates"
  mo_edges :: "(string \<times> string list) list \<Rightarrow> (string \<times> string list) list"

definition map_orders_ok :: "map_orders \<Rightarrow> bool" where
  "map_orders_ok mo \<longleftrightarrow> iteration_order (mo_components mo) \<and> iteration_order (mo_candidates mo) \<and>
     iteration_order (mo_edges mo)"

definition DiffSBOMs ::
  "'v semver_lib \<Rightarrow> map_orders \<Rightarrow> (nat \<Rightarrow> fault) \<Rightarrow> sbom_store \<Rightarrow> uuid \<Rightarrow> uuid \<Rightarrow>
   visibility_filter \<Rightarrow> changelog_entry result" where
  "DiffSBOMs lib mo flt st fromID toID vis =
     bind_result (check_visible flt st vis 0 [fromID, toID]) (\<lambda>_.
     bind_result (wrap ''getting from sbom'' (db_call flt 2 (GetSBOM_row st fromID))) (\<lambda>fromSBOM.
     bind_result (wrap ''getting to sbom'' (db_call flt 3 (GetSBOM_row st toID))) (\<lambda>toSBOM.
     bind_result (wrap ''listing from components'' (db_call flt 4 (Inr (ListSBOMComponents st fromID)))) (\<lambda>fromComps.
     bind_result (wrap ''listing to components'' (db_call flt 5 (Inr (ListSBOMComponents st toID)))) (\<lambda>toComps.
     Inr (diffComponents lib (mo_candidates mo) (plain_ref fromSBOM) (plain_ref toSBOM)
            (mo_components mo (buildComponentMap fromComps))
            (mo_components mo (buildComponentMap toComps))))))))"

definition non_empty :: "string option \<Rightarrow> string option" where
  "non_empty s = (case s of Some [] \<Rightarrow> None | _ \<Rightarrow> s)"

definition full_ref :: "sbom_row \<Rightarrow> sbom_ref" where
  "full_ref r = (plain_ref r)\<lparr>sr_build_date := sb_build_date r,
     sr_architecture := non_empty (sb_architecture r)\<rparr>"

definition assemble_tree ::
  "((string \<times> string list) list \<Rightarrow> (string \<times> string list) list) \<Rightarrow> changelog_entry \<Rightarrow> uuid \<Rightarrow> package_row list \<Rightarrow> dependency_row list \<Rightarrow> string \<Rightarrow> diff_tree option" where
  "assemble_tree edge_ord entry toID toPkgs deps metaBomRef =
     (let (inEdge, outEdges) = buildDepEdgeMaps deps;
          (roots, directSet) = computeRootsAndDirect outEdges inEdge metaBomRef toPkgs;
          (nodeByPurl, nodeByNameGroup, bomRefToID) = buildNodeLookups toPkgs;
          changes = annotateNodeRefs (ce_changes entry) nodeByPurl nodeByNameGroup;
          idToChildren = buildIDToChildren (edge_ord outEdges) bomRefToID;
          changesByNodeID = buildChangesByNodeID changes
      in map_option
           (\<lambda>nodes. \<lparr>dt_from = ce_from entry, dt_to = ce_to entry, dt_summary = ce_summary entry,
              dt_changes = changes, dt_nodes = nodes,
              dt_edges = map (\<lambda>d. \<lparr>de_from = dep_ref d, de_to = dep_on d\<rparr>) deps, dt_roots = roots\<rparr>)
           (buildNodes toPkgs toID directSet idToChildren changesByNodeID))"

text \<open>\<open>None\<close> stands for a run that exhausted the fuel of the rollup.\<close>

definition DiffSBOMsWithTree ::
  "'v semver_lib \<Rightarrow> map_orders \<Rightarrow> (nat \<Rightarrow> fault) \<Rightarrow> sbom_store \<Rightarrow> uuid \<Rightarrow> uuid \<Rightarrow>
   visibility_filter \<Rightarrow> diff_tree option result" where
  "DiffSBOMsWithTree lib mo flt st fromID toID vis =
     bind_result (check_visible flt st vis 0 [fromID, toID]) (\<lambda>_.
     bind_result (wrap ''getting from sbom'' (db_call flt 2 (GetSBOM_row st fromID))) (\<lambda>fromSBOM.
     bind_result (wrap ''getting to sbom'' (db_call flt 3 (GetSBOM_row st toID))) (\<lambda>toSBOM.
     bind_result (wrap ''listing from packages'' (db_call flt 4 (Inr (ListSBOMPackages st fromID)))) (\<lambda>fromPkgs.
     bind_result (wrap ''listing to packages'' (db_call flt 5 (Inr (ListSBOMPackages st toID)))) (\<lambda>toPkgs.
     bind_result (wrap ''listing dependencies'' (db_call flt 6 (Inr (ListDependenciesBySBOM st toID)))) (\<lambda>deps.
     bind_result (wrap ''getting metadata bom-ref'' (db_call flt 7 (GetSBOM_row st toID))) (\<lambda>raw.
     let metaBomRef = (case sb_meta_ref raw of Some s \<Rightarrow> s | None \<Rightarrow> []);
         entry = diffComponents lib (mo_candidates mo) (full_ref fromSBOM) (full_ref toSBOM)
                   (mo_components mo (buildPackageMap fromPkgs))
                   (mo_components mo (buildPackageMap toPkgs))
     in Inr (assemble_tree (mo_edges mo) entry toID toPkgs deps metaBomRef))))))))"


section \<open>The rollup: lemmas\<close>

definition child_rel :: "(string \<Rightarrow> string list) \<Rightarrow> (string \<times> string) set" where
  "child_rel children = {(a, b). b \<in> set (children a)}"

abbreviation add_dirs :: "string list \<Rightarrow> change_counts \<Rightarrow> change_counts" where
  "add_dirs ds c \<equiv> fold (\<lambda>dir c. addDirectionCount c dir) ds c"

lemma add_counts_direction:
  "add_counts c (addDirectionCount s dir) = addDirectionCount (add_counts c s) dir"
  by (simp add: add_counts_def addDirectionCount_def)

lemma add_counts_fold: "add_counts c (add_dirs ds s) = add_dirs ds (add_counts c s)"
  by (induction ds arbitrary: s) (simp_all add: add_counts_direction)

lemma add_counts_none [simp]: "add_counts c no_changes = c"
  by (simp add: add_counts_def no_changes_def)

definition visited_well ::
  "(string \<Rightarrow> string list) \<Rightarrow> (string \<Rightarrow> string list) \<Rightarrow> string list \<Rightarrow> string set \<Rightarrow> change_counts \<Rightarrow>
   change_counts \<Rightarrow> string set \<Rightarrow> bool" where
  "visited_well children changes list V c c' V' \<longleftrightarrow>
     V \<subseteq> V' \<and> set list \<subseteq> V' \<and> (\<forall>x\<in>V' - V. set (children x) \<subseteq> V') \<and>
     (\<forall>x\<in>V' - V. \<exists>y\<in>set list. (y, x) \<in> (child_rel children)\<^sup>*) \<and>
     (\<exists>vs. distinct vs \<and> set vs = V' - V \<and> c' = add_dirs (concat (map changes vs)) c)"

lemma dfs_loop_visits:
  "dfs_loop children changes fuel list V c = Some (c', V') \<Longrightarrow>
   visited_well children changes list V c c' V'"
proof (induction children changes fuel list V c arbitrary: c' V' rule: dfs_loop.induct)
  case (1 children changes fuel V c)
  then show ?case by (simp add: visited_well_def)
next
  case (2 children changes fuel ch rest V c)
  show ?case
  proof (cases "ch \<in> V")
    case True
    with 2 show ?thesis by (fastforce simp: visited_well_def)
  next
    case False
    from "2.prems" False obtain n where fuel: "fuel = Suc n" by (cases fuel) auto
    from "2.prems" False fuel obtain sub V1 where
      inner: "dfs_loop children changes n (children ch) (insert ch V) no_changes = Some (sub, V1)"
      and outer: "dfs_loop children changes fuel rest V1 (add_counts (add_dirs (changes ch) c) sub) =
        Some (c', V')"
      by (auto split: option.splits)
    have I: "visited_well children changes (children ch) (insert ch V) no_changes sub V1"
      using "2.IH"(2) [OF False fuel inner] .
    have O: "visited_well children changes rest V1 (add_counts (add_dirs (changes ch) c) sub) c' V'"
      using "2.IH"(3) [OF False fuel inner refl outer] .
    from I obtain us where us: "distinct us" "set us = V1 - insert ch V"
      "sub = add_dirs (concat (map changes us)) no_changes"
      by (auto simp: visited_well_def)
    from O obtain ws where ws: "distinct ws" "set ws = V' - V1"
      "c' = add_dirs (concat (map changes ws)) (add_counts (add_dirs (changes ch) c) sub)"
      by (auto simp: visited_well_def)
    have sub: "insert ch V \<subseteq> V1" "V1 \<subseteq> V'" using I O by (auto simp: visited_well_def)
    have "distinct (ch # us @ ws) \<and> set (ch # us @ ws) = V' - V \<and>
        c' = add_dirs (concat (map changes (ch # us @ ws))) c"
      using us ws sub False by (auto simp: add_counts_fold)
    moreover have "\<exists>y\<in>set (ch # rest). (y, x) \<in> (child_rel children)\<^sup>*" if x: "x \<in> V' - V" for x
    proof (cases "x \<in> V1")
      case True
      show ?thesis
      proof (cases "x = ch")
        case False
        with x True have "x \<in> V1 - insert ch V" by simp
        moreover have "\<forall>x\<in>V1 - insert ch V. \<exists>y\<in>set (children ch). (y, x) \<in> (child_rel children)\<^sup>*"
          using I by (simp add: visited_well_def)
        ultimately obtain y where "y \<in> set (children ch)" "(y, x) \<in> (child_rel children)\<^sup>*"
          by blast
        then have "(ch, x) \<in> (child_rel children)\<^sup>*"
          by (auto simp: child_rel_def intro: converse_rtrancl_into_rtrancl)
        then show ?thesis by simp
      qed simp
    next
      case False
      with x O show ?thesis by (auto simp: visited_well_def)
    qed
    moreover have "set (children x) \<subseteq> V'" if "x \<in> V' - V" for x
    proof (cases "x \<in> V1")
      case True
      then have "x = ch \<or> x \<in> V1 - insert ch V" using that by simp
      then have "set (children x) \<subseteq> V1" using I by (auto simp: visited_well_def)
      with sub show ?thesis by blast
    next
      case False
      with that O show ?thesis by (simp add: visited_well_def)
    qed
    moreover have "set (ch # rest) \<subseteq> V'" "V \<subseteq> V'" using sub O by (auto simp: visited_well_def)
    ultimately show ?thesis unfolding visited_well_def by blast
  qed
qed

lemma dfs_loop_returns:
  assumes "finite U" and "\<And>x. set (children x) \<subseteq> U"
  shows "set list \<subseteq> U \<Longrightarrow> card (U - V) \<le> fuel \<Longrightarrow> dfs_loop children changes fuel list V c \<noteq> None"
proof (induction fuel arbitrary: list V c rule: less_induct)
  case (less fuel)
  from less.prems show ?case
  proof (induction list arbitrary: V c)
    case (Cons ch rest)
    show ?case
    proof (cases "ch \<in> V")
      case False
      with Cons.prems have "ch \<in> U - V" by simp
      then have smaller: "card (U - insert ch V) < card (U - V)"
        using assms(1) by (intro psubset_card_mono) auto
      with Cons.prems(2) obtain n where n: "fuel = Suc n" by (cases fuel) auto
      have inner: "dfs_loop children changes n (children ch) (insert ch V) no_changes \<noteq> None"
        using less.IH [of n] smaller Cons.prems(2) n assms(2) by simp
      then obtain sub V1 where
        sub: "dfs_loop children changes n (children ch) (insert ch V) no_changes = Some (sub, V1)"
        by auto
      then have "V \<subseteq> V1" using dfs_loop_visits [OF sub] by (auto simp: visited_well_def)
      then have "card (U - V1) \<le> card (U - V)"
        using assms(1) by (intro card_mono) auto
      then show ?thesis
        using Cons False n sub by simp
    qed (use Cons in simp)
  qed simp
qed

lemma look_in_children: "x \<in> set (look m k) \<Longrightarrow> x \<in> set (concat (map snd m))"
proof (cases "map_of m k")
  case (Some vs)
  then have "(k, vs) \<in> set m" by (rule map_of_SomeD)
  moreover assume "x \<in> set (look m k)"
  ultimately show ?thesis using Some by (force simp: look_def)
qed (simp add: look_def)

lemma descendants_exact:
  assumes "visited_well children changes (children v) {} c c' V'"
  shows "V' = {w. (v, w) \<in> (child_rel children)\<^sup>+}"
proof
  show "V' \<subseteq> {w. (v, w) \<in> (child_rel children)\<^sup>+}"
  proof
    fix x
    assume "x \<in> V'"
    with assms obtain y where "(v, y) \<in> child_rel children" "(y, x) \<in> (child_rel children)\<^sup>*"
      by (auto simp: visited_well_def child_rel_def)
    then show "x \<in> {w. (v, w) \<in> (child_rel children)\<^sup>+}" by (simp add: rtrancl_into_trancl2)
  qed
  have "w \<in> V'" if "(v, w) \<in> (child_rel children)\<^sup>+" for w
    using that
  proof (induction rule: trancl_induct)
    case (base y)
    with assms show ?case by (auto simp: visited_well_def child_rel_def)
  next
    case (step y z)
    with assms show ?case by (auto simp: visited_well_def child_rel_def)
  qed
  then show "{w. (v, w) \<in> (child_rel children)\<^sup>+} \<subseteq> V'" by blast
qed

lemma dfsChangeCounts_lemma:
  "\<exists>vs. distinct vs \<and> set vs = {w. (v, w) \<in> (child_rel (look idToChildren))\<^sup>+} \<and>
     dfsChangeCounts v idToChildren changesByNodeID =
       Some (add_dirs (concat (map (look changesByNodeID) vs)) no_changes)"
proof -
  let ?ch = "look idToChildren" and ?cm = "look changesByNodeID"
  let ?U = "set (concat (map snd idToChildren))"
  have U: "finite ?U" "\<And>x. set (?ch x) \<subseteq> ?U" using look_in_children [of _ idToChildren] by blast+
  have "card (?U - {}) \<le> dfs_fuel idToChildren"
    using card_length [of "concat (map snd idToChildren)"] by (simp add: dfs_fuel_def)
  then have "dfs_loop ?ch ?cm (dfs_fuel idToChildren) (?ch v) {} no_changes \<noteq> None"
    using dfs_loop_returns [of ?U ?ch "?ch v" "{}"] U by blast
  then obtain c' V' where
    run: "dfs_loop ?ch ?cm (dfs_fuel idToChildren) (?ch v) {} no_changes = Some (c', V')"
    by auto
  have well: "visited_well ?ch ?cm (?ch v) {} no_changes c' V'" by (rule dfs_loop_visits [OF run])
  then obtain vs where "distinct vs" "set vs = V'" "c' = add_dirs (concat (map ?cm vs)) no_changes"
    by (auto simp: visited_well_def)
  then show ?thesis
    using descendants_exact [OF well] run by (intro exI [of _ vs]) (simp add: dfsChangeCounts_def)
qed

text \<open>C25: The rollup terminates on every graph, cyclic ones included, and counts each change of each
  transitive dependency exactly once: the fuel always suffices, and the counts are those of the changes
  of a list of nodes without repetition whose members are precisely the nodes reachable from the given
  one over one or more edges, however many paths lead to each.\<close>

theorem dfsChangeCounts_exact:
  "\<exists>vs. distinct vs \<and> set vs = {w. (v, w) \<in> (child_rel (look idToChildren))\<^sup>+} \<and>
     dfsChangeCounts v idToChildren changesByNodeID =
       Some (add_dirs (concat (map (look changesByNodeID) vs)) no_changes)"
  by (rule dfsChangeCounts_lemma)

lemma dfsChangeCounts_Some [simp]: "\<exists>c. dfsChangeCounts v idToChildren changesByNodeID = Some c"
  using dfsChangeCounts_lemma [of v idToChildren changesByNodeID] by auto

lemma those_Some: "(\<And>x. x \<in> set xs \<Longrightarrow> x \<noteq> None) \<Longrightarrow> those xs \<noteq> None"
  by (induction xs) (auto split: option.splits)

lemma buildNodes_Some: "buildNodes toPkgs toID directSet idToChildren changesByNodeID \<noteq> None"
  unfolding buildNodes_def
proof (rule those_Some)
  fix x
  assume "x \<in> set (map (build_node toID directSet idToChildren changesByNodeID) toPkgs)"
  then show "x \<noteq> None"
    by (auto simp: build_node_def Let_def)
qed

lemma assemble_tree_Some [simp]: "\<exists>t. assemble_tree edge_ord entry toID toPkgs deps metaBomRef = Some t"
  using buildNodes_Some by (simp add: assemble_tree_def Let_def case_prod_beta)


section \<open>Node references: lemmas\<close>

text \<open>The rows of the new SBOM that a change of the new side describes.\<close>

definition describes :: "package_row list \<Rightarrow> component_diff \<Rightarrow> bool" where
  "describes rows c \<longleftrightarrow>
     (\<exists>p\<in>set rows. cd_purl c = pk_purl p \<and> cd_name c = pk_name p \<and> cd_group c = pk_group p)"

lemma set_update: "set (AList.update k v m) \<subseteq> insert (k, v) (set m)"
  by (induction m) auto

lemma buildPackageMap_entries:
  "(k, ci) \<in> set (buildPackageMap rows) \<Longrightarrow> \<exists>p\<in>set rows. ci = row_identity p"
proof -
  have "(k, ci) \<in> set (fold (\<lambda>row m. AList.update (componentKey (pk_type row) (pk_name row)
          (pk_group row) (pk_purl row)) (row_identity row) m) rows m) \<Longrightarrow>
      (k, ci) \<in> set m \<or> (\<exists>p\<in>set rows. ci = row_identity p)" for m
  proof (induction rows arbitrary: m)
    case (Cons r rows)
    then show ?case
      using set_update [of "componentKey (pk_type r) (pk_name r) (pk_group r) (pk_purl r)"
          "row_identity r" m] by fastforce
  qed simp
  then show "(k, ci) \<in> set (buildPackageMap rows) \<Longrightarrow> \<exists>p\<in>set rows. ci = row_identity p"
    unfolding buildPackageMap_def by fastforce
qed

lemma first_pass_describes:
  assumes "\<And>k ci. (k, ci) \<in> set new \<Longrightarrow> \<exists>p\<in>set rows. ci = row_identity p"
    and "\<forall>p\<in>set rows. pk_name p \<noteq> []" and "c \<in> set (first_pass old new)" and "cd_type c \<noteq> dirRemoved"
  shows "describes rows c"
proof -
  from assms(3,4) obtain k ci where kc: "(k, ci) \<in> set new" "c \<in> set (new_change old (k, ci))"
    by (auto simp: first_pass_def old_change_def split: if_splits)
  from assms(1) [OF kc(1)] obtain p where p: "p \<in> set rows" "ci = row_identity p" by blast
  with kc(2) assms(2) show ?thesis
    by (auto simp: describes_def new_change_def row_identity_def displayName_def displayGroup_def
        split: option.splits if_splits intro!: bexI [of _ p])
qed

lemma reconcile_describes:
  assumes ord: "iteration_order ord"
    and changes: "\<And>c. c \<in> set changes \<Longrightarrow> cd_type c \<noteq> dirRemoved \<Longrightarrow> describes rows c"
    and c: "c \<in> set (reconcileVersionedPackages ord changes cnt)" "cd_type c \<noteq> dirRemoved"
  shows "describes rows c"
proof -
  obtain removedByNorm addedByNorm where
    fold: "fold note_change (enumerate 0 changes) ([], []) = (removedByNorm, addedByNorm)"
    by (metis prod.exhaust)
  note A = collected_ok(2) [OF fold]
  show ?thesis
  proof (cases "c \<in> set changes")
    case False
    have "set (map snd (filter P (enumerate 0 changes))) \<subseteq> set changes" for P
      by (auto simp: in_set_enumerate_eq)
    with c(1) False obtain e d where e: "e \<in> set addedByNorm" "collapse removedByNorm cnt e = Some d"
      "c = fst d"
      using iteration_order_set [OF ord, of addedByNorm]
      by (fastforce simp: reconcileVersionedPackages_def fold Let_def set_map_filter split: if_splits)
    obtain nk i a where enia: "e = (nk, i, a)" by (metis prod_cases3)
    with A e(1) have "a \<in> set changes" "cd_type a = dirAdded"
      by (fastforce simp: candidates_ok_def in_set_enumerate_eq)+
    then have "describes rows a" using changes by simp
    with e(2,3) enia show ?thesis
      unfolding describes_def by (auto simp: collapse_def split: option.splits if_splits) blast
  qed (use changes c in blast)
qed

text \<open>What the lookup maps hold: identifiers of rows, and an entry for every row.\<close>

definition lookups_ok ::
  "string set \<Rightarrow> package_row set \<Rightarrow>
   (string \<times> string) list \<times> (string \<times> string) list \<times> (string \<times> string) list \<Rightarrow> bool" where
  "lookups_ok ids ps maps = (case maps of (byPurl, byNameGroup, _) \<Rightarrow>
     (\<forall>u i. map_of byPurl u = Some i \<longrightarrow> i \<in> ids) \<and>
     (\<forall>g i. map_of byNameGroup g = Some i \<longrightarrow> i \<in> ids) \<and>
     (\<forall>p\<in>ps. \<forall>u. pk_purl p = Some u \<and> u \<noteq> [] \<longrightarrow> map_of byPurl u \<noteq> None) \<and>
     (\<forall>p\<in>ps. map_of byNameGroup (name_group_key (pk_name p) (pk_group p)) \<noteq> None))"

lemma note_package_ok:
  assumes "lookups_ok ids ps maps" and "uuid_str (pk_id p) \<in> ids"
  shows "lookups_ok ids (insert p ps) (note_package p maps)"
proof -
  obtain a b c where maps: "maps = (a, b, c)" by (metis prod_cases3)
  show ?thesis
    using assms by (auto simp: lookups_ok_def note_package_def maps Let_def update_conv' split: option.splits)
qed

lemma buildNodeLookups_ok:
  "lookups_ok ((\<lambda>p. uuid_str (pk_id p)) ` set rows) (set rows) (buildNodeLookups rows)"
proof -
  have "lookups_ok ids ps maps \<Longrightarrow> (\<lambda>p. uuid_str (pk_id p)) ` set rs \<subseteq> ids \<Longrightarrow>
      lookups_ok ids (set rs \<union> ps) (fold note_package rs maps)" for ids ps rs maps
  proof (induction rs arbitrary: ps maps)
    case (Cons p rs)
    then have "lookups_ok ids (insert p ps) (note_package p maps)" by (simp add: note_package_ok)
    with Cons.IH [of "insert p ps" "note_package p maps"] Cons.prems show ?case by simp
  qed simp
  from this [of _ "{}" "([], [], [])" rows] show ?thesis
    by (simp add: buildNodeLookups_def lookups_ok_def)
qed

lemma annotate_describes:
  assumes "lookups_ok ids (set rows) (a, b, m)" and "describes rows c"
  shows "\<exists>i\<in>ids. cd_node_ref (annotateNodeRef a b c) = Some i"
proof -
  from assms(2) obtain p where p: "p \<in> set rows" "cd_purl c = pk_purl p" "cd_name c = pk_name p"
    "cd_group c = pk_group p" by (auto simp: describes_def)
  from assms(1) have ids: "map_of a x = Some i \<Longrightarrow> i \<in> ids" "map_of b x = Some i \<Longrightarrow> i \<in> ids" for x i
    by (simp_all add: lookups_ok_def)
  from assms(1) p(1) obtain j where
    "map_of b (name_group_key (pk_name p) (pk_group p)) = Some j" by (auto simp: lookups_ok_def)
  with p ids show ?thesis
    by (auto simp: annotateNodeRef_def Let_def split: option.splits)
qed

lemma those_map: "those xs = Some ys \<Longrightarrow> xs = map Some ys"
  by (induction xs arbitrary: ys) (auto split: option.splits)

lemma buildNodes_ids:
  assumes "buildNodes toPkgs toID directSet ch cm = Some nodes"
  shows "cs_id ` set nodes = (\<lambda>p. uuid_str (pk_id p)) ` set toPkgs"
proof -
  have one: "build_node toID directSet ch cm p = Some n \<Longrightarrow> cs_id n = uuid_str (pk_id p)" for p n
    by (auto simp: build_node_def Let_def toComponentSummary_def split: option.splits if_splits)
  have eq: "Some ` set nodes = build_node toID directSet ch cm ` set toPkgs"
    using those_map [OF assms [unfolded buildNodes_def]] by (metis list.set_map)
  have "\<exists>p\<in>set toPkgs. cs_id n = uuid_str (pk_id p)" if "n \<in> set nodes" for n
    using eq that one by (metis (no_types, lifting) image_iff)
  moreover have "\<exists>n\<in>set nodes. cs_id n = uuid_str (pk_id p)" if "p \<in> set toPkgs" for p
    using eq that one by (metis (no_types, lifting) image_iff)
  ultimately show ?thesis by (auto simp: image_iff) metis+
qed


section \<open>Access and node references: properties\<close>

lemma wrap_simps [simp]: "wrap m (Inl e) = Inl (Wrapped m e)" "wrap m (Inr x) = Inr x"
  by (simp_all add: wrap_def)

lemma wrap_Inr_iff [result_simps]: "wrap m r = Inr x \<longleftrightarrow> r = Inr x"
  by (cases r) simp_all

lemma db_call_Inr_iff [result_simps]: "db_call flt k r = Inr x \<longleftrightarrow> flt k = None \<and> r = Inr x"
  by (cases "flt k") (simp_all add: db_call_def)

definition may_see :: "sbom_store \<Rightarrow> visibility_filter \<Rightarrow> uuid \<Rightarrow> bool" where
  "may_see st vis i \<longleftrightarrow> (case find_sbom st i of None \<Rightarrow> False
     | Some r \<Rightarrow> sbom_visible (ss_db st) (sb_namespace r) (vf_user_id vis) (vf_is_admin vis))"

lemma check_visible_Inr: "check_visible flt st vis k is = Inr u \<Longrightarrow> list_all (may_see st vis) is"
  by (induction flt st vis k "is" rule: check_visible.induct)
    (auto simp: result_simps IsSBOMVisible_def may_see_def split: option.splits if_splits)

lemma annotate_type [simp]: "cd_type (annotateNodeRef a b c) = cd_type c"
  by (auto simp: annotateNodeRef_def Let_def split: option.splits)

lemma assemble_tree_parts:
  assumes "assemble_tree edge_ord entry toID toPkgs deps metaBomRef = Some t"
  shows "dt_changes t = annotateNodeRefs (ce_changes entry) (fst (buildNodeLookups toPkgs))
      (fst (snd (buildNodeLookups toPkgs)))"
    and "\<exists>ds ch cm. buildNodes toPkgs toID ds ch cm = Some (dt_nodes t)"
  using assms by (auto simp: assemble_tree_def Let_def case_prod_beta) blast

lemma tree_refs:
  assumes "map_orders_ok mo" and "\<forall>p\<in>set (ListSBOMPackages st toID). pk_name p \<noteq> []"
    and "DiffSBOMsWithTree lib mo flt st fromID toID vis = Inr (Some t)"
    and "c \<in> set (dt_changes t)" and "cd_type c \<noteq> dirRemoved"
  shows "\<exists>n\<in>set (dt_nodes t). cd_node_ref c = Some (cs_id n)"
proof -
  let ?to = "ListSBOMPackages st toID"
  from assms(3) obtain from_ref to_ref deps meta old where
    tree: "assemble_tree (mo_edges mo)
      (diffComponents lib (mo_candidates mo) from_ref to_ref old (mo_components mo (buildPackageMap ?to)))
      toID ?to deps meta = Some t"
    by (auto simp: DiffSBOMsWithTree_def Let_def result_simps)
  let ?new = "mo_components mo (buildPackageMap ?to)"
  let ?e = "diffComponents lib (mo_candidates mo) from_ref to_ref old ?new"
  have ord: "iteration_order (mo_candidates mo)" "set ?new = set (buildPackageMap ?to)"
    using assms(1) iteration_order_set by (auto simp: map_orders_ok_def)
  obtain a b m where lk: "buildNodeLookups ?to = (a, b, m)" by (metis prod_cases3)
  have changes: "dt_changes t = annotateNodeRefs (ce_changes ?e) a b"
    and nodes: "\<exists>ds ch cm. buildNodes ?to toID ds ch cm = Some (dt_nodes t)"
    using assemble_tree_parts [OF tree] by (simp_all add: lk)
  from assms(4) obtain c0 where "c0 \<in> set (ce_changes ?e)" "c = annotateNodeRef a b c0"
    unfolding changes annotateNodeRefs_def set_map by (rule imageE)
  then have c0: "c0 \<in> set (ce_changes ?e)" "c = annotateNodeRef a b c0" "cd_type c0 \<noteq> dirRemoved"
    using assms(5) by simp_all
  from c0(1) obtain c1 where c1: "c1 \<in> set (reconcileVersionedPackages (mo_candidates mo)
      (first_pass old ?new) (newNormCount ?new))" "c0 = with_direction lib c1"
    using diffComponents_unfold(2) [of lib "mo_candidates mo" from_ref to_ref old ?new]
    by (metis (no_types, lifting) imageE list.set_map set_mset_mset)
  have "describes ?to c1"
  proof (rule reconcile_describes [OF ord(1) _ c1(1)])
    show "describes ?to d" if "d \<in> set (first_pass old ?new)" "cd_type d \<noteq> dirRemoved" for d
      using first_pass_describes [OF _ assms(2) that] buildPackageMap_entries ord(2) by blast
    show "cd_type c1 \<noteq> dirRemoved" using c0(3) c1(2) by simp
  qed
  then have "describes ?to c0" using c1(2) by (simp add: describes_def with_direction_def)
  moreover have "lookups_ok ((\<lambda>p. uuid_str (pk_id p)) ` set ?to) (set ?to) (a, b, m)"
    using buildNodeLookups_ok [of ?to] lk by simp
  ultimately have "\<exists>i\<in>(\<lambda>p. uuid_str (pk_id p)) ` set ?to. cd_node_ref c = Some i"
    unfolding c0(2) by (intro annotate_describes)
  then obtain i where i: "i \<in> (\<lambda>p. uuid_str (pk_id p)) ` set ?to" "cd_node_ref c = Some i" by blast
  moreover from nodes have "cs_id ` set (dt_nodes t) = (\<lambda>p. uuid_str (pk_id p)) ` set ?to"
    using buildNodes_ids by blast
  ultimately have "i \<in> cs_id ` set (dt_nodes t)" by simp
  with i(2) show ?thesis by auto
qed

lemma diffs_visible:
  "DiffSBOMs lib mo flt st fromID toID vis = Inr e \<Longrightarrow> may_see st vis fromID \<and> may_see st vis toID"
  "DiffSBOMsWithTree lib mo flt st fromID toID vis = Inr t \<Longrightarrow>
     may_see st vis fromID \<and> may_see st vis toID \<and> t \<noteq> None"
  using check_visible_Inr [of flt st vis 0 "[fromID, toID]"]
  by (auto simp: DiffSBOMs_def DiffSBOMsWithTree_def Let_def result_simps
      simp del: check_visible.simps)

text \<open>A diff is returned only to a viewer who may see both SBOMs: whatever fails on the way, a
  successful answer of either endpoint implies that both exist and that the visibility rule admits the
  viewer to each; and the tree endpoint never runs out of fuel.\<close>

theorem diff_requires_visibility:
  "(\<forall>e. DiffSBOMs lib mo flt st fromID toID vis = Inr e \<longrightarrow> may_see st vis fromID \<and> may_see st vis toID) \<and>
   (\<forall>t. DiffSBOMsWithTree lib mo flt st fromID toID vis = Inr t \<longrightarrow>
      may_see st vis fromID \<and> may_see st vis toID \<and> t \<noteq> None)"
  using diffs_visible by blast

definition demo_orders :: map_orders where
  "demo_orders = \<lparr>mo_components = rev, mo_candidates = rev, mo_edges = rev\<rparr>"

definition demo_sbom :: "uuid \<Rightarrow> uuid option \<Rightarrow> sbom_row" where
  "demo_sbom i ns = \<lparr>sb_id = i, sb_namespace = ns, sb_subject_version = None, sb_created_at = 0,
     sb_architecture = None, sb_build_date = None, sb_meta_ref = None\<rparr>"

definition demo_package :: package_row where
  "demo_package = \<lparr>pk_id = 7, pk_bom_ref = None, pk_type = ''library'', pk_name = ''x'', pk_group = None,
     pk_version = None, pk_purl = None\<rparr>"

text \<open>A private namespace 1 without members holds SBOM 2; SBOMs 3 and 4 are in namespace 5, which is
  public, and 4 has one package; there is no SBOM 6.\<close>

definition demo_store :: sbom_store where
  "demo_store =
     \<lparr>ss_db = \<lparr>namespaces = [\<lparr>ns_id = 1, ns_name = ''a'', ns_visibility = ''private'', ns_created = 0,
          ns_updated = 0\<rparr>, \<lparr>ns_id = 5, ns_name = ''b'', ns_visibility = ''public'', ns_created = 0,
          ns_updated = 0\<rparr>], members = [], users = []\<rparr>,
      ss_sboms = [demo_sbom 2 (Some 1), demo_sbom 3 (Some 5), demo_sbom 4 (Some 5)],
      ss_components = [(4, demo_package)], ss_dependencies = []\<rparr>"

lemmas demo_store_simps = demo_store_def demo_sbom_def IsSBOMVisible_def find_sbom_def sbom_visible_def
  db_call_def GetSBOM_row_def zero_filter_def is_member_def

theorem diff_requires_visibility_witness:
  "may_see demo_store zero_filter 3 \<and> may_see demo_store zero_filter 4"
proof -
  have "\<exists>e. DiffSBOMs demo_semver demo_orders (\<lambda>_. None) demo_store 3 4 zero_filter = Inr e"
    by (simp add: DiffSBOMs_def demo_store_simps)
  then show ?thesis using diff_requires_visibility by blast
qed

text \<open>Every change on the new side of a diff tree points at a node of that tree: if the packages
  have names, each added, upgraded, downgraded or modified change carries the identifier of one of the
  returned nodes, whatever the iteration order of the maps.\<close>

theorem diff_tree_references:
  assumes "map_orders_ok mo" and "\<forall>p\<in>set (ListSBOMPackages st toID). pk_name p \<noteq> []"
    and "DiffSBOMsWithTree lib mo flt st fromID toID vis = Inr (Some t)"
    and "c \<in> set (dt_changes t)" and "cd_type c \<noteq> dirRemoved"
  shows "\<exists>n\<in>set (dt_nodes t). cd_node_ref c = Some (cs_id n)"
  using assms by (rule tree_refs)

lemma tree_changes:
  assumes "DiffSBOMsWithTree lib mo flt st fromID toID vis = Inr (Some t)"
  shows "\<exists>fr tr a b. dt_changes t =
    annotateNodeRefs (ce_changes (diffComponents lib (mo_candidates mo) fr tr
      (mo_components mo (buildPackageMap (ListSBOMPackages st fromID)))
      (mo_components mo (buildPackageMap (ListSBOMPackages st toID))))) a b"
proof -
  from assms obtain from_ref to_ref deps meta where
    tree: "assemble_tree (mo_edges mo) (diffComponents lib (mo_candidates mo) from_ref to_ref
      (mo_components mo (buildPackageMap (ListSBOMPackages st fromID)))
      (mo_components mo (buildPackageMap (ListSBOMPackages st toID))))
      toID (ListSBOMPackages st toID) deps meta = Some t"
    by (auto simp: DiffSBOMsWithTree_def Let_def result_simps)
  show ?thesis using assemble_tree_parts(1) [OF tree] by blast
qed

lemma demo_added:
  "\<exists>c. ce_changes (diffComponents demo_semver rev fr tr (rev (buildPackageMap []))
      (rev (buildPackageMap [demo_package]))) = [c] \<and> cd_type c = dirAdded"
  by (simp add: buildPackageMap_def diffComponents_def demo_package_def row_identity_def
      diff_simps Let_def map_filter_simps)

theorem diff_tree_references_witness:
  "\<exists>t c n. DiffSBOMsWithTree demo_semver demo_orders (\<lambda>_. None) demo_store 3 4 zero_filter = Inr (Some t) \<and>
     c \<in> set (dt_changes t) \<and> n \<in> set (dt_nodes t) \<and> cd_node_ref c = Some (cs_id n)"
proof -
  have ok: "map_orders_ok demo_orders" by (simp add: map_orders_ok_def demo_orders_def iteration_order_def)
  have pk: "ListSBOMPackages demo_store 4 = [demo_package]" "ListSBOMPackages demo_store 3 = []"
    by (simp_all add: ListSBOMPackages_def demo_store_def demo_package_def)
  have "\<exists>r. DiffSBOMsWithTree demo_semver demo_orders (\<lambda>_. None) demo_store 3 4 zero_filter = Inr r"
    by (simp add: DiffSBOMsWithTree_def demo_store_simps Let_def)
  then obtain t where
    t: "DiffSBOMsWithTree demo_semver demo_orders (\<lambda>_. None) demo_store 3 4 zero_filter = Inr (Some t)"
    using diffs_visible(2) by fastforce
  obtain fr tr a b where ch: "dt_changes t = annotateNodeRefs (ce_changes (diffComponents demo_semver rev
      fr tr (rev (buildPackageMap [])) (rev (buildPackageMap [demo_package])))) a b"
    using tree_changes [OF t] by (auto simp: pk demo_orders_def)
  obtain c0 where "dt_changes t = [annotateNodeRef a b c0]" "cd_type c0 = dirAdded"
    using demo_added [of fr tr] by (auto simp: ch annotateNodeRefs_def)
  then obtain c where "c \<in> set (dt_changes t)" "cd_type c \<noteq> dirRemoved" by auto
  moreover have "\<forall>p\<in>set (ListSBOMPackages demo_store 4). pk_name p \<noteq> []"
    by (simp add: pk demo_package_def)
  ultimately show ?thesis using diff_tree_references [OF ok _ t, of c] t by blast
qed

text \<open>The diff endpoints tell a hidden SBOM from one that does not exist. With a working database,
  a request that starts at an SBOM the viewer may not see is answered 404 if the SBOM exists and 500 if it
  does not: the visibility query finds no row, and that error is not turned into \<open>ErrNotFound\<close> as it is
  in the service's other reads.\<close>

theorem diff_missing_sbom_is_500:
  assumes "\<not> may_see st vis fromID"
  shows "\<exists>e. DiffSBOMs lib mo (\<lambda>_. None) st fromID toID vis = Inl e \<and>
    DiffSBOMsWithTree lib mo (\<lambda>_. None) st fromID toID vis = Inl e \<and>
    fst (mapServiceError e) = (if find_sbom st fromID = None then 500 else 404)"
  using assms
  by (cases "find_sbom st fromID")
    (auto simp: may_see_def DiffSBOMs_def DiffSBOMsWithTree_def IsSBOMVisible_def db_call_def
      mapServiceError_def errors_is_def)

theorem diff_missing_sbom_is_500_witness:
  "(\<exists>e. DiffSBOMs demo_semver demo_orders (\<lambda>_. None) demo_store 2 4 zero_filter = Inl e \<and>
      fst (mapServiceError e) = 404) \<and>
   (\<exists>e. DiffSBOMs demo_semver demo_orders (\<lambda>_. None) demo_store 6 4 zero_filter = Inl e \<and>
      fst (mapServiceError e) = 500)"
  using diff_missing_sbom_is_500 [of demo_store zero_filter 2 demo_semver demo_orders 4]
    diff_missing_sbom_is_500 [of demo_store zero_filter 6 demo_semver demo_orders 4]
  by (simp add: may_see_def demo_store_simps) blast

end
