(* ===== verification/Changelog.thy ===== *)
theory Changelog
  imports DiffTree
begin

text \<open>
  An artifact's changelog: \<^verbatim>\<open>GetArtifactChangelog\<close> of \<^verbatim>\<open>internal/service/changelog.go\<close> and the choice of
  the SBOMs it is built from, \<^verbatim>\<open>internal/service/changelog_candidates.go\<close>. Times are numbers (the code
  compares them and does no arithmetic on them). The sets the code ranges over are lists in their
  iteration order; decoding an enrichment's JSON is the argument \<open>decode\<close>, \<open>None\<close> when it is malformed.
\<close>

section \<open>Rows\<close>

record candidate_row =
  cr_id :: uuid
  cr_subject_version :: "string option"
  cr_created_at :: int
  cr_flavor :: "string option"

record enrichment_row =
  er_sbom :: uuid
  er_enricher :: string
  er_status :: string
  er_data :: string

record enrichment_meta =
  em_build_date :: "int option"
  em_architecture :: string

type_synonym group_key = "string \<times> string \<times> string"

record changelog_candidate =
  cc_sbom :: candidate_row
  cc_build_date :: "int option"
  cc_arch :: string
  cc_flavor :: string

record changelog_query =
  cq_subject_version :: string
  cq_arch :: string
  cq_flavor :: string
  cq_mode :: string
  cq_limit :: int
  cq_offset :: int

record changelog =
  ch_artifact :: string
  ch_architectures :: "string list"
  ch_flavors :: "string list"
  ch_has_semver :: bool
  ch_mode :: string
  ch_entries :: "changelog_entry list"
  ch_total :: int
  ch_limit :: int
  ch_offset :: int

definition defaultChangelogLimit :: int where "defaultChangelogLimit = 20"
definition maxChangelogLimit :: int where "maxChangelogLimit = 100"

definition clamp :: "changelog_query \<Rightarrow> int \<times> int" where
  "clamp p =
     (let limit = cq_limit p;
          limit = (if limit \<le> 0 then defaultChangelogLimit else limit);
          limit = (if limit > maxChangelogLimit then maxChangelogLimit else limit);
          offset = cq_offset p;
          offset = (if offset < 0 then 0 else offset)
      in (limit, offset))"

section \<open>Choosing candidates\<close>

definition laterThan :: "int option \<Rightarrow> int \<Rightarrow> int option \<Rightarrow> int \<Rightarrow> bool" where
  "laterThan bd1 t1 bd2 t2 =
     (let eff1 = (case bd1 of Some b \<Rightarrow> b | None \<Rightarrow> t1);
          eff2 = (case bd2 of Some b \<Rightarrow> b | None \<Rightarrow> t2)
      in if eff1 \<noteq> eff2 then eff1 > eff2 else t1 > t2)"

definition no_meta :: enrichment_meta where
  "no_meta = \<lparr>em_build_date = None, em_architecture = []\<rparr>"

definition meta_of :: "(uuid \<times> enrichment_meta) list \<Rightarrow> uuid \<Rightarrow> enrichment_meta" where
  "meta_of meta i = (case map_of meta i of Some m \<Rightarrow> m | None \<Rightarrow> no_meta)"

definition group_key_of :: "(uuid \<times> enrichment_meta) list \<Rightarrow> candidate_row \<Rightarrow> group_key" where
  "group_key_of meta sbom =
     (let sv = (case cr_subject_version sbom of Some v \<Rightarrow> v | None \<Rightarrow> []);
          sv = (if cr_subject_version sbom = None \<or> sv = [] then uuid_str (cr_id sbom) else sv);
          flavorStr = (case cr_flavor sbom of Some f \<Rightarrow> f | None \<Rightarrow> [])
      in (sv, em_architecture (meta_of meta (cr_id sbom)), flavorStr))"

definition candidate_of ::
  "(uuid \<times> enrichment_meta) list \<Rightarrow> candidate_row \<Rightarrow> changelog_candidate" where
  "candidate_of meta sbom =
     \<lparr>cc_sbom = sbom, cc_build_date = em_build_date (meta_of meta (cr_id sbom)),
      cc_arch = em_architecture (meta_of meta (cr_id sbom)),
      cc_flavor = (case cr_flavor sbom of Some f \<Rightarrow> f | None \<Rightarrow> [])\<rparr>"

definition dedup_step ::
  "(uuid \<times> enrichment_meta) list \<Rightarrow> candidate_row \<Rightarrow>
   (group_key \<times> changelog_candidate) list \<times> string list \<times> string list \<Rightarrow>
   (group_key \<times> changelog_candidate) list \<times> string list \<times> string list" where
  "dedup_step meta sbom acc = (case acc of (best, available, availableFlavors) \<Rightarrow>
     let m = meta_of meta (cr_id sbom);
         key = group_key_of meta sbom;
         best1 = (case map_of best key of
                    None \<Rightarrow> AList.update key (candidate_of meta sbom) best
                  | Some prev \<Rightarrow>
                      if laterThan (em_build_date m) (cr_created_at sbom) (cc_build_date prev)
                           (cr_created_at (cc_sbom prev))
                      then AList.update key (candidate_of meta sbom) best else best)
     in (best1, List.insert (em_architecture m) available,
         List.insert (case cr_flavor sbom of Some f \<Rightarrow> f | None \<Rightarrow> []) availableFlavors))"

definition deduplicateSBOMs ::
  "candidate_row list \<Rightarrow> (uuid \<times> enrichment_meta) list \<Rightarrow>
   (group_key \<times> changelog_candidate) list \<times> string list \<times> string list" where
  "deduplicateSBOMs sboms meta = fold (dedup_step meta) sboms ([], [], [])"

definition filterByArchAndFlavor ::
  "(group_key \<times> changelog_candidate) list \<Rightarrow> string \<Rightarrow> string \<Rightarrow> changelog_candidate list" where
  "filterByArchAndFlavor best arch flavor =
     map snd (filter (\<lambda>((v, a, f), c). a = arch \<and> f = flavor) best)"

definition groupsSemverShare ::
  "'v semver_lib \<Rightarrow> (group_key \<times> changelog_candidate) list \<Rightarrow> nat \<times> nat" where
  "groupsSemverShare lib best =
     (let seen = remdups (map (\<lambda>((v, a, f), c). v) best)
      in (length (filter (isSemver lib) seen), length seen))"

definition filterSemverCandidates ::
  "'v semver_lib \<Rightarrow> changelog_candidate list \<Rightarrow> changelog_candidate list" where
  "filterSemverCandidates lib cs =
     filter (\<lambda>c. case cr_subject_version (cc_sbom c) of Some v \<Rightarrow> isSemver lib v | None \<Rightarrow> False) cs"

definition candidateEffectiveTime :: "changelog_candidate \<Rightarrow> int" where
  "candidateEffectiveTime c =
     (case cc_build_date c of Some b \<Rightarrow> b | None \<Rightarrow> cr_created_at (cc_sbom c))"

definition candidateLess ::
  "'v semver_lib \<Rightarrow> string \<Rightarrow> changelog_candidate \<Rightarrow> changelog_candidate \<Rightarrow> bool" where
  "candidateLess lib mode ci cj =
     (let by_time = (let ei = candidateEffectiveTime ci; ej = candidateEffectiveTime cj
                     in if ei \<noteq> ej then ei < ej
                        else cr_created_at (cc_sbom ci) < cr_created_at (cc_sbom cj))
      in if mode = SortSemver then
           (case (cr_subject_version (cc_sbom ci), cr_subject_version (cc_sbom cj)) of
              (Some vi, Some vj) \<Rightarrow>
                if vi \<noteq> [] \<and> vj \<noteq> [] \<and> compareSemver lib vi vj \<noteq> 0
                then compareSemver lib vi vj < 0 else by_time
            | _ \<Rightarrow> by_time)
         else by_time)"

text \<open>\<open>sort.Slice\<close> with a strict order. The sort is not stable: \<open>ties\<close> is the order in which it meets equal
  candidates, any permutation.\<close>

definition less_cmp :: "('a \<Rightarrow> 'a \<Rightarrow> bool) \<Rightarrow> 'a \<Rightarrow> 'a \<Rightarrow> int" where
  "less_cmp lt a b = (if lt a b then -1 else if lt b a then 1 else 0)"

definition sortCandidates ::
  "'v semver_lib \<Rightarrow> (changelog_candidate list \<Rightarrow> changelog_candidate list) \<Rightarrow> changelog_candidate list \<Rightarrow> string \<Rightarrow>
   changelog_candidate list" where
  "sortCandidates lib ties cs mode = sort_by (less_cmp (candidateLess lib mode)) (ties cs)"

definition preferred_archs :: "string list" where
  "preferred_archs = [''amd64'', ''arm64'', ''arm'', ''386'', ''s390x'']"

definition selectArch :: "string \<Rightarrow> string list \<Rightarrow> string" where
  "selectArch requested available =
     (if requested \<noteq> [] \<and> List.member available requested then requested
      else case find (List.member available) preferred_archs of
             Some p \<Rightarrow> p
           | None \<Rightarrow> (case available of a # _ \<Rightarrow> a | [] \<Rightarrow> []))"

definition flavorUnknown :: string where "flavorUnknown = ''unknown''"

definition selectFlavor :: "string \<Rightarrow> string list \<Rightarrow> string" where
  "selectFlavor requested available =
     (if requested \<noteq> [] \<and> List.member available requested then requested
      else let keys = sort_by str_cmp (filter (\<lambda>f. f \<noteq> flavorUnknown) available)
           in case keys of
                k # _ \<Rightarrow> k
              | [] \<Rightarrow> if List.member available flavorUnknown then flavorUnknown else [])"

definition OCIMetadata :: string where "OCIMetadata = ''oci-metadata''"
definition UserEnricher :: string where "UserEnricher = ''user''"

definition note_enrichment ::
  "(string \<Rightarrow> (int option \<times> string) option) \<Rightarrow> enrichment_row \<Rightarrow>
   (uuid \<times> enrichment_meta) list \<times> (uuid \<times> enrichment_meta) list \<Rightarrow>
   (uuid \<times> enrichment_meta) list \<times> (uuid \<times> enrichment_meta) list" where
  "note_enrichment decode row acc = (case acc of (user, oci) \<Rightarrow>
     if er_data row = [] then acc
     else case decode (er_data row) of
            None \<Rightarrow> acc
          | Some (created, arch) \<Rightarrow>
              let entry = \<lparr>em_build_date = created, em_architecture = arch\<rparr>
              in if er_enricher row = OCIMetadata then (user, AList.update (er_sbom row) entry oci)
                 else if er_enricher row = UserEnricher then (AList.update (er_sbom row) entry user, oci)
                 else acc)"

text \<open>A failure to read the enrichments leaves the map empty.\<close>

definition buildEnrichmentMetaMap ::
  "(string \<Rightarrow> (int option \<times> string) option) \<Rightarrow> enrichment_row list result \<Rightarrow>
   (uuid \<times> enrichment_meta) list" where
  "buildEnrichmentMetaMap decode answer =
     (case answer of
        Inl e \<Rightarrow> []
      | Inr rows \<Rightarrow>
          (case fold (note_enrichment decode) rows ([], []) of
             (user, oci) \<Rightarrow>
               fold (\<lambda>(i, e). AList.update i e) oci (fold (\<lambda>(i, e). AList.update i e) user [])))"

definition nonEmptyStrPtr :: "string \<Rightarrow> string option" where
  "nonEmptyStrPtr s = (if s = [] then None else Some s)"

definition sbomToRef :: "candidate_row \<Rightarrow> sbom_ref" where
  "sbomToRef row = \<lparr>sr_id = uuid_str (cr_id row), sr_subject_version = cr_subject_version row,
     sr_architecture = None, sr_flavor = None, sr_created_at = cr_created_at row, sr_build_date = None\<rparr>"

section \<open>The tables\<close>

record artifact_sbom =
  as_id :: uuid
  as_artifact :: "uuid option"
  as_namespace :: "uuid option"
  as_subject_version :: "string option"
  as_created_at :: int
  as_flavor :: "string option"

record changelog_store =
  cl_db :: db
  cl_sboms :: "artifact_sbom list"
  cl_artifact_namespaces :: "(uuid \<times> uuid) list"
  cl_enrichments :: "enrichment_row list"
  cl_components :: "(uuid \<times> package_row) list"

definition artifact_visible :: "changelog_store \<Rightarrow> uuid \<Rightarrow> uuid option \<Rightarrow> bool \<Rightarrow> bool" where
  "artifact_visible st a viewer is_admin \<longleftrightarrow>
     is_admin \<or> \<not> list_ex (\<lambda>(x, n). x = a) (cl_artifact_namespaces st) \<or>
     list_ex (\<lambda>(x, n). x = a \<and>
        list_ex (\<lambda>r. ns_id r = n \<and> (ns_visibility r = ''public'' \<or> is_member (cl_db st) n viewer))
          (namespaces (cl_db st))) (cl_artifact_namespaces st)"

definition uuid_cmp :: "uuid \<Rightarrow> uuid \<Rightarrow> int" where
  "uuid_cmp a b = int_cmp (uint a) (uint b)"

definition ListSBOMCandidatesByArtifact ::
  "changelog_store \<Rightarrow> uuid \<Rightarrow> string option \<Rightarrow> visibility_filter \<Rightarrow> nat \<Rightarrow> candidate_row list" where
  "ListSBOMCandidatesByArtifact st a sv vis limit =
     (let ids = visible_namespace_ids (cl_db st) (vf_user_id vis) (vf_is_admin vis);
          rows = filter (\<lambda>s. as_artifact s = Some a \<and> (sv = None \<or> as_subject_version s = sv) \<and>
                   (case as_namespace s of Some n \<Rightarrow> List.member ids n | None \<Rightarrow> False)) (cl_sboms st);
          sorted = sort_by (reverse_cmp (then_cmp (on_key int_cmp as_created_at) (on_key uuid_cmp as_id))) rows
      in take limit
           (map (\<lambda>s. \<lparr>cr_id = as_id s, cr_subject_version = as_subject_version s,
                      cr_created_at = as_created_at s, cr_flavor = as_flavor s\<rparr>) sorted))"

definition ListSBOMEnrichmentsByArtifact ::
  "changelog_store \<Rightarrow> uuid \<Rightarrow> enrichment_row list" where
  "ListSBOMEnrichmentsByArtifact st a =
     sort_by (on_key uuid_cmp er_sbom)
       (filter (\<lambda>e. er_status e = ''success'' \<and>
          list_ex (\<lambda>s. as_id s = er_sbom e \<and> as_artifact s = Some a) (cl_sboms st)) (cl_enrichments st))"

text \<open>\<open>packagesForSBOMs\<close>: the rows of the batched statement, grouped by SBOM. The statement orders by SBOM, name and
  group; which name comes first is the database's collation, and rows with the same name and group come in no fixed
  order, so the order in which one answer has the rows of an SBOM is the argument \<open>ord\<close>.\<close>

definition sbom_packages :: "changelog_store \<Rightarrow> uuid \<Rightarrow> package_row list" where
  "sbom_packages st i = map snd (filter (\<lambda>(s, p). s = i \<and> pk_type p \<noteq> ''file'') (cl_components st))"

definition ListSBOMPackagesBySBOMIDs ::
  "(uuid \<Rightarrow> package_row list \<Rightarrow> package_row list) \<Rightarrow> changelog_store \<Rightarrow> uuid list \<Rightarrow> (uuid \<times> package_row) list" where
  "ListSBOMPackagesBySBOMIDs ord st ids =
     concat (map (\<lambda>i. map (Pair i) (ord i (sbom_packages st i))) (sort_by uuid_cmp (remdups ids)))"

definition packagesForSBOMs ::
  "(uuid \<Rightarrow> package_row list \<Rightarrow> package_row list) \<Rightarrow> changelog_store \<Rightarrow> changelog_candidate list \<Rightarrow>
   (uuid \<times> package_row list) list" where
  "packagesForSBOMs ord st candidates =
     fold (\<lambda>(s, p). push s p) (ListSBOMPackagesBySBOMIDs ord st (map (\<lambda>c. cr_id (cc_sbom c)) candidates)) []"

section \<open>The changelog\<close>

text \<open>The iteration orders of the two maps the function ranges over, beside those of each diff, the order in which the
  sort meets equal candidates and the order of the rows of an SBOM in the database's answer.\<close>

record changelog_orders =
  co_diff :: map_orders
  co_best :: "(group_key \<times> changelog_candidate) list \<Rightarrow> (group_key \<times> changelog_candidate) list"
  co_archs :: "string list \<Rightarrow> string list"
  co_ties :: "changelog_candidate list \<Rightarrow> changelog_candidate list"
  co_rows :: "uuid \<Rightarrow> package_row list \<Rightarrow> package_row list"

definition candidate_ref :: "changelog_candidate \<Rightarrow> sbom_ref" where
  "candidate_ref c = (sbomToRef (cc_sbom c))\<lparr>sr_build_date := cc_build_date c,
     sr_architecture := nonEmptyStrPtr (cc_arch c), sr_flavor := nonEmptyStrPtr (cc_flavor c)\<rparr>"

definition package_map_of ::
  "map_orders \<Rightarrow> (uuid \<times> package_row list) list \<Rightarrow> changelog_candidate \<Rightarrow> component_map" where
  "package_map_of mo pkgs c = mo_components mo (buildPackageMap (look pkgs (cr_id (cc_sbom c))))"

definition pair_entry ::
  "'v semver_lib \<Rightarrow> map_orders \<Rightarrow> (uuid \<times> package_row list) list \<Rightarrow> changelog_candidate \<Rightarrow>
   changelog_candidate \<Rightarrow> changelog_entry" where
  "pair_entry lib mo pkgs prev cur =
     diffComponents lib (mo_candidates mo) (candidate_ref prev) (candidate_ref cur)
       (package_map_of mo pkgs prev) (package_map_of mo pkgs cur)"

fun window_entries ::
  "'v semver_lib \<Rightarrow> map_orders \<Rightarrow> (uuid \<times> package_row list) list \<Rightarrow> changelog_candidate list \<Rightarrow>
   changelog_entry list" where
  "window_entries lib mo pkgs (prev # cur # rest) =
     pair_entry lib mo pkgs prev cur # window_entries lib mo pkgs (cur # rest)"
| "window_entries lib mo pkgs _ = []"

definition timeline ::
  "'v semver_lib \<Rightarrow> changelog_orders \<Rightarrow> changelog_query \<Rightarrow> candidate_row list \<Rightarrow>
   (uuid \<times> enrichment_meta) list \<Rightarrow> changelog_candidate list" where
  "timeline lib co q sboms meta =
     (let (best, available, availableFlavors) = deduplicateSBOMs sboms meta;
          selectedArch = selectArch (cq_arch q) (co_archs co available);
          selectedFlavor = selectFlavor (cq_flavor q) availableFlavors;
          (semverCount, versionCount) = groupsSemverShare lib best;
          resolved = resolveSortMode (cq_mode q) (int semverCount) (int versionCount);
          cs = filterByArchAndFlavor (co_best co best) selectedArch selectedFlavor;
          cs = (if resolved = SortSemver then filterSemverCandidates lib cs else cs)
      in sortCandidates lib (co_ties co) cs resolved)"

definition changelog_header ::
  "'v semver_lib \<Rightarrow> changelog_query \<Rightarrow> uuid \<Rightarrow> candidate_row list \<Rightarrow> (uuid \<times> enrichment_meta) list \<Rightarrow>
   nat \<Rightarrow> changelog" where
  "changelog_header lib q artifactID sboms meta pairs =
     (let (best, available, availableFlavors) = deduplicateSBOMs sboms meta;
          (semverCount, versionCount) = groupsSemverShare lib best
      in \<lparr>ch_artifact = uuid_str artifactID, ch_architectures = sort_by str_cmp available,
          ch_flavors = sort_by str_cmp availableFlavors, ch_has_semver = semverCount > 0,
          ch_mode = resolveSortMode (cq_mode q) (int semverCount) (int versionCount),
          ch_entries = [], ch_total = int pairs, ch_limit = fst (clamp q), ch_offset = snd (clamp q)\<rparr>)"

definition GetArtifactChangelog ::
  "'v semver_lib \<Rightarrow> changelog_orders \<Rightarrow> (string \<Rightarrow> (int option \<times> string) option) \<Rightarrow> (nat \<Rightarrow> fault) \<Rightarrow>
   changelog_store \<Rightarrow> uuid \<Rightarrow> changelog_query \<Rightarrow> visibility_filter \<Rightarrow> changelog result" where
  "GetArtifactChangelog lib co decode flt st artifactID q vis =
     (let (limit, offset) = clamp q in
      bind_result (wrap ''checking artifact visibility''
         (db_call flt 0 (Inr (artifact_visible st artifactID (vf_user_id vis) (vf_is_admin vis))))) (\<lambda>visible.
      if \<not> visible then Inl ErrNotFound else
      bind_result (wrap ''listing sboms''
         (db_call flt 1 (Inr (ListSBOMCandidatesByArtifact st artifactID
            (nonEmptyStrPtr (cq_subject_version q)) vis 10000)))) (\<lambda>sboms.
      let meta = buildEnrichmentMetaMap decode
                   (db_call flt 2 (Inr (ListSBOMEnrichmentsByArtifact st artifactID)));
          candidates = timeline lib co q sboms meta;
          pairs = length candidates - 1;
          log = changelog_header lib q artifactID sboms meta pairs;
          start = nat offset
      in if start \<ge> pairs then Inr log
         else let end1 = start + nat limit;
                  end1 = (if end1 > pairs then pairs else end1);
                  n = length candidates;
                  window = drop (n - end1 - 1) (take (n - start) candidates)
              in bind_result (wrap ''listing components for sboms''
                    (db_call flt 3 (Inr (packagesForSBOMs (co_rows co) st window)))) (\<lambda>pkgs.
                 Inr (log\<lparr>ch_entries := rev (window_entries lib (co_diff co) pkgs window)\<rparr>)))))"


section \<open>Pages: lemmas\<close>

fun pairwise :: "('a \<Rightarrow> 'a \<Rightarrow> 'b) \<Rightarrow> 'a list \<Rightarrow> 'b list" where
  "pairwise f (x # y # r) = f x y # pairwise f (y # r)"
| "pairwise f _ = []"

lemma window_entries_pairwise: "window_entries lib mo pkgs cs = pairwise (pair_entry lib mo pkgs) cs"
  by (induction lib mo pkgs cs rule: window_entries.induct) simp_all

lemma length_pairwise [simp]: "length (pairwise f xs) = length xs - 1"
  by (induction f xs rule: pairwise.induct) simp_all

lemma nth_pairwise: "Suc i < length xs \<Longrightarrow> pairwise f xs ! i = f (xs ! i) (xs ! Suc i)"
proof (induction f xs arbitrary: i rule: pairwise.induct)
  case (1 f x y r)
  then show ?case by (cases i) simp_all
qed simp_all

lemma pairwise_cong:
  "(\<And>x y. x \<in> set xs \<Longrightarrow> y \<in> set xs \<Longrightarrow> f x y = g x y) \<Longrightarrow> pairwise f xs = pairwise g xs"
  by (induction f xs rule: pairwise.induct) simp_all

text \<open>The window of the page, diffed and reversed, is the page of the whole list, diffed and reversed.\<close>

lemma window_page:
  assumes "s < e" and "e \<le> length xs - 1"
  shows "rev (pairwise f (drop (length xs - e - 1) (take (length xs - s) xs))) =
    take (e - s) (drop s (rev (pairwise f xs)))"
proof (rule nth_equalityI)
  let ?w = "drop (length xs - e - 1) (take (length xs - s) xs)"
  have len: "length ?w = e - s + 1" using assms by simp
  show "length (rev (pairwise f ?w)) = length (take (e - s) (drop s (rev (pairwise f xs))))"
    using assms by simp
  fix i
  assume "i < length (rev (pairwise f ?w))"
  then have i: "i < e - s" using len by simp
  then obtain j where "e - s = Suc (i + j)" using less_imp_Suc_add by blast
  then have j: "e = s + Suc (i + j)" using assms(1) by simp
  obtain r where "length xs - 1 = e + r" using assms(2) le_Suc_ex by blast
  then have r: "length xs = Suc (s + Suc (i + j) + r)" using j assms(1) by simp
  have "rev (pairwise f ?w) ! i = pairwise f ?w ! j"
    using i len j by (simp add: rev_nth)
  also have "\<dots> = f (?w ! j) (?w ! Suc j)"
    using len j by (intro nth_pairwise) simp
  also have "\<dots> = f (xs ! (r + j)) (xs ! Suc (r + j))"
    using j r by simp
  also have "\<dots> = pairwise f xs ! (r + j)"
    using r by (intro nth_pairwise [symmetric]) simp
  also have "\<dots> = take (e - s) (drop s (rev (pairwise f xs))) ! i"
    using j r by (simp add: rev_nth add.commute)
  finally show "rev (pairwise f ?w) ! i = take (e - s) (drop s (rev (pairwise f xs))) ! i" .
qed

lemma look_fold_push:
  "look (fold (\<lambda>(s, p). push s p) rows m) i = look m i @ map snd (filter (\<lambda>(s, p). s = i) rows)"
  by (induction rows arbitrary: m) auto

lemma answer_rows:
  "distinct is \<Longrightarrow> map snd (filter (\<lambda>(s, p). s = i) (concat (map (\<lambda>i. map (Pair i) (f i)) is))) = (if i \<in> set is then f i else [])"
proof (induction "is")
  case (Cons a js)
  then show ?case by (cases "a = i") (simp_all add: filter_map o_def)
qed simp

lemma look_packages:
  assumes "c \<in> set cs"
  shows "look (packagesForSBOMs ord st cs) (cr_id (cc_sbom c)) = ord (cr_id (cc_sbom c)) (sbom_packages st (cr_id (cc_sbom c)))"
proof -
  have "distinct (sort_by uuid_cmp (remdups (map (\<lambda>c. cr_id (cc_sbom c)) cs)))"
    by (metis distinct_remdups mset_sort_by mset_eq_imp_distinct_iff)
  then show ?thesis
    using assms by (simp add: packagesForSBOMs_def ListSBOMPackagesBySBOMIDs_def look_fold_push look_def [of "[]"] answer_rows)
qed

text \<open>The changelog without paging: every pair of consecutive candidates diffed, newest first.\<close>

definition full_entry ::
  "'v semver_lib \<Rightarrow> changelog_orders \<Rightarrow> changelog_store \<Rightarrow> changelog_candidate \<Rightarrow> changelog_candidate \<Rightarrow>
   changelog_entry" where
  "full_entry lib co st prev cur =
     (let packages = (\<lambda>c. mo_components (co_diff co) (buildPackageMap
                        (co_rows co (cr_id (cc_sbom c)) (sbom_packages st (cr_id (cc_sbom c))))))
      in diffComponents lib (mo_candidates (co_diff co)) (candidate_ref prev) (candidate_ref cur) (packages prev) (packages cur))"

definition full_changelog ::
  "'v semver_lib \<Rightarrow> changelog_orders \<Rightarrow> changelog_store \<Rightarrow> changelog_candidate list \<Rightarrow> changelog_entry list" where
  "full_changelog lib co st cs = rev (pairwise (full_entry lib co st) cs)"

lemma window_full:
  "window_entries lib (co_diff co) (packagesForSBOMs (co_rows co) st cs) cs = pairwise (full_entry lib co st) cs"
  unfolding window_entries_pairwise
  by (rule pairwise_cong) (simp add: pair_entry_def full_entry_def package_map_of_def look_packages Let_def)

lemma header_simps [simp]:
  "ch_entries (changelog_header lib q a sboms meta p) = []"
  "ch_total (changelog_header lib q a sboms meta p) = int p"
  by (simp_all add: changelog_header_def case_prod_beta Let_def)

text \<open>The timeline a request selects, with the enrichments it managed to read.\<close>

definition request_timeline ::
  "'v semver_lib \<Rightarrow> changelog_orders \<Rightarrow> (string \<Rightarrow> (int option \<times> string) option) \<Rightarrow> (nat \<Rightarrow> fault) \<Rightarrow>
   changelog_store \<Rightarrow> uuid \<Rightarrow> changelog_query \<Rightarrow> visibility_filter \<Rightarrow> changelog_candidate list" where
  "request_timeline lib co decode flt st artifactID q vis =
     timeline lib co q
       (ListSBOMCandidatesByArtifact st artifactID (nonEmptyStrPtr (cq_subject_version q)) vis 10000)
       (buildEnrichmentMetaMap decode (db_call flt 2 (Inr (ListSBOMEnrichmentsByArtifact st artifactID))))"

lemma changelog_pages:
  assumes "GetArtifactChangelog lib co decode flt st artifactID q vis = Inr log"
  shows "ch_entries log = take (nat (fst (clamp q))) (drop (nat (snd (clamp q)))
      (full_changelog lib co st
        (request_timeline lib co decode flt st artifactID q vis))) \<and>
    ch_total log = int (length (full_changelog lib co st
      (request_timeline lib co decode flt st artifactID q vis)))"
proof -
  let ?sboms = "ListSBOMCandidatesByArtifact st artifactID (nonEmptyStrPtr (cq_subject_version q)) vis 10000"
  define meta where "meta = buildEnrichmentMetaMap decode
    (db_call flt 2 (Inr (ListSBOMEnrichmentsByArtifact st artifactID)))"
  let ?cs = "timeline lib co q ?sboms meta"
  let ?n = "length ?cs" and ?start = "nat (snd (clamp q))" and ?lim = "nat (fst (clamp q))"
  let ?full = "full_changelog lib co st ?cs"
  have len: "length ?full = ?n - 1" by (simp add: full_changelog_def)
  have "ch_entries log = take ?lim (drop ?start ?full) \<and> ch_total log = int (length ?full)"
  proof (cases "?start \<ge> ?n - 1")
    case True
    with assms have "log = changelog_header lib q artifactID ?sboms meta (?n - 1)"
      by (auto simp: GetArtifactChangelog_def case_prod_beta Let_def meta_def result_simps
          split: if_splits)
    with True len show ?thesis by simp
  next
    case False
    define e where "e = (if ?start + ?lim > ?n - 1 then ?n - 1 else ?start + ?lim)"
    let ?w = "drop (?n - e - 1) (take (?n - ?start) ?cs)"
    have lim: "0 < ?lim" by (simp add: clamp_def Let_def defaultChangelogLimit_def maxChangelogLimit_def)
    with False have e: "?start < e" "e \<le> ?n - 1" by (auto simp: e_def)
    from assms False have log: "ch_entries log =
        rev (window_entries lib (co_diff co) (packagesForSBOMs (co_rows co) st ?w) ?w)" "ch_total log = int (?n - 1)"
      by (auto simp: GetArtifactChangelog_def case_prod_beta Let_def meta_def [symmetric] e_def
          result_simps split: if_splits)
    have "ch_entries log = take (e - ?start) (drop ?start ?full)"
      using window_page [OF e] log(1) by (simp add: window_full full_changelog_def)
    also have "\<dots> = take ?lim (drop ?start ?full)"
      using len False by (simp add: e_def)
    finally show ?thesis using log(2) len by simp
  qed
  then show ?thesis by (simp add: request_timeline_def meta_def)
qed


text \<open>C31: Paging loses nothing and loads only what it shows. The page returned for any limit and offset
  is exactly that slice of the changelog obtained by diffing every pair of consecutive candidates and
  reversing the list, although only the packages of the window are read; and the total is the length of
  that full list.\<close>

theorem changelog_page_exact:
  assumes "GetArtifactChangelog lib co decode flt st artifactID q vis = Inr log"
  shows "ch_entries log = take (nat (fst (clamp q))) (drop (nat (snd (clamp q)))
      (full_changelog lib co st
        (request_timeline lib co decode flt st artifactID q vis))) \<and>
    ch_total log = int (length (full_changelog lib co st
      (request_timeline lib co decode flt st artifactID q vis)))"
  using assms by (rule changelog_pages)

section \<open>The timeline: lemmas\<close>

lemma str_cmp_sign: "(if str_less a b then -1 else if str_less b a then 1 else 0) = str_cmp a b"
  using str_cmp_range [of a b] str_cmp_swap [of b a] by (auto simp: str_less_def)

lemma compareSemver_alt:
  "compareSemver lib a b =
     (case (sv_parse lib a, sv_parse lib b) of
        (Some va, Some vb) \<Rightarrow> sv_compare lib va vb
      | (Some _, None) \<Rightarrow> 1
      | (None, Some _) \<Rightarrow> -1
      | (None, None) \<Rightarrow> str_cmp a b)"
  by (simp only: compareSemver_def str_cmp_sign)

lemma comparator_compareSemver: "semver_lib_ok lib \<Longrightarrow> comparator (compareSemver lib)"
proof
  assume "semver_lib_ok lib"
  then have c: "comparator (sv_compare lib)" by (simp add: semver_lib_ok_def)
  fix x y z
  show "compareSemver lib x x = 0"
    by (auto simp: compareSemver_alt comparator.cmp_refl [OF c] split: option.splits)
  show "compareSemver lib x y < 0 \<longleftrightarrow> 0 < compareSemver lib y x"
    using comparator.cmp_swap [OF c] str.cmp_swap [of x y]
    by (auto simp: compareSemver_alt split: option.splits)
  assume "compareSemver lib x y \<le> 0" "compareSemver lib y z \<le> 0"
  then show "compareSemver lib x z \<le> 0"
    using comparator.cmp_trans [OF c] str.cmp_trans [of x y z]
    by (auto simp: compareSemver_alt split: option.splits)
qed

definition time_cmp :: "changelog_candidate \<Rightarrow> changelog_candidate \<Rightarrow> int" where
  "time_cmp = then_cmp (on_key int_cmp candidateEffectiveTime)
     (on_key int_cmp (\<lambda>c. cr_created_at (cc_sbom c)))"

definition version_cmp ::
  "'v semver_lib \<Rightarrow> string \<Rightarrow> changelog_candidate \<Rightarrow> changelog_candidate \<Rightarrow> int" where
  "version_cmp lib mode =
     (if mode = SortSemver
      then then_cmp (on_key (compareSemver lib)
             (\<lambda>c. case cr_subject_version (cc_sbom c) of Some v \<Rightarrow> v | None \<Rightarrow> [])) time_cmp
      else time_cmp)"

lemma comparator_version_cmp: "semver_lib_ok lib \<Longrightarrow> comparator (version_cmp lib mode)"
  using comparator_compareSemver [of lib]
  by (simp add: version_cmp_def time_cmp_def comparator_then_cmp comparator_on_key comparator_int_cmp)

definition versioned :: "changelog_candidate \<Rightarrow> bool" where
  "versioned c \<longleftrightarrow> (case cr_subject_version (cc_sbom c) of Some v \<Rightarrow> v \<noteq> [] | None \<Rightarrow> False)"

lemma candidateLess_version_cmp:
  assumes "mode = SortSemver \<Longrightarrow> versioned a \<and> versioned b"
  shows "candidateLess lib mode a b \<longleftrightarrow> version_cmp lib mode a b < 0"
proof (cases "mode = SortSemver")
  case True
  with assms obtain v w where "cr_subject_version (cc_sbom a) = Some v" "v \<noteq> []"
    "cr_subject_version (cc_sbom b) = Some w" "w \<noteq> []"
    by (auto simp: versioned_def split: option.splits)
  with True show ?thesis
    by (simp add: candidateLess_def version_cmp_def time_cmp_def then_cmp_def on_key_def int_cmp_def
        Let_def)
next
  case False
  then show ?thesis
    by (simp add: candidateLess_def version_cmp_def time_cmp_def then_cmp_def on_key_def int_cmp_def
        Let_def)
qed

lemma insort_by_cong:
  "(\<And>y. y \<in> set ys \<Longrightarrow> c x y \<le> 0 \<longleftrightarrow> d x y \<le> (0::int)) \<Longrightarrow> insort_by c x ys = insort_by d x ys"
  by (induction ys) simp_all

lemma sort_by_cong:
  "(\<And>x y. x \<in> set xs \<Longrightarrow> y \<in> set xs \<Longrightarrow> c x y \<le> 0 \<longleftrightarrow> d x y \<le> (0::int)) \<Longrightarrow> sort_by c xs = sort_by d xs"
proof (induction xs)
  case (Cons x xs)
  then have "sort_by c xs = sort_by d xs" by simp
  moreover have "insort_by c x (sort_by d xs) = insort_by d x (sort_by d xs)"
    using Cons.prems by (intro insort_by_cong) simp
  ultimately show ?case by simp
qed simp

lemma sortCandidates_sorted:
  assumes ok: "semver_lib_ok lib" and v: "mode = SortSemver \<Longrightarrow> list_all versioned cs0" and ties: "iteration_order ties"
  shows "sorted_wrt (\<lambda>a b. \<not> candidateLess lib mode b a) (sortCandidates lib ties cs0 mode)"
proof -
  let ?cs = "ties cs0"
  have set: "set ?cs = set cs0" by (rule iteration_order_set [OF ties])
  note c = comparator_version_cmp [OF ok, of mode]
  have lt: "candidateLess lib mode a b \<longleftrightarrow> version_cmp lib mode a b < 0"
    if "a \<in> set ?cs" "b \<in> set ?cs" for a b
    using that v set by (intro candidateLess_version_cmp) (simp add: list_all_iff)
  have le: "less_cmp (candidateLess lib mode) a b \<le> 0 \<longleftrightarrow> version_cmp lib mode a b \<le> 0"
    if "a \<in> set ?cs" "b \<in> set ?cs" for a b
    using lt [OF that] lt [OF that(2,1)] comparator.cmp_le_iff [OF c, of a b]
      comparator.cmp_swap [OF c, of a b]
    by (auto simp: less_cmp_def)
  have "sortCandidates lib ties cs0 mode = sort_by (version_cmp lib mode) ?cs"
    unfolding sortCandidates_def by (rule sort_by_cong) (rule le)
  moreover have "sorted_wrt (\<lambda>a b. version_cmp lib mode a b \<le> 0) (sort_by (version_cmp lib mode) ?cs)"
    using comparator.sorted_sort_by [OF c, of ?cs] by (simp add: sorted_by_def)
  then have "sorted_wrt (\<lambda>a b. \<not> candidateLess lib mode b a) (sort_by (version_cmp lib mode) ?cs)"
  proof (rule sorted_wrt_mono_rel [rotated])
    fix a b
    assume "a \<in> set (sort_by (version_cmp lib mode) ?cs)" "b \<in> set (sort_by (version_cmp lib mode) ?cs)"
      "version_cmp lib mode a b \<le> 0"
    then show "\<not> candidateLess lib mode b a"
      using lt [of b a] comparator.cmp_le_iff [OF c, of a b] by simp
  qed
  ultimately show ?thesis by simp
qed

section \<open>Deduplication: lemmas\<close>

definition row_later :: "(uuid \<times> enrichment_meta) list \<Rightarrow> candidate_row \<Rightarrow> candidate_row \<Rightarrow> bool" where
  "row_later meta a b \<longleftrightarrow> laterThan (em_build_date (meta_of meta (cr_id a))) (cr_created_at a)
     (em_build_date (meta_of meta (cr_id b))) (cr_created_at b)"

definition effective :: "(uuid \<times> enrichment_meta) list \<Rightarrow> candidate_row \<Rightarrow> int" where
  "effective meta a = (case em_build_date (meta_of meta (cr_id a)) of Some b \<Rightarrow> b | None \<Rightarrow> cr_created_at a)"

lemma row_later_iff:
  "row_later meta a b \<longleftrightarrow>
     effective meta a > effective meta b \<or>
     effective meta a = effective meta b \<and> cr_created_at a > cr_created_at b"
  by (auto simp: row_later_def laterThan_def effective_def Let_def)

text \<open>The latest row of each group among the rows seen, and every group seen.\<close>

definition best_ok ::
  "(uuid \<times> enrichment_meta) list \<Rightarrow> candidate_row set \<Rightarrow> (group_key \<times> changelog_candidate) list \<Rightarrow> bool" where
  "best_ok meta seen best \<longleftrightarrow> distinct (map fst best) \<and> fst ` set best = group_key_of meta ` seen \<and>
     (\<forall>(k, c)\<in>set best. \<exists>s\<in>seen. group_key_of meta s = k \<and> c = candidate_of meta s \<and>
        (\<forall>s'\<in>seen. group_key_of meta s' = k \<longrightarrow> \<not> row_later meta s' s))"

lemma best_okI:
  assumes "distinct (map fst best)" and "fst ` set best = group_key_of meta ` seen"
    and "\<And>k c. (k, c) \<in> set best \<Longrightarrow> \<exists>s\<in>seen. group_key_of meta s = k \<and> c = candidate_of meta s \<and>
        (\<forall>s'\<in>seen. group_key_of meta s' = k \<longrightarrow> \<not> row_later meta s' s)"
  shows "best_ok meta seen best"
  unfolding best_ok_def using assms(1,2) by (intro conjI) (simp_all, clarify, erule assms(3))

lemma best_ok_step:
  assumes ok: "best_ok meta seen best"
  shows "best_ok meta (insert s seen) (fst (dedup_step meta s (best, av, fl)))"
proof -
  let ?k = "group_key_of meta s"
  have keys: "distinct (map fst best)" "fst ` set best = group_key_of meta ` seen"
    and each: "\<And>k c. (k, c) \<in> set best \<Longrightarrow> \<exists>r\<in>seen. group_key_of meta r = k \<and> c = candidate_of meta r \<and>
        (\<forall>s'\<in>seen. group_key_of meta s' = k \<longrightarrow> \<not> row_later meta s' r)"
    using ok by (auto simp: best_ok_def)
  have upd: "best_ok meta (insert s seen) (AList.update ?k (candidate_of meta s) best)"
    if new: "\<forall>r\<in>seen. group_key_of meta r = ?k \<longrightarrow> \<not> row_later meta r s"
  proof -
    have d: "distinct (map fst (AList.update ?k (candidate_of meta s) best))"
      using keys(1) by (rule distinct_update)
    have keys': "fst ` set (AList.update ?k (candidate_of meta s) best) = insert ?k (fst ` set best)"
      by (simp add: dom_update)
    have each': "\<exists>r\<in>insert s seen. group_key_of meta r = k \<and> c = candidate_of meta r \<and>
        (\<forall>s'\<in>insert s seen. group_key_of meta s' = k \<longrightarrow> \<not> row_later meta s' r)"
      if kc: "(k, c) \<in> set (AList.update ?k (candidate_of meta s) best)" for k c
    proof -
      have m: "map_of (AList.update ?k (candidate_of meta s) best) k = Some c"
        using kc d by (simp add: map_of_is_SomeI)
      show ?thesis
      proof (cases "k = ?k")
        case True
        with m have "c = candidate_of meta s" by (simp add: update_conv')
        with True new show ?thesis by (auto simp: row_later_iff)
      next
        case False
        with m have "(k, c) \<in> set best" by (simp add: update_conv' map_of_SomeD)
        with False each show ?thesis by fastforce
      qed
    qed
    show ?thesis
      by (rule best_okI [OF d _ each']) (use keys' keys(2) in simp)
  qed
  show ?thesis
  proof (cases "map_of best ?k")
    case None
    then have "?k \<notin> group_key_of meta ` seen" using keys(2) by (simp add: map_of_eq_None_iff)
    then have "best_ok meta (insert s seen) (AList.update ?k (candidate_of meta s) best)"
      by (intro upd) (metis imageI)
    with None show ?thesis by (simp add: dedup_step_def Let_def)
  next
    case (Some prev)
    from each [OF map_of_SomeD [OF Some]] obtain r where r: "r \<in> seen" "group_key_of meta r = ?k"
      "prev = candidate_of meta r" "\<forall>s'\<in>seen. group_key_of meta s' = ?k \<longrightarrow> \<not> row_later meta s' r"
      by blast
    have later: "laterThan (em_build_date (meta_of meta (cr_id s))) (cr_created_at s) (cc_build_date prev)
        (cr_created_at (cc_sbom prev)) \<longleftrightarrow> row_later meta s r"
      by (simp add: r(3) candidate_of_def row_later_def)
    show ?thesis
    proof (cases "row_later meta s r")
      case True
      have "best_ok meta (insert s seen) (AList.update ?k (candidate_of meta s) best)"
        using r(4) True by (intro upd) (auto simp: row_later_iff)
      with Some True later show ?thesis by (simp add: dedup_step_def Let_def)
    next
      case False
      have each': "\<exists>r'\<in>insert s seen. group_key_of meta r' = k \<and> c = candidate_of meta r' \<and>
          (\<forall>s'\<in>insert s seen. group_key_of meta s' = k \<longrightarrow> \<not> row_later meta s' r')"
        if kc: "(k, c) \<in> set best" for k c
      proof (cases "k = ?k")
        case True
        with kc keys(1) Some have "c = prev" by (metis map_of_eq_Some_iff option.inject)
        with True r False show ?thesis by auto
      next
        case neq: False
        with each [OF kc] show ?thesis by auto
      qed
      have "?k \<in> group_key_of meta ` seen" using r(1,2) by (metis imageI)
      then have "fst ` set best = group_key_of meta ` insert s seen" using keys(2) by auto
      then have "best_ok meta (insert s seen) best"
        by (rule best_okI [OF keys(1) _ each'])
      with Some False later show ?thesis by (simp add: dedup_step_def Let_def)
    qed
  qed
qed

lemma best_ok_fold:
  "best_ok meta seen (fst acc) \<Longrightarrow> best_ok meta (seen \<union> set rows) (fst (fold (dedup_step meta) rows acc))"
proof (induction rows arbitrary: seen acc)
  case (Cons r rows)
  obtain best av fl where acc: "acc = (best, av, fl)" by (metis prod_cases3)
  with Cons.prems have "best_ok meta (insert r seen) (fst (dedup_step meta r acc))"
    using best_ok_step by simp
  from Cons.IH [OF this] show ?case by simp
qed simp

text \<open>One winner per version, architecture and flavor, and it is the latest. The deduplicated map has
  one entry for each group among the input rows and no other; its candidate is a row of that group that
  no row of the group is later than, by build date where known and ingestion time otherwise.\<close>

theorem deduplicate_latest:
  "best_ok meta (set sboms) (fst (deduplicateSBOMs sboms meta))"
  using best_ok_fold [of meta "{}" "([], [], [])" sboms]
  by (simp add: deduplicateSBOMs_def best_ok_def)


section \<open>The timeline: properties\<close>

definition resolved_mode ::
  "'v semver_lib \<Rightarrow> changelog_query \<Rightarrow> candidate_row list \<Rightarrow> (uuid \<times> enrichment_meta) list \<Rightarrow> string" where
  "resolved_mode lib q sboms meta =
     (let (semverCount, versionCount) = groupsSemverShare lib (fst (deduplicateSBOMs sboms meta))
      in resolveSortMode (cq_mode q) (int semverCount) (int versionCount))"

definition selected_arch ::
  "changelog_orders \<Rightarrow> changelog_query \<Rightarrow> candidate_row list \<Rightarrow> (uuid \<times> enrichment_meta) list \<Rightarrow> string" where
  "selected_arch co q sboms meta =
     selectArch (cq_arch q) (co_archs co (fst (snd (deduplicateSBOMs sboms meta))))"

definition selected_flavor ::
  "changelog_query \<Rightarrow> candidate_row list \<Rightarrow> (uuid \<times> enrichment_meta) list \<Rightarrow> string" where
  "selected_flavor q sboms meta =
     selectFlavor (cq_flavor q) (snd (snd (deduplicateSBOMs sboms meta)))"

lemma timeline_unfold:
  "timeline lib co q sboms meta =
     (let cs = filterByArchAndFlavor (co_best co (fst (deduplicateSBOMs sboms meta)))
                 (selected_arch co q sboms meta) (selected_flavor q sboms meta);
          mode = resolved_mode lib q sboms meta
      in sortCandidates lib (co_ties co) (if mode = SortSemver then filterSemverCandidates lib cs else cs) mode)"
  by (simp add: timeline_def selected_arch_def selected_flavor_def resolved_mode_def Let_def
      case_prod_beta)

lemma best_key:
  assumes "(k, c) \<in> set (fst (deduplicateSBOMs sboms meta))"
  shows "cc_arch c = fst (snd k) \<and> cc_flavor c = snd (snd k)"
proof -
  have "best_ok meta (set sboms) (fst (deduplicateSBOMs sboms meta))"
    using best_ok_fold [of meta "{}" "([], [], [])" sboms]
    by (simp add: deduplicateSBOMs_def best_ok_def)
  with assms show ?thesis
    by (fastforce simp: best_ok_def candidate_of_def group_key_of_def Let_def)
qed

text \<open>The timeline is one series in order. Every candidate has the selected architecture and flavor,
  and no candidate comes before one that the mode's order puts earlier: by semantic version, then build
  time in the semver mode, by build time otherwise. This holds for any semver library whose comparison is
  an order and that rejects the empty string, and for any iteration order of the maps.\<close>

theorem timeline_ordered:
  assumes "semver_lib_ok lib" and "sv_parse lib [] = None" and "iteration_order (co_best co)"
    and ties: "iteration_order (co_ties co)"
  shows "sorted_wrt (\<lambda>a b. \<not> candidateLess lib (resolved_mode lib q sboms meta) b a)
      (timeline lib co q sboms meta) \<and>
    (\<forall>c\<in>set (timeline lib co q sboms meta).
       cc_arch c = selected_arch co q sboms meta \<and> cc_flavor c = selected_flavor q sboms meta)"
proof
  let ?mode = "resolved_mode lib q sboms meta"
  let ?cs = "filterByArchAndFlavor (co_best co (fst (deduplicateSBOMs sboms meta)))
      (selected_arch co q sboms meta) (selected_flavor q sboms meta)"
  let ?cs' = "if ?mode = SortSemver then filterSemverCandidates lib ?cs else ?cs"
  have "list_all versioned ?cs'" if "?mode = SortSemver"
    using that assms(2)
    by (auto simp: filterSemverCandidates_def versioned_def isSemver_def list_all_iff split: option.splits)
  then show "sorted_wrt (\<lambda>a b. \<not> candidateLess lib ?mode b a) (timeline lib co q sboms meta)"
    unfolding timeline_unfold Let_def by (rule sortCandidates_sorted [OF assms(1) _ ties])
  have "set (timeline lib co q sboms meta) \<subseteq> set ?cs"
    using iteration_order_set [OF ties]
    by (auto simp: timeline_unfold sortCandidates_def filterSemverCandidates_def Let_def)
  moreover have "cc_arch c = selected_arch co q sboms meta \<and> cc_flavor c = selected_flavor q sboms meta"
    if "c \<in> set ?cs" for c
    using that best_key [of _ c sboms meta] iteration_order_set [OF assms(3)]
    by (fastforce simp: filterByArchAndFlavor_def)
  ultimately show "\<forall>c\<in>set (timeline lib co q sboms meta).
      cc_arch c = selected_arch co q sboms meta \<and> cc_flavor c = selected_flavor q sboms meta"
    by blast
qed

definition demo_co :: changelog_orders where
  "demo_co = \<lparr>co_diff = demo_orders, co_best = rev, co_archs = rev, co_ties = rev, co_rows = (\<lambda>i. rev)\<rparr>"

definition demo_query :: changelog_query where
  "demo_query = \<lparr>cq_subject_version = [], cq_arch = [], cq_flavor = [], cq_mode = SortAuto,
     cq_limit = 0, cq_offset = 0\<rparr>"

definition demo_as :: "uuid \<Rightarrow> string \<Rightarrow> int \<Rightarrow> artifact_sbom" where
  "demo_as i v t = \<lparr>as_id = i, as_artifact = Some 9, as_namespace = Some 5, as_subject_version = Some v,
     as_created_at = t, as_flavor = Some ''alpine''\<rparr>"

definition demo_log_store :: changelog_store where
  "demo_log_store =
     \<lparr>cl_db = ss_db demo_store, cl_sboms = [demo_as 3 ''1.1.0'' 1, demo_as 4 ''1.0.0'' 2],
      cl_artifact_namespaces = [(9, 5)], cl_enrichments = [], cl_components = [(3, demo_package)]\<rparr>"

lemmas demo_log_simps = demo_log_store_def demo_as_def demo_store_def artifact_visible_def zero_filter_def
  ListSBOMCandidatesByArtifact_def visible_namespace_ids_def is_member_def reverse_cmp_def then_cmp_def
  on_key_def int_cmp_def uuid_cmp_def demo_query_def nonEmptyStrPtr_def

lemma demo_rows:
  "ListSBOMCandidatesByArtifact demo_log_store 9 None zero_filter 10000 =
     [\<lparr>cr_id = 4, cr_subject_version = Some ''1.0.0'', cr_created_at = 2, cr_flavor = Some ''alpine''\<rparr>,
      \<lparr>cr_id = 3, cr_subject_version = Some ''1.1.0'', cr_created_at = 1, cr_flavor = Some ''alpine''\<rparr>]"
  by (simp add: demo_log_simps)

lemma demo_timeline:
  "map (\<lambda>c. cr_id (cc_sbom c)) (timeline demo_semver demo_co demo_query
     (ListSBOMCandidatesByArtifact demo_log_store 9 None zero_filter 10000) []) = [4, 3]"
  unfolding demo_rows
  by (simp add: timeline_def deduplicateSBOMs_def dedup_step_def group_key_of_def candidate_of_def
      meta_of_def no_meta_def groupsSemverShare_def resolveSortMode_def sort_mode_defs isSemver_def
      demo_semver_def demo_query_def demo_co_def selectArch_def preferred_archs_def selectFlavor_def
      flavorUnknown_def filterByArchAndFlavor_def filterSemverCandidates_def sortCandidates_def
      less_cmp_def candidateLess_def compareSemver_def int_cmp_def)

theorem timeline_ordered_witness:
  "map (\<lambda>c. cr_id (cc_sbom c)) (timeline demo_semver demo_co demo_query
     (ListSBOMCandidatesByArtifact demo_log_store 9 None zero_filter 10000) []) = [4, 3] \<and>
   sorted_wrt (\<lambda>a b. \<not> candidateLess demo_semver (resolved_mode demo_semver demo_query
       (ListSBOMCandidatesByArtifact demo_log_store 9 None zero_filter 10000) []) b a)
     (timeline demo_semver demo_co demo_query
       (ListSBOMCandidatesByArtifact demo_log_store 9 None zero_filter 10000) [])"
proof -
  have "sv_parse demo_semver [] = None" "iteration_order (co_best demo_co)"
    "iteration_order (co_ties demo_co)"
    by (simp_all add: demo_semver_def demo_co_def iteration_order_def)
  from timeline_ordered [OF demo_semver_ok this] show ?thesis using demo_timeline by blast
qed

lemma demo_changelog:
  "\<exists>log. GetArtifactChangelog demo_semver demo_co (\<lambda>_. None) (\<lambda>_. None) demo_log_store 9 demo_query
     zero_filter = Inr log"
  by (simp add: GetArtifactChangelog_def db_call_def case_prod_beta Let_def)
    (simp add: demo_log_store_def demo_store_def artifact_visible_def)

theorem changelog_page_exact_witness:
  "\<exists>log. GetArtifactChangelog demo_semver demo_co (\<lambda>_. None) (\<lambda>_. None) demo_log_store 9
     demo_query zero_filter = Inr log \<and>
     ch_entries log = take 20 (full_changelog demo_semver demo_co demo_log_store
       (request_timeline demo_semver demo_co (\<lambda>_. None) (\<lambda>_. None) demo_log_store 9
         demo_query zero_filter))"
proof -
  obtain log where log: "GetArtifactChangelog demo_semver demo_co (\<lambda>_. None) (\<lambda>_. None) demo_log_store 9
      demo_query zero_filter = Inr log" using demo_changelog by blast
  from changelog_page_exact [OF log] show ?thesis
    using log by (auto simp: clamp_def demo_query_def defaultChangelogLimit_def maxChangelogLimit_def
        demo_co_def)
qed

text \<open>The default architecture of an artifact that has none of the preferred ones is the first
  that a map iteration yields: the same query selects different timelines for two iteration orders, so
  consecutive pages of one changelog need not come from the same series.\<close>

theorem selectArch_arbitrary:
  "selectArch [] [''ppc64le'', ''riscv64''] = ''ppc64le'' \<and>
   selectArch [] [''riscv64'', ''ppc64le''] = ''riscv64''"
  by (simp add: selectArch_def preferred_archs_def)

end
