(* ===== verification/RegistryScope.thy ===== *)
theory RegistryScope
  imports GoStrings
begin

text \<open>
  What a registry walk scans: the repository and tag filters of \<^verbatim>\<open>internal/service/registry.go\<close> with
  \<open>path.Match\<close> of the Go library, and the selection window of \<^verbatim>\<open>internal/service/registry_scope.go\<close>.
  Times are numbers of nanoseconds; \<open>add_date now n\<close> stands for \<open>now.AddDate(0, 0, n)\<close>, whose value depends
  on the time zone.
\<close>

section \<open>Glob patterns\<close>

datatype glob_token = Star | AnyChar | Lit char | Class bool "(char \<times> char) list"

text \<open>\<open>getEsc\<close>: one possibly escaped character of a class, which must not end the pattern.\<close>

definition getEsc :: "string \<Rightarrow> (char \<times> string) option" where
  "getEsc p = (case p of
     [] \<Rightarrow> None
   | c # cs \<Rightarrow>
       if c = CHR ''-'' \<or> c = CHR '']'' then None
       else if c = char_of (92::nat) then (case cs of [] \<Rightarrow> None | d # ds \<Rightarrow> if ds = [] then None else Some (d, ds))
       else if cs = [] then None else Some (c, cs))"

lemma getEsc_shorter [termination_simp]: "getEsc p = Some (c, r) \<Longrightarrow> length r < length p"
  by (auto simp: getEsc_def split: list.splits if_splits)

function class_ranges :: "string \<Rightarrow> (char \<times> char) list \<Rightarrow> ((char \<times> char) list \<times> string) option" where
  "class_ranges p acc =
     (if acc \<noteq> [] \<and> p \<noteq> [] \<and> hd p = CHR '']'' then Some (acc, tl p)
      else case getEsc p of
             None \<Rightarrow> None
           | Some (lo, r) \<Rightarrow>
               if hd r = CHR ''-'' then
                 (case getEsc (tl r) of
                    None \<Rightarrow> None
                  | Some (hi, r1) \<Rightarrow> class_ranges r1 (acc @ [(lo, hi)]))
               else class_ranges r (acc @ [(lo, lo)]))"
  by pat_completeness auto
termination
proof (relation "measure (\<lambda>(p, acc). length p)", simp)
  fix p :: string and acc :: "(char \<times> char) list" and a lo r b hi r1
  assume "getEsc p = Some a" "(lo, r) = a" "getEsc (tl r) = Some b" "(hi, r1) = b"
  then have "length r1 < length (tl r)" "length r < length p"
    using getEsc_shorter [of p lo r] getEsc_shorter [of "tl r" hi r1] by simp_all
  then show "((r1, acc @ [(lo, hi)]), p, acc) \<in> measure (\<lambda>(p, acc). length p)" by simp
next
  fix p :: string and acc :: "(char \<times> char) list" and a lo r
  assume "getEsc p = Some a" "(lo, r) = a"
  then show "((r, acc @ [(lo, lo)]), p, acc) \<in> measure (\<lambda>(p, acc). length p)"
    using getEsc_shorter by auto
qed

declare class_ranges.simps [simp del]

lemma class_ranges_shorter [termination_simp]:
  "class_ranges p acc = Some (rs, q) \<Longrightarrow> length q < length p"
proof (induction p acc rule: class_ranges.induct)
  case (1 p acc)
  show ?case
  proof (cases "acc \<noteq> [] \<and> p \<noteq> [] \<and> hd p = CHR '']''")
    case True
    then have "class_ranges p acc = Some (acc, tl p)" by (simp add: class_ranges.simps [of p acc])
    with "1.prems" True show ?thesis by (cases p) simp_all
  next
    case False
    then obtain lo r where esc: "getEsc p = Some (lo, r)"
      using "1.prems" by (auto simp: class_ranges.simps [of p acc] split: option.splits)
    show ?thesis
    proof (cases "hd r = CHR ''-''")
      case True
      with False esc "1.prems" obtain hi r1 where esc1: "getEsc (tl r) = Some (hi, r1)"
        and "class_ranges r1 (acc @ [(lo, hi)]) = Some (rs, q)"
        by (auto simp: class_ranges.simps [of p acc] split: option.splits)
      then have "length q < length r1" using "1.IH"(1) [OF False esc refl True esc1 refl] by simp
      then show ?thesis using getEsc_shorter [OF esc] getEsc_shorter [OF esc1] by simp
    next
      case neq: False
      with False esc "1.prems" have "class_ranges r (acc @ [(lo, lo)]) = Some (rs, q)"
        by (auto simp: class_ranges.simps [of p acc])
      then have "length q < length r" using "1.IH"(2) [OF False esc refl neq] by simp
      then show ?thesis using getEsc_shorter [OF esc] by simp
    qed
  qed
qed

text \<open>The tokens of a pattern, \<open>None\<close> when it is malformed.\<close>

function parse_glob :: "string \<Rightarrow> glob_token list option" where
  "parse_glob [] = Some []"
| "parse_glob (c # cs) =
     (if c = CHR ''*'' then map_option (Cons Star) (parse_glob cs)
      else if c = CHR ''?'' then map_option (Cons AnyChar) (parse_glob cs)
      else if c = char_of (92::nat) then
        (case cs of [] \<Rightarrow> None | d # ds \<Rightarrow> map_option (Cons (Lit d)) (parse_glob ds))
      else if c = CHR ''['' then
        (let negated = (cs \<noteq> [] \<and> hd cs = CHR ''^'') in
         case class_ranges (if negated then tl cs else cs) [] of
           None \<Rightarrow> None
         | Some (ranges, rest) \<Rightarrow> map_option (Cons (Class negated ranges)) (parse_glob rest))
      else map_option (Cons (Lit c)) (parse_glob cs))"
  by pat_completeness auto
termination
  by (relation "measure length")
    (auto dest!: class_ranges_shorter split: if_splits intro: less_le_trans)

definition in_class :: "bool \<Rightarrow> (char \<times> char) list \<Rightarrow> char \<Rightarrow> bool" where
  "in_class negated ranges c \<longleftrightarrow>
     list_ex (\<lambda>(lo, hi). byte_of lo \<le> byte_of c \<and> byte_of c \<le> byte_of hi) ranges \<noteq> negated"

fun glob_match :: "glob_token list \<Rightarrow> string \<Rightarrow> bool" where
  "glob_match [] s = (s = [])"
| "glob_match (Star # ts) [] = glob_match ts []"
| "glob_match (Star # ts) (c # cs) =
     (glob_match ts (c # cs) \<or> c \<noteq> CHR ''/'' \<and> glob_match (Star # ts) cs)"
| "glob_match (AnyChar # ts) (c # cs) = (c \<noteq> CHR ''/'' \<and> glob_match ts cs)"
| "glob_match (Lit d # ts) (c # cs) = (c = d \<and> glob_match ts cs)"
| "glob_match (Class neg rs # ts) (c # cs) = (in_class neg rs c \<and> glob_match ts cs)"
| "glob_match (t # ts) [] = False"

definition path_match :: "string \<Rightarrow> string \<Rightarrow> bool" where
  "path_match pattern name = (case parse_glob pattern of None \<Rightarrow> False | Some ts \<Rightarrow> glob_match ts name)"

section \<open>Semantic version tags\<close>

text \<open>\<open>semverRe\<close> is \<^verbatim>\<open>^v?(\d+)\.(\d+)\.(\d+)(-[A-Za-z0-9.]+)?(\+[A-Za-z0-9.]+)?$\<close>; the result is its first four
  groups.\<close>

definition tag_char :: "char \<Rightarrow> bool" where
  "tag_char c \<longleftrightarrow> is_digit c \<or> 65 \<le> byte_of c \<and> byte_of c \<le> 90 \<or> 97 \<le> byte_of c \<and> byte_of c \<le> 122 \<or>
     c = CHR ''.''"

definition digits_dot :: "string \<Rightarrow> (string \<times> string) option" where
  "digits_dot s = (let ds = takeWhile is_digit s; r = dropWhile is_digit s in
     if ds = [] then None
     else case r of c # cs \<Rightarrow> if c = CHR ''.'' then Some (ds, cs) else None | [] \<Rightarrow> None)"

definition build_suffix :: "string \<Rightarrow> bool" where
  "build_suffix s = (case s of
     [] \<Rightarrow> True
   | c # cs \<Rightarrow> c = CHR ''+'' \<and> cs \<noteq> [] \<and> list_all tag_char cs)"

definition semverRe :: "string \<Rightarrow> (string \<times> string \<times> string \<times> string) option" where
  "semverRe s =
     (let s = (case s of c # cs \<Rightarrow> if c = CHR ''v'' then cs else s | [] \<Rightarrow> s) in
      case digits_dot s of
        None \<Rightarrow> None
      | Some (maj, s1) \<Rightarrow>
          (case digits_dot s1 of
             None \<Rightarrow> None
           | Some (mnr, s2) \<Rightarrow>
               (let pat = takeWhile is_digit s2; r = dropWhile is_digit s2 in
                if pat = [] then None
                else case r of
                       c # cs \<Rightarrow>
                         if c = CHR ''-'' then
                           (let pre = takeWhile tag_char cs; r1 = dropWhile tag_char cs in
                            if pre = [] \<or> \<not> build_suffix r1 then None
                            else Some (maj, mnr, pat, c # pre))
                         else if build_suffix r then Some (maj, mnr, pat, []) else None
                     | [] \<Rightarrow> Some (maj, mnr, pat, []))))"

definition compareNumeric :: "string \<Rightarrow> string \<Rightarrow> int" where
  "compareNumeric a b =
     (let a = dropWhile (\<lambda>c. c = CHR ''0'') a; b = dropWhile (\<lambda>c. c = CHR ''0'') b in
      if length a \<noteq> length b then int (length a) - int (length b) else str_cmp a b)"

definition isNumeric :: "string \<Rightarrow> bool" where
  "isNumeric s = (s \<noteq> [] \<and> list_all is_digit s)"

definition compare_ident :: "string \<Rightarrow> string \<Rightarrow> int" where
  "compare_ident x y =
     (let na = isNumeric x; nb = isNumeric y in
      if na \<and> nb then compareNumeric x y
      else if na then -1
      else if nb then 1
      else str_cmp x y)"

fun compare_idents :: "string list \<Rightarrow> string list \<Rightarrow> int" where
  "compare_idents (x # xs) (y # ys) =
     (if compare_ident x y \<noteq> 0 then compare_ident x y else compare_idents xs ys)"
| "compare_idents xs ys = int (length xs) - int (length ys)"

definition comparePrerelease :: "string \<Rightarrow> string \<Rightarrow> int" where
  "comparePrerelease a b =
     (if a = b then 0
      else if a = [] then 1
      else if b = [] then -1
      else compare_idents (split_on (CHR ''.'') a) (split_on (CHR ''.'') b))"

definition compareSemverTags :: "string \<Rightarrow> string \<Rightarrow> int" where
  "compareSemverTags a b =
     (case (semverRe a, semverRe b) of
        (None, None) \<Rightarrow> 0
      | (None, Some _) \<Rightarrow> -1
      | (Some _, None) \<Rightarrow> 1
      | (Some (a1, a2, a3, a4), Some (b1, b2, b3, b4)) \<Rightarrow>
          if compareNumeric a1 b1 \<noteq> 0 then compareNumeric a1 b1
          else if compareNumeric a2 b2 \<noteq> 0 then compareNumeric a2 b2
          else if compareNumeric a3 b3 \<noteq> 0 then compareNumeric a3 b3
          else comparePrerelease (trim_prefix a4 ''-'') (trim_prefix b4 ''-''))"

section \<open>Filters\<close>

definition matchGlob :: "string \<Rightarrow> string \<Rightarrow> bool" where
  "matchGlob pattern s =
     (if pattern = ''semver'' then semverRe s \<noteq> None
      else if pattern = ''**'' then True
      else if has_suffix pattern ''/**'' then
        (let prefix = take (length pattern - 3) pattern
         in s = prefix \<or> has_prefix s (prefix @ ''/''))
      else path_match pattern s)"

definition matchPatternList :: "string \<Rightarrow> string list \<Rightarrow> bool" where
  "matchPatternList s patterns =
     (if patterns = [] then True else list_ex (\<lambda>p. p \<noteq> [] \<and> matchGlob p s) patterns)"

text \<open>A configured registry and the statistics of its last walk. Times are numbers and ids strings, as the
  service hands them out.\<close>

record walk_stats =
  ws_at :: int
  ws_repositories :: int
  ws_matched :: int
  ws_selected :: int
  ws_skipped_by_limit :: int
  ws_skipped_by_age :: int
  ws_queued :: int
  ws_error :: string
  ws_windows :: "(string \<times> string list) list"

record registry =
  rg_id :: string
  rg_name :: string
  rg_namespace_id :: string
  rg_type :: string
  rg_url :: string
  rg_insecure :: bool
  rg_webhook_secret :: "string option"
  rg_enabled :: bool
  rg_created_at :: int
  rg_updated_at :: int
  rg_repositories :: "string list"
  rg_repository_patterns :: "string list"
  rg_tag_patterns :: "string list"
  rg_scan_mode :: string
  rg_poll_interval_minutes :: int
  rg_last_polled_at :: "int option"
  rg_auth_username :: "string option"
  rg_auth_token :: "string option"
  rg_visibility :: string
  rg_include_untagged :: bool
  rg_verification_mode :: string
  rg_trust_public_key :: "string option"
  rg_trust_identity :: "string option"
  rg_trust_issuer :: "string option"
  rg_managed_by :: "string option"
  rg_managed_ref :: "string option"
  rg_tag_limit :: int
  rg_tag_order :: string
  rg_max_tag_age_days :: int
  rg_last_walk :: "walk_stats option"

text \<open>The zero value of the struct.\<close>

definition zero_registry :: registry where
  "zero_registry =
     \<lparr>rg_id = [], rg_name = [], rg_namespace_id = [], rg_type = [], rg_url = [], rg_insecure = False,
      rg_webhook_secret = None, rg_enabled = False, rg_created_at = 0, rg_updated_at = 0,
      rg_repositories = [], rg_repository_patterns = [], rg_tag_patterns = [], rg_scan_mode = [],
      rg_poll_interval_minutes = 0, rg_last_polled_at = None, rg_auth_username = None,
      rg_auth_token = None, rg_visibility = [], rg_include_untagged = False, rg_verification_mode = [],
      rg_trust_public_key = None, rg_trust_identity = None, rg_trust_issuer = None,
      rg_managed_by = None, rg_managed_ref = None, rg_tag_limit = 0, rg_tag_order = [],
      rg_max_tag_age_days = 0, rg_last_walk = None\<rparr>"

definition IsManaged :: "registry \<Rightarrow> bool" where
  "IsManaged r \<longleftrightarrow> (case rg_managed_by r of None \<Rightarrow> False | Some m \<Rightarrow> m \<noteq> [])"

definition HasAuth :: "registry \<Rightarrow> bool" where
  "HasAuth r \<longleftrightarrow> (case rg_auth_token r of None \<Rightarrow> False | Some t \<Rightarrow> t \<noteq> [])"

definition AcceptsWebhooks :: "registry \<Rightarrow> bool" where
  "AcceptsWebhooks r \<longleftrightarrow> rg_scan_mode r = ''webhook'' \<or> rg_scan_mode r = ''both''"

definition NeedsPolling :: "registry \<Rightarrow> bool" where
  "NeedsPolling r \<longleftrightarrow> rg_scan_mode r = ''poll'' \<or> rg_scan_mode r = ''both''"

definition MatchesRepository :: "registry \<Rightarrow> string \<Rightarrow> bool" where
  "MatchesRepository r repo = matchPatternList repo (rg_repository_patterns r)"

definition ClaimsRepository :: "registry \<Rightarrow> string \<Rightarrow> bool" where
  "ClaimsRepository r repo =
     (if rg_repositories r \<noteq> [] \<and> \<not> List.member (rg_repositories r) repo then False
      else MatchesRepository r repo)"

definition MatchesTag :: "registry \<Rightarrow> string \<Rightarrow> bool" where
  "MatchesTag r tag = matchPatternList tag (rg_tag_patterns r)"

definition MatchesImage :: "registry \<Rightarrow> string \<Rightarrow> string \<Rightarrow> bool" where
  "MatchesImage r repo tag \<longleftrightarrow> MatchesRepository r repo \<and> MatchesTag r tag"

section \<open>The selection window\<close>

definition TagOrderSemver :: string where "TagOrderSemver = ''semver''"
definition TagOrderCreated :: string where "TagOrderCreated = ''created''"
definition TagOrderLexical :: string where "TagOrderLexical = ''lexical''"

lemmas tag_order_defs = TagOrderSemver_def TagOrderCreated_def TagOrderLexical_def

definition EffectiveTagOrder :: "registry \<Rightarrow> string" where
  "EffectiveTagOrder r =
     (if rg_tag_order r \<noteq> [] then rg_tag_order r
      else if List.member (rg_tag_patterns r) ''semver'' then TagOrderSemver
      else TagOrderCreated)"

definition scope_registry :: "string \<Rightarrow> string list \<Rightarrow> registry" where
  "scope_registry tagOrder tagPatterns =
     zero_registry\<lparr>rg_tag_order := tagOrder, rg_tag_patterns := tagPatterns\<rparr>"

text \<open>The error of a refused scope, \<open>None\<close> for an accepted one. The two messages that quote a setting
  carry it.\<close>

definition ValidateScanScope :: "int \<Rightarrow> string \<Rightarrow> int \<Rightarrow> string list \<Rightarrow> go_error option" where
  "ValidateScanScope tagLimit tagOrder maxTagAgeDays tagPatterns =
     (if tagLimit < 0 then Some (ValidationError ''tagLimit must be 0 (unlimited) or more'')
      else if \<not> List.member [[], TagOrderSemver, TagOrderCreated, TagOrderLexical] tagOrder then
        Some (ValidationError (''tagOrder must be semver, created or lexical, not '' @ tagOrder))
      else if maxTagAgeDays < 0 then
        Some (ValidationError ''maxTagAgeDays must be 1 or more, or 0 for no age limit'')
      else let order = EffectiveTagOrder (scope_registry tagOrder tagPatterns)
           in if maxTagAgeDays > 0 \<and> order \<noteq> TagOrderCreated then
                Some (ValidationError (''maxTagAgeDays needs tagOrder created; the effective order is '' @ order))
              else None)"

record tag_window =
  tw_selected :: "string list"
  tw_skipped_by_age :: nat
  tw_skipped_by_limit :: nat

definition newestFirst :: "int \<Rightarrow> string \<Rightarrow> string \<Rightarrow> int" where
  "newestFirst c a b = (if c \<noteq> 0 then - c else - str_cmp a b)"

definition compareCreated :: "(string \<Rightarrow> int option) \<Rightarrow> string \<Rightarrow> string \<Rightarrow> int" where
  "compareCreated dates a b =
     (case (dates a, dates b) of
        (Some ta, Some tb) \<Rightarrow> int_cmp ta tb
      | (Some _, None) \<Rightarrow> 1
      | (None, Some _) \<Rightarrow> -1
      | (None, None) \<Rightarrow> 0)"

definition selectWindow ::
  "(int \<Rightarrow> int \<Rightarrow> int) \<Rightarrow> string list \<Rightarrow> string \<Rightarrow> int \<Rightarrow> int \<Rightarrow> (string \<Rightarrow> int option) \<Rightarrow> int \<Rightarrow> tag_window" where
  "selectWindow add_date refs order lim maxAgeDays created now =
     (let (sorted, byAge) =
        (if order = TagOrderCreated then
           (let dates = (\<lambda>ref. if List.member refs ref then created ref else None);
                cutoff = add_date now (- maxAgeDays);
                fresh = (if maxAgeDays > 0
                         then filter (\<lambda>ref. case dates ref of None \<Rightarrow> False | Some t \<Rightarrow> \<not> t < cutoff) refs
                         else refs)
            in (sort_by (\<lambda>a b. newestFirst (compareCreated dates a b) a b) fresh,
                length refs - length fresh))
         else if order = TagOrderSemver then
           (sort_by (\<lambda>a b. newestFirst (compareSemverTags a b) a b) refs, 0)
         else (sort_by (\<lambda>a b. newestFirst 0 a b) refs, 0))
      in if lim > 0 \<and> int (length sorted) > lim then
           \<lparr>tw_selected = take (nat lim) sorted, tw_skipped_by_age = byAge,
            tw_skipped_by_limit = length sorted - nat lim\<rparr>
         else \<lparr>tw_selected = sorted, tw_skipped_by_age = byAge, tw_skipped_by_limit = 0\<rparr>)"

definition SelectTags ::
  "(int \<Rightarrow> int \<Rightarrow> int) \<Rightarrow> registry \<Rightarrow> string list \<Rightarrow> (string \<Rightarrow> int option) \<Rightarrow> int \<Rightarrow> tag_window" where
  "SelectTags add_date r candidates created now =
     selectWindow add_date candidates (EffectiveTagOrder r) (rg_tag_limit r) (rg_max_tag_age_days r)
       created now"

definition SelectUntagged ::
  "(int \<Rightarrow> int \<Rightarrow> int) \<Rightarrow> registry \<Rightarrow> string list \<Rightarrow> (string \<Rightarrow> int option) \<Rightarrow> int \<Rightarrow> tag_window" where
  "SelectUntagged add_date r digests created now =
     selectWindow add_date digests TagOrderCreated (rg_tag_limit r) (rg_max_tag_age_days r) created now"


section \<open>The orders are total\<close>

definition two_classes :: "('a \<Rightarrow> bool) \<Rightarrow> ('a \<Rightarrow> 'a \<Rightarrow> int) \<Rightarrow> ('a \<Rightarrow> 'a \<Rightarrow> int) \<Rightarrow> 'a \<Rightarrow> 'a \<Rightarrow> int" where
  "two_classes P c d x y =
     (if P x \<and> P y then c x y else if P x then -1 else if P y then 1 else d x y)"

lemma comparator_two_classes:
  assumes c: "comparator c" and d: "comparator d"
  shows "comparator (two_classes P c d)"
proof
  fix x y z
  show "two_classes P c d x x = 0"
    using comparator.cmp_refl [OF c] comparator.cmp_refl [OF d] by (simp add: two_classes_def)
  show "two_classes P c d x y < 0 \<longleftrightarrow> 0 < two_classes P c d y x"
    using comparator.cmp_swap [OF c] comparator.cmp_swap [OF d] by (simp add: two_classes_def)
  show "two_classes P c d x y \<le> 0 \<Longrightarrow> two_classes P c d y z \<le> 0 \<Longrightarrow> two_classes P c d x z \<le> 0"
    using comparator.cmp_trans [OF c, of x y z] comparator.cmp_trans [OF d, of x y z]
    by (auto simp: two_classes_def split: if_splits)
qed

lemma comparator_zero: "comparator (\<lambda>x y. 0)"
  by unfold_locales simp_all

lemma comparator_sgn:
  assumes c: "comparator c" and eq: "\<And>x y. sgn (d x y) = sgn (c x y)"
  shows "comparator d"
proof -
  have neg: "d x y < 0 \<longleftrightarrow> c x y < 0" and pos: "0 < d x y \<longleftrightarrow> 0 < c x y"
    and zero: "d x y = 0 \<longleftrightarrow> c x y = 0" for x y
    using eq [of x y] by (auto simp: sgn_if split: if_splits)
  have le: "d x y \<le> 0 \<longleftrightarrow> c x y \<le> 0" for x y
    using pos [of x y] by linarith
  show ?thesis
    by unfold_locales
      (use comparator.cmp_refl [OF c] comparator.cmp_swap [OF c] comparator.cmp_trans [OF c] in
        \<open>auto simp: neg pos zero le\<close>)
qed

definition length_cmp :: "'a list \<Rightarrow> 'a list \<Rightarrow> int" where
  "length_cmp a b = int (length a) - int (length b)"

lemma comparator_length_cmp: "comparator length_cmp"
  by unfold_locales (simp_all add: length_cmp_def)

lemma comparator_compareNumeric: "comparator compareNumeric"
proof -
  have eq: "compareNumeric = on_key (then_cmp length_cmp str_cmp) (dropWhile (\<lambda>c. c = CHR ''0''))"
    by (intro ext) (simp add: compareNumeric_def on_key_def then_cmp_def length_cmp_def Let_def)
  show ?thesis
    unfolding eq
    by (intro comparator_on_key comparator_then_cmp comparator_length_cmp str.comparator_axioms)
qed

lemma comparator_compare_ident: "comparator compare_ident"
proof -
  have eq: "compare_ident = two_classes isNumeric compareNumeric str_cmp"
    by (intro ext) (simp add: compare_ident_def two_classes_def Let_def)
  show ?thesis
    unfolding eq
    by (intro comparator_two_classes comparator_compareNumeric str.comparator_axioms)
qed

definition opt_cmp :: "('a \<Rightarrow> 'a \<Rightarrow> int) \<Rightarrow> 'a option \<Rightarrow> 'a option \<Rightarrow> int" where
  "opt_cmp c = two_classes (\<lambda>x. x = None) (\<lambda>x y. 0) (\<lambda>x y. c (the x) (the y))"

lemma comparator_opt_cmp: "comparator c \<Longrightarrow> comparator (opt_cmp c)"
  using comparator_on_key [of c the]
  by (simp add: opt_cmp_def comparator_two_classes comparator_zero on_key_def [abs_def])

lemma compare_idents_pad:
  "sgn (compare_idents xs ys) = sgn (lex_pad (opt_cmp compare_ident) None (map Some xs) (map Some ys))"
proof (induction xs arbitrary: ys)
  case Nil
  then show ?case by (cases ys) (simp_all add: opt_cmp_def two_classes_def)
next
  case (Cons x xs)
  then show ?case by (cases ys) (simp_all add: opt_cmp_def two_classes_def)
qed

lemma comparator_compare_idents: "comparator compare_idents"
proof (rule comparator_sgn)
  show "comparator (on_key (lex_pad (opt_cmp compare_ident) None) (map Some))"
    by (simp add: comparator_on_key comparator_lex_pad comparator_opt_cmp comparator_compare_ident)
qed (simp add: compare_idents_pad on_key_def)

lemma comparator_comparePrerelease: "comparator comparePrerelease"
proof -
  let ?c = "on_key compare_idents (split_on (CHR ''.''))"
  have c: "comparator ?c" by (rule comparator_on_key [OF comparator_compare_idents])
  have eq: "comparePrerelease = two_classes (\<lambda>x. x \<noteq> []) ?c (\<lambda>x y. 0)"
    using comparator.cmp_refl [OF c]
    by (intro ext) (auto simp: comparePrerelease_def two_classes_def on_key_def)
  show ?thesis unfolding eq by (rule comparator_two_classes [OF c comparator_zero])
qed

definition version_fields_cmp ::
  "string \<times> string \<times> string \<times> string \<Rightarrow> string \<times> string \<times> string \<times> string \<Rightarrow> int" where
  "version_fields_cmp =
     then_cmp (on_key compareNumeric fst)
       (then_cmp (on_key compareNumeric (\<lambda>x. fst (snd x)))
         (then_cmp (on_key compareNumeric (\<lambda>x. fst (snd (snd x))))
           (on_key comparePrerelease (\<lambda>x. trim_prefix (snd (snd (snd x))) ''-''))))"

lemma comparator_compareSemverTags: "comparator compareSemverTags"
proof -
  have f: "comparator version_fields_cmp"
    by (simp add: version_fields_cmp_def comparator_then_cmp comparator_on_key
        comparator_compareNumeric comparator_comparePrerelease)
  have eq: "compareSemverTags = on_key (opt_cmp version_fields_cmp) semverRe"
    by (intro ext)
      (auto simp: compareSemverTags_def on_key_def opt_cmp_def two_classes_def version_fields_cmp_def
        then_cmp_def split: option.splits)
  show ?thesis unfolding eq by (intro comparator_on_key comparator_opt_cmp f)
qed

lemma comparator_compareCreated: "comparator (compareCreated dates)"
proof -
  have eq: "compareCreated dates = on_key (opt_cmp int_cmp) dates"
    by (intro ext) (auto simp: compareCreated_def on_key_def opt_cmp_def two_classes_def split: option.splits)
  show ?thesis unfolding eq by (intro comparator_on_key comparator_opt_cmp comparator_int_cmp)
qed

lemma linear_newestFirst: "comparator c \<Longrightarrow> linear_comparator (\<lambda>a b. newestFirst (c a b) a b)"
proof (rule linear_comparatorI)
  assume c: "comparator c"
  have "(\<lambda>a b. newestFirst (c a b) a b) = reverse_cmp (then_cmp c str_cmp)"
    by (intro ext) (simp add: newestFirst_def reverse_cmp_def then_cmp_def)
  then show "comparator (\<lambda>a b. newestFirst (c a b) a b)"
    by (simp add: comparator_reverse_cmp comparator_then_cmp c str.comparator_axioms)
  show "newestFirst (c a b) a b = 0 \<Longrightarrow> a = b" for a b
    by (auto simp: newestFirst_def dest: str_cmp_eq_0 split: if_splits)
qed

text \<open>The three orders of a walk, each without ties between different names.\<close>

interpretation semver_order: linear_comparator "\<lambda>a b. newestFirst (compareSemverTags a b) a b"
  by (rule linear_newestFirst [OF comparator_compareSemverTags])

interpretation created_order: linear_comparator "\<lambda>a b. newestFirst (compareCreated dates a b) a b"
  for dates
  by (rule linear_newestFirst [OF comparator_compareCreated])

interpretation lexical_order: linear_comparator "\<lambda>a b. newestFirst 0 a b"
  by (rule linear_newestFirst [OF comparator_zero])


section \<open>Numeric identifiers of any size\<close>

fun digits_value :: "string \<Rightarrow> nat" where
  "digits_value [] = 0"
| "digits_value (c # cs) = (byte_of c - 48) * 10 ^ length cs + digits_value cs"

lemma digits_value_bound: "list_all is_digit s \<Longrightarrow> digits_value s < 10 ^ length s"
proof (induction s)
  case (Cons c cs)
  then have "byte_of c - 48 \<le> 9" "digits_value cs < 10 ^ length cs" by (auto simp: is_digit_def)
  then have "(byte_of c - 48) * 10 ^ length cs + digits_value cs < 9 * 10 ^ length cs + 10 ^ length cs"
    by (intro add_le_less_mono mult_le_mono1) simp_all
  then show ?case by simp
qed simp

lemma digits_value_lower:
  "list_all is_digit (c # cs) \<Longrightarrow> c \<noteq> CHR ''0'' \<Longrightarrow> 10 ^ length cs \<le> digits_value (c # cs)"
proof -
  assume d: "list_all is_digit (c # cs)" and "c \<noteq> CHR ''0''"
  then have "byte_of c \<noteq> byte_of (CHR ''0'')" by (metis of_char_eq_iff)
  with d have "1 \<le> byte_of c - 48" by (auto simp: is_digit_def)
  then have "1 * 10 ^ length cs \<le> (byte_of c - 48) * 10 ^ length cs" by (rule mult_le_mono1)
  then show ?thesis by (simp add: trans_le_add1)
qed

lemma digits_value_trim: "digits_value (dropWhile (\<lambda>c. c = CHR ''0'') s) = digits_value s"
  by (induction s) simp_all

lemma int_cmp_nat: "int_cmp (int m) (int n) = (if m < n then -1 else if n < m then 1 else 0)"
  by (simp add: int_cmp_def)

lemma same_length_digits:
  "length a = length b \<Longrightarrow> list_all is_digit a \<Longrightarrow> list_all is_digit b \<Longrightarrow>
   str_cmp a b = (if digits_value a < digits_value b then -1
                  else if digits_value b < digits_value a then 1 else 0)"
proof (induction a b rule: list_induct2)
  case (Cons x xs y ys)
  have bx: "digits_value xs < 10 ^ length xs" "digits_value ys < 10 ^ length xs"
    using Cons.prems digits_value_bound [of xs] digits_value_bound [of ys] Cons.hyps by simp_all
  have less: "(m::nat) * p + v < n * p + w" if "m < n" "v < p" for m n p v w
  proof -
    have "m * p + v < Suc m * p" using that by simp
    also have "\<dots> \<le> n * p" using that by (intro mult_le_mono1) simp
    finally show ?thesis by simp
  qed
  have digits: "48 \<le> byte_of x" "48 \<le> byte_of y" using Cons.prems by (auto simp: is_digit_def)
  consider "byte_of x < byte_of y" | "byte_of y < byte_of x" | "byte_of x = byte_of y" by linarith
  then show ?case
  proof cases
    case 1
    then have "byte_of x - 48 < byte_of y - 48" using digits by simp
    from less [OF this bx(1)] have "digits_value (x # xs) < digits_value (y # ys)"
      using Cons.hyps by simp
    with 1 show ?thesis by (simp del: digits_value.simps)
  next
    case 2
    then have "byte_of y - 48 < byte_of x - 48" using digits by simp
    from less [OF this bx(2)] have "digits_value (y # ys) < digits_value (x # xs)"
      using Cons.hyps by simp
    with 2 show ?thesis by (simp del: digits_value.simps)
  next
    case 3
    then show ?thesis using Cons by simp
  qed
qed simp

lemma longer_digits:
  assumes "list_all is_digit a" and "list_all is_digit b" and "length a < length b"
    and "b \<noteq> [] \<Longrightarrow> hd b \<noteq> CHR ''0''"
  shows "digits_value a < digits_value b"
proof -
  obtain c cs where b: "b = c # cs" using assms(3) by (cases b) auto
  have "digits_value a < 10 ^ length a" by (rule digits_value_bound [OF assms(1)])
  also have "\<dots> \<le> 10 ^ length cs" using assms(3) b by (intro power_increasing) simp_all
  also have "\<dots> \<le> digits_value b" using digits_value_lower [of c cs] assms(2,4) b by simp
  finally show ?thesis .
qed

lemma compareNumeric_lemma:
  assumes "list_all is_digit a" and "list_all is_digit b"
  shows "sgn (compareNumeric a b) = int_cmp (int (digits_value a)) (int (digits_value b))"
proof -
  let ?z = "\<lambda>c. c = CHR ''0''"
  let ?a = "dropWhile ?z a" and ?b = "dropWhile ?z b"
  have d: "list_all is_digit ?a" "list_all is_digit ?b"
    using assms by (auto simp: list_all_iff dest: set_dropWhileD)
  have h: "?a \<noteq> [] \<Longrightarrow> hd ?a \<noteq> CHR ''0''" "?b \<noteq> [] \<Longrightarrow> hd ?b \<noteq> CHR ''0''"
    using hd_dropWhile by blast+
  have v: "digits_value ?a = digits_value a" "digits_value ?b = digits_value b"
    by (simp_all add: digits_value_trim)
  consider "length ?a < length ?b" | "length ?b < length ?a" | "length ?a = length ?b" by linarith
  then show ?thesis
  proof cases
    case 1
    then show ?thesis using longer_digits [OF d 1 h(2)] v by (simp add: compareNumeric_def int_cmp_def)
  next
    case 2
    then show ?thesis using longer_digits [OF d(2,1) 2 h(1)] v by (simp add: compareNumeric_def int_cmp_def)
  next
    case 3
    then show ?thesis using same_length_digits [OF 3 d] v
      by (simp add: compareNumeric_def int_cmp_nat)
  qed
qed

text \<open>Numeric parts of tags compare as the integers they denote, whatever their length: leading
  zeros do not matter and nothing overflows.\<close>

theorem compareNumeric_value:
  assumes "list_all is_digit a" and "list_all is_digit b"
  shows "sgn (compareNumeric a b) = int_cmp (int (digits_value a)) (int (digits_value b))"
  by (rule compareNumeric_lemma [OF assms])

theorem compareNumeric_value_witness:
  "sgn (compareNumeric ''018446744073709551616'' ''18446744073709551615'') = 1"
  using compareNumeric_value [of "''018446744073709551616''" "''18446744073709551615''"]
  by (simp add: is_digit_def int_cmp_def)

section \<open>The window\<close>

definition window_cmp :: "string \<Rightarrow> (string \<Rightarrow> int option) \<Rightarrow> string \<Rightarrow> string \<Rightarrow> int" where
  "window_cmp order dates =
     (if order = TagOrderCreated then (\<lambda>a b. newestFirst (compareCreated dates a b) a b)
      else if order = TagOrderSemver then (\<lambda>a b. newestFirst (compareSemverTags a b) a b)
      else (\<lambda>a b. newestFirst 0 a b))"

lemma linear_window_cmp: "linear_comparator (window_cmp order dates)"
  by (simp add: window_cmp_def created_order.linear_comparator_axioms
      semver_order.linear_comparator_axioms lexical_order.linear_comparator_axioms)

definition known_dates :: "string list \<Rightarrow> (string \<Rightarrow> int option) \<Rightarrow> string \<Rightarrow> int option" where
  "known_dates refs created = (\<lambda>ref. if List.member refs ref then created ref else None)"

definition within_age ::
  "(int \<Rightarrow> int \<Rightarrow> int) \<Rightarrow> string list \<Rightarrow> string \<Rightarrow> int \<Rightarrow> (string \<Rightarrow> int option) \<Rightarrow> int \<Rightarrow> string list" where
  "within_age add_date refs order maxAgeDays created now =
     (if order = TagOrderCreated \<and> maxAgeDays > 0
      then filter (\<lambda>ref. case known_dates refs created ref of None \<Rightarrow> False
                         | Some t \<Rightarrow> \<not> t < add_date now (- maxAgeDays)) refs
      else refs)"

lemma selectWindow_unfold:
  "selectWindow add_date refs order lim maxAgeDays created now =
     (let fresh = within_age add_date refs order maxAgeDays created now;
          sorted = sort_by (window_cmp order (known_dates refs created)) fresh
      in \<lparr>tw_selected = (if lim > 0 then take (nat lim) sorted else sorted),
          tw_skipped_by_age = length refs - length fresh,
          tw_skipped_by_limit = (if lim > 0 then length sorted - nat lim else 0)\<rparr>)"
proof (cases "order = TagOrderCreated")
  case True
  then show ?thesis
    by (cases "maxAgeDays > 0")
      (simp_all add: selectWindow_def within_age_def window_cmp_def known_dates_def Let_def)
next
  case False
  then show ?thesis
    by (cases "order = TagOrderSemver")
      (simp_all add: selectWindow_def within_age_def window_cmp_def known_dates_def Let_def)
qed

lemma length_within_age: "length (within_age add_date refs order maxAgeDays created now) \<le> length refs"
  by (simp add: within_age_def)

text \<open>The window is the newest part of what may be scanned. The selected tags, followed by exactly
  those reported as past the limit, are all the candidates young enough, in the order of the mode, newest
  first; selected, too old and past the limit together account for every candidate, and no more than the
  limit are selected.\<close>

theorem selectWindow_newest:
  "\<exists>rest. sorted_by (window_cmp order (known_dates refs created))
        (tw_selected (selectWindow add_date refs order lim maxAgeDays created now) @ rest) \<and>
     mset (tw_selected (selectWindow add_date refs order lim maxAgeDays created now) @ rest) =
       mset (within_age add_date refs order maxAgeDays created now) \<and>
     length rest = tw_skipped_by_limit (selectWindow add_date refs order lim maxAgeDays created now) \<and>
     length (tw_selected (selectWindow add_date refs order lim maxAgeDays created now)) +
       tw_skipped_by_age (selectWindow add_date refs order lim maxAgeDays created now) +
       tw_skipped_by_limit (selectWindow add_date refs order lim maxAgeDays created now) = length refs \<and>
     \<not> (lim > 0 \<and> int (length (tw_selected (selectWindow add_date refs order lim maxAgeDays created now))) > lim)"
proof -
  let ?cmp = "window_cmp order (known_dates refs created)"
  let ?fresh = "within_age add_date refs order maxAgeDays created now"
  let ?sorted = "sort_by ?cmp ?fresh"
  have s: "sorted_by ?cmp ?sorted"
    using linear_window_cmp [of order "known_dates refs created"]
    by (simp add: linear_comparator_def comparator.sorted_sort_by)
  have le: "length ?fresh \<le> length refs" by (rule length_within_age)
  show ?thesis
  proof (cases "lim > 0")
    case True
    then show ?thesis
      using s le
      by (intro exI [of _ "drop (nat lim) ?sorted"])
        (auto simp: selectWindow_unfold Let_def min_def)
  next
    case False
    then show ?thesis using s le by (intro exI [of _ "[]"]) (simp add: selectWindow_unfold Let_def)
  qed
qed

text \<open>The selection is a function of the set of tags: the order in which the registry lists them
  never changes the window, because no order of a walk leaves two names tied.\<close>

theorem selectWindow_deterministic:
  assumes "mset refs = mset refs'"
  shows "selectWindow add_date refs order lim maxAgeDays created now =
    selectWindow add_date refs' order lim maxAgeDays created now"
proof -
  have set: "set refs = set refs'" using assms by (metis set_mset_mset)
  then have dates: "known_dates refs created = known_dates refs' created"
    by (simp add: known_dates_def)
  have fresh: "mset (within_age add_date refs order maxAgeDays created now) =
      mset (within_age add_date refs' order maxAgeDays created now)"
    using assms by (simp add: within_age_def dates)
  have sorted: "sort_by (window_cmp order (known_dates refs created))
        (within_age add_date refs order maxAgeDays created now) =
      sort_by (window_cmp order (known_dates refs' created))
        (within_age add_date refs' order maxAgeDays created now)"
    unfolding dates by (rule linear_comparator.sort_by_perm [OF linear_window_cmp fresh])
  have "length refs = length refs'"
    "length (within_age add_date refs order maxAgeDays created now) =
      length (within_age add_date refs' order maxAgeDays created now)"
    using assms fresh by (metis size_mset)+
  with sorted show ?thesis by (simp add: selectWindow_unfold Let_def)
qed

theorem selectWindow_deterministic_witness:
  "selectWindow (+) [''1.10.0'', ''1.9.0''] TagOrderSemver 1 0 (\<lambda>_. None) 0 =
   selectWindow (+) [''1.9.0'', ''1.10.0''] TagOrderSemver 1 0 (\<lambda>_. None) 0"
  by (rule selectWindow_deterministic) simp

end
