(* ===== verification/Retention.thy ===== *)
theory Retention
  imports RegistryScope Principal
begin

text \<open>
  SBOM retention (ADR-0056): the candidate and delete statements of \<^verbatim>\<open>internal/repository/retention.sql.go\<close>
  over the view \<open>sbom_retention_protected\<close>, the service of \<^verbatim>\<open>internal/service/retention.go\<close> and the sweep loop
  of \<^verbatim>\<open>retention_sweeper.go\<close>. The database's text collation, which breaks ties between versions ingested at
  the same moment, is the argument \<open>coll\<close>; times are numbers. What other transactions commit between the
  listing and the delete of one batch is the argument \<open>conc\<close>.
\<close>

section \<open>Tables\<close>

record ret_sbom =
  rs_id :: uuid
  rs_namespace :: "uuid option"
  rs_artifact :: "uuid option"
  rs_flavor :: "string option"
  rs_version :: "string option"
  rs_created :: int
  rs_registry :: bool
  rs_digest :: "string option"
  rs_index_digest :: "string option"

record scan_job_link =
  sl_sbom :: "uuid option"
  sl_registry :: "uuid option"
  sl_repository :: string
  sl_created :: int

record registry_window_row =
  rw_registry :: uuid
  rw_repository :: string
  rw_digests :: "string list"

text \<open>\<open>rs_registry\<close> says that the row's source has the kind \<open>oci_registry\<close>; \<open>rd_running\<close> holds the digests of
  \<open>cluster_workload\<close> and \<open>rd_open_jobs\<close> the SBOMs with a queued or running enrichment job.\<close>

record ret_db =
  rd_sboms :: "ret_sbom list"
  rd_running :: "string list"
  rd_open_jobs :: "uuid list"
  rd_scan_jobs :: "scan_job_link list"
  rd_windows :: "registry_window_row list"

section \<open>Series and versions\<close>

type_synonym series = "uuid option \<times> uuid \<times> string"

definition series_of :: "ret_sbom \<Rightarrow> series" where
  "series_of s = (rs_namespace s, (case rs_artifact s of Some a \<Rightarrow> a | None \<Rightarrow> rs_id s),
     (case rs_flavor s of Some f \<Rightarrow> f | None \<Rightarrow> ''unknown''))"

definition version_of :: "ret_sbom \<Rightarrow> string" where
  "version_of s = (case rs_version s of Some v \<Rightarrow> v | None \<Rightarrow> uuid_str (rs_id s))"

definition rows_of :: "ret_sbom list \<Rightarrow> series \<Rightarrow> ret_sbom list" where
  "rows_of rows ser = filter (\<lambda>s. series_of s = ser) rows"

definition versions_in :: "ret_sbom list \<Rightarrow> series \<Rightarrow> string list" where
  "versions_in rows ser = remdups (map version_of (rows_of rows ser))"

definition ingested :: "ret_sbom list \<Rightarrow> series \<Rightarrow> string \<Rightarrow> int" where
  "ingested rows ser v =
     Max (set (map rs_created (filter (\<lambda>s. version_of s = v) (rows_of rows ser))))"

definition newest_cmp ::
  "(string \<Rightarrow> string \<Rightarrow> int) \<Rightarrow> ret_sbom list \<Rightarrow> series \<Rightarrow> string \<Rightarrow> string \<Rightarrow> int" where
  "newest_cmp coll rows ser = reverse_cmp (then_cmp (on_key int_cmp (ingested rows ser)) coll)"

definition newest_versions ::
  "(string \<Rightarrow> string \<Rightarrow> int) \<Rightarrow> ret_sbom list \<Rightarrow> series \<Rightarrow> string list" where
  "newest_versions coll rows ser = sort_by (newest_cmp coll rows ser) (versions_in rows ser)"

definition semver_cmp ::
  "(string \<Rightarrow> string \<Rightarrow> int) \<Rightarrow> ret_sbom list \<Rightarrow> series \<Rightarrow> string \<Rightarrow> string \<Rightarrow> int" where
  "semver_cmp coll rows ser =
     reverse_cmp
       (then_cmp (on_key compareNumeric (\<lambda>v. fst (the (semverRe v))))
       (then_cmp (on_key compareNumeric (\<lambda>v. fst (snd (the (semverRe v)))))
       (then_cmp (on_key compareNumeric (\<lambda>v. fst (snd (snd (the (semverRe v))))))
       (then_cmp (on_key int_cmp (\<lambda>v. if snd (snd (snd (the (semverRe v)))) = [] then 1 else 0))
       (then_cmp (on_key int_cmp (ingested rows ser)) coll)))))"

definition semver_versions ::
  "(string \<Rightarrow> string \<Rightarrow> int) \<Rightarrow> ret_sbom list \<Rightarrow> series \<Rightarrow> string list" where
  "semver_versions coll rows ser =
     sort_by (semver_cmp coll rows ser) (filter (\<lambda>v. semverRe v \<noteq> None) (versions_in rows ser))"

definition is_first :: "'a \<Rightarrow> 'a list \<Rightarrow> bool" where
  "is_first x xs = (case xs of [] \<Rightarrow> False | y # _ \<Rightarrow> x = y)"

text \<open>The view: the newest and the highest semantic version of each series, what runs, what is fresh and
  what has an open job. Rows without a namespace do not join.\<close>

definition kept_version :: "(string \<Rightarrow> string \<Rightarrow> int) \<Rightarrow> ret_db \<Rightarrow> ret_sbom \<Rightarrow> bool" where
  "kept_version coll d s \<longleftrightarrow> rs_namespace s \<noteq> None \<and>
     (is_first (version_of s) (newest_versions coll (rd_sboms d) (series_of s)) \<or>
      is_first (version_of s) (semver_versions coll (rd_sboms d) (series_of s)))"

definition is_running :: "ret_db \<Rightarrow> ret_sbom \<Rightarrow> bool" where
  "is_running d s \<longleftrightarrow> list_ex (\<lambda>w. rs_digest s = Some w \<or> rs_index_digest s = Some w) (rd_running d)"

definition day :: int where "day = 86400000000000"

definition is_protected :: "(string \<Rightarrow> string \<Rightarrow> int) \<Rightarrow> int \<Rightarrow> ret_db \<Rightarrow> uuid \<Rightarrow> bool" where
  "is_protected coll now d i \<longleftrightarrow>
     list_ex (\<lambda>s. rs_id s = i \<and> (kept_version coll d s \<or> is_running d s \<or> rs_created s > now - day))
       (rd_sboms d) \<or>
     List.member (rd_open_jobs d) i"

section \<open>Statements\<close>

definition rank_of :: "'a \<Rightarrow> 'a list \<Rightarrow> nat" where
  "rank_of x xs = Suc (length (takeWhile (\<lambda>y. y \<noteq> x) xs))"

definition class_n_rows :: "ret_db \<Rightarrow> ret_sbom list" where
  "class_n_rows d = filter (\<lambda>s. \<not> rs_registry s) (rd_sboms d)"

definition newest_candidate ::
  "(string \<Rightarrow> string \<Rightarrow> int) \<Rightarrow> int \<Rightarrow> ret_db \<Rightarrow> int \<Rightarrow> int option \<Rightarrow> ret_sbom \<Rightarrow> bool" where
  "newest_candidate coll now d keep cutoff s \<longleftrightarrow>
     \<not> rs_registry s \<and> rs_namespace s \<noteq> None \<and>
     (int (rank_of (version_of s) (newest_versions coll (class_n_rows d) (series_of s))) > keep \<or>
      (case cutoff of None \<Rightarrow> False
       | Some c \<Rightarrow> ingested (class_n_rows d) (series_of s) (version_of s) < c)) \<and>
     \<not> is_protected coll now d (rs_id s)"

definition id_cmp :: "uuid \<Rightarrow> uuid \<Rightarrow> int" where
  "id_cmp a b = int_cmp (uint a) (uint b)"

definition ListRetentionNewestCandidates ::
  "(string \<Rightarrow> string \<Rightarrow> int) \<Rightarrow> int \<Rightarrow> ret_db \<Rightarrow> int \<Rightarrow> int option \<Rightarrow> int \<Rightarrow> uuid list" where
  "ListRetentionNewestCandidates coll now d keep cutoff row_limit =
     take (nat row_limit)
       (map rs_id
         (sort_by (then_cmp (on_key int_cmp (\<lambda>s. ingested (class_n_rows d) (series_of s) (version_of s)))
                     (on_key id_cmp rs_id))
           (filter (newest_candidate coll now d keep cutoff) (rd_sboms d))))"

definition latest_link :: "ret_db \<Rightarrow> uuid \<Rightarrow> scan_job_link option" where
  "latest_link d i =
     (case sort_by (reverse_cmp (on_key int_cmp sl_created))
             (filter (\<lambda>j. sl_sbom j = Some i \<and> sl_registry j \<noteq> None) (rd_scan_jobs d)) of
        [] \<Rightarrow> None | j # _ \<Rightarrow> Some j)"

definition window_candidate ::
  "(string \<Rightarrow> string \<Rightarrow> int) \<Rightarrow> int \<Rightarrow> ret_db \<Rightarrow> ret_sbom \<Rightarrow> bool" where
  "window_candidate coll now d s \<longleftrightarrow>
     rs_registry s \<and>
     (case latest_link d (rs_id s) of
        None \<Rightarrow> False
      | Some j \<Rightarrow>
          list_ex (\<lambda>w. sl_registry j = Some (rw_registry w) \<and> rw_repository w = sl_repository j \<and>
             (case (case rs_index_digest s of Some x \<Rightarrow> Some x | None \<Rightarrow> rs_digest s) of
                None \<Rightarrow> False | Some x \<Rightarrow> \<not> List.member (rw_digests w) x)) (rd_windows d)) \<and>
     \<not> is_protected coll now d (rs_id s)"

definition ListRetentionWindowCandidates ::
  "(string \<Rightarrow> string \<Rightarrow> int) \<Rightarrow> int \<Rightarrow> ret_db \<Rightarrow> int \<Rightarrow> uuid list" where
  "ListRetentionWindowCandidates coll now d row_limit =
     take (nat row_limit)
       (map rs_id
         (sort_by (then_cmp (on_key int_cmp rs_created) (on_key id_cmp rs_id))
           (filter (window_candidate coll now d) (rd_sboms d))))"

text \<open>The delete with its cascades: enrichment jobs go with their SBOM, scan jobs lose their link.\<close>

definition DeleteRetentionBatch ::
  "(string \<Rightarrow> string \<Rightarrow> int) \<Rightarrow> int \<Rightarrow> ret_db \<Rightarrow> uuid list \<Rightarrow> int \<times> ret_db" where
  "DeleteRetentionBatch coll now d ids =
     (let gone = (\<lambda>i. List.member ids i \<and> \<not> is_protected coll now d i) in
      (int (length (filter (\<lambda>s. gone (rs_id s)) (rd_sboms d))),
       d\<lparr>rd_sboms := filter (\<lambda>s. \<not> gone (rs_id s)) (rd_sboms d),
         rd_open_jobs := filter (\<lambda>i. \<not> (gone i \<and> list_ex (\<lambda>s. rs_id s = i) (rd_sboms d))) (rd_open_jobs d),
         rd_scan_jobs := map (\<lambda>j. case sl_sbom j of
                                Some i \<Rightarrow> if gone i \<and> list_ex (\<lambda>s. rs_id s = i) (rd_sboms d)
                                          then j\<lparr>sl_sbom := None\<rparr> else j
                              | None \<Rightarrow> j) (rd_scan_jobs d)\<rparr>))"

section \<open>The service\<close>

definition RetentionMinKeepLast :: int where "RetentionMinKeepLast = 2"

record retention_policy =
  rp_keep_last :: int
  rp_max_age :: int
  rp_registry_window :: bool

definition RetentionPolicy_Validate :: "retention_policy \<Rightarrow> go_error option" where
  "RetentionPolicy_Validate p =
     (if rp_keep_last p < 0 then Some (OtherError ''retention keep_last must not be negative'')
      else if rp_keep_last p > 0 \<and> rp_keep_last p < RetentionMinKeepLast then
        Some (OtherError ''retention keep_last must be 0 (off) or at least 2'')
      else if rp_max_age p < 0 then Some (OtherError ''retention max_age must not be negative'')
      else None)"

definition MaxInt32 :: int where "MaxInt32 = 2147483647"

definition rowLimit :: "int \<Rightarrow> int" where
  "rowLimit l = (if l \<le> 0 \<or> l > MaxInt32 then MaxInt32 else l)"

definition failing :: "fault \<Rightarrow> string \<Rightarrow> 'a result \<Rightarrow> 'a result" where
  "failing f m r = (case f of Some e \<Rightarrow> Inl (Wrapped m (fault_error e)) | None \<Rightarrow> r)"

definition windowCandidates ::
  "(string \<Rightarrow> string \<Rightarrow> int) \<Rightarrow> int \<Rightarrow> fault \<Rightarrow> ret_db \<Rightarrow> retention_policy \<Rightarrow> int \<Rightarrow> uuid list result" where
  "windowCandidates coll now f d p l =
     (if \<not> rp_registry_window p then Inr []
      else failing f ''listing out-of-window sboms''
             (Inr (ListRetentionWindowCandidates coll now d (rowLimit l))))"

definition newestCandidates ::
  "(string \<Rightarrow> string \<Rightarrow> int) \<Rightarrow> int \<Rightarrow> fault \<Rightarrow> ret_db \<Rightarrow> retention_policy \<Rightarrow> int \<Rightarrow> uuid list result" where
  "newestCandidates coll now f d p l =
     (if rp_keep_last p = 0 then Inr []
      else let cutoff = (if rp_max_age p > 0 then Some (now - rp_max_age p) else None)
           in failing f ''listing old versions''
                (Inr (ListRetentionNewestCandidates coll now d (rp_keep_last p) cutoff (rowLimit l))))"

definition RetentionCandidates ::
  "(string \<Rightarrow> string \<Rightarrow> int) \<Rightarrow> int \<Rightarrow> fault \<Rightarrow> fault \<Rightarrow> ret_db \<Rightarrow> retention_policy \<Rightarrow> int \<Rightarrow>
   (uuid list \<times> uuid list) result" where
  "RetentionCandidates coll now f1 f2 d p l =
     (case RetentionPolicy_Validate p of
        Some e \<Rightarrow> Inl e
      | None \<Rightarrow>
          bind_result (windowCandidates coll now f1 d p l) (\<lambda>ws.
          bind_result (newestCandidates coll now f2 d p l) (\<lambda>ns. Inr (ws, ns))))"

text \<open>What can fail in the transaction of one class: beginning it, the listing, the delete, the commit.\<close>

record class_faults =
  cf_begin :: fault
  cf_list :: fault
  cf_delete :: fault
  cf_commit :: fault

definition pruneClass ::
  "(string \<Rightarrow> string \<Rightarrow> int) \<Rightarrow> int \<Rightarrow> class_faults \<Rightarrow> (ret_db \<Rightarrow> ret_db) \<Rightarrow>
   (fault \<Rightarrow> ret_db \<Rightarrow> uuid list result) \<Rightarrow> ret_db \<Rightarrow> int result \<times> ret_db" where
  "pruneClass coll now cf conc list d =
     (case cf_begin cf of
        Some e \<Rightarrow> (Inl (Wrapped ''beginning transaction'' (fault_error e)), d)
      | None \<Rightarrow>
          (case list (cf_list cf) d of
             Inl e \<Rightarrow> (Inl e, d)
           | Inr ids \<Rightarrow>
               if ids = [] then (Inr 0, d)
               else let d1 = conc d in
                 (case cf_delete cf of
                    Some e \<Rightarrow> (Inl (Wrapped ''deleting sboms'' (fault_error e)), d1)
                  | None \<Rightarrow>
                      let (n, d2) = DeleteRetentionBatch coll now d1 ids in
                      (case cf_commit cf of
                         Some e \<Rightarrow> (Inl (Wrapped ''committing transaction'' (fault_error e)), d1)
                       | None \<Rightarrow> (Inr n, d2)))))"

text \<open>The counts of \<open>PruneCounts\<close>, the error and the tables afterwards; \<open>gap\<close> is what others commit between the two
  transactions.\<close>

definition Prune ::
  "(string \<Rightarrow> string \<Rightarrow> int) \<Rightarrow> int \<Rightarrow> class_faults \<Rightarrow> class_faults \<Rightarrow> (ret_db \<Rightarrow> ret_db) \<Rightarrow>
   (ret_db \<Rightarrow> ret_db) \<Rightarrow> (ret_db \<Rightarrow> ret_db) \<Rightarrow> retention_policy \<Rightarrow> int \<Rightarrow> ret_db \<Rightarrow>
   (int \<times> int) \<times> go_error option \<times> ret_db" where
  "Prune coll now cw cn concW gap concN p batch d =
     (case RetentionPolicy_Validate p of
        Some e \<Rightarrow> ((0, 0), Some e, d)
      | None \<Rightarrow>
        if batch \<le> 0 then ((0, 0), Some (OtherError ''retention batch must be positive''), d)
        else
          (case pruneClass coll now cw concW (\<lambda>f d. windowCandidates coll now f d p batch) d of
             (Inl e, d1) \<Rightarrow> ((0, 0), Some (Wrapped ''pruning out-of-window sboms'' e), d1)
           | (Inr w, d1) \<Rightarrow>
               (case pruneClass coll now cn concN (\<lambda>f d. newestCandidates coll now f d p batch) (gap d1) of
                  (Inl e, d2) \<Rightarrow> ((w, 0), Some (Wrapped ''pruning old versions'' e), d2)
                | (Inr n, d2) \<Rightarrow> ((w, n), None, d2))))"

definition no_faults :: class_faults where
  "no_faults = \<lparr>cf_begin = None, cf_list = None, cf_delete = None, cf_commit = None\<rparr>"

text \<open>What surrounds one round of the sweep's loop: the clock, what fails in the two transactions, what others commit
  inside them, between them and during the pause, and the context's error if the round's select ends the loop.\<close>

record sweep_round =
  sw_now :: int
  sw_window_faults :: class_faults
  sw_newest_faults :: class_faults
  sw_window_conc :: "ret_db \<Rightarrow> ret_db"
  sw_gap :: "ret_db \<Rightarrow> ret_db"
  sw_newest_conc :: "ret_db \<Rightarrow> ret_db"
  sw_pause :: "ret_db \<Rightarrow> ret_db"
  sw_done :: "go_error option"

text \<open>\<open>prune\<close>: the \<open>k\<close>-th round runs in \<open>env k\<close>; \<open>None\<close> is a loop the fuel did not cover.\<close>

fun sweep_prune ::
  "(string \<Rightarrow> string \<Rightarrow> int) \<Rightarrow> (nat \<Rightarrow> sweep_round) \<Rightarrow> retention_policy \<Rightarrow> int \<Rightarrow> nat \<Rightarrow> nat \<Rightarrow> int \<times> int \<Rightarrow> ret_db \<Rightarrow>
   ((int \<times> int) \<times> go_error option \<times> ret_db) option" where
  "sweep_prune coll env p batch 0 k tot d = None"
| "sweep_prune coll env p batch (Suc fuel) k tot d =
     (let R = env k in
      case Prune coll (sw_now R) (sw_window_faults R) (sw_newest_faults R) (sw_window_conc R) (sw_gap R) (sw_newest_conc R)
             p batch d of
        ((w, n), err, d1) \<Rightarrow>
          let tot1 = (fst tot + w, snd tot + n) in
          if err \<noteq> None then Some (tot1, err, d1)
          else if w + n = 0 then Some (tot1, None, d1)
          else (case sw_done R of
                  Some e \<Rightarrow> Some (tot1, Some e, d1)
                | None \<Rightarrow> sweep_prune coll env p batch fuel (Suc k) tot1 (sw_pause R d1)))"


section \<open>Lemmas\<close>

text \<open>The series that have a row the view can protect.\<close>

definition live_series :: "ret_db \<Rightarrow> series set" where
  "live_series d = series_of ` {s \<in> set (rd_sboms d). rs_namespace s \<noteq> None}"

lemma newest_kept:
  assumes "s \<in> set (rd_sboms d)" and "rs_namespace s \<noteq> None"
  obtains r where "r \<in> set (rd_sboms d)" and "series_of r = series_of s" and "kept_version coll d r"
proof -
  let ?vs = "newest_versions coll (rd_sboms d) (series_of s)"
  have "version_of s \<in> set ?vs"
    using assms(1) by (simp add: newest_versions_def versions_in_def rows_of_def)
  then obtain v vs where v: "?vs = v # vs" by (cases ?vs) auto
  then have "v \<in> set ?vs" by simp
  then obtain r where r: "r \<in> set (rd_sboms d)" "series_of r = series_of s" "v = version_of r"
    by (auto simp: newest_versions_def versions_in_def rows_of_def)
  have "rs_namespace r = rs_namespace s" using r(2) by (simp add: series_of_def)
  with r v assms(2) have "kept_version coll d r" by (simp add: kept_version_def is_first_def)
  with r that show thesis by blast
qed

lemma kept_is_protected:
  "s \<in> set (rd_sboms d) \<Longrightarrow> kept_version coll d s \<Longrightarrow> is_protected coll now d (rs_id s)"
  by (auto simp: is_protected_def list_ex_iff)

lemma delete_rows:
  "rd_sboms (snd (DeleteRetentionBatch coll now d ids)) =
     filter (\<lambda>s. \<not> (rs_id s \<in> set ids \<and> \<not> is_protected coll now d (rs_id s))) (rd_sboms d)"
  by (simp add: DeleteRetentionBatch_def Let_def)

lemma delete_live_series: "live_series (snd (DeleteRetentionBatch coll now d ids)) = live_series d"
proof
  show "live_series (snd (DeleteRetentionBatch coll now d ids)) \<subseteq> live_series d"
    by (auto simp: live_series_def delete_rows)
  show "live_series d \<subseteq> live_series (snd (DeleteRetentionBatch coll now d ids))"
  proof
    fix ser
    assume "ser \<in> live_series d"
    then obtain s where s: "s \<in> set (rd_sboms d)" "rs_namespace s \<noteq> None" "ser = series_of s"
      by (auto simp: live_series_def)
    obtain r where r: "r \<in> set (rd_sboms d)" "series_of r = series_of s" "kept_version coll d r"
      using newest_kept [OF s(1,2)] by blast
    have "rs_namespace r \<noteq> None" using r(3) by (simp add: kept_version_def)
    moreover have "is_protected coll now d (rs_id r)" by (rule kept_is_protected [OF r(1,3)])
    ultimately show "ser \<in> live_series (snd (DeleteRetentionBatch coll now d ids))"
      using r s(3) by (auto simp: live_series_def delete_rows intro!: image_eqI [of _ _ r])
  qed
qed

lemma pruneClass_cases:
  "snd (pruneClass coll now cf conc list d) = d \<or> snd (pruneClass coll now cf conc list d) = conc d \<or>
   (\<exists>ids. list (cf_list cf) d = Inr ids \<and>
      snd (pruneClass coll now cf conc list d) = snd (DeleteRetentionBatch coll now (conc d) ids))"
  by (auto simp: pruneClass_def Let_def case_prod_beta split: option.splits sum.splits)

lemma pruneClass_live:
  "pruneClass coll now cf conc list d = (r, d') \<Longrightarrow>
   live_series d' = live_series d \<or> live_series d' = live_series (conc d)"
  using pruneClass_cases [of coll now cf conc list d] by (auto simp: delete_live_series)

text \<open>C32: Retention never erases a series. Whatever policy lists the candidates, whatever fails, and
  whatever other transactions commit between the listing and the delete, one class's transaction leaves
  exactly the series the tables had at the delete (or as it found them), because the newest version of
  each is protected and the delete checks the protection again.\<close>

theorem pruneClass_keeps_series:
  assumes "pruneClass coll now cf conc list d = (r, d')"
  shows "live_series d' = live_series d \<or> live_series d' = live_series (conc d)"
  by (rule pruneClass_live [OF assms])

text \<open>What is protected when the delete runs is still there afterwards, and the tables lose nothing
  else than listed rows: a row survives the delete of a batch exactly when it was not listed or is
  protected, so an image that started running after the listing stays.\<close>

theorem delete_spares_protected:
  "set (rd_sboms (snd (DeleteRetentionBatch coll now d ids))) =
     {s \<in> set (rd_sboms d). \<not> (rs_id s \<in> set ids \<and> \<not> is_protected coll now d (rs_id s))} \<and>
   live_series (snd (DeleteRetentionBatch coll now d ids)) = live_series d"
  by (simp add: delete_rows delete_live_series)

section \<open>The sweep: lemmas\<close>

lemma rowLimit_pos: "0 < l \<Longrightarrow> 0 < nat (rowLimit l)"
  by (simp add: rowLimit_def MaxInt32_def)

lemma rowLimit_nonneg: "0 < nat (rowLimit l)"
  by (simp add: rowLimit_def MaxInt32_def)

lemma listed_unprotected:
  "i \<in> set (ListRetentionWindowCandidates coll now d l) \<Longrightarrow> \<not> is_protected coll now d i"
  "i \<in> set (ListRetentionNewestCandidates coll now d keep cutoff l) \<Longrightarrow> \<not> is_protected coll now d i"
  by (auto simp: ListRetentionWindowCandidates_def ListRetentionNewestCandidates_def
      window_candidate_def newest_candidate_def dest!: in_set_takeD)

lemma listed_rows:
  "i \<in> set (ListRetentionWindowCandidates coll now d l) \<Longrightarrow> i \<in> rs_id ` set (rd_sboms d)"
  "i \<in> set (ListRetentionNewestCandidates coll now d keep cutoff l) \<Longrightarrow> i \<in> rs_id ` set (rd_sboms d)"
  by (auto simp: ListRetentionWindowCandidates_def ListRetentionNewestCandidates_def dest!: in_set_takeD)

lemma listed_empty:
  "0 < nat l \<Longrightarrow> ListRetentionWindowCandidates coll now d l = [] \<longleftrightarrow>
     filter (window_candidate coll now d) (rd_sboms d) = []"
  "0 < nat l \<Longrightarrow> ListRetentionNewestCandidates coll now d keep cutoff l = [] \<longleftrightarrow>
     filter (newest_candidate coll now d keep cutoff) (rd_sboms d) = []"
  by (auto simp: ListRetentionWindowCandidates_def ListRetentionNewestCandidates_def
      simp flip: length_0_conv)

lemma candidates_result:
  "windowCandidates coll now None d p l = Inr ids \<Longrightarrow> i \<in> set ids \<Longrightarrow>
     \<not> is_protected coll now d i \<and> i \<in> rs_id ` set (rd_sboms d)"
  "newestCandidates coll now None d p l = Inr ids \<Longrightarrow> i \<in> set ids \<Longrightarrow>
     \<not> is_protected coll now d i \<and> i \<in> rs_id ` set (rd_sboms d)"
  using listed_unprotected listed_rows
  by (auto simp: windowCandidates_def newestCandidates_def failing_def Let_def split: if_splits)

lemma candidates_empty_any_limit:
  "windowCandidates coll now None d p l = Inr [] \<Longrightarrow> windowCandidates coll now None d p l' = Inr []"
  "newestCandidates coll now None d p l = Inr [] \<Longrightarrow> newestCandidates coll now None d p l' = Inr []"
  using listed_empty [OF rowLimit_nonneg [of l]] listed_empty [OF rowLimit_nonneg [of l']]
  by (auto simp: windowCandidates_def newestCandidates_def failing_def Let_def split: if_splits)

text \<open>The rows of each class.\<close>

definition registry_rows :: "ret_db \<Rightarrow> nat" where
  "registry_rows d = length (filter rs_registry (rd_sboms d))"

definition other_rows :: "ret_db \<Rightarrow> nat" where
  "other_rows d = length (filter (\<lambda>s. \<not> rs_registry s) (rd_sboms d))"

lemma rows_by_class: "registry_rows d + other_rows d = length (rd_sboms d)"
  by (simp add: registry_rows_def other_rows_def sum_length_filter_compl)

lemma class_candidates:
  "windowCandidates coll now f d p l = Inr ids \<Longrightarrow> i \<in> set ids \<Longrightarrow>
     \<exists>s\<in>set (rd_sboms d). rs_id s = i \<and> rs_registry s \<and> \<not> is_protected coll now d i"
  "newestCandidates coll now f d p l = Inr ids \<Longrightarrow> i \<in> set ids \<Longrightarrow>
     \<exists>s\<in>set (rd_sboms d). rs_id s = i \<and> \<not> rs_registry s \<and> \<not> is_protected coll now d i"
  by (cases f; force simp: windowCandidates_def newestCandidates_def failing_def Let_def window_candidate_def
      newest_candidate_def ListRetentionWindowCandidates_def ListRetentionNewestCandidates_def
      split: if_splits dest!: in_set_takeD)+

lemma candidates_again:
  "windowCandidates coll now f d p l = Inr [] \<Longrightarrow> windowCandidates coll now None d p l' = Inr []"
  "newestCandidates coll now f d p l = Inr [] \<Longrightarrow> newestCandidates coll now None d p l' = Inr []"
  using candidates_empty_any_limit [of coll now d p l]
  by (cases f; simp add: windowCandidates_def newestCandidates_def failing_def Let_def split: if_splits)+

text \<open>A delete whose listed rows all satisfy \<open>P\<close> counts the rows of \<open>P\<close> that go, and no other row goes.\<close>

lemma delete_counts:
  assumes "\<forall>s\<in>set (rd_sboms d). rs_id s \<in> set ids \<longrightarrow> P s"
  shows "\<exists>k. fst (DeleteRetentionBatch coll now d ids) = int k \<and>
    length (filter P (rd_sboms (snd (DeleteRetentionBatch coll now d ids)))) + k = length (filter P (rd_sboms d)) \<and>
    filter (\<lambda>s. \<not> P s) (rd_sboms (snd (DeleteRetentionBatch coll now d ids))) = filter (\<lambda>s. \<not> P s) (rd_sboms d)"
proof -
  let ?gone = "\<lambda>s. rs_id s \<in> set ids \<and> \<not> is_protected coll now d (rs_id s)"
  let ?P = "filter P (rd_sboms d)"
  have "fst (DeleteRetentionBatch coll now d ids) = int (length (filter ?gone (rd_sboms d)))"
    by (simp add: DeleteRetentionBatch_def Let_def)
  moreover have "filter ?gone (rd_sboms d) = filter ?gone ?P"
    using assms by (auto intro!: filter_cong)
  moreover have "length (filter (\<lambda>s. \<not> ?gone s) ?P) + length (filter ?gone ?P) = length ?P"
    using sum_length_filter_compl [of ?gone ?P] by simp
  moreover have "filter P (filter (\<lambda>s. \<not> ?gone s) (rd_sboms d)) = filter (\<lambda>s. \<not> ?gone s) ?P"
    by (auto intro!: filter_cong)
  moreover have "filter (\<lambda>s. \<not> P s) (filter (\<lambda>s. \<not> ?gone s) (rd_sboms d)) = filter (\<lambda>s. \<not> P s) (rd_sboms d)"
    using assms by (auto intro!: filter_cong)
  ultimately show ?thesis unfolding delete_rows by (intro exI [of _ "length (filter ?gone ?P)"]) simp
qed

text \<open>One class's transaction among others that leave the SBOM rows alone: it reports the rows of its class that
  went, and no row of the other class goes, whatever fails.\<close>

definition keeps_rows :: "(ret_db \<Rightarrow> ret_db) \<Rightarrow> bool" where
  "keeps_rows c \<longleftrightarrow> (\<forall>d. rd_sboms (c d) = rd_sboms d)"

lemma live_series_rows: "rd_sboms d' = rd_sboms d \<Longrightarrow> live_series d' = live_series d"
  by (simp add: live_series_def)

lemma pruneClass_counts:
  assumes run: "pruneClass coll now cf conc list d = (r, d')" and conc: "keeps_rows conc"
    and distinct: "distinct (map rs_id (rd_sboms d))"
    and listed: "\<forall>ids. list (cf_list cf) d = Inr ids \<longrightarrow>
      (\<forall>i\<in>set ids. \<exists>s\<in>set (rd_sboms d). rs_id s = i \<and> P s \<and> \<not> is_protected coll now d i)"
  shows "\<exists>k. (case r of Inl e \<Rightarrow> k = 0 | Inr n \<Rightarrow> n = int k) \<and>
      length (filter P (rd_sboms d')) + k = length (filter P (rd_sboms d)) \<and>
      filter (\<lambda>s. \<not> P s) (rd_sboms d') = filter (\<lambda>s. \<not> P s) (rd_sboms d)"
    and "live_series d' = live_series d" and "set (rd_sboms d') \<subseteq> set (rd_sboms d)"
    and "distinct (map rs_id (rd_sboms d'))"
    and "r = Inr 0 \<Longrightarrow> conc = id \<Longrightarrow> list (cf_list cf) d = Inr [] \<and> d' = d"
    and "cf = no_faults \<Longrightarrow> (\<exists>ids. list None d = Inr ids) \<Longrightarrow> \<exists>n. r = Inr n"
proof -
  have rows: "rd_sboms (conc d) = rd_sboms d" using conc by (simp add: keeps_rows_def)
  have cases: "rd_sboms d' = rd_sboms d \<and> (r = Inr 0 \<or> (\<exists>e. r = Inl e)) \<or>
      (\<exists>ids. list (cf_list cf) d = Inr ids \<and> d' = snd (DeleteRetentionBatch coll now (conc d) ids) \<and>
         r = Inr (fst (DeleteRetentionBatch coll now (conc d) ids)))"
    using run rows by (auto simp: pruneClass_def Let_def case_prod_beta split: option.splits sum.splits if_splits)
  have mine: "\<forall>s\<in>set (rd_sboms (conc d)). rs_id s \<in> set ids \<longrightarrow> P s" if "list (cf_list cf) d = Inr ids" for ids
    using listed that distinct unfolding rows by (metis distinct_map inj_on_def)
  show "\<exists>k. (case r of Inl e \<Rightarrow> k = 0 | Inr n \<Rightarrow> n = int k) \<and>
      length (filter P (rd_sboms d')) + k = length (filter P (rd_sboms d)) \<and>
      filter (\<lambda>s. \<not> P s) (rd_sboms d') = filter (\<lambda>s. \<not> P s) (rd_sboms d)"
    using cases
  proof (elim disjE exE conjE)
    fix ids
    assume ids: "list (cf_list cf) d = Inr ids" and res: "r = Inr (fst (DeleteRetentionBatch coll now (conc d) ids))"
      and d': "d' = snd (DeleteRetentionBatch coll now (conc d) ids)"
    show ?thesis unfolding d' using delete_counts [OF mine [OF ids], of coll now] res rows by (auto intro!: exI)
  qed (auto intro!: exI [of _ 0])
  show "live_series d' = live_series d"
    using pruneClass_live [OF run] live_series_rows [OF rows] by auto
  have sub: "\<exists>Q. rd_sboms d' = filter Q (rd_sboms d)"
  proof -
    consider "rd_sboms d' = rd_sboms d" | ids where "d' = snd (DeleteRetentionBatch coll now (conc d) ids)"
      using cases by blast
    then show ?thesis
    proof cases
      case 1
      then show ?thesis by (intro exI [of _ "\<lambda>s. True"]) simp
    next
      case 2
      then show ?thesis using delete_rows [of coll now "conc d"] rows by auto
    qed
  qed
  then show "set (rd_sboms d') \<subseteq> set (rd_sboms d)" by auto
  from sub show "distinct (map rs_id (rd_sboms d'))" using distinct by (auto simp: distinct_map_filter)
  show "list (cf_list cf) d = Inr [] \<and> d' = d" if idle: "r = Inr 0" "conc = id"
  proof -
    obtain ids where ids: "list (cf_list cf) d = Inr ids" and d': "ids = [] \<longrightarrow> d' = d"
      and del: "ids \<noteq> [] \<longrightarrow> fst (DeleteRetentionBatch coll now d ids) = 0"
      using run idle by (auto simp: pruneClass_def Let_def case_prod_beta split: option.splits sum.splits if_splits)
    have "ids = []"
    proof (rule ccontr)
      assume "ids \<noteq> []"
      then obtain i where i: "i \<in> set ids" by (cases ids) auto
      obtain s where s: "s \<in> set (rd_sboms d)" "rs_id s = i" "\<not> is_protected coll now d i" using listed ids i by blast
      have "filter (\<lambda>s. List.member ids (rs_id s) \<and> \<not> is_protected coll now d (rs_id s)) (rd_sboms d) = []"
        using del \<open>ids \<noteq> []\<close> by (simp add: DeleteRetentionBatch_def Let_def)
      with s i show False by (auto simp: filter_empty_conv)
    qed
    with ids d' show ?thesis by simp
  qed
  show "\<exists>n. r = Inr n" if "cf = no_faults" "\<exists>ids. list None d = Inr ids"
    using run that by (auto simp: pruneClass_def no_faults_def Let_def case_prod_beta split: if_splits)
qed

lemma Prune_counts:
  assumes run: "Prune coll now cw cn concW gap concN p batch d = ((x, y), err, d')"
    and conc: "keeps_rows concW" "keeps_rows gap" "keeps_rows concN" and distinct: "distinct (map rs_id (rd_sboms d))"
  shows "\<exists>w n. x = int w \<and> y = int n \<and> registry_rows d' + w = registry_rows d \<and> other_rows d' + n = other_rows d"
    and "live_series d' = live_series d" and "set (rd_sboms d') \<subseteq> set (rd_sboms d)"
    and "distinct (map rs_id (rd_sboms d'))"
    and "err = None \<Longrightarrow> x + y = 0 \<Longrightarrow> concW = id \<Longrightarrow> gap = id \<Longrightarrow> concN = id \<Longrightarrow>
      RetentionCandidates coll now None None d' p l = Inr ([], [])"
    and "RetentionPolicy_Validate p = None \<Longrightarrow> 0 < batch \<Longrightarrow> cw = no_faults \<Longrightarrow> cn = no_faults \<Longrightarrow> err = None"
proof -
  let ?W = "pruneClass coll now cw concW (\<lambda>f d. windowCandidates coll now f d p batch) d"
  obtain rW d1 where W: "?W = (rW, d1)" by fastforce
  let ?N = "pruneClass coll now cn concN (\<lambda>f d. newestCandidates coll now f d p batch) (gap d1)"
  obtain rN d2 where N: "?N = (rN, d2)" by fastforce
  have listed: "\<forall>ids. windowCandidates coll now (cf_list cw) d p batch = Inr ids \<longrightarrow>
      (\<forall>i\<in>set ids. \<exists>s\<in>set (rd_sboms d). rs_id s = i \<and> rs_registry s \<and> \<not> is_protected coll now d i)"
    by (blast intro: class_candidates(1))
  note w = pruneClass_counts [where P = rs_registry, OF W conc(1) distinct listed]
  have gap: "rd_sboms (gap d1) = rd_sboms d1" using conc(2) by (simp add: keeps_rows_def)
  have distinct1: "distinct (map rs_id (rd_sboms (gap d1)))" using w(4) gap by simp
  have listed1: "\<forall>ids. newestCandidates coll now (cf_list cn) (gap d1) p batch = Inr ids \<longrightarrow>
      (\<forall>i\<in>set ids. \<exists>s\<in>set (rd_sboms (gap d1)). rs_id s = i \<and> \<not> rs_registry s \<and> \<not> is_protected coll now (gap d1) i)"
    by (blast intro: class_candidates(2))
  note n = pruneClass_counts [where P = "\<lambda>s. \<not> rs_registry s", OF N conc(3) distinct1 listed1]
  have cases: "RetentionPolicy_Validate p \<noteq> None \<and> x = 0 \<and> y = 0 \<and> err \<noteq> None \<and> d' = d \<or>
      RetentionPolicy_Validate p = None \<and> batch \<le> 0 \<and> x = 0 \<and> y = 0 \<and> err \<noteq> None \<and> d' = d \<or>
      RetentionPolicy_Validate p = None \<and> 0 < batch \<and> (\<exists>e. rW = Inl e) \<and> x = 0 \<and> y = 0 \<and> err \<noteq> None \<and> d' = d1 \<or>
      RetentionPolicy_Validate p = None \<and> 0 < batch \<and> rW = Inr x \<and> (\<exists>e. rN = Inl e) \<and> y = 0 \<and> err \<noteq> None \<and> d' = d2 \<or>
      RetentionPolicy_Validate p = None \<and> 0 < batch \<and> rW = Inr x \<and> rN = Inr y \<and> err = None \<and> d' = d2"
    using run W N by (auto simp: Prune_def split: option.splits if_splits sum.splits)
  have counts: "\<exists>a b. (case rW of Inl e \<Rightarrow> a = 0 | Inr k \<Rightarrow> k = int a) \<and> (case rN of Inl e \<Rightarrow> b = 0 | Inr k \<Rightarrow> k = int b) \<and>
      registry_rows d1 + a = registry_rows d \<and> other_rows d1 = other_rows d \<and>
      other_rows d2 + b = other_rows d1 \<and> registry_rows d2 = registry_rows d1"
  proof -
    obtain a where "case rW of Inl e \<Rightarrow> a = 0 | Inr k \<Rightarrow> k = int a" "registry_rows d1 + a = registry_rows d"
      "other_rows d1 = other_rows d" using w(1) by (auto simp: registry_rows_def other_rows_def)
    moreover obtain b where "case rN of Inl e \<Rightarrow> b = 0 | Inr k \<Rightarrow> k = int b" "other_rows d2 + b = other_rows d1"
      "registry_rows d2 = registry_rows d1" using n(1) by (auto simp: registry_rows_def other_rows_def gap)
    ultimately show ?thesis by blast
  qed
  show "\<exists>w n. x = int w \<and> y = int n \<and> registry_rows d' + w = registry_rows d \<and> other_rows d' + n = other_rows d"
    using cases counts by (elim disjE exE conjE) (auto intro!: exI split: sum.splits)
  have kept: "live_series d1 = live_series d" "live_series d2 = live_series d1" "set (rd_sboms d1) \<subseteq> set (rd_sboms d)"
    "set (rd_sboms d2) \<subseteq> set (rd_sboms d1)"
    using w(2,3) n(2,3) live_series_rows [OF gap] gap by simp_all
  show "live_series d' = live_series d" "set (rd_sboms d') \<subseteq> set (rd_sboms d)" "distinct (map rs_id (rd_sboms d'))"
    using cases kept w(4) n(4) distinct by auto
  show "RetentionCandidates coll now None None d' p l = Inr ([], [])"
    if "err = None" "x + y = 0" "concW = id" "gap = id" "concN = id"
  proof -
    have ok: "RetentionPolicy_Validate p = None" "rW = Inr x" "rN = Inr y" "d' = d2" using cases that(1) by auto
    with that(2) counts have "x = 0" "y = 0" by auto
    with ok w(5) n(5) that(3-5) have "windowCandidates coll now (cf_list cw) d p batch = Inr []" "d1 = d"
      "newestCandidates coll now (cf_list cn) d1 p batch = Inr []" "d2 = d1" by simp_all
    with ok show ?thesis using candidates_again by (simp add: RetentionCandidates_def)
  qed
  show "err = None" if "RetentionPolicy_Validate p = None" "0 < batch" "cw = no_faults" "cn = no_faults"
  proof -
    have "\<exists>ids. windowCandidates coll now None d p batch = Inr ids"
      "\<exists>ids. newestCandidates coll now None (gap d1) p batch = Inr ids"
      by (simp_all add: windowCandidates_def newestCandidates_def failing_def Let_def)
    with w(6) n(6) that(3,4) obtain a b where "rW = Inr a" "rN = Inr b" by auto
    with cases that(1,2) show ?thesis by auto
  qed
qed

text \<open>The others: they leave the SBOM rows alone, or do nothing at all.\<close>

definition others_keep_rows :: "(nat \<Rightarrow> sweep_round) \<Rightarrow> bool" where
  "others_keep_rows env \<longleftrightarrow> (\<forall>k. keeps_rows (sw_window_conc (env k)) \<and> keeps_rows (sw_gap (env k)) \<and>
     keeps_rows (sw_newest_conc (env k)) \<and> keeps_rows (sw_pause (env k)))"

definition others_idle :: "(nat \<Rightarrow> sweep_round) \<Rightarrow> bool" where
  "others_idle env \<longleftrightarrow> (\<forall>k. sw_window_conc (env k) = id \<and> sw_gap (env k) = id \<and> sw_newest_conc (env k) = id)"

definition undisturbed :: "(nat \<Rightarrow> sweep_round) \<Rightarrow> bool" where
  "undisturbed env \<longleftrightarrow> (\<forall>k. sw_window_faults (env k) = no_faults \<and> sw_newest_faults (env k) = no_faults \<and>
     sw_done (env k) = None)"

lemma sweep_lemma:
  assumes "others_keep_rows env"
  shows "distinct (map rs_id (rd_sboms d)) \<Longrightarrow> length (rd_sboms d) < fuel \<Longrightarrow>
    \<exists>w n err d'. sweep_prune coll env p batch fuel k tot d = Some ((fst tot + int w, snd tot + int n), err, d') \<and>
      registry_rows d' + w = registry_rows d \<and> other_rows d' + n = other_rows d \<and>
      set (rd_sboms d') \<subseteq> set (rd_sboms d) \<and> live_series d' = live_series d \<and>
      (undisturbed env \<and> RetentionPolicy_Validate p = None \<and> 0 < batch \<longrightarrow> err = None) \<and>
      (others_idle env \<and> err = None \<longrightarrow> (\<exists>j. \<forall>l. RetentionCandidates coll (sw_now (env j)) None None d' p l = Inr ([], [])))"
proof (induction fuel arbitrary: k tot d)
  case (Suc fuel)
  let ?R = "env k"
  obtain x y err d1 where P: "Prune coll (sw_now ?R) (sw_window_faults ?R) (sw_newest_faults ?R) (sw_window_conc ?R)
      (sw_gap ?R) (sw_newest_conc ?R) p batch d = ((x, y), err, d1)" by (metis prod.exhaust)
  have others: "keeps_rows (sw_window_conc ?R)" "keeps_rows (sw_gap ?R)" "keeps_rows (sw_newest_conc ?R)"
    "rd_sboms (sw_pause ?R d1) = rd_sboms d1" using assms by (auto simp: others_keep_rows_def keeps_rows_def)
  note one = Prune_counts [OF P others(1-3) Suc.prems(1)]
  obtain w n where wn: "x = int w" "y = int n" "registry_rows d1 + w = registry_rows d" "other_rows d1 + n = other_rows d"
    using one(1) by blast
  have quiet: "err = None" if "undisturbed env" "RetentionPolicy_Validate p = None" "0 < batch"
    using one(6) that by (simp add: undisturbed_def)
  show ?case
  proof (cases "err \<noteq> None \<or> x + y = 0 \<or> sw_done ?R \<noteq> None")
    case True
    define err' where "err' = (if err \<noteq> None then err else if x + y = 0 then None else sw_done ?R)"
    have "sweep_prune coll env p batch (Suc fuel) k tot d = Some ((fst tot + int w, snd tot + int n), err', d1)"
      using True P wn(1,2) by (auto simp: Let_def err'_def split: option.split)
    moreover have "err' = None" if "undisturbed env \<and> RetentionPolicy_Validate p = None \<and> 0 < batch"
      using quiet that by (auto simp: err'_def undisturbed_def)
    moreover have "\<forall>l. RetentionCandidates coll (sw_now ?R) None None d1 p l = Inr ([], [])"
      if "others_idle env \<and> err' = None"
      using one(5) that True by (auto simp: err'_def others_idle_def split: if_splits)
    ultimately show ?thesis using wn(3,4) one(2,3) by (intro exI [of _ w] exI [of _ n] exI [of _ err'] exI [of _ d1]) blast
  next
    case False
    let ?d2 = "sw_pause ?R d1"
    have "x + y \<noteq> 0" using False by simp
    then have "w + n \<noteq> 0" using wn(1,2) by linarith
    then have "length (rd_sboms d1) < fuel"
      using Suc.prems(2) wn(3,4) rows_by_class [of d] rows_by_class [of d1] by linarith
    then have "length (rd_sboms ?d2) < fuel" using others(4) by simp
    moreover have "distinct (map rs_id (rd_sboms ?d2))" using one(4) others(4) by simp
    moreover have same: "registry_rows ?d2 = registry_rows d1" "other_rows ?d2 = other_rows d1"
      using others(4) by (simp_all add: registry_rows_def other_rows_def)
    ultimately obtain w' n' err' d' where IH:
      "sweep_prune coll env p batch fuel (Suc k) (fst tot + int w, snd tot + int n) ?d2 =
         Some ((fst tot + int w + int w', snd tot + int n + int n'), err', d')"
      "registry_rows d' + w' = registry_rows d1" "other_rows d' + n' = other_rows d1"
      "set (rd_sboms d') \<subseteq> set (rd_sboms d1)" "live_series d' = live_series d1"
      "undisturbed env \<and> RetentionPolicy_Validate p = None \<and> 0 < batch \<longrightarrow> err' = None"
      "others_idle env \<and> err' = None \<longrightarrow> (\<exists>j. \<forall>l. RetentionCandidates coll (sw_now (env j)) None None d' p l = Inr ([], []))"
      using Suc.IH [of ?d2 "Suc k" "(fst tot + int w, snd tot + int n)"] same others(4) live_series_rows [OF others(4)]
      unfolding fst_conv snd_conv by metis
    have "sweep_prune coll env p batch (Suc fuel) k tot d = Some ((fst tot + int (w + w'), snd tot + int (n + n')), err', d')"
      using False P wn(1,2) IH(1) by (simp add: Let_def add.assoc)
    then show ?thesis using IH(2-7) wn(3,4) one(2,3)
      by (intro exI [of _ "w + w'"] exI [of _ "n + n'"] exI [of _ err'] exI [of _ d']) simp
  qed
qed simp

text \<open>C33: A sweep terminates and accounts for what it did. As long as others leave the SBOM rows alone (they may
  start workloads, open jobs, finish scans and record windows), a sweep ends after at most one round more than there
  are SBOMs, whatever fails and whenever its context ends; the first count it returns, with an error or without, is
  exactly the number of registry SBOMs that went and the second that of the others, nothing was added, and every series
  is still there. Without failure and cancellation it ends without an error, and if it does while nobody else writes, no
  candidate of either class is left.\<close>

theorem sweep_finishes:
  assumes "others_keep_rows env" and "distinct (map rs_id (rd_sboms d))"
  shows "\<exists>w n err d'. sweep_prune coll env p batch (Suc (length (rd_sboms d))) 0 (0, 0) d = Some ((int w, int n), err, d') \<and>
      registry_rows d' + w = registry_rows d \<and> other_rows d' + n = other_rows d \<and>
      set (rd_sboms d') \<subseteq> set (rd_sboms d) \<and> live_series d' = live_series d \<and>
      (undisturbed env \<and> RetentionPolicy_Validate p = None \<and> 0 < batch \<longrightarrow> err = None) \<and>
      (others_idle env \<and> err = None \<longrightarrow> (\<exists>j. \<forall>l. RetentionCandidates coll (sw_now (env j)) None None d' p l = Inr ([], [])))"
  using sweep_lemma [OF assms, of "Suc (length (rd_sboms d))" coll p batch 0 "(0, 0)"] by simp


lemma newest_listed:
  assumes "newestCandidates coll now f d p l = Inr ids" and "i \<in> set ids"
  obtains s where "s \<in> set (rd_sboms d)" and "rs_id s = i"
    and "newest_candidate coll now d (rp_keep_last p)
      (if rp_max_age p > 0 then Some (now - rp_max_age p) else None) s"
  using assms that
  by (cases f)
    (auto simp: newestCandidates_def failing_def ListRetentionNewestCandidates_def Let_def
      split: if_splits dest!: in_set_takeD)

text \<open>Without an age limit the newest versions stay. If \<open>max_age\<close> is unset, class N's transaction
  keeps every SBOM of the newest \<open>keep_last\<close> versions of its series, and whatever the policy it never
  touches an SBOM that came from a registry.\<close>

theorem class_n_keeps_newest:
  assumes "distinct (map rs_id (rd_sboms d))" and "s \<in> set (rd_sboms d)"
    and "rs_registry s \<or> rp_max_age p = 0 \<and>
      int (rank_of (version_of s) (newest_versions coll (class_n_rows d) (series_of s))) \<le> rp_keep_last p"
  shows "s \<in> set (rd_sboms (snd (pruneClass coll now cf id
    (\<lambda>f d. newestCandidates coll now f d p batch) d)))"
proof -
  have "rs_id s \<notin> set ids" if ids: "newestCandidates coll now (cf_list cf) d p batch = Inr ids" for ids
  proof
    assume "rs_id s \<in> set ids"
    with ids obtain r where r: "r \<in> set (rd_sboms d)" "rs_id r = rs_id s"
      "newest_candidate coll now d (rp_keep_last p)
        (if rp_max_age p > 0 then Some (now - rp_max_age p) else None) r"
      by (rule newest_listed)
    have "r = s" using assms(1,2) r(1,2) by (simp add: distinct_map inj_on_def)
    with r(3) assms(3) show False by (auto simp: newest_candidate_def)
  qed
  then show ?thesis
    using pruneClass_cases [of coll now cf id "\<lambda>f d. newestCandidates coll now f d p batch" d] assms(2)
    by (auto simp: delete_rows)
qed

definition demo_ret :: "uuid \<Rightarrow> string \<Rightarrow> int \<Rightarrow> ret_sbom" where
  "demo_ret i v t = \<lparr>rs_id = i, rs_namespace = Some 1, rs_artifact = Some 2, rs_flavor = None,
     rs_version = Some v, rs_created = t, rs_registry = False, rs_digest = None, rs_index_digest = None\<rparr>"

definition demo_ret_db :: ret_db where
  "demo_ret_db = \<lparr>rd_sboms = [demo_ret 3 ''a'' 1, demo_ret 4 ''b'' 2, demo_ret 5 ''c'' 3], rd_running = [],
     rd_open_jobs = [], rd_scan_jobs = [], rd_windows = []\<rparr>"

definition demo_policy :: "int \<Rightarrow> retention_policy" where
  "demo_policy age = \<lparr>rp_keep_last = 2, rp_max_age = age, rp_registry_window = True\<rparr>"

lemmas ret_simps = demo_ret_def demo_ret_db_def demo_policy_def series_of_def version_of_def
  newest_versions_def newest_cmp_def versions_in_def rows_of_def ingested_def reverse_cmp_def
  then_cmp_def on_key_def int_cmp_def class_n_rows_def

lemma demo_versions:
  "newest_versions str_cmp (rd_sboms demo_ret_db) (Some 1, 2, ''unknown'') = [''c'', ''b'', ''a'']"
  "newest_versions str_cmp (class_n_rows demo_ret_db) (Some 1, 2, ''unknown'') = [''c'', ''b'', ''a'']"
  by (simp_all add: ret_simps)

theorem class_n_keeps_newest_witness:
  "demo_ret 4 ''b'' 2 \<in> set (rd_sboms (snd (pruneClass str_cmp (10 * day) no_faults id
     (\<lambda>f d. newestCandidates str_cmp (10 * day) f d (demo_policy 0) 50) demo_ret_db)))"
proof (rule class_n_keeps_newest)
  have "series_of (demo_ret 4 ''b'' 2) = (Some 1, 2, ''unknown'')" "version_of (demo_ret 4 ''b'' 2) = ''b''"
    by (simp_all add: demo_ret_def series_of_def version_of_def)
  then show "rs_registry (demo_ret 4 ''b'' 2) \<or> rp_max_age (demo_policy 0) = 0 \<and>
      int (rank_of (version_of (demo_ret 4 ''b'' 2))
        (newest_versions str_cmp (class_n_rows demo_ret_db) (series_of (demo_ret 4 ''b'' 2))))
      \<le> rp_keep_last (demo_policy 0)"
    by (simp add: demo_versions demo_policy_def rank_of_def)
qed (simp_all add: demo_ret_db_def demo_ret_def)

theorem pruneClass_keeps_series_witness:
  "live_series (snd (pruneClass str_cmp (10 * day) no_faults id
     (\<lambda>f d. newestCandidates str_cmp (10 * day) f d (demo_policy 1) 50) demo_ret_db)) =
   live_series demo_ret_db"
  using pruneClass_keeps_series [OF surjective_pairing, of str_cmp "10 * day" no_faults id
      "\<lambda>f d. newestCandidates str_cmp (10 * day) f d (demo_policy 1) 50" demo_ret_db] by simp

text \<open>A sweep during which others only record that a digest runs.\<close>

definition demo_rounds :: "nat \<Rightarrow> sweep_round" where
  "demo_rounds k = \<lparr>sw_now = 10 * day + int k, sw_window_faults = no_faults, sw_newest_faults = no_faults,
     sw_window_conc = (\<lambda>d. d\<lparr>rd_running := ''sha256:a'' # rd_running d\<rparr>), sw_gap = id, sw_newest_conc = id,
     sw_pause = id, sw_done = None\<rparr>"

theorem sweep_finishes_witness:
  "\<exists>w n d'. sweep_prune str_cmp demo_rounds (demo_policy 1) 1 4 0 (0, 0) demo_ret_db = Some ((int w, int n), None, d') \<and>
     w = 0 \<and> other_rows d' + n = 3 \<and> live_series d' = live_series demo_ret_db"
proof -
  have "others_keep_rows demo_rounds" "undisturbed demo_rounds" "distinct (map rs_id (rd_sboms demo_ret_db))"
    by (simp_all add: others_keep_rows_def keeps_rows_def undisturbed_def demo_rounds_def demo_ret_db_def demo_ret_def)
  moreover have "RetentionPolicy_Validate (demo_policy 1) = None" "length (rd_sboms demo_ret_db) = 3"
    "registry_rows demo_ret_db = 0" "other_rows demo_ret_db = 3"
    by (simp_all add: RetentionPolicy_Validate_def demo_policy_def RetentionMinKeepLast_def demo_ret_db_def demo_ret_def
        registry_rows_def other_rows_def)
  ultimately show ?thesis
    using sweep_finishes [of demo_rounds demo_ret_db str_cmp "demo_policy 1" 1] by auto
qed

text \<open>With an age limit the floor of two versions does not hold. Three versions, all older than
  \<open>max_age\<close>, under \<open>keep_last = 2\<close>: the prune leaves the newest alone, so the artifact's last changelog
  entry, which needs two versions, is gone.\<close>

theorem max_age_overrides_floor:
  "RetentionPolicy_Validate (demo_policy day) = None \<and>
   map rs_id (rd_sboms (snd (pruneClass str_cmp (10 * day) no_faults id
     (\<lambda>f d. newestCandidates str_cmp (10 * day) f d (demo_policy day) 50) demo_ret_db))) = [5]"
proof -
  have s: "series_of (demo_ret i v t) = (Some 1, 2, ''unknown'')" "version_of (demo_ret i v t) = v"
    "rs_id (demo_ret i v t) = i" "rs_created (demo_ret i v t) = t" "\<not> rs_registry (demo_ret i v t)"
    "rs_namespace (demo_ret i v t) = Some 1" for i v t
    by (simp_all add: demo_ret_def series_of_def version_of_def)
  have rows: "rd_sboms demo_ret_db = [demo_ret 3 ''a'' 1, demo_ret 4 ''b'' 2, demo_ret 5 ''c'' 3]"
    "class_n_rows demo_ret_db = rd_sboms demo_ret_db"
    by (simp_all add: demo_ret_db_def class_n_rows_def demo_ret_def)
  have semver: "semver_versions str_cmp (rd_sboms demo_ret_db) (Some 1, 2, ''unknown'') = []"
    by (simp add: semver_versions_def ret_simps semverRe_def digits_dot_def is_digit_def)
  have prot: "is_protected str_cmp (10 * day) demo_ret_db i \<longleftrightarrow> i = 5" for i
    by (auto simp: is_protected_def rows s kept_version_def is_first_def demo_versions [unfolded rows]
        semver [unfolded rows] is_running_def day_def)
      (simp_all add: demo_ret_db_def)
  have ing: "ingested (rd_sboms demo_ret_db) (Some 1, 2, ''unknown'') ''a'' = 1"
    "ingested (rd_sboms demo_ret_db) (Some 1, 2, ''unknown'') ''b'' = 2"
    "ingested (rd_sboms demo_ret_db) (Some 1, 2, ''unknown'') ''c'' = 3"
    by (simp_all add: ingested_def rows_of_def rows s)
  have cand: "filter (newest_candidate str_cmp (10 * day) demo_ret_db 2 (Some (10 * day - day)))
      (rd_sboms demo_ret_db) = [demo_ret 3 ''a'' 1, demo_ret 4 ''b'' 2]"
  proof -
    have "3 < 10 * day - day" by (simp add: day_def)
    then show ?thesis
      unfolding rows newest_candidate_def s ing [unfolded rows] prot by (auto simp: s ing [unfolded rows] prot)
  qed
  have "newestCandidates str_cmp (10 * day) None demo_ret_db (demo_policy day) 50 = Inr [3, 4]"
    using ing cand
    by (simp add: newestCandidates_def failing_def demo_policy_def ListRetentionNewestCandidates_def
        rowLimit_def MaxInt32_def day_def then_cmp_def on_key_def int_cmp_def rows s)
  then have "snd (pruneClass str_cmp (10 * day) no_faults id
      (\<lambda>f d. newestCandidates str_cmp (10 * day) f d (demo_policy day) 50) demo_ret_db) =
    snd (DeleteRetentionBatch str_cmp (10 * day) demo_ret_db [3, 4])"
    by (simp add: pruneClass_def no_faults_def case_prod_beta)
  moreover have "map rs_id (rd_sboms (snd (DeleteRetentionBatch str_cmp (10 * day) demo_ret_db [3, 4]))) = [5]"
    unfolding delete_rows prot rows by (simp add: s)
  moreover have "RetentionPolicy_Validate (demo_policy day) = None"
    by (simp add: RetentionPolicy_Validate_def demo_policy_def RetentionMinKeepLast_def day_def)
  ultimately show ?thesis by simp
qed

end
