(* ===== verification/Statements.thy ===== *)
theory Statements
  imports Principal
begin

text \<open>
  SQL statements as functions of the tables: a table is the list of its rows, a statement that meets a
  failure outside the tables (the argument \<open>flt\<close>) leaves them as they were, \<open>UPDATE\<close> is
  \<open>update_where\<close>, and \<open>ORDER BY\<close> is \<open>sort_by\<close> of the key's comparison.
\<close>

definition run_stmt :: "fault \<Rightarrow> 'd \<Rightarrow> 'a result \<times> 'd \<Rightarrow> 'a result \<times> 'd" where
  "run_stmt flt d r = (case flt of Some e \<Rightarrow> (Inl (fault_error e), d) | None \<Rightarrow> r)"

definition update_where :: "('r \<Rightarrow> bool) \<Rightarrow> ('r \<Rightarrow> 'r) \<Rightarrow> 'r list \<Rightarrow> 'r list" where
  "update_where P f rows = map (\<lambda>r. if P r then f r else r) rows"

definition count_where :: "('r \<Rightarrow> bool) \<Rightarrow> 'r list \<Rightarrow> int" where
  "count_where P rows = int (length (filter P rows))"

definition page :: "int \<Rightarrow> int \<Rightarrow> 'a list \<Rightarrow> 'a list result" where
  "page lim off rows =
     (if lim < 0 then Inl (OtherError ''LIMIT must not be negative'')
      else if off < 0 then Inl (OtherError ''OFFSET must not be negative'')
      else Inr (take (nat lim) (drop (nat off) rows)))"

definition read_stmt :: "fault \<Rightarrow> 'a result \<Rightarrow> 'a result" where
  "read_stmt flt r = (case flt of Some e \<Rightarrow> Inl (fault_error e) | None \<Rightarrow> r)"

definition uuid_cmp :: "uuid \<Rightarrow> uuid \<Rightarrow> int" where
  "uuid_cmp a b = int_cmp (uint a) (uint b)"

text \<open>\<open>COALESCE(s, '')\<close>, \<open>NULLIF($1, '')\<close>, and a Go string passed as \<open>pgtype.Text\<close> that is NULL when empty.\<close>

definition coalesce :: "string option \<Rightarrow> string" where
  "coalesce s = (case s of Some x \<Rightarrow> x | None \<Rightarrow> [])"

definition nullif_empty :: "string \<Rightarrow> string option" where
  "nullif_empty s = (if s = [] then None else Some s)"

definition coalesce_opt :: "'a option \<Rightarrow> 'a option \<Rightarrow> 'a option" where
  "coalesce_opt a b = (case a of Some x \<Rightarrow> Some x | None \<Rightarrow> b)"

lemma find_update_where:
  "(\<And>r. P (f r) = P r) \<Longrightarrow> find P (update_where P f xs) = map_option f (find P xs)"
  by (induction xs) (auto simp: update_where_def)

lemma find_update_other:
  "(\<And>r. Q (f r) = Q r) \<Longrightarrow>
   find Q (update_where P f xs) = map_option (\<lambda>r. if P r then f r else r) (find Q xs)"
  by (induction xs) (auto simp: update_where_def)

lemma find_snoc: "find P (xs @ [y]) = (case find P xs of Some x \<Rightarrow> Some x | None \<Rightarrow> if P y then Some y else None)"
  by (induction xs) auto

lemma map_update_where:
  "(\<And>r. r \<in> set rows \<Longrightarrow> P r \<Longrightarrow> g (f r) = g r) \<Longrightarrow> map g (update_where P f rows) = map g rows"
  by (auto simp: update_where_def)

lemma list_all_update_where:
  "list_all Q rows \<Longrightarrow> (\<And>r. r \<in> set rows \<Longrightarrow> P r \<Longrightarrow> Q r \<Longrightarrow> Q (f r)) \<Longrightarrow> list_all Q (update_where P f rows)"
  by (auto simp: update_where_def list_all_iff)

lemma map_filter_update_where:
  "(\<And>r. g (f r) = g r) \<Longrightarrow> List.map_filter g (update_where P f rows) = List.map_filter g rows"
  by (induction rows) (auto simp: update_where_def map_filter_simps split: option.splits)

lemma update_where_in: "j \<in> set rows \<Longrightarrow> P j \<Longrightarrow> f j \<in> set (update_where P f rows)"
  by (force simp: update_where_def)

lemma run_stmt_None [simp]: "run_stmt None d r = r"
  by (simp add: run_stmt_def)

lemma run_stmt_Some [simp]: "run_stmt (Some e) d r = (Inl (fault_error e), d)"
  by (simp add: run_stmt_def)

lemma read_stmt_None [simp]: "read_stmt None r = r"
  by (simp add: read_stmt_def)

lemma read_stmt_Some [simp]: "read_stmt (Some e) r = Inl (fault_error e)"
  by (simp add: read_stmt_def)

lemma read_stmt_Inr: "read_stmt flt r = Inr x \<longleftrightarrow> flt = None \<and> r = Inr x"
  by (cases flt) auto

lemma run_stmt_Inr: "run_stmt flt d r = (Inr x, d') \<longleftrightarrow> flt = None \<and> r = (Inr x, d')"
  by (cases flt) auto

end
