(* ===== verification/ScanJobs.thy ===== *)
theory ScanJobs
  imports NamespaceMembers Statements
begin

text \<open>
  The scan pipeline's outbox: the table \<open>scan_jobs\<close> (migrations 00022 to 00088), the statements of
  \<^verbatim>\<open>internal/repository/scan_jobs.sql.go\<close> and the service of \<^verbatim>\<open>internal/service/job.go\<close>. A statement is
  a function of the tables with the moment \<open>now\<close> of its transaction and the failure \<open>flt\<close> it may meet;
  a failed one leaves the tables as they were. \<open>locked\<close> lists the rows other transactions hold locked
  when \<open>FOR UPDATE SKIP LOCKED\<close> looks for one. Opening an encrypted credential is the argument \<open>box\<close>.
\<close>

section \<open>Tables\<close>

datatype job_state = Queued | Running | Succeeded | Failed | Pruned

fun state_str :: "job_state \<Rightarrow> string" where
  "state_str Queued = ''queued''"
| "state_str Running = ''running''"
| "state_str Succeeded = ''succeeded''"
| "state_str Failed = ''failed''"
| "state_str Pruned = ''pruned''"

fun terminal :: "job_state \<Rightarrow> bool" where
  "terminal Queued = False"
| "terminal Running = False"
| "terminal _ = True"

record scan_job_row =
  sj_id :: uuid
  sj_registry :: "uuid option"
  sj_repository :: string
  sj_digest :: string
  sj_tag :: "string option"
  sj_state :: job_state
  sj_attempts :: int
  sj_last_error :: "string option"
  sj_msg :: "string option"
  sj_sbom :: "uuid option"
  sj_created :: int
  sj_started :: "int option"
  sj_finished :: "int option"
  sj_last_attempt :: "int option"
  sj_worker :: "string option"
  sj_index_digest :: "string option"
  sj_trace :: "string option"
  sj_cluster :: "uuid option"
  sj_host :: "string option"

text \<open>What the statements read of the other tables: a registry's url, insecure flag and credentials, the
  namespace of a source, and the source, artifact and digest of an SBOM.\<close>

record pull_row =
  pr_url :: string
  pr_insecure :: bool
  pr_username :: "string option"
  pr_token :: "string option"

record job_sbom =
  js_id :: uuid
  js_source :: "uuid option"
  js_artifact :: "uuid option"
  js_digest :: "string option"

record scan_db =
  sd_jobs :: "scan_job_row list"
  sd_registries :: "(uuid \<times> pull_row) list"
  sd_sources :: "(uuid \<times> uuid) list"
  sd_sboms :: "job_sbom list"
  sd_ns :: db

section \<open>Writing the queue\<close>

definition update_jobs ::
  "(scan_job_row \<Rightarrow> bool) \<Rightarrow> (scan_job_row \<Rightarrow> scan_job_row) \<Rightarrow> scan_db \<Rightarrow> scan_db" where
  "update_jobs P f d = d\<lparr>sd_jobs := update_where P f (sd_jobs d)\<rparr>"

definition exec_jobs ::
  "fault \<Rightarrow> (scan_job_row \<Rightarrow> bool) \<Rightarrow> (scan_job_row \<Rightarrow> scan_job_row) \<Rightarrow> scan_db \<Rightarrow> int result \<times> scan_db" where
  "exec_jobs flt P f d =
     run_stmt flt d (Inr (count_where P (sd_jobs d)), update_jobs P f d)"

section \<open>Claiming\<close>

record scan_claim =
  sc_id :: string
  sc_registry :: string
  sc_cluster :: string
  sc_repository :: string
  sc_digest :: string
  sc_index_digest :: string
  sc_tag :: string
  sc_url :: string
  sc_insecure :: bool
  sc_username :: string
  sc_token :: string
  sc_attempts :: int
  sc_trace :: string

definition claim_row :: "int \<Rightarrow> string \<Rightarrow> scan_job_row \<Rightarrow> scan_job_row" where
  "claim_row now w j =
     j\<lparr>sj_state := Running,
       sj_started := (case sj_started j of Some t \<Rightarrow> Some t | None \<Rightarrow> Some now),
       sj_last_attempt := Some now, sj_worker := Some w, sj_attempts := sj_attempts j + 1\<rparr>"

text \<open>The row a claim returns, \<open>auth_token\<close> as it is stored.\<close>

definition claim_of :: "scan_db \<Rightarrow> scan_job_row \<Rightarrow> scan_claim" where
  "claim_of d j =
     (let reg = (case sj_registry j of None \<Rightarrow> None | Some r \<Rightarrow> map_of (sd_registries d) r)
      in \<lparr>sc_id = uuid_str (sj_id j), sc_registry = uuidToStr (sj_registry j),
          sc_cluster = uuidToStr (sj_cluster j), sc_repository = sj_repository j,
          sc_digest = sj_digest j, sc_index_digest = coalesce (sj_index_digest j),
          sc_tag = coalesce (sj_tag j),
          sc_url = (case reg of Some r \<Rightarrow> pr_url r
                    | None \<Rightarrow> (case sj_host j of Some h \<Rightarrow> ''https://'' @ h | None \<Rightarrow> [])),
          sc_insecure = (case reg of Some r \<Rightarrow> pr_insecure r | None \<Rightarrow> False),
          sc_username = (case reg of Some r \<Rightarrow> coalesce (pr_username r) | None \<Rightarrow> []),
          sc_token = (case reg of Some r \<Rightarrow> coalesce (pr_token r) | None \<Rightarrow> []),
          sc_attempts = sj_attempts j, sc_trace = coalesce (sj_trace j)\<rparr>)"

definition claim_first ::
  "int \<Rightarrow> string \<Rightarrow> scan_db \<Rightarrow> scan_job_row option \<Rightarrow> scan_claim result \<times> scan_db" where
  "claim_first now w d found =
     (case found of
        None \<Rightarrow> (Inl NoRows, d)
      | Some j \<Rightarrow> (Inr (claim_of d (claim_row now w j)),
                  update_jobs (\<lambda>r. sj_id r = sj_id j) (claim_row now w) d))"

definition ClaimScanJobByID ::
  "fault \<Rightarrow> int \<Rightarrow> scan_db \<Rightarrow> uuid \<Rightarrow> string \<Rightarrow> scan_claim result \<times> scan_db" where
  "ClaimScanJobByID flt now d i w =
     run_stmt flt d (claim_first now w d (find (\<lambda>j. sj_id j = i \<and> sj_state j = Queued) (sd_jobs d)))"

definition queue_head :: "uuid list \<Rightarrow> scan_job_row list \<Rightarrow> scan_job_row option" where
  "queue_head locked jobs =
     (case sort_by (on_key int_cmp sj_created)
             (filter (\<lambda>j. sj_state j = Queued \<and> \<not> List.member locked (sj_id j)) jobs) of
        [] \<Rightarrow> None | j # _ \<Rightarrow> Some j)"

definition ClaimNextQueuedJob ::
  "fault \<Rightarrow> int \<Rightarrow> uuid list \<Rightarrow> scan_db \<Rightarrow> string \<Rightarrow> scan_claim result \<times> scan_db" where
  "ClaimNextQueuedJob flt now locked d w =
     run_stmt flt d (claim_first now w d (queue_head locked (sd_jobs d)))"

section \<open>Settling\<close>

definition FinishScanJobByID ::
  "fault \<Rightarrow> int \<Rightarrow> scan_db \<Rightarrow> uuid \<Rightarrow> uuid option \<Rightarrow> unit result \<times> scan_db" where
  "FinishScanJobByID flt now d i sbom =
     run_stmt flt d (Inr (), update_jobs (\<lambda>j. sj_id j = i)
       (\<lambda>j. j\<lparr>sj_state := Succeeded, sj_finished := Some now, sj_sbom := sbom\<rparr>) d)"

definition fail_or_requeue_row ::
  "int \<Rightarrow> int \<Rightarrow> string option \<Rightarrow> scan_job_row \<Rightarrow> scan_job_row" where
  "fail_or_requeue_row now max_attempts err j =
     (if sj_attempts j \<ge> max_attempts
      then j\<lparr>sj_state := Failed, sj_last_error := err, sj_finished := Some now\<rparr>
      else j\<lparr>sj_state := Queued, sj_last_error := err, sj_finished := None, sj_worker := None\<rparr>)"

definition FailOrRequeueScanJobByID ::
  "fault \<Rightarrow> int \<Rightarrow> scan_db \<Rightarrow> uuid \<Rightarrow> string option \<Rightarrow> int \<Rightarrow> job_state result \<times> scan_db" where
  "FailOrRequeueScanJobByID flt now d i err max_attempts =
     run_stmt flt d
       (case find (\<lambda>j. sj_id j = i \<and> \<not> terminal (sj_state j)) (sd_jobs d) of
          None \<Rightarrow> (Inl NoRows, d)
        | Some j \<Rightarrow> (Inr (sj_state (fail_or_requeue_row now max_attempts err j)),
                    update_jobs (\<lambda>r. sj_id r = i) (fail_or_requeue_row now max_attempts err) d))"

definition stuck_row :: "int \<Rightarrow> int \<Rightarrow> scan_job_row \<Rightarrow> scan_job_row" where
  "stuck_row now max_attempts =
     (\<lambda>j. fail_or_requeue_row now max_attempts
        (Some (if sj_attempts j \<ge> max_attempts
               then ''stuck: worker did not complete and retries exhausted''
               else ''stuck: worker did not complete (no error reported); requeued for retry'')) j)"

definition before :: "int option \<Rightarrow> int \<Rightarrow> bool" where
  "before t cutoff = (case t of None \<Rightarrow> False | Some x \<Rightarrow> x < cutoff)"

definition RequeueStuckRunning_stmt ::
  "fault \<Rightarrow> int \<Rightarrow> scan_db \<Rightarrow> int \<Rightarrow> int \<Rightarrow> int result \<times> scan_db" where
  "RequeueStuckRunning_stmt flt now d max_attempts stuck_before =
     exec_jobs flt (\<lambda>j. sj_state j = Running \<and> before (sj_last_attempt j) stuck_before)
       (stuck_row now max_attempts) d"

definition FailStaleRequeuedScanJobs :: "fault \<Rightarrow> int \<Rightarrow> scan_db \<Rightarrow> int \<Rightarrow> int result \<times> scan_db" where
  "FailStaleRequeuedScanJobs flt now d stale_before =
     exec_jobs flt (\<lambda>j. sj_state j = Queued \<and> sj_attempts j > 0 \<and> before (sj_last_attempt j) stale_before)
       (\<lambda>j. j\<lparr>sj_state := Failed, sj_finished := Some now,
              sj_last_error := Some (''stale: requeued for retry and not picked up again'' @
                (case sj_last_error j of Some e \<Rightarrow> ''; last error: '' @ e | None \<Rightarrow> []))\<rparr>) d"

definition CancelQueuedScanJob :: "fault \<Rightarrow> int \<Rightarrow> scan_db \<Rightarrow> uuid \<Rightarrow> int result \<times> scan_db" where
  "CancelQueuedScanJob flt now d i =
     exec_jobs flt (\<lambda>j. sj_id j = i \<and> sj_state j = Queued)
       (\<lambda>j. j\<lparr>sj_state := Failed, sj_finished := Some now,
              sj_last_error := Some ''cancelled by an administrator'', sj_worker := None\<rparr>) d"

definition reset_row :: "scan_job_row \<Rightarrow> scan_job_row" where
  "reset_row j =
     j\<lparr>sj_state := Queued, sj_worker := None, sj_attempts := 0, sj_last_error := None,
       sj_finished := None, sj_started := None, sj_last_attempt := None\<rparr>"

definition RetryScanJob :: "fault \<Rightarrow> scan_db \<Rightarrow> uuid \<Rightarrow> int result \<times> scan_db" where
  "RetryScanJob flt d i = exec_jobs flt (\<lambda>j. sj_id j = i \<and> sj_state j = Failed) reset_row d"

definition RetryAllFailedScanJobs :: "fault \<Rightarrow> scan_db \<Rightarrow> int result \<times> scan_db" where
  "RetryAllFailedScanJobs flt d = exec_jobs flt (\<lambda>j. sj_state j = Failed) reset_row d"

section \<open>Entering and leaving the table\<close>

record enqueue_params =
  ep_registry :: string
  ep_cluster :: string
  ep_host :: string
  ep_repository :: string
  ep_digest :: string
  ep_index_digest :: string
  ep_tag :: string
  ep_msg :: string
  ep_force :: bool

text \<open>The row an insert proposes; \<open>id\<close> is what \<open>gen_random_uuid()\<close> returned.\<close>

definition fresh_row ::
  "uuid \<Rightarrow> int \<Rightarrow> uuid option \<Rightarrow> uuid option \<Rightarrow> string option \<Rightarrow> string \<Rightarrow> string \<Rightarrow> string option \<Rightarrow>
   string option \<Rightarrow> string option \<Rightarrow> string option \<Rightarrow> scan_job_row" where
  "fresh_row i now reg cluster host repo digest index tag msg trace =
     \<lparr>sj_id = i, sj_registry = reg, sj_repository = repo, sj_digest = digest, sj_tag = tag,
      sj_state = Queued, sj_attempts = 0, sj_last_error = None, sj_msg = msg, sj_sbom = None,
      sj_created = now, sj_started = None, sj_finished = None, sj_last_attempt = None,
      sj_worker = None, sj_index_digest = index, sj_trace = trace, sj_cluster = cluster, sj_host = host\<rparr>"

text \<open>\<open>ON CONFLICT (nats_msg_id)\<close>: a succeeded row, or with \<open>force\<close> a pruned one, is queued again; any
  other keeps its state and takes the new index digest and tag only.\<close>

definition conflict_row :: "bool \<Rightarrow> scan_job_row \<Rightarrow> scan_job_row \<Rightarrow> scan_job_row" where
  "conflict_row force new old =
     (let done = sj_state old = Succeeded;
          again = (done \<or> sj_state old = Pruned \<and> force)
      in old\<lparr>sj_state := (if again then Queued else sj_state old),
             sj_attempts := (if again then 0 else sj_attempts old),
             sj_last_error := (if done then None else sj_last_error old),
             sj_finished := (if done then None else sj_finished old),
             sj_started := (if done then None else sj_started old),
             sj_last_attempt := (if again then None else sj_last_attempt old),
             sj_sbom := (if done then None else sj_sbom old),
             sj_index_digest := sj_index_digest new, sj_tag := sj_tag new,
             sj_trace := (if again then sj_trace new else sj_trace old)\<rparr>)"

definition msg_conflict :: "scan_db \<Rightarrow> scan_job_row \<Rightarrow> scan_job_row option" where
  "msg_conflict d new =
     (case sj_msg new of None \<Rightarrow> None | Some m \<Rightarrow> find (\<lambda>j. sj_msg j = Some m) (sd_jobs d))"

definition InsertScanJob ::
  "fault \<Rightarrow> scan_db \<Rightarrow> bool \<Rightarrow> scan_job_row \<Rightarrow> scan_job_row result \<times> scan_db" where
  "InsertScanJob flt d force new =
     run_stmt flt d
       (case msg_conflict d new of
          Some old \<Rightarrow> (Inr (conflict_row force new old),
                      update_jobs (\<lambda>j. sj_id j = sj_id old) (conflict_row force new) d)
        | None \<Rightarrow> if List.member (map sj_id (sd_jobs d)) (sj_id new) then (Inl UniqueViolation, d)
                  else (Inr new, d\<lparr>sd_jobs := sd_jobs d @ [new]\<rparr>))"

definition RecordRefusedScanJob ::
  "fault \<Rightarrow> int \<Rightarrow> scan_db \<Rightarrow> scan_job_row \<Rightarrow> string option \<Rightarrow> unit result \<times> scan_db" where
  "RecordRefusedScanJob flt now d new err =
     run_stmt flt d
       (case msg_conflict d new of
          Some old \<Rightarrow> (Inr (), d)
        | None \<Rightarrow> if List.member (map sj_id (sd_jobs d)) (sj_id new) then (Inl UniqueViolation, d)
                  else (Inr (), d\<lparr>sd_jobs := sd_jobs d @
                          [new\<lparr>sj_state := Failed, sj_last_error := err, sj_finished := Some now\<rparr>]\<rparr>))"

definition DeleteFailedScanJobs :: "fault \<Rightarrow> scan_db \<Rightarrow> uuid list \<Rightarrow> int result \<times> scan_db" where
  "DeleteFailedScanJobs flt d ids =
     (let gone = (\<lambda>j. sj_state j = Failed \<and> List.member ids (sj_id j)) in
      run_stmt flt d
        (Inr (count_where gone (sd_jobs d)), d\<lparr>sd_jobs := filter (\<lambda>j. \<not> gone j) (sd_jobs d)\<rparr>))"

text \<open>The tombstones of an explicit delete: the succeeded jobs behind an SBOM, or behind every SBOM of an
  artifact.\<close>

definition job_source :: "scan_job_row \<Rightarrow> uuid option" where
  "job_source j = (case sj_cluster j of Some c \<Rightarrow> Some c | None \<Rightarrow> sj_registry j)"

definition prune_jobs :: "fault \<Rightarrow> int \<Rightarrow> scan_db \<Rightarrow> (job_sbom \<Rightarrow> bool) \<Rightarrow> int result \<times> scan_db" where
  "prune_jobs flt now d P =
     exec_jobs flt
       (\<lambda>j. sj_state j = Succeeded \<and>
          list_ex (\<lambda>s. P s \<and> job_source j \<noteq> None \<and> js_source s = job_source j \<and>
            js_digest s = Some (sj_digest j)) (sd_sboms d))
       (\<lambda>j. j\<lparr>sj_state := Pruned, sj_finished := Some now\<rparr>) d"

definition PruneScanJobsForSBOM :: "fault \<Rightarrow> int \<Rightarrow> scan_db \<Rightarrow> uuid \<Rightarrow> int result \<times> scan_db" where
  "PruneScanJobsForSBOM flt now d i = prune_jobs flt now d (\<lambda>s. js_id s = i)"

definition PruneScanJobsForArtifact :: "fault \<Rightarrow> int \<Rightarrow> scan_db \<Rightarrow> uuid \<Rightarrow> int result \<times> scan_db" where
  "PruneScanJobsForArtifact flt now d a = prune_jobs flt now d (\<lambda>s. js_artifact s = Some a)"

text \<open>The statements of the older, message-keyed protocol.\<close>

definition by_msg :: "string option \<Rightarrow> scan_job_row \<Rightarrow> bool" where
  "by_msg m j \<longleftrightarrow> m \<noteq> None \<and> sj_msg j = m"

definition StartScanJob :: "fault \<Rightarrow> int \<Rightarrow> scan_db \<Rightarrow> string option \<Rightarrow> string option \<Rightarrow> int result \<times> scan_db" where
  "StartScanJob flt now d msg w =
     exec_jobs flt (\<lambda>j. by_msg msg j \<and> \<not> terminal (sj_state j))
       (\<lambda>j. (claim_row now [] j)\<lparr>sj_worker := w\<rparr>) d"

definition FinishScanJob :: "fault \<Rightarrow> int \<Rightarrow> scan_db \<Rightarrow> string option \<Rightarrow> uuid option \<Rightarrow> int result \<times> scan_db" where
  "FinishScanJob flt now d msg sbom =
     exec_jobs flt (by_msg msg)
       (\<lambda>j. j\<lparr>sj_state := Succeeded, sj_finished := Some now, sj_sbom := sbom\<rparr>) d"

definition FailScanJob :: "fault \<Rightarrow> int \<Rightarrow> scan_db \<Rightarrow> string option \<Rightarrow> string option \<Rightarrow> int result \<times> scan_db" where
  "FailScanJob flt now d msg err =
     exec_jobs flt (by_msg msg)
       (\<lambda>j. j\<lparr>sj_state := Failed, sj_finished := Some now, sj_last_error := err\<rparr>) d"

definition TimeoutScanJobs :: "fault \<Rightarrow> int \<Rightarrow> scan_db \<Rightarrow> int \<Rightarrow> int result \<times> scan_db" where
  "TimeoutScanJobs flt now d started_before =
     exec_jobs flt
       (\<lambda>j. sj_state j = Running \<and>
          before (case sj_last_attempt j of Some t \<Rightarrow> Some t | None \<Rightarrow> sj_started j) started_before)
       (\<lambda>j. j\<lparr>sj_state := Failed, sj_finished := Some now,
              sj_last_error := Some ''timed out: job was still running after timeout threshold''\<rparr>) d"

end
