(* ===== verification/ScanJobService.thy ===== *)
theory ScanJobService
  imports ScanJobs
begin

text \<open>
  The reads of \<^verbatim>\<open>scan_jobs.sql.go\<close> and the service of \<^verbatim>\<open>internal/service/job.go\<close>. Job ids arrive as strings
  and are parsed by the argument \<open>parse\<close>; \<open>box\<close> opens a stored credential under its additional data.
\<close>

section \<open>Reads\<close>

text \<open>A job is visible with the namespace of its source: the cluster's when it has one, the registry's
  otherwise; with neither it is for administrators only.\<close>

definition job_visible :: "scan_db \<Rightarrow> bool \<Rightarrow> uuid option \<Rightarrow> scan_job_row \<Rightarrow> bool" where
  "job_visible d is_admin user j \<longleftrightarrow>
     is_admin \<or>
     (case job_source j of None \<Rightarrow> False
      | Some s \<Rightarrow> list_ex (\<lambda>(i, n). i = s \<and> List.member (visible_namespace_ids (sd_ns d) user is_admin) n)
                    (sd_sources d))"

definition state_filter :: "string option \<Rightarrow> job_state \<Rightarrow> bool" where
  "state_filter f s = (case f of None \<Rightarrow> True | Some t \<Rightarrow> state_str s = t)"

fun state_bucket :: "job_state \<Rightarrow> int" where
  "state_bucket Running = 1"
| "state_bucket Queued = 2"
| "state_bucket Failed = 3"
| "state_bucket Succeeded = 4"
| "state_bucket Pruned = 5"

definition job_order :: "scan_job_row \<Rightarrow> scan_job_row \<Rightarrow> int" where
  "job_order = then_cmp (on_key int_cmp (\<lambda>j. state_bucket (sj_state j)))
     (then_cmp (reverse_cmp (on_key int_cmp sj_created)) (on_key uuid_cmp sj_id))"

definition ListScanJobs ::
  "fault \<Rightarrow> scan_db \<Rightarrow> string option \<Rightarrow> bool \<Rightarrow> uuid option \<Rightarrow> int \<Rightarrow> int \<Rightarrow> scan_job_row list result" where
  "ListScanJobs flt d st is_admin user lim off =
     read_stmt flt (page lim off (sort_by job_order
       (filter (\<lambda>j. state_filter st (sj_state j) \<and> job_visible d is_admin user j) (sd_jobs d))))"

definition CountScanJobs ::
  "fault \<Rightarrow> scan_db \<Rightarrow> string option \<Rightarrow> bool \<Rightarrow> uuid option \<Rightarrow> int result" where
  "CountScanJobs flt d st is_admin user =
     read_stmt flt (Inr (count_where
       (\<lambda>j. state_filter st (sj_state j) \<and> job_visible d is_admin user j) (sd_jobs d)))"

definition CountScanJobsSince :: "fault \<Rightarrow> scan_db \<Rightarrow> string \<Rightarrow> int \<Rightarrow> int result" where
  "CountScanJobsSince flt d st since =
     read_stmt flt (Inr (count_where
       (\<lambda>j. state_str (sj_state j) = st \<and>
            (case sj_finished j of None \<Rightarrow> False | Some t \<Rightarrow> t \<ge> since)) (sd_jobs d)))"

definition GetScanJob ::
  "fault \<Rightarrow> scan_db \<Rightarrow> uuid \<Rightarrow> bool \<Rightarrow> uuid option \<Rightarrow> scan_job_row result" where
  "GetScanJob flt d i is_admin user =
     read_stmt flt
       (case find (\<lambda>j. sj_id j = i \<and> job_visible d is_admin user j) (sd_jobs d) of
          None \<Rightarrow> Inl NoRows | Some j \<Rightarrow> Inr j)"

text \<open>\<open>GROUP BY state\<close> over the two active states; a state without rows has no group.\<close>

definition CountActiveScanJobs :: "fault \<Rightarrow> scan_db \<Rightarrow> (string \<times> int) list result" where
  "CountActiveScanJobs flt d =
     read_stmt flt (Inr (filter (\<lambda>(s, n). n > 0)
       (map (\<lambda>s. (state_str s, count_where (\<lambda>j. sj_state j = s) (sd_jobs d))) [Queued, Running])))"

section \<open>Credentials\<close>

type_synonym credential_box = "string \<Rightarrow> string \<Rightarrow> string result"

definition colAuthToken :: string where "colAuthToken = ''auth_token''"

text \<open>\<open>aad\<close> is \<open>secretbox.AAD\<close> over the table, the column and the row.\<close>

definition openCredential ::
  "(string list \<Rightarrow> string) \<Rightarrow> credential_box \<Rightarrow> string \<Rightarrow> string \<Rightarrow> string \<Rightarrow> string result" where
  "openCredential aad box column registryID stored =
     (case box stored (aad [''registry'', column, registryID]) of
        Inl e \<Rightarrow> Inl (Wrapped (''registry '' @ registryID @ '' '' @ column) e)
      | Inr pt \<Rightarrow> Inr pt)"

definition openAuthToken ::
  "(string list \<Rightarrow> string) \<Rightarrow> credential_box \<Rightarrow> string \<Rightarrow> string \<Rightarrow> string result" where
  "openAuthToken aad box registryID stored =
     (if stored = [] then Inr [] else openCredential aad box colAuthToken registryID stored)"

section \<open>The service\<close>

record scan_job =
  jb_id :: string
  jb_registry :: "string option"
  jb_repository :: string
  jb_digest :: string
  jb_tag :: "string option"
  jb_state :: job_state
  jb_attempts :: int
  jb_last_error :: "string option"
  jb_msg :: "string option"
  jb_sbom :: "string option"
  jb_created :: int
  jb_started :: "int option"
  jb_last_attempt :: "int option"
  jb_finished :: "int option"
  jb_worker :: "string option"

definition fromJobRow :: "scan_job_row \<Rightarrow> scan_job" where
  "fromJobRow r =
     \<lparr>jb_id = uuid_str (sj_id r), jb_registry = map_option uuid_str (sj_registry r),
      jb_repository = sj_repository r, jb_digest = sj_digest r, jb_tag = sj_tag r,
      jb_state = sj_state r, jb_attempts = sj_attempts r, jb_last_error = sj_last_error r,
      jb_msg = sj_msg r, jb_sbom = map_option uuid_str (sj_sbom r), jb_created = sj_created r,
      jb_started = sj_started r, jb_last_attempt = sj_last_attempt r, jb_finished = sj_finished r,
      jb_worker = sj_worker r\<rparr>"

definition nullStr :: "string \<Rightarrow> string option" where
  "nullStr s = (if s = [] then None else Some s)"

definition optionalUUID :: "uuid_parser \<Rightarrow> string \<Rightarrow> uuid option" where
  "optionalUUID parse i = (if i = [] then None else parse i)"

definition wrap_err :: "string \<Rightarrow> 'a result \<Rightarrow> 'a result" where
  "wrap_err m r = (case r of Inl e \<Rightarrow> Inl (Wrapped m e) | Inr x \<Rightarrow> Inr x)"

text \<open>\<open>trace\<close> is the caller's trace context, \<open>i\<close> the id the database draws.\<close>

definition EnqueueJob ::
  "uuid_parser \<Rightarrow> fault \<Rightarrow> int \<Rightarrow> uuid \<Rightarrow> string \<Rightarrow> scan_db \<Rightarrow> enqueue_params \<Rightarrow> scan_job result \<times> scan_db" where
  "EnqueueJob parse flt now i trace d p =
     (case InsertScanJob flt d (ep_force p)
        (fresh_row i now (optionalUUID parse (ep_registry p)) (optionalUUID parse (ep_cluster p))
           (nullStr (ep_host p)) (ep_repository p) (ep_digest p) (nullStr (ep_index_digest p))
           (nullStr (ep_tag p)) (nullStr (ep_msg p)) (nullStr trace)) of
        (Inl e, d') \<Rightarrow> (Inl (Wrapped ''inserting scan job'' e), d')
      | (Inr row, d') \<Rightarrow> (Inr (fromJobRow row), d'))"

definition ScanJobKey :: "string \<Rightarrow> string \<Rightarrow> string" where
  "ScanJobKey sourceID digest = sourceID @ ''@'' @ digest"

definition Job_Enqueue ::
  "uuid_parser \<Rightarrow> fault \<Rightarrow> int \<Rightarrow> uuid \<Rightarrow> string \<Rightarrow> scan_db \<Rightarrow> string \<Rightarrow> string \<Rightarrow> string \<Rightarrow> string \<Rightarrow> string \<Rightarrow>
   string \<Rightarrow> bool \<Rightarrow> scan_job result \<times> scan_db" where
  "Job_Enqueue parse flt now i trace d registryID repo digest indexDigest tag msgID force =
     EnqueueJob parse flt now i trace d
       \<lparr>ep_registry = registryID, ep_cluster = [], ep_host = [], ep_repository = repo, ep_digest = digest,
        ep_index_digest = indexDigest, ep_tag = tag, ep_msg = msgID, ep_force = force\<rparr>"

text \<open>A claim whose token cannot be opened is an error, and its row stays claimed.\<close>

definition deliver_claim ::
  "(string list \<Rightarrow> string) \<Rightarrow> credential_box \<Rightarrow> string \<Rightarrow> scan_claim result \<times> scan_db \<Rightarrow>
   scan_claim option result \<times> scan_db" where
  "deliver_claim aad box what r =
     (case r of
        (Inl e, d) \<Rightarrow> (if errors_is e NoRows then Inr None else Inl (Wrapped what e), d)
      | (Inr c, d) \<Rightarrow>
          (case openAuthToken aad box (sc_registry c) (sc_token c) of
             Inl e \<Rightarrow> (Inl e, d)
           | Inr t \<Rightarrow> (Inr (Some (c\<lparr>sc_token := t\<rparr>)), d)))"

definition Job_ClaimByID ::
  "uuid_parser \<Rightarrow> (string list \<Rightarrow> string) \<Rightarrow> credential_box \<Rightarrow> fault \<Rightarrow> int \<Rightarrow> scan_db \<Rightarrow> string \<Rightarrow> string \<Rightarrow>
   scan_claim option result \<times> scan_db" where
  "Job_ClaimByID parse aad box flt now d i w =
     (case parse i of
        None \<Rightarrow> (Inr None, d)
      | Some uid \<Rightarrow> deliver_claim aad box ''claim scan job by id'' (ClaimScanJobByID flt now d uid w))"

definition Job_ClaimNext ::
  "(string list \<Rightarrow> string) \<Rightarrow> credential_box \<Rightarrow> fault \<Rightarrow> int \<Rightarrow> uuid list \<Rightarrow> scan_db \<Rightarrow> string \<Rightarrow>
   scan_claim option result \<times> scan_db" where
  "Job_ClaimNext aad box flt now locked d w =
     deliver_claim aad box ''claim next queued job'' (ClaimNextQueuedJob flt now locked d w)"

definition with_id ::
  "uuid_parser \<Rightarrow> string \<Rightarrow> 'd \<Rightarrow> (uuid \<Rightarrow> 'a result \<times> 'd) \<Rightarrow> 'a result \<times> 'd" where
  "with_id parse i d f =
     (case parse i of
        None \<Rightarrow> (Inl (Wrapped ''invalid job id'' (OtherError ''invalid UUID'')), d)
      | Some uid \<Rightarrow> f uid)"

definition Job_FinishByID ::
  "uuid_parser \<Rightarrow> fault \<Rightarrow> int \<Rightarrow> scan_db \<Rightarrow> string \<Rightarrow> uuid option \<Rightarrow> unit result \<times> scan_db" where
  "Job_FinishByID parse flt now d i sbom = with_id parse i d (\<lambda>uid. FinishScanJobByID flt now d uid sbom)"

definition Job_FailOrRequeue ::
  "uuid_parser \<Rightarrow> fault \<Rightarrow> int \<Rightarrow> scan_db \<Rightarrow> string \<Rightarrow> string \<Rightarrow> int \<Rightarrow> string result \<times> scan_db" where
  "Job_FailOrRequeue parse flt now d i err max_attempts =
     with_id parse i d (\<lambda>uid.
       case FailOrRequeueScanJobByID flt now d uid (nullStr err) max_attempts of
         (Inl e, d') \<Rightarrow> (if errors_is e NoRows then Inr [] else Inl (Wrapped ''fail or requeue scan job'' e), d')
       | (Inr s, d') \<Rightarrow> (Inr (state_str s), d'))"

definition staleRequeuedAfter :: int where "staleRequeuedAfter = 24 * 3600 * 1000000000"

definition Job_RequeueStuckRunning ::
  "fault \<Rightarrow> fault \<Rightarrow> int \<Rightarrow> scan_db \<Rightarrow> int \<Rightarrow> int \<Rightarrow> unit result \<times> scan_db" where
  "Job_RequeueStuckRunning f1 f2 now d stuckThreshold max_attempts =
     (case RequeueStuckRunning_stmt f1 now d max_attempts (now - stuckThreshold) of
        (Inl e, d1) \<Rightarrow> (Inl e, d1)
      | (Inr _, d1) \<Rightarrow>
          (case FailStaleRequeuedScanJobs f2 now d1 (now - staleRequeuedAfter) of
             (Inl e, d2) \<Rightarrow> (Inl (Wrapped ''failing stale requeued scan jobs'' e), d2)
           | (Inr _, d2) \<Rightarrow> (Inr (), d2)))"

definition Job_Cancel :: "uuid_parser \<Rightarrow> fault \<Rightarrow> int \<Rightarrow> scan_db \<Rightarrow> string \<Rightarrow> unit result \<times> scan_db" where
  "Job_Cancel parse flt now d i =
     (case parse i of
        None \<Rightarrow> (Inl ErrNotFound, d)
      | Some uid \<Rightarrow>
          (case CancelQueuedScanJob flt now d uid of
             (Inl e, d') \<Rightarrow> (Inl (Wrapped ''cancel scan job'' e), d')
           | (Inr n, d') \<Rightarrow> (if n = 0 then Inl ErrNotFound else Inr (), d')))"

definition Job_Retry :: "uuid_parser \<Rightarrow> fault \<Rightarrow> scan_db \<Rightarrow> string \<Rightarrow> int result \<times> scan_db" where
  "Job_Retry parse flt d i = with_id parse i d (RetryScanJob flt d)"

definition Job_RetryAllFailed :: "fault \<Rightarrow> scan_db \<Rightarrow> int result \<times> scan_db" where
  "Job_RetryAllFailed flt d = RetryAllFailedScanJobs flt d"

definition Job_Start :: "fault \<Rightarrow> int \<Rightarrow> scan_db \<Rightarrow> string \<Rightarrow> string \<Rightarrow> int result \<times> scan_db" where
  "Job_Start flt now d msgID workerID = StartScanJob flt now d (nullStr msgID) (nullStr workerID)"

definition Job_Finish :: "fault \<Rightarrow> int \<Rightarrow> scan_db \<Rightarrow> string \<Rightarrow> uuid option \<Rightarrow> int result \<times> scan_db" where
  "Job_Finish flt now d msgID sbom = FinishScanJob flt now d (nullStr msgID) sbom"

definition Job_Fail :: "fault \<Rightarrow> int \<Rightarrow> scan_db \<Rightarrow> string \<Rightarrow> string \<Rightarrow> int result \<times> scan_db" where
  "Job_Fail flt now d msgID err = FailScanJob flt now d (nullStr msgID) (nullStr err)"

definition Job_TimeoutJobs :: "fault \<Rightarrow> int \<Rightarrow> scan_db \<Rightarrow> int \<Rightarrow> int result \<times> scan_db" where
  "Job_TimeoutJobs flt now d olderThan = TimeoutScanJobs flt now d (now - olderThan)"

definition Job_List ::
  "fault \<Rightarrow> fault \<Rightarrow> scan_db \<Rightarrow> string \<Rightarrow> visibility_filter \<Rightarrow> int \<Rightarrow> int \<Rightarrow> (scan_job list \<times> int) result" where
  "Job_List f1 f2 d st vis lim off =
     bind_result (wrap_err ''listing scan jobs''
        (ListScanJobs f1 d (nullStr st) (vf_is_admin vis) (vf_user_id vis) lim off)) (\<lambda>rows.
     bind_result (wrap_err ''counting scan jobs''
        (CountScanJobs f2 d (nullStr st) (vf_is_admin vis) (vf_user_id vis))) (\<lambda>n.
     Inr (map fromJobRow rows, n)))"

definition Job_Get ::
  "uuid_parser \<Rightarrow> fault \<Rightarrow> scan_db \<Rightarrow> string \<Rightarrow> visibility_filter \<Rightarrow> scan_job result" where
  "Job_Get parse flt d i vis =
     (case parse i of
        None \<Rightarrow> Inl ErrNotFound
      | Some uid \<Rightarrow>
          (case GetScanJob flt d uid (vf_is_admin vis) (vf_user_id vis) of
             Inl e \<Rightarrow> Inl ErrNotFound | Inr row \<Rightarrow> Inr (fromJobRow row)))"

definition Job_CountByState :: "(nat \<Rightarrow> fault) \<Rightarrow> int \<Rightarrow> scan_db \<Rightarrow> (int \<times> int \<times> int \<times> int) result" where
  "Job_CountByState flt now d =
     (let since = now - 24 * 3600 * 1000000000 in
      bind_result (CountScanJobs (flt 0) d (Some ''queued'') True None) (\<lambda>queued.
      bind_result (CountScanJobs (flt 1) d (Some ''running'') True None) (\<lambda>running.
      bind_result (CountScanJobsSince (flt 2) d ''succeeded'' since) (\<lambda>succ.
      bind_result (CountScanJobsSince (flt 3) d ''failed'' since) (\<lambda>fail.
      Inr (queued, running, succ, fail))))))"

definition Job_CountActive :: "fault \<Rightarrow> scan_db \<Rightarrow> (string \<times> int) list result" where
  "Job_CountActive flt d = wrap_err ''count active scan jobs'' (CountActiveScanJobs flt d)"

end
