(* ===== verification/EnrichJobs.thy ===== *)
theory EnrichJobs
  imports ScanJobService
begin

text \<open>
  The enrichment pipeline's outbox: the table \<open>enrichment_jobs\<close> (migrations 00034, 00036, 00057, 00084),
  its statements in \<^verbatim>\<open>internal/repository/enrichment_jobs.sql.go\<close> and the service of
  \<^verbatim>\<open>internal/service/enrichjob.go\<close>, with the tables its claims and its processor read and write: \<open>sbom\<close>,
  \<open>artifact\<close>, \<open>source\<close>, \<open>enrichment\<close> and the two of provenance drift.
\<close>

section \<open>Tables\<close>

record enrich_job_row =
  ej_id :: uuid
  ej_sbom :: uuid
  ej_state :: job_state
  ej_attempts :: int
  ej_last_error :: "string option"
  ej_key :: "string option"
  ej_worker :: "string option"
  ej_arch :: "string option"
  ej_build :: "string option"
  ej_created :: int
  ej_started :: "int option"
  ej_last_attempt :: "int option"
  ej_finished :: "int option"
  ej_enricher :: string
  ej_trace :: "string option"

record enrich_sbom =
  es_id :: uuid
  es_artifact :: "uuid option"
  es_source :: "uuid option"
  es_digest :: "string option"
  es_index_digest :: "string option"
  es_version :: "string option"
  es_sufficient :: bool
  es_ns :: uuid

record artifact_name =
  an_type :: string
  an_name :: string

record enrichment_row =
  en_sbom :: uuid
  en_name :: string
  en_status :: string
  en_data :: "string option"
  en_error :: "string option"
  en_updated :: int

text \<open>A row of \<open>provenance_drift_pending\<close> (\<open>dr_at\<close> is \<open>first_seen_at\<close>) or of \<open>provenance_drift_events\<close>
  (\<open>detected_at\<close>).\<close>

record drift_row =
  dr_sbom :: uuid
  dr_prev :: string
  dr_new :: string
  dr_reason :: string
  dr_prev_data :: string
  dr_new_data :: string
  dr_at :: int

record enrich_db =
  ed_jobs :: "enrich_job_row list"
  ed_sboms :: "enrich_sbom list"
  ed_artifacts :: "(uuid \<times> artifact_name) list"
  ed_sources :: "(uuid \<times> string) list"
  ed_enrichments :: "enrichment_row list"
  ed_pending :: "drift_row list"
  ed_events :: "drift_row list"
  ed_ns :: db

definition update_ejobs ::
  "(enrich_job_row \<Rightarrow> bool) \<Rightarrow> (enrich_job_row \<Rightarrow> enrich_job_row) \<Rightarrow> enrich_db \<Rightarrow> enrich_db" where
  "update_ejobs P f d = d\<lparr>ed_jobs := update_where P f (ed_jobs d)\<rparr>"

definition exec_ejobs ::
  "fault \<Rightarrow> (enrich_job_row \<Rightarrow> bool) \<Rightarrow> (enrich_job_row \<Rightarrow> enrich_job_row) \<Rightarrow> enrich_db \<Rightarrow>
   int result \<times> enrich_db" where
  "exec_ejobs flt P f d =
     run_stmt flt d (Inr (count_where P (ed_jobs d)), update_ejobs P f d)"

section \<open>Claiming\<close>

record enrich_claim =
  ec_id :: string
  ec_sbom :: uuid
  ec_attempts :: int
  ec_enricher :: string
  ec_arch :: string
  ec_build :: string
  ec_digest :: string
  ec_index_digest :: string
  ec_version :: string
  ec_artifact_type :: string
  ec_artifact_name :: string
  ec_source :: "uuid option"
  ec_kind :: string
  ec_trace :: string

definition eclaim_row :: "int \<Rightarrow> string \<Rightarrow> enrich_job_row \<Rightarrow> enrich_job_row" where
  "eclaim_row now w j =
     j\<lparr>ej_state := Running,
       ej_started := (case ej_started j of Some t \<Rightarrow> Some t | None \<Rightarrow> Some now),
       ej_last_attempt := Some now, ej_worker := Some w, ej_attempts := ej_attempts j + 1\<rparr>"

text \<open>\<open>FROM claimed JOIN sbom JOIN artifact LEFT JOIN source\<close>: no row when the SBOM has no artifact.\<close>

definition eclaim_of :: "enrich_db \<Rightarrow> enrich_job_row \<Rightarrow> enrich_claim option" where
  "eclaim_of d j =
     (case find (\<lambda>s. es_id s = ej_sbom j) (ed_sboms d) of
        None \<Rightarrow> None
      | Some s \<Rightarrow>
          (case (case es_artifact s of None \<Rightarrow> None | Some a \<Rightarrow> map_of (ed_artifacts d) a) of
             None \<Rightarrow> None
           | Some a \<Rightarrow>
               Some \<lparr>ec_id = uuid_str (ej_id j), ec_sbom = ej_sbom j, ec_attempts = ej_attempts j,
                     ec_enricher = ej_enricher j, ec_arch = coalesce (ej_arch j), ec_build = coalesce (ej_build j),
                     ec_digest = coalesce (es_digest s), ec_index_digest = coalesce (es_index_digest s),
                     ec_version = coalesce (es_version s), ec_artifact_type = an_type a,
                     ec_artifact_name = an_name a, ec_source = es_source s,
                     ec_kind = (case es_source s of None \<Rightarrow> [] | Some i \<Rightarrow> coalesce (map_of (ed_sources d) i)),
                     ec_trace = coalesce (ej_trace j)\<rparr>))"

definition eclaim_first ::
  "int \<Rightarrow> string \<Rightarrow> enrich_db \<Rightarrow> enrich_job_row option \<Rightarrow> enrich_claim result \<times> enrich_db" where
  "eclaim_first now w d found =
     (case found of
        None \<Rightarrow> (Inl NoRows, d)
      | Some j \<Rightarrow>
          ((case eclaim_of d (eclaim_row now w j) of None \<Rightarrow> Inl NoRows | Some c \<Rightarrow> Inr c),
           update_ejobs (\<lambda>r. ej_id r = ej_id j) (eclaim_row now w) d))"

definition ClaimEnrichmentJobByID ::
  "fault \<Rightarrow> int \<Rightarrow> enrich_db \<Rightarrow> uuid \<Rightarrow> string \<Rightarrow> enrich_claim result \<times> enrich_db" where
  "ClaimEnrichmentJobByID flt now d i w =
     run_stmt flt d (eclaim_first now w d (find (\<lambda>j. ej_id j = i \<and> ej_state j = Queued) (ed_jobs d)))"

definition equeue_head :: "uuid list \<Rightarrow> string \<Rightarrow> enrich_job_row list \<Rightarrow> enrich_job_row option" where
  "equeue_head locked enricher jobs =
     (case sort_by (on_key int_cmp ej_created)
             (filter (\<lambda>j. ej_state j = Queued \<and> ej_enricher j = enricher \<and>
                        \<not> List.member locked (ej_id j)) jobs) of
        [] \<Rightarrow> None | j # _ \<Rightarrow> Some j)"

definition ClaimNextEnrichmentJob ::
  "fault \<Rightarrow> int \<Rightarrow> uuid list \<Rightarrow> enrich_db \<Rightarrow> string \<Rightarrow> string \<Rightarrow> enrich_claim result \<times> enrich_db" where
  "ClaimNextEnrichmentJob flt now locked d enricher w =
     run_stmt flt d (eclaim_first now w d (equeue_head locked enricher (ed_jobs d)))"

section \<open>Settling\<close>

definition FinishEnrichmentJobByID :: "fault \<Rightarrow> int \<Rightarrow> enrich_db \<Rightarrow> uuid \<Rightarrow> unit result \<times> enrich_db" where
  "FinishEnrichmentJobByID flt now d i =
     run_stmt flt d (Inr (), update_ejobs (\<lambda>j. ej_id j = i)
       (\<lambda>j. j\<lparr>ej_state := Succeeded, ej_finished := Some now\<rparr>) d)"

definition efail_or_requeue_row :: "int \<Rightarrow> int \<Rightarrow> string option \<Rightarrow> enrich_job_row \<Rightarrow> enrich_job_row" where
  "efail_or_requeue_row now max_attempts err j =
     j\<lparr>ej_state := (if ej_attempts j \<ge> max_attempts then Failed else Queued),
       ej_last_error := err,
       ej_finished := (if ej_attempts j \<ge> max_attempts then Some now else None)\<rparr>"

definition FailOrRequeueEnrichmentJobByID ::
  "fault \<Rightarrow> int \<Rightarrow> enrich_db \<Rightarrow> uuid \<Rightarrow> string option \<Rightarrow> int \<Rightarrow> job_state result \<times> enrich_db" where
  "FailOrRequeueEnrichmentJobByID flt now d i err max_attempts =
     run_stmt flt d
       (case find (\<lambda>j. ej_id j = i \<and> ej_state j \<noteq> Succeeded \<and> ej_state j \<noteq> Failed) (ed_jobs d) of
          None \<Rightarrow> (Inl NoRows, d)
        | Some j \<Rightarrow> (Inr (ej_state (efail_or_requeue_row now max_attempts err j)),
                    update_ejobs (\<lambda>r. ej_id r = i) (efail_or_requeue_row now max_attempts err) d))"

definition estuck_row :: "int \<Rightarrow> int \<Rightarrow> enrich_job_row \<Rightarrow> enrich_job_row" where
  "estuck_row now max_attempts j =
     efail_or_requeue_row now max_attempts
       (if ej_attempts j \<ge> max_attempts
        then Some ''stuck: worker did not complete and retries exhausted'' else ej_last_error j) j"

definition RequeueStuckEnrichmentJobs ::
  "fault \<Rightarrow> int \<Rightarrow> enrich_db \<Rightarrow> int \<Rightarrow> int \<Rightarrow> int result \<times> enrich_db" where
  "RequeueStuckEnrichmentJobs flt now d max_attempts stuck_before =
     exec_ejobs flt (\<lambda>j. ej_state j = Running \<and> before (ej_last_attempt j) stuck_before)
       (estuck_row now max_attempts) d"

definition ereset_row :: "enrich_job_row \<Rightarrow> enrich_job_row" where
  "ereset_row j =
     j\<lparr>ej_state := Queued, ej_attempts := 0, ej_last_error := None, ej_finished := None,
       ej_started := None, ej_last_attempt := None\<rparr>"

definition RequeueEnrichmentJobForRecheck ::
  "fault \<Rightarrow> enrich_db \<Rightarrow> uuid \<Rightarrow> string \<Rightarrow> int result \<times> enrich_db" where
  "RequeueEnrichmentJobForRecheck flt d sbom enricher =
     exec_ejobs flt (\<lambda>j. ej_sbom j = sbom \<and> ej_enricher j = enricher \<and>
       (ej_state j = Succeeded \<or> ej_state j = Failed)) ereset_row d"

definition RetryEnrichmentJob :: "fault \<Rightarrow> enrich_db \<Rightarrow> uuid \<Rightarrow> int result \<times> enrich_db" where
  "RetryEnrichmentJob flt d i = exec_ejobs flt (\<lambda>j. ej_id j = i \<and> ej_state j = Failed) ereset_row d"

definition opt_filter :: "string option \<Rightarrow> string \<Rightarrow> bool" where
  "opt_filter f s \<longleftrightarrow> (case f of None \<Rightarrow> True | Some t \<Rightarrow> s = t)"

definition RetryAllFailedEnrichmentJobs ::
  "fault \<Rightarrow> enrich_db \<Rightarrow> string option \<Rightarrow> int result \<times> enrich_db" where
  "RetryAllFailedEnrichmentJobs flt d enricher =
     exec_ejobs flt (\<lambda>j. ej_state j = Failed \<and> opt_filter enricher (ej_enricher j)) ereset_row d"

section \<open>Entering\<close>

definition fresh_ejob ::
  "uuid \<Rightarrow> int \<Rightarrow> uuid \<Rightarrow> string option \<Rightarrow> string option \<Rightarrow> string option \<Rightarrow> string \<Rightarrow> string option \<Rightarrow>
   enrich_job_row" where
  "fresh_ejob i now sbom key arch build enricher trace =
     \<lparr>ej_id = i, ej_sbom = sbom, ej_state = Queued, ej_attempts = 0, ej_last_error = None, ej_key = key,
      ej_worker = None, ej_arch = arch, ej_build = build, ej_created = now, ej_started = None,
      ej_last_attempt = None, ej_finished = None, ej_enricher = enricher, ej_trace = trace\<rparr>"

text \<open>The table's uniqueness constraints: the id, the idempotency key and the pair (SBOM, enricher).\<close>

definition ejob_conflict :: "enrich_job_row \<Rightarrow> enrich_job_row \<Rightarrow> bool" where
  "ejob_conflict new old \<longleftrightarrow>
     ej_id new = ej_id old \<or> ej_key new \<noteq> None \<and> ej_key new = ej_key old \<or>
     ej_sbom new = ej_sbom old \<and> ej_enricher new = ej_enricher old"

definition InsertEnrichmentJob ::
  "fault \<Rightarrow> enrich_db \<Rightarrow> enrich_job_row \<Rightarrow> enrich_job_row result \<times> enrich_db" where
  "InsertEnrichmentJob flt d new =
     run_stmt flt d
       (if list_ex (ejob_conflict new) (ed_jobs d) then (Inl UniqueViolation, d)
        else if \<not> list_ex (\<lambda>s. es_id s = ej_sbom new) (ed_sboms d)
        then (Inl (OtherError ''violates foreign key constraint''), d)
        else (Inr new, d\<lparr>ed_jobs := ed_jobs d @ [new]\<rparr>))"

section \<open>Reads\<close>

definition ejob_visible :: "enrich_db \<Rightarrow> bool \<Rightarrow> uuid option \<Rightarrow> enrich_job_row \<Rightarrow> bool" where
  "ejob_visible d is_admin user j \<longleftrightarrow>
     is_admin \<or>
     list_ex (\<lambda>s. es_id s = ej_sbom j \<and> List.member (visible_namespace_ids (ed_ns d) user is_admin) (es_ns s))
       (ed_sboms d)"

fun estate_bucket :: "job_state \<Rightarrow> int" where
  "estate_bucket Running = 1"
| "estate_bucket Queued = 2"
| "estate_bucket Failed = 3"
| "estate_bucket Succeeded = 4"
| "estate_bucket Pruned = 5"

definition ejob_order :: "enrich_job_row \<Rightarrow> enrich_job_row \<Rightarrow> int" where
  "ejob_order = then_cmp (on_key int_cmp (\<lambda>j. estate_bucket (ej_state j)))
     (then_cmp (reverse_cmp (on_key int_cmp ej_created)) (on_key uuid_cmp ej_id))"

record enrich_job_listing =
  el_row :: enrich_job_row
  el_digest :: "string option"
  el_artifact :: "string option"

definition enrich_listing :: "enrich_db \<Rightarrow> enrich_job_row \<Rightarrow> enrich_job_listing" where
  "enrich_listing d j =
     (let s = find (\<lambda>s. es_id s = ej_sbom j) (ed_sboms d) in
      \<lparr>el_row = j,
       el_digest = (case s of None \<Rightarrow> None | Some s \<Rightarrow> es_digest s),
       el_artifact = (case s of None \<Rightarrow> None
         | Some s \<Rightarrow> (case es_artifact s of None \<Rightarrow> None | Some a \<Rightarrow> map_option an_name (map_of (ed_artifacts d) a)))\<rparr>)"

definition listed_ejobs ::
  "enrich_db \<Rightarrow> string option \<Rightarrow> string option \<Rightarrow> bool \<Rightarrow> uuid option \<Rightarrow> enrich_job_row list" where
  "listed_ejobs d st enricher is_admin user =
     filter (\<lambda>j. state_filter st (ej_state j) \<and> opt_filter enricher (ej_enricher j) \<and>
       ejob_visible d is_admin user j) (ed_jobs d)"

definition ListEnrichmentJobs ::
  "fault \<Rightarrow> enrich_db \<Rightarrow> string option \<Rightarrow> string option \<Rightarrow> bool \<Rightarrow> uuid option \<Rightarrow> int \<Rightarrow> int \<Rightarrow>
   enrich_job_listing list result" where
  "ListEnrichmentJobs flt d st enricher is_admin user off lim =
     read_stmt flt (map_sum id (map (enrich_listing d))
       (page lim off (sort_by ejob_order (listed_ejobs d st enricher is_admin user))))"

definition CountEnrichmentJobs ::
  "fault \<Rightarrow> enrich_db \<Rightarrow> string option \<Rightarrow> string option \<Rightarrow> bool \<Rightarrow> uuid option \<Rightarrow> int result" where
  "CountEnrichmentJobs flt d st enricher is_admin user =
     read_stmt flt (Inr (int (length (listed_ejobs d st enricher is_admin user))))"

definition CountActiveEnrichmentJobs :: "fault \<Rightarrow> enrich_db \<Rightarrow> string \<Rightarrow> (string \<times> int) list result" where
  "CountActiveEnrichmentJobs flt d enricher =
     read_stmt flt (Inr (map (\<lambda>s. (state_str s,
       count_where (\<lambda>j. ej_enricher j = enricher \<and> ej_state j = s) (ed_jobs d))) [Queued, Running]))"

text \<open>\<open>GROUP BY enricher_name, state\<close> over the visible jobs.\<close>

definition SummarizeEnrichmentJobs ::
  "fault \<Rightarrow> enrich_db \<Rightarrow> bool \<Rightarrow> uuid option \<Rightarrow> (string \<times> string \<times> int) list result" where
  "SummarizeEnrichmentJobs flt d is_admin user =
     (let jobs = filter (ejob_visible d is_admin user) (ed_jobs d) in
      read_stmt flt (Inr (map (\<lambda>(n, s). (n, state_str s, count_where (\<lambda>j. ej_enricher j = n \<and> ej_state j = s) jobs))
        (remdups (map (\<lambda>j. (ej_enricher j, ej_state j)) jobs)))))"

section \<open>The service\<close>

text \<open>A row that is already there is not an error.\<close>

definition Enrich_Enqueue ::
  "fault \<Rightarrow> int \<Rightarrow> uuid \<Rightarrow> string \<Rightarrow> enrich_db \<Rightarrow> uuid \<Rightarrow> string \<Rightarrow> string \<Rightarrow> string \<Rightarrow>
   go_error option \<times> enrich_db" where
  "Enrich_Enqueue flt now i trace d sbom arch build enricher =
     (let key = uuid_str sbom @ '':'' @ enricher in
      case InsertEnrichmentJob flt d
             (fresh_ejob i now sbom (Some key) (nullStr arch) (nullStr build) enricher (nullStr trace)) of
        (Inl e, d') \<Rightarrow> (if isUniqueViolation e then None else Some (Wrapped ''inserting enrichment job'' e), d')
      | (Inr _, d') \<Rightarrow> (None, d'))"

definition edeliver :: "string \<Rightarrow> enrich_claim result \<times> enrich_db \<Rightarrow> enrich_claim option result \<times> enrich_db" where
  "edeliver what r =
     (case r of
        (Inl e, d) \<Rightarrow> (if errors_is e NoRows then Inr None else Inl (Wrapped what e), d)
      | (Inr c, d) \<Rightarrow> (Inr (Some c), d))"

text \<open>\<open>enrichClaimFromRow\<close> of a claim by id has no enricher name.\<close>

definition enrichClaimFromRow :: "enrich_claim \<Rightarrow> enrich_claim" where
  "enrichClaimFromRow c = c\<lparr>ec_enricher := []\<rparr>"

definition enrichClaimFromNextRow :: "enrich_claim \<Rightarrow> enrich_claim" where
  "enrichClaimFromNextRow c = c"

definition Enrich_ClaimByID ::
  "uuid_parser \<Rightarrow> fault \<Rightarrow> int \<Rightarrow> enrich_db \<Rightarrow> string \<Rightarrow> string \<Rightarrow> enrich_claim option result \<times> enrich_db" where
  "Enrich_ClaimByID parse flt now d i w =
     (case parse i of
        None \<Rightarrow> (Inr None, d)
      | Some uid \<Rightarrow>
          map_prod (map_sum id (map_option enrichClaimFromRow)) id
            (edeliver ''claim enrichment job by id'' (ClaimEnrichmentJobByID flt now d uid w)))"

definition Enrich_ClaimNext ::
  "string \<Rightarrow> fault \<Rightarrow> int \<Rightarrow> uuid list \<Rightarrow> enrich_db \<Rightarrow> string \<Rightarrow> enrich_claim option result \<times> enrich_db" where
  "Enrich_ClaimNext enricher flt now locked d w =
     map_prod (map_sum id (map_option enrichClaimFromNextRow)) id
       (edeliver ''claim next enrichment job'' (ClaimNextEnrichmentJob flt now locked d enricher w))"

definition with_ejob_id ::
  "uuid_parser \<Rightarrow> string \<Rightarrow> string \<Rightarrow> 'd \<Rightarrow> (uuid \<Rightarrow> 'a result \<times> 'd) \<Rightarrow> 'a result \<times> 'd" where
  "with_ejob_id parse what i d f =
     (case parse i of
        None \<Rightarrow> (Inl (Wrapped what (OtherError ''invalid UUID'')), d)
      | Some uid \<Rightarrow> f uid)"

definition Enrich_FinishByID ::
  "uuid_parser \<Rightarrow> fault \<Rightarrow> int \<Rightarrow> enrich_db \<Rightarrow> string \<Rightarrow> unit result \<times> enrich_db" where
  "Enrich_FinishByID parse flt now d i =
     with_ejob_id parse ''invalid enrichment job id'' i d (FinishEnrichmentJobByID flt now d)"

definition Enrich_FailOrRequeue ::
  "uuid_parser \<Rightarrow> fault \<Rightarrow> int \<Rightarrow> enrich_db \<Rightarrow> string \<Rightarrow> string \<Rightarrow> int \<Rightarrow> string result \<times> enrich_db" where
  "Enrich_FailOrRequeue parse flt now d i err max_attempts =
     with_ejob_id parse ''invalid enrichment job id'' i d (\<lambda>uid.
       case FailOrRequeueEnrichmentJobByID flt now d uid (nullStr err) max_attempts of
         (Inl e, d') \<Rightarrow>
           (if errors_is e NoRows then Inr [] else Inl (Wrapped ''fail or requeue enrichment job'' e), d')
       | (Inr s, d') \<Rightarrow> (Inr (state_str s), d'))"

definition Enrich_RequeueStuckRunning ::
  "fault \<Rightarrow> int \<Rightarrow> enrich_db \<Rightarrow> int \<Rightarrow> int \<Rightarrow> unit result \<times> enrich_db" where
  "Enrich_RequeueStuckRunning flt now d stuckThreshold max_attempts =
     map_prod (map_sum id (\<lambda>_. ())) id
       (RequeueStuckEnrichmentJobs flt now d max_attempts (now - stuckThreshold))"

definition Enrich_CountActive :: "fault \<Rightarrow> enrich_db \<Rightarrow> string \<Rightarrow> (string \<times> int) list result" where
  "Enrich_CountActive flt d enricher =
     wrap_err ''count active enrichment jobs'' (CountActiveEnrichmentJobs flt d enricher)"

record enrich_job =
  eb_id :: string
  eb_sbom :: "string option"
  eb_enricher :: string
  eb_state :: string
  eb_attempts :: int
  eb_last_error :: "string option"
  eb_worker :: "string option"
  eb_digest :: "string option"
  eb_artifact :: "string option"
  eb_created :: int
  eb_started :: "int option"
  eb_last_attempt :: "int option"
  eb_finished :: "int option"

definition fromEnrichJobRow :: "enrich_job_listing \<Rightarrow> enrich_job" where
  "fromEnrichJobRow l =
     (let r = el_row l in
      \<lparr>eb_id = uuid_str (ej_id r), eb_sbom = Some (uuid_str (ej_sbom r)), eb_enricher = ej_enricher r,
       eb_state = state_str (ej_state r), eb_attempts = ej_attempts r, eb_last_error = ej_last_error r,
       eb_worker = ej_worker r, eb_digest = el_digest l, eb_artifact = el_artifact l,
       eb_created = ej_created r, eb_started = ej_started r, eb_last_attempt = ej_last_attempt r,
       eb_finished = ej_finished r\<rparr>)"

definition Enrich_List ::
  "fault \<Rightarrow> fault \<Rightarrow> enrich_db \<Rightarrow> string \<Rightarrow> string \<Rightarrow> visibility_filter \<Rightarrow> int \<Rightarrow> int \<Rightarrow>
   (enrich_job list \<times> int) result" where
  "Enrich_List f1 f2 d st enricher vis lim off =
     bind_result (wrap_err ''listing enrichment jobs''
        (ListEnrichmentJobs f1 d (nullStr st) (nullStr enricher) (vf_is_admin vis) (vf_user_id vis) off lim)) (\<lambda>rows.
     bind_result (wrap_err ''counting enrichment jobs''
        (CountEnrichmentJobs f2 d (nullStr st) (nullStr enricher) (vf_is_admin vis) (vf_user_id vis))) (\<lambda>n.
     Inr (map fromEnrichJobRow rows, n)))"

definition Enrich_Summary ::
  "fault \<Rightarrow> enrich_db \<Rightarrow> visibility_filter \<Rightarrow> (string \<times> string \<times> int) list result" where
  "Enrich_Summary flt d vis =
     wrap_err ''summarizing enrichment jobs'' (SummarizeEnrichmentJobs flt d (vf_is_admin vis) (vf_user_id vis))"

definition Enrich_Retry :: "uuid_parser \<Rightarrow> fault \<Rightarrow> enrich_db \<Rightarrow> string \<Rightarrow> int result \<times> enrich_db" where
  "Enrich_Retry parse flt d i = with_ejob_id parse ''invalid job id'' i d (RetryEnrichmentJob flt d)"

definition Enrich_RetryAllFailed :: "fault \<Rightarrow> enrich_db \<Rightarrow> string \<Rightarrow> int result \<times> enrich_db" where
  "Enrich_RetryAllFailed flt d enricher = RetryAllFailedEnrichmentJobs flt d (nullStr enricher)"

end
