(* ===== verification/JobQueue.thy ===== *)
theory JobQueue
  imports ScanJobs
begin

text \<open>
  The outbox worker of \<^verbatim>\<open>internal/jobqueue/worker.go\<close>, over any queue. A queue is the record of the operations
  of \<open>Queue[C]\<close>; their first argument numbers the calls a worker makes, so that the moment, the failure
  and the locks a call meets are functions of it. \<open>job_queue\<close> is the contract the worker relies on,
  stated on the view of a table as (id, state, attempts) triples; the scan and the enrichment queues are
  its two providers.
\<close>

section \<open>The worker\<close>

record ('d, 'c) queue =
  q_claim_by_id :: "nat \<Rightarrow> 'd \<Rightarrow> string \<Rightarrow> string \<Rightarrow> 'c option result \<times> 'd"
  q_claim_next :: "nat \<Rightarrow> 'd \<Rightarrow> string \<Rightarrow> 'c option result \<times> 'd"
  q_fail_or_requeue :: "nat \<Rightarrow> 'd \<Rightarrow> string \<Rightarrow> string \<Rightarrow> int \<Rightarrow> string result \<times> 'd"
  q_requeue_stuck :: "nat \<Rightarrow> 'd \<Rightarrow> int \<Rightarrow> int \<Rightarrow> unit result \<times> 'd"
  q_job_id :: "'c \<Rightarrow> string"

record worker_config =
  wc_worker_id :: string
  wc_max_conc :: int
  wc_max_attempts :: int
  wc_stuck_threshold :: int

text \<open>A processor runs a claimed job: \<open>None\<close> when it succeeded and settled its row. \<open>err_text\<close> is
  \<open>err.Error()\<close>.\<close>

record ('d, 'c) worker =
  wk_queue :: "('d, 'c) queue"
  wk_processor :: "nat \<Rightarrow> 'd \<Rightarrow> 'c \<Rightarrow> go_error option \<times> 'd"
  wk_cfg :: worker_config
  wk_err_text :: "go_error \<Rightarrow> string"

definition NewWorker ::
  "('d, 'c) queue \<Rightarrow> (nat \<Rightarrow> 'd \<Rightarrow> 'c \<Rightarrow> go_error option \<times> 'd) \<Rightarrow> worker_config \<Rightarrow> (go_error \<Rightarrow> string) \<Rightarrow>
   ('d, 'c) worker" where
  "NewWorker q proc cfg err_text =
     \<lparr>wk_queue = q, wk_processor = proc,
      wk_cfg = (if wc_max_conc cfg < 1 then cfg\<lparr>wc_max_conc := 1\<rparr> else cfg), wk_err_text = err_text\<rparr>"

definition outcomeSuccess :: string where "outcomeSuccess = ''success''"
definition outcomeRetry :: string where "outcomeRetry = ''retry''"
definition outcomePermanentFailure :: string where "outcomePermanentFailure = ''permanent_failure''"

definition failNow :: int where "failNow = 0"

text \<open>\<open>jobqueue.Permanent\<close>; a nil error stays nil.\<close>

definition Permanent :: "go_error option \<Rightarrow> go_error option" where
  "Permanent err = (case err of None \<Rightarrow> None | Some e \<Rightarrow> Some (Joined ErrPermanent e))"

definition run_job :: "('d, 'c) worker \<Rightarrow> nat \<Rightarrow> 'd \<Rightarrow> 'c \<Rightarrow> string \<times> 'd" where
  "run_job W k d claim =
     (case wk_processor W k d claim of
        (None, d1) \<Rightarrow> (outcomeSuccess, d1)
      | (Some err, d1) \<Rightarrow>
          (let maxAttempts = (if errors_is err ErrPermanent then failNow else wc_max_attempts (wk_cfg W))
           in case q_fail_or_requeue (wk_queue W) k d1 (q_job_id (wk_queue W) claim)
                     (wk_err_text W err) maxAttempts of
                (ferr, d2) \<Rightarrow>
                  (if ferr = Inr ''failed'' then outcomePermanentFailure else outcomeRetry, d2)))"

definition processByID :: "('d, 'c) worker \<Rightarrow> nat \<Rightarrow> 'd \<Rightarrow> string \<Rightarrow> (string \<times> string) list \<times> 'd" where
  "processByID W k d i =
     (case q_claim_by_id (wk_queue W) k d i (wc_worker_id (wk_cfg W)) of
        (Inl err, d1) \<Rightarrow> ([], d1)
      | (Inr None, d1) \<Rightarrow> ([], d1)
      | (Inr (Some claim), d1) \<Rightarrow>
          (case run_job W k d1 claim of
             (outcome, d2) \<Rightarrow> ([(q_job_id (wk_queue W) claim, outcome)], d2)))"

text \<open>The poll loop, with what it ran, the number of the next call and the tables it leaves;
  \<open>cancelled k\<close> says whether the context is done before call \<open>k\<close>. The fuel bounds the iterations.\<close>

fun drainPoll ::
  "('d, 'c) worker \<Rightarrow> (nat \<Rightarrow> bool) \<Rightarrow> nat \<Rightarrow> nat \<Rightarrow> 'd \<Rightarrow> ((string \<times> string) list \<times> nat \<times> 'd) option" where
  "drainPoll W cancelled 0 k d = None"
| "drainPoll W cancelled (Suc fuel) k d =
     (if cancelled k then Some ([], k, d)
      else case q_claim_next (wk_queue W) k d (wc_worker_id (wk_cfg W)) of
        (Inl err, d1) \<Rightarrow> Some ([], Suc k, d1)
      | (Inr None, d1) \<Rightarrow> Some ([], Suc k, d1)
      | (Inr (Some claim), d1) \<Rightarrow>
          (case run_job W k d1 claim of
             (outcome, d2) \<Rightarrow>
               map_option (\<lambda>(rs, k', d3). ((q_job_id (wk_queue W) claim, outcome) # rs, k', d3))
                 (drainPoll W cancelled fuel (Suc k) d2)))"

text \<open>What wakes a worker: a hint it received, its ticker, or the end of its context.\<close>

datatype wake = Hint string | Tick | Done

fun workerLoop ::
  "('d, 'c) worker \<Rightarrow> (nat \<Rightarrow> bool) \<Rightarrow> nat \<Rightarrow> nat \<Rightarrow> wake list \<Rightarrow> 'd \<Rightarrow> ((string \<times> string) list \<times> nat \<times> 'd) option" where
  "workerLoop W cancelled fuel k [] d = Some ([], k, d)"
| "workerLoop W cancelled fuel k (Done # evs) d = Some ([], k, d)"
| "workerLoop W cancelled fuel k (Hint i # evs) d =
     (case processByID W k d i of
        (rs1, d1) \<Rightarrow>
          (case drainPoll W cancelled fuel (Suc k) d1 of
             None \<Rightarrow> None
           | Some (rs2, k', d2) \<Rightarrow>
               map_option (\<lambda>(rs, r). (rs1 @ rs2 @ rs, r)) (workerLoop W cancelled fuel k' evs d2)))"
| "workerLoop W cancelled fuel k (Tick # evs) d =
     (case drainPoll W cancelled fuel k d of
        None \<Rightarrow> None
      | Some (rs2, k', d2) \<Rightarrow>
          map_option (\<lambda>(rs, r). (rs2 @ rs, r)) (workerLoop W cancelled fuel k' evs d2))"

text \<open>The buffered channel of hints: one that does not decode, has no id or finds the buffer full is
  dropped. \<open>decode\<close> reads the \<open>id\<close> field of the JSON message.\<close>

definition hint_capacity :: "worker_config \<Rightarrow> nat" where
  "hint_capacity cfg = nat ((if wc_max_conc cfg < 1 then 1 else wc_max_conc cfg) * 4)"

definition handleHint ::
  "(string \<Rightarrow> string option) \<Rightarrow> nat \<Rightarrow> string list \<Rightarrow> string \<Rightarrow> string list" where
  "handleHint decode cap hints data =
     (case decode data of
        None \<Rightarrow> hints
      | Some i \<Rightarrow> if i = [] then hints else if length hints < cap then hints @ [i] else hints)"

definition stuck_sweep :: "('d, 'c) worker \<Rightarrow> nat \<Rightarrow> 'd \<Rightarrow> 'd" where
  "stuck_sweep W k d =
     snd (q_requeue_stuck (wk_queue W) k d (wc_stuck_threshold (wk_cfg W)) (wc_max_attempts (wk_cfg W)))"

section \<open>The contract\<close>

type_synonym job_view = "(uuid \<times> job_state \<times> int) list"

definition set_job :: "uuid \<Rightarrow> job_state \<Rightarrow> int \<Rightarrow> job_view \<Rightarrow> job_view" where
  "set_job i s a V = map (\<lambda>(k, v). if k = i then (k, s, a) else (k, v)) V"

definition claims_one :: "uuid \<Rightarrow> job_view \<Rightarrow> job_view \<Rightarrow> bool" where
  "claims_one i V V' \<longleftrightarrow> (\<exists>a. (i, Queued, a) \<in> set V \<and> V' = set_job i Running (a + 1) V)"

definition claim_view :: "('c \<Rightarrow> string) \<Rightarrow> 'c option result \<Rightarrow> job_view \<Rightarrow> job_view \<Rightarrow> bool" where
  "claim_view cid r V V' \<longleftrightarrow>
     (case r of
        Inr (Some c) \<Rightarrow> (\<exists>i. cid c = uuid_str i \<and> claims_one i V V')
      | _ \<Rightarrow> V' = V \<or> (\<exists>i. claims_one i V V'))"

definition settle_view :: "int \<Rightarrow> string result \<Rightarrow> job_view \<Rightarrow> job_view \<Rightarrow> bool" where
  "settle_view m r V V' \<longleftrightarrow>
     V' = V \<or>
     (\<exists>i s a. (i, s, a) \<in> set V \<and> \<not> terminal s \<and>
        V' = set_job i (if a \<ge> m then Failed else Queued) a V \<and>
        r = Inr (state_str (if a \<ge> m then Failed else Queued)))"

fun sweep_row :: "int \<Rightarrow> uuid \<times> job_state \<times> int \<Rightarrow> uuid \<times> job_state \<times> int \<Rightarrow> bool" where
  "sweep_row m (i, s, a) (i', s', a') \<longleftrightarrow> i' = i \<and> a' = a \<and>
     (s' = s \<or> s = Running \<and> (s' = Failed \<or> s' = Queued \<and> a < m) \<or> s = Queued \<and> s' = Failed)"

locale job_queue =
  fixes Q :: "('d, 'c) queue"
    and view :: "'d \<Rightarrow> job_view"
    and tok :: "'d \<Rightarrow> bool"
  assumes view_distinct: "tok d \<Longrightarrow> distinct (map fst (view d))"
    and view_nonneg: "tok d \<Longrightarrow> (i, s, a) \<in> set (view d) \<Longrightarrow> 0 \<le> a"
    and claim_next_law: "tok d \<Longrightarrow> q_claim_next Q k d w = (r, d') \<Longrightarrow>
      tok d' \<and> claim_view (q_job_id Q) r (view d) (view d')"
    and claim_by_id_law: "tok d \<Longrightarrow> q_claim_by_id Q k d sid w = (r, d') \<Longrightarrow>
      tok d' \<and> claim_view (q_job_id Q) r (view d) (view d')"
    and settle_law: "tok d \<Longrightarrow> q_fail_or_requeue Q k d sid msg m = (r2, d') \<Longrightarrow>
      tok d' \<and> settle_view m r2 (view d) (view d')"
    and sweep_law: "tok d \<Longrightarrow> q_requeue_stuck Q k d threshold m = (r3, d') \<Longrightarrow>
      tok d' \<and> list_all2 (sweep_row m) (view d) (view d')"

section \<open>Views: lemmas\<close>

lemma set_job_ids [simp]: "map fst (set_job i s a V) = map fst V"
  by (simp add: set_job_def comp_def case_prod_beta if_distrib cong: if_cong)

lemma set_job_iff:
  "distinct (map fst V) \<Longrightarrow> (i, s0, a0) \<in> set V \<Longrightarrow>
   (k, s', a') \<in> set (set_job i s a V) \<longleftrightarrow>
     (if k = i then s' = s \<and> a' = a else (k, s', a') \<in> set V)"
  by (force simp: set_job_def image_iff split: if_splits)

lemma view_unique:
  "distinct (map fst V) \<Longrightarrow> (i, s, a) \<in> set V \<Longrightarrow> (i, s', a') \<in> set V \<Longrightarrow> s = s' \<and> a = a'"
  by (metis Pair_inject eq_key_imp_eq_value)

lemma claims_one_ids: "claims_one i V V' \<Longrightarrow> map fst V' = map fst V"
  by (auto simp: claims_one_def)

text \<open>How often the rows of a view can still be claimed: a queued one now, a running one when it comes
  back.\<close>

fun row_budget :: "int \<Rightarrow> uuid \<times> job_state \<times> int \<Rightarrow> nat" where
  "row_budget m (i, s, a) = (if s = Queued \<or> s = Running \<and> a < m then Suc (nat (m - a)) else 0)"

definition budget :: "int \<Rightarrow> job_view \<Rightarrow> nat" where
  "budget m V = sum_list (map (row_budget m) V)"

lemma budget_set_job:
  assumes "distinct (map fst V)" and "(i, s0, a0) \<in> set V"
  shows "budget m (set_job i s a V) + row_budget m (i, s0, a0) = budget m V + row_budget m (i, s, a)"
  using assms
proof (induction V)
  case (Cons r V)
  obtain k v where r: "r = (k, v)" by (cases r)
  have same: "set_job i s a V = V" if "i \<notin> fst ` set V"
    using that by (force simp: set_job_def intro!: map_idI)
  show ?case
  proof (cases "k = i")
    case True
    with Cons.prems have "i \<notin> fst ` set V" by (simp add: r)
    moreover from this Cons.prems(2) have "v = (s0, a0)" by (force simp: r)
    ultimately show ?thesis
      using same True by (simp add: r budget_def set_job_def [of _ _ _ "_ # _"] flip: set_job_def)
  next
    case False
    then have "budget m (set_job i s a V) + row_budget m (i, s0, a0) = budget m V + row_budget m (i, s, a)"
      using Cons by (auto simp: r)
    with False show ?thesis by (simp add: r budget_def set_job_def case_prod_beta)
  qed
qed simp

lemma budget_claim:
  assumes "distinct (map fst V)" and "claims_one i V V'"
  shows "budget m V' < budget m V"
proof -
  obtain a where "(i, Queued, a) \<in> set V" "V' = set_job i Running (a + 1) V"
    using assms(2) by (auto simp: claims_one_def)
  with budget_set_job [OF assms(1) this(1), of m Running "a + 1"] show ?thesis
    by (simp split: if_splits)
qed

lemma budget_claim_view:
  assumes "distinct (map fst V)" and "claim_view cid r V V'"
  shows "budget m V' \<le> budget m V" and "r = Inr (Some c) \<Longrightarrow> budget m V' < budget m V"
proof -
  have less: "budget m V' < budget m V" if "claims_one i V V'" for i
    using budget_claim [OF assms(1) that] .
  show "budget m V' \<le> budget m V"
    using assms(2) less
    by (cases r) (auto simp: claim_view_def intro: less_imp_le split: option.splits)
  show "budget m V' < budget m V" if "r = Inr (Some c)"
    using assms(2) less that by (auto simp: claim_view_def)
qed

lemma budget_settle:
  assumes "distinct (map fst V)" and "\<And>i s a. (i, s, a) \<in> set V \<Longrightarrow> 0 \<le> a"
    and "settle_view m' r V V'" and "m' = m \<or> m' \<le> 0"
  shows "budget m V' \<le> budget m V"
proof -
  have "budget m (set_job i (if a \<ge> m' then Failed else Queued) a V) \<le> budget m V"
    if "(i, s, a) \<in> set V" "\<not> terminal s" for i s a
    using budget_set_job [OF assms(1) that(1), of m "if a \<ge> m' then Failed else Queued" a]
      assms(2) [OF that(1)] assms(4) that(2)
    by (cases s) (auto split: if_splits)
  then show ?thesis using assms(3) by (auto simp: settle_view_def)
qed

lemma budget_rows:
  assumes "list_all2 R V V'" and "\<And>x y. R x y \<Longrightarrow> row_budget m y \<le> row_budget m x"
  shows "budget m V' \<le> budget m V"
  using assms(1) by (induction rule: list_all2_induct) (auto simp: budget_def intro: add_mono assms(2))

lemma sweep_row_budget: "sweep_row m x y \<Longrightarrow> row_budget m y \<le> row_budget m x"
  by (cases x; cases y) (auto split: if_splits)

text \<open>Attempts stay within the budget: zero or below the maximum while queued, at most the maximum, and
  at least one after a claim.\<close>

fun row_attempts_ok :: "int \<Rightarrow> uuid \<times> job_state \<times> int \<Rightarrow> bool" where
  "row_attempts_ok m (i, s, a) \<longleftrightarrow> 0 \<le> a \<and> a \<le> max 1 m \<and> (s = Queued \<longrightarrow> a = 0 \<or> a < m) \<and>
     (s = Running \<longrightarrow> 0 < a)"

definition attempts_ok :: "int \<Rightarrow> job_view \<Rightarrow> bool" where
  "attempts_ok m V \<longleftrightarrow> list_all (row_attempts_ok m) V"

lemma attempts_ok_set_job:
  "attempts_ok m V \<Longrightarrow> row_attempts_ok m (i, s, a) \<Longrightarrow> attempts_ok m (set_job i s a V)"
  by (auto simp: attempts_ok_def set_job_def list_all_iff)

lemma attempts_ok_in: "attempts_ok m V \<Longrightarrow> (i, s, a) \<in> set V \<Longrightarrow> row_attempts_ok m (i, s, a)"
  by (auto simp: attempts_ok_def list_all_iff)

lemma attempts_ok_claim:
  assumes "attempts_ok m V" and "claims_one i V V'"
  shows "attempts_ok m V'"
  using assms(2)
  by (auto simp: claims_one_def intro!: attempts_ok_set_job [OF assms(1)] dest!: attempts_ok_in [OF assms(1)])

lemma attempts_ok_claim_view: "attempts_ok m V \<Longrightarrow> claim_view cid r V V' \<Longrightarrow> attempts_ok m V'"
  by (auto simp: claim_view_def split: sum.splits option.splits intro: attempts_ok_claim)

lemma attempts_ok_settle:
  assumes "attempts_ok m V" and "settle_view m' r V V'" and "m' = m \<or> m' \<le> 0"
  shows "attempts_ok m V'"
  using assms(2,3)
  by (auto simp: settle_view_def intro!: assms(1) attempts_ok_set_job dest!: attempts_ok_in [OF assms(1)])

lemma attempts_ok_sweep:
  assumes "attempts_ok m V" and "list_all2 (sweep_row m) V V'"
  shows "attempts_ok m V'"
  using assms(2,1)
proof (induction rule: list_all2_induct)
  case (Cons x xs y ys)
  obtain i s a i' s' a' where "x = (i, s, a)" "y = (i', s', a')" by (metis prod_cases3)
  with Cons show ?case by (cases s; cases s') (auto simp: attempts_ok_def split: if_splits)
qed (simp add: attempts_ok_def)

text \<open>What a processor may do to the table: settle rows as succeeded.\<close>

fun done_row :: "uuid \<times> job_state \<times> int \<Rightarrow> uuid \<times> job_state \<times> int \<Rightarrow> bool" where
  "done_row (i, s, a) (i', s', a') \<longleftrightarrow> i' = i \<and> a' = a \<and> (s' = s \<or> s' = Succeeded)"

lemma done_row_budget: "done_row x y \<Longrightarrow> row_budget m y \<le> row_budget m x"
  by (cases x; cases y) auto

definition processor_ok ::
  "('d \<Rightarrow> bool) \<Rightarrow> ('d \<Rightarrow> job_view) \<Rightarrow> (nat \<Rightarrow> 'd \<Rightarrow> 'c \<Rightarrow> go_error option \<times> 'd) \<Rightarrow> bool" where
  "processor_ok tok view proc \<longleftrightarrow>
     (\<forall>k d c r d'. tok d \<longrightarrow> proc k d c = (r, d') \<longrightarrow> tok d' \<and> list_all2 done_row (view d) (view d'))"

definition processor_settles ::
  "('d \<Rightarrow> bool) \<Rightarrow> ('d \<Rightarrow> job_view) \<Rightarrow> ('c \<Rightarrow> string) \<Rightarrow>
   (nat \<Rightarrow> 'd \<Rightarrow> 'c \<Rightarrow> go_error option \<times> 'd) \<Rightarrow> bool" where
  "processor_settles tok view cid proc \<longleftrightarrow>
     (\<forall>k d c d' i s a. tok d \<longrightarrow> cid c = uuid_str i \<longrightarrow> proc k d c = (None, d') \<longrightarrow>
        (i, s, a) \<in> set (view d') \<longrightarrow> s = Succeeded)"

lemma done_rows_in:
  assumes "list_all2 done_row V V'" and "(i, s', a) \<in> set V'"
  obtains s where "(i, s, a) \<in> set V" and "s' = s \<or> s' = Succeeded"
proof -
  obtain n where n: "n < length V'" "V' ! n = (i, s', a)" using assms(2) by (auto simp: in_set_conv_nth)
  obtain i0 s0 a0 where r: "V ! n = (i0, s0, a0)" by (metis prod_cases3)
  have "done_row (V ! n) (V' ! n)" using assms(1) n(1) by (simp add: list_all2_conv_all_nth)
  with n r have "i0 = i" "a0 = a" "s' = s0 \<or> s' = Succeeded" by auto
  moreover have "V ! n \<in> set V" using n(1) assms(1) by (simp add: list_all2_lengthD)
  ultimately show thesis using r that by metis
qed

section \<open>The worker over the contract\<close>

definition running_ids :: "job_view \<Rightarrow> uuid set" where
  "running_ids V = {i. \<exists>a. (i, Running, a) \<in> set V}"

definition queued_ids :: "job_view \<Rightarrow> uuid set" where
  "queued_ids V = {i. \<exists>a. (i, Queued, a) \<in> set V}"

text \<open>Claims made one after another, each by a worker that knows an id from a hint or takes the next.\<close>

fun claim_all ::
  "('d, 'c) queue \<Rightarrow> (nat \<times> string option \<times> string) list \<Rightarrow> 'd \<Rightarrow> string list \<times> 'd" where
  "claim_all q [] d = ([], d)"
| "claim_all q ((k, target, w) # calls) d =
     (case (case target of Some i \<Rightarrow> q_claim_by_id q k d i w | None \<Rightarrow> q_claim_next q k d w) of
        (r, d1) \<Rightarrow>
          (case claim_all q calls d1 of
             (ids, d2) \<Rightarrow> ((case r of Inr (Some c) \<Rightarrow> q_job_id q c # ids | _ \<Rightarrow> ids), d2)))"

lemma claims_one_sets:
  assumes "distinct (map fst V)" and "claims_one i V V'"
  shows "i \<in> queued_ids V" and "queued_ids V' = queued_ids V - {i}"
    and "running_ids V' = insert i (running_ids V)"
proof -
  obtain a where a: "(i, Queued, a) \<in> set V" "V' = set_job i Running (a + 1) V"
    using assms(2) by (auto simp: claims_one_def)
  show "i \<in> queued_ids V" using a(1) by (auto simp: queued_ids_def)
  show "queued_ids V' = queued_ids V - {i}" "running_ids V' = insert i (running_ids V)"
    using a(1) by (auto simp: queued_ids_def running_ids_def a(2) set_job_iff [OF assms(1) a(1)]
        split: if_splits)
qed

lemma set_job_running:
  assumes "distinct (map fst V)" and "(i, s0, a0) \<in> set V" and "s \<noteq> Running"
  shows "running_ids (set_job i s a V) = running_ids V - {i}"
  using assms(3) by (auto simp: running_ids_def set_job_iff [OF assms(1,2)] split: if_splits)

lemma done_rows_running: "list_all2 done_row V V' \<Longrightarrow> running_ids V' \<subseteq> running_ids V"
  by (auto simp: running_ids_def elim!: done_rows_in)

context job_queue
begin

text \<open>No job is handed out twice.\<close>

lemma claim_all_distinct:
  "tok d \<Longrightarrow> claim_all Q calls d = (ids, d') \<Longrightarrow>
   distinct ids \<and> set ids \<subseteq> uuid_str ` queued_ids (view d)"
proof (induction calls arbitrary: d ids)
  case (Cons call calls)
  obtain k target w where call: "call = (k, target, w)" by (cases call)
  obtain r d1 where c: "(case target of Some i \<Rightarrow> q_claim_by_id Q k d i w
      | None \<Rightarrow> q_claim_next Q k d w) = (r, d1)" by (meson surj_pair)
  obtain ids1 where rest: "claim_all Q calls d1 = (ids1, d')"
    and ids: "ids = (case r of Inr (Some c) \<Rightarrow> q_job_id Q c # ids1 | _ \<Rightarrow> ids1)"
    using Cons.prems(2) c by (auto simp: call split: prod.splits)
  have law: "tok d1" "claim_view (q_job_id Q) r (view d) (view d1)"
    using c claim_next_law [OF Cons.prems(1)] claim_by_id_law [OF Cons.prems(1)]
    by (auto split: option.splits)
  note IH = Cons.IH [OF law(1) rest]
  note sets = claims_one_sets [OF view_distinct [OF Cons.prems(1)]]
  show ?case
  proof (cases "\<exists>x. r = Inr (Some x)")
    case True
    then obtain x i where x: "r = Inr (Some x)" "q_job_id Q x = uuid_str i"
      "claims_one i (view d) (view d1)" using law(2) by (auto simp: claim_view_def)
    with IH have "set ids1 \<subseteq> uuid_str ` (queued_ids (view d) - {i})" using sets(2) by simp
    with IH x sets(1) [OF x(3)] show ?thesis by (auto simp: ids dest!: uuid_str_inj)
  next
    case False
    then have "view d1 = view d \<or> (\<exists>i. claims_one i (view d) (view d1))" and "ids = ids1"
      using law(2) by (auto simp: claim_view_def ids split: sum.splits option.splits)
    with IH sets(2) show ?thesis by fastforce
  qed
qed simp

lemma run_job_step:
  assumes "tok d" and "processor_ok tok view (wk_processor W)" and "wk_queue W = Q"
    and "run_job W k d c = (outcome, d')"
  shows "tok d' \<and> budget (wc_max_attempts (wk_cfg W)) (view d') \<le> budget (wc_max_attempts (wk_cfg W)) (view d)"
proof -
  let ?m = "wc_max_attempts (wk_cfg W)"
  obtain e d1 where p: "wk_processor W k d c = (e, d1)" by (cases "wk_processor W k d c")
  with assms(1,2) have d1: "tok d1" "list_all2 done_row (view d) (view d1)"
    unfolding processor_ok_def by blast+
  have b1: "budget ?m (view d1) \<le> budget ?m (view d)"
    using d1(2) done_row_budget by (rule budget_rows)
  show ?thesis
  proof (cases e)
    case None
    with p assms(4) d1(1) b1 show ?thesis by (simp add: run_job_def)
  next
    case (Some err)
    let ?m' = "if errors_is err ErrPermanent then failNow else ?m"
    obtain r d2 where f: "q_fail_or_requeue Q k d1 (q_job_id Q c) (wk_err_text W err) ?m' = (r, d2)"
      by (meson surj_pair)
    with p Some assms(3,4) have "d' = d2" by (simp add: run_job_def)
    moreover have "tok d2" "settle_view ?m' r (view d1) (view d2)"
      using settle_law [OF d1(1) f] by simp_all
    moreover have "?m' = ?m \<or> ?m' \<le> 0" by (simp add: failNow_def)
    ultimately have "budget ?m (view d') \<le> budget ?m (view d1)"
      using budget_settle [OF view_distinct [OF d1(1)] view_nonneg [OF d1(1)]] by simp
    with b1 \<open>d' = d2\<close> \<open>tok d2\<close> show ?thesis by simp
  qed
qed

text \<open>The poll loop ends: every round spends one claim of the budget.\<close>

lemma drainPoll_ends:
  assumes "processor_ok tok view (wk_processor W)" and "wk_queue W = Q"
  shows "tok d \<Longrightarrow> budget (wc_max_attempts (wk_cfg W)) (view d) < fuel \<Longrightarrow>
    \<exists>rs k' d'. drainPoll W cancelled fuel k d = Some (rs, k', d') \<and> tok d' \<and>
      length rs + budget (wc_max_attempts (wk_cfg W)) (view d') \<le> budget (wc_max_attempts (wk_cfg W)) (view d)"
proof (induction fuel arbitrary: k d)
  case (Suc fuel)
  let ?m = "wc_max_attempts (wk_cfg W)"
  obtain r d1 where c: "q_claim_next Q k d (wc_worker_id (wk_cfg W)) = (r, d1)"
    by (meson surj_pair)
  note law = claim_next_law [OF Suc.prems(1) c]
  note claim = budget_claim_view [OF view_distinct [OF Suc.prems(1)] conjunct2 [OF law], where m = ?m]
  show ?case
  proof (cases "cancelled k \<or> (\<forall>x. r \<noteq> Inr (Some x))")
    case True
    then show ?thesis
      using c law claim(1) assms(2) Suc.prems(1) by (cases r) (auto split: option.splits)
  next
    case False
    then obtain x where x: "r = Inr (Some x)" "\<not> cancelled k" by auto
    then have "budget ?m (view d1) < budget ?m (view d)" by (intro claim(2))
    moreover obtain o2 d2 where run: "run_job W k d1 x = (o2, d2)" by (meson surj_pair)
    ultimately have d2: "tok d2" "budget ?m (view d2) < budget ?m (view d)"
      using run_job_step [OF _ assms run] law by fastforce+
    with Suc.prems(2) have "budget ?m (view d2) < fuel" by linarith
    from Suc.IH [OF d2(1) this, of "Suc k"] obtain rs k' d' where
      "drainPoll W cancelled fuel (Suc k) d2 = Some (rs, k', d')" "tok d'"
      "length rs + budget ?m (view d') \<le> budget ?m (view d2)" by blast
    then show ?thesis using x c run assms(2) d2(2) by simp
  qed
qed simp

end

text \<open>A queue whose claims and settlements do not fail, and which answers that it is empty only when it
  is.\<close>

locale complete_queue = job_queue +
  assumes empty_law: "tok d \<Longrightarrow> q_claim_next Q k d w = (Inr None, d') \<Longrightarrow>
      view d' = view d \<and> queued_ids (view d) = {}"
    and claim_answers: "tok d \<Longrightarrow> q_claim_next Q k d w \<noteq> (Inl e, d')"
    and settle_complete: "tok d \<Longrightarrow> (i, Running, a) \<in> set (view d) \<Longrightarrow>
      q_fail_or_requeue Q k d (uuid_str i) msg m = (r2, d') \<Longrightarrow>
      view d' = set_job i (if a \<ge> m then Failed else Queued) a (view d)"
begin

lemma run_job_frees:
  assumes "tok d" and "processor_ok tok view (wk_processor W)"
    and "processor_settles tok view (q_job_id Q) (wk_processor W)" and "wk_queue W = Q"
    and "q_job_id Q c = uuid_str i" and "run_job W k d c = (outcome, d')"
  shows "running_ids (view d') \<subseteq> running_ids (view d) - {i}"
proof -
  obtain e d1 where p: "wk_processor W k d c = (e, d1)" by (cases "wk_processor W k d c")
  with assms(1,2) have d1: "tok d1" "list_all2 done_row (view d) (view d1)"
    unfolding processor_ok_def by blast+
  note sub = done_rows_running [OF d1(2)]
  show ?thesis
  proof (cases e)
    case None
    with p assms(1,3,5) have "i \<notin> running_ids (view d1)"
      unfolding processor_settles_def running_ids_def by blast
    with None p assms(6) sub show ?thesis by (auto simp: run_job_def)
  next
    case (Some err)
    let ?m = "if errors_is err ErrPermanent then failNow else wc_max_attempts (wk_cfg W)"
    obtain r d2 where f: "q_fail_or_requeue Q k d1 (uuid_str i) (wk_err_text W err) ?m = (r, d2)"
      by (meson surj_pair)
    with p Some assms(4,5,6) have d': "d' = d2" by (simp add: run_job_def)
    have "running_ids (view d2) \<subseteq> running_ids (view d1) - {i}"
    proof (cases "i \<in> running_ids (view d1)")
      case True
      then obtain a where a: "(i, Running, a) \<in> set (view d1)" by (auto simp: running_ids_def)
      show ?thesis
        unfolding settle_complete [OF d1(1) a f]
        using set_job_running [OF view_distinct [OF d1(1)] a] by simp
    next
      case False
      moreover have "running_ids (view d2) \<subseteq> running_ids (view d1)"
      proof -
        have "settle_view ?m r (view d1) (view d2)" using settle_law [OF d1(1) f] by blast
        then show ?thesis
          using set_job_running [OF view_distinct [OF d1(1)]] by (fastforce simp: settle_view_def)
      qed
      ultimately show ?thesis by blast
    qed
    with sub d' show ?thesis by blast
  qed
qed

lemma drainPoll_settles:
  assumes "processor_ok tok view (wk_processor W)" and "wk_queue W = Q"
    and "processor_settles tok view (q_job_id Q) (wk_processor W)"
  shows "tok d \<Longrightarrow> drainPoll W (\<lambda>_. False) fuel k d = Some (rs, k', d') \<Longrightarrow>
    queued_ids (view d') = {} \<and> running_ids (view d') \<subseteq> running_ids (view d)"
proof (induction fuel arbitrary: k d rs)
  case (Suc fuel)
  obtain r d1 where c: "q_claim_next Q k d (wc_worker_id (wk_cfg W)) = (r, d1)"
    by (meson surj_pair)
  note law = claim_next_law [OF Suc.prems(1) c]
  obtain y where y: "r = Inr y" using claim_answers [OF Suc.prems(1)] c by (cases r) blast+
  show ?case
  proof (cases y)
    case None
    with Suc.prems(2) c y assms(2) have "d' = d1" by simp
    with empty_law [OF Suc.prems(1)] c y None show ?thesis by auto
  next
    case (Some x)
    with law y obtain i where i: "q_job_id Q x = uuid_str i" "claims_one i (view d) (view d1)"
      by (auto simp: claim_view_def)
    obtain o2 d2 where run: "run_job W k d1 x = (o2, d2)" by (meson surj_pair)
    have d1: "tok d1" using law by blast
    have d2: "tok d2" using run_job_step [OF d1 assms(1,2) run] by blast
    have "running_ids (view d2) \<subseteq> running_ids (view d1) - {i}"
      by (rule run_job_frees [OF d1 assms(1,3,2) i(1) run])
    then have sub: "running_ids (view d2) \<subseteq> running_ids (view d)"
      using claims_one_sets(3) [OF view_distinct [OF Suc.prems(1)] i(2)] by blast
    obtain rs2 where "drainPoll W (\<lambda>_. False) fuel (Suc k) d2 = Some (rs2, k', d')"
      using Suc.prems(2) c y Some run assms(2) by auto
    from Suc.IH [OF d2 this] sub show ?thesis by blast
  qed
qed simp

end

end
