(* ===== verification/ScanQueue.thy ===== *)
theory ScanQueue
  imports JobQueue ScanJobService
begin

text \<open>
  The scan queue as a provider of the worker's contract (\<^verbatim>\<open>service/job.go\<close> behind \<open>jobqueue.Queue\<close>, wired with
  its processor in \<^verbatim>\<open>cmd/scanner-worker/main.go\<close>), and the interleaving of everything that writes
  \<open>scan_jobs\<close>: enqueues, claims, settlements, sweeps, operators and deletes.
\<close>

section \<open>The provider\<close>

text \<open>What the \<open>k\<close>-th call of a worker meets: the time, the failures of its statements and the rows other
  transactions hold.\<close>

record call_env =
  ce_now :: "nat \<Rightarrow> int"
  ce_fault :: "nat \<Rightarrow> nat \<Rightarrow> fault"
  ce_locked :: "nat \<Rightarrow> uuid list"

definition scan_queue ::
  "uuid_parser \<Rightarrow> (string list \<Rightarrow> string) \<Rightarrow> credential_box \<Rightarrow> call_env \<Rightarrow> (scan_db, scan_claim) queue" where
  "scan_queue parse aad box env =
     \<lparr>q_claim_by_id = (\<lambda>k d i w. Job_ClaimByID parse aad box (ce_fault env k 0) (ce_now env k) d i w),
      q_claim_next = (\<lambda>k d w. Job_ClaimNext aad box (ce_fault env k 0) (ce_now env k) (ce_locked env k) d w),
      q_fail_or_requeue = (\<lambda>k d i msg m. Job_FailOrRequeue parse (ce_fault env k 1) (ce_now env k) d i msg m),
      q_requeue_stuck = (\<lambda>k d t m. Job_RequeueStuckRunning (ce_fault env k 0) (ce_fault env k 1) (ce_now env k) d t m),
      q_job_id = sc_id\<rparr>"

text \<open>The scanner worker's processor: \<open>scan\<close> is the dispatcher, which answers with the id of the ingested
  SBOM.\<close>

definition scanProcessor ::
  "uuid_parser \<Rightarrow> call_env \<Rightarrow> (nat \<Rightarrow> scan_claim \<Rightarrow> uuid option result) \<Rightarrow> nat \<Rightarrow> scan_db \<Rightarrow> scan_claim \<Rightarrow>
   go_error option \<times> scan_db" where
  "scanProcessor parse env scan k d claim =
     (case scan k claim of
        Inl e \<Rightarrow> (Some e, d)
      | Inr sbom \<Rightarrow>
          (case Job_FinishByID parse (ce_fault env k 2) (ce_now env k) d (sc_id claim) sbom of
             (Inl e, d') \<Rightarrow> (Some e, d')
           | (Inr _, d') \<Rightarrow> (None, d')))"

definition scan_view :: "scan_db \<Rightarrow> job_view" where
  "scan_view d = map (\<lambda>j. (sj_id j, sj_state j, sj_attempts j)) (sd_jobs d)"

definition scan_tok :: "scan_db \<Rightarrow> bool" where
  "scan_tok d \<longleftrightarrow> distinct (map sj_id (sd_jobs d)) \<and> list_all (\<lambda>j. 0 \<le> sj_attempts j) (sd_jobs d)"

section \<open>Updates: lemmas\<close>

lemma run_stmt_cases:
  assumes "run_stmt flt d x = (r, d')"
  obtains e where "flt = Some e" and "r = Inl (fault_error e)" and "d' = d"
  | "flt = None" and "x = (r, d')"
  using assms by (cases flt) (auto simp: run_stmt_def)

lemma sd_jobs_update [simp]: "sd_jobs (update_jobs P f d) = update_where P f (sd_jobs d)"
  by (simp add: update_jobs_def)

lemma scan_view_update:
  "scan_view (update_jobs P f d) =
     map (\<lambda>j. if P j then (sj_id (f j), sj_state (f j), sj_attempts (f j))
              else (sj_id j, sj_state j, sj_attempts j)) (sd_jobs d)"
  by (simp add: scan_view_def update_where_def)

lemma scan_view_set_job:
  assumes "distinct (map sj_id (sd_jobs d))" and "j \<in> set (sd_jobs d)"
    and "\<And>r. sj_id (f r) = sj_id r" and "sj_state (f j) = s" and "sj_attempts (f j) = a"
  shows "scan_view (update_jobs (\<lambda>r. sj_id r = sj_id j) f d) = set_job (sj_id j) s a (scan_view d)"
proof -
  have "r = j" if "r \<in> set (sd_jobs d)" "sj_id r = sj_id j" for r
    using assms(1,2) that by (simp add: distinct_map inj_on_def)
  then show ?thesis
    using assms(3-5) by (auto simp: set_job_def scan_view_def update_where_def)
qed

lemma claim_row_simps [simp]:
  "sj_id (claim_row now w j) = sj_id j" "sj_state (claim_row now w j) = Running"
  "sj_attempts (claim_row now w j) = sj_attempts j + 1" "sj_msg (claim_row now w j) = sj_msg j"
  by (simp_all add: claim_row_def)

lemma fail_or_requeue_row_simps [simp]:
  "sj_id (fail_or_requeue_row now m e j) = sj_id j" "sj_msg (fail_or_requeue_row now m e j) = sj_msg j"
  "sj_attempts (fail_or_requeue_row now m e j) = sj_attempts j"
  "sj_state (fail_or_requeue_row now m e j) = (if sj_attempts j \<ge> m then Failed else Queued)"
  by (simp_all add: fail_or_requeue_row_def)

lemma stuck_row_simps [simp]:
  "sj_id (stuck_row now m j) = sj_id j" "sj_msg (stuck_row now m j) = sj_msg j"
  "sj_attempts (stuck_row now m j) = sj_attempts j"
  "sj_state (stuck_row now m j) = (if sj_attempts j \<ge> m then Failed else Queued)"
  by (simp_all add: stuck_row_def)

lemma scan_tok_update:
  assumes "scan_tok d" and "\<And>r. sj_id (f r) = sj_id r"
    and "\<And>r. 0 \<le> sj_attempts r \<Longrightarrow> 0 \<le> sj_attempts (f r)"
  shows "scan_tok (update_jobs P f d)"
  using assms by (auto simp: scan_tok_def map_update_where intro: list_all_update_where)

lemma queue_head_in:
  assumes "queue_head locked jobs = Some j"
  shows "j \<in> set jobs \<and> sj_state j = Queued \<and> sj_id j \<notin> set locked"
proof -
  obtain js where "sort_by (on_key int_cmp sj_created)
      (filter (\<lambda>j. sj_state j = Queued \<and> \<not> List.member locked (sj_id j)) jobs) = j # js"
    using assms by (auto simp: queue_head_def split: list.splits)
  then have "j \<in> set (filter (\<lambda>j. sj_state j = Queued \<and> \<not> List.member locked (sj_id j)) jobs)"
    by (metis list.set_intros(1) set_sort_by)
  then show ?thesis by simp
qed

lemma sort_by_empty: "sort_by c xs = [] \<longleftrightarrow> xs = []"
  using length_sort_by [of c xs] by (metis length_0_conv)

lemma queue_head_None:
  "queue_head locked jobs = None \<longleftrightarrow> (\<forall>j\<in>set jobs. sj_state j = Queued \<longrightarrow> sj_id j \<in> set locked)"
proof -
  have "queue_head locked jobs = None \<longleftrightarrow> sort_by (on_key int_cmp sj_created)
      (filter (\<lambda>j. sj_state j = Queued \<and> \<not> List.member locked (sj_id j)) jobs) = []"
    by (simp add: queue_head_def split: list.splits)
  then show ?thesis by (simp add: sort_by_empty filter_empty_conv)
qed

section \<open>The laws\<close>

lemma claim_first_law:
  assumes "scan_tok d" and "\<And>j. found = Some j \<Longrightarrow> j \<in> set (sd_jobs d) \<and> sj_state j = Queued"
    and "claim_first now w d found = (r, d')"
  shows "scan_tok d'" and "claim_view sc_id (map_sum id Some r) (scan_view d) (scan_view d')"
proof -
  have "scan_tok d' \<and> claim_view sc_id (map_sum id Some r) (scan_view d) (scan_view d')"
  proof (cases found)
    case None
    with assms(1,3) show ?thesis by (auto simp: claim_first_def claim_view_def)
  next
    case (Some j)
    with assms(2) have j: "j \<in> set (sd_jobs d)" "sj_state j = Queued" by auto
    have "scan_view (update_jobs (\<lambda>r. sj_id r = sj_id j) (claim_row now w) d) =
        set_job (sj_id j) Running (sj_attempts j + 1) (scan_view d)"
      using assms(1) j by (intro scan_view_set_job) (simp_all add: scan_tok_def)
    moreover have "(sj_id j, Queued, sj_attempts j) \<in> set (scan_view d)"
      using j by (force simp: scan_view_def)
    moreover have "sc_id (claim_of d (claim_row now w j)) = uuid_str (sj_id j)"
      by (simp add: claim_of_def Let_def)
    ultimately have "claim_view sc_id (Inr (Some (claim_of d (claim_row now w j)))) (scan_view d)
        (scan_view (update_jobs (\<lambda>r. sj_id r = sj_id j) (claim_row now w) d))"
      unfolding claim_view_def claims_one_def by auto
    moreover have "scan_tok (update_jobs (\<lambda>r. sj_id r = sj_id j) (claim_row now w) d)"
      by (rule scan_tok_update [OF assms(1)]) simp_all
    ultimately show ?thesis using assms(3) Some by (auto simp: claim_first_def)
  qed
  then show "scan_tok d'" "claim_view sc_id (map_sum id Some r) (scan_view d) (scan_view d')" by simp_all
qed

lemma deliver_claim_law:
  assumes "scan_tok d" and "\<And>j. found = Some j \<Longrightarrow> j \<in> set (sd_jobs d) \<and> sj_state j = Queued"
    and "deliver_claim aad box what (run_stmt flt d (claim_first now w d found)) = (r, d')"
  shows "scan_tok d' \<and> claim_view sc_id r (scan_view d) (scan_view d')"
proof -
  obtain r1 d1 where c: "run_stmt flt d (claim_first now w d found) = (r1, d1)" by (meson surj_pair)
  with assms(3) have d': "d' = d1"
    by (auto simp: deliver_claim_def split: sum.splits)
  have law: "scan_tok d1 \<and> claim_view sc_id (map_sum id Some r1) (scan_view d) (scan_view d1)"
  proof (cases rule: run_stmt_cases [OF c])
    case 1
    with assms(1) show ?thesis by (simp add: claim_view_def)
  next
    case 2
    with claim_first_law [OF assms(1,2)] show ?thesis by blast
  qed
  show ?thesis
  proof (cases r1)
    case (Inl e)
    with law c assms(3) show ?thesis by (auto simp: deliver_claim_def claim_view_def)
  next
    case (Inr x)
    with law c assms(3) show ?thesis
      by (auto simp: deliver_claim_def claim_view_def split: sum.splits)
  qed
qed

lemma find_Some_in: "find P xs = Some x \<Longrightarrow> x \<in> set xs \<and> P x"
  by (rule find_SomeD)

lemma FailOrRequeue_law:
  assumes "scan_tok d" and "Job_FailOrRequeue parse flt now d sid msg m = (r, d')"
  shows "scan_tok d' \<and> settle_view m r (scan_view d) (scan_view d')"
proof (cases "parse sid")
  case None
  with assms show ?thesis by (simp add: Job_FailOrRequeue_def with_id_def settle_view_def)
next
  case (Some uid)
  obtain r1 where c: "FailOrRequeueScanJobByID flt now d uid (nullStr msg) m = (r1, d')"
    using assms(2) Some by (auto simp: Job_FailOrRequeue_def with_id_def split: prod.splits sum.splits)
  show ?thesis
  proof (cases rule: run_stmt_cases [OF c [unfolded FailOrRequeueScanJobByID_def]])
    case 1
    with assms(1) show ?thesis by (simp add: settle_view_def)
  next
    case 2
    show ?thesis
    proof (cases "find (\<lambda>j. sj_id j = uid \<and> \<not> terminal (sj_state j)) (sd_jobs d)")
      case None
      with 2 assms(1) show ?thesis by (simp add: settle_view_def)
    next
      case (Some j)
      then have j: "j \<in> set (sd_jobs d)" "sj_id j = uid" "\<not> terminal (sj_state j)"
        by (auto dest: find_Some_in)
      have "scan_view d' = set_job uid (if sj_attempts j \<ge> m then Failed else Queued) (sj_attempts j) (scan_view d)"
        using 2 Some j assms(1) scan_view_set_job [of d j "fail_or_requeue_row now m (nullStr msg)"]
        by (simp add: scan_tok_def)
      moreover have "(uid, sj_state j, sj_attempts j) \<in> set (scan_view d)"
        using j by (force simp: scan_view_def)
      moreover have "r = Inr (state_str (if sj_attempts j \<ge> m then Failed else Queued))"
        using assms(2) \<open>parse sid = Some uid\<close> 2 Some j(2) c
        by (auto simp: Job_FailOrRequeue_def with_id_def)
      moreover have "scan_tok d'" using 2 Some assms(1) by (auto intro: scan_tok_update)
      ultimately show ?thesis using j(3) unfolding settle_view_def by blast
    qed
  qed
qed

lemma exec_jobs_sweep:
  assumes "exec_jobs flt P f d = (r, d')" and "scan_tok d"
    and "\<And>j. sj_id (f j) = sj_id j \<and> sj_attempts (f j) = sj_attempts j"
    and "\<And>j. P j \<Longrightarrow> sweep_row m (sj_id j, sj_state j, sj_attempts j) (sj_id j, sj_state (f j), sj_attempts j)"
  shows "scan_tok d' \<and> list_all2 (sweep_row m) (scan_view d) (scan_view d')"
proof (cases rule: run_stmt_cases [OF assms(1) [unfolded exec_jobs_def]])
  case 1
  with assms(2) show ?thesis by (auto simp: list_all2_same)
next
  case 2
  then have d': "d' = update_jobs P f d" by simp
  have "scan_tok d'" unfolding d' using assms(2,3) by (auto intro: scan_tok_update)
  moreover have "list_all2 (sweep_row m) (scan_view d) (scan_view d')"
    unfolding d' scan_view_update
    using assms(3,4) by (auto simp: scan_view_def list_all2_map1 list_all2_map2 list_all2_same)
  ultimately show ?thesis ..
qed

lemma sweep_row_trans: "sweep_row m x y \<Longrightarrow> sweep_row m y z \<Longrightarrow> sweep_row m x z"
  by (cases x; cases y; cases z) auto

lemma RequeueStuckRunning_law:
  assumes "scan_tok d" and "Job_RequeueStuckRunning f1 f2 now d threshold m = (r, d')"
  shows "scan_tok d' \<and> list_all2 (sweep_row m) (scan_view d) (scan_view d')"
proof -
  obtain r1 d1 where s1: "RequeueStuckRunning_stmt f1 now d m (now - threshold) = (r1, d1)" by (meson surj_pair)
  have one: "scan_tok d1 \<and> list_all2 (sweep_row m) (scan_view d) (scan_view d1)"
    by (rule exec_jobs_sweep [OF s1 [unfolded RequeueStuckRunning_stmt_def] assms(1)]) auto
  show ?thesis
  proof (cases r1)
    case (Inl e)
    with s1 assms(2) one show ?thesis by (simp add: Job_RequeueStuckRunning_def)
  next
    case (Inr n)
    obtain r2 d2 where s2: "FailStaleRequeuedScanJobs f2 now d1 (now - staleRequeuedAfter) = (r2, d2)"
      by (meson surj_pair)
    have two: "scan_tok d2 \<and> list_all2 (sweep_row m) (scan_view d1) (scan_view d2)"
      by (rule exec_jobs_sweep [OF s2 [unfolded FailStaleRequeuedScanJobs_def] conjunct1 [OF one]]) auto
    have "d' = d2"
      using assms(2) s1 s2 Inr by (auto simp: Job_RequeueStuckRunning_def split: sum.splits)
    then show ?thesis
      using one two list_all2_trans [of "sweep_row m" "sweep_row m" "sweep_row m"] sweep_row_trans by blast
  qed
qed

interpretation scanq: job_queue "scan_queue parse aad box env" scan_view scan_tok
  for parse aad box env
proof
  show "distinct (map fst (scan_view d))" if "scan_tok d" for d
    using that by (simp add: scan_tok_def scan_view_def comp_def)
  show "0 \<le> a" if "scan_tok d" "(i, s, a) \<in> set (scan_view d)" for d i s a
    using that by (auto simp: scan_tok_def scan_view_def list_all_iff)
  show "scan_tok d' \<and> claim_view (q_job_id (scan_queue parse aad box env)) r (scan_view d) (scan_view d')"
    if "scan_tok d" "q_claim_next (scan_queue parse aad box env) k d w = (r, d')" for d k w r d'
    using that deliver_claim_law [OF that(1), of "queue_head (ce_locked env k) (sd_jobs d)"] queue_head_in
    by (fastforce simp: scan_queue_def Job_ClaimNext_def ClaimNextQueuedJob_def)
  show "scan_tok d' \<and> claim_view (q_job_id (scan_queue parse aad box env)) r (scan_view d) (scan_view d')"
    if "scan_tok d" "q_claim_by_id (scan_queue parse aad box env) k d sid w = (r, d')" for d k sid w r d'
  proof (cases "parse sid")
    case None
    with that show ?thesis by (auto simp: scan_queue_def Job_ClaimByID_def claim_view_def)
  next
    case (Some uid)
    with that deliver_claim_law [OF that(1), of "find (\<lambda>j. sj_id j = uid \<and> sj_state j = Queued) (sd_jobs d)"]
      find_Some_in
    show ?thesis by (fastforce simp: scan_queue_def Job_ClaimByID_def ClaimScanJobByID_def)
  qed
  show "scan_tok d' \<and> settle_view m r (scan_view d) (scan_view d')"
    if "scan_tok d" "q_fail_or_requeue (scan_queue parse aad box env) k d sid msg m = (r, d')" for d k sid msg m r d'
    using that FailOrRequeue_law by (simp add: scan_queue_def)
  show "scan_tok d' \<and> list_all2 (sweep_row m) (scan_view d) (scan_view d')"
    if "scan_tok d" "q_requeue_stuck (scan_queue parse aad box env) k d threshold m = (r, d')" for d k threshold m r d'
    using that RequeueStuckRunning_law by (simp add: scan_queue_def)
qed

end
