(* ===== verification/EnrichQueue.thy ===== *)
theory EnrichQueue
  imports EnrichJobs ScanQueue
begin

text \<open>
  The enrichment queue as a provider of the worker's contract: \<open>enrichJobService\<close> scoped to one enricher,
  and the interpretation of \<open>job_queue\<close> on it. A job counts for the view whatever its enricher: a worker
  of one partition leaves the rows of the others alone, except for a claim by id.
\<close>

definition enrich_queue :: "uuid_parser \<Rightarrow> string \<Rightarrow> call_env \<Rightarrow> (enrich_db, enrich_claim) queue" where
  "enrich_queue parse enricher env =
     \<lparr>q_claim_by_id = (\<lambda>k d i w. Enrich_ClaimByID parse (ce_fault env k 0) (ce_now env k) d i w),
      q_claim_next = (\<lambda>k d w. Enrich_ClaimNext enricher (ce_fault env k 0) (ce_now env k) (ce_locked env k) d w),
      q_fail_or_requeue = (\<lambda>k d i msg m. Enrich_FailOrRequeue parse (ce_fault env k 1) (ce_now env k) d i msg m),
      q_requeue_stuck = (\<lambda>k d t m. Enrich_RequeueStuckRunning (ce_fault env k 0) (ce_now env k) d t m),
      q_job_id = ec_id\<rparr>"

definition ejob_key :: "enrich_job_row \<Rightarrow> uuid \<times> job_state \<times> int" where
  "ejob_key j = (ej_id j, ej_state j, ej_attempts j)"

definition enrich_view :: "enrich_db \<Rightarrow> job_view" where
  "enrich_view d = map ejob_key (ed_jobs d)"

text \<open>The table's CHECK admits every state but \<open>pruned\<close>.\<close>

definition enrich_tok :: "enrich_db \<Rightarrow> bool" where
  "enrich_tok d \<longleftrightarrow> distinct (map ej_id (ed_jobs d)) \<and>
     list_all (\<lambda>j. 0 \<le> ej_attempts j \<and> ej_state j \<noteq> Pruned) (ed_jobs d)"

section \<open>Updates: lemmas\<close>

lemma ed_jobs_update [simp]: "ed_jobs (update_ejobs P f d) = update_where P f (ed_jobs d)"
  by (simp add: update_ejobs_def)

lemma eclaim_row_simps [simp]:
  "ej_id (eclaim_row now w j) = ej_id j" "ej_state (eclaim_row now w j) = Running"
  "ej_attempts (eclaim_row now w j) = ej_attempts j + 1" "ej_sbom (eclaim_row now w j) = ej_sbom j"
  "ej_enricher (eclaim_row now w j) = ej_enricher j" "ej_key (eclaim_row now w j) = ej_key j"
  by (simp_all add: eclaim_row_def)

lemma efail_row_simps [simp]:
  "ej_id (efail_or_requeue_row now m e j) = ej_id j"
  "ej_attempts (efail_or_requeue_row now m e j) = ej_attempts j"
  "ej_state (efail_or_requeue_row now m e j) = (if ej_attempts j \<ge> m then Failed else Queued)"
  "ej_sbom (efail_or_requeue_row now m e j) = ej_sbom j"
  "ej_enricher (efail_or_requeue_row now m e j) = ej_enricher j"
  "ej_key (efail_or_requeue_row now m e j) = ej_key j"
  by (simp_all add: efail_or_requeue_row_def)

lemma estuck_row_simps [simp]:
  "ej_id (estuck_row now m j) = ej_id j" "ej_attempts (estuck_row now m j) = ej_attempts j"
  "ej_state (estuck_row now m j) = (if ej_attempts j \<ge> m then Failed else Queued)"
  "ej_sbom (estuck_row now m j) = ej_sbom j" "ej_enricher (estuck_row now m j) = ej_enricher j"
  "ej_key (estuck_row now m j) = ej_key j"
  by (simp_all add: estuck_row_def)

lemma enrich_tok_update:
  assumes "enrich_tok d" and "\<And>r. ej_id (f r) = ej_id r"
    and "\<And>r. 0 \<le> ej_attempts r \<and> ej_state r \<noteq> Pruned \<Longrightarrow> 0 \<le> ej_attempts (f r) \<and> ej_state (f r) \<noteq> Pruned"
  shows "enrich_tok (update_ejobs P f d)"
  using assms by (auto simp: enrich_tok_def map_update_where intro: list_all_update_where)

lemma enrich_view_set_job:
  assumes "enrich_tok d" and "j \<in> set (ed_jobs d)"
    and "\<And>r. ej_id (f r) = ej_id r" and "ej_state (f j) = s" and "ej_attempts (f j) = a"
  shows "enrich_view (update_ejobs (\<lambda>r. ej_id r = ej_id j) f d) = set_job (ej_id j) s a (enrich_view d)"
proof -
  have "r = j" if "r \<in> set (ed_jobs d)" "ej_id r = ej_id j" for r
    using assms(1,2) that by (simp add: enrich_tok_def distinct_map inj_on_def)
  then show ?thesis
    using assms(3-5) by (auto simp: set_job_def enrich_view_def ejob_key_def update_where_def)
qed

lemma enrich_view_mem: "j \<in> set (ed_jobs d) \<Longrightarrow> (ej_id j, ej_state j, ej_attempts j) \<in> set (enrich_view d)"
  unfolding enrich_view_def set_map by (rule image_eqI) (simp_all add: ejob_key_def)

lemma equeue_head_in:
  assumes "equeue_head locked enricher jobs = Some j"
  shows "j \<in> set jobs \<and> ej_state j = Queued \<and> ej_enricher j = enricher"
proof -
  let ?rows = "filter (\<lambda>j. ej_state j = Queued \<and> ej_enricher j = enricher \<and>
      \<not> List.member locked (ej_id j)) jobs"
  obtain js where js: "sort_by (on_key int_cmp ej_created) ?rows = j # js"
    using assms by (auto simp: equeue_head_def split: list.splits)
  have "j \<in> set (sort_by (on_key int_cmp ej_created) ?rows)" by (simp only: js) simp
  then have "j \<in> set ?rows" by (simp only: set_sort_by)
  then show ?thesis by simp
qed

section \<open>The laws\<close>

lemma eclaim_of_id: "eclaim_of d j = Some c \<Longrightarrow> ec_id c = uuid_str (ej_id j)"
  by (auto simp: eclaim_of_def split: option.splits)

text \<open>A claim marks one queued row as running, whether it can be delivered or not.\<close>

lemma eclaim_first_law:
  assumes "enrich_tok d" and "\<And>j. found = Some j \<Longrightarrow> j \<in> set (ed_jobs d) \<and> ej_state j = Queued"
    and "edeliver what (run_stmt flt d (eclaim_first now w d found)) = (r, d')"
  shows "enrich_tok d' \<and> claim_view ec_id r (enrich_view d) (enrich_view d')"
proof (cases "flt = None \<and> found \<noteq> None")
  case False
  with assms(1,3) show ?thesis
    by (cases flt) (auto simp: edeliver_def run_stmt_def eclaim_first_def claim_view_def split: if_splits)
next
  case True
  then obtain j where j: "found = Some j" "j \<in> set (ed_jobs d)" "ej_state j = Queued"
    using assms(2) by auto
  let ?d1 = "update_ejobs (\<lambda>r. ej_id r = ej_id j) (eclaim_row now w) d"
  have d': "d' = ?d1" using assms(3) True j(1)
    by (auto simp: edeliver_def run_stmt_def eclaim_first_def split: option.splits)
  have "enrich_view ?d1 = set_job (ej_id j) Running (ej_attempts j + 1) (enrich_view d)"
    using assms(1) j by (intro enrich_view_set_job) simp_all
  then have one: "claims_one (ej_id j) (enrich_view d) (enrich_view d')"
    using enrich_view_mem [OF j(2)] j(3) by (auto simp: claims_one_def d')
  have "r = Inr None \<or> (\<exists>c. r = Inr (Some c) \<and> ec_id c = uuid_str (ej_id j))"
    using assms(3) True j(1) eclaim_of_id
    by (fastforce simp: edeliver_def run_stmt_def eclaim_first_def split: option.splits)
  moreover have "enrich_tok d'" unfolding d' by (rule enrich_tok_update [OF assms(1)]) simp_all
  ultimately show ?thesis using one by (auto simp: claim_view_def)
qed

lemma claim_view_map:
  assumes "claim_view ec_id r V V'" and "\<And>c. ec_id (f c) = ec_id c"
  shows "claim_view ec_id (map_sum id (map_option f) r) V V'"
  using assms by (auto simp: claim_view_def split: sum.splits option.splits)

lemma Enrich_claim_law:
  assumes "enrich_tok d"
    and "Enrich_ClaimByID parse flt now d sid w = (r, d') \<or> Enrich_ClaimNext enricher flt now locked d w = (r, d')"
  shows "enrich_tok d' \<and> claim_view ec_id r (enrich_view d) (enrich_view d')"
proof -
  have "r = Inr None \<and> d' = d \<or> (\<exists>found what r0 f.
      (\<forall>j. found = Some j \<longrightarrow> j \<in> set (ed_jobs d) \<and> ej_state j = Queued) \<and> (\<forall>c. ec_id (f c) = ec_id c) \<and>
      edeliver what (run_stmt flt d (eclaim_first now w d found)) = (r0, d') \<and> r = map_sum id (map_option f) r0)"
    using assms(2)
  proof
    assume a: "Enrich_ClaimByID parse flt now d sid w = (r, d')"
    show ?thesis
    proof (cases "parse sid")
      case None
      with a show ?thesis by (simp add: Enrich_ClaimByID_def)
    next
      case (Some uid)
      let ?found = "find (\<lambda>j. ej_id j = uid \<and> ej_state j = Queued) (ed_jobs d)"
      have "\<forall>j. ?found = Some j \<longrightarrow> j \<in> set (ed_jobs d) \<and> ej_state j = Queued"
        by (auto dest: find_Some_in)
      moreover have "\<forall>c. ec_id (enrichClaimFromRow c) = ec_id c" by (simp add: enrichClaimFromRow_def)
      ultimately show ?thesis
        using a Some by (simp add: Enrich_ClaimByID_def ClaimEnrichmentJobByID_def map_prod_def
          split: prod.splits) blast
    qed
  next
    assume a: "Enrich_ClaimNext enricher flt now locked d w = (r, d')"
    have "\<forall>j. equeue_head locked enricher (ed_jobs d) = Some j \<longrightarrow> j \<in> set (ed_jobs d) \<and> ej_state j = Queued"
      by (auto dest: equeue_head_in)
    moreover have "\<forall>c. ec_id (enrichClaimFromNextRow c) = ec_id c" by (simp add: enrichClaimFromNextRow_def)
    ultimately show ?thesis
      using a by (simp add: Enrich_ClaimNext_def ClaimNextEnrichmentJob_def map_prod_def split: prod.splits) blast
  qed
  then show ?thesis
  proof
    assume "r = Inr None \<and> d' = d"
    with assms(1) show ?thesis by (simp add: claim_view_def)
  next
    assume "\<exists>found what r0 f.
      (\<forall>j. found = Some j \<longrightarrow> j \<in> set (ed_jobs d) \<and> ej_state j = Queued) \<and> (\<forall>c. ec_id (f c) = ec_id c) \<and>
      edeliver what (run_stmt flt d (eclaim_first now w d found)) = (r0, d') \<and> r = map_sum id (map_option f) r0"
    then show ?thesis using eclaim_first_law [OF assms(1)] claim_view_map by blast
  qed
qed

lemma Enrich_FailOrRequeue_law:
  assumes "enrich_tok d" and "Enrich_FailOrRequeue parse flt now d sid msg m = (r, d')"
  shows "enrich_tok d' \<and> settle_view m r (enrich_view d) (enrich_view d')"
proof (cases "\<exists>uid j. parse sid = Some uid \<and> flt = None \<and>
    find (\<lambda>j. ej_id j = uid \<and> ej_state j \<noteq> Succeeded \<and> ej_state j \<noteq> Failed) (ed_jobs d) = Some j")
  case False
  with assms have "d' = d"
    by (cases "parse sid"; cases flt) (auto simp: Enrich_FailOrRequeue_def with_ejob_id_def
      FailOrRequeueEnrichmentJobByID_def run_stmt_def split: option.splits)
  with assms(1) show ?thesis by (simp add: settle_view_def)
next
  case True
  then obtain uid j where u: "parse sid = Some uid" "flt = None"
    and f: "find (\<lambda>j. ej_id j = uid \<and> ej_state j \<noteq> Succeeded \<and> ej_state j \<noteq> Failed) (ed_jobs d) = Some j"
    by blast
  then have j: "j \<in> set (ed_jobs d)" "ej_id j = uid" "ej_state j \<noteq> Succeeded" "ej_state j \<noteq> Failed"
    by (auto dest: find_Some_in)
  let ?d1 = "update_ejobs (\<lambda>r. ej_id r = ej_id j) (efail_or_requeue_row now m (nullStr msg)) d"
  have d': "d' = ?d1" "r = Inr (state_str (if ej_attempts j \<ge> m then Failed else Queued))"
    using assms(2) u f j(2) by (auto simp: Enrich_FailOrRequeue_def with_ejob_id_def
      FailOrRequeueEnrichmentJobByID_def run_stmt_def)
  have "enrich_view d' = set_job (ej_id j) (if ej_attempts j \<ge> m then Failed else Queued) (ej_attempts j) (enrich_view d)"
    unfolding d' using assms(1) j(1) by (intro enrich_view_set_job) simp_all
  moreover have "enrich_tok d'" unfolding d' by (rule enrich_tok_update [OF assms(1)]) simp_all
  moreover have "\<not> terminal (ej_state j)"
    using j assms(1) by (cases "ej_state j") (auto simp: enrich_tok_def list_all_iff)
  ultimately show ?thesis
    using enrich_view_mem [OF j(1)] d'(2) unfolding settle_view_def by blast
qed

lemma Enrich_sweep_law:
  assumes "enrich_tok d" and "Enrich_RequeueStuckRunning flt now d threshold m = (r, d')"
  shows "enrich_tok d' \<and> list_all2 (sweep_row m) (enrich_view d) (enrich_view d')"
proof (cases flt)
  case (Some e)
  with assms show ?thesis
    by (auto simp: Enrich_RequeueStuckRunning_def RequeueStuckEnrichmentJobs_def exec_ejobs_def run_stmt_def
        list_all2_same)
next
  case None
  then have d': "d' = update_ejobs (\<lambda>j. ej_state j = Running \<and> before (ej_last_attempt j) (now - threshold))
      (estuck_row now m) d"
    using assms(2) by (auto simp: Enrich_RequeueStuckRunning_def RequeueStuckEnrichmentJobs_def exec_ejobs_def
        run_stmt_def)
  have "enrich_tok d'" unfolding d' by (rule enrich_tok_update [OF assms(1)]) simp_all
  moreover have "list_all2 (sweep_row m) (enrich_view d) (enrich_view d')"
    by (auto simp: d' enrich_view_def ejob_key_def update_where_def list_all2_map1 list_all2_map2 list_all2_same)
  ultimately show ?thesis ..
qed

interpretation enrichq: job_queue "enrich_queue parse enricher env" enrich_view enrich_tok
  for parse enricher env
proof
  show "distinct (map fst (enrich_view d))" if "enrich_tok d" for d
    using that by (simp add: enrich_tok_def enrich_view_def ejob_key_def comp_def)
  show "0 \<le> a" if "enrich_tok d" "(i, s, a) \<in> set (enrich_view d)" for d i s a
    using that by (auto simp: enrich_tok_def enrich_view_def ejob_key_def list_all_iff)
  show "enrich_tok d' \<and> claim_view (q_job_id (enrich_queue parse enricher env)) r (enrich_view d) (enrich_view d')"
    if "enrich_tok d" "q_claim_next (enrich_queue parse enricher env) k d w = (r, d')" for d k w r d'
    using that Enrich_claim_law by (simp add: enrich_queue_def) blast
  show "enrich_tok d' \<and> claim_view (q_job_id (enrich_queue parse enricher env)) r (enrich_view d) (enrich_view d')"
    if "enrich_tok d" "q_claim_by_id (enrich_queue parse enricher env) k d sid w = (r, d')" for d k sid w r d'
    using that Enrich_claim_law by (simp add: enrich_queue_def) blast
  show "enrich_tok d' \<and> settle_view m r (enrich_view d) (enrich_view d')"
    if "enrich_tok d" "q_fail_or_requeue (enrich_queue parse enricher env) k d sid msg m = (r, d')" for d k sid msg m r d'
    using that Enrich_FailOrRequeue_law by (simp add: enrich_queue_def)
  show "enrich_tok d' \<and> list_all2 (sweep_row m) (enrich_view d) (enrich_view d')"
    if "enrich_tok d" "q_requeue_stuck (enrich_queue parse enricher env) k d threshold m = (r, d')" for d k threshold m r d'
    using that Enrich_sweep_law by (simp add: enrich_queue_def)
qed

end
