(* ===== verification/EnrichDispatch.thy ===== *)
theory EnrichDispatch
  imports EnrichQueue
begin

text \<open>
  What an enrichment worker does with a claimed job: \<^verbatim>\<open>internal/enrichment/dispatcher.go\<close>,
  \<^verbatim>\<open>provenance_drift.go\<close>, \<^verbatim>\<open>deps.go\<close>, \<^verbatim>\<open>reverify.go\<close>, \<^verbatim>\<open>submitter.go\<close> and
  \<^verbatim>\<open>internal/worker/enrichment\<close>. The enrichers themselves (registry, transparency log and git access) are
  arguments, as is the decoding of the JSON they answer with. Every statement may fail.
\<close>

section \<open>Enrichers\<close>

record subject_ref =
  sr_sbom :: uuid
  sr_source :: "uuid option"
  sr_kind :: string
  sr_artifact_type :: string
  sr_artifact_name :: string
  sr_digest :: string
  sr_index_digest :: string
  sr_version :: string
  sr_arch :: string
  sr_build :: string

text \<open>The first argument of \<open>er_enrich\<close> numbers the worker's calls: what a registry answers may change.\<close>

record enricher =
  er_name :: string
  er_can :: "subject_ref \<Rightarrow> bool"
  er_enrich :: "nat \<Rightarrow> subject_ref \<Rightarrow> string option result"

definition n_OCIMetadata :: string where "n_OCIMetadata = ''oci-metadata''"
definition n_User :: string where "n_User = ''user''"
definition n_Provenance :: string where "n_Provenance = ''provenance''"
definition n_Git :: string where "n_Git = ''git''"
definition StatusSuccess :: string where "StatusSuccess = ''success''"
definition StatusError :: string where "StatusError = ''error''"

lemmas enricher_names = n_OCIMetadata_def n_User_def n_Provenance_def n_Git_def

definition rootEnrichers :: "string list" where
  "rootEnrichers = [n_User, n_OCIMetadata, n_Provenance]"

definition enricherDeps :: "(string \<times> string list) list" where
  "enricherDeps = [(n_Git, [n_OCIMetadata])]"

definition Dependents :: "string \<Rightarrow> string list" where
  "Dependents name = map fst (filter (\<lambda>(e, deps). List.member deps name) enricherDeps)"

definition Prerequisites :: "string \<Rightarrow> string list" where
  "Prerequisites name = (case map_of enricherDeps name of None \<Rightarrow> [] | Some deps \<Rightarrow> deps)"

section \<open>The enrichment table\<close>

definition GetEnrichment :: "fault \<Rightarrow> enrich_db \<Rightarrow> uuid \<Rightarrow> string \<Rightarrow> enrichment_row result" where
  "GetEnrichment flt d sbom name =
     read_stmt flt
       (case find (\<lambda>r. en_sbom r = sbom \<and> en_name r = name) (ed_enrichments d) of
          None \<Rightarrow> Inl NoRows | Some r \<Rightarrow> Inr r)"

definition upsert_row ::
  "int \<Rightarrow> string \<Rightarrow> string option \<Rightarrow> string option \<Rightarrow> enrichment_row \<Rightarrow> enrichment_row" where
  "upsert_row now st data msg r =
     r\<lparr>en_status := (if st = ''error'' \<and> en_data r \<noteq> None then en_status r else st),
       en_data := (case data of Some x \<Rightarrow> Some x | None \<Rightarrow> en_data r),
       en_error := msg, en_updated := now\<rparr>"

definition UpsertEnrichment ::
  "fault \<Rightarrow> int \<Rightarrow> enrich_db \<Rightarrow> uuid \<Rightarrow> string \<Rightarrow> string \<Rightarrow> string option \<Rightarrow> string option \<Rightarrow>
   unit result \<times> enrich_db" where
  "UpsertEnrichment flt now d sbom name st data msg =
     run_stmt flt d
       (let same = (\<lambda>r. en_sbom r = sbom \<and> en_name r = name) in
        if list_ex same (ed_enrichments d)
        then (Inr (), d\<lparr>ed_enrichments := update_where same (upsert_row now st data msg) (ed_enrichments d)\<rparr>)
        else if \<not> list_ex (\<lambda>s. es_id s = sbom) (ed_sboms d)
        then (Inl (OtherError ''violates foreign key constraint''), d)
        else (Inr (), d\<lparr>ed_enrichments := ed_enrichments d @
               [\<lparr>en_sbom = sbom, en_name = name, en_status = st, en_data = data, en_error = msg,
                 en_updated = now\<rparr>]\<rparr>))"

definition update_sboms ::
  "fault \<Rightarrow> enrich_db \<Rightarrow> uuid \<Rightarrow> (enrich_sbom \<Rightarrow> enrich_sbom) \<Rightarrow> unit result \<times> enrich_db" where
  "update_sboms flt d i f =
     run_stmt flt d (Inr (), d\<lparr>ed_sboms := update_where (\<lambda>s. es_id s = i) f (ed_sboms d)\<rparr>)"

definition UpdateSBOMSubjectVersion ::
  "fault \<Rightarrow> enrich_db \<Rightarrow> uuid \<Rightarrow> string option \<Rightarrow> unit result \<times> enrich_db" where
  "UpdateSBOMSubjectVersion flt d i v = update_sboms flt d i (\<lambda>s. s\<lparr>es_version := v\<rparr>)"

definition UpdateSBOMEnrichmentSufficient ::
  "fault \<Rightarrow> enrich_db \<Rightarrow> uuid \<Rightarrow> bool \<Rightarrow> unit result \<times> enrich_db" where
  "UpdateSBOMEnrichmentSufficient flt d i b = update_sboms flt d i (\<lambda>s. s\<lparr>es_sufficient := b\<rparr>)"

section \<open>Provenance drift\<close>

record provenance =
  pv_missing :: bool
  pv_verified :: "bool option"
  pv_signature :: bool
  pv_attestation :: bool
  pv_fingerprint :: string
  pv_identity :: string
  pv_issuer :: string

definition SigningStatus :: "provenance \<Rightarrow> string" where
  "SigningStatus p =
     (if pv_missing p then ''artifact_missing''
      else case pv_verified p of
        Some True \<Rightarrow> ''verified''
      | Some False \<Rightarrow> ''verification_failed''
      | None \<Rightarrow> if pv_signature p \<or> pv_attestation p then ''signed'' else ''unsigned'')"

definition sameSigner :: "provenance \<Rightarrow> provenance \<Rightarrow> bool" where
  "sameSigner a b \<longleftrightarrow>
     pv_fingerprint a \<noteq> [] \<and> pv_fingerprint a = pv_fingerprint b \<or>
     pv_identity a \<noteq> [] \<and> pv_issuer a \<noteq> [] \<and>
     pv_identity a = pv_identity b \<and> pv_issuer a = pv_issuer b"

definition GetProvenanceDriftPending :: "fault \<Rightarrow> enrich_db \<Rightarrow> uuid \<Rightarrow> drift_row result" where
  "GetProvenanceDriftPending flt d sbom =
     read_stmt flt (case find (\<lambda>r. dr_sbom r = sbom) (ed_pending d) of None \<Rightarrow> Inl NoRows | Some r \<Rightarrow> Inr r)"

definition DeleteProvenanceDriftPending :: "fault \<Rightarrow> enrich_db \<Rightarrow> uuid \<Rightarrow> unit result \<times> enrich_db" where
  "DeleteProvenanceDriftPending flt d sbom =
     run_stmt flt d (Inr (), d\<lparr>ed_pending := filter (\<lambda>r. dr_sbom r \<noteq> sbom) (ed_pending d)\<rparr>)"

definition UpsertProvenanceDriftPending :: "fault \<Rightarrow> enrich_db \<Rightarrow> drift_row \<Rightarrow> unit result \<times> enrich_db" where
  "UpsertProvenanceDriftPending flt d new =
     run_stmt flt d (Inr (),
       if list_ex (\<lambda>r. dr_sbom r = dr_sbom new) (ed_pending d)
       then d\<lparr>ed_pending := update_where (\<lambda>r. dr_sbom r = dr_sbom new) (\<lambda>_. new) (ed_pending d)\<rparr>
       else d\<lparr>ed_pending := ed_pending d @ [new]\<rparr>)"

definition InsertProvenanceDrift :: "fault \<Rightarrow> enrich_db \<Rightarrow> drift_row \<Rightarrow> unit result \<times> enrich_db" where
  "InsertProvenanceDrift flt d new = run_stmt flt d (Inr (), d\<lparr>ed_events := ed_events d @ [new]\<rparr>)"

text \<open>A failure to read the pending row counts as none.\<close>

definition pendingDrift :: "fault \<Rightarrow> enrich_db \<Rightarrow> uuid \<Rightarrow> drift_row option" where
  "pendingDrift flt d sbom =
     (case GetProvenanceDriftPending flt d sbom of Inl e \<Rightarrow> None | Inr p \<Rightarrow> Some p)"

definition clearPendingDrift :: "fault \<Rightarrow> enrich_db \<Rightarrow> uuid \<Rightarrow> enrich_db" where
  "clearPendingDrift flt d sbom = snd (DeleteProvenanceDriftPending flt d sbom)"

definition insertDrift :: "fault \<Rightarrow> enrich_db \<Rightarrow> drift_row \<Rightarrow> enrich_db" where
  "insertDrift flt d row = snd (InsertProvenanceDrift flt d row)"

definition drift_reason :: "provenance \<Rightarrow> provenance \<Rightarrow> string" where
  "drift_reason oldP newP =
     (if pv_missing newP then ''artifact_missing''
      else if sameSigner oldP newP then ''trust_config_changed'' else ''reverification_failed'')"

text \<open>\<open>flt\<close> numbers the statements: 4 reads the pending row, 5 deletes it, 6 writes it, 7 inserts the event.\<close>

definition judge_drift ::
  "(nat \<Rightarrow> fault) \<Rightarrow> int \<Rightarrow> enrich_db \<Rightarrow> uuid \<Rightarrow> provenance \<Rightarrow> provenance \<Rightarrow> string \<Rightarrow> string \<Rightarrow> enrich_db" where
  "judge_drift flt now d sbom oldP newP oldData newData =
     (let oldStatus = SigningStatus oldP; newStatus = SigningStatus newP;
          row = \<lparr>dr_sbom = sbom, dr_prev = oldStatus, dr_new = newStatus, dr_reason = drift_reason oldP newP,
                 dr_prev_data = oldData, dr_new_data = newData, dr_at = now\<rparr>
      in if newStatus = oldStatus then d
         else if oldStatus \<noteq> ''verified'' \<and> oldStatus \<noteq> ''signed'' then d
         else if newStatus = ''unsigned'' then snd (UpsertProvenanceDriftPending (flt 6) d row)
         else insertDrift (flt 7) d row)"

definition recordProvenanceDrift ::
  "(string \<Rightarrow> provenance option) \<Rightarrow> (nat \<Rightarrow> fault) \<Rightarrow> int \<Rightarrow> enrich_db \<Rightarrow> uuid \<Rightarrow> string option \<Rightarrow> string option \<Rightarrow>
   enrich_db" where
  "recordProvenanceDrift decode flt now d sbom oldData newData =
     (case (oldData, newData) of
        (Some old, Some new) \<Rightarrow>
          (case (decode old, decode new) of
             (Some oldP, Some newP) \<Rightarrow>
               (case pendingDrift (flt 4) d sbom of
                  None \<Rightarrow> judge_drift flt now d sbom oldP newP old new
                | Some p \<Rightarrow>
                    (let d1 = clearPendingDrift (flt 5) d sbom in
                     if SigningStatus newP = dr_new p
                     then insertDrift (flt 7) d1
                       \<lparr>dr_sbom = sbom, dr_prev = dr_prev p, dr_new = SigningStatus newP, dr_reason = dr_reason p,
                        dr_prev_data = dr_prev_data p, dr_new_data = new, dr_at = now\<rparr>
                     else judge_drift flt now d1 sbom oldP newP old new))
           | _ \<Rightarrow> d)
      | _ \<Rightarrow> d)"

section \<open>The dispatcher\<close>

text \<open>\<open>pe_fault k n\<close> gives the failures of the statements around the \<open>n\<close>th enricher of call \<open>k\<close>; \<open>pe_meta\<close>
  reads \<open>imageVersion\<close> and \<open>architecture\<close>.\<close>

record process_env =
  pe_call :: call_env
  pe_fault :: "nat \<Rightarrow> nat \<Rightarrow> nat \<Rightarrow> fault"
  pe_ids :: "nat \<Rightarrow> nat \<Rightarrow> uuid"
  pe_trace :: string
  pe_err_text :: "go_error \<Rightarrow> string"
  pe_meta :: "string \<Rightarrow> (string \<times> string) option"
  pe_prov :: "string \<Rightarrow> provenance option"

definition requiresArchitecture :: "string \<Rightarrow> bool" where
  "requiresArchitecture t \<longleftrightarrow> t = [] \<or> t = ''container''"

definition decode_meta :: "process_env \<Rightarrow> string option \<Rightarrow> (string \<times> string) option" where
  "decode_meta env data = (case data of None \<Rightarrow> None | Some s \<Rightarrow> pe_meta env s)"

definition applyEnrichmentSufficiency ::
  "process_env \<Rightarrow> fault \<Rightarrow> enrich_db \<Rightarrow> subject_ref \<Rightarrow> string option \<Rightarrow> enrich_db" where
  "applyEnrichmentSufficiency env flt d ref data =
     (case decode_meta env data of
        None \<Rightarrow> d
      | Some (version, arch) \<Rightarrow>
          snd (UpdateSBOMEnrichmentSufficient flt d (sr_sbom ref)
                 (version \<noteq> [] \<and> (\<not> requiresArchitecture (sr_artifact_type ref) \<or> arch \<noteq> []))))"

definition applyOCIVersion ::
  "process_env \<Rightarrow> fault \<Rightarrow> enrich_db \<Rightarrow> uuid \<Rightarrow> string option \<Rightarrow> enrich_db" where
  "applyOCIVersion env flt d sbom data =
     (case decode_meta env data of
        None \<Rightarrow> d
      | Some (version, arch) \<Rightarrow>
          if version = [] then d else snd (UpdateSBOMSubjectVersion flt d sbom (Some version)))"

definition after_enrich ::
  "process_env \<Rightarrow> (nat \<Rightarrow> fault) \<Rightarrow> int \<Rightarrow> subject_ref \<Rightarrow> string \<Rightarrow> string option \<Rightarrow> enrichment_row option \<Rightarrow>
   enrich_db \<Rightarrow> enrich_db" where
  "after_enrich env flt now ref name data prior d =
     (let d1 = (if name = n_OCIMetadata then applyOCIVersion env (flt 2) d (sr_sbom ref) data else d);
          d2 = (if name = n_OCIMetadata \<or> name = n_User then applyEnrichmentSufficiency env (flt 3) d1 ref data else d1)
      in case prior of
           None \<Rightarrow> d2
         | Some p \<Rightarrow>
             if name = n_Provenance \<and> en_status p = StatusSuccess
             then recordProvenanceDrift (pe_prov env) flt now d2 (sr_sbom ref) (en_data p) data
             else d2)"

fun processSubject ::
  "process_env \<Rightarrow> nat \<Rightarrow> enricher list \<Rightarrow> nat \<Rightarrow> subject_ref \<Rightarrow> enrich_db \<Rightarrow> go_error option \<times> enrich_db" where
  "processSubject env k [] n ref d = (None, d)"
| "processSubject env k (e # es) n ref d =
     (if \<not> er_can e ref then processSubject env k es (Suc n) ref d
      else let now = ce_now (pe_call env) k; flt = pe_fault env k n in
        case er_enrich e k ref of
          Inl err \<Rightarrow>
            (case UpsertEnrichment (flt 1) now d (sr_sbom ref) (er_name e) StatusError None
                    (Some (pe_err_text env err)) of
               (Inl x, d1) \<Rightarrow> (Some x, d1)
             | (Inr _, d1) \<Rightarrow> processSubject env k es (Suc n) ref d1)
        | Inr data \<Rightarrow>
            (let prior = (if er_name e = n_Provenance
                          then (case GetEnrichment (flt 0) d (sr_sbom ref) n_Provenance of
                                  Inl _ \<Rightarrow> None | Inr p \<Rightarrow> Some p)
                          else None)
             in case UpsertEnrichment (flt 1) now d (sr_sbom ref) (er_name e) StatusSuccess data None of
                  (Inl x, d1) \<Rightarrow> (Some x, d1)
                | (Inr _, d1) \<Rightarrow>
                    processSubject env k es (Suc n) ref (after_enrich env flt now ref (er_name e) data prior d1)))"

definition ProcessOne ::
  "process_env \<Rightarrow> nat \<Rightarrow> enricher list \<Rightarrow> subject_ref \<Rightarrow> enrich_db \<Rightarrow> go_error option \<times> enrich_db" where
  "ProcessOne env k es ref d = processSubject env k es 0 ref d"

section \<open>Enqueuing\<close>

text \<open>The submitter stops at the first error; the hint it publishes is not part of the tables.\<close>

fun submit_all ::
  "(nat \<Rightarrow> fault) \<Rightarrow> int \<Rightarrow> (nat \<Rightarrow> uuid) \<Rightarrow> string \<Rightarrow> enrich_db \<Rightarrow> uuid \<Rightarrow> string \<Rightarrow> string \<Rightarrow> nat \<Rightarrow> string list \<Rightarrow>
   bool \<times> enrich_db" where
  "submit_all flt now ids trace d sbom arch build n [] = (True, d)"
| "submit_all flt now ids trace d sbom arch build n (name # names) =
     (case Enrich_Enqueue (flt n) now (ids n) trace d sbom arch build name of
        (Some e, d1) \<Rightarrow> (False, d1)
      | (None, d1) \<Rightarrow> submit_all flt now ids trace d1 sbom arch build (Suc n) names)"

definition submitter_handle ::
  "(nat \<Rightarrow> fault) \<Rightarrow> int \<Rightarrow> (nat \<Rightarrow> uuid) \<Rightarrow> string \<Rightarrow> enrich_db \<Rightarrow> uuid \<Rightarrow> string \<Rightarrow> string \<Rightarrow>
   string option \<times> enrich_db" where
  "submitter_handle flt now ids trace d sbom arch build =
     (case submit_all flt now ids trace d sbom arch build 0 rootEnrichers of
        (False, d1) \<Rightarrow> (None, d1)
      | (True, d1) \<Rightarrow> (Some (uuid_str sbom), d1))"

definition prereqs_ready :: "(nat \<Rightarrow> fault) \<Rightarrow> enrich_db \<Rightarrow> uuid \<Rightarrow> string \<Rightarrow> bool" where
  "prereqs_ready flt d sbom dep =
     list_all (\<lambda>p. case GetEnrichment (flt 0) d sbom p of
                     Inl _ \<Rightarrow> False | Inr row \<Rightarrow> en_status row = ''success'') (Prerequisites dep)"

text \<open>The worker's \<open>EnqueueDependents\<close>: \<open>flt n\<close> are the failures around the \<open>n\<close>th dependent.\<close>

fun enqueue_dependents ::
  "(nat \<Rightarrow> nat \<Rightarrow> fault) \<Rightarrow> int \<Rightarrow> (nat \<Rightarrow> uuid) \<Rightarrow> string \<Rightarrow> uuid \<Rightarrow> string \<Rightarrow> string \<Rightarrow> nat \<Rightarrow> string list \<Rightarrow>
   enrich_db \<Rightarrow> enrich_db" where
  "enqueue_dependents flt now ids trace sbom arch build n [] d = d"
| "enqueue_dependents flt now ids trace sbom arch build n (dep # deps) d =
     enqueue_dependents flt now ids trace sbom arch build (Suc n) deps
       (if prereqs_ready (flt n) d sbom dep
        then snd (Enrich_Enqueue (flt n 1) now (ids n) trace d sbom arch build dep) else d)"

definition EnqueueDependents ::
  "(nat \<Rightarrow> nat \<Rightarrow> fault) \<Rightarrow> int \<Rightarrow> (nat \<Rightarrow> uuid) \<Rightarrow> string \<Rightarrow> enrich_db \<Rightarrow> uuid \<Rightarrow> string \<Rightarrow> string \<Rightarrow> string \<Rightarrow>
   enrich_db" where
  "EnqueueDependents flt now ids trace d sbom arch build completed =
     enqueue_dependents flt now ids trace sbom arch build 0 (Dependents completed) d"

section \<open>The worker's processor\<close>

definition ref_of_claim :: "enrich_claim \<Rightarrow> subject_ref" where
  "ref_of_claim c =
     \<lparr>sr_sbom = ec_sbom c, sr_source = ec_source c, sr_kind = ec_kind c, sr_artifact_type = ec_artifact_type c,
      sr_artifact_name = ec_artifact_name c, sr_digest = ec_digest c, sr_index_digest = ec_index_digest c,
      sr_version = ec_version c, sr_arch = ec_arch c, sr_build = ec_build c\<rparr>"

definition enrichProcessor ::
  "uuid_parser \<Rightarrow> process_env \<Rightarrow> enricher list \<Rightarrow> string \<Rightarrow> nat \<Rightarrow> enrich_db \<Rightarrow> enrich_claim \<Rightarrow>
   go_error option \<times> enrich_db" where
  "enrichProcessor parse env es enricherName k d claim =
     (case ProcessOne env k es (ref_of_claim claim) d of
        (Some e, d1) \<Rightarrow> (Some e, d1)
      | (None, d1) \<Rightarrow>
          (case Enrich_FinishByID parse (ce_fault (pe_call env) k 2) (ce_now (pe_call env) k) d1 (ec_id claim) of
             (Inl e, d2) \<Rightarrow> (Some e, d2)
           | (Inr _, d2) \<Rightarrow>
               (None, EnqueueDependents (\<lambda>n. pe_fault env k (length es + n)) (ce_now (pe_call env) k)
                        (pe_ids env k) (pe_trace env) d2 (ec_sbom claim) (ec_arch claim) (ec_build claim)
                        enricherName)))"

section \<open>Periodic re-verification\<close>

definition recheckBatchSize :: int where "recheckBatchSize = 500"
definition sweepDivisor :: int where "sweepDivisor = 24"
definition minSweepInterval :: int where "minSweepInterval = 60 * 1000000000"

text \<open>Durations are positive here; Go's division agrees with \<open>div\<close> on them.\<close>

definition deriveSweepInterval :: "int \<Rightarrow> int" where
  "deriveSweepInterval interval =
     (let sweep = interval div sweepDivisor;
          sweep = (if sweep < minSweepInterval then minSweepInterval else sweep)
      in if sweep > interval then interval else sweep)"

definition ListSBOMsDueForProvenanceRecheck :: "fault \<Rightarrow> enrich_db \<Rightarrow> int \<Rightarrow> int \<Rightarrow> uuid list result" where
  "ListSBOMsDueForProvenanceRecheck flt d cutoff lim =
     read_stmt flt (Inr (map en_sbom (take (nat lim) (sort_by (on_key int_cmp en_updated)
       (filter (\<lambda>r. en_name r = ''provenance'' \<and> en_status r = ''success'' \<and> en_updated r < cutoff)
          (ed_enrichments d))))))"

fun requeue_due :: "(nat \<Rightarrow> fault) \<Rightarrow> nat \<Rightarrow> uuid list \<Rightarrow> enrich_db \<Rightarrow> int \<times> enrich_db" where
  "requeue_due flt n [] d = (0, d)"
| "requeue_due flt n (s # due) d =
     (case RequeueEnrichmentJobForRecheck (flt n) d s n_Provenance of
        (Inl e, d1) \<Rightarrow> requeue_due flt (Suc n) due d1
      | (Inr m, d1) \<Rightarrow> (case requeue_due flt (Suc n) due d1 of (r, d2) \<Rightarrow> (m + r, d2)))"

definition reverifier_tick ::
  "fault \<Rightarrow> (nat \<Rightarrow> fault) \<Rightarrow> int \<Rightarrow> int \<Rightarrow> enrich_db \<Rightarrow> (uuid list \<times> int) option \<times> enrich_db" where
  "reverifier_tick flt rflt interval now d =
     (case ListSBOMsDueForProvenanceRecheck flt d (now - interval) recheckBatchSize of
        Inl e \<Rightarrow> (None, d)
      | Inr due \<Rightarrow> (case requeue_due rflt 0 due d of (n, d1) \<Rightarrow> (Some (due, n), d1)))"

end
