(* ===== verification/ScanRuns.thy ===== *)
theory ScanRuns
  imports ScanQueue
begin

text \<open>
  Runs of the scan pipeline. First every interleaving of the statements that write \<open>scan_jobs\<close>, as a step
  relation with its invariant; then a worker that drains the queue alone; then what a worker that comes
  back late can do.
\<close>

section \<open>Interleavings\<close>

text \<open>\<open>m\<close> is the retry budget the workers are configured with. \<open>world\<close> is what other tables' deletes do to
  the jobs: an SBOM or a registry that goes takes the reference with it, a cluster its jobs.\<close>

definition unlinks :: "(scan_job_row \<Rightarrow> scan_job_row) \<Rightarrow> bool" where
  "unlinks g \<longleftrightarrow> (\<forall>j. \<exists>s r. g j = j\<lparr>sj_sbom := s, sj_registry := r\<rparr>)"

inductive scan_step :: "int \<Rightarrow> scan_db \<Rightarrow> scan_db \<Rightarrow> bool" for m :: int where
  enqueue: "EnqueueJob parse flt now i trace d p = (r1, d') \<Longrightarrow> scan_step m d d'"
| refused: "RecordRefusedScanJob flt now d (fresh_row i now reg cluster host repo digest index tag msg trace) err
    = (r2, d') \<Longrightarrow> scan_step m d d'"
| claim_by_id: "Job_ClaimByID parse aad box flt now d sid w = (r3, d') \<Longrightarrow> scan_step m d d'"
| claim_next: "Job_ClaimNext aad box flt now locked d w = (r3, d') \<Longrightarrow> scan_step m d d'"
| finish: "Job_FinishByID parse flt now d sid sbom = (r2, d') \<Longrightarrow> scan_step m d d'"
| settle: "Job_FailOrRequeue parse flt now d sid err m' = (r4, d') \<Longrightarrow> m' = m \<or> m' = failNow \<Longrightarrow> scan_step m d d'"
| sweep: "Job_RequeueStuckRunning f1 f2 now d threshold m = (r2, d') \<Longrightarrow> scan_step m d d'"
| cancel: "Job_Cancel parse flt now d sid = (r2, d') \<Longrightarrow> scan_step m d d'"
| retry: "Job_Retry parse flt d sid = (r5, d') \<Longrightarrow> scan_step m d d'"
| retry_all: "Job_RetryAllFailed flt d = (r5, d') \<Longrightarrow> scan_step m d d'"
| prune_sbom: "PruneScanJobsForSBOM flt now d i = (r5, d') \<Longrightarrow> scan_step m d d'"
| prune_artifact: "PruneScanJobsForArtifact flt now d i = (r5, d') \<Longrightarrow> scan_step m d d'"
| delete_failed: "DeleteFailedScanJobs flt d ids = (r5, d') \<Longrightarrow> scan_step m d d'"
| finish_msg: "Job_Finish flt now d sid sbom = (r5, d') \<Longrightarrow> scan_step m d d'"
| fail_msg: "Job_Fail flt now d sid err = (r5, d') \<Longrightarrow> scan_step m d d'"
| timeout: "Job_TimeoutJobs flt now d threshold = (r5, d') \<Longrightarrow> scan_step m d d'"
| world: "sd_jobs d' = map g (filter P (sd_jobs d)) \<Longrightarrow> unlinks g \<Longrightarrow> scan_step m d d'"

inductive scan_reachable :: "int \<Rightarrow> scan_db \<Rightarrow> bool" for m :: int where
  start: "sd_jobs d = [] \<Longrightarrow> scan_reachable m d"
| step: "scan_reachable m d \<Longrightarrow> scan_step m d d' \<Longrightarrow> scan_reachable m d'"

text \<open>What every row keeps: its attempts within the budget; a finished moment once it is settled; a
  worker, a start and a last attempt while it runs.\<close>

definition row_ok :: "int \<Rightarrow> scan_job_row \<Rightarrow> bool" where
  "row_ok m j \<longleftrightarrow> row_attempts_ok m (sj_id j, sj_state j, sj_attempts j) \<and>
     (terminal (sj_state j) \<longrightarrow> sj_finished j \<noteq> None) \<and>
     (sj_state j = Running \<longrightarrow> sj_worker j \<noteq> None \<and> sj_started j \<noteq> None \<and> sj_last_attempt j \<noteq> None)"

definition scan_inv :: "int \<Rightarrow> scan_db \<Rightarrow> bool" where
  "scan_inv m d \<longleftrightarrow> distinct (map sj_id (sd_jobs d)) \<and> distinct (List.map_filter sj_msg (sd_jobs d)) \<and>
     list_all (row_ok m) (sd_jobs d)"

lemma scan_inv_update:
  assumes "scan_inv m d" and "\<And>r. sj_id (f r) = sj_id r \<and> sj_msg (f r) = sj_msg r"
    and "\<And>r. r \<in> set (sd_jobs d) \<Longrightarrow> P r \<Longrightarrow> row_ok m r \<Longrightarrow> row_ok m (f r)"
  shows "scan_inv m (update_jobs P f d)"
  using assms
  by (auto simp: scan_inv_def map_update_where map_filter_update_where intro: list_all_update_where)

lemma scan_inv_exec:
  assumes "exec_jobs flt P f d = (r, d')" and "scan_inv m d"
    and "\<And>r. sj_id (f r) = sj_id r \<and> sj_msg (f r) = sj_msg r"
    and "\<And>r. P r \<Longrightarrow> row_ok m r \<Longrightarrow> row_ok m (f r)"
  shows "scan_inv m d'"
proof (cases rule: run_stmt_cases [OF assms(1) [unfolded exec_jobs_def]])
  case 1
  with assms(2) show ?thesis by simp
next
  case 2
  then have "d' = update_jobs P f d" by simp
  with assms show ?thesis by (auto intro: scan_inv_update)
qed

lemma map_filter_append: "List.map_filter f (xs @ ys) = List.map_filter f xs @ List.map_filter f ys"
  by (simp add: List.map_filter_def)

lemma map_filter_set: "set (List.map_filter f xs) = {y. \<exists>x\<in>set xs. f x = Some y}"
  by (force simp: List.map_filter_def)

lemma scan_inv_add:
  assumes "scan_inv m d" and "msg_conflict d new = None" and "sj_id new \<notin> sj_id ` set (sd_jobs d)"
    and "row_ok m new"
  shows "scan_inv m (d\<lparr>sd_jobs := sd_jobs d @ [new]\<rparr>)"
proof -
  have "set (List.map_filter sj_msg (sd_jobs d)) \<inter> set (List.map_filter sj_msg [new]) = {}"
    using assms(2) by (cases "sj_msg new")
      (auto simp: msg_conflict_def map_filter_set map_filter_simps dest: find_NoneD split: option.splits)
  moreover have "distinct (List.map_filter sj_msg [new])" by (simp add: map_filter_simps split: option.split)
  ultimately show ?thesis
    using assms(1,3,4) by (auto simp: scan_inv_def map_filter_append)
qed

lemma scan_inv_same_jobs: "sd_jobs d' = sd_jobs d \<Longrightarrow> scan_inv m d' = scan_inv m d"
  by (simp add: scan_inv_def)

lemma row_ok_claim: "row_ok m r \<Longrightarrow> sj_state r = Queued \<Longrightarrow> row_ok m (claim_row now w r)"
  by (auto simp: row_ok_def claim_row_def split: option.splits)

lemma row_ok_fail: "row_ok m r \<Longrightarrow> m' = m \<or> m' \<le> 0 \<Longrightarrow> row_ok m (fail_or_requeue_row now m' e r)"
  by (auto simp: row_ok_def fail_or_requeue_row_def)

lemma row_ok_conflict: "row_ok m r \<Longrightarrow> row_ok m (conflict_row force new r)"
  by (cases "sj_state r") (auto simp: row_ok_def conflict_row_def Let_def)

lemma scan_inv_claim:
  assumes "scan_inv m d" and "\<And>j. found = Some j \<Longrightarrow> j \<in> set (sd_jobs d) \<and> sj_state j = Queued"
    and "deliver_claim aad box what (run_stmt flt d (claim_first now w d found)) = (r, d')"
  shows "scan_inv m d'"
proof -
  obtain r1 d1 where c: "run_stmt flt d (claim_first now w d found) = (r1, d1)" by (meson surj_pair)
  with assms(3) have d': "d' = d1" by (auto simp: deliver_claim_def split: sum.splits)
  show ?thesis
  proof (cases rule: run_stmt_cases [OF c])
    case 1
    with assms(1) d' show ?thesis by simp
  next
    case 2
    show ?thesis
    proof (cases found)
      case None
      with 2 d' assms(1) show ?thesis by (simp add: claim_first_def)
    next
      case (Some j)
      with assms(2) have j: "j \<in> set (sd_jobs d)" "sj_state j = Queued" by auto
      have "r = j" if "r \<in> set (sd_jobs d)" "sj_id r = sj_id j" for r
        using assms(1) j(1) that by (auto simp: scan_inv_def distinct_map inj_on_def)
      then show ?thesis
        using 2 Some d' assms(1) j(2)
        by (auto simp: claim_first_def intro!: scan_inv_update row_ok_claim)
    qed
  qed
qed

lemma scan_inv_insert:
  assumes "scan_inv m d" and "InsertScanJob flt d force new = (r, d')" and "row_ok m new"
  shows "scan_inv m d'"
proof (cases rule: run_stmt_cases [OF assms(2) [unfolded InsertScanJob_def]])
  case 1
  with assms(1) show ?thesis by simp
next
  case 2
  show ?thesis
  proof (cases "msg_conflict d new")
    case None
    with 2 assms(1,3) show ?thesis by (auto intro: scan_inv_add split: if_splits)
  next
    case (Some old)
    with 2 have "d' = update_jobs (\<lambda>j. sj_id j = sj_id old) (conflict_row force new) d" by simp
    then show ?thesis
      using assms(1) by (auto intro!: scan_inv_update row_ok_conflict simp: conflict_row_def Let_def)
  qed
qed

lemma fresh_row_ok: "row_ok m (fresh_row i now reg cluster host repo digest index tag msg trace)"
  by (simp add: row_ok_def fresh_row_def)

lemma scan_inv_refused:
  assumes "scan_inv m d" and "RecordRefusedScanJob flt now d (fresh_row i now reg cluster host repo digest index tag msg trace) err = (r, d')"
  shows "scan_inv m d'"
proof (cases rule: run_stmt_cases [OF assms(2) [unfolded RecordRefusedScanJob_def]])
  case 1
  with assms(1) show ?thesis by simp
next
  case 2
  let ?new = "fresh_row i now reg cluster host repo digest index tag msg trace"
  show ?thesis
  proof (cases "msg_conflict d ?new = None \<and> sj_id ?new \<notin> sj_id ` set (sd_jobs d)")
    case True
    let ?row = "?new\<lparr>sj_state := Failed, sj_last_error := err, sj_finished := Some now\<rparr>"
    have "msg_conflict d ?row = None" using True by (simp add: msg_conflict_def)
    then have "scan_inv m (d\<lparr>sd_jobs := sd_jobs d @ [?row]\<rparr>)"
      using True by (intro scan_inv_add [OF assms(1)]) (simp_all add: row_ok_def fresh_row_def)
    with 2 True show ?thesis by auto
  next
    case False
    with 2 assms(1) show ?thesis by (auto split: option.splits if_splits)
  qed
qed

lemma scan_inv_filter:
  assumes "scan_inv m d" and "sd_jobs d' = map g (filter P (sd_jobs d))"
    and "\<And>j. sj_id (g j) = sj_id j \<and> sj_msg (g j) = sj_msg j" and "\<And>j. row_ok m j \<Longrightarrow> row_ok m (g j)"
  shows "scan_inv m d'"
proof -
  have "List.map_filter sj_msg (map g (filter P js)) = List.map_filter sj_msg (filter P js)" for js
    using assms(3) by (induction js) (auto simp: map_filter_simps split: option.split)
  moreover have "distinct (List.map_filter sj_msg (filter P js))" if "distinct (List.map_filter sj_msg js)" for js
    using that by (induction js) (auto simp: map_filter_simps map_filter_set split: option.splits if_splits)
  ultimately show ?thesis
    using assms by (auto simp: scan_inv_def comp_def list_all_iff distinct_map_filter)
qed

lemma row_ok_terminal:
  "row_ok m r \<Longrightarrow> sj_id r' = sj_id r \<Longrightarrow> sj_attempts r' = sj_attempts r \<Longrightarrow> terminal (sj_state r') \<Longrightarrow>
   sj_finished r' \<noteq> None \<Longrightarrow> row_ok m r'"
  by (cases "sj_state r'") (auto simp: row_ok_def)

lemma row_ok_reset: "row_ok m (reset_row r)"
  by (simp add: row_ok_def reset_row_def)

lemma scan_inv_finish:
  "scan_inv m d \<Longrightarrow> Job_FinishByID parse flt now d sid sbom = (r, d') \<Longrightarrow> scan_inv m d'"
  by (auto simp: Job_FinishByID_def with_id_def FinishScanJobByID_def split: option.splits
      elim!: run_stmt_cases intro!: scan_inv_update elim!: row_ok_terminal)

lemma scan_inv_settle:
  assumes "scan_inv m d" and "Job_FailOrRequeue parse flt now d sid err m' = (r, d')"
    and "m' = m \<or> m' \<le> 0"
  shows "scan_inv m d'"
proof (cases "parse sid")
  case None
  with assms show ?thesis by (simp add: Job_FailOrRequeue_def with_id_def)
next
  case (Some uid)
  obtain r1 where c: "FailOrRequeueScanJobByID flt now d uid (nullStr err) m' = (r1, d')"
    using assms(2) Some by (auto simp: Job_FailOrRequeue_def with_id_def split: prod.splits sum.splits)
  show ?thesis
  proof (cases rule: run_stmt_cases [OF c [unfolded FailOrRequeueScanJobByID_def]])
    case 1
    with assms(1) show ?thesis by simp
  next
    case 2
    then show ?thesis
      using assms(1,3) by (auto split: option.splits intro!: scan_inv_update row_ok_fail)
  qed
qed

lemma scan_inv_sweep:
  assumes "scan_inv m d" and "Job_RequeueStuckRunning f1 f2 now d threshold m = (r, d')"
  shows "scan_inv m d'"
proof -
  obtain r1 d1 where s1: "RequeueStuckRunning_stmt f1 now d m (now - threshold) = (r1, d1)" by (meson surj_pair)
  obtain r2 d2 where s2: "FailStaleRequeuedScanJobs f2 now d1 (now - staleRequeuedAfter) = (r2, d2)"
    by (meson surj_pair)
  have one: "scan_inv m d1"
    by (rule scan_inv_exec [OF s1 [unfolded RequeueStuckRunning_stmt_def] assms(1)])
      (auto simp: stuck_row_def intro: row_ok_fail)
  have two: "scan_inv m d2"
    by (rule scan_inv_exec [OF s2 [unfolded FailStaleRequeuedScanJobs_def] one])
      (auto elim: row_ok_terminal)
  show ?thesis
    using assms(2) s1 s2 one two by (auto simp: Job_RequeueStuckRunning_def split: sum.splits)
qed

lemma scan_inv_exec_terminal:
  assumes "exec_jobs flt P f d = (r, d')" and "scan_inv m d"
    and "\<And>r. sj_id (f r) = sj_id r \<and> sj_msg (f r) = sj_msg r \<and> sj_attempts (f r) = sj_attempts r \<and>
      terminal (sj_state (f r)) \<and> sj_finished (f r) \<noteq> None"
  shows "scan_inv m d'"
  using assms(3) by (intro scan_inv_exec [OF assms(1,2)]) (auto elim: row_ok_terminal)

lemma scan_inv_cancel:
  assumes "scan_inv m d" and "Job_Cancel parse flt now d sid = (r, d')"
  shows "scan_inv m d'"
proof (cases "parse sid")
  case None
  with assms show ?thesis by (simp add: Job_Cancel_def)
next
  case (Some uid)
  with assms(2) obtain n where "CancelQueuedScanJob flt now d uid = (n, d')"
    by (auto simp: Job_Cancel_def split: prod.splits sum.splits)
  then show ?thesis
    unfolding CancelQueuedScanJob_def by (rule scan_inv_exec_terminal [OF _ assms(1)]) simp
qed

lemma scan_inv_reset: "exec_jobs flt P reset_row d = (r, d') \<Longrightarrow> scan_inv m d \<Longrightarrow> scan_inv m d'"
  by (erule scan_inv_exec) (simp_all add: row_ok_reset, simp add: reset_row_def)

lemma scan_inv_retry:
  "scan_inv m d \<Longrightarrow> Job_Retry parse flt d sid = (r, d') \<Longrightarrow> scan_inv m d'"
  "scan_inv m d \<Longrightarrow> Job_RetryAllFailed flt d = (r, d') \<Longrightarrow> scan_inv m d'"
  by (auto simp: Job_Retry_def with_id_def RetryScanJob_def Job_RetryAllFailed_def RetryAllFailedScanJobs_def
      split: option.splits intro: scan_inv_reset)

lemma scan_inv_settle_msg:
  "scan_inv m d \<Longrightarrow> prune_jobs flt now d P = (r, d') \<Longrightarrow> scan_inv m d'"
  "scan_inv m d \<Longrightarrow> Job_Finish flt now d sid sbom = (r, d') \<Longrightarrow> scan_inv m d'"
  "scan_inv m d \<Longrightarrow> Job_Fail flt now d sid err = (r, d') \<Longrightarrow> scan_inv m d'"
  "scan_inv m d \<Longrightarrow> Job_TimeoutJobs flt now d threshold = (r, d') \<Longrightarrow> scan_inv m d'"
  unfolding prune_jobs_def Job_Finish_def FinishScanJob_def Job_Fail_def FailScanJob_def
    Job_TimeoutJobs_def TimeoutScanJobs_def
  by (erule scan_inv_exec_terminal; simp)+

lemma scan_inv_prune:
  "scan_inv m d \<Longrightarrow> PruneScanJobsForSBOM flt now d i = (r, d') \<Longrightarrow> scan_inv m d'"
  "scan_inv m d \<Longrightarrow> PruneScanJobsForArtifact flt now d i = (r, d') \<Longrightarrow> scan_inv m d'"
  unfolding PruneScanJobsForSBOM_def PruneScanJobsForArtifact_def by (erule (1) scan_inv_settle_msg)+

lemma scan_inv_delete:
  assumes "scan_inv m d" and "DeleteFailedScanJobs flt d ids = (r, d')"
  shows "scan_inv m d'"
proof (cases rule: run_stmt_cases [OF assms(2) [unfolded DeleteFailedScanJobs_def Let_def]])
  case 1
  with assms(1) show ?thesis by simp
next
  case 2
  then have "sd_jobs d' = map (\<lambda>j. j) (filter (\<lambda>j. \<not> (sj_state j = Failed \<and> List.member ids (sj_id j))) (sd_jobs d))"
    by auto
  with assms(1) show ?thesis by (rule scan_inv_filter) simp_all
qed

lemma scan_inv_step: "scan_step m d d' \<Longrightarrow> scan_inv m d \<Longrightarrow> scan_inv m d'"
proof (induction rule: scan_step.induct)
  case (enqueue parse flt now i trace d p r1 d')
  then show ?case
    by (auto simp: EnqueueJob_def split: prod.splits sum.splits intro: scan_inv_insert fresh_row_ok)
next
  case (claim_by_id parse aad box flt now d sid w r3 d')
  then show ?case
    by (auto simp: Job_ClaimByID_def ClaimScanJobByID_def split: option.splits dest: find_Some_in
        elim!: scan_inv_claim [rotated -1])
next
  case (claim_next aad box flt now locked d w r3 d')
  then show ?case
    using queue_head_in scan_inv_claim
    unfolding Job_ClaimNext_def ClaimNextQueuedJob_def by blast
next
  case (settle parse flt now d sid err m' r4 d')
  then show ?case using scan_inv_settle [of m d] by (auto simp: failNow_def)
next
  case (world d' g P d)
  have "sj_id (g j) = sj_id j \<and> sj_msg (g j) = sj_msg j \<and> (row_ok m j \<longrightarrow> row_ok m (g j))" for j
  proof -
    obtain s r where "g j = j\<lparr>sj_sbom := s, sj_registry := r\<rparr>"
      using world(2) unfolding unlinks_def by blast
    then show ?thesis by (simp add: row_ok_def)
  qed
  with world show ?case by (blast intro: scan_inv_filter)
qed ((rule scan_inv_refused scan_inv_finish scan_inv_sweep scan_inv_cancel scan_inv_retry scan_inv_prune
      scan_inv_settle_msg scan_inv_delete, assumption, assumption)+)

lemma scan_inv_reachable: "scan_reachable m d \<Longrightarrow> scan_inv m d"
proof (induction rule: scan_reachable.induct)
  case (start d)
  then show ?case by (simp add: scan_inv_def map_filter_simps)
next
  case (step d d')
  then show ?case by (blast intro: scan_inv_step)
qed

end
