(* ===== verification/EnrichRuns.thy ===== *)
theory EnrichRuns
  imports EnrichDispatch ScanRuns
begin

text \<open>
  Runs of the enrichment pipeline: every interleaving of the operations that write \<open>enrichment_jobs\<close> and
  \<open>enrichment\<close>, as a step relation, and the invariant that holds in every reachable state. A step is one
  statement, except that the submitter's handler and \<open>EnqueueDependents\<close> are one step each: what they
  read beforehand (that an enrichment has succeeded) stays true, which is part of the invariant's proof.
\<close>

section \<open>Steps\<close>

definition delete_sbom_cascade :: "enrich_db \<Rightarrow> uuid \<Rightarrow> enrich_db" where
  "delete_sbom_cascade d i =
     d\<lparr>ed_sboms := filter (\<lambda>s. es_id s \<noteq> i) (ed_sboms d), ed_jobs := filter (\<lambda>j. ej_sbom j \<noteq> i) (ed_jobs d),
       ed_enrichments := filter (\<lambda>r. en_sbom r \<noteq> i) (ed_enrichments d),
       ed_pending := filter (\<lambda>r. dr_sbom r \<noteq> i) (ed_pending d),
       ed_events := filter (\<lambda>r. dr_sbom r \<noteq> i) (ed_events d)\<rparr>"

text \<open>\<open>store\<close> is a dispatcher's write: a success always carries data, as the enrichers answer with a JSON
  document. \<open>world\<close> is every write to the other tables and columns, an SBOM that is ingested included.\<close>

inductive enrich_step :: "int \<Rightarrow> enrich_db \<Rightarrow> enrich_db \<Rightarrow> bool" for m :: int where
  submit: "submitter_handle flt now ids trace d sbom arch build = (h, d') \<Longrightarrow> enrich_step m d d'"
| dependents: "EnqueueDependents gflt now ids trace d sbom arch build completed = d' \<Longrightarrow> enrich_step m d d'"
| claim_by_id: "Enrich_ClaimByID parse f now d sid w = (r1, d') \<Longrightarrow> enrich_step m d d'"
| claim_next: "Enrich_ClaimNext enricher f now locked d w = (r1, d') \<Longrightarrow> enrich_step m d d'"
| store: "UpsertEnrichment f now d sbom name st data msg = (r2, d') \<Longrightarrow>
    st = StatusSuccess \<and> data \<noteq> None \<or> st = StatusError \<and> data = None \<Longrightarrow> enrich_step m d d'"
| finish: "Enrich_FinishByID parse f now d sid = (r2, d') \<Longrightarrow> enrich_step m d d'"
| settle: "Enrich_FailOrRequeue parse f now d sid err m' = (r3, d') \<Longrightarrow> m' = m \<or> m' = failNow \<Longrightarrow> enrich_step m d d'"
| sweep: "Enrich_RequeueStuckRunning f now d threshold m = (r2, d') \<Longrightarrow> enrich_step m d d'"
| retry: "Enrich_Retry parse f d sid = (r4, d') \<Longrightarrow> enrich_step m d d'"
| retry_all: "Enrich_RetryAllFailed f d enricher = (r4, d') \<Longrightarrow> enrich_step m d d'"
| recheck: "reverifier_tick f rflt interval now d = (r5, d') \<Longrightarrow> enrich_step m d d'"
| delete_sbom: "d' = delete_sbom_cascade d i \<Longrightarrow> enrich_step m d d'"
| world: "ed_jobs d' = ed_jobs d \<Longrightarrow> ed_enrichments d' = ed_enrichments d \<Longrightarrow>
    es_id ` set (ed_sboms d) \<subseteq> es_id ` set (ed_sboms d') \<Longrightarrow> enrich_step m d d'"

inductive enrich_reachable :: "int \<Rightarrow> enrich_db \<Rightarrow> bool" for m :: int where
  start: "ed_jobs d = [] \<Longrightarrow> ed_enrichments d = [] \<Longrightarrow> enrich_reachable m d"
| step: "enrich_reachable m d \<Longrightarrow> enrich_step m d d' \<Longrightarrow> enrich_reachable m d'"

section \<open>The invariant\<close>

definition has_success :: "enrichment_row list \<Rightarrow> uuid \<Rightarrow> string \<Rightarrow> bool" where
  "has_success E s p \<longleftrightarrow>
     list_ex (\<lambda>r. en_sbom r = s \<and> en_name r = p \<and> en_status r = ''success'' \<and> en_data r \<noteq> None) E"

definition ejob_ok :: "int \<Rightarrow> enrichment_row list \<Rightarrow> uuid set \<Rightarrow> enrich_job_row \<Rightarrow> bool" where
  "ejob_ok m E S j \<longleftrightarrow> row_attempts_ok m (ejob_key j) \<and> ej_state j \<noteq> Pruned \<and> ej_sbom j \<in> S \<and>
     (terminal (ej_state j) \<longrightarrow> ej_finished j \<noteq> None) \<and>
     (ej_state j = Running \<longrightarrow> ej_worker j \<noteq> None \<and> ej_started j \<noteq> None \<and> ej_last_attempt j \<noteq> None) \<and>
     list_all (has_success E (ej_sbom j)) (Prerequisites (ej_enricher j))"

definition ejobs_unique :: "enrich_job_row list \<Rightarrow> bool" where
  "ejobs_unique jobs \<longleftrightarrow> distinct (map ej_id jobs) \<and> distinct (map (\<lambda>j. (ej_sbom j, ej_enricher j)) jobs)"

definition enrich_inv :: "int \<Rightarrow> enrich_db \<Rightarrow> bool" where
  "enrich_inv m d \<longleftrightarrow> ejobs_unique (ed_jobs d) \<and>
     list_all (ejob_ok m (ed_enrichments d) (es_id ` set (ed_sboms d))) (ed_jobs d) \<and>
     list_all (\<lambda>r. en_status r = ''success'' \<longrightarrow> en_data r \<noteq> None) (ed_enrichments d)"

lemma ejob_ok_mono:
  "ejob_ok m E S j \<Longrightarrow> (\<And>p. has_success E (ej_sbom j) p \<Longrightarrow> has_success E' (ej_sbom j) p) \<Longrightarrow>
   (ej_sbom j \<in> S \<Longrightarrow> ej_sbom j \<in> S') \<Longrightarrow> ejob_ok m E' S' j"
  by (auto simp: ejob_ok_def list_all_iff)

lemma ejob_ok_same:
  "ejob_ok m E S j \<Longrightarrow> ej_sbom j' = ej_sbom j \<Longrightarrow> ej_enricher j' = ej_enricher j \<Longrightarrow>
   row_attempts_ok m (ejob_key j') \<Longrightarrow> ej_state j' \<noteq> Pruned \<Longrightarrow>
   (terminal (ej_state j') \<Longrightarrow> ej_finished j' \<noteq> None) \<Longrightarrow>
   (ej_state j' = Running \<Longrightarrow> ej_worker j' \<noteq> None \<and> ej_started j' \<noteq> None \<and> ej_last_attempt j' \<noteq> None) \<Longrightarrow>
   ejob_ok m E S j'"
  by (simp add: ejob_ok_def)

lemma ejob_ok_claim: "ejob_ok m E S j \<Longrightarrow> ej_state j = Queued \<Longrightarrow> ejob_ok m E S (eclaim_row now w j)"
  by (rule ejob_ok_same) (auto simp: ejob_ok_def ejob_key_def eclaim_row_def split: option.splits)

lemma ejob_ok_fail:
  "ejob_ok m E S j \<Longrightarrow> m' = m \<or> m' \<le> 0 \<Longrightarrow> ejob_ok m E S (efail_or_requeue_row now m' e j)"
  by (rule ejob_ok_same) (auto simp: ejob_ok_def ejob_key_def efail_or_requeue_row_def split: if_splits)

lemma ejob_ok_reset: "ejob_ok m E S j \<Longrightarrow> ejob_ok m E S (ereset_row j)"
  by (rule ejob_ok_same) (auto simp: ejob_key_def ereset_row_def)

lemma ejob_ok_finish:
  "ejob_ok m E S j \<Longrightarrow> ejob_ok m E S (j\<lparr>ej_state := Succeeded, ej_finished := Some now\<rparr>)"
  by (rule ejob_ok_same) (auto simp: ejob_ok_def ejob_key_def)

lemma ereset_row_simps [simp]:
  "ej_id (ereset_row j) = ej_id j" "ej_sbom (ereset_row j) = ej_sbom j" "ej_enricher (ereset_row j) = ej_enricher j"
  by (simp_all add: ereset_row_def)

text \<open>One preservation lemma for every statement that updates jobs.\<close>

lemma enrich_inv_update:
  assumes "enrich_inv m d"
    and "\<And>r. ej_id (f r) = ej_id r \<and> ej_sbom (f r) = ej_sbom r \<and> ej_enricher (f r) = ej_enricher r"
    and "\<And>r E S. r \<in> set (ed_jobs d) \<Longrightarrow> P r \<Longrightarrow> ejob_ok m E S r \<Longrightarrow> ejob_ok m E S (f r)"
  shows "enrich_inv m (update_ejobs P f d)"
  using assms
  by (auto simp: enrich_inv_def ejobs_unique_def map_update_where update_ejobs_def intro: list_all_update_where)

lemma enrich_inv_exec:
  assumes "exec_ejobs flt P f d = (r, d')" and "enrich_inv m d"
    and "\<And>r. ej_id (f r) = ej_id r \<and> ej_sbom (f r) = ej_sbom r \<and> ej_enricher (f r) = ej_enricher r"
    and "\<And>r E S. P r \<Longrightarrow> ejob_ok m E S r \<Longrightarrow> ejob_ok m E S (f r)"
  shows "enrich_inv m d'"
proof (cases rule: run_stmt_cases [OF assms(1) [unfolded exec_ejobs_def]])
  case 1
  with assms(2) show ?thesis by simp
next
  case 2
  then have "d' = update_ejobs P f d" by simp
  with assms show ?thesis by (auto intro: enrich_inv_update)
qed

lemma enrich_inv_claim:
  assumes "enrich_inv m d" and "\<And>j. found = Some j \<Longrightarrow> j \<in> set (ed_jobs d) \<and> ej_state j = Queued"
    and "edeliver what (run_stmt flt d (eclaim_first now w d found)) = (r, d')"
  shows "enrich_inv m d'"
proof (cases "flt = None \<and> found \<noteq> None")
  case False
  with assms(1,3) show ?thesis
    by (cases flt) (auto simp: edeliver_def run_stmt_def eclaim_first_def split: if_splits)
next
  case True
  then obtain j where j: "found = Some j" "j \<in> set (ed_jobs d)" "ej_state j = Queued"
    using assms(2) by auto
  have "d' = update_ejobs (\<lambda>r. ej_id r = ej_id j) (eclaim_row now w) d" using assms(3) True j(1)
    by (auto simp: edeliver_def run_stmt_def eclaim_first_def split: option.splits)
  moreover have "r = j" if "r \<in> set (ed_jobs d)" "ej_id r = ej_id j" for r
    using assms(1) j(2) that by (auto simp: enrich_inv_def ejobs_unique_def distinct_map inj_on_def)
  ultimately show ?thesis
    using assms(1) j(3) by (auto intro!: enrich_inv_update intro: ejob_ok_claim)
qed

lemma enrich_inv_ClaimByID:
  assumes "Enrich_ClaimByID parse flt now d sid w = (r, d')" and "enrich_inv m d"
  shows "enrich_inv m d'"
proof (cases "parse sid")
  case None
  with assms show ?thesis by (simp add: Enrich_ClaimByID_def)
next
  case (Some uid)
  with assms(1) obtain r0 where c: "edeliver ''claim enrichment job by id'' (run_stmt flt d (eclaim_first now w d
      (find (\<lambda>j. ej_id j = uid \<and> ej_state j = Queued) (ed_jobs d)))) = (r0, d')"
    by (auto simp: Enrich_ClaimByID_def ClaimEnrichmentJobByID_def map_prod_def split: prod.splits)
  show ?thesis by (rule enrich_inv_claim [OF assms(2) _ c]) (auto dest: find_Some_in)
qed

lemma enrich_inv_ClaimNext:
  assumes "Enrich_ClaimNext enricher flt now locked d w = (r, d')" and "enrich_inv m d"
  shows "enrich_inv m d'"
proof -
  obtain r0 where c: "edeliver ''claim next enrichment job'' (run_stmt flt d (eclaim_first now w d
      (equeue_head locked enricher (ed_jobs d)))) = (r0, d')"
    using assms(1) by (auto simp: Enrich_ClaimNext_def ClaimNextEnrichmentJob_def map_prod_def split: prod.splits)
  show ?thesis by (rule enrich_inv_claim [OF assms(2) _ c]) (auto dest: equeue_head_in)
qed

lemma enrich_inv_Finish:
  "Enrich_FinishByID parse flt now d sid = (r, d') \<Longrightarrow> enrich_inv m d \<Longrightarrow> enrich_inv m d'"
  by (auto simp: Enrich_FinishByID_def with_ejob_id_def FinishEnrichmentJobByID_def run_stmt_def
      split: option.splits intro!: enrich_inv_update ejob_ok_finish)

lemma enrich_inv_FailOrRequeue:
  assumes "Enrich_FailOrRequeue parse flt now d sid err m' = (r, d')" and "m' = m \<or> m' \<le> 0" and "enrich_inv m d"
  shows "enrich_inv m d'"
proof -
  have "d' = d \<or> (\<exists>uid. d' = update_ejobs (\<lambda>r. ej_id r = uid) (efail_or_requeue_row now m' (nullStr err)) d)"
    using assms(1) by (cases flt) (auto simp: Enrich_FailOrRequeue_def with_ejob_id_def
      FailOrRequeueEnrichmentJobByID_def run_stmt_def split: option.splits if_splits)
  with assms(2,3) show ?thesis by (auto intro!: enrich_inv_update ejob_ok_fail)
qed

lemma enrich_inv_sweep:
  "Enrich_RequeueStuckRunning flt now d threshold m = (r, d') \<Longrightarrow> enrich_inv m d \<Longrightarrow> enrich_inv m d'"
  by (auto simp: Enrich_RequeueStuckRunning_def RequeueStuckEnrichmentJobs_def exec_ejobs_def run_stmt_def
      estuck_row_def split: option.splits intro!: enrich_inv_update ejob_ok_fail)

lemma enrich_inv_resets:
  "Enrich_Retry parse flt d sid = (r, d') \<Longrightarrow> enrich_inv m d \<Longrightarrow> enrich_inv m d'"
  "Enrich_RetryAllFailed flt d enricher = (r, d') \<Longrightarrow> enrich_inv m d \<Longrightarrow> enrich_inv m d'"
  "RequeueEnrichmentJobForRecheck flt d sbom enricher = (r, d') \<Longrightarrow> enrich_inv m d \<Longrightarrow> enrich_inv m d'"
  by (auto simp: Enrich_Retry_def with_ejob_id_def RetryEnrichmentJob_def Enrich_RetryAllFailed_def
      RetryAllFailedEnrichmentJobs_def RequeueEnrichmentJobForRecheck_def exec_ejobs_def run_stmt_def
      split: option.splits intro!: enrich_inv_update ejob_ok_reset)

lemma enrich_inv_requeue_due:
  "requeue_due flt n due d = (r, d') \<Longrightarrow> enrich_inv m d \<Longrightarrow> enrich_inv m d'"
proof (induction due arbitrary: n d r)
  case (Cons s due)
  obtain r1 d1 where s: "RequeueEnrichmentJobForRecheck (flt n) d s n_Provenance = (r1, d1)" by (meson surj_pair)
  with Cons show ?case
    by (auto split: sum.splits prod.splits dest: enrich_inv_resets(3) [OF s])
qed simp

text \<open>A new job finds no other of its pair, and its prerequisites have succeeded.\<close>

lemma enrich_inv_enqueue:
  assumes "Enrich_Enqueue flt now i trace d sbom arch build name = (r, d')" and "enrich_inv m d"
    and "list_all (has_success (ed_enrichments d) sbom) (Prerequisites name)"
  shows "enrich_inv m d'"
proof -
  define new where "new = fresh_ejob i now sbom (Some (uuid_str sbom @ '':'' @ name)) (nullStr arch) (nullStr build)
      name (nullStr trace)"
  obtain r1 where ins: "InsertEnrichmentJob flt d new = (r1, d')"
    using assms(1) by (auto simp: Enrich_Enqueue_def new_def split: prod.splits sum.splits)
  consider "d' = d" | "d' = d\<lparr>ed_jobs := ed_jobs d @ [new]\<rparr>" "\<not> list_ex (ejob_conflict new) (ed_jobs d)"
      "list_ex (\<lambda>s. es_id s = sbom) (ed_sboms d)"
    using ins by (cases flt) (auto simp: InsertEnrichmentJob_def run_stmt_def new_def fresh_ejob_def split: if_splits)
  then show ?thesis
  proof cases
    case 2
    then have "ejobs_unique (ed_jobs d @ [new])"
      using assms(2) by (auto simp: enrich_inv_def ejobs_unique_def ejob_conflict_def list_ex_iff)
    moreover have "ejob_ok m (ed_enrichments d) (es_id ` set (ed_sboms d)) new"
      using assms(3) 2(3) by (auto simp: ejob_ok_def ejob_key_def new_def fresh_ejob_def list_ex_iff)
    ultimately show ?thesis using 2(1) assms(2) by (simp add: enrich_inv_def)
  qed (simp add: assms(2))
qed

lemma enrich_inv_submit_all:
  "submit_all flt now ids trace d sbom arch build n names = (r, d') \<Longrightarrow> enrich_inv m d \<Longrightarrow>
   list_all (\<lambda>name. Prerequisites name = []) names \<Longrightarrow> enrich_inv m d'"
proof (induction names arbitrary: n d)
  case (Cons name names)
  obtain r1 d1 where e: "Enrich_Enqueue (flt n) now (ids n) trace d sbom arch build name = (r1, d1)" by (meson surj_pair)
  have "enrich_inv m d1" using enrich_inv_enqueue [OF e Cons.prems(2)] Cons.prems(3) by simp
  with e Cons show ?case by (auto split: option.splits)
qed simp

lemma prereqs_ready_success:
  assumes "prereqs_ready flt d sbom dep" and "enrich_inv m d"
  shows "list_all (has_success (ed_enrichments d) sbom) (Prerequisites dep)"
proof -
  have "has_success (ed_enrichments d) sbom p" if "p \<in> set (Prerequisites dep)" for p
  proof -
    from assms(1) that have r: "case GetEnrichment (flt 0) d sbom p of Inl _ \<Rightarrow> False
        | Inr row \<Rightarrow> en_status row = ''success''" by (auto simp: prereqs_ready_def list_all_iff)
    then obtain row where row: "find (\<lambda>r. en_sbom r = sbom \<and> en_name r = p) (ed_enrichments d) = Some row"
      "en_status row = ''success''"
      by (auto simp: GetEnrichment_def read_stmt_def split: sum.splits option.splits)
    then show ?thesis
      using find_SomeD [OF row(1)] assms(2) by (auto simp: has_success_def list_ex_iff enrich_inv_def list_all_iff)
  qed
  then show ?thesis by (simp add: list_all_iff)
qed

lemma enrich_inv_dependents:
  "enrich_inv m d \<Longrightarrow> enrich_inv m (enqueue_dependents flt now ids trace sbom arch build n deps d)"
proof (induction deps arbitrary: n d)
  case (Cons dep deps)
  have "enrich_inv m (snd (Enrich_Enqueue (flt n 1) now (ids n) trace d sbom arch build dep))"
    if "prereqs_ready (flt n) d sbom dep"
    using enrich_inv_enqueue [OF surjective_pairing Cons.prems prereqs_ready_success [OF that Cons.prems]] by simp
  with Cons show ?case by simp
qed simp

text \<open>A success, once stored, stays.\<close>

lemma has_success_update_where:
  assumes "has_success E s p"
    and "\<And>x. en_sbom (f x) = en_sbom x \<and> en_name (f x) = en_name x"
    and "\<And>x. en_status x = ''success'' \<Longrightarrow> en_data x \<noteq> None \<Longrightarrow> en_status (f x) = ''success'' \<and> en_data (f x) \<noteq> None"
  shows "has_success (update_where P f E) s p"
proof -
  obtain x where x: "x \<in> set E" "en_sbom x = s" "en_name x = p" "en_status x = ''success''" "en_data x \<noteq> None"
    using assms(1) unfolding has_success_def list_ex_iff by blast
  then have "(if P x then f x else x) \<in> set (update_where P f E)" by (simp add: update_where_def)
  moreover have "en_sbom (if P x then f x else x) = s" "en_name (if P x then f x else x) = p"
    "en_status (if P x then f x else x) = ''success''" "en_data (if P x then f x else x) \<noteq> None"
    using x assms(2,3) by simp_all
  ultimately show ?thesis unfolding has_success_def list_ex_iff by blast
qed

lemma UpsertEnrichment_cases:
  assumes "UpsertEnrichment flt now d sbom name st data msg = (r, d')"
  obtains "d' = d"
  | "d' = d\<lparr>ed_enrichments := update_where (\<lambda>r. en_sbom r = sbom \<and> en_name r = name) (upsert_row now st data msg)
        (ed_enrichments d)\<rparr>"
  | "d' = d\<lparr>ed_enrichments := ed_enrichments d @ [\<lparr>en_sbom = sbom, en_name = name, en_status = st, en_data = data,
        en_error = msg, en_updated = now\<rparr>]\<rparr>"
proof (cases rule: run_stmt_cases [OF assms [unfolded UpsertEnrichment_def]])
  case 1
  then show thesis by (simp add: that(1))
next
  case 2
  then show thesis using that by (simp add: Let_def split: if_splits)
qed

lemma has_success_upsert:
  assumes "UpsertEnrichment flt now d sbom name st data msg = (r, d')"
    and "st = StatusSuccess \<and> data \<noteq> None \<or> st = StatusError \<and> data = None"
    and "has_success (ed_enrichments d) s p"
  shows "has_success (ed_enrichments d') s p"
proof (cases rule: UpsertEnrichment_cases [OF assms(1)])
  case 1
  with assms(3) show ?thesis by simp
next
  case 2
  have "has_success (update_where (\<lambda>r. en_sbom r = sbom \<and> en_name r = name) (upsert_row now st data msg)
      (ed_enrichments d)) s p"
    by (rule has_success_update_where [OF assms(3)])
      (use assms(2) in \<open>auto simp: upsert_row_def StatusSuccess_def StatusError_def\<close>)
  with 2 show ?thesis by simp
next
  case 3
  with assms(3) show ?thesis by (auto simp: has_success_def)
qed

lemma enrich_inv_store:
  assumes "UpsertEnrichment flt now d sbom name st data msg = (r, d')"
    and "st = StatusSuccess \<and> data \<noteq> None \<or> st = StatusError \<and> data = None" and "enrich_inv m d"
  shows "enrich_inv m d'"
proof -
  have jobs: "ed_jobs d' = ed_jobs d" "ed_sboms d' = ed_sboms d"
    by (cases rule: UpsertEnrichment_cases [OF assms(1)]; simp)+
  have old: "list_all (\<lambda>r. en_status r = ''success'' \<longrightarrow> en_data r \<noteq> None) (ed_enrichments d)"
    using assms(3) by (simp add: enrich_inv_def)
  have "list_all (\<lambda>r. en_status r = ''success'' \<longrightarrow> en_data r \<noteq> None) (ed_enrichments d')"
  proof (cases rule: UpsertEnrichment_cases [OF assms(1)])
    case 2
    have "list_all (\<lambda>r. en_status r = ''success'' \<longrightarrow> en_data r \<noteq> None)
        (update_where (\<lambda>r. en_sbom r = sbom \<and> en_name r = name) (upsert_row now st data msg) (ed_enrichments d))"
      by (rule list_all_update_where [OF old])
        (use assms(2) in \<open>auto simp: upsert_row_def StatusSuccess_def StatusError_def\<close>)
    with 2 show ?thesis by simp
  qed (use old assms(2) in \<open>auto simp: StatusError_def\<close>)
  moreover have "ejob_ok m (ed_enrichments d') S j" if "ejob_ok m (ed_enrichments d) S j" for S j
    using that by (rule ejob_ok_mono) (rule has_success_upsert [OF assms(1,2)])
  ultimately show ?thesis using assms(3) by (simp add: enrich_inv_def jobs list_all_iff)
qed

lemma has_success_filter:
  "has_success E s p \<Longrightarrow> s \<noteq> i \<Longrightarrow> has_success (filter (\<lambda>r. en_sbom r \<noteq> i) E) s p"
  by (auto simp: has_success_def list_ex_iff)

lemma enrich_inv_delete:
  assumes "enrich_inv m d"
  shows "enrich_inv m (delete_sbom_cascade d i)"
proof -
  have "ejob_ok m (filter (\<lambda>r. en_sbom r \<noteq> i) (ed_enrichments d))
      (es_id ` set (filter (\<lambda>s. es_id s \<noteq> i) (ed_sboms d))) j"
    if "ejob_ok m (ed_enrichments d) (es_id ` set (ed_sboms d)) j" "ej_sbom j \<noteq> i" for j
    using that(1) by (rule ejob_ok_mono) (use that(2) in \<open>auto intro: has_success_filter\<close>)
  with assms show ?thesis
    by (simp add: enrich_inv_def delete_sbom_cascade_def ejobs_unique_def list_all_iff distinct_map_filter)
qed

lemma enrich_inv_world:
  assumes "ed_jobs d' = ed_jobs d" and "ed_enrichments d' = ed_enrichments d"
    and "es_id ` set (ed_sboms d) \<subseteq> es_id ` set (ed_sboms d')" and "enrich_inv m d"
  shows "enrich_inv m d'"
proof -
  have "ejob_ok m (ed_enrichments d) (es_id ` set (ed_sboms d')) j"
    if "ejob_ok m (ed_enrichments d) (es_id ` set (ed_sboms d)) j" for j
    using that by (rule ejob_ok_mono) (use assms(3) in auto)
  with assms show ?thesis by (simp add: enrich_inv_def list_all_iff)
qed

lemma enrich_inv_handle:
  assumes "submitter_handle flt now ids trace d sbom arch build = (h, d')" and "enrich_inv m d"
  shows "enrich_inv m d'"
proof -
  have "list_all (\<lambda>name. Prerequisites name = []) rootEnrichers"
    by (simp add: rootEnrichers_def Prerequisites_def enricherDeps_def enricher_names)
  moreover obtain r where "submit_all flt now ids trace d sbom arch build 0 rootEnrichers = (r, d')"
    using assms(1) by (auto simp: submitter_handle_def split: prod.splits bool.splits)
  ultimately show ?thesis using enrich_inv_submit_all assms(2) by blast
qed

lemma enrich_inv_tick:
  assumes "reverifier_tick f rflt interval now d = (r, d')" and "enrich_inv m d"
  shows "enrich_inv m d'"
proof (cases "ListSBOMsDueForProvenanceRecheck f d (now - interval) recheckBatchSize")
  case (Inl e)
  with assms show ?thesis by (simp add: reverifier_tick_def)
next
  case (Inr due)
  then obtain n where "requeue_due rflt 0 due d = (n, d')"
    using assms(1) by (auto simp: reverifier_tick_def split: prod.splits)
  then show ?thesis using assms(2) by (rule enrich_inv_requeue_due)
qed

lemma enrich_inv_step: "enrich_step m d d' \<Longrightarrow> enrich_inv m d \<Longrightarrow> enrich_inv m d'"
proof (induction rule: enrich_step.induct)
  case (dependents gflt now ids trace d sbom arch build completed d')
  then show ?case using enrich_inv_dependents unfolding EnqueueDependents_def by blast
next
  case (settle parse f now d sid err m' r3 d')
  then show ?case using enrich_inv_FailOrRequeue [of parse f now d sid err m'] by (auto simp: failNow_def)
next
  case (delete_sbom d' d i)
  then show ?case using enrich_inv_delete by blast
next
  case (world d' d)
  then show ?case using enrich_inv_world by blast
qed (fact enrich_inv_handle enrich_inv_ClaimByID enrich_inv_ClaimNext enrich_inv_store enrich_inv_Finish
    enrich_inv_sweep enrich_inv_resets enrich_inv_tick | erule (1) enrich_inv_handle enrich_inv_ClaimByID
    enrich_inv_ClaimNext enrich_inv_Finish enrich_inv_sweep enrich_inv_resets(1) enrich_inv_resets(2)
    enrich_inv_tick | erule (2) enrich_inv_store)+

lemma enrich_inv_reachable: "enrich_reachable m d \<Longrightarrow> enrich_inv m d"
proof (induction rule: enrich_reachable.induct)
  case (start d)
  then show ?case by (simp add: enrich_inv_def ejobs_unique_def)
next
  case (step d d')
  then show ?case by (blast intro: enrich_inv_step)
qed

end
