(* ===== verification/ScanDrain.thy ===== *)
theory ScanDrain
  imports ScanRuns
begin

text \<open>
  A scanner worker that drains the queue alone: no statement fails, no row is locked by another
  transaction, and the stored credentials open.
\<close>

section \<open>The queue of a worker alone\<close>

definition tokens_open :: "(string list \<Rightarrow> string) \<Rightarrow> credential_box \<Rightarrow> scan_db \<Rightarrow> bool" where
  "tokens_open aad box d \<longleftrightarrow>
     list_all (\<lambda>(i, r). \<not> isl (openAuthToken aad box (uuid_str i) (coalesce (pr_token r)))) (sd_registries d)"

definition parser_ok :: "uuid_parser \<Rightarrow> bool" where
  "parser_ok parse \<longleftrightarrow> (\<forall>i. parse (uuid_str i) = Some i)"

definition env_quiet :: "call_env \<Rightarrow> bool" where
  "env_quiet env \<longleftrightarrow> (\<forall>k n. ce_fault env k n = None) \<and> (\<forall>k. ce_locked env k = [])"

definition scan_ready ::
  "uuid_parser \<Rightarrow> (string list \<Rightarrow> string) \<Rightarrow> credential_box \<Rightarrow> call_env \<Rightarrow> scan_db \<Rightarrow> bool" where
  "scan_ready parse aad box env d \<longleftrightarrow>
     scan_tok d \<and> parser_ok parse \<and> env_quiet env \<and> tokens_open aad box d"

lemma update_jobs_registries [simp]: "sd_registries (update_jobs P f d) = sd_registries d"
  by (simp add: update_jobs_def)

lemma run_stmt_registries:
  "run_stmt flt d x = (r, d') \<Longrightarrow> sd_registries (snd x) = sd_registries d \<Longrightarrow> sd_registries d' = sd_registries d"
  by (cases flt) (auto simp: run_stmt_def)

lemma claim_first_registries: "sd_registries (snd (claim_first now w d found)) = sd_registries d"
  by (simp add: claim_first_def split: option.split)

lemma claim_registries:
  "Job_ClaimNext aad box flt now locked d w = (r, d') \<Longrightarrow> sd_registries d' = sd_registries d"
  "Job_ClaimByID parse aad box flt now d sid w = (r, d') \<Longrightarrow> sd_registries d' = sd_registries d"
  by (auto simp: Job_ClaimNext_def Job_ClaimByID_def ClaimNextQueuedJob_def ClaimScanJobByID_def
      deliver_claim_def claim_first_registries split: prod.splits sum.splits option.splits
      dest!: run_stmt_registries)

lemma settle_registries:
  "Job_FailOrRequeue parse flt now d sid msg m = (r, d') \<Longrightarrow> sd_registries d' = sd_registries d"
  "Job_FinishByID parse flt now d sid sbom = (r2, d') \<Longrightarrow> sd_registries d' = sd_registries d"
  "Job_RequeueStuckRunning f1 f2 now d threshold m = (r2, d') \<Longrightarrow> sd_registries d' = sd_registries d"
  by (auto simp: Job_FailOrRequeue_def Job_FinishByID_def Job_RequeueStuckRunning_def with_id_def
      FailOrRequeueScanJobByID_def FinishScanJobByID_def RequeueStuckRunning_stmt_def
      FailStaleRequeuedScanJobs_def exec_jobs_def run_stmt_def
      split: prod.splits sum.splits option.splits if_splits)

lemma scan_ready_step:
  "scan_ready parse aad box env d \<Longrightarrow> scan_tok d' \<Longrightarrow> sd_registries d' = sd_registries d \<Longrightarrow>
   scan_ready parse aad box env d'"
  by (simp add: scan_ready_def tokens_open_def)

lemma tokens_openD:
  assumes "tokens_open aad box d"
  shows "\<exists>t. openAuthToken aad box (sc_registry (claim_of d j)) (sc_token (claim_of d j)) = Inr t"
proof (cases "sj_registry j")
  case None
  then show ?thesis by (simp add: claim_of_def openAuthToken_def)
next
  case (Some r)
  show ?thesis
  proof (cases "map_of (sd_registries d) r")
    case None
    with Some show ?thesis by (simp add: claim_of_def openAuthToken_def)
  next
    case (Some p)
    then have "(r, p) \<in> set (sd_registries d)" by (rule map_of_SomeD)
    with assms have "\<not> isl (openAuthToken aad box (uuid_str r) (coalesce (pr_token p)))"
      by (auto simp: tokens_open_def list_all_iff)
    then have "\<exists>t. openAuthToken aad box (uuid_str r) (coalesce (pr_token p)) = Inr t"
      by (cases "openAuthToken aad box (uuid_str r) (coalesce (pr_token p))") simp_all
    with Some \<open>sj_registry j = Some r\<close> show ?thesis by (simp add: claim_of_def Let_def)
  qed
qed

lemma ready_claim:
  assumes "scan_ready parse aad box env d" and "q_claim_next (scan_queue parse aad box env) k d w = (r, d')"
  shows "r \<noteq> Inl e" and "r = Inr None \<Longrightarrow> d' = d \<and> queued_ids (scan_view d) = {}"
proof -
  have env: "ce_fault env k 0 = None" "ce_locked env k = []" and open': "tokens_open aad box d"
    using assms(1) by (simp_all add: scan_ready_def env_quiet_def)
  have r: "r \<noteq> Inl e \<and> (r = Inr None \<longrightarrow> d' = d \<and> queued_ids (scan_view d) = {})"
  proof (cases "queue_head [] (sd_jobs d)")
    case None
    then have "queued_ids (scan_view d) = {}"
      by (auto simp: queue_head_None queued_ids_def scan_view_def)
    with None assms(2) env show ?thesis
      by (auto simp: scan_queue_def Job_ClaimNext_def ClaimNextQueuedJob_def run_stmt_def claim_first_def
          deliver_claim_def)
  next
    case (Some j)
    obtain t where "openAuthToken aad box (sc_registry (claim_of d (claim_row (ce_now env k) w j)))
        (sc_token (claim_of d (claim_row (ce_now env k) w j))) = Inr t"
      using tokens_openD [OF open'] by blast
    with Some assms(2) env show ?thesis
      by (auto simp: scan_queue_def Job_ClaimNext_def ClaimNextQueuedJob_def run_stmt_def claim_first_def
          deliver_claim_def)
  qed
  then show "r \<noteq> Inl e" "r = Inr None \<Longrightarrow> d' = d \<and> queued_ids (scan_view d) = {}" by blast+
qed

lemma ready_settle:
  assumes "scan_ready parse aad box env d" and "(i, Running, a) \<in> set (scan_view d)"
    and "q_fail_or_requeue (scan_queue parse aad box env) k d (uuid_str i) msg m = (r, d')"
  shows "scan_view d' = set_job i (if a \<ge> m then Failed else Queued) a (scan_view d)"
proof -
  obtain j where j: "j \<in> set (sd_jobs d)" "sj_id j = i" "sj_state j = Running" "sj_attempts j = a"
    using assms(2) by (auto simp: scan_view_def)
  obtain j' where j': "find (\<lambda>j. sj_id j = i \<and> \<not> terminal (sj_state j)) (sd_jobs d) = Some j'"
    using j by (cases "find (\<lambda>j. sj_id j = i \<and> \<not> terminal (sj_state j)) (sd_jobs d)")
      (auto dest: find_NoneD)
  have tok: "distinct (map sj_id (sd_jobs d))" using assms(1) by (simp add: scan_ready_def scan_tok_def)
  have "j' = j"
    using find_SomeD [OF j'] j tok by (auto simp: distinct_map inj_on_def)
  then have "d' = update_jobs (\<lambda>r. sj_id r = sj_id j) (fail_or_requeue_row (ce_now env k) m (nullStr msg)) d"
    using assms(1,3) j' j(2)
    by (auto simp: scan_queue_def Job_FailOrRequeue_def with_id_def FailOrRequeueScanJobByID_def run_stmt_def
        scan_ready_def parser_ok_def env_quiet_def)
  with scan_view_set_job [OF tok j(1), of "fail_or_requeue_row (ce_now env k) m (nullStr msg)"] j
  show ?thesis by simp
qed

interpretation scan_ready: complete_queue "scan_queue parse aad box env" scan_view
  "scan_ready parse aad box env" for parse aad box env
proof
  have tok: "scan_tok d" if "scan_ready parse aad box env d" for d
    using that by (simp add: scan_ready_def)
  show "distinct (map fst (scan_view d))" if "scan_ready parse aad box env d" for d
    using scanq.view_distinct [OF tok [OF that]] .
  show "0 \<le> a" if "scan_ready parse aad box env d" "(i, s, a) \<in> set (scan_view d)" for d i s a
    using scanq.view_nonneg [OF tok [OF that(1)] that(2)] .
  show "scan_ready parse aad box env d' \<and>
      claim_view (q_job_id (scan_queue parse aad box env)) r (scan_view d) (scan_view d')"
    if "scan_ready parse aad box env d" "q_claim_next (scan_queue parse aad box env) k d w = (r, d')" for d k w r d'
    using scanq.claim_next_law [OF tok [OF that(1)] that(2)] that(2) scan_ready_step [OF that(1)]
      claim_registries(1) by (auto simp: scan_queue_def)
  show "scan_ready parse aad box env d' \<and>
      claim_view (q_job_id (scan_queue parse aad box env)) r (scan_view d) (scan_view d')"
    if "scan_ready parse aad box env d" "q_claim_by_id (scan_queue parse aad box env) k d sid w = (r, d')"
    for d k sid w r d'
    using scanq.claim_by_id_law [OF tok [OF that(1)] that(2)] that(2) scan_ready_step [OF that(1)]
      claim_registries(2) by (auto simp: scan_queue_def)
  show "scan_ready parse aad box env d' \<and> settle_view m r (scan_view d) (scan_view d')"
    if "scan_ready parse aad box env d" "q_fail_or_requeue (scan_queue parse aad box env) k d sid msg m = (r, d')"
    for d k sid msg m r d'
    using scanq.settle_law [OF tok [OF that(1)] that(2)] that(2) scan_ready_step [OF that(1)]
      settle_registries(1) by (auto simp: scan_queue_def)
  show "scan_ready parse aad box env d' \<and> list_all2 (sweep_row m) (scan_view d) (scan_view d')"
    if "scan_ready parse aad box env d" "q_requeue_stuck (scan_queue parse aad box env) k d threshold m = (r, d')"
    for d k threshold m r d'
    using scanq.sweep_law [OF tok [OF that(1)] that(2)] that(2) scan_ready_step [OF that(1)]
      settle_registries(3) by (auto simp: scan_queue_def)
  show "scan_view d' = scan_view d \<and> queued_ids (scan_view d) = {}"
    if "scan_ready parse aad box env d" "q_claim_next (scan_queue parse aad box env) k d w = (Inr None, d')"
    for d k w d'
    using ready_claim(2) [OF that] by simp
  show "q_claim_next (scan_queue parse aad box env) k d w \<noteq> (Inl e, d')"
    if "scan_ready parse aad box env d" for d k w e d'
    using ready_claim(1) [OF that] by blast
  show "scan_view d' = set_job i (if a \<ge> m then Failed else Queued) a (scan_view d)"
    if "scan_ready parse aad box env d" "(i, Running, a) \<in> set (scan_view d)"
      "q_fail_or_requeue (scan_queue parse aad box env) k d (uuid_str i) msg m = (r, d')"
    for d i a k msg m r d'
    by (rule ready_settle [OF that])
qed

section \<open>The scanner's processor\<close>

lemma finish_done:
  assumes "Job_FinishByID parse flt now d sid sbom = (r, d')" and "scan_tok d"
  shows "scan_tok d' \<and> list_all2 done_row (scan_view d) (scan_view d')"
proof (cases "parse sid")
  case None
  with assms show ?thesis
    by (auto simp: Job_FinishByID_def with_id_def list_all2_same)
next
  case (Some uid)
  show ?thesis
  proof (cases flt)
    case None
    then have d': "d' = update_jobs (\<lambda>j. sj_id j = uid)
        (\<lambda>j. j\<lparr>sj_state := Succeeded, sj_finished := Some now, sj_sbom := sbom\<rparr>) d"
      using assms(1) Some by (simp add: Job_FinishByID_def with_id_def FinishScanJobByID_def run_stmt_def)
    have "scan_tok d'" unfolding d' by (rule scan_tok_update [OF assms(2)]) simp_all
    moreover have "list_all2 done_row (scan_view d) (scan_view d')"
      unfolding d' scan_view_update
      by (auto simp: scan_view_def list_all2_map1 list_all2_map2 list_all2_same)
    ultimately show ?thesis ..
  next
    case (Some e)
    with \<open>parse sid = Some uid\<close> assms show ?thesis
      by (auto simp: Job_FinishByID_def with_id_def FinishScanJobByID_def run_stmt_def list_all2_same)
  qed
qed

lemma scanProcessor_ok:
  "processor_ok (scan_ready parse aad box env) scan_view (scanProcessor parse env scan)"
  unfolding processor_ok_def
proof (intro allI impI)
  fix k d c r d'
  assume ready: "scan_ready parse aad box env d" and p: "scanProcessor parse env scan k d c = (r, d')"
  show "scan_ready parse aad box env d' \<and> list_all2 done_row (scan_view d) (scan_view d')"
  proof (cases "scan k c")
    case (Inl e)
    with p ready show ?thesis by (auto simp: scanProcessor_def list_all2_same)
  next
    case (Inr sbom)
    obtain r1 d1 where f: "Job_FinishByID parse (ce_fault env k 2) (ce_now env k) d (sc_id c) sbom = (r1, d1)"
      by (meson surj_pair)
    have "d' = d1" using p Inr f by (auto simp: scanProcessor_def split: sum.splits)
    then show ?thesis
      using finish_done [OF f] settle_registries(2) [OF f] scan_ready_step [OF ready] ready
      by (auto simp: scan_ready_def)
  qed
qed

lemma scanProcessor_settles:
  "processor_settles (scan_ready parse aad box env) scan_view
     (q_job_id (scan_queue parse aad box env)) (scanProcessor parse env scan)"
  unfolding processor_settles_def
proof (intro allI impI)
  fix k d c d' i s a
  assume ready: "scan_ready parse aad box env d" and c: "q_job_id (scan_queue parse aad box env) c = uuid_str i"
    and p: "scanProcessor parse env scan k d c = (None, d')" and row: "(i, s, a) \<in> set (scan_view d')"
  obtain sbom where scan: "scan k c = Inr sbom"
    using p by (cases "scan k c") (auto simp: scanProcessor_def)
  have "parse (sc_id c) = Some i" "ce_fault env k 2 = None"
    using c ready by (simp_all add: scan_queue_def scan_ready_def parser_ok_def env_quiet_def)
  with p scan have "d' = update_jobs (\<lambda>j. sj_id j = i)
      (\<lambda>j. j\<lparr>sj_state := Succeeded, sj_finished := Some (ce_now env k), sj_sbom := sbom\<rparr>) d"
    by (simp add: scanProcessor_def Job_FinishByID_def with_id_def FinishScanJobByID_def run_stmt_def)
  with row show "s = Succeeded" by (auto simp: scan_view_update split: if_splits)
qed

definition scan_worker ::
  "uuid_parser \<Rightarrow> (string list \<Rightarrow> string) \<Rightarrow> credential_box \<Rightarrow> call_env \<Rightarrow>
   (nat \<Rightarrow> scan_claim \<Rightarrow> uuid option result) \<Rightarrow> worker_config \<Rightarrow> (go_error \<Rightarrow> string) \<Rightarrow>
   (scan_db, scan_claim) worker" where
  "scan_worker parse aad box env scan cfg err_text =
     NewWorker (scan_queue parse aad box env) (scanProcessor parse env scan) cfg err_text"

lemma scan_worker_simps [simp]:
  "wk_queue (scan_worker parse aad box env scan cfg err_text) = scan_queue parse aad box env"
  "wk_processor (scan_worker parse aad box env scan cfg err_text) = scanProcessor parse env scan"
  "wc_max_attempts (wk_cfg (scan_worker parse aad box env scan cfg err_text)) = wc_max_attempts cfg"
  by (simp_all add: scan_worker_def NewWorker_def)

text \<open>C14: A worker that polls the scan queue alone empties it. Whatever the scans answer, the poll loop
  ends: the number of jobs it runs is at most the sum, over the rows that are queued or may come back, of
  one plus the attempts they have left. When it ends no job is queued, and none is running that was not
  running before: every job it took has succeeded or failed.\<close>

theorem scan_drain_settles:
  assumes "scan_ready parse aad box env d"
  shows "\<exists>jobs k' d'. drainPoll (scan_worker parse aad box env scan cfg err_text) (\<lambda>_. False)
      (Suc (budget (wc_max_attempts cfg) (scan_view d))) k d = Some (jobs, k', d') \<and>
    queued_ids (scan_view d') = {} \<and> running_ids (scan_view d') \<subseteq> running_ids (scan_view d) \<and>
    length jobs \<le> budget (wc_max_attempts cfg) (scan_view d)"
proof -
  let ?W = "scan_worker parse aad box env scan cfg err_text"
  have ok: "processor_ok (scan_ready parse aad box env) scan_view (wk_processor ?W)"
    "processor_settles (scan_ready parse aad box env) scan_view
      (q_job_id (scan_queue parse aad box env)) (wk_processor ?W)"
    by (simp_all add: scanProcessor_ok scanProcessor_settles)
  have W: "wk_queue ?W = scan_queue parse aad box env" by simp
  obtain jobs k' d' where run: "drainPoll ?W (\<lambda>_. False) (Suc (budget (wc_max_attempts cfg) (scan_view d))) k d =
      Some (jobs, k', d')" "length jobs + budget (wc_max_attempts cfg) (scan_view d') \<le>
      budget (wc_max_attempts cfg) (scan_view d)"
    using scan_ready.drainPoll_ends [OF ok(1) W assms, of "Suc (budget (wc_max_attempts cfg) (scan_view d))"
        "\<lambda>_. False" k] by (auto simp del: drainPoll.simps)
  from scan_ready.drainPoll_settles [OF ok(1) W ok(2) assms run(1)] run show ?thesis by auto
qed

text \<open>C15: A scan job is handed to one worker at a time. Claims made one after another, by id from a hint
  or as the next of the queue, by any workers, at any time and with any failures in between, never return
  the same job twice, and only jobs that were queued.\<close>

theorem scan_claims_exclusive:
  assumes "scan_reachable m d" and "claim_all (scan_queue parse aad box env) calls d = (ids, d')"
  shows "distinct ids \<and> set ids \<subseteq> uuid_str ` queued_ids (scan_view d)"
proof -
  have "scan_tok d"
    using scan_inv_reachable [OF assms(1)]
    by (auto simp: scan_inv_def scan_tok_def row_ok_def list_all_iff)
  then show ?thesis by (rule scanq.claim_all_distinct [OF _ assms(2)])
qed

text \<open>C26: The attempts of a scan job never pass the retry budget. In every reachable state a row counts
  between zero and the budget (one, if the budget is smaller) attempts, and a queued row that has been
  tried has attempts left.\<close>

theorem scan_attempts_bounded:
  assumes "scan_reachable m d" and "j \<in> set (sd_jobs d)"
  shows "0 \<le> sj_attempts j \<and> sj_attempts j \<le> max 1 m \<and>
    \<not> (sj_state j = Queued \<and> sj_attempts j \<noteq> 0 \<and> m \<le> sj_attempts j)"
  using scan_inv_reachable [OF assms(1)] assms(2) by (auto simp: scan_inv_def row_ok_def list_all_iff)

text \<open>C30: The rows of the queue are consistent with their state in every reachable state: ids and message
  ids are unique, a settled row has the moment it finished, and a running row names its worker, its start
  and its last attempt, which is what the stuck sweep goes by.\<close>

theorem scan_rows_consistent:
  assumes "scan_reachable m d"
  shows "distinct (map sj_id (sd_jobs d)) \<and> distinct (List.map_filter sj_msg (sd_jobs d)) \<and>
    list_all (\<lambda>j. (if terminal (sj_state j) then sj_finished j \<noteq> None else True) \<and>
      (if sj_state j = Running then sj_worker j \<noteq> None \<and> sj_started j \<noteq> None \<and> sj_last_attempt j \<noteq> None
       else True)) (sd_jobs d)"
  using scan_inv_reachable [OF assms] by (auto simp: scan_inv_def row_ok_def list_all_iff)

text \<open>A walk does not undo a decision. Enqueuing without \<open>force\<close> leaves every row that is failed,
  pruned, queued or running in the state it is in, with its attempts, its error and its moments: only a
  succeeded row is queued again.\<close>

theorem enqueue_keeps_settled:
  assumes "EnqueueJob parse flt now i trace d p = (r, d')" and "\<not> ep_force p"
    and "j \<in> set (sd_jobs d)" and "sj_state j \<noteq> Succeeded"
  shows "\<exists>j'\<in>set (sd_jobs d'). j' = j\<lparr>sj_index_digest := sj_index_digest j', sj_tag := sj_tag j'\<rparr>"
proof -
  have keep: "conflict_row False new j = j\<lparr>sj_index_digest := sj_index_digest new, sj_tag := sj_tag new\<rparr>" for new
    using assms(4) by (simp add: conflict_row_def)
  obtain new r1 where ins: "InsertScanJob flt d False new = (r1, d')"
    using assms(1,2) by (auto simp: EnqueueJob_def split: prod.splits sum.splits)
  consider "d' = d" | "sd_jobs d' = sd_jobs d @ [new]"
    | old :: scan_job_row where "d' = update_jobs (\<lambda>j. sj_id j = sj_id old) (conflict_row False new) d"
  proof (cases "flt = None \<and> msg_conflict d new \<noteq> None")
    case True
    then obtain old where "flt = None" "msg_conflict d new = Some old" by auto
    with ins have "d' = update_jobs (\<lambda>j. sj_id j = sj_id old) (conflict_row False new) d"
      by (simp add: InsertScanJob_def run_stmt_def)
    then show ?thesis by (rule that(3))
  next
    case False
    with ins that(1,2) show ?thesis
      by (auto simp: InsertScanJob_def run_stmt_def split: option.splits if_splits)
  qed
  then show ?thesis
  proof cases
    case (3 old)
    then have "(if sj_id j = sj_id old then conflict_row False new j else j) \<in> set (sd_jobs d')"
      using assms(3) by (auto simp: update_where_def)
    then show ?thesis using keep [of new] by (auto split: if_splits intro: bexI [rotated])
  qed (use assms(3) in \<open>auto intro: bexI [of _ j]\<close>)
qed

text \<open>An outage longer than a day fails the jobs it interrupted. The sweep first requeues a running job
  whose worker is gone, and its second statement then finds a queued job whose last attempt is old and
  fails it, before any worker can claim it, although it has attempts left.\<close>

theorem outage_fails_running_job:
  assumes "scan_tok d" and "j \<in> set (sd_jobs d)" and "sj_state j = Running" and "sj_last_attempt j = Some t"
    and "t < now - staleRequeuedAfter" and "threshold \<le> staleRequeuedAfter" and "0 < sj_attempts j" and "sj_attempts j < m"
    and "Job_RequeueStuckRunning None None now d threshold m = (r, d')"
  shows "(sj_id j, Failed, sj_attempts j) \<in> set (scan_view d')"
proof -
  let ?j1 = "stuck_row now m j"
  have j1: "sj_state ?j1 = Queued" "sj_attempts ?j1 = sj_attempts j" "sj_last_attempt ?j1 = Some t" "sj_id ?j1 = sj_id j"
    using assms(4,8) by (simp_all add: stuck_row_def fail_or_requeue_row_def)
  have d': "d' = snd (FailStaleRequeuedScanJobs None now
      (snd (RequeueStuckRunning_stmt None now d m (now - threshold))) (now - staleRequeuedAfter))"
    using assms(9) by (auto simp: Job_RequeueStuckRunning_def split: prod.splits sum.splits)
      (simp add: RequeueStuckRunning_stmt_def FailStaleRequeuedScanJobs_def exec_jobs_def run_stmt_def)+
  let ?d1 = "snd (RequeueStuckRunning_stmt None now d m (now - threshold))"
  have "sd_jobs ?d1 = update_where (\<lambda>j. sj_state j = Running \<and> before (sj_last_attempt j) (now - threshold))
      (stuck_row now m) (sd_jobs d)"
    by (simp add: RequeueStuckRunning_stmt_def exec_jobs_def run_stmt_def)
  then have in1: "?j1 \<in> set (sd_jobs ?d1)"
    using assms(2-6) by (simp add: update_where_in before_def)
  obtain f where f: "sd_jobs d' = update_where (\<lambda>j. sj_state j = Queued \<and> sj_attempts j > 0 \<and>
      before (sj_last_attempt j) (now - staleRequeuedAfter)) f (sd_jobs ?d1)"
    "\<And>j. sj_id (f j) = sj_id j \<and> sj_state (f j) = Failed \<and> sj_attempts (f j) = sj_attempts j"
    by (simp add: d' FailStaleRequeuedScanJobs_def exec_jobs_def run_stmt_def)
  have "f ?j1 \<in> set (sd_jobs d')"
    unfolding f(1) using in1 j1 assms(5,7) by (intro update_where_in) (simp_all add: before_def)
  then show ?thesis
    unfolding scan_view_def set_map by (intro image_eqI [of _ _ "f ?j1"]) (simp_all add: f(2) j1)
qed

section \<open>A parser for ids\<close>

definition hex_val :: "char \<Rightarrow> nat" where
  "hex_val c = (if byte_of c < 58 then byte_of c - 48 else byte_of c - 87)"

definition parse_hex :: "string \<Rightarrow> nat" where
  "parse_hex s = foldl (\<lambda>v c. 16 * v + hex_val c) 0 s"

definition hex_parser :: uuid_parser where
  "hex_parser s = Some (of_nat (parse_hex (filter (\<lambda>c. c \<noteq> CHR ''-'') s)))"

lemma hex_digit_val: "n < 16 \<Longrightarrow> hex_val (hex_digit n) = n \<and> hex_digit n \<noteq> CHR ''-''"
proof -
  assume "n < 16"
  then have "byte_of (hex_digit n) = (if n < 10 then 48 + n else 87 + n)" by (simp add: hex_digit_def)
  moreover have "byte_of (CHR ''-'') = 45" by simp
  ultimately show ?thesis using \<open>n < 16\<close> by (auto simp: hex_val_def split: if_splits)
qed

lemma parse_hex_append: "parse_hex (a @ b) = parse_hex a * 16 ^ length b + parse_hex b"
proof (induction b rule: rev_induct)
  case (snoc c b)
  then show ?case by (simp add: parse_hex_def algebra_simps flip: append_assoc)
qed (simp add: parse_hex_def)

lemma parse_hex_fixed: "parse_hex (hex_fixed n v) = v mod 16 ^ n"
proof (induction n arbitrary: v)
  case (Suc n)
  have "parse_hex (hex_fixed (Suc n) v) = (v div 16 mod 16 ^ n) * 16 + v mod 16"
    using hex_digit_val [of "v mod 16"] by (simp add: parse_hex_append Suc) (simp add: parse_hex_def)
  also have "\<dots> = v mod 16 ^ Suc n" by (simp add: mod_mult2_eq mult.commute)
  finally show ?case .
qed (simp add: parse_hex_def)

lemma hex_fixed_filter: "filter (\<lambda>c. c \<noteq> CHR ''-'') (hex_fixed n v) = hex_fixed n v"
  by (induction n arbitrary: v) (use hex_digit_val in simp_all)

lemma parse_hex_parts:
  assumes "length b = 4" and "length c = 4" and "length e = 4" and "length g = 12"
  shows "parse_hex (a @ b @ c @ e @ g) =
    (((parse_hex a * 2 ^ 16 + parse_hex b) * 2 ^ 16 + parse_hex c) * 2 ^ 16 + parse_hex e) * 2 ^ 48 + parse_hex g"
proof -
  have "parse_hex (a @ b @ c @ e @ g) =
      (((parse_hex a * 16 ^ 4 + parse_hex b) * 16 ^ 4 + parse_hex c) * 16 ^ 4 + parse_hex e) * 16 ^ 12 + parse_hex g"
    using assms parse_hex_append [of "a @ b @ c @ e" g] parse_hex_append [of "a @ b @ c" e]
      parse_hex_append [of "a @ b" c] parse_hex_append [of a b] by (simp only: append_assoc)
  then show ?thesis by simp
qed

lemma hex_parser_ok: "parser_ok hex_parser"
  unfolding parser_ok_def
proof
  fix u :: uuid
  define v where "v = unat u"
  have "unat u < 2 ^ LENGTH(128)" by (rule unsigned_less)
  then have "v div 2 ^ 96 < 16 ^ 8" by (simp add: v_def less_mult_imp_div_less)
  then have top: "v div 2 ^ 96 mod 16 ^ 8 = v div 2 ^ 96" by (rule mod_less)
  have low: "x mod 2 ^ 16 mod 16 ^ 4 = x mod 2 ^ 16" "x mod 2 ^ 48 mod 16 ^ 12 = x mod 2 ^ 48" for x :: nat
    by simp_all
  have step: "v div 2 ^ (k + 16) * 2 ^ 16 + v div 2 ^ k mod 2 ^ 16 = v div 2 ^ k" for k
    using split_bits [of "v div 2 ^ k" 16] by (simp only: div_mult2_eq power_add)
  have eq: "filter (\<lambda>c. c \<noteq> CHR ''-'') (uuid_str u) =
      hex_fixed 8 (v div 2 ^ 96) @ hex_fixed 4 (v div 2 ^ 80 mod 2 ^ 16) @
      hex_fixed 4 (v div 2 ^ 64 mod 2 ^ 16) @ hex_fixed 4 (v div 2 ^ 48 mod 2 ^ 16) @
      hex_fixed 12 (v mod 2 ^ 48)"
    unfolding uuid_str_def Let_def v_def [symmetric] filter_append hex_fixed_filter by simp
  have "parse_hex (filter (\<lambda>c. c \<noteq> CHR ''-'') (uuid_str u)) =
      (((v div 2 ^ 96 * 2 ^ 16 + v div 2 ^ 80 mod 2 ^ 16) * 2 ^ 16 + v div 2 ^ 64 mod 2 ^ 16) * 2 ^ 16 +
        v div 2 ^ 48 mod 2 ^ 16) * 2 ^ 48 + v mod 2 ^ 48"
    unfolding eq by (subst parse_hex_parts) (simp_all only: length_hex_fixed parse_hex_fixed top low)
  also have "\<dots> = v"
    using step [of 80] step [of 64] step [of 48] split_bits [of v 48]
    by (simp only: numeral_plus_numeral add_num_simps)
  finally show "hex_parser (uuid_str u) = Some u" by (simp add: hex_parser_def v_def)
qed

section \<open>A small queue\<close>

definition demo_scan_db :: "scan_job_row list \<Rightarrow> scan_db" where
  "demo_scan_db jobs =
     \<lparr>sd_jobs = jobs, sd_registries = [], sd_sources = [], sd_sboms = [],
      sd_ns = \<lparr>namespaces = [], members = [], users = []\<rparr>\<rparr>"

definition demo_scan_params :: enqueue_params where
  "demo_scan_params =
     \<lparr>ep_registry = [], ep_cluster = [], ep_host = ''ghcr.io'', ep_repository = ''app'', ep_digest = ''sha256:1'',
      ep_index_digest = [], ep_tag = ''v1'', ep_msg = ''k@sha256:1'', ep_force = False\<rparr>"

definition demo_scan_job :: scan_job_row where
  "demo_scan_job =
     fresh_row 7 100 None None (Some ''ghcr.io'') ''app'' ''sha256:1'' None (Some ''v1'') (Some ''k@sha256:1'') None"

definition demo_env :: call_env where
  "demo_env = \<lparr>ce_now = (\<lambda>k. 200 + int k), ce_fault = (\<lambda>k n. None), ce_locked = (\<lambda>k. [])\<rparr>"

definition demo_cfg :: worker_config where
  "demo_cfg = \<lparr>wc_worker_id = ''w1'', wc_max_conc = 1, wc_max_attempts = 3, wc_stuck_threshold = 60\<rparr>"

definition demo_box :: credential_box where
  "demo_box stored ad = Inr stored"

lemma demo_enqueue:
  "EnqueueJob hex_parser None 100 7 [] (demo_scan_db []) demo_scan_params =
     (Inr (fromJobRow demo_scan_job), demo_scan_db [demo_scan_job])"
  by (simp add: EnqueueJob_def InsertScanJob_def run_stmt_def msg_conflict_def demo_scan_db_def
      demo_scan_params_def demo_scan_job_def fresh_row_def optionalUUID_def nullStr_def)

lemma demo_reachable: "scan_reachable 3 (demo_scan_db [demo_scan_job])"
  by (rule scan_reachable.step [OF scan_reachable.start scan_step.enqueue [OF demo_enqueue]])
    (simp add: demo_scan_db_def)

lemma demo_ready: "scan_ready hex_parser (\<lambda>_. []) demo_box demo_env (demo_scan_db [demo_scan_job])"
  by (simp add: scan_ready_def scan_tok_def hex_parser_ok env_quiet_def tokens_open_def demo_scan_db_def
      demo_scan_job_def fresh_row_def demo_env_def)

theorem scan_drain_settles_witness:
  "\<exists>jobs k' d'. drainPoll (scan_worker hex_parser (\<lambda>_. []) demo_box demo_env (\<lambda>k c. Inl (OtherError ''no route''))
      demo_cfg (\<lambda>e. ''err'')) (\<lambda>_. False)
      (Suc (budget (wc_max_attempts demo_cfg) (scan_view (demo_scan_db [demo_scan_job])))) 0
      (demo_scan_db [demo_scan_job]) = Some (jobs, k', d') \<and>
    queued_ids (scan_view d') = {} \<and>
    running_ids (scan_view d') \<subseteq> running_ids (scan_view (demo_scan_db [demo_scan_job])) \<and>
    length jobs \<le> budget (wc_max_attempts demo_cfg) (scan_view (demo_scan_db [demo_scan_job]))"
  by (rule scan_drain_settles [OF demo_ready])

theorem scan_claims_exclusive_witness:
  "distinct (fst (claim_all (scan_queue hex_parser (\<lambda>_. []) demo_box demo_env)
     [(0, None, ''w1''), (1, Some (uuid_str 7), ''w2'')] (demo_scan_db [demo_scan_job])))"
  using scan_claims_exclusive [OF demo_reachable surjective_pairing] by blast

theorem scan_attempts_bounded_witness:
  "0 \<le> sj_attempts demo_scan_job \<and> sj_attempts demo_scan_job \<le> max 1 3 \<and>
    \<not> (sj_state demo_scan_job = Queued \<and> sj_attempts demo_scan_job \<noteq> 0 \<and> 3 \<le> sj_attempts demo_scan_job)"
  by (rule scan_attempts_bounded [OF demo_reachable]) (simp add: demo_scan_db_def)

theorem scan_rows_consistent_witness:
  "distinct (map sj_id (sd_jobs (demo_scan_db [demo_scan_job])))"
  using scan_rows_consistent [OF demo_reachable] by blast

theorem enqueue_keeps_settled_witness:
  "\<exists>j'\<in>set (sd_jobs (snd (EnqueueJob hex_parser None 300 8 [] (demo_scan_db [demo_scan_job\<lparr>sj_state := Pruned\<rparr>])
      demo_scan_params))).
    j' = demo_scan_job\<lparr>sj_state := Pruned, sj_index_digest := sj_index_digest j', sj_tag := sj_tag j'\<rparr>"
  by (rule enqueue_keeps_settled [OF surjective_pairing])
    (simp_all add: demo_scan_params_def demo_scan_db_def)

theorem outage_fails_running_job_witness:
  "(7, Failed, 1) \<in> set (scan_view (snd (Job_RequeueStuckRunning None None (staleRequeuedAfter + 201)
      (demo_scan_db [claim_row 200 ''w1'' demo_scan_job]) 60 3)))"
  using outage_fails_running_job [of "demo_scan_db [claim_row 200 ''w1'' demo_scan_job]"
      "claim_row 200 ''w1'' demo_scan_job" 200 "staleRequeuedAfter + 201" 60 3, OF _ _ _ _ _ _ _ _ surjective_pairing]
  by (simp add: scan_tok_def demo_scan_db_def claim_row_def demo_scan_job_def fresh_row_def staleRequeuedAfter_def)

section \<open>Late workers and old leases\<close>

text \<open>Reporting a failure is not tied to the claim it ends. While one worker runs a job, the late report
  of an earlier one (whose claim the sweep had taken back) puts the job back in the queue, and a third
  worker claims it: two workers then run the same job. The call carries no worker id, so nothing in it could
  tell the two claims apart.\<close>

theorem late_report_frees_job:
  assumes "scan_tok d" and "parser_ok parse" and "j \<in> set (sd_jobs d)" and "sj_state j = Running"
    and "sj_attempts j < m"
    and "Job_FailOrRequeue parse None now d (uuid_str (sj_id j)) msg m = (r, d1)"
    and "ClaimScanJobByID None now' d1 (sj_id j) w = (r2, d2)"
  shows "\<exists>c. r2 = Inr c \<and> sc_id c = uuid_str (sj_id j) \<and> sc_attempts c = sj_attempts j + 1"
proof -
  have tok: "distinct (map sj_id (sd_jobs d))" using assms(1) by (simp add: scan_tok_def)
  have same: "x = j" if "x \<in> set (sd_jobs d)" "sj_id x = sj_id j" for x
    using that assms(3) tok by (auto simp: distinct_map inj_on_def)
  let ?f = "fail_or_requeue_row now m (nullStr msg)"
  obtain j' where j': "find (\<lambda>x. sj_id x = sj_id j \<and> \<not> terminal (sj_state x)) (sd_jobs d) = Some j'"
    using assms(3,4) by (cases "find (\<lambda>x. sj_id x = sj_id j \<and> \<not> terminal (sj_state x)) (sd_jobs d)")
      (auto dest: find_NoneD)
  have d1: "sd_jobs d1 = update_where (\<lambda>x. sj_id x = sj_id j) ?f (sd_jobs d)"
    using assms(2,6) j' by (auto simp: Job_FailOrRequeue_def with_id_def FailOrRequeueScanJobByID_def
        run_stmt_def parser_ok_def update_jobs_def)
  have f: "sj_state (?f j) = Queued" "sj_id (?f j) = sj_id j" "sj_attempts (?f j) = sj_attempts j"
    using assms(5) by (simp_all add: fail_or_requeue_row_def)
  have mem: "?f j \<in> set (sd_jobs d1)" unfolding d1 using assms(3) by (rule update_where_in) simp
  obtain c where c: "find (\<lambda>x. sj_id x = sj_id j \<and> sj_state x = Queued) (sd_jobs d1) = Some c"
    using mem f by (cases "find (\<lambda>x. sj_id x = sj_id j \<and> sj_state x = Queued) (sd_jobs d1)")
      (auto dest: find_NoneD)
  have "c \<in> set (sd_jobs d1)" "sj_id c = sj_id j" using find_SomeD [OF c] by auto
  then have "c = ?f j" using same by (auto simp: d1 update_where_def fail_or_requeue_row_def split: if_splits)
  with c assms(7) f show ?thesis
    by (auto simp: ClaimScanJobByID_def run_stmt_def claim_first_def claim_of_def claim_row_def Let_def)
qed

theorem late_report_frees_job_witness:
  "\<exists>c. fst (ClaimScanJobByID None 300 (snd (Job_FailOrRequeue hex_parser None 290
      (demo_scan_db [claim_row 200 ''w2'' demo_scan_job]) (uuid_str 7) ''w1 timed out'' 3)) 7 ''w3'') = Inr c \<and>
    sc_id c = uuid_str 7 \<and> sc_attempts c = 2"
  using late_report_frees_job [of "demo_scan_db [claim_row 200 ''w2'' demo_scan_job]" hex_parser
      "claim_row 200 ''w2'' demo_scan_job" 3, OF _ _ _ _ _ surjective_pairing surjective_pairing]
  by (simp add: scan_tok_def demo_scan_db_def claim_row_def demo_scan_job_def fresh_row_def hex_parser_ok)

text \<open>A job that has run once and is queued again keeps the name of the worker that ran it, although a
  queued row holds no lease.\<close>

theorem reenqueue_keeps_worker:
  assumes "scan_inv m d" and "j \<in> set (sd_jobs d)" and "sj_state j = Succeeded" and "sj_msg j = Some (ep_msg p)"
    and "ep_msg p \<noteq> []" and "EnqueueJob parse None now i trace d p = (r, d')"
  shows "\<exists>j'\<in>set (sd_jobs d'). sj_id j' = sj_id j \<and> sj_state j' = Queued \<and> sj_worker j' = sj_worker j"
proof -
  have unique: "x = j" if "x \<in> set rows" "j \<in> set rows" "distinct (List.map_filter sj_msg rows)"
    "sj_msg x = sj_msg j" for x rows
    using that by (induction rows)
      (use assms(4) in \<open>auto simp: map_filter_simps map_filter_set split: option.splits\<close>)
  obtain old where old: "find (\<lambda>x. sj_msg x = Some (ep_msg p)) (sd_jobs d) = Some old"
    using assms(2,4) by (cases "find (\<lambda>x. sj_msg x = Some (ep_msg p)) (sd_jobs d)") (auto dest: find_NoneD)
  then have "old = j"
    using unique [of old "sd_jobs d"] assms(1,2,4) find_SomeD [OF old] by (auto simp: scan_inv_def)
  with old assms(5,6) obtain new where d': "d' = update_jobs (\<lambda>x. sj_id x = sj_id j) (conflict_row (ep_force p) new) d"
    by (auto simp: EnqueueJob_def InsertScanJob_def run_stmt_def msg_conflict_def fresh_row_def nullStr_def)
  have "conflict_row (ep_force p) new j \<in> set (sd_jobs d')"
    unfolding d' update_jobs_def by (simp add: update_where_in assms(2))
  then show ?thesis
    by (intro bexI [of _ "conflict_row (ep_force p) new j"]) (simp_all add: conflict_row_def assms(3))
qed

theorem reenqueue_keeps_worker_witness:
  "\<exists>j'\<in>set (sd_jobs (snd (EnqueueJob hex_parser None 300 8 [] (demo_scan_db [(claim_row 200 ''w1'' demo_scan_job)
      \<lparr>sj_state := Succeeded, sj_finished := Some 250\<rparr>]) demo_scan_params))).
    sj_id j' = 7 \<and> sj_state j' = Queued \<and> sj_worker j' = Some ''w1''"
  using reenqueue_keeps_worker [of 3 "demo_scan_db [(claim_row 200 ''w1'' demo_scan_job)
      \<lparr>sj_state := Succeeded, sj_finished := Some 250\<rparr>]" "(claim_row 200 ''w1'' demo_scan_job)
      \<lparr>sj_state := Succeeded, sj_finished := Some 250\<rparr>" demo_scan_params, OF _ _ _ _ _ surjective_pairing]
  by (simp add: scan_inv_def row_ok_def demo_scan_db_def claim_row_def demo_scan_job_def fresh_row_def
      demo_scan_params_def map_filter_simps)

end
