(* ===== verification/EnrichDrift.thy ===== *)
theory EnrichDrift
  imports EnrichRuns ScanDrain
begin

text \<open>
  What the enrichment pipeline promises: its claims, its rows and its order, and the drift events that
  periodic provenance checks of one SBOM leave behind, compared with a reference definition over the
  sequence of statuses the checks found.
\<close>

section \<open>Claims and rows\<close>

text \<open>An enrichment job is handed to one worker at a time. Claims made one after another on the queue of
  an enricher, by id or as the next, whatever fails in between, never return the same job twice, and only
  jobs that were queued.\<close>

theorem enrich_claims_exclusive:
  assumes "enrich_reachable m d" and "claim_all (enrich_queue parse enricher env) calls d = (ids, d')"
  shows "distinct ids \<and> set ids \<subseteq> uuid_str ` queued_ids (enrich_view d)"
proof -
  have "enrich_tok d"
    using enrich_inv_reachable [OF assms(1)]
    by (auto simp: enrich_inv_def enrich_tok_def ejobs_unique_def ejob_ok_def ejob_key_def list_all_iff)
  then show ?thesis by (rule enrichq.claim_all_distinct [OF _ assms(2)])
qed

text \<open>The outbox holds at most one job per SBOM and enricher in every reachable state, however often the
  submitter, the dependents of an enricher, the retries and the re-verification run; its attempts stay
  within the retry budget, and its SBOM exists.\<close>

theorem enrich_jobs_unique:
  assumes "enrich_reachable m d" and "j \<in> set (ed_jobs d)"
  shows "ej_attempts j \<le> max 1 m \<and> list_ex (\<lambda>s. es_id s = ej_sbom j) (ed_sboms d) \<and>
    length (filter (\<lambda>x. ej_sbom x = ej_sbom j \<and> ej_enricher x = ej_enricher j) (ed_jobs d)) = 1"
proof -
  have inv: "enrich_inv m d" using assms(1) by (rule enrich_inv_reachable)
  have "distinct rows \<Longrightarrow> length (filter (\<lambda>x. x = y) rows) = (if y \<in> set rows then 1 else 0)" for rows and y :: "uuid \<times> string"
    by (induction rows) auto
  from this [of "map (\<lambda>j. (ej_sbom j, ej_enricher j)) (ed_jobs d)" "(ej_sbom j, ej_enricher j)"] inv assms(2)
  have "length (filter (\<lambda>x. ej_sbom x = ej_sbom j \<and> ej_enricher x = ej_enricher j) (ed_jobs d)) = 1"
    by (simp add: enrich_inv_def ejobs_unique_def filter_map comp_def image_iff split: if_splits) blast
  moreover have "ejob_ok m (ed_enrichments d) (es_id ` set (ed_sboms d)) j"
    using inv assms(2) by (simp add: enrich_inv_def list_all_iff)
  ultimately show ?thesis by (auto simp: ejob_ok_def ejob_key_def list_ex_iff)
qed

text \<open>C21: No enricher runs before the enrichers it builds on. In every reachable state, a job of an enricher
  with prerequisites (git, which reads what oci-metadata found) exists only when each prerequisite has a
  stored success with data for the same SBOM; later errors of the prerequisite do not take it away.\<close>

theorem dependents_wait:
  assumes "enrich_reachable m d" and "j \<in> set (ed_jobs d)" and "p \<in> set (Prerequisites (ej_enricher j))"
  shows "\<exists>r\<in>set (ed_enrichments d). en_sbom r = ej_sbom j \<and> en_name r = p \<and> en_status r = ''success'' \<and>
    en_data r \<noteq> None"
  using enrich_inv_reachable [OF assms(1)] assms(2,3)
  by (fastforce simp: enrich_inv_def ejob_ok_def has_success_def list_all_iff list_ex_iff)

section \<open>Drift: the reference\<close>

definition trusted_status :: "string \<Rightarrow> bool" where
  "trusted_status s \<longleftrightarrow> s = ''verified'' \<or> s = ''signed''"

text \<open>The event of check \<open>n\<close>, from the statuses \<open>S\<close> of all checks: leaving a trusted status is reported at
  once, except to \<open>unsigned\<close>, which the following check has to confirm.\<close>

definition drift_at :: "(nat \<Rightarrow> string) \<Rightarrow> nat \<Rightarrow> (string \<times> string) list" where
  "drift_at S n =
     (if n = 0 then []
      else if S n \<noteq> ''unsigned''
      then (if S (n - 1) \<noteq> S n \<and> trusted_status (S (n - 1)) then [(S (n - 1), S n)] else [])
      else if 2 \<le> n \<and> S (n - 1) = ''unsigned'' \<and> trusted_status (S (n - 2))
      then [(S (n - 2), ''unsigned'')] else [])"

primrec drift_checks :: "process_env \<Rightarrow> enricher \<Rightarrow> subject_ref \<Rightarrow> nat \<Rightarrow> enrich_db \<Rightarrow> enrich_db" where
  "drift_checks env e ref 0 d = d"
| "drift_checks env e ref (Suc n) d = snd (ProcessOne env n [e] ref (drift_checks env e ref n d))"

definition sbom_events :: "enrich_db \<Rightarrow> uuid \<Rightarrow> (string \<times> string) list" where
  "sbom_events d sbom = map (\<lambda>r. (dr_prev r, dr_new r)) (filter (\<lambda>r. dr_sbom r = sbom) (ed_events d))"

text \<open>The provenance enricher answers every check with a document that decodes, and no statement fails.\<close>

definition steady :: "process_env \<Rightarrow> enricher \<Rightarrow> subject_ref \<Rightarrow> (nat \<Rightarrow> string) \<Rightarrow> (nat \<Rightarrow> provenance) \<Rightarrow> bool" where
  "steady env e ref obs P \<longleftrightarrow>
     (\<forall>k n j. pe_fault env k n j = None) \<and> er_name e = n_Provenance \<and> er_can e ref \<and>
     (\<forall>k. er_enrich e k ref = Inr (Some (obs k)) \<and> pe_prov env (obs k) = Some (P k))"

definition unseen :: "enrich_db \<Rightarrow> uuid \<Rightarrow> bool" where
  "unseen d sbom \<longleftrightarrow>
     list_ex (\<lambda>s. es_id s = sbom) (ed_sboms d) \<and>
     find (\<lambda>r. en_sbom r = sbom \<and> en_name r = n_Provenance) (ed_enrichments d) = None \<and>
     find (\<lambda>r. dr_sbom r = sbom) (ed_pending d) = None \<and> sbom_events d sbom = []"

section \<open>Drift: the dispatcher\<close>

lemma find_filter_out: "find P (filter (\<lambda>x. \<not> P x) xs) = None"
  by (auto simp: find_None_iff)

lemma list_ex_find: "list_ex P xs \<longleftrightarrow> find P xs \<noteq> None"
  by (auto simp: list_ex_iff find_None_iff)

lemma find_upsert_list:
  "find (\<lambda>r. key r = i) (if list_ex (\<lambda>r. key r = i) xs then update_where (\<lambda>r. key r = i) (\<lambda>_. new) xs
     else xs @ [new]) = Some new" if "key new = i"
proof (cases "find (\<lambda>r. key r = i) xs")
  case None
  with that show ?thesis by (simp add: list_ex_find find_snoc)
next
  case (Some x)
  have "find (\<lambda>r. key r = i) (update_where (\<lambda>r. key r = i) (\<lambda>_. new) xs) = Some new" if "x \<in> set xs" "key x = i" for x
    using that \<open>key new = i\<close> by (induction xs) (auto simp: update_where_def)
  with find_SomeD [OF Some] show ?thesis by (auto simp: list_ex_iff)
qed

text \<open>One check: the row it leaves, and the drift it records against the row it found.\<close>

lemma check_once:
  assumes "steady env e ref obs P" and "list_ex (\<lambda>s. es_id s = sr_sbom ref) (ed_sboms d)"
  defines "same \<equiv> \<lambda>r. en_sbom r = sr_sbom ref \<and> en_name r = n_Provenance"
  obtains d1 where "ed_sboms d1 = ed_sboms d" and "ed_pending d1 = ed_pending d" and "ed_events d1 = ed_events d"
    and "\<exists>r. find same (ed_enrichments d1) = Some r \<and> en_status r = StatusSuccess \<and> en_data r = Some (obs k)"
    and "snd (ProcessOne env k [e] ref d) =
      (case find same (ed_enrichments d) of
         None \<Rightarrow> d1
       | Some p \<Rightarrow> if en_status p = StatusSuccess
           then recordProvenanceDrift (pe_prov env) (\<lambda>_. None) (ce_now (pe_call env) k) d1 (sr_sbom ref)
                  (en_data p) (Some (obs k)) else d1)"
proof -
  let ?now = "ce_now (pe_call env) k"
  obtain r1 d1 where up1: "UpsertEnrichment None ?now d (sr_sbom ref) n_Provenance StatusSuccess (Some (obs k)) None = (r1, d1)"
    by (meson surj_pair)
  then have up: "UpsertEnrichment None ?now d (sr_sbom ref) n_Provenance StatusSuccess (Some (obs k)) None = (Inr (), d1)"
    using assms(2) by (auto simp: UpsertEnrichment_def run_stmt_def Let_def split: if_splits)
  have names: "n_Provenance \<noteq> n_OCIMetadata" "n_Provenance \<noteq> n_User" by (simp_all add: enricher_names)
  have fault: "pe_fault env k n = (\<lambda>_. None)" for n using assms(1) by (simp add: steady_def fun_eq_iff)
  have "snd (ProcessOne env k [e] ref d) =
      (case find same (ed_enrichments d) of
         None \<Rightarrow> d1
       | Some p \<Rightarrow> if en_status p = StatusSuccess
           then recordProvenanceDrift (pe_prov env) (\<lambda>_. None) ?now d1 (sr_sbom ref) (en_data p) (Some (obs k)) else d1)"
    using assms(1) up fault names
    by (simp add: ProcessOne_def steady_def GetEnrichment_def read_stmt_def same_def after_enrich_def Let_def
        split: option.split)
  moreover have "\<exists>r. find same (ed_enrichments d1) = Some r \<and> en_status r = StatusSuccess \<and> en_data r = Some (obs k)"
  proof (cases "find same (ed_enrichments d)")
    case None
    then have "\<not> list_ex same (ed_enrichments d)" by (simp add: list_ex_find)
    with up assms(2) None have "find same (ed_enrichments d1) = Some \<lparr>en_sbom = sr_sbom ref, en_name = n_Provenance,
        en_status = StatusSuccess, en_data = Some (obs k), en_error = None, en_updated = ?now\<rparr>"
      by (auto simp: UpsertEnrichment_def run_stmt_def Let_def same_def find_snoc)
    then show ?thesis by simp
  next
    case (Some r)
    then have "list_ex same (ed_enrichments d)" by (simp add: list_ex_find)
    with up have "ed_enrichments d1 = update_where same (upsert_row ?now StatusSuccess (Some (obs k)) None) (ed_enrichments d)"
      by (auto simp: UpsertEnrichment_def run_stmt_def Let_def same_def)
    moreover have "same (upsert_row n s x y r) = same r" for n s x y r by (simp add: same_def upsert_row_def)
    ultimately show ?thesis using Some
      by (simp add: find_update_where) (simp add: upsert_row_def StatusSuccess_def)
  qed
  moreover have "ed_sboms d1 = ed_sboms d" "ed_pending d1 = ed_pending d" "ed_events d1 = ed_events d"
    using up assms(2) by (auto simp: UpsertEnrichment_def run_stmt_def Let_def split: if_splits)
  ultimately show thesis using that by blast
qed

lemma sbom_events_snoc:
  "sbom_events (d\<lparr>ed_events := ed_events d @ [row]\<rparr>) s =
     sbom_events d s @ (if dr_sbom row = s then [(dr_prev row, dr_new row)] else [])"
  by (simp add: sbom_events_def)

lemma sbom_events_same: "ed_events d' = ed_events d \<Longrightarrow> sbom_events d' s = sbom_events d s"
  by (simp add: sbom_events_def)

definition pending_status :: "enrich_db \<Rightarrow> uuid \<Rightarrow> (string \<times> string) option" where
  "pending_status d s = map_option (\<lambda>r. (dr_prev r, dr_new r)) (find (\<lambda>r. dr_sbom r = s) (ed_pending d))"

lemma judge_drift_quiet:
  assumes "d' = judge_drift (\<lambda>_. None) now d s oldP newP old new"
  shows "ed_sboms d' = ed_sboms d" and "ed_enrichments d' = ed_enrichments d"
    and "sbom_events d' s = sbom_events d s @
      (if SigningStatus newP \<noteq> SigningStatus oldP \<and> trusted_status (SigningStatus oldP) \<and>
          SigningStatus newP \<noteq> ''unsigned'' then [(SigningStatus oldP, SigningStatus newP)] else [])"
    and "pending_status d' s =
      (if SigningStatus newP = ''unsigned'' \<and> trusted_status (SigningStatus oldP)
       then Some (SigningStatus oldP, ''unsigned'') else pending_status d s)"
proof -
  let ?row = "\<lparr>dr_sbom = s, dr_prev = SigningStatus oldP, dr_new = SigningStatus newP, dr_reason = drift_reason oldP newP,
      dr_prev_data = old, dr_new_data = new, dr_at = now\<rparr>"
  consider (none) "d' = d" "SigningStatus newP = SigningStatus oldP \<or> \<not> trusted_status (SigningStatus oldP)"
    | (hold) "d' = snd (UpsertProvenanceDriftPending None d ?row)" "SigningStatus newP = ''unsigned''"
        "trusted_status (SigningStatus oldP)"
    | (event) "d' = insertDrift None d ?row" "SigningStatus newP \<noteq> ''unsigned''"
        "SigningStatus newP \<noteq> SigningStatus oldP" "trusted_status (SigningStatus oldP)"
    using assms unfolding judge_drift_def Let_def trusted_status_def by metis
  then have "ed_sboms d' = ed_sboms d \<and> ed_enrichments d' = ed_enrichments d \<and>
      sbom_events d' s = sbom_events d s @
        (if SigningStatus newP \<noteq> SigningStatus oldP \<and> trusted_status (SigningStatus oldP) \<and>
            SigningStatus newP \<noteq> ''unsigned'' then [(SigningStatus oldP, SigningStatus newP)] else []) \<and>
      pending_status d' s =
        (if SigningStatus newP = ''unsigned'' \<and> trusted_status (SigningStatus oldP)
         then Some (SigningStatus oldP, ''unsigned'') else pending_status d s)"
  proof cases
    case none
    then show ?thesis by (auto simp: trusted_status_def)
  next
    case hold
    have "find (\<lambda>r. dr_sbom r = s) (ed_pending d') = Some ?row"
      using find_upsert_list [of dr_sbom ?row s "ed_pending d"] hold(1)
      by (simp add: UpsertProvenanceDriftPending_def run_stmt_def split: if_splits)
    then have "pending_status d' s = Some (SigningStatus oldP, SigningStatus newP)" by (simp add: pending_status_def)
    moreover have "ed_sboms d' = ed_sboms d \<and> ed_enrichments d' = ed_enrichments d \<and> ed_events d' = ed_events d"
      using hold(1) by (simp add: UpsertProvenanceDriftPending_def run_stmt_def)
    ultimately show ?thesis using hold(2,3) by (simp add: sbom_events_def)
  next
    case event
    then show ?thesis
      by (simp add: insertDrift_def InsertProvenanceDrift_def run_stmt_def sbom_events_def pending_status_def)
  qed
  then show "ed_sboms d' = ed_sboms d" and "ed_enrichments d' = ed_enrichments d"
    and "sbom_events d' s = sbom_events d s @
      (if SigningStatus newP \<noteq> SigningStatus oldP \<and> trusted_status (SigningStatus oldP) \<and>
          SigningStatus newP \<noteq> ''unsigned'' then [(SigningStatus oldP, SigningStatus newP)] else [])"
    and "pending_status d' s =
      (if SigningStatus newP = ''unsigned'' \<and> trusted_status (SigningStatus oldP)
       then Some (SigningStatus oldP, ''unsigned'') else pending_status d s)" by blast+
qed

lemma recordDrift_quiet:
  assumes "decode old = Some oldP" and "decode new = Some newP"
    and d': "d' = recordProvenanceDrift decode (\<lambda>_. None) now d s (Some old) (Some new)"
    and on: "os = SigningStatus oldP" "n = SigningStatus newP"
  shows "ed_sboms d' = ed_sboms d \<and> ed_enrichments d' = ed_enrichments d \<and>
    (case pending_status d s of
       Some (p, q) \<Rightarrow>
         if n = q then sbom_events d' s = sbom_events d s @ [(p, n)] \<and> pending_status d' s = None
         else sbom_events d' s = sbom_events d s @
             (if n \<noteq> os \<and> trusted_status os \<and> n \<noteq> ''unsigned'' then [(os, n)] else []) \<and>
           pending_status d' s = (if n = ''unsigned'' \<and> trusted_status os then Some (os, ''unsigned'') else None)
     | None \<Rightarrow> sbom_events d' s = sbom_events d s @
           (if n \<noteq> os \<and> trusted_status os \<and> n \<noteq> ''unsigned'' then [(os, n)] else []) \<and>
         pending_status d' s = (if n = ''unsigned'' \<and> trusted_status os then Some (os, ''unsigned'') else None))"
proof (cases "find (\<lambda>r. dr_sbom r = s) (ed_pending d)")
  case None
  then have "pending_status d s = None" by (simp add: pending_status_def)
  moreover have "d' = judge_drift (\<lambda>_. None) now d s oldP newP old new"
    using None assms(1,2)
    by (simp add: d' recordProvenanceDrift_def pendingDrift_def GetProvenanceDriftPending_def read_stmt_def)
  ultimately show ?thesis unfolding on by (simp add: judge_drift_quiet [OF refl])
next
  case (Some p)
  let ?d1 = "d\<lparr>ed_pending := filter (\<lambda>r. dr_sbom r \<noteq> s) (ed_pending d)\<rparr>"
  have st: "pending_status d s = Some (dr_prev p, dr_new p)" using Some by (simp add: pending_status_def)
  have clear: "pending_status ?d1 s = None"
    using find_filter_out [of "\<lambda>r. dr_sbom r = s" "ed_pending d"] by (simp add: pending_status_def)
  have ev: "sbom_events ?d1 s = sbom_events d s" by (simp add: sbom_events_def)
  show ?thesis
  proof (cases "n = dr_new p")
    case True
    with Some assms(1,2) have "d' = ?d1\<lparr>ed_events := ed_events d @ [\<lparr>dr_sbom = s, dr_prev = dr_prev p, dr_new = n,
        dr_reason = dr_reason p, dr_prev_data = dr_prev_data p, dr_new_data = new, dr_at = now\<rparr>]\<rparr>"
      by (simp add: d' recordProvenanceDrift_def pendingDrift_def GetProvenanceDriftPending_def read_stmt_def
          clearPendingDrift_def DeleteProvenanceDriftPending_def run_stmt_def insertDrift_def
          InsertProvenanceDrift_def on)
    moreover have "pending_status d' s = None"
      using clear calculation by (simp add: pending_status_def)
    ultimately show ?thesis using True st by (simp add: sbom_events_def)
  next
    case False
    with Some assms(1,2) have "d' = judge_drift (\<lambda>_. None) now ?d1 s oldP newP old new"
      by (simp add: d' recordProvenanceDrift_def pendingDrift_def GetProvenanceDriftPending_def read_stmt_def
          clearPendingDrift_def DeleteProvenanceDriftPending_def run_stmt_def on)
    with False st clear ev show ?thesis unfolding on by (simp add: judge_drift_quiet [OF refl])
  qed
qed

definition drift_state :: "(nat \<Rightarrow> string) \<Rightarrow> (nat \<Rightarrow> string) \<Rightarrow> uuid \<Rightarrow> nat \<Rightarrow> enrich_db \<Rightarrow> bool" where
  "drift_state obs S s n d \<longleftrightarrow>
     list_ex (\<lambda>x. es_id x = s) (ed_sboms d) \<and>
     (case find (\<lambda>r. en_sbom r = s \<and> en_name r = n_Provenance) (ed_enrichments d) of
        None \<Rightarrow> n = 0
      | Some r \<Rightarrow> 0 < n \<and> en_status r = StatusSuccess \<and> en_data r = Some (obs (n - 1))) \<and>
     pending_status d s =
       (if 2 \<le> n \<and> S (n - 1) = ''unsigned'' \<and> trusted_status (S (n - 2)) then Some (S (n - 2), ''unsigned'') else None) \<and>
     sbom_events d s = concat (map (drift_at S) [0..<n])"

lemma drift_state_step:
  assumes "steady env e ref obs P" and "drift_state obs (\<lambda>k. SigningStatus (P k)) (sr_sbom ref) n d"
  shows "drift_state obs (\<lambda>k. SigningStatus (P k)) (sr_sbom ref) (Suc n) (snd (ProcessOne env n [e] ref d))"
proof -
  let ?S = "\<lambda>k. SigningStatus (P k)" and ?s = "sr_sbom ref"
  let ?same = "\<lambda>r. en_sbom r = ?s \<and> en_name r = n_Provenance"
  have sbom: "list_ex (\<lambda>x. es_id x = ?s) (ed_sboms d)" using assms(2) by (simp add: drift_state_def)
  obtain d1 where d1: "ed_sboms d1 = ed_sboms d" "ed_pending d1 = ed_pending d" "ed_events d1 = ed_events d"
    "\<exists>r. find ?same (ed_enrichments d1) = Some r \<and> en_status r = StatusSuccess \<and> en_data r = Some (obs n)"
    and res: "snd (ProcessOne env n [e] ref d) =
      (case find ?same (ed_enrichments d) of
         None \<Rightarrow> d1
       | Some p \<Rightarrow> if en_status p = StatusSuccess
           then recordProvenanceDrift (pe_prov env) (\<lambda>_. None) (ce_now (pe_call env) n) d1 ?s (en_data p) (Some (obs n))
           else d1)"
    using check_once [OF assms(1) sbom, of n] by blast
  have same1: "pending_status d1 ?s = pending_status d ?s" "sbom_events d1 ?s = sbom_events d ?s"
    using d1 by (simp_all add: pending_status_def sbom_events_def)
  show ?thesis
  proof (cases n)
    case 0
    with assms(2) have none: "find ?same (ed_enrichments d) = None"
      by (auto simp: drift_state_def split: option.splits)
    with 0 res d1 same1 sbom assms(2) show ?thesis by (auto simp: drift_state_def drift_at_def)
  next
    case (Suc k)
    then obtain r where r: "find ?same (ed_enrichments d) = Some r" "en_status r = StatusSuccess" "en_data r = Some (obs k)"
      using assms(2) by (auto simp: drift_state_def split: option.splits)
    let ?d' = "recordProvenanceDrift (pe_prov env) (\<lambda>_. None) (ce_now (pe_call env) n) d1 ?s (Some (obs k)) (Some (obs n))"
    have dec: "pe_prov env (obs k) = Some (P k)" "pe_prov env (obs n) = Some (P n)"
      using assms(1) by (simp_all add: steady_def)
    note rec = recordDrift_quiet [OF dec refl refl refl, of "ce_now (pe_call env) n" d1 ?s]
    have pend: "pending_status d ?s = (if 1 \<le> k \<and> ?S k = ''unsigned'' \<and> trusted_status (?S (k - 1))
        then Some (?S (k - 1), ''unsigned'') else None)"
      and ev: "sbom_events d ?s = concat (map (drift_at ?S) [0..<n])"
      using assms(2) Suc by (auto simp: drift_state_def numeral_2_eq_2)
    have u: "\<not> trusted_status ''unsigned''" by (simp add: trusted_status_def)
    have "ed_sboms ?d' = ed_sboms d1 \<and> ed_enrichments ?d' = ed_enrichments d1 \<and>
        sbom_events ?d' ?s = sbom_events d ?s @ drift_at ?S n \<and>
        pending_status ?d' ?s = (if ?S n = ''unsigned'' \<and> trusted_status (?S k) then Some (?S k, ''unsigned'') else None)"
      using rec pend u Suc unfolding same1
      by (auto simp: drift_at_def numeral_2_eq_2 split: if_splits)
    moreover have "snd (ProcessOne env n [e] ref d) = ?d'" using res r by simp
    ultimately show ?thesis
      using d1 sbom ev Suc by (auto simp: drift_state_def numeral_2_eq_2)
  qed
qed

text \<open>C23: Provenance drift is reported exactly when it should be. Over any sequence of successful checks of
  an SBOM with no failing statement, the drift events of the SBOM are those of the reference definition: a
  step from a trusted status (verified or signed) to another one is an event of that check, and a step to
  unsigned is one only if the following check finds it unsigned again; nothing else is reported.\<close>

theorem drift_events_exact:
  assumes "steady env e ref obs P" and "unseen d (sr_sbom ref)"
  shows "sbom_events (drift_checks env e ref n d) (sr_sbom ref) =
    concat (map (drift_at (\<lambda>k. SigningStatus (P k))) [0..<n])"
proof -
  have "drift_state obs (\<lambda>k. SigningStatus (P k)) (sr_sbom ref) n (drift_checks env e ref n d)"
  proof (induction n)
    case 0
    with assms(2) show ?case by (simp add: drift_state_def unseen_def pending_status_def)
  next
    case (Suc n)
    with drift_state_step [OF assms(1)] show ?case by simp
  qed
  then show ?thesis by (simp add: drift_state_def)
qed

section \<open>Enricher errors\<close>

lemma processSubject_errors:
  assumes "list_all (\<lambda>e. er_can e ref \<longrightarrow> isl (er_enrich e k ref)) es" and "\<And>n j. pe_fault env k n j = None"
    and "list_ex (\<lambda>s. es_id s = sr_sbom ref) (ed_sboms d)"
  shows "\<exists>d'. processSubject env k es n ref d = (None, d') \<and> ed_jobs d' = ed_jobs d \<and> ed_sboms d' = ed_sboms d"
  using assms(1,3)
proof (induction es arbitrary: n d)
  case (Cons e es)
  show ?case
  proof (cases "er_can e ref")
    case True
    with Cons.prems(1) obtain err where err: "er_enrich e k ref = Inl err" by (auto simp: isl_def)
    obtain r1 d1 where up: "UpsertEnrichment None (ce_now (pe_call env) k) d (sr_sbom ref) (er_name e) StatusError None
        (Some (pe_err_text env err)) = (r1, d1)" by (meson surj_pair)
    then have d1: "r1 = Inr ()" "ed_jobs d1 = ed_jobs d" "ed_sboms d1 = ed_sboms d"
      using Cons.prems(2) by (auto simp: UpsertEnrichment_def run_stmt_def Let_def split: if_splits)
    with Cons.IH [of d1 "Suc n"] Cons.prems show ?thesis
      using True err up assms(2) by simp
  qed (use Cons in simp)
qed simp

lemma enqueue_keeps_jobs:
  "set (ed_jobs d) \<subseteq> set (ed_jobs (enqueue_dependents flt now ids trace sbom arch build n deps d))"
proof (induction deps arbitrary: n d)
  case (Cons dep deps)
  have "set (ed_jobs d) \<subseteq> set (ed_jobs (snd (Enrich_Enqueue (flt n 1) now (ids n) trace d sbom arch build dep)))"
    by (cases "flt n 1") (auto simp: Enrich_Enqueue_def InsertEnrichmentJob_def run_stmt_def Let_def split: prod.splits sum.splits if_splits)
  with Cons show ?case by (simp only: enqueue_dependents.simps split: if_split) (meson order_trans)
qed simp

text \<open>An enricher's own failure is not a failed job. When every enricher that applies to the subject
  errs and the database answers, the job is finished as succeeded: it does not come back for a retry, and
  neither a retry of failed jobs nor its attempts will run the enricher again.\<close>

theorem failed_enricher_finishes_job:
  assumes "list_all (\<lambda>e. er_can e (ref_of_claim c) \<longrightarrow> isl (er_enrich e k (ref_of_claim c))) es"
    and "\<And>n j. pe_fault env k n j = None" and "ce_fault (pe_call env) k 2 = None"
    and "list_ex (\<lambda>s. es_id s = ec_sbom c) (ed_sboms d)"
    and "j \<in> set (ed_jobs d)" and "parse (ec_id c) = Some (ej_id j)"
    and "enrichProcessor parse env es name k d c = (r, d')"
  shows "r = None \<and> j\<lparr>ej_state := Succeeded, ej_finished := Some (ce_now (pe_call env) k)\<rparr> \<in> set (ed_jobs d')"
proof -
  obtain d1 where d1: "ProcessOne env k es (ref_of_claim c) d = (None, d1)" "ed_jobs d1 = ed_jobs d"
    using processSubject_errors [OF assms(1,2), of d 0] assms(4) by (auto simp: ProcessOne_def ref_of_claim_def)
  let ?d2 = "update_ejobs (\<lambda>x. ej_id x = ej_id j)
      (\<lambda>x. x\<lparr>ej_state := Succeeded, ej_finished := Some (ce_now (pe_call env) k)\<rparr>) d1"
  have res: "r = None" "d' = EnqueueDependents (\<lambda>n. pe_fault env k (length es + n)) (ce_now (pe_call env) k)
      (pe_ids env k) (pe_trace env) ?d2 (ec_sbom c) (ec_arch c) (ec_build c) name"
    using assms(3,6,7) d1(1) by (auto simp: enrichProcessor_def Enrich_FinishByID_def with_ejob_id_def
        FinishEnrichmentJobByID_def run_stmt_def)
  have "j\<lparr>ej_state := Succeeded, ej_finished := Some (ce_now (pe_call env) k)\<rparr> \<in> set (ed_jobs ?d2)"
    unfolding ed_jobs_update d1(2) by (rule update_where_in [OF assms(5)]) simp
  then have "j\<lparr>ej_state := Succeeded, ej_finished := Some (ce_now (pe_call env) k)\<rparr> \<in> set (ed_jobs d')"
    unfolding res(2) EnqueueDependents_def using enqueue_keeps_jobs by blast
  with res(1) show ?thesis by simp
qed

section \<open>Examples\<close>

definition demo_sbom :: enrich_sbom where
  "demo_sbom =
     \<lparr>es_id = 5, es_artifact = Some 9, es_source = None, es_digest = Some ''sha256:1'', es_index_digest = None,
      es_version = None, es_sufficient = False, es_ns = 1\<rparr>"

definition demo_enrich_db :: enrich_db where
  "demo_enrich_db =
     \<lparr>ed_jobs = [], ed_sboms = [demo_sbom], ed_artifacts = [(9, \<lparr>an_type = ''container'', an_name = ''app''\<rparr>)],
      ed_sources = [], ed_enrichments = [], ed_pending = [], ed_events = [],
      ed_ns = \<lparr>namespaces = [], members = [], users = []\<rparr>\<rparr>"

text \<open>A document ''v'' stands for a verified signature, any other for an unsigned artifact.\<close>

definition demo_prov :: "string \<Rightarrow> provenance option" where
  "demo_prov s = Some \<lparr>pv_missing = False, pv_verified = (if s = ''v'' then Some True else None), pv_signature = False,
     pv_attestation = False, pv_fingerprint = [], pv_identity = [], pv_issuer = []\<rparr>"

definition demo_process_env :: "(nat \<Rightarrow> nat \<Rightarrow> fault) \<Rightarrow> process_env" where
  "demo_process_env flt =
     \<lparr>pe_call = demo_env, pe_fault = (\<lambda>k n j. flt k j), pe_ids = (\<lambda>k n. of_nat (20 + 3 * k + n)), pe_trace = [],
      pe_err_text = (\<lambda>e. ''err''), pe_meta = (\<lambda>s. None), pe_prov = demo_prov\<rparr>"

definition demo_enricher :: "(nat \<Rightarrow> string) \<Rightarrow> enricher" where
  "demo_enricher obs =
     \<lparr>er_name = n_Provenance, er_can = (\<lambda>ref. True), er_enrich = (\<lambda>k ref. Inr (Some (obs k)))\<rparr>"

definition demo_ref :: subject_ref where
  "demo_ref =
     \<lparr>sr_sbom = 5, sr_source = None, sr_kind = [], sr_artifact_type = ''container'', sr_artifact_name = ''app'',
      sr_digest = ''sha256:1'', sr_index_digest = [], sr_version = [], sr_arch = [], sr_build = []\<rparr>"

definition demo_obs :: "string list \<Rightarrow> nat \<Rightarrow> string" where
  "demo_obs docs n = (if n < length docs then docs ! n else ''u'')"

definition demo_drift :: "(nat \<Rightarrow> nat \<Rightarrow> fault) \<Rightarrow> string list \<Rightarrow> (string \<times> string) list" where
  "demo_drift flt docs =
     sbom_events (drift_checks (demo_process_env flt) (demo_enricher (demo_obs docs)) demo_ref (length docs)
       demo_enrich_db) 5"

lemmas demo_drift_simps = demo_drift_def sbom_events_def demo_process_env_def demo_enricher_def demo_obs_def
  demo_ref_def demo_enrich_db_def demo_sbom_def demo_prov_def demo_env_def ProcessOne_def UpsertEnrichment_def
  run_stmt_def GetEnrichment_def read_stmt_def upsert_row_def update_where_def after_enrich_def enricher_names
  StatusSuccess_def StatusError_def recordProvenanceDrift_def pendingDrift_def GetProvenanceDriftPending_def
  clearPendingDrift_def DeleteProvenanceDriftPending_def insertDrift_def InsertProvenanceDrift_def
  judge_drift_def SigningStatus_def UpsertProvenanceDriftPending_def Let_def

theorem drift_events_exact_witness:
  "demo_drift (\<lambda>k j. None) [''v'', ''u'', ''u''] = [(''verified'', ''unsigned'')]"
proof -
  let ?docs = "[''v'', ''u'', ''u'']"
  have st: "steady (demo_process_env (\<lambda>k j. None)) (demo_enricher (demo_obs ?docs)) demo_ref (demo_obs ?docs)
      (\<lambda>k. the (demo_prov (demo_obs ?docs k)))"
    by (simp add: steady_def demo_process_env_def demo_enricher_def demo_prov_def)
  have un: "unseen demo_enrich_db (sr_sbom demo_ref)"
    by (simp add: unseen_def demo_enrich_db_def demo_sbom_def demo_ref_def sbom_events_def)
  show ?thesis
    using drift_events_exact [OF st un, of 3]
    by (simp add: demo_drift_def demo_ref_def upt_conv_Cons drift_at_def demo_prov_def demo_obs_def SigningStatus_def
        trusted_status_def numeral_3_eq_3 numeral_2_eq_2)
qed

text \<open>A failure to write the pending observation does not cost a cycle, it loses the report: the next
  checks compare unsigned with unsigned, and the removed signature is never reported, however often the
  checks confirm it.\<close>

theorem lost_pending_is_silent:
  "demo_drift (\<lambda>k j. if k = 1 \<and> j = 6 then Some Timeout else None) [''v'', ''u'', ''u'', ''u'', ''u''] = []"
  by (simp add: demo_drift_simps)

text \<open>A failure to delete the pending observation raises the alarm that two observations were to prevent:
  verified, unsigned, verified, unsigned has no two unsigned checks in a row, and yet the last one is
  reported as a confirmed loss of the signature.\<close>

theorem kept_pending_is_false_alarm:
  "demo_drift (\<lambda>k j. if k = 2 \<and> j = 5 then Some Timeout else None) [''v'', ''u'', ''v'', ''u''] =
     [(''verified'', ''unsigned'')] \<and>
   demo_drift (\<lambda>k j. None) [''v'', ''u'', ''v'', ''u''] = []"
  by (simp add: demo_drift_simps)

text \<open>A run: the submitter enqueues the root enrichers, oci-metadata stores a success and its dependent git
  is enqueued.\<close>

definition demo_submitted :: enrich_db where
  "demo_submitted = snd (submitter_handle (\<lambda>n. None) 100 (\<lambda>n. of_nat (30 + n)) [] demo_enrich_db 5 [] [])"

definition demo_stored :: enrich_db where
  "demo_stored = snd (UpsertEnrichment None 110 demo_submitted 5 n_OCIMetadata StatusSuccess (Some ''m'') None)"

definition demo_dependent :: enrich_db where
  "demo_dependent = EnqueueDependents (\<lambda>n j. None) 120 (\<lambda>n. 40) [] demo_stored 5 [] [] n_OCIMetadata"

lemma demo_enrich_reachable: "enrich_reachable m demo_submitted" "enrich_reachable m demo_dependent"
proof -
  show sub: "enrich_reachable m demo_submitted"
    unfolding demo_submitted_def
    by (rule enrich_reachable.step [OF enrich_reachable.start enrich_step.submit [OF surjective_pairing]])
      (simp_all add: demo_enrich_db_def)
  have "enrich_reachable m demo_stored"
    unfolding demo_stored_def
    by (rule enrich_reachable.step [OF sub enrich_step.store [OF surjective_pairing]]) simp
  then show "enrich_reachable m demo_dependent"
    unfolding demo_dependent_def by (rule enrich_reachable.step [OF _ enrich_step.dependents [OF refl]])
qed

lemma demo_submitted_jobs:
  "ed_jobs demo_submitted =
     [fresh_ejob 30 100 5 (Some (uuid_str 5 @ '':'' @ n_User)) None None n_User None,
      fresh_ejob 31 100 5 (Some (uuid_str 5 @ '':'' @ n_OCIMetadata)) None None n_OCIMetadata None,
      fresh_ejob 32 100 5 (Some (uuid_str 5 @ '':'' @ n_Provenance)) None None n_Provenance None]"
  "ed_sboms demo_submitted = [demo_sbom]" "ed_enrichments demo_submitted = []"
  by (simp_all add: demo_submitted_def submitter_handle_def rootEnrichers_def Enrich_Enqueue_def Let_def
      InsertEnrichmentJob_def run_stmt_def ejob_conflict_def fresh_ejob_def nullStr_def enricher_names
      demo_enrich_db_def demo_sbom_def)

lemma demo_dependent_jobs:
  "ed_jobs demo_dependent =
     ed_jobs demo_submitted @ [fresh_ejob 40 120 5 (Some (uuid_str 5 @ '':'' @ n_Git)) None None n_Git None]"
  by (simp add: demo_dependent_def demo_stored_def EnqueueDependents_def Dependents_def enricherDeps_def
      UpsertEnrichment_def demo_submitted_jobs run_stmt_def Let_def prereqs_ready_def Prerequisites_def
      GetEnrichment_def read_stmt_def StatusSuccess_def Enrich_Enqueue_def InsertEnrichmentJob_def
      ejob_conflict_def fresh_ejob_def nullStr_def demo_sbom_def enricher_names)

theorem enrich_claims_exclusive_witness:
  "distinct (fst (claim_all (enrich_queue hex_parser n_User demo_env)
     [(0, None, ''w1''), (1, Some (uuid_str 30), ''w2''), (2, None, ''w2'')] demo_submitted))"
  using enrich_claims_exclusive [OF demo_enrich_reachable(1) surjective_pairing] by blast

theorem enrich_jobs_unique_witness:
  "length (filter (\<lambda>x. ej_sbom x = 5 \<and> ej_enricher x = n_User) (ed_jobs demo_submitted)) = 1"
  using enrich_jobs_unique [OF demo_enrich_reachable(1) [of 3], of "hd (ed_jobs demo_submitted)"]
  by (simp add: demo_submitted_jobs fresh_ejob_def)

theorem dependents_wait_witness:
  "\<exists>r\<in>set (ed_enrichments demo_dependent). en_sbom r = 5 \<and> en_name r = n_OCIMetadata \<and>
    en_status r = ''success'' \<and> en_data r \<noteq> None"
  using dependents_wait [OF demo_enrich_reachable(2) [of 3], of "last (ed_jobs demo_dependent)" n_OCIMetadata]
  by (simp add: demo_dependent_jobs fresh_ejob_def Prerequisites_def enricherDeps_def)

definition demo_failing :: enricher where
  "demo_failing = \<lparr>er_name = n_User, er_can = (\<lambda>ref. True), er_enrich = (\<lambda>k ref. Inl (OtherError ''503''))\<rparr>"

definition demo_enrich_claim :: enrich_claim where
  "demo_enrich_claim =
     \<lparr>ec_id = uuid_str 30, ec_sbom = 5, ec_attempts = 1, ec_enricher = n_User, ec_arch = [], ec_build = [],
      ec_digest = ''sha256:1'', ec_index_digest = [], ec_version = [], ec_artifact_type = ''container'',
      ec_artifact_name = ''app'', ec_source = None, ec_kind = [], ec_trace = []\<rparr>"

theorem failed_enricher_finishes_job_witness:
  "fst (enrichProcessor hex_parser (demo_process_env (\<lambda>k j. None)) [demo_failing] n_User 0 demo_submitted
      demo_enrich_claim) = None"
proof -
  have "hex_parser (uuid_str 30) = Some 30" using hex_parser_ok by (simp add: parser_ok_def)
  then show ?thesis
    using failed_enricher_finishes_job [of demo_enrich_claim 0 "[demo_failing]" "demo_process_env (\<lambda>k j. None)"
        demo_submitted "hd (ed_jobs demo_submitted)" hex_parser n_User, OF _ _ _ _ _ _ surjective_pairing]
    by (simp add: demo_failing_def demo_process_env_def demo_env_def demo_submitted_jobs demo_enrich_claim_def
        demo_sbom_def fresh_ejob_def)
qed

end
