(* ===== verification/NetAddr.thy ===== *)
theory NetAddr
  imports GoStrings
begin

unbundle bit_operations_syntax

text \<open>
  The part of Go's \<open>net/netip\<close> and \<open>net\<close> packages that the egress guard and the client address resolver
  call: addresses of 32 and 128 bits, the latter with a zone; prefixes; parsing. \<open>None\<close> is the zero
  \<open>netip.Addr\<close> (the invalid address) or a parse error.
\<close>

section \<open>Addresses and prefixes\<close>

datatype addr = V4 "32 word" | V6 "128 word" string

fun bit_len :: "addr \<Rightarrow> nat" where
  "bit_len (V4 a) = 32"
| "bit_len (V6 a z) = 128"

text \<open>\<open>Addr.Unmap\<close>: an IPv4-mapped address, with or without a zone, is the IPv4 address.\<close>

fun unmap :: "addr \<Rightarrow> addr" where
  "unmap (V4 a) = V4 a"
| "unmap (V6 a z) = (if drop_bit 32 a = 65535 then V4 (ucast a) else V6 a z)"

text \<open>A prefix is an address without a zone and a number of bits, at most the address's length;
  \<open>netip.PrefixFrom\<close> drops the zone.\<close>

type_synonym ip_prefix = "addr \<times> nat"

fun prefix_from :: "addr \<Rightarrow> nat \<Rightarrow> ip_prefix" where
  "prefix_from (V4 a) n = (V4 a, n)"
| "prefix_from (V6 a z) n = (V6 a [], n)"

fun masked :: "ip_prefix \<Rightarrow> ip_prefix" where
  "masked (V4 a, n) = (V4 (push_bit (32 - n) (drop_bit (32 - n) a)), n)"
| "masked (V6 a z, n) = (V6 (push_bit (128 - n) (drop_bit (128 - n) a)) z, n)"

text \<open>\<open>Prefix.Contains\<close>: an address with a zone is in no prefix.\<close>

fun prefix_contains :: "ip_prefix \<Rightarrow> addr \<Rightarrow> bool" where
  "prefix_contains (V4 p, n) (V4 a) \<longleftrightarrow> drop_bit (32 - n) (p XOR a) = 0"
| "prefix_contains (V6 p pz, n) (V6 a z) \<longleftrightarrow> z = [] \<and> drop_bit (128 - n) (p XOR a) = 0"
| "prefix_contains _ _ \<longleftrightarrow> False"

section \<open>Parsing\<close>

definition dec_value :: "string \<Rightarrow> nat" where
  "dec_value s = foldl (\<lambda>v c. 10 * v + (byte_of c - 48)) 0 s"

definition ipv4_field :: "string \<Rightarrow> nat option" where
  "ipv4_field s =
     (if s \<noteq> [] \<and> list_all is_digit s \<and> (length s = 1 \<or> hd s \<noteq> CHR ''0'') \<and> dec_value s \<le> 255
      then Some (dec_value s) else None)"

definition ipv4_octets :: "string \<Rightarrow> (nat \<times> nat \<times> nat \<times> nat) option" where
  "ipv4_octets s =
     (case map ipv4_field (split_on (CHR ''.'') s) of
        [Some a, Some b, Some c, Some d] \<Rightarrow> Some (a, b, c, d)
      | _ \<Rightarrow> None)"

definition parse_ipv4 :: "string \<Rightarrow> addr option" where
  "parse_ipv4 s = map_option (\<lambda>(a, b, c, d). V4 (of_nat (((a * 256 + b) * 256 + c) * 256 + d))) (ipv4_octets s)"

definition hex_digit_value :: "char \<Rightarrow> nat" where
  "hex_digit_value c =
     (if is_digit c then byte_of c - 48 else if 97 \<le> byte_of c then byte_of c - 87 else byte_of c - 55)"

definition hex_value :: "string \<Rightarrow> nat" where
  "hex_value s = foldl (\<lambda>v c. 16 * v + hex_digit_value c) 0 s"

lemma dropWhile_shorter: "takeWhile P s \<noteq> [] \<Longrightarrow> length (dropWhile P s) < length s"
proof -
  assume "takeWhile P s \<noteq> []"
  then have "0 < length (takeWhile P s)" by simp
  moreover have "length (takeWhile P s) + length (dropWhile P s) = length s"
    by (metis length_append takeWhile_dropWhile_id)
  ultimately show ?thesis by linarith
qed

text \<open>The loop over the colon-separated groups: the groups read and where the ellipsis stood.\<close>

function v6_loop :: "nat list \<Rightarrow> nat option \<Rightarrow> string \<Rightarrow> (nat list \<times> nat option) option" where
  "v6_loop gs ell s =
     (if length gs \<ge> 8 then (if s = [] then Some (gs, ell) else None)
      else let hs = takeWhile is_hex s; rest = dropWhile is_hex s; gs' = gs @ [hex_value hs] in
        if hs = [] \<or> length hs > 4 then None
        else if rest = [] then Some (gs', ell)
        else if hd rest = CHR ''.''
        then (if ell = None \<and> length gs \<noteq> 6 \<or> length gs > 6 then None
              else map_option (\<lambda>(a, b, c, d). (gs @ [a * 256 + b, c * 256 + d], ell)) (ipv4_octets s))
        else if hd rest \<noteq> CHR '':'' \<or> tl rest = [] then None
        else if hd (tl rest) = CHR '':''
        then (if ell \<noteq> None then None
              else if tl (tl rest) = [] then Some (gs', Some (length gs'))
              else v6_loop gs' (Some (length gs')) (tl (tl rest)))
        else v6_loop gs' ell (tl rest))"
  by pat_completeness auto
termination
proof (relation "measure (\<lambda>(gs, ell, s). length s)")
  show "wf (measure (\<lambda>(gs :: nat list, ell :: nat option, s :: string). length s))" by simp
next
  fix gs :: "nat list" and ell :: "nat option" and s hs rest gs'
  assume hs: "hs = takeWhile is_hex s" and rest: "rest = dropWhile is_hex s" "rest \<noteq> []"
    and ne: "\<not> (hs = [] \<or> 4 < length hs)"
  have "length rest < length s" using ne hs rest dropWhile_shorter [of is_hex s] by simp
  then show "((gs', Some (length gs'), tl (tl rest)), gs, ell, s) \<in> measure (\<lambda>(gs, ell, s). length s)"
    and "((gs', ell, tl rest), gs, ell, s) \<in> measure (\<lambda>(gs, ell, s). length s)"
    by simp_all
qed

declare v6_loop.simps [simp del]

definition v6_word :: "nat list \<Rightarrow> 128 word" where
  "v6_word gs = foldl (\<lambda>a g. a * 65536 + of_nat g) 0 gs"

definition v6_groups :: "string \<Rightarrow> nat list option" where
  "v6_groups s =
     (let lead = has_prefix s ''::''; s' = (if lead then drop 2 s else s) in
      if lead \<and> s' = [] then Some (replicate 8 0)
      else case v6_loop [] (if lead then Some 0 else None) s' of
             None \<Rightarrow> None
           | Some (gs, None) \<Rightarrow> if length gs = 8 then Some gs else None
           | Some (gs, Some e) \<Rightarrow>
               if length gs \<ge> 8 then None
               else Some (take e gs @ replicate (8 - length gs) 0 @ drop e gs))"

definition parse_ipv6 :: "string \<Rightarrow> addr option" where
  "parse_ipv6 inp =
     (case index_byte (CHR ''%'') inp of
        None \<Rightarrow> map_option (\<lambda>gs. V6 (v6_word gs) []) (v6_groups inp)
      | Some i \<Rightarrow>
          if drop (Suc i) inp = [] then None
          else map_option (\<lambda>gs. V6 (v6_word gs) (drop (Suc i) inp)) (v6_groups (take i inp)))"

definition ParseAddr :: "string \<Rightarrow> addr option" where
  "ParseAddr s =
     (case find (\<lambda>c. c = CHR ''.'' \<or> c = CHR '':'' \<or> c = CHR ''%'') s of
        None \<Rightarrow> None
      | Some c \<Rightarrow> if c = CHR ''.'' then parse_ipv4 s else if c = CHR '':'' then parse_ipv6 s else None)"

definition ParsePrefix :: "string \<Rightarrow> ip_prefix option" where
  "ParsePrefix s =
     (case last_index_byte (CHR ''/'') s of
        None \<Rightarrow> None
      | Some i \<Rightarrow>
          (let bits = drop (Suc i) s in
           case ParseAddr (take i s) of
             None \<Rightarrow> None
           | Some a \<Rightarrow>
               if (case a of V4 _ \<Rightarrow> False | V6 _ z \<Rightarrow> z \<noteq> []) \<or> bits = [] \<or> \<not> list_all is_digit bits \<or>
                  length bits > 1 \<and> hd bits = CHR ''0'' \<or> dec_value bits > bit_len a
               then None else Some (prefix_from a (dec_value bits))))"

text \<open>\<open>netip.ParseAddrPort\<close> and \<open>net.SplitHostPort\<close>.\<close>

definition ParseAddrPort :: "string \<Rightarrow> (addr \<times> nat) option" where
  "ParseAddrPort s =
     (case last_index_byte (CHR '':'') s of
        None \<Rightarrow> None
      | Some i \<Rightarrow>
          (let ip = take i s; port = drop (Suc i) s; v6 = (ip \<noteq> [] \<and> hd ip = CHR ''['') in
           if ip = [] \<or> port = [] \<or> \<not> list_all is_digit port \<or> dec_value port > 65535 \<or>
              v6 \<and> (length ip < 2 \<or> last ip \<noteq> CHR '']'')
           then None
           else case ParseAddr (if v6 then butlast (tl ip) else ip) of
                  None \<Rightarrow> None
                | Some (V4 a) \<Rightarrow> if v6 then None else Some (V4 a, dec_value port)
                | Some (V6 a z) \<Rightarrow> if v6 then Some (V6 a z, dec_value port) else None))"

definition SplitHostPort :: "string \<Rightarrow> (string \<times> string) option" where
  "SplitHostPort s =
     (case last_index_byte (CHR '':'') s of
        None \<Rightarrow> None
      | Some i \<Rightarrow>
          if hd s = CHR ''[''
          then (case index_byte (CHR '']'') s of
                  None \<Rightarrow> None
                | Some e \<Rightarrow>
                    if Suc e \<noteq> i \<or> List.member (tl s) (CHR ''['') \<or> List.member (drop (Suc e) s) (CHR '']'')
                    then None else Some (take (e - 1) (tl s), drop (Suc i) s))
          else if List.member (take i s) (CHR '':'') \<or> List.member s (CHR ''['') \<or> List.member s (CHR '']'')
          then None else Some (take i s, drop (Suc i) s))"

section \<open>Prefixes as intervals\<close>

lemma xor_zero_iff: "x XOR y = 0 \<longleftrightarrow> x = (y :: 'a::len word)"
proof
  assume "x XOR y = 0"
  moreover have "x = (x XOR y) XOR y" by (simp add: xor.assoc)
  ultimately show "x = y" by simp
qed simp

lemma drop_bit_xor_eq: "drop_bit n (p XOR a) = 0 \<longleftrightarrow> drop_bit n p = drop_bit n (a :: 'a::len word)"
  by (simp add: drop_bit_xor xor_zero_iff)

lemma v4_prefix_interval:
  "prefix_contains (V4 p, n) (V4 a) \<longleftrightarrow> unat a div 2 ^ (32 - n) = unat p div 2 ^ (32 - n)"
proof -
  have "prefix_contains (V4 p, n) (V4 a) \<longleftrightarrow> unat (drop_bit (32 - n) p) = unat (drop_bit (32 - n) a)"
    unfolding prefix_contains.simps drop_bit_xor_eq by (rule word_unat_eq_iff)
  also have "\<dots> \<longleftrightarrow> unat p div 2 ^ (32 - n) = unat a div 2 ^ (32 - n)"
    unfolding unat_drop_bit_eq by (simp only: drop_bit_eq_div)
  finally show ?thesis by metis
qed

lemma div_eq_interval:
  assumes "0 < k"
  shows "(x :: nat) div k = c \<longleftrightarrow> c * k \<le> x \<and> x < c * k + k"
proof
  assume "x div k = c"
  then show "c * k \<le> x \<and> x < c * k + k"
    using dividend_less_div_times [OF assms, of x] by (auto simp: add.commute)
next
  assume "c * k \<le> x \<and> x < c * k + k"
  then show "x div k = c" by (intro div_nat_eqI) (simp_all add: mult.commute)
qed

end
