(* ===== verification/NetGuard.thy ===== *)
theory NetGuard
  imports NetAddr Prelude Principal
begin

text \<open>
  Which addresses the program dials and which client it counts: \<^verbatim>\<open>internal/netguard/netguard.go\<close> and the
  client address resolver of \<^verbatim>\<open>internal/api/ratelimit.go\<close>.
\<close>

section \<open>The egress policy\<close>

definition ErrDenied :: go_error where "ErrDenied = OtherError ''egress denied''"

definition parse_prefix_entry :: "string \<Rightarrow> ip_prefix option" where
  "parse_prefix_entry c =
     (case ParsePrefix c of
        Some p \<Rightarrow> Some (masked p)
      | None \<Rightarrow> map_option (\<lambda>a. masked (prefix_from a (bit_len a))) (ParseAddr c))"

fun ParsePrefixes :: "string list \<Rightarrow> ip_prefix list result" where
  "ParsePrefixes [] = Inr []"
| "ParsePrefixes (c # cs) =
     (if c = [] then ParsePrefixes cs
      else case parse_prefix_entry c of
             None \<Rightarrow> Inl (Wrapped (''invalid CIDR '' @ c) (OtherError ''netip.ParsePrefix''))
           | Some p \<Rightarrow> bind_result (ParsePrefixes cs) (\<lambda>ps. Inr (p # ps)))"

text \<open>\<open>mustPrefixes\<close> panics on an error: \<open>None\<close>.\<close>

definition mustPrefixes :: "string list \<Rightarrow> ip_prefix list option" where
  "mustPrefixes cs = (case ParsePrefixes cs of Inl e \<Rightarrow> None | Inr ps \<Rightarrow> Some ps)"

definition alwaysDenied_cidrs :: "string list" where
  "alwaysDenied_cidrs =
     [''0.0.0.0/8'', ''127.0.0.0/8'', ''169.254.0.0/16'', ''224.0.0.0/4'', ''255.255.255.255/32'',
      ''::/128'', ''::1/128'', ''fe80::/10'', ''ff00::/8'']"

definition private_cidrs :: "string list" where
  "private_cidrs = [''10.0.0.0/8'', ''172.16.0.0/12'', ''192.168.0.0/16'', ''100.64.0.0/10'', ''fc00::/7'']"

definition alwaysDenied :: "ip_prefix list" where
  "alwaysDenied = (case mustPrefixes alwaysDenied_cidrs of None \<Rightarrow> [] | Some ps \<Rightarrow> ps)"

definition private_prefixes :: "ip_prefix list" where
  "private_prefixes = (case mustPrefixes private_cidrs of None \<Rightarrow> [] | Some ps \<Rightarrow> ps)"

record policy =
  AllowCIDRs :: "ip_prefix list"
  DenyCIDRs :: "ip_prefix list"
  AllowPrivate :: bool

definition zero_policy :: policy where
  "zero_policy = \<lparr>AllowCIDRs = [], DenyCIDRs = [], AllowPrivate = False\<rparr>"

definition ip_in :: "ip_prefix list \<Rightarrow> addr \<Rightarrow> bool" where
  "ip_in prefixes ip = list_ex (\<lambda>p. prefix_contains p ip) prefixes"

text \<open>\<open>None\<close> as the result is a nil error; as the argument, the invalid address.\<close>

definition Check :: "policy \<Rightarrow> addr option \<Rightarrow> go_error option" where
  "Check p addr =
     (case map_option unmap addr of
        None \<Rightarrow> Some (Wrapped ''invalid address'' ErrDenied)
      | Some ip \<Rightarrow>
          if ip_in (AllowCIDRs p) ip then None
          else if ip_in alwaysDenied ip \<or> ip_in (DenyCIDRs p) ip then Some (Wrapped [] ErrDenied)
          else if \<not> AllowPrivate p \<and> ip_in private_prefixes ip
          then Some (Wrapped ''is a private address'' ErrDenied)
          else None)"

definition Control :: "policy \<Rightarrow> string \<Rightarrow> go_error option" where
  "Control p address =
     (case ParseAddrPort address of
        None \<Rightarrow> Some (Wrapped (''unparseable address '' @ address) ErrDenied)
      | Some (a, port) \<Rightarrow> Check p (Some a))"

section \<open>The client's address\<close>

record client_ip_policy =
  TrustedProxies :: "ip_prefix list"
  TrustedHops :: int
  Header :: string

text \<open>A request: the peer's address, and the values of a header by its name. \<open>show\<close> is \<open>Addr.String\<close>.\<close>

record http_request =
  RemoteAddr :: string
  header_values :: "string \<Rightarrow> string list"

definition header_get :: "http_request \<Rightarrow> string \<Rightarrow> string" where
  "header_get r h = (case header_values r h of [] \<Rightarrow> [] | v # _ \<Rightarrow> v)"

definition forwardedFor :: "http_request \<Rightarrow> string list" where
  "forwardedFor r =
     (let values = header_values r ''X-Forwarded-For''
      in if values = [] then [] else split_on (CHR '','') (join '','' values))"

definition fromHeader :: "client_ip_policy \<Rightarrow> http_request \<Rightarrow> addr \<Rightarrow> addr" where
  "fromHeader p r peer =
     (case ParseAddr (trim_space (header_get r (Header p))) of None \<Rightarrow> peer | Some ip \<Rightarrow> unmap ip)"

definition fromHops :: "client_ip_policy \<Rightarrow> string list \<Rightarrow> addr \<Rightarrow> addr" where
  "fromHops p hops peer =
     (if hops = [] then peer
      else let i = int (length hops) - TrustedHops p; i = (if i < 0 then 0 else i)
           in case ParseAddr (trim_space (hops ! nat i)) of None \<Rightarrow> peer | Some ip \<Rightarrow> unmap ip)"

definition isTrusted :: "client_ip_policy \<Rightarrow> addr \<Rightarrow> bool" where
  "isTrusted p ip = list_ex (\<lambda>q. prefix_contains q ip) (TrustedProxies p)"

text \<open>The walk of the chain from its right end.\<close>

fun chain_walk :: "client_ip_policy \<Rightarrow> addr \<Rightarrow> string list \<Rightarrow> addr" where
  "chain_walk p client [] = client"
| "chain_walk p client (hop # hops) =
     (case ParseAddr (trim_space hop) of
        None \<Rightarrow> client
      | Some a \<Rightarrow> if isTrusted p (unmap a) then chain_walk p (unmap a) hops else unmap a)"

definition fromTrustedChain :: "client_ip_policy \<Rightarrow> string list \<Rightarrow> addr \<Rightarrow> addr" where
  "fromTrustedChain p hops peer = chain_walk p peer (rev hops)"

definition ClientIP :: "(addr \<Rightarrow> string) \<Rightarrow> client_ip_policy \<Rightarrow> http_request \<Rightarrow> string" where
  "ClientIP show_addr p r =
     (let host = (case SplitHostPort (RemoteAddr r) of Some (h, _) \<Rightarrow> h | None \<Rightarrow> RemoteAddr r) in
      case map_option unmap (ParseAddr host) of
        None \<Rightarrow> host
      | Some peer \<Rightarrow>
          if TrustedProxies p \<noteq> [] \<and> \<not> isTrusted p peer then show_addr peer
          else if Header p \<noteq> [] then show_addr (fromHeader p r peer)
          else if TrustedHops p > 0 then show_addr (fromHops p (forwardedFor r) peer)
          else if TrustedProxies p \<noteq> [] then show_addr (fromTrustedChain p (forwardedFor r) peer)
          else show_addr peer)"

text \<open>The key of a per-principal limit.\<close>

definition principalKey ::
  "(addr \<Rightarrow> string) \<Rightarrow> client_ip_policy \<Rightarrow> auth_user option \<Rightarrow> http_request \<Rightarrow> string" where
  "principalKey show_addr p ctx r =
     (case ctx of
        Some u \<Rightarrow> ''user:'' @ uuidToStr (au_id u)
      | None \<Rightarrow> ''ip:'' @ ClientIP show_addr p r)"

section \<open>The built-in ranges\<close>

lemmas parse_simps = mustPrefixes_def parse_prefix_entry_def ParsePrefix_def ParseAddr_def last_index_byte_def
  parse_ipv4_def ipv4_octets_def ipv4_field_def is_digit_def dec_value_def parse_ipv6_def v6_groups_def
  v6_loop.simps is_hex_def hex_value_def hex_digit_value_def v6_word_def Let_def

lemma replicate_num:
  "replicate 6 x = [x, x, x, x, x, x]" "replicate 7 x = [x, x, x, x, x, x, x]"
  "replicate 8 x = [x, x, x, x, x, x, x, x]"
  by (simp_all add: numeral_eq_Suc)

lemma denied_v4:
  "parse_prefix_entry ''0.0.0.0/8'' = Some (V4 0, 8)"
  "parse_prefix_entry ''127.0.0.0/8'' = Some (V4 0x7F000000, 8)"
  "parse_prefix_entry ''169.254.0.0/16'' = Some (V4 0xA9FE0000, 16)"
  "parse_prefix_entry ''224.0.0.0/4'' = Some (V4 0xE0000000, 4)"
  "parse_prefix_entry ''255.255.255.255/32'' = Some (V4 0xFFFFFFFF, 32)"
  by (simp_all add: parse_simps)

lemma denied_v6:
  "parse_prefix_entry ''::/128'' = Some (V6 0 [], 128)"
  "parse_prefix_entry ''::1/128'' = Some (V6 1 [], 128)"
  "parse_prefix_entry ''fe80::/10'' = Some (V6 0xFE800000000000000000000000000000 [], 10)"
  "parse_prefix_entry ''ff00::/8'' = Some (V6 0xFF000000000000000000000000000000 [], 8)"
  by (simp_all add: parse_simps replicate_num)

lemma private_entries:
  "parse_prefix_entry ''10.0.0.0/8'' = Some (V4 0x0A000000, 8)"
  "parse_prefix_entry ''172.16.0.0/12'' = Some (V4 0xAC100000, 12)"
  "parse_prefix_entry ''192.168.0.0/16'' = Some (V4 0xC0A80000, 16)"
  "parse_prefix_entry ''100.64.0.0/10'' = Some (V4 0x64400000, 10)"
  "parse_prefix_entry ''fc00::/7'' = Some (V6 0xFC000000000000000000000000000000 [], 7)"
  by (simp_all add: parse_simps replicate_num)

lemma alwaysDenied_eq:
  "alwaysDenied =
     [(V4 0, 8), (V4 0x7F000000, 8), (V4 0xA9FE0000, 16), (V4 0xE0000000, 4), (V4 0xFFFFFFFF, 32),
      (V6 0 [], 128), (V6 1 [], 128), (V6 0xFE800000000000000000000000000000 [], 10),
      (V6 0xFF000000000000000000000000000000 [], 8)]"
  by (simp add: alwaysDenied_def mustPrefixes_def alwaysDenied_cidrs_def denied_v4 denied_v6)

lemma private_prefixes_eq:
  "private_prefixes =
     [(V4 0x0A000000, 8), (V4 0xAC100000, 12), (V4 0xC0A80000, 16), (V4 0x64400000, 10),
      (V6 0xFC000000000000000000000000000000 [], 7)]"
  by (simp add: private_prefixes_def mustPrefixes_def private_cidrs_def private_entries)

section \<open>What the guard lets through\<close>

lemma ip_in_v4: "ip_in ((V4 p, n) # ps) (V4 a) \<longleftrightarrow>
    unat p div 2 ^ (32 - n) * 2 ^ (32 - n) \<le> unat a \<and>
    unat a < unat p div 2 ^ (32 - n) * 2 ^ (32 - n) + 2 ^ (32 - n) \<or> ip_in ps (V4 a)"
  by (simp add: ip_in_def v4_prefix_interval div_eq_interval del: prefix_contains.simps)

lemma ip_in_v4_other [simp]: "ip_in ((V6 p z, n) # ps) (V4 a) \<longleftrightarrow> ip_in ps (V4 a)" "ip_in [] ip = False"
  by (simp_all add: ip_in_def)

text \<open>C27: The default policy, in numbers. The zero policy lets an IPv4 address through exactly when it lies in
  none of 0.0.0.0/8, 10.0.0.0/8, 100.64.0.0/10, 127.0.0.0/8, 169.254.0.0/16, 172.16.0.0/12, 192.168.0.0/16
  and 224.0.0.0/4 and is not 255.255.255.255, each range given by its first and last address; the ranges are
  those the code writes as strings, parsed.\<close>

theorem default_policy_v4:
  "Check zero_policy (Some (V4 a)) = None \<longleftrightarrow>
     0x01000000 \<le> unat a \<and> unat a < 0xE0000000 \<and> \<not> (0x0A000000 \<le> unat a \<and> unat a < 0x0B000000) \<and>
     \<not> (0x64400000 \<le> unat a \<and> unat a < 0x64800000) \<and> \<not> (0x7F000000 \<le> unat a \<and> unat a < 0x80000000) \<and>
     \<not> (0xA9FE0000 \<le> unat a \<and> unat a < 0xA9FF0000) \<and> \<not> (0xAC100000 \<le> unat a \<and> unat a < 0xAC200000) \<and>
     \<not> (0xC0A80000 \<le> unat a \<and> unat a < 0xC0A90000) \<or>
     0xF0000000 \<le> unat a \<and> unat a < 0xFFFFFFFF"
  (is "?l = ?r")
proof -
  have bound: "unat a < 0x100000000" using unsigned_less [of a] by simp
  have "Check zero_policy (Some (V4 a)) = None \<longleftrightarrow> \<not> ip_in alwaysDenied (V4 a) \<and> \<not> ip_in private_prefixes (V4 a)"
    by (simp add: Check_def zero_policy_def)
  also have "\<dots> \<longleftrightarrow> ?r"
    using bound unfolding alwaysDenied_eq private_prefixes_eq by (simp add: ip_in_v4) linarith
  finally show ?thesis .
qed

text \<open>Only the operator's allow list opens the built-in ranges. An address without a zone in one of the
  always denied ranges is refused by every policy whose AllowCIDRs do not hold it, whatever it allows or denies
  besides, and an IPv4-mapped IPv6 address, with a zone or not, is judged as the IPv4 address it carries.\<close>

theorem guard_denies:
  assumes "ip_in alwaysDenied (unmap ip)" and "\<not> ip_in (AllowCIDRs p) (unmap ip)"
  shows "Check p (Some ip) = Some (Wrapped [] ErrDenied) \<and>
    Check p (Some (V6 (0xFFFF00000000 + ucast a) z)) = Check p (Some (V4 a))"
proof -
  have a: "unat a < 2 ^ 32" using unsigned_less [of a] by simp
  then have low: "unat (ucast a :: 128 word) = unat a"
    by (simp add: unsigned_ucast_eq take_bit_nat_eq_self)
  have sum: "unat (0xFFFF00000000 + (ucast a :: 128 word)) = 0xFFFF00000000 + unat a"
    using a by (simp add: unat_word_ariths low)
  have "unat (drop_bit 32 (0xFFFF00000000 + (ucast a :: 128 word))) = 65535"
    using a unfolding unat_drop_bit_eq sum by (simp add: drop_bit_eq_div)
  then have "drop_bit 32 (0xFFFF00000000 + (ucast a :: 128 word)) = 65535"
    by (simp add: word_unat_eq_iff)
  moreover have "(0xFFFF00000000 + unat a) mod 2 ^ 32 = unat a"
  proof -
    have "(0xFFFF00000000 + unat a :: nat) = unat a + 65535 * 2 ^ 32" by simp
    then show ?thesis using a by (simp only: mod_mult_self1 mod_less)
  qed
  then have "ucast (0xFFFF00000000 + (ucast a :: 128 word)) = a"
    by (simp add: word_unat_eq_iff unsigned_ucast_eq sum take_bit_eq_mod)
  ultimately show ?thesis using assms by (simp add: Check_def)
qed

theorem guard_denies_witness:
  "Check \<lparr>AllowCIDRs = [(V4 0x0A000000, 8)], DenyCIDRs = [], AllowPrivate = True\<rparr> (Some (V4 0xA9FEA9FE)) =
     Some (Wrapped [] ErrDenied)"
proof -
  have "ip_in alwaysDenied (unmap (V4 0xA9FEA9FE))"
    unfolding alwaysDenied_eq by (simp add: ip_in_v4)
  moreover have "\<not> ip_in [(V4 0x0A000000, 8)] (unmap (V4 0xA9FEA9FE))"
    by (simp add: ip_in_v4)
  ultimately show ?thesis
    using guard_denies [of "V4 0xA9FEA9FE" "\<lparr>AllowCIDRs = [(V4 0x0A000000, 8)], DenyCIDRs = [], AllowPrivate = True\<rparr>"]
    by simp
qed

text \<open>A zone is a way around the guard. An IPv6 address with a zone that carries no IPv4 address is in no
  prefix, so every policy lets it through, the policy's own deny list included: loopback and link-local
  addresses are dialed when the URL spells a zone.\<close>

theorem zone_bypasses_guard:
  assumes "drop_bit 32 a \<noteq> 65535" and "z \<noteq> []"
  shows "Check p (Some (V6 a z)) = None"
proof -
  have "\<not> ip_in ps (V6 a z)" for ps
    using assms(2) by (auto simp: ip_in_def list_ex_iff elim!: prefix_contains.elims(2))
  with assms(1) show ?thesis by (simp add: Check_def)
qed

theorem zone_bypasses_guard_witness:
  "Control zero_policy ''[::1%lo]:80'' = None \<and> Control zero_policy ''[::1]:80'' = Some (Wrapped [] ErrDenied)"
proof -
  have "ParseAddrPort ''[::1%lo]:80'' = Some (V6 1 ''lo'', 80)" "ParseAddrPort ''[::1]:80'' = Some (V6 1 [], 80)"
    by (simp_all add: ParseAddrPort_def parse_simps replicate_num)
  moreover have "ip_in alwaysDenied (V6 1 [])" by (simp add: alwaysDenied_eq ip_in_def)
  ultimately show ?thesis
    using zone_bypasses_guard [of 1 "''lo''" zero_policy]
    by (simp add: Control_def) (simp add: Check_def zero_policy_def ip_in_def)
qed

section \<open>Whom the limits count\<close>

text \<open>A client cannot choose its rate-limit key through X-Forwarded-For. With a hop count, what the client
  wrote in front of the entries its proxies appended does not change the answer; with trusted proxies, the
  answer is the right-most address of the chain outside them, whatever stands to its left.\<close>

theorem client_cannot_forge:
  assumes "0 < TrustedHops p" and "TrustedHops p \<le> int (length proxies)"
    and "list_all (\<lambda>h. case ParseAddr (trim_space h) of None \<Rightarrow> False | Some a \<Rightarrow> isTrusted p (unmap a)) trusted"
    and "ParseAddr (trim_space client) = Some a" and "\<not> isTrusted p (unmap a)"
  shows "fromHops p (forged @ proxies) peer = fromHops p proxies peer \<and>
    fromTrustedChain p (forged @ client # trusted) peer = unmap a"
proof
  have "(forged @ proxies) ! nat (int (length (forged @ proxies)) - TrustedHops p) =
      proxies ! nat (int (length proxies) - TrustedHops p)"
  proof -
    have "nat (int (length (forged @ proxies)) - TrustedHops p) =
        length forged + nat (int (length proxies) - TrustedHops p)" using assms(2) by auto
    then show ?thesis by simp
  qed
  moreover have "proxies \<noteq> []" using assms(1,2) by auto
  ultimately show "fromHops p (forged @ proxies) peer = fromHops p proxies peer"
    using assms(2) by (auto simp: fromHops_def Let_def)
  have "chain_walk p peer (hops @ client # rest) = unmap a"
    if "list_all (\<lambda>h. case ParseAddr (trim_space h) of None \<Rightarrow> False | Some a \<Rightarrow> isTrusted p (unmap a)) hops"
    for hops rest peer
    using that assms(4,5) by (induction hops arbitrary: peer) (auto split: option.splits)
  from this [of "rev trusted"] assms(3) show "fromTrustedChain p (forged @ client # trusted) peer = unmap a"
    by (simp add: fromTrustedChain_def list_all_rev)
qed

definition demo_ip_policy :: client_ip_policy where
  "demo_ip_policy = \<lparr>TrustedProxies = [(V4 0x0A000000, 8)], TrustedHops = 1, Header = []\<rparr>"

lemma demo_addrs:
  "ParseAddr (trim_space '' 10.0.0.7'') = Some (V4 0x0A000007)" "ParseAddr (trim_space ''192.0.2.1'') = Some (V4 0xC0000201)"
  "trim_space ''10.0.0.7'' = ''10.0.0.7''"
  by (simp_all add: parse_simps trim_space_def is_space_def)

theorem client_cannot_forge_witness:
  "fromHops demo_ip_policy [''8.8.8.8'', ''192.0.2.1''] (V4 1) = V4 0xC0000201 \<and>
   fromTrustedChain demo_ip_policy [''8.8.8.8'', ''192.0.2.1'', '' 10.0.0.7''] (V4 1) = V4 0xC0000201"
proof -
  have t: "isTrusted demo_ip_policy (V4 0x0A000007)" "\<not> isTrusted demo_ip_policy (V4 0xC0000201)"
    by (simp_all add: isTrusted_def demo_ip_policy_def v4_prefix_interval del: prefix_contains.simps)
  show ?thesis
    using client_cannot_forge [of demo_ip_policy "[''192.0.2.1'']" "['' 10.0.0.7'']" "''192.0.2.1''" "V4 0xC0000201"
        "[''8.8.8.8'']" "V4 1"] t
    by (simp add: demo_addrs) (simp add: demo_ip_policy_def fromHops_def demo_addrs)
qed

text \<open>Behind trusted proxies, a peer that is not one of them is the client, whatever headers it sends.\<close>

theorem untrusted_peer_is_client:
  assumes "TrustedProxies p \<noteq> []" and "SplitHostPort (RemoteAddr r) = Some (host, port)"
    and "ParseAddr host = Some a" and "\<not> isTrusted p (unmap a)"
  shows "ClientIP show_addr p (r\<lparr>header_values := h\<rparr>) = show_addr (unmap a)"
  using assms by (simp add: ClientIP_def)

theorem untrusted_peer_is_client_witness:
  "ClientIP (\<lambda>a. if a = V4 0xC0000201 then ''192.0.2.1'' else []) demo_ip_policy
     (\<lparr>RemoteAddr = ''192.0.2.1:4711'', header_values = (\<lambda>h. [])\<rparr>
        \<lparr>header_values := (\<lambda>h. [''10.0.0.7''])\<rparr>) = ''192.0.2.1''"
proof -
  have "\<not> isTrusted demo_ip_policy (unmap (V4 0xC0000201))"
    by (simp add: isTrusted_def demo_ip_policy_def v4_prefix_interval del: prefix_contains.simps)
  moreover have "SplitHostPort ''192.0.2.1:4711'' = Some (''192.0.2.1'', ''4711'')"
    by (simp add: SplitHostPort_def last_index_byte_def)
  moreover have "ParseAddr ''192.0.2.1'' = Some (V4 0xC0000201)" by (simp add: parse_simps)
  ultimately show ?thesis
    using untrusted_peer_is_client [of demo_ip_policy "\<lparr>RemoteAddr = ''192.0.2.1:4711'', header_values = (\<lambda>h. [])\<rparr>"]
    by (simp add: demo_ip_policy_def)
qed

end
