(* ===== verification/AuthTables.thy ===== *)
theory AuthTables
  imports Statements
begin

text \<open>
  Accounts and what signs in to them: the tables \<open>ocidex_user\<close>, \<open>user_identity\<close>, \<open>session\<close> and \<open>api_key\<close>
  (migrations 00007, 00068, 00069, 00070) with their constraints, and the statements of
  \<^verbatim>\<open>internal/repository/auth.sql.go\<close>. \<open>nid\<close> and \<open>iid\<close> are what \<open>gen_random_uuid()\<close> answers, \<open>now\<close> is
  the moment of the statement's transaction.
\<close>

record user_row =
  us_id :: uuid
  us_role :: string
  us_created :: int
  us_updated :: int
  us_email :: "string option"
  us_display :: "string option"

record identity_row =
  ui_id :: uuid
  ui_user :: uuid
  ui_provider :: string
  ui_subject :: string
  ui_email :: "string option"
  ui_created :: int
  ui_updated :: int

record session_row =
  se_id :: uuid
  se_user :: uuid
  se_hash :: string
  se_expires :: int
  se_created :: int

record key_row =
  ky_id :: uuid
  ky_user :: uuid
  ky_name :: string
  ky_hash :: string
  ky_prefix :: string
  ky_created :: int
  ky_last_used :: "int option"
  ky_caps :: "string list"

record auth_db =
  ad_users :: "user_row list"
  ad_identities :: "identity_row list"
  ad_sessions :: "session_row list"
  ad_keys :: "key_row list"

definition has_user :: "auth_db \<Rightarrow> uuid \<Rightarrow> bool" where
  "has_user d u = list_ex (\<lambda>r. us_id r = u) (ad_users d)"

definition find_user :: "auth_db \<Rightarrow> uuid \<Rightarrow> user_row option" where
  "find_user d u = find (\<lambda>r. us_id r = u) (ad_users d)"

definition identity_key :: "identity_row \<Rightarrow> string \<times> string" where
  "identity_key i = (ui_provider i, ui_subject i)"

definition one_row :: "'a option \<Rightarrow> 'a result" where
  "one_row r = (case r of None \<Rightarrow> Inl NoRows | Some x \<Rightarrow> Inr x)"

section \<open>Identities\<close>

definition CountIdentitiesByUser :: "fault \<Rightarrow> auth_db \<Rightarrow> uuid \<Rightarrow> int result" where
  "CountIdentitiesByUser flt d u =
     read_stmt flt (Inr (count_where (\<lambda>i. ui_user i = u) (ad_identities d)))"

definition GetIdentity :: "fault \<Rightarrow> auth_db \<Rightarrow> string \<Rightarrow> string \<Rightarrow> identity_row result" where
  "GetIdentity flt d p s =
     read_stmt flt (one_row (find (\<lambda>i. ui_provider i = p \<and> ui_subject i = s) (ad_identities d)))"

definition GetUserByIdentity :: "fault \<Rightarrow> auth_db \<Rightarrow> string \<Rightarrow> string \<Rightarrow> user_row result" where
  "GetUserByIdentity flt d p s =
     read_stmt flt
       (case find (\<lambda>i. ui_provider i = p \<and> ui_subject i = s) (ad_identities d) of
          None \<Rightarrow> Inl NoRows
        | Some i \<Rightarrow> one_row (find_user d (ui_user i)))"

text \<open>The primary key, \<open>UNIQUE (provider, subject)\<close> and the foreign key can each refuse an identity.\<close>

definition CreateIdentity ::
  "fault \<Rightarrow> int \<Rightarrow> uuid \<Rightarrow> uuid \<Rightarrow> string \<Rightarrow> string \<Rightarrow> string option \<Rightarrow> auth_db \<Rightarrow>
   identity_row result \<times> auth_db" where
  "CreateIdentity flt now iid u p s email d =
     run_stmt flt d
       (if list_ex (\<lambda>i. ui_id i = iid \<or> ui_provider i = p \<and> ui_subject i = s) (ad_identities d)
        then (Inl UniqueViolation, d)
        else if \<not> has_user d u then (Inl (OtherError ''foreign key violation''), d)
        else let row = \<lparr>ui_id = iid, ui_user = u, ui_provider = p, ui_subject = s, ui_email = email,
                        ui_created = now, ui_updated = now\<rparr>
             in (Inr row, d\<lparr>ad_identities := ad_identities d @ [row]\<rparr>))"

text \<open>The account and its first identity are one statement, so a violation of either insert undoes both.\<close>

definition CreateUserWithIdentity ::
  "fault \<Rightarrow> int \<Rightarrow> uuid \<Rightarrow> uuid \<Rightarrow> string option \<Rightarrow> string option \<Rightarrow> string \<Rightarrow> string \<Rightarrow> auth_db \<Rightarrow>
   user_row result \<times> auth_db" where
  "CreateUserWithIdentity flt now nid iid display email p s d =
     run_stmt flt d
       (if has_user d nid \<or>
           list_ex (\<lambda>i. ui_id i = iid \<or> ui_provider i = p \<and> ui_subject i = s) (ad_identities d)
        then (Inl UniqueViolation, d)
        else let user = \<lparr>us_id = nid, us_role = ''viewer'', us_created = now, us_updated = now,
                         us_email = email, us_display = display\<rparr>;
                 row = \<lparr>ui_id = iid, ui_user = nid, ui_provider = p, ui_subject = s, ui_email = email,
                        ui_created = now, ui_updated = now\<rparr>
             in (Inr user, d\<lparr>ad_users := ad_users d @ [user], ad_identities := ad_identities d @ [row]\<rparr>))"

definition DeleteIdentity :: "fault \<Rightarrow> uuid \<Rightarrow> uuid \<Rightarrow> auth_db \<Rightarrow> int result \<times> auth_db" where
  "DeleteIdentity flt iid u d =
     run_stmt flt d
       (Inr (count_where (\<lambda>i. ui_id i = iid \<and> ui_user i = u) (ad_identities d)),
        d\<lparr>ad_identities := filter (\<lambda>i. \<not> (ui_id i = iid \<and> ui_user i = u)) (ad_identities d)\<rparr>)"

definition UpsertIdentityEmail ::
  "fault \<Rightarrow> int \<Rightarrow> string \<Rightarrow> string \<Rightarrow> string \<Rightarrow> auth_db \<Rightarrow> unit result \<times> auth_db" where
  "UpsertIdentityEmail flt now email p s d =
     run_stmt flt d
       (Inr (), d\<lparr>ad_identities := update_where (\<lambda>i. ui_provider i = p \<and> ui_subject i = s)
          (\<lambda>i. i\<lparr>ui_email := coalesce_opt (nullif_empty email) (ui_email i), ui_updated := now\<rparr>)
          (ad_identities d)\<rparr>)"

definition identity_order :: "identity_row \<Rightarrow> identity_row \<Rightarrow> int" where
  "identity_order = then_cmp (on_key int_cmp ui_created) (on_key uuid_cmp ui_id)"

definition ListIdentitiesByUser :: "fault \<Rightarrow> auth_db \<Rightarrow> uuid \<Rightarrow> identity_row list result" where
  "ListIdentitiesByUser flt d u =
     read_stmt flt (Inr (sort_by identity_order (filter (\<lambda>i. ui_user i = u) (ad_identities d))))"

section \<open>Accounts\<close>

definition GetUserByID :: "fault \<Rightarrow> auth_db \<Rightarrow> uuid \<Rightarrow> user_row result" where
  "GetUserByID flt d u = read_stmt flt (one_row (find_user d u))"

definition ListUserRows :: "fault \<Rightarrow> auth_db \<Rightarrow> user_row list result" where
  "ListUserRows flt d = read_stmt flt (Inr (sort_by (on_key int_cmp us_created) (ad_users d)))"

definition update_user ::
  "fault \<Rightarrow> uuid \<Rightarrow> (user_row \<Rightarrow> user_row) \<Rightarrow> auth_db \<Rightarrow> user_row result \<times> auth_db" where
  "update_user flt u f d =
     run_stmt flt d
       (one_row (map_option f (find_user d u)),
        d\<lparr>ad_users := update_where (\<lambda>r. us_id r = u) f (ad_users d)\<rparr>)"

definition TouchUserProfile ::
  "fault \<Rightarrow> int \<Rightarrow> string \<Rightarrow> string \<Rightarrow> uuid \<Rightarrow> auth_db \<Rightarrow> user_row result \<times> auth_db" where
  "TouchUserProfile flt now display email u d =
     update_user flt u
       (\<lambda>r. r\<lparr>us_display := coalesce_opt (nullif_empty display) (us_display r),
              us_email := coalesce_opt (nullif_empty email) (us_email r), us_updated := now\<rparr>) d"

text \<open>\<open>CHECK (role IN ('admin', 'member', 'viewer'))\<close>.\<close>

definition UpdateUserRoleRow ::
  "fault \<Rightarrow> int \<Rightarrow> uuid \<Rightarrow> string \<Rightarrow> auth_db \<Rightarrow> user_row result \<times> auth_db" where
  "UpdateUserRoleRow flt now u role d =
     (if has_user d u \<and> \<not> List.member [''admin'', ''member'', ''viewer''] role
      then run_stmt flt d (Inl (OtherError ''check violation''), d)
      else update_user flt u (\<lambda>r. r\<lparr>us_role := role, us_updated := now\<rparr>) d)"

section \<open>Sessions\<close>

definition CreateSessionRow ::
  "fault \<Rightarrow> int \<Rightarrow> uuid \<Rightarrow> uuid \<Rightarrow> string \<Rightarrow> int \<Rightarrow> auth_db \<Rightarrow> session_row result \<times> auth_db" where
  "CreateSessionRow flt now sid u hash expires d =
     run_stmt flt d
       (if list_ex (\<lambda>s. se_id s = sid \<or> se_hash s = hash) (ad_sessions d) then (Inl UniqueViolation, d)
        else if \<not> has_user d u then (Inl (OtherError ''foreign key violation''), d)
        else let row = \<lparr>se_id = sid, se_user = u, se_hash = hash, se_expires = expires, se_created = now\<rparr>
             in (Inr row, d\<lparr>ad_sessions := ad_sessions d @ [row]\<rparr>))"

definition GetSessionByTokenHash ::
  "fault \<Rightarrow> int \<Rightarrow> auth_db \<Rightarrow> string \<Rightarrow> (session_row \<times> user_row) result" where
  "GetSessionByTokenHash flt now d hash =
     read_stmt flt
       (case find (\<lambda>s. se_hash s = hash \<and> se_expires s > now) (ad_sessions d) of
          None \<Rightarrow> Inl NoRows
        | Some s \<Rightarrow> one_row (map_option (Pair s) (find_user d (se_user s))))"

definition DeleteSessionRow :: "fault \<Rightarrow> string \<Rightarrow> auth_db \<Rightarrow> unit result \<times> auth_db" where
  "DeleteSessionRow flt hash d =
     run_stmt flt d (Inr (), d\<lparr>ad_sessions := filter (\<lambda>s. se_hash s \<noteq> hash) (ad_sessions d)\<rparr>)"

definition DeleteExpiredSessions :: "fault \<Rightarrow> int \<Rightarrow> auth_db \<Rightarrow> unit result \<times> auth_db" where
  "DeleteExpiredSessions flt now d =
     run_stmt flt d (Inr (), d\<lparr>ad_sessions := filter (\<lambda>s. \<not> se_expires s \<le> now) (ad_sessions d)\<rparr>)"

section \<open>API keys\<close>

text \<open>\<open>CHECK (capabilities <@ ARRAY[...])\<close> of migration 00068 lists the ten capabilities.\<close>

definition CreateAPIKeyRow ::
  "fault \<Rightarrow> int \<Rightarrow> uuid \<Rightarrow> uuid \<Rightarrow> string \<Rightarrow> string \<Rightarrow> string \<Rightarrow> string list \<Rightarrow> auth_db \<Rightarrow>
   key_row result \<times> auth_db" where
  "CreateAPIKeyRow flt now kid u name hash prefix caps d =
     run_stmt flt d
       (if \<not> list_all (List.member allCapabilities) caps then (Inl (OtherError ''check violation''), d)
        else if list_ex (\<lambda>k. ky_id k = kid \<or> ky_hash k = hash) (ad_keys d) then (Inl UniqueViolation, d)
        else if \<not> has_user d u then (Inl (OtherError ''foreign key violation''), d)
        else let row = \<lparr>ky_id = kid, ky_user = u, ky_name = name, ky_hash = hash, ky_prefix = prefix,
                        ky_created = now, ky_last_used = None, ky_caps = caps\<rparr>
             in (Inr row, d\<lparr>ad_keys := ad_keys d @ [row]\<rparr>))"

definition GetAPIKeyByHash :: "fault \<Rightarrow> auth_db \<Rightarrow> string \<Rightarrow> (key_row \<times> user_row) result" where
  "GetAPIKeyByHash flt d hash =
     read_stmt flt
       (case find (\<lambda>k. ky_hash k = hash) (ad_keys d) of
          None \<Rightarrow> Inl NoRows
        | Some k \<Rightarrow> one_row (map_option (Pair k) (find_user d (ky_user k))))"

definition TouchAPIKeyLastUsed :: "fault \<Rightarrow> int \<Rightarrow> uuid \<Rightarrow> auth_db \<Rightarrow> unit result \<times> auth_db" where
  "TouchAPIKeyLastUsed flt now kid d =
     run_stmt flt d
       (Inr (), d\<lparr>ad_keys := update_where (\<lambda>k. ky_id k = kid) (\<lambda>k. k\<lparr>ky_last_used := Some now\<rparr>) (ad_keys d)\<rparr>)"

definition ListAPIKeysByUser :: "fault \<Rightarrow> auth_db \<Rightarrow> uuid \<Rightarrow> key_row list result" where
  "ListAPIKeysByUser flt d u =
     read_stmt flt (Inr (sort_by (on_key int_cmp ky_created) (filter (\<lambda>k. ky_user k = u) (ad_keys d))))"

definition DeleteAPIKeyRow :: "fault \<Rightarrow> uuid \<Rightarrow> uuid \<Rightarrow> auth_db \<Rightarrow> int result \<times> auth_db" where
  "DeleteAPIKeyRow flt kid u d =
     run_stmt flt d
       (Inr (count_where (\<lambda>k. ky_id k = kid \<and> ky_user k = u) (ad_keys d)),
        d\<lparr>ad_keys := filter (\<lambda>k. \<not> (ky_id k = kid \<and> ky_user k = u)) (ad_keys d)\<rparr>)"

end
