(* ===== verification/GoCrypto.thy ===== *)
theory GoCrypto
  imports GoStrings "HOL-Library.Word"
begin

text \<open>
  What the code uses of Go's \<open>encoding/base64\<close>, \<open>encoding/hex\<close> and \<open>crypto/sha256\<close>: the unpadded
  URL alphabet of base64, lower-case hexadecimal and SHA-256 (FIPS 180-4), on byte strings.
\<close>

unbundle bit_operations_syntax

section \<open>base64.RawURLEncoding\<close>

definition url_char :: "nat \<Rightarrow> char" where
  "url_char n =
     (if n < 26 then char_of (65 + n)
      else if n < 52 then char_of (71 + n)
      else if n < 62 then char_of (n - 4)
      else if n = 62 then CHR ''-'' else CHR ''_'')"

fun RawURLEncoding :: "string \<Rightarrow> string" where
  "RawURLEncoding [] = []"
| "RawURLEncoding [a] =
     [url_char (byte_of a div 4), url_char (byte_of a mod 4 * 16)]"
| "RawURLEncoding [a, b] =
     [url_char (byte_of a div 4), url_char (byte_of a mod 4 * 16 + byte_of b div 16),
      url_char (byte_of b mod 16 * 4)]"
| "RawURLEncoding (a # b # c # rest) =
     [url_char (byte_of a div 4), url_char (byte_of a mod 4 * 16 + byte_of b div 16),
      url_char (byte_of b mod 16 * 4 + byte_of c div 64), url_char (byte_of c mod 64)] @
     RawURLEncoding rest"

lemma url_char_code:
  "n < 64 \<Longrightarrow> byte_of (url_char n) =
     (if n < 26 then 65 + n else if n < 52 then 71 + n else if n < 62 then n - 4
      else if n = 62 then 45 else 95)"
  by (auto simp: url_char_def of_char_of)

lemma url_char_inj: "m < 64 \<Longrightarrow> n < 64 \<Longrightarrow> url_char m = url_char n \<Longrightarrow> m = n"
proof -
  assume b: "m < 64" "n < 64" and eq: "url_char m = url_char n"
  from eq have "byte_of (url_char m) = byte_of (url_char n)" by simp
  with b show "m = n" by (auto simp: url_char_code split: if_splits)
qed

lemma byte_eqI: "byte_of a = byte_of b \<Longrightarrow> a = b"
  by simp

lemma sextets:
  fixes a b c :: nat
  assumes "a < 256" "b < 256" "c < 256"
  shows "a div 4 < 64" "a mod 4 * 16 + b div 16 < 64" "b mod 16 * 4 + c div 64 < 64" "c mod 64 < 64"
    "a mod 4 * 16 < 64" "b mod 16 * 4 < 64"
  using assms by (simp_all add: div_less_iff_less_mult; linarith?)+

lemma length_RawURLEncoding:
  "length (RawURLEncoding s) = (4 * length s + 2) div 3"
  by (induction s rule: RawURLEncoding.induct) auto

lemma pack_inj:
  fixes q x :: nat
  assumes "q * m + x = q' * m + x'" "x < m" "x' < m"
  shows "q = q'" "x = x'"
proof -
  from assms have "(q * m + x) div m = (q' * m + x') div m" "(q * m + x) mod m = (q' * m + x') mod m"
    by simp_all
  with assms(2,3) show "q = q'" "x = x'" by simp_all
qed

lemma split_eq: "(a::nat) div m = b div m \<Longrightarrow> a mod m = b mod m \<Longrightarrow> a = b"
  by (metis div_mult_mod_eq)

lemma byte_div: "byte_of c div 16 < 16" "byte_of c div 64 < 4"
  using byte_bound [of c] by (simp_all add: div_less_iff_less_mult)

lemma sextet_inj:
  assumes "url_char (byte_of a mod 4 * 16 + byte_of b div 16) =
           url_char (byte_of x mod 4 * 16 + byte_of y div 16)"
  shows "byte_of a mod 4 = byte_of x mod 4" "byte_of b div 16 = byte_of y div 16"
proof -
  have "byte_of a mod 4 * 16 + byte_of b div 16 = byte_of x mod 4 * 16 + byte_of y div 16"
    using assms by (rule url_char_inj [rotated 2]) (rule sextets [OF byte_bound byte_bound byte_bound])+
  then show "byte_of a mod 4 = byte_of x mod 4" "byte_of b div 16 = byte_of y div 16"
    using pack_inj [OF _ byte_div(1) byte_div(1)] by blast+
qed

lemma sextet_inj':
  assumes "url_char (byte_of b mod 16 * 4 + byte_of c div 64) =
           url_char (byte_of y mod 16 * 4 + byte_of z div 64)"
  shows "byte_of b mod 16 = byte_of y mod 16" "byte_of c div 64 = byte_of z div 64"
proof -
  have "byte_of b mod 16 * 4 + byte_of c div 64 = byte_of y mod 16 * 4 + byte_of z div 64"
    using assms by (rule url_char_inj [rotated 2]) (rule sextets [OF byte_bound byte_bound byte_bound])+
  then show "byte_of b mod 16 = byte_of y mod 16" "byte_of c div 64 = byte_of z div 64"
    using pack_inj [OF _ byte_div(2) byte_div(2)] by blast+
qed

lemma sextet_first: "url_char (byte_of a div 4) = url_char (byte_of x div 4) \<Longrightarrow> byte_of a div 4 = byte_of x div 4"
  by (rule url_char_inj [rotated 2]) (assumption | rule sextets [OF byte_bound byte_bound byte_bound])+

lemma sextet_last: "url_char (byte_of c mod 64) = url_char (byte_of z mod 64) \<Longrightarrow> byte_of c mod 64 = byte_of z mod 64"
  by (rule url_char_inj [rotated 2]) simp_all

lemma byte_eq_parts:
  "byte_of a div m = byte_of x div m \<Longrightarrow> byte_of a mod m = byte_of x mod m \<Longrightarrow> a = x"
  by (drule (1) split_eq) simp

lemma RawURLEncoding_inj: "length s = length t \<Longrightarrow> RawURLEncoding s = RawURLEncoding t \<Longrightarrow> s = t"
proof (induction s arbitrary: t rule: RawURLEncoding.induct)
  case (4 a b c rest)
  then obtain x y z r where t: "t = x # y # z # r"
    by (metis length_Suc_conv)
  from 4 t have eqs: "url_char (byte_of a div 4) = url_char (byte_of x div 4)"
    "url_char (byte_of a mod 4 * 16 + byte_of b div 16) = url_char (byte_of x mod 4 * 16 + byte_of y div 16)"
    "url_char (byte_of b mod 16 * 4 + byte_of c div 64) = url_char (byte_of y mod 16 * 4 + byte_of z div 64)"
    "url_char (byte_of c mod 64) = url_char (byte_of z mod 64)" and r: "rest = r"
    by simp_all
  note p = sextet_first [OF eqs(1)] sextet_inj [OF eqs(2)] sextet_inj' [OF eqs(3)] sextet_last [OF eqs(4)]
  have "a = x" "b = y" "c = z"
    by (rule byte_eq_parts [OF p(1,2)] byte_eq_parts [OF p(3,4)] byte_eq_parts [OF p(5,6)])+
  with r t show ?case by simp
next
  case (2 a)
  then obtain x where t: "t = [x]" by (cases t) auto
  from 2 t have eqs: "url_char (byte_of a div 4) = url_char (byte_of x div 4)"
    "url_char (byte_of a mod 4 * 16) = url_char (byte_of x mod 4 * 16)" by simp_all
  have "byte_of a mod 4 * 16 = byte_of x mod 4 * 16"
    by (rule url_char_inj [OF _ _ eqs(2)]) (rule sextets [OF byte_bound byte_bound byte_bound])+
  then have "a = x" using byte_eq_parts [OF sextet_first [OF eqs(1)]] by simp
  with t show ?case by simp
next
  case (3 a b)
  then obtain x y where t: "t = [x, y]" by (cases t; cases "tl t") auto
  from 3 t have eqs: "url_char (byte_of a div 4) = url_char (byte_of x div 4)"
    "url_char (byte_of a mod 4 * 16 + byte_of b div 16) = url_char (byte_of x mod 4 * 16 + byte_of y div 16)"
    "url_char (byte_of b mod 16 * 4) = url_char (byte_of y mod 16 * 4)" by simp_all
  note p = sextet_first [OF eqs(1)] sextet_inj [OF eqs(2)]
  have "byte_of b mod 16 * 4 = byte_of y mod 16 * 4"
    by (rule url_char_inj [OF _ _ eqs(3)]) (rule sextets [OF byte_bound byte_bound byte_bound])+
  then have "b = y" using byte_eq_parts [OF p(3)] by simp
  moreover have "a = x" by (rule byte_eq_parts [OF p(1,2)])
  ultimately show ?case using t by simp
qed simp

section \<open>encoding/hex\<close>

fun hex_nibble :: "nat \<Rightarrow> char" where
  "hex_nibble n = (if n < 10 then char_of (48 + n) else char_of (87 + n))"

fun EncodeToString :: "string \<Rightarrow> string" where
  "EncodeToString [] = []"
| "EncodeToString (c # cs) = hex_nibble (byte_of c div 16) # hex_nibble (byte_of c mod 16) # EncodeToString cs"

section \<open>SHA-256\<close>

type_synonym w32 = "32 word"

text \<open>The round constants are the first 32 bits of the fractional parts of the cube roots of the first 64
  primes, and the initial state those of the square roots of the first eight; \<open>root_bits e k n r\<close> settles the
  lower \<open>k\<close> bits of the integer root of exponent \<open>e\<close>.\<close>

fun root_bits :: "nat \<Rightarrow> nat \<Rightarrow> nat \<Rightarrow> nat \<Rightarrow> nat" where
  "root_bits e 0 n r = r"
| "root_bits e (Suc k) n r = root_bits e k n (if (r + 2 ^ k) ^ e \<le> n then r + 2 ^ k else r)"

definition small_primes :: "nat \<Rightarrow> nat list" where
  "small_primes b = filter (\<lambda>p. list_all (\<lambda>q. p mod q \<noteq> 0) [2..<p]) [2..<b]"

definition sha_k :: "w32 list" where
  "sha_k = map (\<lambda>p. word_of_nat (root_bits 3 36 (p * 2 ^ 96) 0)) (small_primes 312)"

definition sha_init :: "w32 list" where
  "sha_init = map (\<lambda>p. word_of_nat (root_bits 2 36 (p * 2 ^ 64) 0)) (small_primes 20)"

definition byte_string :: "nat list \<Rightarrow> string" where
  "byte_string = map char_of"

definition be_bytes :: "nat \<Rightarrow> nat \<Rightarrow> nat list" where
  "be_bytes k n = map (\<lambda>i. n div 256 ^ (k - 1 - i) mod 256) [0..<k]"

definition be_word :: "nat list \<Rightarrow> w32" where
  "be_word bs = fold (\<lambda>b w. w * 256 + of_nat b) bs 0"

text \<open>The padded message in bytes: a one bit, zeros, and the length in bits as eight bytes.\<close>

definition sha_pad :: "string \<Rightarrow> nat list" where
  "sha_pad s =
     (let n = length s; z = (119 - n mod 64) mod 64
      in map byte_of s @ [128] @ replicate z 0 @ be_bytes 8 (8 * n mod 2 ^ 64))"

fun chunks :: "nat \<Rightarrow> nat \<Rightarrow> 'a list \<Rightarrow> 'a list list" where
  "chunks 0 k xs = []"
| "chunks (Suc n) k xs = take k xs # chunks n k (drop k xs)"

definition sha_small :: "nat \<Rightarrow> nat \<Rightarrow> nat \<Rightarrow> w32 \<Rightarrow> w32" where
  "sha_small a b c x = xor (xor (word_rotr a x) (word_rotr b x)) (drop_bit c x)"

definition sha_big :: "nat \<Rightarrow> nat \<Rightarrow> nat \<Rightarrow> w32 \<Rightarrow> w32" where
  "sha_big a b c x = xor (xor (word_rotr a x) (word_rotr b x)) (word_rotr c x)"

fun sha_schedule :: "nat \<Rightarrow> w32 list \<Rightarrow> w32 list" where
  "sha_schedule 0 w = w"
| "sha_schedule (Suc n) w =
     (let t = length w
      in sha_schedule n (w @ [sha_small 17 19 10 (w ! (t - 2)) + w ! (t - 7) +
                              sha_small 7 18 3 (w ! (t - 15)) + w ! (t - 16)]))"

fun sha_round :: "w32 \<times> w32 \<Rightarrow> w32 list \<Rightarrow> w32 list" where
  "sha_round (k, w) [a, b, c, d, e, f, g, h] =
     (let t1 = h + sha_big 6 11 25 e + (xor (and e f) (and (not e) g)) + k + w;
          t2 = sha_big 2 13 22 a + (xor (xor (and a b) (and a c)) (and b c))
      in [t1 + t2, a, b, c, d + t1, e, f, g])"
| "sha_round kw s = s"

definition sha_block :: "nat list \<Rightarrow> w32 list \<Rightarrow> w32 list" where
  "sha_block blk st =
     map2 (+) st (fold sha_round (zip sha_k (sha_schedule 48 (map be_word (chunks 16 4 blk)))) st)"

definition Sum256 :: "string \<Rightarrow> string" where
  "Sum256 s =
     (let p = sha_pad s
      in byte_string (concat (map (\<lambda>w. be_bytes 4 (unat w))
           (fold sha_block (chunks (length p div 64) 64 p) sha_init))))"

end
