(* ===== verification/AuthService.thy ===== *)
theory AuthService
  imports AuthTables GoCrypto
begin

text \<open>
  The sign-in service of \<^verbatim>\<open>internal/service/auth.go\<close> with the identity providers of \<^verbatim>\<open>internal/auth\<close> and
  \<open>ParseIdentityRefs\<close> of \<^verbatim>\<open>internal/config\<close>. An operation makes its calls one after another; call \<open>k\<close> meets
  the failure \<open>flt k\<close> and finds what \<open>others k\<close> has done to the tables since the previous one, so an
  operation is judged under any interleaving. What an issuer answers (the OAuth2 and OIDC libraries) is
  an argument, and so are the random bytes of a token. Times are nanoseconds.
\<close>

section \<open>Configuration and providers\<close>

record identity =
  id_provider :: string
  id_subject :: string
  id_email :: string
  id_display :: string

record provider =
  pv_name :: string
  pv_auth_url :: "string \<Rightarrow> string \<Rightarrow> string"
  pv_exchange :: "string \<Rightarrow> string \<Rightarrow> identity result"

record auth_config =
  cf_signup_mode :: string
  cf_bootstrap :: "(string \<times> string) list"
  cf_session_days :: int

definition ProviderGitHub :: string where "ProviderGitHub = ''github''"
definition ProviderOIDCPrefix :: string where "ProviderOIDCPrefix = ''oidc:''"
definition SignupExisting :: string where "SignupExisting = ''existing''"

definition firstNonEmpty :: "string list \<Rightarrow> string" where
  "firstNonEmpty vals = (case find (\<lambda>v. v \<noteq> []) vals of None \<Rightarrow> [] | Some v \<Rightarrow> v)"

text \<open>GitHub: \<open>redeem\<close> answers the numeric id, login and email of the user API, or the error of any of
  the three requests.\<close>

definition GitHub_Exchange ::
  "(string \<Rightarrow> (int \<times> string \<times> string) result) \<Rightarrow> string \<Rightarrow> string \<Rightarrow> identity result" where
  "GitHub_Exchange redeem code verifier =
     bind_result (redeem code) (\<lambda>(gid, login, email).
       Inr \<lparr>id_provider = ProviderGitHub, id_subject = FormatInt gid, id_email = email, id_display = login\<rparr>)"

text \<open>OIDC: \<open>redeem\<close> answers the raw ID token of the code and verifier and \<open>claims\<close> the verified claims
  (subject, email, name, preferred user name).\<close>

definition OIDC_Exchange ::
  "string \<Rightarrow> (string \<Rightarrow> string \<Rightarrow> string result) \<Rightarrow> (string \<Rightarrow> (string \<times> string \<times> string \<times> string) result) \<Rightarrow>
   string \<Rightarrow> string \<Rightarrow> identity result" where
  "OIDC_Exchange name redeem claims code verifier =
     (if verifier = [] then Inl (OtherError ''missing PKCE verifier'')
      else case redeem code verifier of
        Inl e \<Rightarrow> Inl (Wrapped ''exchanging code'' e)
      | Inr raw \<Rightarrow>
          if raw = [] then Inl (OtherError ''token response carried no id_token'')
          else (case claims raw of
             Inl e \<Rightarrow> Inl (Wrapped ''verifying id_token'' e)
           | Inr (sub, email, nm, preferred) \<Rightarrow>
               (let subject = trim_space sub in
                if subject = [] then Inl (OtherError ''id_token carried no sub claim'')
                else Inr \<lparr>id_provider = name, id_subject = subject, id_email = email,
                          id_display = firstNonEmpty [nm, preferred, email]\<rparr>)))"

definition withOpenID :: "string list \<Rightarrow> string list" where
  "withOpenID scopes =
     (if list_ex (\<lambda>s. s = ''openid'') scopes then scopes else ''openid'' # scopes)"

text \<open>\<open>BOOTSTRAP_ADMINS\<close>: entries separated by commas.\<close>

definition parse_identity_ref :: "string \<Rightarrow> (string \<times> string) result" where
  "parse_identity_ref entry =
     (let (head, rest, ok) = cut (CHR '':'') entry in
      if \<not> ok then Inl (OtherError (entry @ '': want github:<subject> or oidc:<name>:<subject>''))
      else bind_result
        (if head = ''github'' then Inr (ProviderGitHub, rest)
         else if head = ''oidc'' then
           (let (name, subject, ok2) = cut (CHR '':'') rest in
            if \<not> ok2 \<or> name = [] then Inl (OtherError (entry @ '': want oidc:<name>:<subject>''))
            else Inr (''oidc:'' @ name, subject))
         else Inl (OtherError (entry @ '': unknown provider '' @ head)))
        (\<lambda>(p, s). if s = [] then Inl (OtherError (entry @ '': subject is empty'')) else Inr (p, s)))"

fun parse_identity_refs :: "string list \<Rightarrow> (string \<times> string) list result" where
  "parse_identity_refs [] = Inr []"
| "parse_identity_refs (e # es) =
     (let entry = trim_space e in
      if entry = [] then parse_identity_refs es
      else bind_result (parse_identity_ref entry)
             (\<lambda>r. bind_result (parse_identity_refs es) (\<lambda>rs. Inr (r # rs))))"

definition ParseIdentityRefs :: "string \<Rightarrow> (string \<times> string) list result" where
  "ParseIdentityRefs raw = parse_identity_refs (split_on (CHR '','') raw)"

text \<open>\<open>NewAuthService\<close> keys the providers by name; a later one of the same name replaces an earlier one.\<close>

definition NewAuthService :: "provider list \<Rightarrow> string \<Rightarrow> provider option" where
  "NewAuthService ps = map_of (rev (map (\<lambda>p. (pv_name p, p)) ps))"

definition ProviderNames :: "provider list \<Rightarrow> string list" where
  "ProviderNames ps = sort_by str_cmp (remdups (map pv_name ps))"

definition unknown_provider :: "string \<Rightarrow> go_error" where
  "unknown_provider p = ValidationError (''unknown identity provider '' @ p)"

definition BuildAuthURL :: "(string \<Rightarrow> provider option) \<Rightarrow> string \<Rightarrow> string \<Rightarrow> string \<Rightarrow> string result" where
  "BuildAuthURL pvs p state verifier =
     (case pvs p of None \<Rightarrow> Inl (unknown_provider p) | Some pv \<Rightarrow> Inr (pv_auth_url pv state verifier))"

section \<open>Signing in\<close>

definition auth_displayName :: "string option \<Rightarrow> string" where
  "auth_displayName v = coalesce v"

definition auth_user_of :: "user_row \<Rightarrow> auth_user" where
  "auth_user_of r = \<lparr>au_id = Some (us_id r), au_display = auth_displayName (us_display r), au_role = us_role r,
     au_api_key_auth = False, au_api_key_caps = [], au_grants = Map.empty\<rparr>"

definition signupOpen :: "auth_config option \<Rightarrow> bool" where
  "signupOpen cfg = (case cfg of None \<Rightarrow> True | Some c \<Rightarrow> cf_signup_mode c \<noteq> SignupExisting)"

definition isBootstrapAdmin :: "auth_config option \<Rightarrow> identity \<Rightarrow> bool" where
  "isBootstrapAdmin cfg i =
     (case cfg of None \<Rightarrow> False
      | Some c \<Rightarrow> list_ex (\<lambda>(p, s). p = id_provider i \<and> s = id_subject i) (cf_bootstrap c))"

text \<open>What happens around the calls of one request: their failures and the other requests.\<close>

record request_env =
  re_flt :: "nat \<Rightarrow> fault"
  re_others :: "nat \<Rightarrow> auth_db \<Rightarrow> auth_db"
  re_now :: int
  re_uuid1 :: uuid
  re_uuid2 :: uuid

definition resolve_known :: "request_env \<Rightarrow> identity \<Rightarrow> user_row \<Rightarrow> auth_db \<Rightarrow> auth_user result \<times> auth_db" where
  "resolve_known env i u d =
     (case UpsertIdentityEmail (re_flt env 1) (re_now env) (id_email i) (id_provider i) (id_subject i)
             (re_others env 1 d) of
        (Inl e, d1) \<Rightarrow> (Inl (Wrapped ''updating identity email'' e), d1)
      | (Inr _, d1) \<Rightarrow>
          (case TouchUserProfile (re_flt env 2) (re_now env) (id_display i) (id_email i) (us_id u)
                  (re_others env 2 d1) of
             (Inl e, d2) \<Rightarrow> (Inl (Wrapped ''updating user profile'' e), d2)
           | (Inr r, d2) \<Rightarrow> (Inr (auth_user_of r), d2)))"

definition resolve_new :: "request_env \<Rightarrow> identity \<Rightarrow> auth_db \<Rightarrow> auth_user result \<times> auth_db" where
  "resolve_new env i d =
     (case CreateUserWithIdentity (re_flt env 1) (re_now env) (re_uuid1 env) (re_uuid2 env)
             (nullif_empty (id_display i)) (nullif_empty (id_email i)) (id_provider i) (id_subject i)
             (re_others env 1 d) of
        (Inr r, d1) \<Rightarrow> (Inr (auth_user_of r), d1)
      | (Inl create_err, d1) \<Rightarrow>
          (let d2 = re_others env 2 d1 in
           case GetUserByIdentity (re_flt env 2) d2 (id_provider i) (id_subject i) of
             Inl e \<Rightarrow> (Inl (Wrapped ''creating user'' create_err), d2)
           | Inr r \<Rightarrow> (Inr (auth_user_of r), d2)))"

definition resolveIdentity ::
  "auth_config option \<Rightarrow> request_env \<Rightarrow> identity \<Rightarrow> auth_db \<Rightarrow> auth_user result \<times> auth_db" where
  "resolveIdentity cfg env i d =
     (let d0 = re_others env 0 d in
      case GetUserByIdentity (re_flt env 0) d0 (id_provider i) (id_subject i) of
        Inr u \<Rightarrow> resolve_known env i u d0
      | Inl e \<Rightarrow>
          if errors_is e NoRows then
            if \<not> signupOpen cfg \<and> \<not> isBootstrapAdmin cfg i then (Inl ErrSignupClosed, d0)
            else resolve_new env i d0
          else (Inl (Wrapped ''looking up identity'' e), d0))"

definition promoteBootstrapAdmin ::
  "auth_config option \<Rightarrow> request_env \<Rightarrow> identity \<Rightarrow> auth_user \<Rightarrow> auth_db \<Rightarrow> auth_user result \<times> auth_db" where
  "promoteBootstrapAdmin cfg env i u d =
     (if au_role u = roleAdmin \<or> \<not> isBootstrapAdmin cfg i then (Inr u, d)
      else case au_id u of
        None \<Rightarrow> (Inl (Wrapped ''promoting bootstrap admin'' NoRows), d)
      | Some uid \<Rightarrow>
          (case UpdateUserRoleRow (re_flt env 3) (re_now env) uid roleAdmin (re_others env 3 d) of
             (Inl e, d1) \<Rightarrow> (Inl (Wrapped ''promoting bootstrap admin'' e), d1)
           | (Inr row, d1) \<Rightarrow> (Inr (u\<lparr>au_role := us_role row\<rparr>), d1)))"

definition redeem_code ::
  "(string \<Rightarrow> provider option) \<Rightarrow> string \<Rightarrow> string \<Rightarrow> string \<Rightarrow> identity result" where
  "redeem_code pvs p code verifier =
     (case pvs p of
        None \<Rightarrow> Inl (unknown_provider p)
      | Some pv \<Rightarrow>
          (case pv_exchange pv code verifier of
             Inl e \<Rightarrow> Inl (Wrapped (''exchanging code with '' @ p) e)
           | Inr i \<Rightarrow> if id_subject i = []
                      then Inl (OtherError (p @ '' returned an identity with no subject'')) else Inr i))"

definition ExchangeCodeForUser ::
  "auth_config option \<Rightarrow> (string \<Rightarrow> provider option) \<Rightarrow> request_env \<Rightarrow> string \<Rightarrow> string \<Rightarrow> string \<Rightarrow>
   auth_db \<Rightarrow> auth_user result \<times> auth_db" where
  "ExchangeCodeForUser cfg pvs env p code verifier d =
     (case redeem_code pvs p code verifier of
        Inl e \<Rightarrow> (Inl e, d)
      | Inr i \<Rightarrow>
          (case resolveIdentity cfg env i d of
             (Inl e, d1) \<Rightarrow> (Inl e, d1)
           | (Inr u, d1) \<Rightarrow> promoteBootstrapAdmin cfg env i u d1))"

section \<open>Linked identities\<close>

record linked_identity =
  li_id :: uuid
  li_provider :: string
  li_subject :: string
  li_email :: string
  li_created :: int

definition identityFromRow :: "identity_row \<Rightarrow> linked_identity" where
  "identityFromRow r = \<lparr>li_id = ui_id r, li_provider = ui_provider r, li_subject = ui_subject r,
     li_email = coalesce (ui_email r), li_created = ui_created r\<rparr>"

definition ListIdentities :: "fault \<Rightarrow> auth_db \<Rightarrow> uuid \<Rightarrow> linked_identity list result" where
  "ListIdentities flt d u =
     (case ListIdentitiesByUser flt d u of
        Inl e \<Rightarrow> Inl (Wrapped ''listing identities'' e)
      | Inr rows \<Rightarrow> Inr (map identityFromRow rows))"

definition LinkIdentity ::
  "(string \<Rightarrow> provider option) \<Rightarrow> request_env \<Rightarrow> uuid \<Rightarrow> string \<Rightarrow> string \<Rightarrow> string \<Rightarrow> auth_db \<Rightarrow>
   linked_identity result \<times> auth_db" where
  "LinkIdentity pvs env u p code verifier d =
     (case redeem_code pvs p code verifier of
        Inl e \<Rightarrow> (Inl e, d)
      | Inr i \<Rightarrow>
          (let d0 = re_others env 0 d;
               elsewhere = Inl (Wrapped (''identity '' @ id_provider i @ '' is linked elsewhere'') ErrConflict)
           in case GetIdentity (re_flt env 0) d0 (id_provider i) (id_subject i) of
             Inr existing \<Rightarrow> if ui_user existing = u then (Inr (identityFromRow existing), d0) else (elsewhere, d0)
           | Inl e \<Rightarrow>
               if \<not> errors_is e NoRows then (Inl (Wrapped ''looking up identity'' e), d0)
               else (case CreateIdentity (re_flt env 1) (re_now env) (re_uuid1 env) u (id_provider i)
                            (id_subject i) (nullif_empty (id_email i)) (re_others env 1 d0) of
                       (Inl ce, d1) \<Rightarrow> if isUniqueViolation ce then (elsewhere, d1)
                                      else (Inl (Wrapped ''linking identity'' ce), d1)
                     | (Inr row, d1) \<Rightarrow> (Inr (identityFromRow row), d1))))"

definition UnlinkIdentity ::
  "request_env \<Rightarrow> uuid \<Rightarrow> uuid \<Rightarrow> auth_db \<Rightarrow> unit result \<times> auth_db" where
  "UnlinkIdentity env u iid d =
     (let d0 = re_others env 0 d in
      case CountIdentitiesByUser (re_flt env 0) d0 u of
        Inl e \<Rightarrow> (Inl (Wrapped ''counting identities'' e), d0)
      | Inr n \<Rightarrow>
          if n \<le> 1 then (Inl (Wrapped ''last identity on the account'' ErrConflict), d0)
          else (case DeleteIdentity (re_flt env 1) iid u (re_others env 1 d0) of
                  (Inl e, d1) \<Rightarrow> (Inl (Wrapped ''unlinking identity'' e), d1)
                | (Inr rows, d1) \<Rightarrow>
                    if rows = 0 then (Inl (Wrapped ''identity'' ErrNotFound), d1) else (Inr (), d1)))"

section \<open>Sessions\<close>

definition sha256hex :: "string \<Rightarrow> string" where
  "sha256hex s = EncodeToString (Sum256 s)"

text \<open>\<open>time.Duration(days) * 24 * time.Hour\<close> is a product of 64-bit integers.\<close>

definition session_duration :: "int \<Rightarrow> int" where
  "session_duration days = sint ((word_of_int days :: 64 word) * 24 * 3600000000000)"

definition Auth_CreateSession ::
  "auth_config \<Rightarrow> fault \<Rightarrow> int \<Rightarrow> uuid \<Rightarrow> string \<Rightarrow> uuid \<Rightarrow> auth_db \<Rightarrow> string result \<times> auth_db" where
  "Auth_CreateSession cfg flt now sid raw u d =
     (let plaintext = RawURLEncoding raw;
          expiry = now + session_duration (cf_session_days cfg)
      in case CreateSessionRow flt now sid u (sha256hex plaintext) expiry d of
           (Inl e, d1) \<Rightarrow> (Inl (Wrapped ''creating session'' e), d1)
         | (Inr row, d1) \<Rightarrow> (Inr plaintext, d1))"

definition ValidateSession :: "fault \<Rightarrow> int \<Rightarrow> auth_db \<Rightarrow> string \<Rightarrow> auth_user result" where
  "ValidateSession flt now d token =
     (case GetSessionByTokenHash flt now d (sha256hex token) of
        Inl e \<Rightarrow> Inl (Wrapped ''session not found'' e)
      | Inr (s, u) \<Rightarrow> Inr \<lparr>au_id = Some (se_user s), au_display = auth_displayName (us_display u), au_role = us_role u,
                          au_api_key_auth = False, au_api_key_caps = [], au_grants = Map.empty\<rparr>)"

text \<open>The third component is whom the logout event names, when one is published.\<close>

definition Auth_DeleteSession ::
  "fault \<Rightarrow> fault \<Rightarrow> int \<Rightarrow> string \<Rightarrow> auth_db \<Rightarrow> unit result \<times> auth_db \<times> uuid option" where
  "Auth_DeleteSession f1 f2 now token d =
     (let user = ValidateSession f1 now d token in
      case DeleteSessionRow f2 (sha256hex token) d of
        (Inl e, d1) \<Rightarrow> (Inl e, d1, None)
      | (Inr _, d1) \<Rightarrow> (Inr (), d1, case user of Inl e \<Rightarrow> None | Inr u \<Rightarrow> au_id u))"

definition CleanExpiredSessions :: "fault \<Rightarrow> int \<Rightarrow> auth_db \<Rightarrow> unit result \<times> auth_db" where
  "CleanExpiredSessions flt now d = DeleteExpiredSessions flt now d"

section \<open>API keys\<close>

record api_key_meta =
  km_id :: uuid
  km_name :: string
  km_prefix :: string
  km_caps :: "capability list"
  km_created :: int
  km_last_used :: "int option"

definition Auth_CreateAPIKey ::
  "fault \<Rightarrow> int \<Rightarrow> uuid \<Rightarrow> string \<Rightarrow> uuid \<Rightarrow> string \<Rightarrow> capability list \<Rightarrow> auth_db \<Rightarrow>
   string result \<times> auth_db" where
  "Auth_CreateAPIKey flt now kid raw u name caps0 d =
     (let caps = (if caps0 = [] then allCapabilities else caps0) in
      case find (\<lambda>c. \<not> Capability_Valid c) caps of
        Some c \<Rightarrow> (Inl (ValidationError (''unknown capability '' @ c)), d)
      | None \<Rightarrow>
          (let plaintext = ''ocidex_'' @ RawURLEncoding raw;
               prefix = (if length plaintext > 8 then take 8 plaintext else plaintext)
           in case CreateAPIKeyRow flt now kid u name (sha256hex plaintext) prefix (Strings caps) d of
                (Inl e, d1) \<Rightarrow> (Inl (Wrapped ''creating api key'' e), d1)
              | (Inr row, d1) \<Rightarrow> (Inr plaintext, d1)))"

definition known_caps :: "string list \<Rightarrow> capability list" where
  "known_caps names = filter Capability_Valid names"

text \<open>The touch of \<open>last_used_at\<close> runs beside the request, after the read; its failure is only logged.\<close>

definition ValidateAPIKey ::
  "fault \<Rightarrow> fault \<Rightarrow> int \<Rightarrow> auth_db \<Rightarrow> string \<Rightarrow> auth_user result \<times> auth_db" where
  "ValidateAPIKey f1 f2 now d rawKey =
     (case GetAPIKeyByHash f1 d (sha256hex rawKey) of
        Inl e \<Rightarrow> (Inl (Wrapped ''api key not found'' e), d)
      | Inr (k, u) \<Rightarrow>
          (Inr \<lparr>au_id = Some (ky_user k), au_display = auth_displayName (us_display u), au_role = us_role u,
                au_api_key_auth = True, au_api_key_caps = known_caps (ky_caps k), au_grants = Map.empty\<rparr>,
           snd (TouchAPIKeyLastUsed f2 now (ky_id k) d)))"

definition key_meta :: "key_row \<Rightarrow> api_key_meta" where
  "key_meta r =
     \<lparr>km_id = ky_id r, km_name = ky_name r, km_prefix = ky_prefix r,
      km_caps = (case ParseCapabilities (ky_caps r) of Inr caps \<Rightarrow> caps | Inl e \<Rightarrow> known_caps (ky_caps r)),
      km_created = ky_created r, km_last_used = ky_last_used r\<rparr>"

definition Auth_ListAPIKeys :: "fault \<Rightarrow> auth_db \<Rightarrow> uuid \<Rightarrow> api_key_meta list result" where
  "Auth_ListAPIKeys flt d u =
     (case ListAPIKeysByUser flt d u of
        Inl e \<Rightarrow> Inl (Wrapped ''listing api keys'' e)
      | Inr rows \<Rightarrow> Inr (map key_meta rows))"

definition Auth_DeleteAPIKey :: "fault \<Rightarrow> uuid \<Rightarrow> uuid \<Rightarrow> auth_db \<Rightarrow> unit result \<times> auth_db" where
  "Auth_DeleteAPIKey flt u kid d =
     (case DeleteAPIKeyRow flt kid u d of
        (Inl e, d1) \<Rightarrow> (Inl (Wrapped ''deleting api key'' e), d1)
      | (Inr n, d1) \<Rightarrow> if n = 0 then (Inl (OtherError ''api key not found''), d1) else (Inr (), d1))"

section \<open>Accounts\<close>

definition GetUser :: "fault \<Rightarrow> auth_db \<Rightarrow> uuid \<Rightarrow> auth_user result" where
  "GetUser flt d u =
     (case GetUserByID flt d u of
        Inl e \<Rightarrow> Inl (Wrapped ''getting user'' e)
      | Inr r \<Rightarrow> Inr (auth_user_of r))"

definition Auth_ListUsers :: "fault \<Rightarrow> auth_db \<Rightarrow> auth_user list result" where
  "Auth_ListUsers flt d =
     (case ListUserRows flt d of
        Inl e \<Rightarrow> Inl (Wrapped ''listing users'' e)
      | Inr rows \<Rightarrow> Inr (map auth_user_of rows))"

definition roleViewer :: string where "roleViewer = ''viewer''"

definition Auth_UpdateUserRole ::
  "fault \<Rightarrow> int \<Rightarrow> uuid \<Rightarrow> string \<Rightarrow> auth_db \<Rightarrow> auth_user result \<times> auth_db" where
  "Auth_UpdateUserRole flt now u role d =
     (if role \<noteq> roleAdmin \<and> role \<noteq> roleMember \<and> role \<noteq> roleViewer
      then (Inl (OtherError (''invalid role '' @ role @ '': must be admin, member, or viewer'')), d)
      else case UpdateUserRoleRow flt now u role d of
        (Inl e, d1) \<Rightarrow> (Inl (Wrapped ''updating user role'' e), d1)
      | (Inr r, d1) \<Rightarrow> (Inr (auth_user_of r), d1))"

end
