(* ===== verification/AuthRuns.thy ===== *)
theory AuthRuns
  imports AuthService
begin

text \<open>
  Runs of the sign-in tables: every interleaving of the statements the service issues, as a step relation
  with what the session lemmas need to know of a step as its label, and the properties of accounts,
  identities, sessions and keys over them.
\<close>

section \<open>Steps\<close>

datatype auth_label = Login string | Logout string | Sweep int | Other

inductive auth_step :: "auth_label \<Rightarrow> auth_db \<Rightarrow> auth_db \<Rightarrow> bool" where
  create_user: "s \<noteq> [] \<Longrightarrow>
    auth_step Other d (snd (CreateUserWithIdentity flt now nid iid display email p s d))"
| link: "s \<noteq> [] \<Longrightarrow> auth_step Other d (snd (CreateIdentity flt now iid u p s email d))"
| unlink: "auth_step Other d (snd (DeleteIdentity flt iid u d))"
| identity_email: "auth_step Other d (snd (UpsertIdentityEmail flt now email p s d))"
| profile: "auth_step Other d (snd (TouchUserProfile flt now display email u d))"
| role: "auth_step Other d (snd (UpdateUserRoleRow flt now u r d))"
| login: "auth_step (Login hash) d (snd (CreateSessionRow flt now sid u hash expires d))"
| logout: "auth_step (Logout hash) d (snd (DeleteSessionRow flt hash d))"
| sweep: "auth_step (Sweep now) d (snd (DeleteExpiredSessions flt now d))"
| create_key: "auth_step Other d (snd (CreateAPIKeyRow flt now kid u name hash prefix caps d))"
| touch_key: "auth_step Other d (snd (TouchAPIKeyLastUsed flt now kid d))"
| delete_key: "auth_step Other d (snd (DeleteAPIKeyRow flt kid u d))"

inductive auth_run :: "auth_label list \<Rightarrow> auth_db \<Rightarrow> auth_db \<Rightarrow> bool" where
  run_nil: "auth_run [] d d"
| run_cons: "auth_step l d d1 \<Longrightarrow> auth_run ls d1 d2 \<Longrightarrow> auth_run (l # ls) d d2"

inductive_cases auth_run_ConsE: "auth_run (l # ls) d d'"
inductive_cases auth_run_NilE: "auth_run [] d d'"

section \<open>The invariant\<close>

definition user_roles :: "string list" where
  "user_roles = [''admin'', ''member'', ''viewer'']"

definition auth_inv :: "auth_db \<Rightarrow> bool" where
  "auth_inv d \<longleftrightarrow>
     distinct (map us_id (ad_users d)) \<and> distinct (map identity_key (ad_identities d)) \<and>
     distinct (map ui_id (ad_identities d)) \<and>
     distinct (map se_hash (ad_sessions d)) \<and> distinct (map ky_hash (ad_keys d)) \<and>
     list_all (\<lambda>r. List.member user_roles (us_role r)) (ad_users d) \<and>
     list_all (\<lambda>i. has_user d (ui_user i) \<and> ui_subject i \<noteq> []) (ad_identities d) \<and>
     list_all (\<lambda>s. has_user d (se_user s)) (ad_sessions d) \<and>
     list_all (\<lambda>k. has_user d (ky_user k) \<and> list_all Capability_Valid (ky_caps k)) (ad_keys d)"

lemma has_user_iff: "has_user d u \<longleftrightarrow> u \<in> us_id ` set (ad_users d)"
  by (auto simp: has_user_def list_ex_iff)

lemma has_user_map: "has_user d u \<longleftrightarrow> u \<in> set (map us_id (ad_users d))"
  by (auto simp: has_user_def list_ex_iff)

lemma known_capability: "Capability_Valid c \<longleftrightarrow> c \<in> set allCapabilities"
proof -
  have "map_bool (map (\<lambda>c. (c, True)) xs) c \<longleftrightarrow> c \<in> set xs" for xs
    by (induction xs) auto
  then show ?thesis by (simp add: Capability_Valid_def knownCapabilities_def)
qed

named_theorems auth_stmts \<open>the statements of the sign-in tables\<close>

declare CreateUserWithIdentity_def [auth_stmts] CreateIdentity_def [auth_stmts] DeleteIdentity_def [auth_stmts]
  UpsertIdentityEmail_def [auth_stmts] TouchUserProfile_def [auth_stmts] UpdateUserRoleRow_def [auth_stmts]
  CreateSessionRow_def [auth_stmts] DeleteSessionRow_def [auth_stmts] DeleteExpiredSessions_def [auth_stmts]
  CreateAPIKeyRow_def [auth_stmts] TouchAPIKeyLastUsed_def [auth_stmts] DeleteAPIKeyRow_def [auth_stmts]
  update_user_def [auth_stmts]

lemma auth_inv_create_user:
  "auth_inv d \<Longrightarrow> s \<noteq> [] \<Longrightarrow> auth_inv (snd (CreateUserWithIdentity flt now nid iid display email p s d))"
  by (cases flt)
     (auto simp: auth_stmts auth_inv_def has_user_def list_ex_iff list_all_iff user_roles_def identity_key_def Let_def)

lemma auth_inv_link:
  "auth_inv d \<Longrightarrow> s \<noteq> [] \<Longrightarrow> auth_inv (snd (CreateIdentity flt now iid u p s email d))"
  by (cases flt) (auto simp: auth_stmts auth_inv_def has_user_def list_ex_iff list_all_iff identity_key_def Let_def)

lemma auth_inv_filters:
  "auth_inv d \<Longrightarrow> auth_inv (d\<lparr>ad_identities := filter P (ad_identities d)\<rparr>)"
  "auth_inv d \<Longrightarrow> auth_inv (d\<lparr>ad_sessions := filter Q (ad_sessions d)\<rparr>)"
  "auth_inv d \<Longrightarrow> auth_inv (d\<lparr>ad_keys := filter R (ad_keys d)\<rparr>)"
  by (auto simp: auth_inv_def has_user_def list_all_iff distinct_map_filter)

lemma auth_inv_identities:
  assumes "auth_inv d" and "\<And>i. ui_id (f i) = ui_id i \<and> identity_key (f i) = identity_key i \<and> ui_user (f i) = ui_user i"
  shows "auth_inv (d\<lparr>ad_identities := update_where P f (ad_identities d)\<rparr>)"
proof -
  from assms(2) have "ui_subject (f i) = ui_subject i" for i by (auto simp: identity_key_def)
  with assms show ?thesis
    by (auto simp: auth_inv_def has_user_def map_update_where intro!: list_all_update_where)
qed

lemma auth_inv_users:
  assumes "auth_inv d" and "\<And>r. us_id (f r) = us_id r"
    and "\<And>r. List.member user_roles (us_role r) \<Longrightarrow> List.member user_roles (us_role (f r))"
  shows "auth_inv (d\<lparr>ad_users := update_where P f (ad_users d)\<rparr>)"
proof -
  have "has_user (d\<lparr>ad_users := update_where P f (ad_users d)\<rparr>) u = has_user d u" for u
    using assms(2) by (simp add: has_user_map map_update_where del: set_map)
  with assms show ?thesis
    by (auto simp: auth_inv_def map_update_where intro!: list_all_update_where)
qed

lemma auth_inv_keys:
  assumes "auth_inv d" and "\<And>k. ky_hash (f k) = ky_hash k \<and> ky_user (f k) = ky_user k \<and> ky_caps (f k) = ky_caps k"
  shows "auth_inv (d\<lparr>ad_keys := update_where P f (ad_keys d)\<rparr>)"
  using assms by (auto simp: auth_inv_def has_user_def map_update_where intro!: list_all_update_where)

lemma auth_inv_role:
  assumes "auth_inv d"
  shows "auth_inv (snd (UpdateUserRoleRow flt now u r d))"
proof (cases "has_user d u \<and> \<not> List.member [''admin'', ''member'', ''viewer''] r")
  case True
  with assms show ?thesis by (cases flt) (simp_all add: UpdateUserRoleRow_def)
next
  case ok: False
  show ?thesis
  proof (cases "has_user d u")
    case True
    with ok assms show ?thesis
      by (cases flt) (auto simp: auth_stmts user_roles_def intro!: auth_inv_users)
  next
    case False
    then have "update_where (\<lambda>r. us_id r = u) f (ad_users d) = ad_users d" for f
      by (auto simp: update_where_def has_user_iff intro!: map_idI)
    with assms ok show ?thesis by (cases flt) (auto simp: auth_stmts)
  qed
qed

lemma auth_inv_step:
  assumes "auth_step l d d'" "auth_inv d"
  shows "auth_inv d'"
  using assms
proof cases
  case (create_user s flt now nid iid display email p)
  with assms(2) show ?thesis by (simp add: auth_inv_create_user)
next
  case (link s flt now iid u p email)
  with assms(2) show ?thesis by (simp add: auth_inv_link)
next
  case (unlink flt iid u)
  with assms(2) show ?thesis by (cases flt) (simp_all add: auth_stmts auth_inv_filters)
next
  case (identity_email flt now email p s)
  with assms(2) show ?thesis
    by (cases flt) (auto simp: auth_stmts identity_key_def intro!: auth_inv_identities)
next
  case (profile flt now display email u)
  with assms(2) show ?thesis by (cases flt) (auto simp: auth_stmts intro!: auth_inv_users)
next
  case (role flt now u r)
  with assms(2) show ?thesis by (simp add: auth_inv_role)
next
  case (login hash flt now sid u expires)
  with assms(2) show ?thesis
    by (cases flt) (auto simp: auth_stmts auth_inv_def has_user_def list_ex_iff list_all_iff Let_def)
next
  case (logout hash flt)
  with assms(2) show ?thesis by (cases flt) (simp_all add: auth_stmts auth_inv_filters)
next
  case (sweep now flt)
  with assms(2) show ?thesis by (cases flt) (simp_all add: auth_stmts auth_inv_filters)
next
  case (create_key flt now kid u name hash prefix caps)
  with assms(2) show ?thesis
    by (cases flt)
       (auto simp: auth_stmts auth_inv_def has_user_def list_ex_iff list_all_iff known_capability Let_def)
next
  case (touch_key flt now kid)
  with assms(2) show ?thesis by (cases flt) (auto simp: auth_stmts intro!: auth_inv_keys)
next
  case (delete_key flt kid u)
  with assms(2) show ?thesis by (cases flt) (simp_all add: auth_stmts auth_inv_filters)
qed

lemma auth_inv_run: "auth_run ls d d' \<Longrightarrow> auth_inv d \<Longrightarrow> auth_inv d'"
  by (induction rule: auth_run.induct) (auto intro: auth_inv_step)

end
