(* ===== verification/AuthSafety.thy ===== *)
theory AuthSafety
  imports AuthRuns
begin

text \<open>
  What the sign-in service promises: whom a sign-in opens, that an address never matters, that identities
  stay with their account, how long a session lives and what a created key is worth.
\<close>

section \<open>Who holds an identity\<close>

definition holder :: "auth_db \<Rightarrow> string \<Rightarrow> string \<Rightarrow> uuid option" where
  "holder d p s = map_option ui_user (find (\<lambda>i. ui_provider i = p \<and> ui_subject i = s) (ad_identities d))"

definition alone :: "request_env \<Rightarrow> bool" where
  "alone env \<longleftrightarrow> (\<forall>k d. re_others env k d = d)"

lemma aloneD: "alone env \<Longrightarrow> re_others env k d = d"
  by (simp add: alone_def)

text \<open>Every row but those of one identity and one account is as it was.\<close>

definition same_elsewhere :: "string \<Rightarrow> string \<Rightarrow> uuid \<Rightarrow> auth_db \<Rightarrow> auth_db \<Rightarrow> bool" where
  "same_elsewhere p s u d d' \<longleftrightarrow>
     filter (\<lambda>i. \<not> (ui_provider i = p \<and> ui_subject i = s)) (ad_identities d') =
       filter (\<lambda>i. \<not> (ui_provider i = p \<and> ui_subject i = s)) (ad_identities d) \<and>
     filter (\<lambda>r. us_id r \<noteq> u) (ad_users d') = filter (\<lambda>r. us_id r \<noteq> u) (ad_users d) \<and>
     ad_sessions d' = ad_sessions d \<and> ad_keys d' = ad_keys d"

lemma same_elsewhere_trans:
  "same_elsewhere p s u a b \<Longrightarrow> same_elsewhere p s u b c \<Longrightarrow> same_elsewhere p s u a c"
  by (simp add: same_elsewhere_def)

text \<open>What a sign-in leaves of the rows of its identity and account: it stores the address and the display name the
  issuer released, where it released one, and the role; a new account and its identity have what it released.\<close>

definition find_identity :: "auth_db \<Rightarrow> string \<Rightarrow> string \<Rightarrow> identity_row option" where
  "find_identity d p s = find (\<lambda>i. ui_provider i = p \<and> ui_subject i = s) (ad_identities d)"

definition own_rows :: "int \<Rightarrow> identity \<Rightarrow> uuid \<Rightarrow> string \<Rightarrow> auth_db \<Rightarrow> auth_db \<Rightarrow> bool" where
  "own_rows now i v role d d' \<longleftrightarrow>
     (case find_identity d (id_provider i) (id_subject i) of
        Some k \<Rightarrow>
          ui_user k = v \<and>
          find_identity d' (id_provider i) (id_subject i) =
            Some (k\<lparr>ui_email := coalesce_opt (nullif_empty (id_email i)) (ui_email k), ui_updated := now\<rparr>) \<and>
          (\<exists>r. find_user d v = Some r \<and>
             find_user d' v = Some (r\<lparr>us_display := coalesce_opt (nullif_empty (id_display i)) (us_display r),
               us_email := coalesce_opt (nullif_empty (id_email i)) (us_email r), us_updated := now, us_role := role\<rparr>))
      | None \<Rightarrow>
          find_user d v = None \<and>
          (\<exists>iid. find_identity d' (id_provider i) (id_subject i) =
             Some \<lparr>ui_id = iid, ui_user = v, ui_provider = id_provider i, ui_subject = id_subject i,
                   ui_email = nullif_empty (id_email i), ui_created = now, ui_updated = now\<rparr>) \<and>
          find_user d' v = Some \<lparr>us_id = v, us_role = role, us_created = now, us_updated = now,
             us_email = nullif_empty (id_email i), us_display = nullif_empty (id_display i)\<rparr>)"

lemma filter_update_where:
  "(\<And>x. P x \<Longrightarrow> \<not> Q x \<and> \<not> Q (f x)) \<Longrightarrow> filter Q (update_where P f xs) = filter Q xs"
  by (induction xs) (auto simp: update_where_def)

lemma holder_identity: "holder d p s = map_option ui_user (find_identity d p s)"
  by (simp add: holder_def find_identity_def)

lemma find_user_SomeD: "find_user d u = Some r \<Longrightarrow> us_id r = u"
  by (auto simp: find_user_def dest: find_SomeD)

lemma find_update_key:
  "(\<And>r. key (f r) = key r) \<Longrightarrow>
   find (\<lambda>r. key r = v) (update_where (\<lambda>r. key r = u) f xs) =
     (if v = u then map_option f (find (\<lambda>r. key r = u) xs) else find (\<lambda>r. key r = v) xs)"
  by (induction xs) (auto simp: update_where_def)

lemma find_update_self:
  "(\<And>x. P x \<Longrightarrow> P (f x)) \<Longrightarrow> find P (update_where P f xs) = map_option f (find P xs)"
  by (induction xs) (auto simp: update_where_def)

lemma find_user_update:
  "(\<And>r. us_id (f r) = us_id r) \<Longrightarrow>
   find_user (d\<lparr>ad_users := update_where (\<lambda>r. us_id r = u) f (ad_users d)\<rparr>) v =
     (if v = u then map_option f (find_user d u) else find_user d v)"
  by (simp add: find_user_def find_update_key)

lemma find_user_frame [simp]:
  "find_user (d\<lparr>ad_identities := x\<rparr>) v = find_user d v"
  "find_user (d\<lparr>ad_sessions := y\<rparr>) v = find_user d v"
  "find_user (d\<lparr>ad_keys := z\<rparr>) v = find_user d v"
  by (simp_all add: find_user_def)

lemma holder_frame [simp]:
  "holder (d\<lparr>ad_users := x\<rparr>) p s = holder d p s"
  "holder (d\<lparr>ad_sessions := y\<rparr>) p s = holder d p s"
  "holder (d\<lparr>ad_keys := z\<rparr>) p s = holder d p s"
  by (simp_all add: holder_def)

lemma has_user_find: "has_user d u \<longleftrightarrow> (\<exists>r. find_user d u = Some r)"
proof (cases "find_user d u")
  case None
  then show ?thesis unfolding has_user_def find_user_def list_ex_iff by (auto dest: find_NoneD)
next
  case (Some r)
  then show ?thesis unfolding has_user_def find_user_def list_ex_iff by (auto dest: find_SomeD)
qed

lemma find_user_self: "find_user d v = Some u \<Longrightarrow> find_user d (us_id u) = Some u"
  by (simp add: find_user_SomeD)

lemma GetUserByIdentity_Inr:
  assumes "GetUserByIdentity flt d p s = Inr u"
  shows "holder d p s = Some (us_id u)" "find_user d (us_id u) = Some u"
proof -
  from assms obtain i where i: "find (\<lambda>i. ui_provider i = p \<and> ui_subject i = s) (ad_identities d) = Some i"
    "find_user d (ui_user i) = Some u"
    by (auto simp: GetUserByIdentity_def read_stmt_Inr one_row_def split: option.splits)
  then show "holder d p s = Some (us_id u)" by (simp add: holder_def find_user_SomeD)
  from i(2) show "find_user d (us_id u) = Some u" by (rule find_user_self)
qed

lemma GetUserByIdentity_NoRows:
  assumes "GetUserByIdentity flt d p s = Inl e" "errors_is e NoRows" "auth_inv d"
  shows "holder d p s = None"
proof (cases flt)
  case None
  show ?thesis
  proof (cases "find (\<lambda>i. ui_provider i = p \<and> ui_subject i = s) (ad_identities d)")
    case (Some i)
    then have "i \<in> set (ad_identities d)" by (auto dest: find_SomeD)
    with assms(3) have "has_user d (ui_user i)" by (auto simp: auth_inv_def list_all_iff)
    with assms(1) None Some show ?thesis
      by (auto simp: GetUserByIdentity_def one_row_def has_user_find)
  qed (simp add: holder_def)
next
  case (Some f)
  with assms(1,2) show ?thesis by (auto simp: GetUserByIdentity_def)
qed

lemma UpsertIdentityEmail_frame:
  assumes "UpsertIdentityEmail flt now email p s d = (Inr x, d')"
  shows "find_user d' v = find_user d v" "ad_sessions d' = ad_sessions d" "ad_keys d' = ad_keys d"
    "ad_users d' = ad_users d"
    "filter (\<lambda>i. \<not> (ui_provider i = p \<and> ui_subject i = s)) (ad_identities d') =
     filter (\<lambda>i. \<not> (ui_provider i = p \<and> ui_subject i = s)) (ad_identities d)"
    "find_identity d' p s = map_option
       (\<lambda>k. k\<lparr>ui_email := coalesce_opt (nullif_empty email) (ui_email k), ui_updated := now\<rparr>) (find_identity d p s)"
proof -
  have d': "d' = d\<lparr>ad_identities := update_where (\<lambda>i. ui_provider i = p \<and> ui_subject i = s)
      (\<lambda>i. i\<lparr>ui_email := coalesce_opt (nullif_empty email) (ui_email i), ui_updated := now\<rparr>) (ad_identities d)\<rparr>"
    using assms by (auto simp: UpsertIdentityEmail_def run_stmt_Inr)
  show "find_user d' v = find_user d v" "ad_sessions d' = ad_sessions d" "ad_keys d' = ad_keys d"
    "ad_users d' = ad_users d" by (simp_all add: d')
  show "filter (\<lambda>i. \<not> (ui_provider i = p \<and> ui_subject i = s)) (ad_identities d') =
     filter (\<lambda>i. \<not> (ui_provider i = p \<and> ui_subject i = s)) (ad_identities d)"
    unfolding d' by (simp add: filter_update_where)
  show "find_identity d' p s = map_option
       (\<lambda>k. k\<lparr>ui_email := coalesce_opt (nullif_empty email) (ui_email k), ui_updated := now\<rparr>) (find_identity d p s)"
    unfolding d' find_identity_def
    by (simp add: find_update_self)
qed

lemma update_user_elsewhere:
  assumes "update_user flt u f d = (Inr r, d')" "\<And>r. us_id (f r) = us_id r"
  shows "filter (\<lambda>r. us_id r \<noteq> u) (ad_users d') = filter (\<lambda>r. us_id r \<noteq> u) (ad_users d)"
  using assms by (auto simp: update_user_def run_stmt_Inr filter_update_where)

lemma update_user_Inr:
  assumes "update_user flt u f d = (Inr r, d')" "\<And>r. us_id (f r) = us_id r"
  obtains r0 where "find_user d u = Some r0" "r = f r0" "us_id r = u"
    "find_user d' u = Some r" "\<And>v. v \<noteq> u \<Longrightarrow> find_user d' v = find_user d v"
    "\<And>p s. holder d' p s = holder d p s" "ad_sessions d' = ad_sessions d" "ad_keys d' = ad_keys d"
    "ad_identities d' = ad_identities d"
proof -
  from assms(1) obtain r0 where r0: "find_user d u = Some r0" "r = f r0"
    and d': "d' = d\<lparr>ad_users := update_where (\<lambda>r. us_id r = u) f (ad_users d)\<rparr>"
    by (auto simp: update_user_def run_stmt_Inr one_row_def split: option.splits)
  show thesis
    by (rule that [OF r0]) (use r0 assms(2) in \<open>auto simp: d' find_user_update dest: find_user_SomeD\<close>)
qed

lemma CreateUserWithIdentity_Inr:
  assumes "CreateUserWithIdentity flt now nid iid dn em p s d = (Inr r, d')"
  shows "find_identity d p s = None" "find_user d nid = None" "us_id r = nid" "us_role r = ''viewer''"
    "find_identity d' p s = Some \<lparr>ui_id = iid, ui_user = nid, ui_provider = p, ui_subject = s, ui_email = em,
       ui_created = now, ui_updated = now\<rparr>"
    "find_user d' nid = Some r" "r = \<lparr>us_id = nid, us_role = ''viewer'', us_created = now, us_updated = now,
       us_email = em, us_display = dn\<rparr>"
    "same_elsewhere p s nid d d'"
proof -
  from assms have fresh: "\<not> has_user d nid"
    and free: "\<And>i. i \<in> set (ad_identities d) \<Longrightarrow> \<not> (ui_provider i = p \<and> ui_subject i = s)"
    by (auto simp: CreateUserWithIdentity_def run_stmt_Inr list_ex_iff split: if_splits)
  then have none: "find (\<lambda>i. ui_provider i = p \<and> ui_subject i = s) (ad_identities d) = None"
    by (auto simp: find_None_iff)
  from fresh have nouser: "find (\<lambda>r. us_id r = nid) (ad_users d) = None"
    by (auto simp: has_user_find find_user_def)
  show "find_identity d p s = None" "find_user d nid = None" using none nouser by (simp_all add: find_identity_def find_user_def)
  show "us_id r = nid" "us_role r = ''viewer''" "find_user d' nid = Some r"
    "find_identity d' p s = Some \<lparr>ui_id = iid, ui_user = nid, ui_provider = p, ui_subject = s, ui_email = em,
       ui_created = now, ui_updated = now\<rparr>"
    "r = \<lparr>us_id = nid, us_role = ''viewer'', us_created = now, us_updated = now, us_email = em, us_display = dn\<rparr>"
    "same_elsewhere p s nid d d'"
    using assms none nouser
    by (auto simp: CreateUserWithIdentity_def run_stmt_Inr find_identity_def find_user_def find_snoc
        same_elsewhere_def Let_def split: if_splits option.splits)
qed

section \<open>Signing in\<close>

text \<open>The role an account has when it signs in: what is stored, the default of a new account.\<close>

definition stored_role :: "auth_db \<Rightarrow> identity \<Rightarrow> string" where
  "stored_role d i =
     (case holder d (id_provider i) (id_subject i) of
        None \<Rightarrow> ''viewer''
      | Some u \<Rightarrow> (case find_user d u of None \<Rightarrow> ''viewer'' | Some r \<Rightarrow> us_role r))"

definition opened :: "int \<Rightarrow> auth_db \<Rightarrow> identity \<Rightarrow> auth_user \<Rightarrow> auth_db \<Rightarrow> bool" where
  "opened now d i u d' \<longleftrightarrow> (\<exists>v. au_id u = Some v \<and> own_rows now i v (au_role u) d d' \<and>
     same_elsewhere (id_provider i) (id_subject i) v d d')"

lemma resolve_known_opened:
  assumes "alone env" "GetUserByIdentity flt d (id_provider i) (id_subject i) = Inr u0"
    and "resolve_known env i u0 d = (Inr u, d')"
  shows "opened (re_now env) d i u d' \<and> au_role u = stored_role d i"
proof -
  note h = GetUserByIdentity_Inr [OF assms(2)]
  from assms(3) aloneD [OF assms(1)] obtain d1 r where
    up: "UpsertIdentityEmail (re_flt env 1) (re_now env) (id_email i) (id_provider i) (id_subject i) d = (Inr (), d1)"
    and tp: "TouchUserProfile (re_flt env 2) (re_now env) (id_display i) (id_email i) (us_id u0) d1 = (Inr r, d')"
    and u: "u = auth_user_of r"
    by (auto simp: resolve_known_def split: prod.splits sum.splits)
  note f1 = UpsertIdentityEmail_frame [OF up]
  note t = tp [unfolded TouchUserProfile_def]
  from t obtain r0 where r0: "find_user d1 (us_id u0) = Some r0"
    "r = r0\<lparr>us_display := coalesce_opt (nullif_empty (id_display i)) (us_display r0),
            us_email := coalesce_opt (nullif_empty (id_email i)) (us_email r0), us_updated := re_now env\<rparr>"
    "us_id r = us_id u0" "find_user d' (us_id u0) = Some r"
    "ad_sessions d' = ad_sessions d1" "ad_keys d' = ad_keys d1" "ad_identities d' = ad_identities d1"
    by (rule update_user_Inr) auto
  obtain k where k: "find_identity d (id_provider i) (id_subject i) = Some k" "ui_user k = us_id u0"
    using h(1) by (auto simp: holder_identity)
  have "find_identity d' (id_provider i) (id_subject i) = find_identity d1 (id_provider i) (id_subject i)"
    by (simp add: find_identity_def r0(7))
  then have "own_rows (re_now env) i (us_id u0) (au_role u) d d'"
    using r0 f1(1,6) k by (simp add: own_rows_def u auth_user_of_def)
  moreover have "same_elsewhere (id_provider i) (id_subject i) (us_id u0) d d'"
    using r0(5-7) f1(2-5) update_user_elsewhere [OF t] by (simp add: same_elsewhere_def)
  ultimately show ?thesis using r0 f1(1) h by (auto simp: opened_def u auth_user_of_def stored_role_def)
qed

lemma resolve_new_opened:
  assumes "alone env" "holder d (id_provider i) (id_subject i) = None"
    and "resolve_new env i d = (Inr u, d')"
  shows "opened (re_now env) d i u d' \<and> au_role u = stored_role d i"
proof (cases "CreateUserWithIdentity (re_flt env 1) (re_now env) (re_uuid1 env) (re_uuid2 env)
             (nullif_empty (id_display i)) (nullif_empty (id_email i)) (id_provider i) (id_subject i) d")
  case (Pair x d1)
  show ?thesis
  proof (cases x)
    case (Inr r)
    with Pair assms(3) aloneD [OF assms(1)] have eq: "u = auth_user_of r" "d' = d1"
      by (auto simp: resolve_new_def)
    note c = CreateUserWithIdentity_Inr [OF Pair [unfolded Inr]]
    from c(1-6) have "own_rows (re_now env) i (re_uuid1 env) (au_role u) d d'"
      unfolding own_rows_def eq by (simp add: auth_user_of_def c(7))
    with c(3,4,8) assms(2) show ?thesis by (auto simp: opened_def eq auth_user_of_def stored_role_def)
  next
    case (Inl e)
    from Pair Inl have "d1 = d"
      by (cases "re_flt env 1") (auto simp: CreateUserWithIdentity_def Let_def split: if_splits)
    with Pair Inl assms(3) aloneD [OF assms(1)] obtain r where
      "GetUserByIdentity (re_flt env 2) d (id_provider i) (id_subject i) = Inr r"
      by (auto simp: resolve_new_def Let_def split: sum.splits)
    with assms(2) GetUserByIdentity_Inr(1) show ?thesis by fastforce
  qed
qed

lemma resolveIdentity_opened:
  assumes "auth_inv d" "alone env" "resolveIdentity cfg env i d = (Inr u, d')"
  shows "opened (re_now env) d i u d' \<and> au_role u = stored_role d i \<and>
    (holder d (id_provider i) (id_subject i) = None \<longrightarrow> signupOpen cfg \<or> isBootstrapAdmin cfg i)"
proof (cases "GetUserByIdentity (re_flt env 0) d (id_provider i) (id_subject i)")
  case (Inl e)
  with assms(3) aloneD [OF assms(2)] have e: "errors_is e NoRows" "signupOpen cfg \<or> isBootstrapAdmin cfg i"
    "resolve_new env i d = (Inr u, d')"
    by (auto simp: resolveIdentity_def split: if_splits)
  from GetUserByIdentity_NoRows [OF Inl e(1) assms(1)] resolve_new_opened [OF assms(2) _ e(3)] e(2)
  show ?thesis by simp
next
  case (Inr u0)
  with assms(3) aloneD [OF assms(2)] have "resolve_known env i u0 d = (Inr u, d')"
    by (auto simp: resolveIdentity_def)
  from resolve_known_opened [OF assms(2) Inr this] GetUserByIdentity_Inr(1) [OF Inr]
  show ?thesis by simp
qed

lemma promote_opened:
  assumes "alone env" "opened (re_now env) d i u d1" "promoteBootstrapAdmin cfg env i u d1 = (Inr u', d')"
  shows "opened (re_now env) d i u' d' \<and> au_role u' = (if isBootstrapAdmin cfg i then roleAdmin else au_role u)"
proof (cases "au_role u = roleAdmin \<or> \<not> isBootstrapAdmin cfg i")
  case True
  with assms(2,3) show ?thesis by (auto simp: promoteBootstrapAdmin_def)
next
  case False
  from assms(2) obtain v where o: "au_id u = Some v" "own_rows (re_now env) i v (au_role u) d d1"
    "same_elsewhere (id_provider i) (id_subject i) v d d1"
    by (auto simp: opened_def)
  from False o(1) assms(3) aloneD [OF assms(1)] obtain row where
    row: "UpdateUserRoleRow (re_flt env 3) (re_now env) v roleAdmin d1 = (Inr row, d')"
    and u': "u' = u\<lparr>au_role := us_role row\<rparr>"
    by (auto simp: promoteBootstrapAdmin_def split: prod.splits sum.splits)
  have upd: "update_user (re_flt env 3) v (\<lambda>r. r\<lparr>us_role := roleAdmin, us_updated := re_now env\<rparr>) d1 = (Inr row, d')"
    using row by (simp add: UpdateUserRoleRow_def roleAdmin_def)
  then obtain r0 where r0: "find_user d1 v = Some r0" "row = r0\<lparr>us_role := roleAdmin, us_updated := re_now env\<rparr>"
    "find_user d' v = Some row" "ad_sessions d' = ad_sessions d1" "ad_keys d' = ad_keys d1" "ad_identities d' = ad_identities d1"
    by (rule update_user_Inr) auto
  have "find_identity d' p s = find_identity d1 p s" for p s by (simp add: find_identity_def r0(6))
  then have "own_rows (re_now env) i v roleAdmin d d'"
    using o(2) r0(1-3) by (auto simp: own_rows_def split: option.splits)
  moreover have "same_elsewhere (id_provider i) (id_subject i) v d d'"
    using o(3) r0(4-6) update_user_elsewhere [OF upd] by (simp add: same_elsewhere_def)
  ultimately show ?thesis using o(1) u' r0(2) False by (simp add: opened_def)
qed

text \<open>C3: A sign-in opens the account that holds the identity the issuer answered with, and no other. When an
  account holds it, that account is opened: its row and the identity's get the display name and the address the
  issuer released, where it released one. When nobody does, sign-up must be open or the identity be a bootstrap
  administrator, and the account and the identity are new rows with what the issuer released. Nothing else
  changes: every other row of the identities and the accounts, and all sessions and keys, are as they were. The
  role is the stored one, \<open>viewer\<close> for a new account, except that an identity listed in \<open>BOOTSTRAP_ADMINS\<close> is an
  administrator; it is the role in the account's row.\<close>

theorem sign_in_opens_holder:
  assumes "auth_inv d" "alone env" "ExchangeCodeForUser cfg pvs env p code verifier d = (Inr u, d')"
  shows "\<exists>i v. redeem_code pvs p code verifier = Inr i \<and> au_id u = Some v \<and>
    (find_identity d (id_provider i) (id_subject i) = None \<longrightarrow> signupOpen cfg \<or> isBootstrapAdmin cfg i) \<and>
    own_rows (re_now env) i v (au_role u) d d' \<and> same_elsewhere (id_provider i) (id_subject i) v d d' \<and>
    au_role u = (if isBootstrapAdmin cfg i then roleAdmin else stored_role d i)"
proof -
  from assms(3) obtain i u1 d1 where i: "redeem_code pvs p code verifier = Inr i"
    and r: "resolveIdentity cfg env i d = (Inr u1, d1)"
    and pr: "promoteBootstrapAdmin cfg env i u1 d1 = (Inr u, d')"
    by (auto simp: ExchangeCodeForUser_def split: sum.splits prod.splits)
  from resolveIdentity_opened [OF assms(1,2) r]
  have op: "opened (re_now env) d i u1 d1" "au_role u1 = stored_role d i"
    "find_identity d (id_provider i) (id_subject i) = None \<longrightarrow> signupOpen cfg \<or> isBootstrapAdmin cfg i"
    by (simp_all add: holder_identity)
  from promote_opened [OF assms(2) op(1) pr] op(2,3) i show ?thesis by (auto simp: opened_def)
qed

end
