(* ===== verification/AuthEmail.thy ===== *)
theory AuthEmail
  imports AuthSafety
begin

text \<open>
  An address never decides anything: what a sign-in answers, and what it leaves in the tables, does not depend
  on any address or display name, neither those the issuer released nor those stored, but for the addresses and
  the display names themselves (the OIDC provider takes the address for a display name when it has no other)
  (\<open>resolveIdentity\<close> of \<^verbatim>\<open>internal/service/auth.go\<close>).
\<close>

definition erase_user :: "user_row \<Rightarrow> user_row" where
  "erase_user r = r\<lparr>us_email := None, us_display := None\<rparr>"

definition erase_identity :: "identity_row \<Rightarrow> identity_row" where
  "erase_identity i = i\<lparr>ui_email := None\<rparr>"

definition erase_profiles :: "auth_db \<Rightarrow> auth_db" where
  "erase_profiles d = d\<lparr>ad_users := map erase_user (ad_users d),
                      ad_identities := map erase_identity (ad_identities d)\<rparr>"

definition erase_display :: "auth_user \<Rightarrow> auth_user" where
  "erase_display u = u\<lparr>au_display := []\<rparr>"

definition erase_result :: "('a \<Rightarrow> 'a) \<Rightarrow> 'a result \<times> auth_db \<Rightarrow> 'a result \<times> auth_db" where
  "erase_result f = map_prod (map_sum id f) erase_profiles"

lemma find_map_keep: "(\<And>x. P (f x) = P x) \<Longrightarrow> find P (map f xs) = map_option f (find P xs)"
  by (induction xs) auto

lemma list_ex_map_keep: "(\<And>x. P (f x) = P x) \<Longrightarrow> list_ex P (map f xs) = list_ex P xs"
  by (induction xs) auto

lemma update_where_map:
  "(\<And>x. P (f x) = P x) \<Longrightarrow> (\<And>x. f (g x) = h (f x)) \<Longrightarrow>
   update_where P h (map f xs) = map f (update_where P g xs)"
  by (simp add: update_where_def)

lemma erase_fields [simp]:
  "us_id (erase_user r) = us_id r" "us_role (erase_user r) = us_role r"
  "ui_id (erase_identity i) = ui_id i" "ui_user (erase_identity i) = ui_user i"
  "ui_provider (erase_identity i) = ui_provider i" "ui_subject (erase_identity i) = ui_subject i"
  by (simp_all add: erase_user_def erase_identity_def)

lemma erase_tables [simp]:
  "ad_users (erase_profiles d) = map erase_user (ad_users d)"
  "ad_identities (erase_profiles d) = map erase_identity (ad_identities d)"
  by (simp_all add: erase_profiles_def)

lemma find_user_erase [simp]: "find_user (erase_profiles d) u = map_option erase_user (find_user d u)"
  by (simp add: find_user_def find_map_keep)

lemma has_user_erase [simp]: "has_user (erase_profiles d) u = has_user d u"
  by (simp add: has_user_def list_ex_map_keep)

lemma auth_user_erase [simp]: "auth_user_of (erase_user r) = erase_display (auth_user_of r)"
  by (simp add: auth_user_of_def erase_display_def auth_displayName_def coalesce_def erase_user_def)

lemma erase_display_fields [simp]:
  "au_id (erase_display u) = au_id u" "au_role (erase_display u) = au_role u"
  "erase_display (u\<lparr>au_role := r\<rparr>) = (erase_display u)\<lparr>au_role := r\<rparr>"
  by (simp_all add: erase_display_def)

lemma erase_GetUserByIdentity:
  "GetUserByIdentity flt (erase_profiles d) p s = map_sum id erase_user (GetUserByIdentity flt d p s)"
  by (cases flt) (auto simp: GetUserByIdentity_def find_map_keep one_row_def split: option.splits)

lemma erase_UpsertIdentityEmail:
  "UpsertIdentityEmail flt now [] p s (erase_profiles d) = erase_result id (UpsertIdentityEmail flt now email p s d)"
  by (cases flt)
     (simp_all add: UpsertIdentityEmail_def erase_result_def erase_profiles_def nullif_empty_def coalesce_opt_def
        update_where_def erase_identity_def)

lemma erase_TouchUserProfile:
  "TouchUserProfile flt now [] [] u (erase_profiles d) = erase_result erase_user (TouchUserProfile flt now dn email u d)"
  by (cases flt; cases "find_user d u")
     (simp_all add: TouchUserProfile_def update_user_def erase_result_def erase_profiles_def nullif_empty_def
        coalesce_opt_def update_where_def erase_user_def one_row_def find_user_def find_map_keep)

lemma erase_UpdateUserRoleRow:
  "UpdateUserRoleRow flt now u r (erase_profiles d) = erase_result erase_user (UpdateUserRoleRow flt now u r d)"
  by (cases flt; cases "find_user d u")
     (auto simp: UpdateUserRoleRow_def update_user_def erase_result_def erase_profiles_def
        update_where_def erase_user_def one_row_def find_user_def has_user_def find_map_keep list_ex_map_keep)

lemma erase_CreateUserWithIdentity:
  "CreateUserWithIdentity flt now nid iid None None p s (erase_profiles d) =
   erase_result erase_user (CreateUserWithIdentity flt now nid iid dn email p s d)"
  by (cases flt)
     (auto simp: CreateUserWithIdentity_def erase_result_def erase_profiles_def erase_user_def erase_identity_def
        has_user_def list_ex_map_keep Let_def)

text \<open>Equal erasures give equal erased results.\<close>

definition agree :: "('a \<Rightarrow> 'a) \<Rightarrow> 'a result \<times> auth_db \<Rightarrow> 'a result \<times> auth_db \<Rightarrow> bool" where
  "agree f a b \<longleftrightarrow> erase_result f a = erase_result f b"

lemma agreeD:
  assumes "agree f (x, d1) (y, d2)"
  shows "erase_profiles d1 = erase_profiles d2" "x = Inl e \<Longrightarrow> y = Inl e"
    "x = Inr v \<Longrightarrow> \<exists>w. y = Inr w \<and> f v = f w"
  using assms by (cases x; cases y; auto simp: agree_def erase_result_def)+

definition same_subject :: "identity \<Rightarrow> identity \<Rightarrow> bool" where
  "same_subject i j \<longleftrightarrow> id_provider i = id_provider j \<and> id_subject i = id_subject j"

definition same_env :: "request_env \<Rightarrow> request_env \<Rightarrow> bool" where
  "same_env a b \<longleftrightarrow> re_flt a = re_flt b \<and> re_now a = re_now b \<and> re_uuid1 a = re_uuid1 b \<and> re_uuid2 a = re_uuid2 b \<and>
     (\<forall>k x y. erase_profiles x = erase_profiles y \<longrightarrow>
        erase_profiles (re_others a k x) = erase_profiles (re_others b k y))"

lemma same_envD:
  assumes "same_env a b"
  shows "re_flt b = re_flt a" "re_now b = re_now a" "re_uuid1 b = re_uuid1 a" "re_uuid2 b = re_uuid2 a"
    "erase_profiles x = erase_profiles y \<Longrightarrow> erase_profiles (re_others a k x) = erase_profiles (re_others b k y)"
  using assms by (auto simp: same_env_def)

lemma agree_intro:
  assumes "erase_profiles d1 = erase_profiles d2"
  shows "agree id (UpsertIdentityEmail flt now e1 p s d1) (UpsertIdentityEmail flt now e2 p s d2)"
    "agree erase_user (TouchUserProfile flt now n1 e1 u d1) (TouchUserProfile flt now n2 e2 u d2)"
    "agree erase_user (UpdateUserRoleRow flt now u r d1) (UpdateUserRoleRow flt now u r d2)"
    "agree erase_user (CreateUserWithIdentity flt now nid iid n1' m1 p s d1)
                      (CreateUserWithIdentity flt now nid iid n2' m2 p s d2)"
    "map_sum id erase_user (GetUserByIdentity flt d1 p s) = map_sum id erase_user (GetUserByIdentity flt d2 p s)"
  using assms
  by (simp_all add: agree_def erase_UpsertIdentityEmail [symmetric] erase_TouchUserProfile [symmetric]
      erase_UpdateUserRoleRow [symmetric] erase_CreateUserWithIdentity [symmetric]
      erase_GetUserByIdentity [symmetric])

lemma agree_result:
  assumes "agree f A B"
  obtains e d1 d2 where "A = (Inl e, d1)" "B = (Inl e, d2)" "erase_profiles d1 = erase_profiles d2"
  | v w d1 d2 where "A = (Inr v, d1)" "B = (Inr w, d2)" "f v = f w" "erase_profiles d1 = erase_profiles d2"
  using assms by (cases A; cases B; cases "fst A"; cases "fst B") (auto simp: agree_def erase_result_def)

lemma erase_user_same:
  "erase_user u = erase_user v \<Longrightarrow> us_id v = us_id u \<and> erase_display (auth_user_of v) = erase_display (auth_user_of u) \<and> us_role v = us_role u"
  by (metis auth_user_erase erase_fields(1,2))

lemma agree_user:
  assumes "agree erase_user A B"
  obtains e d1 d2 where "A = (Inl e, d1)" "B = (Inl e, d2)" "erase_profiles d1 = erase_profiles d2"
  | r s d1 d2 where "A = (Inr r, d1)" "B = (Inr s, d2)" "erase_display (auth_user_of s) = erase_display (auth_user_of r)" "us_role s = us_role r"
      "erase_profiles d1 = erase_profiles d2"
  using assms by (cases rule: agree_result) (auto dest: erase_user_same)

lemma lookup_cases:
  assumes "erase_profiles d1 = erase_profiles d2"
  obtains e where "GetUserByIdentity flt d1 p s = Inl e" "GetUserByIdentity flt d2 p s = Inl e"
  | u v where "GetUserByIdentity flt d1 p s = Inr u" "GetUserByIdentity flt d2 p s = Inr v"
      "erase_user u = erase_user v" "erase_display (auth_user_of v) = erase_display (auth_user_of u)"
  using agree_intro(5) [OF assms, of flt p s]
  by (cases "GetUserByIdentity flt d1 p s"; cases "GetUserByIdentity flt d2 p s") (auto dest: erase_user_same)

lemma agree_same: "agree f (Inl e, d1) (Inl e, d2) \<longleftrightarrow> erase_profiles d1 = erase_profiles d2"
  "agree f (Inr u, d1) (Inr v, d2) \<longleftrightarrow> f u = f v \<and> erase_profiles d1 = erase_profiles d2"
  by (auto simp: agree_def erase_result_def)

lemma bootstrap_cong:
  "same_subject i j \<Longrightarrow> isBootstrapAdmin cfg j = isBootstrapAdmin cfg i"
  by (cases cfg) (simp_all add: isBootstrapAdmin_def same_subject_def)

lemma agree_known:
  assumes "same_env a b" "same_subject i j" "erase_profiles d1 = erase_profiles d2" "erase_user u = erase_user v"
  shows "agree erase_display (resolve_known a i u d1) (resolve_known b j v d2)"
proof -
  note E = same_envD [OF assms(1)]
  have ij: "id_provider j = id_provider i" "id_subject j = id_subject i"
    using assms(2) by (simp_all add: same_subject_def)
  have uv: "us_id v = us_id u" using erase_user_same [OF assms(4)] by simp
  let ?A = "UpsertIdentityEmail (re_flt a 1) (re_now a) (id_email i) (id_provider i) (id_subject i) (re_others a 1 d1)"
  let ?B = "UpsertIdentityEmail (re_flt a 1) (re_now a) (id_email j) (id_provider i) (id_subject i) (re_others b 1 d2)"
  have AB: "agree id ?A ?B" by (rule agree_intro) (rule E(5) [OF assms(3)])
  then show ?thesis
  proof (cases rule: agree_result)
    case (1 e x y)
    then show ?thesis by (simp add: resolve_known_def E ij agree_same)
  next
    case (2 r s x y)
    let ?C = "TouchUserProfile (re_flt a 2) (re_now a) (id_display i) (id_email i) (us_id u) (re_others a 2 x)"
    let ?D = "TouchUserProfile (re_flt a 2) (re_now a) (id_display j) (id_email j) (us_id u) (re_others b 2 y)"
    have "agree erase_user ?C ?D" by (rule agree_intro) (rule E(5) [OF 2(4)])
    then show ?thesis
      by (cases rule: agree_user) (use 2 in \<open>simp_all add: resolve_known_def E(1-4) ij uv agree_same\<close>)
  qed
qed

lemma agree_new:
  assumes "same_env a b" "same_subject i j" "erase_profiles d1 = erase_profiles d2"
  shows "agree erase_display (resolve_new a i d1) (resolve_new b j d2)"
proof -
  note E = same_envD [OF assms(1)]
  have ij: "id_provider j = id_provider i" "id_subject j = id_subject i"
    using assms(2) by (simp_all add: same_subject_def)
  let ?A = "\<lambda>i' d. CreateUserWithIdentity (re_flt a 1) (re_now a) (re_uuid1 a) (re_uuid2 a)
     (nullif_empty (id_display i')) (nullif_empty (id_email i')) (id_provider i) (id_subject i) d"
  have "agree erase_user (?A i (re_others a 1 d1)) (?A j (re_others b 1 d2))"
    by (rule agree_intro) (rule E(5) [OF assms(3)])
  then show ?thesis
  proof (cases rule: agree_user)
    case (1 e x y)
    have xy: "erase_profiles (re_others a 2 x) = erase_profiles (re_others b 2 y)" by (rule E(5) [OF 1(3)])
    show ?thesis
      by (rule lookup_cases [OF xy, of "re_flt a 2" "id_provider i" "id_subject i"])
         (use 1 xy in \<open>simp_all add: resolve_new_def E(1-4) ij agree_same Let_def\<close>)
  next
    case (2 r s x y)
    then show ?thesis by (simp add: resolve_new_def E(1-4) ij agree_same)
  qed
qed

lemma agree_resolve:
  assumes "same_env a b" "same_subject i j" "erase_profiles d1 = erase_profiles d2"
  shows "agree erase_display (resolveIdentity cfg a i d1) (resolveIdentity cfg b j d2)"
proof -
  note E = same_envD [OF assms(1)]
  have ij: "id_provider j = id_provider i" "id_subject j = id_subject i"
    using assms(2) by (simp_all add: same_subject_def)
  note boot = bootstrap_cong [OF assms(2)]
  have xy: "erase_profiles (re_others a 0 d1) = erase_profiles (re_others b 0 d2)" by (rule E(5) [OF assms(3)])
  show ?thesis
    by (rule lookup_cases [OF xy, of "re_flt a 0" "id_provider i" "id_subject i"])
       (use xy agree_known [OF assms(1,2) xy] agree_new [OF assms(1,2) xy]
         in \<open>simp_all add: resolveIdentity_def Let_def E(1-4) ij boot agree_same\<close>)
qed

lemma agree_promote:
  assumes "same_env a b" "same_subject i j" "erase_profiles d1 = erase_profiles d2" "erase_display u = erase_display v"
  shows "agree erase_display (promoteBootstrapAdmin cfg a i u d1) (promoteBootstrapAdmin cfg b j v d2)"
proof -
  note E = same_envD [OF assms(1)]
  note boot = bootstrap_cong [OF assms(2)]
  have uv: "au_id v = au_id u" "au_role v = au_role u"
    using arg_cong [OF assms(4), of au_id] arg_cong [OF assms(4), of au_role] by simp_all
  have P: "agree erase_user
     (UpdateUserRoleRow (re_flt a 3) (re_now a) w roleAdmin (re_others a 3 d1))
     (UpdateUserRoleRow (re_flt a 3) (re_now a) w roleAdmin (re_others b 3 d2))" for w
    by (rule agree_intro) (rule E(5) [OF assms(3)])
  show ?thesis
  proof (cases "au_id u")
    case None
    then show ?thesis using assms(3,4) by (simp add: promoteBootstrapAdmin_def boot agree_same uv)
  next
    case (Some w)
    from P [of w] show ?thesis
      by (cases rule: agree_user)
        (use Some assms(3,4) in \<open>simp_all add: promoteBootstrapAdmin_def E(1-4) boot agree_same uv\<close>)
  qed
qed

text \<open>C4: Addresses never decide a sign-in, and neither do display names, which may be addresses. Take two sign-ins
  whose issuers answer with the same provider and subject but any addresses and display names, over tables that
  differ in stored addresses and display names only, with the same failures and other requests that differ in
  those only: both answer the same account with the same role, or the same error, and leave tables that again
  differ in addresses and display names only. So no issuer can reach an account of another issuer by releasing
  its address.\<close>

theorem email_never_matches:
  assumes "redeem_code pvs1 p code verifier = Inr i" "redeem_code pvs2 p code verifier = Inr j"
    and "same_subject i j" "same_env a b" "erase_profiles d1 = erase_profiles d2"
  shows "map_sum id erase_display (fst (ExchangeCodeForUser cfg pvs1 a p code verifier d1)) =
      map_sum id erase_display (fst (ExchangeCodeForUser cfg pvs2 b p code verifier d2)) \<and>
    erase_profiles (snd (ExchangeCodeForUser cfg pvs1 a p code verifier d1)) =
    erase_profiles (snd (ExchangeCodeForUser cfg pvs2 b p code verifier d2))"
proof -
  have "agree erase_display (ExchangeCodeForUser cfg pvs1 a p code verifier d1)
      (ExchangeCodeForUser cfg pvs2 b p code verifier d2)"
    using agree_resolve [OF assms(4,3,5), of cfg]
  proof (cases rule: agree_result)
    case (1 e x y)
    then show ?thesis by (simp add: ExchangeCodeForUser_def assms(1,2) agree_same)
  next
    case (2 u v x y)
    with agree_promote [OF assms(4,3) 2(4,3)] show ?thesis by (simp add: ExchangeCodeForUser_def assms(1,2))
  qed
  then show ?thesis by (cases rule: agree_result) simp_all
qed

end
