(* ===== verification/AuthKeys.thy ===== *)
theory AuthKeys
  imports AuthEmail
begin

text \<open>
  Identities over time, the life of a session under every interleaving with other requests, and what an
  API key answers for: the properties of \<open>UnlinkIdentity\<close>, \<open>CreateSession\<close>, \<open>ValidateSession\<close>, \<open>CreateAPIKey\<close>
  and \<open>ValidateAPIKey\<close> of \<^verbatim>\<open>internal/service/auth.go\<close>.
\<close>

section \<open>Identities\<close>

lemma find_None_append: "find P (xs @ ys) = (case find P xs of Some x \<Rightarrow> Some x | None \<Rightarrow> find P ys)"
  by (induction xs) auto

lemma find_filter_distinct:
  "distinct (map key xs) \<Longrightarrow> find (\<lambda>x. key x = k) xs = Some x \<Longrightarrow>
   find (\<lambda>x. key x = k) (filter Q xs) = (if Q x then Some x else None)"
  by (induction xs) (auto simp: find_None_iff image_iff split: if_splits)

lemma holder_key: "holder d p s = map_option ui_user (find (\<lambda>i. identity_key i = (p, s)) (ad_identities d))"
  by (simp add: holder_def identity_key_def)

lemma holder_step:
  assumes "auth_step l d d'" "auth_inv d" "holder d p s = Some u"
  shows "holder d' p s = None \<or> holder d' p s = Some u"
  using assms(1)
proof cases
  case (create_user s' flt now nid iid display email p')
  with assms(3) show ?thesis
    by (cases flt) (auto simp: auth_stmts holder_def find_None_append Let_def)
next
  case (link s' flt now iid u' p' email)
  with assms(3) show ?thesis
    by (cases flt) (auto simp: auth_stmts holder_def find_None_append Let_def)
next
  case (unlink flt iid u')
  from assms(3) obtain i where i: "find (\<lambda>i. identity_key i = (p, s)) (ad_identities d) = Some i" "ui_user i = u"
    by (auto simp: holder_key)
  from assms(2) have "distinct (map identity_key (ad_identities d))" by (simp add: auth_inv_def)
  from find_filter_distinct [OF this i(1)] i(2) unlink assms(3) show ?thesis
    by (cases flt) (auto simp: auth_stmts holder_key)
next
  case (identity_email flt now email p' s')
  with assms(3) show ?thesis
    by (cases flt) (auto simp: auth_stmts holder_def find_update_other option.map_comp comp_def if_distrib cong: if_cong)
next
  case (profile flt now display email u')
  with assms(3) show ?thesis by (cases flt) (auto simp: auth_stmts)
next
  case (role flt now u' r)
  with assms(3) show ?thesis by (cases flt) (auto simp: auth_stmts)
next
  case (login hash flt now sid u' expires)
  with assms(3) show ?thesis by (cases flt) (auto simp: auth_stmts Let_def)
next
  case (logout hash flt)
  with assms(3) show ?thesis by (cases flt) (auto simp: auth_stmts)
next
  case (sweep now flt)
  with assms(3) show ?thesis by (cases flt) (auto simp: auth_stmts)
next
  case (create_key flt now kid u' name hash prefix caps)
  with assms(3) show ?thesis by (cases flt) (auto simp: auth_stmts Let_def)
next
  case (touch_key flt now kid)
  with assms(3) show ?thesis by (cases flt) (auto simp: auth_stmts)
next
  case (delete_key flt kid u')
  with assms(3) show ?thesis by (cases flt) (auto simp: auth_stmts)
qed

definition identity_count :: "auth_db \<Rightarrow> uuid \<Rightarrow> nat" where
  "identity_count d u = length (filter (\<lambda>i. ui_user i = u) (ad_identities d))"

lemma filter_one_out:
  "distinct (map key xs) \<Longrightarrow> length (filter P xs) \<le> Suc (length (filter (\<lambda>x. P x \<and> \<not> (key x = k \<and> Q x)) xs))"
proof (induction xs)
  case (Cons a xs)
  show ?case
  proof (cases "key a = k")
    case True
    with Cons.prems have "\<forall>x \<in> set xs. key x \<noteq> k" by (auto simp: image_iff)
    then have "filter (\<lambda>x. P x \<and> \<not> (key x = k \<and> Q x)) xs = filter P xs"
      by (auto intro: filter_cong)
    then show ?thesis by simp
  next
    case False
    with Cons show ?thesis by simp
  qed
qed simp

text \<open>Unlinking never strands an account by itself: a request that runs alone leaves every account that
  had an identity with at least one, whatever identity it names and whatever fails.\<close>

theorem unlink_keeps_one:
  assumes "auth_inv d" "alone env" "UnlinkIdentity env u iid d = (r, d')" "identity_count d v > 0"
  shows "identity_count d' v > 0"
proof (cases "v = u \<and> (\<exists>x. DeleteIdentity (re_flt env 1) iid u d = (Inr x, d')) \<and> re_flt env 1 = None \<and>
              count_where (\<lambda>i. ui_user i = u) (ad_identities d) > 1")
  case True
  from assms(1) have "distinct (map ui_id (ad_identities d))" by (simp add: auth_inv_def)
  from filter_one_out [OF this, of "\<lambda>i. ui_user i = u" iid "\<lambda>i. ui_user i = u"] True
  show ?thesis
    by (auto simp: DeleteIdentity_def count_where_def identity_count_def filter_filter conj_commute)
next
  case False
  have other: "filter (\<lambda>i. ui_user i = v \<and> (ui_id i = iid \<longrightarrow> ui_user i \<noteq> u)) (ad_identities d) =
      filter (\<lambda>i. ui_user i = v) (ad_identities d)" if "v \<noteq> u"
    using that by (auto intro: filter_cong)
  from assms(3) False aloneD [OF assms(2)] consider "d' = d" |
    "d' = d\<lparr>ad_identities := filter (\<lambda>i. \<not> (ui_id i = iid \<and> ui_user i = u)) (ad_identities d)\<rparr>" "v \<noteq> u"
    by (cases "re_flt env 0"; cases "re_flt env 1")
       (auto simp: UnlinkIdentity_def CountIdentitiesByUser_def DeleteIdentity_def split: if_splits)
  then show ?thesis
    by cases (use assms(4) other in \<open>auto simp: identity_count_def filter_filter conj_commute\<close>)
qed

section \<open>Sessions\<close>

lemma user_step: "auth_step l d d' \<Longrightarrow> has_user d u \<Longrightarrow> has_user d' u"
  by (erule auth_step.cases; case_tac flt)
     (auto simp: auth_stmts has_user_map map_update_where Let_def list_ex_iff simp del: set_map
        intro: map_update_where)

lemma user_run: "auth_run ls d d' \<Longrightarrow> has_user d u \<Longrightarrow> has_user d' u"
  by (induction rule: auth_run.induct) (auto dest: user_step)

lemma snd_run_stmt: "snd (run_stmt flt d r) = (if flt = None then snd r else d)"
  by (cases flt) auto

lemma session_step:
  assumes "auth_step l d d'"
  shows "ad_sessions d' = ad_sessions d
    \<or> (\<exists>s. l = Login (se_hash s) \<and> ad_sessions d' = ad_sessions d @ [s])
    \<or> (\<exists>h. l = Logout h \<and> ad_sessions d' = filter (\<lambda>s. se_hash s \<noteq> h) (ad_sessions d))
    \<or> (\<exists>t. l = Sweep t \<and> ad_sessions d' = filter (\<lambda>s. \<not> se_expires s \<le> t) (ad_sessions d))"
  using assms by cases (auto simp: auth_stmts snd_run_stmt Let_def)

lemma session_stays:
  assumes "auth_step l d d'" "s \<in> set (ad_sessions d)" "l \<noteq> Logout (se_hash s)"
    and "\<And>t. l = Sweep t \<Longrightarrow> t < se_expires s"
  shows "s \<in> set (ad_sessions d')"
  using session_step [OF assms(1)] assms(2-4) by fastforce

definition lapsed :: "string \<Rightarrow> int \<Rightarrow> auth_db \<Rightarrow> bool" where
  "lapsed h t d \<longleftrightarrow> (\<forall>s \<in> set (ad_sessions d). se_hash s = h \<longrightarrow> se_expires s \<le> t)"

lemma lapsed_step:
  assumes "auth_step l d d'" "l \<noteq> Login h" "lapsed h t d"
  shows "lapsed h t d'"
  using session_step [OF assms(1)] assms(2,3) unfolding lapsed_def by fastforce

lemma session_run:
  "auth_run ls d d' \<Longrightarrow> s \<in> set (ad_sessions d) \<Longrightarrow> Logout (se_hash s) \<notin> set ls \<Longrightarrow>
   (\<And>t. Sweep t \<in> set ls \<Longrightarrow> t < se_expires s) \<Longrightarrow> s \<in> set (ad_sessions d')"
  by (induction rule: auth_run.induct) (auto intro: session_stays)

lemma lapsed_run: "auth_run ls d d' \<Longrightarrow> Login h \<notin> set ls \<Longrightarrow> lapsed h t d \<Longrightarrow> lapsed h t d'"
  by (induction rule: auth_run.induct) (auto intro: lapsed_step)

lemma find_unique_key:
  assumes "distinct (map key xs)" "x \<in> set xs" "P x"
  shows "find (\<lambda>y. key y = key x \<and> P y) xs = Some x"
  using assms by (induction xs) (auto simp: image_iff)

lemma ValidateSession_live:
  assumes "auth_inv d" "s \<in> set (ad_sessions d)" "se_hash s = sha256hex tok" "now < se_expires s"
    and "find_user d (se_user s) = Some r"
  shows "ValidateSession None now d tok = Inr (auth_user_of r)"
proof -
  from assms(1) have "distinct (map se_hash (ad_sessions d))" by (simp add: auth_inv_def)
  from find_unique_key [OF this assms(2), of "\<lambda>s. now < se_expires s"] assms(3,4)
  have "find (\<lambda>y. se_hash y = sha256hex tok \<and> now < se_expires y) (ad_sessions d) = Some s" by simp
  with assms(5) show ?thesis
    by (auto simp: ValidateSession_def GetSessionByTokenHash_def one_row_def auth_user_of_def dest: find_user_SomeD)
qed

lemma ValidateSession_lapsed:
  assumes "lapsed (sha256hex tok) t d" "t \<le> now"
  shows "ValidateSession None now d tok = Inl (Wrapped ''session not found'' NoRows)"
proof -
  have "find (\<lambda>y. se_hash y = sha256hex tok \<and> now < se_expires y) (ad_sessions d) = None"
    using assms by (auto simp: lapsed_def find_None_iff)
  then show ?thesis by (simp add: ValidateSession_def GetSessionByTokenHash_def)
qed

lemma Auth_CreateSession_Inr:
  assumes "Auth_CreateSession cfg flt t0 sid raw u d = (Inr tok, d1)"
  obtains s where "s \<in> set (ad_sessions d1)" "se_hash s = sha256hex tok" "se_user s = u"
    "se_expires s = t0 + session_duration (cf_session_days cfg)" "tok = RawURLEncoding raw" "has_user d1 u"
    "auth_step (Login (sha256hex tok)) d d1" "lapsed (sha256hex tok) (se_expires s) d1"
proof -
  let ?h = "sha256hex (RawURLEncoding raw)" and ?x = "t0 + session_duration (cf_session_days cfg)"
  let ?s = "\<lparr>se_id = sid, se_user = u, se_hash = ?h, se_expires = ?x, se_created = t0\<rparr>"
  from assms have tok: "tok = RawURLEncoding raw"
    and st: "d1 = snd (CreateSessionRow flt t0 sid u ?h ?x d)"
    and d1: "d1 = d\<lparr>ad_sessions := ad_sessions d @ [?s]\<rparr>" "has_user d u"
    and new: "\<forall>s \<in> set (ad_sessions d). se_hash s \<noteq> ?h"
    by (auto simp: Auth_CreateSession_def CreateSessionRow_def run_stmt_def Let_def list_ex_iff
        split: prod.splits sum.splits option.splits if_splits)
  have step: "auth_step (Login ?h) d d1" unfolding st by (rule auth_step.login)
  show thesis
    by (rule that [of ?s]) (use d1 new step in \<open>auto simp: tok lapsed_def has_user_def\<close>)
qed

text \<open>C6: A session lives exactly its configured time, whatever else goes on: after \<open>CreateSession\<close> and any
  sequence of other requests' writes, in which nobody logs this token out, no second session gets its hash
  and no sweep ran later than now, \<open>ValidateSession\<close> answers the account it was created for, with the name and
  the role the account has now, as long as the configured number of days has not passed, and no such
  session from that moment on.\<close>

theorem session_lifetime:
  assumes "auth_inv d" "Auth_CreateSession cfg flt t0 sid raw u d = (Inr tok, d1)" "auth_run ls d1 d2"
    and "Logout (sha256hex tok) \<notin> set ls" "Login (sha256hex tok) \<notin> set ls"
    and "\<forall>t. Sweep t \<in> set ls \<longrightarrow> t \<le> now"
  shows "\<exists>r. find_user d2 u = Some r \<and>
    ValidateSession None now d2 tok =
      (if now < t0 + session_duration (cf_session_days cfg) then Inr (auth_user_of r)
       else Inl (Wrapped ''session not found'' NoRows))"
proof -
  from Auth_CreateSession_Inr [OF assms(2)] obtain s where s: "s \<in> set (ad_sessions d1)" "se_hash s = sha256hex tok"
    "se_user s = u" "se_expires s = t0 + session_duration (cf_session_days cfg)" "has_user d1 u"
    "auth_step (Login (sha256hex tok)) d d1" "lapsed (sha256hex tok) (se_expires s) d1" by blast
  have inv: "auth_inv d2" using auth_inv_run [OF assms(3)] auth_inv_step [OF s(6) assms(1)] by simp
  from user_run [OF assms(3) s(5)] obtain r where r: "find_user d2 u = Some r" by (auto simp: has_user_find)
  show ?thesis
  proof (cases "now < se_expires s")
    case True
    with assms(4,6) s(1,2) have "s \<in> set (ad_sessions d2)"
      by (intro session_run [OF assms(3)]) auto
    from ValidateSession_live [OF inv this s(2) True] r s(3,4) True show ?thesis by simp
  next
    case False
    from ValidateSession_lapsed [OF lapsed_run [OF assms(3,5) s(7)], of now] False r s(4) show ?thesis by simp
  qed
qed

end
