(* ===== verification/NamespaceApi.thy ===== *)
theory NamespaceApi
  imports NamespaceMembers
begin

text \<open>
  The namespace handlers of \<^verbatim>\<open>internal/api/namespace.go\<close> and \<^verbatim>\<open>namespace_member.go\<close>: what each
  endpoint answers for a caller, over the services and the tables. A handler takes the caller in
  the request's context and answers an HTTP error or a body; handlers that write also answer the
  new tables.
\<close>

type_synonym 'a response = "http_error + 'a"

definition canReadPrivate :: "auth_user option \<Rightarrow> namespace \<Rightarrow> bool" where
  "canReadPrivate ctx ns = canFromContext ctx (nsv_id ns) CapReadPrivate"

definition callerCapabilities :: "auth_user \<Rightarrow> string \<Rightarrow> string list" where
  "callerCapabilities u ns = filter (\<lambda>c. can u ns c) allCapabilities"

text \<open>The listing's rows: each namespace, the display name of its owner where the user list has it,
  and what the caller may do there.\<close>

definition listNamespaces ::
  "fault \<Rightarrow> auth_user list result \<Rightarrow> db \<Rightarrow> auth_user option \<Rightarrow> visibility_filter \<Rightarrow>
   (namespace \<times> string option \<times> string list) list response" where
  "listNamespaces flt user_list d ctx vis =
     (case ctx of
        None \<Rightarrow> Inl (401, ''not authenticated'')
      | Some user \<Rightarrow>
         (case Namespace_List flt d vis of
            Inl e \<Rightarrow> Inl (mapServiceError e)
          | Inr rows \<Rightarrow>
             (let owner_names = (case user_list of
                    Inl e \<Rightarrow> Map.empty
                  | Inr us \<Rightarrow> map_of (rev (map (\<lambda>u. (uuidToStr (au_id u), au_display u)) us)))
              in Inr (map (\<lambda>ns. (ns, Option.bind (nsv_owner ns) owner_names,
                                 callerCapabilities user (nsv_id ns))) rows))))"

definition ListNamespaces where
  "ListNamespaces flt user_list d ctx =
     listNamespaces flt user_list d ctx (visibilityFilterFromContext ctx)"

definition ListMyNamespaces where
  "ListMyNamespaces flt user_list d ctx =
     listNamespaces flt user_list d ctx (ownedFilterFromContext ctx)"

definition GetNamespace ::
  "uuid_parser \<Rightarrow> fault \<Rightarrow> db \<Rightarrow> auth_user option \<Rightarrow> string \<Rightarrow> namespace response" where
  "GetNamespace parse flt d ctx sid =
     (case ctx of
        None \<Rightarrow> Inl (401, ''not authenticated'')
      | Some _ \<Rightarrow>
         (case Namespace_Get parse flt d sid of
            Inl e \<Rightarrow> Inl (404, ''namespace not found'')
          | Inr ns \<Rightarrow>
             if nsv_visibility ns = ''private'' \<and> \<not> canReadPrivate ctx ns
             then Inl (404, ''namespace not found'') else Inr ns))"

text \<open>\<open>restricted\<close> is the \<open>SELF_SERVICE_NAMESPACES=false\<close> setting, \<open>None\<close> with no configuration.\<close>

definition requireNamespaceCreation :: "bool option \<Rightarrow> auth_user \<Rightarrow> http_error option" where
  "requireNamespaceCreation restricted u =
     (if restricted \<noteq> Some True then None
      else if au_role u = roleAdmin \<or> au_role u = roleMember then None
      else Some (403, ''namespace creation is restricted to members on this installation''))"

definition CreateNamespace ::
  "bool option \<Rightarrow> fault \<Rightarrow> int \<Rightarrow> uuid \<Rightarrow> db \<Rightarrow> auth_user option \<Rightarrow> string \<Rightarrow> string \<Rightarrow>
   namespace response \<times> db" where
  "CreateNamespace restricted flt now nid d ctx name vis =
     (case ctx of
        None \<Rightarrow> (Inl (401, ''not authenticated''), d)
      | Some u \<Rightarrow>
         (case requireNamespaceCreation restricted u of
            Some e \<Rightarrow> (Inl e, d)
          | None \<Rightarrow>
             (case Namespace_Create flt now nid d name (au_id u) vis of
                (Inl e, d') \<Rightarrow> (Inl (mapServiceError e), d')
              | (Inr ns, d') \<Rightarrow> (Inr ns, d'))))"

definition UpdateNamespace ::
  "uuid_parser \<Rightarrow> fault \<Rightarrow> fault \<Rightarrow> fault \<Rightarrow> int \<Rightarrow> db \<Rightarrow> auth_user option \<Rightarrow> string \<Rightarrow> string \<Rightarrow> string \<Rightarrow>
   namespace response \<times> db" where
  "UpdateNamespace parse f0 f1 f2 now d ctx sid name vis =
     (case ctx of
        None \<Rightarrow> (Inl (401, ''not authenticated''), d)
      | Some u \<Rightarrow>
         (case Namespace_Get parse f0 d sid of
            Inl e \<Rightarrow> (Inl (404, ''namespace not found''), d)
          | Inr existing \<Rightarrow>
             if \<not> can u (nsv_id existing) CapManageMember then (Inl (403, ''forbidden''), d)
             else (case Namespace_Update parse f1 f2 now d sid name vis of
                     (Inl e, d') \<Rightarrow> (Inl (mapServiceError e), d')
                   | (Inr ns, d') \<Rightarrow> (Inr ns, d'))))"

definition DeleteNamespace ::
  "uuid_parser \<Rightarrow> fault \<Rightarrow> fault \<Rightarrow> db \<Rightarrow> auth_user option \<Rightarrow> string \<Rightarrow> unit response \<times> db" where
  "DeleteNamespace parse f0 f1 d ctx sid =
     (case ctx of
        None \<Rightarrow> (Inl (401, ''not authenticated''), d)
      | Some u \<Rightarrow>
         (case Namespace_Get parse f0 d sid of
            Inl e \<Rightarrow> (Inl (404, ''namespace not found''), d)
          | Inr existing \<Rightarrow>
             if \<not> can u (nsv_id existing) CapDeleteNamespace then (Inl (403, ''forbidden''), d)
             else (case Namespace_Delete parse f1 d sid of
                     (Inl e, d') \<Rightarrow> (Inl (mapServiceError e), d')
                   | (Inr _, d') \<Rightarrow> (Inr (), d'))))"

definition requireNamespaceCapability ::
  "uuid_parser \<Rightarrow> fault \<Rightarrow> db \<Rightarrow> auth_user \<Rightarrow> string \<Rightarrow> capability \<Rightarrow> http_error option" where
  "requireNamespaceCapability parse flt d u sid c =
     (case Namespace_Get parse flt d sid of
        Inl e \<Rightarrow> Some (404, ''namespace not found'')
      | Inr _ \<Rightarrow> if \<not> can u sid c then Some (403, ''forbidden'') else None)"

section \<open>Members\<close>

record member_response =
  mresp_user :: string
  mresp_username :: string
  mresp_role :: role
  mresp_caps :: "string list"
  mresp_created :: int

definition toNamespaceMemberResponse :: "namespace_member \<Rightarrow> string \<Rightarrow> member_response" where
  "toNamespaceMemberResponse m username =
     \<lparr>mresp_user = nm_user m, mresp_username = username, mresp_role = nm_role m,
      mresp_caps = Capabilities (nm_role m), mresp_created = nm_created m\<rparr>"

definition usernamesByID :: "auth_user list result option \<Rightarrow> (string \<rightharpoonup> string)" where
  "usernamesByID svc =
     (case svc of
        None \<Rightarrow> Map.empty
      | Some (Inl e) \<Rightarrow> Map.empty
      | Some (Inr us) \<Rightarrow> map_of (rev (map (\<lambda>u. (uuidToStr (au_id u), au_display u)) us)))"

definition API_ListNamespaceMembers ::
  "uuid_parser \<Rightarrow> fault \<Rightarrow> auth_user list result option \<Rightarrow> db \<Rightarrow> string \<Rightarrow> member_response list response" where
  "API_ListNamespaceMembers parse flt svc d sid =
     (case ListMembers parse flt d sid of
        Inl e \<Rightarrow> Inl (mapServiceError e)
      | Inr ms \<Rightarrow>
          Inr (map (\<lambda>m. toNamespaceMemberResponse m
                      (case usernamesByID svc (nm_user m) of None \<Rightarrow> [] | Some n \<Rightarrow> n)) ms))"

definition SetNamespaceMember ::
  "uuid_parser \<Rightarrow> (uuid \<Rightarrow> auth_user result) \<Rightarrow> fault \<Rightarrow> fault \<Rightarrow> int \<Rightarrow> db \<Rightarrow> auth_user option \<Rightarrow>
   set_member_params \<Rightarrow> member_response response \<times> db" where
  "SetNamespaceMember parse get_user f1 f2 now d ctx p =
     (case ctx of
        None \<Rightarrow> (Inl (401, ''not authenticated''), d)
      | Some user \<Rightarrow>
         if \<not> mayGrant user (smp_ns p) (smp_role p)
         then (Inl (403, ''cannot grant a role you do not hold''), d)
         else (case parse (smp_user p) of
                 None \<Rightarrow> (Inl (400, ''invalid UUID: '' @ smp_user p), d)
               | Some target \<Rightarrow>
                  (case get_user target of
                     Inl e \<Rightarrow> (Inl (404, ''user not found''), d)
                   | Inr targetUser \<Rightarrow>
                      (case SetMember parse f1 f2 now d p of
                         (Inl e, d') \<Rightarrow> (Inl (mapServiceError e), d')
                       | (Inr m, d') \<Rightarrow>
                           (Inr (toNamespaceMemberResponse m (au_display targetUser)), d')))))"

definition API_RemoveNamespaceMember ::
  "uuid_parser \<Rightarrow> fault \<Rightarrow> fault \<Rightarrow> db \<Rightarrow> string \<Rightarrow> string \<Rightarrow> unit response \<times> db" where
  "API_RemoveNamespaceMember parse f1 f2 d sns suser =
     (case RemoveMember parse f1 f2 d sns suser of
        (Inl e, d') \<Rightarrow> (Inl (mapServiceError e), d')
      | (Inr _, d') \<Rightarrow> (Inr (), d'))"

section \<open>Reading a namespace and being listed it\<close>

definition visibility_ok :: "db \<Rightarrow> bool" where
  "visibility_ok d \<longleftrightarrow> (\<forall>n \<in> set (namespaces d). ns_visibility n \<in> {''public'', ''private''})"

text \<open>The principal the authentication middleware builds for user \<open>v\<close>: its grants are the rows of the
  membership table.\<close>

definition loaded_grants :: "db \<Rightarrow> uuid \<Rightarrow> string \<rightharpoonup> role" where
  "loaded_grants d v =
     (case LoadGrants (\<lambda>u. case ListNamespaceMembershipsForUser None d u of
                        Inl e \<Rightarrow> Inl e | Inr ms \<Rightarrow> Inr (map (\<lambda>m. (Some (mr_ns m), mr_role m)) ms))
             (Some v) of
        Inl e \<Rightarrow> Map.empty | Inr g \<Rightarrow> g)"

lemma grants_of_rows_map_of:
  "grants_of_rows rows out = out ++ map_of (rev (map (\<lambda>(ns, r). (uuidToStr ns, r)) rows))"
  by (induction rows out rule: grants_of_rows.induct)
    (simp_all add: map_add_upd_left map_add_assoc [symmetric] del: fun_upd_apply)

lemma loaded_grants_iff:
  assumes ok: "db_ok d"
  shows "loaded_grants d v (uuid_str ns) = Some r \<longleftrightarrow>
    (\<exists>m \<in> set (members d). mr_ns m = ns \<and> mr_user m = v \<and> mr_role m = r)"
proof -
  let ?mine = "filter (\<lambda>m. mr_user m = v) (members d)"
  let ?rows = "rev (map (\<lambda>m. (uuid_str (mr_ns m), mr_role m)) (sort_by (on_key int_cmp mr_created) ?mine))"
  have "distinct (map member_key (members d))" using ok by (simp add: db_ok_def)
  then have keys: "distinct (members d)" "inj_on member_key (set (members d))"
    by (simp_all add: distinct_map)
  have "inj_on (\<lambda>m. uuid_str (mr_ns m)) (set ?mine)"
  proof (rule inj_onI)
    fix a b
    assume "a \<in> set ?mine" "b \<in> set ?mine" "uuid_str (mr_ns a) = uuid_str (mr_ns b)"
    then show "a = b"
      using inj_onD [OF keys(2), of a b] by (auto simp: member_key_def dest: uuid_str_inj)
  qed
  then have "distinct (map (\<lambda>m. uuid_str (mr_ns m)) (sort_by (on_key int_cmp mr_created) ?mine))"
    using keys(1) by (simp add: distinct_map)
  then have dist: "distinct (map fst ?rows)"
    by (simp add: comp_def flip: rev_map)
  have "loaded_grants d v = map_of ?rows"
    by (simp add: loaded_grants_def LoadGrants_def ListNamespaceMembershipsForUser_def
        grants_of_rows_map_of comp_def)
  then show ?thesis
    using map_of_eq_Some_iff [OF dist, of "uuid_str ns" r] by (force dest: uuid_str_inj)
qed

lemma Allows_ReadPrivate: "Role_Valid r \<Longrightarrow> Allows r CapReadPrivate"
  unfolding Role_Valid_iff
  by (erule allRoles_cases)
    (simp_all add: Allows_def map_bool_of_list allCapabilities_def, simp add: cap_defs)

lemma can_read_private_iff:
  assumes "db_ok d" and "au_id u = Some v" and "\<not> au_api_key_auth u"
    and "au_grants u = loaded_grants d v"
  shows "can u (uuid_str ns) CapReadPrivate \<longleftrightarrow> au_role u = globalRoleAdmin \<or> is_member d ns (au_id u)"
proof -
  have "Role_Valid (mr_role m)" if "m \<in> set (members d)" for m
    using assms(1) that by (auto simp: db_ok_def)
  then show ?thesis
    using Allows_ReadPrivate
    by (auto simp: can_session [OF assms(3)] assms(2,4) loaded_grants_iff [OF assms(1)] is_member_def
        list_ex_iff Allow_def) 
qed

text \<open>For a browser session the two read paths agree. A caller whose grants were loaded from the
  membership table can open a namespace by its id exactly when the listing's SQL visibility rule
  selects it for them, for public and private namespaces, members, outsiders and admins alike.\<close>

theorem GetNamespace_agrees_with_list:
  assumes "db_ok d" and "visibility_ok d"
    and "au_id u = Some v" and "\<not> au_api_key_auth u" and "au_grants u = loaded_grants d v"
    and "parse (uuid_str nid) = Some nid"
  shows "(\<exists>ns. GetNamespace parse None d (Some u) (uuid_str nid) = Inr ns) \<longleftrightarrow>
    nid \<in> set (visible_namespace_ids d (vf_user_id (visibilityFilterFromContext (Some u)))
                 (vf_is_admin (visibilityFilterFromContext (Some u))))"
proof (cases "find (\<lambda>n. ns_id n = nid) (namespaces d)")
  case None
  then have "nid \<notin> ns_id ` set (namespaces d)" by (auto dest: find_NoneD)
  with None assms(6) show ?thesis
    by (auto simp: GetNamespace_def Namespace_Get_def GetNamespaceRow_def visible_namespace_ids_def)
next
  case (Some n)
  then have n: "n \<in> set (namespaces d)" "ns_id n = nid" by (auto dest: find_SomeD)
  have unique: "k = n" if "k \<in> set (namespaces d)" "ns_id k = nid" for k
  proof -
    have "inj_on ns_id (set (namespaces d))"
      using assms(1) by (simp add: db_ok_def distinct_map)
    then show ?thesis using that n by (metis inj_onD)
  qed
  have vis: "ns_visibility n = ''public'' \<longleftrightarrow> ns_visibility n \<noteq> ''private''"
    using assms(2) n(1) by (auto simp: visibility_ok_def)
  have "(\<exists>ns. GetNamespace parse None d (Some u) (uuid_str nid) = Inr ns) \<longleftrightarrow>
      \<not> (ns_visibility n = ''private'' \<and> \<not> can u (uuid_str nid) CapReadPrivate)"
    using Some assms(6) n(2)
    by (simp add: GetNamespace_def Namespace_Get_def GetNamespaceRow_def namespaceFromRepo_def
        canReadPrivate_def canFromContext_def)
  also have "\<dots> \<longleftrightarrow> au_role u = roleAdmin \<or> ns_visibility n = ''public'' \<or> is_member d nid (Some v)"
    using can_read_private_iff [OF assms(1,3-5), of nid] vis
    by (simp add: assms(3) roleAdmin_def globalRoleAdmin_def)
  also have "\<dots> \<longleftrightarrow> nid \<in> set (visible_namespace_ids d (Some v) (au_role u = roleAdmin))"
  proof -
    have "nid \<in> ns_id ` {k \<in> set (namespaces d). P k} \<longleftrightarrow> P n" for P
      using n unique by blast
    then show ?thesis by (simp add: visible_namespace_ids_def n(2))
  qed
  finally show ?thesis
    by (simp add: visibilityFilterFromContext_def zero_filter_def assms(3))
qed

definition demo_ns_db :: db where
  "demo_ns_db =
     \<lparr>namespaces = [\<lparr>ns_id = 7, ns_name = ''team'', ns_visibility = ''private'', ns_created = 0, ns_updated = 0\<rparr>],
      members = [\<lparr>mr_ns = 7, mr_user = 1, mr_role = RoleOwner, mr_created = 0\<rparr>], users = [1]\<rparr>"

lemma demo_ns_db_ok: "db_ok demo_ns_db" "visibility_ok demo_ns_db"
  by (simp_all add: demo_ns_db_def db_ok_def visibility_ok_def Role_Valid_iff allRoles_def)

theorem GetNamespace_agrees_with_list_witness:
  "\<exists>ns. GetNamespace (\<lambda>s. Some 7) None demo_ns_db
     (Some (demo_user ''member'' (loaded_grants demo_ns_db 1))) (uuid_str 7) = Inr ns"
  by (subst GetNamespace_agrees_with_list [OF demo_ns_db_ok, where v = 1])
    (simp_all add: demo_user_def visibilityFilterFromContext_def zero_filter_def
      visible_namespace_ids_def is_member_def demo_ns_db_def)

text \<open>The row-level half of authorization ignores an API key's ceiling. For a key that does not
  declare \<open>read_private\<close> there are tables and a caller for which the namespace listing returns a
  private namespace that the same key is told does not exist when it asks for it by id; the key's
  visibility filter is the one its owner's session would get, whatever the key declares.\<close>

theorem key_ceiling_not_applied_to_listing:
  "\<exists>d u. db_ok d \<and> au_api_key_auth u \<and> CapReadPrivate \<notin> set (au_api_key_caps u) \<and>
     visibilityFilterFromContext (Some u) =
       visibilityFilterFromContext (Some (u\<lparr>au_api_key_auth := False\<rparr>)) \<and>
     GetNamespace (\<lambda>s. Some 7) None d (Some u) (uuid_str 7) = Inl (404, ''namespace not found'') \<and>
     (\<exists>ns others. ListNamespaces None (Inr []) d (Some u) = Inr ((ns, others) # []) \<and>
        nsv_id ns = uuid_str 7 \<and> nsv_visibility ns = ''private'')"
proof (intro exI conjI)
  let ?u = "(demo_user ''member'' [uuid_str 7 \<mapsto> RoleOwner])\<lparr>au_api_key_auth := True,
      au_api_key_caps := [CapIngest]\<rparr>"
  show "db_ok demo_ns_db" by (rule demo_ns_db_ok)
  show "au_api_key_auth ?u" by simp
  show "CapReadPrivate \<notin> set (au_api_key_caps ?u)" by (simp add: cap_defs)
  show "visibilityFilterFromContext (Some ?u) =
      visibilityFilterFromContext (Some (?u\<lparr>au_api_key_auth := False\<rparr>))"
    by (simp add: visibilityFilterFromContext_def)
  have "\<not> can ?u (uuid_str 7) CapReadPrivate"
    by (simp add: can_def KeyAllows_def cap_defs)
  then show "GetNamespace (\<lambda>s. Some 7) None demo_ns_db (Some ?u) (uuid_str 7) =
      Inl (404, ''namespace not found'')"
    by (simp add: GetNamespace_def Namespace_Get_def GetNamespaceRow_def namespaceFromRepo_def
        canReadPrivate_def canFromContext_def demo_ns_db_def)
  let ?row = "hd (namespaces demo_ns_db)"
  show "ListNamespaces None (Inr []) demo_ns_db (Some ?u) =
      Inr ((namespaceFromRepo ?row (Some 1), None, callerCapabilities ?u (uuid_str 7)) # [])"
    by (simp add: ListNamespaces_def listNamespaces_def Namespace_List_def ListNamespaceRows_def
        visibilityFilterFromContext_def zero_filter_def visible_namespace_ids_def is_member_def
        demo_ns_db_def namespace_owner_def namespaceFromRepo_def demo_user_def)
  show "nsv_id (namespaceFromRepo ?row (Some 1)) = uuid_str 7"
    "nsv_visibility (namespaceFromRepo ?row (Some 1)) = ''private''"
    by (simp_all add: namespaceFromRepo_def demo_ns_db_def)
qed

end
