(* ===== verification/AuthApi.thy ===== *)
theory AuthApi
  imports AuthKeys NamespaceApi
begin

text \<open>
  The sign-in endpoints: \<^verbatim>\<open>internal/api/auth.go\<close> and \<^verbatim>\<open>internal/api/identity.go\<close>. An endpoint is its handler
  behind the middlewares it is registered with, over the tables of \<open>AuthTables\<close>; the bearer and cookie
  authentication of \<open>Principal\<close> is instantiated with the service. Signing a state cookie (the securecookie
  package) is the argument \<open>decode\<close>, parsing a UUID the argument \<open>parse\<close>, and the destination the browser
  returns to is part of the signed state.
\<close>

section \<open>Middlewares\<close>

fun first_refusal :: "(auth_user option \<Rightarrow> http_error option) list \<Rightarrow> auth_user option \<Rightarrow> http_error option" where
  "first_refusal [] ctx = None"
| "first_refusal (m # ms) ctx = (case m ctx of Some e \<Rightarrow> Some e | None \<Rightarrow> first_refusal ms ctx)"

definition behind ::
  "(auth_user option \<Rightarrow> http_error option) list \<Rightarrow> (auth_user option \<Rightarrow> 'd \<Rightarrow> 'a response \<times> 'd) \<Rightarrow>
   auth_user option \<Rightarrow> 'd \<Rightarrow> 'a response \<times> 'd" where
  "behind ms h ctx d = (case first_refusal ms ctx of Some e \<Rightarrow> (Inl e, d) | None \<Rightarrow> h ctx d)"

section \<open>Who is asking\<close>

record me_output =
  me_id :: string
  me_display :: string
  me_role :: string
  me_memberships :: "(string \<times> role) list"

text \<open>\<open>keys\<close> lists the keys of the grants map in the order the runtime visits them.\<close>

definition GetMe :: "string list \<Rightarrow> auth_user option \<Rightarrow> me_output response" where
  "GetMe keys ctx =
     (case ctx of
        None \<Rightarrow> Inl (401, ''not authenticated'')
      | Some u \<Rightarrow> Inr \<lparr>me_id = uuid_str (case au_id u of None \<Rightarrow> 0 | Some i \<Rightarrow> i),
          me_display = au_display u, me_role = au_role u,
          me_memberships = sort_by (on_key str_cmp fst)
            (List.map_filter (\<lambda>k. map_option (Pair k) (au_grants u k)) keys)\<rparr>)"

section \<open>API keys\<close>

definition CreateAPIKey ::
  "fault \<Rightarrow> int \<Rightarrow> uuid \<Rightarrow> string \<Rightarrow> string \<Rightarrow> string list \<Rightarrow> auth_user option \<Rightarrow> auth_db \<Rightarrow>
   string response \<times> auth_db" where
  "CreateAPIKey flt now kid raw name names ctx d =
     (case ctx of
        None \<Rightarrow> (Inl (401, ''not authenticated''), d)
      | Some u \<Rightarrow>
          (case ParseCapabilities names of
             Inl e \<Rightarrow> (Inl (422, ''unknown capability''), d)
           | Inr caps \<Rightarrow>
               (case au_id u of
                  None \<Rightarrow> (Inl (mapServiceError (OtherError ''null user'')), d)
                | Some uid \<Rightarrow>
                    (case Auth_CreateAPIKey flt now kid raw uid name caps d of
                       (Inl e, d1) \<Rightarrow> (Inl (mapServiceError e), d1)
                     | (Inr key, d1) \<Rightarrow> (Inr key, d1)))))"

definition route_create_api_key where
  "route_create_api_key flt now kid raw name names =
     behind [RequireMember, RequireWrite] (CreateAPIKey flt now kid raw name names)"

definition ListAPIKeys :: "fault \<Rightarrow> auth_db \<Rightarrow> auth_user option \<Rightarrow> api_key_meta list response" where
  "ListAPIKeys flt d ctx =
     (case ctx of
        None \<Rightarrow> Inl (401, ''not authenticated'')
      | Some u \<Rightarrow>
          (case au_id u of
             None \<Rightarrow> Inr []
           | Some uid \<Rightarrow> (case Auth_ListAPIKeys flt d uid of
                Inl e \<Rightarrow> Inl (500, ''listing keys'')
              | Inr keys \<Rightarrow> Inr keys)))"

definition DeleteAPIKey ::
  "uuid_parser \<Rightarrow> fault \<Rightarrow> string \<Rightarrow> auth_user option \<Rightarrow> auth_db \<Rightarrow> unit response \<times> auth_db" where
  "DeleteAPIKey parse flt sid ctx d =
     (case ctx of
        None \<Rightarrow> (Inl (401, ''not authenticated''), d)
      | Some u \<Rightarrow>
          (case parse sid of
             None \<Rightarrow> (Inl (400, ''invalid key id''), d)
           | Some kid \<Rightarrow>
               (case au_id u of
                  None \<Rightarrow> (Inl (404, ''key not found''), d)
                | Some uid \<Rightarrow> (case Auth_DeleteAPIKey flt uid kid d of
                     (Inl e, d1) \<Rightarrow> (Inl (404, ''key not found''), d1)
                   | (Inr _, d1) \<Rightarrow> (Inr (), d1)))))"

section \<open>Accounts\<close>

record user_response =
  ur_id :: string
  ur_display :: string
  ur_role :: string

definition user_response_of :: "auth_user \<Rightarrow> user_response" where
  "user_response_of u = \<lparr>ur_id = uuid_str (case au_id u of None \<Rightarrow> 0 | Some i \<Rightarrow> i),
     ur_display = au_display u, ur_role = au_role u\<rparr>"

definition ListUsers :: "fault \<Rightarrow> auth_db \<Rightarrow> user_response list response" where
  "ListUsers flt d =
     (case Auth_ListUsers flt d of
        Inl e \<Rightarrow> Inl (500, ''listing users'')
      | Inr us \<Rightarrow> Inr (map user_response_of us))"

definition UpdateUserRole ::
  "uuid_parser \<Rightarrow> fault \<Rightarrow> int \<Rightarrow> string \<Rightarrow> string \<Rightarrow> auth_user option \<Rightarrow> auth_db \<Rightarrow>
   user_response response \<times> auth_db" where
  "UpdateUserRole parse flt now sid role ctx d =
     (case parse sid of
        None \<Rightarrow> (Inl (400, ''invalid user id''), d)
      | Some target \<Rightarrow>
          (case Auth_UpdateUserRole flt now target role d of
             (Inl e, d1) \<Rightarrow> (Inl (400, ''updating role''), d1)
           | (Inr u, d1) \<Rightarrow> (Inr (user_response_of u), d1)))"

definition route_update_user_role where
  "route_update_user_role parse flt now sid role =
     behind [RequireAdmin, RequireWrite] (UpdateUserRole parse flt now sid role)"

section \<open>Identities\<close>

definition providerDisplayName :: "string \<Rightarrow> string" where
  "providerDisplayName name =
     (if name = ProviderGitHub then ''GitHub'' else trim_prefix name ProviderOIDCPrefix)"

definition ListAuthProviders :: "provider list \<Rightarrow> (string \<times> string \<times> string) list" where
  "ListAuthProviders ps =
     map (\<lambda>n. (n, providerDisplayName n, ''/auth/login/'' @ n)) (ProviderNames ps)"

definition ListMyIdentities ::
  "fault \<Rightarrow> auth_db \<Rightarrow> auth_user option \<Rightarrow> (linked_identity \<times> string) list response" where
  "ListMyIdentities flt d ctx =
     (case ctx of
        None \<Rightarrow> Inl (401, ''not authenticated'')
      | Some u \<Rightarrow>
          (case au_id u of
             None \<Rightarrow> Inr []
           | Some uid \<Rightarrow> (case ListIdentities flt d uid of
                Inl e \<Rightarrow> Inl (mapServiceError e)
              | Inr rows \<Rightarrow> Inr (map (\<lambda>r. (r, providerDisplayName (li_provider r))) rows))))"

definition UnlinkIdentity_handler ::
  "uuid_parser \<Rightarrow> request_env \<Rightarrow> string \<Rightarrow> auth_user option \<Rightarrow> auth_db \<Rightarrow> unit response \<times> auth_db" where
  "UnlinkIdentity_handler parse env sid ctx d =
     (case ctx of
        None \<Rightarrow> (Inl (401, ''not authenticated''), d)
      | Some u \<Rightarrow>
          (case parse sid of
             None \<Rightarrow> (Inl (400, ''invalid UUID: '' @ sid), d)
           | Some iid \<Rightarrow>
               (case au_id u of
                  None \<Rightarrow> (Inl (409, ''cannot unlink the only way to sign in to this account''), d)
                | Some uid \<Rightarrow>
                    (case UnlinkIdentity env uid iid d of
                       (Inl e, d1) \<Rightarrow>
                         if errors_is e ErrConflict
                         then (Inl (409, ''cannot unlink the only way to sign in to this account''), d1)
                         else (Inl (mapServiceError e), d1)
                     | (Inr _, d1) \<Rightarrow> (Inr (), d1)))))"

definition route_unlink_identity where
  "route_unlink_identity parse env sid =
     behind [RequireAuthenticated, RequireWrite] (UnlinkIdentity_handler parse env sid)"

section \<open>Signing in and linking\<close>

datatype same_site = SameSiteLax | SameSiteStrict | SameSiteNone

record cookie =
  ck_name :: string
  ck_value :: string
  ck_max_age :: int
  ck_same_site :: same_site
  ck_secure :: bool

definition envProduction :: string where "envProduction = ''production''"

definition stateCookieFor :: "string \<Rightarrow> string \<Rightarrow> int \<Rightarrow> cookie" where
  "stateCookieFor environment v max_age =
     \<lparr>ck_name = ''ocidex_oauth_state'', ck_value = v, ck_max_age = max_age, ck_same_site = SameSiteLax,
      ck_secure = (environment = envProduction)\<rparr>"

text \<open>\<open>setting\<close> is \<open>SESSION_COOKIE_SAMESITE\<close>.\<close>

definition sessionCookie :: "string \<Rightarrow> string \<Rightarrow> string \<Rightarrow> int \<Rightarrow> cookie" where
  "sessionCookie environment setting v max_age =
     (let ss = (if setting = ''strict'' then SameSiteStrict else if setting = ''none'' then SameSiteNone
                else SameSiteLax)
      in \<lparr>ck_name = ''ocidex_session'', ck_value = v, ck_max_age = max_age, ck_same_site = ss,
          ck_secure = (environment = envProduction \<or> ss = SameSiteNone)\<rparr>)"

datatype callback_answer =
    Refused nat string
  | SignedIn string string
  | LinkDone string

text \<open>What a callback request carries: the state cookie, the session cookie, the query's state and code and
  the provider of the path.\<close>

record callback_request =
  cb_state_cookie :: "string option"
  cb_session_cookie :: "string option"
  cb_state :: string
  cb_code :: string
  cb_path_provider :: string

record api_config =
  ap_auth :: auth_config
  ap_frontend :: string

definition state_get :: "(string \<rightharpoonup> string) \<Rightarrow> string \<Rightarrow> string" where
  "state_get data k = (case data k of None \<Rightarrow> [] | Some v \<Rightarrow> v)"

definition oauthModeLink :: string where "oauthModeLink = ''link''"
definition accountPath :: string where "accountPath = ''/admin/account''"

definition frontend_of :: "api_config \<Rightarrow> (string \<rightharpoonup> string) \<Rightarrow> string" where
  "frontend_of cfg data =
     (if state_get data ''frontend_url'' = [] then ap_frontend cfg else state_get data ''frontend_url'')"

definition finishIdentityLink ::
  "api_config \<Rightarrow> (string \<Rightarrow> provider option) \<Rightarrow> request_env \<Rightarrow> fault \<Rightarrow> callback_request \<Rightarrow> string \<Rightarrow>
   (string \<rightharpoonup> string) \<Rightarrow> auth_db \<Rightarrow> callback_answer \<times> auth_db" where
  "finishIdentityLink cfg pvs env flt req p data d =
     (case cb_session_cookie req of
        None \<Rightarrow> (Refused 401 ''not authenticated'', d)
      | Some token \<Rightarrow>
          (case ValidateSession flt (re_now env) d token of
             Inl e \<Rightarrow> (Refused 401 ''not authenticated'', d)
           | Inr u \<Rightarrow>
               (case au_id u of
                  None \<Rightarrow> (Refused 400 ''session changed during linking'', d)
                | Some uid \<Rightarrow>
                    if uuid_str uid \<noteq> state_get data ''user_id''
                    then (Refused 400 ''session changed during linking'', d)
                    else (case LinkIdentity pvs env uid p (cb_code req) (state_get data ''verifier'') d of
                            (r, d1) \<Rightarrow>
                              (LinkDone (frontend_of cfg data @ accountPath @ ''?link='' @
                                 (case r of Inr _ \<Rightarrow> ''ok''
                                  | Inl e \<Rightarrow> if errors_is e ErrConflict then ''conflict'' else ''error'')), d1)))))"

definition callback_provider :: "callback_request \<Rightarrow> (string \<rightharpoonup> string) \<Rightarrow> string" where
  "callback_provider req data =
     (if state_get data ''provider'' \<noteq> [] then state_get data ''provider''
      else if cb_path_provider req \<noteq> [] then cb_path_provider req else ProviderGitHub)"

definition HandleCallback ::
  "(string \<Rightarrow> (string \<rightharpoonup> string) option) \<Rightarrow> api_config \<Rightarrow> (string \<Rightarrow> provider option) \<Rightarrow> request_env \<Rightarrow>
   fault \<Rightarrow> uuid \<Rightarrow> string \<Rightarrow> callback_request \<Rightarrow> auth_db \<Rightarrow> callback_answer \<times> auth_db" where
  "HandleCallback decode cfg pvs env flt sid raw req d =
     (case cb_state_cookie req of
        None \<Rightarrow> (Refused 400 ''missing state cookie'', d)
      | Some c \<Rightarrow>
          (case decode c of
             None \<Rightarrow> (Refused 400 ''invalid state'', d)
           | Some data \<Rightarrow>
               if cb_state req \<noteq> c then (Refused 400 ''state mismatch'', d)
               else if cb_code req = [] then (Refused 400 ''missing code'', d)
               else if state_get data ''mode'' = oauthModeLink
               then finishIdentityLink cfg pvs env flt req (callback_provider req data) data d
               else (case ExchangeCodeForUser (Some (ap_auth cfg)) pvs env (callback_provider req data)
                            (cb_code req) (state_get data ''verifier'') d of
                       (Inl e, d1) \<Rightarrow>
                         if errors_is e ErrSignupClosed
                         then (Refused 401 ''sign-up is closed on this installation: ask an administrator for access'', d1)
                         else (Refused 401 ''authentication failed'', d1)
                     | (Inr u, d1) \<Rightarrow>
                         (case au_id u of
                            None \<Rightarrow> (Refused 500 ''internal error'', d1)
                          | Some uid \<Rightarrow>
                              (case Auth_CreateSession (ap_auth cfg) flt (re_now env) sid raw uid d1 of
                                 (Inl e, d2) \<Rightarrow> (Refused 500 ''internal error'', d2)
                               | (Inr token, d2) \<Rightarrow> (SignedIn token (frontend_of cfg data), d2))))))"

definition HandleLogout ::
  "fault \<Rightarrow> fault \<Rightarrow> int \<Rightarrow> string option \<Rightarrow> auth_db \<Rightarrow> auth_db" where
  "HandleLogout f1 f2 now c d =
     (case c of None \<Rightarrow> d | Some token \<Rightarrow> fst (snd (Auth_DeleteSession f1 f2 now token d)))"

section \<open>The contract of authentication\<close>

text \<open>The three calls the middleware makes, on the service: each reads the tables, and the fault of a call is
  drawn per call.\<close>

definition auth_calls_of :: "(nat \<Rightarrow> fault) \<Rightarrow> int \<Rightarrow> auth_db \<Rightarrow> db \<Rightarrow> auth_calls" where
  "auth_calls_of flt now d nsd =
     \<lparr>ac_validate_key = (\<lambda>k. fst (ValidateAPIKey (flt 0) (flt 1) now d k)),
      ac_validate_session = (\<lambda>t. ValidateSession (flt 0) now d t),
      ac_load_grants = LoadGrants (\<lambda>u. map_sum id (map (\<lambda>m. (Some (mr_ns m), mr_role m)))
                                        (ListNamespaceMembershipsForUser (flt 2) nsd u))\<rparr>"

text \<open>Whom a service attaches to a request: the account of a key or of a session.\<close>

locale authenticator =
  fixes svc :: auth_calls and key_principal :: "string \<Rightarrow> auth_user option"
    and session_principal :: "string \<Rightarrow> auth_user option"
  assumes validates_key: "ac_validate_key svc k = Inr u \<Longrightarrow> key_principal k = Some u"
    and validates_session: "ac_validate_session svc t = Inr u \<Longrightarrow> session_principal t = Some u"
begin

lemma bearer_principal:
  assumes "has_prefix header bearer_prefix" "OptionalAuthenticate svc header c = Some (u, m)"
  shows "\<exists>p. key_principal (trim_prefix header bearer_prefix) = Some p \<and> u = p\<lparr>au_grants := au_grants u\<rparr> \<and>
    m = AuthBearer \<and> au_grants u = case_sum (\<lambda>e. Map.empty) id (ac_load_grants svc (au_id p))"
  using assms validates_key by (auto simp: OptionalAuthenticate_def Let_def split: sum.splits)

lemma cookie_principal:
  assumes "\<not> has_prefix header bearer_prefix" "OptionalAuthenticate svc header c = Some (u, m)"
  shows "\<exists>t p. c = Some t \<and> session_principal t = Some p \<and> u = p\<lparr>au_grants := au_grants u\<rparr> \<and>
    m = AuthCookie \<and> au_grants u = case_sum (\<lambda>e. Map.empty) id (ac_load_grants svc (au_id p))"
  using assms validates_session by (cases c) (auto simp: OptionalAuthenticate_def Let_def split: sum.splits)

end

definition account_of :: "auth_db \<Rightarrow> uuid \<Rightarrow> capability list option \<Rightarrow> auth_user option" where
  "account_of d v ceiling = map_option
     (\<lambda>r. \<lparr>au_id = Some v, au_display = auth_displayName (us_display r), au_role = us_role r,
           au_api_key_auth = (ceiling \<noteq> None), au_api_key_caps = (case ceiling of None \<Rightarrow> [] | Some caps \<Rightarrow> caps),
           au_grants = Map.empty\<rparr>) (find_user d v)"

definition key_account :: "auth_db \<Rightarrow> string \<Rightarrow> auth_user option" where
  "key_account d key = Option.bind (find (\<lambda>k. ky_hash k = sha256hex key) (ad_keys d))
     (\<lambda>k. account_of d (ky_user k) (Some (filter Capability_Valid (ky_caps k))))"

definition session_account :: "auth_db \<Rightarrow> int \<Rightarrow> string \<Rightarrow> auth_user option" where
  "session_account d now t = Option.bind (find (\<lambda>s. se_hash s = sha256hex t \<and> now < se_expires s) (ad_sessions d))
     (\<lambda>s. account_of d (se_user s) None)"

lemma ValidateAPIKey_Inr: "fst (ValidateAPIKey f1 f2 now d k) = Inr u \<Longrightarrow> key_account d k = Some u"
  by (auto simp: ValidateAPIKey_def GetAPIKeyByHash_def read_stmt_Inr one_row_def key_account_def account_of_def
      known_caps_def split: sum.splits option.splits)

lemma ValidateSession_Inr: "ValidateSession flt now d t = Inr u \<Longrightarrow> session_account d now t = Some u"
  by (auto simp: ValidateSession_def GetSessionByTokenHash_def read_stmt_Inr one_row_def session_account_def account_of_def
      split: sum.splits option.splits)

interpretation service_auth: authenticator "auth_calls_of flt now d nsd" "key_account d" "session_account d now"
  for flt now d nsd
  by unfold_locales (auto simp: auth_calls_of_def dest: ValidateAPIKey_Inr ValidateSession_Inr)

text \<open>The grants of a request are the membership rows of its account, or none when reading them fails.\<close>

lemma attached_grants:
  assumes "db_ok nsd"
  shows "case_sum (\<lambda>e. Map.empty) id (ac_load_grants (auth_calls_of flt now d nsd) (Some v)) (uuid_str ns) = Some q \<longleftrightarrow>
    flt 2 = None \<and> (\<exists>mb \<in> set (members nsd). mr_ns mb = ns \<and> mr_user mb = v \<and> mr_role mb = q)"
proof (cases "flt 2")
  case None
  then have "case_sum (\<lambda>e. Map.empty) id (ac_load_grants (auth_calls_of flt now d nsd) (Some v)) = loaded_grants nsd v"
    by (simp add: auth_calls_of_def loaded_grants_def LoadGrants_def ListNamespaceMembershipsForUser_def id_def)
  with None loaded_grants_iff [OF assms] show ?thesis by simp
next
  case (Some e)
  then show ?thesis by (simp add: auth_calls_of_def LoadGrants_def ListNamespaceMembershipsForUser_def)
qed

end
