(* ===== verification/AuthClaims.thy ===== *)
theory AuthClaims
  imports AuthApi
begin

text \<open>
  The endpoints together: what a request that carries a key or a session may do, what a created key
  answers, and the ways two requests or a narrow key get around a rule the code states. The properties of
  \<open>AuthSafety\<close>, \<open>AuthEmail\<close> and \<open>AuthKeys\<close> are applied to a small installation here.
\<close>

section \<open>Requests and their credentials\<close>

text \<open>C5: A request acts as one account, with the role stored for it and the grants of its membership rows: one that
  carries a bearer key as the key's owner, with the capabilities stored for the key (those the build knows), one that
  carries a session cookie as the account of the live session, with no ceiling. The cookie does not count beside a
  bearer key. When reading the membership rows fails, the account is attached without grants. A capability check
  needs the capability in the key's list; what a handler decides by the role alone is not bounded by it.\<close>

theorem request_acts_as_owner:
  assumes "OptionalAuthenticate (auth_calls_of flt now d nsd) header c = Some (u, m)" and "db_ok nsd"
  shows "\<exists>v r. au_id u = Some v \<and> find_user d v = Some r \<and> au_role u = us_role r \<and>
    au_display u = auth_displayName (us_display r) \<and>
    (if has_prefix header bearer_prefix
     then \<exists>k. find (\<lambda>k. ky_hash k = sha256hex (trim_prefix header bearer_prefix)) (ad_keys d) = Some k \<and> ky_user k = v \<and>
            m = AuthBearer \<and> au_api_key_auth u \<and> au_api_key_caps u = filter Capability_Valid (ky_caps k) \<and>
            (\<forall>ns cap. can u ns cap \<longrightarrow> cap \<in> set (ky_caps k))
     else \<exists>t s. c = Some t \<and> find (\<lambda>s. se_hash s = sha256hex t \<and> now < se_expires s) (ad_sessions d) = Some s \<and>
            se_user s = v \<and> m = AuthCookie \<and> \<not> au_api_key_auth u) \<and>
    (\<forall>ns q. au_grants u (uuid_str ns) = Some q \<longleftrightarrow>
       flt 2 = None \<and> (\<exists>mb \<in> set (members nsd). mr_ns mb = ns \<and> mr_user mb = v \<and> mr_role mb = q))"
proof (cases "has_prefix header bearer_prefix")
  case True
  from service_auth.bearer_principal [OF True assms(1)] obtain p k where
    k: "find (\<lambda>k. ky_hash k = sha256hex (trim_prefix header bearer_prefix)) (ad_keys d) = Some k"
      "account_of d (ky_user k) (Some (filter Capability_Valid (ky_caps k))) = Some p"
    and u: "u = p\<lparr>au_grants := au_grants u\<rparr>" "m = AuthBearer"
      "au_grants u = case_sum (\<lambda>e. Map.empty) id (ac_load_grants (auth_calls_of flt now d nsd) (au_id p))"
    by (auto simp: key_account_def bind_eq_Some_conv)
  from k(2) obtain r where r: "find_user d (ky_user k) = Some r" "au_id p = Some (ky_user k)" "au_role p = us_role r"
    "au_display p = auth_displayName (us_display r)" "au_api_key_auth p"
    "au_api_key_caps p = filter Capability_Valid (ky_caps k)"
    by (auto simp: account_of_def)
  have f: "au_id u = au_id p" "au_role u = au_role p" "au_display u = au_display p"
    "au_api_key_auth u = au_api_key_auth p" "au_api_key_caps u = au_api_key_caps p"
    by (subst u(1), simp)+
  have "can u ns cap \<Longrightarrow> cap \<in> set (ky_caps k)" for ns cap
    using can_ceiling [of u ns cap] f r(5,6) by auto
  with k(1) u(2,3) r f True attached_grants [OF assms(2), of flt now d "ky_user k"] show ?thesis by auto
next
  case False
  from service_auth.cookie_principal [OF False assms(1)] obtain t p s where
    s: "c = Some t" "find (\<lambda>s. se_hash s = sha256hex t \<and> now < se_expires s) (ad_sessions d) = Some s"
      "account_of d (se_user s) None = Some p"
    and u: "u = p\<lparr>au_grants := au_grants u\<rparr>" "m = AuthCookie"
      "au_grants u = case_sum (\<lambda>e. Map.empty) id (ac_load_grants (auth_calls_of flt now d nsd) (au_id p))"
    by (auto simp: session_account_def bind_eq_Some_conv)
  from s(3) obtain r where r: "find_user d (se_user s) = Some r" "au_id p = Some (se_user s)" "au_role p = us_role r"
    "au_display p = auth_displayName (us_display r)" "\<not> au_api_key_auth p"
    by (auto simp: account_of_def)
  have f: "au_id u = au_id p" "au_role u = au_role p" "au_display u = au_display p"
    "au_api_key_auth u = au_api_key_auth p"
    by (subst u(1), simp)+
  with s(1,2) u(2,3) r f False attached_grants [OF assms(2), of flt now d "se_user s"] show ?thesis by auto
qed

section \<open>Created keys\<close>

lemma CreateAPIKey_Inr:
  assumes "Auth_CreateAPIKey flt now kid raw u name caps d = (Inr key, d1)"
  obtains k where "find (\<lambda>r. ky_hash r = sha256hex key) (ad_keys d1) = Some k" "ky_user k = u"
    "ky_caps k = (if caps = [] then allCapabilities else caps)" "ad_users d1 = ad_users d"
    "list_all Capability_Valid (if caps = [] then allCapabilities else caps)" "has_user d u"
proof -
  define C where "C = (if caps = [] then allCapabilities else caps)"
  define K where "K = ''ocidex_'' @ RawURLEncoding raw"
  define P where "P = (if length K > 8 then take 8 K else K)"
  have eq: "Auth_CreateAPIKey flt now kid raw u name caps d =
      (case find (\<lambda>c. \<not> Capability_Valid c) C of
         Some c \<Rightarrow> (Inl (ValidationError (''unknown capability '' @ c)), d)
       | None \<Rightarrow> (case CreateAPIKeyRow flt now kid u name (sha256hex K) P C d of
                  (Inl e, d1) \<Rightarrow> (Inl (Wrapped ''creating api key'' e), d1)
                | (Inr row, d1) \<Rightarrow> (Inr K, d1)))"
    by (simp only: Auth_CreateAPIKey_def Let_def C_def K_def P_def Strings_def list.map_ident)
  have none: "find (\<lambda>c. \<not> Capability_Valid c) C = None"
    using assms unfolding eq by (cases "find (\<lambda>c. \<not> Capability_Valid c) C") simp_all
  obtain row where row: "CreateAPIKeyRow flt now kid u name (sha256hex K) P C d = (Inr row, d1)" and key: "key = K"
    using assms unfolding eq none by (auto split: prod.splits sum.splits)
  then have fresh: "find (\<lambda>r. ky_hash r = sha256hex key) (ad_keys d) = None"
    by (auto simp: CreateAPIKeyRow_def run_stmt_Inr list_ex_iff find_None_iff split: if_splits)
  from row have row': "ky_hash row = sha256hex key" "ky_user row = u" "ky_caps row = C"
    "d1 = d\<lparr>ad_keys := ad_keys d @ [row]\<rparr>" "has_user d u"
    by (auto simp: CreateAPIKeyRow_def run_stmt_Inr Let_def key split: if_splits)
  from none have "list_all Capability_Valid C" by (auto simp: find_None_iff list_all_iff)
  with that [of row] fresh row' show thesis by (simp add: find_None_append C_def)
qed

text \<open>C19: A created key answers for what it was created with: \<open>ValidateAPIKey\<close> of the text \<open>CreateAPIKey\<close> returned
  gives its owner, with the owner's present role, and exactly the capabilities asked for, or all of them when
  none was named.\<close>

theorem created_key_answers:
  assumes "Auth_CreateAPIKey flt now kid raw u name caps d = (Inr key, d1)"
  shows "\<exists>r. find_user d u = Some r \<and>
    fst (ValidateAPIKey None f2 t d1 key) =
      Inr \<lparr>au_id = Some u, au_display = auth_displayName (us_display r), au_role = us_role r, au_api_key_auth = True,
           au_api_key_caps = (if caps = [] then allCapabilities else caps), au_grants = Map.empty\<rparr>"
proof -
  from CreateAPIKey_Inr [OF assms] obtain k where k: "find (\<lambda>r. ky_hash r = sha256hex key) (ad_keys d1) = Some k"
    "ky_user k = u" "ky_caps k = (if caps = [] then allCapabilities else caps)" "ad_users d1 = ad_users d"
    "list_all Capability_Valid (if caps = [] then allCapabilities else caps)" "has_user d u" .
  from k(6) obtain r where r: "find_user d u = Some r" by (auto simp: has_user_find)
  have "known_caps (ky_caps k) = ky_caps k"
    using k(5) unfolding k(3) known_caps_def list_all_iff by (rule filter_True)
  with k r show ?thesis
    by (simp add: ValidateAPIKey_def GetAPIKeyByHash_def one_row_def find_user_def)
qed

section \<open>A small installation\<close>

definition demo_account :: "uuid \<Rightarrow> string \<Rightarrow> user_row" where
  "demo_account u role = \<lparr>us_id = u, us_role = role, us_created = 0, us_updated = 0, us_email = Some ''a@x'',
     us_display = Some ''ann''\<rparr>"

definition demo_identity :: "uuid \<Rightarrow> uuid \<Rightarrow> string \<Rightarrow> string \<Rightarrow> identity_row" where
  "demo_identity i u p s = \<lparr>ui_id = i, ui_user = u, ui_provider = p, ui_subject = s, ui_email = Some ''a@x'',
     ui_created = 0, ui_updated = 0\<rparr>"

definition demo_auth_db :: auth_db where
  "demo_auth_db = \<lparr>ad_users = [demo_account 1 ''member'', demo_account 2 ''admin''],
     ad_identities = [demo_identity 11 1 ''github'' ''7'', demo_identity 12 1 ''oidc:corp'' ''s1''],
     ad_sessions = [], ad_keys = []\<rparr>"

definition demo_request :: request_env where
  "demo_request = \<lparr>re_flt = (\<lambda>_. None), re_others = (\<lambda>_ d. d), re_now = 5, re_uuid1 = 21, re_uuid2 = 22\<rparr>"

definition demo_issuer :: "string \<Rightarrow> provider" where
  "demo_issuer email = \<lparr>pv_name = ''github'', pv_auth_url = (\<lambda>s v. s),
     pv_exchange = (\<lambda>c v. Inr \<lparr>id_provider = ''github'', id_subject = c, id_email = email, id_display = ''bob''\<rparr>)\<rparr>"

lemmas demo_auth = demo_auth_db_def demo_account_def demo_identity_def demo_request_def demo_issuer_def

lemma demo_auth_inv: "auth_inv demo_auth_db"
  by (simp add: auth_inv_def demo_auth identity_key_def user_roles_def has_user_def)

lemma demo_alone: "alone demo_request"
  by (simp add: alone_def demo_request_def)

lemma demo_sign_in:
  "ExchangeCodeForUser None (NewAuthService [demo_issuer e]) demo_request ''github'' ''7'' [] demo_auth_db =
     (Inr \<lparr>au_id = Some 1, au_display = ''bob'', au_role = ''member'', au_api_key_auth = False,
           au_api_key_caps = [], au_grants = Map.empty\<rparr>,
      demo_auth_db\<lparr>ad_users := [(demo_account 1 ''member'')\<lparr>us_email := coalesce_opt (nullif_empty e) (Some ''a@x''),
         us_display := Some ''bob'', us_updated := 5\<rparr>, demo_account 2 ''admin''],
       ad_identities := [(demo_identity 11 1 ''github'' ''7'')\<lparr>ui_email := coalesce_opt (nullif_empty e) (Some ''a@x''),
         ui_updated := 5\<rparr>, demo_identity 12 1 ''oidc:corp'' ''s1'']\<rparr>)"
  by (simp add: demo_auth ExchangeCodeForUser_def redeem_code_def NewAuthService_def resolveIdentity_def
      resolve_known_def GetUserByIdentity_def find_user_def one_row_def UpsertIdentityEmail_def TouchUserProfile_def
      update_user_def update_where_def promoteBootstrapAdmin_def isBootstrapAdmin_def auth_user_of_def
      auth_displayName_def coalesce_def coalesce_opt_def nullif_empty_def)

section \<open>The properties at that installation\<close>

lemma sign_in_opens_holder_witness:
  "\<exists>u d'. ExchangeCodeForUser None (NewAuthService [demo_issuer ''n@x'']) demo_request ''github'' ''7'' [] demo_auth_db = (Inr u, d') \<and>
    au_id u = Some 1 \<and> find_identity d' ''oidc:corp'' ''s1'' = Some (demo_identity 12 1 ''oidc:corp'' ''s1'') \<and>
    same_elsewhere ''github'' ''7'' 1 demo_auth_db d'"
  using sign_in_opens_holder [OF demo_auth_inv demo_alone demo_sign_in, of "''n@x''"] demo_sign_in [of "''n@x''"]
  by (auto simp: redeem_code_def NewAuthService_def demo_issuer_def find_identity_def demo_identity_def)

text \<open>An issuer that releases no name: the display name is the address, and the account is the same.\<close>

definition demo_token :: "string \<Rightarrow> string \<Rightarrow> (string \<times> string \<times> string \<times> string) result" where
  "demo_token email raw = Inr (''s1'', email, [], [])"

definition demo_oidc :: "string \<Rightarrow> string \<Rightarrow> provider option" where
  "demo_oidc email p = Some \<lparr>pv_name = p, pv_auth_url = (\<lambda>s v. s),
     pv_exchange = OIDC_Exchange p (\<lambda>c v. Inr ''t'') (demo_token email)\<rparr>"

lemma email_never_matches_witness:
  "map_sum id erase_display (fst (ExchangeCodeForUser None (demo_oidc ''a@x'') demo_request ''oidc:corp'' ''c'' ''v'' demo_auth_db)) =
   map_sum id erase_display (fst (ExchangeCodeForUser None (demo_oidc ''z@q'') demo_request ''oidc:corp'' ''c'' ''v'' demo_auth_db))"
  by (rule email_never_matches
        [where i = "\<lparr>id_provider = ''oidc:corp'', id_subject = ''s1'', id_email = ''a@x'', id_display = ''a@x''\<rparr>"
           and j = "\<lparr>id_provider = ''oidc:corp'', id_subject = ''s1'', id_email = ''z@q'', id_display = ''z@q''\<rparr>",
         THEN conjunct1])
     (simp_all add: redeem_code_def demo_oidc_def OIDC_Exchange_def demo_token_def trim_space_def is_space_def firstNonEmpty_def
       same_subject_def same_env_def demo_request_def)

lemma demo_unlink:
  "UnlinkIdentity demo_request 1 11 demo_auth_db =
     (Inr (), demo_auth_db\<lparr>ad_identities := [demo_identity 12 1 ''oidc:corp'' ''s1'']\<rparr>)"
  by (simp add: UnlinkIdentity_def demo_auth CountIdentitiesByUser_def DeleteIdentity_def count_where_def)

lemma unlink_keeps_one_witness:
  "identity_count demo_auth_db 1 = 2 \<and>
   identity_count (demo_auth_db\<lparr>ad_identities := [demo_identity 12 1 ''oidc:corp'' ''s1'']\<rparr>) 1 > 0"
  using unlink_keeps_one [OF demo_auth_inv demo_alone demo_unlink, of 1]
  by (simp add: identity_count_def demo_auth)

text \<open>Unlinking has a race: the count of the account's identities and the delete are two statements, so two
  requests that each remove one of an account's two identities can both pass the count and both succeed, and
  leave an account nobody can sign in to.\<close>

theorem unlink_race_strands_account:
  "\<exists>env d'. UnlinkIdentity env 1 11 demo_auth_db = (Inr (), d') \<and>
     re_others env 0 demo_auth_db = demo_auth_db \<and>
     (\<forall>d. re_others env 1 d = snd (UnlinkIdentity demo_request 1 12 d)) \<and>
     fst (UnlinkIdentity demo_request 1 12 demo_auth_db) = Inr () \<and>
     identity_count demo_auth_db 1 = 2 \<and> identity_count d' 1 = 0 \<and> has_user d' 1"
proof -
  let ?env = "demo_request\<lparr>re_others := (\<lambda>k d. if k = 1 then snd (UnlinkIdentity demo_request 1 12 d) else d)\<rparr>"
  have "UnlinkIdentity ?env 1 11 demo_auth_db = (Inr (), demo_auth_db\<lparr>ad_identities := []\<rparr>)"
    by (simp add: UnlinkIdentity_def demo_auth CountIdentitiesByUser_def DeleteIdentity_def count_where_def)
  moreover have "fst (UnlinkIdentity demo_request 1 12 demo_auth_db) = Inr ()"
    by (simp add: UnlinkIdentity_def demo_auth CountIdentitiesByUser_def DeleteIdentity_def count_where_def)
  ultimately show ?thesis
    by (intro exI [of _ ?env] exI [of _ "demo_auth_db\<lparr>ad_identities := []\<rparr>"])
       (simp add: identity_count_def has_user_def demo_auth)
qed

lemma request_acts_as_owner_witness:
  "\<exists>u m. OptionalAuthenticate (auth_calls_of (\<lambda>_. None) 6 (demo_auth_db\<lparr>ad_sessions :=
       [\<lparr>se_id = 31, se_user = 1, se_hash = sha256hex ''t'', se_expires = 9, se_created = 1\<rparr>]\<rparr>)
       \<lparr>namespaces = [], members = [], users = []\<rparr>) [] (Some ''t'') = Some (u, m) \<and> au_id u = Some 1 \<and> au_role u = ''member''"
proof -
  let ?d = "demo_auth_db\<lparr>ad_sessions :=
       [\<lparr>se_id = 31, se_user = 1, se_hash = sha256hex ''t'', se_expires = 9, se_created = 1\<rparr>]\<rparr>"
  let ?calls = "auth_calls_of (\<lambda>_. None) 6 ?d \<lparr>namespaces = [], members = [], users = []\<rparr>"
  obtain u m where um: "OptionalAuthenticate ?calls [] (Some ''t'') = Some (u, m)"
    by (simp add: OptionalAuthenticate_def auth_calls_of_def ValidateSession_def GetSessionByTokenHash_def
        one_row_def find_user_def demo_auth bearer_prefix_def)
  from request_acts_as_owner [OF this] have "au_id u = Some 1 \<and> au_role u = ''member''"
    by (auto simp: bearer_prefix_def db_ok_def find_user_def demo_auth)
  with um show ?thesis by blast
qed

definition demo_auth_config :: auth_config where
  "demo_auth_config = \<lparr>cf_signup_mode = ''open'', cf_bootstrap = [], cf_session_days = 7\<rparr>"

text \<open>Seven days are 604800 seconds.\<close>

lemma seven_days: "session_duration 7 = 604800000000000"
  by (simp add: session_duration_def)

lemma session_lifetime_witness:
  "\<exists>tok d1 d2 r. Auth_CreateSession demo_auth_config None 5 31 [] 1 demo_auth_db = (Inr tok, d1) \<and>
     auth_run [Other] d1 d2 \<and> find_user d2 1 = Some r \<and>
     ValidateSession None 604800000000004 d2 tok = Inr (auth_user_of r)"
proof -
  obtain tok d1 where c: "Auth_CreateSession demo_auth_config None 5 31 [] 1 demo_auth_db = (Inr tok, d1)"
    by (simp add: Auth_CreateSession_def CreateSessionRow_def Let_def demo_auth has_user_def)
  let ?d2 = "snd (UpdateUserRoleRow None 9 1 ''admin'' d1)"
  have run: "auth_run [Other] d1 ?d2" by (rule run_cons [OF auth_step.role run_nil])
  from session_lifetime [OF demo_auth_inv c run, of 604800000000004] seven_days c run
  show ?thesis by (auto simp: demo_auth_config_def)
qed

lemma created_key_answers_witness:
  "\<exists>key d1 v. Auth_CreateAPIKey None 5 41 [] 1 ''k'' [CapIngest] demo_auth_db = (Inr key, d1) \<and>
     fst (ValidateAPIKey None None 6 d1 key) = Inr v \<and> au_api_key_caps v = [CapIngest]"
proof -
  have "Capability_Valid CapIngest" "List.member allCapabilities CapIngest"
    by (simp_all add: known_capability allCapabilities_def)
  then obtain key d1 where c: "Auth_CreateAPIKey None 5 41 [] 1 ''k'' [CapIngest] demo_auth_db = (Inr key, d1)"
    by (simp add: Auth_CreateAPIKey_def CreateAPIKeyRow_def Let_def demo_auth has_user_def Strings_def)
  from created_key_answers [OF c, of None 6] c show ?thesis by auto
qed

section \<open>Narrow keys\<close>

text \<open>C35: A key's ceiling does not bound the keys it can make: a request on a key that may do one thing that
  writes passes the guards of the create-key endpoint, and the key it creates by naming no capability
  answers for the same account with every capability.\<close>

theorem key_mints_wider_key:
  assumes "au_api_key_auth u" "list_ex Mutating (au_api_key_caps u)" "au_role u \<in> {roleAdmin, roleMember}"
    and "au_id u = Some uid" "find_user d uid = Some r"
    and "\<forall>k \<in> set (ad_keys d). ky_id k \<noteq> kid \<and> ky_hash k \<noteq> sha256hex (''ocidex_'' @ RawURLEncoding raw)"
  shows "\<exists>key d1 v. route_create_api_key None now kid raw name [] (Some u) d = (Inr key, d1) \<and>
    fst (ValidateAPIKey None None t d1 key) = Inr v \<and> au_id v = Some uid \<and> au_api_key_caps v = allCapabilities"
proof -
  let ?key = "''ocidex_'' @ RawURLEncoding raw"
  from assms(1-3) have pass: "first_refusal [RequireMember, RequireWrite] (Some u) = None"
    by (auto simp: RequireMember_def RequireWrite_def isWriteAllowed_def KeyAllowsAnyWrite_def)
  have caps: "find (\<lambda>c. \<not> Capability_Valid c) allCapabilities = None" "list_all (List.member allCapabilities) allCapabilities"
    by (auto simp: find_None_iff known_capability list_all_iff)
  from assms(5) have "has_user d uid" by (simp add: has_user_find)
  with assms(6) caps obtain d1 where c: "Auth_CreateAPIKey None now kid raw uid name [] d = (Inr ?key, d1)"
    by (auto simp: Auth_CreateAPIKey_def CreateAPIKeyRow_def Let_def list_ex_iff Strings_def)
  with assms(4) pass have "route_create_api_key None now kid raw name [] (Some u) d = (Inr ?key, d1)"
    by (simp add: route_create_api_key_def behind_def CreateAPIKey_def)
  moreover obtain k where k: "find (\<lambda>r. ky_hash r = sha256hex ?key) (ad_keys d1) = Some k"
    "ky_user k = uid" "ky_caps k = allCapabilities" "ad_users d1 = ad_users d"
    by (rule CreateAPIKey_Inr [OF c]) simp
  have "known_caps allCapabilities = allCapabilities"
    unfolding known_caps_def by (rule filter_True) (simp add: known_capability)
  with k assms(5) have "\<exists>v. fst (ValidateAPIKey None None t d1 ?key) = Inr v \<and> au_id v = Some uid \<and>
      au_api_key_caps v = allCapabilities"
    by (simp add: ValidateAPIKey_def GetAPIKeyByHash_def one_row_def find_user_def)
  ultimately show ?thesis by blast
qed

lemma key_mints_wider_key_witness:
  "\<exists>key d1 v. route_create_api_key None 5 41 [] ''k'' []
       (Some \<lparr>au_id = Some 1, au_display = [], au_role = ''member'', au_api_key_auth = True,
              au_api_key_caps = [CapIngest], au_grants = Map.empty\<rparr>) demo_auth_db = (Inr key, d1) \<and>
     fst (ValidateAPIKey None None 6 d1 key) = Inr v \<and> au_id v = Some 1 \<and> au_api_key_caps v = allCapabilities"
  by (rule key_mints_wider_key [where uid = 1 and r = "demo_account 1 ''member''"])
     (simp_all add: Mutating_def CapIngest_def CapReadPrivate_def roleMember_def demo_auth find_user_def)

text \<open>The guard of the role endpoint does not look at the ceiling either: an administrator's key that may only
  ingest makes any account an administrator.\<close>

lemma narrow_key_sets_roles:
  assumes "au_api_key_auth u" "au_api_key_caps u = [CapIngest]" "au_role u = roleAdmin"
    and "parse sid = Some target" "find_user d target = Some r"
  shows "\<exists>out d1 r'. route_update_user_role parse None now sid ''admin'' (Some u) d = (Inr out, d1) \<and>
    find_user d1 target = Some r' \<and> us_role r' = ''admin''"
proof -
  from assms(1-3) have pass: "first_refusal [RequireAdmin, RequireWrite] (Some u) = None"
    by (auto simp: RequireAdmin_def RequireWrite_def isWriteAllowed_def KeyAllowsAnyWrite_def Mutating_def
        CapIngest_def CapReadPrivate_def)
  with assms(4,5) show ?thesis
    by (auto simp: route_update_user_role_def behind_def UpdateUserRole_def Auth_UpdateUserRole_def roleAdmin_def
        UpdateUserRoleRow_def update_user_def one_row_def find_user_update split: if_splits)
qed

end
