(* ===== verification/GoText.thy ===== *)
theory GoText
  imports GoStrings
begin

text \<open>
  More of Go's \<open>strings\<close> and \<open>net/url\<close>: substrings, replacement, fields, trimming, case folding and
  the percent-encoding of one path segment, with the fact that decoding undoes encoding.
\<close>

section \<open>Substrings\<close>

text \<open>\<open>strings.Index\<close>: the first position where \<open>p\<close> occurs.\<close>

fun index_sub :: "string \<Rightarrow> string \<Rightarrow> nat option" where
  "index_sub p [] = (if p = [] then Some 0 else None)"
| "index_sub p (x # xs) =
     (if has_prefix (x # xs) p then Some 0 else map_option Suc (index_sub p xs))"

definition has_sub :: "string \<Rightarrow> string \<Rightarrow> bool" where
  "has_sub s p \<longleftrightarrow> index_sub p s \<noteq> None"

text \<open>\<open>strings.IndexAny\<close>, on the bytes of an ASCII set.\<close>

fun index_any :: "string \<Rightarrow> string \<Rightarrow> nat option" where
  "index_any cs [] = None"
| "index_any cs (x # xs) = (if List.member cs x then Some 0 else map_option Suc (index_any cs xs))"

definition trim_suffix :: "string \<Rightarrow> string \<Rightarrow> string" where
  "trim_suffix s p = (if has_suffix s p then take (length s - length p) s else s)"

text \<open>\<open>strings.ReplaceAll\<close> for a pattern that is not empty (none of the calls passes an empty one).\<close>

function replace_all :: "string \<Rightarrow> string \<Rightarrow> string \<Rightarrow> string" where
  "replace_all old new [] = []"
| "replace_all old new (c # cs) =
     (if old \<noteq> [] \<and> has_prefix (c # cs) old then new @ replace_all old new (drop (length old) (c # cs))
      else c # replace_all old new cs)"
  by pat_completeness auto
termination by (relation "measure (\<lambda>(p, n, s). length s)") auto

text \<open>\<open>strings.Fields\<close>: the maximal runs of bytes that are not white space.\<close>

fun fields_from :: "string \<Rightarrow> string \<Rightarrow> string list" where
  "fields_from w [] = (if w = [] then [] else [w])"
| "fields_from w (c # cs) =
     (if is_space c then (if w = [] then fields_from [] cs else w # fields_from [] cs)
      else fields_from (w @ [c]) cs)"

abbreviation Fields :: "string \<Rightarrow> string list" where
  "Fields s \<equiv> fields_from [] s"

definition equal_fold :: "string \<Rightarrow> string \<Rightarrow> bool" where
  "equal_fold a b \<longleftrightarrow> to_lower a = to_lower b"

lemma index_sub_Some: "index_sub p s = Some i \<Longrightarrow> i \<le> length s \<and> has_prefix (drop i s) p"
  by (induction s arbitrary: i) (auto split: if_splits)

lemma index_sub_first: "index_sub p s = Some i \<Longrightarrow> j < i \<Longrightarrow> \<not> has_prefix (drop j s) p"
proof (induction s arbitrary: i j)
  case (Cons x xs)
  then show ?case by (cases j) (auto split: if_splits)
qed (simp split: if_splits)

lemma index_sub_None: "index_sub p s = None \<longleftrightarrow> (\<nexists>u v. s = u @ p @ v)"
proof (induction s)
  case (Cons x xs)
  show ?case
  proof (cases "has_prefix (x # xs) p")
    case True
    then obtain t where "x # xs = [] @ p @ t" by (auto simp: has_prefix_iff)
    then have "\<not> (\<nexists>u v. x # xs = u @ p @ v)" by blast
    moreover from True have "index_sub p (x # xs) \<noteq> None" by simp
    ultimately show ?thesis by blast
  next
    case False
    then have "\<exists>u v. x # xs = u @ p @ v \<Longrightarrow> \<exists>u v. xs = u @ p @ v"
      by (metis append_Nil has_prefix_iff list.sel(3) tl_append2)
    moreover have "\<exists>u v. xs = u @ p @ v \<Longrightarrow> \<exists>u v. x # xs = u @ p @ v"
      by (metis append_Cons)
    ultimately show ?thesis using Cons False by auto
  qed
qed simp

lemma has_sub_iff: "has_sub s p \<longleftrightarrow> (\<exists>u v. s = u @ p @ v)"
  using index_sub_None [of p s] by (auto simp: has_sub_def)

lemma index_any_None: "index_any cs s = None \<longleftrightarrow> set s \<inter> set cs = {}"
  by (induction s) (auto)

lemma index_any_Some:
  "index_any cs s = Some i \<Longrightarrow>
   i < length s \<and> s ! i \<in> set cs \<and> set (take i s) \<inter> set cs = {}"
  by (induction s arbitrary: i) (auto split: if_splits)

lemma has_suffix_iff: "has_suffix s p \<longleftrightarrow> (\<exists>t. s = t @ p)"
  by (auto simp: has_suffix_def has_prefix_iff) (metis rev_append rev_rev_ident)

lemma trim_suffix_append [simp]: "trim_suffix (s @ p) p = s"
  by (simp add: trim_suffix_def has_suffix_iff)

lemma replace_all_char:
  "replace_all [a] new s = concat (map (\<lambda>c. if c = a then new else [c]) s)"
  by (induction "[a]" new s rule: replace_all.induct) auto

lemma to_lower_Nil [simp]: "to_lower s = [] \<longleftrightarrow> s = []"
  by (simp add: to_lower_def)

section \<open>Fields of a joined list\<close>

abbreviation word_ok :: "string \<Rightarrow> bool" where
  "word_ok w \<equiv> w \<noteq> [] \<and> list_all (\<lambda>c. \<not> is_space c) w"

lemma fields_from_word: "list_all (\<lambda>c. \<not> is_space c) u \<Longrightarrow> fields_from w (u @ s) = fields_from (w @ u) s"
  by (induction u arbitrary: w) auto

lemma is_space_space [simp]: "is_space CHR '' ''"
  by (simp add: is_space_def)

lemma fields_join: "list_all word_ok ws \<Longrightarrow> Fields (join '' '' ws) = ws"
proof (induction "'' ''" ws rule: join.induct)
  case (2 x)
  then show ?case using fields_from_word [of x "[]" "[]"] by simp
next
  case (3 x y ys)
  then show ?case
    using fields_from_word [of x "[]" "'' '' @ join '' '' (y # ys)"] by simp
qed simp

lemma fields_word_ok:
  "list_all (\<lambda>c. \<not> is_space c) w \<Longrightarrow> list_all word_ok (fields_from w s)"
  by (induction s arbitrary: w) auto

section \<open>Percent-encoding of a path segment\<close>

definition hex_upper :: "nat \<Rightarrow> char" where
  "hex_upper n = (if n < 10 then char_of (48 + n) else char_of (55 + n))"

definition unhex :: "char \<Rightarrow> nat" where
  "unhex c = (if is_digit c then byte_of c - 48
              else if 97 \<le> byte_of c \<and> byte_of c \<le> 102 then byte_of c - 97 + 10
              else byte_of c - 65 + 10)"

text \<open>\<open>url.PathEscape\<close> keeps letters, digits, the unreserved marks and \<^verbatim>\<open>$&+:=@\<close>.\<close>

definition path_keeps :: "char \<Rightarrow> bool" where
  "path_keeps c \<longleftrightarrow>
     is_digit c \<or> 65 \<le> byte_of c \<and> byte_of c \<le> 90 \<or> 97 \<le> byte_of c \<and> byte_of c \<le> 122 \<or>
     List.member ''-_.~$&+:=@'' c"

definition percent_byte :: "char \<Rightarrow> string" where
  "percent_byte c = [CHR ''%'', hex_upper (byte_of c div 16), hex_upper (byte_of c mod 16)]"

definition PathEscape :: "string \<Rightarrow> string" where
  "PathEscape s = concat (map (\<lambda>c. if path_keeps c then [c] else percent_byte c) s)"

text \<open>\<open>url.PathUnescape\<close>: \<open>None\<close> is its \<open>EscapeError\<close>.\<close>

fun PathUnescape :: "string \<Rightarrow> string option" where
  "PathUnescape [] = Some []"
| "PathUnescape (c # cs) =
     (if c \<noteq> CHR ''%'' then map_option (\<lambda>r. c # r) (PathUnescape cs)
      else case cs of
             a # b # r \<Rightarrow>
               if is_hex a \<and> is_hex b
               then map_option (\<lambda>t. char_of (unhex a * 16 + unhex b) # t) (PathUnescape r)
               else None
           | _ \<Rightarrow> None)"

lemma byte_of_char_of [simp]: "n < 256 \<Longrightarrow> byte_of (char_of n) = n"
  by simp

lemma unhex_hex_upper: "n < 16 \<Longrightarrow> is_hex (hex_upper n) \<and> unhex (hex_upper n) = n"
  by (auto simp: hex_upper_def is_hex_def unhex_def is_digit_def)

lemma unescape_percent_byte:
  "PathUnescape (percent_byte c @ r) = map_option (\<lambda>t. c # t) (PathUnescape r)"
proof -
  have "byte_of c div 16 < 16" using byte_bound [of c] by (simp add: less_mult_imp_div_less)
  moreover have "byte_of c mod 16 < 16" by simp
  ultimately
  have "is_hex (hex_upper (byte_of c div 16)) \<and> unhex (hex_upper (byte_of c div 16)) = byte_of c div 16"
    and "is_hex (hex_upper (byte_of c mod 16)) \<and> unhex (hex_upper (byte_of c mod 16)) = byte_of c mod 16"
    using unhex_hex_upper by blast+
  moreover have "char_of (byte_of c div 16 * 16 + byte_of c mod 16) = c"
    by (metis char_of_char div_mult_mod_eq)
  ultimately show ?thesis by (simp add: percent_byte_def)
qed

lemma unescape_plain: "CHR ''%'' \<notin> set s \<Longrightarrow> PathUnescape s = Some s"
  by (induction s) auto

text \<open>Any encoder that writes each byte either as itself, the percent sign excepted, or percent-encoded
  is undone.\<close>

lemma unescape_encode:
  "(\<And>c. f c = [c] \<and> c \<noteq> CHR ''%'' \<or> f c = percent_byte c) \<Longrightarrow> PathUnescape (concat (map f s)) = Some s"
proof (induction s)
  case (Cons c s)
  have IH: "PathUnescape (concat (map f s)) = Some s" using Cons by blast
  from Cons.prems [of c] show ?case
  proof
    assume "f c = [c] \<and> c \<noteq> CHR ''%''"
    with IH show ?thesis by simp
  next
    assume "f c = percent_byte c"
    with IH show ?thesis by (simp add: unescape_percent_byte)
  qed
qed simp

lemma percent_not_kept: "path_keeps c \<Longrightarrow> c \<noteq> CHR ''%''"
  by (auto simp: path_keeps_def is_digit_def)

lemma PathUnescape_PathEscape: "PathUnescape (PathEscape s) = Some s"
  unfolding PathEscape_def by (rule unescape_encode) (auto dest: percent_not_kept)

lemma hex_upper_plain: "n < 16 \<Longrightarrow> is_digit (hex_upper n) \<or> 65 \<le> byte_of (hex_upper n) \<and> byte_of (hex_upper n) \<le> 70"
  by (auto simp: hex_upper_def is_digit_def)

lemma percent_byte_plain:
  "x \<in> set (percent_byte c) \<Longrightarrow> x = CHR ''%'' \<or> is_digit x \<or> 65 \<le> byte_of x \<and> byte_of x \<le> 70"
proof -
  have "byte_of c div 16 < 16" using byte_bound [of c] by (simp add: less_mult_imp_div_less)
  note hex_upper_plain [OF this] hex_upper_plain [of "byte_of c mod 16"]
  then show "x \<in> set (percent_byte c) \<Longrightarrow> ?thesis" unfolding percent_byte_def by auto
qed

end
