(* ===== verification/Licenses.thy ===== *)
theory Licenses
  imports GoText
begin

text \<open>
  \<^verbatim>\<open>internal/service/license.go\<close>: turning the licenses a document names into SPDX identifiers.

  The code lowers and raises case with Unicode's tables and then uses positions found in the changed
  string to slice the original. The tables are parameters (\<open>lc\<close> for \<open>strings.ToLower\<close>, \<open>uc\<close> for
  \<open>strings.ToUpper\<close>), and a slice out of bounds, which panics, is the answer \<open>None\<close>. White space outside
  ASCII, which \<open>strings.TrimSpace\<close> also trims, is not treated as space here.
\<close>

type_synonym case_map = "string \<Rightarrow> string"

text \<open>An SPDX identifier (empty when unknown) and a display name.\<close>

type_synonym license_def = "string \<times> string"

section \<open>The tables\<close>

definition licenseAlias :: "(string \<times> license_def) list" where
  "licenseAlias =
    [(''mit'', ''MIT'', ''MIT License''),
     (''mit license'', ''MIT'', ''MIT License''),
     (''the mit license'', ''MIT'', ''MIT License''),
     (''apache 2.0'', ''Apache-2.0'', ''Apache License 2.0''),
     (''apache-2.0'', ''Apache-2.0'', ''Apache License 2.0''),
     (''apache license 2.0'', ''Apache-2.0'', ''Apache License 2.0''),
     (''apache-2'', ''Apache-2.0'', ''Apache License 2.0''),
     (''asl 2.0'', ''Apache-2.0'', ''Apache License 2.0''),
     (''asl 1.1'', ''Apache-1.1'', ''Apache Software License 1.1''),
     (''apache 2'', ''Apache-2.0'', ''Apache License 2.0''),
     (''apache license'', ''Apache-2.0'', ''Apache License 2.0''),
     (''apache license, version 2.0'', ''Apache-2.0'', ''Apache License 2.0''),
     (''the apache license, version 2.0'', ''Apache-2.0'', ''Apache License 2.0''),
     (''the apache software license, version 2.0'', ''Apache-2.0'', ''Apache License 2.0''),
     (''gplv2'', ''GPL-2.0-only'', ''GNU General Public License v2.0 only''),
     (''gpl-2'', ''GPL-2.0-only'', ''GNU General Public License v2.0 only''),
     (''gpl 2'', ''GPL-2.0-only'', ''GNU General Public License v2.0 only''),
     (''gpl-2.0'', ''GPL-2.0-only'', ''GNU General Public License v2.0 only''),
     (''gpl-2.0-only'', ''GPL-2.0-only'', ''GNU General Public License v2.0 only''),
     (''gplv2+'', ''GPL-2.0-or-later'', ''GNU General Public License v2.0 or later''),
     (''gpl-2.0+'', ''GPL-2.0-or-later'', ''GNU General Public License v2.0 or later''),
     (''gpl-2+'', ''GPL-2.0-or-later'', ''GNU General Public License v2.0 or later''),
     (''gpl 2+'', ''GPL-2.0-or-later'', ''GNU General Public License v2.0 or later''),
     (''gpl-2-or-later'', ''GPL-2.0-or-later'', ''GNU General Public License v2.0 or later''),
     (''gpl-2.0-or-later'', ''GPL-2.0-or-later'', ''GNU General Public License v2.0 or later''),
     (''gplv3'', ''GPL-3.0-only'', ''GNU General Public License v3.0 only''),
     (''gpl-3'', ''GPL-3.0-only'', ''GNU General Public License v3.0 only''),
     (''gpl 3'', ''GPL-3.0-only'', ''GNU General Public License v3.0 only''),
     (''gpl-3.0'', ''GPL-3.0-only'', ''GNU General Public License v3.0 only''),
     (''gpl-3.0-only'', ''GPL-3.0-only'', ''GNU General Public License v3.0 only''),
     (''gplv3+'', ''GPL-3.0-or-later'', ''GNU General Public License v3.0 or later''),
     (''gpl-3.0+'', ''GPL-3.0-or-later'', ''GNU General Public License v3.0 or later''),
     (''gpl-3+'', ''GPL-3.0-or-later'', ''GNU General Public License v3.0 or later''),
     (''gpl 3+'', ''GPL-3.0-or-later'', ''GNU General Public License v3.0 or later''),
     (''gpl-3-or-later'', ''GPL-3.0-or-later'', ''GNU General Public License v3.0 or later''),
     (''gpl-3.0-or-later'', ''GPL-3.0-or-later'', ''GNU General Public License v3.0 or later''),
     (''gpl'', ''GPL-2.0-or-later'', ''GNU General Public License v2.0 or later''),
     (''gpl+'', ''GPL-2.0-or-later'', ''GNU General Public License v2.0 or later''),
     (''lgpl'', ''LGPL-2.1-or-later'', ''GNU Lesser General Public License v2.1 or later''),
     (''lgplv2'', ''LGPL-2.0-only'', ''GNU Library General Public License v2 only''),
     (''lgpl-2'', ''LGPL-2.0-only'', ''GNU Library General Public License v2 only''),
     (''lgpl-2.0'', ''LGPL-2.0-only'', ''GNU Library General Public License v2 only''),
     (''lgpl-2.0-only'', ''LGPL-2.0-only'', ''GNU Library General Public License v2 only''),
     (''lgplv2+'', ''LGPL-2.0-or-later'', ''GNU Library General Public License v2 or later''),
     (''lgpl-2+'', ''LGPL-2.0-or-later'', ''GNU Library General Public License v2 or later''),
     (''lgpl-2.0-or-later'', ''LGPL-2.0-or-later'', ''GNU Library General Public License v2 or later''),
     (''lgplv2.1'', ''LGPL-2.1-only'', ''GNU Lesser General Public License v2.1 only''),
     (''lgpl-2.1'', ''LGPL-2.1-only'', ''GNU Lesser General Public License v2.1 only''),
     (''lgpl-2.1-only'', ''LGPL-2.1-only'', ''GNU Lesser General Public License v2.1 only''),
     (''lgpl-2.1-or-later'', ''LGPL-2.1-or-later'', ''GNU Lesser General Public License v2.1 or later''),
     (''lgplv3'', ''LGPL-3.0-only'', ''GNU Lesser General Public License v3.0 only''),
     (''lgpl-3'', ''LGPL-3.0-only'', ''GNU Lesser General Public License v3.0 only''),
     (''lgpl-3.0'', ''LGPL-3.0-only'', ''GNU Lesser General Public License v3.0 only''),
     (''lgpl-3.0-only'', ''LGPL-3.0-only'', ''GNU Lesser General Public License v3.0 only''),
     (''lgplv3+'', ''LGPL-3.0-or-later'', ''GNU Lesser General Public License v3.0 or later''),
     (''lgpl-3+'', ''LGPL-3.0-or-later'', ''GNU Lesser General Public License v3.0 or later''),
     (''lgpl-3.0-or-later'', ''LGPL-3.0-or-later'', ''GNU Lesser General Public License v3.0 or later''),
     (''agplv3'', ''AGPL-3.0-only'', ''GNU Affero General Public License v3.0''),
     (''agpl-3'', ''AGPL-3.0-only'', ''GNU Affero General Public License v3.0''),
     (''agpl-3.0'', ''AGPL-3.0-only'', ''GNU Affero General Public License v3.0''),
     (''agpl-3.0-only'', ''AGPL-3.0-only'', ''GNU Affero General Public License v3.0''),
     (''agpl-3.0-or-later'', ''AGPL-3.0-or-later'', ''GNU Affero General Public License v3.0 or later''),
     (''bsd'', ''BSD-3-Clause'', ''BSD 3-Clause License''),
     (''bsd license'', ''BSD-3-Clause'', ''BSD 3-Clause License''),
     (''bsd-3'', ''BSD-3-Clause'', ''BSD 3-Clause License''),
     (''bsd-3-clause'', ''BSD-3-Clause'', ''BSD 3-Clause License''),
     (''bsd 3-clause'', ''BSD-3-Clause'', ''BSD 3-Clause License''),
     (''0bsd'', ''0BSD'', ''BSD Zero Clause License''),
     (''bsd-2'', ''BSD-2-Clause'', ''BSD 2-Clause \"Simplified\" License''),
     (''bsd-2-clause'', ''BSD-2-Clause'', ''BSD 2-Clause \"Simplified\" License''),
     (''bsd 2-clause'', ''BSD-2-Clause'', ''BSD 2-Clause \"Simplified\" License''),
     (''bsd-4-clause'', ''BSD-4-Clause'', ''BSD 4-Clause \"Original\" License''),
     (''bsd with advertising'', ''BSD-4-Clause'', ''BSD 4-Clause \"Original\" License''),
     (''mpl'', ''MPL-2.0'', ''Mozilla Public License 2.0''),
     (''mpl-2'', ''MPL-2.0'', ''Mozilla Public License 2.0''),
     (''mpl-2.0'', ''MPL-2.0'', ''Mozilla Public License 2.0''),
     (''mpl 2.0'', ''MPL-2.0'', ''Mozilla Public License 2.0''),
     (''mplv2.0'', ''MPL-2.0'', ''Mozilla Public License 2.0''),
     (''eclipse public license - v 2.0'', ''EPL-2.0'', ''Eclipse Public License 2.0''),
     (''epl-2.0'', ''EPL-2.0'', ''Eclipse Public License 2.0''),
     (''epl-1.0'', ''EPL-1.0'', ''Eclipse Public License 1.0''),
     (''edl 1.0'', ''BSD-3-Clause'', ''Eclipse Distribution License v1.0''),
     (''cddl-1.0'', ''CDDL-1.0'', ''Common Development and Distribution License 1.0''),
     (''cddl-1.1'', ''CDDL-1.1'', ''Common Development and Distribution License 1.1''),
     (''isc'', ''ISC'', ''ISC License''),
     (''isc license'', ''ISC'', ''ISC License''),
     (''zlib license'', ''Zlib'', ''zlib License''),
     (''zlib'', ''Zlib'', ''zlib License''),
     (''boost'', ''BSL-1.0'', ''Boost Software License 1.0''),
     (''boost software license'', ''BSL-1.0'', ''Boost Software License 1.0''),
     (''bsl-1.0'', ''BSL-1.0'', ''Boost Software License 1.0''),
     (''public domain'', ''Unlicense'', ''The Unlicense''),
     (''public-domain'', ''Unlicense'', ''The Unlicense''),
     (''publicdomain'', ''Unlicense'', ''The Unlicense''),
     (''the unlicense'', ''Unlicense'', ''The Unlicense''),
     (''unlicense'', ''Unlicense'', ''The Unlicense''),
     (''public domain, per creative commons cc0'', ''CC0-1.0'', ''Creative Commons Zero v1.0 Universal''),
     (''cc0-1.0'', ''CC0-1.0'', ''Creative Commons Zero v1.0 Universal''),
     (''gfdl'', ''GFDL-1.3-or-later'', ''GNU Free Documentation License v1.3 or later''),
     (''expat'', ''MIT'', ''MIT License''),
     (''mit/x11'', ''MIT'', ''MIT License''),
     (''mit-x11'', ''MIT'', ''MIT License''),
     (''artistic'', ''Artistic-1.0'', ''Artistic License 1.0''),
     (''artistic-1'', ''Artistic-1.0'', ''Artistic License 1.0''),
     (''artistic-2'', ''Artistic-2.0'', ''Artistic License 2.0''),
     (''artistic-2.0'', ''Artistic-2.0'', ''Artistic License 2.0''),
     (''gnu general public license v2.0 only'', ''GPL-2.0-only'', ''GNU General Public License v2.0 only''),
     (''gnu general public license v2.0 or later'', ''GPL-2.0-or-later'', ''GNU General Public License v2.0 or later''),
     (''gnu general public license v3.0 only'', ''GPL-3.0-only'', ''GNU General Public License v3.0 only''),
     (''gnu general public license v3.0 or later'', ''GPL-3.0-or-later'', ''GNU General Public License v3.0 or later''),
     (''gnu general public license, version 2, with the classpath exception'', ''GPL-2.0-only WITH Classpath-exception-2.0'', ''GPL 2.0 with Classpath Exception''),
     (''ssh-openssh'', ''SSH-OpenSSH'', ''SSH OpenSSH License''),
     (''x11'', ''X11'', ''X11 License''),
     (''openssl'', ''OpenSSL'', ''OpenSSL License''),
     (''blessing'', ''blessing'', ''SQLite Blessing''),
     (''curl'', ''curl'', ''curl License''),
     (''oldap-2.8'', ''OLDAP-2.8'', ''Open LDAP Public License v2.8''),
     (''bitstream vera'', ''Bitstream-Vera'', ''Bitstream Vera Font License''),
     (''bzip2-1.0.6'', ''bzip2-1.0.6'', ''bzip2 and libbzip2 License v1.0.6''),
     (''w3c'', ''W3C'', ''W3C Software Notice and License''),
     (''ftl'', ''FTL'', ''Freetype Project License''),
     (''ijg'', ''IJG'', ''Independent JPEG Group License''),
     (''rsa'', ''RSA-MD'', ''RSA Message-Digest License'')]"

definition licenseURLs :: "(string \<times> license_def) list" where
  "licenseURLs =
    [(''http://www.apache.org/licenses/license-2.0.txt'', ''Apache-2.0'', ''Apache License 2.0''),
     (''https://www.apache.org/licenses/license-2.0.txt'', ''Apache-2.0'', ''Apache License 2.0''),
     (''http://www.apache.org/licenses/license-2.0.html'', ''Apache-2.0'', ''Apache License 2.0''),
     (''http://www.apache.org/licenses/license-2.0'', ''Apache-2.0'', ''Apache License 2.0''),
     (''https://www.apache.org/licenses/license-2.0'', ''Apache-2.0'', ''Apache License 2.0''),
     (''https://apache.org/licenses/license-2.0.txt'', ''Apache-2.0'', ''Apache License 2.0''),
     (''http://repository.jboss.org/licenses/apache-2.0.txt'', ''Apache-2.0'', ''Apache License 2.0''),
     (''https://repository.jboss.org/licenses/apache-2.0.txt'', ''Apache-2.0'', ''Apache License 2.0''),
     (''http://www.opensource.org/licenses/mit-license.php'', ''MIT'', ''MIT License''),
     (''https://www.opensource.org/licenses/mit-license.php'', ''MIT'', ''MIT License''),
     (''https://opensource.org/license/mit'', ''MIT'', ''MIT License''),
     (''https://opensource.org/licenses/mit'', ''MIT'', ''MIT License''),
     (''http://creativecommons.org/publicdomain/zero/1.0'', ''CC0-1.0'', ''Creative Commons Zero v1.0 Universal''),
     (''https://creativecommons.org/publicdomain/zero/1.0'', ''CC0-1.0'', ''Creative Commons Zero v1.0 Universal''),
     (''https://opensource.org/licenses/bsd-2-clause'', ''BSD-2-Clause'', ''BSD 2-Clause \"Simplified\" License''),
     (''https://opensource.org/licenses/bsd-3-clause'', ''BSD-3-Clause'', ''BSD 3-Clause License''),
     (''http://www.eclipse.org/legal/epl-2.0'', ''EPL-2.0'', ''Eclipse Public License 2.0''),
     (''https://www.eclipse.org/legal/epl-2.0'', ''EPL-2.0'', ''Eclipse Public License 2.0''),
     (''http://www.eclipse.org/org/documents/edl-v10.php'', ''BSD-3-Clause'', ''Eclipse Distribution License v1.0''),
     (''https://projects.eclipse.org/license/epl-2.0'', ''EPL-2.0'', ''Eclipse Public License 2.0''),
     (''https://www.eclipse.org/org/documents/epl-2.0/epl-2.0.txt'', ''EPL-2.0'', ''Eclipse Public License 2.0''),
     (''https://projects.eclipse.org/license/secondary-gpl-2.0-cp'', ''GPL-2.0-only WITH Classpath-exception-2.0'', ''GPL 2.0 with Classpath Exception''),
     (''https://www.gnu.org/software/classpath/license.html'', ''GPL-2.0-only WITH Classpath-exception-2.0'', ''GPL 2.0 with Classpath Exception''),
     (''http://www.gnu.org/software/classpath/license.html'', ''GPL-2.0-only WITH Classpath-exception-2.0'', ''GPL 2.0 with Classpath Exception'')]"

section \<open>Go's string functions with panics\<close>

definition slice_to :: "nat \<Rightarrow> string \<Rightarrow> string option" where
  "slice_to i s = (if i \<le> length s then Some (take i s) else None)"

definition slice_from :: "nat \<Rightarrow> string \<Rightarrow> string option" where
  "slice_from i s = (if i \<le> length s then Some (drop i s) else None)"

definition trim_right_set :: "string \<Rightarrow> string \<Rightarrow> string" where
  "trim_right_set cs s = rev (dropWhile (List.member cs) (rev s))"

text \<open>\<open>splitCaseInsensitive\<close>: \<open>seplen\<close> is the length of the separator, \<open>lowerSep\<close> its lower case. The
  separators are ASCII and never empty.\<close>

function split_ci :: "nat \<Rightarrow> string \<Rightarrow> string \<Rightarrow> string \<Rightarrow> string list option" where
  "split_ci seplen lowerSep lower s =
     (case index_sub lowerSep lower of
        None \<Rightarrow> Some [s]
      | Some idx \<Rightarrow>
          if seplen = 0 \<or> length s < idx + seplen then None
          else map_option (\<lambda>parts. take idx s # parts)
                 (split_ci seplen lowerSep (drop (idx + length lowerSep) lower) (drop (idx + seplen) s)))"
  by pat_completeness auto
termination by (relation "measure (\<lambda>(n, p, l, s). length s)") auto

declare split_ci.simps [simp del]

definition splitCaseInsensitive :: "case_map \<Rightarrow> string \<Rightarrow> string \<Rightarrow> string list option" where
  "splitCaseInsensitive lc s sep = split_ci (length sep) (to_lower sep) (lc s) s"

section \<open>One license\<close>

definition normalizeSingle :: "case_map \<Rightarrow> string \<Rightarrow> license_def" where
  "normalizeSingle lc s =
     (let s = trim_space s in
      if s = [] then ([], [])
      else if has_prefix (lc s) ''http''
      then (case map_of licenseURLs (lc (trim_right_set ''/'' s)) of Some mapped \<Rightarrow> mapped | None \<Rightarrow> ([], s))
      else (case map_of licenseAlias (lc s) of Some alias \<Rightarrow> alias | None \<Rightarrow> ([], s)))"

section \<open>Compound expressions\<close>

definition exprSeps :: "(string \<times> string) list" where
  "exprSeps = [('' and '', '' AND ''), ('' or '', '' OR '')]"

text \<open>\<open>normalizeExpression\<close> and \<open>normalizePart\<close> call each other; the former is written over the
  function that normalises a part. The outer option is a panic, the inner one the code's \<open>ok\<close>.\<close>

fun normalizeParts :: "(string \<Rightarrow> string option) \<Rightarrow> string list \<Rightarrow> string list option" where
  "normalizeParts np [] = Some []"
| "normalizeParts np (p # ps) =
     (case np p of
        None \<Rightarrow> None
      | Some r \<Rightarrow> map_option (\<lambda>rs. if r \<noteq> [] then r # rs else rs) (normalizeParts np ps))"

fun try_seps ::
    "(string \<Rightarrow> string option) \<Rightarrow> case_map \<Rightarrow> string \<Rightarrow> (string \<times> string) list \<Rightarrow> string option option" where
  "try_seps np lc s [] =
     (if List.member s (CHR '','')
      then case normalizeParts np (split_on (CHR '','') s) of
             None \<Rightarrow> None
           | Some results \<Rightarrow> if length results \<ge> 2 then Some (Some (join '' AND '' results)) else Some None
      else Some None)"
| "try_seps np lc s ((pattern, spdxOp) # seps) =
     (if has_sub (lc s) pattern
      then case splitCaseInsensitive lc s pattern of
             None \<Rightarrow> None
           | Some parts \<Rightarrow>
               (case normalizeParts np parts of
                  None \<Rightarrow> None
                | Some results \<Rightarrow>
                    if length results \<ge> 2 then Some (Some (join spdxOp results))
                    else try_seps np lc s seps)
      else try_seps np lc s seps)"

text \<open>The parts are shorter than the string, so the recursion through them ends.\<close>

lemma split_ci_shorter:
  "split_ci n p l s = Some parts \<Longrightarrow> x \<in> set parts \<Longrightarrow> length x \<le> length s"
proof (induction n p l s arbitrary: parts rule: split_ci.induct)
  case (1 n p l s)
  show ?case
  proof (cases "index_sub p l")
    case None
    with "1.prems" show ?thesis by (auto simp: split_ci.simps [of n p l s])
  next
    case (Some idx)
    with "1.prems" obtain ps where ok: "\<not> (n = 0 \<or> length s < idx + n)" and parts: "parts = take idx s # ps"
      and rest: "split_ci n p (drop (idx + length p) l) (drop (idx + n) s) = Some ps"
      by (auto simp: split_ci.simps [of n p l s] split: if_splits)
    consider "x = take idx s" | "x \<in> set ps" using "1.prems"(2) parts by auto
    then show ?thesis using "1.IH" [OF Some ok rest] by cases auto
  qed
qed

lemma splitCaseInsensitive_shorter:
  assumes "splitCaseInsensitive lc s sep = Some parts" and "has_sub (lc s) (to_lower sep)"
    and "x \<in> set parts"
  shows "length x < length s"
proof -
  obtain idx where idx: "index_sub (to_lower sep) (lc s) = Some idx" using assms(2) by (auto simp: has_sub_def)
  with assms(1) obtain ps where ok: "0 < length sep" "idx + length sep \<le> length s" and parts: "parts = take idx s # ps"
    and rest: "split_ci (length sep) (to_lower sep) (drop (idx + length (to_lower sep)) (lc s))
            (drop (idx + length sep) s) = Some ps"
    by (auto simp: splitCaseInsensitive_def split_ci.simps [of _ _ "lc s" s] not_less split: if_splits)
  consider "x = take idx s" | "x \<in> set ps" using assms(3) parts by auto
  then show ?thesis
  proof cases
    case 1
    with ok show ?thesis by (cases sep) simp_all
  next
    case 2
    from split_ci_shorter [OF rest 2] ok show ?thesis by (cases sep) simp_all
  qed
qed

lemma normalizeParts_cong:
  "(\<And>x. x \<in> set ps \<Longrightarrow> np x = np' x) \<Longrightarrow> normalizeParts np ps = normalizeParts np' ps"
  by (induction ps) (simp_all split: option.splits)

lemma split_on_shorter:
  assumes "c \<in> set s" and "w \<in> set (split_on c s)"
  shows "length w < length s"
  using assms
proof (induction s arbitrary: w)
  case (Cons x xs)
  have le: "length w \<le> length t" if "w \<in> set (split_on c t)" for w t
    using that
  proof (induction t arbitrary: w)
    case (Cons y ys)
    then show ?case by (cases "split_on c ys") (fastforce split: if_splits)+
  qed simp
  obtain v vs where split: "split_on c xs = v # vs" by (cases "split_on c xs") simp_all
  then have v: "length v \<le> length xs" and vs: "\<And>u. u \<in> set vs \<Longrightarrow> length u \<le> length xs"
    using le [of _ xs] by simp_all
  show ?case
  proof (cases "x = c")
    case True
    with Cons.prems split v vs show ?thesis by (auto simp: less_Suc_eq_le)
  next
    case False
    with Cons.prems(1) have "c \<in> set xs" by auto
    with Cons.IH split have "length v < length xs" by simp
    with Cons.prems(2) False split vs show ?thesis by (auto simp: less_Suc_eq_le)
  qed
qed simp

lemma try_seps_cong:
  assumes "\<And>x. length x < length s \<Longrightarrow> np x = np' x" and "list_all (\<lambda>(p, q). to_lower p = p) seps"
  shows "try_seps np lc s seps = try_seps np' lc s seps"
  using assms(2)
proof (induction seps)
  case Nil
  have "normalizeParts np (split_on (CHR '','') s) = normalizeParts np' (split_on (CHR '','') s)"
    if "CHR '','' \<in> set s"
    using assms(1) split_on_shorter [OF that] by (intro normalizeParts_cong) blast
  then show ?case by simp
next
  case (Cons sep seps)
  obtain p q where sep: "sep = (p, q)" by fastforce
  have "normalizeParts np parts = normalizeParts np' parts"
    if "has_sub (lc s) p" "splitCaseInsensitive lc s p = Some parts" for parts
    using assms(1) splitCaseInsensitive_shorter [OF that(2)] that(1) Cons.prems sep
    by (intro normalizeParts_cong) simp
  with Cons sep show ?case by (auto split: option.splits)
qed

definition expression_with :: "(string \<Rightarrow> string option) \<Rightarrow> case_map \<Rightarrow> string \<Rightarrow> string option option" where
  "expression_with np lc s = try_seps np lc s exprSeps"

lemma expression_with_cong [fundef_cong]:
  assumes "lc = lc'" and "s = s'" and "\<And>x. length x < length s' \<Longrightarrow> np x = np' x"
  shows "expression_with np lc s = expression_with np' lc' s'"
proof -
  have seps: "list_all (\<lambda>(p, q). to_lower p = p) exprSeps" by code_simp
  show ?thesis
    unfolding expression_with_def assms(1,2) by (rule try_seps_cong [OF assms(3) seps])
qed

text \<open>The part without its outer parentheses (and whether it had them) and without the suffix
  \<open>with exceptions\<close>.\<close>

definition part_body :: "case_map \<Rightarrow> string \<Rightarrow> (string \<times> bool) option" where
  "part_body lc s =
     (let hadParens = has_prefix s ''('' \<and> has_suffix s '')'';
          s = (if hadParens then take (length s - 2) (drop 1 s) else s)
      in case index_sub '' with exceptions'' (lc s) of
           None \<Rightarrow> Some (s, hadParens)
         | Some idx \<Rightarrow>
             if idx > 0 then map_option (\<lambda>p. (trim_space p, hadParens)) (slice_to idx s)
             else Some (s, hadParens))"

lemma length_trim_space: "length (trim_space s) \<le> length s"
proof -
  have "length (dropWhile is_space (rev (dropWhile is_space s))) \<le> length (dropWhile is_space s)"
    using length_dropWhile_le [of is_space "rev (dropWhile is_space s)"] by simp
  also have "\<dots> \<le> length s" by (rule length_dropWhile_le)
  finally show ?thesis by (simp add: trim_space_def)
qed

lemma part_body_shorter:
  assumes "part_body lc s = Some (s', b)"
  shows "length s' \<le> length s"
proof -
  define t where "t = (if has_prefix s ''('' \<and> has_suffix s '')'' then take (length s - 2) (drop 1 s) else s)"
  have "length t \<le> length s" by (simp add: t_def)
  have "s' = t \<or> (\<exists>idx. s' = trim_space (take idx t))"
    using assms by (auto simp: part_body_def Let_def slice_to_def t_def [symmetric] simp del: take_drop
        split: option.splits if_splits)
  then have "length s' \<le> length t"
    using length_trim_space [of "take i t" for i] by (fastforce intro: order_trans)
  with \<open>length t \<le> length s\<close> show ?thesis by simp
qed

function normalizePart :: "case_map \<Rightarrow> string \<Rightarrow> string option" where
  "normalizePart lc s0 =
     (let s = trim_space s0 in
      if s = [] then Some []
      else case part_body lc s of
             None \<Rightarrow> None
           | Some (body, hadParens) \<Rightarrow>
               (case expression_with (normalizePart lc) lc body of
                       None \<Rightarrow> None
                     | Some (Some expr) \<Rightarrow> Some (if hadParens then ''('' @ expr @ '')'' else expr)
                     | Some None \<Rightarrow>
                         let (spdx, _) = normalizeSingle lc body
                         in Some (if spdx \<noteq> [] then spdx else body)))"
  by pat_completeness auto
termination
proof (relation "measure (\<lambda>(lc, s). length s)")
  fix lc and s0 s :: string and p body hadParens and x :: string
  assume "s = trim_space s0" "part_body lc s = Some p" "(body, hadParens) = p" "length x < length body"
  with part_body_shorter [of lc s body hadParens] length_trim_space [of s0]
  show "((lc, x), (lc, s0)) \<in> measure (\<lambda>(lc, s). length s)" by simp
qed simp

declare normalizePart.simps [simp del]

definition normalizeExpression :: "case_map \<Rightarrow> string \<Rightarrow> string option option" where
  "normalizeExpression lc s = expression_with (normalizePart lc) lc s"

definition NormalizeLicense :: "case_map \<Rightarrow> string \<Rightarrow> string \<Rightarrow> license_def option" where
  "NormalizeLicense lc lid name =
     (if lid \<noteq> [] then Some (lid, if name = [] then lid else name)
      else let cleaned = trim_space name in
           if cleaned = [] then Some ([], [])
           else let cleaned = (if has_prefix cleaned [CHR 0x22]
                               then (case index_byte (CHR 0x22) (drop 1 cleaned) of
                                       Some e \<Rightarrow> if e > 0 then take e (drop 1 cleaned) else cleaned
                                     | None \<Rightarrow> cleaned)
                               else cleaned);
                    cleaned = (case index_byte (CHR '';'') cleaned of
                                 Some idx \<Rightarrow> if idx > 0 then trim_space (take idx cleaned) else cleaned
                               | None \<Rightarrow> cleaned);
                    (spdx, display) = normalizeSingle lc cleaned
                in if spdx \<noteq> [] then Some (spdx, display)
                   else (case normalizeExpression lc cleaned of
                           None \<Rightarrow> None
                         | Some (Some expr) \<Rightarrow> Some ([], expr)
                         | Some None \<Rightarrow> Some ([], name)))"

section \<open>Expanding an expression\<close>

text \<open>\<open>licenseOperatorRe\<close> is \<^verbatim>\<open>(?i)\s+(?:and|or)\s+\<close>; \<open>\s\<close> is tab, newline, form feed, carriage
  return and space.\<close>

definition re_space :: "char \<Rightarrow> bool" where
  "re_space c \<longleftrightarrow> c = CHR '' '' \<or> byte_of c = 9 \<or> byte_of c = 10 \<or> byte_of c = 12 \<or> byte_of c = 13"

text \<open>After white space: the rest behind an operator and its white space.\<close>

definition after_operator :: "string \<Rightarrow> string option" where
  "after_operator t =
     (let n = (if to_lower (take 3 t) = ''and'' then 3 else if to_lower (take 2 t) = ''or'' then 2 else 0);
          r = drop n t
      in if n > 0 \<and> r \<noteq> [] \<and> re_space (hd r) then Some (dropWhile re_space r) else None)"

lemma after_operator_shorter: "after_operator t = Some r \<Longrightarrow> length r \<le> length t"
  by (auto simp: after_operator_def Let_def split: if_splits intro: order_trans [OF length_dropWhile_le])

function split_operators :: "string \<Rightarrow> string \<Rightarrow> string list" where
  "split_operators w [] = [w]"
| "split_operators w (c # cs) =
     (if re_space c
      then case after_operator (dropWhile re_space cs) of
             Some rest \<Rightarrow> w # split_operators [] rest
           | None \<Rightarrow> split_operators (w @ [c]) cs
      else split_operators (w @ [c]) cs)"
  by pat_completeness auto
termination
proof (relation "measure (\<lambda>(w, s). length s)")
  fix w cs rest and c :: char
  assume "after_operator (dropWhile re_space cs) = Some rest"
  with after_operator_shorter [of "dropWhile re_space cs" rest] length_dropWhile_le [of re_space cs]
  show "(([], rest), (w, c # cs)) \<in> measure (\<lambda>(w, s). length s)" by simp
qed simp_all

definition isLicenseExpression :: "string \<Rightarrow> bool" where
  "isLicenseExpression s \<longleftrightarrow> length (split_operators [] s) > 1"

definition licenseJunk :: "string list" where
  "licenseJunk =
     [''and'', ''or'', ''with'', ''license'', ''licence'', ''licenses'', ''permissive'', ''custom'', ''other'',
      ''unknown'', ''noassertion'', ''see-license'', ''2-clause'', ''3-clause'', ''4-clause'']"

text \<open>\<open>licenseDigestRe\<close> is \<^verbatim>\<open>^sha(1|256|512):[0-9a-f]+$\<close>.\<close>

definition is_license_digest :: "string \<Rightarrow> bool" where
  "is_license_digest s \<longleftrightarrow>
     list_ex (\<lambda>p. has_prefix s p \<and> drop (length p) s \<noteq> [] \<and>
               list_all (\<lambda>c. is_digit c \<or> 97 \<le> byte_of c \<and> byte_of c \<le> 102) (drop (length p) s))
       [''sha1:'', ''sha256:'', ''sha512:'']"

definition isLicenseJunk :: "case_map \<Rightarrow> string \<Rightarrow> bool" where
  "isLicenseJunk lc s =
     (let lower = lc (trim_space s)
      in lower = [] \<or> List.member licenseJunk lower \<or> is_license_digest lower)"

definition licenseKey :: "string \<Rightarrow> string \<Rightarrow> string" where
  "licenseKey spdxID displayName =
     (if spdxID \<noteq> [] then ''spdx:'' @ spdxID else ''name:'' @ displayName)"

definition normalizeExpressionTerm :: "case_map \<Rightarrow> case_map \<Rightarrow> string \<Rightarrow> license_def option" where
  "normalizeExpressionTerm lc uc term =
     (case index_sub '' WITH '' (uc term) of
        Some i \<Rightarrow>
          if i > 0
          then (case (slice_to i term, slice_from (i + length '' WITH '') term) of
                  (Some b, Some e) \<Rightarrow>
                    let base = trim_space b; exception = trim_space e; (spdxID, _) = normalizeSingle lc base in
                    if spdxID \<noteq> []
                    then let full = spdxID @ '' WITH '' @ exception in Some (full, full)
                    else Some ([], term)
                | _ \<Rightarrow> None)
          else let (spdxID, display) = normalizeSingle lc term
               in Some (if spdxID \<noteq> [] then (spdxID, display) else ([], term))
      | None \<Rightarrow> let (spdxID, display) = normalizeSingle lc term
                in Some (if spdxID \<noteq> [] then (spdxID, display) else ([], term)))"

definition drop_parens :: "string \<Rightarrow> string" where
  "drop_parens s = map (\<lambda>c. if c = CHR ''('' \<or> c = CHR '')'' then CHR '' '' else c) s"

definition expand_term ::
    "case_map \<Rightarrow> case_map \<Rightarrow> string \<Rightarrow> license_def list option \<Rightarrow> license_def list option" where
  "expand_term lc uc t0 acc =
     (case acc of
        None \<Rightarrow> None
      | Some out \<Rightarrow>
          let term = trim_right_set '',;'' (trim_space t0) in
          if term = [] \<or> isLicenseJunk lc term then Some out
          else case normalizeExpressionTerm lc uc term of
                 None \<Rightarrow> None
               | Some def \<Rightarrow>
                   if list_ex (\<lambda>d. licenseKey (fst d) (snd d) = licenseKey (fst def) (snd def)) out
                   then Some out else Some (out @ [def]))"

definition expandExpression :: "case_map \<Rightarrow> case_map \<Rightarrow> string \<Rightarrow> license_def list option" where
  "expandExpression lc uc expr = fold (expand_term lc uc) (split_operators [] (drop_parens expr)) (Some [])"

definition ExpandLicense ::
    "case_map \<Rightarrow> case_map \<Rightarrow> string \<Rightarrow> string \<Rightarrow> string \<Rightarrow> license_def list option" where
  "ExpandLicense lc uc lid name expression =
     (if expression \<noteq> [] then expandExpression lc uc expression
      else case NormalizeLicense lc lid name of
             None \<Rightarrow> None
           | Some (spdxID, display) \<Rightarrow>
               if spdxID \<noteq> [] then Some [(spdxID, display)]
               else if isLicenseExpression display then expandExpression lc uc display
               else let display = trim_right_set '',;'' (trim_space display)
                    in if isLicenseJunk lc display then Some [] else Some [([], display)])"

section \<open>What an expansion promises\<close>

definition key_of :: "license_def \<Rightarrow> string" where
  "key_of d = licenseKey (fst d) (snd d)"

lemma licenseKey_inj:
  "licenseKey a n = licenseKey b m \<longleftrightarrow> a = b \<and> (a \<noteq> [] \<or> n = m)"
  by (auto simp: licenseKey_def)

definition named_ok :: "case_map \<Rightarrow> license_def \<Rightarrow> bool" where
  "named_ok lc d \<longleftrightarrow> (fst d = [] \<longrightarrow> snd d \<noteq> [] \<and> \<not> isLicenseJunk lc (snd d))"

lemma term_named_ok:
  "normalizeExpressionTerm lc uc t = Some d \<Longrightarrow> t \<noteq> [] \<Longrightarrow> \<not> isLicenseJunk lc t \<Longrightarrow> named_ok lc d"
  by (auto simp: normalizeExpressionTerm_def named_ok_def Let_def case_prod_unfold
      split: option.splits if_splits)

definition expansion_ok :: "case_map \<Rightarrow> license_def list \<Rightarrow> bool" where
  "expansion_ok lc ds \<longleftrightarrow> list_all (named_ok lc) ds \<and> distinct (map key_of ds)"

lemma expand_term_ok:
  assumes "expand_term lc uc t (Some ds) = Some ds'" and "expansion_ok lc ds"
  shows "expansion_ok lc ds'"
proof -
  let ?t = "trim_right_set '',;'' (trim_space t)"
  consider "ds' = ds"
    | d where "normalizeExpressionTerm lc uc ?t = Some d" "?t \<noteq> []" "\<not> isLicenseJunk lc ?t"
        "ds' = ds @ [d]" "key_of d \<notin> key_of ` set ds"
  proof (cases "?t = [] \<or> isLicenseJunk lc ?t")
    case True
    with assms(1) that(1) show ?thesis by (auto simp: expand_term_def)
  next
    case False
    with assms(1) obtain d where d: "normalizeExpressionTerm lc uc ?t = Some d"
      and ds': "ds' = (if list_ex (\<lambda>x. key_of x = key_of d) ds then ds else ds @ [d])"
      by (auto simp: expand_term_def key_of_def split: option.splits if_splits)
    show ?thesis
    proof (cases "list_ex (\<lambda>x. key_of x = key_of d) ds")
      case True
      with ds' that(1) show ?thesis by simp
    next
      case new: False
      then have "key_of d \<notin> key_of ` set ds" by (auto simp: list_ex_iff)
      with new ds' d False that(2) show ?thesis by simp
    qed
  qed
  then show ?thesis
  proof cases
    case 2
    with term_named_ok [OF 2(1-3)] assms(2) show ?thesis by (auto simp: expansion_ok_def)
  qed (use assms(2) in simp)
qed

lemma fold_expand_term_None: "fold (expand_term lc uc) ts None = None"
  by (induction ts) (simp_all add: expand_term_def)

lemma fold_expand_term_ok:
  "fold (expand_term lc uc) ts (Some ds) = Some ds' \<Longrightarrow> expansion_ok lc ds \<Longrightarrow> expansion_ok lc ds'"
proof (induction ts arbitrary: ds)
  case (Cons t ts)
  then show ?case
    using fold_expand_term_None [of lc uc ts]
    by (cases "expand_term lc uc t (Some ds)") (auto intro: expand_term_ok)
qed simp

lemma junk_empty: "lc [] = ([] :: string) \<Longrightarrow> isLicenseJunk lc []"
  by (simp add: isLicenseJunk_def trim_space_def)

text \<open>Every license of an expansion has a name, names a license rather than an operator, a generic word or
  a digest when it has no identifier, and no two have the same key, so the rows that link a component to
  its licenses are distinct.\<close>

theorem expansion_names_licenses:
  assumes "ExpandLicense lc uc lid name expression = Some ds" and "lc [] = []"
  shows "expansion_ok lc ds"
proof -
  have expr: "expandExpression lc uc e = Some ds \<Longrightarrow> expansion_ok lc ds" for e
    using fold_expand_term_ok [of lc uc _ "[]" ds] by (simp add: expandExpression_def expansion_ok_def)
  have single: "expansion_ok lc [d]" if "named_ok lc d" for d
    using that by (simp add: expansion_ok_def)
  show ?thesis
    using assms expr junk_empty [of lc]
    by (auto simp: ExpandLicense_def Let_def named_ok_def expansion_ok_def split: if_splits option.splits prod.splits)
qed


section \<open>Panics\<close>

text \<open>Where changing case keeps the length of every string, as it does on ASCII, nothing panics.\<close>

lemma split_ci_total:
  "length l = length s \<Longrightarrow> length p = n \<Longrightarrow> n > 0 \<Longrightarrow> split_ci n p l s \<noteq> None"
proof (induction n p l s rule: split_ci.induct)
  case (1 n p l s)
  show ?case
  proof (cases "index_sub p l")
    case (Some idx)
    from index_sub_Some [OF this] obtain t where "drop idx l = p @ t" "idx \<le> length l"
      by (auto simp: has_prefix_iff)
    then have "length l = idx + length p + length t"
      by (metis append_take_drop_id length_append length_take min.absorb2 add.assoc)
    with "1.prems" have ok: "\<not> (n = 0 \<or> length s < idx + n)" by simp
    with "1.IH" [OF Some ok] "1.prems" Some show ?thesis by (simp add: split_ci.simps [of n p l s])
  qed (simp add: split_ci.simps [of n p l s])
qed

lemma splitCaseInsensitive_total:
  assumes "\<And>s. length (lc s) = length s" and "sep \<noteq> []"
  shows "splitCaseInsensitive lc s sep \<noteq> None"
  unfolding splitCaseInsensitive_def
  by (rule split_ci_total) (use assms in \<open>simp_all add: to_lower_def\<close>)

lemma normalizeParts_total:
  "(\<And>x. x \<in> set ps \<Longrightarrow> np x \<noteq> None) \<Longrightarrow> normalizeParts np ps \<noteq> None"
  by (induction ps) (auto split: option.splits)

lemma expression_with_total:
  assumes len: "\<And>s. length (lc s) = length s" and np: "\<And>x. length x < length s \<Longrightarrow> np x \<noteq> None"
  shows "expression_with np lc s \<noteq> None"
proof -
  have "try_seps np lc s seps \<noteq> None" if "list_all (\<lambda>(p, q). to_lower p = p \<and> p \<noteq> []) seps" for seps
    using that
  proof (induction seps)
    case Nil
    have "normalizeParts np (split_on (CHR '','') s) \<noteq> None" if "CHR '','' \<in> set s"
      using np split_on_shorter [OF that] by (intro normalizeParts_total) blast
    then show ?case by (auto split: option.splits)
  next
    case (Cons sep seps)
    obtain p q where sep: "sep = (p, q)" by fastforce
    obtain parts where parts: "splitCaseInsensitive lc s p = Some parts"
      using splitCaseInsensitive_total [OF len, of p s] Cons.prems sep by auto
    have "normalizeParts np parts \<noteq> None" if "has_sub (lc s) p"
      using np splitCaseInsensitive_shorter [OF parts] that Cons.prems sep
      by (intro normalizeParts_total) simp
    with Cons sep parts show ?case by (auto split: option.splits)
  qed
  moreover have "list_all (\<lambda>(p, q). to_lower p = p \<and> p \<noteq> []) exprSeps" by code_simp
  ultimately show ?thesis by (simp add: expression_with_def)
qed

lemma part_body_total:
  assumes len: "\<And>s. length (lc s) = length s"
  shows "part_body lc s \<noteq> None"
proof -
  have "slice_to idx t \<noteq> None" if "index_sub p (lc t) = Some idx" for p t idx
    using index_sub_Some [OF that] by (simp add: slice_to_def len)
  then show ?thesis by (auto simp: part_body_def Let_def split: option.splits)
qed

lemma normalizePart_total:
  assumes len: "\<And>s. length (lc s) = length s"
  shows "normalizePart lc s \<noteq> None"
proof (induction s rule: length_induct)
  case (1 s0)
  obtain body b where body: "part_body lc (trim_space s0) = Some (body, b)"
    using part_body_total [OF len, of "trim_space s0"] by auto
  have "length body \<le> length s0"
    using part_body_shorter [OF body] length_trim_space [of s0] by simp
  with 1 have "expression_with (normalizePart lc) lc body \<noteq> None"
    by (intro expression_with_total len) simp
  with body show ?case
    by (auto simp: normalizePart.simps [of lc s0] Let_def case_prod_unfold split: option.splits)
qed

lemma normalizeExpressionTerm_total:
  assumes len: "\<And>s. length (uc s) = length s"
  shows "normalizeExpressionTerm lc uc t \<noteq> None"
proof -
  have "slice_to i t \<noteq> None \<and> slice_from (i + length '' WITH '') t \<noteq> None"
    if i: "index_sub '' WITH '' (uc t) = Some i" for i
  proof -
    from index_sub_Some [OF i] obtain r where "drop i (uc t) = '' WITH '' @ r" "i \<le> length (uc t)"
      by (auto simp: has_prefix_iff)
    then have "length (uc t) = i + length '' WITH '' + length r"
      by (metis append_take_drop_id length_append length_take min.absorb2 add.assoc)
    then show ?thesis by (simp add: slice_to_def slice_from_def len)
  qed
  then show ?thesis
    by (auto simp: normalizeExpressionTerm_def Let_def case_prod_unfold split: option.splits)
qed

lemma expandExpression_total:
  assumes "\<And>s. length (uc s) = length s"
  shows "expandExpression lc uc e \<noteq> None"
proof -
  have "expand_term lc uc t (Some ds) \<noteq> None" for t ds
    using normalizeExpressionTerm_total [OF assms, of lc "trim_right_set '',;'' (trim_space t)"]
    by (auto simp: expand_term_def Let_def)
  then have "fold (expand_term lc uc) ts (Some ds) \<noteq> None" for ts ds
    by (induction ts arbitrary: ds) (simp, metis fold_simps(2) not_None_eq)
  then show ?thesis by (simp add: expandExpression_def)
qed

lemma NormalizeLicense_total:
  assumes "\<And>s. length (lc s) = length s"
  shows "NormalizeLicense lc lid name \<noteq> None"
proof -
  have "normalizeExpression lc c \<noteq> None" for c
    unfolding normalizeExpression_def by (rule expression_with_total [OF assms normalizePart_total [OF assms]])
  then have "\<forall>c. normalizeExpression lc c = Some (the (normalizeExpression lc c))" by simp
  then obtain r where r: "\<And>c. normalizeExpression lc c = Some (r c)" by fast
  show ?thesis
    by (simp add: NormalizeLicense_def Let_def case_prod_unfold r split: option.split)
qed

lemma ExpandLicense_total:
  assumes "\<And>s. length (lc s) = length s" and "\<And>s. length (uc s) = length s"
  shows "ExpandLicense lc uc lid name expression \<noteq> None"
  using expandExpression_total [OF assms(2)] NormalizeLicense_total [OF assms(1), of lid name]
  by (auto simp: ExpandLicense_def Let_def split: option.splits)

theorem expand_never_panics:
  assumes "\<And>s. length (lc s) = length s" and "\<And>s. length (uc s) = length s"
  shows "ExpandLicense lc uc lid name expression \<noteq> None"
  by (rule ExpandLicense_total [OF assms])

definition to_upper :: case_map where
  "to_upper s = map (\<lambda>c. if 97 \<le> byte_of c \<and> byte_of c \<le> 122 then char_of (byte_of c - 32) else c) s"

theorem expand_never_panics_witness:
  "ExpandLicense to_lower to_upper [] ''(MIT or gpl-2+) AND x with exceptions'' [] \<noteq> None"
  by (rule expand_never_panics) (simp_all add: to_lower_def to_upper_def)

text \<open>Unicode's tables do not: the lower case of the letter U+023A takes three bytes and the letter two.
  With a lower case that maps this letter, and ASCII, as Unicode does, a license name with two of these
  letters before an \<open>and\<close> makes ingestion slice out of bounds.\<close>

fun unicode_lower :: case_map where
  "unicode_lower (a # b # s) =
     (if a = CHR 0xC8 \<and> b = CHR 0xBA then CHR 0xE2 # CHR 0xB1 # CHR 0xA5 # unicode_lower s
      else lower_char a # unicode_lower (b # s))"
| "unicode_lower [a] = [lower_char a]"
| "unicode_lower [] = []"

definition crafted_name :: string where
  "crafted_name = [CHR 0xC8, CHR 0xBA, CHR 0xC8, CHR 0xBA] @ '' and b''"

theorem crafted_license_panics: "ExpandLicense unicode_lower to_upper [] crafted_name [] = None"
proof -
  have single: "fst (normalizeSingle unicode_lower crafted_name) = []" by code_simp
  have split: "splitCaseInsensitive unicode_lower crafted_name '' and '' = None" by code_simp
  have sub: "has_sub (unicode_lower crafted_name) '' and ''" by code_simp
  have "normalizeExpression unicode_lower crafted_name = None"
    by (simp add: normalizeExpression_def expression_with_def exprSeps_def split sub)
  moreover have "trim_space crafted_name = crafted_name" by code_simp
  moreover have "\<not> has_prefix crafted_name [CHR 0x22]" by code_simp
  moreover have "index_byte (CHR '';'') crafted_name = None" by code_simp
  moreover have "crafted_name \<noteq> []" by code_simp
  ultimately have "NormalizeLicense unicode_lower [] crafted_name = None"
    using single by (simp add: NormalizeLicense_def Let_def case_prod_unfold)
  then show ?thesis by (simp add: ExpandLicense_def)
qed

section \<open>An exception stays attached, except in a name\<close>

text \<open>The same license text is resolved to an identifier when it arrives as an expression and is left
  without one when it arrives as a name.\<close>

definition excepted :: string where
  "excepted = ''Apache-2.0 WITH LLVM-exception''"

theorem exception_lost_in_name:
  "ExpandLicense to_lower to_upper [] [] excepted = Some [(excepted, excepted)] \<and>
   ExpandLicense to_lower to_upper [] excepted [] = Some [([], excepted)]"
proof -
  have "ExpandLicense to_lower to_upper [] [] excepted = Some [(excepted, excepted)]" by code_simp
  moreover have "ExpandLicense to_lower to_upper [] excepted [] = Some [([], excepted)]" by code_simp
  ultimately show ?thesis by simp
qed

theorem expansion_names_licenses_witness:
  "expansion_ok to_lower [(''ISC'', ''ISC License''), ([], ''BSD-3-clause-GENERIC'')]"
proof (rule expansion_names_licenses)
  show "ExpandLicense to_lower to_upper [] [] ''(isc and BSD-3-clause-GENERIC) OR license or ISC'' =
      Some [(''ISC'', ''ISC License''), ([], ''BSD-3-clause-GENERIC'')]"
    by code_simp
qed (simp add: to_lower_def)

end
