(* ===== verification/MainModule.thy ===== *)
theory MainModule
  imports GoText ComponentDiff
begin

text \<open>
  The CycloneDX document as ingestion reads it, and \<^verbatim>\<open>internal/mainmodule/mainmodule.go\<close>: finding the
  package an image was built from, and giving it the image's version when the scanner had none.

  A document (\<open>bom\<close>) has the fields of \<open>cdx.BOM\<close> that the service reads. A pointer to a slice is a
  list, empty for \<open>nil\<close>, where every reader treats the two alike; \<open>bom.Components\<close>, for which
  \<open>flavorFromPURLs\<close> does not, is an option. The callers pass a document, never a nil pointer.
\<close>

section \<open>The document\<close>

record property =
  prop_name :: string
  prop_value :: string

record license_ref =
  lr_id :: string
  lr_name :: string
  lr_url :: string

record license_choice =
  lc_license :: "license_ref option"
  lc_expression :: string

record ext_ref =
  er_type :: string
  er_url :: string
  er_comment :: string

record component_data =
  c_bomref :: string
  c_type :: string
  c_group :: string
  c_name :: string
  c_version :: string
  c_purl :: string
  c_cpe :: string
  c_description :: string
  c_scope :: string
  c_publisher :: string
  c_copyright :: string
  c_hashes :: "(string \<times> string) list"
  c_refs :: "ext_ref list"
  c_licenses :: "license_choice list"
  c_props :: "property list"

datatype component = Component (cdata: component_data) (children: "component list")

record bom_metadata =
  meta_component :: "component_data option"
  meta_props :: "property list"

record bom =
  bom_serial :: string
  bom_spec :: string
  bom_version :: int
  bom_meta :: "bom_metadata option"
  bom_components :: "component list option"
  bom_dependencies :: "(string \<times> string list) list"

text \<open>The properties of the subject component, and those of the document.\<close>

definition subject_props :: "bom_metadata \<Rightarrow> property list" where
  "subject_props meta = (case meta_component meta of None \<Rightarrow> [] | Some mc \<Rightarrow> c_props mc)"

text \<open>The nested loops of the property lookups: the first property, in order, whose name is one of the
  keys and whose value is not empty.\<close>

fun first_prop :: "string list \<Rightarrow> property list \<Rightarrow> string option" where
  "first_prop keys [] = None"
| "first_prop keys (p # ps) =
     (if List.member keys (prop_name p) \<and> prop_value p \<noteq> [] then Some (prop_value p)
      else first_prop keys ps)"

fun first_prop_in :: "string list \<Rightarrow> property list list \<Rightarrow> string option" where
  "first_prop_in keys [] = None"
| "first_prop_in keys (ps # rest) =
     (case first_prop keys ps of Some v \<Rightarrow> Some v | None \<Rightarrow> first_prop_in keys rest)"

lemma first_prop_Some: "first_prop keys ps = Some v \<Longrightarrow> v \<noteq> []"
  by (induction ps) (auto split: if_splits)

lemma first_prop_in_Some: "first_prop_in keys pss = Some v \<Longrightarrow> v \<noteq> []"
  by (induction pss) (auto split: option.splits dest: first_prop_Some)

section \<open>The source repository\<close>

definition ociSourceKeys :: "string list" where
  "ociSourceKeys =
     [''syft:image:labels:org.opencontainers.image.source'',
      ''aquasecurity:trivy:Labels:org.opencontainers.image.source'']"

definition normalizeSourceURL :: "string \<Rightarrow> string" where
  "normalizeSourceURL raw =
     (let s = raw;
          s = (case index_sub ''://'' s of Some i \<Rightarrow> drop (i + 3) s | None \<Rightarrow> s);
          s = (case index_byte (CHR ''@'') s of Some i \<Rightarrow> drop (i + 1) s | None \<Rightarrow> s);
          s = trim_suffix s ''.git''
      in trim_suffix s ''/'')"

definition ExtractPath :: "bom \<Rightarrow> string" where
  "ExtractPath b =
     (case bom_meta b of
        None \<Rightarrow> []
      | Some meta \<Rightarrow>
          (case first_prop_in ociSourceKeys [subject_props meta, meta_props meta] of
             Some v \<Rightarrow> normalizeSourceURL v
           | None \<Rightarrow> []))"

section \<open>Versions in a purl\<close>

definition before_suffix :: "string \<Rightarrow> string" where
  "before_suffix purl =
     (let (base, _, _) = cut (CHR ''?'') purl; (base, _, _) = cut (CHR ''#'') base in base)"

definition purlVersion :: "string \<Rightarrow> string" where
  "purlVersion purl =
     (let base = before_suffix purl in
      case last_index_byte (CHR ''@'') base of
        None \<Rightarrow> []
      | Some at \<Rightarrow>
          let version = drop (at + 1) base
          in (case PathUnescape version of Some decoded \<Rightarrow> decoded | None \<Rightarrow> version))"

definition unknownVersion :: string where
  "unknownVersion = ''UNKNOWN''"

definition IsUnknownVersion :: "string \<Rightarrow> bool" where
  "IsUnknownVersion v \<longleftrightarrow> v = [] \<or> v = unknownVersion"

definition purlPath :: "string \<Rightarrow> string" where
  "purlPath purl =
     (if \<not> has_prefix purl ''pkg:'' then []
      else let rest = drop 4 purl in
           case index_byte (CHR ''/'') rest of
             None \<Rightarrow> []
           | Some i \<Rightarrow>
               let rest = drop (i + 1) rest
               in (case index_any ''@?'' rest of Some j \<Rightarrow> take j rest | None \<Rightarrow> rest))"

definition componentMatchesMainModule :: "string \<Rightarrow> string \<Rightarrow> string \<Rightarrow> bool" where
  "componentMatchesMainModule name purl mainModule =
     (if purl \<noteq> [] \<and> purlPath purl \<noteq> [] then purlPath purl = mainModule
      else name = mainModule)"

definition EffectiveVersion :: "string \<Rightarrow> string \<Rightarrow> string \<Rightarrow> string \<Rightarrow> string \<Rightarrow> string" where
  "EffectiveVersion version name purl mainModule subjectVersion =
     (if \<not> IsUnknownVersion version then version
      else if mainModule = [] \<or> subjectVersion = [] then version
      else if \<not> componentMatchesMainModule name purl mainModule then version
      else subjectVersion)"

definition encodePurlVersion :: "string \<Rightarrow> string" where
  "encodePurlVersion v =
     (let e = PathEscape v; e = replace_all ''+'' ''%2B'' e in replace_all ''@'' ''%40'' e)"

definition EffectivePurl :: "string \<Rightarrow> string \<Rightarrow> string" where
  "EffectivePurl purl version =
     (if purl = [] \<or> IsUnknownVersion version then purl
      else if purlVersion purl \<noteq> [] then purl
      else let (base, suffix) = (case index_any ''?#'' purl of
                                   Some i \<Rightarrow> (take i purl, drop i purl) | None \<Rightarrow> (purl, []))
           in base @ ''@'' @ encodePurlVersion version @ suffix)"

section \<open>Rewriting a document\<close>

text \<open>\<open>walk\<close> of \<open>Apply\<close>: the rewritten components and how many of them changed.\<close>

definition apply_data :: "string \<Rightarrow> string \<Rightarrow> component_data \<Rightarrow> component_data \<times> nat" where
  "apply_data mainModule subjectVersion c =
     (let v = EffectiveVersion (c_version c) (c_name c) (c_purl c) mainModule subjectVersion in
      if v \<noteq> c_version c
      then (c\<lparr>c_version := v, c_purl := EffectivePurl (c_purl c) v\<rparr>, 1)
      else (c, 0))"

fun apply_component :: "string \<Rightarrow> string \<Rightarrow> component \<Rightarrow> component \<times> nat" where
  "apply_component mainModule subjectVersion (Component c cs) =
     (let (c', n) = apply_data mainModule subjectVersion c;
          walked = map (apply_component mainModule subjectVersion) cs
      in (Component c' (map fst walked), n + sum_list (map snd walked)))"

definition Apply :: "bom \<Rightarrow> string \<Rightarrow> bom \<times> nat" where
  "Apply b subjectVersion =
     (case bom_components b of
        None \<Rightarrow> (b, 0)
      | Some cs \<Rightarrow>
          if subjectVersion = [] then (b, 0)
          else let main = ExtractPath b in
               if main = [] then (b, 0)
               else let walked = map (apply_component main subjectVersion) cs
                    in (b\<lparr>bom_components := Some (map fst walked)\<rparr>, sum_list (map snd walked)))"

section \<open>What the backfill keeps\<close>

text \<open>An encoded version has none of the bytes that separate the parts of a purl.\<close>

lemma concat_map_twice:
  "concat (map f (concat (map g s))) = concat (map (\<lambda>c. concat (map f (g c))) s)"
  by (induction s) auto

definition purl_byte :: "char \<Rightarrow> string" where
  "purl_byte c = (if path_keeps c \<and> c \<noteq> CHR ''+'' \<and> c \<noteq> CHR ''@'' then [c] else percent_byte c)"

lemma percent_byte_separators:
  "CHR ''+'' \<notin> set (percent_byte c)" "CHR ''@'' \<notin> set (percent_byte c)"
  "CHR ''?'' \<notin> set (percent_byte c)" "CHR ''#'' \<notin> set (percent_byte c)"
  by (auto dest!: percent_byte_plain simp: is_digit_def)

lemma concat_map_id: "(\<And>c. c \<in> set s \<Longrightarrow> f c = [c]) \<Longrightarrow> concat (map f s) = s"
  by (induction s) auto

lemma percent_byte_plus: "percent_byte CHR ''+'' = ''%2B''" "percent_byte CHR ''@'' = ''%40''"
  by code_simp+

lemma encodePurlVersion_eq: "encodePurlVersion v = concat (map purl_byte v)"
proof -
  let ?plus = "\<lambda>c. if c = CHR ''+'' then ''%2B'' else [c]"
  let ?at = "\<lambda>c. if c = CHR ''@'' then ''%40'' else [c]"
  have keep: "concat (map ?plus (percent_byte c)) = percent_byte c"
             "concat (map ?at (percent_byte c)) = percent_byte c" for c
    using percent_byte_separators [of c] by (auto intro!: concat_map_id)
  have "concat (map ?at (concat (map ?plus (if path_keeps c then [c] else percent_byte c)))) = purl_byte c"
    for c
  proof -
    consider "\<not> path_keeps c" | "c = CHR ''+''" | "c = CHR ''@''"
      | "path_keeps c" "c \<noteq> CHR ''+''" "c \<noteq> CHR ''@''" by blast
    then show ?thesis
    proof cases
      case 1 then show ?thesis by (simp add: keep purl_byte_def)
    next
      case 2 then show ?thesis by (simp add: purl_byte_def percent_byte_plus path_keeps_def)
    next
      case 3 then show ?thesis by (simp add: purl_byte_def percent_byte_plus path_keeps_def)
    next
      case 4 then show ?thesis by (simp add: purl_byte_def)
    qed
  qed
  then show ?thesis
    unfolding encodePurlVersion_def Let_def PathEscape_def replace_all_char concat_map_twice by simp
qed

lemma purl_byte_clean:
  "x \<in> set (purl_byte c) \<Longrightarrow> x \<noteq> CHR ''@'' \<and> x \<noteq> CHR ''?'' \<and> x \<noteq> CHR ''#''"
  using percent_byte_separators [of c]
  by (auto simp: purl_byte_def path_keeps_def is_digit_def split: if_splits)

lemma encodePurlVersion_clean:
  "x \<in> set (encodePurlVersion v) \<Longrightarrow> x \<noteq> CHR ''@'' \<and> x \<noteq> CHR ''?'' \<and> x \<noteq> CHR ''#''"
  by (auto simp: encodePurlVersion_eq dest: purl_byte_clean)

lemma PathUnescape_encodePurlVersion: "PathUnescape (encodePurlVersion v) = Some v"
  unfolding encodePurlVersion_eq
  by (rule unescape_encode) (auto simp: purl_byte_def dest: percent_not_kept)

abbreviation in_base :: "char \<Rightarrow> bool" where
  "in_base c \<equiv> c \<noteq> CHR ''?'' \<and> c \<noteq> CHR ''#''"

lemma takeWhile_cut: "c \<notin> set p \<Longrightarrow> takeWhile (\<lambda>x. x \<noteq> c) (p @ c # q) = p"
  by (induction p) auto

lemma takeWhile_absent: "c \<notin> set p \<Longrightarrow> takeWhile (\<lambda>x. x \<noteq> c) p = p"
  by (induction p) auto

lemma fst_cut: "fst (cut c s) = takeWhile (\<lambda>x. x \<noteq> c) s"
proof (cases "c \<in> set s")
  case True
  then obtain p q where "s = p @ c # q" and "c \<notin> set p" using split_list_first by metis
  then show ?thesis using cut_found [of c p q] takeWhile_cut [of c p q] by simp
next
  case False
  then show ?thesis unfolding cut_absent [OF False] takeWhile_absent [OF False] by simp
qed

lemma before_suffix_takeWhile: "before_suffix s = takeWhile in_base s"
proof -
  have "before_suffix s = fst (cut (CHR ''#'') (fst (cut (CHR ''?'') s)))"
    by (simp add: before_suffix_def Let_def split: prod.splits)
  also have "\<dots> = takeWhile in_base s"
    unfolding fst_cut by (induction s) auto
  finally show ?thesis .
qed

text \<open>A purl is its base and a suffix that is empty or starts at the first query or fragment mark.\<close>

definition purl_split :: "string \<Rightarrow> string \<times> string" where
  "purl_split purl = (case index_any ''?#'' purl of
                        Some i \<Rightarrow> (take i purl, drop i purl) | None \<Rightarrow> (purl, []))"

lemma purl_split_props:
  assumes "purl_split purl = (base, suffix)"
  shows "purl = base @ suffix" and "list_all in_base base"
    and "suffix = [] \<or> hd suffix = CHR ''?'' \<or> hd suffix = CHR ''#''"
proof -
  show "purl = base @ suffix"
    using assms by (auto simp: purl_split_def split: option.splits)
  show "list_all in_base base"
    using assms index_any_None [of "''?#''" purl] index_any_Some [of "''?#''" purl]
    by (auto simp: purl_split_def list_all_iff split: option.splits)
  show "suffix = [] \<or> hd suffix = CHR ''?'' \<or> hd suffix = CHR ''#''"
    using assms index_any_Some [of "''?#''" purl]
    by (auto simp: purl_split_def hd_drop_conv_nth split: option.splits)
qed

lemma before_suffix_base:
  assumes "list_all in_base base" "suffix = [] \<or> hd suffix = CHR ''?'' \<or> hd suffix = CHR ''#''"
  shows "before_suffix (base @ suffix) = base"
  using assms by (cases suffix) (auto simp: before_suffix_takeWhile list_all_iff takeWhile_append2)

lemma EffectivePurl_split:
  assumes "purl \<noteq> []" and "\<not> IsUnknownVersion v" and "purlVersion purl = []"
    and "purl_split purl = (base, suffix)"
  shows "EffectivePurl purl v = base @ CHR ''@'' # encodePurlVersion v @ suffix"
  using assms by (simp add: EffectivePurl_def purl_split_def split: option.splits)

lemma purlVersion_spliced:
  assumes "list_all in_base base" "suffix = [] \<or> hd suffix = CHR ''?'' \<or> hd suffix = CHR ''#''"
  shows "purlVersion (base @ CHR ''@'' # encodePurlVersion v @ suffix) = v"
proof -
  have "before_suffix ((base @ CHR ''@'' # encodePurlVersion v) @ suffix) = base @ CHR ''@'' # encodePurlVersion v"
    by (rule before_suffix_base) (use assms encodePurlVersion_clean in \<open>auto simp: list_all_iff\<close>)
  moreover have "last_index_byte (CHR ''@'') (base @ CHR ''@'' # encodePurlVersion v) = Some (length base)"
    by (rule last_index_append) (use encodePurlVersion_clean in blast)
  ultimately show ?thesis
    by (simp add: purlVersion_def PathUnescape_encodePurlVersion)
qed

lemma purlVersion_EffectivePurl:
  assumes "purl \<noteq> []" and "\<not> IsUnknownVersion v"
  shows "purlVersion (EffectivePurl purl v) = (if purlVersion purl = [] then v else purlVersion purl)"
proof (cases "purlVersion purl = []")
  case True
  obtain base suffix where split: "purl_split purl = (base, suffix)" by fastforce
  then show ?thesis
    using purlVersion_spliced purl_split_props [OF split] EffectivePurl_split [OF assms True split] True
    by simp
qed (use assms in \<open>simp add: EffectivePurl_def\<close>)

lemma EffectivePurl_again: "EffectivePurl (EffectivePurl purl v) v = EffectivePurl purl v"
proof (cases "purl = [] \<or> IsUnknownVersion v")
  case False
  then have "purlVersion (EffectivePurl purl v) \<noteq> []"
    using purlVersion_EffectivePurl [of purl v] by (auto simp: IsUnknownVersion_def)
  then show ?thesis by (simp add: EffectivePurl_def [of "EffectivePurl purl v"])
qed (auto simp: EffectivePurl_def)

text \<open>The purl that ingestion stores has the component's version wherever the scanner's purl had none, and
  reading the version back out of it gives exactly the version that was spliced in, whatever bytes it
  has; a purl that had a version keeps it, and a second application changes nothing.\<close>

theorem EffectivePurl_roundtrip:
  assumes "purl \<noteq> []" and "\<not> IsUnknownVersion v"
  shows "purlVersion (EffectivePurl purl v) = (if purlVersion purl = [] then v else purlVersion purl) \<and>
         EffectivePurl (EffectivePurl purl v) v = EffectivePurl purl v"
  using purlVersion_EffectivePurl [OF assms] EffectivePurl_again by simp

theorem EffectivePurl_roundtrip_witness:
  "purlVersion (EffectivePurl ''pkg:golang/a/b?goarch=arm64'' ''v1.2+dirty@x'') = ''v1.2+dirty@x'' \<and>
   EffectivePurl ''pkg:golang/a/b?goarch=arm64'' ''v1.2+dirty@x'' =
     ''pkg:golang/a/b@v1.2%2Bdirty%40x?goarch=arm64''"
proof -
  have "purlVersion ''pkg:golang/a/b?goarch=arm64'' = []" by code_simp
  moreover have "\<not> IsUnknownVersion ''v1.2+dirty@x''" by code_simp
  moreover have "EffectivePurl ''pkg:golang/a/b?goarch=arm64'' ''v1.2+dirty@x'' =
     ''pkg:golang/a/b@v1.2%2Bdirty%40x?goarch=arm64''" by code_simp
  ultimately show ?thesis
    using EffectivePurl_roundtrip [of "''pkg:golang/a/b?goarch=arm64''" "''v1.2+dirty@x''"] by simp
qed

section \<open>Identity under the backfill\<close>

text \<open>The identity under which the diff compares components ignores the version that was spliced in, as
  long as the purl has no subpath ahead of its qualifiers.\<close>

lemma stripPurlVersion_takeWhile: "stripPurlVersion p = takeWhile (\<lambda>x. x \<noteq> CHR ''@'') p"
proof -
  have "stripPurlVersion p = fst (cut (CHR ''@'') p)"
    by (simp add: stripPurlVersion_def cut_def split: option.splits)
  then show ?thesis by (simp add: fst_cut)
qed

lemma normalize_cut:
  assumes "cut (CHR ''?'') p = (a, q, b)" "cut (CHR ''?'') p' = (a', q, b)"
    and "stripPurlVersion a = stripPurlVersion a'"
  shows "normalizeComponentPurl p = normalizeComponentPurl p'"
  using assms by (simp add: normalizeComponentPurl_def)

theorem backfill_keeps_identity:
  assumes "CHR ''#'' \<notin> set (fst (cut (CHR ''?'') purl))"
  shows "normalizeComponentPurl (EffectivePurl purl v) = normalizeComponentPurl purl"
proof (cases "purl = [] \<or> IsUnknownVersion v \<or> purlVersion purl \<noteq> []")
  case False
  obtain base suffix where split: "purl_split purl = (base, suffix)" by fastforce
  note parts = purl_split_props [OF split]
  have eff: "EffectivePurl purl v = base @ CHR ''@'' # encodePurlVersion v @ suffix"
    using EffectivePurl_split [OF _ _ _ split] False by simp
  have base: "CHR ''?'' \<notin> set base" using parts(2) by (auto simp: list_all_iff)
  have spliced: "CHR ''?'' \<notin> set (base @ CHR ''@'' # encodePurlVersion v)"
    using base encodePurlVersion_clean by auto
  have strip: "stripPurlVersion (base @ CHR ''@'' # encodePurlVersion v) = stripPurlVersion base"
    by (induction base) (simp_all add: stripPurlVersion_takeWhile)
  consider "suffix = []" | q where "suffix = CHR ''?'' # q" | q where "suffix = CHR ''#'' # q"
    using parts(3) by (cases suffix) auto
  then show ?thesis
  proof cases
    case 1
    then show ?thesis
      using normalize_cut [OF cut_absent [OF spliced] cut_absent [OF base] strip] eff parts(1) by simp
  next
    case 2
    then show ?thesis
      using normalize_cut [OF cut_found [OF spliced] cut_found [OF base] strip] eff parts(1) by simp
  next
    case 3
    then have "CHR ''#'' \<in> set (fst (cut (CHR ''?'') purl))"
      using base unfolding parts(1) fst_cut by (induction base) auto
    with assms show ?thesis by simp
  qed
qed (auto simp: EffectivePurl_def)

theorem backfill_keeps_identity_witness:
  "normalizeComponentPurl (EffectivePurl ''pkg:golang/a/b?arch=arm64#x'' ''v1'') = ''pkg:golang/a/b?arch=arm64#x''"
  using backfill_keeps_identity [of "''pkg:golang/a/b?arch=arm64#x''" "''v1''"]
  by (simp add: normalizeComponentPurl_def cut_def stripPurlVersion_def identityQualifiers_def
      kept_qualifier_def map_filter_simps sort_by_def)

text \<open>With a subpath and no qualifiers the identity does change: the version is spliced ahead of the
  subpath, and stripping it cuts the subpath away with it.\<close>

theorem backfill_changes_subpath_identity:
  "normalizeComponentPurl (EffectivePurl ''pkg:golang/a/b#cmd/x'' ''v1'') \<noteq>
   normalizeComponentPurl ''pkg:golang/a/b#cmd/x''"
  by code_simp

section \<open>Applying the backfill to a document\<close>

lemma apply_data_again:
  "apply_data main sv (fst (apply_data main sv c)) = (fst (apply_data main sv c), 0)"
  by (auto simp: apply_data_def Let_def EffectiveVersion_def)

lemma apply_component_again:
  "apply_component main sv (fst (apply_component main sv t)) = (fst (apply_component main sv t), 0)"
proof (induction t)
  case (Component c cs)
  have "apply_data main sv (fst (apply_data main sv c)) = (fst (apply_data main sv c), 0)"
    by (rule apply_data_again)
  moreover have "map (apply_component main sv) (map (fst \<circ> apply_component main sv) cs) =
      map (\<lambda>t. (fst (apply_component main sv t), 0)) cs"
    using Component by simp
  ultimately show ?case
    by (simp add: Let_def case_prod_unfold)
qed

lemma ExtractPath_components: "ExtractPath (b\<lparr>bom_components := cs\<rparr>) = ExtractPath b"
  by (simp add: ExtractPath_def)

text \<open>Applying the backfill twice changes nothing the second time, and reports so.\<close>

theorem Apply_idempotent: "Apply (fst (Apply b sv)) sv = (fst (Apply b sv), 0)"
  by (auto simp: Apply_def Let_def ExtractPath_components apply_component_again comp_def
      split: option.splits)

end
