(* ===== verification/ImageFlavor.thy ===== *)
theory ImageFlavor
  imports MainModule Changelog
begin

text \<open>
  \<^verbatim>\<open>internal/service/flavor.go\<close>: which operating system an image is built on, from the document's OS
  properties, else the purl types of its packages, else the suffix of its tag; and the parts of a purl
  these need. Go's two maps of counts are association lists (\<open>bump\<close>, \<open>tally\<close>).
\<close>

section \<open>The parts of a purl\<close>

definition purlNamespace :: "string \<Rightarrow> string" where
  "purlNamespace purl =
     (let parts = splitn (CHR ''/'') 3 (before_suffix purl) in
      if length parts < 3 then [] else to_lower (parts ! 1))"

definition purlVersionValue :: "string \<Rightarrow> string" where
  "purlVersionValue purl =
     (let (base, _, _) = cut (CHR ''?'') purl;
          (base, _, _) = cut (CHR ''#'') base
      in case last_index_byte (CHR ''@'') base of
           None \<Rightarrow> []
         | Some at \<Rightarrow>
             let version = drop (at + 1) base
             in (case PathUnescape version of Some decoded \<Rightarrow> decoded | None \<Rightarrow> version))"

fun distro_value :: "string list \<Rightarrow> string" where
  "distro_value [] = []"
| "distro_value (kv # kvs) =
     (case cut (CHR ''='') kv of (k, v, ok) \<Rightarrow>
        if ok \<and> equal_fold k ''distro'' then v else distro_value kvs)"

definition purlDistroQualifier :: "string \<Rightarrow> string" where
  "purlDistroQualifier purl =
     (case cut (CHR ''?'') purl of (_, qs, ok) \<Rightarrow>
        if \<not> ok then []
        else case cut (CHR ''#'') qs of (qs, _, _) \<Rightarrow> distro_value (split_on (CHR ''&'') qs))"

section \<open>OS properties\<close>

definition osNameKeys :: "string list" where
  "osNameKeys = [''syft:image:os:name'', ''syft:distro:id'', ''aquasecurity:trivy:OS:Family'']"

definition osVersionKeys :: "string list" where
  "osVersionKeys = [''syft:image:os:version-id'', ''syft:distro:version-id'']"

definition findPropValue :: "property list list \<Rightarrow> string list \<Rightarrow> string" where
  "findPropValue propSets keys = (case first_prop_in keys propSets of None \<Rightarrow> [] | Some v \<Rightarrow> v)"

definition flavorFromOSMetadata :: "bom \<Rightarrow> string" where
  "flavorFromOSMetadata b =
     (case bom_meta b of
        None \<Rightarrow> []
      | Some meta \<Rightarrow>
          let propSets = (case meta_component meta of Some mc \<Rightarrow> [c_props mc] | None \<Rightarrow> []) @ [meta_props meta];
              osName = findPropValue propSets osNameKeys
          in if osName = [] then []
             else let osName = to_lower osName;
                      ver = to_lower (findPropValue propSets osVersionKeys)
                  in if ver \<noteq> [] then osName @ ''-'' @ ver else osName)"

section \<open>Package types\<close>

type_synonym tallies = "(string \<times> nat) list"

definition tally :: "tallies \<Rightarrow> string \<Rightarrow> nat" where
  "tally m k = (case map_of m k of None \<Rightarrow> 0 | Some n \<Rightarrow> n)"

definition bump :: "string \<Rightarrow> tallies \<Rightarrow> tallies" where
  "bump k m = AList.update k (tally m k + 1) m"

definition purlTypeAPK :: string where "purlTypeAPK = ''apk''"
definition purlTypeDeb :: string where "purlTypeDeb = ''deb''"
definition purlTypeRPM :: string where "purlTypeRPM = ''rpm''"

definition osPMTypes :: "string list" where
  "osPMTypes = [purlTypeAPK, purlTypeDeb, purlTypeRPM]"

lemmas pm_types = osPMTypes_def purlTypeAPK_def purlTypeDeb_def purlTypeRPM_def

definition apkDistroKey :: "string \<Rightarrow> string" where
  "apkDistroKey distro =
     (if has_prefix distro ''wolfi'' then ''wolfi''
      else if has_prefix distro ''chainguard'' then ''chainguard''
      else ''alpine'')"

definition count_component :: "component \<Rightarrow> tallies \<times> tallies \<Rightarrow> tallies \<times> tallies" where
  "count_component c counts =
     (case counts of (typeCounts, apkDistros) \<Rightarrow>
        let purl = c_purl (cdata c) in
        if purl = [] then counts
        else let typ = purlType purl in
             if typ = [] then counts
             else (bump typ typeCounts,
                   if typ = ''apk''
                   then bump (apkDistroKey (to_lower (purlDistroQualifier purl))) apkDistros
                   else apkDistros))"

definition countPURLTypes :: "component list \<Rightarrow> tallies \<times> tallies" where
  "countPURLTypes comps = fold count_component comps ([], [])"

definition dominantOSPMType :: "tallies \<Rightarrow> nat \<Rightarrow> string" where
  "dominantOSPMType typeCounts osPMTotal =
     (case find (\<lambda>t. tally typeCounts t * 2 > osPMTotal) osPMTypes of Some t \<Rightarrow> t | None \<Rightarrow> [])"

definition apkFlavor :: "tallies \<Rightarrow> string" where
  "apkFlavor apkDistros =
     (let total = tally apkDistros ''wolfi'' + tally apkDistros ''chainguard'' + tally apkDistros ''alpine''
      in case find (\<lambda>key. tally apkDistros key * 2 > total) [''wolfi'', ''chainguard'', ''alpine''] of
           Some key \<Rightarrow> key | None \<Rightarrow> [])"

definition debFlavor :: "component list \<Rightarrow> string" where
  "debFlavor comps =
     (case find (\<lambda>c. purlType (c_purl (cdata c)) = ''deb'' \<and> has_sub (purlNamespace (c_purl (cdata c))) ''ubuntu'')
             comps of
        Some _ \<Rightarrow> ''ubuntu'' | None \<Rightarrow> ''debian'')"

fun rpmFlavor :: "component list \<Rightarrow> string" where
  "rpmFlavor [] = ''rpm-other''"
| "rpmFlavor (c # cs) =
     (if purlType (c_purl (cdata c)) \<noteq> ''rpm'' then rpmFlavor cs
      else let ns = purlNamespace (c_purl (cdata c)) in
           if has_sub ns ''fedora'' then ''fedora''
           else if has_sub ns ''rhel'' \<or> has_sub ns ''redhat'' \<or> has_sub ns ''centos'' then ''rhel''
           else rpmFlavor cs)"

definition flavorForDominant :: "string \<Rightarrow> component list \<Rightarrow> tallies \<Rightarrow> string" where
  "flavorForDominant dominant comps apkDistros =
     (if dominant = ''apk'' then apkFlavor apkDistros
      else if dominant = ''deb'' then debFlavor comps
      else if dominant = ''rpm'' then rpmFlavor comps
      else [])"

definition flavorFromPURLs :: "bom \<Rightarrow> string" where
  "flavorFromPURLs b =
     (case bom_components b of
        None \<Rightarrow> []
      | Some comps \<Rightarrow>
          if length comps = 0 then ''scratch''
          else let (typeCounts, apkDistros) = countPURLTypes comps in
               if length typeCounts = 0 then ''distroless''
               else let osPMTotal = sum_list (map (tally typeCounts) osPMTypes) in
                    if osPMTotal = 0 then ''distroless''
                    else flavorForDominant (dominantOSPMType typeCounts osPMTotal) comps apkDistros)"

section \<open>Tag suffixes\<close>

definition tagSuffixes :: "string list" where
  "tagSuffixes =
     [''-debian-slim'', ''-bookworm-slim'', ''-bullseye-slim'', ''-ubi-minimal'', ''-ubi-micro'',
      ''-alpine3'', ''-alpine'', ''-wolfi'', ''-chainguard'',
      ''-bookworm'', ''-bullseye'', ''-debian'',
      ''-ubuntu'', ''-jammy'', ''-noble'', ''-focal'',
      ''-distroless'', ''-scratch'', ''-slim'',
      ''-rhel'', ''-ubi'', ''-fedora'']"

definition flavorFromTagSuffix :: "string \<Rightarrow> string" where
  "flavorFromTagSuffix subjectVersion =
     (let lower = to_lower subjectVersion in
      case find (has_suffix lower) tagSuffixes of Some suffix \<Rightarrow> drop 1 suffix | None \<Rightarrow> [])"

section \<open>The three layers\<close>

definition DetectFlavor :: "bom \<Rightarrow> string \<Rightarrow> string" where
  "DetectFlavor b subjectVersion =
     (if flavorFromOSMetadata b \<noteq> [] then flavorFromOSMetadata b
      else if flavorFromPURLs b \<noteq> [] then flavorFromPURLs b
      else if flavorFromTagSuffix subjectVersion \<noteq> [] then flavorFromTagSuffix subjectVersion
      else flavorUnknown)"

section \<open>What the detector promises\<close>

lemma purlVersionValue_eq: "purlVersionValue = purlVersion"
  by (rule ext) (simp add: purlVersionValue_def purlVersion_def before_suffix_def Let_def split: prod.splits)

text \<open>The counts are the numbers of components of each type, so the vote does not depend on the order
  in which the components, or the keys of the maps, are visited.\<close>

definition typed :: "string \<Rightarrow> component \<Rightarrow> bool" where
  "typed t c \<longleftrightarrow> c_purl (cdata c) \<noteq> [] \<and> purlType (c_purl (cdata c)) = t"

lemma tally_bump: "tally (bump k m) j = tally m j + (if j = k then 1 else 0)"
  by (simp add: tally_def bump_def update_conv')

lemma fst_count_component:
  "t \<noteq> [] \<Longrightarrow> tally (fst (count_component c counts)) t = tally (fst counts) t + (if typed t c then 1 else 0)"
  by (cases counts) (auto simp: count_component_def Let_def typed_def tally_bump)

lemma tally_countPURLTypes:
  assumes "t \<noteq> []"
  shows "tally (fst (countPURLTypes comps)) t = length (filter (typed t) comps)"
proof -
  have "tally (fst (fold count_component comps counts)) t = tally (fst counts) t + length (filter (typed t) comps)"
    for counts
    by (induction comps arbitrary: counts) (simp_all add: fst_count_component [OF assms])
  then show ?thesis by (simp add: countPURLTypes_def tally_def)
qed

definition os_packages :: "component list \<Rightarrow> nat" where
  "os_packages comps = sum_list (map (\<lambda>t. length (filter (typed t) comps)) osPMTypes)"

lemma dominant_iff:
  assumes "dominantOSPMType (fst (countPURLTypes comps)) (os_packages comps) = t" and "t \<noteq> []"
  shows "2 * length (filter (typed t) comps) > os_packages comps"
  using assms tally_countPURLTypes [of t comps]
  by (auto simp: dominantOSPMType_def split: option.splits dest!: find_SomeD)

lemma dominant_of_majority:
  assumes "2 * length (filter (typed t) comps) > os_packages comps" and "t \<in> set osPMTypes"
  shows "dominantOSPMType (fst (countPURLTypes comps)) (os_packages comps) = t"
proof -
  have ne: "s \<noteq> []" if "s \<in> set osPMTypes" for s using that by (auto simp: pm_types)
  obtain s where s: "find (\<lambda>t. tally (fst (countPURLTypes comps)) t * 2 > os_packages comps) osPMTypes = Some s"
    using assms tally_countPURLTypes [OF ne [OF assms(2)]]
    by (cases "find (\<lambda>t. tally (fst (countPURLTypes comps)) t * 2 > os_packages comps) osPMTypes")
       (auto dest: find_NoneD)
  then have "s \<in> set osPMTypes" "2 * length (filter (typed s) comps) > os_packages comps"
    using find_SomeD [OF s] tally_countPURLTypes [OF ne, of s comps] by auto
  with assms have "s = t" by (auto simp: os_packages_def pm_types)
  with s show ?thesis by (simp add: dominantOSPMType_def)
qed

lemma bump_nonempty [simp]: "bump k m \<noteq> []"
  by (simp add: bump_def update_nonempty)

definition has_type :: "component \<Rightarrow> bool" where
  "has_type c \<longleftrightarrow> c_purl (cdata c) \<noteq> [] \<and> purlType (c_purl (cdata c)) \<noteq> []"

lemma countPURLTypes_empty: "fst (countPURLTypes comps) = [] \<longleftrightarrow> (\<forall>c\<in>set comps. \<not> has_type c)"
proof -
  have "fst (fold count_component comps counts) = [] \<longleftrightarrow> fst counts = [] \<and> (\<forall>c\<in>set comps. \<not> has_type c)"
    for counts
  proof (induction comps arbitrary: counts)
    case (Cons c comps)
    have "fst (count_component c counts) = [] \<longleftrightarrow> fst counts = [] \<and> \<not> has_type c"
      by (cases counts) (auto simp: count_component_def Let_def has_type_def)
    with Cons show ?case by auto
  qed simp
  then show ?thesis by (simp add: countPURLTypes_def)
qed

definition apk_of :: "string \<Rightarrow> component \<Rightarrow> bool" where
  "apk_of key c \<longleftrightarrow> typed ''apk'' c \<and>
     apkDistroKey (to_lower (purlDistroQualifier (c_purl (cdata c)))) = key"

lemma tally_apkDistros: "tally (snd (countPURLTypes comps)) key = length (filter (apk_of key) comps)"
proof -
  have "tally (snd (fold count_component comps counts)) key = tally (snd counts) key + length (filter (apk_of key) comps)"
    for counts
  proof (induction comps arbitrary: counts)
    case (Cons c comps)
    have "tally (snd (count_component c counts)) key = tally (snd counts) key + (if apk_of key c then 1 else 0)"
      by (cases counts) (auto simp: count_component_def Let_def typed_def apk_of_def tally_bump)
    with Cons show ?case by simp
  qed simp
  then show ?thesis by (simp add: countPURLTypes_def tally_def)
qed

lemma filter_length_mset: "mset xs = mset ys \<Longrightarrow> length (filter P xs) = length (filter P ys)"
  by (metis mset_filter size_mset)

lemma find_congr: "(\<And>x. x \<in> set xs \<Longrightarrow> P x = Q x) \<Longrightarrow> find P xs = find Q xs"
  by (induction xs) auto

lemma debFlavor_mset: "mset cs = mset cs' \<Longrightarrow> debFlavor cs = debFlavor cs'"
proof -
  let ?P = "\<lambda>c. purlType (c_purl (cdata c)) = ''deb'' \<and> has_sub (purlNamespace (c_purl (cdata c))) ''ubuntu''"
  assume "mset cs = mset cs'"
  then have "set cs = set cs'" by (metis set_mset_mset)
  then have "find ?P cs = None \<longleftrightarrow> find ?P cs' = None" by (simp add: find_None_iff)
  then show ?thesis by (auto simp: debFlavor_def split: option.splits)
qed

text \<open>The package-type vote does not depend on the order of the components: two documents with the same
  components, in any order, get the same flavor, as long as the first Red Hat family package they name
  agrees when the image turns out to be rpm-based.\<close>

theorem flavor_order_irrelevant:
  assumes "bom_components b = Some cs" and "bom_components b' = Some cs'" and "mset cs = mset cs'"
    and "rpmFlavor cs = rpmFlavor cs'"
  shows "flavorFromPURLs b = flavorFromPURLs b'"
proof -
  have len: "length cs = length cs'" using assms(3) by (metis size_mset)
  have none: "fst (countPURLTypes cs) = [] \<longleftrightarrow> fst (countPURLTypes cs') = []"
    using assms(3) by (metis countPURLTypes_empty set_mset_mset)
  have types: "tally (fst (countPURLTypes cs)) t = tally (fst (countPURLTypes cs')) t"
    if "t \<in> set osPMTypes" for t
  proof -
    from that have "t \<noteq> []" by (auto simp: pm_types)
    then show ?thesis using filter_length_mset [OF assms(3)] by (simp add: tally_countPURLTypes)
  qed
  then have total: "sum_list (map (tally (fst (countPURLTypes cs))) osPMTypes) =
      sum_list (map (tally (fst (countPURLTypes cs'))) osPMTypes)"
    by (intro arg_cong [where f = sum_list] map_cong refl types)
  have dominant: "dominantOSPMType (fst (countPURLTypes cs)) n = dominantOSPMType (fst (countPURLTypes cs')) n" for n
    unfolding dominantOSPMType_def by (simp add: types cong: find_congr)
  have distros: "tally (snd (countPURLTypes cs)) = tally (snd (countPURLTypes cs'))"
    using filter_length_mset [OF assms(3)] by (simp add: tally_apkDistros fun_eq_iff)
  have "flavorForDominant d cs (snd (countPURLTypes cs)) = flavorForDominant d cs' (snd (countPURLTypes cs'))" for d
    by (simp add: flavorForDominant_def apkFlavor_def distros debFlavor_mset [OF assms(3)] assms(4))
  then show ?thesis
    using len none by (simp add: flavorFromPURLs_def assms(1,2) case_prod_unfold Let_def total dominant)
qed

definition demo_component :: "string \<Rightarrow> string \<Rightarrow> string \<Rightarrow> component_data" where
  "demo_component name version purl =
     \<lparr>c_bomref = name, c_type = ''library'', c_group = [], c_name = name, c_version = version,
      c_purl = purl, c_cpe = [], c_description = [], c_scope = [], c_publisher = [], c_copyright = [],
      c_hashes = [], c_refs = [], c_licenses = [], c_props = []\<rparr>"

definition demo_bom :: "component list \<Rightarrow> bom" where
  "demo_bom cs = \<lparr>bom_serial = [], bom_spec = ''1.6'', bom_version = 1, bom_meta = None,
     bom_components = Some cs, bom_dependencies = []\<rparr>"

definition demo_packages :: "component list" where
  "demo_packages =
     [Component (demo_component ''curl'' ''8'' ''pkg:deb/ubuntu/curl@8'') [],
      Component (demo_component ''bash'' ''5'' ''pkg:rpm/fedora/bash@5'') [],
      Component (demo_component ''zlib'' ''1'' ''pkg:deb/debian/zlib@1'') []]"

theorem flavor_order_irrelevant_witness:
  "flavorFromPURLs (demo_bom demo_packages) = flavorFromPURLs (demo_bom (rev demo_packages)) \<and>
   flavorFromPURLs (demo_bom demo_packages) = ''ubuntu''"
proof -
  have "rpmFlavor demo_packages = rpmFlavor (rev demo_packages)" by code_simp
  then have "flavorFromPURLs (demo_bom demo_packages) = flavorFromPURLs (demo_bom (rev demo_packages))"
    by (intro flavor_order_irrelevant [of _ demo_packages _ "rev demo_packages"]) (simp_all add: demo_bom_def)
  moreover have "flavorFromPURLs (demo_bom demo_packages) = ''ubuntu''" by code_simp
  ultimately show ?thesis by simp
qed

text \<open>The table of tag suffixes is not in order of length, but no entry is a suffix of a longer entry that
  comes after it, so the first match is the longest one.\<close>

lemma find_first:
  "find P xs = Some t \<Longrightarrow> s \<in> set xs \<Longrightarrow> P s \<Longrightarrow> sorted_wrt R xs \<Longrightarrow> s = t \<or> R t s"
  by (induction xs) (auto split: if_splits)

lemma suffix_of_suffix:
  assumes "has_suffix v s" "has_suffix v t" "length t \<le> length s"
  shows "has_suffix s t"
proof -
  obtain a b where "v = a @ s" "v = b @ t" using assms unfolding has_suffix_iff by blast
  with assms(3) show ?thesis by (auto simp: has_suffix_iff append_eq_append_conv2)
qed

lemma tagSuffixes_order: "sorted_wrt (\<lambda>t s. \<not> (length t < length s \<and> has_suffix s t)) tagSuffixes"
  by code_simp

theorem tag_suffix_longest:
  assumes "suffix \<in> set tagSuffixes" and "has_suffix (to_lower v) suffix"
  shows "has_suffix (to_lower v) (CHR ''-'' # flavorFromTagSuffix v) \<and>
         length suffix \<le> length (CHR ''-'' # flavorFromTagSuffix v)"
proof -
  obtain t where t: "find (has_suffix (to_lower v)) tagSuffixes = Some t"
    using assms by (cases "find (has_suffix (to_lower v)) tagSuffixes") (auto dest: find_NoneD)
  have "list_all (\<lambda>x. CHR ''-'' # drop 1 x = x) tagSuffixes" by code_simp
  then have dash: "CHR ''-'' # drop 1 t = t" using find_SomeD [OF t] by (auto simp: list_all_iff)
  have "length suffix \<le> length t"
    using find_first [OF t assms tagSuffixes_order] suffix_of_suffix [OF assms(2), of t] find_SomeD [OF t]
    by auto
  then show ?thesis
    using t dash find_SomeD [OF t] by (simp add: flavorFromTagSuffix_def)
qed

theorem tag_suffix_longest_witness:
  "flavorFromTagSuffix ''1.25-Bookworm-slim'' = ''bookworm-slim'' \<and>
   length ''-slim'' \<le> length (CHR ''-'' # flavorFromTagSuffix ''1.25-Bookworm-slim'')"
proof -
  have "''-slim'' \<in> set tagSuffixes" by (simp add: tagSuffixes_def)
  moreover have "has_suffix (to_lower ''1.25-Bookworm-slim'') ''-slim''" by code_simp
  moreover have "flavorFromTagSuffix ''1.25-Bookworm-slim'' = ''bookworm-slim''" by code_simp
  ultimately show ?thesis using tag_suffix_longest [of "''-slim''" "''1.25-Bookworm-slim''"] by simp
qed

text \<open>The detector never answers the empty string, for any document.\<close>

theorem DetectFlavor_nonempty: "DetectFlavor b v \<noteq> []"
  by (simp add: DetectFlavor_def flavorUnknown_def)

end
