(* ===== verification/SubjectMeta.thy ===== *)
theory SubjectMeta
  imports ImageFlavor
begin

text \<open>
  \<^verbatim>\<open>internal/service/sbom_metadata.go\<close>: the version, architecture, build date and digest of a
  document's subject, the caller's declarations laid over what the document says, and the helpers that
  carry values into nullable columns. The registry's answer about a digest is an argument
  (\<open>validator\<close>): \<open>None\<close> when the service runs without one.
\<close>

section \<open>Ingest parameters\<close>

text \<open>A Go symbol table maps import paths to names; its keys are distinct.\<close>

type_synonym symbol_table = "(string \<times> string list) list"

record ingest_params =
  ip_version :: string
  ip_architecture :: string
  ip_build_date :: string
  ip_source :: "uuid option"
  ip_index_digest :: string
  ip_subject_type :: string
  ip_subject_name :: string
  ip_subject_group :: string
  ip_subject_purl :: string
  ip_digest :: string
  ip_go_symbols :: "(string \<times> symbol_table) list"

section \<open>Numbers in a version\<close>

text \<open>\<open>strconv.Atoi\<close>: \<open>None\<close> is an error, of syntax or of range.\<close>

definition Atoi :: "string \<Rightarrow> int option" where
  "Atoi s =
     (let (neg, ds) = atoi_sign s in
      if ds = [] then None
      else case parse_uint 0 ds of
             None \<Rightarrow> None
           | Some un \<Rightarrow>
               if neg then (if un > 9223372036854775808 then None else Some (- int un))
               else (if un \<ge> 9223372036854775808 then None else Some (int un)))"

definition atoi_or :: "string \<Rightarrow> int \<Rightarrow> int" where
  "atoi_or s d = (case Atoi s of Some v \<Rightarrow> v | None \<Rightarrow> d)"

definition parseSemver :: "string \<Rightarrow> int \<times> int \<times> int" where
  "parseSemver version =
     (if version = [] then (-1, -1, -1)
      else let version = trim_prefix version ''v'';
               parts = splitn (CHR ''.'') 3 version;
               major = (if length parts \<ge> 1 then atoi_or (parts ! 0) (-1) else -1);
               minor = (if length parts \<ge> 2 then atoi_or (parts ! 1) (-1) else -1);
               patch = (if length parts \<ge> 3
                        then let patchStr = hd (splitn (CHR ''-'') 2 (parts ! 2));
                                 patchStr = hd (splitn (CHR ''+'') 2 patchStr)
                             in atoi_or patchStr (-1)
                        else -1)
           in (major, minor, patch))"

definition isMoreSpecific :: "string \<Rightarrow> string \<Rightarrow> bool" where
  "isMoreSpecific candidate base =
     (let (cMaj, cMin, cPatch) = parseSemver candidate;
          (bMaj, bMin, bPatch) = parseSemver base
      in cMaj \<ge> 0 \<and> cMin \<ge> 0 \<and> cPatch \<ge> 0 \<and> bMaj = cMaj \<and> bMin = cMin \<and> bPatch < 0)"

section \<open>Nullable columns\<close>

definition textOrNull :: "string \<Rightarrow> string option" where
  "textOrNull s = (if s = [] then None else Some s)"

definition boolOrNull :: "bool \<Rightarrow> bool option" where
  "boolOrNull b = (if \<not> b then None else Some True)"

text \<open>\<open>int32(v)\<close> keeps the low 32 bits.\<close>

definition intOrNull :: "int \<Rightarrow> 32 word option" where
  "intOrNull v = (if v < 0 then None else Some (word_of_int v))"

section \<open>The subject's metadata\<close>

definition ociVersionKeys :: "string list" where
  "ociVersionKeys =
     [''syft:image:labels:org.opencontainers.image.version'',
      ''aquasecurity:trivy:Labels:org.opencontainers.image.version'',
      ''syft:image:labels:org.label-schema.version'']"

definition ociArchKeys :: "string list" where
  "ociArchKeys = [''syft:image:labels:org.opencontainers.image.architecture'']"

definition ociBuildDateKeys :: "string list" where
  "ociBuildDateKeys =
     [''syft:image:labels:org.opencontainers.image.created'',
      ''syft:image:labels:org.label-schema.build-date'']"

definition subject_of :: "bom \<Rightarrow> (bom_metadata \<times> component_data) option" where
  "subject_of b = (case bom_meta b of
                     None \<Rightarrow> None
                   | Some meta \<Rightarrow> map_option (Pair meta) (meta_component meta))"

definition resolveSubjectVersion :: "bom \<Rightarrow> ingest_params \<Rightarrow> string option" where
  "resolveSubjectVersion b params =
     (case subject_of b of
        None \<Rightarrow> if ip_version params \<noteq> [] then Some (ip_version params) else None
      | Some (meta, mc) \<Rightarrow>
          let named = c_version mc \<noteq> [] \<and> \<not> has_prefix (c_version mc) ''sha256:'' in
          if ip_version params \<noteq> []
          then if named \<and> isMoreSpecific (c_version mc) (ip_version params) then Some (c_version mc)
               else Some (ip_version params)
          else if named then Some (c_version mc)
          else first_prop_in ociVersionKeys [c_props mc, meta_props meta])"

definition from_props :: "string list \<Rightarrow> bom \<Rightarrow> string" where
  "from_props keys b =
     (case subject_of b of
        None \<Rightarrow> []
      | Some (meta, mc) \<Rightarrow>
          (case first_prop_in keys [c_props mc, meta_props meta] of Some v \<Rightarrow> v | None \<Rightarrow> []))"

definition resolveArchitecture :: "bom \<Rightarrow> ingest_params \<Rightarrow> string" where
  "resolveArchitecture b params =
     (if ip_architecture params \<noteq> [] then ip_architecture params else from_props ociArchKeys b)"

definition resolveBuildDate :: "bom \<Rightarrow> ingest_params \<Rightarrow> string" where
  "resolveBuildDate b params =
     (if ip_build_date params \<noteq> [] then ip_build_date params else from_props ociBuildDateKeys b)"

definition sha_mark :: string where "sha_mark = ''@sha256:''"

definition extractDigestFromBOM :: "bom \<Rightarrow> string" where
  "extractDigestFromBOM b =
     (case subject_of b of
        None \<Rightarrow> []
      | Some (_, mc) \<Rightarrow>
          (case index_sub sha_mark (c_name mc) of
             Some idx \<Rightarrow> drop (idx + 1) (c_name mc)
           | None \<Rightarrow> if has_prefix (c_version mc) ''sha256:'' then c_version mc else []))"

definition resolveIngestDigest :: "bom \<Rightarrow> ingest_params \<Rightarrow> string" where
  "resolveIngestDigest b params =
     (if ip_digest params \<noteq> [] then ip_digest params else extractDigestFromBOM b)"

type_synonym digest_validator = "string \<Rightarrow> string \<Rightarrow> string option"

definition validateContainerDigest :: "digest_validator option \<Rightarrow> bom \<Rightarrow> unit result" where
  "validateContainerDigest validator b =
     (case validator of
        None \<Rightarrow> Inr ()
      | Some validate \<Rightarrow>
          (case subject_of b of
             None \<Rightarrow> Inr ()
           | Some (_, mc) \<Rightarrow>
               if c_type mc \<noteq> ''container'' then Inr ()
               else let name = c_name mc;
                        (name, digest) = (case index_sub sha_mark name of
                                            Some idx \<Rightarrow> (take idx name, drop (idx + 1) name)
                                          | None \<Rightarrow> (name, []));
                        digest = (if digest = [] \<and> has_prefix (c_version mc) ''sha256:''
                                  then c_version mc else digest)
                    in if digest = [] then Inr ()
                       else (case validate name digest of
                               Some message \<Rightarrow> Inl (ValidationError message)
                             | None \<Rightarrow> Inr ())))"

section \<open>What they promise\<close>

lemma Atoi_range: "Atoi s = Some v \<Longrightarrow> -(2 ^ 63) \<le> v \<and> v < 2 ^ 63"
  by (auto simp: Atoi_def Let_def split: prod.splits option.splits if_splits)

lemma Atoi_value: "Atoi s = Some v \<Longrightarrow> atoi_value s = v"
  by (auto simp: Atoi_def atoi_value_def Let_def split: prod.splits option.splits if_splits)

text \<open>A declared version is stored as it is, unless the document names a version of the same major and
  minor number with a patch number where the declaration has none.\<close>

theorem declared_version_kept:
  assumes "ip_version params \<noteq> []"
  shows "\<exists>v. resolveSubjectVersion b params = Some v \<and>
           (v = ip_version params \<or>
            fst (parseSemver v) = fst (parseSemver (ip_version params)) \<and>
            fst (snd (parseSemver v)) = fst (snd (parseSemver (ip_version params))) \<and>
            0 \<le> snd (snd (parseSemver v)) \<and> snd (snd (parseSemver (ip_version params))) < 0)"
  using assms
  by (auto simp: resolveSubjectVersion_def isMoreSpecific_def Let_def split: option.splits prod.splits)

definition no_params :: ingest_params where
  "no_params = \<lparr>ip_version = [], ip_architecture = [], ip_build_date = [], ip_source = None,
     ip_index_digest = [], ip_subject_type = [], ip_subject_name = [], ip_subject_group = [],
     ip_subject_purl = [], ip_digest = [], ip_go_symbols = []\<rparr>"

definition demo_image :: "string \<Rightarrow> string \<Rightarrow> bom" where
  "demo_image name version =
     (demo_bom [])\<lparr>bom_meta := Some \<lparr>meta_component =
        Some ((demo_component name version [])\<lparr>c_type := ''container''\<rparr>), meta_props = []\<rparr>\<rparr>"

theorem declared_version_kept_witness:
  "\<exists>v. resolveSubjectVersion (demo_image ''nginx'' ''1.25.3'') (no_params\<lparr>ip_version := ''1.25''\<rparr>) = Some v \<and>
       v = ''1.25.3'' \<and> fst (parseSemver v) = fst (parseSemver ''1.25'')"
proof -
  let ?b = "demo_image ''nginx'' ''1.25.3''" and ?p = "no_params\<lparr>ip_version := ''1.25''\<rparr>"
  have "resolveSubjectVersion ?b ?p = Some ''1.25.3''"
    by (simp add: resolveSubjectVersion_def subject_of_def demo_image_def demo_component_def no_params_def
        isMoreSpecific_def parseSemver_def atoi_or_def Atoi_def atoi_sign_def trim_prefix_def is_digit_def
        numeral_3_eq_3 numeral_2_eq_2)
  moreover have "ip_version ?p = ''1.25''" by simp
  ultimately show ?thesis using declared_version_kept [of ?p ?b] by auto
qed

text \<open>A version number below \<open>2 ^ 31\<close> is stored as it is read.\<close>

theorem intOrNull_exact:
  assumes "0 \<le> v" and "v < 2 ^ 31"
  shows "map_option sint (intOrNull v) = Some v"
  using assms by (simp add: intOrNull_def sint_sbintrunc' signed_take_bit_int_eq_self)

theorem intOrNull_exact_witness: "map_option sint (intOrNull 30001707) = Some 30001707"
  by (rule intOrNull_exact) (simp_all only: zero_le_numeral, simp)

text \<open>A larger one is not: the numbers of a version are read as 64-bit integers and cut to 32 bits, so a
  version whose first part is a timestamp is stored with an unrelated number, even a negative one.\<close>

theorem version_number_wraps:
  "fst (parseSemver ''20240131120000.0.1'') = 20240131120000 \<and>
   map_option sint (intOrNull (fst (parseSemver ''20240131120000.0.1''))) = Some (-2049746048) \<and>
   map_option sint (intOrNull (fst (parseSemver ''4294967297.2.3''))) = Some 1"
proof -
  have "fst (parseSemver ''20240131120000.0.1'') = 20240131120000"
       "fst (parseSemver ''4294967297.2.3'') = 4294967297"
    by (simp_all add: parseSemver_def atoi_or_def Atoi_def atoi_sign_def trim_prefix_def is_digit_def Let_def
        numeral_3_eq_3)
  then show ?thesis by (simp add: intOrNull_def)
qed

end
