(* ===== verification/GoSymbols.thy ===== *)
theory GoSymbols
  imports SubjectMeta
begin

text \<open>
  \<^verbatim>\<open>internal/gosymbols/gosymbols.go\<close> and \<open>detachGoSymbols\<close> of \<^verbatim>\<open>internal/service/sbom_gosymbols.go\<close>: the
  Go function symbols that travel as properties of a document's components. A table is an association
  list with distinct import paths; Go's nil table is \<open>None\<close>. Components, which the service keys by
  address, are told apart by their place in the depth-first walk.
\<close>

section \<open>Tables and properties\<close>

definition PropertyPrefix :: string where
  "PropertyPrefix = ''ocidex:go:symbols:''"

definition symbols_of :: "symbol_table \<Rightarrow> string \<Rightarrow> string list" where
  "symbols_of t path = (case map_of t path of None \<Rightarrow> [] | Some names \<Rightarrow> names)"

definition Properties :: "symbol_table \<Rightarrow> property list" where
  "Properties t =
     map (\<lambda>p. \<lparr>prop_name = PropertyPrefix @ p,
               prop_value = join '' '' (sort_by str_cmp (symbols_of t p))\<rparr>)
       (sort_by str_cmp (map fst t))"

text \<open>\<open>strings.CutPrefix\<close>, with an empty path counted as not found.\<close>

definition symbol_path :: "property \<Rightarrow> string option" where
  "symbol_path p =
     (if has_prefix (prop_name p) PropertyPrefix \<and> drop (length PropertyPrefix) (prop_name p) \<noteq> []
      then Some (drop (length PropertyPrefix) (prop_name p)) else None)"

definition add_symbols :: "symbol_table option \<Rightarrow> string \<Rightarrow> string list \<Rightarrow> symbol_table" where
  "add_symbols t path names =
     (case t of
        None \<Rightarrow> [(path, names)]
      | Some tab \<Rightarrow> AList.update path (symbols_of tab path @ names) tab)"

definition from_property ::
    "property \<Rightarrow> symbol_table option \<times> property list \<Rightarrow> symbol_table option \<times> property list" where
  "from_property p acc =
     (case acc of (t, rest) \<Rightarrow>
        (case symbol_path p of
           None \<Rightarrow> (t, rest @ [p])
         | Some path \<Rightarrow> (Some (add_symbols t path (Fields (prop_value p))), rest)))"

definition FromProperties :: "property list \<Rightarrow> symbol_table option \<times> property list" where
  "FromProperties props = fold from_property props (None, [])"

section \<open>Stripping a document\<close>

fun strip_component :: "component \<Rightarrow> component \<times> bool" where
  "strip_component (Component c cs) =
     (let (t, rest) = FromProperties (c_props c);
          walked = map strip_component cs
      in (Component (if t \<noteq> None then c\<lparr>c_props := rest\<rparr> else c) (map fst walked),
          t \<noteq> None \<or> list_ex snd walked))"

definition Strip :: "bom \<Rightarrow> bom \<times> bool" where
  "Strip b =
     (case bom_components b of
        None \<Rightarrow> (b, False)
      | Some cs \<Rightarrow>
          let walked = map strip_component cs
          in (b\<lparr>bom_components := Some (map fst walked)\<rparr>, list_ex snd walked))"

section \<open>Normalised names\<close>

text \<open>The expression \<^verbatim>\<open>\[[^]]*]\<close>: an opening bracket, the bytes up to the next closing one, and it.\<close>

function drop_type_params :: "string \<Rightarrow> string" where
  "drop_type_params [] = []"
| "drop_type_params (c # cs) =
     (if c = CHR ''['' then (case index_byte (CHR '']'') cs of
                               Some i \<Rightarrow> drop_type_params (drop (Suc i) cs)
                             | None \<Rightarrow> c # drop_type_params cs)
      else c # drop_type_params cs)"
  by pat_completeness auto
termination by (relation "measure length") auto

definition Normalize :: "string \<Rightarrow> string" where
  "Normalize name =
     (let name = (if index_byte (CHR ''('') name \<noteq> None
                  then replace_all '')'' [] (replace_all ''(*'' [] name) else name);
          name = trim_suffix name ''-fm''
      in if index_byte (CHR ''['') name \<noteq> None then drop_type_params name else name)"

definition normalize_step :: "string \<Rightarrow> string list \<times> string list \<Rightarrow> string list \<times> string list" where
  "normalize_step n acc =
     (case acc of (seen, norm) \<Rightarrow>
        let n = Normalize n in
        if n = [] \<or> List.member seen n then acc else (n # seen, norm @ [n]))"

definition normalize_names :: "string list \<Rightarrow> string list" where
  "normalize_names names = sort_by str_cmp (snd (fold normalize_step names ([], [])))"

definition Normalized :: "symbol_table option \<Rightarrow> symbol_table option" where
  "Normalized t = map_option (map (\<lambda>(path, names). (path, normalize_names names))) t"

section \<open>Detaching the symbols of a document\<close>

text \<open>The components in the order of the walk.\<close>

fun preorder :: "component \<Rightarrow> component_data list" where
  "preorder (Component c cs) = c # concat (map preorder cs)"

definition component_symbols ::
    "(string \<times> symbol_table) list \<Rightarrow> component_data \<Rightarrow> symbol_table option" where
  "component_symbols byBOMRef c =
     (let fromProps = fst (FromProperties (c_props c)) in
      case map_of byBOMRef (c_bomref c) of
        Some t \<Rightarrow> if c_bomref c \<noteq> [] then Normalized (Some t)
                  else if fromProps \<noteq> None then Normalized fromProps else None
      | None \<Rightarrow> if fromProps \<noteq> None then Normalized fromProps else None)"

text \<open>The answer is the tables of the components in walk order, \<open>None\<close> for those that have none, the
  document and its bytes. \<open>encode\<close> is the CycloneDX encoder of the library, \<open>Inl\<close> its error.\<close>

definition detachGoSymbols ::
    "(bom \<Rightarrow> go_error + string) \<Rightarrow> bom \<Rightarrow> string \<Rightarrow> (string \<times> symbol_table) list \<Rightarrow>
     (symbol_table option list \<times> bom \<times> string) result" where
  "detachGoSymbols encode b rawJSON byBOMRef =
     (case bom_components b of
        None \<Rightarrow> Inr ([], b, rawJSON)
      | Some cs \<Rightarrow>
          let comps = concat (map preorder cs);
              syms = map (component_symbols byBOMRef) comps;
              carried = list_ex (\<lambda>c. fst (FromProperties (c_props c)) \<noteq> None) comps
          in if list_all (\<lambda>s. s = None) syms then Inr ([], b, rawJSON)
             else if \<not> carried then Inr (syms, b, rawJSON)
             else let b = fst (Strip b) in
                  case encode b of
                    Inl e \<Rightarrow> Inl (Wrapped ''re-encoding sbom without go symbols: '' e)
                  | Inr raw \<Rightarrow> Inr (syms, b, raw))"

section \<open>Properties carry a table\<close>

lemma symbol_path_prefixed [simp]:
  "p \<noteq> [] \<Longrightarrow> symbol_path \<lparr>prop_name = PropertyPrefix @ p, prop_value = v\<rparr> = Some p"
  by (simp add: symbol_path_def has_prefix_iff)

definition plain_names :: "symbol_table \<Rightarrow> bool" where
  "plain_names t \<longleftrightarrow> list_all (\<lambda>(path, names). path \<noteq> [] \<and> list_all word_ok names) t"

definition sorted_symbols :: "symbol_table \<Rightarrow> symbol_table" where
  "sorted_symbols t = map (\<lambda>p. (p, sort_by str_cmp (symbols_of t p))) (sort_by str_cmp (map fst t))"

lemma update_new: "k \<notin> fst ` set m \<Longrightarrow> AList.update k v m = m @ [(k, v)]"
  by (induction m) auto

lemma map_of_new: "k \<notin> fst ` set m \<Longrightarrow> map_of m k = None"
  by (simp add: map_of_eq_None_iff)

lemma fold_new_paths:
  assumes "distinct paths" "\<forall>p\<in>set paths. p \<noteq> [] \<and> list_all word_ok (names p)"
    and "\<forall>p\<in>set paths. p \<notin> fst ` set (case t of None \<Rightarrow> [] | Some tab \<Rightarrow> tab)"
  shows "fold from_property
           (map (\<lambda>p. \<lparr>prop_name = PropertyPrefix @ p, prop_value = join '' '' (names p)\<rparr>) paths) (t, rest) =
         (if paths = [] then t
          else Some ((case t of None \<Rightarrow> [] | Some tab \<Rightarrow> tab) @ map (\<lambda>p. (p, names p)) paths), rest)"
  using assms
proof (induction paths arbitrary: t)
  case (Cons p paths)
  let ?old = "case t of None \<Rightarrow> [] | Some tab \<Rightarrow> tab"
  have "p \<notin> fst ` set ?old" using Cons.prems(3) by simp
  then have add: "add_symbols t p (names p) = ?old @ [(p, names p)]"
    by (cases t) (simp_all add: add_symbols_def symbols_of_def update_new map_of_new)
  have "Fields (join '' '' (names p)) = names p" using Cons.prems(2) by (simp add: fields_join)
  then have step: "from_property \<lparr>prop_name = PropertyPrefix @ p, prop_value = join '' '' (names p)\<rparr> (t, rest) =
      (Some (?old @ [(p, names p)]), rest)"
    using Cons.prems(2) add by (simp add: from_property_def)
  have "fold from_property
      (map (\<lambda>p. \<lparr>prop_name = PropertyPrefix @ p, prop_value = join '' '' (names p)\<rparr>) paths)
      (Some (?old @ [(p, names p)]), rest) =
      (if paths = [] then Some (?old @ [(p, names p)])
       else Some ((?old @ [(p, names p)]) @ map (\<lambda>p. (p, names p)) paths), rest)"
  proof -
    have "\<forall>q\<in>set paths. q \<notin> fst ` set (?old @ [(p, names p)])"
      using Cons.prems(1,3) by auto
    then show ?thesis
      using Cons.IH [of "Some (?old @ [(p, names p)])"] Cons.prems(1,2) by simp
  qed
  then show ?case by (simp add: step)
qed simp

lemma from_other_props:
  "list_all (\<lambda>p. symbol_path p = None) props \<Longrightarrow>
   fold from_property props (t, rest) = (t, rest @ props)"
  by (induction props arbitrary: rest) (simp_all add: from_property_def)

lemma symbols_of_plain: "plain_names t \<Longrightarrow> list_all word_ok (symbols_of t p)"
  by (cases "map_of t p")
     (auto simp: symbols_of_def plain_names_def list_all_iff dest!: map_of_SomeD)

text \<open>Reading the properties written for a table gives the table back, its paths and names in order, and
  leaves every other property as it was, for names that are not empty and have no white space.\<close>

theorem properties_roundtrip:
  assumes "distinct (map fst t)" and "plain_names t" and "t \<noteq> []"
    and "list_all (\<lambda>p. symbol_path p = None) others"
  shows "FromProperties (others @ Properties t) = (Some (sorted_symbols t), others)"
proof -
  let ?paths = "sort_by str_cmp (map fst t)"
  let ?names = "\<lambda>p. sort_by str_cmp (symbols_of t p)"
  have "\<forall>p\<in>set ?paths. p \<noteq> [] \<and> list_all word_ok (?names p)"
    using assms(2) symbols_of_plain [OF assms(2)] by (auto simp: plain_names_def list_all_iff)
  then have "fold from_property (Properties t) (None, others) =
      (if ?paths = [] then None else Some ([] @ map (\<lambda>p. (p, ?names p)) ?paths), others)"
    unfolding Properties_def using fold_new_paths [of ?paths ?names None others] assms(1) by simp
  moreover have "?paths \<noteq> []"
    using assms(3) by (metis length_0_conv length_sort_by map_is_Nil_conv)
  ultimately show ?thesis
    using from_other_props [OF assms(4), of None "[]"]
    by (simp add: FromProperties_def sorted_symbols_def)
qed

theorem properties_roundtrip_witness:
  "FromProperties (\<lparr>prop_name = ''os'', prop_value = ''x''\<rparr> # Properties [(''net'', [''Dial'']), (''fmt'', [''b'', ''a''])]) =
   (Some [(''fmt'', [''a'', ''b'']), (''net'', [''Dial''])], [\<lparr>prop_name = ''os'', prop_value = ''x''\<rparr>])"
proof -
  let ?t = "[(''net'', [''Dial'']), (''fmt'', [''b'', ''a''])]" and ?p = "\<lparr>prop_name = ''os'', prop_value = ''x''\<rparr>"
  have "plain_names ?t" "symbol_path ?p = None" by code_simp+
  moreover have "sorted_symbols ?t = [(''fmt'', [''a'', ''b'']), (''net'', [''Dial''])]" by code_simp
  ultimately show ?thesis using properties_roundtrip [of ?t "[?p]"] by simp
qed

section \<open>Stripping removes every symbol\<close>

lemma from_property_rest:
  "list_all (\<lambda>p. symbol_path p = None) rest \<Longrightarrow>
   list_all (\<lambda>p. symbol_path p = None) (snd (fold from_property props (t, rest)))"
  by (induction props arbitrary: t rest)
     (auto simp: from_property_def split: option.splits)

lemma FromProperties_plain:
  "list_all (\<lambda>p. symbol_path p = None) props \<Longrightarrow> FromProperties props = (None, props)"
  by (simp add: FromProperties_def from_other_props)

lemma add_symbols_Some:
  "fst (fold from_property props (Some tab, rest)) \<noteq> None"
  by (induction props arbitrary: tab rest) (auto simp: from_property_def split: option.splits)

lemma FromProperties_None:
  "fst (FromProperties props) = None \<Longrightarrow> list_all (\<lambda>p. symbol_path p = None) props"
proof -
  have "fst (fold from_property props (None, rest)) = None \<Longrightarrow> list_all (\<lambda>p. symbol_path p = None) props"
    for rest
  proof (induction props arbitrary: rest)
    case (Cons p props)
    have "symbol_path p = None"
    proof (rule ccontr)
      assume "symbol_path p \<noteq> None"
      then obtain y where "symbol_path p = Some y" by auto
      then have "from_property p (None, rest) = (Some (add_symbols None y (Fields (prop_value p))), rest)"
        by (simp add: from_property_def)
      with Cons.prems add_symbols_Some [of props] show False by simp
    qed
    with Cons show ?case by (simp add: from_property_def)
  qed simp
  then show "fst (FromProperties props) = None \<Longrightarrow> ?thesis" by (simp add: FromProperties_def)
qed

fun symbol_free :: "component \<Rightarrow> bool" where
  "symbol_free (Component c cs) \<longleftrightarrow>
     list_all (\<lambda>p. symbol_path p = None) (c_props c) \<and> list_all symbol_free cs"

lemma strip_component_free: "symbol_free (fst (strip_component t))"
proof (induction t)
  case (Component c cs)
  obtain tab rest where split: "FromProperties (c_props c) = (tab, rest)" by fastforce
  have "list_all (\<lambda>p. symbol_path p = None) rest"
    using from_property_rest [of "[]" "c_props c" None] split by (simp add: FromProperties_def)
  moreover have "tab = None \<Longrightarrow> list_all (\<lambda>p. symbol_path p = None) (c_props c)"
    using FromProperties_None [of "c_props c"] split by simp
  ultimately show ?case using Component split by (auto simp: list_all_iff)
qed

text \<open>No component of a stripped document, at any depth, carries a symbol property, so what is stored
  relationally is not stored in the document again.\<close>

theorem strip_removes_symbols:
  "case bom_components (fst (Strip b)) of None \<Rightarrow> True | Some cs \<Rightarrow> list_all symbol_free cs"
  by (cases "bom_components b") (simp_all add: Strip_def Let_def list_all_iff strip_component_free)

section \<open>Normalised tables\<close>

lemma normalize_step_inv:
  assumes "set norm = set seen" and "distinct norm" and "[] \<notin> set norm"
    and "fold normalize_step names (seen, norm) = (seen', norm')"
  shows "set norm' = set seen \<union> (Normalize ` set names - {[]}) \<and> distinct norm' \<and> [] \<notin> set norm'"
  using assms
proof (induction names arbitrary: seen norm)
  case (Cons n names)
  let ?n = "Normalize n"
  show ?case
  proof (cases "?n = [] \<or> List.member seen ?n")
    case True
    then have "normalize_step n (seen, norm) = (seen, norm)"
      by (auto simp: normalize_step_def Let_def)
    with Cons.prems(4) have "fold normalize_step names (seen, norm) = (seen', norm')" by simp
    from Cons.IH [OF Cons.prems(1-3) this] True show ?thesis by auto
  next
    case False
    then have "normalize_step n (seen, norm) = (?n # seen, norm @ [?n])"
      by (auto simp: normalize_step_def Let_def)
    with Cons.prems(4) have "fold normalize_step names (?n # seen, norm @ [?n]) = (seen', norm')" by simp
    moreover have "set (norm @ [?n]) = set (?n # seen)" by (simp add: Cons.prems(1))
    moreover have "distinct (norm @ [?n])" using Cons.prems(1,2) False by simp
    moreover have "[] \<noteq> ?n" using False by (metis (full_types))
    then have "[] \<notin> set (norm @ [?n])" using Cons.prems(3) by simp
    ultimately have IH: "set norm' = set (?n # seen) \<union> (Normalize ` set names - {[]}) \<and>
        distinct norm' \<and> [] \<notin> set norm'"
      using Cons.IH by blast
    have eq: "set (?n # seen) \<union> (Normalize ` set names - {[]}) =
        set seen \<union> (Normalize ` set (n # names) - {[]})"
      using False by auto
    show ?thesis
    proof (intro conjI)
      show "set norm' = set seen \<union> (Normalize ` set (n # names) - {[]})"
        using IH by (intro trans [OF _ eq]) (rule conjunct1)
    qed (use IH in blast)+
  qed
qed simp

text \<open>A normalised table lists, for each import path, exactly the non-empty normal forms of its names,
  each once and in order; and it keeps every path, those without names included.\<close>

theorem Normalized_names:
  "set (normalize_names names) = Normalize ` set names - {[]} \<and>
   distinct (normalize_names names) \<and> sorted_by str_cmp (normalize_names names) \<and>
   map_option (map fst) (Normalized t) = map_option (map fst) t"
proof -
  obtain seen norm where "fold normalize_step names ([], []) = (seen, norm)" by fastforce
  moreover from normalize_step_inv [OF _ _ _ this]
  have "set norm = Normalize ` set names - {[]}" "distinct norm" by simp_all
  moreover have "sorted_by str_cmp (sort_by str_cmp xs)" for xs :: "string list"
    by (rule comparator.sorted_sort_by) (rule linear_comparator.axioms(1) [OF linear_str_cmp])
  moreover have "map_option (map fst) (Normalized t) = map_option (map fst) t"
    by (cases t) (auto simp: Normalized_def)
  ultimately show ?thesis by (simp add: normalize_names_def)
qed

lemma Normalize_examples:
  "Normalize ''(*Client).Do'' = ''Client.Do''"
  "Normalize ''Map[go.shape.int].Load-fm'' = ''Map.Load''"
  by code_simp+

end
