(* ===== verification/IngestTables.thy ===== *)
theory IngestTables
  imports ScanJobs Licenses GoSymbols GoCrypto
begin

text \<open>
  The tables that ingestion writes and the statements it runs on them (\<^verbatim>\<open>internal/repository/sbom.sql.go\<close>,
  \<^verbatim>\<open>artifact.sql.go\<close>, \<^verbatim>\<open>source.sql.go\<close>, \<^verbatim>\<open>search.sql.go\<close> and the tombstone statements of
  \<^verbatim>\<open>scan_jobs.sql.go\<close>), with the unique indexes and foreign keys of \<^verbatim>\<open>db/migrations\<close>. A statement that
  meets a failure outside the tables is the business of the service that runs it. The identifiers that
  the database draws (\<open>gen_random_uuid\<close>) are arguments; an identity column counts its rows.
\<close>

section \<open>Rows\<close>

record artifact_row =
  at_id :: uuid
  at_type :: string
  at_name :: string
  at_group :: "string option"
  at_purl :: "string option"
  at_cpe :: "string option"

record stored_sbom =
  ps_id :: uuid
  ps_serial :: "string option"
  ps_spec :: string
  ps_version :: "32 word"
  ps_raw :: string
  ps_artifact :: "uuid option"
  ps_subject :: "string option"
  ps_digest :: "string option"
  ps_namespace :: uuid
  ps_source :: "uuid option"
  ps_flavor :: "string option"
  ps_index_digest :: "string option"

record stored_component =
  cw_id :: uuid
  cw_sbom :: uuid
  cw_parent :: "uuid option"
  cw_bomref :: "string option"
  cw_type :: string
  cw_name :: string
  cw_group :: "string option"
  cw_version :: "string option"
  cw_major :: "32 word option"
  cw_minor :: "32 word option"
  cw_patch :: "32 word option"
  cw_purl :: "string option"
  cw_cpe :: "string option"
  cw_description :: "string option"
  cw_scope :: "string option"
  cw_publisher :: "string option"
  cw_copyright :: "string option"
  cw_layer :: "string option"
  cw_found_by :: "string option"
  cw_source_package :: "string option"
  cw_source_version :: "string option"
  cw_source_purl :: "string option"
  cw_file_path :: "string option"
  cw_symbol_set :: "nat option"

record license_row =
  li_id :: uuid
  li_spdx :: "string option"
  li_name :: string
  li_url :: "string option"

text \<open>\<open>ib_sources\<close> pairs a source with its namespace; a hash is (component, algorithm, value), a reference
  (component, type, url, comment), a dependency (sbom, ref, depends on), a Go symbol (id, package, name)
  and a symbol set (id, digest, symbol ids).\<close>

record ingest_db =
  ib_sources :: "(uuid \<times> uuid) list"
  ib_artifacts :: "artifact_row list"
  ib_artifact_ns :: "(uuid \<times> uuid) list"
  ib_sboms :: "stored_sbom list"
  ib_components :: "stored_component list"
  ib_hashes :: "(uuid \<times> string \<times> string) list"
  ib_refs :: "(uuid \<times> string \<times> string \<times> string option) list"
  ib_licenses :: "license_row list"
  ib_component_licenses :: "(uuid \<times> uuid) list"
  ib_dependencies :: "(uuid \<times> string \<times> string) list"
  ib_packages :: "(nat \<times> string) list"
  ib_symbols :: "(nat \<times> nat \<times> string) list"
  ib_symbol_sets :: "(nat \<times> string \<times> nat list) list"
  ib_jobs :: "scan_job_row list"

definition foreign_key :: go_error where
  "foreign_key = OtherError ''insert or update violates foreign key constraint''"

section \<open>Sources and artifacts\<close>

definition GetSource :: "ingest_db \<Rightarrow> uuid \<Rightarrow> uuid result" where
  "GetSource d i = (case map_of (ib_sources d) i of Some ns \<Rightarrow> Inr ns | None \<Rightarrow> Inl NoRows)"

definition same_artifact :: "string \<Rightarrow> string \<Rightarrow> string option \<Rightarrow> artifact_row \<Rightarrow> bool" where
  "same_artifact typ name grp a \<longleftrightarrow> at_type a = typ \<and> at_name a = name \<and> coalesce (at_group a) = coalesce grp"

definition GetArtifactByIdentity ::
    "ingest_db \<Rightarrow> string \<Rightarrow> string \<Rightarrow> string option \<Rightarrow> artifact_row result" where
  "GetArtifactByIdentity d typ name grp =
     (case find (same_artifact typ name grp) (ib_artifacts d) of Some a \<Rightarrow> Inr a | None \<Rightarrow> Inl NoRows)"

text \<open>\<open>new\<close> carries the statement's arguments and the identifier a new row gets.\<close>

definition UpsertArtifact :: "artifact_row \<Rightarrow> ingest_db \<Rightarrow> uuid result \<times> ingest_db" where
  "UpsertArtifact new d =
     (let same = same_artifact (at_type new) (at_name new) (at_group new) in
      case find same (ib_artifacts d) of
        Some a \<Rightarrow>
          (Inr (at_id a),
           d\<lparr>ib_artifacts := update_where same
               (\<lambda>r. r\<lparr>at_purl := coalesce_opt (at_purl new) (at_purl r),
                      at_cpe := coalesce_opt (at_cpe new) (at_cpe r)\<rparr>) (ib_artifacts d)\<rparr>)
      | None \<Rightarrow>
          if list_ex (\<lambda>a. at_id a = at_id new) (ib_artifacts d) then (Inl UniqueViolation, d)
          else (Inr (at_id new), d\<lparr>ib_artifacts := ib_artifacts d @ [new]\<rparr>))"

definition UpsertArtifactNamespace :: "uuid \<Rightarrow> uuid \<Rightarrow> ingest_db \<Rightarrow> unit result \<times> ingest_db" where
  "UpsertArtifactNamespace art ns d =
     (Inr (), if List.member (ib_artifact_ns d) (art, ns) then d
              else d\<lparr>ib_artifact_ns := ib_artifact_ns d @ [(art, ns)]\<rparr>)"

definition GetArtifactNamespaceID_stmt :: "ingest_db \<Rightarrow> uuid \<Rightarrow> uuid result" where
  "GetArtifactNamespaceID_stmt d art =
     (case sort_by uuid_cmp (map snd (filter (\<lambda>(a, n). a = art) (ib_artifact_ns d))) of
        ns # _ \<Rightarrow> Inr ns | [] \<Rightarrow> Inl NoRows)"

section \<open>SBOMs\<close>

definition GetSBOMByDigest :: "ingest_db \<Rightarrow> string \<Rightarrow> uuid result" where
  "GetSBOMByDigest d digest =
     (case find (\<lambda>s. ps_digest s = Some digest) (ib_sboms d) of Some s \<Rightarrow> Inr (ps_id s) | None \<Rightarrow> Inl NoRows)"

text \<open>The primary key, and the unique indexes on the digest and on the serial number with the version, each
  where it is not null.\<close>

definition sbom_conflicts :: "stored_sbom \<Rightarrow> stored_sbom \<Rightarrow> bool" where
  "sbom_conflicts new s \<longleftrightarrow> ps_id s = ps_id new \<or>
     ps_digest new \<noteq> None \<and> ps_digest s = ps_digest new \<or>
     ps_serial new \<noteq> None \<and> ps_serial s = ps_serial new \<and> ps_version s = ps_version new"

definition InsertSBOM :: "stored_sbom \<Rightarrow> ingest_db \<Rightarrow> uuid result \<times> ingest_db" where
  "InsertSBOM new d =
     (if list_ex (sbom_conflicts new) (ib_sboms d) then (Inl UniqueViolation, d)
      else if (case ps_source new of Some s \<Rightarrow> map_of (ib_sources d) s = None | None \<Rightarrow> False)
      then (Inl foreign_key, d)
      else if (case ps_artifact new of Some a \<Rightarrow> \<not> list_ex (\<lambda>r. at_id r = a) (ib_artifacts d) | None \<Rightarrow> False)
      then (Inl foreign_key, d)
      else (Inr (ps_id new), d\<lparr>ib_sboms := ib_sboms d @ [new]\<rparr>))"

definition GetSBOM :: "ingest_db \<Rightarrow> uuid \<Rightarrow> stored_sbom result" where
  "GetSBOM d i = (case find (\<lambda>s. ps_id s = i) (ib_sboms d) of Some s \<Rightarrow> Inr s | None \<Rightarrow> Inl NoRows)"

definition ListDigestsBySource_stmt :: "ingest_db \<Rightarrow> uuid \<Rightarrow> string option list" where
  "ListDigestsBySource_stmt d src =
     remdups (map ps_digest (filter (\<lambda>s. ps_source s = Some src \<and> ps_digest s \<noteq> None) (ib_sboms d)))"

text \<open>Deleting SBOMs takes their components, what hangs from those, and their dependencies with them; a
  scan job that points at one loses the pointer.\<close>

definition delete_sboms :: "(stored_sbom \<Rightarrow> bool) \<Rightarrow> ingest_db \<Rightarrow> ingest_db" where
  "delete_sboms P d =
     (let gone = map ps_id (filter P (ib_sboms d));
          lost = map cw_id (filter (\<lambda>c. List.member gone (cw_sbom c)) (ib_components d))
      in d\<lparr>ib_sboms := filter (\<lambda>s. \<not> P s) (ib_sboms d),
           ib_components := filter (\<lambda>c. \<not> List.member gone (cw_sbom c)) (ib_components d),
           ib_hashes := filter (\<lambda>h. \<not> List.member lost (fst h)) (ib_hashes d),
           ib_refs := filter (\<lambda>r. \<not> List.member lost (fst r)) (ib_refs d),
           ib_component_licenses := filter (\<lambda>l. \<not> List.member lost (fst l)) (ib_component_licenses d),
           ib_dependencies := filter (\<lambda>e. \<not> List.member gone (fst e)) (ib_dependencies d),
           ib_jobs := update_where (\<lambda>j. case sj_sbom j of Some i \<Rightarrow> List.member gone i | None \<Rightarrow> False)
                        (\<lambda>j. j\<lparr>sj_sbom := None\<rparr>) (ib_jobs d)\<rparr>)"

definition DeleteSBOM_stmt :: "uuid \<Rightarrow> ingest_db \<Rightarrow> int result \<times> ingest_db" where
  "DeleteSBOM_stmt i d = (Inr (count_where (\<lambda>s. ps_id s = i) (ib_sboms d)), delete_sboms (\<lambda>s. ps_id s = i) d)"

definition DeleteSBOMsByArtifact :: "uuid \<Rightarrow> ingest_db \<Rightarrow> int result \<times> ingest_db" where
  "DeleteSBOMsByArtifact art d =
     (Inr (count_where (\<lambda>s. ps_artifact s = Some art) (ib_sboms d)), delete_sboms (\<lambda>s. ps_artifact s = Some art) d)"

definition DeleteArtifact_stmt :: "uuid \<Rightarrow> ingest_db \<Rightarrow> int result \<times> ingest_db" where
  "DeleteArtifact_stmt art d =
     (if list_ex (\<lambda>s. ps_artifact s = Some art) (ib_sboms d) then (Inl foreign_key, d)
      else (Inr (count_where (\<lambda>a. at_id a = art) (ib_artifacts d)),
            d\<lparr>ib_artifacts := filter (\<lambda>a. at_id a \<noteq> art) (ib_artifacts d),
              ib_artifact_ns := filter (\<lambda>l. fst l \<noteq> art) (ib_artifact_ns d)\<rparr>))"

section \<open>Tombstones\<close>

definition job_channel :: "scan_job_row \<Rightarrow> uuid option" where
  "job_channel j = coalesce_opt (sj_cluster j) (sj_registry j)"

text \<open>The join of \<open>PruneScanJobsForSBOM\<close> and \<open>PruneScanJobsForArtifact\<close>: a comparison with NULL is not true.\<close>

definition scanned_by :: "stored_sbom \<Rightarrow> scan_job_row \<Rightarrow> bool" where
  "scanned_by s j \<longleftrightarrow> job_channel j \<noteq> None \<and> job_channel j = ps_source s \<and>
     ps_digest s = Some (sj_digest j) \<and> sj_state j = Succeeded"

definition tombstone_jobs :: "int \<Rightarrow> (stored_sbom \<Rightarrow> bool) \<Rightarrow> ingest_db \<Rightarrow> int result \<times> ingest_db" where
  "tombstone_jobs now P d =
     (let hit = (\<lambda>j. list_ex (\<lambda>s. P s \<and> scanned_by s j) (ib_sboms d)) in
      (Inr (count_where hit (ib_jobs d)),
       d\<lparr>ib_jobs := update_where hit (\<lambda>j. j\<lparr>sj_state := Pruned, sj_finished := Some now\<rparr>) (ib_jobs d)\<rparr>))"

definition PruneJobsForSBOM_stmt :: "int \<Rightarrow> uuid \<Rightarrow> ingest_db \<Rightarrow> int result \<times> ingest_db" where
  "PruneJobsForSBOM_stmt now i = tombstone_jobs now (\<lambda>s. ps_id s = i)"

definition PruneJobsForArtifact_stmt :: "int \<Rightarrow> uuid \<Rightarrow> ingest_db \<Rightarrow> int result \<times> ingest_db" where
  "PruneJobsForArtifact_stmt now art = tombstone_jobs now (\<lambda>s. ps_artifact s = Some art)"

section \<open>Licenses\<close>

definition GetLicenseBySPDX :: "ingest_db \<Rightarrow> string \<Rightarrow> license_row result" where
  "GetLicenseBySPDX d spdx =
     (case find (\<lambda>l. li_spdx l = Some spdx) (ib_licenses d) of Some l \<Rightarrow> Inr l | None \<Rightarrow> Inl NoRows)"

definition GetLicenseByName :: "ingest_db \<Rightarrow> string \<Rightarrow> license_row result" where
  "GetLicenseByName d name =
     (case find (\<lambda>l. li_name l = name \<and> li_spdx l = None) (ib_licenses d) of Some l \<Rightarrow> Inr l | None \<Rightarrow> Inl NoRows)"

definition insert_license :: "license_row \<Rightarrow> ingest_db \<Rightarrow> uuid result \<times> ingest_db" where
  "insert_license l d =
     (if list_ex (\<lambda>r. li_id r = li_id l) (ib_licenses d) then (Inl UniqueViolation, d)
      else (Inr (li_id l), d\<lparr>ib_licenses := ib_licenses d @ [l]\<rparr>))"

definition UpsertLicenseBySPDX ::
    "uuid \<Rightarrow> string \<Rightarrow> string \<Rightarrow> string option \<Rightarrow> ingest_db \<Rightarrow> uuid result \<times> ingest_db" where
  "UpsertLicenseBySPDX i spdx name url d =
     (case find (\<lambda>l. li_spdx l = Some spdx) (ib_licenses d) of
        Some l \<Rightarrow> (Inr (li_id l), d\<lparr>ib_licenses := update_where (\<lambda>l. li_spdx l = Some spdx)
                                      (\<lambda>l. l\<lparr>li_name := name\<rparr>) (ib_licenses d)\<rparr>)
      | None \<Rightarrow> insert_license \<lparr>li_id = i, li_spdx = Some spdx, li_name = name, li_url = url\<rparr> d)"

definition UpsertLicenseByName ::
    "uuid \<Rightarrow> string \<Rightarrow> string option \<Rightarrow> ingest_db \<Rightarrow> uuid result \<times> ingest_db" where
  "UpsertLicenseByName i name url d =
     (case find (\<lambda>l. li_name l = name \<and> li_spdx l = None) (ib_licenses d) of
        Some l \<Rightarrow> (Inr (li_id l), d\<lparr>ib_licenses := update_where (\<lambda>l. li_name l = name \<and> li_spdx l = None)
                                      (\<lambda>l. l\<lparr>li_url := coalesce_opt url (li_url l)\<rparr>) (ib_licenses d)\<rparr>)
      | None \<Rightarrow> insert_license \<lparr>li_id = i, li_spdx = None, li_name = name, li_url = url\<rparr> d)"

section \<open>Bulk copies\<close>

text \<open>A COPY is one statement: it inserts every row or, when a key is violated, none.\<close>

definition has_component :: "ingest_db \<Rightarrow> uuid \<Rightarrow> bool" where
  "has_component d i \<longleftrightarrow> list_ex (\<lambda>c. cw_id c = i) (ib_components d)"

definition has_sbom :: "ingest_db \<Rightarrow> uuid \<Rightarrow> bool" where
  "has_sbom d i \<longleftrightarrow> list_ex (\<lambda>s. ps_id s = i) (ib_sboms d)"

definition has_license :: "ingest_db \<Rightarrow> uuid \<Rightarrow> bool" where
  "has_license d i \<longleftrightarrow> list_ex (\<lambda>l. li_id l = i) (ib_licenses d)"

definition copy_components :: "stored_component list \<Rightarrow> ingest_db \<Rightarrow> unit result \<times> ingest_db" where
  "copy_components rows d =
     (let ids = map cw_id (ib_components d @ rows) in
      if \<not> distinct ids then (Inl UniqueViolation, d)
      else if list_ex (\<lambda>r. \<not> has_sbom d (cw_sbom r) \<or>
                (case cw_parent r of Some p \<Rightarrow> \<not> List.member ids p | None \<Rightarrow> False)) rows
      then (Inl foreign_key, d)
      else (Inr (), d\<lparr>ib_components := ib_components d @ rows\<rparr>))"

definition copy_hashes :: "(uuid \<times> string \<times> string) list \<Rightarrow> ingest_db \<Rightarrow> unit result \<times> ingest_db" where
  "copy_hashes rows d =
     (if list_ex (\<lambda>h. \<not> has_component d (fst h)) rows then (Inl foreign_key, d)
      else (Inr (), d\<lparr>ib_hashes := ib_hashes d @ rows\<rparr>))"

definition copy_refs ::
    "(uuid \<times> string \<times> string \<times> string option) list \<Rightarrow> ingest_db \<Rightarrow> unit result \<times> ingest_db" where
  "copy_refs rows d =
     (if list_ex (\<lambda>r. \<not> has_component d (fst r)) rows then (Inl foreign_key, d)
      else (Inr (), d\<lparr>ib_refs := ib_refs d @ rows\<rparr>))"

definition copy_component_licenses :: "(uuid \<times> uuid) list \<Rightarrow> ingest_db \<Rightarrow> unit result \<times> ingest_db" where
  "copy_component_licenses rows d =
     (if \<not> distinct (ib_component_licenses d @ rows) then (Inl UniqueViolation, d)
      else if list_ex (\<lambda>(c, l). \<not> has_component d c \<or> \<not> has_license d l) rows then (Inl foreign_key, d)
      else (Inr (), d\<lparr>ib_component_licenses := ib_component_licenses d @ rows\<rparr>))"

definition InsertDependency :: "uuid \<Rightarrow> string \<Rightarrow> string \<Rightarrow> ingest_db \<Rightarrow> unit result \<times> ingest_db" where
  "InsertDependency sbom ref dep d =
     (if \<not> has_sbom d sbom then (Inl foreign_key, d)
      else (Inr (), d\<lparr>ib_dependencies := ib_dependencies d @ [(sbom, ref, dep)]\<rparr>))"

end
