(* ===== verification/SbomComponents.thy ===== *)
theory SbomComponents
  imports IngestTables
begin

text \<open>
  \<^verbatim>\<open>internal/service/sbom_components.go\<close> and \<open>persistGoSymbols\<close>: flattening the component tree of a
  document, the rows it becomes, and the statements that store them. The identifiers of components
  (\<open>uuid.New\<close>) come from a sequence \<open>fresh\<close>, one per component in the order of the walk. A function
  that can panic answers \<open>None\<close>.
\<close>

section \<open>Flattening\<close>

record flat_component =
  fc_id :: uuid
  fc_parent :: "uuid option"
  fc_comp :: component_data
  fc_version :: string
  fc_purl :: string

definition flat_of ::
    "string \<Rightarrow> string \<Rightarrow> uuid \<Rightarrow> uuid option \<Rightarrow> component_data \<Rightarrow> flat_component" where
  "flat_of mainModule subjectVersion i parent fcid =
     (let version = EffectiveVersion (c_version fcid) (c_name fcid) (c_purl fcid) mainModule subjectVersion
      in \<lparr>fc_id = i, fc_parent = parent, fc_comp = fcid, fc_version = version,
          fc_purl = EffectivePurl (c_purl fcid) version\<rparr>)"

text \<open>\<open>walk\<close> of \<open>flattenComponents\<close>: the flat components and how many identifiers are used.\<close>

fun walk_component and walk_components where
  "walk_component fresh main sv parent n (Component c cs) =
     (let i = fresh n; (below, m) = walk_components fresh main sv (Some i) (Suc n) cs
      in (flat_of main sv i parent c # below, m))"
| "walk_components fresh main sv parent n [] = ([], n)"
| "walk_components fresh main sv parent n (t # ts) =
     (let (here, m) = walk_component fresh main sv parent n t;
          (rest, k) = walk_components fresh main sv parent m ts
      in (here @ rest, k))"

definition flattenComponents ::
    "(nat \<Rightarrow> uuid) \<Rightarrow> component list \<Rightarrow> uuid option \<Rightarrow> string \<Rightarrow> string \<Rightarrow> flat_component list" where
  "flattenComponents fresh components parentID mainModule subjectVersion =
     fst (walk_components fresh mainModule subjectVersion parentID 0 components)"

section \<open>Provenance\<close>

record componentProvenance =
  pv_layer :: "string option"
  pv_file_path :: "string option"
  pv_found_by :: "string option"
  pv_source_package :: "string option"
  pv_source_version :: "string option"
  pv_source_purl :: "string option"

definition parseSourceRpm :: "string \<Rightarrow> string \<times> string" where
  "parseSourceRpm sourceRpm =
     (let s = trim_suffix sourceRpm ''.src.rpm'' in
      if s = sourceRpm then ([], [])
      else case last_index_byte (CHR ''-'') s of
             None \<Rightarrow> (s, [])
           | Some idx2 \<Rightarrow>
               let release = drop (idx2 + 1) s; rest = take idx2 s in
               case last_index_byte (CHR ''-'') rest of
                 None \<Rightarrow> (rest, release)
               | Some idx1 \<Rightarrow> (take idx1 rest, drop (idx1 + 1) rest @ ''-'' @ release))"

definition buildSourcePurl :: "string \<Rightarrow> string \<Rightarrow> string \<Rightarrow> string \<Rightarrow> string" where
  "buildSourcePurl pkgType pkg version flavor =
     (if pkgType = [] \<or> pkg = [] then []
      else let (namespace, _, ok) = cut (CHR ''-'') flavor;
               p = (if ok \<and> namespace \<noteq> [] then ''pkg:'' @ pkgType @ ''/'' @ namespace @ ''/'' @ pkg
                    else ''pkg:'' @ pkgType @ ''/'' @ pkg);
               p = (if version \<noteq> [] then p @ ''@'' @ version else p)
           in if flavor \<noteq> [] \<and> flavor \<noteq> flavorUnknown then p @ ''?distro='' @ flavor else p)"

definition extractComponentProvenance :: "property list \<Rightarrow> string \<Rightarrow> string \<Rightarrow> componentProvenance" where
  "extractComponentProvenance props purl flavor =
     (let get = (\<lambda>key. findPropValue [props] [key]);
          typ = purlType purl;
          (srcPkg, srcVersion) =
            (if typ = purlTypeDeb then (get ''syft:metadata:source'', get ''syft:metadata:sourceVersion'')
             else if typ = purlTypeAPK then (get ''syft:metadata:originPackage'', purlVersionValue purl)
             else if typ = purlTypeRPM \<and> get ''syft:metadata:sourceRpm'' \<noteq> []
             then parseSourceRpm (get ''syft:metadata:sourceRpm'')
             else ([], []));
          sourcePurl = (if srcPkg \<noteq> [] then buildSourcePurl typ srcPkg srcVersion flavor else [])
      in \<lparr>pv_layer = textOrNull (get ''syft:location:0:layerID''),
          pv_file_path = textOrNull (get ''syft:location:0:path''),
          pv_found_by = textOrNull (get ''syft:package:foundBy''),
          pv_source_package = textOrNull srcPkg, pv_source_version = textOrNull srcVersion,
          pv_source_purl = textOrNull sourcePurl\<rparr>)"

section \<open>Rows\<close>

definition component_row_of :: "uuid \<Rightarrow> string \<Rightarrow> flat_component \<Rightarrow> stored_component" where
  "component_row_of sbomID flavor fc =
     (let c = fc_comp fc;
          (major, minor, patch) = parseSemver (fc_version fc);
          prov = extractComponentProvenance (c_props c) (fc_purl fc) flavor
      in \<lparr>cw_id = fc_id fc, cw_sbom = sbomID, cw_parent = fc_parent fc, cw_bomref = textOrNull (c_bomref c),
          cw_type = c_type c, cw_name = c_name c, cw_group = textOrNull (c_group c),
          cw_version = textOrNull (fc_version fc), cw_major = intOrNull major, cw_minor = intOrNull minor,
          cw_patch = intOrNull patch, cw_purl = textOrNull (fc_purl fc), cw_cpe = textOrNull (c_cpe c),
          cw_description = textOrNull (c_description c), cw_scope = textOrNull (c_scope c),
          cw_publisher = textOrNull (c_publisher c), cw_copyright = textOrNull (c_copyright c),
          cw_layer = pv_layer prov, cw_found_by = pv_found_by prov,
          cw_source_package = pv_source_package prov, cw_source_version = pv_source_version prov,
          cw_source_purl = pv_source_purl prov, cw_file_path = pv_file_path prov, cw_symbol_set = None\<rparr>)"

definition hash_rows :: "flat_component list \<Rightarrow> (uuid \<times> string \<times> string) list" where
  "hash_rows flat = concat (map (\<lambda>fc. map (\<lambda>(alg, v). (fc_id fc, alg, v)) (c_hashes (fc_comp fc))) flat)"

definition ref_rows :: "flat_component list \<Rightarrow> (uuid \<times> string \<times> string \<times> string option) list" where
  "ref_rows flat =
     concat (map (\<lambda>fc. map (\<lambda>r. (fc_id fc, er_type r, er_url r, textOrNull (er_comment r)))
                         (c_refs (fc_comp fc))) flat)"

section \<open>Running statements in a transaction\<close>

text \<open>A step of a transaction: a panic (\<open>None\<close>), an error or a value, and the tables as the transaction
  sees them. The calls that can fail for a reason outside the tables are named, and \<open>flt\<close> says which of
  them do.\<close>

type_synonym 'a step = "ingest_db \<Rightarrow> 'a result option \<times> ingest_db"

datatype ingest_call =
    CallByDigest | CallBegin | CallSource | CallArtifact | CallUpsertArtifact | CallInsertSBOM | CallLink
  | CallComponents | CallHashes | CallRefs | CallGoSymbols string | CallLicense string
  | CallUpsertLicense string | CallLicenseLinks | CallDependency nat | CallCommit | CallPrune
  | CallDeleteSBOMs | CallDelete

type_synonym faults = "ingest_call \<Rightarrow> fault"

definition then_step :: "'a step \<Rightarrow> ('a \<Rightarrow> 'b step) \<Rightarrow> 'b step" where
  "then_step m f d =
     (case m d of
        (None, d') \<Rightarrow> (None, d')
      | (Some (Inl e), d') \<Rightarrow> (Some (Inl e), d')
      | (Some (Inr x), d') \<Rightarrow> f x d')"

definition done_step :: "'a \<Rightarrow> 'a step" where
  "done_step x d = (Some (Inr x), d)"

definition fail_step :: "go_error \<Rightarrow> 'a step" where
  "fail_step e d = (Some (Inl e), d)"

text \<open>One statement, its error wrapped with a message.\<close>

definition stmt_step :: "fault \<Rightarrow> string \<Rightarrow> (ingest_db \<Rightarrow> 'a result \<times> ingest_db) \<Rightarrow> 'a step" where
  "stmt_step flt msg m d =
     (case run_stmt flt d (m d) of
        (Inl e, d') \<Rightarrow> (Some (Inl (Wrapped msg e)), d')
      | (Inr x, d') \<Rightarrow> (Some (Inr x), d'))"

fun each_step :: "('a \<Rightarrow> unit step) \<Rightarrow> 'a list \<Rightarrow> unit step" where
  "each_step f [] = done_step ()"
| "each_step f (x # xs) = then_step (f x) (\<lambda>_. each_step f xs)"

section \<open>Licenses of a document\<close>

text \<open>The distinct licenses by key, each with the identifier, name and url of the first choice that named
  it, and the (component, key) pairs.\<close>

type_synonym license_refs = "(string \<times> string \<times> string \<times> string) list"
type_synonym license_pairs = "(uuid \<times> string) list"

definition add_license ::
    "uuid \<Rightarrow> string \<Rightarrow> license_def \<Rightarrow> license_refs \<times> license_pairs \<Rightarrow> license_refs \<times> license_pairs" where
  "add_license fcid refURL def acc =
     (case acc of (refs, pairs) \<Rightarrow>
        let key = licenseKey (fst def) (snd def) in
        (if map_of refs key = None then refs @ [(key, fst def, snd def, refURL)] else refs,
         if List.member pairs (fcid, key) then pairs else pairs @ [(fcid, key)]))"

definition choice_licenses :: "case_map \<Rightarrow> case_map \<Rightarrow> license_choice \<Rightarrow> (license_def list \<times> string) option" where
  "choice_licenses lc uc choice =
     (case lc_license choice of
        Some l \<Rightarrow> map_option (\<lambda>defs. (defs, if length defs = 1 then lr_url l else []))
                    (ExpandLicense lc uc (lr_id l) (lr_name l) (lc_expression choice))
      | None \<Rightarrow> if lc_expression choice = [] then Some ([], [])
                else map_option (\<lambda>defs. (defs, [])) (ExpandLicense lc uc [] [] (lc_expression choice)))"

fun collect_licenses ::
    "case_map \<Rightarrow> case_map \<Rightarrow> (uuid \<times> license_choice) list \<Rightarrow> license_refs \<times> license_pairs \<Rightarrow>
     (license_refs \<times> license_pairs) option" where
  "collect_licenses lc uc [] acc = Some acc"
| "collect_licenses lc uc ((fcid, choice) # rest) acc =
     (case choice_licenses lc uc choice of
        None \<Rightarrow> None
      | Some (defs, refURL) \<Rightarrow> collect_licenses lc uc rest (fold (add_license fcid refURL) defs acc))"

definition license_choices :: "flat_component list \<Rightarrow> (uuid \<times> license_choice) list" where
  "license_choices flat = concat (map (\<lambda>fc. map (Pair (fc_id fc)) (c_licenses (fc_comp fc))) flat)"

definition unchanged :: "string option \<Rightarrow> string option \<Rightarrow> bool" where
  "unchanged next stored \<longleftrightarrow> next = None \<or> stored \<noteq> None \<and> next = stored"

definition upsertLicense ::
    "faults \<Rightarrow> uuid \<Rightarrow> string \<Rightarrow> string \<Rightarrow> string \<Rightarrow> uuid step" where
  "upsertLicense flt i spdxID display url d =
     (let key = licenseKey spdxID display;
          found = (if spdxID \<noteq> [] then GetLicenseBySPDX d spdxID else GetLicenseByName d display);
          current = (\<lambda>row. if spdxID \<noteq> [] then li_name row = display else unchanged (textOrNull url) (li_url row));
          upsert = (if spdxID \<noteq> [] then UpsertLicenseBySPDX i spdxID display (textOrNull url)
                    else UpsertLicenseByName i display (textOrNull url))
      in case read_stmt (flt (CallLicense key)) found of
           Inr row \<Rightarrow> if current row then done_step (li_id row) d
                      else stmt_step (flt (CallUpsertLicense key)) ''upserting license: '' upsert d
         | Inl e \<Rightarrow> if \<not> errors_is e NoRows then fail_step (Wrapped ''looking up license: '' e) d
                    else stmt_step (flt (CallUpsertLicense key)) ''upserting license: '' upsert d)"

text \<open>The upserts run in the order of the keys.\<close>

fun upsert_licenses ::
    "faults \<Rightarrow> (string \<Rightarrow> uuid) \<Rightarrow> license_refs \<Rightarrow> (string \<times> uuid) list step" where
  "upsert_licenses flt new_id [] = done_step []"
| "upsert_licenses flt new_id ((key, spdx, name, url) # refs) =
     then_step (upsertLicense flt (new_id key) spdx name url)
       (\<lambda>i. then_step (upsert_licenses flt new_id refs) (\<lambda>ids. done_step ((key, i) # ids)))"

definition zero_uuid :: uuid where "zero_uuid = 0"

definition link_rows :: "(string \<times> uuid) list \<Rightarrow> license_pairs \<Rightarrow> (uuid \<times> uuid) list" where
  "link_rows ids pairs =
     map (\<lambda>(fcid, key). (fcid, case map_of ids key of Some i \<Rightarrow> i | None \<Rightarrow> zero_uuid)) pairs"

definition copyComponentLicenses ::
    "faults \<Rightarrow> (string \<Rightarrow> uuid) \<Rightarrow> case_map \<Rightarrow> case_map \<Rightarrow> flat_component list \<Rightarrow> unit step" where
  "copyComponentLicenses flt new_id lc uc flat d =
     (case collect_licenses lc uc (license_choices flat) ([], []) of
        None \<Rightarrow> (None, d)
      | Some (refs, pairs) \<Rightarrow>
          then_step (upsert_licenses flt new_id (sort_by (on_key str_cmp fst) refs))
            (\<lambda>ids. if pairs = [] then done_step ()
                   else stmt_step (flt CallLicenseLinks) ''copying component licenses: ''
                          (copy_component_licenses (link_rows ids pairs))) d)"

section \<open>Go symbols\<close>

text \<open>The staging rows: an import path without names is present with the empty name.\<close>

definition symbol_rows ::
    "flat_component list \<Rightarrow> symbol_table option list \<Rightarrow> (uuid \<times> string \<times> string) list" where
  "symbol_rows flat syms =
     concat (map (\<lambda>(fc, t).
       case t of
         None \<Rightarrow> []
       | Some tab \<Rightarrow> concat (map (\<lambda>(path, names).
           if names = [] then [(fc_id fc, path, [])] else map (\<lambda>n. (fc_id fc, path, n)) names) tab))
       (zip flat syms))"

fun dec_digits :: "nat \<Rightarrow> nat \<Rightarrow> string" where
  "dec_digits 0 n = []"
| "dec_digits (Suc k) n =
     (if n < 10 then [char_of (48 + n)] else dec_digits k (n div 10) @ [char_of (48 + n mod 10)])"

definition dec_text :: "nat \<Rightarrow> string" where
  "dec_text n = dec_digits (Suc n) n"

text \<open>\<open>sha256(convert_to(array_to_string(ids, ','), 'UTF8'))\<close>\<close>

definition goSymbolSetDigest :: "nat list \<Rightarrow> string" where
  "goSymbolSetDigest ids = Sum256 (join '','' (map dec_text ids))"

text \<open>\<open>INSERT \<dots> SELECT DISTINCT \<dots> ON CONFLICT DO NOTHING\<close> into a table with an identity column.\<close>

definition insert_new :: "('k \<Rightarrow> nat \<Rightarrow> 'r) \<Rightarrow> ('r \<Rightarrow> 'k) \<Rightarrow> 'k list \<Rightarrow> 'r list \<Rightarrow> 'r list" where
  "insert_new row key ks rows =
     fold (\<lambda>k rs. if list_ex (\<lambda>r. key r = k) rs then rs else rs @ [row k (Suc (length rs))]) ks rows"

definition package_id :: "ingest_db \<Rightarrow> string \<Rightarrow> nat option" where
  "package_id d path = map_option fst (find (\<lambda>p. snd p = path) (ib_packages d))"

definition symbol_id :: "ingest_db \<Rightarrow> nat \<Rightarrow> string \<Rightarrow> nat option" where
  "symbol_id d pkg name = map_option fst (find (\<lambda>s. snd s = (pkg, name)) (ib_symbols d))"

definition insert_packages :: "(uuid \<times> string \<times> string) list \<Rightarrow> ingest_db \<Rightarrow> ingest_db" where
  "insert_packages rows d =
     d\<lparr>ib_packages := insert_new (\<lambda>path i. (i, path)) snd (map (\<lambda>(c, path, n). path) rows) (ib_packages d)\<rparr>"

definition insert_symbols :: "(uuid \<times> string \<times> string) list \<Rightarrow> ingest_db \<Rightarrow> ingest_db" where
  "insert_symbols rows d =
     d\<lparr>ib_symbols := insert_new (\<lambda>k i. (i, k)) snd
        (List.map_filter (\<lambda>(c, path, n). map_option (\<lambda>p. (p, n)) (package_id d path)) rows) (ib_symbols d)\<rparr>"

text \<open>The sorted distinct symbol ids of each component of the staging table.\<close>

definition row_symbol :: "ingest_db \<Rightarrow> uuid \<times> string \<times> string \<Rightarrow> nat option" where
  "row_symbol d r = (case r of (c, path, n) \<Rightarrow>
     (case package_id d path of None \<Rightarrow> None | Some p \<Rightarrow> symbol_id d p n))"

definition set_of :: "ingest_db \<Rightarrow> (uuid \<times> string \<times> string) list \<Rightarrow> uuid \<Rightarrow> nat list" where
  "set_of d rows c = sort (remdups (List.map_filter (row_symbol d) (filter (\<lambda>r. fst r = c) rows)))"

definition staged_sets :: "ingest_db \<Rightarrow> (uuid \<times> string \<times> string) list \<Rightarrow> (uuid \<times> nat list) list" where
  "staged_sets d rows = map (\<lambda>c. (c, set_of d rows c)) (remdups (map fst rows))"

definition insert_sets :: "(uuid \<times> nat list) list \<Rightarrow> ingest_db \<Rightarrow> ingest_db" where
  "insert_sets sets d =
     d\<lparr>ib_symbol_sets :=
        fold (\<lambda>(c, ids) rs. if list_ex (\<lambda>r. fst (snd r) = goSymbolSetDigest ids) rs then rs
                            else rs @ [(Suc (length rs), goSymbolSetDigest ids, ids)]) sets (ib_symbol_sets d)\<rparr>"

definition set_with_digest :: "ingest_db \<Rightarrow> string \<Rightarrow> nat option" where
  "set_with_digest d g = map_option fst (find (\<lambda>r. fst (snd r) = g) (ib_symbol_sets d))"

definition link_sets :: "(uuid \<times> nat list) list \<Rightarrow> ingest_db \<Rightarrow> ingest_db" where
  "link_sets sets d =
     d\<lparr>ib_components := map (\<lambda>r. case map_of sets (cw_id r) of
          None \<Rightarrow> r
        | Some ids \<Rightarrow> (case set_with_digest d (goSymbolSetDigest ids) of
              None \<Rightarrow> r | Some i \<Rightarrow> r\<lparr>cw_symbol_set := Some i\<rparr>)) (ib_components d)\<rparr>"

text \<open>The statements in order; each is answered with its own message when it fails. The two staging
  tables are dropped when the transaction ends and are not part of the state.\<close>

definition quiet :: "(ingest_db \<Rightarrow> ingest_db) \<Rightarrow> ingest_db \<Rightarrow> unit result \<times> ingest_db" where
  "quiet f d = (Inr (), f d)"

definition persistGoSymbols ::
    "faults \<Rightarrow> flat_component list \<Rightarrow> symbol_table option list \<Rightarrow> unit step" where
  "persistGoSymbols flt flat syms =
     (let rows = symbol_rows flat syms;
          go = (\<lambda>what msg f. stmt_step (flt (CallGoSymbols what)) msg (quiet f))
      in if rows = [] then done_step ()
         else then_step (go ''temp'' ''creating go symbol staging table: '' (\<lambda>d. d)) (\<lambda>_.
              then_step (go ''copy'' ''staging go symbols: '' (\<lambda>d. d)) (\<lambda>_.
              then_step (go ''packages'' ''persisting go packages: '' (insert_packages rows)) (\<lambda>_.
              then_step (go ''symbols'' ''persisting go symbols: '' (insert_symbols rows)) (\<lambda>_.
              then_step (go ''staging'' ''persisting go symbol set staging: '' (\<lambda>d. d)) (\<lambda>_.
              then_step (go ''sets'' ''persisting go symbol sets: '' (\<lambda>d. insert_sets (staged_sets d rows) d)) (\<lambda>_.
              go ''links'' ''persisting component go symbol links: '' (\<lambda>d. link_sets (staged_sets d rows) d))))))))"

section \<open>The batch\<close>

definition insertComponentsBatch ::
    "faults \<Rightarrow> (nat \<Rightarrow> uuid) \<Rightarrow> (string \<Rightarrow> uuid) \<Rightarrow> case_map \<Rightarrow> case_map \<Rightarrow> uuid \<Rightarrow> component list \<Rightarrow> string \<Rightarrow>
     string \<Rightarrow> string \<Rightarrow> symbol_table option list \<Rightarrow> unit step" where
  "insertComponentsBatch flt fresh new_id lc uc sbomID components mainModule subjectVersion flavor goSyms =
     (let flat = flattenComponents fresh components None mainModule subjectVersion in
      if flat = [] then done_step ()
      else then_step (stmt_step (flt CallComponents) ''copying components: ''
                        (copy_components (map (component_row_of sbomID flavor) flat))) (\<lambda>_.
           then_step (if hash_rows flat = [] then done_step ()
                      else stmt_step (flt CallHashes) ''copying component hashes: '' (copy_hashes (hash_rows flat))) (\<lambda>_.
           then_step (if ref_rows flat = [] then done_step ()
                      else stmt_step (flt CallRefs) ''copying external references: '' (copy_refs (ref_rows flat))) (\<lambda>_.
           then_step (persistGoSymbols flt flat goSyms) (\<lambda>_.
           copyComponentLicenses flt new_id lc uc flat)))))"

definition dependency_rows :: "(string \<times> string list) list \<Rightarrow> (string \<times> string) list" where
  "dependency_rows deps = concat (map (\<lambda>(ref, targets). map (Pair ref) targets) deps)"

definition insertDependencies :: "faults \<Rightarrow> uuid \<Rightarrow> (string \<times> string list) list \<Rightarrow> unit step" where
  "insertDependencies flt sbomID deps =
     each_step (\<lambda>(n, ref, target). stmt_step (flt (CallDependency n)) ''inserting dependency: ''
                  (InsertDependency sbomID ref target)) (enumerate 0 (dependency_rows deps))"

end
