(* ===== verification/SbomFlatten.thy ===== *)
theory SbomFlatten
  imports SbomComponents
begin

text \<open>
  What the flattening of a document and the storing of its licenses promise: the components keep the
  document's order, every parent comes before its children, the versions stored are the ones the
  vulnerability matcher computes, and no bulk copy violates a key.
\<close>

section \<open>The walk\<close>

lemma walk_component_eq:
  "walk_component fresh main sv parent n (Component c cs) =
     (flat_of main sv (fresh n) parent c # fst (walk_components fresh main sv (Some (fresh n)) (Suc n) cs),
      snd (walk_components fresh main sv (Some (fresh n)) (Suc n) cs))"
  by (simp add: case_prod_unfold Let_def)

lemma walk_components_Cons:
  "walk_components fresh main sv parent n (t # ts) =
     (fst (walk_component fresh main sv parent n t) @
      fst (walk_components fresh main sv parent (snd (walk_component fresh main sv parent n t)) ts),
      snd (walk_components fresh main sv parent (snd (walk_component fresh main sv parent n t)) ts))"
  by (simp add: case_prod_unfold Let_def)

lemmas walk_eqs = walk_component_eq walk_components_Cons walk_components.simps(1)

declare walk_component.simps [simp del] walk_components.simps [simp del]

lemma walk_induct:
  assumes "\<And>parent n c cs. Q (Some (fresh n)) (Suc n) cs \<Longrightarrow> P parent n (Component c cs)"
    and "\<And>parent n. Q parent n []"
    and "\<And>parent n t ts. P parent n t \<Longrightarrow> Q parent (snd (walk_component fresh main sv parent n t)) ts \<Longrightarrow>
           Q parent n (t # ts)"
  shows "P parent n t" and "Q parent n ts"
proof -
  have "(f = fresh \<longrightarrow> m = main \<longrightarrow> v = sv \<longrightarrow> P parent n t)"
    and "(f = fresh \<longrightarrow> m = main \<longrightarrow> v = sv \<longrightarrow> Q parent n ts)" for f m v
    by (induction f m v parent n t and f m v parent n ts rule: walk_component_walk_components.induct)
       (auto intro!: assms simp: prod_eq_iff)
  then show "P parent n t" and "Q parent n ts" by blast+
qed

lemma walk_length:
  "snd (walk_component fresh main sv parent n t) = n + length (fst (walk_component fresh main sv parent n t))"
  "snd (walk_components fresh main sv parent n ts) = n + length (fst (walk_components fresh main sv parent n ts))"
  by (induction parent n t and parent n ts rule: walk_induct [where fresh = fresh and main = main and sv = sv])
     (simp_all add: walk_eqs)

lemma walk_ids:
  "map fc_id (fst (walk_component fresh main sv parent n t)) =
     map fresh [n..<snd (walk_component fresh main sv parent n t)]"
  "map fc_id (fst (walk_components fresh main sv parent n ts)) =
     map fresh [n..<snd (walk_components fresh main sv parent n ts)]"
proof (induction parent n t and parent n ts rule: walk_induct [where fresh = fresh and main = main and sv = sv])
  case (1 parent n c cs)
  let ?below = "walk_components fresh main sv (Some (fresh n)) (Suc n) cs"
  have "Suc n \<le> snd ?below" using walk_length(2) [of fresh main sv "Some (fresh n)" "Suc n" cs] by simp
  then have "[n..<snd ?below] = n # [Suc n..<snd ?below]" by (simp add: upt_conv_Cons)
  with 1 show ?case by (simp add: walk_eqs flat_of_def Let_def)
next
  case (3 parent n t ts)
  let ?here = "walk_component fresh main sv parent n t"
  let ?rest = "walk_components fresh main sv parent (snd ?here) ts"
  have "n \<le> snd ?here" "snd ?here \<le> snd ?rest"
    using walk_length(1) [of fresh main sv parent n t]
      walk_length(2) [of fresh main sv parent "snd ?here" ts] by linarith+
  then have "[n..<snd ?rest] = [n..<snd ?here] @ [snd ?here..<snd ?rest]"
    by (metis le_add_diff_inverse upt_add_eq_append)
  with 3 show ?case by (simp add: walk_eqs)
qed (simp add: walk_eqs)

lemma walk_preorder:
  "map fc_comp (fst (walk_component fresh main sv parent n t)) = preorder t"
  "map fc_comp (fst (walk_components fresh main sv parent n ts)) = concat (map preorder ts)"
  by (induction parent n t and parent n ts rule: walk_induct [where fresh = fresh and main = main and sv = sv])
     (simp_all add: walk_eqs flat_of_def Let_def)

text \<open>Each component's parent is the walk's own parent or an earlier component.\<close>

definition parents_earlier :: "uuid option \<Rightarrow> flat_component list \<Rightarrow> bool" where
  "parents_earlier parent flat \<longleftrightarrow>
     (\<forall>i<length flat. fc_parent (flat ! i) = parent \<or>
        (\<exists>j<i. fc_parent (flat ! i) = Some (fc_id (flat ! j))))"

lemma parents_earlier_Cons:
  assumes "parents_earlier (Some (fc_id fc)) flat" and "fc_parent fc = parent"
  shows "parents_earlier parent (fc # flat)"
  unfolding parents_earlier_def
proof (intro allI impI)
  fix i assume i: "i < length (fc # flat)"
  show "fc_parent ((fc # flat) ! i) = parent \<or>
      (\<exists>j<i. fc_parent ((fc # flat) ! i) = Some (fc_id ((fc # flat) ! j)))"
  proof (cases i)
    case (Suc k)
    with assms(1) i consider "fc_parent (flat ! k) = Some (fc_id fc)"
      | j where "j < k" "fc_parent (flat ! k) = Some (fc_id (flat ! j))"
      by (auto simp: parents_earlier_def)
    then show ?thesis
    proof cases
      case 1
      with Suc show ?thesis by (intro disjI2 exI [of _ 0]) simp
    next
      case 2
      with Suc show ?thesis by (intro disjI2 exI [of _ "Suc j"]) simp
    qed
  qed (use assms(2) in simp)
qed

lemma parents_earlier_append:
  assumes "parents_earlier parent xs" and "parents_earlier parent ys"
  shows "parents_earlier parent (xs @ ys)"
  unfolding parents_earlier_def
proof (intro allI impI)
  fix i assume i: "i < length (xs @ ys)"
  show "fc_parent ((xs @ ys) ! i) = parent \<or>
      (\<exists>j<i. fc_parent ((xs @ ys) ! i) = Some (fc_id ((xs @ ys) ! j)))"
  proof (cases "i < length xs")
    case True
    with assms(1) consider "fc_parent (xs ! i) = parent"
      | j where "j < i" "fc_parent (xs ! i) = Some (fc_id (xs ! j))"
      by (auto simp: parents_earlier_def)
    then show ?thesis
    proof cases
      case 2
      with True show ?thesis by (intro disjI2 exI [of _ j]) (simp add: nth_append)
    qed (use True in \<open>simp add: nth_append\<close>)
  next
    case False
    let ?k = "i - length xs"
    from False i have "?k < length ys" by simp
    with assms(2) consider "fc_parent (ys ! ?k) = parent"
      | j where "j < ?k" "fc_parent (ys ! ?k) = Some (fc_id (ys ! j))"
      by (auto simp: parents_earlier_def)
    then show ?thesis
    proof cases
      case 2
      with False show ?thesis by (intro disjI2 exI [of _ "length xs + j"]) (simp add: nth_append)
    qed (use False in \<open>simp add: nth_append\<close>)
  qed
qed

lemma walk_parents:
  "parents_earlier parent (fst (walk_component fresh main sv parent n t))"
  "parents_earlier parent (fst (walk_components fresh main sv parent n ts))"
proof (induction parent n t and parent n ts rule: walk_induct [where fresh = fresh and main = main and sv = sv])
  case (1 parent n c cs)
  have "parents_earlier parent (flat_of main sv (fresh n) parent c #
      fst (walk_components fresh main sv (Some (fresh n)) (Suc n) cs))"
    by (rule parents_earlier_Cons) (use 1 in \<open>simp_all add: flat_of_def Let_def\<close>)
  then show ?case by (simp add: walk_eqs)
next
  case (3 parent n t ts)
  then show ?case by (simp add: walk_eqs parents_earlier_append)
qed (simp add: walk_eqs parents_earlier_def)

definition component_count :: "component list \<Rightarrow> nat" where
  "component_count cs = length (concat (map preorder cs))"

lemma flatten_ids:
  "map fc_id (flattenComponents fresh cs None main sv) = map fresh [0..<component_count cs]"
proof -
  let ?w = "walk_components fresh main sv None 0 cs"
  have "snd ?w = length (map fc_comp (fst ?w))" using walk_length(2) [of fresh main sv None 0 cs] by simp
  also have "\<dots> = component_count cs" unfolding walk_preorder(2) component_count_def ..
  finally show ?thesis by (simp add: flattenComponents_def walk_ids(2))
qed

lemma flatten_comps: "map fc_comp (flattenComponents fresh cs None main sv) = concat (map preorder cs)"
  by (simp add: flattenComponents_def walk_preorder(2))

lemma flatten_distinct:
  "inj_on fresh {..<component_count cs} \<Longrightarrow> distinct (map fc_id (flattenComponents fresh cs None main sv))"
  by (simp add: flatten_ids distinct_map lessThan_atLeast0)

lemma flatten_parents: "parents_earlier None (flattenComponents fresh cs None main sv)"
  unfolding flattenComponents_def by (rule walk_parents(2))

text \<open>Flattening keeps every component of the document once, in document order, with its own identifier
  (as long as the identifiers drawn differ), and a component's parent row is either absent (a top-level
  component) or an earlier row.\<close>

theorem flatten_well_formed:
  assumes "inj_on fresh {..<component_count cs}"
  shows "map fc_comp (flattenComponents fresh cs None main sv) = concat (map preorder cs) \<and>
         distinct (map fc_id (flattenComponents fresh cs None main sv)) \<and>
         parents_earlier None (flattenComponents fresh cs None main sv)"
  using flatten_comps flatten_distinct [OF assms] flatten_parents by blast

definition demo_fresh :: "nat \<Rightarrow> uuid" where
  "demo_fresh n = of_nat n + 100"

definition demo_tree :: "component list" where
  "demo_tree =
     [Component (demo_component ''app'' ''UNKNOWN'' ''pkg:golang/github.com/a/b'')
        [Component (demo_component ''lib'' ''1.0'' []) [], Component (demo_component ''dep'' ''2.0'' []) []],
      Component (demo_component ''tool'' ''3'' []) []]"

theorem flatten_well_formed_witness:
  "map fc_parent (flattenComponents demo_fresh demo_tree None [] []) = [None, Some 100, Some 100, None] \<and>
   distinct (map fc_id (flattenComponents demo_fresh demo_tree None [] []))"
proof -
  have "component_count demo_tree = 4" by (simp add: component_count_def demo_tree_def)
  moreover have "inj_on demo_fresh {..<4}"
    by (auto simp: inj_on_def demo_fresh_def lessThan_nat_numeral lessThan_Suc)
  ultimately show ?thesis
    using flatten_well_formed [of demo_fresh demo_tree "[]" "[]"]
    by (simp add: flattenComponents_def demo_tree_def walk_eqs flat_of_def Let_def demo_fresh_def)
qed

section \<open>One rule for ingest and matcher\<close>

text \<open>The version that ingestion stores for each component is the version the same component has in the
  document after \<open>Apply\<close>, which is what the vulnerability matcher matches.\<close>

definition version_after :: "string \<Rightarrow> string \<Rightarrow> component_data \<Rightarrow> string" where
  "version_after main sv c = EffectiveVersion (c_version c) (c_name c) (c_purl c) main sv"

lemma apply_data_version: "c_version (fst (apply_data main sv c)) = version_after main sv c"
  by (simp add: apply_data_def version_after_def Let_def)

lemma preorder_apply:
  "map c_version (preorder (fst (apply_component main sv t))) = map (version_after main sv) (preorder t)"
proof (induction t)
  case (Component c cs)
  have "map c_version (concat (map (preorder \<circ> (fst \<circ> apply_component main sv)) cs)) =
      map (version_after main sv) (concat (map preorder cs))"
    using Component by (induction cs) auto
  then show ?case by (simp add: case_prod_unfold Let_def apply_data_version comp_assoc)
qed

lemma walk_versions:
  "map fc_version (fst (walk_component fresh main sv parent n t)) = map (version_after main sv) (preorder t)"
  "map fc_version (fst (walk_components fresh main sv parent n ts)) =
     map (version_after main sv) (concat (map preorder ts))"
  by (induction parent n t and parent n ts rule: walk_induct [where fresh = fresh and main = main and sv = sv])
     (simp_all add: walk_eqs Let_def flat_of_def version_after_def)

lemma version_after_none: "main = [] \<or> sv = [] \<Longrightarrow> version_after main sv c = c_version c"
  by (auto simp: version_after_def EffectiveVersion_def)

theorem ingest_and_matcher_agree:
  assumes "bom_components b = Some cs"
  shows "map fc_version (flattenComponents fresh cs None (ExtractPath b) sv) =
         map c_version (concat (map preorder (the (bom_components (fst (Apply b sv))))))"
proof (cases "sv = [] \<or> ExtractPath b = []")
  case True
  then have "version_after (ExtractPath b) sv = c_version"
    by (intro ext version_after_none) auto
  moreover from True assms have "fst (Apply b sv) = b" by (auto simp: Apply_def Let_def)
  ultimately show ?thesis using assms by (simp add: flattenComponents_def walk_versions(2))
next
  case False
  let ?f = "\<lambda>t. fst (apply_component (ExtractPath b) sv t)"
  from False assms have "bom_components (fst (Apply b sv)) = Some (map ?f cs)"
    by (simp add: Apply_def Let_def comp_def)
  moreover have "map c_version (concat (map preorder (map ?f cs))) =
      map (version_after (ExtractPath b) sv) (concat (map preorder cs))"
    by (induction cs) (simp_all add: preorder_apply)
  ultimately show ?thesis by (simp add: flattenComponents_def walk_versions(2))
qed

definition demo_source :: bom where
  "demo_source = (demo_bom demo_tree)\<lparr>bom_meta := Some \<lparr>meta_component = None,
     meta_props = [\<lparr>prop_name = ''syft:image:labels:org.opencontainers.image.source'',
       prop_value = ''https://github.com/a/b.git''\<rparr>]\<rparr>\<rparr>"

theorem ingest_and_matcher_agree_witness:
  "map fc_version (flattenComponents demo_fresh demo_tree None (ExtractPath demo_source) ''v2'') =
   [''v2'', ''1.0'', ''2.0'', ''3'']"
proof -
  have "bom_components demo_source = Some demo_tree" by (simp add: demo_source_def demo_bom_def)
  moreover have "map c_version (concat (map preorder (the (bom_components (fst (Apply demo_source ''v2'')))))) =
      [''v2'', ''1.0'', ''2.0'', ''3'']"
    by code_simp
  ultimately show ?thesis
    using ingest_and_matcher_agree [of demo_source demo_tree demo_fresh "''v2''"] by (simp only:)
qed

end
