(* ===== verification/SbomStore.thy ===== *)
theory SbomStore
  imports SbomFlatten
begin

text \<open>
  Storing a document does not run into the tables' constraints: with the identifiers it draws unused,
  every statement of \<open>insertComponentsBatch\<close> succeeds, because parents are in the batch, a component names
  a license once, and distinct license keys are distinct rows. Stated with triples over the steps of a
  transaction: \<open>runs P m Q\<close> says that from tables with \<open>P\<close> the step \<open>m\<close> returns a value, with \<open>Q\<close>.
\<close>

section \<open>Triples\<close>

named_theorems runs_rules \<open>rules for \<open>runs\<close>\<close>

definition runs :: "(ingest_db \<Rightarrow> bool) \<Rightarrow> 'a step \<Rightarrow> ('a \<Rightarrow> ingest_db \<Rightarrow> bool) \<Rightarrow> bool" where
  "runs P m Q \<longleftrightarrow> (\<forall>d. P d \<longrightarrow> (\<exists>x d'. m d = (Some (Inr x), d') \<and> Q x d'))"

lemma runsE: "runs P m Q \<Longrightarrow> P d \<Longrightarrow> \<exists>x d'. m d = (Some (Inr x), d') \<and> Q x d'"
  by (simp add: runs_def)

lemma runs_weaken: "runs P m Q \<Longrightarrow> (\<And>d. P' d \<Longrightarrow> P d) \<Longrightarrow> (\<And>x d. Q x d \<Longrightarrow> Q' x d) \<Longrightarrow> runs P' m Q'"
  unfolding runs_def by metis

lemma runs_then: "runs P m Q \<Longrightarrow> (\<And>x. runs (Q x) (f x) R) \<Longrightarrow> runs P (then_step m f) R"
  unfolding runs_def then_step_def by fastforce

lemma runs_done: "(\<And>d. P d \<Longrightarrow> Q x d) \<Longrightarrow> runs P (done_step x) Q"
  by (simp add: runs_def done_step_def)

lemma runs_stmt:
  assumes "flt = None" and "\<And>d. P d \<Longrightarrow> \<exists>x d'. m d = (Inr x, d') \<and> Q x d'"
  shows "runs P (stmt_step flt msg m) Q"
  unfolding runs_def stmt_step_def using assms by fastforce

lemma runs_each:
  assumes "\<And>x. x \<in> set xs \<Longrightarrow> runs I (f x) (\<lambda>_. I)"
  shows "runs I (each_step f xs) (\<lambda>_. I)"
  using assms
proof (induction xs)
  case (Cons x xs)
  then have "runs I (each_step f xs) (\<lambda>_. I)" and "runs I (f x) (\<lambda>_. I)" by simp_all
  then show ?case by (auto intro: runs_then)
qed (simp add: runs_done)

definition no_faults :: faults where
  "no_faults c = None"

section \<open>Licenses\<close>

definition lkey :: "license_row \<Rightarrow> string" where
  "lkey l = (case li_spdx l of Some s \<Rightarrow> licenseKey s [] | None \<Rightarrow> licenseKey [] (li_name l))"

definition lic_ok :: "license_row list \<Rightarrow> bool" where
  "lic_ok ls \<longleftrightarrow> distinct (map li_id ls) \<and> list_all (\<lambda>l. li_spdx l \<noteq> Some []) ls"

definition lic_is :: "license_row list \<Rightarrow> uuid \<Rightarrow> string \<Rightarrow> bool" where
  "lic_is ls i key \<longleftrightarrow> (\<exists>l\<in>set ls. li_id l = i \<and> lkey l = key)"

lemma lic_is_unique: "lic_ok ls \<Longrightarrow> lic_is ls i k \<Longrightarrow> lic_is ls i k' \<Longrightarrow> k = k'"
  unfolding lic_ok_def lic_is_def by (metis distinct_map inj_on_def)

lemma licenseKey_spdx: "s \<noteq> [] \<Longrightarrow> licenseKey s n = licenseKey s m"
  by (simp add: licenseKey_def)

text \<open>An update that keeps the id and the key of every row keeps the table and what it says.\<close>

lemma lic_update:
  assumes "\<And>l. P l \<Longrightarrow> li_id (f l) = li_id l \<and> li_spdx (f l) = li_spdx l \<and> lkey (f l) = lkey l" and "lic_ok ls"
  shows "lic_ok (update_where P f ls)" and "lic_is (update_where P f ls) i k = lic_is ls i k"
    and "map li_id (update_where P f ls) = map li_id ls"
proof -
  show ids: "map li_id (update_where P f ls) = map li_id ls"
    using assms(1) by (auto simp: update_where_def)
  show "lic_ok (update_where P f ls)"
  proof -
    have "distinct (map li_id (update_where P f ls))" using assms(2) unfolding ids lic_ok_def by blast
    moreover have "list_all (\<lambda>l. li_spdx l \<noteq> Some []) (update_where P f ls)"
      using assms by (auto simp: lic_ok_def list_all_iff update_where_def)
    ultimately show ?thesis by (simp add: lic_ok_def)
  qed
  show "lic_is (update_where P f ls) i k = lic_is ls i k"
    using assms(1) by (auto simp: lic_is_def update_where_def)
qed

definition others_same :: "ingest_db \<Rightarrow> ingest_db \<Rightarrow> bool" where
  "others_same d d' \<longleftrightarrow> d' = d\<lparr>ib_licenses := ib_licenses d'\<rparr>"

text \<open>What an upsert of one license promises.\<close>

definition upserted :: "ingest_db \<Rightarrow> uuid \<Rightarrow> string \<Rightarrow> uuid \<Rightarrow> ingest_db \<Rightarrow> bool" where
  "upserted d new key i d' \<longleftrightarrow>
     lic_ok (ib_licenses d') \<and> lic_is (ib_licenses d') i key \<and>
     (\<forall>j k. lic_is (ib_licenses d) j k \<longrightarrow> lic_is (ib_licenses d') j k) \<and>
     set (map li_id (ib_licenses d')) \<subseteq> insert new (set (map li_id (ib_licenses d))) \<and> others_same d d'"

lemma upserted_found:
  assumes "lic_ok (ib_licenses d)" and "l \<in> set (ib_licenses d)" and "lkey l = key"
  shows "upserted d new key (li_id l) d"
  using assms by (auto simp: upserted_def lic_is_def others_same_def)

lemma upserted_update:
  assumes "lic_ok (ib_licenses d)" and "l \<in> set (ib_licenses d)" and "lkey l = key"
    and "\<And>l. P l \<Longrightarrow> li_id (f l) = li_id l \<and> li_spdx (f l) = li_spdx l \<and> lkey (f l) = lkey l"
  shows "upserted d new key (li_id l) (d\<lparr>ib_licenses := update_where P f (ib_licenses d)\<rparr>)"
proof -
  have "lic_is (ib_licenses d) (li_id l) key" using assms(2,3) by (auto simp: lic_is_def)
  then show ?thesis
    using lic_update [of P f, OF assms(4,1)] by (auto simp: upserted_def others_same_def simp del: set_map)
qed

lemma upserted_insert:
  assumes "lic_ok (ib_licenses d)" and "new \<notin> set (map li_id (ib_licenses d))"
    and "li_id l = new" and "lkey l = key" and "li_spdx l \<noteq> Some []"
  shows "\<exists>i d'. insert_license l d = (Inr i, d') \<and> upserted d new key i d'"
proof -
  have "\<not> list_ex (\<lambda>r. li_id r = li_id l) (ib_licenses d)" using assms(2,3) by (auto simp: list_ex_iff) (metis image_eqI)
  moreover have "upserted d new key new (d\<lparr>ib_licenses := ib_licenses d @ [l]\<rparr>)"
    using assms by (auto simp: upserted_def lic_ok_def lic_is_def others_same_def)
  ultimately show ?thesis using assms(3) by (simp add: insert_license_def)
qed

lemma upsertLicense_runs:
  assumes "lic_ok (ib_licenses d)" and "new \<notin> set (map li_id (ib_licenses d))"
  shows "\<exists>i d'. upsertLicense no_faults new spdx name url d = (Some (Inr i), d') \<and>
           upserted d new (licenseKey spdx name) i d'"
proof (cases "spdx = []")
  case True
  let ?P = "\<lambda>l. li_name l = name \<and> li_spdx l = None"
  let ?up = "UpsertLicenseByName new name (textOrNull url)"
  have upsert: "\<exists>i d'. ?up d = (Inr i, d') \<and> upserted d new (licenseKey spdx name) i d'"
  proof (cases "find ?P (ib_licenses d)")
    case None
    have "\<exists>i d'. insert_license \<lparr>li_id = new, li_spdx = None, li_name = name, li_url = textOrNull url\<rparr> d =
        (Inr i, d') \<and> upserted d new (licenseKey spdx name) i d'"
      by (rule upserted_insert [OF assms]) (simp_all add: lkey_def True)
    with None show ?thesis by (simp add: UpsertLicenseByName_def)
  next
    case (Some l)
    from find_SomeD [OF this] have l: "l \<in> set (ib_licenses d)" "lkey l = licenseKey spdx name"
      by (auto simp: lkey_def True)
    have "upserted d new (licenseKey spdx name) (li_id l)
        (d\<lparr>ib_licenses := update_where ?P (\<lambda>l. l\<lparr>li_url := coalesce_opt (textOrNull url) (li_url l)\<rparr>) (ib_licenses d)\<rparr>)"
      by (rule upserted_update [OF assms(1) l]) (simp add: lkey_def)
    with Some show ?thesis by (simp add: UpsertLicenseByName_def)
  qed
  show ?thesis
  proof (cases "find ?P (ib_licenses d)")
    case None
    with upsert True show ?thesis
      by (auto simp: upsertLicense_def Let_def no_faults_def GetLicenseByName_def stmt_step_def)
  next
    case (Some l)
    from find_SomeD [OF this] have l: "l \<in> set (ib_licenses d)" "lkey l = licenseKey spdx name"
      by (auto simp: lkey_def True)
    from upserted_found [OF assms(1) l] Some upsert True show ?thesis
      by (auto simp: upsertLicense_def Let_def no_faults_def GetLicenseByName_def stmt_step_def done_step_def)
  qed
next
  case False
  let ?P = "\<lambda>l. li_spdx l = Some spdx"
  let ?up = "UpsertLicenseBySPDX new spdx name (textOrNull url)"
  have key: "licenseKey spdx [] = licenseKey spdx name" by (rule licenseKey_spdx [OF False])
  have upsert: "\<exists>i d'. ?up d = (Inr i, d') \<and> upserted d new (licenseKey spdx name) i d'"
  proof (cases "find ?P (ib_licenses d)")
    case None
    have "\<exists>i d'. insert_license \<lparr>li_id = new, li_spdx = Some spdx, li_name = name, li_url = textOrNull url\<rparr> d =
        (Inr i, d') \<and> upserted d new (licenseKey spdx name) i d'"
      by (rule upserted_insert [OF assms]) (simp_all add: lkey_def key False)
    with None show ?thesis by (simp add: UpsertLicenseBySPDX_def)
  next
    case (Some l)
    from find_SomeD [OF this] have l: "l \<in> set (ib_licenses d)" "lkey l = licenseKey spdx name"
      by (auto simp: lkey_def key)
    have "upserted d new (licenseKey spdx name) (li_id l)
        (d\<lparr>ib_licenses := update_where ?P (\<lambda>l. l\<lparr>li_name := name\<rparr>) (ib_licenses d)\<rparr>)"
      by (rule upserted_update [OF assms(1) l]) (simp add: lkey_def)
    with Some show ?thesis by (simp add: UpsertLicenseBySPDX_def)
  qed
  show ?thesis
  proof (cases "find ?P (ib_licenses d)")
    case None
    with upsert False show ?thesis
      by (auto simp: upsertLicense_def Let_def no_faults_def GetLicenseBySPDX_def stmt_step_def)
  next
    case (Some l)
    from find_SomeD [OF this] have l: "l \<in> set (ib_licenses d)" "lkey l = licenseKey spdx name"
      by (auto simp: lkey_def key)
    from upserted_found [OF assms(1) l] Some upsert False show ?thesis
      by (auto simp: upsertLicense_def Let_def no_faults_def GetLicenseBySPDX_def stmt_step_def done_step_def)
  qed
qed

definition upserts_done :: "ingest_db \<Rightarrow> (string \<Rightarrow> uuid) \<Rightarrow> string list \<Rightarrow> (string \<times> uuid) list \<Rightarrow> ingest_db \<Rightarrow> bool" where
  "upserts_done d new_id keys ids d' \<longleftrightarrow>
     map fst ids = keys \<and> lic_ok (ib_licenses d') \<and>
     (\<forall>(k, i)\<in>set ids. lic_is (ib_licenses d') i k) \<and>
     (\<forall>j k. lic_is (ib_licenses d) j k \<longrightarrow> lic_is (ib_licenses d') j k) \<and> others_same d d'"

lemma others_same_trans: "others_same d d1 \<Longrightarrow> others_same d1 d2 \<Longrightarrow> others_same d d2"
  unfolding others_same_def by (metis ingest_db.surjective ingest_db.update_convs(8))

lemma upsert_licenses_runs:
  assumes "lic_ok (ib_licenses d)" and "distinct (map fst refs)" and "inj_on new_id (fst ` set refs)"
    and "\<forall>r\<in>set refs. fst r = licenseKey (fst (snd r)) (fst (snd (snd r)))"
    and "\<forall>r\<in>set refs. new_id (fst r) \<notin> set (map li_id (ib_licenses d))"
  shows "\<exists>ids d'. upsert_licenses no_faults new_id refs d = (Some (Inr ids), d') \<and>
           upserts_done d new_id (map fst refs) ids d'"
  using assms
proof (induction refs arbitrary: d)
  case Nil
  then show ?case by (simp add: done_step_def upserts_done_def others_same_def)
next
  case (Cons r refs)
  obtain key spdx name url where r: "r = (key, spdx, name, url)" by (metis prod_cases4)
  have key: "key = licenseKey spdx name" using Cons.prems(4) r by simp
  have new: "new_id key \<notin> set (map li_id (ib_licenses d))" using Cons.prems(5) r by simp
  obtain i d1 where first: "upsertLicense no_faults (new_id key) spdx name url d = (Some (Inr i), d1)"
    and up: "upserted d (new_id key) key i d1"
    using upsertLicense_runs [OF Cons.prems(1) new, of spdx name url] key by blast
  have ok1: "lic_ok (ib_licenses d1)" using up by (simp add: upserted_def)
  have "new_id (fst q) \<notin> set (map li_id (ib_licenses d1))" if q: "q \<in> set refs" for q
  proof -
    have "fst q \<noteq> key" using Cons.prems(2) r q by auto
    then have "new_id (fst q) \<noteq> new_id key" using Cons.prems(3) r q by (auto simp: inj_on_def)
    moreover have "new_id (fst q) \<notin> set (map li_id (ib_licenses d))" using Cons.prems(5) q by simp
    ultimately show ?thesis using up unfolding upserted_def by blast
  qed
  then obtain ids d2 where rest: "upsert_licenses no_faults new_id refs d1 = (Some (Inr ids), d2)"
    and fin: "upserts_done d1 new_id (map fst refs) ids d2"
    using Cons.IH [OF ok1] Cons.prems by fastforce
  have "upsert_licenses no_faults new_id (r # refs) d = (Some (Inr ((key, i) # ids)), d2)"
    by (simp add: r then_step_def first rest done_step_def)
  moreover have "upserts_done d new_id (map fst (r # refs)) ((key, i) # ids) d2"
    using up fin others_same_trans unfolding upserts_done_def upserted_def r by auto
  ultimately show ?case by blast
qed

definition collected_ok :: "uuid set \<Rightarrow> license_refs \<times> license_pairs \<Rightarrow> bool" where
  "collected_ok C acc \<longleftrightarrow>
     distinct (map fst (fst acc)) \<and>
     (\<forall>r\<in>set (fst acc). fst r = licenseKey (fst (snd r)) (fst (snd (snd r)))) \<and>
     distinct (snd acc) \<and> (\<forall>(c, k)\<in>set (snd acc). c \<in> C \<and> k \<in> fst ` set (fst acc)) \<and>
     fst ` set (fst acc) \<subseteq> snd ` set (snd acc)"

lemma add_license_ok:
  assumes "collected_ok C acc" and "c \<in> C"
  shows "collected_ok C (add_license c refURL def acc)"
proof -
  obtain refs pairs where acc: "acc = (refs, pairs)" by fastforce
  let ?key = "licenseKey (fst def) (snd def)"
  have fresh: "map_of refs ?key = None \<longleftrightarrow> ?key \<notin> fst ` set refs" by (rule map_of_eq_None_iff)
  let ?refs = "if map_of refs ?key = None then refs @ [(?key, fst def, snd def, refURL)] else refs"
  have keys: "fst ` set ?refs = insert ?key (fst ` set refs)"
    using fresh by auto
  have "distinct (map fst ?refs)" using assms(1) fresh by (auto simp: collected_ok_def acc)
  moreover have "\<forall>r\<in>set ?refs. fst r = licenseKey (fst (snd r)) (fst (snd (snd r)))"
    using assms(1) by (auto simp: collected_ok_def acc)
  ultimately show ?thesis
    using assms keys by (auto simp: collected_ok_def acc add_license_def Let_def)
qed

lemma fold_add_license_ok:
  "collected_ok C acc \<Longrightarrow> c \<in> C \<Longrightarrow> collected_ok C (fold (add_license c refURL) defs acc)"
  by (induction defs arbitrary: acc) (simp_all add: add_license_ok)

lemma collect_licenses_ok:
  "collect_licenses lc uc choices acc = Some acc' \<Longrightarrow> collected_ok C acc \<Longrightarrow> fst ` set choices \<subseteq> C \<Longrightarrow>
   collected_ok C acc'"
proof (induction lc uc choices acc rule: collect_licenses.induct)
  case (2 lc uc c choice rest acc)
  from "2.prems"(1) obtain defs refURL where "choice_licenses lc uc choice = Some (defs, refURL)"
    and "collect_licenses lc uc rest (fold (add_license c refURL) defs acc) = Some acc'"
    by (auto split: option.splits)
  with 2 fold_add_license_ok [of C acc c refURL defs] show ?case by auto
qed simp

lemma collect_licenses_total:
  assumes "\<And>s. length (lc s) = length s" and "\<And>s. length (uc s) = length s"
  shows "collect_licenses lc uc choices acc \<noteq> None"
proof -
  have "choice_licenses lc uc choice \<noteq> None" for choice
    using ExpandLicense_total [OF assms] by (auto simp: choice_licenses_def split: option.splits)
  then show ?thesis
    by (induction lc uc choices acc rule: collect_licenses.induct) (auto split: option.splits)
qed

text \<open>The pairs are exactly the keys that the choices of each component expand to.\<close>

definition choice_keys :: "case_map \<Rightarrow> case_map \<Rightarrow> license_choice \<Rightarrow> string set" where
  "choice_keys lc uc choice =
     (case choice_licenses lc uc choice of None \<Rightarrow> {} | Some (defs, u) \<Rightarrow> key_of ` set defs)"

lemma add_license_pairs: "set (snd (add_license c refURL def acc)) = insert (c, key_of def) (set (snd acc))"
  by (cases acc) (auto simp: add_license_def Let_def key_of_def)

lemma fold_add_license_pairs:
  "set (snd (fold (add_license c refURL) defs acc)) = set (snd acc) \<union> Pair c ` key_of ` set defs"
  by (induction defs arbitrary: acc) (auto simp: add_license_pairs)

lemma collect_licenses_pairs:
  "collect_licenses lc uc choices acc = Some acc' \<Longrightarrow>
   set (snd acc') = set (snd acc) \<union> (\<Union>(c, choice)\<in>set choices. Pair c ` choice_keys lc uc choice)"
proof (induction lc uc choices acc rule: collect_licenses.induct)
  case (2 lc uc c choice rest acc)
  from "2.prems" obtain defs refURL where choice: "choice_licenses lc uc choice = Some (defs, refURL)"
    and rest: "collect_licenses lc uc rest (fold (add_license c refURL) defs acc) = Some acc'"
    by (auto split: option.splits)
  from "2.IH" [OF choice refl rest] choice show ?case
    by (simp add: fold_add_license_pairs choice_keys_def Un_assoc)
qed simp

definition names_key :: "case_map \<Rightarrow> case_map \<Rightarrow> flat_component \<Rightarrow> string \<Rightarrow> bool" where
  "names_key lc uc fc k \<longleftrightarrow> (\<exists>choice\<in>set (c_licenses (fc_comp fc)). k \<in> choice_keys lc uc choice)"

lemma license_choices_keys:
  "(\<Union>(c, choice)\<in>set (license_choices flat). Pair c ` choice_keys lc uc choice) =
   {(fc_id fc, k) |fc k. fc \<in> set flat \<and> names_key lc uc fc k}"
  by (auto simp: license_choices_def names_key_def)

section \<open>Linking components to licenses\<close>

text \<open>The tables a batch may still write when it comes to the licenses.\<close>

definition licenses_ready :: "(string \<Rightarrow> uuid) \<Rightarrow> flat_component list \<Rightarrow> ingest_db \<Rightarrow> bool" where
  "licenses_ready new_id flat d \<longleftrightarrow>
     lic_ok (ib_licenses d) \<and> (\<forall>k. new_id k \<notin> set (map li_id (ib_licenses d))) \<and>
     distinct (ib_component_licenses d) \<and>
     (\<forall>fc\<in>set flat. has_component d (fc_id fc) \<and> fc_id fc \<notin> fst ` set (ib_component_licenses d))"

definition licenses_linked ::
    "case_map \<Rightarrow> case_map \<Rightarrow> flat_component list \<Rightarrow> ingest_db \<Rightarrow> ingest_db \<Rightarrow> bool" where
  "licenses_linked lc uc flat d d' \<longleftrightarrow>
     (\<forall>fc\<in>set flat. \<forall>k. (\<exists>i. (fc_id fc, i) \<in> set (ib_component_licenses d') \<and> lic_is (ib_licenses d') i k) \<longleftrightarrow>
        (\<exists>fc'\<in>set flat. fc_id fc = fc_id fc' \<and> names_key lc uc fc' k)) \<and>
     d' = d\<lparr>ib_licenses := ib_licenses d', ib_component_licenses := ib_component_licenses d'\<rparr>"

lemma link_rows_distinct:
  assumes "distinct pairs" and "\<forall>(c, k)\<in>set pairs. k \<in> set keys"
    and "map fst ids = keys" and "lic_ok ls" and "\<forall>(k, i)\<in>set ids. lic_is ls i k"
  shows "distinct (link_rows ids pairs)"
proof -
  have found: "\<exists>i. map_of ids k = Some i \<and> lic_is ls i k" if "k \<in> set keys" for k
  proof -
    from that assms(3) have "k \<in> fst ` set ids" by (metis list.set_map)
    then obtain i where "map_of ids k = Some i" by (metis map_of_eq_None_iff not_None_eq)
    with assms(5) show ?thesis by (auto dest: map_of_SomeD)
  qed
  have "inj_on (\<lambda>(c, k). (c, case map_of ids k of Some i \<Rightarrow> i | None \<Rightarrow> zero_uuid)) (set pairs)"
  proof (rule inj_onI)
    fix x y
    assume x: "x \<in> set pairs" and y: "y \<in> set pairs"
      and eq: "(\<lambda>(c, k). (c, case map_of ids k of Some i \<Rightarrow> i | None \<Rightarrow> zero_uuid)) x =
        (\<lambda>(c, k). (c, case map_of ids k of Some i \<Rightarrow> i | None \<Rightarrow> zero_uuid)) y"
    from x assms(2) found obtain i where "map_of ids (snd x) = Some i" "lic_is ls i (snd x)" by fastforce
    moreover from y assms(2) found obtain j where "map_of ids (snd y) = Some j" "lic_is ls j (snd y)" by fastforce
    ultimately show "x = y"
      using eq lic_is_unique [OF assms(4)] by (auto simp: case_prod_unfold prod_eq_iff)
  qed
  with assms(1) show ?thesis by (simp add: link_rows_def distinct_map)
qed

lemma in_link_rows:
  "(c, i) \<in> set (link_rows ids pairs) \<longleftrightarrow>
   (\<exists>k. (c, k) \<in> set pairs \<and> i = (case map_of ids k of Some j \<Rightarrow> j | None \<Rightarrow> zero_uuid))"
  by (force simp: link_rows_def)

lemma licenses_ready_new:
  "licenses_ready new_id flat d \<Longrightarrow> c \<in> fc_id ` set flat \<Longrightarrow> (c, i) \<notin> set (ib_component_licenses d)"
  unfolding licenses_ready_def by (metis (no_types, lifting) fst_conv image_iff)

text \<open>The upserts leave every key of the batch with its row.\<close>

lemma upserts_find:
  assumes "upserts_done d new_id keys ids d'" and "k \<in> set keys"
  shows "\<exists>i. map_of ids k = Some i \<and> lic_is (ib_licenses d') i k"
proof -
  from assms have "k \<in> fst ` set ids" by (metis list.set_map upserts_done_def)
  then obtain i where "map_of ids k = Some i" by (metis map_of_eq_None_iff not_None_eq)
  with assms(1) show ?thesis by (auto simp: upserts_done_def dest: map_of_SomeD)
qed

lemma others_same_tables:
  assumes "others_same d d'"
  shows "ib_component_licenses d' = ib_component_licenses d" "ib_components d' = ib_components d"
    "d'\<lparr>ib_component_licenses := cl\<rparr> = d\<lparr>ib_licenses := ib_licenses d', ib_component_licenses := cl\<rparr>"
proof -
  obtain ls where "d' = d\<lparr>ib_licenses := ls\<rparr>" using assms unfolding others_same_def by blast
  then show "ib_component_licenses d' = ib_component_licenses d" "ib_components d' = ib_components d"
    "d'\<lparr>ib_component_licenses := cl\<rparr> = d\<lparr>ib_licenses := ib_licenses d', ib_component_licenses := cl\<rparr>"
    by simp_all
qed

lemma linked_iff:
  assumes fin: "upserts_done d new_id keys ids d'" and pairs: "\<forall>(c, k)\<in>set pairs. k \<in> set keys"
  shows "(\<exists>i. (c, i) \<in> set (link_rows ids pairs) \<and> lic_is (ib_licenses d') i k) \<longleftrightarrow> (c, k) \<in> set pairs"
proof
  assume "\<exists>i. (c, i) \<in> set (link_rows ids pairs) \<and> lic_is (ib_licenses d') i k"
  then obtain i k' where k': "(c, k') \<in> set pairs" "lic_is (ib_licenses d') i k"
    and i: "i = (case map_of ids k' of Some j \<Rightarrow> j | None \<Rightarrow> zero_uuid)" by (auto simp: in_link_rows)
  from k'(1) pairs have "k' \<in> set keys" by blast
  from upserts_find [OF fin this] i have "lic_is (ib_licenses d') i k'" by auto
  with k' fin lic_is_unique [of "ib_licenses d'" i k k'] show "(c, k) \<in> set pairs"
    by (simp add: upserts_done_def)
next
  assume k: "(c, k) \<in> set pairs"
  with pairs have "k \<in> set keys" by blast
  from upserts_find [OF fin this] obtain j where j: "map_of ids k = Some j" "lic_is (ib_licenses d') j k" by blast
  with k have "(c, j) \<in> set (link_rows ids pairs)" unfolding in_link_rows by (intro exI [of _ k]) simp
  with j show "\<exists>i. (c, i) \<in> set (link_rows ids pairs) \<and> lic_is (ib_licenses d') i k" by blast
qed

lemma copy_links_runs:
  assumes ready: "licenses_ready new_id flat d" and fin: "upserts_done d new_id keys ids d1"
    and pairs: "\<forall>(c, k)\<in>set pairs. c \<in> fc_id ` set flat \<and> k \<in> set keys" and "distinct pairs"
  shows "copy_component_licenses (link_rows ids pairs) d1 =
           (Inr (), d1\<lparr>ib_component_licenses := ib_component_licenses d1 @ link_rows ids pairs\<rparr>)"
proof -
  note same = others_same_tables [of d d1]
  have fin': "map fst ids = keys" "lic_ok (ib_licenses d1)" "\<forall>(k, i)\<in>set ids. lic_is (ib_licenses d1) i k"
    "others_same d d1" using fin by (simp_all add: upserts_done_def)
  have "distinct (link_rows ids pairs)"
    by (rule link_rows_distinct [OF assms(4) _ fin'(1-3)]) (use pairs in auto)
  moreover have "(c, i) \<notin> set (ib_component_licenses d1)" if row: "(c, i) \<in> set (link_rows ids pairs)" for c i
  proof
    assume "(c, i) \<in> set (ib_component_licenses d1)"
    then have "(c, i) \<in> set (ib_component_licenses d)" using same fin'(4) by simp
    moreover from row pairs have "c \<in> fc_id ` set flat" by (auto simp: in_link_rows)
    ultimately show False using licenses_ready_new [OF ready] by blast
  qed
  moreover have "has_component d1 c \<and> has_license d1 i" if row: "(c, i) \<in> set (link_rows ids pairs)" for c i
  proof -
    from row obtain k where k: "(c, k) \<in> set pairs"
      and i: "i = (case map_of ids k of Some j \<Rightarrow> j | None \<Rightarrow> zero_uuid)" by (auto simp: in_link_rows)
    from k pairs upserts_find [OF fin, of k] i have "has_license d1 i"
      by (force simp: has_license_def lic_is_def list_ex_iff)
    moreover from k pairs ready same fin'(4) have "has_component d1 c"
      by (auto simp: licenses_ready_def has_component_def)
    ultimately show ?thesis by blast
  qed
  ultimately show ?thesis
    using ready same fin'(4) by (auto simp: copy_component_licenses_def list_ex_iff licenses_ready_def)
qed

lemma copyComponentLicenses_runs:
  assumes len: "\<And>s. length (lc s) = length s" "\<And>s. length (uc s) = length s" 
    and inj: "inj_on new_id {k. \<exists>fc\<in>set flat. names_key lc uc fc k}"
    and ready: "licenses_ready new_id flat d"
  shows "\<exists>d'. copyComponentLicenses no_faults new_id lc uc flat d = (Some (Inr ()), d') \<and>
           licenses_linked lc uc flat d d'"
proof -
  obtain refs pairs where collected: "collect_licenses lc uc (license_choices flat) ([], []) = Some (refs, pairs)"
    using collect_licenses_total [of lc uc, OF len] by fastforce
  have ok: "collected_ok (fc_id ` set flat) (refs, pairs)"
    by (rule collect_licenses_ok [OF collected]) (auto simp: collected_ok_def license_choices_def)
  have pairs: "set pairs = {(fc_id fc, k) |fc k. fc \<in> set flat \<and> names_key lc uc fc k}"
    using collect_licenses_pairs [OF collected] unfolding license_choices_keys by simp
  let ?sorted = "sort_by (on_key str_cmp fst) refs"
  have "mset (map fst ?sorted) = mset (map fst refs)" by simp
  then have keys: "distinct (map fst ?sorted)"
    using ok unfolding collected_ok_def by (metis fst_conv mset_eq_imp_distinct_iff)
  have in_pairs: "\<forall>(c, k)\<in>set pairs. c \<in> fc_id ` set flat \<and> k \<in> set (map fst ?sorted)"
    using ok by (auto simp: collected_ok_def)
  have "fst ` set refs \<subseteq> snd ` set pairs" using ok unfolding collected_ok_def fst_conv snd_conv by blast
  then have "fst ` set refs \<subseteq> {k. \<exists>fc\<in>set flat. names_key lc uc fc k}" unfolding pairs by (rule order.trans) auto
  then have inj_refs: "inj_on new_id (fst ` set ?sorted)" using inj by (simp add: inj_on_subset)
  have formed: "\<forall>r\<in>set ?sorted. fst r = licenseKey (fst (snd r)) (fst (snd (snd r)))"
    using ok by (simp add: collected_ok_def)
  have fresh_keys: "\<forall>r\<in>set ?sorted. new_id (fst r) \<notin> set (map li_id (ib_licenses d))"
    using ready by (auto simp: licenses_ready_def)
  obtain ids d1 where ups: "upsert_licenses no_faults new_id ?sorted d = (Some (Inr ids), d1)"
    and fin: "upserts_done d new_id (map fst ?sorted) ids d1"
    using upsert_licenses_runs [OF _ keys inj_refs formed fresh_keys] ready by (auto simp: licenses_ready_def)
  have same: "others_same d d1" using fin by (simp add: upserts_done_def)
  let ?rows = "link_rows ids pairs"
  let ?d2 = "d1\<lparr>ib_component_licenses := ib_component_licenses d1 @ ?rows\<rparr>"
  have copy: "copy_component_licenses ?rows d1 = (Inr (), ?d2)"
    by (rule copy_links_runs [OF ready fin in_pairs]) (use ok in \<open>simp add: collected_ok_def\<close>)
  have "pairs = [] \<Longrightarrow> ?rows = []" by (simp add: link_rows_def)
  then have run: "copyComponentLicenses no_faults new_id lc uc flat d = (Some (Inr ()), ?d2)"
    by (auto simp: copyComponentLicenses_def collected then_step_def ups done_step_def stmt_step_def copy
        no_faults_def)
  have "(\<exists>i. (fc_id fc, i) \<in> set (ib_component_licenses ?d2) \<and> lic_is (ib_licenses ?d2) i k) \<longleftrightarrow>
      (fc_id fc, k) \<in> set pairs" if fc: "fc \<in> set flat" for fc k
  proof -
    have "(fc_id fc, i) \<notin> set (ib_component_licenses d1)" for i
      using licenses_ready_new [OF ready] fc others_same_tables(1) [OF same] by simp
    moreover have "(\<exists>i. (fc_id fc, i) \<in> set ?rows \<and> lic_is (ib_licenses d1) i k) \<longleftrightarrow> (fc_id fc, k) \<in> set pairs"
      by (rule linked_iff [OF fin]) (use in_pairs in blast)
    ultimately show ?thesis by simp
  qed
  then have "licenses_linked lc uc flat d ?d2"
    unfolding licenses_linked_def pairs using others_same_tables(1,3) [OF same] by auto
  with run show ?thesis by blast
qed

end
