(* ===== verification/SbomIngest.thy ===== *)
theory SbomIngest
  imports SbomComponents
begin

text \<open>
  \<^verbatim>\<open>internal/service/sbom.go\<close>: ingesting a document in one transaction, and deleting SBOMs and artifacts.
  What other transactions commit between the duplicate check and the transaction is \<open>ie_conc\<close>; the
  rest of an ingest is one transaction, whose tables are dropped when it panics or fails. The answer is
  a panic (\<open>None\<close>) or a result, the tables, and the events published; \<open>publisher\<close> says whether the service
  has one.
\<close>

section \<open>The service\<close>

record ingest_env =
  ie_flt :: faults
  ie_conc :: "ingest_db \<Rightarrow> ingest_db"
  ie_artifact_id :: uuid
  ie_sbom_id :: uuid
  ie_component_id :: "nat \<Rightarrow> uuid"
  ie_license_id :: "string \<Rightarrow> uuid"
  ie_lc :: case_map
  ie_uc :: case_map
  ie_validator :: "digest_validator option"
  ie_encode :: "bom \<Rightarrow> go_error + string"
  ie_publisher :: bool

datatype event =
    SBOMIngested uuid string string string string string string
  | SBOMDeleted uuid
  | ArtifactDeleted uuid

record artifactInfo =
  ai_artifact :: "uuid option"
  ai_version :: "string option"
  ai_digest :: "string option"
  ai_type :: string

definition container :: string where "container = ''container''"

section \<open>The subject\<close>

record subjectIdentity =
  si_type :: string
  si_name :: string
  si_group :: string
  si_purl :: string
  si_cpe :: string

definition override :: "string \<Rightarrow> string \<Rightarrow> string" where
  "override declared found = (if declared \<noteq> [] then declared else found)"

definition resolveSubjectIdentity :: "bom \<Rightarrow> ingest_params \<Rightarrow> subjectIdentity" where
  "resolveSubjectIdentity b params =
     (let s = (case subject_of b of
                 Some (_, mc) \<Rightarrow> \<lparr>si_type = c_type mc, si_name = c_name mc, si_group = c_group mc,
                                  si_purl = c_purl mc, si_cpe = c_cpe mc\<rparr>
               | None \<Rightarrow> \<lparr>si_type = [], si_name = [], si_group = [], si_purl = [], si_cpe = []\<rparr>)
      in s\<lparr>si_type := override (ip_subject_type params) (si_type s),
           si_name := override (ip_subject_name params) (si_name s),
           si_group := override (ip_subject_group params) (si_group s),
           si_purl := override (ip_subject_purl params) (si_purl s)\<rparr>)"

definition ensureArtifact :: "faults \<Rightarrow> artifact_row \<Rightarrow> uuid step" where
  "ensureArtifact flt p d =
     (case read_stmt (flt CallArtifact) (GetArtifactByIdentity d (at_type p) (at_name p) (at_group p)) of
        Inr row \<Rightarrow>
          if unchanged (at_purl p) (at_purl row) \<and> unchanged (at_cpe p) (at_cpe row) then done_step (at_id row) d
          else stmt_step (flt CallUpsertArtifact) ''upserting artifact: '' (UpsertArtifact p) d
      | Inl e \<Rightarrow>
          if \<not> errors_is e NoRows then fail_step (Wrapped ''looking up artifact: '' e) d
          else stmt_step (flt CallUpsertArtifact) ''upserting artifact: '' (UpsertArtifact p) d)"

text \<open>The name without its digest suffix, and the digest: the declared one, else the one in the name of
  a container, else the one in the version.\<close>

definition subject_name_digest :: "bom \<Rightarrow> ingest_params \<Rightarrow> string \<times> string option" where
  "subject_name_digest b params =
     (let subj = resolveSubjectIdentity b params;
          declared = (if ip_digest params \<noteq> [] then Some (ip_digest params) else None);
          (name, digest) =
            (if si_type subj = container
             then (case index_sub sha_mark (si_name subj) of
                     Some idx \<Rightarrow> (take idx (si_name subj),
                                  if declared = None then Some (drop (idx + 1) (si_name subj)) else declared)
                   | None \<Rightarrow> (si_name subj, declared))
             else (si_name subj, declared));
          digest = (case subject_of b of
                      Some (_, mc) \<Rightarrow> if digest = None \<and> c_version mc \<noteq> [] \<and> has_prefix (c_version mc) ''sha256:''
                                      then Some (c_version mc) else digest
                    | None \<Rightarrow> digest)
      in (name, digest))"

text \<open>\<^verbatim>\<open>%q\<close> of a name of printable ASCII without quotes and backslashes.\<close>

definition go_quote :: "string \<Rightarrow> string" where
  "go_quote s = CHR 0x22 # s @ [CHR 0x22]"

definition no_artifact :: artifactInfo where
  "no_artifact = \<lparr>ai_artifact = None, ai_version = None, ai_digest = None, ai_type = []\<rparr>"

definition resolveArtifact :: "ingest_env \<Rightarrow> bom \<Rightarrow> ingest_params \<Rightarrow> artifactInfo step" where
  "resolveArtifact env b params =
     (if subject_of b = None \<and> ip_subject_name params = [] then done_step no_artifact
      else let subj = resolveSubjectIdentity b params;
               (name, digest) = subject_name_digest b params
           in if si_type subj = container \<and> digest = None
              then fail_step (ValidationError (''container SBOM for '' @ go_quote name @
                     '' missing digest: include digest in component name (@sha256:...) or version''))
              else then_step
                     (ensureArtifact (ie_flt env)
                        \<lparr>at_id = ie_artifact_id env, at_type = si_type subj, at_name = name,
                         at_group = textOrNull (si_group subj), at_purl = textOrNull (si_purl subj),
                         at_cpe = textOrNull (si_cpe subj)\<rparr>)
                     (\<lambda>art. done_step \<lparr>ai_artifact = Some art, ai_version = resolveSubjectVersion b params,
                                       ai_digest = digest, ai_type = si_type subj\<rparr>))"

section \<open>Validation\<close>

definition validateContainerRequired :: "bom \<Rightarrow> artifactInfo \<Rightarrow> string \<Rightarrow> string \<Rightarrow> unit result" where
  "validateContainerRequired b info arch bd =
     (case subject_of b of
        None \<Rightarrow> Inr ()
      | Some (_, mc) \<Rightarrow>
          if c_type mc \<noteq> container then Inr ()
          else let missing = (if ai_version info = None then [''subject_version''] else []) @
                             (if arch = [] then [''architecture''] else []) @
                             (if bd = [] then [''build_date''] else [])
               in if missing \<noteq> []
                  then Inl (ValidationError (''container SBOM missing required metadata: '' @ join '', '' missing))
                  else Inr ())"

definition validateUploadRequired :: "artifactInfo \<Rightarrow> ingest_params \<Rightarrow> unit result" where
  "validateUploadRequired info params =
     (if ai_artifact info = None \<or> ai_type info = [] \<or> ai_type info = container then Inr ()
      else let missing = (if ip_subject_type params = [] then [''subject_type''] else []) @
                         (if ip_subject_name params = [] then [''subject_name''] else []) @
                         (if coalesce (ai_version info) = [] then [''subject_version''] else []) @
                         (if coalesce (ai_digest info) = [] then [''digest''] else [])
           in if missing \<noteq> []
              then Inl (ValidationError (''non-container SBOM missing required subject identity: '' @
                     join '', '' missing @
                     ''; declare it at upload (digest is the sha256 of the artifact file)''))
              else Inr ())"

definition resolveIngestNamespace :: "faults \<Rightarrow> ingest_db \<Rightarrow> uuid option \<Rightarrow> uuid result" where
  "resolveIngestNamespace flt d sourceID =
     (case sourceID of
        None \<Rightarrow> Inl (ValidationError (''sbom ingest requires a source; pass ?source=<uuid|namespace/name> '' @
                       ''so the SBOM lands in a namespace that owns it''))
      | Some s \<Rightarrow>
          (case read_stmt (flt CallSource) (GetSource d s) of
             Inl e \<Rightarrow> if errors_is e NoRows then Inl (ValidationError ''ingest source not found'')
                      else Inl (Wrapped ''resolving ingest source: '' e)
           | Inr ns \<Rightarrow> Inr ns))"

definition existingByDigest :: "faults \<Rightarrow> ingest_db \<Rightarrow> bom \<Rightarrow> ingest_params \<Rightarrow> uuid option" where
  "existingByDigest flt d b params =
     (let digest = resolveIngestDigest b params in
      if digest = [] then None
      else case read_stmt (flt CallByDigest) (GetSBOMByDigest d digest) of
             Inl _ \<Rightarrow> None | Inr existing \<Rightarrow> Some existing)"

section \<open>Ingest\<close>

definition linkArtifactNamespace :: "faults \<Rightarrow> uuid option \<Rightarrow> uuid \<Rightarrow> unit step" where
  "linkArtifactNamespace flt artifactID ns =
     (case artifactID of
        None \<Rightarrow> done_step ()
      | Some art \<Rightarrow> stmt_step (flt CallLink) ''linking artifact to namespace: '' (UpsertArtifactNamespace art ns))"

definition insertBOMContent ::
    "ingest_env \<Rightarrow> uuid \<Rightarrow> bom \<Rightarrow> string \<Rightarrow> string \<Rightarrow> symbol_table option list \<Rightarrow> unit step" where
  "insertBOMContent env sbomID b subjectVersion flavor goSyms =
     then_step
       (case bom_components b of
          None \<Rightarrow> done_step ()
        | Some cs \<Rightarrow> insertComponentsBatch (ie_flt env) (ie_component_id env) (ie_license_id env) (ie_lc env)
                       (ie_uc env) sbomID cs (ExtractPath b) subjectVersion flavor goSyms)
       (\<lambda>_. insertDependencies (ie_flt env) sbomID (bom_dependencies b))"

definition check_step :: "unit result \<Rightarrow> unit step" where
  "check_step r = (case r of Inl e \<Rightarrow> fail_step e | Inr _ \<Rightarrow> done_step ())"

definition sbom_row_of ::
    "ingest_env \<Rightarrow> bom \<Rightarrow> string \<Rightarrow> ingest_params \<Rightarrow> uuid \<Rightarrow> artifactInfo \<Rightarrow> stored_sbom" where
  "sbom_row_of env b raw params ns info =
     \<lparr>ps_id = ie_sbom_id env, ps_serial = textOrNull (bom_serial b), ps_spec = bom_spec b,
      ps_version = word_of_int (bom_version b), ps_raw = raw, ps_artifact = ai_artifact info,
      ps_subject = ai_version info, ps_digest = ai_digest info, ps_namespace = ns, ps_source = ip_source params,
      ps_flavor = Some (DetectFlavor b (coalesce (ai_version info))),
      ps_index_digest = textOrNull (ip_index_digest params)\<rparr>"

text \<open>The body of the transaction: the stored row's id and what the event needs.\<close>

definition ingest_tx ::
    "ingest_env \<Rightarrow> bom \<Rightarrow> string \<Rightarrow> ingest_params \<Rightarrow> uuid \<Rightarrow> symbol_table option list \<Rightarrow> (uuid \<times> artifactInfo) step" where
  "ingest_tx env b raw params ns goSyms =
     then_step (resolveArtifact env b params) (\<lambda>info.
     then_step (check_step (validateContainerRequired b info (resolveArchitecture b params) (resolveBuildDate b params))) (\<lambda>_.
     then_step (check_step (validateUploadRequired info params)) (\<lambda>_.
     then_step (stmt_step (ie_flt env CallInsertSBOM) ''inserting sbom: '' (InsertSBOM (sbom_row_of env b raw params ns info))) (\<lambda>sbomID.
     then_step (linkArtifactNamespace (ie_flt env) (ai_artifact info) ns) (\<lambda>_.
     then_step (insertBOMContent env sbomID b (coalesce (ai_version info))
                  (DetectFlavor b (coalesce (ai_version info))) goSyms) (\<lambda>_.
     done_step (sbomID, info)))))))"

text \<open>Beginning and committing: an error or a panic leaves the tables as the transaction found them.\<close>

definition in_transaction :: "faults \<Rightarrow> 'a step \<Rightarrow> 'a step" where
  "in_transaction flt body d =
     (case flt CallBegin of
        Some f \<Rightarrow> (Some (Inl (Wrapped ''beginning transaction: '' (fault_error f))), d)
      | None \<Rightarrow>
          (case body d of
             (Some (Inr x), d') \<Rightarrow>
               (case flt CallCommit of
                  Some f \<Rightarrow> (Some (Inl (Wrapped ''committing transaction: '' (fault_error f))), d)
                | None \<Rightarrow> (Some (Inr x), d'))
           | (r, _) \<Rightarrow> (r, d)))"

text \<open>The event is built from \<open>bom.Metadata.Component\<close>, a nil pointer when the document has no subject.\<close>

definition publish_ingested ::
    "bom \<Rightarrow> ingest_params \<Rightarrow> uuid \<Rightarrow> artifactInfo \<Rightarrow> event option" where
  "publish_ingested b params sbomID info =
     (case subject_of b of
        None \<Rightarrow> None
      | Some (_, mc) \<Rightarrow>
          Some (SBOMIngested sbomID (c_type mc) (c_name mc) (coalesce (ai_digest info)) (coalesce (ai_version info))
                  (resolveArchitecture b params) (resolveBuildDate b params)))"

type_synonym 'a service_call = "'a result option \<times> ingest_db \<times> event list"

definition Ingest :: "ingest_env \<Rightarrow> bom \<Rightarrow> string \<Rightarrow> ingest_params \<Rightarrow> ingest_db \<Rightarrow> uuid service_call" where
  "Ingest env b rawJSON params d =
     (case resolveIngestNamespace (ie_flt env) d (ip_source params) of
        Inl e \<Rightarrow> (Some (Inl e), d, [])
      | Inr ns \<Rightarrow>
     (case validateContainerDigest (ie_validator env) b of
        Inl e \<Rightarrow> (Some (Inl e), d, [])
      | Inr _ \<Rightarrow>
     (case existingByDigest (ie_flt env) d b params of
        Some existing \<Rightarrow> (Some (Inr existing), d, [])
      | None \<Rightarrow>
     (case detachGoSymbols (ie_encode env) b rawJSON (ip_go_symbols params) of
        Inl e \<Rightarrow> (Some (Inl e), d, [])
      | Inr (goSyms, b', raw) \<Rightarrow>
     (case in_transaction (ie_flt env) (ingest_tx env b' raw params ns goSyms) (ie_conc env d) of
        (None, d') \<Rightarrow> (None, d', [])
      | (Some (Inl e), d') \<Rightarrow> (Some (Inl e), d', [])
      | (Some (Inr (sbomID, info)), d') \<Rightarrow>
          if \<not> ie_publisher env then (Some (Inr sbomID), d', [])
          else (case publish_ingested b' params sbomID info of
                  None \<Rightarrow> (None, d', [])
                | Some ev \<Rightarrow> (Some (Inr sbomID), d', [ev])))))))"

section \<open>Deletion\<close>

definition DeleteSBOM :: "bool \<Rightarrow> faults \<Rightarrow> int \<Rightarrow> uuid \<Rightarrow> ingest_db \<Rightarrow> unit service_call" where
  "DeleteSBOM publisher flt now i d =
     (case in_transaction flt
        (then_step (stmt_step (flt CallPrune) ''tombstoning scan job: '' (PruneJobsForSBOM_stmt now i)) (\<lambda>_.
         then_step (stmt_step (flt CallDelete) ''deleting sbom: '' (DeleteSBOM_stmt i)) (\<lambda>rows.
         if rows = 0 then fail_step ErrNotFound else done_step ()))) d of
        (Some (Inr _), d') \<Rightarrow> (Some (Inr ()), d', if publisher then [SBOMDeleted i] else [])
      | (r, d') \<Rightarrow> (r, d', []))"

definition DeleteArtifact :: "bool \<Rightarrow> faults \<Rightarrow> int \<Rightarrow> uuid \<Rightarrow> ingest_db \<Rightarrow> unit service_call" where
  "DeleteArtifact publisher flt now art d =
     (case in_transaction flt
        (then_step (stmt_step (flt CallPrune) ''tombstoning scan jobs: '' (PruneJobsForArtifact_stmt now art)) (\<lambda>_.
         then_step (stmt_step (flt CallDeleteSBOMs) ''deleting artifact sboms: '' (DeleteSBOMsByArtifact art)) (\<lambda>_.
         then_step (stmt_step (flt CallDelete) ''deleting artifact: '' (DeleteArtifact_stmt art)) (\<lambda>rows.
         if rows = 0 then fail_step ErrNotFound else done_step ())))) d of
        (Some (Inr _), d') \<Rightarrow> (Some (Inr ()), d', if publisher then [ArtifactDeleted art] else [])
      | (r, d') \<Rightarrow> (r, d', []))"

section \<open>Reads\<close>

definition ListDigestsBySource :: "fault \<Rightarrow> uuid option \<Rightarrow> ingest_db \<Rightarrow> string list result" where
  "ListDigestsBySource flt source d =
     (case source of
        None \<Rightarrow> Inl (Wrapped ''parsing source ID: '' (OtherError ''invalid UUID''))
      | Some src \<Rightarrow>
          (case read_stmt flt (Inr (ListDigestsBySource_stmt d src)) of
             Inl e \<Rightarrow> Inl (Wrapped ''listing digests: '' e)
           | Inr rows \<Rightarrow> Inr (List.map_filter (\<lambda>x. x) rows)))"

definition GetSBOMNamespaceID :: "fault \<Rightarrow> uuid \<Rightarrow> ingest_db \<Rightarrow> uuid option result" where
  "GetSBOMNamespaceID flt i d =
     (case read_stmt flt (GetSBOM d i) of Inl _ \<Rightarrow> Inl ErrNotFound | Inr row \<Rightarrow> Inr (Some (ps_namespace row)))"

definition GetArtifactNamespaceID :: "fault \<Rightarrow> fault \<Rightarrow> uuid \<Rightarrow> ingest_db \<Rightarrow> uuid option result" where
  "GetArtifactNamespaceID flt1 flt2 art d =
     (case read_stmt flt1 (if list_ex (\<lambda>a. at_id a = art) (ib_artifacts d) then Inr () else Inl NoRows) of
        Inl _ \<Rightarrow> Inl ErrNotFound
      | Inr _ \<Rightarrow>
          (case read_stmt flt2 (GetArtifactNamespaceID_stmt d art) of
             Inr ns \<Rightarrow> Inr (Some ns)
           | Inl e \<Rightarrow> if errors_is e NoRows then Inr None
                      else Inl (Wrapped ''looking up artifact namespace: '' e)))"

end
