(* ===== verification/SbomBatch.thy ===== *)
theory SbomBatch
  imports SbomStore SbomIngest
begin

text \<open>
  The whole batch of a document, and the transaction around it: with unused identifiers and no failure
  outside the tables, \<open>insertBOMContent\<close> and the transaction of \<open>Ingest\<close> succeed and store the document's
  rows; and what the tables hold afterwards.
\<close>

section \<open>Go symbols\<close>

abbreviation unlinked :: "stored_component \<Rightarrow> stored_component" where
  "unlinked r \<equiv> r\<lparr>cw_symbol_set := None\<rparr>"

definition symbols_only :: "ingest_db \<Rightarrow> ingest_db \<Rightarrow> bool" where
  "symbols_only d d' \<longleftrightarrow>
     map unlinked (ib_components d') = map unlinked (ib_components d) \<and>
     d' = d\<lparr>ib_packages := ib_packages d', ib_symbols := ib_symbols d', ib_symbol_sets := ib_symbol_sets d',
            ib_components := ib_components d'\<rparr>"

lemma link_sets_unlinked: "map unlinked (ib_components (link_sets sets d)) = map unlinked (ib_components d)"
  by (simp add: link_sets_def split: option.split)

lemma stmt_quiet: "stmt_step None msg (quiet f) d = (Some (Inr ()), f d)"
  by (simp add: stmt_step_def quiet_def)

text \<open>What the statements leave: every staged name has its package and its symbol; a component with staged names is
  linked to the set whose digest is that of the sorted identifiers of exactly these symbols, another component to none;
  and a set that was added has the digest of its own identifiers.\<close>

definition symbols_linked :: "flat_component list \<Rightarrow> symbol_table option list \<Rightarrow> ingest_db \<Rightarrow> ingest_db \<Rightarrow> bool" where
  "symbols_linked flat syms d d' \<longleftrightarrow>
     (let rows = symbol_rows flat syms in
      (\<forall>r\<in>set rows. row_symbol d' r \<noteq> None) \<and>
      (\<forall>c\<in>set (ib_components d'). cw_id c \<in> fc_id ` set flat \<longrightarrow>
         (if cw_id c \<in> fst ` set rows
          then cw_symbol_set c \<noteq> None \<and> cw_symbol_set c = set_with_digest d' (goSymbolSetDigest (set_of d' rows (cw_id c)))
          else cw_symbol_set c = None)) \<and>
      (\<forall>s\<in>set (ib_symbol_sets d') - set (ib_symbol_sets d). fst (snd s) = goSymbolSetDigest (snd (snd s))))"

lemma symbol_lookups:
  assumes "ib_packages d' = ib_packages d" and "ib_symbols d' = ib_symbols d"
  shows "row_symbol d' = row_symbol d" and "set_of d' = set_of d"
proof -
  have "package_id d' = package_id d" "symbol_id d' = symbol_id d"
    using assms by (simp_all add: package_id_def symbol_id_def fun_eq_iff)
  then show "row_symbol d' = row_symbol d" by (intro ext) (simp only: row_symbol_def)
  then show "set_of d' = set_of d" by (intro ext) (simp add: set_of_def)
qed

lemma symbols_linked_cong:
  assumes "ib_packages e' = ib_packages d'" "ib_symbols e' = ib_symbols d'" "ib_symbol_sets e' = ib_symbol_sets d'"
    and "ib_components e' = ib_components d'" "ib_symbol_sets e = ib_symbol_sets d"
  shows "symbols_linked flat syms e e' = symbols_linked flat syms d d'"
proof -
  have "set_with_digest e' = set_with_digest d'" using assms(3) by (intro ext) (simp add: set_with_digest_def)
  then show ?thesis by (simp add: symbols_linked_def symbol_lookups [OF assms(1,2)] assms(3-5))
qed

lemma insert_new_all:
  assumes "\<And>k i. key (row k i) = k" and "k \<in> set ks \<or> list_ex (\<lambda>r. key r = k) rows"
  shows "list_ex (\<lambda>r. key r = k) (insert_new row key ks rows)"
  using assms(2) unfolding insert_new_def
proof (induction ks arbitrary: rows)
  case (Cons x xs)
  have "list_ex (\<lambda>r. key r = k) (if list_ex (\<lambda>r. key r = x) rows then rows else rows @ [row x (Suc (length rows))])"
    if "k = x \<or> list_ex (\<lambda>r. key r = k) rows"
    using that assms(1) by auto
  with Cons show ?case by auto
qed simp

lemma found_map: "list_ex P xs \<Longrightarrow> \<exists>y. map_option f (find P xs) = Some y"
  by (induction xs) auto

lemma staged_symbols:
  assumes "r \<in> set rows"
  shows "row_symbol (insert_symbols rows (insert_packages rows d)) r \<noteq> None"
proof -
  obtain c path n where r: "r = (c, path, n)" by (cases r) auto
  let ?d1 = "insert_packages rows d" and ?d2 = "insert_symbols rows (insert_packages rows d)"
  have "list_ex (\<lambda>p. snd p = path) (ib_packages ?d1)"
    using assms unfolding insert_packages_def r
    by (simp, intro insert_new_all disjI1) (force intro: rev_image_eqI)+
  then obtain p where p: "package_id ?d1 path = Some p" using found_map by (fastforce simp: package_id_def)
  have "(p, n) \<in> set (List.map_filter (\<lambda>(c, path, n). map_option (\<lambda>p. (p, n)) (package_id ?d1 path)) rows)"
    using assms p unfolding r map_filter_def by force
  then have "list_ex (\<lambda>s. snd s = (p, n)) (ib_symbols ?d2)"
    unfolding insert_symbols_def by (simp, intro insert_new_all disjI1) simp_all
  then have "symbol_id ?d2 p n \<noteq> None" using found_map by (fastforce simp: symbol_id_def)
  moreover have "package_id ?d2 path = Some p" using p by (simp add: package_id_def insert_symbols_def)
  ultimately show ?thesis by (simp add: row_symbol_def r)
qed

definition add_set :: "uuid \<times> nat list \<Rightarrow> (nat \<times> string \<times> nat list) list \<Rightarrow> (nat \<times> string \<times> nat list) list" where
  "add_set = (\<lambda>(c, ids) rs. if list_ex (\<lambda>r. fst (snd r) = goSymbolSetDigest ids) rs then rs
                            else rs @ [(Suc (length rs), goSymbolSetDigest ids, ids)])"

lemma insert_sets_fold: "ib_symbol_sets (insert_sets sets d) = fold add_set sets (ib_symbol_sets d)"
  by (simp add: insert_sets_def add_set_def)

lemma add_sets_all:
  assumes "(c, ids) \<in> set sets \<or> list_ex (\<lambda>r. fst (snd r) = goSymbolSetDigest ids) rs"
  shows "list_ex (\<lambda>r. fst (snd r) = goSymbolSetDigest ids) (fold add_set sets rs)"
  using assms
proof (induction sets arbitrary: rs)
  case (Cons s sets)
  obtain c' ids' where s: "s = (c', ids')" by fastforce
  have "list_ex (\<lambda>r. fst (snd r) = goSymbolSetDigest ids) (add_set s rs)"
    if "s = (c, ids) \<or> list_ex (\<lambda>r. fst (snd r) = goSymbolSetDigest ids) rs"
    using that by (auto simp: add_set_def s)
  with Cons show ?case by auto
qed simp

lemma add_sets_new: "s \<in> set (fold add_set sets rs) \<Longrightarrow> s \<notin> set rs \<Longrightarrow> fst (snd s) = goSymbolSetDigest (snd (snd s))"
proof (induction sets arbitrary: rs)
  case (Cons x sets)
  show ?case
  proof (cases "s \<in> set (add_set x rs)")
    case True
    with Cons.prems(2) show ?thesis by (auto simp: add_set_def split: prod.splits if_splits)
  next
    case False
    with Cons show ?thesis by auto
  qed
qed simp

lemma map_of_staged: "map_of (staged_sets d rows) c = (if c \<in> fst ` set rows then Some (set_of d rows c) else None)"
proof -
  have "map_of (map (\<lambda>c. (c, f c)) xs) c = (if c \<in> set xs then Some (f c) else None)" for f :: "uuid \<Rightarrow> nat list" and xs
    by (induction xs) auto
  then show ?thesis by (simp add: staged_sets_def)
qed

text \<open>The links, on components that were just copied.\<close>

lemma links_sets:
  assumes rows: "rows = symbol_rows flat syms" and fresh: "\<forall>c\<in>set (ib_components d). cw_id c \<in> fc_id ` set flat \<longrightarrow> cw_symbol_set c = None"
    and d1: "d1 = insert_symbols rows (insert_packages rows d)" and d2: "d2 = insert_sets (staged_sets d1 rows) d1"
  shows "symbols_linked flat syms d (link_sets (staged_sets d2 rows) d2)"
proof -
  let ?d3 = "link_sets (staged_sets d2 rows) d2"
  have tables: "ib_packages ?d3 = ib_packages d1" "ib_symbols ?d3 = ib_symbols d1" "ib_symbol_sets ?d3 = ib_symbol_sets d2"
    "ib_packages d2 = ib_packages d1" "ib_symbols d2 = ib_symbols d1" "ib_components d2 = ib_components d"
    "ib_symbol_sets d1 = ib_symbol_sets d"
    by (simp_all add: link_sets_def d2 insert_sets_def d1 insert_symbols_def insert_packages_def)
  note look = symbol_lookups [OF tables(1,2)] symbol_lookups [OF tables(4,5)]
  have digest: "set_with_digest ?d3 = set_with_digest d2" by (intro ext) (simp add: set_with_digest_def tables(3))
  have there: "set_with_digest d2 (goSymbolSetDigest (set_of d1 rows c)) \<noteq> None" if "c \<in> fst ` set rows" for c
  proof -
    have "(c, set_of d1 rows c) \<in> set (staged_sets d1 rows)" using that by (auto simp: staged_sets_def)
    then have "list_ex (\<lambda>r. fst (snd r) = goSymbolSetDigest (set_of d1 rows c)) (ib_symbol_sets d2)"
      unfolding d2 insert_sets_fold by (intro add_sets_all) blast
    then show ?thesis using found_map by (fastforce simp: set_with_digest_def)
  qed
  have linked: "if cw_id c \<in> fst ` set rows
      then cw_symbol_set c \<noteq> None \<and> cw_symbol_set c = set_with_digest d2 (goSymbolSetDigest (set_of d1 rows (cw_id c)))
      else cw_symbol_set c = None"
    if "c \<in> set (ib_components ?d3)" "cw_id c \<in> fc_id ` set flat" for c
  proof -
    from that(1) obtain c0 where c0: "c0 \<in> set (ib_components d)"
      "c = (case map_of (staged_sets d2 rows) (cw_id c0) of None \<Rightarrow> c0
            | Some ids \<Rightarrow> (case set_with_digest d2 (goSymbolSetDigest ids) of None \<Rightarrow> c0 | Some i \<Rightarrow> c0\<lparr>cw_symbol_set := Some i\<rparr>))"
      by (auto simp: link_sets_def tables(6))
    then have id: "cw_id c = cw_id c0" by (auto split: option.split)
    then have none: "cw_symbol_set c0 = None" using c0(1) that(2) fresh by simp
    show ?thesis
    proof (cases "cw_id c0 \<in> fst ` set rows")
      case True
      then obtain i where i: "set_with_digest d2 (goSymbolSetDigest (set_of d1 rows (cw_id c0))) = Some i"
        using there by blast
      have "c = c0\<lparr>cw_symbol_set := Some i\<rparr>"
        unfolding c0(2) map_of_staged if_P [OF True] option.case look(4) i by (rule refl)
      with True i show ?thesis by simp
    next
      case False
      have "c = c0" unfolding c0(2) map_of_staged if_not_P [OF False] option.case by (rule refl)
      with False none show ?thesis by simp
    qed
  qed
  have "ib_symbol_sets d2 = fold add_set (staged_sets d1 rows) (ib_symbol_sets d)"
    unfolding d2 insert_sets_fold tables(7) by (rule refl)
  then have "\<forall>s\<in>set (ib_symbol_sets ?d3) - set (ib_symbol_sets d). fst (snd s) = goSymbolSetDigest (snd (snd s))"
    unfolding tables(3) using add_sets_new by auto
  moreover have "\<forall>r\<in>set rows. row_symbol ?d3 r \<noteq> None"
    unfolding look(1) d1 using staged_symbols by blast
  ultimately show ?thesis
    using linked unfolding symbols_linked_def rows [symmetric] Let_def digest look(2) by blast
qed

lemma persistGoSymbols_runs:
  assumes "\<forall>c\<in>set (ib_components d). cw_id c \<in> fc_id ` set flat \<longrightarrow> cw_symbol_set c = None"
  shows "\<exists>d'. persistGoSymbols no_faults flat syms d = (Some (Inr ()), d') \<and> symbols_only d d' \<and> symbols_linked flat syms d d'"
proof (cases "symbol_rows flat syms = []")
  case False
  let ?rows = "symbol_rows flat syms"
  let ?d1 = "insert_symbols ?rows (insert_packages ?rows d)"
  let ?d2 = "insert_sets (staged_sets ?d1 ?rows) ?d1"
  let ?d3 = "link_sets (staged_sets ?d2 ?rows) ?d2"
  have "persistGoSymbols no_faults flat syms d = (Some (Inr ()), ?d3)"
    using False by (simp add: persistGoSymbols_def Let_def no_faults_def then_step_def stmt_quiet)
  moreover have "symbols_only d ?d3"
    using link_sets_unlinked [of "staged_sets ?d2 ?rows" ?d2]
    by (simp add: symbols_only_def insert_packages_def insert_symbols_def insert_sets_def link_sets_def)
  moreover have "symbols_linked flat syms d ?d3" by (rule links_sets [OF refl assms refl refl])
  ultimately show ?thesis by blast
qed (use assms in \<open>simp add: persistGoSymbols_def done_step_def symbols_only_def symbols_linked_def\<close>)

definition tables_kept :: "ingest_db \<Rightarrow> ingest_db \<Rightarrow> bool" where
  "tables_kept d d' \<longleftrightarrow>
     ib_hashes d' = ib_hashes d \<and> ib_refs d' = ib_refs d \<and> ib_sboms d' = ib_sboms d \<and>
     ib_artifacts d' = ib_artifacts d \<and> ib_artifact_ns d' = ib_artifact_ns d \<and> ib_sources d' = ib_sources d \<and>
     ib_jobs d' = ib_jobs d \<and> ib_dependencies d' = ib_dependencies d"

lemma symbols_only_tables:
  assumes "symbols_only d d'"
  shows "tables_kept d d'" and "ib_licenses d' = ib_licenses d"
    and "ib_component_licenses d' = ib_component_licenses d"
proof -
  obtain ps sy ss cs where "d' = d\<lparr>ib_packages := ps, ib_symbols := sy, ib_symbol_sets := ss, ib_components := cs\<rparr>"
    using assms unfolding symbols_only_def by blast
  then show "tables_kept d d'" and "ib_licenses d' = ib_licenses d"
    and "ib_component_licenses d' = ib_component_licenses d" by (simp_all add: tables_kept_def)
qed

lemma licenses_linked_tables:
  assumes "licenses_linked lc uc flat d d'"
  shows "tables_kept d d'" and "ib_components d' = ib_components d"
    and "ib_packages d' = ib_packages d \<and> ib_symbols d' = ib_symbols d \<and> ib_symbol_sets d' = ib_symbol_sets d"
proof -
  obtain ls cl where "d' = d\<lparr>ib_licenses := ls, ib_component_licenses := cl\<rparr>"
    using assms unfolding licenses_linked_def by blast
  then show "tables_kept d d'" and "ib_components d' = ib_components d"
    and "ib_packages d' = ib_packages d \<and> ib_symbols d' = ib_symbols d \<and> ib_symbol_sets d' = ib_symbol_sets d"
    by (simp_all add: tables_kept_def)
qed

lemma symbols_only_ids:
  assumes "symbols_only d d'"
  shows "map cw_id (ib_components d') = map cw_id (ib_components d)"
    and "has_component d' i = has_component d i"
proof -
  have "map cw_id (map unlinked (ib_components d')) = map cw_id (map unlinked (ib_components d))"
    using assms by (simp only: symbols_only_def)
  then show ids: "map cw_id (ib_components d') = map cw_id (ib_components d)" by (simp add: comp_def)
  have "has_component e i \<longleftrightarrow> i \<in> set (map cw_id (ib_components e))" for e
    by (auto simp: has_component_def list_ex_iff)
  with ids show "has_component d' i = has_component d i" by metis
qed

section \<open>The batch\<close>

definition batch_ready :: "(nat \<Rightarrow> uuid) \<Rightarrow> (string \<Rightarrow> uuid) \<Rightarrow> uuid \<Rightarrow> ingest_db \<Rightarrow> bool" where
  "batch_ready fresh new_id sbom d \<longleftrightarrow>
     has_sbom d sbom \<and> distinct (map cw_id (ib_components d)) \<and>
     list_all (\<lambda>c. cw_sbom c \<noteq> sbom) (ib_components d) \<and>
     (\<forall>n. fresh n \<notin> set (map cw_id (ib_components d)) \<and> fresh n \<notin> fst ` set (ib_component_licenses d)) \<and>
     lic_ok (ib_licenses d) \<and> (\<forall>k. new_id k \<notin> set (map li_id (ib_licenses d))) \<and>
     distinct (ib_component_licenses d)"

definition flat_ids_ok :: "(nat \<Rightarrow> uuid) \<Rightarrow> flat_component list \<Rightarrow> bool" where
  "flat_ids_ok fresh flat \<longleftrightarrow> distinct (map fc_id flat) \<and> fc_id ` set flat \<subseteq> range fresh \<and> parents_earlier None flat"

lemma flatten_ids_ok:
  assumes "inj_on fresh {..<component_count cs}"
  shows "flat_ids_ok fresh (flattenComponents fresh cs None main sv)"
proof -
  let ?flat = "flattenComponents fresh cs None main sv"
  have "fc_id ` set ?flat = set (map fc_id ?flat)" by simp
  then have "fc_id ` set ?flat \<subseteq> range fresh" unfolding flatten_ids by auto
  then show ?thesis
    using flatten_distinct [OF assms] flatten_parents by (simp add: flat_ids_ok_def)
qed

text \<open>The license keys of a document.\<close>

definition document_keys :: "case_map \<Rightarrow> case_map \<Rightarrow> component list \<Rightarrow> string set" where
  "document_keys lc uc cs =
     {k. \<exists>c\<in>set (concat (map preorder cs)). \<exists>choice\<in>set (c_licenses c). k \<in> choice_keys lc uc choice}"

lemma flat_keys:
  "{k. \<exists>fc\<in>set (flattenComponents fresh cs None main sv). names_key lc uc fc k} = document_keys lc uc cs"
proof -
  have "set (map fc_comp (flattenComponents fresh cs None main sv)) = set (concat (map preorder cs))"
    unfolding flatten_comps ..
  then have P: "set (concat (map preorder cs)) = fc_comp ` set (flattenComponents fresh cs None main sv)" by simp
  show ?thesis unfolding document_keys_def names_key_def P by (simp only: bex_simps)
qed

lemma row_of_simps [simp]:
  "cw_id (component_row_of sbom flavor fc) = fc_id fc"
  "cw_sbom (component_row_of sbom flavor fc) = sbom"
  "cw_parent (component_row_of sbom flavor fc) = fc_parent fc"
  "cw_symbol_set (component_row_of sbom flavor fc) = None"
  by (simp_all add: component_row_of_def Let_def case_prod_unfold)

lemma copy_components_runs:
  assumes ready: "batch_ready fresh new_id sbom d" and flat: "flat_ids_ok fresh flat"
  shows "copy_components (map (component_row_of sbom flavor) flat) d =
           (Inr (), d\<lparr>ib_components := ib_components d @ map (component_row_of sbom flavor) flat\<rparr>)"
proof -
  let ?rows = "map (component_row_of sbom flavor) flat"
  have ids: "map cw_id ?rows = map fc_id flat" by simp
  have "set (map cw_id (ib_components d)) \<inter> range fresh = {}"
    using ready unfolding batch_ready_def by blast
  then have "set (map cw_id (ib_components d)) \<inter> fc_id ` set flat = {}"
    using flat unfolding flat_ids_ok_def by blast
  then have distinct: "distinct (map cw_id (ib_components d @ ?rows))"
    using ready flat by (auto simp: batch_ready_def flat_ids_ok_def comp_def)
  have parent: "p \<in> set (map cw_id (ib_components d @ ?rows))" if "fc \<in> set flat" "fc_parent fc = Some p" for fc p
  proof -
    from that(1) obtain i where i: "i < length flat" "flat ! i = fc" by (auto simp: in_set_conv_nth)
    have "parents_earlier None flat" using flat by (simp add: flat_ids_ok_def)
    with i that(2) obtain j where "j < i" "p = fc_id (flat ! j)"
      unfolding parents_earlier_def by (metis option.distinct(1) option.inject)
    with i have "p \<in> set (map fc_id flat)" by simp
    then show ?thesis unfolding ids [symmetric] by simp
  qed
  have "\<not> list_ex (\<lambda>r. \<not> has_sbom d (cw_sbom r) \<or>
      (case cw_parent r of Some p \<Rightarrow> \<not> List.member (map cw_id (ib_components d @ ?rows)) p | None \<Rightarrow> False)) ?rows"
  proof
    assume "list_ex (\<lambda>r. \<not> has_sbom d (cw_sbom r) \<or>
      (case cw_parent r of Some p \<Rightarrow> \<not> List.member (map cw_id (ib_components d @ ?rows)) p | None \<Rightarrow> False)) ?rows"
    then obtain fc where fc: "fc \<in> set flat" and bad: "\<not> has_sbom d sbom \<or>
      (case fc_parent fc of Some p \<Rightarrow> \<not> List.member (map cw_id (ib_components d @ ?rows)) p | None \<Rightarrow> False)"
      unfolding list_ex_iff by fastforce
    from ready have "has_sbom d sbom" by (simp add: batch_ready_def)
    with bad obtain p where "fc_parent fc = Some p" "p \<notin> set (map cw_id (ib_components d @ ?rows))"
      by (cases "fc_parent fc") auto
    with parent [OF fc] show False by blast
  qed
  with distinct show ?thesis by (simp only: copy_components_def Let_def if_False if_True simp_thms)
qed

text \<open>The content of an SBOM is in the tables: its components in the order of the document, with their hashes,
  references, licenses and Go symbols.\<close>

definition stored ::
    "case_map \<Rightarrow> case_map \<Rightarrow> uuid \<Rightarrow> string \<Rightarrow> flat_component list \<Rightarrow> symbol_table option list \<Rightarrow> ingest_db \<Rightarrow> ingest_db \<Rightarrow>
     bool" where
  "stored lc uc sbom flavor flat syms d d' \<longleftrightarrow>
     map unlinked (filter (\<lambda>c. cw_sbom c = sbom) (ib_components d')) = map (component_row_of sbom flavor) flat \<and>
     ib_hashes d' = ib_hashes d @ hash_rows flat \<and> ib_refs d' = ib_refs d @ ref_rows flat \<and>
     (\<forall>fc\<in>set flat. \<forall>k. (\<exists>i. (fc_id fc, i) \<in> set (ib_component_licenses d') \<and> lic_is (ib_licenses d') i k) \<longleftrightarrow>
        names_key lc uc fc k) \<and>
     symbols_linked flat syms d d'"

definition rest_kept :: "ingest_db \<Rightarrow> ingest_db \<Rightarrow> bool" where
  "rest_kept d d' \<longleftrightarrow>
     ib_sboms d' = ib_sboms d \<and> ib_artifacts d' = ib_artifacts d \<and> ib_artifact_ns d' = ib_artifact_ns d \<and>
     ib_sources d' = ib_sources d \<and> ib_jobs d' = ib_jobs d \<and> ib_dependencies d' = ib_dependencies d"

lemma stored_cong:
  assumes "stored lc uc sbom flavor flat syms e e'"
    and "ib_hashes d = ib_hashes e" "ib_refs d = ib_refs e" "ib_symbol_sets d = ib_symbol_sets e"
    and "ib_components d' = ib_components e'" "ib_hashes d' = ib_hashes e'" "ib_refs d' = ib_refs e'"
    and "ib_component_licenses d' = ib_component_licenses e'" "ib_licenses d' = ib_licenses e'"
    and "ib_packages d' = ib_packages e'" "ib_symbols d' = ib_symbols e'" "ib_symbol_sets d' = ib_symbol_sets e'"
  shows "stored lc uc sbom flavor flat syms d d'"
  using assms symbols_linked_cong [of d' e' d e flat syms] by (simp add: stored_def)

lemma stored_nothing:
  "filter (\<lambda>c. cw_sbom c = sbom) (ib_components d) = [] \<Longrightarrow> stored lc uc sbom flavor [] syms d d"
  by (simp add: stored_def hash_rows_def ref_rows_def symbols_linked_def symbol_rows_def)

text \<open>The three copies, as one step of the tables.\<close>

definition copied :: "uuid \<Rightarrow> string \<Rightarrow> flat_component list \<Rightarrow> ingest_db \<Rightarrow> ingest_db" where
  "copied sbom flavor flat d =
     d\<lparr>ib_components := ib_components d @ map (component_row_of sbom flavor) flat,
       ib_hashes := ib_hashes d @ hash_rows flat, ib_refs := ib_refs d @ ref_rows flat\<rparr>"

lemma has_component_rows:
  "fc \<in> set flat \<Longrightarrow>
   has_component (d\<lparr>ib_components := ib_components d @ map (component_row_of sbom flavor) flat\<rparr>) (fc_id fc)"
  unfolding has_component_def list_ex_iff
  by (rule bexI [of _ "component_row_of sbom flavor fc"]) simp_all

lemma copies_run:
  assumes ready: "batch_ready fresh new_id sbom d" and flat: "flat_ids_ok fresh flat"
  shows "then_step (stmt_step (no_faults CallComponents) m1 (copy_components (map (component_row_of sbom flavor) flat))) (\<lambda>_.
         then_step (if hash_rows flat = [] then done_step () else stmt_step (no_faults CallHashes) m2 (copy_hashes (hash_rows flat))) (\<lambda>_.
         then_step (if ref_rows flat = [] then done_step () else stmt_step (no_faults CallRefs) m3 (copy_refs (ref_rows flat)))
           f)) d = f () (copied sbom flavor flat d)"
proof -
  let ?d1 = "d\<lparr>ib_components := ib_components d @ map (component_row_of sbom flavor) flat\<rparr>"
  let ?d2 = "?d1\<lparr>ib_hashes := ib_hashes d @ hash_rows flat\<rparr>"
  have "\<not> list_ex (\<lambda>h. \<not> has_component ?d1 (fst h)) (hash_rows flat)"
    using has_component_rows by (fastforce simp: hash_rows_def list_ex_iff)
  then have hashes: "copy_hashes (hash_rows flat) ?d1 = (Inr (), ?d2)" by (simp add: copy_hashes_def)
  have "has_component ?d2 = has_component ?d1" by (intro ext) (simp add: has_component_def)
  then have "\<not> list_ex (\<lambda>r. \<not> has_component ?d2 (fst r)) (ref_rows flat)"
    using has_component_rows by (fastforce simp: ref_rows_def list_ex_iff)
  then have refs: "copy_refs (ref_rows flat) ?d2 = (Inr (), copied sbom flavor flat d)"
    by (simp add: copy_refs_def copied_def)
  have refs': "(if ref_rows flat = [] then done_step () else stmt_step None m3 (copy_refs (ref_rows flat))) ?d2 =
      (Some (Inr ()), copied sbom flavor flat d)"
    using refs by (simp add: done_step_def stmt_step_def copied_def)
  have hashes': "(if hash_rows flat = [] then done_step () else stmt_step None m2 (copy_hashes (hash_rows flat))) ?d1 =
      (Some (Inr ()), ?d2)"
    using hashes by (simp add: done_step_def stmt_step_def)
  show ?thesis
    unfolding then_step_def no_faults_def
    by (simp only: stmt_step_def [of None m1] run_stmt_None copy_components_runs [OF ready flat] prod.case sum.case
        option.case hashes' refs')
qed

lemma copied_unlinked:
  assumes ready: "batch_ready fresh new_id sbom d" and flat: "flat_ids_ok fresh flat"
  shows "\<forall>c\<in>set (ib_components (copied sbom flavor flat d)). cw_id c \<in> fc_id ` set flat \<longrightarrow> cw_symbol_set c = None"
proof -
  have "set (map cw_id (ib_components d)) \<inter> range fresh = {}"
    using ready unfolding batch_ready_def by blast
  then have "set (map cw_id (ib_components d)) \<inter> fc_id ` set flat = {}"
    using flat unfolding flat_ids_ok_def by blast
  then have "cw_id c \<notin> fc_id ` set flat" if "c \<in> set (ib_components d)" for c using that by auto
  moreover have "cw_symbol_set c = None" if "c \<in> set (map (component_row_of sbom flavor) flat)" for c
    using that by auto
  ultimately show ?thesis unfolding copied_def by auto
qed

lemma copied_ready:
  assumes ready: "batch_ready fresh new_id sbom d" and flat: "flat_ids_ok fresh flat"
    and sym: "symbols_only (copied sbom flavor flat d) d1"
  shows "licenses_ready new_id flat d1"
proof -
  have same: "ib_licenses d1 = ib_licenses d" "ib_component_licenses d1 = ib_component_licenses d"
    using symbols_only_tables [OF sym] by (simp_all add: copied_def)
  have "has_component d1 (fc_id fc)" if "fc \<in> set flat" for fc
    using has_component_rows [OF that, of d sbom flavor] symbols_only_ids(2) [OF sym]
    by (simp add: copied_def has_component_def)
  moreover have "fc_id fc \<notin> fst ` set (ib_component_licenses d1)" if "fc \<in> set flat" for fc
  proof -
    from that flat obtain n where n: "fc_id fc = fresh n" unfolding flat_ids_ok_def by blast
    show ?thesis using ready unfolding same batch_ready_def n by simp
  qed
  ultimately show ?thesis using ready unfolding licenses_ready_def same batch_ready_def by blast
qed

lemma filter_unlinked:
  assumes "map unlinked xs = map unlinked ys"
  shows "map unlinked (filter (\<lambda>c. cw_sbom c = s) xs) = map unlinked (filter (\<lambda>c. cw_sbom c = s) ys)"
proof -
  have "map unlinked (filter (\<lambda>c. cw_sbom c = s) zs) = filter (\<lambda>c. cw_sbom c = s) (map unlinked zs)" for zs
    by (induction zs) auto
  with assms show ?thesis by simp
qed

lemma unlinked_row [simp]: "unlinked (component_row_of sbom flavor fc) = component_row_of sbom flavor fc"
  by (rule stored_component.equality) simp_all

lemma batch_runs:
  assumes len: "\<And>s. length (lc s) = length s" "\<And>s. length (uc s) = length s"
    and inj: "inj_on fresh {..<component_count cs}" "inj_on new_id (document_keys lc uc cs)" and ready: "batch_ready fresh new_id sbom d"
  shows "\<exists>d'. insertComponentsBatch no_faults fresh new_id lc uc sbom cs main sv flavor syms d = (Some (Inr ()), d') \<and>
           stored lc uc sbom flavor (flattenComponents fresh cs None main sv) syms d d' \<and> rest_kept d d'"
proof -
  define flat where "flat = flattenComponents fresh cs None main sv"
  have ids: "flat_ids_ok fresh flat" unfolding flat_def by (rule flatten_ids_ok [OF inj(1)])
  have none: "filter (\<lambda>c. cw_sbom c = sbom) (ib_components d) = []"
    using ready by (simp add: batch_ready_def list_all_iff filter_empty_conv)
  show ?thesis
  proof (cases "flat = []")
    case True
    then have "insertComponentsBatch no_faults fresh new_id lc uc sbom cs main sv flavor syms d = (Some (Inr ()), d)"
      by (simp add: insertComponentsBatch_def flat_def [symmetric] done_step_def Let_def)
    moreover have "stored lc uc sbom flavor flat syms d d" "rest_kept d d"
      using True stored_nothing [OF none] by (simp_all add: rest_kept_def)
    ultimately show ?thesis unfolding flat_def by blast
  next
    case False
    let ?d1 = "copied sbom flavor flat d"
    obtain d2 where sym: "persistGoSymbols no_faults flat syms ?d1 = (Some (Inr ()), d2)"
      and only: "symbols_only ?d1 d2" and symbols: "symbols_linked flat syms ?d1 d2"
      using persistGoSymbols_runs [OF copied_unlinked [OF ready ids]] by blast
    obtain d3 where lic: "copyComponentLicenses no_faults new_id lc uc flat d2 = (Some (Inr ()), d3)"
      and linked: "licenses_linked lc uc flat d2 d3"
      using copyComponentLicenses_runs [OF len inj(2) [folded flat_keys [of fresh cs main sv lc uc], folded flat_def] copied_ready [OF ready ids only]] by blast
    have run: "insertComponentsBatch no_faults fresh new_id lc uc sbom cs main sv flavor syms d = (Some (Inr ()), d3)"
      unfolding insertComponentsBatch_def flat_def [symmetric] Let_def
      using False by (simp add: copies_run [OF ready ids] then_step_def [of "persistGoSymbols no_faults flat syms"] sym lic)
    note comps = licenses_linked_tables(2) [OF linked]
    have "map unlinked (filter (\<lambda>c. cw_sbom c = sbom) (ib_components d3)) =
        map unlinked (filter (\<lambda>c. cw_sbom c = sbom) (ib_components ?d1))"
      unfolding comps by (rule filter_unlinked) (use only in \<open>simp add: symbols_only_def\<close>)
    also have "\<dots> = map (component_row_of sbom flavor) flat"
      by (simp add: copied_def none filter_map comp_def)
    finally have rows: "map unlinked (filter (\<lambda>c. cw_sbom c = sbom) (ib_components d3)) =
        map (component_row_of sbom flavor) flat" .
    have distinct: "fc' = fc" if "fc \<in> set flat" "fc' \<in> set flat" "fc_id fc = fc_id fc'" for fc fc'
      using ids that by (auto simp: flat_ids_ok_def distinct_map dest: inj_onD)
    have links: "(\<exists>i. (fc_id fc, i) \<in> set (ib_component_licenses d3) \<and> lic_is (ib_licenses d3) i k) \<longleftrightarrow>
        names_key lc uc fc k" if "fc \<in> set flat" for fc k
      using linked that distinct unfolding licenses_linked_def by metis
    have "symbols_linked flat syms d d3"
      using symbols symbols_linked_cong [of d3 d2 d ?d1 flat syms] licenses_linked_tables(2,3) [OF linked]
      by (simp add: copied_def)
    then have "stored lc uc sbom flavor flat syms d d3" "rest_kept d d3"
      using symbols_only_tables(1) [OF only] licenses_linked_tables(1) [OF linked] rows links
      by (simp_all add: stored_def rest_kept_def tables_kept_def copied_def)
    with run show ?thesis unfolding flat_def by blast
  qed
qed

end
