(* ===== verification/SbomStored.thy ===== *)
theory SbomStored
  imports SbomBatch
begin

text \<open>
  What a successful ingest leaves in the tables, and that an ingest of a complete document with unused
  identifiers is successful.
\<close>

section \<open>Preconditions\<close>

definition ids_distinct :: "ingest_env \<Rightarrow> bom \<Rightarrow> bool" where
  "ids_distinct env b \<longleftrightarrow>
     (case bom_components b of
        None \<Rightarrow> True
      | Some cs \<Rightarrow> inj_on (ie_component_id env) {..<component_count cs} \<and>
                   inj_on (ie_license_id env) (document_keys (ie_lc env) (ie_uc env) cs))"

definition ids_unused :: "ingest_env \<Rightarrow> ingest_db \<Rightarrow> bool" where
  "ids_unused env d \<longleftrightarrow>
     list_all (\<lambda>a. at_id a \<noteq> ie_artifact_id env) (ib_artifacts d) \<and>
     list_all (\<lambda>s. ps_id s \<noteq> ie_sbom_id env) (ib_sboms d) \<and>
     list_all (\<lambda>c. cw_sbom c \<noteq> ie_sbom_id env) (ib_components d) \<and>
     (\<forall>n. ie_component_id env n \<notin> set (map cw_id (ib_components d)) \<and>
          ie_component_id env n \<notin> fst ` set (ib_component_licenses d)) \<and>
     (\<forall>k. ie_license_id env k \<notin> set (map li_id (ib_licenses d)))"

definition tables_ok :: "ingest_db \<Rightarrow> bool" where
  "tables_ok d \<longleftrightarrow> distinct (map cw_id (ib_components d)) \<and> lic_ok (ib_licenses d) \<and>
     distinct (ib_component_licenses d)"

definition case_maps_ok :: "ingest_env \<Rightarrow> bool" where
  "case_maps_ok env \<longleftrightarrow> (\<forall>s. length (ie_lc env s) = length s) \<and> (\<forall>s. length (ie_uc env s) = length s)"

text \<open>The artifact information of a document, up to the artifact's identifier.\<close>

definition info_of :: "bom \<Rightarrow> ingest_params \<Rightarrow> uuid \<Rightarrow> artifactInfo" where
  "info_of b params art =
     \<lparr>ai_artifact = Some art, ai_version = resolveSubjectVersion b params,
      ai_digest = snd (subject_name_digest b params), ai_type = si_type (resolveSubjectIdentity b params)\<rparr>"

lemma info_simps [simp]:
  "ai_artifact (info_of b params art) = Some art" "ai_version (info_of b params art) = resolveSubjectVersion b params"
  "ai_digest (info_of b params art) = snd (subject_name_digest b params)"
  by (simp_all add: info_of_def)

definition document_ok :: "bom \<Rightarrow> ingest_params \<Rightarrow> bool" where
  "document_ok b params \<longleftrightarrow>
     (subject_of b \<noteq> None \<or> ip_subject_name params \<noteq> []) \<and>
     (si_type (resolveSubjectIdentity b params) = container \<longrightarrow> snd (subject_name_digest b params) \<noteq> None) \<and>
     (\<forall>art. validateContainerRequired b (info_of b params art) (resolveArchitecture b params)
              (resolveBuildDate b params) = Inr () \<and>
            validateUploadRequired (info_of b params art) params = Inr ())"

definition artifact_named :: "bom \<Rightarrow> ingest_params \<Rightarrow> artifact_row \<Rightarrow> bool" where
  "artifact_named b params a \<longleftrightarrow>
     (let subj = resolveSubjectIdentity b params in
      same_artifact (si_type subj) (fst (subject_name_digest b params)) (textOrNull (si_group subj)) a)"

section \<open>The artifact\<close>

lemma same_artifact_update [simp]:
  "same_artifact t n g (r\<lparr>at_purl := p, at_cpe := c\<rparr>) = same_artifact t n g r"
  by (simp add: same_artifact_def)

lemma UpsertArtifact_runs:
  assumes "list_all (\<lambda>a. at_id a \<noteq> at_id p) (ib_artifacts d)"
  shows "\<exists>art d'. UpsertArtifact p d = (Inr art, d') \<and> d' = d\<lparr>ib_artifacts := ib_artifacts d'\<rparr> \<and>
           (\<exists>a\<in>set (ib_artifacts d'). at_id a = art \<and> same_artifact (at_type p) (at_name p) (at_group p) a)"
proof (cases "find (same_artifact (at_type p) (at_name p) (at_group p)) (ib_artifacts d)")
  case None
  have "\<not> list_ex (\<lambda>a. at_id a = at_id p) (ib_artifacts d)"
    using assms by (auto simp: list_ex_iff list_all_iff)
  with None show ?thesis by (simp add: UpsertArtifact_def same_artifact_def)
next
  case (Some a)
  from find_SomeD [OF this] have a: "a \<in> set (ib_artifacts d)" "same_artifact (at_type p) (at_name p) (at_group p) a"
    by auto
  let ?f = "\<lambda>r. r\<lparr>at_purl := coalesce_opt (at_purl p) (at_purl r), at_cpe := coalesce_opt (at_cpe p) (at_cpe r)\<rparr>"
  have "?f a \<in> set (update_where (same_artifact (at_type p) (at_name p) (at_group p)) ?f (ib_artifacts d))"
    by (rule update_where_in) (rule a)+
  moreover have "at_id (?f a) = at_id a \<and> same_artifact (at_type p) (at_name p) (at_group p) (?f a)"
    using a(2) by simp
  ultimately have "\<exists>r\<in>set (update_where (same_artifact (at_type p) (at_name p) (at_group p)) ?f (ib_artifacts d)).
      at_id r = at_id a \<and> same_artifact (at_type p) (at_name p) (at_group p) r" by blast
  with Some show ?thesis by (simp add: UpsertArtifact_def)
qed

lemma ensureArtifact_runs:
  assumes "list_all (\<lambda>a. at_id a \<noteq> at_id p) (ib_artifacts d)"
  shows "\<exists>art d'. ensureArtifact no_faults p d = (Some (Inr art), d') \<and> d' = d\<lparr>ib_artifacts := ib_artifacts d'\<rparr> \<and>
           (\<exists>a\<in>set (ib_artifacts d'). at_id a = art \<and> same_artifact (at_type p) (at_name p) (at_group p) a)"
proof -
  obtain art d' where up: "UpsertArtifact p d = (Inr art, d')" "d' = d\<lparr>ib_artifacts := ib_artifacts d'\<rparr>"
    "\<exists>a\<in>set (ib_artifacts d'). at_id a = art \<and> same_artifact (at_type p) (at_name p) (at_group p) a"
    using UpsertArtifact_runs [OF assms] by blast
  have run: "stmt_step (no_faults CallUpsertArtifact) msg (UpsertArtifact p) d = (Some (Inr art), d')" for msg
    by (simp add: stmt_step_def no_faults_def up(1))
  show ?thesis
  proof (cases "find (same_artifact (at_type p) (at_name p) (at_group p)) (ib_artifacts d)")
    case None
    then have "ensureArtifact no_faults p d = (Some (Inr art), d')"
      using run by (simp add: ensureArtifact_def GetArtifactByIdentity_def no_faults_def)
    with up(2,3) show ?thesis by blast
  next
    case (Some row)
    show ?thesis
    proof (cases "unchanged (at_purl p) (at_purl row) \<and> unchanged (at_cpe p) (at_cpe row)")
      case True
      with Some have "ensureArtifact no_faults p d = (Some (Inr (at_id row)), d)"
        by (simp add: ensureArtifact_def GetArtifactByIdentity_def no_faults_def done_step_def)
      with find_SomeD [OF Some] show ?thesis by auto
    next
      case False
      with Some have "ensureArtifact no_faults p d = (Some (Inr art), d')"
        using run by (auto simp: ensureArtifact_def GetArtifactByIdentity_def no_faults_def)
      with up(2,3) show ?thesis by blast
    qed
  qed
qed

lemma resolveArtifact_runs:
  assumes "ie_flt env = no_faults" and "ids_unused env d" and "document_ok b params"
  shows "\<exists>art d'. resolveArtifact env b params d = (Some (Inr (info_of b params art)), d') \<and>
           d' = d\<lparr>ib_artifacts := ib_artifacts d'\<rparr> \<and>
           (\<exists>a\<in>set (ib_artifacts d'). at_id a = art \<and> artifact_named b params a)"
proof -
  let ?subj = "resolveSubjectIdentity b params"
  obtain name digest where nd: "subject_name_digest b params = (name, digest)" by fastforce
  let ?p = "\<lparr>at_id = ie_artifact_id env, at_type = si_type ?subj, at_name = name,
     at_group = textOrNull (si_group ?subj), at_purl = textOrNull (si_purl ?subj), at_cpe = textOrNull (si_cpe ?subj)\<rparr>"
  have "list_all (\<lambda>a. at_id a \<noteq> at_id ?p) (ib_artifacts d)" using assms(2) by (simp add: ids_unused_def)
  then obtain art d' where run: "ensureArtifact no_faults ?p d = (Some (Inr art), d')"
    and rest: "d' = d\<lparr>ib_artifacts := ib_artifacts d'\<rparr>"
      "\<exists>a\<in>set (ib_artifacts d'). at_id a = art \<and> same_artifact (at_type ?p) (at_name ?p) (at_group ?p) a"
    using ensureArtifact_runs [of ?p d] by blast
  have "resolveArtifact env b params d = (Some (Inr (info_of b params art)), d')"
    using assms(3) by (auto simp: resolveArtifact_def Let_def nd assms(1) document_ok_def then_step_def run
        done_step_def info_of_def)
  moreover have "\<exists>a\<in>set (ib_artifacts d'). at_id a = art \<and> artifact_named b params a"
    using rest(2) by (simp add: artifact_named_def nd Let_def)
  ultimately show ?thesis using rest(1) by blast
qed

section \<open>Dependencies\<close>

lemma each_dependency:
  "has_sbom d sbom \<Longrightarrow>
   each_step (\<lambda>(n, ref, target). stmt_step (no_faults (CallDependency n)) msg (InsertDependency sbom ref target))
     (enumerate k rows) d =
   (Some (Inr ()), d\<lparr>ib_dependencies := ib_dependencies d @ map (Pair sbom) rows\<rparr>)"
proof (induction rows arbitrary: k d)
  case (Cons r rows)
  obtain ref target where r: "r = (ref, target)" by fastforce
  have "has_sbom (d\<lparr>ib_dependencies := ib_dependencies d @ [(sbom, ref, target)]\<rparr>) sbom"
    using Cons.prems by (simp add: has_sbom_def)
  from Cons.IH [OF this, of "Suc k"] Cons.prems show ?case
    by (simp add: r then_step_def stmt_step_def InsertDependency_def no_faults_def)
qed (simp add: done_step_def)

lemma insertDependencies_runs:
  "has_sbom d sbom \<Longrightarrow>
   insertDependencies no_faults sbom deps d =
     (Some (Inr ()), d\<lparr>ib_dependencies := ib_dependencies d @ map (Pair sbom) (dependency_rows deps)\<rparr>)"
  by (simp add: insertDependencies_def each_dependency)

section \<open>The transaction\<close>

text \<open>The tables after an ingest, given what they were.\<close>

definition document_flat :: "ingest_env \<Rightarrow> bom \<Rightarrow> ingest_params \<Rightarrow> flat_component list" where
  "document_flat env b params =
     (case bom_components b of
        None \<Rightarrow> []
      | Some cs \<Rightarrow> flattenComponents (ie_component_id env) cs None (ExtractPath b) (coalesce (resolveSubjectVersion b params)))"

definition ingested ::
    "ingest_env \<Rightarrow> bom \<Rightarrow> string \<Rightarrow> ingest_params \<Rightarrow> symbol_table option list \<Rightarrow> uuid \<Rightarrow> uuid \<Rightarrow> ingest_db \<Rightarrow> ingest_db \<Rightarrow>
     bool" where
  "ingested env b raw params syms ns art d d' \<longleftrightarrow>
     (let sbom = ie_sbom_id env in
      ib_sboms d' = ib_sboms d @ [sbom_row_of env b raw params ns (info_of b params art)] \<and>
      (\<exists>a\<in>set (ib_artifacts d'). at_id a = art \<and> artifact_named b params a) \<and>
      set (ib_artifact_ns d') = insert (art, ns) (set (ib_artifact_ns d)) \<and>
      stored (ie_lc env) (ie_uc env) sbom (DetectFlavor b (coalesce (resolveSubjectVersion b params)))
        (document_flat env b params) syms d d' \<and>
      ib_dependencies d' = ib_dependencies d @ map (Pair sbom) (dependency_rows (bom_dependencies b)) \<and>
      ib_jobs d' = ib_jobs d \<and> ib_sources d' = ib_sources d)"

lemma content_runs:
  assumes flt: "ie_flt env = no_faults" and maps: "case_maps_ok env" and inj: "ids_distinct env b"
    and ready: "batch_ready (ie_component_id env) (ie_license_id env) sbom d"
    and sv: "sv = coalesce (resolveSubjectVersion b params)"
  shows "\<exists>d'. insertBOMContent env sbom b sv flavor syms d = (Some (Inr ()), d') \<and>
     stored (ie_lc env) (ie_uc env) sbom flavor (document_flat env b params) syms d d' \<and>
     ib_dependencies d' = ib_dependencies d @ map (Pair sbom) (dependency_rows (bom_dependencies b)) \<and>
     ib_sboms d' = ib_sboms d \<and> ib_artifacts d' = ib_artifacts d \<and> ib_artifact_ns d' = ib_artifact_ns d \<and>
     ib_sources d' = ib_sources d \<and> ib_jobs d' = ib_jobs d"
proof (cases "bom_components b")
  case None
  let ?d' = "d\<lparr>ib_dependencies := ib_dependencies d @ map (Pair sbom) (dependency_rows (bom_dependencies b))\<rparr>"
  have "filter (\<lambda>c. cw_sbom c = sbom) (ib_components d) = []"
    using ready by (simp add: batch_ready_def list_all_iff filter_empty_conv)
  from stored_cong [OF stored_nothing [OF this], of d ?d']
  have "stored (ie_lc env) (ie_uc env) sbom flavor (document_flat env b params) syms d ?d'"
    by (simp add: document_flat_def None)
  moreover have "has_sbom d sbom" using ready by (simp add: batch_ready_def)
  ultimately show ?thesis
    using None by (simp add: insertBOMContent_def then_step_def done_step_def flt insertDependencies_runs)
next
  case (Some cs)
  have len: "length (ie_lc env s) = length s" "length (ie_uc env s) = length s" for s
    using maps by (simp_all add: case_maps_ok_def)
  have distinct: "inj_on (ie_component_id env) {..<component_count cs}"
    "inj_on (ie_license_id env) (document_keys (ie_lc env) (ie_uc env) cs)"
    using inj Some by (simp_all add: ids_distinct_def)
  obtain d1 where run: "insertComponentsBatch no_faults (ie_component_id env) (ie_license_id env) (ie_lc env)
      (ie_uc env) sbom cs (ExtractPath b) sv flavor syms d = (Some (Inr ()), d1)"
    and st: "stored (ie_lc env) (ie_uc env) sbom flavor (document_flat env b params) syms d d1" and rest: "rest_kept d d1"
    using batch_runs [of "ie_lc env" "ie_uc env", OF len distinct ready, of "ExtractPath b" sv] Some
    by (auto simp: document_flat_def sv)
  let ?d' = "d1\<lparr>ib_dependencies := ib_dependencies d1 @ map (Pair sbom) (dependency_rows (bom_dependencies b))\<rparr>"
  have "has_sbom d1 sbom" using ready rest by (simp add: batch_ready_def rest_kept_def has_sbom_def)
  moreover have "stored (ie_lc env) (ie_uc env) sbom flavor (document_flat env b params) syms d ?d'"
    using stored_cong [OF st, of d ?d'] by simp
  ultimately show ?thesis
    using run rest Some by (simp add: insertBOMContent_def then_step_def flt insertDependencies_runs rest_kept_def)
qed

lemma insert_sbom_runs:
  assumes "\<not> list_ex (sbom_conflicts new) (ib_sboms d)" and "\<exists>a\<in>set (ib_artifacts d). at_id a = art"
    and "ps_artifact new = Some art" and "ps_source new = Some src" and "map_of (ib_sources d) src = Some ns"
  shows "InsertSBOM new d = (Inr (ps_id new), d\<lparr>ib_sboms := ib_sboms d @ [new]\<rparr>)"
  using assms by (auto simp: InsertSBOM_def list_ex_iff)

lemma link_runs:
  "stmt_step (no_faults c) msg (UpsertArtifactNamespace art ns) d =
     (Some (Inr ()), snd (UpsertArtifactNamespace art ns d))"
  "set (ib_artifact_ns (snd (UpsertArtifactNamespace art ns d))) = insert (art, ns) (set (ib_artifact_ns d))"
  "\<exists>l. snd (UpsertArtifactNamespace art ns d) = d\<lparr>ib_artifact_ns := l\<rparr>"
proof -
  show "\<exists>l. snd (UpsertArtifactNamespace art ns d) = d\<lparr>ib_artifact_ns := l\<rparr>"
    by (rule exI [of _ "ib_artifact_ns (snd (UpsertArtifactNamespace art ns d))"])
       (simp add: UpsertArtifactNamespace_def)
qed (auto simp: stmt_step_def no_faults_def UpsertArtifactNamespace_def)

definition ingest_ready :: "ingest_env \<Rightarrow> bom \<Rightarrow> string \<Rightarrow> ingest_params \<Rightarrow> uuid \<Rightarrow> ingest_db \<Rightarrow> bool" where
  "ingest_ready env b raw params ns d \<longleftrightarrow>
     ie_flt env = no_faults \<and> case_maps_ok env \<and> tables_ok d \<and> ids_distinct env b \<and> ids_unused env d \<and> document_ok b params \<and>
     (\<exists>src. ip_source params = Some src \<and> map_of (ib_sources d) src = Some ns) \<and>
     (\<forall>art. \<not> list_ex (sbom_conflicts (sbom_row_of env b raw params ns (info_of b params art))) (ib_sboms d))"

lemma sbom_row_simps [simp]:
  "ps_id (sbom_row_of env b raw params ns info) = ie_sbom_id env"
  "ps_artifact (sbom_row_of env b raw params ns info) = ai_artifact info"
  "ps_source (sbom_row_of env b raw params ns info) = ip_source params"
  "ps_namespace (sbom_row_of env b raw params ns info) = ns"
  "ps_digest (sbom_row_of env b raw params ns info) = ai_digest info"
  by (simp_all add: sbom_row_of_def)

lemma batch_ready_after:
  assumes "tables_ok d" "ids_unused env d" and "has_sbom d2 (ie_sbom_id env)"
    and "ib_components d2 = ib_components d" "ib_licenses d2 = ib_licenses d"
    and "ib_component_licenses d2 = ib_component_licenses d"
  shows "batch_ready (ie_component_id env) (ie_license_id env) (ie_sbom_id env) d2"
  using assms by (simp add: batch_ready_def tables_ok_def ids_unused_def)

lemma ingest_tx_runs:
  assumes ready: "ingest_ready env b raw params ns d"
  shows "\<exists>art d'. ingest_tx env b raw params ns syms d =
           (Some (Inr (ie_sbom_id env, info_of b params art)), d') \<and> ingested env b raw params syms ns art d d'"
proof -
  have flt: "ie_flt env = no_faults" and ids: "ids_unused env d" and doc: "document_ok b params"
    and maps: "case_maps_ok env" and ok: "tables_ok d"
    using ready by (simp_all add: ingest_ready_def)
  obtain art d1 where art: "resolveArtifact env b params d = (Some (Inr (info_of b params art)), d1)"
    "d1 = d\<lparr>ib_artifacts := ib_artifacts d1\<rparr>" "\<exists>a\<in>set (ib_artifacts d1). at_id a = art \<and> artifact_named b params a"
    using resolveArtifact_runs [OF flt ids doc] by blast
  let ?info = "info_of b params art"
  let ?row = "sbom_row_of env b raw params ns ?info"
  obtain as where d1: "d1 = d\<lparr>ib_artifacts := as\<rparr>" using art(2) by blast
  let ?d2 = "d1\<lparr>ib_sboms := ib_sboms d1 @ [?row]\<rparr>"
  obtain src where src: "ip_source params = Some src" "map_of (ib_sources d) src = Some ns"
    using ready by (auto simp: ingest_ready_def)
  have insert: "InsertSBOM ?row d1 = (Inr (ie_sbom_id env), ?d2)"
    using insert_sbom_runs [of ?row d1 art src ns] ready src art(3)
    by (auto simp: d1 ingest_ready_def info_of_def)
  let ?d3 = "snd (UpsertArtifactNamespace art ns ?d2)"
  obtain l where d3: "?d3 = ?d2\<lparr>ib_artifact_ns := l\<rparr>" using link_runs(3) by blast
  have l: "set l = insert (art, ns) (set (ib_artifact_ns d))"
    using link_runs(2) [of art ns ?d2] unfolding d3 by (simp add: d1)
  have "batch_ready (ie_component_id env) (ie_license_id env) (ie_sbom_id env) ?d3"
    by (rule batch_ready_after [OF ok ids]; unfold d3; simp add: d1 has_sbom_def)
  moreover have "ids_distinct env b" using ready by (simp add: ingest_ready_def)
  ultimately obtain d4 where content: "insertBOMContent env (ie_sbom_id env) b (coalesce (resolveSubjectVersion b params))
      (DetectFlavor b (coalesce (resolveSubjectVersion b params))) syms ?d3 = (Some (Inr ()), d4)"
    and post: "stored (ie_lc env) (ie_uc env) (ie_sbom_id env) (DetectFlavor b (coalesce (resolveSubjectVersion b params)))
        (document_flat env b params) syms ?d3 d4"
      "ib_dependencies d4 = ib_dependencies ?d3 @ map (Pair (ie_sbom_id env)) (dependency_rows (bom_dependencies b))"
      "ib_sboms d4 = ib_sboms ?d3" "ib_artifacts d4 = ib_artifacts ?d3" "ib_artifact_ns d4 = ib_artifact_ns ?d3"
      "ib_sources d4 = ib_sources ?d3" "ib_jobs d4 = ib_jobs ?d3"
    using content_runs [OF flt maps _ _ refl] by blast
  have checks: "check_step (validateContainerRequired b ?info (resolveArchitecture b params) (resolveBuildDate b params)) = done_step ()"
    "check_step (validateUploadRequired ?info params) = done_step ()"
    using doc by (simp_all add: document_ok_def check_step_def)
  have stmt_insert: "stmt_step (no_faults CallInsertSBOM) msg (InsertSBOM ?row) d1 = (Some (Inr (ie_sbom_id env)), ?d2)" for msg
    by (simp add: stmt_step_def no_faults_def insert)
  have link: "linkArtifactNamespace no_faults (Some art) ns ?d2 = (Some (Inr ()), ?d3)"
    by (simp add: linkArtifactNamespace_def link_runs(1))
  have "ingest_tx env b raw params ns syms d = (Some (Inr (ie_sbom_id env, ?info)), d4)"
    by (simp add: ingest_tx_def then_step_def art(1) checks done_step_def flt
        stmt_insert link content)
  moreover have "stored (ie_lc env) (ie_uc env) (ie_sbom_id env) (DetectFlavor b (coalesce (resolveSubjectVersion b params)))
      (document_flat env b params) syms d d4"
    by (rule stored_cong [OF post(1)]) (simp_all only: d3, simp_all add: d1)
  then have "ingested env b raw params syms ns art d d4"
    using post(2-) art(3) l unfolding d3 by (simp add: ingested_def Let_def d1)
  ultimately show ?thesis by blast
qed

section \<open>Ingest\<close>

lemma no_faults_call [simp]: "no_faults c = None"
  by (simp add: no_faults_def)

text \<open>What an ingest needs before its transaction: an existing source, a digest the registry accepts, no
  stored SBOM of the same digest, and symbols that can be detached.\<close>

definition reaches_tx ::
    "ingest_env \<Rightarrow> bom \<Rightarrow> string \<Rightarrow> ingest_params \<Rightarrow> ingest_db \<Rightarrow> uuid \<Rightarrow> bom \<Rightarrow> string \<Rightarrow> symbol_table option list \<Rightarrow> bool" where
  "reaches_tx env b raw params d ns b' raw' syms \<longleftrightarrow>
     resolveIngestNamespace (ie_flt env) d (ip_source params) = Inr ns \<and>
     validateContainerDigest (ie_validator env) b = Inr () \<and>
     existingByDigest (ie_flt env) d b params = None \<and>
     detachGoSymbols (ie_encode env) b raw (ip_go_symbols params) = Inr (syms, b', raw')"

lemma ingest_commits:
  assumes "ingest_ready env b' raw' params ns (ie_conc env d)" and "reaches_tx env b raw params d ns b' raw' syms"
  shows "\<exists>art d'. ingested env b' raw' params syms ns art (ie_conc env d) d' \<and>
     Ingest env b raw params d =
       (if \<not> ie_publisher env then (Some (Inr (ie_sbom_id env)), d', [])
        else (case publish_ingested b' params (ie_sbom_id env) (info_of b' params art) of
                None \<Rightarrow> (None, d', []) | Some ev \<Rightarrow> (Some (Inr (ie_sbom_id env)), d', [ev])))"
proof -
  obtain art d' where tx: "ingest_tx env b' raw' params ns syms (ie_conc env d) =
      (Some (Inr (ie_sbom_id env, info_of b' params art)), d')"
    and post: "ingested env b' raw' params syms ns art (ie_conc env d) d'"
    using ingest_tx_runs [OF assms(1)] by blast
  have "ie_flt env = no_faults" using assms(1) by (simp add: ingest_ready_def)
  then have "in_transaction (ie_flt env) (ingest_tx env b' raw' params ns syms) (ie_conc env d) =
      (Some (Inr (ie_sbom_id env, info_of b' params art)), d')"
    by (simp add: in_transaction_def tx)
  with assms(2) post show ?thesis by (auto simp: Ingest_def reaches_tx_def)
qed


text \<open>C36: The same ingest of a document without a subject, whose identity the caller declares, stores all of it
  and then panics: the event is read from the subject component, a nil pointer. The caller gets no answer
  and no event is published.\<close>

theorem declared_subject_panics:
  assumes "ingest_ready env b' raw' params ns (ie_conc env d)" and "reaches_tx env b raw params d ns b' raw' syms"
    and "subject_of b' = None" and "ie_publisher env"
  shows "\<exists>art d'. Ingest env b raw params d = (None, d', []) \<and> ingested env b' raw' params syms ns art (ie_conc env d) d'"
  using ingest_commits [OF assms(1,2)] assms(3,4) by (auto simp: publish_ingested_def)

end
