(* ===== verification/SbomClaims.thy ===== *)
theory SbomClaims
  imports SbomStored
begin

text \<open>
  The SBOM service as its callers see it: failed ingests, repeated ones, digests stored elsewhere, and what
  the deletions take with them.
\<close>

section \<open>A worked document\<close>

definition demo_env :: ingest_env where
  "demo_env = \<lparr>ie_flt = no_faults, ie_conc = \<lambda>d. d, ie_artifact_id = 1, ie_sbom_id = 2,
     ie_component_id = demo_fresh, ie_license_id = \<lambda>k. 7, ie_lc = to_lower, ie_uc = to_upper,
     ie_validator = None, ie_encode = \<lambda>b. Inr [], ie_publisher = True\<rparr>"

definition empty_db :: ingest_db where
  "empty_db = \<lparr>ib_sources = [(5, 6)], ib_artifacts = [], ib_artifact_ns = [], ib_sboms = [], ib_components = [],
     ib_hashes = [], ib_refs = [], ib_licenses = [], ib_component_licenses = [], ib_dependencies = [],
     ib_packages = [], ib_symbols = [], ib_symbol_sets = [], ib_jobs = []\<rparr>"

text \<open>The tables with further sources.\<close>

definition more_sources :: "(uuid \<times> uuid) list \<Rightarrow> ingest_db" where
  "more_sources extra = empty_db\<lparr>ib_sources := (5, 6) # extra\<rparr>"

lemma no_more_sources: "more_sources [] = empty_db"
  by (simp add: more_sources_def empty_db_def)

definition demo_params :: ingest_params where
  "demo_params = no_params\<lparr>ip_version := ''v2'', ip_source := Some 5, ip_subject_type := ''application'',
     ip_subject_name := ''app'', ip_digest := ''sha256:aa''\<rparr>"

text \<open>An application's document, with its subject or without one.\<close>

definition demo_doc :: "component_data option \<Rightarrow> bom" where
  "demo_doc mc = (demo_bom demo_tree)\<lparr>bom_meta := Some \<lparr>meta_component = mc, meta_props = []\<rparr>\<rparr>"

definition demo_subject :: component_data where
  "demo_subject = (demo_component ''app'' [] [])\<lparr>c_type := ''application''\<rparr>"

lemma demo_params_simps [simp]:
  "ip_version demo_params = ''v2''" "ip_source demo_params = Some 5" "ip_subject_type demo_params = ''application''"
  "ip_subject_name demo_params = ''app''" "ip_subject_group demo_params = []" "ip_subject_purl demo_params = []"
  "ip_digest demo_params = ''sha256:aa''" "ip_go_symbols demo_params = []"
  by (simp_all add: demo_params_def no_params_def)

lemma demo_subject_simps [simp]:
  "c_type demo_subject = ''application''" "c_name demo_subject = ''app''" "c_version demo_subject = []"
  "c_group demo_subject = []" "c_purl demo_subject = []" "c_cpe demo_subject = []" "c_props demo_subject = []"
  by (simp_all add: demo_subject_def demo_component_def)

lemma demo_tree_count: "component_count demo_tree = 4"
  by (simp add: component_count_def demo_tree_def)

lemma demo_fresh_inj: "inj_on demo_fresh {..<4}"
  by (auto simp: inj_on_def demo_fresh_def lessThan_nat_numeral lessThan_Suc)

lemma demo_no_keys: "document_keys lc uc demo_tree = {}"
  by (simp add: document_keys_def demo_tree_def demo_component_def)

lemma demo_subject_of: "subject_of (demo_doc mc) =
    (case mc of None \<Rightarrow> None | Some c \<Rightarrow> Some (\<lparr>meta_component = Some c, meta_props = []\<rparr>, c))"
  by (simp add: demo_doc_def subject_of_def split: option.splits)

lemma demo_identity:
  assumes "mc = None \<or> mc = Some demo_subject"
  shows "resolveSubjectIdentity (demo_doc mc) demo_params =
      \<lparr>si_type = ''application'', si_name = ''app'', si_group = [], si_purl = [], si_cpe = []\<rparr>"
    and "subject_name_digest (demo_doc mc) demo_params = (''app'', Some ''sha256:aa'')"
    and "coalesce (resolveSubjectVersion (demo_doc mc) demo_params) = ''v2''"
proof -
  show id: "resolveSubjectIdentity (demo_doc mc) demo_params =
      \<lparr>si_type = ''application'', si_name = ''app'', si_group = [], si_purl = [], si_cpe = []\<rparr>"
    using assms by (auto simp: resolveSubjectIdentity_def demo_subject_of override_def)
  show "subject_name_digest (demo_doc mc) demo_params = (''app'', Some ''sha256:aa'')"
    using assms by (auto simp: subject_name_digest_def id demo_subject_of container_def Let_def)
  show "coalesce (resolveSubjectVersion (demo_doc mc) demo_params) = ''v2''"
    using assms by (auto simp: resolveSubjectVersion_def demo_subject_of coalesce_def Let_def)
qed

lemma demo_ready_more:
  assumes "mc = None \<or> mc = Some demo_subject"
  shows "ingest_ready demo_env (demo_doc mc) raw demo_params 6 (more_sources extra)"
proof -
  note id = demo_identity [OF assms]
  have "validateContainerRequired (demo_doc mc) info arch bd = Inr ()" for info arch bd
    using assms by (auto simp: validateContainerRequired_def demo_subject_of container_def)
  moreover have "validateUploadRequired (info_of (demo_doc mc) demo_params art) demo_params = Inr ()" for art
    using id by (simp add: validateUploadRequired_def info_of_def container_def coalesce_def split: option.splits)
  ultimately have "document_ok (demo_doc mc) demo_params"
    using id by (simp add: document_ok_def container_def)
  moreover have "ids_distinct demo_env (demo_doc mc)"
    using demo_fresh_inj by (simp add: ids_distinct_def demo_doc_def demo_bom_def demo_env_def demo_tree_count
        demo_no_keys)
  moreover have "case_maps_ok demo_env" by (simp add: case_maps_ok_def demo_env_def to_lower_def to_upper_def)
  ultimately show ?thesis
    by (simp add: ingest_ready_def demo_env_def more_sources_def empty_db_def tables_ok_def lic_ok_def ids_unused_def)
qed

lemmas demo_ingest_ready = demo_ready_more [of _ _ "[]", unfolded no_more_sources]

lemma demo_no_symbols: "detachGoSymbols enc (demo_doc mc) raw [] = Inr ([], demo_doc mc, raw)"
  by (simp add: detachGoSymbols_def demo_doc_def demo_bom_def demo_tree_def demo_component_def component_symbols_def
      FromProperties_def Let_def)

lemma demo_reaches_more: "reaches_tx demo_env (demo_doc mc) raw demo_params (more_sources extra) 6 (demo_doc mc) raw []"
  using demo_no_symbols [of "ie_encode demo_env" mc raw]
  by (simp add: reaches_tx_def demo_env_def no_faults_def resolveIngestNamespace_def GetSource_def
      more_sources_def empty_db_def validateContainerDigest_def existingByDigest_def resolveIngestDigest_def
      GetSBOMByDigest_def Let_def)

lemmas demo_reaches = demo_reaches_more [of _ _ "[]", unfolded no_more_sources]


theorem declared_subject_panics_witness:
  "\<exists>art d'. Ingest demo_env (demo_doc None) [] demo_params empty_db = (None, d', []) \<and>
     ingested demo_env (demo_doc None) [] demo_params [] 6 art empty_db d'"
proof -
  have "subject_of (demo_doc None) = None" by (simp add: demo_subject_of)
  moreover have "ie_publisher demo_env" "ie_conc demo_env empty_db = empty_db"
    by (simp_all add: demo_env_def)
  moreover have "ingest_ready demo_env (demo_doc None) [] demo_params 6 empty_db"
    by (rule demo_ingest_ready) simp
  ultimately show ?thesis
    using declared_subject_panics [OF _ demo_reaches [of None "[]"]] by simp
qed

section \<open>Failures\<close>

lemma in_transaction_failed:
  "in_transaction flt body d = (r, d') \<Longrightarrow> (\<And>x. r \<noteq> Some (Inr x)) \<Longrightarrow> d' = d"
  by (auto simp: in_transaction_def split: option.splits prod.splits sum.splits)

text \<open>C8: An ingest that answers an error leaves nothing behind: the tables are as it found them, apart from
  what others committed meanwhile, and no event is published. This covers every refusal, every failing
  statement and a failing commit, whatever part of the document was already written.\<close>

theorem failed_ingest_keeps_tables:
  assumes "Ingest env b raw params d = (Some (Inl e), d', evs)"
  shows "(d' = d \<or> d' = ie_conc env d) \<and> evs = []"
proof -
  have "d' = ie_conc env d" if tx: "in_transaction (ie_flt env) body (ie_conc env d) = (Some (Inl e), d')" for body
    :: "(uuid \<times> artifactInfo) step"
    by (rule in_transaction_failed [OF tx]) simp
  then show ?thesis
    using assms by (auto simp: Ingest_def split: sum.splits option.splits prod.splits if_splits)
qed

definition broken_env :: ingest_env where
  "broken_env = demo_env\<lparr>ie_flt := no_faults(CallInsertSBOM := Some Timeout)\<rparr>"

lemma broken_simps [simp]:
  "ie_flt broken_env CallInsertSBOM = Some Timeout" "ie_flt broken_env CallBegin = None"
  "ie_flt broken_env CallSource = None" "ie_flt broken_env CallByDigest = None"
  "ie_conc broken_env = (\<lambda>d. d)" "ie_validator broken_env = None" "ie_encode broken_env = ie_encode demo_env"
  by (simp_all add: broken_env_def demo_env_def no_faults_def)

lemma broken_resolves:
  "resolveArtifact broken_env (demo_doc (Some demo_subject)) demo_params empty_db =
     (Some (Inr (info_of (demo_doc (Some demo_subject)) demo_params 1)),
      empty_db\<lparr>ib_artifacts := [\<lparr>at_id = 1, at_type = ''application'', at_name = ''app'', at_group = None,
                 at_purl = None, at_cpe = None\<rparr>]\<rparr>)"
  using demo_identity [of "Some demo_subject"]
  by (simp add: resolveArtifact_def demo_subject_of broken_env_def demo_env_def container_def then_step_def
      ensureArtifact_def no_faults_def GetArtifactByIdentity_def empty_db_def stmt_step_def UpsertArtifact_def
      same_artifact_def done_step_def info_of_def textOrNull_def errors_is_def)

theorem failed_ingest_keeps_tables_witness:
  "Ingest broken_env (demo_doc (Some demo_subject)) [] demo_params empty_db =
     (Some (Inl (Wrapped ''inserting sbom: '' DeadlineExceeded)), empty_db, [])"
proof -
  let ?doc = "demo_doc (Some demo_subject)"
  have ready: "ingest_ready demo_env ?doc [] demo_params 6 empty_db" by (rule demo_ingest_ready) simp
  have "validateContainerRequired ?doc info a bd = Inr ()" for info a bd
    by (simp add: validateContainerRequired_def demo_subject_of container_def)
  moreover have "validateUploadRequired (info_of ?doc demo_params 1) demo_params = Inr ()"
    using ready by (simp add: ingest_ready_def document_ok_def)
  ultimately have "ingest_tx broken_env ?doc [] demo_params 6 [] empty_db =
      (Some (Inl (Wrapped ''inserting sbom: '' DeadlineExceeded)),
       empty_db\<lparr>ib_artifacts := [\<lparr>at_id = 1, at_type = ''application'', at_name = ''app'', at_group = None,
                 at_purl = None, at_cpe = None\<rparr>]\<rparr>)"
    by (simp add: ingest_tx_def then_step_def broken_resolves check_step_def done_step_def stmt_step_def)
  then have "\<exists>d'. Ingest broken_env ?doc [] demo_params empty_db =
      (Some (Inl (Wrapped ''inserting sbom: '' DeadlineExceeded)), d', []) \<and> ie_conc broken_env empty_db = empty_db"
    using demo_no_symbols [of "ie_encode demo_env" "Some demo_subject" "[]"]
    by (simp add: Ingest_def resolveIngestNamespace_def GetSource_def validateContainerDigest_def existingByDigest_def
        resolveIngestDigest_def GetSBOMByDigest_def in_transaction_def empty_db_def Let_def)
  then show ?thesis using failed_ingest_keeps_tables by metis
qed

section \<open>Digests\<close>

text \<open>A digest that is stored answers an ingest, whatever namespace the stored SBOM belongs to: nothing of
  the document is written, the namespace it was sent to gets no row, and the answer is the identifier of the
  other namespace's SBOM.\<close>

theorem digest_answers_any_namespace:
  assumes "resolveIngestNamespace (ie_flt env) d (ip_source params) = Inr ns"
    and "validateContainerDigest (ie_validator env) b = Inr ()" and "ie_flt env CallByDigest = None"
    and "GetSBOMByDigest d (resolveIngestDigest b params) = Inr i" and "resolveIngestDigest b params \<noteq> []"
  shows "Ingest env b raw params d = (Some (Inr i), d, [])"
  using assms by (simp add: Ingest_def existingByDigest_def Let_def)

definition foreign_sbom :: stored_sbom where
  "foreign_sbom = \<lparr>ps_id = 40, ps_serial = None, ps_spec = ''1.6'', ps_version = 1, ps_raw = [], ps_artifact = None,
     ps_subject = None, ps_digest = Some ''sha256:aa'', ps_namespace = 99, ps_source = None, ps_flavor = None,
     ps_index_digest = None\<rparr>"

theorem digest_answers_any_namespace_witness:
  "Ingest demo_env (demo_doc (Some demo_subject)) [] demo_params (empty_db\<lparr>ib_sboms := [foreign_sbom]\<rparr>) =
     (Some (Inr 40), empty_db\<lparr>ib_sboms := [foreign_sbom]\<rparr>, []) \<and>
   resolveIngestNamespace no_faults (empty_db\<lparr>ib_sboms := [foreign_sbom]\<rparr>) (ip_source demo_params) = Inr 6 \<and>
   ps_namespace foreign_sbom = 99"
proof -
  let ?d = "empty_db\<lparr>ib_sboms := [foreign_sbom]\<rparr>"
  have ns: "resolveIngestNamespace no_faults ?d (ip_source demo_params) = Inr 6"
    by (simp add: resolveIngestNamespace_def GetSource_def empty_db_def)
  have "resolveIngestDigest (demo_doc (Some demo_subject)) demo_params = ''sha256:aa''"
    by (simp add: resolveIngestDigest_def)
  then show ?thesis
    using digest_answers_any_namespace [of demo_env ?d demo_params 6 "demo_doc (Some demo_subject)" 40 "[]"] ns
    by (simp add: demo_env_def validateContainerDigest_def GetSBOMByDigest_def foreign_sbom_def)
qed

lemma find_appended:
  "\<not> list_ex P xs \<Longrightarrow> P y \<Longrightarrow> find P (xs @ [y]) = Some y"
  by (induction xs) auto

text \<open>C24: Ingest is idempotent by digest: once a document was stored, sending a document with the same digest
  through any existing source answers the same SBOM, writes nothing and publishes nothing.\<close>

theorem repeated_ingest_answers_first:
  assumes "ingest_ready env b' raw' params ns (ie_conc env d)" and "reaches_tx env b raw params d ns b' raw' syms"
    and "subject_of b' \<noteq> None" and "ie_publisher env"
    and digest: "snd (subject_name_digest b' params) = Some dg" "dg \<noteq> []"
    and again: "resolveIngestDigest b2 params2 = dg" "validateContainerDigest (ie_validator env2) b2 = Inr ()"
      "ie_flt env2 = no_faults"
    and source: "ip_source params2 = Some src2" "src2 \<in> fst ` set (ib_sources (ie_conc env d))"
  shows "\<exists>ev d'. Ingest env b raw params d = (Some (Inr (ie_sbom_id env)), d', [ev]) \<and>
           Ingest env2 b2 raw2 params2 d' = (Some (Inr (ie_sbom_id env)), d', [])"
proof -
  obtain art d' where run: "ingested env b' raw' params syms ns art (ie_conc env d) d'"
    "Ingest env b raw params d = (if \<not> ie_publisher env then (Some (Inr (ie_sbom_id env)), d', [])
        else (case publish_ingested b' params (ie_sbom_id env) (info_of b' params art) of
                None \<Rightarrow> (None, d', []) | Some ev \<Rightarrow> (Some (Inr (ie_sbom_id env)), d', [ev])))"
    using ingest_commits [OF assms(1,2)] by blast
  let ?row = "sbom_row_of env b' raw' params ns (info_of b' params art)"
  have rows: "ib_sboms d' = ib_sboms (ie_conc env d) @ [?row]" and sources: "ib_sources d' = ib_sources (ie_conc env d)"
    using run(1) by (simp_all add: ingested_def Let_def)
  have "\<not> list_ex (\<lambda>s. ps_digest s = Some dg) (ib_sboms (ie_conc env d))"
    using assms(1) digest(1) by (auto simp: ingest_ready_def list_ex_iff sbom_conflicts_def)
  then have "GetSBOMByDigest d' dg = Inr (ie_sbom_id env)"
    using digest(1) by (simp add: GetSBOMByDigest_def rows find_appended)
  moreover have "\<exists>ns. resolveIngestNamespace no_faults d' (ip_source params2) = Inr ns"
    using source by (auto simp: resolveIngestNamespace_def GetSource_def no_faults_def sources map_of_eq_None_iff
        split: option.split)
  ultimately have "Ingest env2 b2 raw2 params2 d' = (Some (Inr (ie_sbom_id env)), d', [])"
    using again digest(2) by (auto simp: Ingest_def existingByDigest_def no_faults_def Let_def)
  with run(2) assms(3,4) show ?thesis by (auto simp: publish_ingested_def)
qed

theorem repeated_ingest_answers_first_witness:
  "\<exists>ev d'. Ingest demo_env (demo_doc (Some demo_subject)) [] demo_params (more_sources [(7, 8)]) =
       (Some (Inr 2), d', [ev]) \<and>
     Ingest demo_env (demo_doc (Some demo_subject)) ''other'' (demo_params\<lparr>ip_source := Some 7\<rparr>) d' = (Some (Inr 2), d', [])"
proof -
  let ?doc = "demo_doc (Some demo_subject)" and ?d = "more_sources [(7, 8)]" and ?params2 = "demo_params\<lparr>ip_source := Some 7\<rparr>"
  have "subject_of ?doc \<noteq> None" by (simp add: demo_subject_of)
  moreover have "ie_publisher demo_env" "ie_conc demo_env ?d = ?d" "ie_sbom_id demo_env = 2"
    "ie_flt demo_env = no_faults" "validateContainerDigest (ie_validator demo_env) ?doc = Inr ()"
    by (simp_all add: demo_env_def validateContainerDigest_def)
  moreover have "ingest_ready demo_env ?doc [] demo_params 6 ?d" by (rule demo_ready_more) simp
  moreover have "snd (subject_name_digest ?doc demo_params) = Some ''sha256:aa''"
    using demo_identity(2) [of "Some demo_subject"] by simp
  moreover have "resolveIngestDigest ?doc ?params2 = ''sha256:aa''" by (simp add: resolveIngestDigest_def)
  moreover have "ip_source ?params2 = Some 7" "7 \<in> fst ` set (ib_sources ?d)" by (simp_all add: more_sources_def)
  ultimately show ?thesis
    using repeated_ingest_answers_first [OF _ demo_reaches_more [of "Some demo_subject" "[]" "[(7, 8)]"],
        of "''sha256:aa''" ?doc ?params2 demo_env 7 "''other''"] by simp
qed

end
