(* ===== verification/Sources.thy ===== *)
theory Sources
  imports NamespaceApi Statements GoText
begin

text \<open>
  Sources, the channels SBOMs arrive through: the table of migration 00053, the statements of
  \<^verbatim>\<open>internal/repository/source.sql.go\<close> and \<open>GetNamespaceByName\<close>, \<^verbatim>\<open>internal/service/source.go\<close> and
  \<^verbatim>\<open>internal/api/source.go\<close>. The table stands beside the namespace tables, which these operations only
  read; a deleted namespace takes its sources with it.
\<close>

section \<open>The table\<close>

record source_row =
  sr_id :: uuid
  sr_namespace :: uuid
  sr_kind :: string
  sr_name :: string
  sr_created :: int
  sr_updated :: int

definition SourceKindOCIRegistry :: string where "SourceKindOCIRegistry = ''oci_registry''"
definition SourceKindUpload :: string where "SourceKindUpload = ''upload''"
definition SourceKindCluster :: string where "SourceKindCluster = ''cluster''"

text \<open>The keys: the id, the name within its namespace, the namespace and the kinds of the CHECK.\<close>

definition sources_ok :: "db \<Rightarrow> source_row list \<Rightarrow> bool" where
  "sources_ok d ss \<longleftrightarrow>
     distinct (map sr_id ss) \<and> distinct (map (\<lambda>s. (sr_namespace s, sr_name s)) ss) \<and>
     list_all (\<lambda>s. sr_namespace s \<in> ns_id ` set (namespaces d) \<and>
       sr_kind s \<in> {SourceKindOCIRegistry, SourceKindUpload, SourceKindCluster}) ss"

section \<open>Statements\<close>

definition CreateSourceRow ::
    "fault \<Rightarrow> int \<Rightarrow> uuid \<Rightarrow> db \<Rightarrow> uuid \<Rightarrow> string \<Rightarrow> string \<Rightarrow> source_row list \<Rightarrow> source_row result \<times> source_row list" where
  "CreateSourceRow flt now i d ns kind name ss =
     run_stmt flt ss
       (let row = \<lparr>sr_id = i, sr_namespace = ns, sr_kind = kind, sr_name = name, sr_created = now, sr_updated = now\<rparr> in
        if kind \<noteq> SourceKindOCIRegistry \<and> kind \<noteq> SourceKindUpload \<and> kind \<noteq> SourceKindCluster
        then (Inl (OtherError ''check violation''), ss)
        else if list_ex (\<lambda>s. sr_id s = i \<or> sr_namespace s = ns \<and> sr_name s = name) ss then (Inl UniqueViolation, ss)
        else if \<not> list_ex (\<lambda>n. ns_id n = ns) (namespaces d) then (Inl (OtherError ''foreign key violation''), ss)
        else (Inr row, ss @ [row]))"

definition GetSourceRow :: "fault \<Rightarrow> source_row list \<Rightarrow> uuid \<Rightarrow> source_row result" where
  "GetSourceRow flt ss i =
     read_stmt flt (case find (\<lambda>s. sr_id s = i) ss of Some s \<Rightarrow> Inr s | None \<Rightarrow> Inl NoRows)"

definition GetSourceByName :: "fault \<Rightarrow> source_row list \<Rightarrow> uuid \<Rightarrow> string \<Rightarrow> source_row result" where
  "GetSourceByName flt ss ns name =
     read_stmt flt (case find (\<lambda>s. sr_namespace s = ns \<and> sr_name s = name) ss of
                      Some s \<Rightarrow> Inr s | None \<Rightarrow> Inl NoRows)"

definition ListSourcesByNamespace :: "fault \<Rightarrow> source_row list \<Rightarrow> uuid \<Rightarrow> source_row list result" where
  "ListSourcesByNamespace flt ss ns =
     read_stmt flt (Inr (sort_by (on_key int_cmp sr_created) (filter (\<lambda>s. sr_namespace s = ns) ss)))"

text \<open>The join with the namespaces the viewer sees, or belongs to.\<close>

definition ListSourceRows ::
    "fault \<Rightarrow> db \<Rightarrow> source_row list \<Rightarrow> visibility_filter \<Rightarrow> (source_row \<times> string) list result" where
  "ListSourceRows flt d ss f =
     read_stmt flt
       (let ids = (if vf_owned_only f then owned_namespace_ids d (vf_user_id f)
                   else visible_namespace_ids d (vf_user_id f) (vf_is_admin f))
        in Inr (concat (map (\<lambda>s. map (\<lambda>n. (s, ns_name n))
                   (filter (\<lambda>n. ns_id n = sr_namespace s \<and> List.member ids (ns_id n)) (namespaces d)))
                 (sort_by (on_key int_cmp sr_created) ss))))"

definition UpdateSourceRow ::
    "fault \<Rightarrow> int \<Rightarrow> uuid \<Rightarrow> string \<Rightarrow> source_row list \<Rightarrow> source_row result \<times> source_row list" where
  "UpdateSourceRow flt now i name ss =
     run_stmt flt ss
       (case find (\<lambda>s. sr_id s = i) ss of
          None \<Rightarrow> (Inl NoRows, ss)
        | Some s \<Rightarrow>
            if list_ex (\<lambda>r. sr_id r \<noteq> i \<and> sr_namespace r = sr_namespace s \<and> sr_name r = name) ss
            then (Inl UniqueViolation, ss)
            else (Inr (s\<lparr>sr_name := name, sr_updated := now\<rparr>),
                  update_where (\<lambda>r. sr_id r = i) (\<lambda>r. r\<lparr>sr_name := name, sr_updated := now\<rparr>) ss))"

definition DeleteSourceRow :: "fault \<Rightarrow> uuid \<Rightarrow> source_row list \<Rightarrow> int result \<times> source_row list" where
  "DeleteSourceRow flt i ss =
     run_stmt flt ss (Inr (count_where (\<lambda>s. sr_id s = i) ss), filter (\<lambda>s. sr_id s \<noteq> i) ss)"

definition GetNamespaceByName :: "fault \<Rightarrow> db \<Rightarrow> string \<Rightarrow> (ns_row \<times> uuid option) result" where
  "GetNamespaceByName flt d name =
     read_stmt flt (case find (\<lambda>n. ns_name n = name) (namespaces d) of
                      Some n \<Rightarrow> Inr (n, namespace_owner d (ns_id n)) | None \<Rightarrow> Inl NoRows)"

section \<open>The service\<close>

record source =
  src_id :: string
  src_namespace :: string
  src_namespace_name :: string
  src_kind :: string
  src_name :: string
  src_created :: int
  src_updated :: int

definition sourceFromRepo :: "source_row \<Rightarrow> source" where
  "sourceFromRepo s =
     \<lparr>src_id = uuid_str (sr_id s), src_namespace = uuid_str (sr_namespace s), src_namespace_name = [],
      src_kind = sr_kind s, src_name = sr_name s, src_created = sr_created s, src_updated = sr_updated s\<rparr>"

definition Namespace_GetByName :: "fault \<Rightarrow> db \<Rightarrow> string \<Rightarrow> namespace result" where
  "Namespace_GetByName flt d name =
     (case GetNamespaceByName flt d name of Inl e \<Rightarrow> Inl ErrNotFound | Inr (n, owner) \<Rightarrow> Inr (namespaceFromRepo n owner))"

definition Source_Create ::
    "uuid_parser \<Rightarrow> fault \<Rightarrow> int \<Rightarrow> uuid \<Rightarrow> db \<Rightarrow> string \<Rightarrow> string \<Rightarrow> string \<Rightarrow> source_row list \<Rightarrow>
     source result \<times> source_row list" where
  "Source_Create parse flt now i d ns kind name ss =
     (case parse ns of
        None \<Rightarrow> (Inl ErrNotFound, ss)
      | Some nsID \<Rightarrow>
          let kind = (if kind = [] then SourceKindUpload else kind) in
          (case CreateSourceRow flt now i d nsID kind name ss of
             (Inl e, ss') \<Rightarrow> (Inl (if isUniqueViolation e then ErrConflict else Wrapped ''creating source'' e), ss')
           | (Inr row, ss') \<Rightarrow> (Inr (sourceFromRepo row), ss')))"

definition Source_Get :: "uuid_parser \<Rightarrow> fault \<Rightarrow> source_row list \<Rightarrow> string \<Rightarrow> source result" where
  "Source_Get parse flt ss sid =
     (case parse sid of
        None \<Rightarrow> Inl ErrNotFound
      | Some i \<Rightarrow> (case GetSourceRow flt ss i of Inl e \<Rightarrow> Inl ErrNotFound | Inr s \<Rightarrow> Inr (sourceFromRepo s)))"

definition Source_GetByName :: "uuid_parser \<Rightarrow> fault \<Rightarrow> source_row list \<Rightarrow> string \<Rightarrow> string \<Rightarrow> source result" where
  "Source_GetByName parse flt ss ns name =
     (case parse ns of
        None \<Rightarrow> Inl ErrNotFound
      | Some nsID \<Rightarrow> (case GetSourceByName flt ss nsID name of
                        Inl e \<Rightarrow> Inl ErrNotFound | Inr s \<Rightarrow> Inr (sourceFromRepo s)))"

definition Source_ListByNamespace :: "uuid_parser \<Rightarrow> fault \<Rightarrow> source_row list \<Rightarrow> string \<Rightarrow> source list result" where
  "Source_ListByNamespace parse flt ss ns =
     (case parse ns of
        None \<Rightarrow> Inl ErrNotFound
      | Some nsID \<Rightarrow> (case ListSourcesByNamespace flt ss nsID of
                        Inl e \<Rightarrow> Inl (Wrapped ''listing sources'' e) | Inr rows \<Rightarrow> Inr (map sourceFromRepo rows)))"

definition Source_List :: "fault \<Rightarrow> db \<Rightarrow> source_row list \<Rightarrow> visibility_filter \<Rightarrow> source list result" where
  "Source_List flt d ss f =
     (case ListSourceRows flt d ss f of
        Inl e \<Rightarrow> Inl (Wrapped ''listing sources'' e)
      | Inr rows \<Rightarrow> Inr (map (\<lambda>(s, name). (sourceFromRepo s)\<lparr>src_namespace_name := name\<rparr>) rows))"

text \<open>A read that fails is not a refusal: the write that follows is expected to fail too.\<close>

definition refuseClusterSource :: "fault \<Rightarrow> source_row list \<Rightarrow> uuid \<Rightarrow> go_error option" where
  "refuseClusterSource flt ss i =
     (case GetSourceRow flt ss i of
        Inl e \<Rightarrow> None
      | Inr s \<Rightarrow> if sr_kind s = SourceKindCluster
                 then Some (ValidationError ''a cluster's source follows its cluster; rename or delete the cluster instead'')
                 else None)"

definition Source_Update ::
    "uuid_parser \<Rightarrow> fault \<Rightarrow> fault \<Rightarrow> int \<Rightarrow> string \<Rightarrow> string \<Rightarrow> source_row list \<Rightarrow> source result \<times> source_row list" where
  "Source_Update parse f1 f2 now sid name ss =
     (case parse sid of
        None \<Rightarrow> (Inl ErrNotFound, ss)
      | Some i \<Rightarrow>
          (case refuseClusterSource f1 ss i of
             Some e \<Rightarrow> (Inl e, ss)
           | None \<Rightarrow>
               (case UpdateSourceRow f2 now i name ss of
                  (Inl e, ss') \<Rightarrow> (Inl (if isUniqueViolation e then ErrConflict else Wrapped ''updating source'' e), ss')
                | (Inr row, ss') \<Rightarrow> (Inr (sourceFromRepo row), ss'))))"

definition Source_Delete ::
    "uuid_parser \<Rightarrow> fault \<Rightarrow> fault \<Rightarrow> string \<Rightarrow> source_row list \<Rightarrow> unit result \<times> source_row list" where
  "Source_Delete parse f1 f2 sid ss =
     (case parse sid of
        None \<Rightarrow> (Inl ErrNotFound, ss)
      | Some i \<Rightarrow>
          (case refuseClusterSource f1 ss i of
             Some e \<Rightarrow> (Inl e, ss)
           | None \<Rightarrow>
               (case DeleteSourceRow f2 i ss of
                  (Inl e, ss') \<Rightarrow> (Inl (Wrapped ''deleting source'' e), ss')
                | (Inr n, ss') \<Rightarrow> (if n = 0 then Inl ErrNotFound else Inr (), ss'))))"

section \<open>Endpoints\<close>

definition listSources :: "fault \<Rightarrow> db \<Rightarrow> source_row list \<Rightarrow> visibility_filter \<Rightarrow> source list response" where
  "listSources flt d ss vis =
     (case Source_List flt d ss vis of Inl e \<Rightarrow> Inl (mapServiceError e) | Inr rows \<Rightarrow> Inr rows)"

definition ListSources ::
    "uuid_parser \<Rightarrow> fault \<Rightarrow> fault \<Rightarrow> db \<Rightarrow> source_row list \<Rightarrow> auth_user option \<Rightarrow> string \<Rightarrow> source list response" where
  "ListSources parse f1 f2 d ss ctx ns =
     (if ctx = None then Inl (401, ''not authenticated'')
      else if ns \<noteq> []
      then (case Namespace_Get parse f1 d ns of
              Inl e \<Rightarrow> Inl (404, ''namespace not found'')
            | Inr n \<Rightarrow>
                if nsv_visibility n = ''private'' \<and> \<not> canReadPrivate ctx n then Inl (404, ''namespace not found'')
                else (case Source_ListByNamespace parse f2 ss ns of
                        Inl e \<Rightarrow> Inl (mapServiceError e)
                      | Inr rows \<Rightarrow> Inr (map (\<lambda>s. s\<lparr>src_namespace_name := nsv_name n\<rparr>) rows)))
      else listSources f2 d ss (visibilityFilterFromContext ctx))"

definition ListMySources :: "fault \<Rightarrow> db \<Rightarrow> source_row list \<Rightarrow> auth_user option \<Rightarrow> source list response" where
  "ListMySources flt d ss ctx =
     (if ctx = None then Inl (401, ''not authenticated'') else listSources flt d ss (ownedFilterFromContext ctx))"

definition GetSource_handler ::
    "uuid_parser \<Rightarrow> fault \<Rightarrow> fault \<Rightarrow> db \<Rightarrow> source_row list \<Rightarrow> auth_user option \<Rightarrow> string \<Rightarrow> source response" where
  "GetSource_handler parse f1 f2 d ss ctx sid =
     (if ctx = None then Inl (401, ''not authenticated'')
      else (case Source_Get parse f1 ss sid of
              Inl e \<Rightarrow> Inl (404, ''source not found'')
            | Inr s \<Rightarrow>
                (case Namespace_Get parse f2 d (src_namespace s) of
                   Inl e \<Rightarrow> Inl (404, ''source not found'')
                 | Inr n \<Rightarrow>
                     if nsv_visibility n = ''private'' \<and> \<not> canReadPrivate ctx n then Inl (404, ''source not found'')
                     else Inr (s\<lparr>src_namespace_name := nsv_name n\<rparr>))))"

definition CreateSource ::
    "uuid_parser \<Rightarrow> fault \<Rightarrow> fault \<Rightarrow> int \<Rightarrow> uuid \<Rightarrow> db \<Rightarrow> auth_user option \<Rightarrow> string \<Rightarrow> string \<Rightarrow> source_row list \<Rightarrow>
     source response \<times> source_row list" where
  "CreateSource parse f1 f2 now i d ctx ns name ss =
     (case ctx of
        None \<Rightarrow> (Inl (401, ''not authenticated''), ss)
      | Some u \<Rightarrow>
          (case requireNamespaceCapability parse f1 d u ns CapManageSource of
             Some e \<Rightarrow> (Inl e, ss)
           | None \<Rightarrow>
               (case Source_Create parse f2 now i d ns SourceKindUpload name ss of
                  (Inl e, ss') \<Rightarrow> (Inl (mapServiceError e), ss')
                | (Inr s, ss') \<Rightarrow> (Inr s, ss'))))"

text \<open>The two handlers that change a source: it is read, its namespace asked for the capability, and the
  service called.\<close>

definition with_source ::
    "uuid_parser \<Rightarrow> fault \<Rightarrow> fault \<Rightarrow> db \<Rightarrow> auth_user option \<Rightarrow> string \<Rightarrow> (source_row list \<Rightarrow> 'a result \<times> source_row list) \<Rightarrow>
     source_row list \<Rightarrow> 'a response \<times> source_row list" where
  "with_source parse f1 f2 d ctx sid act ss =
     (case ctx of
        None \<Rightarrow> (Inl (401, ''not authenticated''), ss)
      | Some u \<Rightarrow>
          (case Source_Get parse f1 ss sid of
             Inl e \<Rightarrow> (Inl (404, ''source not found''), ss)
           | Inr existing \<Rightarrow>
               (case requireNamespaceCapability parse f2 d u (src_namespace existing) CapManageSource of
                  Some e \<Rightarrow> (Inl e, ss)
                | None \<Rightarrow>
                    (case act ss of
                       (Inl e, ss') \<Rightarrow> (Inl (mapServiceError e), ss')
                     | (Inr x, ss') \<Rightarrow> (Inr x, ss')))))"

definition UpdateSource where
  "UpdateSource parse f1 f2 f3 f4 now d ctx sid name =
     with_source parse f1 f2 d ctx sid (Source_Update parse f3 f4 now sid name)"

definition DeleteSource where
  "DeleteSource parse f1 f2 f3 f4 d ctx sid =
     with_source parse f1 f2 d ctx sid (Source_Delete parse f3 f4 sid)"

section \<open>What the table keeps\<close>

lemma sources_ok_create:
  assumes "sources_ok d ss" shows "sources_ok d (snd (CreateSourceRow flt now i d ns kind name ss))"
proof (cases flt)
  case None
  with assms show ?thesis
    by (auto simp: CreateSourceRow_def Let_def sources_ok_def list_ex_iff)
qed (use assms in \<open>simp add: CreateSourceRow_def\<close>)

lemma sources_ok_update:
  assumes "sources_ok d ss" shows "sources_ok d (snd (UpdateSourceRow flt now i name ss))"
proof (cases "\<exists>s. flt = None \<and> find (\<lambda>s. sr_id s = i) ss = Some s \<and>
    \<not> list_ex (\<lambda>r. sr_id r \<noteq> i \<and> sr_namespace r = sr_namespace s \<and> sr_name r = name) ss")
  case True
  then obtain s where s: "flt = None" "find (\<lambda>s. sr_id s = i) ss = Some s"
    "\<not> list_ex (\<lambda>r. sr_id r \<noteq> i \<and> sr_namespace r = sr_namespace s \<and> sr_name r = name) ss" by blast
  let ?f = "\<lambda>r. r\<lparr>sr_name := name, sr_updated := now\<rparr>"
  let ?key = "\<lambda>s. (sr_namespace s, sr_name s)"
  have ids: "distinct (map sr_id ss)" and keys: "distinct (map ?key ss)" using assms by (simp_all add: sources_ok_def)
  have only: "r = s" if "r \<in> set ss" "sr_id r = i" for r
    using that ids find_SomeD [OF s(2)] by (auto simp: distinct_map dest: inj_onD)
  have "inj_on ?key (set (update_where (\<lambda>r. sr_id r = i) ?f ss))"
    using s(3) keys only by (auto simp: inj_on_def update_where_def list_ex_iff distinct_map split: if_splits)
  moreover have "distinct (update_where (\<lambda>r. sr_id r = i) ?f ss)"
  proof -
    have "map sr_id (update_where (\<lambda>r. sr_id r = i) ?f ss) = map sr_id ss" by (simp add: update_where_def)
    with ids show ?thesis by (metis distinct_map)
  qed
  ultimately have "distinct (map ?key (update_where (\<lambda>r. sr_id r = i) ?f ss))" by (simp add: distinct_map)
  moreover have "distinct (map sr_id (update_where (\<lambda>r. sr_id r = i) ?f ss))"
    using ids by (subst map_update_where) auto
  moreover have "list_all (\<lambda>s. sr_namespace s \<in> ns_id ` set (namespaces d) \<and>
       sr_kind s \<in> {SourceKindOCIRegistry, SourceKindUpload, SourceKindCluster}) (update_where (\<lambda>r. sr_id r = i) ?f ss)"
    using assms unfolding sources_ok_def by (intro list_all_update_where) auto
  ultimately show ?thesis using s by (simp add: UpdateSourceRow_def sources_ok_def)
next
  case False
  then show ?thesis using assms
    by (cases flt) (auto simp: UpdateSourceRow_def split: option.splits if_splits)
qed

lemma sources_ok_delete:
  assumes "sources_ok d ss" shows "sources_ok d (snd (DeleteSourceRow flt i ss))"
  using assms by (cases flt) (auto simp: DeleteSourceRow_def sources_ok_def distinct_map list_all_iff inj_on_def)

end
