(* ===== verification/SbomApi.thy ===== *)
theory SbomApi
  imports SbomClaims Sources AuthApi
begin

text \<open>
  \<^verbatim>\<open>internal/api/sbom.go\<close> with the middlewares of its routes (\<^verbatim>\<open>internal/api/router.go\<close>): naming the source an
  upload goes to, ingesting a document, and deleting SBOMs and artifacts. Decoding a body is an argument; it
  answers the document with its format marker. A response is \<open>None\<close> when the handler panics.
\<close>

type_synonym 'a service_response = "'a response option \<times> ingest_db \<times> event list"

definition respond :: "'a service_call \<Rightarrow> ('a \<Rightarrow> 'b) \<Rightarrow> 'b service_response" where
  "respond r f = (case r of
      (None, d, evs) \<Rightarrow> (None, d, evs)
    | (Some (Inl e), d, evs) \<Rightarrow> (Some (Inl (mapServiceError e)), d, evs)
    | (Some (Inr x), d, evs) \<Rightarrow> (Some (Inr (f x)), d, evs))"

section \<open>The source of an upload\<close>

definition source_missing :: "string \<Rightarrow> http_error" where
  "source_missing ref = (400, ''source '' @ go_quote ref @ '' not found'')"

definition resolveIngestSource ::
    "uuid_parser \<Rightarrow> fault \<Rightarrow> fault \<Rightarrow> fault \<Rightarrow> db \<Rightarrow> source_row list \<Rightarrow> auth_user option \<Rightarrow> string \<Rightarrow> source response" where
  "resolveIngestSource parse f1 f2 f3 d ss ctx ref =
     (if ref = []
      then Inl (400, ''source is required: pass ?source=<uuid> or ?source=<namespace>/<name>'')
      else
        let (nsName, srcName, qual) = cut (CHR ''/'') ref;
            found = (if qual
                     then (case Namespace_GetByName f1 d nsName of
                             Inl e \<Rightarrow> Inl e
                           | Inr ns \<Rightarrow> Source_GetByName parse f2 ss (nsv_id ns) srcName)
                     else Source_Get parse f2 ss ref)
        in if \<not> qual \<and> parse ref = None
           then Inl (400, ''source '' @ go_quote ref @ '' is neither a UUID nor a <namespace>/<name> reference'')
           else (case found of
                   Inl e \<Rightarrow> if errors_is e ErrNotFound then Inl (source_missing ref) else Inl (mapServiceError e)
                 | Inr src \<Rightarrow>
                     (case Namespace_Get parse f3 d (src_namespace src) of
                        Inl e \<Rightarrow> Inl (mapServiceError e)
                      | Inr ns \<Rightarrow>
                          (case ctx of
                             Some u \<Rightarrow> if \<not> can u (nsv_id ns) CapIngest
                                       then Inl (403, ''cannot ingest into namespace '' @ nsv_name ns @
                                                      '': no ingest capability there'')
                                       else Inr src
                           | None \<Rightarrow> Inr src))))"

section \<open>Ingest\<close>

record ingest_query =
  iq_source :: string
  iq_version :: string
  iq_architecture :: string
  iq_build_date :: string
  iq_subject_type :: string
  iq_subject_name :: string
  iq_subject_group :: string
  iq_subject_purl :: string
  iq_digest :: string

record ingest_answer =
  ia_id :: string
  ia_status :: string
  ia_spec :: string
  ia_serial :: string
  ia_count :: nat

text \<open>The locations of what a document lacks.\<close>

definition validateBOM :: "string \<Rightarrow> bom \<Rightarrow> string list" where
  "validateBOM fmt b =
     (if fmt = [] then [''body.bomFormat''] else []) @
     (if bom_spec b = [] then [''body.specVersion''] else []) @
     (if (case bom_components b of None \<Rightarrow> True | Some cs \<Rightarrow> cs = []) then [''body.components''] else [])"

definition query_params :: "ingest_query \<Rightarrow> uuid \<Rightarrow> ingest_params" where
  "query_params q src =
     no_params\<lparr>ip_version := iq_version q, ip_architecture := iq_architecture q, ip_build_date := iq_build_date q,
       ip_source := Some src, ip_subject_type := iq_subject_type q, ip_subject_name := iq_subject_name q,
       ip_subject_group := iq_subject_group q, ip_subject_purl := iq_subject_purl q, ip_digest := iq_digest q\<rparr>"

type_synonym bom_decoder = "string \<Rightarrow> string + (string \<times> bom)"

definition IngestSBOM ::
    "ingest_env \<Rightarrow> bom_decoder \<Rightarrow> uuid_parser \<Rightarrow> fault \<Rightarrow> fault \<Rightarrow> fault \<Rightarrow> db \<Rightarrow> source_row list \<Rightarrow> ingest_query \<Rightarrow>
     string \<Rightarrow> auth_user option \<Rightarrow> ingest_db \<Rightarrow> ingest_answer service_response" where
  "IngestSBOM env decode parse f1 f2 f3 nsdb ss q body ctx d =
     (case resolveIngestSource parse f1 f2 f3 nsdb ss ctx (iq_source q) of
        Inl e \<Rightarrow> (Some (Inl e), d, [])
      | Inr src \<Rightarrow>
     (case parse (src_id src) of
        None \<Rightarrow> (Some (Inl (400, ''invalid UUID: '' @ src_id src)), d, [])
      | Some sourceID \<Rightarrow>
     (case decode body of
        Inl e \<Rightarrow> (Some (Inl (400, ''invalid CycloneDX JSON: '' @ e)), d, [])
      | Inr (fmt, b) \<Rightarrow>
          if validateBOM fmt b \<noteq> [] then (Some (Inl (422, ''validation failed'')), d, [])
          else respond (Ingest env b body (query_params q sourceID) d)
                 (\<lambda>i. \<lparr>ia_id = uuid_str i, ia_status = ''accepted'', ia_spec = bom_spec b, ia_serial = bom_serial b,
                       ia_count = (case bom_components b of None \<Rightarrow> 0 | Some cs \<Rightarrow> length cs)\<rparr>))))"

definition route_ingest_sbom where
  "route_ingest_sbom env decode parse f1 f2 f3 nsdb ss q body ctx d =
     (case first_refusal [RequireMember, RequireWrite] ctx of
        Some e \<Rightarrow> (Some (Inl e), d, [])
      | None \<Rightarrow> IngestSBOM env decode parse f1 f2 f3 nsdb ss q body ctx d)"

section \<open>Deletion\<close>

definition sbomNamespace :: "uuid_parser \<Rightarrow> fault \<Rightarrow> string \<Rightarrow> ingest_db \<Rightarrow> uuid option result" where
  "sbomNamespace parse flt sid d =
     (case parse sid of None \<Rightarrow> Inl (OtherError (''invalid UUID: '' @ sid)) | Some i \<Rightarrow> GetSBOMNamespaceID flt i d)"

definition artifactNamespace :: "uuid_parser \<Rightarrow> fault \<Rightarrow> fault \<Rightarrow> string \<Rightarrow> ingest_db \<Rightarrow> uuid option result" where
  "artifactNamespace parse f1 f2 sid d =
     (case parse sid of None \<Rightarrow> Inl (OtherError (''invalid UUID: '' @ sid)) | Some i \<Rightarrow> GetArtifactNamespaceID f1 f2 i d)"

definition DeleteSBOM_handler ::
    "uuid_parser \<Rightarrow> bool \<Rightarrow> faults \<Rightarrow> int \<Rightarrow> string \<Rightarrow> ingest_db \<Rightarrow> unit service_response" where
  "DeleteSBOM_handler parse pub flt now sid d =
     (case parse sid of
        None \<Rightarrow> (Some (Inl (400, ''invalid UUID: '' @ sid)), d, [])
      | Some i \<Rightarrow> respond (DeleteSBOM pub flt now i d) (\<lambda>x. x))"

definition DeleteArtifact_handler ::
    "uuid_parser \<Rightarrow> bool \<Rightarrow> faults \<Rightarrow> int \<Rightarrow> string \<Rightarrow> ingest_db \<Rightarrow> unit service_response" where
  "DeleteArtifact_handler parse pub flt now sid d =
     (case parse sid of
        None \<Rightarrow> (Some (Inl (400, ''invalid UUID: '' @ sid)), d, [])
      | Some i \<Rightarrow> respond (DeleteArtifact pub flt now i d) (\<lambda>x. x))"

definition route_delete_sbom where
  "route_delete_sbom parse f1 pub flt now sid ctx d =
     (case first_refusal [RequireCapability CapDeleteArtifact (sbomNamespace parse f1 sid d), RequireWrite] ctx of
        Some e \<Rightarrow> (Some (Inl e), d, [])
      | None \<Rightarrow> DeleteSBOM_handler parse pub flt now sid d)"

definition route_delete_artifact where
  "route_delete_artifact parse f1 f2 pub flt now sid ctx d =
     (case first_refusal [RequireCapability CapDeleteArtifact (artifactNamespace parse f1 f2 sid d), RequireWrite] ctx of
        Some e \<Rightarrow> (Some (Inl e), d, [])
      | None \<Rightarrow> DeleteArtifact_handler parse pub flt now sid d)"

section \<open>References to sources\<close>

text \<open>\<open>parse\<close> reads back what \<open>uuid_str\<close> prints.\<close>

definition parses_printed :: "uuid_parser \<Rightarrow> bool" where
  "parses_printed parse \<longleftrightarrow> (\<forall>i. parse (uuid_str i) = Some i)"

definition sources_of :: "source_row list \<Rightarrow> (uuid \<times> uuid) list" where
  "sources_of ss = map (\<lambda>s. (sr_id s, sr_namespace s)) ss"

lemma find_unique:
  "distinct (map f xs) \<Longrightarrow> x \<in> set xs \<Longrightarrow> (\<And>y. P y \<longleftrightarrow> f y = f x) \<Longrightarrow> find P xs = Some x"
  by (induction xs) (auto simp: image_iff)

lemma find_source: "sources_ok d ss \<Longrightarrow> s \<in> set ss \<Longrightarrow> find (\<lambda>r. sr_id r = sr_id s) ss = Some s"
  by (rule find_unique [of sr_id]) (auto simp: sources_ok_def)

lemma find_source_named:
  "sources_ok d ss \<Longrightarrow> s \<in> set ss \<Longrightarrow>
   find (\<lambda>r. sr_namespace r = sr_namespace s \<and> sr_name r = sr_name s) ss = Some s"
  by (rule find_unique [of "\<lambda>s. (sr_namespace s, sr_name s)"]) (auto simp: sources_ok_def)

lemma find_namespace:
  "db_ok d \<Longrightarrow> n \<in> set (namespaces d) \<Longrightarrow> find (\<lambda>k. ns_name k = ns_name n) (namespaces d) = Some n"
  "db_ok d \<Longrightarrow> n \<in> set (namespaces d) \<Longrightarrow> find (\<lambda>k. ns_id k = ns_id n) (namespaces d) = Some n"
  by (rule find_unique [of ns_name], auto simp: db_ok_def, rule find_unique [of ns_id], auto)

lemma hex_digit_code: "n < 16 \<Longrightarrow> of_char (hex_digit n) = (if n < 10 then 48 + n else 87 + n)"
  by (simp add: hex_digit_def)

lemma hex_digit_slash: "n < 16 \<Longrightarrow> hex_digit n \<noteq> CHR ''/''"
proof
  assume n: "n < 16" and slash: "hex_digit n = CHR ''/''"
  have "of_char (CHR ''/'') = (47::nat)" by simp
  with hex_digit_code [OF n] slash show False by (simp split: if_splits)
qed

lemma hex_fixed_slash: "CHR ''/'' \<notin> set (hex_fixed k v)"
  by (induction k arbitrary: v) (auto simp: hex_digit_slash [symmetric] dest: sym [THEN hex_digit_slash [THEN notE, rotated]])

lemma uuid_str_slash: "CHR ''/'' \<notin> set (uuid_str u)"
  by (simp add: uuid_str_def Let_def hex_fixed_slash)

text \<open>A source can be named by its identifier or by its namespace and name, and both references resolve
  to it for a caller who may ingest into its namespace, provided the namespace's name has no slash.\<close>

theorem source_references_agree:
  assumes "db_ok d" and "sources_ok d ss" and "s \<in> set ss" and "n \<in> set (namespaces d)" and "ns_id n = sr_namespace s"
    and "CHR ''/'' \<notin> set (ns_name n)" and "parses_printed parse" and "can u (uuid_str (ns_id n)) CapIngest"
  shows "resolveIngestSource parse None None None d ss (Some u) (uuid_str (sr_id s)) = Inr (sourceFromRepo s) \<and>
         resolveIngestSource parse None None None d ss (Some u) (ns_name n @ CHR ''/'' # sr_name s) = Inr (sourceFromRepo s)"
proof -
  have found: "Namespace_Get parse None d (uuid_str (sr_namespace s)) = Inr (namespaceFromRepo n (namespace_owner d (ns_id n)))"
    using assms find_namespace(2) [OF assms(1,4)]
    by (simp add: Namespace_Get_def parses_printed_def GetNamespaceRow_def)
  have by_name: "Namespace_GetByName None d (ns_name n) = Inr (namespaceFromRepo n (namespace_owner d (ns_id n)))"
    using find_namespace(1) [OF assms(1,4)] by (simp add: Namespace_GetByName_def GetNamespaceByName_def)
  have "Source_Get parse None ss (uuid_str (sr_id s)) = Inr (sourceFromRepo s)"
    using assms(7) find_source [OF assms(2,3)] by (simp add: Source_Get_def GetSourceRow_def parses_printed_def)
  moreover have "Source_GetByName parse None ss (uuid_str (ns_id n)) (sr_name s) = Inr (sourceFromRepo s)"
    using assms(5,7) find_source_named [OF assms(2,3)]
    by (simp add: Source_GetByName_def GetSourceByName_def parses_printed_def)
  ultimately show ?thesis
    using assms(5-8) found by_name uuid_str_slash uuid_str_nonempty
    by (simp add: resolveIngestSource_def Let_def parses_printed_def sourceFromRepo_def namespaceFromRepo_def)
qed

end
