(* ===== verification/SbomAccess.thy ===== *)
theory SbomAccess
  imports SbomApi
begin

text \<open>
  Who can change whose SBOMs: where an ingest puts its row, and what the deletions take with them.
\<close>

section \<open>Steps that leave the SBOM rows alone\<close>

named_theorems keeps

definition keeps_sboms :: "'a step \<Rightarrow> bool" where
  "keeps_sboms s \<longleftrightarrow> (\<forall>d. ib_sboms (snd (s d)) = ib_sboms d)"

lemma keeps_then [keeps]: "keeps_sboms m \<Longrightarrow> (\<And>x. keeps_sboms (f x)) \<Longrightarrow> keeps_sboms (then_step m f)"
  unfolding keeps_sboms_def then_step_def
  by (auto split: prod.splits option.splits sum.splits) (metis snd_conv)+

lemma keeps_done [keeps]: "keeps_sboms (done_step x)"
  by (simp add: keeps_sboms_def done_step_def)

lemma keeps_fail [keeps]: "keeps_sboms (fail_step e)"
  by (simp add: keeps_sboms_def fail_step_def)

lemma keeps_stmt [keeps]: "(\<And>d. ib_sboms (snd (m d)) = ib_sboms d) \<Longrightarrow> keeps_sboms (stmt_step flt msg m)"
  unfolding keeps_sboms_def stmt_step_def by (cases flt) (simp_all add: case_prod_unfold split: sum.split)

lemma keeps_if [keeps]: "(c \<Longrightarrow> keeps_sboms s) \<Longrightarrow> (\<not> c \<Longrightarrow> keeps_sboms t) \<Longrightarrow> keeps_sboms (if c then s else t)"
  by simp

lemma keeps_each [keeps]: "(\<And>x. keeps_sboms (f x)) \<Longrightarrow> keeps_sboms (each_step f xs)"
  by (induction xs) (auto intro: keeps)

lemma statement_sboms [simp]:
  "ib_sboms (snd (UpsertArtifact p d)) = ib_sboms d" "ib_sboms (snd (UpsertArtifactNamespace a n d)) = ib_sboms d"
  "ib_sboms (snd (copy_components cs d)) = ib_sboms d" "ib_sboms (snd (copy_hashes hs d)) = ib_sboms d"
  "ib_sboms (snd (copy_refs rs d)) = ib_sboms d" "ib_sboms (snd (copy_component_licenses ls d)) = ib_sboms d"
  "ib_sboms (snd (InsertDependency s r t d)) = ib_sboms d" "ib_sboms (snd (insert_license l d)) = ib_sboms d"
  "ib_sboms (snd (UpsertLicenseBySPDX i sp nm url d)) = ib_sboms d"
  "ib_sboms (snd (UpsertLicenseByName i nm url d)) = ib_sboms d"
  by (simp_all add: UpsertArtifact_def UpsertArtifactNamespace_def copy_components_def copy_hashes_def copy_refs_def
      copy_component_licenses_def InsertDependency_def insert_license_def UpsertLicenseBySPDX_def
      UpsertLicenseByName_def Let_def split: option.split)

lemma symbols_sboms [simp]:
  "ib_sboms (insert_packages rows d) = ib_sboms d" "ib_sboms (insert_symbols rows d) = ib_sboms d"
  "ib_sboms (insert_sets sets d) = ib_sboms d" "ib_sboms (link_sets sets d) = ib_sboms d"
  by (simp_all add: insert_packages_def insert_symbols_def insert_sets_def link_sets_def)

lemma keeps_artifact [keeps]: "keeps_sboms (ensureArtifact flt p)"
proof -
  have up: "keeps_sboms (stmt_step (flt CallUpsertArtifact) ''upserting artifact: '' (UpsertArtifact p))"
    by (intro keeps) simp
  have "ib_sboms (snd (ensureArtifact flt p d)) = ib_sboms d" for d
    using up by (auto simp: keeps_sboms_def ensureArtifact_def done_step_def fail_step_def split: sum.split)
  then show ?thesis by (simp add: keeps_sboms_def)
qed

lemma keeps_resolve [keeps]: "keeps_sboms (resolveArtifact env b params)"
  by (auto simp: resolveArtifact_def Let_def split: prod.split intro!: keeps)

lemma keeps_license [keeps]: "keeps_sboms (upsertLicense flt i spdx name url)"
proof -
  have up: "ib_sboms (snd (stmt_step f msg (UpsertLicenseBySPDX i spdx name u) d)) = ib_sboms d"
    "ib_sboms (snd (stmt_step f msg (UpsertLicenseByName i name u) d)) = ib_sboms d" for f msg u d
    using keeps_stmt [of "UpsertLicenseBySPDX i spdx name u" f msg] keeps_stmt [of "UpsertLicenseByName i name u" f msg]
    by (simp_all add: keeps_sboms_def)
  show ?thesis
    by (auto simp: keeps_sboms_def upsertLicense_def Let_def up done_step_def fail_step_def split: sum.split)
qed

lemma keeps_licenses [keeps]: "keeps_sboms (upsert_licenses flt new_id refs)"
  by (induction refs) (auto intro!: keeps)

lemma keeps_copy_licenses [keeps]: "keeps_sboms (copyComponentLicenses flt new_id lc uc flat)"
proof -
  have "keeps_sboms (then_step (upsert_licenses flt new_id (sort_by (on_key str_cmp fst) refs))
      (\<lambda>ids. if pairs = [] then done_step ()
             else stmt_step (flt CallLicenseLinks) ''copying component licenses: ''
                    (copy_component_licenses (link_rows ids pairs))))" for refs pairs
    by (auto intro!: keeps)
  then show ?thesis unfolding keeps_sboms_def copyComponentLicenses_def by (auto split: option.split)
qed

lemma keeps_symbols [keeps]: "keeps_sboms (persistGoSymbols flt flat syms)"
  unfolding persistGoSymbols_def Let_def by (intro keeps) (simp_all add: quiet_def)

lemma keeps_batch [keeps]:
  "keeps_sboms (insertComponentsBatch flt fresh new_id lc uc sbom cs main sv flavor syms)"
  unfolding insertComponentsBatch_def Let_def by (intro keeps) simp_all

lemma keeps_content [keeps]: "keeps_sboms (insertBOMContent env sbom b sv flavor syms)"
  unfolding insertBOMContent_def insertDependencies_def
  by (intro keeps) (auto split: option.split prod.split intro!: keeps)

lemma keeps_check [keeps]: "keeps_sboms (check_step r)"
  by (auto simp: check_step_def split: sum.split intro!: keeps)

lemma keeps_link [keeps]: "keeps_sboms (linkArtifactNamespace flt a ns)"
  by (auto simp: linkArtifactNamespace_def split: option.split intro!: keeps)

section \<open>Where an ingest puts its row\<close>

text \<open>The rows of \<open>d'\<close> are those of \<open>d\<close> and ones with the given namespace and source.\<close>

definition rows_in :: "ingest_db \<Rightarrow> uuid \<Rightarrow> uuid option \<Rightarrow> ingest_db \<Rightarrow> bool" where
  "rows_in d ns src d' \<longleftrightarrow>
     (\<forall>s\<in>set (ib_sboms d'). s \<in> set (ib_sboms d) \<or> ps_namespace s = ns \<and> ps_source s = src)"

lemma rows_in_keeps: "keeps_sboms m \<Longrightarrow> rows_in d ns src d1 \<Longrightarrow> rows_in d ns src (snd (m d1))"
  by (simp add: keeps_sboms_def rows_in_def)

lemma rows_in_then:
  assumes "keeps_sboms m" and "\<And>x d1. rows_in d ns src d1 \<Longrightarrow> rows_in d ns src (snd (f x d1))" and "rows_in d ns src d1"
  shows "rows_in d ns src (snd (then_step m f d1))"
  using rows_in_keeps [OF assms(1,3)] assms(2)
  by (auto simp: then_step_def split: prod.split option.split sum.split)

lemma rows_in_insert:
  assumes "ps_namespace row = ns" "ps_source row = src" and "rows_in d ns src d1"
  shows "rows_in d ns src (snd (stmt_step flt msg (InsertSBOM row) d1))"
  using assms by (cases flt) (auto simp: rows_in_def stmt_step_def InsertSBOM_def split: prod.splits sum.splits if_splits)

lemma tx_rows_in: "rows_in d ns (ip_source params) (snd (ingest_tx env b raw params ns syms d))"
proof -
  have tail: "keeps_sboms (then_step (linkArtifactNamespace flt a ns) (\<lambda>_. then_step (insertBOMContent env i b sv fl syms)
      (\<lambda>_. done_step x)))" for flt a i sv fl and x :: "uuid \<times> artifactInfo"
    by (intro keeps)
  have insert: "rows_in d ns (ip_source params) (snd (then_step
        (stmt_step flt msg (InsertSBOM (sbom_row_of env b raw params ns info))) f d1))"
    if "rows_in d ns (ip_source params) d1" and "\<And>x. keeps_sboms (f x)" for flt msg info d1
      and f :: "uuid \<Rightarrow> (uuid \<times> artifactInfo) step"
    using rows_in_insert [of "sbom_row_of env b raw params ns info" ns "ip_source params" d d1 flt msg] that rows_in_keeps
    by (fastforce simp: then_step_def split: prod.split option.split sum.split)
  show ?thesis
    unfolding ingest_tx_def
    by (intro rows_in_then keeps insert tail) (simp_all add: rows_in_def)
qed

lemma in_transaction_cases:
  "snd (in_transaction flt body d) = d \<or> snd (in_transaction flt body d) = snd (body d)"
  by (auto simp: in_transaction_def split: option.split prod.split sum.split)

lemma ingest_rows:
  assumes "s \<in> set (ib_sboms (fst (snd (Ingest env b raw params d))))"
  shows "s \<in> set (ib_sboms d) \<or> s \<in> set (ib_sboms (ie_conc env d)) \<or>
    resolveIngestNamespace (ie_flt env) d (ip_source params) = Inr (ps_namespace s) \<and> ps_source s = ip_source params"
proof (cases "\<exists>ns b' raw' syms. resolveIngestNamespace (ie_flt env) d (ip_source params) = Inr ns \<and>
    fst (snd (Ingest env b raw params d)) =
      snd (in_transaction (ie_flt env) (ingest_tx env b' raw' params ns syms) (ie_conc env d))")
  case True
  then obtain ns b' raw' syms where ns: "resolveIngestNamespace (ie_flt env) d (ip_source params) = Inr ns"
    and db: "fst (snd (Ingest env b raw params d)) =
      snd (in_transaction (ie_flt env) (ingest_tx env b' raw' params ns syms) (ie_conc env d))" by blast
  have "rows_in (ie_conc env d) ns (ip_source params) (fst (snd (Ingest env b raw params d)))"
    using in_transaction_cases [of "ie_flt env" "ingest_tx env b' raw' params ns syms" "ie_conc env d"] tx_rows_in
    unfolding db by (metis rows_in_def)
  with assms ns show ?thesis by (auto simp: rows_in_def)
next
  case False
  then have "fst (snd (Ingest env b raw params d)) = d"
    by (auto simp: Ingest_def split: sum.split option.split prod.split) (metis snd_conv)+
  with assms show ?thesis by simp
qed

text \<open>The row a reference names: by its identifier, or by its namespace's name and its own, divided by the first
  slash.\<close>

definition names_source :: "uuid_parser \<Rightarrow> db \<Rightarrow> string \<Rightarrow> source_row \<Rightarrow> bool" where
  "names_source parse d ref s \<longleftrightarrow>
     (if CHR ''/'' \<in> set ref
      then (\<exists>n\<in>set (namespaces d). CHR ''/'' \<notin> set (ns_name n) \<and> ref = ns_name n @ CHR ''/'' # sr_name s \<and>
              sr_namespace s = ns_id n)
      else parse ref = Some (sr_id s))"

lemma names_source_unique:
  assumes "names_source parse d ref s" "names_source parse d ref s'" and "s \<in> set ss" "s' \<in> set ss"
    and "db_ok d" and "sources_ok d ss"
  shows "s = s'"
proof (cases "CHR ''/'' \<in> set ref")
  case True
  then obtain n n' where n: "n \<in> set (namespaces d)" "CHR ''/'' \<notin> set (ns_name n)"
      "ref = ns_name n @ CHR ''/'' # sr_name s" "sr_namespace s = ns_id n"
    and n': "n' \<in> set (namespaces d)" "CHR ''/'' \<notin> set (ns_name n')"
      "ref = ns_name n' @ CHR ''/'' # sr_name s'" "sr_namespace s' = ns_id n'"
    using assms(1,2) by (auto simp: names_source_def)
  have "cut (CHR ''/'') ref = (ns_name n, sr_name s, True)" "cut (CHR ''/'') ref = (ns_name n', sr_name s', True)"
    using cut_found [OF n(2), of "sr_name s"] cut_found [OF n'(2), of "sr_name s'"] n(3) n'(3) by simp_all
  then have same: "ns_name n = ns_name n'" "sr_name s = sr_name s'" by simp_all
  moreover have "n = n'" using same(1) assms(5) n(1) n'(1) by (auto simp: db_ok_def distinct_map inj_on_def)
  ultimately have "(sr_namespace s, sr_name s) = (sr_namespace s', sr_name s')" using n n' by simp
  then show ?thesis using assms(3,4,6) by (auto simp: sources_ok_def distinct_map inj_on_def)
next
  case False
  then have "sr_id s = sr_id s'" using assms(1,2) by (simp add: names_source_def)
  then show ?thesis using assms(3,4,6) by (auto simp: sources_ok_def distinct_map inj_on_def)
qed

lemma found_by_name:
  assumes "Namespace_GetByName f1 d nsName = Inr ns" and "Source_GetByName parse f2 ss (nsv_id ns) srcName = Inr src"
    and "parses_printed parse"
  shows "\<exists>n\<in>set (namespaces d). \<exists>s\<in>set ss. src = sourceFromRepo s \<and> ns_name n = nsName \<and> sr_namespace s = ns_id n \<and>
    sr_name s = srcName"
proof -
  obtain n where n: "n \<in> set (namespaces d)" "ns_name n = nsName" "nsv_id ns = uuid_str (ns_id n)"
    using assms(1) by (auto simp: Namespace_GetByName_def GetNamespaceByName_def read_stmt_Inr namespaceFromRepo_def
        dest: find_SomeD split: sum.splits option.splits)
  with assms(2,3) show ?thesis
    by (force simp: Source_GetByName_def GetSourceByName_def parses_printed_def read_stmt_Inr dest: find_SomeD
        split: sum.splits option.splits)
qed

lemma found_by_id:
  assumes "Source_Get parse f2 ss ref = Inr src"
  shows "\<exists>s\<in>set ss. src = sourceFromRepo s \<and> parse ref = Some (sr_id s)"
  using assms by (force simp: Source_Get_def GetSourceRow_def read_stmt_Inr dest: find_SomeD
      split: sum.splits option.splits)

lemma resolved_source:
  assumes "resolveIngestSource parse f1 f2 f3 d ss (Some u) ref = Inr src" and "parses_printed parse"
  shows "\<exists>s n. s \<in> set ss \<and> n \<in> set (namespaces d) \<and> src = sourceFromRepo s \<and> ns_id n = sr_namespace s \<and>
    names_source parse d ref s \<and> can u (uuid_str (sr_namespace s)) CapIngest"
proof -
  have s: "\<exists>s\<in>set ss. src = sourceFromRepo s \<and> names_source parse d ref s"
  proof (cases "CHR ''/'' \<in> set ref")
    case True
    then obtain pre post where cut: "ref = pre @ CHR ''/'' # post" "CHR ''/'' \<notin> set pre" by (meson split_list_first)
    then have "cut (CHR ''/'') ref = (pre, post, True)" by simp
    then obtain ns where "Namespace_GetByName f1 d pre = Inr ns" "Source_GetByName parse f2 ss (nsv_id ns) post = Inr src"
      using assms(1) cut(1) by (auto simp: resolveIngestSource_def Let_def split: if_splits prod.splits sum.splits)
    from found_by_name [OF this assms(2)] cut show ?thesis by (auto simp: names_source_def)
  next
    case False
    then have "Source_Get parse f2 ss ref = Inr src"
      using assms(1) by (auto simp: resolveIngestSource_def Let_def split: if_splits prod.splits sum.splits)
    from found_by_id [OF this] False show ?thesis by (auto simp: names_source_def)
  qed
  then obtain s where s: "s \<in> set ss" "src = sourceFromRepo s" "names_source parse d ref s" by blast
  obtain ns where ns: "Namespace_Get parse f3 d (src_namespace src) = Inr ns" "can u (nsv_id ns) CapIngest"
    using assms(1) by (auto simp: resolveIngestSource_def Let_def split: if_splits prod.splits sum.splits)
  then obtain n where "find (\<lambda>k. ns_id k = sr_namespace s) (namespaces d) = Some n" "nsv_id ns = uuid_str (ns_id n)"
    using assms(2) by (auto simp: s(2) sourceFromRepo_def Namespace_Get_def parses_printed_def GetNamespaceRow_def
        namespaceFromRepo_def split: option.splits sum.splits)
  with find_SomeD [OF this(1)] ns(2) s show ?thesis by auto
qed

lemma respond_db [simp]: "fst (snd (respond r f)) = fst (snd r)"
  by (auto simp: respond_def split: prod.split option.split sum.split)

lemma ingest_handler_db:
  assumes "resolveIngestSource parse f1 f2 f3 nsdb ss ctx (iq_source q) = Inr src" and "parse (src_id src) = Some i"
  shows "fst (snd (IngestSBOM env decode parse f1 f2 f3 nsdb ss q body ctx d)) = d \<or>
    (\<exists>b. fst (snd (IngestSBOM env decode parse f1 f2 f3 nsdb ss q body ctx d)) =
         fst (snd (Ingest env b body (query_params q i) d)))"
proof (cases "decode body")
  case (Inr r)
  then show ?thesis using assms by (cases r) (auto simp: IngestSBOM_def)
qed (use assms in \<open>simp add: IngestSBOM_def\<close>)

text \<open>C11: A row that an upload adds is filed under the source that the request's \<open>source\<close> parameter names, by
  identifier or as namespace and name, and under that source's namespace, and its caller, with the key the request
  came on, may ingest there.\<close>

theorem upload_lands_where_allowed:
  assumes "route_ingest_sbom env decode parse f1 f2 f3 nsdb ss q body (Some u) d = (r, d', evs)"
    and "s \<in> set (ib_sboms d')" and "s \<notin> set (ib_sboms d)" and "s \<notin> set (ib_sboms (ie_conc env d))"
    and "parses_printed parse" and "sources_ok nsdb ss" and "ib_sources d = sources_of ss"
  shows "can u (uuid_str (ps_namespace s)) CapIngest \<and> KeyAllowsAnyWrite u \<and>
         (\<exists>src\<in>set ss. names_source parse nsdb (iq_source q) src \<and> ps_source s = Some (sr_id src) \<and>
            ps_namespace s = sr_namespace src)"
proof -
  have pass: "first_refusal [RequireMember, RequireWrite] (Some u) = None"
    and run: "IngestSBOM env decode parse f1 f2 f3 nsdb ss q body (Some u) d = (r, d', evs)"
    using assms(1-3) by (auto simp: route_ingest_sbom_def split: option.splits)
  obtain src where res: "resolveIngestSource parse f1 f2 f3 nsdb ss (Some u) (iq_source q) = Inr src"
    using run assms(2,3) by (auto simp: IngestSBOM_def split: sum.splits)
  obtain row where row: "row \<in> set ss" "src = sourceFromRepo row" "can u (uuid_str (sr_namespace row)) CapIngest"
      "names_source parse nsdb (iq_source q) row"
    using resolved_source [OF res assms(5)] by blast
  have id: "parse (src_id src) = Some (sr_id row)" using assms(5) row(2) by (simp add: parses_printed_def sourceFromRepo_def)
  obtain b where db: "d' = fst (snd (Ingest env b body (query_params q (sr_id row)) d))"
    using ingest_handler_db [OF res id] run assms(2,3) by (metis fst_conv snd_conv)
  have new: "resolveIngestNamespace (ie_flt env) d (Some (sr_id row)) = Inr (ps_namespace s)"
    "ps_source s = Some (sr_id row)"
    using ingest_rows [of s env b body "query_params q (sr_id row)" d] assms(2-4) unfolding db
    by (simp_all add: query_params_def)
  have "map_of (sources_of ss) (sr_id row) = Some (sr_namespace row)"
    using assms(6) row(1) by (intro map_of_is_SomeI) (auto simp: sources_of_def sources_ok_def comp_def)
  with new(1) assms(7) have "ps_namespace s = sr_namespace row"
    by (auto simp: resolveIngestNamespace_def GetSource_def read_stmt_Inr split: sum.splits if_splits)
  moreover have "KeyAllowsAnyWrite u" using pass by (simp add: RequireWrite_def isWriteAllowed_def split: option.splits if_splits)
  ultimately show ?thesis using row new(2) by auto
qed

section \<open>Deletion\<close>

lemma delete_sboms_simps [simp]:
  "ib_sboms (delete_sboms P d) = filter (\<lambda>s. \<not> P s) (ib_sboms d)" "ib_artifacts (delete_sboms P d) = ib_artifacts d"
  "ib_artifact_ns (delete_sboms P d) = ib_artifact_ns d" "ib_licenses (delete_sboms P d) = ib_licenses d"
  "ib_components (delete_sboms P d) =
     filter (\<lambda>c. cw_sbom c \<notin> ps_id ` set (filter P (ib_sboms d))) (ib_components d)"
  by (simp_all add: delete_sboms_def Let_def)

lemma tombstone_simps [simp]:
  "ib_sboms (snd (tombstone_jobs now P d)) = ib_sboms d" "ib_artifacts (snd (tombstone_jobs now P d)) = ib_artifacts d"
  "ib_artifact_ns (snd (tombstone_jobs now P d)) = ib_artifact_ns d"
  "ib_components (snd (tombstone_jobs now P d)) = ib_components d"
  "fst (tombstone_jobs now P d) = Inr (count_where (\<lambda>j. list_ex (\<lambda>s. P s \<and> scanned_by s j) (ib_sboms d)) (ib_jobs d))"
  by (simp_all add: tombstone_jobs_def Let_def)

lemma deleted_job:
  assumes "j \<in> set (ib_jobs d)" and "sj_id j = i" "sj_state j = st"
  shows "\<exists>j'\<in>set (ib_jobs (delete_sboms P d)). sj_id j' = i \<and> sj_state j' = st"
proof -
  let ?hit = "\<lambda>j. case sj_sbom j of Some i \<Rightarrow> List.member (map ps_id (filter P (ib_sboms d))) i | None \<Rightarrow> False"
  have jobs: "ib_jobs (delete_sboms P d) = map (\<lambda>j. if ?hit j then j\<lparr>sj_sbom := None\<rparr> else j) (ib_jobs d)"
    by (simp add: delete_sboms_def Let_def update_where_def)
  have "(if ?hit j then j\<lparr>sj_sbom := None\<rparr> else j) \<in> set (ib_jobs (delete_sboms P d))"
    unfolding jobs set_map by (rule imageI [OF assms(1)])
  then show ?thesis by (rule rev_bexI) (use assms in simp)
qed

text \<open>The jobs an SBOM's scan left, after its deletion.\<close>

lemma deleted_jobs:
  assumes "j \<in> set (ib_jobs d)" and "s \<in> set (ib_sboms d)" "P s" "scanned_by s j"
  shows "\<exists>j'\<in>set (ib_jobs (delete_sboms P (snd (tombstone_jobs now P d)))). sj_id j' = sj_id j \<and> sj_state j' = Pruned"
proof -
  let ?hit = "\<lambda>j. list_ex (\<lambda>s. P s \<and> scanned_by s j) (ib_sboms d)"
  let ?dead = "\<lambda>j. j\<lparr>sj_state := Pruned, sj_finished := Some now\<rparr>"
  have "?hit j" using assms by (auto simp: list_ex_iff)
  then have "?dead j \<in> set (ib_jobs (snd (tombstone_jobs now P d)))"
    using assms(1) update_where_in [of j "ib_jobs d" ?hit ?dead] by (simp add: tombstone_jobs_def Let_def)
  then show ?thesis by (rule deleted_job) simp_all
qed

lemma count_where_pos: "x \<in> set xs \<Longrightarrow> P x \<Longrightarrow> count_where P xs \<noteq> 0"
  by (force simp: count_where_def filter_empty_conv)

text \<open>Deleting an SBOM removes its row and its components and no other SBOM's, and every succeeded scan job
  that stood for it becomes a tombstone, so that the next registry walk does not bring it back.\<close>

theorem delete_sbom_exact:
  assumes "s \<in> set (ib_sboms d)" and "ps_id s = i"
  shows "\<exists>d' evs. DeleteSBOM pub no_faults now i d = (Some (Inr ()), d', evs) \<and>
     ib_sboms d' = filter (\<lambda>s. ps_id s \<noteq> i) (ib_sboms d) \<and>
     ib_components d' = filter (\<lambda>c. cw_sbom c \<noteq> i) (ib_components d) \<and> ib_artifacts d' = ib_artifacts d \<and>
     (\<forall>j\<in>set (ib_jobs d). scanned_by s j \<longrightarrow> (\<exists>j'\<in>set (ib_jobs d'). sj_id j' = sj_id j \<and> sj_state j' = Pruned))"
proof -
  let ?d' = "delete_sboms (\<lambda>s. ps_id s = i) (snd (PruneJobsForSBOM_stmt now i d))"
  have gone: "ps_id ` set (filter (\<lambda>s. ps_id s = i) (ib_sboms d)) = {i}" using assms by auto
  have rows: "count_where (\<lambda>s. ps_id s = i) (ib_sboms d) \<noteq> 0" by (rule count_where_pos) (use assms in auto)
  have "DeleteSBOM pub no_faults now i d = (Some (Inr ()), ?d', if pub then [SBOMDeleted i] else [])"
    using rows by (simp add: DeleteSBOM_def in_transaction_def then_step_def stmt_step_def DeleteSBOM_stmt_def
        PruneJobsForSBOM_stmt_def case_prod_unfold done_step_def)
  moreover have "ib_components ?d' = filter (\<lambda>c. cw_sbom c \<noteq> i) (ib_components d)"
    using gone by (simp add: PruneJobsForSBOM_stmt_def)
  moreover have "\<exists>j'\<in>set (ib_jobs ?d'). sj_id j' = sj_id j \<and> sj_state j' = Pruned"
    if "j \<in> set (ib_jobs d)" "scanned_by s j" for j
    using deleted_jobs [OF that(1) assms(1) _ that(2), of "\<lambda>s. ps_id s = i"] assms(2)
    by (simp add: PruneJobsForSBOM_stmt_def)
  ultimately show ?thesis by (auto simp: PruneJobsForSBOM_stmt_def)
qed

theorem delete_sbom_exact_witness:
  "\<exists>d' evs. DeleteSBOM True no_faults 0 40 (empty_db\<lparr>ib_sboms := [foreign_sbom]\<rparr>) = (Some (Inr ()), d', evs) \<and>
     ib_sboms d' = []"
proof -
  have "foreign_sbom \<in> set (ib_sboms (empty_db\<lparr>ib_sboms := [foreign_sbom]\<rparr>))" "ps_id foreign_sbom = 40"
    by (simp_all add: foreign_sbom_def)
  from delete_sbom_exact [OF this, of True 0] show ?thesis by (auto simp: foreign_sbom_def)
qed

section \<open>A parser of printed identifiers\<close>

fun hex_value :: "nat \<Rightarrow> string \<Rightarrow> nat" where
  "hex_value v [] = v"
| "hex_value v (c # cs) = hex_value (16 * v + (let n = of_char c in if n < 58 then n - 48 else n - 87)) cs"

definition demo_parse :: uuid_parser where
  "demo_parse s = (if s = [] then None else Some (word_of_nat (hex_value 0 (filter (\<lambda>c. c \<noteq> CHR ''-'') s))))"

lemma hex_value_append: "hex_value v (xs @ ys) = hex_value (hex_value v xs) ys"
  by (induction xs arbitrary: v) auto

lemma hex_value_digit: "n < 16 \<Longrightarrow> hex_value v [hex_digit n] = 16 * v + n"
  using hex_digit_code [of n] by (simp add: Let_def split: if_splits)

lemma hex_value_fixed: "hex_value w (hex_fixed k v) = w * 16 ^ k + v mod 16 ^ k"
proof (induction k arbitrary: v)
  case (Suc k)
  have "hex_value w (hex_fixed (Suc k) v) = 16 * (w * 16 ^ k + v div 16 mod 16 ^ k) + v mod 16"
    by (simp add: hex_value_append Suc hex_value_digit del: hex_value.simps)
  also have "\<dots> = w * 16 ^ Suc k + v mod 16 ^ Suc k"
    by (simp add: mod_mult2_eq algebra_simps)
  finally show ?case .
qed simp

lemma hex_fixed_dash: "filter (\<lambda>c. c \<noteq> CHR ''-'') (hex_fixed k v) = hex_fixed k v"
proof -
  have "hex_digit n \<noteq> CHR ''-''" if n: "n < 16" for n
  proof
    assume dash: "hex_digit n = CHR ''-''"
    have "of_char (CHR ''-'') = (45::nat)" by simp
    with hex_digit_code [OF n] dash show False by (simp split: if_splits)
  qed
  then show ?thesis by (induction k arbitrary: v) auto
qed

lemma split_groups:
  fixes v :: nat assumes "v < 2 ^ 128"
  shows "((((v div 2 ^ 96) mod 2 ^ 32 * 2 ^ 16 + v div 2 ^ 80 mod 2 ^ 16) * 2 ^ 16 + v div 2 ^ 64 mod 2 ^ 16) * 2 ^ 16
     + v div 2 ^ 48 mod 2 ^ 16) * 2 ^ 48 + v mod 2 ^ 48 = v"
proof -
  have step: "x div (b * 2 ^ 16) * 2 ^ 16 + x div b mod 2 ^ 16 = x div b" for x b :: nat
    by (metis div_mod_decomp div_mult2_eq)
  have "v div 2 ^ 96 < 2 ^ 32" using assms by (simp add: div_less_iff_less_mult)
  then have top: "v div 2 ^ 96 mod 2 ^ 32 = v div 2 ^ 96" by simp
  show ?thesis unfolding top
    using step [of v "2 ^ 80"] step [of v "2 ^ 64"] step [of v "2 ^ 48"] by simp
qed

lemma demo_parses: "parses_printed demo_parse"
  unfolding parses_printed_def
proof
  fix u :: uuid
  have "unat u < 2 ^ 128" using unsigned_less [of u] by simp
  note regroup = split_groups [OF this]
  let ?v = "unat u"
  have "filter (\<lambda>c. c \<noteq> CHR ''-'') ''-'' = []" by simp
  then have digits: "filter (\<lambda>c. c \<noteq> CHR ''-'') (uuid_str u) =
      hex_fixed 8 (?v div 2 ^ 96) @ hex_fixed 4 (?v div 2 ^ 80 mod 2 ^ 16) @ hex_fixed 4 (?v div 2 ^ 64 mod 2 ^ 16) @
      hex_fixed 4 (?v div 2 ^ 48 mod 2 ^ 16) @ hex_fixed 12 (?v mod 2 ^ 48)"
    by (simp only: uuid_str_def Let_def filter_append hex_fixed_dash append_Nil)
  have "(16::nat) ^ 8 = 2 ^ 32" "(16::nat) ^ 4 = 2 ^ 16" "(16::nat) ^ 12 = 2 ^ 48" by simp_all
  then have "hex_value 0 (filter (\<lambda>c. c \<noteq> CHR ''-'') (uuid_str u)) = ?v"
    by (simp only: digits hex_value_append hex_value_fixed mult_zero_left add_0 mod_mod_trivial regroup)
  then show "demo_parse (uuid_str u) = Some u" using uuid_str_nonempty [of u] by (simp add: demo_parse_def)
qed

end
