(* ===== verification/SbomGuards.thy ===== *)
theory SbomGuards
  imports SbomAccess
begin

text \<open>
  The guards of uploads, deletions and sources where they admit more than they mean to, and worked examples of
  the access properties.
\<close>

section \<open>A namespace, a source and a caller\<close>

definition acme_db :: db where
  "acme_db = \<lparr>namespaces = [\<lparr>ns_id = 6, ns_name = ''acme'', ns_visibility = ''private'', ns_created = 0, ns_updated = 0\<rparr>],
     members = [], users = []\<rparr>"

definition acme_source :: source_row where
  "acme_source = \<lparr>sr_id = 5, sr_namespace = 6, sr_kind = SourceKindUpload, sr_name = ''ci'', sr_created = 0, sr_updated = 0\<rparr>"

definition acme_user :: auth_user where
  "acme_user = demo_user ''member'' [uuid_str 6 \<mapsto> RoleDeveloper]"

definition acme_query :: ingest_query where
  "acme_query = \<lparr>iq_source = ''acme/ci'', iq_version = ''v2'', iq_architecture = [], iq_build_date = [],
     iq_subject_type = ''application'', iq_subject_name = ''app'', iq_subject_group = [], iq_subject_purl = [],
     iq_digest = ''sha256:aa''\<rparr>"

lemma acme_ok: "db_ok acme_db" "sources_ok acme_db [acme_source]" "ib_sources empty_db = sources_of [acme_source]"
  by (simp_all add: db_ok_def sources_ok_def acme_db_def acme_source_def empty_db_def sources_of_def)

lemma acme_ingest: "can acme_user (uuid_str 6) CapIngest"
  by (simp add: can_def acme_user_def demo_user_def KeyAllows_def uuid_str_nonempty Allow_def Allows_def
      map_bool_of_list allCapabilities_def globalRoleAdmin_def globalRoleViewer_def)

theorem source_references_agree_witness:
  "resolveIngestSource demo_parse None None None acme_db [acme_source] (Some acme_user) (uuid_str 5) =
     Inr (sourceFromRepo acme_source) \<and>
   resolveIngestSource demo_parse None None None acme_db [acme_source] (Some acme_user) ''acme/ci'' =
     Inr (sourceFromRepo acme_source)"
  using source_references_agree [OF acme_ok(1,2), of acme_source "hd (namespaces acme_db)" demo_parse acme_user]
    demo_parses acme_ingest
  by (simp add: acme_db_def acme_source_def)

lemma acme_resolves:
  "resolveIngestSource demo_parse None None None acme_db [acme_source] (Some acme_user) ''acme/ci'' =
     Inr (sourceFromRepo acme_source)"
  using demo_parses acme_ingest
  by (simp add: resolveIngestSource_def Let_def cut_def Namespace_GetByName_def GetNamespaceByName_def
      Source_GetByName_def GetSourceByName_def Namespace_Get_def GetNamespaceRow_def parses_printed_def acme_db_def
      acme_source_def namespaceFromRepo_def sourceFromRepo_def)

lemma acme_params: "query_params acme_query 5 = demo_params"
  by (simp add: query_params_def acme_query_def demo_params_def no_params_def)

definition decode_demo :: bom_decoder where
  "decode_demo body = Inr (''CycloneDX'', demo_doc (Some demo_subject))"

theorem upload_lands_where_allowed_witness:
  "\<exists>ans d' evs s. route_ingest_sbom demo_env decode_demo demo_parse None None None acme_db [acme_source] acme_query []
       (Some acme_user) empty_db = (Some (Inr ans), d', evs) \<and> s \<in> set (ib_sboms d') \<and>
     can acme_user (uuid_str (ps_namespace s)) CapIngest \<and>
     names_source demo_parse acme_db (iq_source acme_query) acme_source \<and> ps_source s = Some 5"
proof -
  let ?doc = "demo_doc (Some demo_subject)"
  have "subject_of ?doc \<noteq> None" by (simp add: demo_subject_of)
  moreover have "ie_publisher demo_env" and conc: "ie_conc demo_env empty_db = empty_db" by (simp_all add: demo_env_def)
  moreover have "ingest_ready demo_env ?doc [] demo_params 6 (ie_conc demo_env empty_db)"
    unfolding conc by (rule demo_ingest_ready) simp
  ultimately obtain art ev d' where ing: "Ingest demo_env ?doc [] demo_params empty_db = (Some (Inr (ie_sbom_id demo_env)), d', [ev])"
    and post: "ingested demo_env ?doc [] demo_params [] 6 art empty_db d'"
    using ingest_commits [OF _ demo_reaches [of "Some demo_subject" "[]"]] conc
    by (fastforce simp: publish_ingested_def demo_subject_of)
  let ?s = "sbom_row_of demo_env ?doc [] demo_params 6 (info_of ?doc demo_params art)"
  have s: "?s \<in> set (ib_sboms d')" "?s \<notin> set (ib_sboms empty_db)" "?s \<notin> set (ib_sboms (ie_conc demo_env empty_db))"
    using post by (simp_all add: ingested_def Let_def empty_db_def demo_env_def)
  have "validateBOM ''CycloneDX'' ?doc = []" by (simp add: validateBOM_def demo_doc_def demo_bom_def demo_tree_def)
  moreover have "first_refusal [RequireMember, RequireWrite] (Some acme_user) = None"
    by (simp add: RequireMember_def RequireWrite_def isWriteAllowed_def KeyAllowsAnyWrite_def acme_user_def demo_user_def
        roleMember_def)
  moreover have "demo_parse (uuid_str 5) = Some 5" using demo_parses by (simp add: parses_printed_def)
  ultimately obtain ans where run: "route_ingest_sbom demo_env decode_demo demo_parse None None None acme_db [acme_source]
      acme_query [] (Some acme_user) empty_db = (Some (Inr ans), d', [ev])"
    using acme_resolves ing acme_params
    by (auto simp: route_ingest_sbom_def IngestSBOM_def decode_demo_def respond_def acme_query_def sourceFromRepo_def
        acme_source_def)
  show ?thesis
    using upload_lands_where_allowed [OF run s demo_parses acme_ok(2,3)] run s(1) by (auto simp: acme_source_def)
qed

section \<open>Deleting an artifact\<close>

text \<open>C37: An artifact is one row however many namespaces hold SBOMs of it, the guard of its deletion asks one of
  those namespaces, the one with the lowest identifier, and the deletion removes the SBOMs of all: whoever may delete
  there removes other namespaces' SBOMs.\<close>

theorem delete_artifact_crosses_namespaces:
  assumes "GetArtifactNamespaceID None None art d = Inr (Some ns)" and "can u (uuid_str ns) CapDeleteArtifact"
    and "KeyAllowsAnyWrite u" and "parse sid = Some art"
  shows "\<exists>d' evs. route_delete_artifact parse None None pub no_faults now sid (Some u) d = (Some (Inr ()), d', evs) \<and>
           ib_sboms d' = filter (\<lambda>s. ps_artifact s \<noteq> Some art) (ib_sboms d)"
proof -
  obtain a where a: "a \<in> set (ib_artifacts d)" "at_id a = art"
    using assms(1) by (auto simp: GetArtifactNamespaceID_def list_ex_iff split: if_splits)
  then have rows: "count_where (\<lambda>a. at_id a = art) (ib_artifacts d) \<noteq> 0" by (rule count_where_pos)
  let ?d1 = "delete_sboms (\<lambda>s. ps_artifact s = Some art) (snd (PruneJobsForArtifact_stmt now art d))"
  have none: "\<not> list_ex (\<lambda>s. ps_artifact s = Some art) (ib_sboms ?d1)"
    by (simp add: list_ex_iff PruneJobsForArtifact_stmt_def)
  have "\<exists>d' evs. DeleteArtifact pub no_faults now art d = (Some (Inr ()), d', evs) \<and> ib_sboms d' = ib_sboms ?d1"
    using rows none
    by (simp add: DeleteArtifact_def in_transaction_def then_step_def stmt_step_def DeleteSBOMsByArtifact_def
        DeleteArtifact_stmt_def PruneJobsForArtifact_stmt_def case_prod_unfold done_step_def)
  moreover have "first_refusal [RequireCapability CapDeleteArtifact (artifactNamespace parse None None sid d), RequireWrite]
      (Some u) = None"
    using assms by (simp add: artifactNamespace_def RequireCapability_def RequireWrite_def isWriteAllowed_def
        uuidToStr_def)
  ultimately show ?thesis
    using assms(4)
    by (fastforce simp: route_delete_artifact_def DeleteArtifact_handler_def respond_def PruneJobsForArtifact_stmt_def)
qed

definition shared_db :: ingest_db where
  "shared_db = empty_db\<lparr>
     ib_artifacts := [\<lparr>at_id = 1, at_type = ''container'', at_name = ''nginx'', at_group = None, at_purl = None, at_cpe = None\<rparr>],
     ib_artifact_ns := [(1, 7), (1, 6)],
     ib_sboms := [foreign_sbom\<lparr>ps_artifact := Some 1, ps_namespace := 7\<rparr>]\<rparr>"

definition acme_owner :: auth_user where
  "acme_owner = demo_user ''member'' [uuid_str 6 \<mapsto> RoleOwner]"

lemma uuid_str_eq: "uuid_str a = uuid_str b \<longleftrightarrow> a = b"
  using demo_parses unfolding parses_printed_def by (metis option.inject)

theorem delete_artifact_crosses_namespaces_witness:
  "\<exists>d' evs. route_delete_artifact demo_parse None None True no_faults 0 (uuid_str 1) (Some acme_owner) shared_db =
     (Some (Inr ()), d', evs) \<and> ib_sboms d' = [] \<and> \<not> can acme_owner (uuid_str 7) CapDeleteArtifact"
proof -
  have "GetArtifactNamespaceID None None 1 shared_db = Inr (Some 6)"
    by (simp add: GetArtifactNamespaceID_def GetArtifactNamespaceID_stmt_def shared_db_def sort_by_def
        uuid_cmp_def int_cmp_def)
  moreover have "can acme_owner (uuid_str 6) CapDeleteArtifact" and "KeyAllowsAnyWrite acme_owner"
    by (simp_all add: can_def acme_owner_def demo_user_def KeyAllows_def uuid_str_nonempty Allow_def Allows_def
        map_bool_of_list allCapabilities_def globalRoleAdmin_def globalRoleViewer_def KeyAllowsAnyWrite_def)
  moreover have "demo_parse (uuid_str 1) = Some 1" using demo_parses by (simp add: parses_printed_def)
  moreover have "\<not> can acme_owner (uuid_str 7) CapDeleteArtifact"
    by (simp add: can_def acme_owner_def demo_user_def uuid_str_eq Allow_def globalRoleAdmin_def)
  ultimately show ?thesis
    using delete_artifact_crosses_namespaces [of 1 shared_db 6 acme_owner demo_parse "uuid_str 1" True 0]
    by (simp add: shared_db_def foreign_sbom_def)
qed

section \<open>The guard of cluster sources\<close>

text \<open>The guard that refuses to delete a cluster's source treats every failing read as an absent source: with
  the read working the deletion is refused, and when the read fails for a moment the source is deleted.\<close>

theorem cluster_source_guard_fails_open:
  assumes "sources_ok d ss" and "s \<in> set ss" and "sr_kind s = SourceKindCluster" and "parses_printed parse"
  shows "(\<exists>m. Source_Delete parse None None (uuid_str (sr_id s)) ss = (Inl (ValidationError m), ss)) \<and>
         Source_Delete parse (Some flt) None (uuid_str (sr_id s)) ss = (Inr (), filter (\<lambda>r. sr_id r \<noteq> sr_id s) ss)"
proof -
  have "count_where (\<lambda>r. sr_id r = sr_id s) ss \<noteq> 0" using assms(2) by (rule count_where_pos) simp
  then show ?thesis
    using assms(3,4) find_source [OF assms(1,2)]
    by (simp add: Source_Delete_def parses_printed_def refuseClusterSource_def GetSourceRow_def DeleteSourceRow_def)
qed

theorem cluster_source_guard_fails_open_witness:
  "Source_Delete demo_parse (Some Timeout) None (uuid_str 5) [acme_source\<lparr>sr_kind := SourceKindCluster\<rparr>] = (Inr (), [])"
  using cluster_source_guard_fails_open [of acme_db "[acme_source\<lparr>sr_kind := SourceKindCluster\<rparr>]"
      "acme_source\<lparr>sr_kind := SourceKindCluster\<rparr>" demo_parse Timeout] demo_parses
  by (simp add: sources_ok_def acme_db_def acme_source_def)

section \<open>Declaring a container\<close>

text \<open>A caller who declares that the subject of another document is a container skips both validations: one asks
  the document, the other the declared type.\<close>

lemma declared_container_unvalidated:
  assumes "subject_of b = Some (meta, mc)" and "c_type mc \<noteq> container" and "ip_subject_type params = container"
  shows "validateContainerRequired b info arch bd = Inr ()" and "validateUploadRequired (info_of b params art) params = Inr ()"
  using assms by (simp_all add: validateContainerRequired_def validateUploadRequired_def info_of_def
      resolveSubjectIdentity_def override_def container_def Let_def)

end
