(* ===== verification/OciClient.thy ===== *)
theory OciClient
  imports RegistryScope GoText NetGuard
begin

text \<open>
  How the scanner talks to an OCI registry: \<^verbatim>\<open>internal/scanner/mediatypes.go\<close>, \<^verbatim>\<open>discover.go\<close> (media types),
  \<^verbatim>\<open>size.go\<close>, \<^verbatim>\<open>metadata.go\<close> and the second half of \<^verbatim>\<open>catalog.go\<close>: token authentication, paginated lists,
  manifests, indexes and config blobs.

  The network is a parameter: \<open>we_base\<close> answers one request and moves on the outside world, whose type is
  free, so answers may change from one request to the next. It is the transport \<open>egress.RoundTripper()\<close>
  gives, redirects included. The JSON decoders, \<open>url.Parse\<close> and \<open>time.Parse\<close> are parameters too. What a call
  changes is the state \<open>walk_io\<close>; a call returns a value, panics, or is still in an unbounded loop when the
  fuel of the model ends.
\<close>

section \<open>State, requests and the environment\<close>

datatype http_auth = NoAuth | BasicAuth string string | BearerAuth string

record http_req =
  hr_method :: string
  hr_url :: string
  hr_accept :: "string list"
  hr_auth :: http_auth
  hr_body :: string

record http_resp =
  hs_status :: int
  hs_headers :: "(string \<times> string) list"
  hs_body :: string

text \<open>\<open>resp.Header.Get\<close> and the read of a \<open>map[string]string\<close>: the empty string for a missing key.\<close>

definition map_str :: "(string \<times> string) list \<Rightarrow> string \<Rightarrow> string" where
  "map_str m k = (case map_of m k of None \<Rightarrow> [] | Some v \<Rightarrow> v)"

record scan_request =
  sq_registry_url :: string
  sq_insecure :: bool
  sq_repository :: string
  sq_digest :: string
  sq_index_digest :: string
  sq_tag :: string
  sq_architecture :: string
  sq_build_date :: string
  sq_image_version :: string
  sq_auth_username :: string
  sq_auth_token :: string
  sq_registry_id :: string
  sq_cluster_id :: string
  sq_force :: bool

record ociListPage =
  lp_tags :: "string list"
  lp_repositories :: "string list"

record index_entry =
  ix_digest :: string
  ix_os :: string
  ix_arch :: string

record oci_index =
  oi_annotations :: "(string \<times> string) list"
  oi_manifests :: "index_entry list"

record ociManifest =
  om_artifact_type :: string
  om_config_digest :: string
  om_config_media_type :: string
  om_layers :: "(string \<times> 64 word) list"
  om_annotations :: "(string \<times> string) list"

record image_config =
  ic_architecture :: string
  ic_created :: string
  ic_labels :: "(string \<times> string) list"

text \<open>What the per-type discoverers decode: a GitHub package version (name and tags), a Harbor artifact
  (digest, media type, tag names, architecture), a Zot result (digest, media type, tag).\<close>

record 'u walk_env =
  we_base :: "'u \<Rightarrow> http_req \<Rightarrow> 'u \<times> http_resp result"
  we_submit :: "'u \<Rightarrow> scan_request \<Rightarrow> 'u \<times> bool"
  we_now :: "'u \<Rightarrow> int"
  we_url_ok :: "string \<Rightarrow> bool"
  we_url_host :: "string \<Rightarrow> string"
  we_add_date :: "int \<Rightarrow> int \<Rightarrow> int"
  we_parse_time :: "string \<Rightarrow> int option"
  we_error_text :: "go_error \<Rightarrow> string"
  we_dec_page :: "string \<Rightarrow> ociListPage option"
  we_dec_index :: "string \<Rightarrow> oci_index option"
  we_dec_manifest :: "string \<Rightarrow> ociManifest option"
  we_dec_config :: "string \<Rightarrow> image_config option"
  we_dec_token :: "string \<Rightarrow> (string \<times> string) option"
  we_dec_versions :: "string \<Rightarrow> (string \<times> string list) list option"
  we_dec_artifacts :: "string \<Rightarrow> (string \<times> string \<times> string list \<times> string) list option"
  we_dec_images :: "string \<Rightarrow> (string \<times> string \<times> string) list option"
  we_zot_query :: "string \<Rightarrow> string"
  we_fuel :: nat

text \<open>The state of a walk: the outside world, the token cache of the client, the process-wide cache of build
  dates, the digests handled in the current repository, and (a history variable) every request handed to the
  submitter with its acceptance.\<close>

record 'u walk_io =
  io_net :: 'u
  io_tokens :: "(string \<times> string) list"
  io_created :: "(string \<times> int option) list"
  io_scanned :: "string list"
  io_sent :: "(scan_request \<times> bool) list"

datatype stop = Panic | OutOfFuel

datatype 'a outcome = Stopped stop | Returned 'a

type_synonym ('u, 'a) walk_m = "'u walk_io \<Rightarrow> 'u walk_io \<times> 'a outcome"

definition wret :: "'a \<Rightarrow> ('u, 'a) walk_m" where
  "wret x = (\<lambda>s. (s, Returned x))"

definition wstop :: "stop \<Rightarrow> ('u, 'a) walk_m" where
  "wstop x = (\<lambda>s. (s, Stopped x))"

definition wbind :: "('u, 'a) walk_m \<Rightarrow> ('a \<Rightarrow> ('u, 'b) walk_m) \<Rightarrow> ('u, 'b) walk_m" where
  "wbind m f = (\<lambda>s. case m s of (t, Stopped x) \<Rightarrow> (t, Stopped x) | (t, Returned x) \<Rightarrow> f x t)"

definition wread :: "('u walk_io \<Rightarrow> 'a) \<Rightarrow> ('u, 'a) walk_m" where
  "wread f = (\<lambda>s. (s, Returned (f s)))"

definition wmod :: "('u walk_io \<Rightarrow> 'u walk_io) \<Rightarrow> ('u, unit) walk_m" where
  "wmod f = (\<lambda>s. (f s, Returned ()))"

lemmas walk_m_defs = wret_def wstop_def wbind_def wread_def wmod_def

text \<open>A call whose error ends the caller: \<open>x, err := f(); if err != nil { return ..., err }\<close>.\<close>

definition wtry ::
  "('u, 'a result) walk_m \<Rightarrow> (go_error \<Rightarrow> ('u, 'b) walk_m) \<Rightarrow> ('a \<Rightarrow> ('u, 'b) walk_m) \<Rightarrow> ('u, 'b) walk_m"
where
  "wtry m h f = wbind m (\<lambda>r. case r of Inl err \<Rightarrow> h err | Inr x \<Rightarrow> f x)"

section \<open>Media types\<close>

definition mediaTypeOCIManifest :: string where
  "mediaTypeOCIManifest = ''application/vnd.oci.image.manifest.v1+json''"
definition mediaTypeOCIIndex :: string where
  "mediaTypeOCIIndex = ''application/vnd.oci.image.index.v1+json''"
definition mediaTypeDockerManifest :: string where
  "mediaTypeDockerManifest = ''application/vnd.docker.distribution.manifest.v2+json''"
definition mediaTypeDockerList :: string where
  "mediaTypeDockerList = ''application/vnd.docker.distribution.manifest.list.v2+json''"
definition mediaTypeCosignSimpleSigning :: string where
  "mediaTypeCosignSimpleSigning = ''application/vnd.dev.cosign.simplesigning.v1+json''"
definition mediaTypeDSSEEnvelope :: string where
  "mediaTypeDSSEEnvelope = ''application/vnd.dsse.envelope.v1+json''"

definition attachedArtifactPrefixes :: "string list" where
  "attachedArtifactPrefixes =
     [''application/vnd.dev.cosign.'', ''application/vnd.dev.sigstore.'', ''application/vnd.in-toto'']"

lemmas media_type_defs = mediaTypeOCIManifest_def mediaTypeOCIIndex_def mediaTypeDockerManifest_def
  mediaTypeDockerList_def mediaTypeCosignSimpleSigning_def mediaTypeDSSEEnvelope_def

definition isIndexMediaType :: "string \<Rightarrow> bool" where
  "isIndexMediaType mt \<longleftrightarrow> mt = mediaTypeOCIIndex \<or> mt = mediaTypeDockerList"

definition isImageManifestType :: "string \<Rightarrow> bool" where
  "isImageManifestType mt \<longleftrightarrow>
     List.member [mediaTypeOCIManifest, mediaTypeDockerManifest, mediaTypeOCIIndex, mediaTypeDockerList] mt"

definition isAttachedArtifactType :: "string \<Rightarrow> bool" where
  "isAttachedArtifactType mt =
     (if mt = [] then False
      else if mt = mediaTypeCosignSimpleSigning \<or> mt = mediaTypeDSSEEnvelope then True
      else list_ex (has_prefix mt) attachedArtifactPrefixes)"

text \<open>\<open>cosignTagRe\<close>, \<open>^[a-z0-9]+-[0-9a-f]{32,}\.(sig|att|sbom)$\<close>: neither class holds a dash or a dot, so
  the only way to match is to split at the first dash and at the first dot after it.\<close>

definition lower_or_digit :: "char \<Rightarrow> bool" where
  "lower_or_digit c \<longleftrightarrow> is_digit c \<or> 97 \<le> byte_of c \<and> byte_of c \<le> 122"

definition lower_hex :: "char \<Rightarrow> bool" where
  "lower_hex c \<longleftrightarrow> is_digit c \<or> 97 \<le> byte_of c \<and> byte_of c \<le> 102"

definition IsAttachedArtifactTag :: "string \<Rightarrow> bool" where
  "IsAttachedArtifactTag tag =
     (let (alg, rest, dash) = cut (CHR ''-'') tag;
          (hex, ext, dot) = cut (CHR ''.'') rest
      in dash \<and> dot \<and> alg \<noteq> [] \<and> list_all lower_or_digit alg \<and>
         32 \<le> length hex \<and> list_all lower_hex hex \<and> List.member [''sig'', ''att'', ''sbom''] ext)"

section \<open>Manifests\<close>

text \<open>\<open>int64\<close> addition wraps.\<close>

definition totalLayerBytes :: "ociManifest \<Rightarrow> 64 word" where
  "totalLayerBytes m = fold (\<lambda>l total. total + snd l) (om_layers m) 0"

definition isAttachedArtifact :: "ociManifest \<Rightarrow> bool" where
  "isAttachedArtifact m =
     (if isAttachedArtifactType (om_artifact_type m) \<or> isAttachedArtifactType (om_config_media_type m)
      then True else list_ex (\<lambda>l. isAttachedArtifactType (fst l)) (om_layers m))"

section \<open>Hosts\<close>

definition NormalizeRegistryHost :: "string \<Rightarrow> string" where
  "NormalizeRegistryHost h0 =
     (let h1 = (case index_sub ''://'' h0 of None \<Rightarrow> h0 | Some i \<Rightarrow> drop (i + 3) h0);
          host = trim_suffix h1 ''/''
      in if List.member [''docker.io'', ''index.docker.io'', ''hub.docker.com''] host
         then ''registry-1.docker.io'' else host)"

definition derefStr :: "string option \<Rightarrow> string" where
  "derefStr s = (case s of None \<Rightarrow> [] | Some v \<Rightarrow> v)"

definition registrySchemeHost :: "registry \<Rightarrow> string \<times> string" where
  "registrySchemeHost reg =
     (let raw = rg_url reg
      in case index_sub ''://'' raw of
           Some i \<Rightarrow> (take i raw, NormalizeRegistryHost (trim_suffix (drop (i + 3) raw) ''/''))
         | None \<Rightarrow> (if rg_insecure reg then ''http'' else ''https'',
                    NormalizeRegistryHost (trim_suffix raw ''/'')))"

definition registry_base_url :: "registry \<Rightarrow> string" where
  "registry_base_url reg = (case registrySchemeHost reg of (scheme, host) \<Rightarrow> scheme @ ''://'' @ host)"

section \<open>Token authentication\<close>

record oci_client =
  oc_username :: string
  oc_password :: string

definition registryClient :: "registry \<Rightarrow> oci_client" where
  "registryClient reg =
     \<lparr>oc_username = derefStr (rg_auth_username reg), oc_password = derefStr (rg_auth_token reg)\<rparr>"

definition base_round_trip :: "'u walk_env \<Rightarrow> http_req \<Rightarrow> ('u, http_resp result) walk_m" where
  "base_round_trip e req =
     (\<lambda>s. case we_base e (io_net s) req of (u, r) \<Rightarrow> (s\<lparr>io_net := u\<rparr>, Returned r))"

text \<open>\<open>strings.Trim(v, "\"")\<close>.\<close>

definition trim_quotes :: "string \<Rightarrow> string" where
  "trim_quotes s = (let q = (\<lambda>c. byte_of c = 34) in rev (dropWhile q (rev (dropWhile q s))))"

fun challenge_params :: "string list \<Rightarrow> string \<times> string \<times> string \<Rightarrow> string \<times> string \<times> string" where
  "challenge_params [] acc = acc"
| "challenge_params (part # parts) (realm, svc, scope) =
     (case cut (CHR ''='') (trim_space part) of (k, v0, ok) \<Rightarrow>
        if \<not> ok then challenge_params parts (realm, svc, scope)
        else let v = trim_quotes v0 in
          if k = ''realm'' then challenge_params parts (v, svc, scope)
          else if k = ''service'' then challenge_params parts (realm, v, scope)
          else if k = ''scope'' then challenge_params parts (realm, svc, v)
          else challenge_params parts (realm, svc, scope))"

definition parseWWWAuthenticate :: "string \<Rightarrow> string \<times> string \<times> string" where
  "parseWWWAuthenticate header =
     (if \<not> has_prefix header ''Bearer '' then ([], [], [])
      else challenge_params (split_on (CHR '','') (drop 7 header)) ([], [], []))"

definition http_status_error :: "string \<Rightarrow> int \<Rightarrow> go_error" where
  "http_status_error what code = OtherError (what @ '' returned HTTP '' @ FormatInt code)"

definition fetchToken ::
  "'u walk_env \<Rightarrow> oci_client \<Rightarrow> string \<Rightarrow> string \<Rightarrow> string \<Rightarrow> ('u, string result) walk_m" where
  "fetchToken e c realm svc scope =
     (let u = realm @ ''?'' @ (if svc \<noteq> [] then ''service='' @ svc @ ''&'' else [])
                @ (if scope \<noteq> [] then ''scope='' @ scope else []);
          auth = (if oc_username c \<noteq> [] \<and> oc_password c \<noteq> []
                  then BasicAuth (oc_username c) (oc_password c) else NoAuth)
      in if \<not> we_url_ok e u then wret (Inl (OtherError ''parse token url''))
         else wtry (base_round_trip e \<lparr>hr_method = ''GET'', hr_url = u, hr_accept = [], hr_auth = auth, hr_body = []\<rparr>)
                (\<lambda>err. wret (Inl err))
                (\<lambda>resp. if hs_status resp \<noteq> 200 then wret (Inl (http_status_error ''token endpoint'' (hs_status resp)))
                        else case we_dec_token e (hs_body resp) of
                               None \<Rightarrow> wret (Inl (OtherError ''decoding token''))
                             | Some (token, access_token) \<Rightarrow>
                                 wret (Inr (if token \<noteq> [] then token else access_token))))"

text \<open>\<open>RoundTrip\<close>. \<open>tokens[key] = token\<close> replaces an earlier token, which the association list does by
  coming first.\<close>

definition RoundTrip :: "'u walk_env \<Rightarrow> oci_client \<Rightarrow> http_req \<Rightarrow> ('u, http_resp result) walk_m" where
  "RoundTrip e c req =
     wtry (base_round_trip e req) (\<lambda>err. wret (Inl err)) (\<lambda>resp.
       if hs_status resp \<noteq> 401 then wret (Inr resp)
       else let challenge = map_str (hs_headers resp) ''Www-Authenticate'' in
         if has_prefix challenge ''Basic '' then
           (if oc_username c = [] \<or> oc_password c = [] then wret (Inr resp)
            else base_round_trip e (req\<lparr>hr_auth := BasicAuth (oc_username c) (oc_password c)\<rparr>))
         else case parseWWWAuthenticate challenge of (realm, svc, scope) \<Rightarrow>
           if realm = [] then wret (Inr resp)
           else let cacheKey = we_url_host e (hr_url req) @ ''|'' @ scope in
             wbind (wread (\<lambda>s. map_str (io_tokens s) cacheKey)) (\<lambda>cachedToken.
               if cachedToken \<noteq> [] then base_round_trip e (req\<lparr>hr_auth := BearerAuth cachedToken\<rparr>)
               else wtry (fetchToken e c realm svc scope) (\<lambda>_. wret (Inr resp)) (\<lambda>token.
                 wbind (wmod (\<lambda>s. s\<lparr>io_tokens := (cacheKey, token) # io_tokens s\<rparr>)) (\<lambda>_.
                   base_round_trip e (req\<lparr>hr_auth := BearerAuth token\<rparr>)))))"

text \<open>\<open>req, _ := http.NewRequestWithContext(...); c.Do(req)\<close>: a URL that does not parse leaves \<open>req\<close> nil,
  and setting a header of it or sending it panics.\<close>

definition client_get ::
  "'u walk_env \<Rightarrow> oci_client \<Rightarrow> string \<Rightarrow> string \<Rightarrow> string list \<Rightarrow> ('u, http_resp result) walk_m" where
  "client_get e c meth u accept =
     (if we_url_ok e u then
        RoundTrip e c \<lparr>hr_method = meth, hr_url = u, hr_accept = accept, hr_auth = NoAuth, hr_body = []\<rparr>
      else wstop Panic)"

section \<open>Paginated lists\<close>

definition listPageSize :: nat where "listPageSize = 1000"
definition maxTagPages :: nat where "maxTagPages = 50"

definition decodeJSONBody :: "(string \<Rightarrow> 'a option) \<Rightarrow> http_resp \<Rightarrow> 'a result" where
  "decodeJSONBody decode resp =
     (let ct = map_str (hs_headers resp) ''Content-Type'' in
      if has_sub ct ''html'' then Inl (OtherError (''registry returned HTML (content-type: '' @ ct @ '')''))
      else case decode (hs_body resp) of None \<Rightarrow> Inl (OtherError ''decoding body'') | Some v \<Rightarrow> Inr v)"

fun next_link :: "string \<Rightarrow> string list \<Rightarrow> string" where
  "next_link baseURL [] = []"
| "next_link baseURL (part # parts) =
     (case (index_sub ''<'' part, index_sub ''>'' part) of
        (Some lt, Some gt) \<Rightarrow>
          if gt < lt \<or> \<not> has_sub (drop gt part) ''rel='' then next_link baseURL parts
          else if \<not> has_sub (drop gt part) ''next'' then next_link baseURL parts
          else let target = drop (lt + 1) (take gt part) in
            if has_prefix target ''http://'' \<or> has_prefix target ''https://'' then target
            else baseURL @ target
      | _ \<Rightarrow> next_link baseURL parts)"

definition nextTagPageURL :: "string \<Rightarrow> string \<Rightarrow> string" where
  "nextTagPageURL baseURL link = next_link baseURL (split_on (CHR '','') link)"

fun list_pages ::
  "'u walk_env \<Rightarrow> oci_client \<Rightarrow> string \<Rightarrow> string \<Rightarrow> (ociListPage \<Rightarrow> string list) \<Rightarrow> nat \<Rightarrow> string \<Rightarrow>
   string list \<Rightarrow> ('u, string list result) walk_m"
where
  "list_pages e c baseURL label items 0 next out = wret (Inr out)"
| "list_pages e c baseURL label items (Suc pages) next out =
     (if next = [] then wret (Inr out)
      else wtry (client_get e c ''GET'' next []) (\<lambda>err. wret (Inl err)) (\<lambda>resp.
        if hs_status resp \<noteq> 200 then wret (Inl (http_status_error label (hs_status resp)))
        else case decodeJSONBody (we_dec_page e) resp of
               Inl err \<Rightarrow> wret (Inl err)
             | Inr p \<Rightarrow> list_pages e c baseURL label items pages
                         (nextTagPageURL baseURL (map_str (hs_headers resp) ''Link'')) (out @ items p)))"

definition ociListPaged ::
  "'u walk_env \<Rightarrow> oci_client \<Rightarrow> string \<Rightarrow> string \<Rightarrow> string \<Rightarrow> (ociListPage \<Rightarrow> string list) \<Rightarrow>
   ('u, string list result) walk_m" where
  "ociListPaged e c baseURL startURL label items = list_pages e c baseURL label items maxTagPages startURL []"

definition ociListCatalog :: "'u walk_env \<Rightarrow> oci_client \<Rightarrow> string \<Rightarrow> ('u, string list result) walk_m" where
  "ociListCatalog e c baseURL =
     ociListPaged e c baseURL (baseURL @ ''/v2/_catalog?n='' @ show_nat listPageSize) ''catalog'' lp_repositories"

definition ociListTags ::
  "'u walk_env \<Rightarrow> oci_client \<Rightarrow> string \<Rightarrow> string \<Rightarrow> ('u, string list result) walk_m" where
  "ociListTags e c baseURL repo =
     ociListPaged e c baseURL (baseURL @ ''/v2/'' @ repo @ ''/tags/list?n='' @ show_nat listPageSize)
       ''tags/list'' lp_tags"

section \<open>Manifests, indexes and configs\<close>

record manifestInfo =
  mi_digest :: string
  mi_media_type :: string

record platformEntry =
  pl_digest :: string
  pl_arch :: string

record imageMetadata =
  im_architecture :: string
  im_build_date :: string
  im_image_version :: string
  im_attached :: bool

definition no_metadata :: imageMetadata where
  "no_metadata = \<lparr>im_architecture = [], im_build_date = [], im_image_version = [], im_attached = False\<rparr>"

definition manifest_url :: "string \<Rightarrow> string \<Rightarrow> string \<Rightarrow> string" where
  "manifest_url baseURL repo ref = baseURL @ ''/v2/'' @ repo @ ''/manifests/'' @ ref"

definition ociHeadManifest ::
  "'u walk_env \<Rightarrow> oci_client \<Rightarrow> string \<Rightarrow> string \<Rightarrow> string \<Rightarrow> ('u, manifestInfo result) walk_m" where
  "ociHeadManifest e c baseURL repo tag =
     wtry (client_get e c ''HEAD'' (manifest_url baseURL repo tag)
             [mediaTypeOCIManifest, mediaTypeDockerManifest, mediaTypeOCIIndex, mediaTypeDockerList])
       (\<lambda>err. wret (Inl err))
       (\<lambda>resp. if hs_status resp \<noteq> 200 then wret (Inl (http_status_error ''manifest HEAD'' (hs_status resp)))
               else wret (Inr \<lparr>mi_digest = map_str (hs_headers resp) ''Docker-Content-Digest'',
                               mi_media_type = fst (cut (CHR '';'') (map_str (hs_headers resp) ''Content-Type''))\<rparr>))"

text \<open>\<open>GET\<close> of an index, shared by the two functions that read one.\<close>

definition index_get ::
  "'u walk_env \<Rightarrow> oci_client \<Rightarrow> string \<Rightarrow> string \<Rightarrow> string \<Rightarrow> ('u, oci_index result) walk_m" where
  "index_get e c baseURL repo indexDigest =
     wtry (client_get e c ''GET'' (manifest_url baseURL repo indexDigest) [mediaTypeOCIIndex, mediaTypeDockerList])
       (\<lambda>err. wret (Inl err))
       (\<lambda>resp. if hs_status resp \<noteq> 200 then wret (Inl (http_status_error ''index GET'' (hs_status resp)))
               else case we_dec_index e (hs_body resp) of
                      None \<Rightarrow> wret (Inl (OtherError ''decoding index''))
                    | Some ix \<Rightarrow> wret (Inr ix))"

definition is_platform :: "index_entry \<Rightarrow> bool" where
  "is_platform m \<longleftrightarrow> \<not> (ix_digest m = [] \<or> ix_os m = [] \<or> ix_os m = ''unknown'')"

definition ociExpandIndex ::
  "'u walk_env \<Rightarrow> oci_client \<Rightarrow> string \<Rightarrow> string \<Rightarrow> string \<Rightarrow> ('u, platformEntry list result) walk_m" where
  "ociExpandIndex e c baseURL repo indexDigest =
     wtry (index_get e c baseURL repo indexDigest) (\<lambda>err. wret (Inl err))
       (\<lambda>ix. wret (Inr (map (\<lambda>m. \<lparr>pl_digest = ix_digest m, pl_arch = ix_arch m\<rparr>)
                             (filter is_platform (oi_manifests ix)))))"

definition ociIndexCreated ::
  "'u walk_env \<Rightarrow> oci_client \<Rightarrow> string \<Rightarrow> string \<Rightarrow> string \<Rightarrow> ('u, (string \<times> string) result) walk_m" where
  "ociIndexCreated e c baseURL repo indexDigest =
     wtry (index_get e c baseURL repo indexDigest) (\<lambda>err. wret (Inl err))
       (\<lambda>ix. wret (Inr (map_str (oi_annotations ix) ''org.opencontainers.image.created'',
                        case find is_platform (oi_manifests ix) of None \<Rightarrow> [] | Some m \<Rightarrow> ix_digest m)))"

definition firstSet :: "string list \<Rightarrow> string \<Rightarrow> string" where
  "firstSet vals fallback = (case find (\<lambda>v. v \<noteq> []) vals of None \<Rightarrow> fallback | Some v \<Rightarrow> v)"

text \<open>What the manifest and its config say, in the precedence of the two \<open>switch\<close>es.\<close>

definition config_metadata :: "string \<Rightarrow> string \<Rightarrow> image_config \<Rightarrow> imageMetadata" where
  "config_metadata annotationVersion annotationCreated config =
     (let label = map_str (ic_labels config) in
      \<lparr>im_architecture = (if ic_architecture config = [] then label ''org.opencontainers.image.architecture''
                          else ic_architecture config),
       im_build_date = firstSet [ic_created config, annotationCreated, label ''org.opencontainers.image.created'']
                         (label ''org.label-schema.build-date''),
       im_image_version = firstSet [annotationVersion, label ''org.opencontainers.image.version'']
                            (label ''org.label-schema.version''),
       im_attached = False\<rparr>)"

definition ociGetImageMetadata ::
  "'u walk_env \<Rightarrow> oci_client \<Rightarrow> string \<Rightarrow> string \<Rightarrow> string \<Rightarrow> ('u, imageMetadata) walk_m" where
  "ociGetImageMetadata e c baseURL repo digest =
     wtry (client_get e c ''GET'' (manifest_url baseURL repo digest) [mediaTypeOCIManifest, mediaTypeDockerManifest])
       (\<lambda>_. wret no_metadata)
       (\<lambda>resp. if hs_status resp \<noteq> 200 then wret no_metadata
         else case we_dec_manifest e (hs_body resp) of
           None \<Rightarrow> wret no_metadata
         | Some manifest \<Rightarrow>
             if isAttachedArtifact manifest then wret (no_metadata\<lparr>im_attached := True\<rparr>)
             else let annotationVersion = map_str (om_annotations manifest) ''org.opencontainers.image.version'';
                      annotationCreated = map_str (om_annotations manifest) ''org.opencontainers.image.created'';
                      annotated = no_metadata\<lparr>im_build_date := annotationCreated, im_image_version := annotationVersion\<rparr>
               in if om_config_digest manifest = [] then wret annotated
                  else wtry (client_get e c ''GET'' (baseURL @ ''/v2/'' @ repo @ ''/blobs/'' @ om_config_digest manifest) [])
                         (\<lambda>_. wret annotated)
                         (\<lambda>resp2. if hs_status resp2 \<noteq> 200 then wret annotated
                            else case we_dec_config e (hs_body resp2) of
                                   None \<Rightarrow> wret annotated
                                 | Some config \<Rightarrow> wret (config_metadata annotationVersion annotationCreated config)))"

section \<open>Metadata and size of one requested image\<close>

definition request_base_url :: "scan_request \<Rightarrow> string" where
  "request_base_url req =
     (if sq_insecure req then ''http'' else ''https'') @ ''://'' @ NormalizeRegistryHost (sq_registry_url req)"

definition FillMetadata :: "'u walk_env \<Rightarrow> scan_request \<Rightarrow> ('u, scan_request) walk_m" where
  "FillMetadata e req =
     (if sq_architecture req \<noteq> [] \<and> sq_build_date req \<noteq> [] \<and> sq_image_version req \<noteq> [] then wret req
      else let c = \<lparr>oc_username = sq_auth_username req, oc_password = sq_auth_token req\<rparr> in
        wbind (ociGetImageMetadata e c (request_base_url req) (sq_repository req) (sq_digest req)) (\<lambda>meta.
          wret (req\<lparr>sq_architecture := (if sq_architecture req = [] then im_architecture meta else sq_architecture req),
                    sq_build_date := (if sq_build_date req = [] then im_build_date meta else sq_build_date req),
                    sq_image_version := (if sq_image_version req = [] then im_image_version meta
                                         else sq_image_version req)\<rparr>)))"

text \<open>The size, whether it is known, and the one error reported.\<close>

definition ImageLayerBytes ::
  "'u walk_env \<Rightarrow> scan_request \<Rightarrow> ('u, 64 word \<times> bool \<times> go_error option) walk_m" where
  "ImageLayerBytes e req =
     (let c = \<lparr>oc_username = sq_auth_username req, oc_password = sq_auth_token req\<rparr>;
          u = manifest_url (request_base_url req) (sq_repository req) (sq_digest req)
      in if \<not> we_url_ok e u then wret (0, False, None)
         else wtry (client_get e c ''GET'' u [mediaTypeOCIManifest, mediaTypeDockerManifest])
           (\<lambda>err. wret (0, False, if errors_is err ErrDenied then Some err else None))
           (\<lambda>resp. if hs_status resp \<noteq> 200 then wret (0, False, None)
              else case we_dec_manifest e (hs_body resp) of
                     None \<Rightarrow> wret (0, False, None)
                   | Some manifest \<Rightarrow>
                       if sint (totalLayerBytes manifest) \<le> 0 then wret (0, False, None)
                       else wret (totalLayerBytes manifest, True, None)))"

end
