(* ===== verification/CatalogWalk.thy ===== *)
theory CatalogWalk
  imports OciClient "HOL-Library.AList"
begin

text \<open>
  The walk of a registry's catalog: \<^verbatim>\<open>internal/scanner/catalog.go\<close> (the walk), \<^verbatim>\<open>discover_ghcr.go\<close>,
  \<^verbatim>\<open>discover_harbor.go\<close> and \<^verbatim>\<open>discover_zot.go\<close> (manifests without a tag), \<^verbatim>\<open>created.go\<close> (build dates),
  \<^verbatim>\<open>preview.go\<close> and \<^verbatim>\<open>poller.go\<close>. Log lines and spans are left out.
\<close>

section \<open>Discovering untagged manifests\<close>

record DiscoveredManifest =
  dm_digest :: string
  dm_media_type :: string
  dm_tag :: string
  dm_arch :: string

text \<open>\<open>strings.SplitN(repo, "/", 2)\<close> must give two parts.\<close>

definition splitRepo :: "string \<Rightarrow> (string \<times> string) option" where
  "splitRepo repo = (case splitn (CHR ''/'') 2 repo of [a, b] \<Rightarrow> Some (a, b) | _ \<Rightarrow> None)"

text \<open>\<open>linkNextRe\<close>: an opening angle bracket, a target that is not empty, the closing one, a semicolon, white
  space and \<open>rel="next"\<close>, at the leftmost place.\<close>

definition re_space :: "char \<Rightarrow> bool" where
  "re_space c \<longleftrightarrow> List.member [9, 10, 12, 13, 32] (byte_of c)"

definition rel_next :: string where
  "rel_next = ''rel='' @ [char_of (34::nat)] @ ''next'' @ [char_of (34::nat)]"

fun parseNextLink :: "string \<Rightarrow> string" where
  "parseNextLink [] = []"
| "parseNextLink (x # xs) =
     (let target = takeWhile (\<lambda>c. c \<noteq> CHR ''>'') xs;
          rest = drop (length target) xs
      in if x = CHR ''<'' \<and> target \<noteq> [] \<and> has_prefix rest ''>;'' \<and>
            has_prefix (dropWhile re_space (drop 2 rest)) rel_next
         then target else parseNextLink xs)"

definition ghcr_manifests :: "(string \<times> string list) list \<Rightarrow> DiscoveredManifest list" where
  "ghcr_manifests versions =
     map (\<lambda>(name, tags). \<lparr>dm_digest = name, dm_media_type = mediaTypeOCIManifest,
            dm_tag = (case tags of [] \<Rightarrow> [] | t # _ \<Rightarrow> t), dm_arch = []\<rparr>)
       (filter (\<lambda>(name, tags). name \<noteq> []) versions)"

fun ghcr_versions ::
  "'u walk_env \<Rightarrow> string \<Rightarrow> nat \<Rightarrow> string \<Rightarrow> DiscoveredManifest list \<Rightarrow>
   ('u, DiscoveredManifest list result) walk_m"
where
  "ghcr_versions e authToken n endpoint found =
     (if endpoint = [] then wret (Inr found)
      else if \<not> we_url_ok e endpoint then wret (Inl (OtherError ''creating request''))
      else case n of 0 \<Rightarrow> wstop OutOfFuel | Suc m \<Rightarrow>
        wtry (base_round_trip e \<lparr>hr_method = ''GET'', hr_url = endpoint, hr_accept = [''application/vnd.github+json''],
                hr_auth = (if authToken \<noteq> [] then BearerAuth authToken else NoAuth), hr_body = []\<rparr>)
          (\<lambda>err. wret (Inl (Wrapped ''github packages request'' err)))
          (\<lambda>resp. if hs_status resp = 404 then wret (Inl (OtherError ''github packages returned 404''))
             else if hs_status resp \<noteq> 200 then wret (Inl (http_status_error ''github packages'' (hs_status resp)))
             else case we_dec_versions e (hs_body resp) of
                    None \<Rightarrow> wret (Inl (OtherError ''decoding github response''))
                  | Some versions \<Rightarrow>
                      ghcr_versions e authToken m (parseNextLink (map_str (hs_headers resp) ''Link''))
                        (found @ ghcr_manifests versions)))"

declare ghcr_versions.simps [simp del]

definition listVersions ::
  "'u walk_env \<Rightarrow> string \<Rightarrow> string \<Rightarrow> string \<Rightarrow> string \<Rightarrow> ('u, DiscoveredManifest list result) walk_m" where
  "listVersions e authToken ownerType owner name =
     ghcr_versions e authToken (we_fuel e)
       (''https://api.github.com/'' @ ownerType @ ''/'' @ owner @ ''/packages/container/'' @ name
        @ ''/versions?per_page=100'') []"

definition ghcr_DiscoverManifests ::
  "'u walk_env \<Rightarrow> string \<Rightarrow> string \<Rightarrow> ('u, DiscoveredManifest list result) walk_m" where
  "ghcr_DiscoverManifests e authToken repo =
     (case splitRepo repo of
        None \<Rightarrow> wret (Inl (OtherError ''cannot split GHCR repo''))
      | Some (owner, name) \<Rightarrow>
          wtry (listVersions e authToken ''orgs'' owner name)
            (\<lambda>_. listVersions e authToken ''users'' owner name)
            (\<lambda>versions. wret (Inr versions)))"

definition harbor_manifests :: "(string \<times> string \<times> string list \<times> string) list \<Rightarrow> DiscoveredManifest list" where
  "harbor_manifests artifacts =
     map (\<lambda>(digest, mt, tags, arch). \<lparr>dm_digest = digest, dm_media_type = mt,
            dm_tag = (case tags of [] \<Rightarrow> [] | t # _ \<Rightarrow> t), dm_arch = arch\<rparr>)
       (filter (\<lambda>(digest, mt, tags, arch). digest \<noteq> []) artifacts)"

definition harbor_page_size :: nat where "harbor_page_size = 100"

definition harbor_auth :: "registry \<Rightarrow> http_auth" where
  "harbor_auth reg =
     (let token = derefStr (rg_auth_token reg); user = derefStr (rg_auth_username reg)
      in if token \<noteq> [] then BasicAuth (if user = [] then ''ocidex'' else user) token else NoAuth)"

fun harbor_pages ::
  "'u walk_env \<Rightarrow> oci_client \<Rightarrow> http_auth \<Rightarrow> string \<Rightarrow> nat \<Rightarrow> nat \<Rightarrow> DiscoveredManifest list \<Rightarrow>
   ('u, DiscoveredManifest list result) walk_m"
where
  "harbor_pages e c auth prefix 0 page found = wstop OutOfFuel"
| "harbor_pages e c auth prefix (Suc n) page found =
     (let endpoint = prefix @ ''/artifacts?page='' @ show_nat page @ ''&page_size='' @ show_nat harbor_page_size
      in if \<not> we_url_ok e endpoint then wret (Inl (OtherError ''creating request''))
         else wtry (RoundTrip e c \<lparr>hr_method = ''GET'', hr_url = endpoint, hr_accept = [], hr_auth = auth, hr_body = []\<rparr>)
           (\<lambda>err. wret (Inl (Wrapped ''harbor artifacts request'' err)))
           (\<lambda>resp. if hs_status resp \<noteq> 200 then wret (Inl (http_status_error ''harbor artifacts'' (hs_status resp)))
              else case we_dec_artifacts e (hs_body resp) of
                     None \<Rightarrow> wret (Inl (OtherError ''decoding harbor response''))
                   | Some artifacts \<Rightarrow>
                       if length artifacts < harbor_page_size then wret (Inr (found @ harbor_manifests artifacts))
                       else harbor_pages e c auth prefix n (page + 1) (found @ harbor_manifests artifacts)))"

definition harbor_DiscoverManifests ::
  "'u walk_env \<Rightarrow> oci_client \<Rightarrow> registry \<Rightarrow> string \<Rightarrow> string \<Rightarrow> ('u, DiscoveredManifest list result) walk_m" where
  "harbor_DiscoverManifests e c reg baseURL repo =
     (case splitRepo repo of
        None \<Rightarrow> wret (Inl (OtherError ''cannot split Harbor repo''))
      | Some (project, repoPath) \<Rightarrow>
          harbor_pages e c (harbor_auth reg)
            (baseURL @ ''/api/v2.0/projects/'' @ project @ ''/repositories/'' @ PathEscape repoPath)
            (we_fuel e) 1 [])"

definition zot_DiscoverManifests ::
  "'u walk_env \<Rightarrow> oci_client \<Rightarrow> string \<Rightarrow> string \<Rightarrow> ('u, DiscoveredManifest list result) walk_m" where
  "zot_DiscoverManifests e c baseURL repo =
     (let u = baseURL @ ''/v2/_zot/ext/search''
      in if \<not> we_url_ok e u then wret (Inl (OtherError ''creating request''))
         else wtry (RoundTrip e c \<lparr>hr_method = ''POST'', hr_url = u, hr_accept = [], hr_auth = NoAuth,
                      hr_body = we_zot_query e repo\<rparr>)
           (\<lambda>err. wret (Inl (Wrapped ''zot search request'' err)))
           (\<lambda>resp. if hs_status resp = 404 \<or> hs_status resp = 400
              then wret (Inl (http_status_error ''zot search extension not available'' (hs_status resp)))
              else if hs_status resp \<noteq> 200 then wret (Inl (http_status_error ''zot search'' (hs_status resp)))
              else case we_dec_images e (hs_body resp) of
                     None \<Rightarrow> wret (Inl (OtherError ''decoding zot search response''))
                   | Some images \<Rightarrow>
                       wret (Inr (map (\<lambda>(digest, mt, tag). \<lparr>dm_digest = digest, dm_media_type = mt, dm_tag = tag, dm_arch = []\<rparr>)
                                    (filter (\<lambda>(digest, mt, tag). digest \<noteq> []) images)))))"

text \<open>\<open>discovererForType\<close>: the three registered types; any other has a discoverer that fails.\<close>

definition DiscoverManifests ::
  "'u walk_env \<Rightarrow> oci_client \<Rightarrow> registry \<Rightarrow> string \<Rightarrow> string \<Rightarrow> ('u, DiscoveredManifest list result) walk_m" where
  "DiscoverManifests e c reg baseURL repo =
     (if rg_type reg = ''ghcr'' then ghcr_DiscoverManifests e (derefStr (rg_auth_token reg)) repo
      else if rg_type reg = ''harbor'' then harbor_DiscoverManifests e c reg baseURL repo
      else if rg_type reg = ''zot'' then zot_DiscoverManifests e c baseURL repo
      else wret (Inl (OtherError (''unsupported registry type '' @ rg_type reg))))"

section \<open>Build dates\<close>

definition createdCacheMax :: nat where "createdCacheMax = 100000"

definition cachedCreated :: "string \<Rightarrow> ('u, int option) walk_m \<Rightarrow> ('u, int option) walk_m" where
  "cachedCreated digest fetch =
     wbind (wread (\<lambda>s. map_of (io_created s) digest)) (\<lambda>hit.
       case hit of
         Some t \<Rightarrow> wret t
       | None \<Rightarrow> wbind fetch (\<lambda>t.
           wbind (wmod (\<lambda>s. s\<lparr>io_created := (digest, t) #
                     (if length (io_created s) \<ge> createdCacheMax then [] else io_created s)\<rparr>)) (\<lambda>_. wret t)))"

definition parseCreated :: "'u walk_env \<Rightarrow> string \<Rightarrow> int option" where
  "parseCreated e s = we_parse_time e (trim_space s)"

definition manifestCreated ::
  "'u walk_env \<Rightarrow> oci_client \<Rightarrow> string \<Rightarrow> string \<Rightarrow> string \<Rightarrow> string \<Rightarrow> ('u, int option) walk_m" where
  "manifestCreated e c baseURL repo digest mediaType =
     (if isIndexMediaType mediaType then
        wtry (ociIndexCreated e c baseURL repo digest) (\<lambda>_. wret None) (\<lambda>(created, first).
          case parseCreated e created of
            Some t \<Rightarrow> wret (Some t)
          | None \<Rightarrow> if first = [] then wret None
                    else wbind (ociGetImageMetadata e c baseURL repo first) (\<lambda>meta.
                           wret (parseCreated e (im_build_date meta))))
      else wbind (ociGetImageMetadata e c baseURL repo digest) (\<lambda>meta.
             wret (parseCreated e (im_build_date meta))))"

definition tagCreated ::
  "'u walk_env \<Rightarrow> oci_client \<Rightarrow> string \<Rightarrow> string \<Rightarrow> string \<Rightarrow> ('u, int option) walk_m" where
  "tagCreated e c baseURL repo tag =
     wtry (ociHeadManifest e c baseURL repo tag) (\<lambda>_. wret None) (\<lambda>info.
       if mi_digest info = [] then wret None
       else cachedCreated (mi_digest info)
              (manifestCreated e c baseURL repo (mi_digest info) (mi_media_type info)))"

definition digestCreated ::
  "'u walk_env \<Rightarrow> oci_client \<Rightarrow> string \<Rightarrow> string \<Rightarrow> (string \<times> DiscoveredManifest) list \<Rightarrow> string \<Rightarrow>
   ('u, int option) walk_m" where
  "digestCreated e c baseURL repo manifests digest =
     cachedCreated digest (manifestCreated e c baseURL repo digest
       (case map_of manifests digest of None \<Rightarrow> [] | Some m \<Rightarrow> dm_media_type m))"

text \<open>The loop of \<open>selectWindow\<close> that reads the date of each candidate, in order.\<close>

fun created_dates ::
  "(string \<Rightarrow> ('u, int option) walk_m) \<Rightarrow> string list \<Rightarrow> (string \<times> int) list \<Rightarrow> ('u, (string \<times> int) list) walk_m"
where
  "created_dates created [] dates = wret dates"
| "created_dates created (ref # refs) dates =
     wbind (created ref) (\<lambda>t.
       created_dates created refs (case t of None \<Rightarrow> dates | Some x \<Rightarrow> (ref, x) # dates))"

section \<open>Selecting what to scan\<close>

definition matchingRepos ::
  "'u walk_env \<Rightarrow> oci_client \<Rightarrow> string \<Rightarrow> registry \<Rightarrow> ('u, string list result) walk_m" where
  "matchingRepos e c baseURL reg =
     (let narrow = (\<lambda>repos. wret (Inr (filter (MatchesRepository reg) repos)))
      in if rg_repositories reg = []
         then wtry (ociListCatalog e c baseURL) (\<lambda>err. wret (Inl (Wrapped ''listing catalog'' err))) narrow
         else narrow (rg_repositories reg))"

text \<open>The candidates of the window: the tags the filter accepts, cosign's attached artifacts left out.\<close>

definition tag_candidates :: "registry \<Rightarrow> string list \<Rightarrow> string list" where
  "tag_candidates reg tags = filter (\<lambda>tag. MatchesTag reg tag \<and> \<not> IsAttachedArtifactTag tag) tags"

definition selectRepoTags ::
  "'u walk_env \<Rightarrow> oci_client \<Rightarrow> string \<Rightarrow> string \<Rightarrow> registry \<Rightarrow> ('u, (tag_window \<times> nat) result) walk_m" where
  "selectRepoTags e c baseURL repo reg =
     wtry (ociListTags e c baseURL repo) (\<lambda>err. wret (Inl err)) (\<lambda>tags.
       let candidates = tag_candidates reg tags in
       wbind (wread (\<lambda>s. we_now e (io_net s))) (\<lambda>now.
       wbind (if EffectiveTagOrder reg = TagOrderCreated
              then created_dates (tagCreated e c baseURL repo) candidates [] else wret []) (\<lambda>dates.
         wret (Inr (SelectTags (we_add_date e) reg candidates (map_of dates) now, length candidates)))))"

text \<open>\<open>untagged\<close> and \<open>digests\<close>: the first manifest of each digest, in order.\<close>

fun collect_untagged ::
  "DiscoveredManifest list \<Rightarrow> (string \<times> DiscoveredManifest) list \<Rightarrow> (string \<times> DiscoveredManifest) list" where
  "collect_untagged [] acc = acc"
| "collect_untagged (m # ms) acc =
     (if dm_tag m \<noteq> [] \<or> \<not> isImageManifestType (dm_media_type m) then collect_untagged ms acc
      else if map_of acc (dm_digest m) \<noteq> None then collect_untagged ms acc
      else collect_untagged ms (acc @ [(dm_digest m, m)]))"

definition selectUntagged ::
  "'u walk_env \<Rightarrow> oci_client \<Rightarrow> string \<Rightarrow> string \<Rightarrow> registry \<Rightarrow>
   ('u, (tag_window \<times> (string \<times> DiscoveredManifest) list) result) walk_m" where
  "selectUntagged e c baseURL repo reg =
     wtry (DiscoverManifests e c reg baseURL repo) (\<lambda>err. wret (Inl err)) (\<lambda>manifests.
       let untagged = collect_untagged manifests []; digests = map fst untagged in
       wbind (wread (\<lambda>s. we_now e (io_net s))) (\<lambda>now.
       wbind (created_dates (digestCreated e c baseURL repo untagged) digests []) (\<lambda>dates.
         wret (Inr (SelectUntagged (we_add_date e) reg digests (map_of dates) now, untagged)))))"

section \<open>Submitting\<close>

definition walk_request ::
  "registry \<Rightarrow> string \<Rightarrow> string \<Rightarrow> string \<Rightarrow> string \<Rightarrow> string \<Rightarrow> imageMetadata \<Rightarrow> scan_request" where
  "walk_request reg repo digest indexDigest tag arch meta =
     \<lparr>sq_registry_url = rg_url reg, sq_insecure = rg_insecure reg, sq_repository = repo, sq_digest = digest,
      sq_index_digest = indexDigest, sq_tag = tag, sq_architecture = arch, sq_build_date = im_build_date meta,
      sq_image_version = im_image_version meta, sq_auth_username = derefStr (rg_auth_username reg),
      sq_auth_token = derefStr (rg_auth_token reg), sq_registry_id = rg_id reg, sq_cluster_id = [],
      sq_force = False\<rparr>"

text \<open>\<open>sub.Submit\<close>: whether the submitter took the request.\<close>

definition submit_scan :: "'u walk_env \<Rightarrow> scan_request \<Rightarrow> ('u, bool) walk_m" where
  "submit_scan e req =
     (\<lambda>s. case we_submit e (io_net s) req of (u, ok) \<Rightarrow>
        (s\<lparr>io_net := u, io_sent := io_sent s @ [(req, ok)]\<rparr>, Returned ok))"

definition ForceSubmitter :: "'u walk_env \<Rightarrow> 'u walk_env" where
  "ForceSubmitter e = e\<lparr>we_submit := (\<lambda>u req. we_submit e u (req\<lparr>sq_force := True\<rparr>))\<rparr>"

text \<open>\<open>if scannedDigests[d] { ... }; scannedDigests[d] = true\<close>: whether the digest was seen before.\<close>

definition seen_before :: "string \<Rightarrow> ('u, bool) walk_m" where
  "seen_before d =
     (\<lambda>s. if List.member (io_scanned s) d then (s, Returned True)
          else (s\<lparr>io_scanned := d # io_scanned s\<rparr>, Returned False))"

definition bump :: "bool \<Rightarrow> int \<Rightarrow> int" where
  "bump ok queued = (if ok then queued + 1 else queued)"

fun submit_platforms ::
  "'u walk_env \<Rightarrow> oci_client \<Rightarrow> string \<Rightarrow> string \<Rightarrow> string \<Rightarrow> string \<Rightarrow> registry \<Rightarrow> platformEntry list \<Rightarrow> int \<Rightarrow>
   ('u, int) walk_m"
where
  "submit_platforms e c baseURL repo tag indexDigest reg [] queued = wret queued"
| "submit_platforms e c baseURL repo tag indexDigest reg (p # ps) queued =
     wbind (seen_before (pl_digest p)) (\<lambda>dup.
       if dup then submit_platforms e c baseURL repo tag indexDigest reg ps queued
       else wbind (ociGetImageMetadata e c baseURL repo (pl_digest p)) (\<lambda>meta.
         if im_attached meta then submit_platforms e c baseURL repo tag indexDigest reg ps queued
         else let arch = (if pl_arch p = [] then im_architecture meta else pl_arch p) in
           wbind (submit_scan e (walk_request reg repo (pl_digest p) indexDigest tag arch meta)) (\<lambda>ok.
             submit_platforms e c baseURL repo tag indexDigest reg ps (bump ok queued))))"

definition scanIndex ::
  "'u walk_env \<Rightarrow> oci_client \<Rightarrow> string \<Rightarrow> string \<Rightarrow> string \<Rightarrow> string \<Rightarrow> registry \<Rightarrow> ('u, int) walk_m" where
  "scanIndex e c baseURL repo tag indexDigest reg =
     wtry (ociExpandIndex e c baseURL repo indexDigest) (\<lambda>_. wret 0)
       (\<lambda>platforms. submit_platforms e c baseURL repo tag indexDigest reg platforms 0)"

text \<open>The same for an index without a tag.\<close>

definition submitUntaggedIndex ::
  "'u walk_env \<Rightarrow> oci_client \<Rightarrow> string \<Rightarrow> string \<Rightarrow> string \<Rightarrow> registry \<Rightarrow> ('u, int) walk_m" where
  "submitUntaggedIndex e c baseURL repo indexDigest reg =
     wtry (ociExpandIndex e c baseURL repo indexDigest) (\<lambda>_. wret 0)
       (\<lambda>platforms. submit_platforms e c baseURL repo [] indexDigest reg platforms 0)"

definition scanTag ::
  "'u walk_env \<Rightarrow> oci_client \<Rightarrow> string \<Rightarrow> string \<Rightarrow> string \<Rightarrow> registry \<Rightarrow> ('u, int \<times> string) walk_m" where
  "scanTag e c baseURL repo tag reg =
     wtry (ociHeadManifest e c baseURL repo tag) (\<lambda>_. wret (0, [])) (\<lambda>info.
       if mi_digest info = [] then wret (0, [])
       else wbind (seen_before (mi_digest info)) (\<lambda>dup.
         if dup then wret (0, mi_digest info)
         else if isIndexMediaType (mi_media_type info) then
           wbind (scanIndex e c baseURL repo tag (mi_digest info) reg) (\<lambda>n. wret (n, mi_digest info))
         else if \<not> isImageManifestType (mi_media_type info) then wret (0, mi_digest info)
         else wbind (ociGetImageMetadata e c baseURL repo (mi_digest info)) (\<lambda>meta.
           if im_attached meta then wret (0, mi_digest info)
           else wbind (submit_scan e (walk_request reg repo (mi_digest info) [] tag (im_architecture meta) meta))
                  (\<lambda>ok. wret (bump ok 0, mi_digest info)))))"

fun scan_tags ::
  "'u walk_env \<Rightarrow> oci_client \<Rightarrow> string \<Rightarrow> string \<Rightarrow> registry \<Rightarrow> string list \<Rightarrow> int \<times> bool \<times> string list \<Rightarrow>
   ('u, int \<times> bool \<times> string list) walk_m"
where
  "scan_tags e c baseURL repo reg [] acc = wret acc"
| "scan_tags e c baseURL repo reg (tag # tags) (queued, covered, selected) =
     wbind (scanTag e c baseURL repo tag reg) (\<lambda>(n, digest).
       if digest = [] then scan_tags e c baseURL repo reg tags (queued + n, False, selected)
       else scan_tags e c baseURL repo reg tags (queued + n, covered, selected @ [digest]))"

fun submit_untagged ::
  "'u walk_env \<Rightarrow> oci_client \<Rightarrow> string \<Rightarrow> string \<Rightarrow> registry \<Rightarrow> (string \<times> DiscoveredManifest) list \<Rightarrow>
   string list \<Rightarrow> int \<Rightarrow> ('u, int) walk_m"
where
  "submit_untagged e c baseURL repo reg untagged [] queued = wret queued"
| "submit_untagged e c baseURL repo reg untagged (d # ds) queued =
     (case map_of untagged d of
        None \<Rightarrow> submit_untagged e c baseURL repo reg untagged ds queued
      | Some m \<Rightarrow>
         wbind (seen_before (dm_digest m)) (\<lambda>dup.
           if dup then submit_untagged e c baseURL repo reg untagged ds queued
           else if isIndexMediaType (dm_media_type m) then
             wbind (submitUntaggedIndex e c baseURL repo (dm_digest m) reg) (\<lambda>n.
               submit_untagged e c baseURL repo reg untagged ds (queued + n))
           else wbind (ociGetImageMetadata e c baseURL repo (dm_digest m)) (\<lambda>meta.
             if im_attached meta then submit_untagged e c baseURL repo reg untagged ds queued
             else let arch = (if dm_arch m = [] then im_architecture meta else dm_arch m) in
               wbind (submit_scan e (walk_request reg repo (dm_digest m) [] [] arch meta)) (\<lambda>ok.
                 submit_untagged e c baseURL repo reg untagged ds (bump ok queued)))))"

definition discoverUntagged ::
  "'u walk_env \<Rightarrow> oci_client \<Rightarrow> string \<Rightarrow> string \<Rightarrow> registry \<Rightarrow> ('u, int \<times> string list \<times> bool) walk_m" where
  "discoverUntagged e c baseURL repo reg =
     wtry (selectUntagged e c baseURL repo reg) (\<lambda>_. wret (0, [], False)) (\<lambda>(window, untagged).
       wbind (submit_untagged e c baseURL repo reg untagged (tw_selected window) 0) (\<lambda>queued.
         wret (queued, tw_selected window, True)))"

section \<open>The walk\<close>

definition zero_stats :: walk_stats where
  "zero_stats = \<lparr>ws_at = 0, ws_repositories = 0, ws_matched = 0, ws_selected = 0, ws_skipped_by_limit = 0,
                 ws_skipped_by_age = 0, ws_queued = 0, ws_error = [], ws_windows = []\<rparr>"

definition add_window :: "walk_stats \<Rightarrow> tag_window \<Rightarrow> nat \<Rightarrow> walk_stats" where
  "add_window stats window matched =
     stats\<lparr>ws_matched := ws_matched stats + int matched,
           ws_selected := ws_selected stats + int (length (tw_selected window)),
           ws_skipped_by_limit := ws_skipped_by_limit stats + int (tw_skipped_by_limit window),
           ws_skipped_by_age := ws_skipped_by_age stats + int (tw_skipped_by_age window)\<rparr>"

definition walkRepo ::
  "'u walk_env \<Rightarrow> oci_client \<Rightarrow> string \<Rightarrow> registry \<Rightarrow> string list \<Rightarrow> string \<Rightarrow> walk_stats \<Rightarrow>
   ('u, walk_stats) walk_m" where
  "walkRepo e c baseURL reg knownDigests repo stats =
     wbind (wmod (\<lambda>s. s\<lparr>io_scanned := knownDigests\<rparr>)) (\<lambda>_.
     wtry (selectRepoTags e c baseURL repo reg) (\<lambda>_. wret stats) (\<lambda>(window, matched).
     wbind (scan_tags e c baseURL repo reg (tw_selected window) (0, True, [])) (\<lambda>(queued, covered, selected).
     wbind (if rg_include_untagged reg then discoverUntagged e c baseURL repo reg else wret (0, [], True))
       (\<lambda>(n, digests, ok).
         let stats1 = add_window stats window matched;
             stats2 = stats1\<lparr>ws_queued := ws_queued stats1 + queued + n\<rparr>
         in wret (if covered \<and> ok
                  then stats2\<lparr>ws_windows := AList.update repo (selected @ digests) (ws_windows stats2)\<rparr>
                  else stats2)))))"

fun walk_repos ::
  "'u walk_env \<Rightarrow> oci_client \<Rightarrow> string \<Rightarrow> registry \<Rightarrow> string list \<Rightarrow> string list \<Rightarrow> walk_stats \<Rightarrow>
   ('u, walk_stats) walk_m"
where
  "walk_repos e c baseURL reg knownDigests [] stats = wret stats"
| "walk_repos e c baseURL reg knownDigests (repo # repos) stats =
     wbind (walkRepo e c baseURL reg knownDigests repo stats)
       (\<lambda>stats1. walk_repos e c baseURL reg knownDigests repos stats1)"

text \<open>The statistics and the error. The client is new, so its token cache is empty.\<close>

definition WalkRegistryStats ::
  "'u walk_env \<Rightarrow> registry \<Rightarrow> string list \<Rightarrow> ('u, walk_stats \<times> go_error option) walk_m" where
  "WalkRegistryStats e reg knownDigests =
     (let baseURL = registry_base_url reg; c = registryClient reg in
      wbind (wmod (\<lambda>s. s\<lparr>io_tokens := []\<rparr>)) (\<lambda>_.
      wbind (matchingRepos e c baseURL reg) (\<lambda>r.
        case r of
          Inl err \<Rightarrow> wbind (wread (\<lambda>s. we_now e (io_net s))) (\<lambda>now.
            wret (zero_stats\<lparr>ws_at := now, ws_error := we_error_text e err\<rparr>, Some err))
        | Inr repos \<Rightarrow>
            wbind (walk_repos e c baseURL reg knownDigests repos zero_stats) (\<lambda>stats.
            wbind (wread (\<lambda>s. we_now e (io_net s))) (\<lambda>now.
              wret (stats\<lparr>ws_repositories := int (length repos), ws_at := now\<rparr>, None))))))"

definition WalkRegistry ::
  "'u walk_env \<Rightarrow> registry \<Rightarrow> string list \<Rightarrow> ('u, int \<times> go_error option) walk_m" where
  "WalkRegistry e reg knownDigests =
     wbind (WalkRegistryStats e reg knownDigests) (\<lambda>(stats, err). wret (ws_queued stats, err))"

text \<open>\<open>lister\<close>: the digests of a source (a nil lister and a failed listing answer \<open>None\<close>).\<close>

definition FetchKnownDigests :: "(string \<Rightarrow> string list option) \<Rightarrow> string \<Rightarrow> string list" where
  "FetchKnownDigests lister registryID =
     (if registryID = [] then [] else case lister registryID of None \<Rightarrow> [] | Some ds \<Rightarrow> ds)"

text \<open>\<open>RecordWalk\<close>: the call to \<open>RecordWalkStats\<close> it makes, if any; a failure of it is only logged.\<close>

definition RecordWalk :: "bool \<Rightarrow> registry \<Rightarrow> walk_stats \<Rightarrow> (string \<times> walk_stats) option" where
  "RecordWalk has_recorder reg stats =
     (if \<not> has_recorder \<or> rg_id reg = [] then None else Some (rg_id reg, stats))"

definition DirectWalker_Walk ::
  "'u walk_env \<Rightarrow> (string \<Rightarrow> string list option) \<Rightarrow> bool \<Rightarrow> registry \<Rightarrow>
   ('u, int \<times> go_error option \<times> (string \<times> walk_stats) option) walk_m" where
  "DirectWalker_Walk e lister has_recorder reg =
     wbind (WalkRegistryStats e reg (FetchKnownDigests lister (rg_id reg))) (\<lambda>(stats, err).
       wret (ws_queued stats, err, RecordWalk has_recorder reg stats))"

section \<open>A walk requested over NATS\<close>

datatype verdict = Ack | Nak | Term

text \<open>\<open>handleMsg\<close>: what becomes of the message and the recorded statistics. \<open>payload\<close> is the registry id
  of the message, \<open>None\<close> when the envelope or its payload does not decode; \<open>get_registry\<close> is the service's
  \<open>Get\<close>.\<close>

definition handleMsg ::
  "'u walk_env \<Rightarrow> (string \<Rightarrow> registry result) \<Rightarrow> (string \<Rightarrow> string list option) \<Rightarrow> string option \<Rightarrow>
   ('u, verdict \<times> (string \<times> walk_stats) option) walk_m" where
  "handleMsg e get_registry lister payload =
     (case payload of None \<Rightarrow> wret (Term, None)
      | Some registry_id \<Rightarrow> (case get_registry registry_id of
          Inl _ \<Rightarrow> wret (Nak, None)
        | Inr reg \<Rightarrow>
            wbind (WalkRegistryStats e reg (FetchKnownDigests lister (rg_id reg))) (\<lambda>(stats, err).
              wret (case err of
                      None \<Rightarrow> Ack
                    | Some x \<Rightarrow> if errors_is x ErrDenied then Term else Nak,
                    RecordWalk True reg stats))))"

section \<open>The preview\<close>

record RepoPreview =
  rp_repository :: string
  rp_matched :: int
  rp_selected :: int
  rp_skipped_by_limit :: int
  rp_skipped_by_age :: int
  rp_untagged :: int
  rp_platforms :: int
  rp_estimated_sboms :: int
  rp_error :: string

record RegistryPreview =
  gp_repositories :: "RepoPreview list"
  gp_selected :: int
  gp_skipped_by_limit :: int
  gp_estimated_sboms :: int

definition tagPlatforms ::
  "'u walk_env \<Rightarrow> oci_client \<Rightarrow> string \<Rightarrow> string \<Rightarrow> string \<Rightarrow> ('u, int) walk_m" where
  "tagPlatforms e c baseURL repo tag =
     wtry (ociHeadManifest e c baseURL repo tag) (\<lambda>_. wret 0) (\<lambda>info.
       if mi_digest info = [] then wret 0
       else if \<not> isIndexMediaType (mi_media_type info) then wret 1
       else wtry (ociExpandIndex e c baseURL repo (mi_digest info)) (\<lambda>_. wret 0)
              (\<lambda>platforms. wret (int (length platforms))))"

definition previewRepo ::
  "'u walk_env \<Rightarrow> oci_client \<Rightarrow> string \<Rightarrow> registry \<Rightarrow> string \<Rightarrow> ('u, RepoPreview) walk_m" where
  "previewRepo e c baseURL reg repo =
     (let p = \<lparr>rp_repository = repo, rp_matched = 0, rp_selected = 0, rp_skipped_by_limit = 0,
               rp_skipped_by_age = 0, rp_untagged = 0, rp_platforms = 0, rp_estimated_sboms = 0, rp_error = []\<rparr>
      in wtry (selectRepoTags e c baseURL repo reg) (\<lambda>err. wret (p\<lparr>rp_error := we_error_text e err\<rparr>))
           (\<lambda>(window, matched).
             let sel = tw_selected window;
                 p1 = p\<lparr>rp_matched := int matched, rp_selected := int (length sel),
                        rp_skipped_by_limit := int (tw_skipped_by_limit window),
                        rp_skipped_by_age := int (tw_skipped_by_age window)\<rparr>
             in wbind (case sel of [] \<Rightarrow> wret 0 | tag # _ \<Rightarrow> tagPlatforms e c baseURL repo tag) (\<lambda>platforms.
                wbind (if rg_include_untagged reg
                       then wtry (selectUntagged e c baseURL repo reg)
                              (\<lambda>err. wret (0, we_error_text e err))
                              (\<lambda>(w, _). wret (length (tw_selected w), []))
                       else wret (0, [])) (\<lambda>(untagged, err).
                  wret (p1\<lparr>rp_platforms := platforms, rp_untagged := int untagged, rp_error := err,
                           rp_estimated_sboms := int (length sel) * platforms + int untagged\<rparr>)))))"

fun preview_repos ::
  "'u walk_env \<Rightarrow> oci_client \<Rightarrow> string \<Rightarrow> registry \<Rightarrow> string list \<Rightarrow> RegistryPreview \<Rightarrow>
   ('u, RegistryPreview) walk_m"
where
  "preview_repos e c baseURL reg [] out = wret out"
| "preview_repos e c baseURL reg (repo # repos) out =
     wbind (previewRepo e c baseURL reg repo) (\<lambda>p.
       preview_repos e c baseURL reg repos
         \<lparr>gp_repositories = gp_repositories out @ [p], gp_selected = gp_selected out + rp_selected p,
          gp_skipped_by_limit = gp_skipped_by_limit out + rp_skipped_by_limit p,
          gp_estimated_sboms = gp_estimated_sboms out + rp_estimated_sboms p\<rparr>)"

definition PreviewRegistry :: "'u walk_env \<Rightarrow> registry \<Rightarrow> ('u, RegistryPreview result) walk_m" where
  "PreviewRegistry e reg =
     (let baseURL = registry_base_url reg; c = registryClient reg in
      wbind (wmod (\<lambda>s. s\<lparr>io_tokens := []\<rparr>)) (\<lambda>_.
      wtry (matchingRepos e c baseURL reg) (\<lambda>err. wret (Inl err)) (\<lambda>repos.
      wbind (preview_repos e c baseURL reg repos
               \<lparr>gp_repositories = [], gp_selected = 0, gp_skipped_by_limit = 0, gp_estimated_sboms = 0\<rparr>)
        (\<lambda>out. wret (Inr out)))))"

definition TagInWindow :: "'u walk_env \<Rightarrow> registry \<Rightarrow> string \<Rightarrow> string \<Rightarrow> ('u, bool result) walk_m" where
  "TagInWindow e reg repo tag =
     (if rg_tag_limit reg = 0 \<or> EffectiveTagOrder reg = TagOrderCreated then wret (Inr True)
      else wbind (wmod (\<lambda>s. s\<lparr>io_tokens := []\<rparr>)) (\<lambda>_.
           wtry (selectRepoTags e (registryClient reg) (registry_base_url reg) repo reg)
             (\<lambda>err. wret (Inl err))
             (\<lambda>(window, _). wret (Inr (List.member (tw_selected window) tag)))))"

section \<open>The poller\<close>

text \<open>Times are nanoseconds; \<open>isDue\<close> multiplies the interval, a 32-bit column, by a minute, which cannot
  overflow the 64 bits of a duration.\<close>

definition isDue :: "registry \<Rightarrow> int \<Rightarrow> bool" where
  "isDue reg now =
     (case rg_last_polled_at reg of None \<Rightarrow> True
      | Some t \<Rightarrow> now - t \<ge> rg_poll_interval_minutes reg * 60000000000)"

text \<open>One tick of the poller: the registries whose walk is started and the table of last polls after it.
  \<open>mark id\<close> says whether \<open>MarkPolled\<close> succeeds.\<close>

fun poll :: "(string \<Rightarrow> bool) \<Rightarrow> int \<Rightarrow> registry list \<Rightarrow> registry list" where
  "poll mark now [] = []"
| "poll mark now (reg # regs) =
     (if \<not> isDue reg now then poll mark now regs
      else if \<not> mark (rg_id reg) then poll mark now regs
      else reg # poll mark now regs)"

end
