(* ===== verification/WalkFrame.thy ===== *)
theory WalkFrame
  imports CatalogWalk
begin

text \<open>
  Reasoning about walks: which calls leave the digests handled and the requests sent alone, and how a
  precondition and a postcondition pass through a sequence of calls.
\<close>

section \<open>Calls that only read the registry\<close>

text \<open>A call is blind when it neither looks at nor changes the digests handled and the requests sent.\<close>

definition hide :: "string list \<Rightarrow> (scan_request \<times> bool) list \<Rightarrow> 'u walk_io \<Rightarrow> 'u walk_io" where
  "hide k l s = s\<lparr>io_scanned := k, io_sent := l\<rparr>"

definition blind :: "('u, 'a) walk_m \<Rightarrow> bool" where
  "blind m \<longleftrightarrow> (\<forall>s k l. m (hide k l s) = (hide k l (fst (m s)), snd (m s)))"

named_theorems blind_intros \<open>calls that are blind\<close>

lemma hide_simps [simp]:
  "io_net (hide k l s) = io_net s" "io_tokens (hide k l s) = io_tokens s"
  "io_created (hide k l s) = io_created s" "io_scanned (hide k l s) = k" "io_sent (hide k l s) = l"
  "(hide k l s)\<lparr>io_net := u\<rparr> = hide k l (s\<lparr>io_net := u\<rparr>)"
  "(hide k l s)\<lparr>io_tokens := t\<rparr> = hide k l (s\<lparr>io_tokens := t\<rparr>)"
  "(hide k l s)\<lparr>io_created := v\<rparr> = hide k l (s\<lparr>io_created := v\<rparr>)"
  "(hide k l s)\<lparr>io_scanned := k1\<rparr> = hide k1 l s"
  "(hide k l s)\<lparr>io_sent := l1\<rparr> = hide k l1 s"
  by (simp_all add: hide_def)

lemma hide_self: "hide (io_scanned s) (io_sent s) s = s"
  by (simp add: hide_def)

lemma blind_keeps:
  assumes "blind m"
  shows "io_scanned (fst (m s)) = io_scanned s" "io_sent (fst (m s)) = io_sent s"
proof -
  have "m s = (hide (io_scanned s) (io_sent s) (fst (m s)), snd (m s))"
    using assms unfolding blind_def by (metis hide_self)
  then have "fst (m s) = hide (io_scanned s) (io_sent s) (fst (m s))" by (metis fst_conv)
  then show "io_scanned (fst (m s)) = io_scanned s" "io_sent (fst (m s)) = io_sent s"
    by (metis hide_simps(4), metis hide_simps(5))
qed

lemma blind_wret [blind_intros]: "blind (wret x)"
  by (simp add: blind_def wret_def)

lemma blind_wstop [blind_intros]: "blind (wstop x)"
  by (simp add: blind_def wstop_def)

lemma blind_wbind [blind_intros]:
  assumes "blind m" and "\<And>x. blind (f x)"
  shows "blind (wbind m f)"
  unfolding blind_def
proof (intro allI)
  fix s k l
  show "wbind m f (hide k l s) = (hide k l (fst (wbind m f s)), snd (wbind m f s))"
  proof (cases "snd (m s)")
    case (Stopped x)
    then show ?thesis using assms(1) unfolding blind_def wbind_def by (simp add: prod.case_eq_if)
  next
    case (Returned x)
    then show ?thesis using assms(1) assms(2) [of x] unfolding blind_def wbind_def
      by (simp add: prod.case_eq_if)
  qed
qed

lemma blind_wtry [blind_intros]:
  assumes "blind m" and "\<And>err. blind (h err)" and "\<And>x. blind (f x)"
  shows "blind (wtry m h f)"
  unfolding wtry_def using assms by (intro blind_wbind) (auto split: sum.split)

lemma blind_base_round_trip [blind_intros]: "blind (base_round_trip e req)"
  by (simp add: blind_def base_round_trip_def prod.case_eq_if)

lemma blind_wread_tokens [blind_intros]: "blind (wread (\<lambda>s. f (io_tokens s)))"
  by (simp add: blind_def wread_def)

lemma blind_wread_created [blind_intros]: "blind (wread (\<lambda>s. f (io_created s)))"
  by (simp add: blind_def wread_def)

lemma blind_wread_net [blind_intros]: "blind (wread (\<lambda>s. f (io_net s)))"
  by (simp add: blind_def wread_def)

lemma blind_wmod_tokens [blind_intros]: "blind (wmod (\<lambda>s. s\<lparr>io_tokens := f (io_tokens s)\<rparr>))"
  by (simp add: blind_def wmod_def)

lemma blind_wmod_created [blind_intros]: "blind (wmod (\<lambda>s. s\<lparr>io_created := f (io_created s)\<rparr>))"
  by (simp add: blind_def wmod_def)

lemma blind_fetchToken [blind_intros]: "blind (fetchToken e c realm svc scope)"
  by (auto simp: fetchToken_def Let_def intro!: blind_intros split: option.split)

lemma blind_RoundTrip [blind_intros]: "blind (RoundTrip e c req)"
  by (auto simp: RoundTrip_def Let_def intro!: blind_intros split: prod.split)

lemma blind_client_get [blind_intros]: "blind (client_get e c meth u accept)"
  by (auto simp: client_get_def intro!: blind_intros)

lemma blind_list_pages [blind_intros]: "blind (list_pages e c base label items n next out)"
  by (induction n arbitrary: "next" out) (auto intro!: blind_intros split: sum.split)

lemma blind_ociListTags [blind_intros]: "blind (ociListTags e c base repo)"
  by (simp add: ociListTags_def ociListPaged_def blind_list_pages)

lemma blind_ociListCatalog [blind_intros]: "blind (ociListCatalog e c base)"
  by (simp add: ociListCatalog_def ociListPaged_def blind_list_pages)

lemma blind_ociHeadManifest [blind_intros]: "blind (ociHeadManifest e c base repo tag)"
  by (auto simp: ociHeadManifest_def intro!: blind_intros)

lemma blind_index_get [blind_intros]: "blind (index_get e c base repo d)"
  by (auto simp: index_get_def intro!: blind_intros split: option.split)

lemma blind_ociExpandIndex [blind_intros]: "blind (ociExpandIndex e c base repo d)"
  by (auto simp: ociExpandIndex_def intro!: blind_intros)

lemma blind_ociIndexCreated [blind_intros]: "blind (ociIndexCreated e c base repo d)"
  by (auto simp: ociIndexCreated_def intro!: blind_intros)

lemma blind_ociGetImageMetadata [blind_intros]: "blind (ociGetImageMetadata e c base repo d)"
  by (auto simp: ociGetImageMetadata_def Let_def intro!: blind_intros split: option.split)

lemma blind_cachedCreated [blind_intros]: "blind fetch \<Longrightarrow> blind (cachedCreated d fetch)"
  by (auto simp: cachedCreated_def intro!: blind_intros split: option.split)

lemma blind_manifestCreated [blind_intros]: "blind (manifestCreated e c base repo d mt)"
  by (auto simp: manifestCreated_def intro!: blind_intros split: option.split prod.split)

lemma blind_tagCreated [blind_intros]: "blind (tagCreated e c base repo tag)"
  by (auto simp: tagCreated_def intro!: blind_intros)

lemma blind_digestCreated [blind_intros]: "blind (digestCreated e c base repo ms d)"
  by (auto simp: digestCreated_def intro!: blind_intros)

lemma blind_created_dates [blind_intros]:
  "(\<And>r. blind (created r)) \<Longrightarrow> blind (created_dates created refs dates)"
  by (induction refs arbitrary: dates) (auto intro!: blind_intros)

lemma blind_selectRepoTags [blind_intros]: "blind (selectRepoTags e c base repo reg)"
  by (auto simp: selectRepoTags_def Let_def intro!: blind_intros)

lemma blind_ghcr_versions [blind_intros]: "blind (ghcr_versions e tok n endpoint found)"
proof (induction n arbitrary: endpoint found)
  case 0
  then show ?case by (subst ghcr_versions.simps) (auto intro!: blind_intros)
next
  case (Suc n)
  then show ?case by (subst ghcr_versions.simps) (auto intro!: blind_intros split: option.split)
qed

lemma blind_harbor_pages [blind_intros]: "blind (harbor_pages e c auth prefix n page found)"
  by (induction n arbitrary: page found) (auto simp: Let_def intro!: blind_intros split: option.split)

lemma blind_DiscoverManifests [blind_intros]: "blind (DiscoverManifests e c reg base repo)"
  by (auto simp: DiscoverManifests_def ghcr_DiscoverManifests_def listVersions_def
      harbor_DiscoverManifests_def zot_DiscoverManifests_def Let_def
      intro!: blind_intros split: option.split prod.split)

lemma blind_selectUntagged [blind_intros]: "blind (selectUntagged e c base repo reg)"
  by (auto simp: selectUntagged_def Let_def intro!: blind_intros)

lemma blind_matchingRepos [blind_intros]: "blind (matchingRepos e c base reg)"
  by (auto simp: matchingRepos_def Let_def intro!: blind_intros)

section \<open>Triples\<close>

text \<open>From a state satisfying \<open>P\<close>, a call that returns \<open>x\<close> ends in \<open>Q x\<close>, and one that stops ends in \<open>R\<close>.\<close>

definition triple ::
  "('u walk_io \<Rightarrow> bool) \<Rightarrow> ('u, 'a) walk_m \<Rightarrow> ('a \<Rightarrow> 'u walk_io \<Rightarrow> bool) \<Rightarrow> ('u walk_io \<Rightarrow> bool) \<Rightarrow> bool" where
  "triple P m Q R \<longleftrightarrow>
     (\<forall>s. P s \<longrightarrow> (case snd (m s) of Returned x \<Rightarrow> Q x (fst (m s)) | Stopped _ \<Rightarrow> R (fst (m s))))"

lemma triple_Returned: "triple P m Q R \<Longrightarrow> P s \<Longrightarrow> m s = (t, Returned x) \<Longrightarrow> Q x t"
  by (auto simp: triple_def)

lemma triple_Stopped: "triple P m Q R \<Longrightarrow> P s \<Longrightarrow> m s = (t, Stopped x) \<Longrightarrow> R t"
  by (auto simp: triple_def dest: spec [of _ s])

lemma triple_wret: "(\<And>s. P s \<Longrightarrow> Q x s) \<Longrightarrow> triple P (wret x) Q R"
  by (simp add: triple_def wret_def)

lemma triple_wbind:
  "triple P m Q1 R \<Longrightarrow> (\<And>x. triple (Q1 x) (f x) Q R) \<Longrightarrow> triple P (wbind m f) Q R"
  unfolding triple_def wbind_def by (fastforce simp: prod.case_eq_if split: outcome.splits)

lemma triple_wtry:
  "triple P m Q1 R \<Longrightarrow> (\<And>err. triple (Q1 (Inl err)) (h err) Q R) \<Longrightarrow>
   (\<And>x. triple (Q1 (Inr x)) (f x) Q R) \<Longrightarrow> triple P (wtry m h f) Q R"
  unfolding wtry_def by (rule triple_wbind) (auto split: sum.split)

lemma triple_weaken:
  "triple P m Q R \<Longrightarrow> (\<And>s. P1 s \<Longrightarrow> P s) \<Longrightarrow> (\<And>x s. Q x s \<Longrightarrow> Q1 x s) \<Longrightarrow> (\<And>s. R s \<Longrightarrow> R1 s) \<Longrightarrow>
   triple P1 m Q1 R1"
  unfolding triple_def by (fastforce split: outcome.splits)

lemma triple_pure: "(b \<Longrightarrow> triple P m Q R) \<Longrightarrow> triple (\<lambda>s. b \<and> P s) m Q R"
  by (auto simp: triple_def)

text \<open>What the handled digests and sent requests satisfy, a blind call keeps.\<close>

lemma triple_blind:
  assumes "blind m"
  shows "triple (\<lambda>s. I (io_scanned s) (io_sent s)) m (\<lambda>_ s. I (io_scanned s) (io_sent s))
           (\<lambda>s. I (io_scanned s) (io_sent s))"
  using blind_keeps [OF assms] by (auto simp: triple_def split: outcome.split)

end
