(* ===== verification/WalkRequests.thy ===== *)
theory WalkRequests
  imports WalkFrame
begin

text \<open>
  The requests a walk hands to the submitter for one repository: one for each digest, none for a known one, and
  the count of the accepted ones, through every path of \<^verbatim>\<open>internal/scanner/catalog.go\<close>.
\<close>

section \<open>The requests of one repository\<close>

text \<open>\<open>L\<close> are the requests sent before the repository was started and \<open>K\<close> the digests known then; \<open>G\<close> is a
  property of every request and \<open>a\<close> the number of accepted ones since.\<close>

definition walked ::
  "(scan_request \<Rightarrow> bool) \<Rightarrow> string list \<Rightarrow> (scan_request \<times> bool) list \<Rightarrow> int \<Rightarrow> string list \<Rightarrow>
   (scan_request \<times> bool) list \<Rightarrow> bool" where
  "walked G K L a k l \<longleftrightarrow>
     take (length L) l = L \<and> set K \<subseteq> set k \<and>
     (let new = drop (length L) l in
      distinct (map (sq_digest \<circ> fst) new) \<and> (sq_digest \<circ> fst) ` set new \<subseteq> set k - set K \<and>
      list_all (G \<circ> fst) new \<and> a = int (length (filter snd new)))"

definition unsent ::
  "string list \<Rightarrow> (scan_request \<times> bool) list \<Rightarrow> string \<Rightarrow> string list \<Rightarrow> (scan_request \<times> bool) list \<Rightarrow> bool" where
  "unsent K L d k l \<longleftrightarrow> d \<in> set k \<and> d \<notin> set K \<and> d \<notin> (sq_digest \<circ> fst) ` set (drop (length L) l)"

lemma walked_start: "walked G K L 0 K L"
  by (simp add: walked_def Let_def)

lemma walked_seen:
  assumes "walked G K L a k l" and "d \<notin> set k"
  shows "walked G K L a (d # k) l \<and> unsent K L d (d # k) l"
  using assms by (auto simp: walked_def unsent_def Let_def)

lemma walked_sent:
  assumes w: "walked G K L a k l" and u: "unsent K L (sq_digest req) k l" and g: "G req"
  shows "walked G K L (bump ok a) k (l @ [(req, ok)])"
proof -
  have "length L \<le> length l" using w unfolding walked_def by (metis length_take min.cobounded1)
  then show ?thesis using w u g by (auto simp: walked_def unsent_def Let_def bump_def)
qed

text \<open>Wherever a call stops, the requests sent so far are as they should be.\<close>

definition stopped_walk where
  "stopped_walk G K L = (\<lambda>s. \<exists>a. walked G K L a (io_scanned s) (io_sent s))"

abbreviation at_walk where
  "at_walk G K L a \<equiv> (\<lambda>s. walked G K L a (io_scanned s) (io_sent s))"

abbreviation at_digest where
  "at_digest G K L a d \<equiv>
     (\<lambda>s. walked G K L a (io_scanned s) (io_sent s) \<and> unsent K L d (io_scanned s) (io_sent s))"

lemma stopped_walkI: "at_walk G K L a s \<Longrightarrow> stopped_walk G K L s"
  by (auto simp: stopped_walk_def)

lemma triple_read:
  "blind m \<Longrightarrow> triple (at_walk G K L a) m (\<lambda>_. at_walk G K L a) (stopped_walk G K L)"
  by (rule triple_weaken [OF triple_blind [where I = "walked G K L a"]]) (auto intro: stopped_walkI)

lemma triple_read_digest:
  "blind m \<Longrightarrow> triple (at_digest G K L a d) m (\<lambda>_. at_digest G K L a d) (stopped_walk G K L)"
  by (rule triple_weaken
      [OF triple_blind [where I = "\<lambda>k l. walked G K L a k l \<and> unsent K L d k l"]])
    (auto intro: stopped_walkI)

lemma triple_seen_before:
  "triple (at_walk G K L a) (seen_before d)
     (\<lambda>dup s. if dup then at_walk G K L a s else at_digest G K L a d s) (stopped_walk G K L)"
  by (auto simp: triple_def seen_before_def dest: walked_seen [where d = d])

lemma triple_submit:
  "G req \<Longrightarrow> triple (at_digest G K L a (sq_digest req)) (submit_scan e req)
     (\<lambda>ok. at_walk G K L (bump ok a)) (stopped_walk G K L)"
  by (auto simp: triple_def submit_scan_def prod.case_eq_if intro: walked_sent)

lemma sq_digest_walk_request [simp]: "sq_digest (walk_request reg repo d ix tag arch meta) = d"
  by (simp add: walk_request_def)

lemma bump_add: "bump ok (a + q) = a + bump ok q"
  by (simp add: bump_def)

text \<open>The piece of code every path shares: read the metadata of a digest not seen before and submit it
  unless it is attached to another image.\<close>

lemma triple_metadata_submit:
  assumes G: "\<And>arch meta. G (walk_request reg repo d ix tag arch meta)"
    and skip: "\<And>meta. triple (at_walk G K L a) (skipped meta) Q (stopped_walk G K L)"
    and sent: "\<And>ok. triple (at_walk G K L (bump ok a)) (after ok) Q (stopped_walk G K L)"
  shows "triple (at_digest G K L a d)
     (wbind (ociGetImageMetadata e c base repo d) (\<lambda>meta.
        if im_attached meta then skipped meta
        else wbind (submit_scan e (walk_request reg repo d ix tag (arch meta) meta)) after))
     Q (stopped_walk G K L)"
proof (rule triple_wbind [OF triple_read_digest [OF blind_ociGetImageMetadata]])
  fix meta
  have "triple (at_digest G K L a d) (skipped meta) Q (stopped_walk G K L)"
    by (rule triple_weaken [OF skip [of meta]]) auto
  moreover have "triple (at_digest G K L a d)
      (wbind (submit_scan e (walk_request reg repo d ix tag (arch meta) meta)) after) Q (stopped_walk G K L)"
    using triple_submit [where G = G and req = "walk_request reg repo d ix tag (arch meta) meta", OF G]
    by (intro triple_wbind [OF _ sent]) simp
  ultimately show "triple (at_digest G K L a d)
     (if im_attached meta then skipped meta
      else wbind (submit_scan e (walk_request reg repo d ix tag (arch meta) meta)) after)
     Q (stopped_walk G K L)" by simp
qed

lemma triple_unless_seen:
  assumes "triple (at_walk G K L a) x Q (stopped_walk G K L)"
    and "triple (at_digest G K L a d) y Q (stopped_walk G K L)"
  shows "triple (at_walk G K L a) (wbind (seen_before d) (\<lambda>dup. if dup then x else y)) Q (stopped_walk G K L)"
  by (rule triple_wbind [OF triple_seen_before]) (use assms in simp)

lemma triple_submit_platforms:
  assumes G: "\<And>d arch meta. G (walk_request reg repo d ix tag arch meta)"
  shows "triple (at_walk G K L (a + q)) (submit_platforms e c base repo tag ix reg ps q)
     (\<lambda>n. at_walk G K L (a + n)) (stopped_walk G K L)"
proof (induction ps arbitrary: q)
  case Nil
  show ?case unfolding submit_platforms.simps by (rule triple_wret)
next
  case (Cons p ps)
  have next_one: "triple (at_walk G K L (bump ok (a + q)))
      (submit_platforms e c base repo tag ix reg ps (bump ok q)) (\<lambda>n. at_walk G K L (a + n)) (stopped_walk G K L)"
    for ok using Cons.IH [of "bump ok q"] by (simp add: bump_add)
  show ?case unfolding submit_platforms.simps Let_def
    by (intro triple_unless_seen triple_metadata_submit G Cons.IH next_one)
qed

lemma triple_if:
  "(b \<Longrightarrow> triple P x Q R) \<Longrightarrow> (\<not> b \<Longrightarrow> triple P y Q R) \<Longrightarrow> triple P (if b then x else y) Q R"
  by simp

lemma triple_start: "triple (at_walk G K L (a + 0)) m Q R \<Longrightarrow> triple (at_walk G K L a) m Q R"
  by simp

lemma triple_none: "triple (at_walk G K L a) (wret 0) (\<lambda>n. at_walk G K L (a + n)) R"
  by (rule triple_wret) simp

lemma triple_index:
  assumes "\<And>d arch meta. G (walk_request reg repo d ix tag arch meta)"
  shows "triple (at_walk G K L a)
     (wtry (ociExpandIndex e c base repo ix) (\<lambda>_. wret 0)
        (\<lambda>platforms. submit_platforms e c base repo tag ix reg platforms 0))
     (\<lambda>n. at_walk G K L (a + n)) (stopped_walk G K L)"
  by (rule triple_wtry [OF triple_read [OF blind_ociExpandIndex]], rule triple_none,
      rule triple_start, rule triple_submit_platforms, rule assms)

lemma triple_index_digest:
  assumes "\<And>d arch meta. G (walk_request reg repo d ix tag arch meta)"
  shows "triple (at_digest G K L a d)
     (wtry (ociExpandIndex e c base repo ix) (\<lambda>_. wret 0)
        (\<lambda>platforms. submit_platforms e c base repo tag ix reg platforms 0))
     (\<lambda>n. at_walk G K L (a + n)) (stopped_walk G K L)"
  by (rule triple_weaken [OF triple_index [where G = G, OF assms]]) auto

lemma triple_scanTag:
  assumes G: "\<And>d ix arch meta. G (walk_request reg repo d ix tag arch meta)"
  shows "triple (at_walk G K L a) (scanTag e c base repo tag reg)
     (\<lambda>(n, d). at_walk G K L (a + n)) (stopped_walk G K L)"
proof -
  have none: "triple (at_walk G K L a) (wret (0, d)) (\<lambda>(n, d). at_walk G K L (a + n)) (stopped_walk G K L)" for d
    by (rule triple_wret) simp
  have none': "triple (at_digest G K L a d) (wret (0, d)) (\<lambda>(n, d). at_walk G K L (a + n)) (stopped_walk G K L)" for d
    by (rule triple_weaken [OF none]) auto
  have index: "triple (at_digest G K L a d) (wbind (scanIndex e c base repo tag d reg) (\<lambda>n. wret (n, d)))
      (\<lambda>(n, d). at_walk G K L (a + n)) (stopped_walk G K L)" for d
  proof (rule triple_wbind)
    show "triple (at_digest G K L a d) (scanIndex e c base repo tag d reg) (\<lambda>n. at_walk G K L (a + n))
        (stopped_walk G K L)"
      unfolding scanIndex_def by (rule triple_index_digest, rule G)
  qed (rule triple_wret, simp)
  have sent: "triple (at_walk G K L (bump ok a)) (wret (bump ok 0, d))
      (\<lambda>(n, d). at_walk G K L (a + n)) (stopped_walk G K L)" for ok d
    by (rule triple_wret) (simp add: bump_def split: if_splits)
  show ?thesis unfolding scanTag_def
    by (intro triple_wtry [OF triple_read [OF blind_ociHeadManifest]] none triple_if triple_unless_seen
        none' index triple_metadata_submit [where arch = im_architecture] G sent)
qed

lemma triple_scan_tags:
  assumes "\<And>tag d ix arch meta. tag \<in> set tags \<Longrightarrow> G (walk_request reg repo d ix tag arch meta)"
  shows "triple (at_walk G K L (a + q)) (scan_tags e c base repo reg tags (q, covered, selected))
     (\<lambda>(n, r). at_walk G K L (a + n)) (stopped_walk G K L)"
  using assms
proof (induction tags arbitrary: q covered selected)
  case Nil
  show ?case unfolding scan_tags.simps by (rule triple_wret) simp
next
  case (Cons tag tags)
  have IH: "triple (at_walk G K L (a + q + n)) (scan_tags e c base repo reg tags (q + n, cov, sel))
      (\<lambda>(n, r). at_walk G K L (a + n)) (stopped_walk G K L)" for n cov sel
    using Cons.IH [of "q + n" cov sel] Cons.prems by (simp add: algebra_simps)
  show ?case unfolding scan_tags.simps
  proof (rule triple_wbind [OF triple_scanTag])
    show "G (walk_request reg repo d ix tag arch meta)" for d ix arch meta using Cons.prems by simp
    fix x :: "int \<times> string"
    show "triple ((case x of (n, d) \<Rightarrow> at_walk G K L (a + q + n)))
      (case x of (n, digest) \<Rightarrow>
         if digest = [] then scan_tags e c base repo reg tags (q + n, False, selected)
         else scan_tags e c base repo reg tags (q + n, covered, selected @ [digest]))
      (\<lambda>(n, r). at_walk G K L (a + n)) (stopped_walk G K L)"
      using IH by (cases x) simp
  qed
qed

lemma triple_submit_untagged:
  assumes G: "\<And>d ix arch meta. G (walk_request reg repo d ix [] arch meta)"
  shows "triple (at_walk G K L (a + q)) (submit_untagged e c base repo reg untagged ds q)
     (\<lambda>n. at_walk G K L (a + n)) (stopped_walk G K L)"
proof (induction ds arbitrary: q)
  case Nil
  show ?case unfolding submit_untagged.simps by (rule triple_wret)
next
  case (Cons d ds)
  let ?rest = "\<lambda>q. submit_untagged e c base repo reg untagged ds q"
  have IH: "triple (at_walk G K L (a + q + n)) (?rest (q + n)) (\<lambda>n. at_walk G K L (a + n)) (stopped_walk G K L)"
    for n using Cons.IH [of "q + n"] by (simp add: algebra_simps)
  have sent: "triple (at_walk G K L (bump ok (a + q))) (?rest (bump ok q)) (\<lambda>n. at_walk G K L (a + n))
      (stopped_walk G K L)" for ok using Cons.IH [of "bump ok q"] by (simp add: bump_add)
  have index: "triple (at_digest G K L (a + q) d) (wbind (submitUntaggedIndex e c base repo d reg)
      (\<lambda>n. ?rest (q + n))) (\<lambda>n. at_walk G K L (a + n)) (stopped_walk G K L)" for d
  proof (rule triple_wbind [OF _ IH])
    show "triple (at_digest G K L (a + q) d) (submitUntaggedIndex e c base repo d reg)
        (\<lambda>n. at_walk G K L (a + q + n)) (stopped_walk G K L)"
      unfolding submitUntaggedIndex_def by (rule triple_index_digest, rule G)
  qed
  show ?case
  proof (cases "map_of untagged d")
    case None
    then show ?thesis using Cons.IH by simp
  next
    case (Some m)
    then show ?thesis unfolding submit_untagged.simps Some option.case Let_def
      by (intro triple_unless_seen Cons.IH triple_if index
          triple_metadata_submit [where arch = "\<lambda>meta. if dm_arch m = [] then im_architecture meta else dm_arch m"]
          G sent)
  qed
qed

lemma triple_discoverUntagged:
  assumes G: "\<And>d ix arch meta. G (walk_request reg repo d ix [] arch meta)"
  shows "triple (at_walk G K L a) (discoverUntagged e c base repo reg)
     (\<lambda>(n, r). at_walk G K L (a + n)) (stopped_walk G K L)"
  unfolding discoverUntagged_def
proof (rule triple_wtry [OF triple_read [OF blind_selectUntagged]])
  show "triple (at_walk G K L a) (wret (0, [], False)) (\<lambda>(n, r). at_walk G K L (a + n)) (stopped_walk G K L)"
    for err :: go_error by (rule triple_wret) simp
  fix x :: "tag_window \<times> (string \<times> DiscoveredManifest) list"
  obtain window untagged where x: "x = (window, untagged)" by (cases x)
  have "triple (at_walk G K L a) (submit_untagged e c base repo reg untagged (tw_selected window) 0)
      (\<lambda>n. at_walk G K L (a + n)) (stopped_walk G K L)"
    by (rule triple_start, rule triple_submit_untagged, rule G)
  then show "triple (at_walk G K L a)
      (case x of (window, untagged) \<Rightarrow>
        wbind (submit_untagged e c base repo reg untagged (tw_selected window) 0) (\<lambda>queued.
          wret (queued, tw_selected window, True)))
      (\<lambda>(n, r). at_walk G K L (a + n)) (stopped_walk G K L)"
    unfolding x prod.case by (rule triple_wbind) (rule triple_wret, simp)
qed

end
