(* ===== verification/WalkClaims.thy ===== *)
theory WalkClaims
  imports WalkRequests
begin

text \<open>
  What a walk of a registry's catalog promises: every request is in the registry's scope, a digest is
  submitted once and never when it is known, the statistics count what was accepted, a recorded window is
  complete, and the preview shows what the walk selects.
\<close>

section \<open>Values a call may return\<close>

text \<open>\<open>P\<close> holds of whatever the call returns, from any state.\<close>

definition returns :: "('u, 'a) walk_m \<Rightarrow> ('a \<Rightarrow> bool) \<Rightarrow> bool" where
  "returns m P \<longleftrightarrow> (\<forall>s t x. m s = (t, Returned x) \<longrightarrow> P x)"

named_theorems returns_intros \<open>what the composed calls return\<close>

lemma returns_wret [returns_intros]: "P x \<Longrightarrow> returns (wret x) P"
  by (simp add: returns_def wret_def)

lemma returns_wstop [returns_intros]: "returns (wstop x) P"
  by (simp add: returns_def wstop_def)

lemma returns_any [simp]: "returns m (\<lambda>_. True)"
  by (simp add: returns_def)

lemma returns_wbind_from: "returns m Q \<Longrightarrow> (\<And>x. Q x \<Longrightarrow> returns (f x) P) \<Longrightarrow> returns (wbind m f) P"
  unfolding returns_def wbind_def by (fastforce split: prod.splits outcome.splits)

lemma returns_wbind [returns_intros]: "(\<And>x. returns (f x) P) \<Longrightarrow> returns (wbind m f) P"
  by (rule returns_wbind_from [OF returns_any])

lemma returns_wtry_from:
  "returns m (\<lambda>r. case r of Inl err \<Rightarrow> True | Inr x \<Rightarrow> Q x) \<Longrightarrow> (\<And>err. returns (h err) P) \<Longrightarrow>
   (\<And>x. Q x \<Longrightarrow> returns (f x) P) \<Longrightarrow> returns (wtry m h f) P"
  unfolding wtry_def by (erule returns_wbind_from) (auto split: sum.splits)

lemma returns_wtry [returns_intros]:
  "(\<And>err. returns (h err) P) \<Longrightarrow> (\<And>x. returns (f x) P) \<Longrightarrow> returns (wtry m h f) P"
  unfolding wtry_def by (rule returns_wbind) (auto split: sum.split)

lemma returns_weaken: "returns m P \<Longrightarrow> (\<And>x. P x \<Longrightarrow> Q x) \<Longrightarrow> returns m Q"
  by (auto simp: returns_def)

lemma triple_returns:
  "triple P m Q R \<Longrightarrow> returns m V \<Longrightarrow> triple P m (\<lambda>x s. V x \<and> Q x s) R"
  unfolding triple_def returns_def
  by (auto split: outcome.splits) (metis prod.collapse)

section \<open>What the windows hold\<close>

lemma set_selectWindow: "set (tw_selected (selectWindow add_date refs order lim age created now)) \<subseteq> set refs"
proof -
  have "set (sort_by cmp (within_age add_date refs order age created now)) \<subseteq> set refs" for cmp
    by (auto simp: within_age_def simp flip: set_mset_mset)
  then show ?thesis by (auto simp: selectWindow_unfold Let_def dest!: in_set_takeD)
qed

definition candidate :: "registry \<Rightarrow> string \<Rightarrow> bool" where
  "candidate reg tag \<longleftrightarrow> MatchesTag reg tag \<and> \<not> IsAttachedArtifactTag tag"

lemma selectRepoTags_returns:
  "returns (selectRepoTags e c base repo reg)
     (\<lambda>r. case r of Inl err \<Rightarrow> True | Inr x \<Rightarrow> list_all (candidate reg) (tw_selected (fst x)))"
proof -
  have "list_all (candidate reg) (tw_selected (SelectTags add_date reg (tag_candidates reg tags) created now))"
    for add_date tags created now
    using set_selectWindow [of add_date "tag_candidates reg tags"]
    by (fastforce simp: SelectTags_def list_all_iff tag_candidates_def candidate_def)
  then show ?thesis unfolding selectRepoTags_def Let_def by (auto intro!: returns_intros)
qed

definition found_digests :: "DiscoveredManifest list result \<Rightarrow> bool" where
  "found_digests r = (case r of Inl err \<Rightarrow> True | Inr ms \<Rightarrow> list_all (\<lambda>m. dm_digest m \<noteq> []) ms)"

lemma found_digests_simps [simp]:
  "found_digests (Inl err)" "found_digests (Inr ms) = list_all (\<lambda>m. dm_digest m \<noteq> []) ms"
  by (simp_all add: found_digests_def)

lemma ghcr_versions_returns:
  "list_all (\<lambda>m. dm_digest m \<noteq> []) found \<Longrightarrow> returns (ghcr_versions e tok n endpoint found) found_digests"
proof (induction n arbitrary: endpoint found)
  case 0
  then show ?case by (subst ghcr_versions.simps) (auto intro!: returns_intros)
next
  case (Suc n)
  have "list_all (\<lambda>m. dm_digest m \<noteq> []) (ghcr_manifests versions)" for versions
    by (auto simp: ghcr_manifests_def list_all_iff)
  with Suc show ?case by (subst ghcr_versions.simps) (auto intro!: returns_intros split: option.split)
qed

lemma harbor_pages_returns:
  "list_all (\<lambda>m. dm_digest m \<noteq> []) found \<Longrightarrow> returns (harbor_pages e c auth prefix n page found) found_digests"
proof (induction n arbitrary: page found)
  case (Suc n)
  have "list_all (\<lambda>m. dm_digest m \<noteq> []) (harbor_manifests artifacts)" for artifacts
    by (auto simp: harbor_manifests_def list_all_iff)
  with Suc show ?case by (auto simp: Let_def intro!: returns_intros split: option.split)
qed (auto intro: returns_intros)

lemma DiscoverManifests_returns: "returns (DiscoverManifests e c reg base repo) found_digests"
proof -
  have versions: "returns (listVersions e tok kind owner name) found_digests" for tok kind owner name
    unfolding listVersions_def by (rule ghcr_versions_returns) simp
  have ghcr: "returns (ghcr_DiscoverManifests e tok repo) found_digests" for tok
    unfolding ghcr_DiscoverManifests_def wtry_def
    by (auto intro!: returns_intros versions returns_wbind_from [OF versions] split: option.split sum.split)
  have harbor: "returns (harbor_DiscoverManifests e c reg base repo) found_digests"
    unfolding harbor_DiscoverManifests_def
    by (auto intro!: returns_intros harbor_pages_returns split: option.split)
  have zot: "returns (zot_DiscoverManifests e c base repo) found_digests"
    unfolding zot_DiscoverManifests_def Let_def
    by (auto intro!: returns_intros simp: list_all_iff split: option.split)
  show ?thesis unfolding DiscoverManifests_def using ghcr harbor zot by (auto intro!: returns_intros)
qed

lemma collect_untagged_digests:
  "list_all (\<lambda>m. dm_digest m \<noteq> []) ms \<Longrightarrow> list_all (\<lambda>x. fst x \<noteq> []) acc \<Longrightarrow>
   list_all (\<lambda>x. fst x \<noteq> []) (collect_untagged ms acc)"
  by (induction ms acc rule: collect_untagged.induct) auto

lemma selectUntagged_returns:
  "returns (selectUntagged e c base repo reg)
     (\<lambda>r. case r of Inl err \<Rightarrow> True | Inr x \<Rightarrow> [] \<notin> set (tw_selected (fst x)))"
proof -
  have "[] \<notin> set (tw_selected (SelectUntagged add_date reg (map fst (collect_untagged ms [])) created now))"
    if "list_all (\<lambda>m. dm_digest m \<noteq> []) ms" for add_date ms created now
    using set_selectWindow [of add_date "map fst (collect_untagged ms [])"]
      collect_untagged_digests [OF that, of "[]"]
    by (fastforce simp: SelectUntagged_def list_all_iff)
  then show ?thesis unfolding selectUntagged_def Let_def
    by (intro returns_wtry_from [OF DiscoverManifests_returns [unfolded found_digests_def]] returns_intros) auto
qed

section \<open>The requests of a walk\<close>

definition in_scope :: "registry \<Rightarrow> string \<Rightarrow> scan_request \<Rightarrow> bool" where
  "in_scope reg repo req \<longleftrightarrow>
     sq_registry_id req = rg_id reg \<and> sq_registry_url req = rg_url reg \<and> sq_insecure req = rg_insecure reg \<and>
     sq_auth_username req = derefStr (rg_auth_username reg) \<and> sq_auth_token req = derefStr (rg_auth_token reg) \<and>
     sq_cluster_id req = [] \<and> \<not> sq_force req \<and> sq_repository req = repo \<and>
     (candidate reg (sq_tag req) \<or> sq_tag req = [] \<and> rg_include_untagged reg)"

lemma in_scope_tag: "candidate reg tag \<Longrightarrow> in_scope reg repo (walk_request reg repo d ix tag arch meta)"
  by (simp add: in_scope_def walk_request_def)

lemma in_scope_untagged:
  "rg_include_untagged reg \<Longrightarrow> in_scope reg repo (walk_request reg repo d ix [] arch meta)"
  by (simp add: in_scope_def walk_request_def)

lemma triple_walkRepo:
  "triple (\<lambda>s. io_sent s = L) (walkRepo e c base reg K repo stats)
     (\<lambda>st. at_walk (in_scope reg repo) K L (ws_queued st - ws_queued stats)) (stopped_walk (in_scope reg repo) K L)"
proof -
  let ?G = "in_scope reg repo" and ?R = "stopped_walk (in_scope reg repo) K L"
  have start: "triple (\<lambda>s. io_sent s = L) (wmod (\<lambda>s. s\<lparr>io_scanned := K\<rparr>)) (\<lambda>_. at_walk ?G K L 0) ?R"
    by (simp add: triple_def wmod_def walked_start)
  have untagged: "triple (at_walk ?G K L a)
      (if rg_include_untagged reg then discoverUntagged e c base repo reg else wret (0, [], True))
      (\<lambda>(n, r). at_walk ?G K L (a + n)) ?R" for a
  proof (cases "rg_include_untagged reg")
    case True
    then show ?thesis using triple_discoverUntagged [where G = ?G, OF in_scope_untagged] by simp
  qed (simp, rule triple_wret, simp)
  have tags: "triple (\<lambda>s. list_all (candidate reg) tags \<and> at_walk ?G K L 0 s)
      (scan_tags e c base repo reg tags (0, True, [])) (\<lambda>(n, r). at_walk ?G K L n) ?R" for tags
  proof (rule triple_pure)
    assume "list_all (candidate reg) tags"
    then have "?G (walk_request reg repo d ix tag arch meta)" if "tag \<in> set tags" for tag d ix arch meta
      using that by (auto simp: list_all_iff intro: in_scope_tag)
    from triple_scan_tags [where G = ?G and a = 0 and q = 0, OF this]
    show "triple (at_walk ?G K L 0) (scan_tags e c base repo reg tags (0, True, []))
      (\<lambda>(n, r). at_walk ?G K L n) ?R" by simp
  qed
  have rest: "triple (\<lambda>s. list_all (candidate reg) (tw_selected w) \<and> at_walk ?G K L 0 s)
      (wbind (scan_tags e c base repo reg (tw_selected w) (0, True, [])) (\<lambda>(queued, covered, selected).
        wbind (if rg_include_untagged reg then discoverUntagged e c base repo reg else wret (0, [], True))
          (\<lambda>(n, digests, ok).
            let stats1 = add_window stats w m; stats2 = stats1\<lparr>ws_queued := ws_queued stats1 + queued + n\<rparr>
            in wret (if covered \<and> ok
                     then stats2\<lparr>ws_windows := AList.update repo (selected @ digests) (ws_windows stats2)\<rparr>
                     else stats2))))
      (\<lambda>st. at_walk ?G K L (ws_queued st - ws_queued stats)) ?R" for w m
  proof (rule triple_wbind [OF tags])
    fix x :: "int \<times> bool \<times> string list"
    obtain queued covered selected where x: "x = (queued, covered, selected)" by (cases x)
    show "triple (case x of (n, r) \<Rightarrow> at_walk ?G K L n)
      (case x of (queued, covered, selected) \<Rightarrow>
        wbind (if rg_include_untagged reg then discoverUntagged e c base repo reg else wret (0, [], True))
          (\<lambda>(n, digests, ok).
            let stats1 = add_window stats w m; stats2 = stats1\<lparr>ws_queued := ws_queued stats1 + queued + n\<rparr>
            in wret (if covered \<and> ok
                     then stats2\<lparr>ws_windows := AList.update repo (selected @ digests) (ws_windows stats2)\<rparr>
                     else stats2)))
      (\<lambda>st. at_walk ?G K L (ws_queued st - ws_queued stats)) ?R"
      unfolding x prod.case
      by (rule triple_wbind [OF untagged]) (auto simp: Let_def add_window_def intro!: triple_wret)
  qed
  have none: "triple P (wret stats) (\<lambda>st. at_walk ?G K L (ws_queued st - ws_queued stats)) ?R"
    if "\<And>s. P s \<Longrightarrow> at_walk ?G K L 0 s" for P
    by (rule triple_wret) (simp add: that)
  show ?thesis unfolding walkRepo_def
  proof (rule triple_wbind [OF start], rule triple_wtry
      [OF triple_returns [OF triple_read [OF blind_selectRepoTags] selectRepoTags_returns]])
    show "triple (\<lambda>s. (case Inl err of Inl err \<Rightarrow> True | Inr x \<Rightarrow> list_all (candidate reg) (tw_selected (fst x)))
        \<and> at_walk ?G K L 0 s) (wret stats)
      (\<lambda>st. at_walk ?G K L (ws_queued st - ws_queued stats)) ?R" for err :: go_error
      by (rule none) simp
  next
    fix x :: "tag_window \<times> nat"
    show "triple (\<lambda>s. (case Inr x of Inl err \<Rightarrow> True | Inr x \<Rightarrow> list_all (candidate reg) (tw_selected (fst x)))
        \<and> at_walk ?G K L 0 s)
      (case x of (window, matched) \<Rightarrow>
        wbind (scan_tags e c base repo reg (tw_selected window) (0, True, [])) (\<lambda>(queued, covered, selected).
        wbind (if rg_include_untagged reg then discoverUntagged e c base repo reg else wret (0, [], True))
          (\<lambda>(n, digests, ok).
            let stats1 = add_window stats window matched;
                stats2 = stats1\<lparr>ws_queued := ws_queued stats1 + queued + n\<rparr>
            in wret (if covered \<and> ok
                     then stats2\<lparr>ws_windows := AList.update repo (selected @ digests) (ws_windows stats2)\<rparr>
                     else stats2))))
      (\<lambda>st. at_walk ?G K L (ws_queued st - ws_queued stats)) ?R"
      using rest [of "fst x" "snd x"] by (cases x) (simp only: prod.case sum.case fst_conv snd_conv)
  qed
qed

lemma append_take_drop_append: "take (length L) (L @ new) = L" "drop (length L) (L @ new) = new"
  by simp_all

lemma walked_since:
  "walked G K L a k l \<longleftrightarrow>
     set K \<subseteq> set k \<and> (\<exists>new. l = L @ new \<and> distinct (map (sq_digest \<circ> fst) new) \<and>
       (sq_digest \<circ> fst) ` set new \<subseteq> set k - set K \<and> list_all (G \<circ> fst) new \<and>
       a = int (length (filter snd new)))"
proof
  assume w: "walked G K L a k l"
  then have "l = L @ drop (length L) l" unfolding walked_def by (metis append_take_drop_id)
  with w show "set K \<subseteq> set k \<and> (\<exists>new. l = L @ new \<and> distinct (map (sq_digest \<circ> fst) new) \<and>
       (sq_digest \<circ> fst) ` set new \<subseteq> set k - set K \<and> list_all (G \<circ> fst) new \<and>
       a = int (length (filter snd new)))"
    unfolding walked_def Let_def by blast
qed (elim conjE exE, simp only: walked_def Let_def append_take_drop_append simp_thms)

text \<open>C13: What the walk of one repository sends, whatever the registry answers and whether or not it finishes: one
  request for each digest, none for a digest known before, each in the scope of the registry; the count it
  adds to the statistics is that of the accepted requests.\<close>

theorem walkRepo_submits_once:
  "\<exists>new. io_sent (fst (walkRepo e c base reg known repo stats s)) = io_sent s @ new \<and>
     distinct (map (sq_digest \<circ> fst) new) \<and> set (map (sq_digest \<circ> fst) new) \<inter> set known = {} \<and>
     list_all (in_scope reg repo \<circ> fst) new \<and>
     (case snd (walkRepo e c base reg known repo stats s) of
        Stopped _ \<Rightarrow> True
      | Returned st \<Rightarrow> ws_queued st = ws_queued stats + int (length (filter snd new)))"
proof -
  obtain t r where run: "walkRepo e c base reg known repo stats s = (t, r)" by (cases "walkRepo e c base reg known repo stats s")
  show ?thesis
  proof (cases r)
    case (Returned st)
    from triple_Returned [OF triple_walkRepo refl run [unfolded this]]
    obtain new where "io_sent t = io_sent s @ new" "distinct (map (sq_digest \<circ> fst) new)"
      "(sq_digest \<circ> fst) ` set new \<subseteq> set (io_scanned t) - set known" "list_all (in_scope reg repo \<circ> fst) new"
      "ws_queued st - ws_queued stats = int (length (filter snd new))"
      by (auto simp: walked_since)
    then show ?thesis using run Returned by (intro exI [of _ new]) auto
  next
    case (Stopped x)
    from triple_Stopped [OF triple_walkRepo refl run [unfolded this]]
    obtain new where "io_sent t = io_sent s @ new" "distinct (map (sq_digest \<circ> fst) new)"
      "(sq_digest \<circ> fst) ` set new \<subseteq> set (io_scanned t) - set known" "list_all (in_scope reg repo \<circ> fst) new"
      by (auto simp: walked_since stopped_walk_def)
    then show ?thesis using run Stopped by (intro exI [of _ new]) auto
  qed
qed

section \<open>The whole walk\<close>

definition claimed :: "registry \<Rightarrow> scan_request \<Rightarrow> bool" where
  "claimed reg req \<longleftrightarrow> ClaimsRepository reg (sq_repository req) \<and> in_scope reg (sq_repository req) req"

definition sent_walk :: "registry \<Rightarrow> string list \<Rightarrow> (scan_request \<times> bool) list \<Rightarrow> int \<Rightarrow> 'u walk_io \<Rightarrow> bool" where
  "sent_walk reg K L a s \<longleftrightarrow>
     (\<exists>new. io_sent s = L @ new \<and> list_all (\<lambda>(req, ok). claimed reg req \<and> sq_digest req \<notin> set K) new \<and>
       a = int (length (filter snd new)))"

lemma sent_walk_append:
  assumes "sent_walk reg K L a s" and "ClaimsRepository reg repo"
    and "walked (in_scope reg repo) K (io_sent s) b (io_scanned t) (io_sent t)"
  shows "sent_walk reg K L (a + b) t"
proof -
  obtain new1 where 1: "io_sent s = L @ new1" "list_all (\<lambda>(req, ok). claimed reg req \<and> sq_digest req \<notin> set K) new1"
    "a = int (length (filter snd new1))" using assms(1) by (auto simp: sent_walk_def)
  obtain new2 where 2: "io_sent t = io_sent s @ new2" "list_all (in_scope reg repo \<circ> fst) new2"
    "(sq_digest \<circ> fst) ` set new2 \<subseteq> set (io_scanned t) - set K" "b = int (length (filter snd new2))"
    using assms(3) by (auto simp: walked_since)
  have "list_all (\<lambda>(req, ok). claimed reg req \<and> sq_digest req \<notin> set K) new2"
    using 2(2,3) assms(2) by (fastforce simp: list_all_iff claimed_def in_scope_def)
  with 1 2 show ?thesis by (auto simp: sent_walk_def)
qed

lemma triple_walk_repos:
  "list_all (ClaimsRepository reg) repos \<Longrightarrow>
   triple (sent_walk reg K L (ws_queued stats)) (walk_repos e c base reg K repos stats)
     (\<lambda>st. sent_walk reg K L (ws_queued st)) (\<lambda>s. \<exists>a. sent_walk reg K L a s)"
proof (induction repos arbitrary: stats)
  case Nil
  show ?case unfolding walk_repos.simps by (rule triple_wret)
next
  case (Cons repo repos)
  have "triple (sent_walk reg K L (ws_queued stats)) (walkRepo e c base reg K repo stats)
      (\<lambda>st. sent_walk reg K L (ws_queued st)) (\<lambda>s. \<exists>a. sent_walk reg K L a s)"
    unfolding triple_def
  proof (intro allI impI)
    fix s :: "'a walk_io"
    assume s: "sent_walk reg K L (ws_queued stats) s"
    have repo: "ClaimsRepository reg repo" using Cons.prems by simp
    obtain t r where run: "walkRepo e c base reg K repo stats s = (t, r)"
      by (cases "walkRepo e c base reg K repo stats s")
    show "case snd (walkRepo e c base reg K repo stats s) of
        Returned st \<Rightarrow> sent_walk reg K L (ws_queued st) (fst (walkRepo e c base reg K repo stats s))
      | Stopped _ \<Rightarrow> \<exists>a. sent_walk reg K L a (fst (walkRepo e c base reg K repo stats s))"
    proof (cases r)
      case (Returned st)
      from triple_Returned [OF triple_walkRepo refl run [unfolded this]] sent_walk_append [OF s repo]
      show ?thesis using run Returned by fastforce
    next
      case (Stopped x)
      from triple_Stopped [OF triple_walkRepo refl run [unfolded this]] sent_walk_append [OF s repo]
      show ?thesis using run Stopped by (fastforce simp: stopped_walk_def)
    qed
  qed
  then show ?case using Cons.IH Cons.prems unfolding walk_repos.simps by (intro triple_wbind) auto
qed

lemma matchingRepos_returns:
  "returns (matchingRepos e c base reg)
     (\<lambda>r. case r of Inl err \<Rightarrow> True | Inr repos \<Rightarrow> list_all (ClaimsRepository reg) repos)"
  by (auto simp: matchingRepos_def Let_def list_all_iff ClaimsRepository_def intro!: returns_intros)

text \<open>C12: Every request of a walk names a repository the registry claims and carries the registry's own address,
  credentials and id; its tag passes the tag filter and is not an attached artifact's (or it has none, when
  untagged manifests are included); its digest was not known before the walk. The count the walk reports is
  the number of requests the submitter took.\<close>

theorem walk_stays_in_scope:
  "\<exists>new. io_sent (fst (WalkRegistryStats e reg known s)) = io_sent s @ new \<and>
     list_all (\<lambda>(req, ok). claimed reg req \<and> sq_digest req \<notin> set known) new \<and>
     (case snd (WalkRegistryStats e reg known s) of
        Stopped _ \<Rightarrow> True
      | Returned (st, err) \<Rightarrow> ws_queued st = int (length (filter snd new)))"
proof -
  let ?S = "sent_walk reg known (io_sent s)" and ?base = "registry_base_url reg" and ?c = "registryClient reg"
  let ?R = "\<lambda>s. \<exists>a. ?S a s"
  have repos: "triple (?S 0) (matchingRepos e ?c ?base reg)
      (\<lambda>r s. (case r of Inl err \<Rightarrow> True | Inr repos \<Rightarrow> list_all (ClaimsRepository reg) repos) \<and> ?S 0 s) ?R"
    by (rule triple_returns [OF _ matchingRepos_returns])
      (auto simp: triple_def sent_walk_def blind_keeps [OF blind_matchingRepos] split: outcome.split)
  have read: "triple (?S a) (wread f) (\<lambda>_. ?S a) ?R" for a f
    by (simp add: triple_def wread_def)
  have "triple (\<lambda>t. t = s) (WalkRegistryStats e reg known) (\<lambda>(st, err). ?S (ws_queued st)) ?R"
    unfolding WalkRegistryStats_def Let_def
  proof (rule triple_wbind)
    show "triple (\<lambda>t. t = s) (wmod (\<lambda>s. s\<lparr>io_tokens := []\<rparr>)) (\<lambda>_. ?S 0) ?R"
      by (simp add: triple_def wmod_def sent_walk_def)
    fix x :: unit
    show "triple (?S 0) (wbind (matchingRepos e ?c ?base reg) (\<lambda>r.
        case r of
          Inl err \<Rightarrow> wbind (wread (\<lambda>s. we_now e (io_net s))) (\<lambda>now.
            wret (zero_stats\<lparr>ws_at := now, ws_error := we_error_text e err\<rparr>, Some err))
        | Inr repos \<Rightarrow>
            wbind (walk_repos e ?c ?base reg known repos zero_stats) (\<lambda>stats.
            wbind (wread (\<lambda>s. we_now e (io_net s))) (\<lambda>now.
              wret (stats\<lparr>ws_repositories := int (length repos), ws_at := now\<rparr>, None)))))
      (\<lambda>(st, err). ?S (ws_queued st)) ?R"
    proof (rule triple_wbind [OF repos])
      fix r :: "string list result"
      show "triple (\<lambda>s. (case r of Inl err \<Rightarrow> True | Inr repos \<Rightarrow> list_all (ClaimsRepository reg) repos) \<and> ?S 0 s)
        (case r of
          Inl err \<Rightarrow> wbind (wread (\<lambda>s. we_now e (io_net s))) (\<lambda>now.
            wret (zero_stats\<lparr>ws_at := now, ws_error := we_error_text e err\<rparr>, Some err))
        | Inr repos \<Rightarrow>
            wbind (walk_repos e ?c ?base reg known repos zero_stats) (\<lambda>stats.
            wbind (wread (\<lambda>s. we_now e (io_net s))) (\<lambda>now.
              wret (stats\<lparr>ws_repositories := int (length repos), ws_at := now\<rparr>, None))))
        (\<lambda>(st, err). ?S (ws_queued st)) ?R"
      proof (cases r)
        case (Inl err)
        then show ?thesis
          by (auto intro!: triple_wbind [OF read] triple_wret simp: zero_stats_def)
      next
        case (Inr repos)
        have "triple (?S 0) (walk_repos e ?c ?base reg known repos zero_stats) (\<lambda>st. ?S (ws_queued st)) ?R"
          if "list_all (ClaimsRepository reg) repos"
          using triple_walk_repos [OF that, of known "io_sent s" zero_stats] by (simp add: zero_stats_def)
        then show ?thesis unfolding Inr sum.case
          by (intro triple_pure) (auto intro!: triple_wbind [OF _ triple_wbind [OF read]] triple_wret)
      qed
    qed
  qed
  then show ?thesis
    by (auto simp: triple_def sent_walk_def split: outcome.splits)
qed

section \<open>The windows of a walk\<close>

text \<open>The window that the registry's answers make: the digest that the HEAD of each selected tag answers, asked in
  the state the walk has reached there, and then the digests of the untagged window. There is none when the tags
  cannot be listed, when a tag answers an error or no digest, or when the untagged manifests cannot be found.\<close>

definition head_digest :: "'u walk_env \<Rightarrow> oci_client \<Rightarrow> string \<Rightarrow> string \<Rightarrow> string \<Rightarrow> 'u walk_io \<Rightarrow> string option" where
  "head_digest e c base repo tag s =
     (case snd (ociHeadManifest e c base repo tag s) of
        Returned (Inr info) \<Rightarrow> if mi_digest info = [] then None else Some (mi_digest info)
      | _ \<Rightarrow> None)"

fun tag_digests ::
  "'u walk_env \<Rightarrow> oci_client \<Rightarrow> string \<Rightarrow> string \<Rightarrow> registry \<Rightarrow> string list \<Rightarrow> 'u walk_io \<Rightarrow> string option list" where
  "tag_digests e c base repo reg [] s = []"
| "tag_digests e c base repo reg (tag # tags) s =
     head_digest e c base repo tag s # tag_digests e c base repo reg tags (fst (scanTag e c base repo tag reg s))"

definition after_tags ::
  "'u walk_env \<Rightarrow> oci_client \<Rightarrow> string \<Rightarrow> string \<Rightarrow> registry \<Rightarrow> string list \<Rightarrow> 'u walk_io \<Rightarrow> 'u walk_io" where
  "after_tags e c base repo reg tags s = foldl (\<lambda>s tag. fst (scanTag e c base repo tag reg s)) s tags"

definition untagged_window ::
  "'u walk_env \<Rightarrow> oci_client \<Rightarrow> string \<Rightarrow> string \<Rightarrow> registry \<Rightarrow> 'u walk_io \<Rightarrow> string list option" where
  "untagged_window e c base repo reg s =
     (if \<not> rg_include_untagged reg then Some []
      else (case snd (selectUntagged e c base repo reg s) of
              Returned (Inr (w, untagged)) \<Rightarrow> Some (tw_selected w)
            | _ \<Rightarrow> None))"

definition answered_window ::
  "'u walk_env \<Rightarrow> oci_client \<Rightarrow> string \<Rightarrow> registry \<Rightarrow> string list \<Rightarrow> string \<Rightarrow> 'u walk_io \<Rightarrow> string list option" where
  "answered_window e c base reg known repo s =
     (case selectRepoTags e c base repo reg (s\<lparr>io_scanned := known\<rparr>) of
        (s1, Returned (Inr (w, m))) \<Rightarrow>
          (let ds = tag_digests e c base repo reg (tw_selected w) s1 in
           if None \<in> set ds then None
           else map_option ((@) (map the ds)) (untagged_window e c base repo reg (after_tags e c base repo reg (tw_selected w) s1)))
      | _ \<Rightarrow> None)"

lemma wtry_run:
  assumes "wtry m h f s = (t, Returned x)"
  shows "\<exists>s1. (\<exists>err. m s = (s1, Returned (Inl err)) \<and> h err s1 = (t, Returned x)) \<or>
    (\<exists>y. m s = (s1, Returned (Inr y)) \<and> f y s1 = (t, Returned x))"
  using assms by (auto simp: wtry_def wbind_def split: prod.splits outcome.splits sum.splits)

lemma scanTag_digest:
  assumes "scanTag e c base repo tag reg s = (t, Returned (n, d))"
  shows "d = (case head_digest e c base repo tag s of None \<Rightarrow> [] | Some d \<Rightarrow> d)"
proof -
  have found: "returns (if mi_digest info = [] then wret (0, [])
       else wbind (seen_before (mi_digest info)) (\<lambda>dup.
         if dup then wret (0, mi_digest info)
         else if isIndexMediaType (mi_media_type info) then
           wbind (scanIndex e c base repo tag (mi_digest info) reg) (\<lambda>n. wret (n, mi_digest info))
         else if \<not> isImageManifestType (mi_media_type info) then wret (0, mi_digest info)
         else wbind (ociGetImageMetadata e c base repo (mi_digest info)) (\<lambda>meta.
           if im_attached meta then wret (0, mi_digest info)
           else wbind (submit_scan e (walk_request reg repo (mi_digest info) [] tag (im_architecture meta) meta))
                  (\<lambda>ok. wret (bump ok 0, mi_digest info))))) (\<lambda>(n, d). d = mi_digest info)" for info
    by (auto intro!: returns_intros)
  obtain f where f: "scanTag e c base repo tag reg = wtry (ociHeadManifest e c base repo tag) (\<lambda>_. wret (0, [])) f"
    and digest: "\<And>info. returns (f info) (\<lambda>(n, d). d = mi_digest info)"
    using found unfolding scanTag_def by blast
  from wtry_run [OF assms [unfolded f]] show ?thesis
  proof (elim exE disjE conjE)
    fix s1 info
    assume "ociHeadManifest e c base repo tag s = (s1, Returned (Inr info))" "f info s1 = (t, Returned (n, d))"
    with digest [of info] show ?thesis by (auto simp: head_digest_def returns_def)
  qed (simp add: head_digest_def wret_def)
qed

lemma scan_tags_run:
  "scan_tags e c base repo reg tags (q, covered, selected) s = (t, Returned (n, cov, sel)) \<Longrightarrow>
   t = after_tags e c base repo reg tags s \<and> cov = (covered \<and> None \<notin> set (tag_digests e c base repo reg tags s)) \<and>
   (cov \<longrightarrow> sel = selected @ map the (tag_digests e c base repo reg tags s))"
proof (induction tags arbitrary: q covered selected s)
  case Nil
  then show ?case by (simp add: wret_def after_tags_def)
next
  case (Cons tag tags)
  then obtain t1 k d where step: "scanTag e c base repo tag reg s = (t1, Returned (k, d))"
    by (auto simp: wbind_def split: prod.splits outcome.splits)
  have rest: "(if d = [] then scan_tags e c base repo reg tags (q + k, False, selected)
      else scan_tags e c base repo reg tags (q + k, covered, selected @ [d])) t1 = (t, Returned (n, cov, sel))"
    using Cons.prems step by (simp add: wbind_def)
  have head: "head_digest e c base repo tag s = (if d = [] then None else Some d)"
    using scanTag_digest [OF step] by (auto simp: head_digest_def split: outcome.splits sum.splits if_splits)
  show ?case
    using rest Cons.IH [of "q + k" False selected t1] Cons.IH [of "q + k" covered "selected @ [d]" t1]
    by (cases "d = []") (auto simp: head step after_tags_def)
qed

lemma discoverUntagged_window:
  assumes "(if rg_include_untagged reg then discoverUntagged e c base repo reg else wret (0, [], True)) s =
    (t, Returned (n, digests, ok))"
  shows "untagged_window e c base repo reg s = (if ok then Some digests else None)"
proof (cases "snd (selectUntagged e c base repo reg s)")
  case (Returned r)
  with assms show ?thesis
    by (cases r) (auto simp: untagged_window_def discoverUntagged_def wtry_def wbind_def wret_def prod.case_eq_if
        split: outcome.splits if_splits)
qed (use assms in \<open>auto simp: untagged_window_def discoverUntagged_def wtry_def wbind_def wret_def prod.case_eq_if
       split: if_splits\<close>)

lemma walkRepo_windows:
  assumes "walkRepo e c base reg known repo stats s = (t, Returned st)"
  shows "ws_windows st = (case answered_window e c base reg known repo s of
           None \<Rightarrow> ws_windows stats | Some w \<Rightarrow> AList.update repo w (ws_windows stats))"
proof -
  obtain s1 o1 where select: "selectRepoTags e c base repo reg (s\<lparr>io_scanned := known\<rparr>) = (s1, o1)" by fastforce
  then obtain r where o1: "o1 = Returned r"
    using assms by (cases o1) (auto simp: walkRepo_def wtry_def wbind_def wmod_def)
  show ?thesis
  proof (cases r)
    case (Inl err)
    then show ?thesis using assms select o1
      by (auto simp: walkRepo_def wtry_def wbind_def wmod_def wret_def answered_window_def)
  next
    case (Inr x)
    obtain w m where x: "x = (w, m)" by (cases x)
    let ?tags = "scan_tags e c base repo reg (tw_selected w) (0, True, [])"
    have run: "wbind ?tags (\<lambda>(queued, covered, selected).
        wbind (if rg_include_untagged reg then discoverUntagged e c base repo reg else wret (0, [], True))
          (\<lambda>(n, digests, ok).
            let stats1 = add_window stats w m; stats2 = stats1\<lparr>ws_queued := ws_queued stats1 + queued + n\<rparr>
            in wret (if covered \<and> ok
                     then stats2\<lparr>ws_windows := AList.update repo (selected @ digests) (ws_windows stats2)\<rparr>
                     else stats2))) s1 = (t, Returned st)"
      using assms select o1 Inr x by (simp add: walkRepo_def wtry_def wbind_def wmod_def)
    then obtain s2 q cov sel where tags: "?tags s1 = (s2, Returned (q, cov, sel))"
      by (auto simp: wbind_def split: prod.splits outcome.splits)
    then obtain s3 n ds ok where untagged:
      "(if rg_include_untagged reg then discoverUntagged e c base repo reg else wret (0, [], True)) s2 =
         (s3, Returned (n, ds, ok))"
      using run by (auto simp: wbind_def split: prod.splits outcome.splits)
    have st: "ws_windows st = (if cov \<and> ok then AList.update repo (sel @ ds) (ws_windows stats) else ws_windows stats)"
      using run tags untagged by (auto simp: wbind_def wret_def Let_def add_window_def)
    show ?thesis
      using scan_tags_run [OF tags] discoverUntagged_window [OF untagged] st
      by (auto simp: answered_window_def select o1 Inr x Let_def)
  qed
qed

lemma answered_no_empty:
  assumes "answered_window e c base reg known repo s = Some w"
  shows "[] \<notin> set w"
proof -
  have tags: "Some [] \<notin> set (tag_digests e c base repo reg tags s)" for tags s
    by (induction tags arbitrary: s) (auto simp: head_digest_def split: outcome.splits sum.splits if_splits)
  have untagged: "[] \<notin> set ut" if "untagged_window e c base repo reg s = Some ut" for ut s
    using that selectUntagged_returns [of e c base repo reg] unfolding returns_def untagged_window_def
    by (cases "selectUntagged e c base repo reg s")
      (fastforce split: if_splits outcome.splits sum.splits prod.splits)
  have "[] \<notin> the ` set (tag_digests e c base repo reg tags s)" if "None \<notin> set (tag_digests e c base repo reg tags s)" for tags s
    using that tags [of tags s] by (metis imageE option.exhaust_sel)
  then show ?thesis
    using assms untagged by (auto simp: answered_window_def Let_def split: prod.splits outcome.splits sum.splits if_splits)
qed

text \<open>C22: A window is recorded whole or not at all. When every tag the walk of a repository selected answered its
  digest and the untagged manifests, where they are included, could be selected, the repository's recorded window
  becomes these digests, the tags' in the order of the selection and then the untagged ones, and no digest is empty;
  otherwise all recorded windows stay as they were.\<close>

theorem windows_are_complete:
  "case snd (walkRepo e c base reg known repo stats s) of
     Stopped _ \<Rightarrow> True
   | Returned st \<Rightarrow>
       (case answered_window e c base reg known repo s of
          None \<Rightarrow> ws_windows st = ws_windows stats
        | Some w \<Rightarrow> ws_windows st = AList.update repo w (ws_windows stats) \<and> ([] \<notin> set w))"
proof (cases "walkRepo e c base reg known repo stats s")
  case (Pair t r)
  show ?thesis
  proof (cases r)
    case (Returned st)
    note run = Pair [unfolded Returned]
    have digests: "[] \<notin> set w" if w: "answered_window e c base reg known repo s = Some w" for w
      using answered_no_empty [OF w] .
    show ?thesis using walkRepo_windows [OF run] digests Pair Returned by (simp split: option.splits)
  qed (simp add: Pair)
qed

text \<open>What the preview of a repository shows is what a walk of it from the same state selects: the same number of
  matching tags, selected tags and tags past the limit or too old.\<close>

theorem preview_matches_walk:
  "case (snd (previewRepo e c base reg repo s), snd (walkRepo e c base reg known repo stats s)) of
     (Returned p, Returned st) \<Rightarrow>
       ws_matched st = ws_matched stats + rp_matched p \<and> ws_selected st = ws_selected stats + rp_selected p \<and>
       ws_skipped_by_limit st = ws_skipped_by_limit stats + rp_skipped_by_limit p \<and>
       ws_skipped_by_age st = ws_skipped_by_age stats + rp_skipped_by_age p
   | _ \<Rightarrow> True"
proof -
  let ?t = "s\<lparr>io_scanned := known\<rparr>"
  have t: "?t = hide known (io_sent s) s" by (simp add: hide_def)
  have same: "snd (selectRepoTags e c base repo reg ?t) = snd (selectRepoTags e c base repo reg s)"
    using blind_selectRepoTags [of e c base repo reg] unfolding t blind_def by (metis snd_conv)
  have walk: "walkRepo e c base reg known repo stats s =
      wtry (selectRepoTags e c base repo reg) (\<lambda>_. wret stats) (\<lambda>(window, matched).
      wbind (scan_tags e c base repo reg (tw_selected window) (0, True, [])) (\<lambda>(queued, covered, selected).
      wbind (if rg_include_untagged reg then discoverUntagged e c base repo reg else wret (0, [], True))
        (\<lambda>(n, digests, ok).
          let stats1 = add_window stats window matched;
              stats2 = stats1\<lparr>ws_queued := ws_queued stats1 + queued + n\<rparr>
          in wret (if covered \<and> ok
                   then stats2\<lparr>ws_windows := AList.update repo (selected @ digests) (ws_windows stats2)\<rparr>
                   else stats2)))) ?t"
    by (simp add: walkRepo_def wbind_def wmod_def)
  show ?thesis
  proof (cases "snd (selectRepoTags e c base repo reg s)")
    case (Stopped x)
    then show ?thesis using same unfolding previewRepo_def wtry_def walk
      by (simp add: wbind_def Let_def prod.case_eq_if)
  next
    case (Returned r)
    show ?thesis
    proof (cases r)
      case (Inl err)
      then show ?thesis using same Returned unfolding previewRepo_def wtry_def walk
        by (simp add: wbind_def wret_def Let_def prod.case_eq_if)
    next
      case (Inr x)
      obtain w m where x: "x = (w, m)" by (cases x)
      show ?thesis using same Returned Inr unfolding previewRepo_def wtry_def walk x
        by (auto simp: wbind_def wret_def Let_def prod.case_eq_if add_window_def split: outcome.splits)
    qed
  qed
qed

end
