(* ===== verification/WalkLimits.thy ===== *)
theory WalkLimits
  imports WalkClaims
begin

text \<open>
  The bounds of a walk and what it does beyond them: lists are read up to fifty pages, Harbor's artifacts
  without a bound, a repository whose URL does not parse ends the process, and a build date that could not be
  read once is never read again.
\<close>

section \<open>Paginated lists\<close>

text \<open>The registry serves \<open>pages\<close> from \<open>url\<close> on: each answer is a page that names the next.\<close>

definition serves :: "'u walk_env \<Rightarrow> string \<Rightarrow> http_resp \<Rightarrow> bool" where
  "serves e url resp \<longleftrightarrow>
     we_url_ok e url \<and> hs_status resp = 200 \<and>
     (\<forall>u. we_base e u \<lparr>hr_method = ''GET'', hr_url = url, hr_accept = [], hr_auth = NoAuth, hr_body = []\<rparr> = (u, Inr resp))"

fun serves_pages ::
  "'u walk_env \<Rightarrow> string \<Rightarrow> (ociListPage \<Rightarrow> string list) \<Rightarrow> string \<Rightarrow> string list list \<Rightarrow> bool" where
  "serves_pages e base items url [] \<longleftrightarrow> url = []"
| "serves_pages e base items url (p # ps) \<longleftrightarrow>
     url \<noteq> [] \<and> (\<exists>resp page. serves e url resp \<and> decodeJSONBody (we_dec_page e) resp = Inr page \<and>
       items page = p \<and> serves_pages e base items (nextTagPageURL base (map_str (hs_headers resp) ''Link'')) ps)"

lemma client_get_serves: "serves e url resp \<Longrightarrow> client_get e c ''GET'' url [] s = (s, Returned (Inr resp))"
  by (simp add: serves_def client_get_def RoundTrip_def wtry_def wbind_def wret_def base_round_trip_def)

lemma list_pages_serves:
  "serves_pages e base items url ps \<Longrightarrow>
   list_pages e c base label items n url out s = (s, Returned (Inr (out @ concat (take n ps))))"
proof (induction n arbitrary: url ps out)
  case 0
  then show ?case by (simp add: wret_def)
next
  case (Suc n)
  show ?case
  proof (cases ps)
    case Nil
    with Suc.prems show ?thesis by (simp add: wret_def)
  next
    case (Cons p qs)
    with Suc.prems obtain resp page where *: "url \<noteq> []" "serves e url resp"
      "decodeJSONBody (we_dec_page e) resp = Inr page" "items page = p"
      "serves_pages e base items (nextTagPageURL base (map_str (hs_headers resp) ''Link'')) qs" by auto
    have status: "hs_status resp = 200" using *(2) by (simp add: serves_def)
    show ?thesis using Suc.IH [OF *(5), of "out @ p"] * status Cons
      by (simp add: wtry_def wbind_def client_get_serves)
  qed
qed

text \<open>A list is read completely when it has at most fifty pages. A longer one is cut after the fiftieth, and
  the caller is not told: the call succeeds.\<close>

theorem lists_stop_at_fifty_pages:
  assumes "serves_pages e base items url pages"
  shows "ociListPaged e c base url label items s = (s, Returned (Inr (concat (take 50 pages))))"
  using list_pages_serves [OF assms, of c label maxTagPages "[]" s]
  by (simp add: ociListPaged_def maxTagPages_def)

section \<open>Harbor\<close>

text \<open>As long as Harbor answers full pages the loop goes on: no number of pages ends it.\<close>

definition endless_artifacts :: "'u walk_env \<Rightarrow> bool" where
  "endless_artifacts e \<longleftrightarrow>
     (\<forall>url. we_url_ok e url) \<and>
     (\<forall>u req. \<exists>u1 resp artifacts. we_base e u req = (u1, Inr resp) \<and> hs_status resp = 200 \<and>
        we_dec_artifacts e (hs_body resp) = Some artifacts \<and> length artifacts \<ge> 100)"

theorem harbor_pages_unbounded:
  assumes "endless_artifacts e"
  shows "snd (harbor_pages e c auth prefix fuel page found s) = Stopped OutOfFuel"
proof (induction fuel arbitrary: page found s)
  case 0
  then show ?case by (simp add: wstop_def)
next
  case (Suc fuel)
  define req where "req = \<lparr>hr_method = ''GET'', hr_url = prefix @ ''/artifacts?page='' @ show_nat page @
    ''&page_size='' @ show_nat harbor_page_size, hr_accept = [], hr_auth = auth, hr_body = []\<rparr>"
  obtain u1 resp artifacts where *: "we_base e (io_net s) req = (u1, Inr resp)" "hs_status resp = 200"
    "we_dec_artifacts e (hs_body resp) = Some artifacts" "length artifacts \<ge> 100"
    using assms unfolding endless_artifacts_def by metis
  have "RoundTrip e c req s = (s\<lparr>io_net := u1\<rparr>, Returned (Inr resp))"
    using * by (simp add: RoundTrip_def wtry_def wbind_def wret_def base_round_trip_def)
  moreover have "\<not> length artifacts < harbor_page_size" using *(4) by (simp add: harbor_page_size_def)
  ultimately show ?case using assms * Suc.IH
    unfolding harbor_pages.simps Let_def endless_artifacts_def req_def [symmetric]
    by (simp add: wtry_def wbind_def)
qed

section \<open>A repository name that is no URL\<close>

definition tags_url :: "string \<Rightarrow> string \<Rightarrow> string" where
  "tags_url base repo = base @ ''/v2/'' @ repo @ ''/tags/list?n=1000''"

lemma show_page_size: "show_nat listPageSize = ''1000''"
  by (simp add: listPageSize_def show_nat.simps) code_simp

lemma bad_repo_panics:
  "\<not> we_url_ok e (tags_url base repo) \<Longrightarrow> snd (walkRepo e c base reg known repo stats s) = Stopped Panic"
  by (simp add: walkRepo_def selectRepoTags_def ociListTags_def ociListPaged_def maxTagPages_def show_page_size
      tags_url_def numeral_eq_Suc wtry_def wbind_def wmod_def client_get_def wstop_def)

lemma walk_repos_never_returns:
  "repo \<in> set repos \<Longrightarrow> (\<And>stats t. snd (walkRepo e c base reg known repo stats t) = Stopped Panic) \<Longrightarrow>
   returns (walk_repos e c base reg known repos stats) (\<lambda>_. False)"
proof (induction repos arbitrary: stats)
  case (Cons r rs)
  show ?case
  proof (cases "r = repo")
    case True
    then show ?thesis using Cons.prems(2)
      by (auto simp: returns_def wbind_def split: prod.splits outcome.splits) (metis outcome.distinct(1) snd_conv)
  next
    case False
    then show ?thesis using Cons unfolding walk_repos.simps by (intro returns_wbind) auto
  qed
qed simp

text \<open>C38: When a walk has listed its repositories and one of them does not make a URL (the name has a control
  character or a broken escape, which a catalog may well answer), the walk does not return: the request of its
  tags is nil and sending it panics, in a goroutine nothing recovers.\<close>

theorem unparseable_repository_ends_walk:
  assumes "matchingRepos e (registryClient reg) (registry_base_url reg) reg (s\<lparr>io_tokens := []\<rparr>) =
      (t, Returned (Inr repos))"
    and "repo \<in> set repos" and "\<not> we_url_ok e (tags_url (registry_base_url reg) repo)"
  shows "snd (WalkRegistryStats e reg known s) \<noteq> Returned result"
proof
  assume r: "snd (WalkRegistryStats e reg known s) = Returned result"
  have "returns (walk_repos e (registryClient reg) (registry_base_url reg) reg known repos zero_stats) (\<lambda>_. False)"
    by (rule walk_repos_never_returns [OF assms(2)]) (rule bad_repo_panics [OF assms(3)])
  then have "\<And>u x. walk_repos e (registryClient reg) (registry_base_url reg) reg known repos zero_stats t \<noteq> (u, Returned x)"
    by (auto simp: returns_def)
  then show False using r assms(1)
    by (auto simp: WalkRegistryStats_def Let_def wbind_def wmod_def split: prod.splits outcome.splits)
qed

section \<open>Build dates that could not be read\<close>

text \<open>A date that could not be read is remembered like any other. After a walk during which the registry failed
  (\<open>e\<close>), the manifest has no date for as long as its entry stays in the cache, though the registry answers now
  (\<open>e1\<close>).\<close>

theorem failed_date_is_remembered:
  assumes "map_of (io_created s) d = None"
    and "manifestCreated e c base repo d mt s = (t, Returned None)"
  shows "cachedCreated d (manifestCreated e1 c1 base repo d mt)
       (fst (cachedCreated d (manifestCreated e c base repo d mt) s)) =
     (fst (cachedCreated d (manifestCreated e c base repo d mt) s), Returned None)"
  using assms by (simp add: cachedCreated_def wbind_def wread_def wmod_def wret_def)

section \<open>Layer sizes\<close>

lemma fold_bytes:
  "list_all (\<lambda>l. 0 \<le> sint (snd l)) ls \<Longrightarrow> 0 \<le> sint t \<Longrightarrow> sint t + (\<Sum>l\<leftarrow>ls. sint (snd l)) < 2 ^ 63 \<Longrightarrow>
   sint (fold (\<lambda>l total. total + snd l) ls t) = sint t + (\<Sum>l\<leftarrow>ls. sint (snd l))" for t :: "64 word"
proof (induction ls arbitrary: t)
  case (Cons l ls)
  have nonneg: "0 \<le> (\<Sum>l\<leftarrow>ls. sint (snd l))" using Cons.prems(1) by (induction ls) auto
  have small: "sint t + sint (snd l) < 2 ^ 63" using Cons.prems(3) nonneg by simp
  have "sint (t + snd l) = sint t + sint (snd l)"
    using small Cons.prems(1,2) by (simp add: sint_word_ariths(1) signed_take_bit_int_eq_self)
  then show ?case using Cons.IH [of "t + snd l"] Cons.prems by (simp add: algebra_simps)
qed simp

text \<open>When the sizes of a manifest are not negative and their sum fits 63 bits, the total is the sum.\<close>

theorem totalLayerBytes_exact:
  assumes "list_all (\<lambda>l. 0 \<le> sint (snd l)) (om_layers m)" and "(\<Sum>l\<leftarrow>om_layers m. sint (snd l)) < 2 ^ 63"
  shows "sint (totalLayerBytes m) = (\<Sum>l\<leftarrow>om_layers m. sint (snd l))"
  using fold_bytes [of "om_layers m" 0] assms by (simp add: totalLayerBytes_def)

end
