(* ===== verification/WalkDemo.thy ===== *)
theory WalkDemo
  imports WalkLimits
begin

text \<open>
  A small registry with two repositories, one of which has a name that does not parse, and the theorems of
  \<open>WalkLimits\<close> at concrete values.
\<close>

section \<open>A registry\<close>

definition demo_ok :: "(string \<times> string) list \<Rightarrow> string \<Rightarrow> http_resp" where
  "demo_ok headers body = \<lparr>hs_status = 200, hs_headers = headers, hs_body = body\<rparr>"

definition demo_answer :: "http_req \<Rightarrow> http_resp" where
  "demo_answer req =
     (if hr_url req = ''https://r.io/v2/_catalog?n=1000'' then demo_ok [] ''catalog''
      else if hr_url req = ''https://r.io/v2/app/tags/list?n=1000'' then demo_ok [] ''tags''
      else if hr_url req = ''https://r.io/v2/app/manifests/v1'' then
        demo_ok [(''Docker-Content-Digest'', ''sha256:d1''), (''Content-Type'', mediaTypeOCIManifest)] []
      else if hr_url req = ''https://r.io/v2/app/manifests/sha256:d1'' then demo_ok [] ''manifest''
      else \<lparr>hs_status = 404, hs_headers = [], hs_body = []\<rparr>)"

definition demo_manifest :: ociManifest where
  "demo_manifest = \<lparr>om_artifact_type = [], om_config_digest = [], om_config_media_type = [],
     om_layers = [(''tar'', 5), (''tar'', 7)], om_annotations = []\<rparr>"

definition demo_env :: "unit walk_env" where
  "demo_env =
     \<lparr>we_base = (\<lambda>u req. (u, Inr (demo_answer req))), we_submit = (\<lambda>u req. (u, True)), we_now = (\<lambda>u. 0),
      we_url_ok = (\<lambda>url. CHR ''%'' \<notin> set url), we_url_host = (\<lambda>url. ''r.io''), we_add_date = (+),
      we_parse_time = (\<lambda>s. None), we_error_text = (\<lambda>err. ''error''),
      we_dec_page = (\<lambda>b. if b = ''catalog'' then Some \<lparr>lp_tags = [], lp_repositories = [''app'', ''50%'']\<rparr>
                         else if b = ''tags'' then Some \<lparr>lp_tags = [''v1''], lp_repositories = []\<rparr> else None),
      we_dec_index = (\<lambda>b. None), we_dec_manifest = (\<lambda>b. if b = ''manifest'' then Some demo_manifest else None),
      we_dec_config = (\<lambda>b. None), we_dec_token = (\<lambda>b. None), we_dec_versions = (\<lambda>b. None),
      we_dec_artifacts = (\<lambda>b. Some (replicate 100 (''sha256:a'', mediaTypeOCIManifest, [], []))),
      we_dec_images = (\<lambda>b. None), we_zot_query = (\<lambda>repo. []), we_fuel = 3\<rparr>"

text \<open>The same registry when it does not answer, and when every URL answers with success.\<close>

definition demo_down :: "unit walk_env" where
  "demo_down = demo_env\<lparr>we_base := (\<lambda>u req. (u, Inl (OtherError ''connection refused'')))\<rparr>"

definition demo_full :: "unit walk_env" where
  "demo_full = demo_env\<lparr>we_base := (\<lambda>u req. (u, Inr (demo_ok [] []))), we_url_ok := (\<lambda>url. True)\<rparr>"

definition demo_registry :: registry where
  "demo_registry = zero_registry\<lparr>rg_id := ''r1'', rg_url := ''https://r.io'', rg_tag_order := ''lexical''\<rparr>"

definition demo_io :: "unit walk_io" where
  "demo_io = \<lparr>io_net = (), io_tokens = [], io_created = [], io_scanned = [], io_sent = []\<rparr>"

lemma demo_base_url: "registry_base_url demo_registry = ''https://r.io''"
  by (simp add: registry_base_url_def registrySchemeHost_def demo_registry_def NormalizeRegistryHost_def
      trim_suffix_def has_suffix_def)

lemma demo_serves_catalog:
  "serves_pages demo_env ''https://r.io'' lp_repositories ''https://r.io/v2/_catalog?n=1000'' [[''app'', ''50%'']]"
  by (simp add: serves_def demo_env_def demo_answer_def demo_ok_def decodeJSONBody_def map_str_def has_sub_def
      nextTagPageURL_def)

lemma demo_matchingRepos:
  "matchingRepos demo_env c ''https://r.io'' demo_registry s = (s, Returned (Inr [''app'', ''50%'']))"
  using list_pages_serves [OF demo_serves_catalog, of c "''catalog''" 50 "[]" s]
  by (simp add: matchingRepos_def ociListCatalog_def ociListPaged_def maxTagPages_def show_page_size wtry_def
      wbind_def wret_def demo_registry_def zero_registry_def MatchesRepository_def matchPatternList_def)

lemma demo_url_ok: "we_url_ok demo_env url \<longleftrightarrow> CHR ''%'' \<notin> set url"
  by (simp add: demo_env_def)

section \<open>The theorems there\<close>

theorem lists_stop_at_fifty_pages_witness:
  "ociListPaged demo_env \<lparr>oc_username = [], oc_password = []\<rparr> ''https://r.io'' ''https://r.io/v2/_catalog?n=1000''
     ''catalog'' lp_repositories demo_io = (demo_io, Returned (Inr [''app'', ''50%'']))"
  using lists_stop_at_fifty_pages [OF demo_serves_catalog] by simp

theorem harbor_pages_unbounded_witness:
  "snd (harbor_pages demo_full \<lparr>oc_username = [], oc_password = []\<rparr> NoAuth ''https://h.io'' 7 1 [] demo_io) =
     Stopped OutOfFuel"
  by (rule harbor_pages_unbounded)
    (simp add: endless_artifacts_def demo_full_def demo_env_def demo_ok_def)

lemma demo_bad_url: "\<not> we_url_ok demo_env (tags_url ''https://r.io'' ''50%'')"
  by (simp add: demo_url_ok tags_url_def)

theorem unparseable_repository_ends_walk_witness:
  "snd (WalkRegistryStats demo_env demo_registry [] demo_io) \<noteq> Returned (zero_stats, None)"
  using unparseable_repository_ends_walk [of demo_env demo_registry, unfolded demo_base_url demo_matchingRepos]
    demo_bad_url by force

theorem failed_date_is_remembered_witness:
  "let c = \<lparr>oc_username = [], oc_password = []\<rparr>;
       read = (\<lambda>e. cachedCreated ''sha256:d1'' (manifestCreated e c ''https://r.io'' ''app'' ''sha256:d1'' mediaTypeOCIManifest))
   in snd (read demo_env (fst (read demo_down demo_io))) = Returned None"
proof -
  let ?c = "\<lparr>oc_username = [], oc_password = []\<rparr>"
  have "manifestCreated demo_down ?c ''https://r.io'' ''app'' ''sha256:d1'' mediaTypeOCIManifest demo_io =
      (demo_io, Returned None)"
    by (simp add: manifestCreated_def isIndexMediaType_def media_type_defs ociGetImageMetadata_def client_get_def
        RoundTrip_def manifest_url_def base_round_trip_def wtry_def wbind_def wret_def demo_down_def demo_env_def
        demo_io_def no_metadata_def parseCreated_def)
  from failed_date_is_remembered [OF _ this, of demo_env ?c] show ?thesis by (simp add: Let_def demo_io_def)
qed

theorem totalLayerBytes_exact_witness: "sint (totalLayerBytes demo_manifest) = 12"
  using totalLayerBytes_exact [of demo_manifest] by (simp add: demo_manifest_def)

text \<open>A walk of the repository \<open>app\<close> alone submits its one image.\<close>

theorem demo_walk_submits:
  "map (\<lambda>(req, ok). (sq_repository req, sq_tag req, sq_digest req, ok))
     (io_sent (fst (WalkRegistryStats demo_env (demo_registry\<lparr>rg_repositories := [''app'']\<rparr>) [] demo_io))) =
   [(''app'', ''v1'', ''sha256:d1'', True)]"
proof -
  let ?c = "\<lparr>oc_username = [], oc_password = []\<rparr>" and ?reg = "demo_registry\<lparr>rg_repositories := [''app'']\<rparr>"
  have base: "registry_base_url ?reg = ''https://r.io''"
    by (simp add: registry_base_url_def registrySchemeHost_def demo_registry_def NormalizeRegistryHost_def
        trim_suffix_def has_suffix_def)
  have c: "registryClient ?reg = ?c"
    by (simp add: registryClient_def demo_registry_def zero_registry_def derefStr_def)
  have repos: "matchingRepos demo_env c b ?reg s = (s, Returned (Inr [''app'']))" for c b s
    by (simp add: matchingRepos_def wret_def MatchesRepository_def matchPatternList_def demo_registry_def
        zero_registry_def)
  have "serves_pages demo_env ''https://r.io'' lp_tags ''https://r.io/v2/app/tags/list?n=1000'' [[''v1'']]"
    by (simp add: serves_def demo_env_def demo_answer_def demo_ok_def decodeJSONBody_def map_str_def has_sub_def
        nextTagPageURL_def)
  from list_pages_serves [OF this, of ?c "''tags/list''" 50 "[]"]
  have tags: "ociListTags demo_env ?c ''https://r.io'' ''app'' s = (s, Returned (Inr [''v1'']))" for s
    by (simp add: ociListTags_def ociListPaged_def maxTagPages_def show_page_size)
  have cand: "tag_candidates ?reg [''v1''] = [''v1'']"
    by (simp add: tag_candidates_def MatchesTag_def matchPatternList_def demo_registry_def zero_registry_def
        IsAttachedArtifactTag_def cut_def)
  have window: "SelectTags f ?reg [''v1''] d now = \<lparr>tw_selected = [''v1''], tw_skipped_by_age = 0, tw_skipped_by_limit = 0\<rparr>"
    for f d now
    by (simp add: SelectTags_def selectWindow_def EffectiveTagOrder_def tag_order_defs demo_registry_def
        zero_registry_def Let_def)
  have order: "EffectiveTagOrder ?reg \<noteq> TagOrderCreated"
    by (simp add: EffectiveTagOrder_def tag_order_defs demo_registry_def)
  have select: "selectRepoTags demo_env ?c ''https://r.io'' ''app'' ?reg s =
      (s, Returned (Inr (\<lparr>tw_selected = [''v1''], tw_skipped_by_age = 0, tw_skipped_by_limit = 0\<rparr>, 1)))" for s
    by (simp add: selectRepoTags_def tags wtry_def wbind_def wread_def wret_def Let_def cand window order)
  have head: "ociHeadManifest demo_env ?c ''https://r.io'' ''app'' ''v1'' s =
      (s, Returned (Inr \<lparr>mi_digest = ''sha256:d1'', mi_media_type = mediaTypeOCIManifest\<rparr>))" for s
    by (simp add: ociHeadManifest_def client_get_def RoundTrip_def base_round_trip_def manifest_url_def wtry_def
        wbind_def wret_def demo_env_def demo_answer_def demo_ok_def map_str_def media_type_defs cut_def)
  have meta: "ociGetImageMetadata demo_env ?c ''https://r.io'' ''app'' ''sha256:d1'' s = (s, Returned no_metadata)" for s
    by (simp add: ociGetImageMetadata_def client_get_def RoundTrip_def base_round_trip_def manifest_url_def wtry_def
        wbind_def wret_def demo_env_def demo_answer_def demo_ok_def demo_manifest_def isAttachedArtifact_def
        isAttachedArtifactType_def media_type_defs attachedArtifactPrefixes_def map_str_def no_metadata_def)
  have submit: "we_submit demo_env u req = (u, True)" for u req by (simp add: demo_env_def)
  have untagged: "\<not> rg_include_untagged ?reg" by (simp add: demo_registry_def zero_registry_def)
  have kinds: "\<not> isIndexMediaType mediaTypeOCIManifest" "isImageManifestType mediaTypeOCIManifest"
    by (simp_all add: isIndexMediaType_def isImageManifestType_def media_type_defs)
  have attached: "\<not> im_attached no_metadata" by (simp add: no_metadata_def)
  show ?thesis
    by (simp add: WalkRegistryStats_def base c repos walkRepo_def select scanTag_def head meta submit untagged kinds
        attached wtry_def wbind_def wmod_def wret_def wread_def seen_before_def demo_io_def submit_scan_def
        walk_request_def Let_def)
qed

section \<open>Insecure registries\<close>

text \<open>A registry with an \<open>https\<close> address that is marked insecure is walked over TLS, but the requests of that
  walk have their metadata and size read without it: those two go by the mark alone.\<close>

theorem insecure_mark_drops_tls:
  assumes "rg_url reg = ''https://'' @ host" and "rg_insecure reg"
  shows "has_prefix (registry_base_url reg) ''https://'' \<and>
    has_prefix (request_base_url (walk_request reg repo d ix tag arch meta)) ''http://''"
  using assms
  by (simp add: registry_base_url_def registrySchemeHost_def request_base_url_def walk_request_def)

theorem insecure_mark_drops_tls_witness:
  "has_prefix (registry_base_url (demo_registry\<lparr>rg_insecure := True\<rparr>)) ''https://'' \<and>
   has_prefix (request_base_url (walk_request (demo_registry\<lparr>rg_insecure := True\<rparr>) ''app'' ''sha256:d1'' [] ''v1''
     ''amd64'' no_metadata)) ''http://''"
  by (rule insecure_mark_drops_tls [where host = "''r.io''"]) (simp_all add: demo_registry_def)

end
