(* ===== verification/SecretBox.thy ===== *)
theory SecretBox
  imports GoText GoCrypto
begin

text \<open>
  Credentials at rest: \<^verbatim>\<open>internal/secretbox/secretbox.go\<close> over Go's \<open>encoding/base64\<close>. The cipher, AES-256-GCM
  under a key, is a parameter with the two laws the code relies on; a random nonce is an argument.
\<close>

section \<open>base64.StdEncoding\<close>

definition std_char :: "nat \<Rightarrow> char" where
  "std_char n =
     (if n < 26 then char_of (65 + n)
      else if n < 52 then char_of (71 + n)
      else if n < 62 then char_of (n - 4)
      else if n = 62 then CHR ''+'' else CHR ''/'')"

definition std_value :: "char \<Rightarrow> nat option" where
  "std_value c =
     (let b = byte_of c in
      if 65 \<le> b \<and> b \<le> 90 then Some (b - 65)
      else if 97 \<le> b \<and> b \<le> 122 then Some (b - 71)
      else if 48 \<le> b \<and> b \<le> 57 then Some (b + 4)
      else if b = 43 then Some 62
      else if b = 47 then Some 63 else None)"

fun EncodeStd :: "string \<Rightarrow> string" where
  "EncodeStd [] = []"
| "EncodeStd [a] = [std_char (byte_of a div 4), std_char (byte_of a mod 4 * 16), CHR ''='', CHR ''='']"
| "EncodeStd [a, b] =
     [std_char (byte_of a div 4), std_char (byte_of a mod 4 * 16 + byte_of b div 16),
      std_char (byte_of b mod 16 * 4), CHR ''='']"
| "EncodeStd (a # b # c # rest) =
     [std_char (byte_of a div 4), std_char (byte_of a mod 4 * 16 + byte_of b div 16),
      std_char (byte_of b mod 16 * 4 + byte_of c div 64), std_char (byte_of c mod 64)] @ EncodeStd rest"

text \<open>A group of four characters gives up to three bytes; padding ends the input. The bits a short last group
  leaves over are not checked, and line breaks are skipped, as in Go's decoder.\<close>

fun decode_groups :: "string \<Rightarrow> string option" where
  "decode_groups [] = Some []"
| "decode_groups (a # b # c # d # rest) =
     (case (std_value a, std_value b) of
        (Some x, Some y) \<Rightarrow>
          if d = CHR ''='' then
            (if rest \<noteq> [] then None
             else if c = CHR ''='' then Some [char_of ((x * 4 + y div 16) mod 256)]
             else case std_value c of
                    None \<Rightarrow> None
                  | Some z \<Rightarrow> Some [char_of ((x * 4 + y div 16) mod 256), char_of ((y mod 16 * 16 + z div 4) mod 256)])
          else (case (std_value c, std_value d, decode_groups rest) of
                  (Some z, Some w, Some out) \<Rightarrow>
                    Some (char_of ((x * 4 + y div 16) mod 256) # char_of ((y mod 16 * 16 + z div 4) mod 256) #
                          char_of ((z mod 4 * 64 + w) mod 256) # out)
                | _ \<Rightarrow> None)
      | _ \<Rightarrow> None)"
| "decode_groups _ = None"

definition DecodeStd :: "string \<Rightarrow> string option" where
  "DecodeStd s = decode_groups (filter (\<lambda>c. byte_of c \<noteq> 10 \<and> byte_of c \<noteq> 13) s)"

lemma std_char_code:
  "n < 64 \<Longrightarrow> byte_of (std_char n) =
     (if n < 26 then 65 + n else if n < 52 then 71 + n else if n < 62 then n - 4
      else if n = 62 then 43 else 47)"
  by (auto simp: std_char_def of_char_of)

lemma std_value_char [simp]: "n < 64 \<Longrightarrow> std_value (std_char n) = Some n"
  by (auto simp: std_value_def Let_def std_char_code)

lemma std_char_plain [simp]:
  "n < 64 \<Longrightarrow> std_char n \<noteq> CHR ''=''" "n < 64 \<Longrightarrow> byte_of (std_char n) \<noteq> 10"
  "n < 64 \<Longrightarrow> byte_of (std_char n) \<noteq> 13"
proof -
  assume n: "n < 64"
  show "byte_of (std_char n) \<noteq> 10" "byte_of (std_char n) \<noteq> 13" by (auto simp: std_char_code n)
  have "byte_of (std_char n) \<noteq> byte_of (CHR ''='')" by (auto simp: std_char_code n)
  then show "std_char n \<noteq> CHR ''=''" by metis
qed

lemma sextet_bytes [simp]:
  "byte_of a div 4 < 64" "byte_of a mod 4 * 16 + byte_of b div 16 < 64" "byte_of b mod 16 * 4 + byte_of c div 64 < 64"
  "byte_of c mod 64 < 64" "byte_of a mod 4 * 16 < 64" "byte_of b mod 16 * 4 < 64"
  using sextets [OF byte_bound [of a] byte_bound [of b] byte_bound [of c]] by auto

lemma byte_parts [simp]:
  "byte_of b div 16 div 16 = 0" "byte_of b div 16 mod 16 = byte_of b div 16"
  "byte_of c div 64 div 4 = 0" "byte_of c div 64 mod 4 = byte_of c div 64"
  using byte_div [of b] byte_div [of c] by simp_all

lemma decode_groups_EncodeStd: "decode_groups (EncodeStd s) = Some s"
  by (induction s rule: EncodeStd.induct) simp_all

lemma EncodeStd_no_breaks: "filter (\<lambda>c. byte_of c \<noteq> 10 \<and> byte_of c \<noteq> 13) (EncodeStd s) = EncodeStd s"
  by (induction s rule: EncodeStd.induct) simp_all

lemma DecodeStd_EncodeStd [simp]: "DecodeStd (EncodeStd s) = Some s"
  by (simp add: DecodeStd_def EncodeStd_no_breaks decode_groups_EncodeStd)

section \<open>The cipher\<close>

text \<open>Sealing and opening under one key: nonce, text and additional data.\<close>

record aead =
  ae_seal :: "string \<Rightarrow> string \<Rightarrow> string \<Rightarrow> string"
  ae_open :: "string \<Rightarrow> string \<Rightarrow> string \<Rightarrow> string option"
  ae_nonce_size :: nat
  ae_overhead :: nat

text \<open>What GCM documents: what was sealed under a nonce and data opens under the same to the same text, it is
  longer by the overhead, and nothing else opens.\<close>

definition aead_ok :: "aead \<Rightarrow> bool" where
  "aead_ok A \<longleftrightarrow>
     (\<forall>n p a. length n = ae_nonce_size A \<longrightarrow>
        ae_open A n (ae_seal A n p a) a = Some p \<and> length (ae_seal A n p a) = length p + ae_overhead A) \<and>
     (\<forall>n c a p. ae_open A n c a = Some p \<longrightarrow> c = ae_seal A n p a)"

section \<open>The box\<close>

definition Prefix :: string where "Prefix = ''enc:v1:''"
definition KeySize :: nat where "KeySize = 32"

record box =
  bx_active :: string
  bx_keys :: "(string \<times> aead) list"

text \<open>\<open>keyIDPattern\<close>, \<open>^[A-Za-z0-9_-]{1,32}$\<close>.\<close>

definition key_id_char :: "char \<Rightarrow> bool" where
  "key_id_char c \<longleftrightarrow> is_digit c \<or> 65 \<le> byte_of c \<and> byte_of c \<le> 90 \<or> 97 \<le> byte_of c \<and> byte_of c \<le> 122 \<or>
     c = CHR ''_'' \<or> c = CHR ''-''"

definition keyIDPattern :: "string \<Rightarrow> bool" where
  "keyIDPattern s \<longleftrightarrow> 1 \<le> length s \<and> length s \<le> 32 \<and> list_all key_id_char s"

text \<open>\<open>cipher_of\<close> makes the cipher of a key of 32 bytes.\<close>

fun add_keys :: "(string \<Rightarrow> aead) \<Rightarrow> (string \<times> string) list \<Rightarrow> (string \<times> aead) list \<Rightarrow> (string \<times> aead) list result" where
  "add_keys cipher_of [] acc = Inr acc"
| "add_keys cipher_of ((i, key) # keys) acc =
     (if \<not> keyIDPattern i then Inl (OtherError (''key id '' @ i))
      else if length key \<noteq> KeySize then Inl (OtherError (''key '' @ i @ '': must be 32 bytes''))
      else add_keys cipher_of keys (acc @ [(i, cipher_of key)]))"

definition New :: "(string \<Rightarrow> aead) \<Rightarrow> (string \<times> string) list \<Rightarrow> string \<Rightarrow> box result" where
  "New cipher_of keys active =
     (if keys = [] then Inl (OtherError ''no keys'')
      else bind_result (add_keys cipher_of keys []) (\<lambda>ks.
        if map_of ks active = None then Inl (OtherError (''active key '' @ active @ '' is not in the key list''))
        else Inr \<lparr>bx_active = active, bx_keys = ks\<rparr>))"

fun parse_keys :: "string list \<Rightarrow> (string \<times> string) list \<Rightarrow> (string \<times> string) list result" where
  "parse_keys [] keys = Inr keys"
| "parse_keys (entry # entries) keys =
     (case cut (CHR '':'') (trim_space entry) of (i, enc, ok) \<Rightarrow>
        if \<not> ok then Inl (OtherError (''entry '' @ entry @ '': want <id>:<base64 key>''))
        else if map_of keys i \<noteq> None then Inl (OtherError (''duplicate key id '' @ i))
        else case DecodeStd enc of
               None \<Rightarrow> Inl (OtherError (''key '' @ i @ '': invalid base64''))
             | Some key \<Rightarrow> parse_keys entries (keys @ [(i, key)]))"

text \<open>\<open>None\<close> is the nil box.\<close>

definition Parse :: "(string \<Rightarrow> aead) \<Rightarrow> string \<Rightarrow> string \<Rightarrow> box option result" where
  "Parse cipher_of rawKeys active =
     (let raw = trim_space rawKeys in
      if raw = [] then
        (if active \<noteq> [] then Inl (OtherError ''active key set but no keys configured'') else Inr None)
      else bind_result (parse_keys (split_on (CHR '','') raw) []) (\<lambda>keys.
        bind_result (New cipher_of keys active) (\<lambda>b. Inr (Some b))))"

definition ActiveKey :: "box option \<Rightarrow> string" where
  "ActiveKey b = (case b of None \<Rightarrow> [] | Some x \<Rightarrow> bx_active x)"

definition IsEncrypted :: "string \<Rightarrow> bool" where
  "IsEncrypted stored \<longleftrightarrow> has_prefix stored Prefix"

definition KeyID :: "string \<Rightarrow> string" where
  "KeyID stored =
     (if \<not> IsEncrypted stored then [] else fst (cut (CHR '':'') (trim_prefix stored Prefix)))"

definition AAD :: "string \<Rightarrow> string \<Rightarrow> string \<Rightarrow> string" where
  "AAD table column rowID = table @ ''.'' @ column @ '':'' @ rowID"

text \<open>\<open>nonce\<close> is what \<open>rand.Read\<close> gives, or its error. A box that \<open>New\<close> made has its active key.\<close>

definition Encrypt :: "box option \<Rightarrow> string result \<Rightarrow> string \<Rightarrow> string \<Rightarrow> string result" where
  "Encrypt b nonce plaintext aad =
     (case b of None \<Rightarrow> Inr plaintext
      | Some x \<Rightarrow> (case map_of (bx_keys x) (bx_active x) of
          None \<Rightarrow> Inl (OtherError ''nil AEAD'')
        | Some A \<Rightarrow> (case nonce of
            Inl err \<Rightarrow> Inl (Wrapped ''generating nonce'' err)
          | Inr n \<Rightarrow> Inr (Prefix @ bx_active x @ '':'' @ EncodeStd (n @ ae_seal A n plaintext aad)))))"

text \<open>The text and whether it was stored in the clear.\<close>

definition Decrypt :: "box option \<Rightarrow> string \<Rightarrow> string \<Rightarrow> (string \<times> bool) result" where
  "Decrypt b stored aad =
     (if \<not> IsEncrypted stored then Inr (stored, True)
      else case b of None \<Rightarrow> Inl (OtherError ''encrypted value but no encryption key configured'')
      | Some x \<Rightarrow> (case cut (CHR '':'') (trim_prefix stored Prefix) of (i, payload, ok) \<Rightarrow>
          if \<not> ok then Inl (OtherError ''malformed encrypted value'')
          else case map_of (bx_keys x) i of
            None \<Rightarrow> Inl (OtherError (''unknown encryption key '' @ i))
          | Some A \<Rightarrow> (case DecodeStd payload of
              None \<Rightarrow> Inl (OtherError ''malformed encrypted value'')
            | Some sealed \<Rightarrow>
                if length sealed < ae_nonce_size A + ae_overhead A
                then Inl (OtherError ''malformed encrypted value: too short'')
                else (case ae_open A (take (ae_nonce_size A) sealed) (drop (ae_nonce_size A) sealed) aad of
                        None \<Rightarrow> Inl (OtherError ''decrypting value: authentication failed'')
                      | Some out \<Rightarrow> Inr (out, False)))))"

definition NeedsRewrite :: "box option \<Rightarrow> string \<Rightarrow> bool" where
  "NeedsRewrite b stored =
     (case b of None \<Rightarrow> False | Some x \<Rightarrow> if stored = [] then False else KeyID stored \<noteq> bx_active x)"

section \<open>What a box keeps\<close>

text \<open>The invariant of a box that \<open>New\<close> made: ids are well formed and the active key is there.\<close>

definition box_ok :: "box \<Rightarrow> bool" where
  "box_ok x \<longleftrightarrow> list_all (\<lambda>k. keyIDPattern (fst k) \<and> aead_ok (snd k)) (bx_keys x) \<and>
     map_of (bx_keys x) (bx_active x) \<noteq> None"

lemma add_keys_ok:
  assumes "\<And>key. length key = KeySize \<Longrightarrow> aead_ok (cipher_of key)"
  shows "add_keys cipher_of keys acc = Inr ks \<Longrightarrow> list_all (\<lambda>k. keyIDPattern (fst k) \<and> aead_ok (snd k)) acc \<Longrightarrow>
    list_all (\<lambda>k. keyIDPattern (fst k) \<and> aead_ok (snd k)) ks"
proof (induction keys arbitrary: acc)
  case (Cons k keys)
  obtain i key where k: "k = (i, key)" by (cases k)
  with Cons.prems have ok: "keyIDPattern i" "length key = KeySize" and
    rest: "add_keys cipher_of keys (acc @ [(i, cipher_of key)]) = Inr ks" by (auto split: if_splits)
  show ?case using Cons.IH [OF rest] Cons.prems(2) ok assms by simp
qed simp

lemma New_ok:
  assumes "\<And>key. length key = KeySize \<Longrightarrow> aead_ok (cipher_of key)" and "New cipher_of keys active = Inr b"
  shows "box_ok b \<and> bx_active b = active"
  using assms(2) add_keys_ok [of cipher_of, OF assms(1)]
  by (auto simp: New_def box_ok_def bind_result_Inr_iff split: if_splits)

lemma Parse_ok:
  assumes "\<And>key. length key = KeySize \<Longrightarrow> aead_ok (cipher_of key)" and "Parse cipher_of raw active = Inr (Some b)"
  shows "box_ok b"
  using assms(2) New_ok [of cipher_of, OF assms(1)]
  by (auto simp: Parse_def Let_def bind_result_Inr_iff split: if_splits)

lemma key_id_no_colon: "keyIDPattern s \<Longrightarrow> CHR '':'' \<notin> set s"
  by (auto simp: keyIDPattern_def list_all_iff key_id_char_def is_digit_def dest!: bspec)

lemma key_in_ring: "box_ok x \<Longrightarrow> map_of (bx_keys x) i = Some A \<Longrightarrow> keyIDPattern i \<and> aead_ok A"
  unfolding box_ok_def list_all_iff by (metis fst_conv map_of_SomeD snd_conv)

lemma has_prefix_start [simp]: "has_prefix (p @ s) p"
  by (induction p) simp_all

lemma cut_append: "c \<notin> set p \<Longrightarrow> cut c (p @ c # s) = (p, s, True)"
proof -
  have "c \<notin> set p \<Longrightarrow> index_byte c (p @ c # s) = Some (length p)" by (induction p) auto
  then show "c \<notin> set p \<Longrightarrow> cut c (p @ c # s) = (p, s, True)" by (simp add: cut_def)
qed

lemma sealed_parts:
  assumes "keyIDPattern i"
  shows "IsEncrypted (Prefix @ i @ '':'' @ s)" "cut (CHR '':'') (trim_prefix (Prefix @ i @ '':'' @ s) Prefix) = (i, s, True)"
    "KeyID (Prefix @ i @ '':'' @ s) = i"
  using cut_append [OF key_id_no_colon [OF assms], of s]
  by (simp_all add: IsEncrypted_def trim_prefix_def KeyID_def)

text \<open>What a box encrypts, every box whose ring has the same key opens again, under the same data; so after a
  rotation a ring that keeps the old key reads the old values. The value names the active key.\<close>

lemma Decrypt_Encrypt:
  assumes x: "box_ok x" and y: "box_ok y" and n: "length n = ae_nonce_size (the (map_of (bx_keys x) (bx_active x)))"
    and key: "map_of (bx_keys y) (bx_active x) = map_of (bx_keys x) (bx_active x)"
    and stored: "Encrypt (Some x) (Inr n) p aad = Inr stored"
  shows "Decrypt (Some y) stored aad = Inr (p, False) \<and> KeyID stored = bx_active x \<and> IsEncrypted stored"
proof -
  obtain A where A: "map_of (bx_keys x) (bx_active x) = Some A" using x by (auto simp: box_ok_def)
  then have ok: "keyIDPattern (bx_active x)" "aead_ok A" using key_in_ring [OF x] by auto
  have s: "stored = Prefix @ bx_active x @ '':'' @ EncodeStd (n @ ae_seal A n p aad)"
    using stored A by (simp add: Encrypt_def)
  have len: "length n = ae_nonce_size A" using n A by simp
  then have "ae_open A n (ae_seal A n p aad) aad = Some p" "length (ae_seal A n p aad) = length p + ae_overhead A"
    using ok(2) by (auto simp: aead_ok_def)
  then show ?thesis unfolding s using sealed_parts [OF ok(1)] key A len by (simp add: Decrypt_def)
qed

lemma Decrypt_plain: "\<not> IsEncrypted stored \<Longrightarrow> Decrypt b stored aad = Inr (stored, True)"
  by (simp add: Decrypt_def)

text \<open>Without keys a credential is stored as it is; one that happens to start with the mark of an encrypted
  value cannot be read again.\<close>

lemma marked_plaintext_lost:
  assumes "Encrypt None nonce p aad = Inr stored" and "has_prefix p Prefix"
  shows "\<exists>err. Decrypt None stored aad = Inl err"
  using assms by (simp add: Encrypt_def Decrypt_def IsEncrypted_def)

end
