(* ===== verification/RegistryTables.thy ===== *)
theory RegistryTables
  imports IngestTables RegistryScope Sources
begin

text \<open>
  The configured registries: the table \<open>registry\<close> (migrations 00009 to 00083), \<open>registry_window\<close> (00086) and the
  statements of \<^verbatim>\<open>internal/repository/registry.sql.go\<close>, over the namespace and source tables. A registry's id
  is its source's id; its name and its namespace are the source's, its visibility the namespace's. The SBOMs and
  the links from artifacts to namespaces are here for the statements that move a source.
\<close>

section \<open>Rows\<close>

record registry_row =
  rr_id :: uuid
  rr_type :: string
  rr_url :: string
  rr_insecure :: bool
  rr_webhook_secret :: "string option"
  rr_enabled :: bool
  rr_created :: int
  rr_updated :: int
  rr_repository_patterns :: "string list"
  rr_tag_patterns :: "string list"
  rr_scan_mode :: string
  rr_poll_interval :: "32 word"
  rr_last_polled :: "int option"
  rr_repositories :: "string list"
  rr_auth_username :: "string option"
  rr_auth_token :: "string option"
  rr_include_untagged :: bool
  rr_verification_mode :: string
  rr_trust_public_key :: "string option"
  rr_trust_identity :: "string option"
  rr_trust_issuer :: "string option"
  rr_managed_by :: "string option"
  rr_managed_ref :: "string option"
  rr_tag_limit :: "32 word"
  rr_tag_order :: "string option"
  rr_max_tag_age :: "32 word option"
  rr_last_walk :: "walk_stats option"

record window_row =
  wn_registry :: uuid
  wn_repository :: string
  wn_digests :: "string list"
  wn_walked :: int

text \<open>\<open>gd_artifact_ns\<close> holds the pairs (artifact, namespace).\<close>

record registry_db =
  gd_ns :: db
  gd_sources :: "source_row list"
  gd_registries :: "registry_row list"
  gd_windows :: "window_row list"
  gd_sboms :: "stored_sbom list"
  gd_artifact_ns :: "(uuid \<times> uuid) list"

text \<open>The CHECK constraints of the table.\<close>

definition registry_check :: "registry_row \<Rightarrow> bool" where
  "registry_check r \<longleftrightarrow>
     List.member [''zot'', ''harbor'', ''docker'', ''generic'', ''ghcr''] (rr_type r) \<and>
     List.member [''webhook'', ''poll'', ''both''] (rr_scan_mode r) \<and>
     List.member [''none'', ''public_key'', ''keyless''] (rr_verification_mode r) \<and>
     0 \<le> sint (rr_tag_limit r) \<and>
     (case rr_tag_order r of None \<Rightarrow> True
      | Some ord \<Rightarrow> List.member [TagOrderSemver, TagOrderCreated, TagOrderLexical] ord) \<and>
     (case rr_max_tag_age r of None \<Rightarrow> True | Some n \<Rightarrow> 1 \<le> sint n)"

definition check_violation :: go_error where "check_violation = OtherError ''check violation''"
definition not_null_violation :: go_error where "not_null_violation = OtherError ''not-null violation''"

section \<open>Writing a registry\<close>

text \<open>The namespace and its owner row, when none is given.\<close>

definition mint_namespace ::
    "int \<Rightarrow> uuid \<Rightarrow> string \<Rightarrow> string \<Rightarrow> uuid option \<Rightarrow> uuid option \<Rightarrow> db \<Rightarrow> (uuid \<times> db) result" where
  "mint_namespace now i name vis ns owner d =
     (case ns of
        Some n \<Rightarrow> Inr (n, d)
      | None \<Rightarrow> (case CreateNamespaceRow None now i d name vis owner of
                   Inl e \<Rightarrow> Inl e | Inr (row, d') \<Rightarrow> Inr (i, d')))"

text \<open>One statement writes the namespace, the source and the registry. \<open>arg\<close> carries the id and the columns the
  statement takes; the others get their defaults.\<close>

definition new_registry_row :: "int \<Rightarrow> registry_row \<Rightarrow> registry_row" where
  "new_registry_row now arg =
     arg\<lparr>rr_enabled := True, rr_created := now, rr_updated := now, rr_last_polled := None, rr_last_walk := None\<rparr>"

definition CreateRegistryRow ::
    "fault \<Rightarrow> int \<Rightarrow> registry_row \<Rightarrow> string \<Rightarrow> string \<Rightarrow> uuid option \<Rightarrow> uuid option \<Rightarrow> registry_db \<Rightarrow>
     registry_row result \<times> registry_db" where
  "CreateRegistryRow flt now arg name vis ns owner g =
     run_stmt flt g
       (case mint_namespace now (rr_id arg) name vis ns owner (gd_ns g) of
          Inl e \<Rightarrow> (Inl e, g)
        | Inr (n, d) \<Rightarrow>
            (case CreateSourceRow None now (rr_id arg) d n SourceKindOCIRegistry name (gd_sources g) of
               (Inl e, _) \<Rightarrow> (Inl e, g)
             | (Inr _, ss) \<Rightarrow>
                 let row = new_registry_row now arg in
                 if \<not> registry_check row then (Inl check_violation, g)
                 else if list_ex (\<lambda>r. rr_id r = rr_id row) (gd_registries g) then (Inl UniqueViolation, g)
                 else (Inr row, g\<lparr>gd_ns := d, gd_sources := ss, gd_registries := gd_registries g @ [row]\<rparr>)))"

text \<open>The columns an update sets.\<close>

definition set_columns :: "int \<Rightarrow> registry_row \<Rightarrow> registry_row \<Rightarrow> registry_row" where
  "set_columns now arg r =
     arg\<lparr>rr_id := rr_id r, rr_created := rr_created r, rr_updated := now,
         rr_last_polled := rr_last_polled r, rr_last_walk := rr_last_walk r\<rparr>"

definition rename_namespace :: "int \<Rightarrow> uuid \<Rightarrow> string \<Rightarrow> string \<Rightarrow> db \<Rightarrow> db result" where
  "rename_namespace now i name vis d =
     (if \<not> list_ex (\<lambda>n. ns_id n = i) (namespaces d) then Inr d
      else map_sum id snd (UpdateNamespaceRow None now d i name vis))"

definition rename_source :: "int \<Rightarrow> uuid \<Rightarrow> string \<Rightarrow> source_row list \<Rightarrow> source_row list result" where
  "rename_source now i name ss =
     (if \<not> list_ex (\<lambda>s. sr_id s = i) ss then Inr ss
      else (case UpdateSourceRow None now i name ss of (Inl e, _) \<Rightarrow> Inl e | (Inr _, ss') \<Rightarrow> Inr ss'))"

text \<open>One statement again: the row of \<open>namespace\<close> that has the registry's id, the source, the registry. The
  first two are written whether or not there is a registry.\<close>

definition UpdateRegistryRow ::
    "fault \<Rightarrow> int \<Rightarrow> registry_row \<Rightarrow> string \<Rightarrow> string \<Rightarrow> registry_db \<Rightarrow> registry_row result \<times> registry_db" where
  "UpdateRegistryRow flt now arg name vis g =
     run_stmt flt g
       (case rename_namespace now (rr_id arg) name vis (gd_ns g) of
          Inl e \<Rightarrow> (Inl e, g)
        | Inr d \<Rightarrow>
            (case rename_source now (rr_id arg) name (gd_sources g) of
               Inl e \<Rightarrow> (Inl e, g)
             | Inr ss \<Rightarrow>
                 (case find (\<lambda>r. rr_id r = rr_id arg) (gd_registries g) of
                    None \<Rightarrow> (Inl NoRows, g\<lparr>gd_ns := d, gd_sources := ss\<rparr>)
                  | Some r \<Rightarrow>
                      if \<not> registry_check (set_columns now arg r) then (Inl check_violation, g)
                      else (Inr (set_columns now arg r),
                            g\<lparr>gd_ns := d, gd_sources := ss,
                              gd_registries := update_where (\<lambda>r. rr_id r = rr_id arg) (set_columns now arg)
                                                 (gd_registries g)\<rparr>))))"

text \<open>Deleting the source takes the registry and its windows with it and leaves its SBOMs without a source.\<close>

definition detach :: "uuid \<Rightarrow> stored_sbom \<Rightarrow> stored_sbom" where
  "detach i s = (if ps_source s = Some i then s\<lparr>ps_source := None\<rparr> else s)"

definition DeleteRegistryRow :: "fault \<Rightarrow> uuid \<Rightarrow> registry_db \<Rightarrow> int result \<times> registry_db" where
  "DeleteRegistryRow flt i g =
     run_stmt flt g
       (if \<not> list_ex (\<lambda>s. sr_id s = i) (gd_sources g) then (Inr 0, g)
        else (Inr (count_where (\<lambda>s. sr_id s = i) (gd_sources g)),
              g\<lparr>gd_sources := filter (\<lambda>s. sr_id s \<noteq> i) (gd_sources g),
                gd_registries := filter (\<lambda>r. rr_id r \<noteq> i) (gd_registries g),
                gd_windows := filter (\<lambda>w. wn_registry w \<noteq> i) (gd_windows g),
                gd_sboms := map (detach i) (gd_sboms g)\<rparr>))"

definition update_registry ::
    "fault \<Rightarrow> uuid \<Rightarrow> (registry_row \<Rightarrow> registry_row) \<Rightarrow> registry_db \<Rightarrow> registry_row result \<times> registry_db" where
  "update_registry flt i f g =
     run_stmt flt g
       (case find (\<lambda>r. rr_id r = i) (gd_registries g) of
          None \<Rightarrow> (Inl NoRows, g)
        | Some r \<Rightarrow> (Inr (f r), g\<lparr>gd_registries := update_where (\<lambda>r. rr_id r = i) f (gd_registries g)\<rparr>))"

definition SetRegistryEnabled :: "fault \<Rightarrow> int \<Rightarrow> uuid \<Rightarrow> bool \<Rightarrow> registry_db \<Rightarrow> registry_row result \<times> registry_db" where
  "SetRegistryEnabled flt now i enabled g =
     update_registry flt i (\<lambda>r. r\<lparr>rr_enabled := enabled, rr_updated := now\<rparr>) g"

definition UpdateRegistryLastPolled :: "fault \<Rightarrow> int \<Rightarrow> uuid \<Rightarrow> registry_db \<Rightarrow> registry_row result \<times> registry_db" where
  "UpdateRegistryLastPolled flt now i g =
     update_registry flt i (\<lambda>r. r\<lparr>rr_last_polled := Some now, rr_updated := now\<rparr>) g"

section \<open>Walks\<close>

text \<open>The stored document leaves the windows out; they are the rows of \<open>registry_window\<close>.\<close>

definition RecordRegistryWalkStats :: "fault \<Rightarrow> uuid \<Rightarrow> walk_stats \<Rightarrow> registry_db \<Rightarrow> unit result \<times> registry_db" where
  "RecordRegistryWalkStats flt i stats g =
     run_stmt flt g
       (Inr (), g\<lparr>gd_registries := update_where (\<lambda>r. rr_id r = i)
                    (\<lambda>r. r\<lparr>rr_last_walk := Some (stats\<lparr>ws_windows := []\<rparr>)\<rparr>) (gd_registries g)\<rparr>)"

definition DeleteRegistryWindow :: "fault \<Rightarrow> uuid \<Rightarrow> registry_db \<Rightarrow> unit result \<times> registry_db" where
  "DeleteRegistryWindow flt i g =
     run_stmt flt g (Inr (), g\<lparr>gd_windows := filter (\<lambda>w. wn_registry w \<noteq> i) (gd_windows g)\<rparr>)"

definition InsertRegistryWindow :: "fault \<Rightarrow> window_row \<Rightarrow> registry_db \<Rightarrow> unit result \<times> registry_db" where
  "InsertRegistryWindow flt w g =
     run_stmt flt g
       (if list_ex (\<lambda>x. wn_registry x = wn_registry w \<and> wn_repository x = wn_repository w) (gd_windows g)
        then (Inl UniqueViolation, g)
        else if \<not> list_ex (\<lambda>r. rr_id r = wn_registry w) (gd_registries g) then (Inl foreign_key, g)
        else (Inr (), g\<lparr>gd_windows := gd_windows g @ [w]\<rparr>))"

definition ListRegistryWalkStats :: "fault \<Rightarrow> registry_db \<Rightarrow> (uuid \<times> walk_stats) list result" where
  "ListRegistryWalkStats flt g =
     read_stmt flt (Inr (List.map_filter (\<lambda>r. map_option (Pair (rr_id r)) (rr_last_walk r)) (gd_registries g)))"

section \<open>Reading\<close>

text \<open>A registry with its name, its namespace and the visibility, over the two joins.\<close>

record registry_composite =
  rc_reg :: registry_row
  rc_name :: string
  rc_namespace :: "uuid option"
  rc_visibility :: string

definition join_registry :: "registry_db \<Rightarrow> registry_row \<Rightarrow> registry_composite option" where
  "join_registry g r =
     (case find (\<lambda>s. sr_id s = rr_id r) (gd_sources g) of
        None \<Rightarrow> None
      | Some s \<Rightarrow> (case find (\<lambda>n. ns_id n = sr_namespace s) (namespaces (gd_ns g)) of
                     None \<Rightarrow> None
                   | Some n \<Rightarrow> Some \<lparr>rc_reg = r, rc_name = sr_name s, rc_namespace = Some (ns_id n),
                                     rc_visibility = ns_visibility n\<rparr>))"

definition joined :: "registry_db \<Rightarrow> registry_composite list" where
  "joined g = List.map_filter (join_registry g) (gd_registries g)"

definition by_created :: "registry_composite list \<Rightarrow> registry_composite list" where
  "by_created = sort_by (on_key int_cmp (\<lambda>c. rr_created (rc_reg c)))"

definition first_row :: "registry_composite list \<Rightarrow> registry_composite result" where
  "first_row rows = (case rows of [] \<Rightarrow> Inl NoRows | c # _ \<Rightarrow> Inr c)"

definition GetRegistryRow :: "fault \<Rightarrow> registry_db \<Rightarrow> uuid \<Rightarrow> registry_composite result" where
  "GetRegistryRow flt g i = read_stmt flt (first_row (filter (\<lambda>c. rr_id (rc_reg c) = i) (joined g)))"

definition GetRegistryRowByName :: "fault \<Rightarrow> registry_db \<Rightarrow> string \<Rightarrow> registry_composite result" where
  "GetRegistryRowByName flt g name =
     read_stmt flt (first_row (by_created (filter (\<lambda>c. rc_name c = name) (joined g))))"

definition in_namespaces :: "uuid list \<Rightarrow> registry_composite \<Rightarrow> bool" where
  "in_namespaces ids c \<longleftrightarrow> (case rc_namespace c of None \<Rightarrow> False | Some n \<Rightarrow> List.member ids n)"

definition ListRegistryRows :: "fault \<Rightarrow> registry_db \<Rightarrow> uuid option \<Rightarrow> bool \<Rightarrow> registry_composite list result" where
  "ListRegistryRows flt g viewer is_admin =
     read_stmt flt (Inr (by_created
       (filter (in_namespaces (visible_namespace_ids (gd_ns g) viewer is_admin)) (joined g))))"

definition ListRegistriesByNamespace :: "fault \<Rightarrow> registry_db \<Rightarrow> uuid \<Rightarrow> registry_composite list result" where
  "ListRegistriesByNamespace flt g ns =
     read_stmt flt (Inr (by_created (filter (\<lambda>c. rc_namespace c = Some ns) (joined g))))"

definition ListPollableRegistries :: "fault \<Rightarrow> registry_db \<Rightarrow> registry_composite list result" where
  "ListPollableRegistries flt g =
     read_stmt flt (Inr (by_created (filter (\<lambda>c. rr_enabled (rc_reg c) \<and>
       List.member [''poll'', ''both''] (rr_scan_mode (rc_reg c))) (joined g))))"

text \<open>A page, with the number of all rows beside it.\<close>

definition ListRegistryRowsPaged ::
    "fault \<Rightarrow> registry_db \<Rightarrow> visibility_filter \<Rightarrow> int \<Rightarrow> int \<Rightarrow> (registry_composite \<times> int) list result" where
  "ListRegistryRowsPaged flt g f lim off =
     read_stmt flt
       (let ids = (if vf_owned_only f then owned_namespace_ids (gd_ns g) (vf_user_id f)
                   else visible_namespace_ids (gd_ns g) (vf_user_id f) (vf_is_admin f));
            rows = sort_by (then_cmp (on_key int_cmp (\<lambda>c. rr_created (rc_reg c)))
                              (on_key uuid_cmp (\<lambda>c. rr_id (rc_reg c)))) (filter (in_namespaces ids) (joined g))
        in page lim off (map (\<lambda>c. (c, int (length rows))) rows))"

section \<open>Moving a source\<close>

definition GetSourceNamespace :: "fault \<Rightarrow> registry_db \<Rightarrow> uuid \<Rightarrow> uuid result" where
  "GetSourceNamespace flt g i =
     read_stmt flt (case find (\<lambda>s. sr_id s = i) (gd_sources g) of Some s \<Rightarrow> Inr (sr_namespace s) | None \<Rightarrow> Inl NoRows)"

definition MoveSourceNamespace :: "fault \<Rightarrow> int \<Rightarrow> uuid \<Rightarrow> uuid \<Rightarrow> registry_db \<Rightarrow> unit result \<times> registry_db" where
  "MoveSourceNamespace flt now i ns g =
     run_stmt flt g
       (case find (\<lambda>s. sr_id s = i) (gd_sources g) of
          None \<Rightarrow> (Inr (), g)
        | Some s \<Rightarrow>
            if list_ex (\<lambda>r. sr_id r \<noteq> i \<and> sr_namespace r = ns \<and> sr_name r = sr_name s) (gd_sources g)
            then (Inl UniqueViolation, g)
            else if \<not> list_ex (\<lambda>n. ns_id n = ns) (namespaces (gd_ns g)) then (Inl foreign_key, g)
            else (Inr (), g\<lparr>gd_sources := update_where (\<lambda>r. sr_id r = i)
                              (\<lambda>r. r\<lparr>sr_namespace := ns, sr_updated := now\<rparr>) (gd_sources g)\<rparr>))"

definition MoveSourceSBOMs :: "fault \<Rightarrow> uuid \<Rightarrow> uuid \<Rightarrow> registry_db \<Rightarrow> int result \<times> registry_db" where
  "MoveSourceSBOMs flt i ns g =
     run_stmt flt g
       (if list_ex (\<lambda>s. ps_source s = Some i) (gd_sboms g) \<and> \<not> list_ex (\<lambda>n. ns_id n = ns) (namespaces (gd_ns g))
        then (Inl foreign_key, g)
        else (Inr (count_where (\<lambda>s. ps_source s = Some i) (gd_sboms g)),
        g\<lparr>gd_sboms := update_where (\<lambda>s. ps_source s = Some i) (\<lambda>s. s\<lparr>ps_namespace := ns\<rparr>) (gd_sboms g)\<rparr>))"

definition source_artifacts :: "uuid \<Rightarrow> registry_db \<Rightarrow> uuid option list" where
  "source_artifacts i g = remdups (map ps_artifact (filter (\<lambda>s. ps_source s = Some i) (gd_sboms g)))"

text \<open>An SBOM without an artifact gives a row without one, which the table refuses.\<close>

definition LinkSourceArtifacts :: "fault \<Rightarrow> uuid \<Rightarrow> uuid \<Rightarrow> registry_db \<Rightarrow> unit result \<times> registry_db" where
  "LinkSourceArtifacts flt i ns g =
     run_stmt flt g
       (let arts = source_artifacts i g in
        if List.member arts None then (Inl not_null_violation, g)
        else if arts \<noteq> [] \<and> \<not> list_ex (\<lambda>n. ns_id n = ns) (namespaces (gd_ns g)) then (Inl foreign_key, g)
        else (Inr (), g\<lparr>gd_artifact_ns := gd_artifact_ns g @
                filter (\<lambda>l. \<not> List.member (gd_artifact_ns g) l) (map (\<lambda>a. (a, ns)) (List.map_filter id arts))\<rparr>))"

definition UnlinkEmptiedArtifacts :: "fault \<Rightarrow> uuid \<Rightarrow> uuid \<Rightarrow> registry_db \<Rightarrow> unit result \<times> registry_db" where
  "UnlinkEmptiedArtifacts flt i old g =
     run_stmt flt g
       (Inr (), g\<lparr>gd_artifact_ns := filter (\<lambda>(a, n). \<not> (n = old \<and> List.member (source_artifacts i g) (Some a) \<and>
          \<not> list_ex (\<lambda>s. ps_artifact s = Some a \<and> ps_namespace s = old) (gd_sboms g))) (gd_artifact_ns g)\<rparr>)"

section \<open>Stored credentials\<close>

definition ListRegistrySecretsPage ::
    "fault \<Rightarrow> registry_db \<Rightarrow> uuid \<Rightarrow> int \<Rightarrow> (uuid \<times> string option \<times> string option) list result" where
  "ListRegistrySecretsPage flt g after lim =
     read_stmt flt (page lim 0 (sort_by (on_key uuid_cmp fst)
       (map (\<lambda>r. (rr_id r, rr_auth_token r, rr_webhook_secret r))
         (filter (\<lambda>r. after < rr_id r \<and> (rr_auth_token r \<noteq> None \<or> rr_webhook_secret r \<noteq> None)) (gd_registries g)))))"

text \<open>Compare and swap.\<close>

definition RewriteRegistrySecrets ::
    "fault \<Rightarrow> uuid \<Rightarrow> string option \<times> string option \<Rightarrow> string option \<times> string option \<Rightarrow> registry_db \<Rightarrow>
     int result \<times> registry_db" where
  "RewriteRegistrySecrets flt i old new g =
     run_stmt flt g
       (let same = (\<lambda>r. rr_id r = i \<and> rr_auth_token r = fst old \<and> rr_webhook_secret r = snd old) in
        (Inr (count_where same (gd_registries g)),
         g\<lparr>gd_registries := update_where same
             (\<lambda>r. r\<lparr>rr_auth_token := fst new, rr_webhook_secret := snd new\<rparr>) (gd_registries g)\<rparr>))"

end
