(* ===== verification/Registries.thy ===== *)
theory Registries
  imports OciClient ScanJobService SecretBox RegistryTables
begin

text \<open>
  The registry service: \<^verbatim>\<open>internal/service/registry.go\<close> and \<^verbatim>\<open>registry_secrets.go\<close>. Credentials are opened by the
  box of \<open>SecretBox\<close> through the calls of \<open>ScanJobService\<close>; everything above the service sees them in the clear.
\<close>

section \<open>What a call draws\<close>

text \<open>The UUID parser, the box, the clock, the failure of the call's k-th statement, the ids that \<open>uuid.New\<close> and the
  namespace table draw, and the nonce for each column.\<close>

record reg_env =
  re_parse :: uuid_parser
  re_box :: "box option"
  re_now :: int
  re_fault :: "nat \<Rightarrow> fault"
  re_id :: uuid
  re_ns_id :: uuid
  re_nonce :: "string \<Rightarrow> string result"

section \<open>Credentials\<close>

definition colWebhookSecret :: string where "colWebhookSecret = ''webhook_secret''"

definition registryAAD :: "string \<Rightarrow> string \<Rightarrow> string" where
  "registryAAD column registryID = AAD ''registry'' column registryID"

definition sealCredential ::
    "box option \<Rightarrow> (string \<Rightarrow> string result) \<Rightarrow> string \<Rightarrow> string \<Rightarrow> string option \<Rightarrow> string option result" where
  "sealCredential b nonce column registryID v =
     (case v of
        None \<Rightarrow> Inr None
      | Some s \<Rightarrow>
          if s = [] then Inr (Some [])
          else (case Encrypt b (nonce column) s (registryAAD column registryID) of
                  Inl e \<Rightarrow> Inl (Wrapped (''encrypting registry '' @ column) e)
                | Inr stored \<Rightarrow> Inr (Some stored)))"

text \<open>The box and the additional data in the shape \<open>openCredential\<close> takes them.\<close>

definition box_open :: "box option \<Rightarrow> credential_box" where
  "box_open b stored aad = map_sum id fst (Decrypt b stored aad)"

definition aad_of :: "string list \<Rightarrow> string" where
  "aad_of parts = (case parts of [table, column, row] \<Rightarrow> AAD table column row | _ \<Rightarrow> [])"

definition open_column :: "box option \<Rightarrow> string \<Rightarrow> string \<Rightarrow> string option \<Rightarrow> string option result" where
  "open_column b column registryID v =
     (case v of
        None \<Rightarrow> Inr None
      | Some stored \<Rightarrow> map_sum id Some (openCredential aad_of (box_open b) column registryID stored))"

definition decryptCredentials :: "box option \<Rightarrow> registry \<Rightarrow> registry result" where
  "decryptCredentials b r =
     bind_result (open_column b colAuthToken (rg_id r) (rg_auth_token r)) (\<lambda>token.
     bind_result (open_column b colWebhookSecret (rg_id r) (rg_webhook_secret r)) (\<lambda>secret.
     Inr (r\<lparr>rg_auth_token := token, rg_webhook_secret := secret\<rparr>)))"

section \<open>Rows and registries\<close>

definition fromRepo :: "registry_composite \<Rightarrow> registry" where
  "fromRepo c =
     (let r = rc_reg c in
      \<lparr>rg_id = uuid_str (rr_id r), rg_name = rc_name c, rg_namespace_id = uuidToStr (rc_namespace c),
       rg_type = rr_type r, rg_url = rr_url r, rg_insecure = rr_insecure r, rg_webhook_secret = rr_webhook_secret r,
       rg_enabled = rr_enabled r, rg_created_at = rr_created r, rg_updated_at = rr_updated r,
       rg_repositories = rr_repositories r, rg_repository_patterns = rr_repository_patterns r,
       rg_tag_patterns = rr_tag_patterns r, rg_scan_mode = rr_scan_mode r,
       rg_poll_interval_minutes = sint (rr_poll_interval r), rg_last_polled_at = rr_last_polled r,
       rg_auth_username = rr_auth_username r, rg_auth_token = rr_auth_token r, rg_visibility = rc_visibility c,
       rg_include_untagged = rr_include_untagged r, rg_verification_mode = rr_verification_mode r,
       rg_trust_public_key = rr_trust_public_key r, rg_trust_identity = rr_trust_identity r,
       rg_trust_issuer = rr_trust_issuer r, rg_managed_by = rr_managed_by r, rg_managed_ref = rr_managed_ref r,
       rg_tag_limit = sint (rr_tag_limit r), rg_tag_order = coalesce (rr_tag_order r),
       rg_max_tag_age_days = (case rr_max_tag_age r of None \<Rightarrow> 0 | Some n \<Rightarrow> sint n),
       rg_last_walk = rr_last_walk r\<rparr>)"

definition toDomain :: "reg_env \<Rightarrow> registry_composite \<Rightarrow> registry result" where
  "toDomain E c = decryptCredentials (re_box E) (fromRepo c)"

text \<open>The first row that cannot be opened fails the list.\<close>

fun toDomainAll :: "reg_env \<Rightarrow> registry_composite list \<Rightarrow> registry list result" where
  "toDomainAll E [] = Inr []"
| "toDomainAll E (c # cs) = bind_result (toDomain E c) (\<lambda>r. bind_result (toDomainAll E cs) (\<lambda>rs. Inr (r # rs)))"

definition nonEmpty :: "string list \<Rightarrow> string list" where
  "nonEmpty ss = filter (\<lambda>s. s \<noteq> []) ss"

definition orExisting :: "'a option \<Rightarrow> 'a option \<Rightarrow> 'a option" where
  "orExisting v existing = (case v of None \<Rightarrow> existing | Some x \<Rightarrow> Some x)"

definition DefaultTagLimit :: int where "DefaultTagLimit = 50"

definition age_column :: "int \<Rightarrow> 32 word option" where
  "age_column days = (if days > 0 then Some (word_of_int days) else None)"

section \<open>Reading\<close>

definition Registry_Get :: "reg_env \<Rightarrow> fault \<Rightarrow> registry_db \<Rightarrow> string \<Rightarrow> registry result" where
  "Registry_Get E flt g sid =
     (case re_parse E sid of
        None \<Rightarrow> Inl ErrNotFound
      | Some i \<Rightarrow> (case GetRegistryRow flt g i of Inl e \<Rightarrow> Inl ErrNotFound | Inr c \<Rightarrow> toDomain E c))"

definition Registry_GetByName :: "reg_env \<Rightarrow> fault \<Rightarrow> registry_db \<Rightarrow> string \<Rightarrow> registry result" where
  "Registry_GetByName E flt g name =
     (case GetRegistryRowByName flt g name of Inl e \<Rightarrow> Inl ErrNotFound | Inr c \<Rightarrow> toDomain E c)"

definition Registry_List :: "reg_env \<Rightarrow> fault \<Rightarrow> registry_db \<Rightarrow> visibility_filter \<Rightarrow> registry list result" where
  "Registry_List E flt g f =
     (case ListRegistryRows flt g (vf_user_id f) (vf_is_admin f) of
        Inl e \<Rightarrow> Inl (Wrapped ''listing registries'' e) | Inr rows \<Rightarrow> toDomainAll E rows)"

definition Registry_ListPaged ::
    "reg_env \<Rightarrow> fault \<Rightarrow> registry_db \<Rightarrow> visibility_filter \<Rightarrow> int \<Rightarrow> int \<Rightarrow> (registry list \<times> int) result" where
  "Registry_ListPaged E flt g f lim off =
     (case ListRegistryRowsPaged flt g f lim off of
        Inl e \<Rightarrow> Inl (Wrapped ''listing registries'' e)
      | Inr rows \<Rightarrow> bind_result (toDomainAll E (map fst rows)) (\<lambda>rs.
          Inr (rs, case rows of [] \<Rightarrow> 0 | (c, n) # _ \<Rightarrow> n)))"

definition ListPollable :: "reg_env \<Rightarrow> fault \<Rightarrow> registry_db \<Rightarrow> registry list result" where
  "ListPollable E flt g =
     (case ListPollableRegistries flt g of
        Inl e \<Rightarrow> Inl (Wrapped ''listing pollable registries'' e) | Inr rows \<Rightarrow> toDomainAll E rows)"

definition LastWalks :: "fault \<Rightarrow> registry_db \<Rightarrow> (string \<times> walk_stats) list result" where
  "LastWalks flt g =
     (case ListRegistryWalkStats flt g of
        Inl e \<Rightarrow> Inl (Wrapped ''listing walk stats'' e)
      | Inr rows \<Rightarrow> Inr (map (\<lambda>(i, w). (uuid_str i, w)) rows))"

section \<open>Creating\<close>

record create_params =
  cr_name :: string
  cr_type :: string
  cr_url :: string
  cr_insecure :: bool
  cr_webhook_secret :: "string option"
  cr_repositories :: "string list"
  cr_repository_patterns :: "string list"
  cr_tag_patterns :: "string list"
  cr_scan_mode :: string
  cr_poll_interval :: int
  cr_auth_username :: "string option"
  cr_auth_token :: "string option"
  cr_creator :: "uuid option"
  cr_visibility :: string
  cr_include_untagged :: bool
  cr_verification_mode :: string
  cr_trust_public_key :: "string option"
  cr_trust_identity :: "string option"
  cr_trust_issuer :: "string option"
  cr_managed_by :: "string option"
  cr_managed_ref :: "string option"
  cr_tag_limit :: "int option"
  cr_tag_order :: string
  cr_max_tag_age :: int
  cr_namespace :: string
  cr_namespace_id :: string

text \<open>\<open>Inr None\<close> asks the statement to mint a namespace.\<close>

definition resolveNamespace ::
    "reg_env \<Rightarrow> create_params \<Rightarrow> string \<Rightarrow> registry_db \<Rightarrow> uuid option result \<times> registry_db" where
  "resolveNamespace E p vis g =
     (if cr_namespace_id p \<noteq> [] then
        (case re_parse E (cr_namespace_id p) of None \<Rightarrow> (Inl ErrNotFound, g) | Some i \<Rightarrow> (Inr (Some i), g))
      else if cr_namespace p = [] then (Inr None, g)
      else (case GetNamespaceByName (re_fault E 0) (gd_ns g) (cr_namespace p) of
              Inr _ \<Rightarrow> (Inl ErrNamespaceExists, g)
            | Inl e \<Rightarrow>
                if \<not> errors_is e NoRows then (Inl (Wrapped (''looking up namespace '' @ cr_namespace p) e), g)
                else (case CreateNamespaceRow (re_fault E 1) (re_now E) (re_ns_id E) (gd_ns g) (cr_namespace p) vis
                             (cr_creator p) of
                        Inl e \<Rightarrow> (Inl (if isUniqueViolation e then ErrNamespaceExists
                                      else Wrapped (''creating namespace '' @ cr_namespace p) e), g)
                      | Inr (row, d) \<Rightarrow> (Inr (Some (ns_id row)), g\<lparr>gd_ns := d\<rparr>))))"

definition create_row ::
    "uuid \<Rightarrow> create_params \<Rightarrow> string \<Rightarrow> int \<Rightarrow> string option \<Rightarrow> string option \<Rightarrow> registry_row" where
  "create_row i p mode lim secret token =
     \<lparr>rr_id = i, rr_type = cr_type p, rr_url = cr_url p, rr_insecure = cr_insecure p, rr_webhook_secret = secret,
      rr_enabled = True, rr_created = 0, rr_updated = 0,
      rr_repository_patterns = nonEmpty (cr_repository_patterns p), rr_tag_patterns = nonEmpty (cr_tag_patterns p),
      rr_scan_mode = cr_scan_mode p, rr_poll_interval = word_of_int (cr_poll_interval p), rr_last_polled = None,
      rr_repositories = nonEmpty (cr_repositories p), rr_auth_username = cr_auth_username p, rr_auth_token = token,
      rr_include_untagged = cr_include_untagged p, rr_verification_mode = mode,
      rr_trust_public_key = cr_trust_public_key p, rr_trust_identity = cr_trust_identity p,
      rr_trust_issuer = cr_trust_issuer p, rr_managed_by = cr_managed_by p, rr_managed_ref = cr_managed_ref p,
      rr_tag_limit = word_of_int lim, rr_tag_order = nullif_empty (cr_tag_order p),
      rr_max_tag_age = age_column (cr_max_tag_age p), rr_last_walk = None\<rparr>"

text \<open>The write, once the namespace is known.\<close>

definition insert_registry ::
    "reg_env \<Rightarrow> create_params \<Rightarrow> string \<Rightarrow> string \<Rightarrow> int \<Rightarrow> uuid option \<Rightarrow> registry_db \<Rightarrow>
     registry result \<times> registry_db" where
  "insert_registry E p vis mode lim ns g =
     (case bind_result (sealCredential (re_box E) (re_nonce E) colWebhookSecret (uuid_str (re_id E)) (cr_webhook_secret p))
             (\<lambda>secret. bind_result
                (sealCredential (re_box E) (re_nonce E) colAuthToken (uuid_str (re_id E)) (cr_auth_token p))
                (\<lambda>token. Inr (secret, token))) of
        Inl e \<Rightarrow> (Inl e, g)
      | Inr (secret, token) \<Rightarrow>
          (case CreateRegistryRow (re_fault E 2) (re_now E) (create_row (re_id E) p mode lim secret token)
                  (cr_name p) vis ns (cr_creator p) g of
             (Inl e, g') \<Rightarrow> (Inl (if isUniqueViolation e then ErrConflict else Wrapped ''creating registry'' e), g')
           | (Inr r, g') \<Rightarrow>
               (toDomain E \<lparr>rc_reg = r, rc_name = cr_name p, rc_namespace = ns, rc_visibility = vis\<rparr>, g')))"

definition Registry_Create :: "reg_env \<Rightarrow> create_params \<Rightarrow> registry_db \<Rightarrow> registry result \<times> registry_db" where
  "Registry_Create E p g =
     (let vis = (if cr_visibility p = [] then ''public'' else cr_visibility p);
          mode = (if cr_verification_mode p = [] then ''none'' else cr_verification_mode p);
          lim = (case cr_tag_limit p of None \<Rightarrow> DefaultTagLimit | Some n \<Rightarrow> n) in
      case ValidateScanScope lim (cr_tag_order p) (cr_max_tag_age p) (cr_tag_patterns p) of
        Some e \<Rightarrow> (Inl e, g)
      | None \<Rightarrow>
          (case resolveNamespace E p vis g of
             (Inl e, g') \<Rightarrow> (Inl e, g')
           | (Inr ns, g') \<Rightarrow> insert_registry E p vis mode lim ns g'))"

section \<open>Updating\<close>

record update_params =
  up_id :: string
  up_name :: string
  up_type :: string
  up_url :: string
  up_insecure :: bool
  up_webhook_secret :: "string option"
  up_enabled :: bool
  up_repositories :: "string list"
  up_repository_patterns :: "string list"
  up_tag_patterns :: "string list"
  up_scan_mode :: string
  up_poll_interval :: int
  up_auth_username :: "string option"
  up_auth_token :: "string option"
  up_visibility :: string
  up_include_untagged :: bool
  up_verification_mode :: string
  up_trust_public_key :: "string option"
  up_trust_identity :: "string option"
  up_trust_issuer :: "string option"
  up_managed_by :: "string option"
  up_managed_ref :: "string option"
  up_tag_limit :: "int option"
  up_tag_order :: "string option"
  up_max_tag_age :: "int option"

definition update_row ::
    "uuid \<Rightarrow> update_params \<Rightarrow> registry \<Rightarrow> string option \<Rightarrow> string option \<Rightarrow> registry_row" where
  "update_row i p existing secret token =
     (let mode0 = (if up_verification_mode p = [] then rg_verification_mode existing else up_verification_mode p);
          lim = (case up_tag_limit p of None \<Rightarrow> rg_tag_limit existing | Some n \<Rightarrow> n);
          ord = (case up_tag_order p of None \<Rightarrow> rg_tag_order existing | Some s \<Rightarrow> s);
          age = (case up_max_tag_age p of None \<Rightarrow> rg_max_tag_age_days existing | Some n \<Rightarrow> n) in
      \<lparr>rr_id = i, rr_type = up_type p, rr_url = up_url p, rr_insecure = up_insecure p, rr_webhook_secret = secret,
       rr_enabled = up_enabled p, rr_created = 0, rr_updated = 0,
       rr_repository_patterns = nonEmpty (up_repository_patterns p), rr_tag_patterns = nonEmpty (up_tag_patterns p),
       rr_scan_mode = up_scan_mode p, rr_poll_interval = word_of_int (up_poll_interval p), rr_last_polled = None,
       rr_repositories = nonEmpty (up_repositories p), rr_auth_username = up_auth_username p, rr_auth_token = token,
       rr_include_untagged = up_include_untagged p,
       rr_verification_mode = (if mode0 = [] then ''none'' else mode0),
       rr_trust_public_key = orExisting (up_trust_public_key p) (rg_trust_public_key existing),
       rr_trust_identity = orExisting (up_trust_identity p) (rg_trust_identity existing),
       rr_trust_issuer = orExisting (up_trust_issuer p) (rg_trust_issuer existing),
       rr_managed_by = orExisting (up_managed_by p) (rg_managed_by existing),
       rr_managed_ref = orExisting (up_managed_ref p) (rg_managed_ref existing),
       rr_tag_limit = word_of_int lim, rr_tag_order = nullif_empty ord, rr_max_tag_age = age_column age,
       rr_last_walk = None\<rparr>)"

definition update_scope :: "update_params \<Rightarrow> registry \<Rightarrow> go_error option" where
  "update_scope p existing =
     ValidateScanScope (case up_tag_limit p of None \<Rightarrow> rg_tag_limit existing | Some n \<Rightarrow> n)
       (case up_tag_order p of None \<Rightarrow> rg_tag_order existing | Some s \<Rightarrow> s)
       (case up_max_tag_age p of None \<Rightarrow> rg_max_tag_age_days existing | Some n \<Rightarrow> n) (up_tag_patterns p)"

definition write_update ::
    "reg_env \<Rightarrow> uuid \<Rightarrow> update_params \<Rightarrow> registry_composite \<Rightarrow> registry \<Rightarrow> registry_db \<Rightarrow>
     registry result \<times> registry_db" where
  "write_update E i p row existing g =
     (let vis = (if up_visibility p = [] then ''public'' else up_visibility p) in
      case bind_result (sealCredential (re_box E) (re_nonce E) colWebhookSecret (uuid_str i) (up_webhook_secret p))
             (\<lambda>secret. bind_result (sealCredential (re_box E) (re_nonce E) colAuthToken (uuid_str i) (up_auth_token p))
                (\<lambda>token. Inr (secret, token))) of
        Inl e \<Rightarrow> (Inl e, g)
      | Inr (secret, token) \<Rightarrow>
          (case UpdateRegistryRow (re_fault E 1) (re_now E) (update_row i p existing secret token) (up_name p) vis g of
             (Inl e, g') \<Rightarrow> (Inl (Wrapped ''updating registry'' e), g')
           | (Inr r, g') \<Rightarrow>
               (toDomain E \<lparr>rc_reg = r, rc_name = up_name p, rc_namespace = rc_namespace row, rc_visibility = vis\<rparr>,
                g')))"

definition Registry_Update :: "reg_env \<Rightarrow> update_params \<Rightarrow> registry_db \<Rightarrow> registry result \<times> registry_db" where
  "Registry_Update E p g =
     (case re_parse E (up_id p) of
        None \<Rightarrow> (Inl ErrNotFound, g)
      | Some i \<Rightarrow>
          (case GetRegistryRow (re_fault E 0) g i of
             Inl e \<Rightarrow> (Inl ErrNotFound, g)
           | Inr row \<Rightarrow>
               (case toDomain E row of
                  Inl e \<Rightarrow> (Inl e, g)
                | Inr existing \<Rightarrow>
                    (case update_scope p existing of
                       Some e \<Rightarrow> (Inl e, g) | None \<Rightarrow> write_update E i p row existing g))))"

section \<open>The other writes\<close>

definition MarkPolled :: "reg_env \<Rightarrow> string \<Rightarrow> registry_db \<Rightarrow> registry result \<times> registry_db" where
  "MarkPolled E sid g =
     (case re_parse E sid of
        None \<Rightarrow> (Inl ErrNotFound, g)
      | Some i \<Rightarrow>
          (case UpdateRegistryLastPolled (re_fault E 0) (re_now E) i g of
             (Inl e, g') \<Rightarrow> (Inl (Wrapped ''marking registry polled'' e), g')
           | (Inr _, g') \<Rightarrow> (Registry_Get E (re_fault E 1) g' sid, g')))"

definition SetEnabled :: "reg_env \<Rightarrow> string \<Rightarrow> bool \<Rightarrow> registry_db \<Rightarrow> registry result \<times> registry_db" where
  "SetEnabled E sid enabled g =
     (case re_parse E sid of
        None \<Rightarrow> (Inl ErrNotFound, g)
      | Some i \<Rightarrow>
          (case SetRegistryEnabled (re_fault E 0) (re_now E) i enabled g of
             (Inl e, g') \<Rightarrow> (Inl (Wrapped ''setting registry enabled'' e), g')
           | (Inr _, g') \<Rightarrow> (Registry_Get E (re_fault E 1) g' sid, g')))"

definition Registry_Delete :: "reg_env \<Rightarrow> string \<Rightarrow> registry_db \<Rightarrow> unit result \<times> registry_db" where
  "Registry_Delete E sid g =
     (case re_parse E sid of
        None \<Rightarrow> (Inl ErrNotFound, g)
      | Some i \<Rightarrow>
          (case DeleteRegistryRow (re_fault E 0) i g of
             (Inl e, g') \<Rightarrow> (Inl (Wrapped ''deleting registry'' e), g')
           | (Inr n, g') \<Rightarrow> (if n = 0 then Inl ErrNotFound else Inr (), g')))"

text \<open>The rows of a walk, in the order the map is ranged over; \<open>k\<close> counts the statements.\<close>

fun insert_windows ::
    "(nat \<Rightarrow> fault) \<Rightarrow> nat \<Rightarrow> uuid \<Rightarrow> int \<Rightarrow> (string \<times> string list) list \<Rightarrow> registry_db \<Rightarrow> unit result \<times> registry_db" where
  "insert_windows flt k i walked [] g = (Inr (), g)"
| "insert_windows flt k i walked ((repo, digests) # ws) g =
     (case InsertRegistryWindow (flt k)
             \<lparr>wn_registry = i, wn_repository = repo, wn_digests = digests, wn_walked = walked\<rparr> g of
        (Inl e, g') \<Rightarrow> (Inl (Wrapped (''storing registry window for '' @ repo) e), g')
      | (Inr _, g') \<Rightarrow> insert_windows flt (Suc k) i walked ws g')"

text \<open>0 stands for the zero time.\<close>

definition replaceRegistryWindow ::
    "(nat \<Rightarrow> fault) \<Rightarrow> int \<Rightarrow> uuid \<Rightarrow> walk_stats \<Rightarrow> registry_db \<Rightarrow> unit result \<times> registry_db" where
  "replaceRegistryWindow flt now i stats g =
     (case DeleteRegistryWindow (flt 2) i g of
        (Inl e, g') \<Rightarrow> (Inl (Wrapped ''clearing registry window'' e), g')
      | (Inr _, g') \<Rightarrow>
          insert_windows flt 3 i (if ws_at stats = 0 then now else ws_at stats) (ws_windows stats) g')"

text \<open>A transaction: beginning it is call 0, and \<open>commit\<close> the failure of the last call.\<close>

definition in_registry_tx ::
    "fault \<Rightarrow> fault \<Rightarrow> string \<Rightarrow> (registry_db \<Rightarrow> unit result \<times> registry_db) \<Rightarrow> registry_db \<Rightarrow> unit result \<times> registry_db" where
  "in_registry_tx begin_fault commit msg body g =
     (case begin_fault of
        Some e \<Rightarrow> (Inl (Wrapped ''beginning transaction'' (fault_error e)), g)
      | None \<Rightarrow>
          (case body g of
             (Inl e, _) \<Rightarrow> (Inl e, g)
           | (Inr _, g') \<Rightarrow>
               (case commit of Some e \<Rightarrow> (Inl (Wrapped msg (fault_error e)), g) | None \<Rightarrow> (Inr (), g'))))"

text \<open>A failed walk keeps the windows of the last successful one. \<open>pool\<close> is whether there is a connection pool.\<close>

definition RecordWalkStats ::
    "reg_env \<Rightarrow> bool \<Rightarrow> fault \<Rightarrow> string \<Rightarrow> walk_stats \<Rightarrow> registry_db \<Rightarrow> unit result \<times> registry_db" where
  "RecordWalkStats E pool commit sid stats g =
     (case re_parse E sid of
        None \<Rightarrow> (Inl ErrNotFound, g)
      | Some i \<Rightarrow>
          let record = (\<lambda>g. case RecordRegistryWalkStats (re_fault E 1) i stats g of
                          (Inl e, g') \<Rightarrow> (Inl (Wrapped ''recording walk stats'' e), g') | (Inr _, g') \<Rightarrow> (Inr (), g')) in
          if ws_error stats \<noteq> [] \<or> \<not> pool then record g
          else in_registry_tx (re_fault E 0) commit ''committing transaction''
                 (\<lambda>g. case record g of
                        (Inl e, g') \<Rightarrow> (Inl e, g')
                      | (Inr _, g') \<Rightarrow> replaceRegistryWindow (re_fault E) (re_now E) i stats g') g)"

section \<open>Moving a registry\<close>

definition move_rows ::
    "reg_env \<Rightarrow> uuid \<Rightarrow> uuid \<Rightarrow> uuid \<Rightarrow> registry_db \<Rightarrow> unit result \<times> registry_db" where
  "move_rows E i old ns g =
     (case MoveSourceNamespace (re_fault E 2) (re_now E) i ns g of
        (Inl e, g1) \<Rightarrow>
          (Inl (if isUniqueViolation e
                then ValidationError ''a source with this name already exists in the target namespace''
                else Wrapped ''moving registry'' e), g1)
      | (Inr _, g1) \<Rightarrow>
          (case MoveSourceSBOMs (re_fault E 3) i ns g1 of
             (Inl e, g2) \<Rightarrow> (Inl (Wrapped ''moving registry sboms'' e), g2)
           | (Inr _, g2) \<Rightarrow>
               (case LinkSourceArtifacts (re_fault E 4) i ns g2 of
                  (Inl e, g3) \<Rightarrow> (Inl (Wrapped ''linking artifacts to new namespace'' e), g3)
                | (Inr _, g3) \<Rightarrow>
                    (case UnlinkEmptiedArtifacts (re_fault E 5) i old g3 of
                       (Inl e, g4) \<Rightarrow> (Inl (Wrapped ''unlinking artifacts from old namespace'' e), g4)
                     | (Inr _, g4) \<Rightarrow> (Inr (), g4)))))"

definition MoveNamespace :: "reg_env \<Rightarrow> string \<Rightarrow> string \<Rightarrow> registry_db \<Rightarrow> unit result \<times> registry_db" where
  "MoveNamespace E sid sns g =
     (case (re_parse E sid, re_parse E sns) of
        (Some i, Some ns) \<Rightarrow>
          (case re_fault E 0 of
             Some e \<Rightarrow> (Inl (Wrapped ''beginning transaction'' (fault_error e)), g)
           | None \<Rightarrow>
               (case GetSourceNamespace (re_fault E 1) g i of
                  Inl e \<Rightarrow> (Inl (if errors_is e NoRows then ErrNotFound
                                else Wrapped ''reading registry namespace'' e), g)
                | Inr old \<Rightarrow>
                    if old = ns then (Inr (), g)
                    else in_registry_tx None (re_fault E 6) ''committing namespace move'' (move_rows E i old ns) g))
      | _ \<Rightarrow> (Inl ErrNotFound, g))"

end
