(* ===== verification/RegistrySecrets.thy ===== *)
theory RegistrySecrets
  imports Registries
begin

text \<open>
  The pass that encrypts stored registry credentials (\<open>ocidex migrate encrypt-secrets\<close>, the second half of
  \<^verbatim>\<open>internal/service/registry_secrets.go\<close>). Other transactions run beside it: \<open>pe_conc k\<close> is what they commit before
  the pass's k-th statement.
\<close>

section \<open>The pass\<close>

record encrypt_result =
  er_encrypted :: nat
  er_rotated :: nat
  er_current :: nat
  er_conflicted :: nat
  er_unreadable :: "string list"

definition zero_result :: encrypt_result where
  "zero_result = \<lparr>er_encrypted = 0, er_rotated = 0, er_current = 0, er_conflicted = 0, er_unreadable = []\<rparr>"

text \<open>\<open>pe_nonce\<close> is the nonce drawn for a registry's column.\<close>

record pass_env =
  pe_box :: "box option"
  pe_nonce :: "string \<Rightarrow> string \<Rightarrow> string result"
  pe_fault :: "nat \<Rightarrow> fault"
  pe_conc :: "nat \<Rightarrow> registry_db \<Rightarrow> registry_db"
  pe_dry :: bool
  pe_batch :: "32 word"

definition unreadable :: "string \<Rightarrow> string \<Rightarrow> encrypt_result \<Rightarrow> encrypt_result" where
  "unreadable registryID column res =
     res\<lparr>er_unreadable := er_unreadable res @ [registryID @ '' '' @ column]\<rparr>"

text \<open>The value re-sealed under the active key, and whether it changed.\<close>

definition reseal ::
    "pass_env \<Rightarrow> string \<Rightarrow> string \<Rightarrow> string option \<Rightarrow> encrypt_result \<Rightarrow> string option \<times> bool \<times> encrypt_result" where
  "reseal P column registryID stored res =
     (case stored of
        None \<Rightarrow> (stored, False, res)
      | Some s \<Rightarrow>
          if s = [] then (stored, False, res)
          else if \<not> NeedsRewrite (pe_box P) s then (stored, False, res\<lparr>er_current := er_current res + 1\<rparr>)
          else (case Decrypt (pe_box P) s (registryAAD column registryID) of
                  Inl e \<Rightarrow> (stored, False, unreadable registryID column res)
                | Inr (pt, legacy) \<Rightarrow>
                    (case Encrypt (pe_box P) (pe_nonce P registryID column) pt (registryAAD column registryID) of
                       Inl e \<Rightarrow> (stored, False, unreadable registryID column res)
                     | Inr sealed \<Rightarrow>
                         (Some sealed, True,
                          if legacy then res\<lparr>er_encrypted := er_encrypted res + 1\<rparr>
                          else res\<lparr>er_rotated := er_rotated res + 1\<rparr>))))"

text \<open>What the pass has counted, how many statements it has run, and the tables.\<close>

type_synonym pass_state = "encrypt_result \<times> nat \<times> registry_db"

definition rewriteRow ::
    "pass_env \<Rightarrow> uuid \<times> string option \<times> string option \<Rightarrow> pass_state \<Rightarrow> go_error option \<times> pass_state" where
  "rewriteRow P row st =
     (case (row, st) of ((i, token, secret), (res, k, g)) \<Rightarrow>
       (case reseal P colAuthToken (uuid_str i) token res of (newToken, tokenChanged, res1) \<Rightarrow>
       (case reseal P colWebhookSecret (uuid_str i) secret res1 of (newSecret, secretChanged, res2) \<Rightarrow>
         if \<not> tokenChanged \<and> \<not> secretChanged \<or> pe_dry P then (None, res2, k, g)
         else (case RewriteRegistrySecrets (pe_fault P k) i (token, secret) (newToken, newSecret) (pe_conc P k g) of
                 (Inl e, g') \<Rightarrow>
                   (Some (Wrapped (''rewriting registry '' @ uuid_str i @ '' credentials'') e), res2, Suc k, g')
               | (Inr n, g') \<Rightarrow>
                   (None, if n = 0 then res2\<lparr>er_conflicted := er_conflicted res2 + 1\<rparr> else res2, Suc k, g')))))"

fun rewrite_rows ::
    "pass_env \<Rightarrow> (uuid \<times> string option \<times> string option) list \<Rightarrow> pass_state \<Rightarrow> go_error option \<times> pass_state" where
  "rewrite_rows P [] st = (None, st)"
| "rewrite_rows P (row # rows) st =
     (case rewriteRow P row st of (Some e, st') \<Rightarrow> (Some e, st') | (None, st') \<Rightarrow> rewrite_rows P rows st')"

text \<open>The loop over the pages. A batch size of 0 gives an empty page that counts as full, and reading its last row
  panics.\<close>

fun encrypt_pages :: "pass_env \<Rightarrow> nat \<Rightarrow> uuid \<Rightarrow> pass_state \<Rightarrow> (go_error option \<times> pass_state) outcome" where
  "encrypt_pages P 0 after st = Stopped OutOfFuel"
| "encrypt_pages P (Suc n) after (res, k, g) =
     (let g1 = pe_conc P k g in
      case ListRegistrySecretsPage (pe_fault P k) g1 after (sint (pe_batch P)) of
        Inl e \<Rightarrow> Returned (Some (Wrapped ''listing registry credentials'' e), res, Suc k, g1)
      | Inr rows \<Rightarrow>
          (case rewrite_rows P rows (res, Suc k, g1) of
             (Some e, st) \<Rightarrow> Returned (Some e, st)
           | (None, st) \<Rightarrow>
               if int (length rows) < sint (pe_batch P) then Returned (None, st)
               else if rows = [] then Stopped Panic
               else encrypt_pages P n (fst (last rows)) st))"

definition EncryptRegistrySecrets ::
    "pass_env \<Rightarrow> nat \<Rightarrow> registry_db \<Rightarrow> (go_error option \<times> pass_state) outcome" where
  "EncryptRegistrySecrets P fuel g = encrypt_pages P fuel 0 (zero_result, 0, g)"

section \<open>What the pass keeps\<close>

definition ring_ok :: "box option \<Rightarrow> bool" where
  "ring_ok b \<longleftrightarrow> (case b of None \<Rightarrow> True | Some x \<Rightarrow> box_ok x)"

text \<open>A nonce that was drawn has the length the active cipher wants.\<close>

definition nonce_fits :: "box option \<Rightarrow> string result \<Rightarrow> bool" where
  "nonce_fits b nonce \<longleftrightarrow>
     (case b of None \<Rightarrow> True
      | Some x \<Rightarrow> (case nonce of Inl e \<Rightarrow> True
                    | Inr n \<Rightarrow> length n = ae_nonce_size (the (map_of (bx_keys x) (bx_active x)))))"

definition open_row :: "box option \<Rightarrow> registry_row \<Rightarrow> uuid \<times> string option result \<times> string option result" where
  "open_row b r =
     (rr_id r, open_column b colAuthToken (uuid_str (rr_id r)) (rr_auth_token r),
      open_column b colWebhookSecret (uuid_str (rr_id r)) (rr_webhook_secret r))"

text \<open>The credentials as the service reads them.\<close>

definition credentials :: "box option \<Rightarrow> registry_db \<Rightarrow> (uuid \<times> string option result \<times> string option result) list" where
  "credentials b g = map (open_row b) (gd_registries g)"

lemma aad_of_registry [simp]: "aad_of [''registry'', column, i] = registryAAD column i"
  by (simp add: aad_of_def registryAAD_def)

lemma open_column_same:
  assumes "map_sum id fst (Decrypt b s (registryAAD column i)) = map_sum id fst (Decrypt b t (registryAAD column i))"
  shows "open_column b column i (Some s) = open_column b column i (Some t)"
  using assms by (simp add: open_column_def openCredential_def box_open_def)

lemma Encrypt_Decrypt_same:
  assumes "ring_ok b" and "nonce_fits b nonce" and "Encrypt b nonce p aad = Inr stored" and "b \<noteq> None"
  shows "map_sum id fst (Decrypt b stored aad) = Inr p"
proof -
  obtain x where x: "b = Some x" "box_ok x" using assms(1,4) by (auto simp: ring_ok_def)
  then obtain n where n: "nonce = Inr n" using assms(3) by (auto simp: Encrypt_def split: option.splits sum.splits)
  with assms(2) x have "length n = ae_nonce_size (the (map_of (bx_keys x) (bx_active x)))" by (simp add: nonce_fits_def)
  from Decrypt_Encrypt [OF x(2) x(2) this refl] assms(3) show ?thesis by (simp add: x n)
qed

lemma reseal_same:
  assumes "ring_ok (pe_box P)" and "nonce_fits (pe_box P) (pe_nonce P i column)"
    and "reseal P column i stored res = (stored', changed, res')"
  shows "open_column (pe_box P) column i stored' = open_column (pe_box P) column i stored"
proof (cases "changed")
  case False
  then have "stored' = stored" using assms(3) by (auto simp: reseal_def split: option.splits sum.splits if_splits)
  then show ?thesis by simp
next
  case True
  then obtain s pt legacy sealed where s: "stored = Some s" "stored' = Some sealed" "NeedsRewrite (pe_box P) s"
    "Decrypt (pe_box P) s (registryAAD column i) = Inr (pt, legacy)"
    "Encrypt (pe_box P) (pe_nonce P i column) pt (registryAAD column i) = Inr sealed"
    using assms(3) by (auto simp: reseal_def split: option.splits sum.splits if_splits)
  then have "pe_box P \<noteq> None" by (cases "pe_box P") (simp_all add: NeedsRewrite_def)
  from Encrypt_Decrypt_same [OF assms(1,2) s(5) this] s show ?thesis
    by (simp add: open_column_same)
qed

lemma credentials_update:
  assumes "\<And>r. Q r \<Longrightarrow> open_row b (f r) = open_row b r"
  shows "map (open_row b) (update_where Q f rows) = map (open_row b) rows"
  using assms by (auto simp: update_where_def)

lemma rewriteRow_invisible:
  assumes "ring_ok (pe_box P)" and "\<And>i column. nonce_fits (pe_box P) (pe_nonce P i column)"
    and "rewriteRow P row (res, k, g) = (err, res', k', g')"
  shows "(k' = k \<and> g' = g) \<or>
    (k' = Suc k \<and> credentials (pe_box P) g' = credentials (pe_box P) (pe_conc P k g))"
proof -
  obtain i token secret where row: "row = (i, token, secret)" by (cases row)
  obtain nt tc r1 where t: "reseal P colAuthToken (uuid_str i) token res = (nt, tc, r1)" by (metis surj_pair)
  obtain ns sc r2 where s: "reseal P colWebhookSecret (uuid_str i) secret r1 = (ns, sc, r2)" by (metis surj_pair)
  note same = reseal_same [OF assms(1) assms(2) t] reseal_same [OF assms(1) assms(2) s]
  have keep: "open_row (pe_box P) (r\<lparr>rr_auth_token := nt, rr_webhook_secret := ns\<rparr>) = open_row (pe_box P) r"
    if "rr_id r = i \<and> rr_auth_token r = token \<and> rr_webhook_secret r = secret" for r
    using that same by (simp add: open_row_def)
  show ?thesis
    using assms(3) credentials_update [OF keep]
    by (cases "pe_fault P k")
      (auto simp: rewriteRow_def row t s RewriteRegistrySecrets_def credentials_def Let_def split: if_splits)
qed

lemma upt_split: "i \<le> j \<Longrightarrow> j \<le> k \<Longrightarrow> [i..<k] = [i..<j] @ [j..<k]"
  using upt_add_eq_append [of i j "k - j"] by simp

lemma rewrite_rows_invisible:
  assumes "ring_ok (pe_box P)" and "\<And>i column. nonce_fits (pe_box P) (pe_nonce P i column)"
    and sim: "\<And>k g. credentials (pe_box P) (pe_conc P k g) = h k (credentials (pe_box P) g)"
  shows "rewrite_rows P rows (res, k, g) = (err, res', k', g') \<Longrightarrow>
    k \<le> k' \<and> credentials (pe_box P) g' = fold h [k..<k'] (credentials (pe_box P) g)"
proof (induction rows arbitrary: res k g)
  case Nil
  then show ?case by simp
next
  case (Cons row rows)
  obtain e res1 k1 g1 where step: "rewriteRow P row (res, k, g) = (e, res1, k1, g1)" by (metis surj_pair)
  have one: "k \<le> k1 \<and> credentials (pe_box P) g1 = fold h [k..<k1] (credentials (pe_box P) g)"
    using rewriteRow_invisible [OF assms(1,2) step] by (auto simp: sim)
  show ?case
  proof (cases e)
    case None
    with Cons.prems step have "rewrite_rows P rows (res1, k1, g1) = (err, res', k', g')" by simp
    from Cons.IH [OF this] one show ?thesis
      by (auto simp: upt_split [of k k1 k'])
  next
    case Some
    with Cons.prems step one show ?thesis by simp
  qed
qed

lemma encrypt_pages_invisible:
  assumes "ring_ok (pe_box P)" and "\<And>i column. nonce_fits (pe_box P) (pe_nonce P i column)"
    and sim: "\<And>k g. credentials (pe_box P) (pe_conc P k g) = h k (credentials (pe_box P) g)"
  shows "encrypt_pages P n after (res, k, g) = Returned (err, res', k', g') \<Longrightarrow>
    k \<le> k' \<and> credentials (pe_box P) g' = fold h [k..<k'] (credentials (pe_box P) g)"
proof (induction n arbitrary: after res k g)
  case 0
  then show ?case by simp
next
  case (Suc n)
  show ?case
  proof (cases "ListRegistrySecretsPage (pe_fault P k) (pe_conc P k g) after (sint (pe_batch P))")
    case (Inl e)
    with Suc.prems show ?thesis by (auto simp: Let_def sim)
  next
    case (Inr rows)
    obtain e res1 k1 g1 where r: "rewrite_rows P rows (res, Suc k, pe_conc P k g) = (e, res1, k1, g1)" by (metis surj_pair)
    have "Suc k \<le> k1 \<and> credentials (pe_box P) g1 =
        fold h [Suc k..<k1] (credentials (pe_box P) (pe_conc P k g))"
      by (rule rewrite_rows_invisible [OF assms r])
    then have one: "k \<le> k1 \<and> credentials (pe_box P) g1 = fold h [k..<k1] (credentials (pe_box P) g)"
      by (auto simp: sim upt_conv_Cons)
    have "(err, res', k', g') = (e, res1, k1, g1) \<or>
        encrypt_pages P n (fst (last rows)) (res1, k1, g1) = Returned (err, res', k', g')"
      using Suc.prems by (auto simp: Let_def Inr r split: option.splits if_splits)
    then show ?thesis
    proof
      assume "(err, res', k', g') = (e, res1, k1, g1)"
      then show ?thesis using one by simp
    next
      assume "encrypt_pages P n (fst (last rows)) (res1, k1, g1) = Returned (err, res', k', g')"
      from Suc.IH [OF this] one show ?thesis by (auto simp: upt_split [of k k1 k'])
    qed
  qed
qed

end
