(* ===== verification/RegistryRotation.thy ===== *)
theory RegistryRotation
  imports RegistrySecrets
begin

text \<open>
  A pass that nothing disturbs: it ends, every credential that can be read is then under the active key, and a
  second pass has nothing to do.
\<close>

section \<open>One row\<close>

definition resealed :: "pass_env \<Rightarrow> string \<Rightarrow> string \<Rightarrow> string option \<Rightarrow> string option" where
  "resealed P column i stored = fst (reseal P column i stored zero_result)"

definition seal_row :: "pass_env \<Rightarrow> registry_row \<Rightarrow> registry_row" where
  "seal_row P r =
     r\<lparr>rr_auth_token := resealed P colAuthToken (uuid_str (rr_id r)) (rr_auth_token r),
       rr_webhook_secret := resealed P colWebhookSecret (uuid_str (rr_id r)) (rr_webhook_secret r)\<rparr>"

definition quiet_pass :: "pass_env \<Rightarrow> bool" where
  "quiet_pass P \<longleftrightarrow> (\<forall>k. pe_fault P k = None) \<and> (\<forall>k g. pe_conc P k g = g) \<and> \<not> pe_dry P \<and> 0 < sint (pe_batch P)"

lemma quiet_pass_simps:
  "quiet_pass P \<Longrightarrow> pe_fault P k = None" "quiet_pass P \<Longrightarrow> pe_conc P k g = g" "quiet_pass P \<Longrightarrow> \<not> pe_dry P"
  "quiet_pass P \<Longrightarrow> 0 < sint (pe_batch P)"
  by (simp_all add: quiet_pass_def)

lemma reseal_resealed:
  "\<exists>ch res'. reseal P column i stored res = (resealed P column i stored, ch, res') \<and>
     (\<not> ch \<longrightarrow> resealed P column i stored = stored)"
  by (auto simp: resealed_def reseal_def split: option.splits sum.splits)

lemma resealed_None [simp]: "resealed P column i None = None"
  by (simp add: resealed_def reseal_def)

lemma seal_row_id [simp]: "rr_id (seal_row P r) = rr_id r"
  by (simp add: seal_row_def)

lemma seal_row_empty: "rr_auth_token r = None \<Longrightarrow> rr_webhook_secret r = None \<Longrightarrow> seal_row P r = r"
  by (simp add: seal_row_def)

lemma distinct_unique:
  "distinct (map f xs) \<Longrightarrow> a \<in> set xs \<Longrightarrow> b \<in> set xs \<Longrightarrow> f a = f b \<Longrightarrow> a = b"
  by (simp add: distinct_map inj_on_def)

definition row_now :: "registry_db \<Rightarrow> uuid \<times> string option \<times> string option \<Rightarrow> bool" where
  "row_now g row \<longleftrightarrow> (\<exists>r \<in> set (gd_registries g). row = (rr_id r, rr_auth_token r, rr_webhook_secret r))"

lemma rewriteRow_quiet:
  assumes "quiet_pass P" and "distinct (map rr_id (gd_registries g))" and "row_now g row"
  shows "\<exists>res' k'. rewriteRow P row (res, k, g) =
    (None, res', k', g\<lparr>gd_registries := update_where (\<lambda>r. rr_id r = fst row) (seal_row P) (gd_registries g)\<rparr>)"
proof -
  obtain r where r: "r \<in> set (gd_registries g)" "row = (rr_id r, rr_auth_token r, rr_webhook_secret r)"
    using assms(3) by (auto simp: row_now_def)
  obtain tc r1 where t: "reseal P colAuthToken (uuid_str (rr_id r)) (rr_auth_token r) res =
      (resealed P colAuthToken (uuid_str (rr_id r)) (rr_auth_token r), tc, r1)"
    "\<not> tc \<longrightarrow> resealed P colAuthToken (uuid_str (rr_id r)) (rr_auth_token r) = rr_auth_token r"
    using reseal_resealed by blast
  obtain sc r2 where s: "reseal P colWebhookSecret (uuid_str (rr_id r)) (rr_webhook_secret r) r1 =
      (resealed P colWebhookSecret (uuid_str (rr_id r)) (rr_webhook_secret r), sc, r2)"
    "\<not> sc \<longrightarrow> resealed P colWebhookSecret (uuid_str (rr_id r)) (rr_webhook_secret r) = rr_webhook_secret r"
    using reseal_resealed by blast
  have only: "x = r" if "x \<in> set (gd_registries g)" "rr_id x = rr_id r" for x
    using distinct_unique [OF assms(2) that(1) r(1) that(2)] .
  show ?thesis
  proof (cases "tc \<or> sc")
    case False
    then have "seal_row P r = r" using t(2) s(2) by (simp add: seal_row_def)
    then have "update_where (\<lambda>x. rr_id x = rr_id r) (seal_row P) (gd_registries g) = gd_registries g"
      unfolding update_where_def using only by (intro map_idI) metis
    then show ?thesis using False by (auto simp: rewriteRow_def r(2) t s)
  next
    case True
    have "update_where (\<lambda>x. rr_id x = rr_id r \<and> rr_auth_token x = rr_auth_token r \<and> rr_webhook_secret x = rr_webhook_secret r)
        (\<lambda>x. x\<lparr>rr_auth_token := resealed P colAuthToken (uuid_str (rr_id r)) (rr_auth_token r),
               rr_webhook_secret := resealed P colWebhookSecret (uuid_str (rr_id r)) (rr_webhook_secret r)\<rparr>)
        (gd_registries g) = update_where (\<lambda>x. rr_id x = rr_id r) (seal_row P) (gd_registries g)"
      using only by (auto simp: update_where_def seal_row_def)
    then show ?thesis
      using True quiet_pass_simps [OF assms(1)]
      by (auto simp: rewriteRow_def r(2) t s RewriteRegistrySecrets_def Let_def)
  qed
qed

lemma rewrite_rows_quiet:
  assumes "quiet_pass P"
  shows "distinct (map rr_id (gd_registries g)) \<Longrightarrow> distinct (map fst rows) \<Longrightarrow> list_all (row_now g) rows \<Longrightarrow>
    \<exists>res' k'. rewrite_rows P rows (res, k, g) =
      (None, res', k', g\<lparr>gd_registries := update_where (\<lambda>r. rr_id r \<in> fst ` set rows) (seal_row P) (gd_registries g)\<rparr>)"
proof (induction rows arbitrary: res k g)
  case Nil
  then show ?case by (simp add: update_where_def)
next
  case (Cons row rows)
  let ?f = "\<lambda>Q. update_where Q (seal_row P)"
  let ?g = "g\<lparr>gd_registries := ?f (\<lambda>r. rr_id r = fst row) (gd_registries g)\<rparr>"
  obtain res1 k1 where step: "rewriteRow P row (res, k, g) = (None, res1, k1, ?g)"
    using rewriteRow_quiet [OF assms Cons.prems(1), of row res k] Cons.prems(3) by auto
  have ids: "map rr_id (gd_registries ?g) = map rr_id (gd_registries g)"
    by (simp add: map_update_where)
  have "row_now ?g row'" if "row' \<in> set rows" for row'
  proof -
    have "row_now g row'" "fst row' \<noteq> fst row" using that Cons.prems(2,3) by (auto simp: list_all_iff image_iff)
    then show ?thesis by (fastforce simp: row_now_def update_where_def image_iff)
  qed
  then have "list_all (row_now ?g) rows" by (simp add: list_all_iff)
  from Cons.IH [of ?g, OF _ _ this, of res1 k1] ids Cons.prems(1,2)
  obtain res' k' where rest: "rewrite_rows P rows (res1, k1, ?g) =
      (None, res', k', ?g\<lparr>gd_registries := ?f (\<lambda>r. rr_id r \<in> fst ` set rows) (gd_registries ?g)\<rparr>)" by auto
  have "?f (\<lambda>r. rr_id r \<in> fst ` set rows) (gd_registries ?g) = ?f (\<lambda>r. rr_id r \<in> fst ` set (row # rows)) (gd_registries g)"
    using Cons.prems(2) by (auto simp: update_where_def)
  with rest step show ?case by simp
qed

section \<open>The pages\<close>

lemma sorted_take_last:
  assumes "sorted_wrt (\<lambda>a b. f a < (f b :: uuid)) xs" and "take n xs \<noteq> []" and "x \<in> set xs"
  shows "x \<in> set (take n xs) \<longleftrightarrow> f x \<le> f (last (take n xs))"
proof -
  have split: "xs = take n xs @ drop n xs" by simp
  then have pairs: "sorted_wrt (\<lambda>a b. f a < f b) (take n xs)" "\<And>a b. a \<in> set (take n xs) \<Longrightarrow> b \<in> set (drop n xs) \<Longrightarrow> f a < f b"
    using assms(1) by (metis sorted_wrt_append)+
  have "f a \<le> f (last (take n xs))" if "a \<in> set (take n xs)" for a
  proof -
    have "take n xs = butlast (take n xs) @ [last (take n xs)]" using assms(2) by simp
    with pairs(1) have "\<forall>a \<in> set (butlast (take n xs)). f a < f (last (take n xs))"
      by (metis list.set_intros(1) sorted_wrt_append)
    moreover have "a \<in> set (butlast (take n xs)) \<or> a = last (take n xs)"
      using that \<open>take n xs = _\<close> by (metis Un_iff empty_iff insert_iff list.set(1) list.set(2) set_append)
    ultimately show ?thesis by auto
  qed
  moreover have "f (last (take n xs)) < f x" if "x \<notin> set (take n xs)"
  proof -
    have "x \<in> set (drop n xs)" using assms(3) that split by (metis Un_iff set_append)
    then show ?thesis using pairs(2) assms(2) last_in_set by blast
  qed
  ultimately show ?thesis by (meson leD)
qed

lemma sorted_by_id:
  assumes "distinct (map fst rows)"
  shows "sorted_wrt (\<lambda>a b. fst a < (fst b :: uuid)) (sort_by (on_key uuid_cmp fst) rows)"
proof -
  have uu: "comparator uuid_cmp" by unfold_locales (auto simp: uuid_cmp_def int_cmp_def split: if_splits)
  let ?s = "sort_by (on_key uuid_cmp fst) rows"
  have "sorted_by (on_key uuid_cmp fst) ?s" by (rule comparator.sorted_sort_by [OF comparator_on_key [OF uu]])
  then have le: "sorted_wrt (\<lambda>a b. fst a \<le> fst b) ?s"
    unfolding sorted_by_def by (rule sorted_wrt_mono_rel [rotated])
      (simp add: on_key_def uuid_cmp_def int_cmp_def word_le_def split: if_splits)
  have "mset (map fst ?s) = mset (map fst rows)" by (simp del: mset_map add: mset_map)
  then have "distinct (map fst ?s)" using assms by (metis mset_eq_imp_distinct_iff)
  then have "sorted_wrt (\<lambda>a b. fst a \<noteq> fst b) ?s"
    unfolding sorted_wrt_iff_nth_less distinct_conv_nth by auto
  with le show ?thesis
    by (simp add: sorted_wrt_iff_nth_less) (metis order_less_le)
qed

definition secrets_after :: "uuid \<Rightarrow> registry_db \<Rightarrow> (uuid \<times> string option \<times> string option) list" where
  "secrets_after after g = sort_by (on_key uuid_cmp fst)
     (map (\<lambda>r. (rr_id r, rr_auth_token r, rr_webhook_secret r))
       (filter (\<lambda>r. after < rr_id r \<and> (rr_auth_token r \<noteq> None \<or> rr_webhook_secret r \<noteq> None)) (gd_registries g)))"

lemma secrets_page:
  assumes "quiet_pass P"
  shows "ListRegistrySecretsPage (pe_fault P k) g after (sint (pe_batch P)) =
    Inr (take (nat (sint (pe_batch P))) (secrets_after after g))"
  using quiet_pass_simps(1,4) [OF assms]
  by (simp add: ListRegistrySecretsPage_def secrets_after_def page_def)

lemma secrets_after_facts:
  assumes "distinct (map rr_id (gd_registries g))"
  shows "sorted_wrt (\<lambda>a b. fst a < fst b) (secrets_after after g)" "distinct (map fst (secrets_after after g))"
    "list_all (row_now g) (secrets_after after g)"
    "r \<in> set (gd_registries g) \<Longrightarrow> rr_id r \<in> fst ` set (secrets_after after g) \<longleftrightarrow>
       after < rr_id r \<and> (rr_auth_token r \<noteq> None \<or> rr_webhook_secret r \<noteq> None)"
proof -
  show "sorted_wrt (\<lambda>a b. fst a < fst b) (secrets_after after g)"
    unfolding secrets_after_def
    by (rule sorted_by_id) (use assms in \<open>auto simp: comp_def distinct_map inj_on_def\<close>)
  then show "distinct (map fst (secrets_after after g))"
    by (auto simp: sorted_wrt_iff_nth_less distinct_conv_nth neq_iff)
  show "list_all (row_now g) (secrets_after after g)" by (auto simp: secrets_after_def list_all_iff row_now_def)
  show "r \<in> set (gd_registries g) \<Longrightarrow> rr_id r \<in> fst ` set (secrets_after after g) \<longleftrightarrow>
       after < rr_id r \<and> (rr_auth_token r \<noteq> None \<or> rr_webhook_secret r \<noteq> None)"
    using distinct_unique [OF assms] by (auto simp: secrets_after_def image_iff)
qed

lemma encrypt_pages_quiet:
  assumes "quiet_pass P"
  shows "distinct (map rr_id (gd_registries g)) \<Longrightarrow>
    length (filter (\<lambda>r. after < rr_id r) (gd_registries g)) < n \<Longrightarrow>
    \<exists>res' k'. encrypt_pages P n after (res, k, g) = Returned (None, res', k',
      g\<lparr>gd_registries := update_where (\<lambda>r. after < rr_id r) (seal_row P) (gd_registries g)\<rparr>)"
proof (induction n arbitrary: after res k g)
  case (Suc n)
  let ?b = "sint (pe_batch P)" and ?all = "secrets_after after g"
  let ?rows = "take (nat ?b) ?all"
  let ?f = "\<lambda>Q. update_where Q (seal_row P)"
  let ?g = "g\<lparr>gd_registries := ?f (\<lambda>r. rr_id r \<in> fst ` set ?rows) (gd_registries g)\<rparr>"
  note facts = secrets_after_facts [OF Suc.prems(1), where after = after]
  have "distinct (map fst ?rows)" using facts(2) by (simp add: distinct_map inj_on_def) (metis in_set_takeD)
  moreover have "list_all (row_now g) ?rows" using facts(3) by (auto simp: list_all_iff dest: in_set_takeD)
  ultimately obtain res1 k1 where rows: "rewrite_rows P ?rows (res, Suc k, g) = (None, res1, k1, ?g)"
    using rewrite_rows_quiet [OF assms Suc.prems(1), of ?rows res "Suc k"] by blast
  have run: "encrypt_pages P (Suc n) after (res, k, g) =
      (if int (length ?rows) < ?b then Returned (None, res1, k1, ?g)
       else if ?rows = [] then Stopped Panic else encrypt_pages P n (fst (last ?rows)) (res1, k1, ?g))"
    using quiet_pass_simps(2) [OF assms] rows by (simp add: secrets_page [OF assms] del: take_eq_Nil)
  show ?case
  proof (cases "int (length ?rows) < ?b")
    case True
    then have "?rows = ?all" by (simp add: min_def split: if_splits)
    then have "gd_registries ?g = ?f (\<lambda>r. after < rr_id r) (gd_registries g)"
      using facts(4) by (auto simp: update_where_def seal_row_empty)
    with run True show ?thesis by auto
  next
    case False
    with quiet_pass_simps(4) [OF assms] have ne: "?rows \<noteq> []" by auto
    let ?last = "fst (last ?rows)"
    have cut: "rr_id r \<in> fst ` set ?rows \<longleftrightarrow> rr_id r \<in> fst ` set ?all \<and> rr_id r \<le> ?last" for r
      using sorted_take_last [OF facts(1) ne] by (auto simp: image_iff dest: in_set_takeD) (metis in_set_takeD)+
    have "last ?rows \<in> set ?all" using ne last_in_set in_set_takeD by metis
    then obtain q where q: "q \<in> set (gd_registries g)" "rr_id q = ?last" "after < ?last"
      by (auto simp: secrets_after_def)
    have ids: "map rr_id (gd_registries ?g) = map rr_id (gd_registries g)" by (simp add: map_update_where)
    have "length (filter (\<lambda>r. ?last < rr_id r) (gd_registries ?g)) =
        length (filter (\<lambda>i. ?last < i) (map rr_id (gd_registries ?g)))" by (simp add: filter_map comp_def)
    also have "\<dots> = length (filter (\<lambda>r. ?last < rr_id r) (gd_registries g))"
      unfolding ids by (simp add: filter_map comp_def)
    also have "\<dots> < length (filter (\<lambda>r. after < rr_id r) (gd_registries g))"
    proof -
      have "filter (\<lambda>r. ?last < rr_id r) (gd_registries g) =
          filter (\<lambda>r. ?last < rr_id r) (filter (\<lambda>r. after < rr_id r) (gd_registries g))"
        using q(3) by (auto intro!: filter_cong)
      also have "length \<dots> < length (filter (\<lambda>r. after < rr_id r) (gd_registries g))"
        by (rule length_filter_less [of q]) (use q in auto)
      finally show ?thesis .
    qed
    finally have less: "length (filter (\<lambda>r. ?last < rr_id r) (gd_registries ?g)) < n" using Suc.prems(2) by simp
    have "(let y = (if rr_id x \<in> fst ` set ?rows then seal_row P x else x) in if ?last < rr_id y then seal_row P y else y) =
        (if after < rr_id x then seal_row P x else x)" if "x \<in> set (gd_registries g)" for x
    proof (cases "rr_auth_token x = None \<and> rr_webhook_secret x = None")
      case True
      then have "seal_row P x = x" by (simp add: seal_row_empty)
      then show ?thesis by simp
    next
      case creds: False
      then have mem: "rr_id x \<in> fst ` set ?rows \<longleftrightarrow> after < rr_id x \<and> rr_id x \<le> ?last"
        using facts(4) [OF that] cut [of x] by blast
      have "\<not> (rr_id x \<le> ?last \<and> ?last < rr_id x)" "?last < rr_id x \<Longrightarrow> after < rr_id x"
        "rr_id x \<le> ?last \<or> ?last < rr_id x" using q(3) by auto
      then show ?thesis unfolding mem Let_def by auto
    qed
    then have "?f (\<lambda>r. ?last < rr_id r) (gd_registries ?g) = ?f (\<lambda>r. after < rr_id r) (gd_registries g)"
      by (simp add: update_where_def Let_def)
    with Suc.IH [OF _ less, of res1 k1] Suc.prems(1) ids run False ne show ?thesis by auto
  qed
qed simp

section \<open>After the pass\<close>

text \<open>Every draw gives a nonce of the right length.\<close>

definition nonces_drawn :: "pass_env \<Rightarrow> box \<Rightarrow> bool" where
  "nonces_drawn P x \<longleftrightarrow> (\<forall>i column. \<exists>n. pe_nonce P i column = Inr n \<and>
     length n = ae_nonce_size (the (map_of (bx_keys x) (bx_active x))))"

lemma nonces_drawn_fit: "pe_box P = Some x \<Longrightarrow> nonces_drawn P x \<Longrightarrow> nonce_fits (pe_box P) (pe_nonce P i column)"
proof -
  assume "pe_box P = Some x" and "nonces_drawn P x"
  moreover from this(2) obtain n where "pe_nonce P i column = Inr n"
    "length n = ae_nonce_size (the (map_of (bx_keys x) (bx_active x)))"
    unfolding nonces_drawn_def by meson
  ultimately show ?thesis by (simp add: nonce_fits_def)
qed

text \<open>A value under the active key, or one the pass leaves alone because it is empty or cannot be read.\<close>

definition sealed_active :: "box \<Rightarrow> string \<Rightarrow> bool" where
  "sealed_active x stored \<longleftrightarrow> IsEncrypted stored \<and> KeyID stored = bx_active x"

lemma KeyID_plain: "\<not> IsEncrypted s \<Longrightarrow> KeyID s = []"
  by (simp add: KeyID_def)

lemma active_nonempty: "box_ok x \<Longrightarrow> bx_active x \<noteq> []"
  using key_in_ring [of x "bx_active x"] by (auto simp: box_ok_def keyIDPattern_def)

lemma sealed_active_no_rewrite:
  assumes "box_ok x"
  shows "s \<noteq> [] \<Longrightarrow> \<not> NeedsRewrite (Some x) s \<longleftrightarrow> sealed_active x s"
  using active_nonempty [OF assms] KeyID_plain [of s]
  by (cases "IsEncrypted s") (auto simp: NeedsRewrite_def sealed_active_def)

lemma reseal_active:
  assumes "box_ok x" and "pe_box P = Some x" and "nonces_drawn P x"
  shows "(case resealed P column i stored of None \<Rightarrow> stored = None
      | Some v \<Rightarrow> v = [] \<or> sealed_active x v \<or>
          (\<exists>e. Decrypt (Some x) v (registryAAD column i) = Inl e))"
proof -
  obtain n where n: "pe_nonce P i column = Inr n" "length n = ae_nonce_size (the (map_of (bx_keys x) (bx_active x)))"
    using assms(3) by (auto simp: nonces_drawn_def)
  have act: "sealed_active x sealed" if "Encrypt (Some x) (Inr n) p (registryAAD column i) = Inr sealed" for p sealed
    using Decrypt_Encrypt [OF assms(1,1) n(2) refl that] by (simp add: sealed_active_def)
  have enc: "Encrypt (Some x) (Inr n) p aad \<noteq> Inl e" for p aad e
    using assms(1) by (auto simp: Encrypt_def box_ok_def)
  show ?thesis
    using act enc sealed_active_no_rewrite [OF assms(1)]
    by (auto simp: resealed_def reseal_def assms(2) n(1) split: option.splits sum.splits)
qed

lemma reseal_settled:
  assumes "box_ok x" and "pe_box P = Some x" and "nonces_drawn P x"
  shows "\<exists>res'. reseal P column i (resealed P column i stored) res = (resealed P column i stored, False, res') \<and>
    er_encrypted res' = er_encrypted res \<and> er_rotated res' = er_rotated res"
  using reseal_active [OF assms, where column = column and i = i and stored = stored] sealed_active_no_rewrite [OF assms(1)]
  by (auto simp: reseal_def assms(2) unreadable_def split: option.splits sum.splits)

text \<open>A table whose every row the pass leaves as it is.\<close>

definition settled :: "pass_env \<Rightarrow> registry_db \<Rightarrow> bool" where
  "settled P g \<longleftrightarrow> (\<forall>r \<in> set (gd_registries g). \<exists>q. r = seal_row P q)"

lemma rewriteRow_settled:
  assumes "box_ok x" and "pe_box P = Some x" and "nonces_drawn P x" and "settled P g" and "row_now g row"
  shows "\<exists>res'. rewriteRow P row (res, k, g') = (None, res', k, g') \<and>
    er_encrypted res' = er_encrypted res \<and> er_rotated res' = er_rotated res"
proof -
  from assms(4,5) obtain r q where "row = (rr_id r, rr_auth_token r, rr_webhook_secret r)" "r = seal_row P q"
    by (auto simp: settled_def row_now_def)
  then have row: "row = (rr_id q, resealed P colAuthToken (uuid_str (rr_id q)) (rr_auth_token q),
      resealed P colWebhookSecret (uuid_str (rr_id q)) (rr_webhook_secret q))"
    by (simp add: seal_row_def)
  obtain r1 where 1: "reseal P colAuthToken (uuid_str (rr_id q)) (resealed P colAuthToken (uuid_str (rr_id q)) (rr_auth_token q)) res =
      (resealed P colAuthToken (uuid_str (rr_id q)) (rr_auth_token q), False, r1)"
    "er_encrypted r1 = er_encrypted res" "er_rotated r1 = er_rotated res"
    using reseal_settled [OF assms(1-3)] by blast
  obtain r2 where 2: "reseal P colWebhookSecret (uuid_str (rr_id q)) (resealed P colWebhookSecret (uuid_str (rr_id q)) (rr_webhook_secret q)) r1 =
      (resealed P colWebhookSecret (uuid_str (rr_id q)) (rr_webhook_secret q), False, r2)"
    "er_encrypted r2 = er_encrypted r1" "er_rotated r2 = er_rotated r1"
    using reseal_settled [OF assms(1-3)] by blast
  show ?thesis by (simp add: rewriteRow_def row 1 2)
qed

lemma rewrite_rows_settled:
  assumes "box_ok x" and "pe_box P = Some x" and "nonces_drawn P x" and "settled P g"
  shows "list_all (row_now g) rows \<Longrightarrow> \<exists>res'. rewrite_rows P rows (res, k, g) = (None, res', k, g) \<and>
    er_encrypted res' = er_encrypted res \<and> er_rotated res' = er_rotated res"
proof (induction rows arbitrary: res)
  case (Cons row rows)
  then obtain res1 where "rewriteRow P row (res, k, g) = (None, res1, k, g)"
    "er_encrypted res1 = er_encrypted res" "er_rotated res1 = er_rotated res"
    using rewriteRow_settled [OF assms] by fastforce
  with Cons.IH [of res1] Cons.prems show ?case by simp
qed simp

lemma encrypt_pages_settled:
  assumes "box_ok x" and "pe_box P = Some x" and "nonces_drawn P x" and "settled P g" and "quiet_pass P"
    and "distinct (map rr_id (gd_registries g))"
  shows "encrypt_pages P n after (res, k, g) = Returned (err, res', k', g') \<Longrightarrow>
    g' = g \<and> er_encrypted res' = er_encrypted res \<and> er_rotated res' = er_rotated res"
proof (induction n arbitrary: after res k)
  case (Suc n)
  let ?rows = "take (nat (sint (pe_batch P))) (secrets_after after g)"
  have "list_all (row_now g) ?rows"
    using secrets_after_facts(3) [OF assms(6), of after] by (auto simp: list_all_iff dest: in_set_takeD)
  then obtain res1 where r: "rewrite_rows P ?rows (res, Suc k, g) = (None, res1, Suc k, g)"
    "er_encrypted res1 = er_encrypted res" "er_rotated res1 = er_rotated res"
    using rewrite_rows_settled [OF assms(1-4)] by blast
  show ?case
    using Suc.prems Suc.IH [of "fst (last ?rows)" res1 "Suc k"] r(2,3) quiet_pass_simps(2) [OF assms(5)]
    by (auto simp: secrets_page [OF assms(5)] r(1) simp del: take_eq_Nil split: if_splits)
qed simp

end
