(* ===== verification/RegistryFacts.thy ===== *)
theory RegistryFacts
  imports RegistryRotation MembershipRuns
begin

text \<open>
  What the registry tables keep: keys, foreign keys and CHECKs, and two facts no constraint states. An SBOM is in
  the namespace of the source it came from, and its artifact is linked to that namespace.
\<close>

section \<open>The invariant\<close>

definition source_places :: "source_row list \<Rightarrow> (uuid \<times> uuid) set" where
  "source_places ss = (\<lambda>s. (sr_id s, sr_namespace s)) ` set ss"

definition oci_ids :: "source_row list \<Rightarrow> uuid set" where
  "oci_ids ss = sr_id ` {s \<in> set ss. sr_kind s = SourceKindOCIRegistry}"

definition rows_ok :: "source_row list \<Rightarrow> registry_row list \<Rightarrow> bool" where
  "rows_ok ss rs \<longleftrightarrow> distinct (map rr_id rs) \<and> (\<forall>r \<in> set rs. registry_check r \<and> rr_id r \<in> oci_ids ss)"

definition windows_ok :: "registry_row list \<Rightarrow> window_row list \<Rightarrow> bool" where
  "windows_ok rs ws \<longleftrightarrow> distinct (map (\<lambda>w. (wn_registry w, wn_repository w)) ws) \<and>
     wn_registry ` set ws \<subseteq> rr_id ` set rs"

definition sbom_placed :: "(uuid \<times> uuid) set \<Rightarrow> (uuid \<times> uuid) list \<Rightarrow> stored_sbom \<Rightarrow> bool" where
  "sbom_placed places links b \<longleftrightarrow>
     (\<forall>i. ps_source b = Some i \<longrightarrow> (i, ps_namespace b) \<in> places) \<and>
     (\<forall>a. ps_artifact b = Some a \<longrightarrow> (a, ps_namespace b) \<in> set links)"

definition placed_ok :: "registry_db \<Rightarrow> bool" where
  "placed_ok g \<longleftrightarrow>
     (\<forall>b \<in> set (gd_sboms g). ps_namespace b \<in> ns_ids (gd_ns g) \<and>
        sbom_placed (source_places (gd_sources g)) (gd_artifact_ns g) b) \<and>
     distinct (gd_artifact_ns g) \<and> snd ` set (gd_artifact_ns g) \<subseteq> ns_ids (gd_ns g)"

definition registry_ok :: "registry_db \<Rightarrow> bool" where
  "registry_ok g \<longleftrightarrow>
     db_ok (gd_ns g) \<and> sources_ok (gd_ns g) (gd_sources g) \<and> rows_ok (gd_sources g) (gd_registries g) \<and>
     windows_ok (gd_registries g) (gd_windows g) \<and> placed_ok g"

lemma registry_okD:
  assumes "registry_ok g"
  shows "db_ok (gd_ns g)" "sources_ok (gd_ns g) (gd_sources g)" "rows_ok (gd_sources g) (gd_registries g)"
    "windows_ok (gd_registries g) (gd_windows g)" "placed_ok g"
  using assms by (simp_all add: registry_ok_def)

lemma sources_ok_mono: "sources_ok d ss \<Longrightarrow> ns_ids d \<subseteq> ns_ids d' \<Longrightarrow> sources_ok d' ss"
  by (auto simp: sources_ok_def list_all_iff)

lemma rows_ok_mono: "rows_ok ss rs \<Longrightarrow> oci_ids ss \<subseteq> oci_ids ss' \<Longrightarrow> rows_ok ss' rs"
  by (auto simp: rows_ok_def)

lemma placed_ok_mono:
  "placed_ok g \<Longrightarrow> gd_sboms g' = gd_sboms g \<Longrightarrow> gd_artifact_ns g' = gd_artifact_ns g \<Longrightarrow>
   ns_ids (gd_ns g) \<subseteq> ns_ids (gd_ns g') \<Longrightarrow> source_places (gd_sources g) \<subseteq> source_places (gd_sources g') \<Longrightarrow> placed_ok g'"
  unfolding placed_ok_def sbom_placed_def by (simp add: subset_iff)

lemma rows_ok_update:
  assumes "rows_ok ss rs" and "\<And>r. r \<in> set rs \<Longrightarrow> Q r \<Longrightarrow> rr_id (f r) = rr_id r \<and> registry_check (f r)"
  shows "rows_ok ss (update_where Q f rs)"
proof -
  have "map rr_id (update_where Q f rs) = map rr_id rs" by (rule map_update_where) (use assms(2) in blast)
  moreover have "\<forall>r \<in> set (update_where Q f rs). registry_check r \<and> rr_id r \<in> oci_ids ss"
    using assms by (auto simp: rows_ok_def update_where_def)
  ultimately show ?thesis using assms(1) by (simp add: rows_ok_def del: map_map)
qed

lemma windows_ok_update:
  "windows_ok rs ws \<Longrightarrow> (\<And>r. r \<in> set rs \<Longrightarrow> Q r \<Longrightarrow> rr_id (f r) = rr_id r) \<Longrightarrow> windows_ok (update_where Q f rs) ws"
  using map_update_where [of rs Q rr_id f] by (metis (no_types, lifting) list.set_map windows_ok_def)

section \<open>Statements\<close>

lemma update_registries_ok:
  assumes "registry_ok g" and "\<And>r. r \<in> set (gd_registries g) \<Longrightarrow> Q r \<Longrightarrow> rr_id (f r) = rr_id r \<and> registry_check (f r)"
  shows "registry_ok (g\<lparr>gd_registries := update_where Q f (gd_registries g)\<rparr>)"
  using registry_okD [OF assms(1)] rows_ok_update [of "gd_sources g" "gd_registries g" Q f] assms(2)
    windows_ok_update [of "gd_registries g" "gd_windows g" Q f]
  by (simp add: registry_ok_def placed_ok_def)

lemma rows_checked: "registry_ok g \<Longrightarrow> r \<in> set (gd_registries g) \<Longrightarrow> registry_check r"
  by (simp add: registry_ok_def rows_ok_def)

lemma registry_check_same:
  "registry_check (r\<lparr>rr_enabled := e, rr_updated := u\<rparr>) = registry_check r"
  "registry_check (r\<lparr>rr_last_polled := p, rr_updated := u\<rparr>) = registry_check r"
  "registry_check (r\<lparr>rr_last_walk := w\<rparr>) = registry_check r"
  "registry_check (r\<lparr>rr_auth_token := t, rr_webhook_secret := s\<rparr>) = registry_check r"
  by (simp_all add: registry_check_def)

lemma update_registry_ok:
  assumes "registry_ok g" and "\<And>r. registry_check r \<Longrightarrow> rr_id (f r) = rr_id r \<and> registry_check (f r)"
    and "update_registry flt i f g = (res, g')"
  shows "registry_ok g'"
  using assms update_registries_ok [OF assms(1), of "\<lambda>r. rr_id r = i" f] rows_checked [OF assms(1)]
  by (cases flt) (auto simp: update_registry_def split: option.splits)

lemma RecordRegistryWalkStats_ok:
  "registry_ok g \<Longrightarrow> RecordRegistryWalkStats flt i stats g = (res, g') \<Longrightarrow> registry_ok g'"
  using update_registries_ok [of g "\<lambda>r. rr_id r = i" "\<lambda>r. r\<lparr>rr_last_walk := Some (stats\<lparr>ws_windows := []\<rparr>)\<rparr>"]
    rows_checked [of g]
  by (cases flt) (auto simp: RecordRegistryWalkStats_def registry_check_same)

lemma RewriteRegistrySecrets_ok:
  "registry_ok g \<Longrightarrow> RewriteRegistrySecrets flt i old new g = (res, g') \<Longrightarrow> registry_ok g'"
  using update_registries_ok [of g "\<lambda>r. rr_id r = i \<and> rr_auth_token r = fst old \<and> rr_webhook_secret r = snd old"
      "\<lambda>r. r\<lparr>rr_auth_token := fst new, rr_webhook_secret := snd new\<rparr>"] rows_checked [of g]
  by (cases flt) (auto simp: RewriteRegistrySecrets_def registry_check_same Let_def)

lemma windows_write_ok:
  "registry_ok g \<Longrightarrow> windows_ok (gd_registries g) ws \<Longrightarrow> registry_ok (g\<lparr>gd_windows := ws\<rparr>)"
  by (simp add: registry_ok_def placed_ok_def)

lemma DeleteRegistryWindow_ok:
  "registry_ok g \<Longrightarrow> DeleteRegistryWindow flt i g = (res, g') \<Longrightarrow> registry_ok g'"
proof -
  assume g: "registry_ok g" and run: "DeleteRegistryWindow flt i g = (res, g')"
  have "windows_ok (gd_registries g) (filter (\<lambda>w. wn_registry w \<noteq> i) (gd_windows g))"
    using registry_okD(4) [OF g] by (auto simp: windows_ok_def distinct_map inj_on_def)
  from windows_write_ok [OF g this] g run show ?thesis by (cases flt) (auto simp: DeleteRegistryWindow_def)
qed

lemma InsertRegistryWindow_ok:
  "registry_ok g \<Longrightarrow> InsertRegistryWindow flt w g = (res, g') \<Longrightarrow> registry_ok g'"
proof -
  assume g: "registry_ok g" and run: "InsertRegistryWindow flt w g = (res, g')"
  show ?thesis
  proof (cases "g' = g")
    case False
    then have new: "\<not> list_ex (\<lambda>x. wn_registry x = wn_registry w \<and> wn_repository x = wn_repository w) (gd_windows g) \<and>
        list_ex (\<lambda>r. rr_id r = wn_registry w) (gd_registries g) \<and> g' = g\<lparr>gd_windows := gd_windows g @ [w]\<rparr>"
      using run by (cases flt) (simp_all add: InsertRegistryWindow_def split: if_splits)
    have "windows_ok (gd_registries g) (gd_windows g @ [w])"
      using registry_okD(4) [OF g] new by (auto simp: windows_ok_def list_ex_iff) (metis imageI)
    from windows_write_ok [OF g this] show ?thesis using new by simp
  qed (use g in simp)
qed

lemma insert_windows_ok:
  "insert_windows flt k i walked ws g = (res, g') \<Longrightarrow> registry_ok g \<Longrightarrow> registry_ok g'"
proof (induction flt k i walked ws g arbitrary: res g' rule: insert_windows.induct)
  case (2 flt k i walked repo digests ws g)
  let ?w = "\<lparr>wn_registry = i, wn_repository = repo, wn_digests = digests, wn_walked = walked\<rparr>"
  obtain r g1 where one: "InsertRegistryWindow (flt k) ?w g = (r, g1)" by (metis surj_pair)
  then have ok: "registry_ok g1" using InsertRegistryWindow_ok [OF 2(3)] by blast
  show ?case
  proof (cases r)
    case Inl
    with 2(2) one ok show ?thesis by simp
  next
    case (Inr u)
    with 2(1) [OF one [symmetric] Inr] 2(2) one ok show ?thesis by simp
  qed
qed simp

section \<open>Creating, updating, deleting\<close>

lemma CreateSourceRow_new:
  assumes "CreateSourceRow None now i d ns kind name ss = (Inr row, ss')"
  shows "ss' = ss @ [row]" "sr_id row = i" "sr_namespace row = ns" "sr_kind row = kind"
  using assms by (auto simp: CreateSourceRow_def Let_def split: if_splits)

lemma mint_namespace_ok:
  assumes "db_ok d" and "mint_namespace now i name vis ns owner d = Inr (n, d')"
  shows "db_ok d'" "ns_ids d \<subseteq> ns_ids d'"
  using assms CreateNamespaceRow_ok [OF assms(1), of None now i name vis owner]
  by (auto simp: mint_namespace_def split: option.splits sum.splits)

lemma CreateRegistryRow_ok:
  assumes "registry_ok g" and "CreateRegistryRow flt now arg name vis ns owner g = (res, g')"
  shows "registry_ok g'"
proof (cases "g' = g")
  case False
  then obtain n d row ss where minted: "mint_namespace now (rr_id arg) name vis ns owner (gd_ns g) = Inr (n, d)"
    and src: "CreateSourceRow None now (rr_id arg) d n SourceKindOCIRegistry name (gd_sources g) = (Inr row, ss)"
    and new: "registry_check (new_registry_row now arg)" "\<not> list_ex (\<lambda>r. rr_id r = rr_id (new_registry_row now arg)) (gd_registries g)"
    and g': "g' = g\<lparr>gd_ns := d, gd_sources := ss, gd_registries := gd_registries g @ [new_registry_row now arg]\<rparr>"
    using assms(2) by (cases flt) (auto simp: CreateRegistryRow_def Let_def split: sum.splits if_splits prod.splits)
  note ok = registry_okD [OF assms(1)] and m = mint_namespace_ok [OF registry_okD(1) [OF assms(1)] minted]
    and s = CreateSourceRow_new [OF src]
  have "sources_ok d ss"
    using sources_ok_create [OF sources_ok_mono [OF ok(2) m(2)], of None now "rr_id arg" n SourceKindOCIRegistry name] src
    by simp
  moreover have "rows_ok ss (gd_registries g @ [new_registry_row now arg])"
    using ok(3) new s(4) s(2) [symmetric]
    by (auto simp: rows_ok_def oci_ids_def list_ex_iff new_registry_row_def s(1))
  moreover have "windows_ok (gd_registries g @ [new_registry_row now arg]) (gd_windows g)"
    using ok(4) by (auto simp: windows_ok_def)
  moreover have "placed_ok g'"
    by (rule placed_ok_mono [OF ok(5)]) (use s m(2) in \<open>auto simp: g' source_places_def\<close>)
  ultimately show ?thesis using m(1) by (simp add: registry_ok_def g')
qed (use assms in simp)

lemma rename_namespace_ok:
  assumes "db_ok d" and "rename_namespace now i name vis d = Inr d'"
  shows "db_ok d'" "ns_ids d' = ns_ids d"
proof -
  have "d' = d \<or> (\<exists>row. UpdateNamespaceRow None now d i name vis = Inr (row, d'))"
    using assms(2) by (cases "UpdateNamespaceRow None now d i name vis")
      (auto simp: rename_namespace_def split: if_splits)
  then show "db_ok d'" "ns_ids d' = ns_ids d"
    using UpdateNamespaceRow_ok [OF assms(1)] assms(1) by blast+
qed

definition source_keys :: "source_row list \<Rightarrow> (uuid \<times> uuid \<times> string) set" where
  "source_keys ss = set (map (\<lambda>s. (sr_id s, sr_namespace s, sr_kind s)) ss)"

lemma source_keys:
  "oci_ids ss = {i. \<exists>n. (i, n, SourceKindOCIRegistry) \<in> source_keys ss}"
  "source_places ss = {(i, n). \<exists>k. (i, n, k) \<in> source_keys ss}"
  by (force simp: oci_ids_def source_places_def source_keys_def)+

lemma rename_source_ok:
  assumes "sources_ok d ss" and "rename_source now i name ss = Inr ss'"
  shows "sources_ok d ss'" "oci_ids ss' = oci_ids ss" "source_places ss' = source_places ss"
proof -
  have cases: "ss' = ss \<or> (\<exists>row. UpdateSourceRow None now i name ss = (Inr row, ss'))"
    using assms(2) by (auto simp: rename_source_def split: if_splits sum.splits prod.splits)
  then show "sources_ok d ss'" using sources_ok_update [OF assms(1), of None now i name] assms(1) by auto
  have upd: "ss' = ss \<or> ss' = update_where (\<lambda>r. sr_id r = i) (\<lambda>r. r\<lparr>sr_name := name, sr_updated := now\<rparr>) ss"
    using cases by (auto simp: UpdateSourceRow_def split: option.splits if_splits)
  have "source_keys ss' = source_keys ss"
    using upd map_update_where [of ss "\<lambda>r. sr_id r = i" "\<lambda>s. (sr_id s, sr_namespace s, sr_kind s)"
        "\<lambda>r. r\<lparr>sr_name := name, sr_updated := now\<rparr>"]
    by (auto simp: source_keys_def simp del: set_map) 
  then show "oci_ids ss' = oci_ids ss" "source_places ss' = source_places ss" by (simp_all add: source_keys)
qed

lemma UpdateRegistryRow_ok:
  assumes "registry_ok g" and "UpdateRegistryRow flt now arg name vis g = (res, g')"
  shows "registry_ok g'"
proof (cases "g' = g")
  case False
  then obtain d ss where d: "rename_namespace now (rr_id arg) name vis (gd_ns g) = Inr d"
    and ss: "rename_source now (rr_id arg) name (gd_sources g) = Inr ss"
    and g': "g' = g\<lparr>gd_ns := d, gd_sources := ss\<rparr> \<or>
      (\<exists>r. find (\<lambda>r. rr_id r = rr_id arg) (gd_registries g) = Some r \<and> registry_check (set_columns now arg r) \<and>
        g' = g\<lparr>gd_ns := d, gd_sources := ss,
               gd_registries := update_where (\<lambda>r. rr_id r = rr_id arg) (set_columns now arg) (gd_registries g)\<rparr>)"
    using assms(2) by (cases flt) (auto simp: UpdateRegistryRow_def split: sum.splits option.splits if_splits)
  note ok = registry_okD [OF assms(1)]
  note m = rename_namespace_ok [OF ok(1) d] and s = rename_source_ok [OF ok(2) ss]
  have base: "registry_ok (g\<lparr>gd_ns := d, gd_sources := ss\<rparr>)"
    using ok m s sources_ok_mono [OF s(1), of d] rows_ok_mono [OF ok(3), of ss]
    by (auto simp: registry_ok_def intro: placed_ok_mono [OF ok(5)])
  have check: "registry_check (set_columns now arg r') = registry_check (set_columns now arg r)" for r r'
    by (simp add: registry_check_def set_columns_def)
  show ?thesis
  proof (cases "g' = g\<lparr>gd_ns := d, gd_sources := ss\<rparr>")
    case False
    with g' obtain r where "registry_check (set_columns now arg r)"
      "g' = (g\<lparr>gd_ns := d, gd_sources := ss\<rparr>)\<lparr>gd_registries :=
        update_where (\<lambda>r. rr_id r = rr_id arg) (set_columns now arg) (gd_registries g)\<rparr>" by auto
    moreover have "rr_id (set_columns now arg x) = rr_id x" for x by (simp add: set_columns_def)
    moreover have "registry_check (set_columns now arg x)" for x using check calculation(1) by blast
    ultimately show ?thesis
      using update_registries_ok [OF base, of "\<lambda>r. rr_id r = rr_id arg" "set_columns now arg"] by simp
  qed (use base in simp)
qed (use assms in simp)

lemma DeleteRegistryRow_ok:
  assumes "registry_ok g" and "DeleteRegistryRow flt i g = (res, g')"
  shows "registry_ok g'"
proof (cases "g' = g")
  case False
  then have g': "g' = g\<lparr>gd_sources := filter (\<lambda>s. sr_id s \<noteq> i) (gd_sources g),
      gd_registries := filter (\<lambda>r. rr_id r \<noteq> i) (gd_registries g),
      gd_windows := filter (\<lambda>w. wn_registry w \<noteq> i) (gd_windows g), gd_sboms := map (detach i) (gd_sboms g)\<rparr>"
    using assms(2) by (cases flt) (auto simp: DeleteRegistryRow_def split: if_splits)
  note ok = registry_okD [OF assms(1)]
  have "sources_ok (gd_ns g) (filter (\<lambda>s. sr_id s \<noteq> i) (gd_sources g))"
    using sources_ok_delete [OF ok(2), of None i] by (simp add: DeleteSourceRow_def)
  moreover have "rows_ok (filter (\<lambda>s. sr_id s \<noteq> i) (gd_sources g)) (filter (\<lambda>r. rr_id r \<noteq> i) (gd_registries g))"
    using ok(3) by (auto simp: rows_ok_def oci_ids_def distinct_map inj_on_def)
  moreover have "windows_ok (filter (\<lambda>r. rr_id r \<noteq> i) (gd_registries g)) (filter (\<lambda>w. wn_registry w \<noteq> i) (gd_windows g))"
    using ok(4) by (auto simp: windows_ok_def distinct_map inj_on_def)
  moreover have "placed_ok g'"
    using ok(5) by (fastforce simp: g' placed_ok_def sbom_placed_def detach_def source_places_def)
  ultimately show ?thesis using ok(1) by (simp add: registry_ok_def g')
qed (use assms in simp)

section \<open>Moving\<close>

lemma sources_ok_move:
  assumes "sources_ok d ss" and "find (\<lambda>s. sr_id s = i) ss = Some s" and "ns \<in> ns_ids d"
    and "\<not> list_ex (\<lambda>r. sr_id r \<noteq> i \<and> sr_namespace r = ns \<and> sr_name r = sr_name s) ss"
  shows "sources_ok d (update_where (\<lambda>r. sr_id r = i) (\<lambda>r. r\<lparr>sr_namespace := ns, sr_updated := now\<rparr>) ss)"
proof -
  let ?f = "\<lambda>r. r\<lparr>sr_namespace := ns, sr_updated := now\<rparr>" and ?key = "\<lambda>s. (sr_namespace s, sr_name s)"
  have ids: "distinct (map sr_id ss)" and keys: "distinct (map ?key ss)" using assms(1) by (simp_all add: sources_ok_def)
  have only: "r = s" if "r \<in> set ss" "sr_id r = i" for r
    using that ids find_SomeD [OF assms(2)] by (auto simp: distinct_map dest: inj_onD)
  have "inj_on ?key (set (update_where (\<lambda>r. sr_id r = i) ?f ss))"
    using assms(4) keys only by (auto simp: inj_on_def update_where_def list_ex_iff distinct_map split: if_splits)
  moreover have ids': "map sr_id (update_where (\<lambda>r. sr_id r = i) ?f ss) = map sr_id ss" by (simp add: map_update_where)
  moreover have "distinct (update_where (\<lambda>r. sr_id r = i) ?f ss)" using ids ids' by (metis distinct_map)
  moreover have "list_all (\<lambda>s. sr_namespace s \<in> ns_ids d \<and>
       sr_kind s \<in> {SourceKindOCIRegistry, SourceKindUpload, SourceKindCluster}) (update_where (\<lambda>r. sr_id r = i) ?f ss)"
    using assms(1,3) unfolding sources_ok_def by (intro list_all_update_where) auto
  ultimately show ?thesis using ids by (simp add: sources_ok_def distinct_map del: map_map)
qed

definition moved_sbom :: "uuid \<Rightarrow> uuid \<Rightarrow> stored_sbom \<Rightarrow> stored_sbom" where
  "moved_sbom i ns b = (if ps_source b = Some i then b\<lparr>ps_namespace := ns\<rparr> else b)"

text \<open>What the four statements write when they succeed.\<close>

definition moved_sources :: "int \<Rightarrow> uuid \<Rightarrow> uuid \<Rightarrow> source_row list \<Rightarrow> source_row list" where
  "moved_sources now i ns = update_where (\<lambda>r. sr_id r = i) (\<lambda>r. r\<lparr>sr_namespace := ns, sr_updated := now\<rparr>)"

lemma MoveSourceNamespace_Inr:
  assumes "MoveSourceNamespace flt now i ns g = (Inr u, g')" and "find (\<lambda>s. sr_id s = i) (gd_sources g) = Some s"
  shows "g' = g\<lparr>gd_sources := moved_sources now i ns (gd_sources g)\<rparr> \<and> ns \<in> ns_ids (gd_ns g) \<and>
    \<not> list_ex (\<lambda>r. sr_id r \<noteq> i \<and> sr_namespace r = ns \<and> sr_name r = sr_name s) (gd_sources g)"
  using assms by (cases flt) (auto simp: MoveSourceNamespace_def moved_sources_def list_ex_iff split: if_splits)

lemma MoveSourceSBOMs_Inr:
  "MoveSourceSBOMs flt i ns g = (Inr n, g') \<Longrightarrow> g' = g\<lparr>gd_sboms := map (moved_sbom i ns) (gd_sboms g)\<rparr>"
  by (cases flt) (auto simp: MoveSourceSBOMs_def update_where_def moved_sbom_def split: if_splits)

lemma LinkSourceArtifacts_Inr:
  "LinkSourceArtifacts flt i ns g = (Inr u, g') \<Longrightarrow>
   None \<notin> set (source_artifacts i g) \<and>
   g' = g\<lparr>gd_artifact_ns := gd_artifact_ns g @ filter (\<lambda>l. \<not> List.member (gd_artifact_ns g) l)
          (map (\<lambda>a. (a, ns)) (List.map_filter id (source_artifacts i g)))\<rparr>"
  by (cases flt) (auto simp: LinkSourceArtifacts_def Let_def split: if_splits)

lemma UnlinkEmptiedArtifacts_Inr:
  "UnlinkEmptiedArtifacts flt i old g = (Inr u, g') \<Longrightarrow>
   g' = g\<lparr>gd_artifact_ns := filter (\<lambda>(a, n). \<not> (n = old \<and> List.member (source_artifacts i g) (Some a) \<and>
     \<not> list_ex (\<lambda>s. ps_artifact s = Some a \<and> ps_namespace s = old) (gd_sboms g))) (gd_artifact_ns g)\<rparr>"
  by (cases flt) (auto simp: UnlinkEmptiedArtifacts_def)

lemma moved_sbom_simps [simp]:
  "ps_source (moved_sbom i ns b) = ps_source b" "ps_artifact (moved_sbom i ns b) = ps_artifact b"
  "ps_namespace (moved_sbom i ns b) = (if ps_source b = Some i then ns else ps_namespace b)"
  by (simp_all add: moved_sbom_def)

lemma source_artifacts_set:
  "x \<in> set (source_artifacts i g) \<longleftrightarrow> (\<exists>b \<in> set (gd_sboms g). ps_source b = Some i \<and> ps_artifact b = x)"
  by (auto simp: source_artifacts_def)

lemma source_artifacts_moved:
  "gd_sboms g' = gd_sboms g \<Longrightarrow> source_artifacts i g' = source_artifacts i g"
  "gd_sboms g' = map (moved_sbom j ns) (gd_sboms g) \<Longrightarrow> source_artifacts i g' = source_artifacts i g"
  by (simp_all add: source_artifacts_def filter_map comp_def)

definition moved_links :: "uuid \<Rightarrow> uuid \<Rightarrow> uuid \<Rightarrow> registry_db \<Rightarrow> (uuid \<times> uuid) set" where
  "moved_links i old ns g =
     {(a, n). ((a, n) \<in> set (gd_artifact_ns g) \<or> n = ns \<and> Some a \<in> set (source_artifacts i g)) \<and>
        \<not> (n = old \<and> Some a \<in> set (source_artifacts i g) \<and>
           (\<forall>b \<in> set (gd_sboms g). ps_artifact b = Some a \<and> ps_source b \<noteq> Some i \<longrightarrow> ps_namespace b \<noteq> old))}"

lemma map_filter_id_set: "a \<in> set (List.map_filter id xs) \<longleftrightarrow> Some a \<in> set xs"
  by (induction xs) (auto simp: map_filter_simps split: option.splits)

lemma distinct_map_filter_id: "distinct xs \<Longrightarrow> distinct (List.map_filter id xs)"
  by (induction xs) (auto simp: map_filter_simps map_filter_id_set split: option.splits)

lemma move_rows_result:
  assumes run: "move_rows E i old ns g = (Inr u, g')" and src: "find (\<lambda>s. sr_id s = i) (gd_sources g) = Some s"
    and "old \<noteq> ns"
  shows "ns \<in> ns_ids (gd_ns g)" "None \<notin> set (source_artifacts i g)"
    "\<not> list_ex (\<lambda>r. sr_id r \<noteq> i \<and> sr_namespace r = ns \<and> sr_name r = sr_name s) (gd_sources g)"
    "\<exists>links. g' = g\<lparr>gd_sources := moved_sources (re_now E) i ns (gd_sources g),
        gd_sboms := map (moved_sbom i ns) (gd_sboms g), gd_artifact_ns := links\<rparr> \<and>
      set links = moved_links i old ns g \<and> (distinct (gd_artifact_ns g) \<longrightarrow> distinct links)"
proof -
  from run obtain g1 where 1: "MoveSourceNamespace (re_fault E 2) (re_now E) i ns g = (Inr (), g1)"
    and run1: "(case MoveSourceSBOMs (re_fault E 3) i ns g1 of
             (Inl e, g2) \<Rightarrow> (Inl (Wrapped ''moving registry sboms'' e), g2)
           | (Inr _, g2) \<Rightarrow>
               (case LinkSourceArtifacts (re_fault E 4) i ns g2 of
                  (Inl e, g3) \<Rightarrow> (Inl (Wrapped ''linking artifacts to new namespace'' e), g3)
                | (Inr _, g3) \<Rightarrow>
                    (case UnlinkEmptiedArtifacts (re_fault E 5) i old g3 of
                       (Inl e, g4) \<Rightarrow> (Inl (Wrapped ''unlinking artifacts from old namespace'' e), g4)
                     | (Inr _, g4) \<Rightarrow> (Inr (), g4)))) = (Inr u, g')"
    by (auto simp: move_rows_def split: prod.splits sum.splits)
  from run1 obtain n2 g2 u3 g3 u4 where 2: "MoveSourceSBOMs (re_fault E 3) i ns g1 = (Inr n2, g2)"
    and 3: "LinkSourceArtifacts (re_fault E 4) i ns g2 = (Inr u3, g3)"
    and 4: "UnlinkEmptiedArtifacts (re_fault E 5) i old g3 = (Inr u4, g')"
    by (auto split: prod.splits sum.splits)
  note m1 = MoveSourceNamespace_Inr [OF 1 src] and m2 = MoveSourceSBOMs_Inr [OF 2]
    and m3 = LinkSourceArtifacts_Inr [OF 3] and m4 = UnlinkEmptiedArtifacts_Inr [OF 4]
  show "ns \<in> ns_ids (gd_ns g)"
    "\<not> list_ex (\<lambda>r. sr_id r \<noteq> i \<and> sr_namespace r = ns \<and> sr_name r = sr_name s) (gd_sources g)" using m1 by simp_all
  have arts: "source_artifacts i g2 = source_artifacts i g" "source_artifacts i g3 = source_artifacts i g"
    by (rule source_artifacts_moved(2) [where j = i and ns = ns]; use m1 m2 m3 in simp)+
  show "None \<notin> set (source_artifacts i g)" using m3 arts by simp
  let ?links = "gd_artifact_ns g'"
  have "g' = g\<lparr>gd_sources := moved_sources (re_now E) i ns (gd_sources g),
      gd_sboms := map (moved_sbom i ns) (gd_sboms g), gd_artifact_ns := ?links\<rparr>"
    using m1 m2 m3 m4 by simp
  moreover have links: "?links = filter (\<lambda>(a, n). \<not> (n = old \<and> Some a \<in> set (source_artifacts i g) \<and>
       \<not> (\<exists>s \<in> set (gd_sboms g). ps_artifact s = Some a \<and> (if ps_source s = Some i then ns else ps_namespace s) = old)))
     (gd_artifact_ns g @ filter (\<lambda>l. \<not> List.member (gd_artifact_ns g) l)
        (map (\<lambda>a. (a, ns)) (List.map_filter id (source_artifacts i g))))"
    using m1 m2 m3 m4 arts by (simp add: list_ex_iff)
  have "(\<exists>s \<in> set (gd_sboms g). ps_artifact s = Some a \<and> (if ps_source s = Some i then ns else ps_namespace s) = old) \<longleftrightarrow>
      \<not> (\<forall>b \<in> set (gd_sboms g). ps_artifact b = Some a \<and> ps_source b \<noteq> Some i \<longrightarrow> ps_namespace b \<noteq> old)" for a
    using assms(3) by (auto split: if_splits)
  then have "set ?links = moved_links i old ns g"
    unfolding links moved_links_def by (auto simp: map_filter_id_set)
  moreover have "distinct (gd_artifact_ns g) \<longrightarrow> distinct ?links"
    unfolding links using distinct_map_filter_id [of "source_artifacts i g"]
    by (auto simp: distinct_map inj_on_def source_artifacts_def)
  ultimately show "\<exists>links. g' = g\<lparr>gd_sources := moved_sources (re_now E) i ns (gd_sources g),
        gd_sboms := map (moved_sbom i ns) (gd_sboms g), gd_artifact_ns := links\<rparr> \<and>
      set links = moved_links i old ns g \<and> (distinct (gd_artifact_ns g) \<longrightarrow> distinct links)" by blast
qed

lemma moved_sources_keys:
  assumes "distinct (map sr_id ss)"
  shows "oci_ids (moved_sources now i ns ss) = oci_ids ss"
    "source_places (moved_sources now i ns ss) = {(j, n) \<in> source_places ss. j \<noteq> i} \<union> {(i, ns) | s. s \<in> set ss \<and> sr_id s = i}"
proof -
  let ?key = "\<lambda>s. (sr_id s, sr_kind s)"
  have by_kind: "oci_ids ss = {i. (i, SourceKindOCIRegistry) \<in> set (map ?key ss)}" for ss
    by (force simp: oci_ids_def)
  have "map ?key (moved_sources now i ns ss) = map ?key ss"
    unfolding moved_sources_def by (rule map_update_where) simp
  then show "oci_ids (moved_sources now i ns ss) = oci_ids ss" by (simp add: by_kind del: set_map)
  show "source_places (moved_sources now i ns ss) = {(j, n) \<in> source_places ss. j \<noteq> i} \<union> {(i, ns) | s. s \<in> set ss \<and> sr_id s = i}"
    unfolding source_places_def moved_sources_def update_where_def set_map image_image by (force split: if_splits)
qed

lemma move_rows_ok:
  assumes "registry_ok g" and run: "move_rows E i old ns g = (Inr u, g')"
    and src: "find (\<lambda>s. sr_id s = i) (gd_sources g) = Some s" and "old \<noteq> ns"
  shows "registry_ok g'"
proof -
  note ok = registry_okD [OF assms(1)] and m = move_rows_result [OF run src assms(4)]
  obtain links where g': "g' = g\<lparr>gd_sources := moved_sources (re_now E) i ns (gd_sources g),
        gd_sboms := map (moved_sbom i ns) (gd_sboms g), gd_artifact_ns := links\<rparr>"
    and links: "set links = moved_links i old ns g" "distinct (gd_artifact_ns g) \<longrightarrow> distinct links"
    using m(4) by blast
  have ids: "distinct (map sr_id (gd_sources g))" using ok(2) by (simp add: sources_ok_def)
  note keys = moved_sources_keys [OF ids]
  have "sources_ok (gd_ns g) (gd_sources g')"
    using sources_ok_move [OF ok(2) src m(1,3)] by (simp add: g' moved_sources_def)
  moreover have "rows_ok (gd_sources g') (gd_registries g')"
    using rows_ok_mono [OF ok(3), of "gd_sources g'"] by (simp add: g' keys)
  moreover have "placed_ok g'"
  proof -
    have "ps_namespace b \<in> ns_ids (gd_ns g) \<and> sbom_placed (source_places (gd_sources g')) links b"
      if "b \<in> set (gd_sboms g')" for b
    proof -
      from that obtain a where a: "a \<in> set (gd_sboms g)" "b = moved_sbom i ns a" by (auto simp: g')
      then have pl: "ps_namespace a \<in> ns_ids (gd_ns g)" "sbom_placed (source_places (gd_sources g)) (gd_artifact_ns g) a"
        using ok(5) by (auto simp: placed_ok_def)
      have s: "s \<in> set (gd_sources g) \<and> sr_id s = i" using find_SomeD [OF src] by simp
      have "(x, ps_namespace b) \<in> set links" if "ps_artifact b = Some x" for x
        using that pl(2) a assms(4)
        by (auto simp: links(1) moved_links_def sbom_placed_def source_artifacts_set)
      moreover have "(j, ps_namespace b) \<in> source_places (gd_sources g')" if "ps_source b = Some j" for j
        using that pl(2) a s by (auto simp: g' keys sbom_placed_def)
      ultimately show ?thesis using pl(1) m(1) a(2) by (simp add: sbom_placed_def)
    qed
    moreover have "snd ` set links \<subseteq> ns_ids (gd_ns g)"
      using ok(5) m(1) by (auto simp: links(1) moved_links_def placed_ok_def)
    moreover have "distinct links" using links(2) ok(5) by (simp add: placed_ok_def)
    ultimately show ?thesis by (simp add: placed_ok_def g')
  qed
  ultimately show ?thesis using ok by (simp add: registry_ok_def g')
qed

section \<open>The service\<close>

lemma resolveNamespace_ok:
  assumes "registry_ok g" and "resolveNamespace E p vis g = (res, g')"
  shows "registry_ok g'"
proof (cases "g' = g")
  case False
  then obtain row d where d: "CreateNamespaceRow (re_fault E 1) (re_now E) (re_ns_id E) (gd_ns g) (cr_namespace p) vis
      (cr_creator p) = Inr (row, d)" "g' = g\<lparr>gd_ns := d\<rparr>"
    using assms(2) by (auto simp: resolveNamespace_def split: option.splits sum.splits if_splits)
  note ok = registry_okD [OF assms(1)] and c = CreateNamespaceRow_ok [OF registry_okD(1) [OF assms(1)] d(1)]
  have "ns_ids (gd_ns g) \<subseteq> ns_ids d" using c(2) by blast
  then show ?thesis
    using ok c(1) sources_ok_mono [OF ok(2)] placed_ok_mono [OF ok(5), of g'] by (simp add: registry_ok_def d(2))
qed (use assms in simp)

lemma Registry_Create_ok: "registry_ok g \<Longrightarrow> Registry_Create E p g = (res, g') \<Longrightarrow> registry_ok g'"
  by (auto simp: Registry_Create_def insert_registry_def Let_def
      split: option.splits sum.splits prod.splits
      dest: resolveNamespace_ok CreateRegistryRow_ok)

lemma Registry_Update_ok: "registry_ok g \<Longrightarrow> Registry_Update E p g = (res, g') \<Longrightarrow> registry_ok g'"
  by (auto simp: Registry_Update_def write_update_def Let_def
      split: option.splits sum.splits prod.splits dest: UpdateRegistryRow_ok)

lemma SetEnabled_ok: "registry_ok g \<Longrightarrow> SetEnabled E sid enabled g = (res, g') \<Longrightarrow> registry_ok g'"
  by (auto simp: SetEnabled_def SetRegistryEnabled_def registry_check_same
      split: option.splits sum.splits prod.splits dest!: update_registry_ok [rotated 2])

lemma MarkPolled_ok: "registry_ok g \<Longrightarrow> MarkPolled E sid g = (res, g') \<Longrightarrow> registry_ok g'"
  by (auto simp: MarkPolled_def UpdateRegistryLastPolled_def registry_check_same
      split: option.splits sum.splits prod.splits dest!: update_registry_ok [rotated 2])

lemma Registry_Delete_ok: "registry_ok g \<Longrightarrow> Registry_Delete E sid g = (res, g') \<Longrightarrow> registry_ok g'"
  by (auto simp: Registry_Delete_def split: option.splits sum.splits prod.splits dest: DeleteRegistryRow_ok)

lemma replaceRegistryWindow_ok:
  "registry_ok g \<Longrightarrow> replaceRegistryWindow flt now i stats g = (res, g') \<Longrightarrow> registry_ok g'"
  by (auto simp: replaceRegistryWindow_def split: sum.splits prod.splits
      dest: DeleteRegistryWindow_ok insert_windows_ok)

lemma in_registry_tx_ok:
  assumes "registry_ok g" and "in_registry_tx bf cf msg body g = (res, g')"
    and "\<And>u g'. body g = (Inr u, g') \<Longrightarrow> registry_ok g'"
  shows "registry_ok g'"
  using assms by (auto simp: in_registry_tx_def split: option.splits sum.splits prod.splits)

lemma RecordWalkStats_ok:
  assumes "registry_ok g" and "RecordWalkStats E pool commit sid stats g = (res, g')"
  shows "registry_ok g'"
proof (cases "re_parse E sid")
  case (Some i)
  show ?thesis
  proof (cases "ws_error stats \<noteq> [] \<or> \<not> pool")
    case True
    with assms Some show ?thesis
      by (auto simp: RecordWalkStats_def Let_def split: sum.splits prod.splits dest: RecordRegistryWalkStats_ok)
  next
    case False
    with assms(2) Some have run: "in_registry_tx (re_fault E 0) commit ''committing transaction''
        (\<lambda>g. case (case RecordRegistryWalkStats (re_fault E 1) i stats g of
                      (Inl e, g') \<Rightarrow> (Inl (Wrapped ''recording walk stats'' e), g') | (Inr _, g') \<Rightarrow> (Inr (), g')) of
               (Inl e, g') \<Rightarrow> (Inl e, g')
             | (Inr _, g') \<Rightarrow> replaceRegistryWindow (re_fault E) (re_now E) i stats g') g = (res, g')"
      by (simp add: RecordWalkStats_def Let_def)
    show ?thesis
      by (rule in_registry_tx_ok [OF assms(1) run])
        (use assms(1) in \<open>auto split: sum.splits prod.splits dest: RecordRegistryWalkStats_ok replaceRegistryWindow_ok\<close>)
  qed
qed (use assms in \<open>simp add: RecordWalkStats_def\<close>)

lemma MoveNamespace_ok:
  assumes "registry_ok g" and "MoveNamespace E sid sns g = (res, g')"
  shows "registry_ok g'"
proof (cases "g' = g")
  case False
  then obtain i ns old where g: "GetSourceNamespace (re_fault E 1) g i = Inr old" "old \<noteq> ns"
    "in_registry_tx None (re_fault E 6) ''committing namespace move'' (move_rows E i old ns) g = (res, g')"
    using assms(2) by (auto simp: MoveNamespace_def split: option.splits sum.splits if_splits)
  obtain s where s: "find (\<lambda>s. sr_id s = i) (gd_sources g) = Some s"
    using g(1) by (auto simp: GetSourceNamespace_def read_stmt_Inr split: option.splits)
  show ?thesis
    by (rule in_registry_tx_ok [OF assms(1) g(3)]) (rule move_rows_ok [OF assms(1) _ s g(2)])
qed (use assms in simp)

end
