(* ===== verification/RegistryClaims.thy ===== *)
theory RegistryClaims
  imports RegistryFacts
begin

text \<open>
  What the registry service keeps and does: the invariant of the tables under every sequence of calls, the move of a
  registry, and the encryption pass beside other transactions and alone.
\<close>

section \<open>Sequences of calls\<close>

datatype registry_call =
    CallCreate create_params
  | CallUpdate update_params
  | CallSetEnabled string bool
  | CallMarkPolled string
  | CallDelete string
  | CallRecordWalk bool fault string walk_stats
  | CallMove string string

fun run_registry_call :: "reg_env \<Rightarrow> registry_call \<Rightarrow> registry_db \<Rightarrow> registry_db" where
  "run_registry_call E (CallCreate p) g = snd (Registry_Create E p g)"
| "run_registry_call E (CallUpdate p) g = snd (Registry_Update E p g)"
| "run_registry_call E (CallSetEnabled sid enabled) g = snd (SetEnabled E sid enabled g)"
| "run_registry_call E (CallMarkPolled sid) g = snd (MarkPolled E sid g)"
| "run_registry_call E (CallDelete sid) g = snd (Registry_Delete E sid g)"
| "run_registry_call E (CallRecordWalk pool commit sid stats) g = snd (RecordWalkStats E pool commit sid stats g)"
| "run_registry_call E (CallMove sid sns) g = snd (MoveNamespace E sid sns g)"

definition registry_calls :: "(reg_env \<times> registry_call) list \<Rightarrow> registry_db \<Rightarrow> registry_db" where
  "registry_calls = fold (\<lambda>(E, c). run_registry_call E c)"

lemma registry_call_ok: "registry_ok g \<Longrightarrow> registry_ok (run_registry_call E c g)"
  by (cases c)
    (metis run_registry_call.simps Registry_Create_ok Registry_Update_ok SetEnabled_ok MarkPolled_ok Registry_Delete_ok
      RecordWalkStats_ok MoveNamespace_ok prod.collapse)+

text \<open>C17: Under every sequence of service calls, each with failures of its own, the tables stay well formed: every
  registry row passes its checks and has an OCI source under its id, every window belongs to a registry and
  repository once, every SBOM with a source lies in that source's namespace, and every artifact is linked to the
  namespace of each of its SBOMs.\<close>

theorem registry_calls_keep_tables:
  assumes "registry_ok g"
  shows "registry_ok (registry_calls calls g)"
  using assms
  by (induction calls arbitrary: g) (auto simp: registry_calls_def registry_call_ok)

section \<open>The move\<close>

text \<open>C18: A move that succeeds found the registry's source, and either it was in the target namespace already
  and nothing changed, or the target exists, the source and exactly the SBOMs that came from it are in the target,
  everything else stays, and the artifact links are those the SBOMs need: the new namespace for each of these
  artifacts, the old one only where an SBOM of the artifact is left.\<close>

theorem move_takes_sboms_along:
  assumes "MoveNamespace E sid sns g = (Inr u, g')" and "re_parse E sid = Some i" and "re_parse E sns = Some ns"
  shows "\<exists>s. find (\<lambda>s. sr_id s = i) (gd_sources g) = Some s \<and>
    (sr_namespace s = ns \<and> g' = g \<or>
     sr_namespace s \<noteq> ns \<and> ns \<in> ns_ids (gd_ns g) \<and>
     (\<exists>links. g' = g\<lparr>gd_sources := moved_sources (re_now E) i ns (gd_sources g),
        gd_sboms := map (moved_sbom i ns) (gd_sboms g), gd_artifact_ns := links\<rparr> \<and>
        set links = moved_links i (sr_namespace s) ns g))"
proof -
  obtain old where old: "GetSourceNamespace (re_fault E 1) g i = Inr old"
    and run: "if old = ns then g' = g else
      in_registry_tx None (re_fault E 6) ''committing namespace move'' (move_rows E i old ns) g = (Inr u, g')"
    using assms by (auto simp: MoveNamespace_def split: option.splits sum.splits if_splits)
  obtain s where s: "find (\<lambda>s. sr_id s = i) (gd_sources g) = Some s" "old = sr_namespace s"
    using old by (auto simp: GetSourceNamespace_def read_stmt_Inr split: option.splits)
  show ?thesis
  proof (cases "old = ns")
    case True
    with run s show ?thesis by auto
  next
    case False
    with run have "\<exists>v. move_rows E i old ns g = (Inr v, g')"
      by (auto simp: in_registry_tx_def split: option.splits sum.splits prod.splits)
    then obtain v where "move_rows E i old ns g = (Inr v, g')" by blast
    from move_rows_result [OF this s(1) False] s False show ?thesis by auto
  qed
qed

section \<open>The encryption pass\<close>

text \<open>C10: The encryption pass is invisible to whoever reads credentials, whatever runs beside it: if each
  transaction that commits between its statements acts on the readable credentials as some function, the credentials
  after the pass are those these functions alone would have left. It overwrites no concurrent update, and it loses
  nothing when it stops at an error.\<close>

theorem encrypt_pass_invisible:
  assumes "ring_ok (pe_box P)" and "\<And>i column. nonce_fits (pe_box P) (pe_nonce P i column)"
    and "\<And>k g. credentials (pe_box P) (pe_conc P k g) = h k (credentials (pe_box P) g)"
    and "EncryptRegistrySecrets P fuel g = Returned (err, res, k, g')"
  shows "credentials (pe_box P) g' = fold h [0..<k] (credentials (pe_box P) g)"
  using encrypt_pages_invisible [OF assms(1-3)] assms(4) unfolding EncryptRegistrySecrets_def by blast

lemma resealed_readable:
  assumes "box_ok x" and "pe_box P = Some x" and "nonces_drawn P x" and "pe_box P = Some x"
    and "resealed P column i stored = Some v" and "v \<noteq> []" and "\<not> isl (open_column (Some x) column i (Some v))"
  shows "sealed_active x v"
  using reseal_active [OF assms(1-3), where column = column and i = i and stored = stored] assms(5-7)
  by (auto simp: open_column_def openCredential_def box_open_def split: sum.splits)

text \<open>C16: A pass alone over valid tables returns without an error when its fuel exceeds the number of registries,
  changes no credential as it is read, and leaves every credential that can be read under the active key; a second
  pass has nothing to encrypt or rotate.\<close>

theorem encrypt_pass_seals_all:
  assumes "box_ok x" and "pe_box P = Some x" and "nonces_drawn P x" and "quiet_pass P" and "registry_ok g"
    and "0 \<notin> rr_id ` set (gd_registries g)" and "length (gd_registries g) < fuel"
  shows "\<exists>res k g'. EncryptRegistrySecrets P fuel g = Returned (None, res, k, g') \<and>
    credentials (Some x) g' = credentials (Some x) g \<and>
    (\<forall>r \<in> set (gd_registries g'). \<forall>(column, stored) \<in> {(colAuthToken, rr_auth_token r), (colWebhookSecret, rr_webhook_secret r)}.
       case stored of None \<Rightarrow> True
       | Some v \<Rightarrow> v = [] \<or> isl (open_column (Some x) column (uuid_str (rr_id r)) stored) \<or> sealed_active x v) \<and>
    (\<exists>res2 k2. EncryptRegistrySecrets P fuel g' = Returned (None, res2, k2, g') \<and>
       er_encrypted res2 = 0 \<and> er_rotated res2 = 0)"
proof -
  have ids: "distinct (map rr_id (gd_registries g))" using registry_okD(3) [OF assms(5)] by (simp add: rows_ok_def)
  let ?g = "g\<lparr>gd_registries := update_where (\<lambda>r. 0 < rr_id r) (seal_row P) (gd_registries g)\<rparr>"
  have regs: "gd_registries ?g = map (seal_row P) (gd_registries g)"
    using assms(6) by (auto simp: update_where_def word_gt_0 image_iff)
  have enough: "length (filter (\<lambda>r. 0 < rr_id r) (gd_registries g)) < fuel"
    using assms(7) length_filter_le order.strict_trans1 by blast
  obtain res k where first: "EncryptRegistrySecrets P fuel g = Returned (None, res, k, ?g)"
    using encrypt_pages_quiet [OF assms(4) ids enough] unfolding EncryptRegistrySecrets_def by blast
  have "credentials (pe_box P) ?g = fold (\<lambda>_ c. c) [0..<k] (credentials (pe_box P) g)"
  proof (rule encrypt_pages_invisible [THEN conjunct2])
    show "ring_ok (pe_box P)" using assms(1,2) by (simp add: ring_ok_def)
    show "nonce_fits (pe_box P) (pe_nonce P i column)" for i column using nonces_drawn_fit [OF assms(2,3)] .
    show "credentials (pe_box P) (pe_conc P k g) = credentials (pe_box P) g" for k g
      using quiet_pass_simps(2) [OF assms(4)] by simp
  qed (use first in \<open>simp add: EncryptRegistrySecrets_def\<close>)
  moreover have "fold (\<lambda>_ c. c) ks c = c" for ks :: "nat list" and c :: "(uuid \<times> string option result \<times> string option result) list"
    by (induction ks) auto
  ultimately have same: "credentials (Some x) ?g = credentials (Some x) g" using assms(2) by simp
  have settled: "settled P ?g" unfolding settled_def regs by auto
  have ids': "distinct (map rr_id (gd_registries ?g))" using ids unfolding regs by (simp add: comp_def)
  have enough': "length (filter (\<lambda>r. 0 < rr_id r) (gd_registries ?g)) < fuel"
    using assms(7) length_filter_le [of _ "gd_registries ?g"] unfolding regs by (metis length_map order.strict_trans1)
  obtain res2 k2 g2 where second: "encrypt_pages P fuel 0 (zero_result, 0, ?g) = Returned (None, res2, k2, g2)"
    using encrypt_pages_quiet [OF assms(4) ids' enough'] by blast
  from encrypt_pages_settled [OF assms(1-3) settled assms(4) ids' second]
  have "\<exists>res2 k2. EncryptRegistrySecrets P fuel ?g = Returned (None, res2, k2, ?g) \<and>
       er_encrypted res2 = 0 \<and> er_rotated res2 = 0"
    using second by (auto simp: EncryptRegistrySecrets_def zero_result_def)
  moreover have "\<forall>r \<in> set (gd_registries ?g). \<forall>(column, stored) \<in> {(colAuthToken, rr_auth_token r), (colWebhookSecret, rr_webhook_secret r)}.
       case stored of None \<Rightarrow> True
       | Some v \<Rightarrow> v = [] \<or> isl (open_column (Some x) column (uuid_str (rr_id r)) stored) \<or> sealed_active x v"
    unfolding regs using resealed_readable [OF assms(1-3,2)] by (auto simp: seal_row_def split: option.splits)
  ultimately show ?thesis using first same by blast
qed

end
