(* ===== verification/RegistryApi.thy ===== *)
theory RegistryApi
  imports NetGuard AuthApi Registries
begin

text \<open>
  The registry endpoints: \<^verbatim>\<open>internal/api/registry.go\<close> with the middlewares of its routes
  (\<^verbatim>\<open>internal/api/router.go\<close>) and the response of \<^verbatim>\<open>types_registry.go\<close>. A body has the shape of the service's
  parameters; what the HTTP layer checks of it (lengths, enumerations) is left out, so a body is arbitrary.
\<close>

section \<open>Configuration and calls\<close>

text \<open>What \<open>url.Parse\<close> finds.\<close>

record url_parts =
  pu_user :: bool
  pu_query :: bool
  pu_fragment :: string
  pu_path :: string
  pu_hostname :: string

text \<open>\<open>ap_poller\<close> and \<open>ap_restricted\<close> are settings, \<open>ap_parse_url\<close> is \<open>url.Parse\<close> and \<open>ap_random\<close> the 32 bytes
  \<open>rand.Read\<close> gives.\<close>

record api_conf =
  ap_poller :: bool
  ap_restricted :: "bool option"
  ap_egress :: policy
  ap_parse_url :: "string \<Rightarrow> string + url_parts"
  ap_random :: "string result"
  ap_base_url :: string

text \<open>The k-th service call of a request has failures of its own.\<close>

definition nth_call :: "reg_env \<Rightarrow> nat \<Rightarrow> reg_env" where
  "nth_call E k = E\<lparr>re_fault := (\<lambda>j. re_fault E (10 * k + j))\<rparr>"

lemma nth_call_simps [simp]:
  "re_parse (nth_call E k) = re_parse E" "re_box (nth_call E k) = re_box E" "re_now (nth_call E k) = re_now E"
  "re_id (nth_call E k) = re_id E" "re_ns_id (nth_call E k) = re_ns_id E" "re_nonce (nth_call E k) = re_nonce E"
  "re_fault (nth_call E k) j = re_fault E (10 * k + j)"
  by (simp_all add: nth_call_def)

section \<open>Checks on a body\<close>

definition scanModeWebhook :: string where "scanModeWebhook = ''webhook''"
definition scanModePoll :: string where "scanModePoll = ''poll''"
definition scanModeBoth :: string where "scanModeBoth = ''both''"

definition typeFixedURL :: "string \<Rightarrow> string option" where
  "typeFixedURL = map_of [(''docker'', ''registry-1.docker.io''), (''ghcr'', ''ghcr.io'')]"

definition typeSupportsWebhook :: "string \<Rightarrow> bool" where
  "typeSupportsWebhook =
     map_bool [(''docker'', False), (''ghcr'', False), (''zot'', True), (''harbor'', True), (''generic'', True)]"

definition resolveRegistryType :: "api_conf \<Rightarrow> string \<Rightarrow> string \<Rightarrow> string response" where
  "resolveRegistryType C regType scanMode =
     bind_result
       (if typeSupportsWebhook regType then Inr scanMode
        else if scanMode = scanModeWebhook \<or> scanMode = scanModeBoth
        then Inl (422, ''registry type '' @ regType @ '' does not support webhook scan mode; use poll'')
        else if \<not> ap_poller C
        then Inl (422, ''registry type '' @ regType @ '' requires polling, but REGISTRY_POLLER_ENABLED is not set'')
        else Inr (if scanMode = [] then scanModePoll else scanMode))
       (\<lambda>mode. if (mode = scanModePoll \<or> mode = scanModeBoth) \<and> \<not> ap_poller C
               then Inl (422, ''scanMode 'poll' and 'both' require REGISTRY_POLLER_ENABLED=true'')
               else Inr mode)"

definition generateWebhookSecret :: "api_conf \<Rightarrow> string result" where
  "generateWebhookSecret C = map_sum id EncodeToString (ap_random C)"

text \<open>The secret to store, and the generated one, empty when none was.\<close>

definition ensureWebhookSecret :: "api_conf \<Rightarrow> string \<Rightarrow> string option \<Rightarrow> (string option \<times> string) response" where
  "ensureWebhookSecret C scanMode provided =
     (if scanMode \<noteq> scanModeWebhook \<and> scanMode \<noteq> scanModeBoth \<or> coalesce provided \<noteq> []
      then Inr (provided, [])
      else (case generateWebhookSecret C of
              Inl e \<Rightarrow> Inl (500, ''generating webhook secret'') | Inr s \<Rightarrow> Inr (Some s, s)))"

text \<open>\<open>strings.Cut(raw, "://")\<close>, then the scheme; the second component is the message of a refusal.\<close>

definition stripRegistryScheme :: "string \<Rightarrow> bool \<Rightarrow> string \<times> string" where
  "stripRegistryScheme raw insecure =
     (case index_sub ''://'' raw of
        None \<Rightarrow> (raw, [])
      | Some i \<Rightarrow>
          let scheme = to_lower (take i raw); after = drop (i + 3) raw in
          if scheme = ''https'' then (after, [])
          else if scheme = ''http'' then
            (if \<not> insecure then ([], ''http:// requires insecure to be true'') else (after, []))
          else ([], ''scheme must be http or https''))"

definition refuse_url :: "url_parts \<Rightarrow> string \<Rightarrow> string option" where
  "refuse_url u rest =
     (if pu_user u then Some ''must not contain credentials; use auth_username and auth_token''
      else if pu_query u then Some ''must not contain a query''
      else if pu_fragment u \<noteq> [] \<or> List.member rest (CHR ''#'') then Some ''must not contain a fragment''
      else if pu_path u \<noteq> [] \<and> pu_path u \<noteq> ''/'' then
        Some ''must not contain a path; list repositories in repositories instead''
      else if pu_hostname u = [] then Some ''host is required'' else None)"

text \<open>The answer's message is the detail.\<close>

definition validateRegistryURL :: "api_conf \<Rightarrow> string \<Rightarrow> bool \<Rightarrow> http_error option" where
  "validateRegistryURL C raw insecure =
     (case stripRegistryScheme raw insecure of (rest, msg) \<Rightarrow>
       if msg \<noteq> [] then Some (422, msg)
       else (case ap_parse_url C (''//'' @ rest) of
               Inl err \<Rightarrow> Some (422, ''not a valid host[:port]: '' @ err)
             | Inr u \<Rightarrow>
                 (case refuse_url u rest of
                    Some m \<Rightarrow> Some (422, m)
                  | None \<Rightarrow>
                      (case ParseAddr (pu_hostname u) of
                         None \<Rightarrow> None
                       | Some ip \<Rightarrow>
                           if Check (ap_egress C) (Some ip) \<noteq> None
                           then Some (422, pu_hostname u @ '' is refused by this installation's egress policy'')
                           else None))))"

definition resolve_url :: "api_conf \<Rightarrow> string \<Rightarrow> string \<Rightarrow> bool \<Rightarrow> string response" where
  "resolve_url C regType url insecure =
     (case typeFixedURL regType of
        Some fixed \<Rightarrow> Inr fixed
      | None \<Rightarrow> (case validateRegistryURL C url insecure of Some e \<Rightarrow> Inl e | None \<Rightarrow> Inr url))"

definition validateVerificationConfig ::
    "string \<Rightarrow> string option \<Rightarrow> string option \<Rightarrow> string option \<Rightarrow> http_error option" where
  "validateVerificationConfig mode key identity issuer =
     (if mode = ''keyless'' then
        (if coalesce identity = [] \<or> coalesce issuer = []
         then Some (400, ''trustIdentity and trustIssuer are required when verificationMode is keyless'') else None)
      else if mode = ''public_key'' then
        (if coalesce key = [] then Some (400, ''trustPublicKey is required when verificationMode is public_key'') else None)
      else None)"

definition tagOrderFromAPI :: "string \<Rightarrow> string" where
  "tagOrderFromAPI s = (if s = ''auto'' then [] else s)"

section \<open>Answers\<close>

record registry_response =
  rp_id :: string
  rp_name :: string
  rp_type :: string
  rp_url :: string
  rp_insecure :: bool
  rp_has_secret :: bool
  rp_has_auth :: bool
  rp_enabled :: bool
  rp_webhook_url :: string
  rp_repositories :: "string list"
  rp_repository_patterns :: "string list"
  rp_tag_patterns :: "string list"
  rp_scan_mode :: string
  rp_poll_interval :: int
  rp_last_polled :: "int option"
  rp_created :: int
  rp_updated :: int
  rp_visibility :: string
  rp_include_untagged :: bool
  rp_verification_mode :: string
  rp_trust_public_key :: "string option"
  rp_trust_identity :: "string option"
  rp_trust_issuer :: "string option"
  rp_managed_by :: "string option"
  rp_managed_ref :: "string option"
  rp_tag_limit :: int
  rp_tag_order :: string
  rp_max_tag_age :: int
  rp_last_walk :: "walk_stats option"

text \<open>Times stay numbers; a nil list is an empty one.\<close>

definition toRegistryResponse :: "api_conf \<Rightarrow> registry \<Rightarrow> registry_response" where
  "toRegistryResponse C r =
     \<lparr>rp_id = rg_id r, rp_name = rg_name r, rp_type = rg_type r, rp_url = rg_url r, rp_insecure = rg_insecure r,
      rp_has_secret = (coalesce (rg_webhook_secret r) \<noteq> []), rp_has_auth = HasAuth r, rp_enabled = rg_enabled r,
      rp_webhook_url = ap_base_url C @ ''/api/v1/registries/'' @ rg_id r @ ''/webhook'',
      rp_repositories = rg_repositories r, rp_repository_patterns = rg_repository_patterns r,
      rp_tag_patterns = rg_tag_patterns r, rp_scan_mode = rg_scan_mode r,
      rp_poll_interval = rg_poll_interval_minutes r, rp_last_polled = rg_last_polled_at r,
      rp_created = rg_created_at r, rp_updated = rg_updated_at r, rp_visibility = rg_visibility r,
      rp_include_untagged = rg_include_untagged r, rp_verification_mode = rg_verification_mode r,
      rp_trust_public_key = rg_trust_public_key r, rp_trust_identity = rg_trust_identity r,
      rp_trust_issuer = rg_trust_issuer r, rp_managed_by = rg_managed_by r, rp_managed_ref = rg_managed_ref r,
      rp_tag_limit = rg_tag_limit r, rp_tag_order = (if rg_tag_order r = [] then ''auto'' else rg_tag_order r),
      rp_max_tag_age = rg_max_tag_age_days r, rp_last_walk = rg_last_walk r\<rparr>"

section \<open>Reading\<close>

definition listRegistries ::
    "reg_env \<Rightarrow> api_conf \<Rightarrow> registry_db \<Rightarrow> auth_user option \<Rightarrow> visibility_filter \<Rightarrow> int \<Rightarrow> int \<Rightarrow>
     (registry_response list \<times> int) response" where
  "listRegistries E C g ctx vis lim off =
     (if ctx = None then Inl (401, ''not authenticated'')
      else (case Registry_ListPaged E (re_fault E 0) g vis lim off of
              Inl e \<Rightarrow> Inl (500, ''listing registries'')
            | Inr (rs, n) \<Rightarrow> Inr (map (toRegistryResponse C) rs, n)))"

definition ListRegistries_handler where
  "ListRegistries_handler E C g ctx lim off = listRegistries E C g ctx (visibilityFilterFromContext ctx) lim off"

definition ListMyRegistries where
  "ListMyRegistries E C g ctx lim off = listRegistries E C g ctx (ownedFilterFromContext ctx) lim off"

definition answer_registry ::
    "api_conf \<Rightarrow> auth_user option \<Rightarrow> registry result \<Rightarrow> registry_response response" where
  "answer_registry C ctx r =
     (if ctx = None then Inl (401, ''not authenticated'')
      else (case r of
              Inl e \<Rightarrow> Inl (404, ''registry not found'')
            | Inr reg \<Rightarrow>
                if rg_visibility reg = ''private'' \<and> \<not> canFromContext ctx (rg_namespace_id reg) CapReadPrivate
                then Inl (404, ''registry not found'') else Inr (toRegistryResponse C reg)))"

definition GetRegistry_handler where
  "GetRegistry_handler E C g ctx sid = answer_registry C ctx (Registry_Get E (re_fault E 0) g sid)"

definition GetRegistryByName_handler where
  "GetRegistryByName_handler E C g ctx name = answer_registry C ctx (Registry_GetByName E (re_fault E 0) g name)"

section \<open>Creating\<close>

text \<open>The empty id for a namespace that does not exist.\<close>

definition authorizeExistingNamespace ::
    "fault \<Rightarrow> db \<Rightarrow> auth_user \<Rightarrow> string \<Rightarrow> capability \<Rightarrow> string response" where
  "authorizeExistingNamespace flt d u name c =
     (case Namespace_GetByName flt d name of
        Inl e \<Rightarrow> if errors_is e ErrNotFound then Inr [] else Inl (mapServiceError e)
      | Inr ns \<Rightarrow>
          if au_grants u (nsv_id ns) = None \<and> au_role u \<noteq> roleAdmin then Inl (404, ''namespace not found'')
          else if \<not> can u (nsv_id ns) c then Inl (403, ''forbidden'') else Inr (nsv_id ns))"

text \<open>One attempt: the parameters with the namespace's id, or a refusal. Others may commit (\<open>conc\<close>) between
  the lookup and the creation.\<close>

definition authorize_create ::
    "reg_env \<Rightarrow> api_conf \<Rightarrow> auth_user \<Rightarrow> create_params \<Rightarrow> registry_db \<Rightarrow> create_params response" where
  "authorize_create E C u p g =
     bind_result
       (if cr_namespace p = [] then Inr p
        else map_sum id (\<lambda>i. p\<lparr>cr_namespace_id := i\<rparr>)
               (authorizeExistingNamespace (re_fault E 0) (gd_ns g) u (cr_namespace p) CapManageSource))
       (\<lambda>p. if cr_namespace_id p = [] then
              (case requireNamespaceCreation (ap_restricted C) u of Some e \<Rightarrow> Inl e | None \<Rightarrow> Inr p)
            else Inr p)"

definition create_attempt ::
    "reg_env \<Rightarrow> api_conf \<Rightarrow> (registry_db \<Rightarrow> registry_db) \<Rightarrow> nat \<Rightarrow> auth_user \<Rightarrow> create_params \<Rightarrow> registry_db \<Rightarrow>
     registry result response \<times> registry_db" where
  "create_attempt E C conc k u p g =
     (case authorize_create (nth_call E k) C u p g of
        Inl e \<Rightarrow> (Inl e, g)
      | Inr p' \<Rightarrow> (case Registry_Create (nth_call E (k + 1)) p' (conc g) of (r, g') \<Rightarrow> (Inr r, g')))"

text \<open>The loop runs at most twice.\<close>

definition createRegistry ::
    "reg_env \<Rightarrow> api_conf \<Rightarrow> (nat \<Rightarrow> registry_db \<Rightarrow> registry_db) \<Rightarrow> auth_user \<Rightarrow> create_params \<Rightarrow> registry_db \<Rightarrow>
     registry response \<times> registry_db" where
  "createRegistry E C conc u p g =
     (case create_attempt E C (conc 0) 0 u p g of
        (Inl e, g1) \<Rightarrow> (Inl e, g1)
      | (Inr (Inr reg), g1) \<Rightarrow> (Inr reg, g1)
      | (Inr (Inl err), g1) \<Rightarrow>
          if \<not> errors_is err ErrNamespaceExists then (Inl (mapServiceError err), g1)
          else (case create_attempt E C (conc 2) 2 u p (conc 1 g1) of
                  (Inl e, g2) \<Rightarrow> (Inl e, g2)
                | (Inr (Inr reg), g2) \<Rightarrow> (Inr reg, g2)
                | (Inr (Inl err), g2) \<Rightarrow> (Inl (mapServiceError err), g2)))"

text \<open>The body completed: the URL, the mode, the interval, the visibility, the secret.\<close>

definition complete_create ::
    "api_conf \<Rightarrow> auth_user \<Rightarrow> create_params \<Rightarrow> (create_params \<times> string) response" where
  "complete_create C u b =
     bind_result (resolve_url C (cr_type b) (cr_url b) (cr_insecure b)) (\<lambda>url.
     bind_result (resolveRegistryType C (cr_type b) (cr_scan_mode b)) (\<lambda>mode0.
     let mode = (if mode0 = [] then scanModeWebhook else mode0);
         verification = (if cr_verification_mode b = [] then ''none'' else cr_verification_mode b) in
     bind_result (ensureWebhookSecret C mode (cr_webhook_secret b)) (\<lambda>(secret, generated).
     case validateVerificationConfig verification (cr_trust_public_key b) (cr_trust_identity b) (cr_trust_issuer b) of
       Some e \<Rightarrow> Inl e
     | None \<Rightarrow>
         Inr (b\<lparr>cr_url := url, cr_scan_mode := mode, cr_webhook_secret := secret,
                cr_poll_interval := (if cr_poll_interval b = 0 then 60 else cr_poll_interval b),
                cr_visibility := (if cr_visibility b = [] then ''public'' else cr_visibility b),
                cr_verification_mode := verification, cr_creator := au_id u,
                cr_tag_order := tagOrderFromAPI (cr_tag_order b), cr_namespace_id := []\<rparr>, generated))))"

definition CreateRegistry_handler ::
    "reg_env \<Rightarrow> api_conf \<Rightarrow> (nat \<Rightarrow> registry_db \<Rightarrow> registry_db) \<Rightarrow> create_params \<Rightarrow> auth_user option \<Rightarrow> registry_db \<Rightarrow>
     (registry_response \<times> string) response \<times> registry_db" where
  "CreateRegistry_handler E C conc b ctx g =
     (case ctx of
        None \<Rightarrow> (Inl (401, ''not authenticated''), g)
      | Some u \<Rightarrow>
          (case complete_create C u b of
             Inl e \<Rightarrow> (Inl e, g)
           | Inr (p, generated) \<Rightarrow>
               (case createRegistry E C conc u p g of
                  (Inl e, g') \<Rightarrow> (Inl e, g')
                | (Inr reg, g') \<Rightarrow> (Inr (toRegistryResponse C reg, generated), g'))))"

definition route_create_registry where
  "route_create_registry E C conc b =
     behind [RequireAuthenticated, RequireWrite] (CreateRegistry_handler E C conc b)"

section \<open>Updating\<close>

text \<open>The guard of the routes under one registry's path.\<close>

definition registryNamespace :: "reg_env \<Rightarrow> registry_db \<Rightarrow> string \<Rightarrow> uuid option result" where
  "registryNamespace E g sid =
     (case Registry_Get E (re_fault E 0) g sid of
        Inl e \<Rightarrow> Inl e
      | Inr reg \<Rightarrow>
          if rg_namespace_id reg = [] then Inr None
          else (case re_parse E (rg_namespace_id reg) of
                  None \<Rightarrow> Inl (OtherError (''invalid uuid: '' @ rg_namespace_id reg)) | Some n \<Rightarrow> Inr (Some n)))"

definition guarded where
  "guarded E c sid h ctx g =
     behind [RequireCapability c (registryNamespace (nth_call E 0) g sid), RequireWrite] h ctx g"

text \<open>A registry as the parameters that would write it again.\<close>

definition params_of :: "registry \<Rightarrow> update_params" where
  "params_of r =
     \<lparr>up_id = rg_id r, up_name = rg_name r, up_type = rg_type r, up_url = rg_url r, up_insecure = rg_insecure r,
      up_webhook_secret = rg_webhook_secret r, up_enabled = rg_enabled r, up_repositories = rg_repositories r,
      up_repository_patterns = rg_repository_patterns r, up_tag_patterns = rg_tag_patterns r,
      up_scan_mode = rg_scan_mode r, up_poll_interval = rg_poll_interval_minutes r,
      up_auth_username = rg_auth_username r, up_auth_token = rg_auth_token r, up_visibility = rg_visibility r,
      up_include_untagged = rg_include_untagged r, up_verification_mode = rg_verification_mode r,
      up_trust_public_key = rg_trust_public_key r, up_trust_identity = rg_trust_identity r,
      up_trust_issuer = rg_trust_issuer r, up_managed_by = rg_managed_by r, up_managed_ref = rg_managed_ref r,
      up_tag_limit = Some (rg_tag_limit r), up_tag_order = Some (rg_tag_order r),
      up_max_tag_age = Some (rg_max_tag_age_days r)\<rparr>"

definition RegenerateWebhookSecret ::
    "reg_env \<Rightarrow> api_conf \<Rightarrow> string \<Rightarrow> auth_user option \<Rightarrow> registry_db \<Rightarrow> string response \<times> registry_db" where
  "RegenerateWebhookSecret E C sid ctx g =
     (case Registry_Get (nth_call E 1) (re_fault E 10) g sid of
        Inl e \<Rightarrow> (Inl (404, ''registry not found''), g)
      | Inr existing \<Rightarrow>
          (case generateWebhookSecret C of
             Inl e \<Rightarrow> (Inl (500, ''generating webhook secret''), g)
           | Inr secret \<Rightarrow>
               (case Registry_Update (nth_call E 2)
                       ((params_of existing)\<lparr>up_id := sid, up_webhook_secret := Some secret\<rparr>) g of
                  (Inl e, g') \<Rightarrow> (Inl (500, ''updating webhook secret''), g')
                | (Inr _, g') \<Rightarrow> (Inr secret, g'))))"

definition route_regenerate_secret where
  "route_regenerate_secret E C sid = guarded E CapReadSecret sid (RegenerateWebhookSecret E C sid)"

text \<open>Each field the request omits keeps the stored value.\<close>

definition validateTrustUpdate :: "update_params \<Rightarrow> registry \<Rightarrow> http_error option" where
  "validateTrustUpdate b existing =
     validateVerificationConfig
       (if up_verification_mode b = [] then rg_verification_mode existing else up_verification_mode b)
       (orExisting (up_trust_public_key b) (rg_trust_public_key existing))
       (orExisting (up_trust_identity b) (rg_trust_identity existing))
       (orExisting (up_trust_issuer b) (rg_trust_issuer existing))"

definition complete_update ::
    "api_conf \<Rightarrow> string \<Rightarrow> update_params \<Rightarrow> registry \<Rightarrow> update_params response" where
  "complete_update C sid b existing =
     bind_result (resolve_url C (up_type b) (up_url b) (up_insecure b)) (\<lambda>url.
     bind_result (resolveRegistryType C (up_type b) (up_scan_mode b)) (\<lambda>mode.
     case validateTrustUpdate b existing of
       Some e \<Rightarrow> Inl e
     | None \<Rightarrow>
         Inr (b\<lparr>up_id := sid, up_url := url, up_webhook_secret := rg_webhook_secret existing,
                up_scan_mode := (if mode = [] then rg_scan_mode existing else mode),
                up_poll_interval := (if up_poll_interval b = 0 then rg_poll_interval_minutes existing
                                     else up_poll_interval b),
                up_visibility := (if up_visibility b = [] then rg_visibility existing else up_visibility b),
                up_tag_order := map_option tagOrderFromAPI (up_tag_order b)\<rparr>)))"

text \<open>Whether it moved.\<close>

definition moveRegistryNamespace ::
    "reg_env \<Rightarrow> auth_user option \<Rightarrow> registry \<Rightarrow> string \<Rightarrow> registry_db \<Rightarrow> bool response \<times> registry_db" where
  "moveRegistryNamespace E ctx reg name g =
     (case ctx of
        None \<Rightarrow> (Inl (401, ''not authenticated''), g)
      | Some u \<Rightarrow>
          (case authorizeExistingNamespace (re_fault E 30) (gd_ns g) u name CapManageSource of
             Inl e \<Rightarrow> (Inl e, g)
           | Inr nsID \<Rightarrow>
               if nsID = [] then (Inl (404, ''namespace not found''), g)
               else if nsID = rg_namespace_id reg then (Inr False, g)
               else (case MoveNamespace (nth_call E 4) (rg_id reg) nsID g of
                       (Inl e, g') \<Rightarrow> (Inl (mapServiceError e), g')
                     | (Inr _, g') \<Rightarrow> (Inr True, g'))))"

definition applyNamespaceMove ::
    "reg_env \<Rightarrow> auth_user option \<Rightarrow> registry \<Rightarrow> registry \<Rightarrow> string option \<Rightarrow> registry_db \<Rightarrow>
     registry response \<times> registry_db" where
  "applyNamespaceMove E ctx existing updated ns g =
     (if coalesce ns = [] then (Inr updated, g)
      else (case moveRegistryNamespace E ctx existing (coalesce ns) g of
              (Inl e, g') \<Rightarrow> (Inl e, g')
            | (Inr False, g') \<Rightarrow> (Inr updated, g')
            | (Inr True, g') \<Rightarrow>
                (case Registry_Get (nth_call E 5) (re_fault E 50) g' (rg_id existing) of
                   Inl e \<Rightarrow> (Inl (mapServiceError e), g') | Inr reg \<Rightarrow> (Inr reg, g'))))"

definition UpdateRegistry_handler ::
    "reg_env \<Rightarrow> api_conf \<Rightarrow> string \<Rightarrow> update_params \<Rightarrow> string option \<Rightarrow> auth_user option \<Rightarrow> registry_db \<Rightarrow>
     registry_response response \<times> registry_db" where
  "UpdateRegistry_handler E C sid b ns ctx g =
     (case Registry_Get (nth_call E 1) (re_fault E 10) g sid of
        Inl e \<Rightarrow> (Inl (404, ''registry not found''), g)
      | Inr existing \<Rightarrow>
          (case complete_update C sid b existing of
             Inl e \<Rightarrow> (Inl e, g)
           | Inr p \<Rightarrow>
               (case Registry_Update (nth_call E 2) p g of
                  (Inl e, g1) \<Rightarrow>
                    (Inl (if find is_ValidationError (error_leaves e) \<noteq> None then mapServiceError e
                          else (404, ''registry not found'')), g1)
                | (Inr reg, g1) \<Rightarrow>
                    (case applyNamespaceMove E ctx existing reg ns g1 of
                       (Inl e, g2) \<Rightarrow> (Inl e, g2)
                     | (Inr reg', g2) \<Rightarrow> (Inr (toRegistryResponse C reg'), g2)))))"

definition route_update_registry where
  "route_update_registry E C sid b ns = guarded E CapManageSource sid (UpdateRegistry_handler E C sid b ns)"

definition DeleteRegistry_handler ::
    "reg_env \<Rightarrow> string \<Rightarrow> auth_user option \<Rightarrow> registry_db \<Rightarrow> unit response \<times> registry_db" where
  "DeleteRegistry_handler E sid ctx g =
     (case Registry_Delete (nth_call E 1) sid g of
        (Inl e, g') \<Rightarrow> (Inl (404, ''registry not found''), g') | (Inr _, g') \<Rightarrow> (Inr (), g'))"

definition route_delete_registry where
  "route_delete_registry E sid = guarded E CapManageSource sid (DeleteRegistry_handler E sid)"

end
