(* ===== verification/RegistryHooks.thy ===== *)
theory RegistryHooks
  imports CatalogWalk RegistryApi
begin

text \<open>
  Where a stored registry meets the scanner: the push notification of \<^verbatim>\<open>internal/api/webhook.go\<close>, the preview, scan
  and connection-test handlers of \<^verbatim>\<open>internal/api/registry.go\<close>, and the host lookups of
  \<^verbatim>\<open>internal/service/registry.go\<close> that the enrichment workers resolve credentials with.
\<close>

section \<open>Push notifications\<close>

record push_event =
  pe_authorization :: string
  pe_media_type :: string
  pe_name :: string
  pe_digest :: string
  pe_reference :: string

text \<open>A scan window that cannot be read does not hold a push back.\<close>

definition webhookWantsScan :: "'u walk_env \<Rightarrow> registry \<Rightarrow> push_event \<Rightarrow> ('u, bool) walk_m" where
  "webhookWantsScan e reg ev =
     (if \<not> List.member [''application/vnd.oci.image.manifest.v1+json'',
            ''application/vnd.docker.distribution.manifest.v2+json''] (pe_media_type ev) then wret False
      else if IsAttachedArtifactTag (pe_reference ev) then wret False
      else if \<not> MatchesImage reg (pe_name ev) (pe_reference ev) then wret False
      else wbind (TagInWindow e reg (pe_name ev) (pe_reference ev))
             (\<lambda>r. wret (case r of Inl err \<Rightarrow> True | Inr inWindow \<Rightarrow> inWindow)))"

definition push_request :: "registry \<Rightarrow> push_event \<Rightarrow> scan_request" where
  "push_request reg ev =
     \<lparr>sq_registry_url = rg_url reg, sq_insecure = rg_insecure reg, sq_repository = pe_name ev,
      sq_digest = pe_digest ev, sq_index_digest = [], sq_tag = pe_reference ev, sq_architecture = [],
      sq_build_date = [], sq_image_version = [], sq_auth_username = derefStr (rg_auth_username reg),
      sq_auth_token = derefStr (rg_auth_token reg), sq_registry_id = rg_id reg, sq_cluster_id = [],
      sq_force = False\<rparr>"

text \<open>What an admitted push does; \<open>submitter\<close> is whether the scanner is enabled.\<close>

definition scan_push :: "'u walk_env \<Rightarrow> bool \<Rightarrow> registry \<Rightarrow> push_event \<Rightarrow> ('u, unit response) walk_m" where
  "scan_push e submitter reg ev =
     wbind (webhookWantsScan e reg ev) (\<lambda>wanted.
       if \<not> wanted then wret (Inr ())
       else if \<not> submitter then wret (Inl (503, ''scanner not enabled''))
       else wbind (submit_scan e (push_request reg ev)) (\<lambda>ok.
              wret (if ok then Inr () else Inl (503, ''scan submit failed''))))"

definition HandleRegistryWebhook ::
    "reg_env \<Rightarrow> 'u walk_env \<Rightarrow> bool \<Rightarrow> registry_db \<Rightarrow> string \<Rightarrow> push_event \<Rightarrow> ('u, unit response) walk_m" where
  "HandleRegistryWebhook E e submitter g sid ev =
     (case Registry_Get E (re_fault E 0) g sid of
        Inl err \<Rightarrow> wret (Inl (404, ''registry not found''))
      | Inr reg \<Rightarrow>
          if \<not> rg_enabled reg then wret (Inl (503, ''registry disabled''))
          else if \<not> AcceptsWebhooks reg then wret (Inr ())
          else (case rg_webhook_secret reg of
                  None \<Rightarrow> wret (Inl (401, ''webhook secret not configured''))
                | Some secret \<Rightarrow>
                    if secret = [] then wret (Inl (401, ''webhook secret not configured''))
                    else if trim_prefix (pe_authorization ev) ''Bearer '' \<noteq> secret
                    then wret (Inl (401, ''invalid webhook secret''))
                    else scan_push e submitter reg ev))"

section \<open>Previews, scans and the connection test\<close>

definition previewRegistry :: "'u walk_env \<Rightarrow> registry \<Rightarrow> ('u, RegistryPreview response) walk_m" where
  "previewRegistry e reg =
     wbind (PreviewRegistry e reg) (\<lambda>r.
       wret (case r of Inl err \<Rightarrow> Inl (502, ''previewing registry'') | Inr p \<Rightarrow> Inr p))"

text \<open>The body carries the fields of a creation that the scan depends on.\<close>

definition preview_of :: "create_params \<Rightarrow> string \<Rightarrow> registry" where
  "preview_of b url =
     zero_registry\<lparr>rg_type := cr_type b, rg_url := url, rg_insecure := cr_insecure b,
       rg_auth_username := cr_auth_username b, rg_auth_token := cr_auth_token b,
       rg_repositories := cr_repositories b, rg_repository_patterns := cr_repository_patterns b,
       rg_tag_patterns := cr_tag_patterns b, rg_include_untagged := cr_include_untagged b,
       rg_tag_limit := (case cr_tag_limit b of None \<Rightarrow> DefaultTagLimit | Some n \<Rightarrow> n),
       rg_tag_order := tagOrderFromAPI (cr_tag_order b), rg_max_tag_age_days := cr_max_tag_age b\<rparr>"

definition PreviewRegistryConfig ::
    "api_conf \<Rightarrow> 'u walk_env \<Rightarrow> create_params \<Rightarrow> ('u, RegistryPreview response) walk_m" where
  "PreviewRegistryConfig C e b =
     (case resolve_url C (cr_type b) (cr_url b) (cr_insecure b) of
        Inl err \<Rightarrow> wret (Inl err)
      | Inr url \<Rightarrow>
          let reg = preview_of b url in
          (case ValidateScanScope (rg_tag_limit reg) (rg_tag_order reg) (rg_max_tag_age_days reg) (rg_tag_patterns reg) of
             Some err \<Rightarrow> wret (Inl (mapServiceError err))
           | None \<Rightarrow> previewRegistry e reg))"

definition GetRegistryPreview ::
    "reg_env \<Rightarrow> 'u walk_env \<Rightarrow> registry_db \<Rightarrow> string \<Rightarrow> ('u, RegistryPreview response) walk_m" where
  "GetRegistryPreview E e g sid =
     (case Registry_Get E (re_fault E 0) g sid of
        Inl err \<Rightarrow> wret (Inl (404, ''registry not found'')) | Inr reg \<Rightarrow> previewRegistry e reg)"

text \<open>The walk a scan request starts in the background, and the statistics it records. The name in the answer is
  printable ASCII without quotes and backslashes.\<close>

definition ad_hoc_walk ::
    "'u walk_env \<Rightarrow> (string \<Rightarrow> string list option) \<Rightarrow> bool \<Rightarrow> registry \<Rightarrow> ('u, (string \<times> walk_stats) option) walk_m" where
  "ad_hoc_walk e lister force reg =
     wbind (if force then WalkRegistryStats (ForceSubmitter e) reg []
            else WalkRegistryStats e reg (FetchKnownDigests lister (rg_id reg)))
       (\<lambda>(stats, err). wret (RecordWalk True reg stats))"

definition ScanRegistry ::
    "reg_env \<Rightarrow> 'u walk_env \<Rightarrow> bool \<Rightarrow> (string \<Rightarrow> string list option) \<Rightarrow> bool \<Rightarrow> registry_db \<Rightarrow> string \<Rightarrow>
     string response \<times> ('u, (string \<times> walk_stats) option) walk_m option" where
  "ScanRegistry E e submitter lister force g sid =
     (case Registry_Get E (re_fault E 0) g sid of
        Inl err \<Rightarrow> (Inl (404, ''registry not found''), None)
      | Inr reg \<Rightarrow>
          if \<not> submitter then (Inl (503, ''scanner not enabled''), None)
          else (Inr (''scan started for registry '' @ CHR 0x22 # rg_name reg @ [CHR 0x22]), Some (ad_hoc_walk e lister force reg)))"

text \<open>\<open>None\<close> for an anonymous probe.\<close>

definition probe_auth :: "string option \<Rightarrow> string option \<Rightarrow> http_auth" where
  "probe_auth username token =
     (if coalesce token = [] then NoAuth
      else BasicAuth (if coalesce username = [] then ''ocidex'' else coalesce username) (coalesce token))"

definition TestRegistryConnection ::
    "'u walk_env \<Rightarrow> string \<Rightarrow> bool \<Rightarrow> string option \<Rightarrow> string option \<Rightarrow> ('u, bool \<times> string) walk_m" where
  "TestRegistryConnection e url insecure username token =
     (let target = (if insecure then ''http'' else ''https'') @ ''://'' @ url @ ''/v2/'' in
      if \<not> we_url_ok e target then wret (False, ''invalid URL'')
      else wbind (base_round_trip e \<lparr>hr_method = ''GET'', hr_url = target, hr_accept = [],
                    hr_auth = probe_auth username token, hr_body = []\<rparr>)
             (\<lambda>r. wret (case r of
                Inl err \<Rightarrow> (False, we_error_text e err)
              | Inr resp \<Rightarrow> (hs_status resp = 200 \<or> hs_status resp = 401, ''HTTP '' @ FormatInt (hs_status resp)))))"

section \<open>Lookups by host\<close>

definition registryHost :: "string \<Rightarrow> string" where
  "registryHost rawURL =
     trim_suffix (case index_sub ''://'' rawURL of None \<Rightarrow> rawURL | Some i \<Rightarrow> drop (i + 3) rawURL) ''/''"

text \<open>30 seconds in nanoseconds.\<close>

definition resolverCacheTTL :: int where "resolverCacheTTL = 30000000000"

text \<open>A resolver's cache and the time it was filled.\<close>

type_synonym 'c host_cache = "((string \<times> 'c) list \<times> int) option"

definition stale :: "int \<Rightarrow> 'c host_cache \<Rightarrow> bool" where
  "stale now cache \<longleftrightarrow> (case cache of None \<Rightarrow> True | Some (m, fetched) \<Rightarrow> now - fetched > resolverCacheTTL)"

text \<open>One call: \<open>regs\<close> is what \<open>List\<close> answers for an administrator, \<open>entries\<close> what the loop stores of it, later
  entries over earlier ones. A failed listing answers \<open>None\<close> and keeps the old cache.\<close>

definition lookup_in ::
    "int \<Rightarrow> int \<Rightarrow> registry list result \<Rightarrow> (registry list \<Rightarrow> (string \<times> 'c) list) \<Rightarrow> 'c host_cache \<Rightarrow>
     (string \<rightharpoonup> 'c) option \<times> 'c host_cache" where
  "lookup_in now fetched regs entries cache =
     (if stale now cache then
        (case regs of
           Inl e \<Rightarrow> (None, cache)
         | Inr rs \<Rightarrow> (Some (map_of (rev (entries rs))), Some (rev (entries rs), fetched)))
      else (Some (map_of (fst (the cache))), cache))"

definition insecure_entries :: "registry list \<Rightarrow> (string \<times> bool) list" where
  "insecure_entries rs = map (\<lambda>r. (registryHost (rg_url r), rg_insecure r)) rs"

definition BuildInsecureHostLookup ::
    "int \<Rightarrow> int \<Rightarrow> registry list result \<Rightarrow> string \<Rightarrow> bool host_cache \<Rightarrow> bool \<times> bool host_cache" where
  "BuildInsecureHostLookup now fetched regs host cache =
     (case lookup_in now fetched regs insecure_entries cache of
        (None, cache') \<Rightarrow> (False, cache') | (Some m, cache') \<Rightarrow> (m host = Some True, cache'))"

definition credential_entries :: "registry list \<Rightarrow> (string \<times> string \<times> string) list" where
  "credential_entries rs =
     map (\<lambda>r. (registryHost (rg_url r), coalesce (rg_auth_username r), coalesce (rg_auth_token r))) (filter HasAuth rs)"

definition BuildCredentialLookup ::
    "int \<Rightarrow> int \<Rightarrow> registry list result \<Rightarrow> string \<Rightarrow> (string \<times> string) host_cache \<Rightarrow>
     (string \<times> string) \<times> (string \<times> string) host_cache" where
  "BuildCredentialLookup now fetched regs host cache =
     (case lookup_in now fetched regs credential_entries cache of
        (None, cache') \<Rightarrow> (([], []), cache')
      | (Some m, cache') \<Rightarrow> (case m host of None \<Rightarrow> ([], []) | Some c \<Rightarrow> c, cache'))"

record trust_config =
  tc_mode :: string
  tc_public_key :: string
  tc_identity :: string
  tc_issuer :: string

definition trust_none :: trust_config where
  "trust_none = \<lparr>tc_mode = ''none'', tc_public_key = [], tc_identity = [], tc_issuer = []\<rparr>"

definition trust_entries :: "registry list \<Rightarrow> (string \<times> trust_config) list" where
  "trust_entries rs =
     map (\<lambda>r. (rg_id r, \<lparr>tc_mode = rg_verification_mode r, tc_public_key = coalesce (rg_trust_public_key r),
                        tc_identity = coalesce (rg_trust_identity r), tc_issuer = coalesce (rg_trust_issuer r)\<rparr>)) rs"

text \<open>By the registry's id; the host is not used.\<close>

definition BuildTrustLookup ::
    "int \<Rightarrow> int \<Rightarrow> registry list result \<Rightarrow> uuid option \<Rightarrow> trust_config host_cache \<Rightarrow>
     trust_config \<times> trust_config host_cache" where
  "BuildTrustLookup now fetched regs registryID cache =
     (case lookup_in now fetched regs trust_entries cache of
        (None, cache') \<Rightarrow> (trust_none, cache')
      | (Some m, cache') \<Rightarrow>
          (case m (uuidToStr registryID) of
             Some cfg \<Rightarrow> if uuidToStr registryID \<noteq> [] \<and> tc_mode cfg \<noteq> [] then cfg else trust_none
           | None \<Rightarrow> trust_none, cache'))"

end
