(* ===== verification/RegistryReads.thy ===== *)
theory RegistryReads
  imports RegistryHooks RegistryFacts SbomApi
begin

text \<open>
  What a created registry reads back as, and how the create endpoint gets there: the lemmas the properties of the
  registry endpoints share.
\<close>

section \<open>Reading a row by its id\<close>

lemma join_registry_row: "join_registry g r = Some c \<Longrightarrow> rc_reg c = r"
  by (auto simp: join_registry_def split: option.splits)

lemma filter_joined:
  "filter (\<lambda>c. rr_id (rc_reg c) = i) (joined g) =
   List.map_filter (join_registry g) (filter (\<lambda>r. rr_id r = i) (gd_registries g))"
proof -
  have "filter (\<lambda>c. rr_id (rc_reg c) = i) (List.map_filter (join_registry g) rs) =
      List.map_filter (join_registry g) (filter (\<lambda>r. rr_id r = i) rs)" for rs
    by (induction rs) (auto simp: map_filter_simps split: option.splits dest: join_registry_row)
  then show ?thesis by (simp add: joined_def)
qed

lemma CreateRegistryRow_cases:
  assumes "CreateRegistryRow flt now arg name vis ns owner g = (Inr row, g')"
  shows "\<exists>n d src. mint_namespace now (rr_id arg) name vis ns owner (gd_ns g) = Inr (n, d) \<and>
    g' = g\<lparr>gd_ns := d, gd_sources := gd_sources g @ [src], gd_registries := gd_registries g @ [row]\<rparr> \<and>
    sr_id src = rr_id arg \<and> sr_namespace src = n \<and> sr_name src = name \<and> sr_kind src = SourceKindOCIRegistry \<and>
    row = new_registry_row now arg \<and> find (\<lambda>s. sr_id s = rr_id arg) (gd_sources g) = None \<and>
    filter (\<lambda>r. rr_id r = rr_id arg) (gd_registries g) = [] \<and> list_ex (\<lambda>k. ns_id k = n) (namespaces d)"
  using assms
  by (cases flt)
    (auto simp: CreateRegistryRow_def CreateSourceRow_def Let_def new_registry_row_def find_None_iff list_ex_iff
      filter_empty_conv split: sum.splits if_splits prod.splits)

lemma CreateRegistryRow_get:
  assumes "CreateRegistryRow flt now arg name vis ns owner g = (Inr row, g')"
  shows "\<exists>n vis'. GetRegistryRow None g' (rr_id arg) =
    Inr \<lparr>rc_reg = row, rc_name = name, rc_namespace = Some n, rc_visibility = vis'\<rparr>"
proof -
  obtain n d src where c: "g' = g\<lparr>gd_ns := d, gd_sources := gd_sources g @ [src], gd_registries := gd_registries g @ [row]\<rparr>"
    "sr_id src = rr_id arg" "sr_namespace src = n" "sr_name src = name" "row = new_registry_row now arg"
    "find (\<lambda>s. sr_id s = rr_id arg) (gd_sources g) = None" "filter (\<lambda>r. rr_id r = rr_id arg) (gd_registries g) = []"
    "list_ex (\<lambda>k. ns_id k = n) (namespaces d)"
    using CreateRegistryRow_cases [OF assms] by blast
  obtain k where k: "find (\<lambda>k. ns_id k = n) (namespaces d) = Some k"
    using c(8) by (cases "find (\<lambda>k. ns_id k = n) (namespaces d)") (auto simp: find_None_iff list_ex_iff)
  then have "ns_id k = n" by (auto dest: find_SomeD)
  moreover have "rr_id row = rr_id arg" by (simp add: c(5) new_registry_row_def)
  ultimately have "filter (\<lambda>c. rr_id (rc_reg c) = rr_id arg) (joined g') =
      [\<lparr>rc_reg = row, rc_name = name, rc_namespace = Some n, rc_visibility = ns_visibility k\<rparr>]"
    unfolding filter_joined
    by (simp add: c(1,2,3,4,6,7) find_snoc join_registry_def map_filter_simps k)
  then show ?thesis by (simp add: GetRegistryRow_def first_row_def)
qed

section \<open>Sealing and opening\<close>

text \<open>Without keys, a text that looks encrypted does not survive storage.\<close>

definition storable :: "box option \<Rightarrow> string option \<Rightarrow> bool" where
  "storable b v \<longleftrightarrow> b = None \<longrightarrow> \<not> IsEncrypted (coalesce v)"

lemma IsEncrypted_Nil [simp]: "\<not> IsEncrypted []"
  by (simp add: IsEncrypted_def Prefix_def)

lemma open_sealed:
  assumes "ring_ok b" and "nonce_fits b (nonce column)" and "storable b v"
    and "sealCredential b nonce column i v = Inr st"
  shows "open_column b column i st = Inr v"
proof (cases v)
  case None
  with assms(4) show ?thesis by (simp add: sealCredential_def open_column_def)
next
  case (Some s)
  show ?thesis
  proof (cases "s = []")
    case True
    with Some assms(4) have "st = Some []" by (simp add: sealCredential_def)
    with Some True show ?thesis
      by (simp add: open_column_def openCredential_def box_open_def Decrypt_plain)
  next
    case False
    then obtain t where t: "st = Some t" "Encrypt b (nonce column) s (registryAAD column i) = Inr t"
      using Some assms(4) by (auto simp: sealCredential_def split: sum.splits)
    have "map_sum id fst (Decrypt b t (registryAAD column i)) = Inr s"
    proof (cases b)
      case None
      with t(2) Some assms(3) show ?thesis by (simp add: Encrypt_def storable_def coalesce_def Decrypt_plain)
    next
      case Some
      then show ?thesis using Encrypt_Decrypt_same [OF assms(1,2) t(2)] by simp
    qed
    then show ?thesis using t(1) Some by (simp add: open_column_def openCredential_def box_open_def)
  qed
qed

text \<open>What reading a fresh registry gives: the answer of the call, in the namespace it went to.\<close>

lemma insert_registry_get:
  assumes "insert_registry E p vis mode lim ns g = (Inr reg, g')"
    and "ring_ok (re_box E)" and "\<And>column. nonce_fits (re_box E) (re_nonce E column)"
    and "storable (re_box E) (cr_webhook_secret p)" and "storable (re_box E) (cr_auth_token p)"
    and "re_box W = re_box E" and "re_parse W sid = Some (re_id E)"
  shows "rg_id reg = uuid_str (re_id E) \<and> rg_webhook_secret reg = cr_webhook_secret p \<and>
    rg_auth_token reg = cr_auth_token p \<and> rg_enabled reg \<and> rg_scan_mode reg = cr_scan_mode p \<and>
    (\<exists>n vis'. Registry_Get W None g' sid = Inr (reg\<lparr>rg_namespace_id := uuid_str n, rg_visibility := vis'\<rparr>))"
proof -
  obtain secret token row where s: "sealCredential (re_box E) (re_nonce E) colWebhookSecret (uuid_str (re_id E)) (cr_webhook_secret p) = Inr secret"
    "sealCredential (re_box E) (re_nonce E) colAuthToken (uuid_str (re_id E)) (cr_auth_token p) = Inr token"
    and row: "CreateRegistryRow (re_fault E 2) (re_now E) (create_row (re_id E) p mode lim secret token)
                  (cr_name p) vis ns (cr_creator p) g = (Inr row, g')"
    and reg: "toDomain E \<lparr>rc_reg = row, rc_name = cr_name p, rc_namespace = ns, rc_visibility = vis\<rparr> = Inr reg"
    using assms(1)
    by (auto simp: insert_registry_def bind_result_Inr_iff split: sum.splits prod.splits)
  note open_secret = open_sealed [OF assms(2,3,4) s(1)] and open_token = open_sealed [OF assms(2,3,5) s(2)]
  have r: "row = new_registry_row (re_now E) (create_row (re_id E) p mode lim secret token)"
    using CreateRegistryRow_cases [OF row] by blast
  obtain n vis' where get: "GetRegistryRow None g' (re_id E) =
      Inr \<lparr>rc_reg = row, rc_name = cr_name p, rc_namespace = Some n, rc_visibility = vis'\<rparr>"
    using CreateRegistryRow_get [OF row] by (auto simp: create_row_def)
  have opens: "toDomain E' \<lparr>rc_reg = row, rc_name = cr_name p, rc_namespace = k, rc_visibility = v\<rparr> =
      Inr ((fromRepo \<lparr>rc_reg = row, rc_name = cr_name p, rc_namespace = k, rc_visibility = v\<rparr>)
        \<lparr>rg_auth_token := cr_auth_token p, rg_webhook_secret := cr_webhook_secret p\<rparr>)" if "re_box E' = re_box E" for k v E'
    using open_secret open_token that
    by (simp add: toDomain_def decryptCredentials_def fromRepo_def r new_registry_row_def create_row_def Let_def)
  have "Registry_Get W None g' sid = Inr (reg\<lparr>rg_namespace_id := uuid_str n, rg_visibility := vis'\<rparr>)"
    using reg opens [OF refl] opens [OF assms(6)] by (simp add: Registry_Get_def assms(7) get) (auto simp: fromRepo_def Let_def)
  then show ?thesis
    using reg opens [OF refl] by (auto simp: fromRepo_def Let_def r new_registry_row_def create_row_def)
qed

section \<open>The create endpoint\<close>

lemma Registry_Create_insert:
  assumes "Registry_Create E p g = (Inr reg, g')"
  shows "\<exists>vis mode lim ns g1. resolveNamespace E p vis g = (Inr ns, g1) \<and>
    insert_registry E p vis mode lim ns g1 = (Inr reg, g')"
  using assms unfolding Registry_Create_def Let_def by (auto split: option.splits sum.splits prod.splits) blast+

lemma authorize_create_Inr:
  assumes "authorize_create E C u p g = Inr p'" and "cr_namespace_id p = []"
  shows "p' = p\<lparr>cr_namespace_id := cr_namespace_id p'\<rparr>"
    and "cr_namespace_id p' = [] \<Longrightarrow> requireNamespaceCreation (ap_restricted C) u = None"
    and "cr_namespace_id p' \<noteq> [] \<Longrightarrow> \<exists>n. cr_namespace_id p' = uuid_str n \<and> can u (uuid_str n) CapManageSource"
proof -
  show "p' = p\<lparr>cr_namespace_id := cr_namespace_id p'\<rparr>"
  proof (cases "cr_namespace p = []")
    case True
    with assms have "p' = p" by (auto simp: authorize_create_def split: option.splits if_splits)
    with assms(2) show ?thesis by (cases p) simp
  next
    case False
    with assms obtain i where "p' = p\<lparr>cr_namespace_id := i\<rparr>"
      by (cases "authorizeExistingNamespace (re_fault E 0) (gd_ns g) u (cr_namespace p) CapManageSource")
        (auto simp: authorize_create_def split: option.splits if_splits)
    then show ?thesis by simp
  qed
  show "cr_namespace_id p' = [] \<Longrightarrow> requireNamespaceCreation (ap_restricted C) u = None"
    using assms by (cases "requireNamespaceCreation (ap_restricted C) u") (auto simp: authorize_create_def bind_result_Inr_iff split: option.splits if_splits)
  show "cr_namespace_id p' \<noteq> [] \<Longrightarrow> \<exists>n. cr_namespace_id p' = uuid_str n \<and> can u (uuid_str n) CapManageSource"
  proof -
    assume ne: "cr_namespace_id p' \<noteq> []"
    with assms obtain i where "authorizeExistingNamespace (re_fault E 0) (gd_ns g) u (cr_namespace p) CapManageSource = Inr i"
      "cr_namespace_id p' = i"
      by (cases "authorizeExistingNamespace (re_fault E 0) (gd_ns g) u (cr_namespace p) CapManageSource";
          cases "requireNamespaceCreation (ap_restricted C) u")
        (auto simp: authorize_create_def split: if_splits)
    with ne show ?thesis
      by (auto simp: authorizeExistingNamespace_def Namespace_GetByName_def namespaceFromRepo_def
          split: sum.splits if_splits prod.splits)
  qed
qed

lemma createRegistry_Inr:
  assumes "createRegistry E C conc u p g = (Inr reg, g')"
  shows "\<exists>k g0 g1 p'. authorize_create (nth_call E k) C u p g0 = Inr p' \<and>
    Registry_Create (nth_call E (k + 1)) p' g1 = (Inr reg, g')"
proof -
  have attempt: "\<exists>g1 p'. authorize_create (nth_call E k) C u p g0 = Inr p' \<and>
      Registry_Create (nth_call E (k + 1)) p' g1 = (Inr reg, g')"
    if "create_attempt E C cf k u p g0 = (Inr (Inr reg), g')" for cf k g0
    using that by (auto simp: create_attempt_def split: sum.splits prod.splits)
  have "\<exists>cf k g0. create_attempt E C cf k u p g0 = (Inr (Inr reg), g')"
    using assms unfolding createRegistry_def by (auto split: sum.splits prod.splits if_splits)
  then show ?thesis using attempt by blast
qed

end
