(* ===== verification/RegistryAccess.thy ===== *)
theory RegistryAccess
  imports RegistryReads
begin

text \<open>
  Who reaches what through the registry endpoints: where a created registry lands, the webhook its generated secret
  opens, and three places where the endpoints do more, or less, than they mean to.
\<close>

section \<open>Creating\<close>

lemma resolveNamespace_Inr:
  assumes "resolveNamespace E p vis g = (Inr ns, g')"
  shows "(cr_namespace_id p \<noteq> [] \<longrightarrow> ns \<noteq> None \<and> re_parse E (cr_namespace_id p) = ns \<and> g' = g) \<and>
    (cr_namespace_id p = [] \<longrightarrow> ns = None \<or> ns = Some (re_ns_id E) \<and>
       (\<forall>v. cr_creator p = Some v \<longrightarrow> has_owner (gd_ns g') (re_ns_id E) v))"
proof -
  have "ns_id row = re_ns_id E \<and> (\<forall>v. cr_creator p = Some v \<longrightarrow> has_owner d (re_ns_id E) v)"
    if "CreateNamespaceRow (re_fault E 1) (reg_env.re_now E) (re_ns_id E) (gd_ns g) (cr_namespace p) vis (cr_creator p) = Inr (row, d)"
    for row d
    using CreateNamespaceRow_cases [OF that] by (auto simp: has_owner_def)
  then show ?thesis
    using assms
    by (cases "cr_namespace_id p = []"; cases "re_parse E (cr_namespace_id p)"; cases ns)
      (auto simp: resolveNamespace_def split: sum.splits if_splits prod.splits)
qed

lemma mint_namespace_Inr:
  assumes "mint_namespace now i name vis ns owner d = Inr (n, d')"
  shows "(case ns of Some k \<Rightarrow> n = k \<and> d' = d | None \<Rightarrow> n = i \<and> (\<forall>v. owner = Some v \<longrightarrow> has_owner d' i v))"
  using assms CreateNamespaceRow_cases [of None now i d name vis owner]
  by (auto simp: mint_namespace_def has_owner_def split: option.splits sum.splits prod.splits)

lemma CreateRegistryRow_owner:
  assumes "CreateRegistryRow flt now arg name vis ns owner g = (Inr row, g')" and "has_owner (gd_ns g) n v"
  shows "has_owner (gd_ns g') n v"
proof -
  obtain k d where k: "mint_namespace now (rr_id arg) name vis ns owner (gd_ns g) = Inr (k, d)" and d: "gd_ns g' = d"
    using CreateRegistryRow_cases [OF assms(1)] by auto
  have "has_owner d n v"
  proof (cases ns)
    case None
    then obtain m where "CreateNamespaceRow None now (rr_id arg) (gd_ns g) name vis owner = Inr (m, d)"
      using k by (auto simp: mint_namespace_def split: sum.splits)
    from CreateNamespaceRow_cases(5) [OF this] assms(2) show ?thesis by (simp add: has_owner_def) blast
  next
    case Some
    with k assms(2) show ?thesis by (simp add: mint_namespace_def)
  qed
  with d show ?thesis by simp
qed

text \<open>C9: A registry created over HTTP lands in a namespace where its caller holds \<open>manage_source\<close>, or in one that
  the same request made and whose owner is the caller, which the installation lets them do. What other requests
  commit between the lookup of the named namespace and the creation, and between the two attempts, does not
  matter.\<close>

theorem created_registry_lands_where_allowed:
  assumes "route_create_registry E C conc b (Some u) g = (Inr answer, g')" and "parses_printed (re_parse E)"
  shows "isWriteAllowed u \<and> (\<exists>s \<in> set (gd_sources g'). sr_id s = re_id E \<and> sr_kind s = SourceKindOCIRegistry \<and>
    (can u (uuid_str (sr_namespace s)) CapManageSource \<or>
     sr_namespace s \<in> {re_id E, re_ns_id E} \<and> requireNamespaceCreation (ap_restricted C) u = None \<and>
     (\<forall>v. au_id u = Some v \<longrightarrow> has_owner (gd_ns g') (sr_namespace s) v)))"
proof -
  have pass: "isWriteAllowed u" and run: "CreateRegistry_handler E C conc b (Some u) g = (Inr answer, g')"
    using assms(1) by (auto simp: route_create_registry_def behind_def RequireAuthenticated_def RequireWrite_def split: if_splits)
  then obtain p generated reg where p: "complete_create C u b = Inr (p, generated)"
    and reg: "createRegistry E C conc u p g = (Inr reg, g')"
    by (auto simp: CreateRegistry_handler_def split: sum.splits prod.splits)
  have creator: "cr_creator p = au_id u" "cr_namespace_id p = []"
    using p by (auto simp: complete_create_def bind_result_Inr_iff Let_def split: option.splits)
  obtain k g0 g1 p' where auth: "authorize_create (nth_call E k) C u p g0 = Inr p'"
    and create: "Registry_Create (nth_call E (k + 1)) p' g1 = (Inr reg, g')"
    using createRegistry_Inr [OF reg] by blast
  note a = authorize_create_Inr [OF auth creator(2)]
  obtain vis mode lim ns g2 where res: "resolveNamespace (nth_call E (k + 1)) p' vis g1 = (Inr ns, g2)"
    and ins: "insert_registry (nth_call E (k + 1)) p' vis mode lim ns g2 = (Inr reg, g')"
    using Registry_Create_insert [OF create] by blast
  obtain row flt arg where row: "CreateRegistryRow flt (reg_env.re_now E) arg (cr_name p') vis ns (cr_creator p') g2 = (Inr row, g')"
    and arg: "rr_id arg = re_id E"
    using ins by (auto simp: insert_registry_def create_row_def split: sum.splits prod.splits)
  obtain n d src where c: "mint_namespace (reg_env.re_now E) (rr_id arg) (cr_name p') vis ns (cr_creator p') (gd_ns g2) = Inr (n, d)"
    "gd_ns g' = d" "src \<in> set (gd_sources g')" "sr_id src = re_id E" "sr_namespace src = n" "sr_kind src = SourceKindOCIRegistry"
    using CreateRegistryRow_cases [OF row] arg by fastforce
  note m = mint_namespace_Inr [OF c(1)] and r = resolveNamespace_Inr [OF res]
  have creator': "cr_creator p' = au_id u" using arg_cong [OF a(1), of cr_creator] creator(1) by simp
  have "can u (uuid_str n) CapManageSource \<or>
     n \<in> {re_id E, re_ns_id E} \<and> requireNamespaceCreation (ap_restricted C) u = None \<and>
     (\<forall>v. au_id u = Some v \<longrightarrow> has_owner d n v)"
  proof (cases "cr_namespace_id p' = []")
    case True
    have "n \<in> {re_id E, re_ns_id E} \<and> (\<forall>v. au_id u = Some v \<longrightarrow> has_owner d n v)"
    proof (cases ns)
      case None
      with m creator' arg show ?thesis by simp
    next
      case (Some j)
      with r True have "j = re_ns_id E" "\<And>v. au_id u = Some v \<Longrightarrow> has_owner (gd_ns g2) j v" using creator' by auto
      with m Some CreateRegistryRow_owner [OF row] c(2) show ?thesis by auto
    qed
    with a(2) True show ?thesis by blast
  next
    case False
    then obtain j where j: "cr_namespace_id p' = uuid_str j" "can u (uuid_str j) CapManageSource" using a(3) by blast
    with False r assms(2) have "ns = Some j" by (simp add: parses_printed_def)
    with m j show ?thesis by simp
  qed
  then show ?thesis
    using pass c(2,3,4,6) unfolding c(5) [symmetric] by (intro conjI bexI [of _ src]) simp_all
qed

section \<open>The webhook\<close>

lemma complete_create_secret:
  assumes "complete_create C u b = Inr (p, secret)" and "secret \<noteq> []"
  shows "cr_webhook_secret p = Some secret \<and> (cr_scan_mode p = ''webhook'' \<or> cr_scan_mode p = ''both'') \<and>
    cr_auth_token p = cr_auth_token b \<and> cr_namespace_id p = [] \<and> (\<exists>r. secret = EncodeToString r)"
proof -
  obtain mode sec where p: "ensureWebhookSecret C mode (cr_webhook_secret b) = Inr (sec, secret)"
    "cr_webhook_secret p = sec" "cr_scan_mode p = mode" "cr_auth_token p = cr_auth_token b" "cr_namespace_id p = []"
    using assms(1) unfolding complete_create_def Let_def bind_result_Inr_iff
    by (auto split: option.splits prod.splits)
  then show ?thesis
    using assms(2)
    by (cases "ap_random C")
      (auto simp: ensureWebhookSecret_def generateWebhookSecret_def scanModeWebhook_def scanModeBoth_def split: if_splits)
qed

lemma hex_nibble_plain: "n < 16 \<Longrightarrow> hex_nibble n \<noteq> CHR ''n''"
  by (auto simp: of_char_of dest!: arg_cong [of _ _ byte_of])

lemma hex_not_encrypted: "\<not> IsEncrypted (EncodeToString s)"
proof (cases s)
  case (Cons c cs)
  have "hex_nibble (byte_of c mod 16) \<noteq> CHR ''n''" by (rule hex_nibble_plain) simp
  then show ?thesis by (simp add: Cons IsEncrypted_def Prefix_def del: hex_nibble.simps)
qed simp

text \<open>C20: The secret that creating a registry generates and shows once is the one its webhook takes: with it a push
  goes to the scanner's filters, under the credentials the body gave; with any other bearer token it is answered
  401 and nothing happens.\<close>

theorem generated_secret_opens_webhook:
  assumes "route_create_registry E C conc b (Some u) g = (Inr (resp, secret), g')" and "secret \<noteq> []"
    and "ring_ok (re_box E)" and "\<And>column. nonce_fits (re_box E) (re_nonce E column)"
    and "storable (re_box E) (cr_auth_token b)" and "parses_printed (re_parse W)" and "re_box W = re_box E"
    and "re_fault W 0 = None"
  shows "\<exists>reg. rg_id reg = rp_id resp \<and> rg_auth_token reg = cr_auth_token b \<and>
    HandleRegistryWebhook W e submitter g' (rp_id resp) ev =
      (if trim_prefix (pe_authorization ev) ''Bearer '' = secret then scan_push e submitter reg ev
       else wret (Inl (401, ''invalid webhook secret'')))"
proof -
  have run: "CreateRegistry_handler E C conc b (Some u) g = (Inr (resp, secret), g')"
    using assms(1) by (auto simp: route_create_registry_def behind_def split: option.splits)
  then obtain p reg where p: "complete_create C u b = Inr (p, secret)"
    and reg: "createRegistry E C conc u p g = (Inr reg, g')" and resp: "resp = toRegistryResponse C reg"
    by (auto simp: CreateRegistry_handler_def split: sum.splits prod.splits)
  have facts: "cr_webhook_secret p = Some secret" "cr_scan_mode p = ''webhook'' \<or> cr_scan_mode p = ''both''"
    "cr_auth_token p = cr_auth_token b" "cr_namespace_id p = []" "\<exists>r. secret = EncodeToString r"
    using complete_create_secret [OF p assms(2)] by blast+
  obtain k g0 g1 p' where auth: "authorize_create (nth_call E k) C u p g0 = Inr p'"
    and create: "Registry_Create (nth_call E (k + 1)) p' g1 = (Inr reg, g')"
    using createRegistry_Inr [OF reg] by blast
  have p': "cr_webhook_secret p' = Some secret" "cr_scan_mode p' = cr_scan_mode p" "cr_auth_token p' = cr_auth_token b"
    using arg_cong [OF authorize_create_Inr(1) [OF auth facts(4)], of cr_webhook_secret] facts(1,3)
      arg_cong [OF authorize_create_Inr(1) [OF auth facts(4)], of cr_scan_mode]
      arg_cong [OF authorize_create_Inr(1) [OF auth facts(4)], of cr_auth_token] by simp_all
  obtain vis mode lim ns g2 where ins: "insert_registry (nth_call E (k + 1)) p' vis mode lim ns g2 = (Inr reg, g')"
    using Registry_Create_insert [OF create] by blast
  have "storable (re_box E) (Some secret)" using facts(5) hex_not_encrypted by (auto simp: storable_def coalesce_def)
  then obtain n vis' where get: "Registry_Get W None g' (uuid_str (re_id E)) = Inr (reg\<lparr>rg_namespace_id := uuid_str n, rg_visibility := vis'\<rparr>)"
    and r: "rg_id reg = uuid_str (re_id E)" "rg_webhook_secret reg = Some secret" "rg_auth_token reg = cr_auth_token b"
      "rg_enabled reg" "rg_scan_mode reg = cr_scan_mode p"
    using insert_registry_get [OF ins, of W "uuid_str (re_id E)"] assms(3-8) p'
    by (auto simp: parses_printed_def)
  let ?reg = "reg\<lparr>rg_namespace_id := uuid_str n, rg_visibility := vis'\<rparr>"
  have "HandleRegistryWebhook W e submitter g' (rp_id resp) ev =
      (if trim_prefix (pe_authorization ev) ''Bearer '' = secret then scan_push e submitter ?reg ev
       else wret (Inl (401, ''invalid webhook secret'')))"
    using facts(2) assms(2,8) r
    by (auto simp: HandleRegistryWebhook_def resp toRegistryResponse_def get AcceptsWebhooks_def)
  then show ?thesis using r by (intro exI [of _ ?reg]) (simp add: resp toRegistryResponse_def)
qed

section \<open>Updating after a move\<close>

lemma rename_namespace_row:
  assumes "rename_namespace now i name vis d = Inr d'" and "i \<in> ns_ids d"
  shows "\<exists>n \<in> set (namespaces d'). ns_id n = i \<and> ns_name n = name \<and> ns_visibility n = vis"
    and "\<And>n. n \<in> set (namespaces d') \<Longrightarrow> ns_id n \<noteq> i \<Longrightarrow> n \<in> set (namespaces d)"
proof -
  from assms have "\<exists>row. UpdateNamespaceRow None now d i name vis = Inr (row, d')"
    by (cases "UpdateNamespaceRow None now d i name vis")
      (auto simp: rename_namespace_def list_ex_iff split: if_splits)
  then have d': "d' = d\<lparr>namespaces := map (\<lambda>k. if ns_id k = i then k\<lparr>ns_name := name, ns_visibility := vis, ns_updated := now\<rparr> else k)
      (namespaces d)\<rparr>"
    by (auto simp: UpdateNamespaceRow_def Let_def split: option.splits if_splits)
  show "\<exists>n \<in> set (namespaces d'). ns_id n = i \<and> ns_name n = name \<and> ns_visibility n = vis"
  proof -
    obtain x where "x \<in> set (namespaces d)" "ns_id x = i" using assms(2) by auto
    then show ?thesis
      by (intro bexI [of _ "x\<lparr>ns_name := name, ns_visibility := vis, ns_updated := now\<rparr>"]) (auto simp: d')
  qed
  show "\<And>n. n \<in> set (namespaces d') \<Longrightarrow> ns_id n \<noteq> i \<Longrightarrow> n \<in> set (namespaces d)"
    by (auto simp: d' split: if_splits)
qed

text \<open>C39: A registry that was given a namespace of its own keeps writing to it after it has moved away. An update
  through the endpoint, by a caller who holds \<open>manage_source\<close> where the registry is now, renames the namespace it
  left and gives it the visibility asked for the registry; the namespace the registry is in stays as it was, while
  the answer shows the new visibility.\<close>

theorem update_writes_former_namespace:
  assumes "route_update_registry E C sid b None (Some u) g = (Inr resp, g')" and "re_parse E sid = Some i"
    and "find (\<lambda>s. sr_id s = i) (gd_sources g) = Some s" and "sr_namespace s \<noteq> i" and "i \<in> ns_ids (gd_ns g)"
    and "up_visibility b \<noteq> []"
  shows "(\<exists>n \<in> set (namespaces (gd_ns g')). ns_id n = i \<and> ns_name n = up_name b \<and> ns_visibility n = up_visibility b) \<and>
    (\<forall>n \<in> set (namespaces (gd_ns g')). ns_id n = sr_namespace s \<longrightarrow> n \<in> set (namespaces (gd_ns g))) \<and>
    rp_visibility resp = up_visibility b"
proof -
  have run: "UpdateRegistry_handler E C sid b None (Some u) g = (Inr resp, g')"
    using assms(1) by (auto simp: route_update_registry_def guarded_def behind_def split: option.splits)
  then obtain existing p reg where p: "complete_update C sid b existing = Inr p"
    and upd: "Registry_Update (nth_call E 2) p g = (Inr reg, g')" and resp: "resp = toRegistryResponse C reg"
    by (auto simp: UpdateRegistry_handler_def applyNamespaceMove_def coalesce_def split: sum.splits prod.splits)
  have p': "up_id p = sid" "up_name p = up_name b" "up_visibility p = up_visibility b"
    using p assms(6) by (auto simp: complete_update_def bind_result_Inr_iff split: option.splits)
  obtain row existing' where w: "write_update (nth_call E 2) i p row existing' g = (Inr reg, g')"
    using upd assms(2) p'(1) by (auto simp: Registry_Update_def split: option.splits sum.splits)
  then obtain arg r where stmt: "UpdateRegistryRow (re_fault E 21) (reg_env.re_now E) arg (up_name p) (up_visibility b) g = (Inr r, g')"
    and arg: "rr_id arg = i" and reg: "toDomain (nth_call E 2) \<lparr>rc_reg = r, rc_name = up_name p, rc_namespace = rc_namespace row,
      rc_visibility = up_visibility b\<rparr> = Inr reg"
    using p' assms(6) by (auto simp: write_update_def update_row_def Let_def split: sum.splits prod.splits)
  obtain d where d: "rename_namespace (reg_env.re_now E) i (up_name p) (up_visibility b) (gd_ns g) = Inr d" "gd_ns g' = d"
    using stmt arg by (cases "re_fault E 21") (auto simp: UpdateRegistryRow_def split: sum.splits option.splits if_splits)
  have "rg_visibility reg = up_visibility b"
    using reg by (auto simp: toDomain_def decryptCredentials_def bind_result_Inr_iff fromRepo_def Let_def)
  then show ?thesis
    using rename_namespace_row [OF d(1) assms(5)] assms(4) d(2) p'(2) by (auto simp: resp toRegistryResponse_def)
qed

section \<open>A credential that cannot be read\<close>

lemma toDomainAll_Inl: "c \<in> set cs \<Longrightarrow> isl (toDomain E c) \<Longrightarrow> isl (toDomainAll E cs)"
proof (induction cs)
  case (Cons a cs)
  then show ?case by (cases "toDomain E a"; cases "toDomainAll E cs") auto
qed simp

lemma toDomain_box: "re_box E' = re_box E \<Longrightarrow> toDomain E' c = toDomain E c"
  by (simp add: toDomain_def)

text \<open>C40: Once one of a registry's credentials cannot be opened (a retired key, a changed row), the registry is out of
  reach: reading, updating, deleting it and drawing a new secret all answer 404 and change nothing, so the
  credential cannot be entered again; and the poller's listing and every viewer's listing that would show it fail
  whole.\<close>

theorem unreadable_credential_locks_registry:
  assumes "re_parse E sid = Some i" and "GetRegistryRow None g i = Inr c" and "toDomain E c = Inl err"
    and "\<And>k. re_fault E k = None"
  shows "route_update_registry E C sid b ns (Some u) g = (Inl (404, ''not found''), g) \<and>
    route_delete_registry E sid (Some u) g = (Inl (404, ''not found''), g) \<and>
    route_regenerate_secret E C sid (Some u) g = (Inl (404, ''not found''), g) \<and>
    GetRegistry_handler E C g (Some u) sid = Inl (404, ''registry not found'') \<and>
    (in_namespaces (visible_namespace_ids (gd_ns g) (vf_user_id f) (vf_is_admin f)) c \<longrightarrow> isl (Registry_List E None g f)) \<and>
    (rr_enabled (rc_reg c) \<and> rr_scan_mode (rc_reg c) \<in> {''poll'', ''both''} \<longrightarrow> isl (ListPollable E None g))"
proof -
  have get: "Registry_Get (nth_call E k) None g sid = Inl err" "Registry_Get E None g sid = Inl err" for k
    using assms(1-3) toDomain_box [of "nth_call E k" E c] by (simp_all add: Registry_Get_def)
  have "c \<in> set (joined g)" using assms(2) by (auto simp: GetRegistryRow_def first_row_def filter_eq_Cons_iff split: list.splits)
  moreover have "isl (toDomain E c)" using assms(3) by simp
  ultimately have "in_namespaces (visible_namespace_ids (gd_ns g) (vf_user_id f) (vf_is_admin f)) c \<Longrightarrow> isl (Registry_List E None g f)"
    "rr_enabled (rc_reg c) \<and> rr_scan_mode (rc_reg c) \<in> {''poll'', ''both''} \<Longrightarrow> isl (ListPollable E None g)"
    using toDomainAll_Inl [of c _ E]
    by (auto simp: Registry_List_def ListRegistryRows_def by_created_def ListPollable_def ListPollableRegistries_def)
  then show ?thesis
    by (simp add: route_update_registry_def route_delete_registry_def route_regenerate_secret_def guarded_def behind_def
        registryNamespace_def get assms(4) RequireCapability_def GetRegistry_handler_def answer_registry_def)
qed

section \<open>Credentials by host\<close>

text \<open>The enrichment workers ask for credentials by host, and the lookup answers with those of the youngest
  registry on that host that has any, whatever namespace it is in: the credentials one tenant stores for a shared
  host are used for every tenant's images there.\<close>

theorem youngest_registry_lends_credentials:
  assumes "regs = older @ r # younger" and "HasAuth r" and "registryHost (rg_url r) = host"
    and "\<And>q. q \<in> set younger \<Longrightarrow> HasAuth q \<Longrightarrow> registryHost (rg_url q) \<noteq> host" and "stale now cache"
  shows "fst (BuildCredentialLookup now fetched (Inr regs) host cache) =
    (coalesce (rg_auth_username r), coalesce (rg_auth_token r))"
proof -
  have "map_of (rev (credential_entries younger)) host = None"
  proof -
    have "host \<notin> fst ` set (credential_entries younger)"
      using assms(4) by (force simp: credential_entries_def)
    then show ?thesis by (simp add: map_of_eq_None_iff)
  qed
  then show ?thesis
    using assms(1-3,5) by (simp add: map_add_def BuildCredentialLookup_def lookup_in_def credential_entries_def map_add_def)
qed

end
