(* ===== verification/RegistryDemo.thy ===== *)
theory RegistryDemo
  imports RegistryClaims RegistryAccess SbomGuards WalkDemo
begin

text \<open>
  Worked examples: two registries, a ring of one key, and callers; each is an instance at which a property of the
  registry service or its endpoints holds of a run that happens.
\<close>

section \<open>Registries\<close>

text \<open>Registry 5 was given the namespace 5 and has moved to namespace 6.\<close>

definition demo_row :: registry_row where
  "demo_row = \<lparr>rr_id = 5, rr_type = ''zot'', rr_url = ''r.example'', rr_insecure = False, rr_webhook_secret = None,
     rr_enabled = True, rr_created = 0, rr_updated = 0, rr_repository_patterns = [], rr_tag_patterns = [],
     rr_scan_mode = ''poll'', rr_poll_interval = 60, rr_last_polled = None, rr_repositories = [],
     rr_auth_username = None, rr_auth_token = Some ''t'', rr_include_untagged = False, rr_verification_mode = ''none'',
     rr_trust_public_key = None, rr_trust_identity = None, rr_trust_issuer = None, rr_managed_by = None,
     rr_managed_ref = None, rr_tag_limit = 50, rr_tag_order = None, rr_max_tag_age = None, rr_last_walk = None\<rparr>"

definition demo_ns :: "uuid \<Rightarrow> string \<Rightarrow> ns_row" where
  "demo_ns i name = \<lparr>ns_id = i, ns_name = name, ns_visibility = ''private'', ns_created = 0, ns_updated = 0\<rparr>"

definition demo_oci :: "uuid \<Rightarrow> source_row" where
  "demo_oci ns = \<lparr>sr_id = 5, sr_namespace = ns, sr_kind = SourceKindOCIRegistry, sr_name = ''zot'', sr_created = 0,
     sr_updated = 0\<rparr>"

definition demo_registries :: "uuid \<Rightarrow> registry_db" where
  "demo_registries ns = \<lparr>gd_ns = \<lparr>namespaces = [demo_ns 5 ''zot'', demo_ns 6 ''acme''], members = [], users = []\<rparr>,
     gd_sources = [demo_oci ns], gd_registries = [demo_row], gd_windows = [], gd_sboms = [], gd_artifact_ns = []\<rparr>"

lemmas demo_tables = demo_registries_def demo_row_def demo_oci_def demo_ns_def

lemma demo_registries_ok: "registry_ok (demo_registries 5)" "registry_ok (demo_registries 6)"
  by (simp_all add: registry_ok_def demo_tables db_ok_def sources_ok_def rows_ok_def windows_ok_def placed_ok_def
      registry_check_def oci_ids_def image_iff)

definition demo_reg_env :: reg_env where
  "demo_reg_env = \<lparr>re_parse = demo_parse, re_box = None, re_now = 1, re_fault = (\<lambda>k. None), re_id = 8, re_ns_id = 9,
     re_nonce = (\<lambda>column. Inr [])\<rparr>"

lemma demo_reg_env_simps [simp]:
  "re_parse demo_reg_env = demo_parse" "re_box demo_reg_env = None" "reg_env.re_now demo_reg_env = 1"
  "re_fault demo_reg_env k = None" "re_id demo_reg_env = 8" "re_ns_id demo_reg_env = 9"
  by (simp_all add: demo_reg_env_def)

lemma demo_parse_uuid [simp]: "demo_parse (uuid_str u) = Some u"
  using demo_parses by (simp add: parses_printed_def)

section \<open>The service\<close>

theorem registry_calls_keep_tables_witness:
  "registry_ok (registry_calls [(demo_reg_env, CallMove (uuid_str 5) (uuid_str 6)), (demo_reg_env, registry_call.CallDelete (uuid_str 5))]
     (demo_registries 5))"
  by (rule registry_calls_keep_tables [OF demo_registries_ok(1)])

lemma demo_move:
  "MoveNamespace demo_reg_env (uuid_str 5) (uuid_str 6) (demo_registries 5) = (Inr (), (demo_registries 6)\<lparr>gd_sources := [(demo_oci 6)\<lparr>sr_updated := 1\<rparr>]\<rparr>)"
  by (simp add: MoveNamespace_def GetSourceNamespace_def read_stmt_def in_registry_tx_def move_rows_def
      MoveSourceNamespace_def MoveSourceSBOMs_def LinkSourceArtifacts_def UnlinkEmptiedArtifacts_def run_stmt_def
      source_artifacts_def update_where_def count_where_def demo_tables)

theorem move_takes_sboms_along_witness:
  "\<exists>g'. MoveNamespace demo_reg_env (uuid_str 5) (uuid_str 6) (demo_registries 5) = (Inr (), g') \<and>
     gd_sources g' = moved_sources 1 5 6 [demo_oci 5]"
  using move_takes_sboms_along [OF demo_move, of 5 6] demo_move
  by (auto simp: demo_tables)

text \<open>A cipher of the right shape, though it hides nothing.\<close>

definition demo_aead :: aead where
  "demo_aead = \<lparr>ae_seal = (\<lambda>n p a. p), ae_open = (\<lambda>n c a. Some c), ae_nonce_size = 2, ae_overhead = 0\<rparr>"

definition demo_ring :: box where
  "demo_ring = \<lparr>bx_active = ''k'', bx_keys = [(''k'', demo_aead)]\<rparr>"

lemma demo_ring_ok: "box_ok demo_ring"
  by (simp add: box_ok_def demo_ring_def demo_aead_def aead_ok_def keyIDPattern_def key_id_char_def)

definition demo_pass :: "(nat \<Rightarrow> registry_db \<Rightarrow> registry_db) \<Rightarrow> pass_env" where
  "demo_pass conc = \<lparr>pe_box = Some demo_ring, pe_nonce = (\<lambda>i column. Inr ''nn''), pe_fault = (\<lambda>k. None), pe_conc = conc,
     pe_dry = False, pe_batch = 10\<rparr>"

lemma demo_pass_simps [simp]:
  "pe_box (demo_pass conc) = Some demo_ring" "pe_nonce (demo_pass conc) i column = Inr ''nn''"
  "pe_fault (demo_pass conc) k = None" "pe_conc (demo_pass conc) = conc" "\<not> pe_dry (demo_pass conc)"
  "pe_batch (demo_pass conc) = 10"
  by (simp_all add: demo_pass_def)

lemma demo_nonces: "nonces_drawn (demo_pass conc) demo_ring"
  by (simp add: nonces_drawn_def demo_ring_def demo_aead_def)

theorem encrypt_pass_seals_all_witness:
  "\<exists>res k g'. EncryptRegistrySecrets (demo_pass (\<lambda>k g. g)) 2 (demo_registries 5) = Returned (None, res, k, g') \<and>
     credentials (Some demo_ring) g' = credentials (Some demo_ring) (demo_registries 5)"
proof -
  have "quiet_pass (demo_pass (\<lambda>k g. g))" by (simp add: quiet_pass_def)
  moreover have "0 \<notin> rr_id ` set (gd_registries (demo_registries 5))" "length (gd_registries (demo_registries 5)) < 2"
    by (simp_all add: demo_tables)
  ultimately show ?thesis
    using encrypt_pass_seals_all [OF demo_ring_ok _ demo_nonces _ demo_registries_ok(1), of "\<lambda>k g. g" 2] by auto
qed

text \<open>Another transaction deletes the registry before the second statement of the pass.\<close>

definition demo_deletes :: "nat \<Rightarrow> registry_db \<Rightarrow> registry_db" where
  "demo_deletes k g = (if k = 1 then g\<lparr>gd_registries := []\<rparr> else g)"

theorem encrypt_pass_invisible_witness:
  "\<exists>err res k g'. EncryptRegistrySecrets (demo_pass demo_deletes) 2 (demo_registries 5) = Returned (err, res, k, g') \<and>
     credentials (Some demo_ring) g' = fold (\<lambda>k c. if k = 1 then [] else c) [0..<k] (credentials (Some demo_ring) (demo_registries 5))"
proof -
  let ?P = "demo_pass demo_deletes"
  have "\<exists>err res k g'. EncryptRegistrySecrets ?P 2 (demo_registries 5) = Returned (err, res, k, g')"
    by (simp add: EncryptRegistrySecrets_def numeral_2_eq_2 Let_def sort_by_def ListRegistrySecretsPage_def read_stmt_def page_def
        demo_deletes_def demo_tables split: prod.split option.split)
  then obtain err res k g' where run: "EncryptRegistrySecrets ?P 2 (demo_registries 5) = Returned (err, res, k, g')"
    by blast
  have "credentials (Some demo_ring) g' =
      fold (\<lambda>k c. if k = 1 then [] else c) [0..<k] (credentials (Some demo_ring) (demo_registries 5))"
    using encrypt_pass_invisible [OF _ _ _ run, of "\<lambda>k c. if k = 1 then [] else c"] demo_ring_ok
      nonces_drawn_fit [OF _ demo_nonces]
    by (simp add: ring_ok_def demo_deletes_def credentials_def)
  with run show ?thesis by blast
qed

section \<open>The endpoints\<close>

definition demo_conf :: api_conf where
  "demo_conf = \<lparr>ap_poller = True, ap_restricted = Some True, ap_egress = zero_policy,
     ap_parse_url = (\<lambda>s. Inr \<lparr>pu_user = False, pu_query = False, pu_fragment = [], pu_path = [], pu_hostname = ''r.example''\<rparr>),
     ap_random = Inr ''k'', ap_base_url = []\<rparr>"

definition demo_body :: create_params where
  "demo_body = \<lparr>cr_name = ''hub'', cr_type = ''zot'', cr_url = ''r.example'', cr_insecure = False, cr_webhook_secret = None,
     cr_repositories = [], cr_repository_patterns = [], cr_tag_patterns = [], cr_scan_mode = [], cr_poll_interval = 0,
     cr_auth_username = None, cr_auth_token = None, cr_creator = None, cr_visibility = [], cr_include_untagged = False,
     cr_verification_mode = [], cr_trust_public_key = None, cr_trust_identity = None, cr_trust_issuer = None,
     cr_managed_by = None, cr_managed_ref = None, cr_tag_limit = None, cr_tag_order = [], cr_max_tag_age = 0,
     cr_namespace = ''acme'', cr_namespace_id = []\<rparr>"

lemma acme_manages: "can acme_owner (uuid_str 6) CapManageSource"
  by (simp add: can_def acme_owner_def demo_user_def KeyAllows_def uuid_str_nonempty Allow_def Allows_def
      map_bool_of_list allCapabilities_def globalRoleAdmin_def globalRoleViewer_def)

lemma acme_writes: "isWriteAllowed acme_owner"
  by (simp add: isWriteAllowed_def KeyAllowsAnyWrite_def acme_owner_def demo_user_def)

lemma demo_no_address: "ParseAddr ''r.example'' = None"
  by code_simp

lemma demo_resolves_url: "resolve_url demo_conf ''zot'' ''r.example'' False = Inr ''r.example''"
  by (simp add: resolve_url_def typeFixedURL_def validateRegistryURL_def stripRegistryScheme_def demo_conf_def refuse_url_def
      demo_no_address)

lemma demo_completes:
  "complete_create demo_conf acme_owner demo_body =
     Inr (demo_body\<lparr>cr_scan_mode := ''webhook'', cr_webhook_secret := Some (EncodeToString ''k''), cr_poll_interval := 60,
            cr_visibility := ''public'', cr_verification_mode := ''none'', cr_creator := Some 1\<rparr>, EncodeToString ''k'')"
  using demo_resolves_url
  by (simp add: complete_create_def demo_body_def resolveRegistryType_def typeSupportsWebhook_def map_bool_of_list
      scanModeWebhook_def scanModePoll_def scanModeBoth_def ensureWebhookSecret_def coalesce_def generateWebhookSecret_def
      demo_conf_def validateVerificationConfig_def tagOrderFromAPI_def acme_owner_def demo_user_def)

lemma demo_creates:
  "\<exists>resp g'. route_create_registry demo_reg_env demo_conf (\<lambda>k g. g) demo_body (Some acme_owner) (demo_registries 6) =
     (Inr (resp, EncodeToString ''k''), g')"
proof -
  let ?p = "demo_body\<lparr>cr_scan_mode := ''webhook'', cr_webhook_secret := Some (EncodeToString ''k''), cr_poll_interval := 60,
            cr_visibility := ''public'', cr_verification_mode := ''none'', cr_creator := Some 1\<rparr>"
  have named: "authorize_create (nth_call demo_reg_env 0) demo_conf acme_owner ?p (demo_registries 6) =
      Inr (?p\<lparr>cr_namespace_id := uuid_str 6\<rparr>)"
    using acme_manages
    by (simp add: authorize_create_def authorizeExistingNamespace_def Namespace_GetByName_def GetNamespaceByName_def
        namespaceFromRepo_def demo_body_def demo_tables uuid_str_nonempty acme_owner_def demo_user_def)
  have "\<exists>reg g'. Registry_Create (nth_call demo_reg_env 1)
      (demo_body\<lparr>cr_scan_mode := ''webhook'', cr_webhook_secret := Some v, cr_poll_interval := 60, cr_visibility := ''public'',
         cr_verification_mode := ''none'', cr_creator := Some 1, cr_namespace_id := uuid_str 6\<rparr>) (demo_registries 6) =
      (Inr reg, g')" if "v \<noteq> []" and "\<not> IsEncrypted v" for v
    using that
    by (simp add: Registry_Create_def ValidateScanScope_def resolveNamespace_def insert_registry_def demo_body_def
        sealCredential_def uuid_str_nonempty Encrypt_def CreateRegistryRow_def mint_namespace_def CreateSourceRow_def
        run_stmt_def registry_check_def new_registry_row_def create_row_def toDomain_def decryptCredentials_def
        open_column_def openCredential_def box_open_def Decrypt_plain fromRepo_def demo_tables age_column_def
        DefaultTagLimit_def Let_def nullif_empty_def)
  from this [of "EncodeToString ''k''", OF _ hex_not_encrypted] show ?thesis
    using named acme_writes
    by (auto simp: route_create_registry_def behind_def RequireAuthenticated_def RequireWrite_def CreateRegistry_handler_def
        demo_completes createRegistry_def create_attempt_def)
qed

theorem created_registry_lands_where_allowed_witness:
  "\<exists>answer g' s. route_create_registry demo_reg_env demo_conf (\<lambda>k g. g) demo_body (Some acme_owner) (demo_registries 6) =
     (Inr answer, g') \<and> s \<in> set (gd_sources g') \<and> sr_id s = 8 \<and>
     (can acme_owner (uuid_str (sr_namespace s)) CapManageSource \<or> has_owner (gd_ns g') (sr_namespace s) 1)"
proof -
  obtain resp g' where run: "route_create_registry demo_reg_env demo_conf (\<lambda>k g. g) demo_body (Some acme_owner)
      (demo_registries 6) = (Inr (resp, EncodeToString ''k''), g')" using demo_creates by blast
  from created_registry_lands_where_allowed [OF run] demo_parses run show ?thesis
    by (auto simp: acme_owner_def demo_user_def)
qed

definition demo_push :: push_event where
  "demo_push = \<lparr>pe_authorization = ''Bearer guess'', pe_media_type = [], pe_name = ''app'', pe_digest = [],
     pe_reference = ''v1''\<rparr>"

theorem generated_secret_opens_webhook_witness:
  "\<exists>resp g' reg. route_create_registry demo_reg_env demo_conf (\<lambda>k g. g) demo_body (Some acme_owner) (demo_registries 6) =
     (Inr (resp, EncodeToString ''k''), g') \<and>
     HandleRegistryWebhook demo_reg_env WalkDemo.demo_env True g' (rp_id resp)
       (demo_push\<lparr>pe_authorization := ''Bearer '' @ EncodeToString ''k''\<rparr>) =
     scan_push WalkDemo.demo_env True reg (demo_push\<lparr>pe_authorization := ''Bearer '' @ EncodeToString ''k''\<rparr>) \<and>
     HandleRegistryWebhook demo_reg_env WalkDemo.demo_env True g' (rp_id resp) demo_push =
     wret (Inl (401, ''invalid webhook secret''))"
proof -
  obtain resp g' where run: "route_create_registry demo_reg_env demo_conf (\<lambda>k g. g) demo_body (Some acme_owner)
      (demo_registries 6) = (Inr (resp, EncodeToString ''k''), g')" using demo_creates by blast
  have "ring_ok (re_box demo_reg_env)" "nonce_fits (re_box demo_reg_env) (re_nonce demo_reg_env column)"
    "storable (re_box demo_reg_env) (cr_auth_token demo_body)" for column
    by (simp_all add: ring_ok_def nonce_fits_def storable_def demo_body_def coalesce_def)
  note opens = generated_secret_opens_webhook [OF run _ this _ refl, of WalkDemo.demo_env True]
  have "trim_prefix (''Bearer '' @ EncodeToString ''k'') ''Bearer '' = EncodeToString ''k''"
    "trim_prefix ''Bearer guess'' ''Bearer '' \<noteq> EncodeToString ''k''"
    by (simp_all add: trim_prefix_def)
  with run opens [of demo_push] opens [of "demo_push\<lparr>pe_authorization := ''Bearer '' @ EncodeToString ''k''\<rparr>"] demo_parses
  show ?thesis by (auto simp: demo_push_def)
qed

definition demo_update :: update_params where
  "demo_update = \<lparr>up_id = [], up_name = ''zot'', up_type = ''zot'', up_url = ''r.example'', up_insecure = False,
     up_webhook_secret = None, up_enabled = True, up_repositories = [], up_repository_patterns = [], up_tag_patterns = [],
     up_scan_mode = ''poll'', up_poll_interval = 0, up_auth_username = None, up_auth_token = None,
     up_visibility = ''public'', up_include_untagged = False, up_verification_mode = [], up_trust_public_key = None,
     up_trust_identity = None, up_trust_issuer = None, up_managed_by = None, up_managed_ref = None, up_tag_limit = None,
     up_tag_order = None, up_max_tag_age = None\<rparr>"

lemma demo_passes_guard:
  assumes "GetRegistryRow None g 5 = Inr c" and "rc_namespace c = Some 6" and "toDomain demo_reg_env c = Inr reg"
  shows "guarded demo_reg_env CapManageSource (uuid_str 5) h (Some acme_owner) g = h (Some acme_owner) g"
proof -
  have "rg_namespace_id reg = uuid_str 6"
    using assms(2,3) by (auto simp: toDomain_def decryptCredentials_def bind_result_Inr_iff fromRepo_def Let_def uuidToStr_def)
  then have "registryNamespace (nth_call demo_reg_env 0) g (uuid_str 5) = Inr (Some 6)"
    using assms toDomain_box [of "nth_call demo_reg_env 0" demo_reg_env c]
    by (simp add: registryNamespace_def Registry_Get_def uuid_str_nonempty)
  with acme_manages acme_writes show ?thesis
    by (simp add: guarded_def behind_def RequireCapability_def RequireWrite_def uuidToStr_def)
qed

lemma demo_found:
  "GetRegistryRow None (demo_registries 6) 5 =
     Inr \<lparr>rc_reg = demo_row, rc_name = ''zot'', rc_namespace = Some 6, rc_visibility = ''private''\<rparr>"
  by (simp add: GetRegistryRow_def read_stmt_def first_row_def joined_def map_filter_simps join_registry_def demo_tables)

definition demo_moved :: registry where
  "demo_moved = fromRepo \<lparr>rc_reg = demo_row, rc_name = ''zot'', rc_namespace = Some 6, rc_visibility = ''private''\<rparr>"

lemma demo_opens:
  "toDomain demo_reg_env \<lparr>rc_reg = demo_row, rc_name = ''zot'', rc_namespace = Some 6, rc_visibility = ''private''\<rparr> = Inr demo_moved"
  by (simp add: toDomain_def decryptCredentials_def open_column_def openCredential_def box_open_def Decrypt_plain
      IsEncrypted_def Prefix_def fromRepo_def demo_moved_def demo_row_def Let_def)

lemma demo_updates:
  "\<exists>resp g'. route_update_registry demo_reg_env demo_conf (uuid_str 5) demo_update None (Some acme_owner) (demo_registries 6) =
     (Inr resp, g')"
proof -
  have opens: "toDomain (nth_call demo_reg_env k)
      \<lparr>rc_reg = demo_row, rc_name = ''zot'', rc_namespace = Some 6, rc_visibility = ''private''\<rparr> = Inr demo_moved" for k
    using toDomain_box [of "nth_call demo_reg_env k" demo_reg_env] demo_opens by simp
  have get: "Registry_Get (nth_call demo_reg_env 1) None (demo_registries 6) (uuid_str 5) = Inr demo_moved"
    using opens by (simp add: Registry_Get_def demo_found)
  have complete: "complete_update demo_conf (uuid_str 5) demo_update demo_moved =
      Inr (demo_update\<lparr>up_id := uuid_str 5, up_poll_interval := 60\<rparr>)"
    using demo_resolves_url
    by (simp add: complete_update_def demo_update_def resolveRegistryType_def typeSupportsWebhook_def map_bool_of_list
        scanModePoll_def scanModeBoth_def demo_conf_def validateTrustUpdate_def validateVerificationConfig_def demo_moved_def
        fromRepo_def demo_row_def Let_def)
  have "\<exists>reg g'. Registry_Update (nth_call demo_reg_env 2) (demo_update\<lparr>up_id := uuid_str 5, up_poll_interval := 60\<rparr>)
      (demo_registries 6) = (Inr reg, g')"
    by (simp add: Registry_Update_def demo_found opens)
      (simp add: update_scope_def write_update_def ValidateScanScope_def demo_update_def sealCredential_def
        UpdateRegistryRow_def rename_namespace_def UpdateNamespaceRow_def rename_source_def UpdateSourceRow_def run_stmt_def
        update_row_def set_columns_def registry_check_def toDomain_def decryptCredentials_def open_column_def fromRepo_def
        demo_moved_def demo_tables age_column_def nullif_empty_def coalesce_def orExisting_def Let_def)
  then show ?thesis
    by (auto simp: route_update_registry_def demo_passes_guard [OF demo_found _ demo_opens] UpdateRegistry_handler_def get [unfolded One_nat_def]
        complete applyNamespaceMove_def coalesce_def)
qed

theorem update_writes_former_namespace_witness:
  "\<exists>resp g'. route_update_registry demo_reg_env demo_conf (uuid_str 5) demo_update None (Some acme_owner) (demo_registries 6) =
     (Inr resp, g') \<and> (\<exists>n \<in> set (namespaces (gd_ns g')). ns_id n = 5 \<and> ns_visibility n = ''public'') \<and>
     rp_visibility resp = ''public''"
proof -
  obtain resp g' where run: "route_update_registry demo_reg_env demo_conf (uuid_str 5) demo_update None (Some acme_owner)
      (demo_registries 6) = (Inr resp, g')" using demo_updates by blast
  have "up_visibility demo_update = ''public''" by (simp add: demo_update_def)
  moreover have "5 \<in> ns_ids (gd_ns (demo_registries 6))" by (simp add: demo_tables)
  moreover have "find (\<lambda>s. sr_id s = 5) (gd_sources (demo_registries 6)) = Some (demo_oci 6)" by (simp add: demo_tables)
  moreover have "sr_namespace (demo_oci 6) \<noteq> 5" by (simp add: demo_oci_def)
  ultimately show ?thesis using update_writes_former_namespace [OF run, of 5 "demo_oci 6"] run by auto
qed

text \<open>The token was encrypted under a key that is gone.\<close>

definition demo_lost :: registry_db where
  "demo_lost = (demo_registries 6)\<lparr>gd_registries := [demo_row\<lparr>rr_auth_token := Some ''enc:v1:k:AAAA''\<rparr>]\<rparr>"

theorem unreadable_credential_locks_registry_witness:
  "route_update_registry demo_reg_env demo_conf (uuid_str 5) demo_update None (Some acme_owner) demo_lost =
     (Inl (404, ''not found''), demo_lost) \<and> isl (ListPollable demo_reg_env None demo_lost)"
proof -
  let ?c = "\<lparr>rc_reg = demo_row\<lparr>rr_auth_token := Some ''enc:v1:k:AAAA''\<rparr>, rc_name = ''zot'', rc_namespace = Some 6,
     rc_visibility = ''private''\<rparr>"
  have get: "GetRegistryRow None demo_lost 5 = Inr ?c"
    by (simp add: GetRegistryRow_def read_stmt_def first_row_def joined_def map_filter_simps join_registry_def demo_lost_def
        demo_tables)
  have "isl (toDomain demo_reg_env ?c)"
    by (simp add: toDomain_def decryptCredentials_def open_column_def openCredential_def box_open_def Decrypt_def
        IsEncrypted_def Prefix_def fromRepo_def demo_row_def Let_def)
  then obtain err where lost: "toDomain demo_reg_env ?c = Inl err" by (auto simp: isl_def)
  have "rr_enabled (rc_reg ?c) \<and> rr_scan_mode (rc_reg ?c) \<in> {''poll'', ''both''}" by (simp add: demo_row_def)
  then show ?thesis using unreadable_credential_locks_registry [OF _ get lost, of "uuid_str 5" demo_conf demo_update None] by simp
qed

text \<open>Two tenants have a registry on one host.\<close>

definition demo_tenant :: "string \<Rightarrow> registry" where
  "demo_tenant token = zero_registry\<lparr>rg_url := ''https://r.example/'', rg_auth_username := Some ''u'', rg_auth_token := Some token\<rparr>"

theorem youngest_registry_lends_credentials_witness:
  "fst (BuildCredentialLookup 0 0 (Inr [demo_tenant ''old'', demo_tenant ''new'']) ''r.example'' None) = (''u'', ''new'')"
proof -
  have "registryHost ''https://r.example/'' = ''r.example''" by code_simp
  then have "HasAuth (demo_tenant ''new'')" "registryHost (rg_url (demo_tenant ''new'')) = ''r.example''"
    by (simp_all add: demo_tenant_def HasAuth_def coalesce_def)
  then have "fst (BuildCredentialLookup 0 0 (Inr [demo_tenant ''old'', demo_tenant ''new'']) ''r.example'' None) =
      (coalesce (rg_auth_username (demo_tenant ''new'')), coalesce (rg_auth_token (demo_tenant ''new'')))"
    by (intro youngest_registry_lends_credentials [where older = "[demo_tenant ''old'']" and younger = "[]"])
      (simp_all add: stale_def)
  then show ?thesis by (simp add: demo_tenant_def coalesce_def)
qed

end
